(* ===== verification/Prelude.thy ===== *)
theory Prelude
  imports Main "HOL-Library.Word"
begin

unbundle bit_operations_syntax

text \<open>
  What every component shares: the fixed-width integer types of the C code, bytes and
  little-endian words, single-bit idioms of register code, the result type of code that
  polls hardware with the loop itself, and the lemmas on lists and words the proofs share.
\<close>

section \<open>Integer types\<close>

type_synonym u8 = "8 word"
type_synonym u16 = "16 word"
type_synonym u32 = "32 word"
type_synonym u64 = "64 word"

section \<open>Single bits\<close>

text \<open>
  \<open>reg & (1 << n)\<close> as a condition is \<open>bit reg n\<close>, \<open>reg |= (1 << n)\<close> is
  \<open>set_bit n reg\<close> and \<open>reg &= ~(1 << n)\<close> is \<open>unset_bit n reg\<close>; the lemmas
  below are those equations.
\<close>

lemma and_one_shl_eq_0_iff: "(w AND push_bit n 1 = 0) = (\<not> bit w n)" for w :: "'a::len word"
proof
  assume h: "w AND push_bit n 1 = 0"
  show "\<not> bit w n"
  proof
    assume b: "bit w n"
    then have "n < LENGTH('a)" by (rule bit_imp_le_length)
    with b have "bit (w AND push_bit n 1) n" by (simp add: bit_simps)
    with h show False by simp
  qed
next
  assume "\<not> bit w n"
  then show "w AND push_bit n 1 = 0"
    by (intro bit_eqI) (auto simp: bit_simps)
qed

lemma or_one_shl_eq_set_bit: "w OR push_bit n 1 = set_bit n w" for w :: "'a::len word"
  by (simp add: set_bit_eq_or)

lemma and_not_one_shl_eq_unset_bit: "w AND NOT (push_bit n 1) = unset_bit n w" for w :: "'a::len word"
  by (simp add: unset_bit_eq_and_not)

lemma bit_set_bit_word [simp]:
  "bit (set_bit m w) n = (bit w n \<or> (m = n \<and> n < LENGTH('a)))" for w :: "'a::len word"
  by (auto simp: bit_simps dest: bit_imp_le_length)

lemma bit_unset_bit_word [simp]:
  "bit (unset_bit m w) n = (bit w n \<and> m \<noteq> n)" for w :: "'a::len word"
  by (auto simp: bit_simps)

text \<open>An assignment of one bit, \<open>if (b) reg |= (1 << n); else reg &= ~(1 << n);\<close>.\<close>

definition put_bit :: "nat \<Rightarrow> bool \<Rightarrow> 'a::len word \<Rightarrow> 'a word" where
  "put_bit n b w = (if b then set_bit n w else unset_bit n w)"

lemma bit_put_bit [simp]:
  "bit (put_bit m b w) n = (if m = n then b \<and> n < LENGTH('a) else bit w n)" for w :: "'a::len word"
  by (auto simp: put_bit_def dest: bit_imp_le_length)

lemma put_bit_comm: "m \<noteq> n \<Longrightarrow> put_bit m a (put_bit n b w) = put_bit n b (put_bit m a w)"
  for w :: "'a::len word"
  by (intro bit_eqI) auto

lemma put_bit_idem [simp]: "put_bit n a (put_bit n b w) = put_bit n a w" for w :: "'a::len word"
  by (intro bit_eqI) auto

lemma unat_less_u8: "unat (w :: u8) < 256"
  using unsigned_less [where ?'a = nat, of w] by simp

lemma unat_less_u16: "unat (w :: u16) < 65536"
  using unsigned_less [where ?'a = nat, of w] by simp

lemma unat_less_u32: "unat (w :: u32) < 4294967296"
  using unsigned_less [where ?'a = nat, of w] by simp

lemma of_nat_eq_iff_u16: "m < 65536 \<Longrightarrow> n < 65536 \<Longrightarrow> (of_nat m :: u16) = of_nat n \<longleftrightarrow> m = n"
  by (simp add: word_of_nat_eq_iff take_bit_nat_eq_self)

section \<open>Bytes, little endian\<close>

text \<open>The bytes of a word as the AVR and the x86 host keep it in memory, least significant first.\<close>

fun le_bytes :: "nat \<Rightarrow> 'a::len word \<Rightarrow> u8 list" where
  "le_bytes 0 w = []"
| "le_bytes (Suc n) w = ucast w # le_bytes n (drop_bit 8 w)"

fun le_word :: "u8 list \<Rightarrow> 'a::len word" where
  "le_word [] = 0"
| "le_word (b # bs) = ucast b OR push_bit 8 (le_word bs)"

lemma length_le_bytes [simp]: "length (le_bytes n w) = n"
  by (induction n arbitrary: w) auto

lemma bit_le_word_le_bytes:
  "bit (le_word (le_bytes n w) :: 'a::len word) k = (bit w k \<and> k < 8 * n)" for w :: "'a::len word"
proof (induction n arbitrary: w k)
  case 0
  then show ?case by simp
next
  case (Suc n)
  show ?case
    by (cases "k < 8") (auto simp: bit_simps Suc.IH dest: bit_imp_le_length)
qed

lemma le_word_le_bytes:
  "LENGTH('a) \<le> 8 * n \<Longrightarrow> le_word (le_bytes n w) = w" for w :: "'a::len word"
  by (intro bit_eqI) (auto simp: bit_le_word_le_bytes dest: bit_imp_le_length)

lemma le_word_le_bytes_u16 [simp]: "le_word (le_bytes 2 w) = w" for w :: u16
  by (rule le_word_le_bytes) simp

lemma le_word_le_bytes_u32 [simp]: "le_word (le_bytes 4 w) = w" for w :: u32
  by (rule le_word_le_bytes) simp

lemma le_word_le_bytes_u64 [simp]: "le_word (le_bytes 8 w) = w" for w :: u64
  by (rule le_word_le_bytes) simp

lemma le_bytes_le_word:
  "8 * length bs \<le> LENGTH('a) \<Longrightarrow> le_bytes (length bs) (le_word bs :: 'a::len word) = bs"
proof (induction bs)
  case Nil
  then show ?case by simp
next
  case (Cons b bs)
  have b: "ucast (ucast b OR push_bit 8 (le_word bs :: 'a word)) = b"
    using Cons.prems by (intro bit_eqI) (auto simp: bit_simps)
  have "drop_bit 8 (ucast b OR push_bit 8 (le_word bs)) = take_bit (LENGTH('a) - 8) (le_word bs :: 'a word)"
    using Cons.prems by (intro bit_eqI) (auto simp: bit_simps dest: bit_imp_le_length)
  moreover have "take_bit (LENGTH('a) - 8) (le_word bs :: 'a word) = le_word bs"
  proof (rule bit_eqI)
    fix k
    have "bit (le_word bs :: 'a word) k \<Longrightarrow> k < 8 * length bs"
    proof (induction bs arbitrary: k)
      case Nil
      then show ?case by simp
    next
      case (Cons c cs)
      then show ?case
        by (cases "k < 8") (auto simp: bit_simps dest: bit_imp_le_length dest!: Cons.IH)
    qed
    then show "bit (take_bit (LENGTH('a) - 8) (le_word bs :: 'a word)) k = bit (le_word bs :: 'a word) k"
      using Cons.prems by (auto simp: bit_simps)
  qed
  ultimately show ?case
    using b Cons by simp
qed

section \<open>Running code that polls\<close>

text \<open>
  Firmware waits by reading volatile registers and variables again and again while the
  hardware, the bus and the interrupt handlers change them. A \<open>world\<close> is the list of
  what happens to the state between one poll and the next; every poll of a waiting loop
  consumes one element. A run ends in one of three ways: it returns (\<open>Inr\<close>, with the
  value, the state and the rest of the world), the code is still waiting when the world
  ends (\<open>Waiting\<close>), or it has entered a loop with no exit (\<open>Hang\<close>) or broken a memory
  rule of C (\<open>Fault\<close>).
\<close>

datatype stop = Waiting | Hang | Fault

type_synonym 's world = "('s \<Rightarrow> 's) list"

type_synonym ('s, 'a) run = "stop + 'a \<times> 's \<times> 's world"

definition bind_run :: "('s, 'a) run \<Rightarrow> ('a \<Rightarrow> 's \<Rightarrow> 's world \<Rightarrow> ('s, 'b) run) \<Rightarrow> ('s, 'b) run" where
  "bind_run m f = (case m of Inl e \<Rightarrow> Inl e | Inr (a, s, w) \<Rightarrow> f a s w)"

lemma bind_run_simps [simp]:
  "bind_run (Inl e) f = Inl e"
  "bind_run (Inr (a, s, w)) f = f a s w"
  by (simp_all add: bind_run_def)

lemma bind_run_Inr_iff:
  "bind_run m f = Inr r \<longleftrightarrow> (\<exists>a s w. m = Inr (a, s, w) \<and> f a s w = Inr r)"
  by (auto simp: bind_run_def split: sum.splits)

lemma bind_run_assoc:
  "bind_run (bind_run m f) g = bind_run m (\<lambda>a s w. bind_run (f a s w) g)"
  by (auto simp: bind_run_def split: sum.splits)

text \<open>
  A waiting loop: \<open>f\<close> is one pass through its body, with loop variables \<open>l\<close>; it either leaves
  the loop with a result (\<open>Inl\<close>) or goes round again (\<open>Inr\<close>), after the next element of the
  world.
\<close>

fun poll_until :: "('l \<Rightarrow> 's \<Rightarrow> 'a \<times> 's + 'l \<times> 's) \<Rightarrow> 'l \<Rightarrow> 's world \<Rightarrow> 's \<Rightarrow> ('s, 'a) run" where
  "poll_until f l w s =
     (case f l s of
        Inl (a, s') \<Rightarrow> Inr (a, s', w)
      | Inr (l', s') \<Rightarrow> (case w of [] \<Rightarrow> Inl Waiting | e # w' \<Rightarrow> poll_until f l' w' (e s')))"

declare poll_until.simps [simp del]

lemma poll_until_exit: "f l s = Inl (a, s') \<Longrightarrow> poll_until f l w s = Inr (a, s', w)"
  by (simp add: poll_until.simps)

lemma poll_until_round: "f l s = Inr (l', s') \<Longrightarrow> poll_until f l (e # w) s = poll_until f l' w (e s')"
  by (simp add: poll_until.simps [of f l "e # w" s])

lemma poll_until_end: "f l s = Inr (l', s') \<Longrightarrow> poll_until f l [] s = Inl Waiting"
  by (simp add: poll_until.simps)

lemma poll_until_world: "poll_until f l w s = Inr (a, s', w') \<Longrightarrow> length w' \<le> length w"
proof (induction f l w s rule: poll_until.induct)
  case (1 f l w s)
  then show ?case
    by (subst (asm) (2) poll_until.simps)
      (fastforce split: sum.splits list.splits prod.splits)
qed

lemma poll_until_world_set: "poll_until f l w s = Inr (a, s', w') \<Longrightarrow> set w' \<subseteq> set w"
proof (induction f l w s rule: poll_until.induct)
  case (1 f l w s)
  then show ?case
    by (subst (asm) (2) poll_until.simps)
      (fastforce split: sum.splits list.splits prod.splits)
qed

text \<open>What every pass keeps and the world keeps, the loop keeps; and the result comes from a pass.\<close>

lemma poll_until_inv:
  assumes "poll_until f l w s = Inr (a, s', w')" and "P s"
    and "\<And>l s a s'. P s \<Longrightarrow> f l s = Inl (a, s') \<Longrightarrow> Q a s'"
    and "\<And>l s l' s'. P s \<Longrightarrow> f l s = Inr (l', s') \<Longrightarrow> P s'"
    and "\<And>e s. e \<in> set w \<Longrightarrow> P s \<Longrightarrow> P (e s)"
  shows "Q a s'"
  using assms
proof (induction f l w s rule: poll_until.induct)
  case (1 f l w s)
  show ?case
  proof (cases "f l s")
    case (Inl r)
    with "1.prems" show ?thesis by (cases r) (auto simp: poll_until_exit)
  next
    case (Inr r)
    obtain l' t where r: "r = (l', t)" by (cases r)
    show ?thesis
    proof (cases w)
      case Nil
      with "1.prems"(1) Inr r show ?thesis by (simp add: poll_until_end)
    next
      case (Cons e w'')
      have "poll_until f l' w'' (e t) = Inr (a, s', w')"
        using "1.prems"(1) Inr r Cons by (simp add: poll_until_round)
      moreover have "P (e t)"
        using "1.prems"(2,4,5) Inr r Cons by auto
      ultimately show ?thesis
        using "1.IH" [OF Inr r [symmetric] Cons] "1.prems"(3,4,5) Cons by auto
    qed
  qed
qed

text \<open>The same with an invariant that speaks of the loop's variables too.\<close>

lemma poll_until_inv_loop:
  assumes "poll_until f l w s = Inr (a, s', w')" and "P l s"
    and "\<And>l s a s'. P l s \<Longrightarrow> f l s = Inl (a, s') \<Longrightarrow> Q a s'"
    and "\<And>l s l' s' e. P l s \<Longrightarrow> f l s = Inr (l', s') \<Longrightarrow> e \<in> set w \<Longrightarrow> P l' (e s')"
  shows "Q a s'"
  using assms
proof (induction f l w s rule: poll_until.induct)
  case (1 f l w s)
  show ?case
  proof (cases "f l s")
    case (Inl r)
    with "1.prems" show ?thesis by (cases r) (auto simp: poll_until_exit)
  next
    case (Inr r)
    obtain l' t where r: "r = (l', t)" by (cases r)
    show ?thesis
    proof (cases w)
      case Nil
      with "1.prems"(1) Inr r show ?thesis by (simp add: poll_until_end)
    next
      case (Cons e w'')
      have "poll_until f l' w'' (e t) = Inr (a, s', w')"
        using "1.prems"(1) Inr r Cons by (simp add: poll_until_round)
      moreover have "P l' (e t)"
        using "1.prems"(2,4) Inr r Cons by auto
      ultimately show ?thesis
        using "1.IH" [OF Inr r [symmetric] Cons] "1.prems"(3,4) Cons by (meson list.set_intros(2))
    qed
  qed
qed

end
