(* ===== verification/Commands.thy ===== *)
theory Commands
  imports Prelude
begin

text \<open>
  The wire format shared by host and gadget (\<open>commands.h\<close>): the command codes, the packed
  structures as the bytes that travel, and the gadget's error codes.
\<close>

section \<open>Command and error codes\<close>

definition CMD_STORE :: u8 where "CMD_STORE = 0x00"
definition CMD_READ :: u8 where "CMD_READ = 0x03"
definition CMD_DELETE :: u8 where "CMD_DELETE = 0x06"
definition CMD_NULL :: u8 where "CMD_NULL = 0xFF"

definition ENOERR :: u8 where "ENOERR = 0"
definition EFULL :: u8 where "EFULL = 1"
definition EINVALIDINDEX :: u8 where "EINVALIDINDEX = 2"
definition EINVALIDCOMMAND :: u8 where "EINVALIDCOMMAND = 3"
definition EWTF :: u8 where "EWTF = 4"

lemmas cmd_defs = CMD_STORE_def CMD_READ_def CMD_DELETE_def CMD_NULL_def
lemmas gerr_defs = ENOERR_def EFULL_def EINVALIDINDEX_def EINVALIDCOMMAND_def EWTF_def

lemma cmd_distinct [simp]:
  "CMD_STORE \<noteq> CMD_READ" "CMD_READ \<noteq> CMD_STORE" "CMD_STORE \<noteq> CMD_DELETE" "CMD_DELETE \<noteq> CMD_STORE"
  "CMD_READ \<noteq> CMD_DELETE" "CMD_DELETE \<noteq> CMD_READ" "CMD_NULL \<noteq> CMD_STORE" "CMD_STORE \<noteq> CMD_NULL"
  "CMD_NULL \<noteq> CMD_READ" "CMD_READ \<noteq> CMD_NULL" "CMD_NULL \<noteq> CMD_DELETE" "CMD_DELETE \<noteq> CMD_NULL"
  by (simp_all add: cmd_defs)

section \<open>struct usb\_cmd: kernel driver to gadget\<close>

record usb_cmd =
  uc_cmd_type :: u8
  uc_index :: u64

text \<open>The structure is packed: one byte of type, then the eight bytes of the index.\<close>

definition sizeof_usb_cmd :: nat where "sizeof_usb_cmd = 9"

definition usb_cmd_bytes :: "usb_cmd \<Rightarrow> u8 list" where
  "usb_cmd_bytes c = uc_cmd_type c # le_bytes 8 (uc_index c)"

definition usb_cmd_of_bytes :: "u8 list \<Rightarrow> usb_cmd" where
  "usb_cmd_of_bytes bs = \<lparr>uc_cmd_type = hd bs, uc_index = le_word (take 8 (tl bs))\<rparr>"

lemma length_usb_cmd_bytes [simp]: "length (usb_cmd_bytes c) = 9"
  by (simp add: usb_cmd_bytes_def)

lemma usb_cmd_of_usb_cmd_bytes [simp]: "usb_cmd_of_bytes (usb_cmd_bytes c) = c"
  by (simp add: usb_cmd_of_bytes_def usb_cmd_bytes_def)

lemma usb_cmd_bytes_of_bytes:
  assumes "length bs = 9"
  shows "usb_cmd_bytes (usb_cmd_of_bytes bs) = bs"
proof -
  from assms obtain b cs where bs: "bs = b # cs" and n: "length cs = 8"
    by (cases bs) auto
  have "le_bytes (length cs) (le_word cs :: u64) = cs"
    by (rule le_bytes_le_word) (simp add: n)
  with bs n show ?thesis
    by (simp add: usb_cmd_bytes_def usb_cmd_of_bytes_def)
qed

section \<open>struct command: user space to kernel driver\<close>

record command =
  c_cmd_type :: u8
  c_index :: u64
  c_data :: u16

definition sizeof_command :: nat where "sizeof_command = 11"

definition command_bytes :: "command \<Rightarrow> u8 list" where
  "command_bytes c = c_cmd_type c # le_bytes 8 (c_index c) @ le_bytes 2 (c_data c)"

definition command_of_bytes :: "u8 list \<Rightarrow> command" where
  "command_of_bytes bs =
     \<lparr>c_cmd_type = hd bs, c_index = le_word (take 8 (tl bs)), c_data = le_word (take 2 (drop 9 bs))\<rparr>"

lemma length_command_bytes [simp]: "length (command_bytes c) = 11"
  by (simp add: command_bytes_def)

lemma command_of_command_bytes [simp]: "command_of_bytes (command_bytes c) = c"
  by (simp add: command_of_bytes_def command_bytes_def)

end
