(* ===== verification/ConfigDescriptor.thy ===== *)
theory ConfigDescriptor
  imports Prelude
begin

text \<open>
  The search functions over configuration descriptors of \<open>HighLevel/ConfigDescriptor.c\<close> and
  \<open>ConfigDescriptor.h\<close>. A pointer into the descriptor is an offset into the memory that holds it;
  a read outside that memory is \<open>Fault\<close>. The loops have no bound of their own, so they are partial
  functions: \<open>None\<close> is a loop that never ends.
\<close>

section \<open>Stepping\<close>

definition DESCRIPTOR_SIZE :: "u8 list \<Rightarrow> nat \<Rightarrow> stop + u8" where
  "DESCRIPTOR_SIZE mem loc = (if loc < length mem then Inr (mem ! loc) else Inl Fault)"

definition DESCRIPTOR_TYPE :: "u8 list \<Rightarrow> nat \<Rightarrow> stop + u8" where
  "DESCRIPTOR_TYPE mem loc = (if Suc loc < length mem then Inr (mem ! Suc loc) else Inl Fault)"

definition USB_GetNextDescriptor :: "u8 list \<Rightarrow> u16 \<Rightarrow> nat \<Rightarrow> stop + u16 \<times> nat" where
  "USB_GetNextDescriptor mem BytesRem CurrConfigLoc =
     (case DESCRIPTOR_SIZE mem CurrConfigLoc of
        Inl e \<Rightarrow> Inl e
      | Inr sz \<Rightarrow>
          let CurrDescriptorSize = (ucast sz :: u16)
          in Inr (BytesRem - CurrDescriptorSize, CurrConfigLoc + unat CurrDescriptorSize))"

text \<open>One step and the type of the descriptor it leads to.\<close>

definition next_typed :: "u8 list \<Rightarrow> u16 \<Rightarrow> nat \<Rightarrow> stop + u8 \<times> u16 \<times> nat" where
  "next_typed mem BytesRem loc =
     (case USB_GetNextDescriptor mem BytesRem loc of
        Inl e \<Rightarrow> Inl e
      | Inr (BytesRem, loc) \<Rightarrow>
          (case DESCRIPTOR_TYPE mem loc of Inl e \<Rightarrow> Inl e | Inr ty \<Rightarrow> Inr (ty, BytesRem, loc)))"

section \<open>Searches\<close>

partial_function (option) USB_GetNextDescriptorOfType ::
  "u8 list \<Rightarrow> u8 \<Rightarrow> u16 \<Rightarrow> nat \<Rightarrow> (stop + u16 \<times> nat) option" where
  "USB_GetNextDescriptorOfType mem Type BytesRem loc =
     (if BytesRem = 0 then Some (Inr (BytesRem, loc))
      else case next_typed mem BytesRem loc of
             Inl e \<Rightarrow> Some (Inl e)
           | Inr (ty, BytesRem, loc) \<Rightarrow>
               if ty = Type then Some (Inr (BytesRem, loc))
               else USB_GetNextDescriptorOfType mem Type BytesRem loc)"

partial_function (option) USB_GetNextDescriptorOfTypeBefore ::
  "u8 list \<Rightarrow> u8 \<Rightarrow> u8 \<Rightarrow> u16 \<Rightarrow> nat \<Rightarrow> (stop + u16 \<times> nat) option" where
  "USB_GetNextDescriptorOfTypeBefore mem Type BeforeType BytesRem loc =
     (if BytesRem = 0 then Some (Inr (BytesRem, loc))
      else case next_typed mem BytesRem loc of
             Inl e \<Rightarrow> Some (Inl e)
           | Inr (ty, BytesRem, loc) \<Rightarrow>
               if ty = Type then Some (Inr (BytesRem, loc))
               else if ty = BeforeType then Some (Inr (0, loc))
               else USB_GetNextDescriptorOfTypeBefore mem Type BeforeType BytesRem loc)"

definition USB_GetNextDescriptorOfTypeAfter ::
  "u8 list \<Rightarrow> u8 \<Rightarrow> u8 \<Rightarrow> u16 \<Rightarrow> nat \<Rightarrow> (stop + u16 \<times> nat) option" where
  "USB_GetNextDescriptorOfTypeAfter mem Type AfterType BytesRem loc =
     (case USB_GetNextDescriptorOfType mem AfterType BytesRem loc of
        None \<Rightarrow> None
      | Some (Inl e) \<Rightarrow> Some (Inl e)
      | Some (Inr (BytesRem, loc)) \<Rightarrow>
          if BytesRem \<noteq> 0 then USB_GetNextDescriptorOfType mem Type BytesRem loc
          else Some (Inr (BytesRem, loc)))"

definition DESCRIPTOR_SEARCH_Found :: u8 where "DESCRIPTOR_SEARCH_Found = 0"
definition DESCRIPTOR_SEARCH_Fail :: u8 where "DESCRIPTOR_SEARCH_Fail = 1"
definition DESCRIPTOR_SEARCH_NotFound :: u8 where "DESCRIPTOR_SEARCH_NotFound = 2"
definition DESCRIPTOR_SEARCH_COMP_EndOfDescriptor :: u8 where "DESCRIPTOR_SEARCH_COMP_EndOfDescriptor = 2"

lemmas search_defs = DESCRIPTOR_SEARCH_Found_def DESCRIPTOR_SEARCH_Fail_def DESCRIPTOR_SEARCH_NotFound_def
  DESCRIPTOR_SEARCH_COMP_EndOfDescriptor_def

text \<open>The comparator is the caller's; it sees the memory and the offset.\<close>

partial_function (option) USB_GetNextDescriptorComp ::
  "u8 list \<Rightarrow> (nat \<Rightarrow> u8) \<Rightarrow> u16 \<Rightarrow> nat \<Rightarrow> (stop + u8 \<times> u16 \<times> nat) option" where
  "USB_GetNextDescriptorComp mem ComparatorRoutine BytesRem loc =
     (if BytesRem = 0 then Some (Inr (DESCRIPTOR_SEARCH_COMP_EndOfDescriptor, BytesRem, loc))
      else case USB_GetNextDescriptor mem BytesRem loc of
             Inl e \<Rightarrow> Some (Inl e)
           | Inr (BytesRem', loc') \<Rightarrow>
               let ErrorCode = ComparatorRoutine loc'
               in if ErrorCode \<noteq> DESCRIPTOR_SEARCH_NotFound then
                    (if ErrorCode = DESCRIPTOR_SEARCH_Fail then Some (Inr (ErrorCode, BytesRem, loc))
                     else Some (Inr (ErrorCode, BytesRem', loc')))
                  else USB_GetNextDescriptorComp mem ComparatorRoutine BytesRem' loc')"

section \<open>Well-formed descriptors\<close>

text \<open>A descriptor is at least two bytes, the first of which is its size.\<close>

definition wf_desc :: "u8 list \<Rightarrow> bool" where
  "wf_desc d \<longleftrightarrow> 2 \<le> length d \<and> unat (d ! 0) = length d"

lemma ucast_u8_u16 [simp]: "unat (ucast (b :: u8) :: u16) = unat b"
  using unat_less_u8 [of b] by (simp add: unsigned_ucast_eq take_bit_nat_eq_self)

lemma next_descriptor:
  assumes "wf_desc d" "length d \<le> n" "n < 65536"
  shows "USB_GetNextDescriptor (pre @ d @ post) (of_nat n) (length pre) = Inr (of_nat (n - length d), length pre + length d)"
proof -
  have "(ucast (d ! 0) :: u16) = of_nat (length d)"
    using assms(1) of_nat_unat [of "d ! 0", where ?'a = "16 word"] by (simp add: wf_desc_def)
  moreover have "DESCRIPTOR_SIZE (pre @ d @ post) (length pre) = Inr (d ! 0)"
    using assms(1) by (cases d) (simp_all add: DESCRIPTOR_SIZE_def wf_desc_def nth_append)
  moreover have "(of_nat n :: u16) - of_nat (length d) = of_nat (n - length d)"
    using assms(2) by (simp add: of_nat_diff)
  ultimately show ?thesis
    using assms by (simp add: USB_GetNextDescriptor_def Let_def wf_desc_def unat_of_nat take_bit_nat_eq_self)
qed


lemma next_typed_wf:
  assumes "wf_desc d" "length d \<le> n" "n < 65536" "2 \<le> length post"
  shows "next_typed (pre @ d @ post) (of_nat n) (length pre) = Inr (post ! 1, of_nat (n - length d), length pre + length d)"
  using assms
  by (simp add: next_typed_def next_descriptor DESCRIPTOR_TYPE_def nth_append)

lemma of_nat_u16_0: "n < 65536 \<Longrightarrow> (of_nat n :: u16) = 0 \<longleftrightarrow> n = 0"
  using of_nat_eq_iff_u16 [of n 0] by simp

text \<open>The first descriptor of a type after the current one, and what the search reports for it.\<close>

definition of_type :: "u8 \<Rightarrow> u8 list \<Rightarrow> bool" where
  "of_type ty d \<longleftrightarrow> d ! 1 = ty"

lemma search_skip:
  assumes "wf_desc d" "\<forall>x \<in> set ds. wf_desc x" "length (concat (d # ds)) < 65536" "2 \<le> length tail"
  shows "USB_GetNextDescriptorOfType (pre @ d @ concat ds @ tail) ty (of_nat (length (concat (d # ds)))) (length pre) =
    (case dropWhile (\<lambda>x. \<not> of_type ty x) ds of
       [] \<Rightarrow> Some (Inr (0, length pre + length (concat (d # ds))))
     | x # xs \<Rightarrow> Some (Inr (of_nat (length (concat (x # xs))), length pre + length (concat (d # ds)) - length (concat (x # xs)))))"
  using assms
proof (induction ds arbitrary: d pre)
  case Nil
  let ?n = "length (concat [d])"
  have n0: "(of_nat ?n :: u16) \<noteq> 0" using Nil.prems of_nat_u16_0 [of ?n] by (auto simp: wf_desc_def)
  have step: "next_typed (pre @ d @ tail) (of_nat ?n) (length pre) = Inr (tail ! 1, 0, length pre + length d)"
    using next_typed_wf [OF Nil.prems(1), of ?n tail pre] Nil.prems by simp
  show ?case
    using n0 step by (subst USB_GetNextDescriptorOfType.simps) (simp add: USB_GetNextDescriptorOfType.simps [of _ _ 0])
next
  case (Cons e es)
  let ?n = "length (concat (d # e # es))" and ?post = "concat (e # es) @ tail"
  have n0: "(of_nat ?n :: u16) \<noteq> 0" using Cons.prems of_nat_u16_0 [of ?n] by (auto simp: wf_desc_def)
  have e: "2 \<le> length e" using Cons.prems(2) by (simp add: wf_desc_def)
  have step: "next_typed (pre @ d @ ?post) (of_nat ?n) (length pre) =
      Inr (e ! 1, of_nat (length (concat (e # es))), length pre + length d)"
    using next_typed_wf [OF Cons.prems(1), of ?n ?post pre] Cons.prems(3) e by (simp add: nth_append)
  have IH: "USB_GetNextDescriptorOfType ((pre @ d) @ e @ concat es @ tail) ty (of_nat (length (concat (e # es)))) (length (pre @ d)) =
    (case dropWhile (\<lambda>x. \<not> of_type ty x) es of
       [] \<Rightarrow> Some (Inr (0, length (pre @ d) + length (concat (e # es))))
     | x # xs \<Rightarrow> Some (Inr (of_nat (length (concat (x # xs))), length (pre @ d) + length (concat (e # es)) - length (concat (x # xs)))))"
    using Cons.prems by (intro Cons.IH) simp_all
  show ?case
  proof (cases "of_type ty e")
    case True
    then show ?thesis
      using n0 step by (subst USB_GetNextDescriptorOfType.simps) (simp add: of_type_def)
  next
    case False
    then have "USB_GetNextDescriptorOfType (pre @ d @ concat (e # es) @ tail) ty (of_nat ?n) (length pre) =
        USB_GetNextDescriptorOfType ((pre @ d) @ e @ concat es @ tail) ty (of_nat (length (concat (e # es)))) (length (pre @ d))"
      using n0 step by (subst USB_GetNextDescriptorOfType.simps) (simp add: of_type_def)
    with IH False show ?thesis
      by (simp add: add.assoc del: dropWhile_eq_Nil_conv split: list.splits)
  qed
qed

text \<open>A descriptor of size 0 stops the walk.\<close>

lemma size_0_diverges:
  assumes "BytesRem \<noteq> 0" "Suc loc < length mem" "mem ! loc = 0" "mem ! Suc loc \<noteq> ty"
  shows "USB_GetNextDescriptorOfType mem ty BytesRem loc = None"
proof -
  have step: "next_typed mem BytesRem loc = Inr (mem ! Suc loc, BytesRem, loc)"
    using assms(2,3) by (simp add: next_typed_def USB_GetNextDescriptor_def DESCRIPTOR_SIZE_def DESCRIPTOR_TYPE_def)
  have "mem' = mem \<and> ty' = ty \<and> rem' = BytesRem \<and> loc' = loc \<longrightarrow> False"
    if "USB_GetNextDescriptorOfType mem' ty' rem' loc' = Some y" for mem' ty' rem' loc' y
    by (rule USB_GetNextDescriptorOfType.raw_induct [OF _ that])
      (use assms(1,4) step in \<open>fastforce split: if_splits sum.splits prod.splits\<close>)
  then show ?thesis
    by (metis not_None_eq)
qed

text \<open>C16: in a well-formed configuration descriptor (each sub-descriptor at least two bytes and its first
  byte its size) of less than 65536 bytes, with two more readable bytes behind it, the search from one sub-descriptor finds
  the next one of the type, with the number of bytes from there to the end, or ends at the end with 0 bytes remaining. The
  two bytes are needed because the search reads size and type once more behind the last sub-descriptor before it looks at
  the count. While bytes remain, a sub-descriptor of size 0 whose type is not the one searched for makes it loop for ever.\<close>

theorem GetNextDescriptorOfType_finds:
  assumes "wf_desc d" "\<forall>x \<in> set ds. wf_desc x" "length (concat (d # ds)) < 65536" "2 \<le> length tail"
  shows "USB_GetNextDescriptorOfType (pre @ d @ concat ds @ tail) ty (of_nat (length (concat (d # ds)))) (length pre) =
      (case dropWhile (\<lambda>x. \<not> of_type ty x) ds of
         [] \<Rightarrow> Some (Inr (0, length pre + length (concat (d # ds))))
       | x # xs \<Rightarrow> Some (Inr (of_nat (length (concat (x # xs))),
                             length pre + length (concat (d # ds)) - length (concat (x # xs))))) \<and>
    (k \<noteq> 0 \<and> b \<noteq> ty \<longrightarrow> USB_GetNextDescriptorOfType (pre @ [0, b] @ tail) ty k (length pre) = None)"
  using search_skip [OF assms] size_0_diverges [of k "length pre" "pre @ [0, b] @ tail" ty]
  by (simp add: nth_append)

theorem GetNextDescriptorOfType_finds_witness:
  "USB_GetNextDescriptorOfType ([] @ [2, 1] @ concat [[3, 4, 0], [4, 5, 7, 7], [2, 5]] @ [0, 0]) 5 11 0 = Some (Inr (6, 5)) \<and>
   USB_GetNextDescriptorOfType ([] @ [0, 1] @ [0, 0]) 5 11 0 = None"
  using GetNextDescriptorOfType_finds [of "[2, 1]" "[[3, 4, 0], [4, 5, 7, 7], [2, 5]]" "[0, 0]" "[]" 5 11 1]
  by (simp add: wf_desc_def of_type_def)

end
