(* ===== verification/AvrUsb.thy ===== *)
theory AvrUsb
  imports Prelude
begin

text \<open>
  The USB device controller of the ATmega32U4 as the firmware sees it (memory-mapped registers,
  one set per endpoint, of which \<open>UENUM\<close> selects one), and the register-level macros of
  \<open>LUFA/Drivers/USB/LowLevel/Endpoint.h\<close> and \<open>HighLevel/USBInterrupt.h\<close> on it.

  The controller is hardware: its reactions to register accesses (section \<open>Reactions of the
  controller\<close>) are the documented ones, with a single bank per endpoint, and are the
  assumptions of the model. The sections after it translate code.
\<close>

section \<open>Registers\<close>

text \<open>Bit positions, as \<open>avr/io.h\<close> names them.\<close>

definition EPEN :: nat where "EPEN = 0"
definition RSTDT :: nat where "RSTDT = 3"
definition STALLRQC :: nat where "STALLRQC = 4"
definition STALLRQ :: nat where "STALLRQ = 5"
definition EPDIR :: nat where "EPDIR = 0"
definition EPTYPE0 :: nat where "EPTYPE0 = 6"
definition EPBK0 :: nat where "EPBK0 = 2"
definition EPSIZE0 :: nat where "EPSIZE0 = 4"
definition ALLOC :: nat where "ALLOC = 1"
definition CFGOK :: nat where "CFGOK = 7"
definition TXINI :: nat where "TXINI = 0"
definition RXOUTI :: nat where "RXOUTI = 2"
definition RXSTPI :: nat where "RXSTPI = 3"
definition RWAL :: nat where "RWAL = 5"
definition FIFOCON :: nat where "FIFOCON = 7"
definition RXSTPE :: nat where "RXSTPE = 3"

lemmas ueconx_bits = EPEN_def RSTDT_def STALLRQC_def STALLRQ_def
lemmas ueintx_bits = TXINI_def RXOUTI_def RXSTPI_def RWAL_def FIFOCON_def
lemmas cfg_bits = EPDIR_def EPTYPE0_def EPBK0_def EPSIZE0_def ALLOC_def CFGOK_def
lemmas reg_bits = ueconx_bits ueintx_bits cfg_bits RXSTPE_def

lemma ueintx_bits_distinct [simp]:
  "TXINI \<noteq> RXOUTI" "RXOUTI \<noteq> TXINI" "TXINI \<noteq> RXSTPI" "RXSTPI \<noteq> TXINI" "TXINI \<noteq> RWAL" "RWAL \<noteq> TXINI"
  "TXINI \<noteq> FIFOCON" "FIFOCON \<noteq> TXINI" "RXOUTI \<noteq> RXSTPI" "RXSTPI \<noteq> RXOUTI" "RXOUTI \<noteq> RWAL" "RWAL \<noteq> RXOUTI"
  "RXOUTI \<noteq> FIFOCON" "FIFOCON \<noteq> RXOUTI" "RXSTPI \<noteq> RWAL" "RWAL \<noteq> RXSTPI" "RXSTPI \<noteq> FIFOCON"
  "FIFOCON \<noteq> RXSTPI" "RWAL \<noteq> FIFOCON" "FIFOCON \<noteq> RWAL"
  by (simp_all add: ueintx_bits)

lemma ueconx_bits_distinct [simp]:
  "EPEN \<noteq> RSTDT" "RSTDT \<noteq> EPEN" "EPEN \<noteq> STALLRQC" "STALLRQC \<noteq> EPEN" "EPEN \<noteq> STALLRQ" "STALLRQ \<noteq> EPEN"
  "RSTDT \<noteq> STALLRQC" "STALLRQC \<noteq> RSTDT" "RSTDT \<noteq> STALLRQ" "STALLRQ \<noteq> RSTDT" "STALLRQC \<noteq> STALLRQ"
  "STALLRQ \<noteq> STALLRQC"
  by (simp_all add: ueconx_bits)

lemma reg_bits_less [simp]:
  "EPEN < 8" "RSTDT < 8" "STALLRQC < 8" "STALLRQ < 8" "EPDIR < 8" "ALLOC < 8" "CFGOK < 8"
  "TXINI < 8" "RXOUTI < 8" "RXSTPI < 8" "RWAL < 8" "FIFOCON < 8" "RXSTPE < 8"
  by (simp_all add: reg_bits)

text \<open>
  The registers of one endpoint; \<open>r_bank\<close> is the bank behind \<open>UEDATX\<close>, \<open>r_tx\<close> a packet
  handed over to the host and not collected yet, \<open>r_sent\<close> the packets the host has collected
  (a history, no register), \<open>r_dtog\<close> the data toggle.
\<close>

record ep_regs =
  r_ueconx :: u8
  r_uecfg0x :: u8
  r_uecfg1x :: u8
  r_uesta0x :: u8
  r_ueintx :: u8
  r_ueienx :: u8
  r_bank :: "u8 list"
  r_tx :: "u8 list option"
  r_dtog :: bool
  r_sent :: "u8 list list"

record usb_hw =
  UENUM :: u8
  UDADDR :: u8
  UDCON :: u8
  UDIEN :: u8
  UDINT :: u8
  UEINT :: u8
  USBCON :: u8
  USBINT :: u8
  USBSTA :: u8
  UHWCON :: u8
  PLLCSR :: u8
  PLLFRQ :: u8
  eps :: "nat \<Rightarrow> ep_regs"

definition cur :: "'a usb_hw_scheme \<Rightarrow> ep_regs" where
  "cur h = eps h (unat (UENUM h))"

definition upd_ep :: "nat \<Rightarrow> (ep_regs \<Rightarrow> ep_regs) \<Rightarrow> 'a usb_hw_scheme \<Rightarrow> 'a usb_hw_scheme" where
  "upd_ep n f h = h\<lparr>eps := (eps h)(n := f (eps h n))\<rparr>"

definition upd_cur :: "(ep_regs \<Rightarrow> ep_regs) \<Rightarrow> 'a usb_hw_scheme \<Rightarrow> 'a usb_hw_scheme" where
  "upd_cur f h = upd_ep (unat (UENUM h)) f h"

section \<open>Reactions of the controller\<close>

definition ep_is_in :: "ep_regs \<Rightarrow> bool" where
  "ep_is_in ep = bit (r_uecfg0x ep) EPDIR"

definition ep_is_control :: "ep_regs \<Rightarrow> bool" where
  "ep_is_control ep \<longleftrightarrow> drop_bit EPTYPE0 (r_uecfg0x ep) = 0"

definition ep_size :: "ep_regs \<Rightarrow> nat" where
  "ep_size ep = 8 * 2 ^ unat (drop_bit EPSIZE0 (r_uecfg1x ep) AND 7)"

text \<open>Endpoint 1 has up to 256 bytes, the others up to 64.\<close>

definition ep_max :: "nat \<Rightarrow> nat" where
  "ep_max n = (if n = 1 then 256 else 64)"

text \<open>Reading \<open>UEINTX\<close>: \<open>RWAL\<close> tells whether the bank the CPU owns is not full (IN) or not empty (OUT).\<close>

definition ep_rwal :: "ep_regs \<Rightarrow> bool" where
  "ep_rwal ep \<longleftrightarrow> bit (r_ueintx ep) FIFOCON \<and>
     (if ep_is_in ep then length (r_bank ep) < ep_size ep else r_bank ep \<noteq> [])"

definition ueintx_read :: "ep_regs \<Rightarrow> u8" where
  "ueintx_read ep = put_bit RWAL (ep_rwal ep) (r_ueintx ep)"

text \<open>The bank goes to the host; the bank is free for the next packet of the host.\<close>

definition ep_commit :: "ep_regs \<Rightarrow> ep_regs" where
  "ep_commit ep = ep\<lparr>r_tx := Some (r_bank ep), r_bank := []\<rparr>"

definition ep_free :: "ep_regs \<Rightarrow> ep_regs" where
  "ep_free ep = ep\<lparr>r_bank := []\<rparr>"

text \<open>
  Writing \<open>UEINTX\<close>: a 0 clears a flag, a 1 leaves it; \<open>RWAL\<close> is read-only. Clearing \<open>FIFOCON\<close> (\<open>TXINI\<close> on a control
  endpoint) of an IN bank sends it, of an OUT bank (\<open>RXOUTI\<close>, \<open>RXSTPI\<close>) frees it. While a SETUP packet
  is in the bank there is none to send: a \<open>TXINI\<close> cleared together with \<open>RXSTPI\<close> is set again.
\<close>

definition ueintx_write :: "u8 \<Rightarrow> ep_regs \<Rightarrow> ep_regs" where
  "ueintx_write v ep =
     (let old = r_ueintx ep;
          fell = (\<lambda>n. bit old n \<and> \<not> bit v n);
          ep' = ep\<lparr>r_ueintx := old AND set_bit RWAL v\<rparr>
      in if ep_is_control ep then
           (if fell RXSTPI then ep_free (ep\<lparr>r_ueintx := old AND set_bit TXINI (set_bit RWAL v)\<rparr>)
            else if fell TXINI then ep_commit ep' else if fell RXOUTI then ep_free ep' else ep')
         else if fell FIFOCON then (if ep_is_in ep then ep_commit ep' else ep_free ep')
         else ep')"

text \<open>The flags of an endpoint whose bank was just allocated or reset.\<close>

definition ep_reset_fifo :: "ep_regs \<Rightarrow> ep_regs" where
  "ep_reset_fifo ep = ep\<lparr>r_bank := [], r_tx := None,
     r_ueintx := (if ep_is_control ep then set_bit TXINI 0
                  else if ep_is_in ep then set_bit FIFOCON (set_bit TXINI 0) else 0)\<rparr>"

text \<open>\<open>STALLRQC\<close> and \<open>RSTDT\<close> act when written and read back as 0.\<close>

definition ueconx_write :: "u8 \<Rightarrow> ep_regs \<Rightarrow> ep_regs" where
  "ueconx_write v ep = ep\<lparr>
     r_ueconx := put_bit STALLRQ (bit v STALLRQ \<and> \<not> bit v STALLRQC) (unset_bit STALLRQC (unset_bit RSTDT v)),
     r_dtog := (r_dtog ep \<and> \<not> bit v RSTDT)\<rparr>"

text \<open>Setting \<open>ALLOC\<close> allocates the bank, clearing it releases the bank with its flags; \<open>CFGOK\<close> tells whether
  the requested size is possible.\<close>

definition uecfg1x_write :: "nat \<Rightarrow> u8 \<Rightarrow> ep_regs \<Rightarrow> ep_regs" where
  "uecfg1x_write n v ep =
     (let ep' = ep\<lparr>r_uecfg1x := v\<rparr>
      in if bit v ALLOC
         then ep_reset_fifo (ep'\<lparr>r_uesta0x := put_bit CFGOK (ep_size ep' \<le> ep_max n) (r_uesta0x ep)\<rparr>)
         else ep'\<lparr>r_uesta0x := unset_bit CFGOK (r_uesta0x ep), r_ueintx := 0, r_bank := [], r_tx := None\<rparr>)"

text \<open>
  The data register: a read takes the oldest byte of the bank (0 stands for the undefined
  byte of an empty one), a write appends one, and is lost when the bank is full.
\<close>

definition uedatx_read :: "'a usb_hw_scheme \<Rightarrow> u8 \<times> 'a usb_hw_scheme" where
  "uedatx_read h =
     (case r_bank (cur h) of [] \<Rightarrow> (0, h) | b # bs \<Rightarrow> (b, upd_cur (\<lambda>ep. ep\<lparr>r_bank := bs\<rparr>) h))"

definition uedatx_write :: "u8 \<Rightarrow> 'a usb_hw_scheme \<Rightarrow> 'a usb_hw_scheme" where
  "uedatx_write b h =
     upd_cur (\<lambda>ep. if length (r_bank ep) < ep_size ep then ep\<lparr>r_bank := r_bank ep @ [b]\<rparr> else ep) h"

text \<open>\<open>UENUM\<close> has three bits; the others are reserved and read as 0.\<close>

definition uenum_write :: "u8 \<Rightarrow> 'a usb_hw_scheme \<Rightarrow> 'a usb_hw_scheme" where
  "uenum_write v h = h\<lparr>UENUM := v AND 7\<rparr>"

definition uerst_write :: "u8 \<Rightarrow> 'a usb_hw_scheme \<Rightarrow> 'a usb_hw_scheme" where
  "uerst_write v h = h\<lparr>eps := (\<lambda>n. if n < 7 \<and> bit v n then ep_reset_fifo (eps h n) else eps h n)\<rparr>"

text \<open>The registers after a reset of the processor.\<close>

definition ep_none :: ep_regs where
  "ep_none = \<lparr>r_ueconx = 0, r_uecfg0x = 0, r_uecfg1x = 0, r_uesta0x = 0, r_ueintx = 0, r_ueienx = 0,
     r_bank = [], r_tx = None, r_dtog = False, r_sent = []\<rparr>"

definition hw_reset :: usb_hw where
  "hw_reset = \<lparr>UENUM = 0, UDADDR = 0, UDCON = 1, UDIEN = 0, UDINT = 0, UEINT = 0, USBCON = 0x20, USBINT = 0,
     USBSTA = 0, UHWCON = 0, PLLCSR = 0, PLLFRQ = 0, eps = (\<lambda>_. ep_none)\<rparr>"

subsection \<open>The host's side of the bus\<close>

text \<open>
  What the controller does with the host's packets: an IN token on endpoint \<open>n\<close> collects the
  packet waiting there, an OUT packet is accepted when the bank is free, a SETUP packet always.
  A packet the controller cannot take is refused (NAK) and changes nothing.
\<close>

definition host_in :: "nat \<Rightarrow> 'a usb_hw_scheme \<Rightarrow> (u8 list \<times> 'a usb_hw_scheme) option" where
  "host_in n h =
     (case r_tx (eps h n) of
        None \<Rightarrow> None
      | Some p \<Rightarrow> Some (p, upd_ep n (\<lambda>ep. ep\<lparr>r_tx := None, r_sent := r_sent ep @ [p],
            r_ueintx := (if ep_is_control ep then set_bit TXINI (r_ueintx ep)
                         else set_bit FIFOCON (set_bit TXINI (r_ueintx ep)))\<rparr>) h))"

definition host_out :: "nat \<Rightarrow> u8 list \<Rightarrow> 'a usb_hw_scheme \<Rightarrow> 'a usb_hw_scheme option" where
  "host_out n p h =
     (let ep = eps h n
      in if bit (r_ueconx ep) EPEN \<and> \<not> ep_is_in ep \<and> \<not> bit (r_ueintx ep) RXOUTI \<and>
            \<not> bit (r_ueintx ep) FIFOCON \<and> length p \<le> ep_size ep
         then Some (upd_ep n (\<lambda>ep. ep\<lparr>r_bank := p,
            r_ueintx := (if ep_is_control ep then set_bit RXOUTI (r_ueintx ep)
                         else set_bit FIFOCON (set_bit RXOUTI (r_ueintx ep)))\<rparr>) h)
         else None)"

definition host_setup :: "u8 list \<Rightarrow> 'a usb_hw_scheme \<Rightarrow> 'a usb_hw_scheme" where
  "host_setup p h = upd_ep 0 (\<lambda>ep. ep\<lparr>r_bank := p, r_tx := None,
     r_ueconx := unset_bit STALLRQ (r_ueconx ep),
     r_ueintx := set_bit TXINI (set_bit RXSTPI (r_ueintx ep))\<rparr>) h"

section \<open>Endpoint.h: register macros\<close>

definition UEINTX :: "'a usb_hw_scheme \<Rightarrow> u8" where "UEINTX h = ueintx_read (cur h)"
definition UECONX :: "'a usb_hw_scheme \<Rightarrow> u8" where "UECONX h = r_ueconx (cur h)"
definition UECFG0X :: "'a usb_hw_scheme \<Rightarrow> u8" where "UECFG0X h = r_uecfg0x (cur h)"
definition UECFG1X :: "'a usb_hw_scheme \<Rightarrow> u8" where "UECFG1X h = r_uecfg1x (cur h)"
definition UESTA0X :: "'a usb_hw_scheme \<Rightarrow> u8" where "UESTA0X h = r_uesta0x (cur h)"
definition UEIENX :: "'a usb_hw_scheme \<Rightarrow> u8" where "UEIENX h = r_ueienx (cur h)"

definition set_UEINTX :: "u8 \<Rightarrow> 'a usb_hw_scheme \<Rightarrow> 'a usb_hw_scheme" where
  "set_UEINTX v = upd_cur (ueintx_write v)"
definition set_UECONX :: "u8 \<Rightarrow> 'a usb_hw_scheme \<Rightarrow> 'a usb_hw_scheme" where
  "set_UECONX v = upd_cur (ueconx_write v)"
definition set_UECFG0X :: "u8 \<Rightarrow> 'a usb_hw_scheme \<Rightarrow> 'a usb_hw_scheme" where
  "set_UECFG0X v = upd_cur (\<lambda>ep. ep\<lparr>r_uecfg0x := v\<rparr>)"
definition set_UECFG1X :: "u8 \<Rightarrow> 'a usb_hw_scheme \<Rightarrow> 'a usb_hw_scheme" where
  "set_UECFG1X v h = upd_cur (uecfg1x_write (unat (UENUM h)) v) h"
definition set_UEIENX :: "u8 \<Rightarrow> 'a usb_hw_scheme \<Rightarrow> 'a usb_hw_scheme" where
  "set_UEIENX v = upd_cur (\<lambda>ep. ep\<lparr>r_ueienx := v\<rparr>)"

definition ENDPOINT_DIR_OUT :: u8 where "ENDPOINT_DIR_OUT = push_bit EPDIR 0"
definition ENDPOINT_DIR_IN :: u8 where "ENDPOINT_DIR_IN = push_bit EPDIR 1"
definition ENDPOINT_BANK_SINGLE :: u8 where "ENDPOINT_BANK_SINGLE = push_bit EPBK0 0"
definition ENDPOINT_CONTROLEP :: u8 where "ENDPOINT_CONTROLEP = 0"
definition ENDPOINT_EPNUM_MASK :: u8 where "ENDPOINT_EPNUM_MASK = 0x07"
definition ENDPOINT_TOTAL_ENDPOINTS :: nat where "ENDPOINT_TOTAL_ENDPOINTS = 7"
definition EP_TYPE_CONTROL :: u8 where "EP_TYPE_CONTROL = 0x00"
definition EP_TYPE_BULK :: u8 where "EP_TYPE_BULK = 0x02"

definition Endpoint_BytesInEndpoint :: "'a usb_hw_scheme \<Rightarrow> u16" where
  "Endpoint_BytesInEndpoint h = of_nat (length (r_bank (cur h)))"

definition Endpoint_GetCurrentEndpoint :: "'a usb_hw_scheme \<Rightarrow> u8" where
  "Endpoint_GetCurrentEndpoint h = UENUM h AND ENDPOINT_EPNUM_MASK"

definition Endpoint_SelectEndpoint :: "u8 \<Rightarrow> 'a usb_hw_scheme \<Rightarrow> 'a usb_hw_scheme" where
  "Endpoint_SelectEndpoint epnum h = uenum_write epnum h"

definition Endpoint_ResetFIFO :: "u8 \<Rightarrow> 'a usb_hw_scheme \<Rightarrow> 'a usb_hw_scheme" where
  "Endpoint_ResetFIFO epnum h = uerst_write 0 (uerst_write (push_bit (unat epnum) 1) h)"

definition Endpoint_EnableEndpoint :: "'a usb_hw_scheme \<Rightarrow> 'a usb_hw_scheme" where
  "Endpoint_EnableEndpoint h = set_UECONX (set_bit EPEN (UECONX h)) h"

definition Endpoint_DisableEndpoint :: "'a usb_hw_scheme \<Rightarrow> 'a usb_hw_scheme" where
  "Endpoint_DisableEndpoint h = set_UECONX (unset_bit EPEN (UECONX h)) h"

definition Endpoint_IsEnabled :: "'a usb_hw_scheme \<Rightarrow> bool" where
  "Endpoint_IsEnabled h = bit (UECONX h) EPEN"

definition Endpoint_IsReadWriteAllowed :: "'a usb_hw_scheme \<Rightarrow> bool" where
  "Endpoint_IsReadWriteAllowed h = bit (UEINTX h) RWAL"

definition Endpoint_IsConfigured :: "'a usb_hw_scheme \<Rightarrow> bool" where
  "Endpoint_IsConfigured h = bit (UESTA0X h) CFGOK"

definition Endpoint_IsINReady :: "'a usb_hw_scheme \<Rightarrow> bool" where
  "Endpoint_IsINReady h = bit (UEINTX h) TXINI"

definition Endpoint_IsOUTReceived :: "'a usb_hw_scheme \<Rightarrow> bool" where
  "Endpoint_IsOUTReceived h = bit (UEINTX h) RXOUTI"

definition Endpoint_IsSETUPReceived :: "'a usb_hw_scheme \<Rightarrow> bool" where
  "Endpoint_IsSETUPReceived h = bit (UEINTX h) RXSTPI"

definition Endpoint_ClearSETUP :: "'a usb_hw_scheme \<Rightarrow> 'a usb_hw_scheme" where
  "Endpoint_ClearSETUP h = set_UEINTX (unset_bit RXSTPI (UEINTX h)) h"

definition Endpoint_ClearIN :: "'a usb_hw_scheme \<Rightarrow> 'a usb_hw_scheme" where
  "Endpoint_ClearIN h =
     (let Temp = UEINTX h
      in set_UEINTX (unset_bit FIFOCON Temp) (set_UEINTX (unset_bit TXINI Temp) h))"

definition Endpoint_ClearOUT :: "'a usb_hw_scheme \<Rightarrow> 'a usb_hw_scheme" where
  "Endpoint_ClearOUT h =
     (let Temp = UEINTX h
      in set_UEINTX (unset_bit FIFOCON Temp) (set_UEINTX (unset_bit RXOUTI Temp) h))"

definition Endpoint_StallTransaction :: "'a usb_hw_scheme \<Rightarrow> 'a usb_hw_scheme" where
  "Endpoint_StallTransaction h = set_UECONX (set_bit STALLRQ (UECONX h)) h"

definition Endpoint_ClearStall :: "'a usb_hw_scheme \<Rightarrow> 'a usb_hw_scheme" where
  "Endpoint_ClearStall h = set_UECONX (set_bit STALLRQC (UECONX h)) h"

definition Endpoint_IsStalled :: "'a usb_hw_scheme \<Rightarrow> bool" where
  "Endpoint_IsStalled h = bit (UECONX h) STALLRQ"

definition Endpoint_ResetDataToggle :: "'a usb_hw_scheme \<Rightarrow> 'a usb_hw_scheme" where
  "Endpoint_ResetDataToggle h = set_UECONX (set_bit RSTDT (UECONX h)) h"

definition Endpoint_GetEndpointDirection :: "'a usb_hw_scheme \<Rightarrow> u8" where
  "Endpoint_GetEndpointDirection h = UECFG0X h AND ENDPOINT_DIR_IN"

definition Endpoint_SetEndpointDirection :: "u8 \<Rightarrow> 'a usb_hw_scheme \<Rightarrow> 'a usb_hw_scheme" where
  "Endpoint_SetEndpointDirection dir h = set_UECFG0X ((UECFG0X h AND NOT ENDPOINT_DIR_IN) OR dir) h"

definition Endpoint_Read_Byte :: "'a usb_hw_scheme \<Rightarrow> u8 \<times> 'a usb_hw_scheme" where
  "Endpoint_Read_Byte h = uedatx_read h"

definition Endpoint_Write_Byte :: "u8 \<Rightarrow> 'a usb_hw_scheme \<Rightarrow> 'a usb_hw_scheme" where
  "Endpoint_Write_Byte b h = uedatx_write b h"

definition Endpoint_Discard_Byte :: "'a usb_hw_scheme \<Rightarrow> 'a usb_hw_scheme" where
  "Endpoint_Discard_Byte h = snd (uedatx_read h)"

definition Endpoint_Read_Word_LE :: "'a usb_hw_scheme \<Rightarrow> u16 \<times> 'a usb_hw_scheme" where
  "Endpoint_Read_Word_LE h =
     (let (b0, h) = uedatx_read h; (b1, h) = uedatx_read h in (le_word [b0, b1], h))"

definition Endpoint_Read_Word_BE :: "'a usb_hw_scheme \<Rightarrow> u16 \<times> 'a usb_hw_scheme" where
  "Endpoint_Read_Word_BE h =
     (let (b1, h) = uedatx_read h; (b0, h) = uedatx_read h in (le_word [b0, b1], h))"

definition Endpoint_Write_Word_LE :: "u16 \<Rightarrow> 'a usb_hw_scheme \<Rightarrow> 'a usb_hw_scheme" where
  "Endpoint_Write_Word_LE w h = uedatx_write (ucast (drop_bit 8 w)) (uedatx_write (ucast (w AND 0xFF)) h)"

definition Endpoint_Write_Word_BE :: "u16 \<Rightarrow> 'a usb_hw_scheme \<Rightarrow> 'a usb_hw_scheme" where
  "Endpoint_Write_Word_BE w h = uedatx_write (ucast (w AND 0xFF)) (uedatx_write (ucast (drop_bit 8 w)) h)"

definition Endpoint_Discard_Word :: "'a usb_hw_scheme \<Rightarrow> 'a usb_hw_scheme" where
  "Endpoint_Discard_Word h = Endpoint_Discard_Byte (Endpoint_Discard_Byte h)"

definition Endpoint_Read_DWord_LE :: "'a usb_hw_scheme \<Rightarrow> u32 \<times> 'a usb_hw_scheme" where
  "Endpoint_Read_DWord_LE h =
     (let (b0, h) = uedatx_read h; (b1, h) = uedatx_read h; (b2, h) = uedatx_read h; (b3, h) = uedatx_read h
      in (le_word [b0, b1, b2, b3], h))"

definition Endpoint_Read_DWord_BE :: "'a usb_hw_scheme \<Rightarrow> u32 \<times> 'a usb_hw_scheme" where
  "Endpoint_Read_DWord_BE h =
     (let (b3, h) = uedatx_read h; (b2, h) = uedatx_read h; (b1, h) = uedatx_read h; (b0, h) = uedatx_read h
      in (le_word [b0, b1, b2, b3], h))"

definition Endpoint_Write_DWord_LE :: "u32 \<Rightarrow> 'a usb_hw_scheme \<Rightarrow> 'a usb_hw_scheme" where
  "Endpoint_Write_DWord_LE w h =
     (let h = uedatx_write (ucast (w AND 0xFF)) h;
          h = uedatx_write (ucast (drop_bit 8 w)) h;
          h = uedatx_write (ucast (drop_bit 16 w)) h
      in uedatx_write (ucast (drop_bit 24 w)) h)"

definition Endpoint_Write_DWord_BE :: "u32 \<Rightarrow> 'a usb_hw_scheme \<Rightarrow> 'a usb_hw_scheme" where
  "Endpoint_Write_DWord_BE w h =
     (let h = uedatx_write (ucast (drop_bit 24 w)) h;
          h = uedatx_write (ucast (drop_bit 16 w)) h;
          h = uedatx_write (ucast (drop_bit 8 w)) h
      in uedatx_write (ucast (w AND 0xFF)) h)"

definition Endpoint_DeallocateMemory :: "'a usb_hw_scheme \<Rightarrow> 'a usb_hw_scheme" where
  "Endpoint_DeallocateMemory h = set_UECFG1X (unset_bit ALLOC (UECFG1X h)) h"

definition Endpoint_AllocateMemory :: "'a usb_hw_scheme \<Rightarrow> 'a usb_hw_scheme" where
  "Endpoint_AllocateMemory h = set_UECFG1X (set_bit ALLOC (UECFG1X h)) h"

definition Endpoint_Discard_DWord :: "'a usb_hw_scheme \<Rightarrow> 'a usb_hw_scheme" where
  "Endpoint_Discard_DWord h =
     Endpoint_Discard_Byte (Endpoint_Discard_Byte (Endpoint_Discard_Byte (Endpoint_Discard_Byte h)))"

text \<open>
  The loop of \<open>Endpoint_BytesToEPSizeMask\<close>; \<open>CheckBytes\<close> doubles until it reaches \<open>Bytes\<close>.
  Sixteen doublings make it 0, so the loop ends within \<open>epsize_fuel\<close> rounds or never.
\<close>

fun epsize_loop :: "nat \<Rightarrow> u8 \<Rightarrow> u16 \<Rightarrow> u16 \<Rightarrow> stop + u8" where
  "epsize_loop 0 MaskVal CheckBytes Bytes = Inl Hang"
| "epsize_loop (Suc fuel) MaskVal CheckBytes Bytes =
     (if CheckBytes < Bytes then epsize_loop fuel (MaskVal + 1) (push_bit 1 CheckBytes) Bytes
      else Inr MaskVal)"

definition epsize_fuel :: nat where "epsize_fuel = 17"

definition Endpoint_BytesToEPSizeMask :: "u16 \<Rightarrow> stop + u8" where
  "Endpoint_BytesToEPSizeMask Bytes =
     (case epsize_loop epsize_fuel 0 8 Bytes of
        Inl e \<Rightarrow> Inl e
      | Inr MaskVal \<Rightarrow> Inr (push_bit EPSIZE0 MaskVal))"

section \<open>How the operations act\<close>

lemma UENUM_upd_ep [simp]: "UENUM (upd_ep n f h) = UENUM h"
  by (simp add: upd_ep_def)

lemma UENUM_upd_cur [simp]: "UENUM (upd_cur f h) = UENUM h"
  by (simp add: upd_cur_def)

lemma eps_upd_ep [simp]: "eps (upd_ep n f h) k = (if k = n then f (eps h k) else eps h k)"
  by (simp add: upd_ep_def)

lemma eps_upd_cur [simp]: "eps (upd_cur f h) k = (if k = unat (UENUM h) then f (eps h k) else eps h k)"
  by (simp add: upd_cur_def)

lemma cur_upd_cur [simp]: "cur (upd_cur f h) = f (cur h)"
  by (simp add: cur_def)

lemma upd_cur_upd_cur: "upd_cur f (upd_cur g h) = upd_cur (\<lambda>ep. f (g ep)) h"
  by (simp add: upd_cur_def upd_ep_def)

lemma upd_cur_cong: "f (cur h) = g (cur h) \<Longrightarrow> upd_cur f h = upd_cur g h"
  by (simp add: upd_cur_def upd_ep_def cur_def)

lemma upd_ep_upd_ep: "upd_ep n f (upd_ep n g h) = upd_ep n (\<lambda>ep. f (g ep)) h"
  by (simp add: upd_ep_def)

lemma upd_ep_commute: "m \<noteq> n \<Longrightarrow> upd_ep m f (upd_ep n g h) = upd_ep n g (upd_ep m f h)"
  by (simp add: upd_ep_def fun_upd_twist)

lemma cur_Endpoint_SelectEndpoint [simp]: "cur (Endpoint_SelectEndpoint n h) = eps h (unat (n AND 7))"
  by (simp add: cur_def Endpoint_SelectEndpoint_def uenum_write_def)

lemma UENUM_Endpoint_SelectEndpoint [simp]: "UENUM (Endpoint_SelectEndpoint n h) = n AND 7"
  by (simp add: Endpoint_SelectEndpoint_def uenum_write_def)

lemma eps_Endpoint_SelectEndpoint [simp]: "eps (Endpoint_SelectEndpoint n h) = eps h"
  by (simp add: Endpoint_SelectEndpoint_def uenum_write_def)

lemma upd_cur_Endpoint_SelectEndpoint:
  "upd_cur f (Endpoint_SelectEndpoint n h) = Endpoint_SelectEndpoint n (upd_ep (unat (n AND 7)) f h)"
  by (simp add: upd_cur_def upd_ep_def Endpoint_SelectEndpoint_def uenum_write_def)

lemma Endpoint_SelectEndpoint_twice [simp]:
  "Endpoint_SelectEndpoint m (Endpoint_SelectEndpoint n h) = Endpoint_SelectEndpoint m h"
  by (simp add: Endpoint_SelectEndpoint_def uenum_write_def)

text \<open>The flags, per endpoint.\<close>

lemma bit_ueintx_read [simp]: "bit (ueintx_read ep) n = (if n = RWAL then ep_rwal ep else bit (r_ueintx ep) n)"
  by (auto simp: ueintx_read_def)

lemma Endpoint_flags:
  "Endpoint_IsINReady h = bit (r_ueintx (cur h)) TXINI"
  "Endpoint_IsOUTReceived h = bit (r_ueintx (cur h)) RXOUTI"
  "Endpoint_IsSETUPReceived h = bit (r_ueintx (cur h)) RXSTPI"
  "Endpoint_IsReadWriteAllowed h = ep_rwal (cur h)"
  "Endpoint_IsStalled h = bit (r_ueconx (cur h)) STALLRQ"
  "Endpoint_IsEnabled h = bit (r_ueconx (cur h)) EPEN"
  "Endpoint_IsConfigured h = bit (r_uesta0x (cur h)) CFGOK"
  by (simp_all add: Endpoint_IsINReady_def Endpoint_IsOUTReceived_def Endpoint_IsSETUPReceived_def
    Endpoint_IsReadWriteAllowed_def Endpoint_IsStalled_def Endpoint_IsEnabled_def
    Endpoint_IsConfigured_def UEINTX_def UECONX_def UESTA0X_def)

lemma Endpoint_direction_IN:
  "Endpoint_GetEndpointDirection h = ENDPOINT_DIR_IN \<longleftrightarrow> ep_is_in (cur h)"
proof -
  have "(UECFG0X h AND 1 = 1) = bit (r_uecfg0x (cur h)) 0"
    by (simp add: UECFG0X_def and_one_eq mod2_eq_if bit_0)
  then show ?thesis
    by (simp add: Endpoint_GetEndpointDirection_def ENDPOINT_DIR_IN_def ep_is_in_def EPDIR_def)
qed

text \<open>The operations on the selected endpoint as functions on its registers.\<close>

definition ep_clear_in :: "ep_regs \<Rightarrow> ep_regs" where
  "ep_clear_in ep = ueintx_write (unset_bit FIFOCON (ueintx_read ep)) (ueintx_write (unset_bit TXINI (ueintx_read ep)) ep)"

definition ep_clear_out :: "ep_regs \<Rightarrow> ep_regs" where
  "ep_clear_out ep = ueintx_write (unset_bit FIFOCON (ueintx_read ep)) (ueintx_write (unset_bit RXOUTI (ueintx_read ep)) ep)"

definition ep_clear_setup :: "ep_regs \<Rightarrow> ep_regs" where
  "ep_clear_setup ep = ueintx_write (unset_bit RXSTPI (ueintx_read ep)) ep"

definition ep_push :: "u8 \<Rightarrow> ep_regs \<Rightarrow> ep_regs" where
  "ep_push b ep = (if length (r_bank ep) < ep_size ep then ep\<lparr>r_bank := r_bank ep @ [b]\<rparr> else ep)"

lemma Endpoint_ops_cur:
  "Endpoint_ClearIN h = upd_cur ep_clear_in h"
  "Endpoint_ClearOUT h = upd_cur ep_clear_out h"
  "Endpoint_ClearSETUP h = upd_cur ep_clear_setup h"
  "Endpoint_Write_Byte b h = upd_cur (ep_push b) h"
  by (simp_all add: Endpoint_ClearIN_def Endpoint_ClearOUT_def Endpoint_ClearSETUP_def
    Endpoint_Write_Byte_def uedatx_write_def Let_def set_UEINTX_def UEINTX_def upd_cur_upd_cur
    ep_push_def cong: if_cong)
    (simp_all add: ep_clear_in_def ep_clear_out_def ep_clear_setup_def ep_push_def [abs_def] upd_cur_def upd_ep_def cur_def)

lemma Endpoint_con_cur:
  "Endpoint_EnableEndpoint h = upd_cur (\<lambda>ep. ueconx_write (set_bit EPEN (r_ueconx ep)) ep) h"
  "Endpoint_DisableEndpoint h = upd_cur (\<lambda>ep. ueconx_write (unset_bit EPEN (r_ueconx ep)) ep) h"
  "Endpoint_StallTransaction h = upd_cur (\<lambda>ep. ueconx_write (set_bit STALLRQ (r_ueconx ep)) ep) h"
  "Endpoint_ClearStall h = upd_cur (\<lambda>ep. ueconx_write (set_bit STALLRQC (r_ueconx ep)) ep) h"
  "Endpoint_ResetDataToggle h = upd_cur (\<lambda>ep. ueconx_write (set_bit RSTDT (r_ueconx ep)) ep) h"
  by (simp_all add: Endpoint_EnableEndpoint_def Endpoint_DisableEndpoint_def Endpoint_StallTransaction_def
    Endpoint_ClearStall_def Endpoint_ResetDataToggle_def set_UECONX_def UECONX_def upd_cur_def upd_ep_def cur_def)

lemma uedatx_read_Cons:
  "r_bank (cur h) = b # bs \<Longrightarrow> uedatx_read h = (b, upd_cur (\<lambda>ep. ep\<lparr>r_bank := bs\<rparr>) h)"
  by (simp add: uedatx_read_def)

text \<open>Everything an IN endpoint has handed over to the host or has waiting in its bank.\<close>

definition tx_stream :: "ep_regs \<Rightarrow> u8 list" where
  "tx_stream ep = concat (r_sent ep) @ (case r_tx ep of None \<Rightarrow> [] | Some p \<Rightarrow> p) @ r_bank ep"

text \<open>What the three clearing operations do to a bulk endpoint and to the control endpoint.\<close>

lemma ep_clear_in_bulk:
  assumes "\<not> ep_is_control ep" "ep_is_in ep" "bit (r_ueintx ep) FIFOCON"
  shows "ep_clear_in ep = ep\<lparr>r_ueintx := unset_bit FIFOCON (unset_bit TXINI (r_ueintx ep)),
           r_tx := Some (r_bank ep), r_bank := []\<rparr>"
proof -
  have "(r_ueintx ep AND set_bit RWAL (unset_bit TXINI (ueintx_read ep))) AND
      set_bit RWAL (unset_bit FIFOCON (ueintx_read ep)) = unset_bit FIFOCON (unset_bit TXINI (r_ueintx ep))"
    by (intro bit_eqI) (auto simp: bit_and_iff)
  then show ?thesis
    using assms by (simp add: ep_clear_in_def ueintx_write_def Let_def ep_is_control_def ep_is_in_def
      ep_commit_def bit_and_iff)
qed

lemma ep_clear_out_bulk:
  assumes "\<not> ep_is_control ep" "\<not> ep_is_in ep" "bit (r_ueintx ep) FIFOCON"
  shows "ep_clear_out ep = ep\<lparr>r_ueintx := unset_bit FIFOCON (unset_bit RXOUTI (r_ueintx ep)), r_bank := []\<rparr>"
proof -
  have "(r_ueintx ep AND set_bit RWAL (unset_bit RXOUTI (ueintx_read ep))) AND
      set_bit RWAL (unset_bit FIFOCON (ueintx_read ep)) = unset_bit FIFOCON (unset_bit RXOUTI (r_ueintx ep))"
    by (intro bit_eqI) (auto simp: bit_and_iff)
  then show ?thesis
    using assms by (simp add: ep_clear_out_def ueintx_write_def Let_def ep_is_control_def ep_is_in_def
      ep_free_def bit_and_iff)
qed

lemma ep_reset_fifo_simps [simp]:
  "r_ueconx (ep_reset_fifo ep) = r_ueconx ep"
  "r_uecfg0x (ep_reset_fifo ep) = r_uecfg0x ep"
  "r_uecfg1x (ep_reset_fifo ep) = r_uecfg1x ep"
  "r_uesta0x (ep_reset_fifo ep) = r_uesta0x ep"
  "r_bank (ep_reset_fifo ep) = []"
  "r_tx (ep_reset_fifo ep) = None"
  "r_sent (ep_reset_fifo ep) = r_sent ep"
  by (simp_all add: ep_reset_fifo_def)

lemma eps_Endpoint_ResetFIFO:
  "unat n < 7 \<Longrightarrow> eps (Endpoint_ResetFIFO n h) k = (if k = unat n then ep_reset_fifo (eps h k) else eps h k)"
  by (auto simp: Endpoint_ResetFIFO_def uerst_write_def bit_simps)

lemma Endpoint_ResetFIFO_upd:
  "unat n < 7 \<Longrightarrow> Endpoint_ResetFIFO n h = upd_ep (unat n) ep_reset_fifo h"
  by (auto simp: Endpoint_ResetFIFO_def uerst_write_def upd_ep_def bit_simps fun_eq_iff)

lemma Endpoint_ResetFIFO_frame [simp]: "UENUM (Endpoint_ResetFIFO n h) = UENUM h"
  by (simp add: Endpoint_ResetFIFO_def uerst_write_def)

section \<open>Bank size\<close>

lemma epsize_loop_some:
  assumes "unat B \<le> 32768" "k \<le> 12" "12 - k < fuel" "k = 0 \<or> 8 * 2 ^ (k - 1) < unat B"
  shows "\<exists>m \<le> 12. epsize_loop fuel (of_nat k) (of_nat (8 * 2 ^ k)) B = Inr (of_nat m) \<and>
     unat B \<le> 8 * 2 ^ m \<and> (m = 0 \<or> 8 * 2 ^ (m - 1) < unat B)"
  using assms
proof (induction fuel arbitrary: k)
  case 0
  then show ?case by simp
next
  case (Suc fuel)
  have "(2 :: nat) ^ k \<le> 2 ^ 12" using Suc.prems(2) by (intro power_increasing) auto
  then have c: "unat (of_nat (8 * 2 ^ k) :: u16) = 8 * 2 ^ k"
    by (simp only: unat_of_nat) (simp add: take_bit_nat_eq_self)
  show ?case
  proof (cases "of_nat (8 * 2 ^ k) < B")
    case True
    then have l: "8 * 2 ^ k < unat B" using c by (simp only: word_less_nat_alt)
    have "k \<noteq> 12"
    proof
      assume "k = 12"
      with l Suc.prems(1) show False by simp
    qed
    then have k: "Suc k \<le> 12" using Suc.prems(2) by simp
    have "push_bit 1 (of_nat (8 * 2 ^ k) :: u16) = of_nat (8 * 2 ^ Suc k)"
      by (simp add: push_bit_eq_mult)
    with True Suc.IH [of "Suc k"] Suc.prems k l show ?thesis
      by (simp add: add.commute)
  next
    case False
    then have "unat B \<le> 8 * 2 ^ k" using c by (simp only: word_less_nat_alt not_less)
    with False Suc.prems show ?thesis by (intro exI [of _ k]) auto
  qed
qed

lemma epsize_loop_0: "B \<noteq> 0 \<Longrightarrow> epsize_loop fuel m 0 B = Inl Hang"
  by (induction fuel arbitrary: m) (auto simp: word_gt_0)

lemma epsize_loop_hang:
  assumes "32768 < unat B" "k \<le> 12"
  shows "epsize_loop fuel m (of_nat (8 * 2 ^ k)) B = Inl Hang"
  using assms(2)
proof (induction fuel arbitrary: k m)
  case 0
  then show ?case by simp
next
  case (Suc fuel)
  have "(2 :: nat) ^ k \<le> 2 ^ 12" using Suc.prems by (intro power_increasing) auto
  then have "8 * 2 ^ k \<le> (32768 :: nat)" by simp
  then have "unat (of_nat (8 * 2 ^ k) :: u16) = 8 * 2 ^ k"
    by (simp only: unat_of_nat) (simp add: take_bit_nat_eq_self)
  with \<open>8 * 2 ^ k \<le> 32768\<close> have less: "of_nat (8 * 2 ^ k) < B"
    using assms(1) by (simp only: word_less_nat_alt)
  have next_c: "push_bit 1 (of_nat (8 * 2 ^ k) :: u16) = of_nat (8 * 2 ^ Suc k)"
    by (simp add: push_bit_eq_mult)
  show ?case
  proof (cases "k = 12")
    case True
    have "B \<noteq> 0" using assms(1) by auto
    moreover have "push_bit 1 (of_nat (8 * 2 ^ k) :: u16) = 0"
      unfolding next_c True by (simp add: word_eq_iff_unsigned)
    ultimately show ?thesis
      using less by (simp add: epsize_loop_0)
  next
    case False
    with less next_c Suc.IH [of "Suc k" "m + 1"] Suc.prems show ?thesis by simp
  qed
qed

text \<open>The bank size code chosen for a size is that of the smallest bank that holds it (a bank has
  \<open>8 * 2 ^ m\<close> bytes), for every size up to 32768 bytes; for a larger size the loop that computes it
  never ends, whatever the number of rounds.\<close>

lemma BytesToEPSizeMask_smallest:
  "(unat B \<le> 32768 \<longrightarrow> (\<exists>m \<le> 12. Endpoint_BytesToEPSizeMask B = Inr (push_bit 4 (of_nat m)) \<and>
      unat B \<le> 8 * 2 ^ m \<and> (m = 0 \<or> 8 * 2 ^ (m - 1) < unat B))) \<and>
   (32768 < unat B \<longrightarrow> (\<forall>fuel. epsize_loop fuel 0 8 B = Inl Hang) \<and> Endpoint_BytesToEPSizeMask B = Inl Hang)"
proof (intro conjI impI)
  assume "unat B \<le> 32768"
  from epsize_loop_some [OF this, of 0 epsize_fuel] obtain m where "m \<le> 12"
    "epsize_loop epsize_fuel 0 8 B = Inr (of_nat m)" "unat B \<le> 8 * 2 ^ m" "m = 0 \<or> 8 * 2 ^ (m - 1) < unat B"
    by (auto simp: epsize_fuel_def)
  then show "\<exists>m \<le> 12. Endpoint_BytesToEPSizeMask B = Inr (push_bit 4 (of_nat m)) \<and>
      unat B \<le> 8 * 2 ^ m \<and> (m = 0 \<or> 8 * 2 ^ (m - 1) < unat B)"
    by (intro exI [of _ m]) (simp add: Endpoint_BytesToEPSizeMask_def EPSIZE0_def)
next
  assume "32768 < unat B"
  then have h: "epsize_loop fuel 0 8 B = Inl Hang" for fuel
    using epsize_loop_hang [of B 0 fuel 0] by simp
  then show "\<forall>fuel. epsize_loop fuel 0 8 B = Inl Hang" by simp
  from h show "Endpoint_BytesToEPSizeMask B = Inl Hang"
    by (simp add: Endpoint_BytesToEPSizeMask_def)
qed

lemma BytesToEPSizeMask_smallest_instance:
  "(\<exists>m \<le> 12. Endpoint_BytesToEPSizeMask 9 = Inr (push_bit 4 (of_nat m)) \<and>
      9 \<le> (8 * 2 ^ m :: nat) \<and> (m = 0 \<or> 8 * 2 ^ (m - 1) < (9 :: nat))) \<and>
   Endpoint_BytesToEPSizeMask 40000 = Inl Hang"
  using BytesToEPSizeMask_smallest [of 9] BytesToEPSizeMask_smallest [of 40000] by simp

section \<open>Words through the data register\<close>

definition ep_room :: "ep_regs \<Rightarrow> nat" where
  "ep_room ep = ep_size ep - length (r_bank ep)"

lemma bank_uedatx_write:
  "0 < ep_room (cur h) \<Longrightarrow> r_bank (cur (uedatx_write b h)) = r_bank (cur h) @ [b]"
  "0 < ep_room (cur h) \<Longrightarrow> ep_room (cur (uedatx_write b h)) = ep_room (cur h) - 1"
  by (auto simp: uedatx_write_def ep_room_def ep_size_def)

lemma bank_uedatx_read:
  "r_bank (cur h) = b # bs \<Longrightarrow> fst (uedatx_read h) = b \<and> r_bank (cur (snd (uedatx_read h))) = bs"
  by (simp add: uedatx_read_Cons)

lemma le_bytes_Suc: "le_bytes (Suc n) w = ucast w # le_bytes n (drop_bit 8 w)"
  by simp

lemma ucast_and_mask8: "ucast (w AND 0xFF) = (ucast w :: u8)" for w :: "'a::len word"
proof -
  have "w AND 0xFF = take_bit 8 w" by (simp add: take_bit_eq_mask mask_eq_exp_minus_1)
  then show ?thesis by (simp only:) (intro bit_eqI, auto simp: bit_simps dest: bit_imp_le_length)
qed

lemma le_bytes_2: "le_bytes 2 w = [ucast w, ucast (drop_bit 8 w)]"
  by (simp add: numeral_2_eq_2)

lemma le_bytes_4: "le_bytes 4 w = [ucast w, ucast (drop_bit 8 w), ucast (drop_bit 16 w), ucast (drop_bit 24 w)]"
  by (simp add: numeral_eq_Suc drop_bit_drop_bit)

lemma write_words_bank:
  "2 \<le> ep_room (cur h) \<Longrightarrow> r_bank (cur (Endpoint_Write_Word_LE w h)) = r_bank (cur h) @ le_bytes 2 w"
  "2 \<le> ep_room (cur h) \<Longrightarrow> r_bank (cur (Endpoint_Write_Word_BE w h)) = r_bank (cur h) @ rev (le_bytes 2 w)"
  "4 \<le> ep_room (cur h) \<Longrightarrow> r_bank (cur (Endpoint_Write_DWord_LE d h)) = r_bank (cur h) @ le_bytes 4 d"
  "4 \<le> ep_room (cur h) \<Longrightarrow> r_bank (cur (Endpoint_Write_DWord_BE d h)) = r_bank (cur h) @ rev (le_bytes 4 d)"
  by (simp_all add: Endpoint_Write_Word_LE_def Endpoint_Write_Word_BE_def Endpoint_Write_DWord_LE_def
    Endpoint_Write_DWord_BE_def Let_def bank_uedatx_write ucast_and_mask8 le_bytes_2 le_bytes_4)

lemma uedatx_read_bank:
  assumes "r_bank (cur h) = b # bs"
  obtains h' where "uedatx_read h = (b, h')" "r_bank (cur h') = bs"
  using assms by (auto simp: uedatx_read_Cons)

lemma read_word_bank:
  assumes "r_bank (cur h) = b0 # b1 # bs"
  shows "\<exists>h'. Endpoint_Read_Word_LE h = (le_word [b0, b1], h') \<and> r_bank (cur h') = bs"
    and "\<exists>h'. Endpoint_Read_Word_BE h = (le_word [b1, b0], h') \<and> r_bank (cur h') = bs"
proof -
  from assms obtain h1 where 1: "uedatx_read h = (b0, h1)" "r_bank (cur h1) = b1 # bs" by (rule uedatx_read_bank)
  from 1(2) obtain h2 where 2: "uedatx_read h1 = (b1, h2)" "r_bank (cur h2) = bs" by (rule uedatx_read_bank)
  from 1 2 show "\<exists>h'. Endpoint_Read_Word_LE h = (le_word [b0, b1], h') \<and> r_bank (cur h') = bs"
    and "\<exists>h'. Endpoint_Read_Word_BE h = (le_word [b1, b0], h') \<and> r_bank (cur h') = bs"
    by (simp_all add: Endpoint_Read_Word_LE_def Endpoint_Read_Word_BE_def)
qed

lemma read_dword_bank:
  assumes "r_bank (cur h) = b0 # b1 # b2 # b3 # bs"
  shows "\<exists>h'. Endpoint_Read_DWord_LE h = (le_word [b0, b1, b2, b3], h') \<and> r_bank (cur h') = bs"
    and "\<exists>h'. Endpoint_Read_DWord_BE h = (le_word [b3, b2, b1, b0], h') \<and> r_bank (cur h') = bs"
proof -
  from assms obtain h1 where 1: "uedatx_read h = (b0, h1)" "r_bank (cur h1) = b1 # b2 # b3 # bs" by (rule uedatx_read_bank)
  from 1(2) obtain h2 where 2: "uedatx_read h1 = (b1, h2)" "r_bank (cur h2) = b2 # b3 # bs" by (rule uedatx_read_bank)
  from 2(2) obtain h3 where 3: "uedatx_read h2 = (b2, h3)" "r_bank (cur h3) = b3 # bs" by (rule uedatx_read_bank)
  from 3(2) obtain h4 where 4: "uedatx_read h3 = (b3, h4)" "r_bank (cur h4) = bs" by (rule uedatx_read_bank)
  from 1 2 3 4 show "\<exists>h'. Endpoint_Read_DWord_LE h = (le_word [b0, b1, b2, b3], h') \<and> r_bank (cur h') = bs"
    and "\<exists>h'. Endpoint_Read_DWord_BE h = (le_word [b3, b2, b1, b0], h') \<and> r_bank (cur h') = bs"
    by (simp_all add: Endpoint_Read_DWord_LE_def Endpoint_Read_DWord_BE_def)
qed

lemma le_word_of_le_bytes:
  "le_word [ucast w, ucast (drop_bit 8 w)] = w"
  "le_word [ucast d, ucast (drop_bit 8 d), ucast (drop_bit 16 d), ucast (drop_bit 24 d)] = d"
  for w :: u16 and d :: u32
  using le_word_le_bytes_u16 [of w] le_word_le_bytes_u32 [of d]
  by (simp_all only: le_bytes_2 le_bytes_4)

text \<open>The word and double-word accessors of an endpoint agree: a write appends the bytes of the
  value in the named order, and a read from a bank that starts with those bytes returns the value
  and leaves the rest.\<close>

lemma Endpoint_words_roundtrip:
  "(2 \<le> ep_room (cur h) \<longrightarrow>
      r_bank (cur (Endpoint_Write_Word_LE w h)) = r_bank (cur h) @ le_bytes 2 w \<and>
      r_bank (cur (Endpoint_Write_Word_BE w h)) = r_bank (cur h) @ rev (le_bytes 2 w)) \<and>
   (4 \<le> ep_room (cur h) \<longrightarrow>
      r_bank (cur (Endpoint_Write_DWord_LE d h)) = r_bank (cur h) @ le_bytes 4 d \<and>
      r_bank (cur (Endpoint_Write_DWord_BE d h)) = r_bank (cur h) @ rev (le_bytes 4 d)) \<and>
   (r_bank (cur g) = le_bytes 2 w @ bs \<longrightarrow>
      (\<exists>g'. Endpoint_Read_Word_LE g = (w, g') \<and> r_bank (cur g') = bs)) \<and>
   (r_bank (cur g) = rev (le_bytes 2 w) @ bs \<longrightarrow>
      (\<exists>g'. Endpoint_Read_Word_BE g = (w, g') \<and> r_bank (cur g') = bs)) \<and>
   (r_bank (cur g) = le_bytes 4 d @ bs \<longrightarrow>
      (\<exists>g'. Endpoint_Read_DWord_LE g = (d, g') \<and> r_bank (cur g') = bs)) \<and>
   (r_bank (cur g) = rev (le_bytes 4 d) @ bs \<longrightarrow>
      (\<exists>g'. Endpoint_Read_DWord_BE g = (d, g') \<and> r_bank (cur g') = bs))"
  using read_word_bank [of g "ucast w" "ucast (drop_bit 8 w)" bs]
    read_word_bank [of g "ucast (drop_bit 8 w)" "ucast w" bs]
    read_dword_bank [of g "ucast d" "ucast (drop_bit 8 d)" "ucast (drop_bit 16 d)" "ucast (drop_bit 24 d)" bs]
    read_dword_bank [of g "ucast (drop_bit 24 d)" "ucast (drop_bit 16 d)" "ucast (drop_bit 8 d)" "ucast d" bs]
  by (auto simp only: write_words_bank le_bytes_2 le_bytes_4 le_word_of_le_bytes rev.simps append.simps)

lemma Endpoint_words_roundtrip_instance:
  "r_bank (cur (Endpoint_Write_Word_BE 0x1234 hw_reset)) = [0x12, 0x34] \<and>
   r_bank (cur (Endpoint_Write_DWord_LE 0x12345678 hw_reset)) = [0x78, 0x56, 0x34, 0x12]"
proof -
  have "ep_room (cur hw_reset) = 8" "r_bank (cur hw_reset) = []"
    by (simp_all add: ep_room_def ep_size_def cur_def hw_reset_def ep_none_def EPSIZE0_def)
  then show ?thesis
    using Endpoint_words_roundtrip [of hw_reset "0x1234" "0x12345678" hw_reset "[]"]
    by (simp add: le_bytes_2 le_bytes_4)
qed

end
