(* ===== verification/UsbDevice.thy ===== *)
theory UsbDevice
  imports AvrUsb
begin

text \<open>
  The device library's state and its endpoint layer: the interrupt macros of
  \<open>HighLevel/USBInterrupt.h\<close>, the functions of \<open>LowLevel/Endpoint.c\<close> and the transfer loops
  it instantiates from \<open>LowLevel/Template/\<close>, as the gadget's makefile builds them
  (\<open>USB_DEVICE_ONLY\<close>, \<open>NO_STREAM_CALLBACKS\<close>, no \<open>FAST_STREAM_TRANSFERS\<close>,
  \<open>FIXED_CONTROL_ENDPOINT_SIZE=8\<close>).
\<close>

section \<open>State\<close>

record usb_request =
  bmRequestType :: u8
  bRequest :: u8
  wValue :: u16
  wIndex :: u16
  wLength :: u16

text \<open>\<open>SREG_I\<close> is the processor's interrupt flag.\<close>

record usb_dev = usb_hw +
  USB_DeviceState :: u8
  USB_ConfigurationNumber :: u8
  USB_RemoteWakeupEnabled :: bool
  USB_CurrentlySelfPowered :: bool
  USB_IsInitialized :: bool
  USB_ControlRequest :: usb_request
  SREG_I :: bool

definition DEVICE_STATE_Unattached :: u8 where "DEVICE_STATE_Unattached = 0"
definition DEVICE_STATE_Powered :: u8 where "DEVICE_STATE_Powered = 1"
definition DEVICE_STATE_Default :: u8 where "DEVICE_STATE_Default = 2"
definition DEVICE_STATE_Addressed :: u8 where "DEVICE_STATE_Addressed = 3"
definition DEVICE_STATE_Configured :: u8 where "DEVICE_STATE_Configured = 4"
definition DEVICE_STATE_Suspended :: u8 where "DEVICE_STATE_Suspended = 5"

lemmas device_state_defs = DEVICE_STATE_Unattached_def DEVICE_STATE_Powered_def DEVICE_STATE_Default_def
  DEVICE_STATE_Addressed_def DEVICE_STATE_Configured_def DEVICE_STATE_Suspended_def

section \<open>Interrupt flags and masks\<close>

datatype usb_int = INT_VBUS | INT_WAKEUP | INT_SUSPEND | INT_EORSTI | INT_SOFI | INT_RXSTPI

fun USB_INT_Enable :: "usb_int \<Rightarrow> 'a usb_hw_scheme \<Rightarrow> 'a usb_hw_scheme" where
  "USB_INT_Enable INT_VBUS h = h\<lparr>USBCON := set_bit 0 (USBCON h)\<rparr>"
| "USB_INT_Enable INT_WAKEUP h = h\<lparr>UDIEN := set_bit 4 (UDIEN h)\<rparr>"
| "USB_INT_Enable INT_SUSPEND h = h\<lparr>UDIEN := set_bit 0 (UDIEN h)\<rparr>"
| "USB_INT_Enable INT_EORSTI h = h\<lparr>UDIEN := set_bit 3 (UDIEN h)\<rparr>"
| "USB_INT_Enable INT_SOFI h = h\<lparr>UDIEN := set_bit 2 (UDIEN h)\<rparr>"
| "USB_INT_Enable INT_RXSTPI h = set_UEIENX (set_bit RXSTPE (UEIENX h)) h"

fun USB_INT_Disable :: "usb_int \<Rightarrow> 'a usb_hw_scheme \<Rightarrow> 'a usb_hw_scheme" where
  "USB_INT_Disable INT_VBUS h = h\<lparr>USBCON := unset_bit 0 (USBCON h)\<rparr>"
| "USB_INT_Disable INT_WAKEUP h = h\<lparr>UDIEN := unset_bit 4 (UDIEN h)\<rparr>"
| "USB_INT_Disable INT_SUSPEND h = h\<lparr>UDIEN := unset_bit 0 (UDIEN h)\<rparr>"
| "USB_INT_Disable INT_EORSTI h = h\<lparr>UDIEN := unset_bit 3 (UDIEN h)\<rparr>"
| "USB_INT_Disable INT_SOFI h = h\<lparr>UDIEN := unset_bit 2 (UDIEN h)\<rparr>"
| "USB_INT_Disable INT_RXSTPI h = set_UEIENX (unset_bit RXSTPE (UEIENX h)) h"

fun USB_INT_Clear :: "usb_int \<Rightarrow> 'a usb_hw_scheme \<Rightarrow> 'a usb_hw_scheme" where
  "USB_INT_Clear INT_VBUS h = h\<lparr>USBINT := unset_bit 0 (USBINT h)\<rparr>"
| "USB_INT_Clear INT_WAKEUP h = h\<lparr>UDINT := unset_bit 4 (UDINT h)\<rparr>"
| "USB_INT_Clear INT_SUSPEND h = h\<lparr>UDINT := unset_bit 0 (UDINT h)\<rparr>"
| "USB_INT_Clear INT_EORSTI h = h\<lparr>UDINT := unset_bit 3 (UDINT h)\<rparr>"
| "USB_INT_Clear INT_SOFI h = h\<lparr>UDINT := unset_bit 2 (UDINT h)\<rparr>"
| "USB_INT_Clear INT_RXSTPI h = set_UEINTX (unset_bit RXSTPI (UEINTX h)) h"

fun USB_INT_IsEnabled :: "usb_int \<Rightarrow> 'a usb_hw_scheme \<Rightarrow> bool" where
  "USB_INT_IsEnabled INT_VBUS h = bit (USBCON h) 0"
| "USB_INT_IsEnabled INT_WAKEUP h = bit (UDIEN h) 4"
| "USB_INT_IsEnabled INT_SUSPEND h = bit (UDIEN h) 0"
| "USB_INT_IsEnabled INT_EORSTI h = bit (UDIEN h) 3"
| "USB_INT_IsEnabled INT_SOFI h = bit (UDIEN h) 2"
| "USB_INT_IsEnabled INT_RXSTPI h = bit (UEIENX h) RXSTPE"

fun USB_INT_HasOccurred :: "usb_int \<Rightarrow> 'a usb_hw_scheme \<Rightarrow> bool" where
  "USB_INT_HasOccurred INT_VBUS h = bit (USBINT h) 0"
| "USB_INT_HasOccurred INT_WAKEUP h = bit (UDINT h) 4"
| "USB_INT_HasOccurred INT_SUSPEND h = bit (UDINT h) 0"
| "USB_INT_HasOccurred INT_EORSTI h = bit (UDINT h) 3"
| "USB_INT_HasOccurred INT_SOFI h = bit (UDINT h) 2"
| "USB_INT_HasOccurred INT_RXSTPI h = bit (UEINTX h) RXSTPI"

section \<open>Configuration of endpoints\<close>

definition Endpoint_BytesToEPSizeMaskDynamic :: "u16 \<Rightarrow> stop + u8" where
  "Endpoint_BytesToEPSizeMaskDynamic Size = Endpoint_BytesToEPSizeMask Size"

definition Endpoint_ConfigureEndpoint_Prv :: "u8 \<Rightarrow> u8 \<Rightarrow> u8 \<Rightarrow> 'a usb_hw_scheme \<Rightarrow> bool \<times> 'a usb_hw_scheme" where
  "Endpoint_ConfigureEndpoint_Prv Number UECFG0XData UECFG1XData h =
     (let h = Endpoint_SelectEndpoint Number h;
          h = Endpoint_EnableEndpoint h;
          h = set_UECFG1X 0 h;
          h = set_UECFG0X UECFG0XData h;
          h = set_UECFG1X UECFG1XData h
      in (Endpoint_IsConfigured h, h))"

definition Endpoint_ConfigureEndpoint ::
  "u8 \<Rightarrow> u8 \<Rightarrow> u8 \<Rightarrow> u16 \<Rightarrow> u8 \<Rightarrow> 'a usb_hw_scheme \<Rightarrow> stop + bool \<times> 'a usb_hw_scheme" where
  "Endpoint_ConfigureEndpoint Number Type Direction Size Banks h =
     (case Endpoint_BytesToEPSizeMask Size of
        Inl e \<Rightarrow> Inl e
      | Inr SizeMask \<Rightarrow>
          Inr (Endpoint_ConfigureEndpoint_Prv Number (push_bit EPTYPE0 Type OR Direction)
                 (push_bit ALLOC 1 OR Banks OR SizeMask) h))"

definition clear_endpoint :: "nat \<Rightarrow> 'a usb_hw_scheme \<Rightarrow> 'a usb_hw_scheme" where
  "clear_endpoint EPNum h =
     (let h = Endpoint_SelectEndpoint (of_nat EPNum) h;
          h = set_UEIENX 0 h;
          h = set_UEINTX 0 h;
          h = Endpoint_DeallocateMemory h
      in Endpoint_DisableEndpoint h)"

definition Endpoint_ClearEndpoints :: "'a usb_hw_scheme \<Rightarrow> 'a usb_hw_scheme" where
  "Endpoint_ClearEndpoints h = fold clear_endpoint [0..<ENDPOINT_TOTAL_ENDPOINTS] (h\<lparr>UEINT := 0\<rparr>)"

section \<open>Waiting\<close>

text \<open>
  The status stage of a control transfer: \<open>while (!ready) if (unattached) return;\<close> and then
  the acknowledgement. The loop's result tells whether the packet came.
\<close>

definition await_out :: "'a usb_dev_scheme world \<Rightarrow> 'a usb_dev_scheme \<Rightarrow> ('a usb_dev_scheme, bool) run" where
  "await_out = poll_until (\<lambda>_ s.
     if Endpoint_IsOUTReceived s then Inl (True, s)
     else if USB_DeviceState s = DEVICE_STATE_Unattached then Inl (False, s)
     else Inr ((), s)) ()"

definition await_in :: "'a usb_dev_scheme world \<Rightarrow> 'a usb_dev_scheme \<Rightarrow> ('a usb_dev_scheme, bool) run" where
  "await_in = poll_until (\<lambda>_ s.
     if Endpoint_IsINReady s then Inl (True, s)
     else if USB_DeviceState s = DEVICE_STATE_Unattached then Inl (False, s)
     else Inr ((), s)) ()"

definition REQDIR_DEVICETOHOST :: u8 where "REQDIR_DEVICETOHOST = push_bit 7 1"

definition Endpoint_ClearStatusStage ::
  "'a usb_dev_scheme world \<Rightarrow> 'a usb_dev_scheme \<Rightarrow> ('a usb_dev_scheme, unit) run" where
  "Endpoint_ClearStatusStage w s =
     (if bmRequestType (USB_ControlRequest s) AND REQDIR_DEVICETOHOST \<noteq> 0 then
        bind_run (await_out w s) (\<lambda>r s w. Inr ((), if r then Endpoint_ClearOUT s else s, w))
      else
        bind_run (await_in w s) (\<lambda>r s w. Inr ((), if r then Endpoint_ClearIN s else s, w)))"

definition ENDPOINT_READYWAIT_NoError :: u8 where "ENDPOINT_READYWAIT_NoError = 0"
definition ENDPOINT_READYWAIT_EndpointStalled :: u8 where "ENDPOINT_READYWAIT_EndpointStalled = 1"
definition ENDPOINT_READYWAIT_DeviceDisconnected :: u8 where "ENDPOINT_READYWAIT_DeviceDisconnected = 2"
definition ENDPOINT_READYWAIT_Timeout :: u8 where "ENDPOINT_READYWAIT_Timeout = 3"
definition USB_STREAM_TIMEOUT_MS :: u8 where "USB_STREAM_TIMEOUT_MS = 100"

lemmas readywait_defs = ENDPOINT_READYWAIT_NoError_def ENDPOINT_READYWAIT_EndpointStalled_def
  ENDPOINT_READYWAIT_DeviceDisconnected_def ENDPOINT_READYWAIT_Timeout_def

definition wait_ready_step :: "u8 \<Rightarrow> 'a usb_dev_scheme \<Rightarrow> u8 \<times> 'a usb_dev_scheme + u8 \<times> 'a usb_dev_scheme" where
  "wait_ready_step TimeoutMSRem s =
     (if (if Endpoint_GetEndpointDirection s = ENDPOINT_DIR_IN then Endpoint_IsINReady s
          else Endpoint_IsOUTReceived s)
      then Inl (ENDPOINT_READYWAIT_NoError, s)
      else if USB_DeviceState s = DEVICE_STATE_Unattached then Inl (ENDPOINT_READYWAIT_DeviceDisconnected, s)
      else if Endpoint_IsStalled s then Inl (ENDPOINT_READYWAIT_EndpointStalled, s)
      else if USB_INT_HasOccurred INT_SOFI s then
        (let s = USB_INT_Clear INT_SOFI s
         in if TimeoutMSRem = 0 then Inl (ENDPOINT_READYWAIT_Timeout, s) else Inr (TimeoutMSRem - 1, s))
      else Inr (TimeoutMSRem, s))"

definition Endpoint_WaitUntilReady ::
  "'a usb_dev_scheme world \<Rightarrow> 'a usb_dev_scheme \<Rightarrow> ('a usb_dev_scheme, u8) run" where
  "Endpoint_WaitUntilReady = poll_until wait_ready_step USB_STREAM_TIMEOUT_MS"

lemma Endpoint_WaitUntilReady_world:
  "Endpoint_WaitUntilReady w s = Inr (c, s', w') \<Longrightarrow> length w' \<le> length w"
  unfolding Endpoint_WaitUntilReady_def by (rule poll_until_world)

section \<open>Stream transfers\<close>

text \<open>
  \<open>Template_Endpoint_RW.c\<close>: \<open>clear\<close> is \<open>TEMPLATE_CLEAR_ENDPOINT\<close>, \<open>xfer\<close> is
  \<open>TEMPLATE_TRANSFER_BYTE\<close> on the buffer and the pointer into it. After a packet was
  handed over the bus has its turn (one element of the world) before the wait starts.
\<close>

type_synonym buffer = "u8 list \<times> int"

function stream_loop ::
  "('a usb_dev_scheme \<Rightarrow> 'a usb_dev_scheme) \<Rightarrow> ('b \<Rightarrow> 'a usb_dev_scheme \<Rightarrow> 'b \<times> 'a usb_dev_scheme) \<Rightarrow>
   u16 \<Rightarrow> 'b \<Rightarrow> 'a usb_dev_scheme world \<Rightarrow> 'a usb_dev_scheme \<Rightarrow> ('a usb_dev_scheme, u8 \<times> 'b) run" where
  "stream_loop clear xfer Length b w s =
     (if Length = 0 then Inr ((ENDPOINT_READYWAIT_NoError, b), s, w)
      else if \<not> Endpoint_IsReadWriteAllowed s then
        (case w of
           [] \<Rightarrow> Inl Waiting
         | e # w \<Rightarrow>
             (case Endpoint_WaitUntilReady w (e (clear s)) of
                Inl x \<Rightarrow> Inl x
              | Inr (ErrorCode, s, w) \<Rightarrow>
                  if ErrorCode \<noteq> 0 then Inr ((ErrorCode, b), s, w)
                  else stream_loop clear xfer Length b w s))
      else
        (case xfer b s of (b, s) \<Rightarrow> stream_loop clear xfer (Length - 1) b w s))"
  by pat_completeness auto
termination
proof (relation "measure (\<lambda>(clear, xfer, Length, b, w, s). unat Length + length w)", goal_cases)
  case 1
  then show ?case by simp
next
  case (2 clear xfer Length b w s e w' r c s1 w1)
  then show ?case using Endpoint_WaitUntilReady_world by fastforce
next
  case (3 clear xfer Length b w s b' s')
  then show ?case by (simp add: unat_minus_one unat_gt_0)
qed

declare stream_loop.simps [simp del]

definition rw_stream ::
  "('a usb_dev_scheme \<Rightarrow> 'a usb_dev_scheme) \<Rightarrow> (buffer \<Rightarrow> 'a usb_dev_scheme \<Rightarrow> buffer \<times> 'a usb_dev_scheme) \<Rightarrow>
   (int \<Rightarrow> int) \<Rightarrow> u8 list \<Rightarrow> u16 \<Rightarrow> 'a usb_dev_scheme world \<Rightarrow> 'a usb_dev_scheme \<Rightarrow>
   ('a usb_dev_scheme, u8 \<times> u8 list) run" where
  "rw_stream clear xfer offset Buffer Length w s =
     bind_run (Endpoint_WaitUntilReady w s) (\<lambda>ErrorCode s w.
       if ErrorCode \<noteq> 0 then Inr ((ErrorCode, Buffer), s, w)
       else bind_run (stream_loop clear xfer Length (Buffer, offset (int (unat Length))) w s)
              (\<lambda>(c, (buf, p)) s w. Inr ((c, buf), s, w)))"

definition xfer_write :: "int \<Rightarrow> buffer \<Rightarrow> 'a usb_dev_scheme \<Rightarrow> buffer \<times> 'a usb_dev_scheme" where
  "xfer_write d b s = (case b of (buf, p) \<Rightarrow> ((buf, p + d), Endpoint_Write_Byte (buf ! nat p) s))"

definition xfer_read :: "int \<Rightarrow> buffer \<Rightarrow> 'a usb_dev_scheme \<Rightarrow> buffer \<times> 'a usb_dev_scheme" where
  "xfer_read d b s =
     (case b of (buf, p) \<Rightarrow> (case Endpoint_Read_Byte s of (byte, s) \<Rightarrow> ((buf[nat p := byte], p + d), s)))"

text \<open>
  A buffer shorter than \<open>Length\<close> breaks the caller's part of the contract: the accesses run
  outside it.
\<close>

definition Endpoint_Write_Stream_LE ::
  "u8 list \<Rightarrow> u16 \<Rightarrow> 'a usb_dev_scheme world \<Rightarrow> 'a usb_dev_scheme \<Rightarrow> ('a usb_dev_scheme, u8) run" where
  "Endpoint_Write_Stream_LE Buffer Length w s =
     (if length Buffer < unat Length then Inl Fault
      else bind_run (rw_stream Endpoint_ClearIN (xfer_write 1) (\<lambda>_. 0) Buffer Length w s) (\<lambda>(c, _) s w. Inr (c, s, w)))"

definition Endpoint_Write_Stream_BE ::
  "u8 list \<Rightarrow> u16 \<Rightarrow> 'a usb_dev_scheme world \<Rightarrow> 'a usb_dev_scheme \<Rightarrow> ('a usb_dev_scheme, u8) run" where
  "Endpoint_Write_Stream_BE Buffer Length w s =
     (if length Buffer < unat Length then Inl Fault
      else bind_run (rw_stream Endpoint_ClearIN (xfer_write (-1)) (\<lambda>n. n - 1) Buffer Length w s) (\<lambda>(c, _) s w. Inr (c, s, w)))"

definition Endpoint_Read_Stream_LE ::
  "u8 list \<Rightarrow> u16 \<Rightarrow> 'a usb_dev_scheme world \<Rightarrow> 'a usb_dev_scheme \<Rightarrow> ('a usb_dev_scheme, u8 \<times> u8 list) run" where
  "Endpoint_Read_Stream_LE Buffer Length w s =
     (if length Buffer < unat Length then Inl Fault
      else rw_stream Endpoint_ClearOUT (xfer_read 1) (\<lambda>_. 0) Buffer Length w s)"

definition Endpoint_Read_Stream_BE ::
  "u8 list \<Rightarrow> u16 \<Rightarrow> 'a usb_dev_scheme world \<Rightarrow> 'a usb_dev_scheme \<Rightarrow> ('a usb_dev_scheme, u8 \<times> u8 list) run" where
  "Endpoint_Read_Stream_BE Buffer Length w s =
     (if length Buffer < unat Length then Inl Fault
      else rw_stream Endpoint_ClearOUT (xfer_read (-1)) (\<lambda>n. n - 1) Buffer Length w s)"

text \<open>
  The \<open>PStream\<close> and \<open>EStream\<close> routines run the same template on flash and EEPROM memory, whose
  contents are byte lists as well.
\<close>

definition Endpoint_Write_PStream_LE ::
  "u8 list \<Rightarrow> u16 \<Rightarrow> 'a usb_dev_scheme world \<Rightarrow> 'a usb_dev_scheme \<Rightarrow> ('a usb_dev_scheme, u8) run" where
  "Endpoint_Write_PStream_LE Buffer Length w s =
     (if length Buffer < unat Length then Inl Fault
      else bind_run (rw_stream Endpoint_ClearIN (xfer_write 1) (\<lambda>_. 0) Buffer Length w s) (\<lambda>(c, _) s w. Inr (c, s, w)))"

definition Endpoint_Write_PStream_BE ::
  "u8 list \<Rightarrow> u16 \<Rightarrow> 'a usb_dev_scheme world \<Rightarrow> 'a usb_dev_scheme \<Rightarrow> ('a usb_dev_scheme, u8) run" where
  "Endpoint_Write_PStream_BE Buffer Length w s =
     (if length Buffer < unat Length then Inl Fault
      else bind_run (rw_stream Endpoint_ClearIN (xfer_write (-1)) (\<lambda>n. n - 1) Buffer Length w s) (\<lambda>(c, _) s w. Inr (c, s, w)))"

definition Endpoint_Write_EStream_LE ::
  "u8 list \<Rightarrow> u16 \<Rightarrow> 'a usb_dev_scheme world \<Rightarrow> 'a usb_dev_scheme \<Rightarrow> ('a usb_dev_scheme, u8) run" where
  "Endpoint_Write_EStream_LE Buffer Length w s =
     (if length Buffer < unat Length then Inl Fault
      else bind_run (rw_stream Endpoint_ClearIN (xfer_write 1) (\<lambda>_. 0) Buffer Length w s) (\<lambda>(c, _) s w. Inr (c, s, w)))"

definition Endpoint_Write_EStream_BE ::
  "u8 list \<Rightarrow> u16 \<Rightarrow> 'a usb_dev_scheme world \<Rightarrow> 'a usb_dev_scheme \<Rightarrow> ('a usb_dev_scheme, u8) run" where
  "Endpoint_Write_EStream_BE Buffer Length w s =
     (if length Buffer < unat Length then Inl Fault
      else bind_run (rw_stream Endpoint_ClearIN (xfer_write (-1)) (\<lambda>n. n - 1) Buffer Length w s) (\<lambda>(c, _) s w. Inr (c, s, w)))"

definition Endpoint_Read_EStream_LE ::
  "u8 list \<Rightarrow> u16 \<Rightarrow> 'a usb_dev_scheme world \<Rightarrow> 'a usb_dev_scheme \<Rightarrow> ('a usb_dev_scheme, u8 \<times> u8 list) run" where
  "Endpoint_Read_EStream_LE Buffer Length w s =
     (if length Buffer < unat Length then Inl Fault
      else rw_stream Endpoint_ClearOUT (xfer_read 1) (\<lambda>_. 0) Buffer Length w s)"

definition Endpoint_Read_EStream_BE ::
  "u8 list \<Rightarrow> u16 \<Rightarrow> 'a usb_dev_scheme world \<Rightarrow> 'a usb_dev_scheme \<Rightarrow> ('a usb_dev_scheme, u8 \<times> u8 list) run" where
  "Endpoint_Read_EStream_BE Buffer Length w s =
     (if length Buffer < unat Length then Inl Fault
      else rw_stream Endpoint_ClearOUT (xfer_read (-1)) (\<lambda>n. n - 1) Buffer Length w s)"

definition Endpoint_Discard_Stream ::
  "u16 \<Rightarrow> 'a usb_dev_scheme world \<Rightarrow> 'a usb_dev_scheme \<Rightarrow> ('a usb_dev_scheme, u8) run" where
  "Endpoint_Discard_Stream Length w s =
     bind_run (Endpoint_WaitUntilReady w s) (\<lambda>ErrorCode s w.
       if ErrorCode \<noteq> 0 then Inr (ErrorCode, s, w)
       else bind_run (stream_loop Endpoint_ClearOUT (\<lambda>b s. (b, Endpoint_Discard_Byte s)) Length () w s)
              (\<lambda>(c, _) s w. Inr (c, s, w)))"

section \<open>Control transfers\<close>

definition ENDPOINT_RWCSTREAM_NoError :: u8 where "ENDPOINT_RWCSTREAM_NoError = 0"
definition ENDPOINT_RWCSTREAM_HostAborted :: u8 where "ENDPOINT_RWCSTREAM_HostAborted = 1"
definition ENDPOINT_RWCSTREAM_DeviceDisconnected :: u8 where "ENDPOINT_RWCSTREAM_DeviceDisconnected = 2"
definition USB_ControlEndpointSize :: u16 where "USB_ControlEndpointSize = 8"

text \<open>\<open>while (Length && Endpoint_BytesInEndpoint() < USB_ControlEndpointSize)\<close>\<close>

function fill_bank ::
  "(buffer \<Rightarrow> 'a usb_dev_scheme \<Rightarrow> buffer \<times> 'a usb_dev_scheme) \<Rightarrow> u16 \<Rightarrow> buffer \<Rightarrow> 'a usb_dev_scheme \<Rightarrow>
   u16 \<times> buffer \<times> 'a usb_dev_scheme" where
  "fill_bank xfer Length b s =
     (if Length \<noteq> 0 \<and> Endpoint_BytesInEndpoint s < USB_ControlEndpointSize
      then (case xfer b s of (b, s) \<Rightarrow> fill_bank xfer (Length - 1) b s)
      else (Length, b, s))"
  by pat_completeness auto
termination
  by (relation "measure (\<lambda>(xfer, Length, b, s). unat Length)") (auto simp: unat_minus_one unat_gt_0)

declare fill_bank.simps [simp del]

text \<open>
  \<open>Template_Endpoint_Control_W.c\<close>: one pass of \<open>while (Length || LastPacketFull)\<close>. \<open>Inl (Some c)\<close>
  returns \<open>c\<close>, \<open>Inl None\<close> leaves the loop (by \<open>break\<close> or by its condition).
\<close>

definition control_write_step ::
  "(buffer \<Rightarrow> 'a usb_dev_scheme \<Rightarrow> buffer \<times> 'a usb_dev_scheme) \<Rightarrow> u16 \<times> bool \<times> buffer \<Rightarrow> 'a usb_dev_scheme \<Rightarrow>
   u8 option \<times> 'a usb_dev_scheme + (u16 \<times> bool \<times> buffer) \<times> 'a usb_dev_scheme" where
  "control_write_step xfer l s =
     (case l of (Length, LastPacketFull, b) \<Rightarrow>
        if Length = 0 \<and> \<not> LastPacketFull then Inl (None, s)
        else if Endpoint_IsSETUPReceived s then Inl (Some ENDPOINT_RWCSTREAM_HostAborted, s)
        else if Endpoint_IsOUTReceived s then Inl (None, s)
        else if USB_DeviceState s = DEVICE_STATE_Unattached then Inl (Some ENDPOINT_RWCSTREAM_DeviceDisconnected, s)
        else if Endpoint_IsINReady s then
          (case fill_bank xfer Length b s of (Length, b, s) \<Rightarrow>
             let LastPacketFull = (Endpoint_BytesInEndpoint s = USB_ControlEndpointSize)
             in Inr ((Length, LastPacketFull, b), Endpoint_ClearIN s))
        else Inr ((Length, LastPacketFull, b), s))"

definition control_write ::
  "(buffer \<Rightarrow> 'a usb_dev_scheme \<Rightarrow> buffer \<times> 'a usb_dev_scheme) \<Rightarrow> (int \<Rightarrow> int) \<Rightarrow> u8 list \<Rightarrow> u16 \<Rightarrow>
   'a usb_dev_scheme world \<Rightarrow> 'a usb_dev_scheme \<Rightarrow> ('a usb_dev_scheme, u8) run" where
  "control_write xfer offset Buffer Length w s =
     (let DataStream = (Buffer, offset (int (unat Length)));
          (Length, s) = (if Length > wLength (USB_ControlRequest s) then (wLength (USB_ControlRequest s), s)
                         else if Length = 0 then (Length, Endpoint_ClearIN s)
                         else (Length, s))
      in bind_run (poll_until (control_write_step xfer) (Length, False, DataStream) w s) (\<lambda>r s w.
           case r of
             Some c \<Rightarrow> Inr (c, s, w)
           | None \<Rightarrow> bind_run (await_out w s) (\<lambda>ok s w.
               Inr (if ok then ENDPOINT_RWCSTREAM_NoError else ENDPOINT_RWCSTREAM_DeviceDisconnected, s, w))))"

definition Endpoint_Write_Control_Stream_LE ::
  "u8 list \<Rightarrow> u16 \<Rightarrow> 'a usb_dev_scheme world \<Rightarrow> 'a usb_dev_scheme \<Rightarrow> ('a usb_dev_scheme, u8) run" where
  "Endpoint_Write_Control_Stream_LE Buffer Length w s =
     (if length Buffer < unat Length then Inl Fault else control_write (xfer_write 1) (\<lambda>_. 0) Buffer Length w s)"

text \<open>The same loop reading the buffer from flash memory; the descriptors live there.\<close>

definition Endpoint_Write_Control_PStream_LE ::
  "u8 list \<Rightarrow> u16 \<Rightarrow> 'a usb_dev_scheme world \<Rightarrow> 'a usb_dev_scheme \<Rightarrow> ('a usb_dev_scheme, u8) run" where
  "Endpoint_Write_Control_PStream_LE Buffer Length w s =
     (if length Buffer < unat Length then Inl Fault else control_write (xfer_write 1) (\<lambda>_. 0) Buffer Length w s)"

definition Endpoint_Write_Control_Stream_BE ::
  "u8 list \<Rightarrow> u16 \<Rightarrow> 'a usb_dev_scheme world \<Rightarrow> 'a usb_dev_scheme \<Rightarrow> ('a usb_dev_scheme, u8) run" where
  "Endpoint_Write_Control_Stream_BE Buffer Length w s =
     (if length Buffer < unat Length then Inl Fault
      else control_write (xfer_write (-1)) (\<lambda>n. n - 1) Buffer Length w s)"

definition Endpoint_Write_Control_EStream_LE ::
  "u8 list \<Rightarrow> u16 \<Rightarrow> 'a usb_dev_scheme world \<Rightarrow> 'a usb_dev_scheme \<Rightarrow> ('a usb_dev_scheme, u8) run" where
  "Endpoint_Write_Control_EStream_LE Buffer Length w s =
     (if length Buffer < unat Length then Inl Fault
      else control_write (xfer_write 1) (\<lambda>_. 0) Buffer Length w s)"

definition Endpoint_Write_Control_PStream_BE ::
  "u8 list \<Rightarrow> u16 \<Rightarrow> 'a usb_dev_scheme world \<Rightarrow> 'a usb_dev_scheme \<Rightarrow> ('a usb_dev_scheme, u8) run" where
  "Endpoint_Write_Control_PStream_BE Buffer Length w s =
     (if length Buffer < unat Length then Inl Fault
      else control_write (xfer_write (-1)) (\<lambda>n. n - 1) Buffer Length w s)"

definition Endpoint_Write_Control_EStream_BE ::
  "u8 list \<Rightarrow> u16 \<Rightarrow> 'a usb_dev_scheme world \<Rightarrow> 'a usb_dev_scheme \<Rightarrow> ('a usb_dev_scheme, u8) run" where
  "Endpoint_Write_Control_EStream_BE Buffer Length w s =
     (if length Buffer < unat Length then Inl Fault
      else control_write (xfer_write (-1)) (\<lambda>n. n - 1) Buffer Length w s)"

text \<open>\<open>Template_Endpoint_Control_R.c\<close>\<close>

function drain_bank ::
  "(buffer \<Rightarrow> 'a usb_dev_scheme \<Rightarrow> buffer \<times> 'a usb_dev_scheme) \<Rightarrow> u16 \<Rightarrow> buffer \<Rightarrow> 'a usb_dev_scheme \<Rightarrow>
   u16 \<times> buffer \<times> 'a usb_dev_scheme" where
  "drain_bank xfer Length b s =
     (if Length \<noteq> 0 \<and> Endpoint_BytesInEndpoint s \<noteq> 0
      then (case xfer b s of (b, s) \<Rightarrow> drain_bank xfer (Length - 1) b s)
      else (Length, b, s))"
  by pat_completeness auto
termination
  by (relation "measure (\<lambda>(xfer, Length, b, s). unat Length)") (auto simp: unat_minus_one unat_gt_0)

declare drain_bank.simps [simp del]

definition control_read_step ::
  "(buffer \<Rightarrow> 'a usb_dev_scheme \<Rightarrow> buffer \<times> 'a usb_dev_scheme) \<Rightarrow> u16 \<times> buffer \<Rightarrow> 'a usb_dev_scheme \<Rightarrow>
   (u8 option \<times> buffer) \<times> 'a usb_dev_scheme + (u16 \<times> buffer) \<times> 'a usb_dev_scheme" where
  "control_read_step xfer l s =
     (case l of (Length, b) \<Rightarrow>
        if Length = 0 then Inl ((None, b), s)
        else if Endpoint_IsSETUPReceived s then Inl ((Some ENDPOINT_RWCSTREAM_HostAborted, b), s)
        else if USB_DeviceState s = DEVICE_STATE_Unattached
        then Inl ((Some ENDPOINT_RWCSTREAM_DeviceDisconnected, b), s)
        else if Endpoint_IsOUTReceived s then
          (case drain_bank xfer Length b s of (Length, b, s) \<Rightarrow> Inr ((Length, b), Endpoint_ClearOUT s))
        else Inr ((Length, b), s))"

definition control_read ::
  "(buffer \<Rightarrow> 'a usb_dev_scheme \<Rightarrow> buffer \<times> 'a usb_dev_scheme) \<Rightarrow> (int \<Rightarrow> int) \<Rightarrow> u8 list \<Rightarrow> u16 \<Rightarrow>
   'a usb_dev_scheme world \<Rightarrow> 'a usb_dev_scheme \<Rightarrow> ('a usb_dev_scheme, u8 \<times> u8 list) run" where
  "control_read xfer offset Buffer Length w s =
     (let s = (if Length = 0 then Endpoint_ClearOUT s else s)
      in bind_run (poll_until (control_read_step xfer) (Length, (Buffer, offset (int (unat Length)))) w s)
           (\<lambda>(r, (buf, p)) s w.
             case r of
               Some c \<Rightarrow> Inr ((c, buf), s, w)
             | None \<Rightarrow> bind_run (await_in w s) (\<lambda>ok s w.
                 Inr ((if ok then ENDPOINT_RWCSTREAM_NoError else ENDPOINT_RWCSTREAM_DeviceDisconnected, buf), s, w))))"

definition Endpoint_Read_Control_Stream_LE ::
  "u8 list \<Rightarrow> u16 \<Rightarrow> 'a usb_dev_scheme world \<Rightarrow> 'a usb_dev_scheme \<Rightarrow> ('a usb_dev_scheme, u8 \<times> u8 list) run" where
  "Endpoint_Read_Control_Stream_LE Buffer Length w s =
     (if length Buffer < unat Length then Inl Fault else control_read (xfer_read 1) (\<lambda>_. 0) Buffer Length w s)"

definition Endpoint_Read_Control_Stream_BE ::
  "u8 list \<Rightarrow> u16 \<Rightarrow> 'a usb_dev_scheme world \<Rightarrow> 'a usb_dev_scheme \<Rightarrow> ('a usb_dev_scheme, u8 \<times> u8 list) run" where
  "Endpoint_Read_Control_Stream_BE Buffer Length w s =
     (if length Buffer < unat Length then Inl Fault
      else control_read (xfer_read (-1)) (\<lambda>n. n - 1) Buffer Length w s)"

definition Endpoint_Read_Control_EStream_LE ::
  "u8 list \<Rightarrow> u16 \<Rightarrow> 'a usb_dev_scheme world \<Rightarrow> 'a usb_dev_scheme \<Rightarrow> ('a usb_dev_scheme, u8 \<times> u8 list) run" where
  "Endpoint_Read_Control_EStream_LE Buffer Length w s =
     (if length Buffer < unat Length then Inl Fault
      else control_read (xfer_read 1) (\<lambda>_. 0) Buffer Length w s)"

definition Endpoint_Read_Control_EStream_BE ::
  "u8 list \<Rightarrow> u16 \<Rightarrow> 'a usb_dev_scheme world \<Rightarrow> 'a usb_dev_scheme \<Rightarrow> ('a usb_dev_scheme, u8 \<times> u8 list) run" where
  "Endpoint_Read_Control_EStream_BE Buffer Length w s =
     (if length Buffer < unat Length then Inl Fault
      else control_read (xfer_read (-1)) (\<lambda>n. n - 1) Buffer Length w s)"

section \<open>Waiting ends\<close>

lemma Endpoint_WaitUntilReady_ready:
  assumes "if ep_is_in (cur s) then bit (r_ueintx (cur s)) TXINI else bit (r_ueintx (cur s)) RXOUTI"
  shows "Endpoint_WaitUntilReady w s = Inr (ENDPOINT_READYWAIT_NoError, s, w)"
  using assms
  by (simp add: Endpoint_WaitUntilReady_def poll_until_exit wait_ready_step_def Endpoint_direction_IN Endpoint_flags
      split: if_splits)

text \<open>A start of frame; between polls there is one or there is none.\<close>

definition sof :: "'a usb_dev_scheme \<Rightarrow> 'a usb_dev_scheme" where
  "sof s = s\<lparr>UDINT := set_bit 2 (UDINT s)\<rparr>"

definition frames :: "bool list \<Rightarrow> 'a usb_dev_scheme world" where
  "frames bs = map (\<lambda>b. if b then sof else id) bs"

definition unready :: "'a usb_dev_scheme \<Rightarrow> bool" where
  "unready s \<longleftrightarrow> (if ep_is_in (cur s) then \<not> bit (r_ueintx (cur s)) TXINI else \<not> bit (r_ueintx (cur s)) RXOUTI) \<and>
     USB_DeviceState s \<noteq> DEVICE_STATE_Unattached \<and> \<not> bit (r_ueconx (cur s)) STALLRQ \<and> \<not> bit (UDINT s) 2"

lemma cur_UDINT [simp]: "cur (s\<lparr>UDINT := v\<rparr>) = cur s"
  by (simp add: cur_def)

lemma wait_ready_step_unready:
  assumes "unready s"
  shows "wait_ready_step t s = Inr (t, s)"
    and "wait_ready_step t (sof s) =
          (if t = 0 then Inl (ENDPOINT_READYWAIT_Timeout, s) else Inr (t - 1, s))"
proof -
  have "unset_bit 2 (set_bit 2 (UDINT s)) = UDINT s"
    using assms by (intro bit_eqI) (auto simp: unready_def)
  then have "s\<lparr>UDINT := unset_bit 2 (set_bit 2 (UDINT s))\<rparr> = s" by simp
  with assms show "wait_ready_step t s = Inr (t, s)"
    and "wait_ready_step t (sof s) =
          (if t = 0 then Inl (ENDPOINT_READYWAIT_Timeout, s) else Inr (t - 1, s))"
    by (simp_all add: wait_ready_step_def unready_def sof_def Endpoint_direction_IN Endpoint_flags Let_def
        split: if_splits)
qed

text \<open>What is left of a trace after its first \<open>n + 1\<close> frames.\<close>

fun after_frames :: "nat \<Rightarrow> bool list \<Rightarrow> bool list" where
  "after_frames n [] = []"
| "after_frames n (False # bs) = after_frames n bs"
| "after_frames 0 (True # bs) = bs"
| "after_frames (Suc n) (True # bs) = after_frames n bs"

lemma poll_frames:
  assumes "unready s"
  shows "poll_until wait_ready_step t (frames bs) s =
      (if count_list bs True \<le> unat t then Inl Waiting
       else Inr (ENDPOINT_READYWAIT_Timeout, s, frames (after_frames (unat t) bs))) \<and>
    poll_until wait_ready_step t (frames bs) (sof s) =
      (if t = 0 then Inr (ENDPOINT_READYWAIT_Timeout, s, frames bs)
       else if count_list bs True < unat t then Inl Waiting
       else Inr (ENDPOINT_READYWAIT_Timeout, s, frames (after_frames (unat t - 1) bs)))"
proof (induction bs arbitrary: t)
  case Nil
  then show ?case
    using wait_ready_step_unready [OF assms]
    by (auto simp: frames_def poll_until_end poll_until_exit unat_gt_0)
next
  case (Cons b bs)
  have f: "frames (b # bs) = (if b then sof else id) # frames bs"
    by (simp add: frames_def)
  have step: "poll_until wait_ready_step t (frames (b # bs)) s = poll_until wait_ready_step t (frames bs) ((if b then sof else id) s)" for t
    unfolding f by (rule poll_until_round) (rule wait_ready_step_unready(1) [OF assms])
  have one: "poll_until wait_ready_step t (frames (b # bs)) s =
      (if count_list (b # bs) True \<le> unat t then Inl Waiting
       else Inr (ENDPOINT_READYWAIT_Timeout, s, frames (after_frames (unat t) (b # bs))))" for t
  proof (cases b)
    case True
    then show ?thesis
      unfolding step using Cons.IH [of t]
      by (cases "unat t") (auto simp: unat_eq_0 Suc_le_eq)
  next
    case False
    then show ?thesis unfolding step using Cons.IH [of t] by simp
  qed
  moreover have "poll_until wait_ready_step t (frames (b # bs)) (sof s) = poll_until wait_ready_step (t - 1) (frames (b # bs)) s"
    if "t \<noteq> 0"
    unfolding step unfolding f by (rule poll_until_round) (use that wait_ready_step_unready(2) [OF assms] in simp)
  moreover have "poll_until wait_ready_step 0 (frames (b # bs)) (sof s) = Inr (ENDPOINT_READYWAIT_Timeout, s, frames (b # bs))"
    by (rule poll_until_exit) (use wait_ready_step_unready(2) [OF assms] in simp)
  ultimately show ?case
    using unat_gt_0 [of t] by (cases "t = 0") (auto simp: unat_minus_one)
qed

text \<open>C12: on an endpoint that never becomes ready, the wait gives up with the timeout code exactly at the
  101st start of frame after it began, leaving the state as it was; up to 100 frames it is still
  waiting.\<close>

theorem Endpoint_WaitUntilReady_timeout:
  assumes "unready s"
  shows "Endpoint_WaitUntilReady (frames bs) s =
      (if count_list bs True \<le> 100 then Inl Waiting
       else Inr (ENDPOINT_READYWAIT_Timeout, s, frames (after_frames 100 bs)))"
  using poll_frames [OF assms, of USB_STREAM_TIMEOUT_MS bs]
  by (simp add: Endpoint_WaitUntilReady_def USB_STREAM_TIMEOUT_MS_def)

definition dev_reset :: usb_dev where
  "dev_reset = usb_hw.extend hw_reset \<lparr>USB_DeviceState = 0, USB_ConfigurationNumber = 0, USB_RemoteWakeupEnabled = False,
     USB_CurrentlySelfPowered = False, USB_IsInitialized = False,
     USB_ControlRequest = \<lparr>bmRequestType = 0, bRequest = 0, wValue = 0, wIndex = 0, wLength = 0\<rparr>, SREG_I = False\<rparr>"

theorem Endpoint_WaitUntilReady_timeout_witness:
  "Endpoint_WaitUntilReady (frames (replicate 100 True)) (dev_reset\<lparr>USB_DeviceState := 4\<rparr>) = Inl Waiting \<and>
   Endpoint_WaitUntilReady (frames (False # replicate 101 True)) (dev_reset\<lparr>USB_DeviceState := 4\<rparr>) =
     Inr (ENDPOINT_READYWAIT_Timeout, dev_reset\<lparr>USB_DeviceState := 4\<rparr>, [])"
proof -
  have u: "unready (dev_reset\<lparr>USB_DeviceState := 4\<rparr>)"
    by (simp add: unready_def dev_reset_def hw_reset_def usb_hw.defs ep_none_def cur_def ep_is_in_def device_state_defs)
  have c: "count_list (replicate n True) True = n" for n by (induction n) auto
  have a: "after_frames n (replicate (Suc n) True) = []" for n by (induction n) auto
  from a [of 100] have "after_frames 100 (False # replicate 101 True) = []" by simp
  then show ?thesis
    using Endpoint_WaitUntilReady_timeout [OF u, of "replicate 100 True"]
      Endpoint_WaitUntilReady_timeout [OF u, of "False # replicate 101 True"]
    by (simp add: c frames_def)
qed

end
