(* ===== verification/Streams.thy ===== *)
theory Streams
  imports UsbDevice
begin

text \<open>
  What the stream transfers of \<open>Endpoint.c\<close> achieve over several packets: the bytes a host
  collects from an IN endpoint, with those still in the bank, are the bytes that were written,
  and the bytes read from an OUT endpoint are the bytes of the packets the host delivered.
\<close>

section \<open>The host's turns\<close>

text \<open>
  Elements of the world in which the host collects the packet of an endpoint, or delivers one
  to it; when the controller refuses, nothing changes.
\<close>

definition collect :: "nat \<Rightarrow> 'a usb_hw_scheme \<Rightarrow> 'a usb_hw_scheme" where
  "collect n s = (case host_in n s of None \<Rightarrow> s | Some (_, s') \<Rightarrow> s')"

definition deliver :: "nat \<Rightarrow> u8 list \<Rightarrow> 'a usb_hw_scheme \<Rightarrow> 'a usb_hw_scheme" where
  "deliver n p s = (case host_out n p s of None \<Rightarrow> s | Some s' \<Rightarrow> s')"

text \<open>A bulk IN endpoint whose bank the CPU owns, and a bulk OUT endpoint that holds a packet.\<close>

definition in_owned :: "ep_regs \<Rightarrow> bool" where
  "in_owned ep \<longleftrightarrow> \<not> ep_is_control ep \<and> ep_is_in ep \<and> bit (r_ueintx ep) TXINI \<and>
     bit (r_ueintx ep) FIFOCON \<and> r_tx ep = None"

definition out_owned :: "ep_regs \<Rightarrow> bool" where
  "out_owned ep \<longleftrightarrow> \<not> ep_is_control ep \<and> \<not> ep_is_in ep \<and> bit (r_ueintx ep) RXOUTI \<and>
     bit (r_ueintx ep) FIFOCON \<and> bit (r_ueconx ep) EPEN"

lemma set_unset_flags:
  "bit w m \<Longrightarrow> bit w n \<Longrightarrow> set_bit m (set_bit n (unset_bit m (unset_bit n w))) = w" for w :: "'a::len word"
  by (intro bit_eqI) (auto dest: bit_imp_le_length)

lemma ep_fields_tx:
  "r_tx ep = None \<Longrightarrow> ep\<lparr>r_bank := b, r_tx := None, r_sent := x\<rparr> = ep\<lparr>r_bank := b, r_sent := x\<rparr>"
  by (cases ep) simp

lemma collect_ClearIN:
  assumes "in_owned (cur s)"
  shows "collect (unat (UENUM s)) (Endpoint_ClearIN s) =
    upd_cur (\<lambda>ep. ep\<lparr>r_bank := [], r_sent := r_sent ep @ [r_bank ep]\<rparr>) s"
proof -
  have c: "ep_clear_in (cur s) = (cur s)\<lparr>r_ueintx := unset_bit FIFOCON (unset_bit TXINI (r_ueintx (cur s))),
      r_tx := Some (r_bank (cur s)), r_bank := []\<rparr>"
    using assms by (intro ep_clear_in_bulk) (auto simp: in_owned_def)
  show ?thesis
    using assms unfolding Endpoint_ops_cur
    by (auto simp: collect_def host_in_def c [unfolded cur_def] cur_def upd_cur_def upd_ep_def in_owned_def
        ep_is_control_def set_unset_flags ep_fields_tx)
qed

lemma deliver_ClearOUT:
  assumes "out_owned (cur s)" "length p \<le> ep_size (cur s)"
  shows "deliver (unat (UENUM s)) p (Endpoint_ClearOUT s) = upd_cur (\<lambda>ep. ep\<lparr>r_bank := p\<rparr>) s"
proof -
  have c: "ep_clear_out (cur s) = (cur s)\<lparr>r_ueintx := unset_bit FIFOCON (unset_bit RXOUTI (r_ueintx (cur s))),
      r_bank := []\<rparr>"
    using assms by (intro ep_clear_out_bulk) (auto simp: out_owned_def)
  show ?thesis
    using assms unfolding Endpoint_ops_cur
    by (auto simp: deliver_def host_out_def Let_def c [unfolded cur_def] cur_def upd_cur_def upd_ep_def
        out_owned_def ep_is_control_def ep_is_in_def ep_size_def set_unset_flags)
qed

section \<open>Writing\<close>

lemma of_nat_word_eq_0: "m < 65536 \<Longrightarrow> (of_nat m :: u16) = 0 \<longleftrightarrow> m = 0"
  by (auto simp: word_of_nat_eq_0_iff dest: dvd_imp_le)

lemma upt_map_shift: "map (\<lambda>j. f (p + d * int j)) [0..<Suc m] = f p # map (\<lambda>j. f (p + d + d * int j)) [0..<m]"
  by (auto simp: upt_conv_Cons map_Suc_upt [symmetric] algebra_simps simp del: upt_Suc)

lemma ep_rwal_in: "in_owned ep \<Longrightarrow> ep_rwal ep \<longleftrightarrow> length (r_bank ep) < ep_size ep"
  by (simp add: ep_rwal_def in_owned_def)

lemma stream_write_loop:
  assumes "in_owned (cur s)" "m < 65536" "n = unat (UENUM s)" "sz = ep_size (cur s)"
    "length (r_bank (cur s)) \<le> sz" "length (r_bank (cur s)) + m \<le> Suc k * sz"
  shows "\<exists>B S k'. stream_loop Endpoint_ClearIN (xfer_write d) (of_nat m) (buf, p) (replicate k (collect n) @ w) s =
      Inr ((0, (buf, p + d * int m)), upd_cur (\<lambda>ep. ep\<lparr>r_bank := B, r_sent := r_sent ep @ S\<rparr>) s,
           replicate k' (collect n) @ w) \<and>
    concat S @ B = r_bank (cur s) @ map (\<lambda>j. buf ! nat (p + d * int j)) [0..<m] \<and>
    (\<forall>x \<in> set S. length x = sz) \<and> length B \<le> sz"
  using assms
proof (induction "m + k" arbitrary: m k p s rule: less_induct)
  case less
  note pre = less.prems
  have upd_same: "upd_cur (\<lambda>ep. ep\<lparr>r_bank := r_bank (cur s), r_sent := r_sent ep\<rparr>) s = s"
    by (simp add: upd_cur_def upd_ep_def cur_def)
  show ?case
  proof (cases m)
    case 0
    then show ?thesis
      using pre upd_same
      by (intro exI [of _ "r_bank (cur s)"] exI [of _ "[]"] exI [of _ k])
        (simp add: stream_loop.simps readywait_defs)
  next
    case (Suc m')
    then have nz: "(of_nat m :: u16) \<noteq> 0" using pre(2) of_nat_word_eq_0 [of m] by simp
    show ?thesis
    proof (cases "length (r_bank (cur s)) < sz")
      case True
      let ?b = "buf ! nat p" and ?s = "upd_cur (ep_push (buf ! nat p)) s"
      have step: "stream_loop Endpoint_ClearIN (xfer_write d) (of_nat m) (buf, p) (replicate k (collect n) @ w) s =
          stream_loop Endpoint_ClearIN (xfer_write d) (of_nat m') (buf, p + d) (replicate k (collect n) @ w) ?s"
        using True pre nz Suc
        by (subst stream_loop.simps)
          (simp add: Endpoint_flags ep_rwal_in xfer_write_def Endpoint_ops_cur)
      have c: "cur ?s = (cur s)\<lparr>r_bank := r_bank (cur s) @ [?b]\<rparr>"
        using True pre by (simp add: ep_push_def)
      have own: "in_owned (cur ?s)" "sz = ep_size (cur ?s)"
        using pre unfolding c by (simp_all add: in_owned_def ep_is_control_def ep_is_in_def ep_size_def)
      have "\<exists>B S k'. stream_loop Endpoint_ClearIN (xfer_write d) (of_nat m') (buf, p + d) (replicate k (collect n) @ w) ?s =
          Inr ((0, (buf, p + d + d * int m')), upd_cur (\<lambda>ep. ep\<lparr>r_bank := B, r_sent := r_sent ep @ S\<rparr>) ?s,
               replicate k' (collect n) @ w) \<and>
        concat S @ B = r_bank (cur ?s) @ map (\<lambda>j. buf ! nat (p + d + d * int j)) [0..<m'] \<and>
        (\<forall>x \<in> set S. length x = sz) \<and> length B \<le> sz"
        using pre Suc True own
        by (intro less.hyps) (simp_all only: c UENUM_upd_cur ep_regs.simps length_append_singleton, simp_all)
      then obtain B S k' where *: "stream_loop Endpoint_ClearIN (xfer_write d) (of_nat m') (buf, p + d) (replicate k (collect n) @ w) ?s =
          Inr ((0, (buf, p + d + d * int m')), upd_cur (\<lambda>ep. ep\<lparr>r_bank := B, r_sent := r_sent ep @ S\<rparr>) ?s,
               replicate k' (collect n) @ w)"
        "concat S @ B = r_bank (cur ?s) @ map (\<lambda>j. buf ! nat (p + d + d * int j)) [0..<m']"
        "\<forall>x \<in> set S. length x = sz" "length B \<le> sz" by blast
      have s': "upd_cur (\<lambda>ep. ep\<lparr>r_bank := B, r_sent := r_sent ep @ S\<rparr>) ?s =
          upd_cur (\<lambda>ep. ep\<lparr>r_bank := B, r_sent := r_sent ep @ S\<rparr>) s"
        unfolding upd_cur_upd_cur by (rule upd_cur_cong) (simp add: ep_push_def)
      show ?thesis
        using * unfolding step s' c
        by (intro exI [of _ B] exI [of _ S] exI [of _ k'])
          (simp add: Suc upt_map_shift [of "\<lambda>i. buf ! nat i"] algebra_simps del: upt_Suc)
    next
      case False
      then have full: "length (r_bank (cur s)) = sz" using pre by simp
      then obtain k1 where k1: "k = Suc k1" using pre Suc by (cases k) auto
      let ?s = "upd_cur (\<lambda>ep. ep\<lparr>r_bank := [], r_sent := r_sent ep @ [r_bank ep]\<rparr>) s"
      have own: "in_owned (cur ?s)" "sz = ep_size (cur ?s)"
        using pre by (simp_all add: in_owned_def ep_is_control_def ep_is_in_def ep_size_def)
      have ready: "Endpoint_WaitUntilReady v ?s = Inr (ENDPOINT_READYWAIT_NoError, ?s, v)" for v
        using own by (intro Endpoint_WaitUntilReady_ready) (simp add: in_owned_def)
      have step: "stream_loop Endpoint_ClearIN (xfer_write d) (of_nat m) (buf, p) (replicate k (collect n) @ w) s =
          stream_loop Endpoint_ClearIN (xfer_write d) (of_nat m) (buf, p) (replicate k1 (collect n) @ w) ?s"
        using full pre nz k1 ready
        by (subst stream_loop.simps) (simp add: Endpoint_flags ep_rwal_in collect_ClearIN readywait_defs)
      have "\<exists>B S k'. stream_loop Endpoint_ClearIN (xfer_write d) (of_nat m) (buf, p) (replicate k1 (collect n) @ w) ?s =
          Inr ((0, (buf, p + d * int m)), upd_cur (\<lambda>ep. ep\<lparr>r_bank := B, r_sent := r_sent ep @ S\<rparr>) ?s,
               replicate k' (collect n) @ w) \<and>
        concat S @ B = r_bank (cur ?s) @ map (\<lambda>j. buf ! nat (p + d * int j)) [0..<m] \<and>
        (\<forall>x \<in> set S. length x = sz) \<and> length B \<le> sz"
        using pre k1 own full by (intro less.hyps) simp_all
      then obtain B S k' where *: "stream_loop Endpoint_ClearIN (xfer_write d) (of_nat m) (buf, p) (replicate k1 (collect n) @ w) ?s =
          Inr ((0, (buf, p + d * int m)), upd_cur (\<lambda>ep. ep\<lparr>r_bank := B, r_sent := r_sent ep @ S\<rparr>) ?s,
               replicate k' (collect n) @ w)"
        "concat S @ B = map (\<lambda>j. buf ! nat (p + d * int j)) [0..<m]"
        "\<forall>x \<in> set S. length x = sz" "length B \<le> sz" by auto
      have s': "upd_cur (\<lambda>ep. ep\<lparr>r_bank := B, r_sent := r_sent ep @ S\<rparr>) ?s =
          upd_cur (\<lambda>ep. ep\<lparr>r_bank := B, r_sent := r_sent ep @ r_bank (cur s) # S\<rparr>) s"
        unfolding upd_cur_upd_cur by (rule upd_cur_cong) simp
      show ?thesis
        using * full unfolding step s'
        by (intro exI [of _ B] exI [of _ "r_bank (cur s) # S"] exI [of _ k']) simp
    qed
  qed
qed


lemma map_nth_up: "m \<le> length buf \<Longrightarrow> map (\<lambda>j. buf ! nat (0 + 1 * int j)) [0..<m] = take m buf"
  by (rule nth_equalityI) auto

lemma map_nth_down:
  "m \<le> length buf \<Longrightarrow> map (\<lambda>j. buf ! nat (int m - 1 + - 1 * int j)) [0..<m] = rev (take m buf)"
proof (rule nth_equalityI)
  fix i assume "m \<le> length buf" "i < length (map (\<lambda>j. buf ! nat (int m - 1 + - 1 * int j)) [0..<m])"
  moreover from this have "nat (int m - 1 + - 1 * int i) = m - Suc i" by simp
  ultimately show "map (\<lambda>j. buf ! nat (int m - 1 + - 1 * int j)) [0..<m] ! i = rev (take m buf) ! i"
    by (simp add: rev_nth)
qed simp

lemma in_owned_ready: "in_owned (cur s) \<Longrightarrow> Endpoint_WaitUntilReady w s = Inr (ENDPOINT_READYWAIT_NoError, s, w)"
  by (rule Endpoint_WaitUntilReady_ready) (simp add: in_owned_def)

lemma out_owned_ready: "out_owned (cur s) \<Longrightarrow> Endpoint_WaitUntilReady w s = Inr (ENDPOINT_READYWAIT_NoError, s, w)"
  by (rule Endpoint_WaitUntilReady_ready) (simp add: out_owned_def)

text \<open>The bytes in the order of transmission: \<open>P\<close> is a prefix of the buffer, or its reverse.\<close>

definition packetised :: "nat \<Rightarrow> u8 list \<Rightarrow> u8 list list \<Rightarrow> u8 list \<Rightarrow> bool" where
  "packetised sz P S B \<longleftrightarrow> concat S @ B = P \<and> (\<forall>x \<in> set S. length x = sz) \<and> length B \<le> sz"

text \<open>C6: writing a stream to a bulk IN endpoint while the host collects its packets: both write routines
  return without error, every packet collected is a full one, and those packets followed by what is
  still in the bank are the old contents of the bank followed by the first bytes of the buffer, in
  order for the little-endian routine and reversed for the big-endian one. Nothing else in the
  controller changes.\<close>

theorem Endpoint_Write_Stream_packets:
  assumes "in_owned (cur s)" "length (r_bank (cur s)) \<le> ep_size (cur s)" "unat L \<le> length buf"
    "length (r_bank (cur s)) + unat L \<le> Suc k * ep_size (cur s)"
  defines "n \<equiv> unat (UENUM s)"
  shows "(\<exists>B S k'. Endpoint_Write_Stream_LE buf L (replicate k (collect n) @ w) s =
      Inr (ENDPOINT_READYWAIT_NoError, upd_cur (\<lambda>ep. ep\<lparr>r_bank := B, r_sent := r_sent ep @ S\<rparr>) s, replicate k' (collect n) @ w) \<and>
      packetised (ep_size (cur s)) (r_bank (cur s) @ take (unat L) buf) S B) \<and>
    (\<exists>B S k'. Endpoint_Write_Stream_BE buf L (replicate k (collect n) @ w) s =
      Inr (ENDPOINT_READYWAIT_NoError, upd_cur (\<lambda>ep. ep\<lparr>r_bank := B, r_sent := r_sent ep @ S\<rparr>) s, replicate k' (collect n) @ w) \<and>
      packetised (ep_size (cur s)) (r_bank (cur s) @ rev (take (unat L) buf)) S B)"
proof -
  have l: "unat L < 65536" by (rule unat_less_u16)
  note loop = stream_write_loop [OF assms(1) l refl refl assms(2,4)]
  note run = Endpoint_Write_Stream_LE_def Endpoint_Write_Stream_BE_def rw_stream_def readywait_defs
    in_owned_ready [OF assms(1), unfolded readywait_defs] packetised_def
  show ?thesis
  proof (intro conjI)
    obtain B S k' where "stream_loop Endpoint_ClearIN (xfer_write 1) (of_nat (unat L)) (buf, 0) (replicate k (collect n) @ w) s =
        Inr ((0, (buf, 0 + 1 * int (unat L))), upd_cur (\<lambda>ep. ep\<lparr>r_bank := B, r_sent := r_sent ep @ S\<rparr>) s, replicate k' (collect n) @ w)"
      "concat S @ B = r_bank (cur s) @ take (unat L) buf" "\<forall>x \<in> set S. length x = ep_size (cur s)" "length B \<le> ep_size (cur s)"
      using loop [of 1 buf 0 w] unfolding map_nth_up [OF assms(3)] n_def by blast
    then show "\<exists>B S k'. Endpoint_Write_Stream_LE buf L (replicate k (collect n) @ w) s =
      Inr (ENDPOINT_READYWAIT_NoError, upd_cur (\<lambda>ep. ep\<lparr>r_bank := B, r_sent := r_sent ep @ S\<rparr>) s, replicate k' (collect n) @ w) \<and>
      packetised (ep_size (cur s)) (r_bank (cur s) @ take (unat L) buf) S B"
      using assms(3) by (intro exI [of _ B] exI [of _ S] exI [of _ k']) (simp add: run)
  next
    obtain B S k' where "stream_loop Endpoint_ClearIN (xfer_write (-1)) (of_nat (unat L)) (buf, int (unat L) - 1) (replicate k (collect n) @ w) s =
        Inr ((0, (buf, int (unat L) - 1 + - 1 * int (unat L))), upd_cur (\<lambda>ep. ep\<lparr>r_bank := B, r_sent := r_sent ep @ S\<rparr>) s, replicate k' (collect n) @ w)"
      "concat S @ B = r_bank (cur s) @ rev (take (unat L) buf)" "\<forall>x \<in> set S. length x = ep_size (cur s)" "length B \<le> ep_size (cur s)"
      using loop [of "-1" buf "int (unat L) - 1" w] unfolding map_nth_down [OF assms(3)] n_def by blast
    then show "\<exists>B S k'. Endpoint_Write_Stream_BE buf L (replicate k (collect n) @ w) s =
      Inr (ENDPOINT_READYWAIT_NoError, upd_cur (\<lambda>ep. ep\<lparr>r_bank := B, r_sent := r_sent ep @ S\<rparr>) s, replicate k' (collect n) @ w) \<and>
      packetised (ep_size (cur s)) (r_bank (cur s) @ rev (take (unat L) buf)) S B"
      using assms(3) by (intro exI [of _ B] exI [of _ S] exI [of _ k']) (simp add: run)
  qed
qed


definition bulk_in_demo :: usb_dev where
  "bulk_in_demo = dev_reset\<lparr>UENUM := 1, eps := (\<lambda>_. ep_none)(1 := ep_none\<lparr>r_uecfg0x := 0x81, r_ueintx := 0x81\<rparr>)\<rparr>"

definition bulk_out_demo :: usb_dev where
  "bulk_out_demo = dev_reset\<lparr>UENUM := 2, eps := (\<lambda>_. ep_none)(2 := ep_none\<lparr>r_ueconx := 1, r_uecfg0x := 0x80, r_ueintx := 0x84,
     r_bank := [1, 2, 3]\<rparr>)\<rparr>"

lemma bulk_demo:
  "in_owned (cur bulk_in_demo)" "ep_size (cur bulk_in_demo) = 8" "r_bank (cur bulk_in_demo) = []" "UENUM bulk_in_demo = 1"
  "out_owned (cur bulk_out_demo)" "ep_size (cur bulk_out_demo) = 8" "r_bank (cur bulk_out_demo) = [1, 2, 3]" "UENUM bulk_out_demo = 2"
  by (simp_all add: bulk_in_demo_def bulk_out_demo_def dev_reset_def hw_reset_def usb_hw.defs cur_def ep_none_def in_owned_def
      out_owned_def ep_is_control_def ep_is_in_def ep_size_def reg_bits)

theorem Endpoint_Write_Stream_packets_witness:
  "\<exists>B S k'. Endpoint_Write_Stream_LE [1,2,3,4,5,6,7,8,9,10] 10 (replicate 1 (collect 1) @ []) bulk_in_demo =
      Inr (ENDPOINT_READYWAIT_NoError, upd_cur (\<lambda>ep. ep\<lparr>r_bank := B, r_sent := r_sent ep @ S\<rparr>) bulk_in_demo,
           replicate k' (collect 1) @ []) \<and>
      packetised 8 [1,2,3,4,5,6,7,8,9,10] S B"
  using Endpoint_Write_Stream_packets [of bulk_in_demo 10 "[1,2,3,4,5,6,7,8,9,10]" 1 "[]", THEN conjunct1]
  by (simp add: bulk_demo)

section \<open>Reading\<close>

fun poke :: "int \<Rightarrow> int \<Rightarrow> u8 list \<Rightarrow> u8 list \<Rightarrow> u8 list" where
  "poke d p [] buf = buf"
| "poke d p (x # xs) buf = poke d (p + d) xs (buf[nat p := x])"

lemma poke_up:
  "p + length xs \<le> length buf \<Longrightarrow> poke 1 (int p) xs buf = take p buf @ xs @ drop (p + length xs) buf"
proof (induction xs arbitrary: p buf)
  case Nil
  then show ?case by simp
next
  case (Cons x xs)
  have "poke 1 (int p) (x # xs) buf = poke 1 (int (Suc p)) xs (buf[p := x])" by (simp add: add.commute)
  also have "\<dots> = take (Suc p) (buf[p := x]) @ xs @ drop (Suc p + length xs) (buf[p := x])"
    using Cons.prems by (intro Cons.IH) simp
  finally show ?case using Cons.prems by (simp add: take_Suc_conv_app_nth)
qed

lemma poke_down:
  "length xs \<le> p \<Longrightarrow> p \<le> length buf \<Longrightarrow>
   poke (-1) (int p - 1) xs buf = take (p - length xs) buf @ rev xs @ drop p buf"
proof (induction xs arbitrary: p buf)
  case Nil
  then show ?case by simp
next
  case (Cons x xs)
  then obtain q where q: "p = Suc q" by (cases p) auto
  have "poke (-1) (int p - 1) (x # xs) buf = poke (-1) (int q - 1) xs (buf[q := x])" by (simp add: q)
  also have "\<dots> = take (q - length xs) (buf[q := x]) @ rev xs @ drop q (buf[q := x])"
    using Cons.prems q by (intro Cons.IH) simp_all
  also have "drop q (buf[q := x]) = x # drop (Suc q) buf"
    using Cons.prems q by (simp add: Cons_nth_drop_Suc [symmetric])
  finally show ?case using Cons.prems q by simp
qed

lemma ep_rwal_out: "out_owned ep \<Longrightarrow> ep_rwal ep \<longleftrightarrow> r_bank ep \<noteq> []"
  by (simp add: ep_rwal_def out_owned_def)

lemma upd_cur_bank_same: "upd_cur (\<lambda>ep. ep\<lparr>r_bank := r_bank (cur s)\<rparr>) s = s"
  by (simp add: upd_cur_def upd_ep_def cur_def)

lemma out_owned_bank [simp]: "out_owned (ep\<lparr>r_bank := b\<rparr>) = out_owned ep"
  by (simp add: out_owned_def ep_is_control_def ep_is_in_def)

lemma ep_size_bank [simp]: "ep_size (ep\<lparr>r_bank := b\<rparr>) = ep_size ep"
  by (simp add: ep_size_def)

lemma stream_read_loop:
  assumes "out_owned (cur s)" "m < 65536" "n = unat (UENUM s)"
    "\<forall>q \<in> set ps. length q \<le> ep_size (cur s)" "m \<le> length (r_bank (cur s) @ concat ps)"
  shows "\<exists>B k. stream_loop Endpoint_ClearOUT (xfer_read d) (of_nat m) (buf, p) (map (deliver n) ps @ w) s =
      Inr ((0, (poke d p (take m (r_bank (cur s) @ concat ps)) buf, p + d * int m)), upd_cur (\<lambda>ep. ep\<lparr>r_bank := B\<rparr>) s,
           map (deliver n) (drop k ps) @ w) \<and>
    B @ concat (drop k ps) = drop m (r_bank (cur s) @ concat ps)"
  using assms
proof (induction "m + length ps" arbitrary: m ps p buf s rule: less_induct)
  case less
  note pre = less.prems
  show ?case
  proof (cases m)
    case 0
    then show ?thesis
      by (intro exI [of _ "r_bank (cur s)"] exI [of _ 0])
        (simp add: stream_loop.simps readywait_defs upd_cur_bank_same)
  next
    case (Suc m')
    then have nz: "(of_nat m :: u16) \<noteq> 0" using pre(2) of_nat_word_eq_0 [of m] by simp
    show ?thesis
    proof (cases "r_bank (cur s)")
      case (Cons x bs)
      let ?s = "upd_cur (\<lambda>ep. ep\<lparr>r_bank := bs\<rparr>) s"
      have step: "stream_loop Endpoint_ClearOUT (xfer_read d) (of_nat m) (buf, p) (map (deliver n) ps @ w) s =
          stream_loop Endpoint_ClearOUT (xfer_read d) (of_nat m') (buf[nat p := x], p + d) (map (deliver n) ps @ w) ?s"
        using pre(1) nz Suc Cons
        by (subst stream_loop.simps)
          (simp add: Endpoint_flags ep_rwal_out xfer_read_def Endpoint_Read_Byte_def uedatx_read_Cons)
      obtain B k where *: "stream_loop Endpoint_ClearOUT (xfer_read d) (of_nat m') (buf[nat p := x], p + d) (map (deliver n) ps @ w) ?s =
          Inr ((0, (poke d (p + d) (take m' (r_bank (cur ?s) @ concat ps)) (buf[nat p := x]), p + d + d * int m')),
               upd_cur (\<lambda>ep. ep\<lparr>r_bank := B\<rparr>) ?s, map (deliver n) (drop k ps) @ w)"
        "B @ concat (drop k ps) = drop m' (r_bank (cur ?s) @ concat ps)"
        using less.hyps [of m' ps ?s "buf[nat p := x]" "p + d"] pre Suc Cons by auto
      show ?thesis
        using * unfolding step upd_cur_upd_cur
        by (intro exI [of _ B] exI [of _ k]) (simp add: Suc Cons algebra_simps)
    next
      case Nil
      with pre Suc obtain q qs where q: "ps = q # qs" by (cases ps) auto
      let ?s = "upd_cur (\<lambda>ep. ep\<lparr>r_bank := q\<rparr>) s"
      have own: "out_owned (cur ?s)" using pre(1) by simp
      have d: "deliver n q (Endpoint_ClearOUT s) = ?s"
        using pre q by (simp add: deliver_ClearOUT)
      have step: "stream_loop Endpoint_ClearOUT (xfer_read d) (of_nat m) (buf, p) (map (deliver n) ps @ w) s =
          stream_loop Endpoint_ClearOUT (xfer_read d) (of_nat m) (buf, p) (map (deliver n) qs @ w) ?s"
        using pre(1) nz Nil q d out_owned_ready [OF own]
        by (subst stream_loop.simps) (simp add: Endpoint_flags ep_rwal_out readywait_defs)
      obtain B k where *: "stream_loop Endpoint_ClearOUT (xfer_read d) (of_nat m) (buf, p) (map (deliver n) qs @ w) ?s =
          Inr ((0, (poke d p (take m (r_bank (cur ?s) @ concat qs)) buf, p + d * int m)),
               upd_cur (\<lambda>ep. ep\<lparr>r_bank := B\<rparr>) ?s, map (deliver n) (drop k qs) @ w)"
        "B @ concat (drop k qs) = drop m (r_bank (cur ?s) @ concat qs)"
        using less.hyps [of m qs ?s buf p] pre q Nil by auto
      show ?thesis
        using * unfolding step upd_cur_upd_cur
        by (intro exI [of _ B] exI [of _ "Suc k"]) (simp add: q Nil)
    qed
  qed
qed

text \<open>C7: reading a stream from a bulk OUT endpoint to which the host delivers packets of any sizes that
  fit: both read routines return without error, the start of the buffer is overwritten with the first
  bytes of the bank and the packets (reversed for the big-endian routine) and the rest of it is left
  alone, and the bytes not asked for are still in the bank or in packets not yet delivered.\<close>

theorem Endpoint_Read_Stream_packets:
  assumes "out_owned (cur s)" "\<forall>q \<in> set ps. length q \<le> ep_size (cur s)" "unat L \<le> length buf"
    "unat L \<le> length (r_bank (cur s) @ concat ps)"
  defines "n \<equiv> unat (UENUM s)" and "data \<equiv> take (unat L) (r_bank (cur s) @ concat ps)"
  shows "(\<exists>B k. Endpoint_Read_Stream_LE buf L (map (deliver n) ps @ w) s =
      Inr ((ENDPOINT_READYWAIT_NoError, data @ drop (unat L) buf), upd_cur (\<lambda>ep. ep\<lparr>r_bank := B\<rparr>) s,
           map (deliver n) (drop k ps) @ w) \<and>
      B @ concat (drop k ps) = drop (unat L) (r_bank (cur s) @ concat ps)) \<and>
    (\<exists>B k. Endpoint_Read_Stream_BE buf L (map (deliver n) ps @ w) s =
      Inr ((ENDPOINT_READYWAIT_NoError, rev data @ drop (unat L) buf), upd_cur (\<lambda>ep. ep\<lparr>r_bank := B\<rparr>) s,
           map (deliver n) (drop k ps) @ w) \<and>
      B @ concat (drop k ps) = drop (unat L) (r_bank (cur s) @ concat ps))"
proof -
  have l: "unat L < 65536" by (rule unat_less_u16)
  have d: "length data = unat L" using assms(4) by (simp add: data_def)
  have poke: "poke 1 0 data buf = data @ drop (unat L) buf"
    "poke (-1) (int (unat L) - 1) data buf = rev data @ drop (unat L) buf"
    using poke_up [of 0 data buf] poke_down [of data "unat L" buf] d assms(3) by simp_all
  note loop = stream_read_loop [OF assms(1) l refl assms(2,4), folded data_def]
  note run = Endpoint_Read_Stream_LE_def Endpoint_Read_Stream_BE_def rw_stream_def readywait_defs
    out_owned_ready [OF assms(1), unfolded readywait_defs]
  show ?thesis
  proof (intro conjI)
    obtain B k where "stream_loop Endpoint_ClearOUT (xfer_read 1) (of_nat (unat L)) (buf, 0) (map (deliver n) ps @ w) s =
        Inr ((0, (poke 1 0 data buf, 0 + 1 * int (unat L))), upd_cur (\<lambda>ep. ep\<lparr>r_bank := B\<rparr>) s, map (deliver n) (drop k ps) @ w)"
      "B @ concat (drop k ps) = drop (unat L) (r_bank (cur s) @ concat ps)"
      using loop [of 1 buf 0 w] unfolding n_def by blast
    then show "\<exists>B k. Endpoint_Read_Stream_LE buf L (map (deliver n) ps @ w) s =
      Inr ((ENDPOINT_READYWAIT_NoError, data @ drop (unat L) buf), upd_cur (\<lambda>ep. ep\<lparr>r_bank := B\<rparr>) s,
           map (deliver n) (drop k ps) @ w) \<and> B @ concat (drop k ps) = drop (unat L) (r_bank (cur s) @ concat ps)"
      using assms(3) poke by (intro exI [of _ B] exI [of _ k]) (simp add: run)
  next
    obtain B k where "stream_loop Endpoint_ClearOUT (xfer_read (-1)) (of_nat (unat L)) (buf, int (unat L) - 1) (map (deliver n) ps @ w) s =
        Inr ((0, (poke (-1) (int (unat L) - 1) data buf, int (unat L) - 1 + - 1 * int (unat L))),
             upd_cur (\<lambda>ep. ep\<lparr>r_bank := B\<rparr>) s, map (deliver n) (drop k ps) @ w)"
      "B @ concat (drop k ps) = drop (unat L) (r_bank (cur s) @ concat ps)"
      using loop [of "-1" buf "int (unat L) - 1" w] unfolding n_def by blast
    then show "\<exists>B k. Endpoint_Read_Stream_BE buf L (map (deliver n) ps @ w) s =
      Inr ((ENDPOINT_READYWAIT_NoError, rev data @ drop (unat L) buf), upd_cur (\<lambda>ep. ep\<lparr>r_bank := B\<rparr>) s,
           map (deliver n) (drop k ps) @ w) \<and> B @ concat (drop k ps) = drop (unat L) (r_bank (cur s) @ concat ps)"
      using assms(3) poke by (intro exI [of _ B] exI [of _ k]) (simp add: run)
  qed
qed

theorem Endpoint_Read_Stream_packets_witness:
  "\<exists>B k. Endpoint_Read_Stream_BE [0,0,0,0,0,0] 5 (map (deliver 2) [[4,5,6,7],[8]] @ []) bulk_out_demo =
      Inr ((ENDPOINT_READYWAIT_NoError, [5,4,3,2,1,0]), upd_cur (\<lambda>ep. ep\<lparr>r_bank := B\<rparr>) bulk_out_demo,
           map (deliver 2) (drop k [[4,5,6,7],[8]]) @ []) \<and>
      B @ concat (drop k [[4,5,6,7],[8]]) = [6,7,8]"
  using Endpoint_Read_Stream_packets [of bulk_out_demo "[[4,5,6,7],[8]]" 5 "[0,0,0,0,0,0]" "[]", THEN conjunct2]
  by (simp add: bulk_demo)


section \<open>Transfers of one packet\<close>

lemma stream_write_fits:
  assumes "in_owned (cur s)" "m < 65536" "length (r_bank (cur s)) + m \<le> ep_size (cur s)" "p + m \<le> length buf"
  shows "stream_loop Endpoint_ClearIN (xfer_write 1) (of_nat m) (buf, int p) w s =
    Inr ((0, (buf, int (p + m))), upd_cur (\<lambda>ep. ep\<lparr>r_bank := r_bank ep @ take m (drop p buf)\<rparr>) s, w)"
  using assms
proof (induction m arbitrary: s p)
  case 0
  have "upd_cur (\<lambda>ep. ep\<lparr>r_bank := r_bank ep\<rparr>) s = s" by (simp add: upd_cur_def upd_ep_def)
  then show ?case by (simp add: stream_loop.simps readywait_defs)
next
  case (Suc m)
  let ?s = "upd_cur (ep_push (buf ! p)) s"
  have nz: "(of_nat (Suc m) :: u16) \<noteq> 0" using Suc.prems of_nat_word_eq_0 [of "Suc m"] by simp
  have "stream_loop Endpoint_ClearIN (xfer_write 1) (of_nat (Suc m)) (buf, int p) w s =
      stream_loop Endpoint_ClearIN (xfer_write 1) (of_nat m) (buf, int (Suc p)) w ?s"
    using Suc.prems nz
    by (subst stream_loop.simps) (simp add: Endpoint_flags ep_rwal_in xfer_write_def Endpoint_ops_cur add.commute)
  also have c: "cur ?s = (cur s)\<lparr>r_bank := r_bank (cur s) @ [buf ! p]\<rparr>"
    using Suc.prems by (simp add: ep_push_def)
  have "stream_loop Endpoint_ClearIN (xfer_write 1) (of_nat m) (buf, int (Suc p)) w ?s =
      Inr ((0, (buf, int (Suc p + m))), upd_cur (\<lambda>ep. ep\<lparr>r_bank := r_bank ep @ take m (drop (Suc p) buf)\<rparr>) ?s, w)"
    using Suc.prems
    by (intro Suc.IH) (simp_all only: c, simp_all add: in_owned_def ep_is_control_def ep_is_in_def)
  also have "upd_cur (\<lambda>ep. ep\<lparr>r_bank := r_bank ep @ take m (drop (Suc p) buf)\<rparr>) ?s =
      upd_cur (\<lambda>ep. ep\<lparr>r_bank := r_bank ep @ take (Suc m) (drop p buf)\<rparr>) s"
    unfolding upd_cur_upd_cur using Suc.prems
    by (intro upd_cur_cong) (simp add: ep_push_def Cons_nth_drop_Suc [symmetric])
  finally show ?case by simp
qed

lemma Write_Stream_fits:
  assumes "in_owned (cur s)" "length (r_bank (cur s)) + unat L \<le> ep_size (cur s)" "unat L \<le> length buf"
  shows "Endpoint_Write_Stream_LE buf L w s =
    Inr (ENDPOINT_READYWAIT_NoError, upd_cur (\<lambda>ep. ep\<lparr>r_bank := r_bank ep @ take (unat L) buf\<rparr>) s, w)"
  using stream_write_fits [OF assms(1) unat_less_u16 assms(2), of 0 buf w] assms
  by (simp add: Endpoint_Write_Stream_LE_def rw_stream_def in_owned_ready readywait_defs)

lemma Write_Stream_one:
  assumes "in_owned (cur s)" "r_bank (cur s) = []" "length buf = unat L" "unat L \<le> ep_size (cur s)"
  shows "Endpoint_Write_Stream_LE buf L w s = Inr (ENDPOINT_READYWAIT_NoError, upd_cur (\<lambda>ep. ep\<lparr>r_bank := buf\<rparr>) s, w)"
proof -
  have "upd_cur (\<lambda>ep. ep\<lparr>r_bank := r_bank ep @ buf\<rparr>) s = upd_cur (\<lambda>ep. ep\<lparr>r_bank := buf\<rparr>) s"
    using assms(2) by (intro upd_cur_cong) simp
  then show ?thesis using Write_Stream_fits [of s L buf w] assms by simp
qed

lemma stream_read_fits:
  assumes "out_owned (cur s)" "m < 65536" "m \<le> length (r_bank (cur s))" "p + m \<le> length buf"
  shows "stream_loop Endpoint_ClearOUT (xfer_read 1) (of_nat m) (buf, int p) w s =
    Inr ((0, (take p buf @ take m (r_bank (cur s)) @ drop (p + m) buf, int (p + m))), upd_cur (\<lambda>ep. ep\<lparr>r_bank := drop m (r_bank ep)\<rparr>) s, w)"
proof -
  let ?d = "r_bank (cur s)"
  obtain B k where *: "stream_loop Endpoint_ClearOUT (xfer_read 1) (of_nat m) (buf, int p) (map (deliver (unat (UENUM s))) [] @ w) s =
      Inr ((0, (poke 1 (int p) (take m (?d @ concat [])) buf, int p + 1 * int m)), upd_cur (\<lambda>ep. ep\<lparr>r_bank := B\<rparr>) s,
           map (deliver (unat (UENUM s))) (drop k []) @ w)"
    "B @ concat (drop k []) = drop m (?d @ concat [])"
    using stream_read_loop [OF assms(1,2) refl, of "[]" 1 buf "int p" w] assms(3) by auto
  have "poke 1 (int p) (take m ?d) buf = take p buf @ take m ?d @ drop (p + m) buf" using poke_up [of p "take m ?d" buf] assms(3,4) by simp
  moreover have "upd_cur (\<lambda>ep. ep\<lparr>r_bank := drop m ?d\<rparr>) s = upd_cur (\<lambda>ep. ep\<lparr>r_bank := drop m (r_bank ep)\<rparr>) s"
    by (intro upd_cur_cong) simp
  ultimately show ?thesis using * by simp
qed

lemma Read_Stream_fits:
  assumes "out_owned (cur s)" "unat L \<le> length (r_bank (cur s))" "unat L \<le> length buf"
  shows "Endpoint_Read_Stream_LE buf L w s = Inr ((ENDPOINT_READYWAIT_NoError, take (unat L) (r_bank (cur s)) @ drop (unat L) buf),
    upd_cur (\<lambda>ep. ep\<lparr>r_bank := drop (unat L) (r_bank ep)\<rparr>) s, w)"
  using stream_read_fits [OF assms(1) unat_less_u16 assms(2), of 0 buf w] assms
  by (simp add: Endpoint_Read_Stream_LE_def rw_stream_def out_owned_ready readywait_defs)

lemma Read_Stream_one:
  assumes "out_owned (cur s)" "length (r_bank (cur s)) = unat L" "length buf = unat L"
  shows "Endpoint_Read_Stream_LE buf L w s = Inr ((ENDPOINT_READYWAIT_NoError, r_bank (cur s)), upd_cur (\<lambda>ep. ep\<lparr>r_bank := []\<rparr>) s, w)"
proof -
  have "upd_cur (\<lambda>ep. ep\<lparr>r_bank := drop (unat L) (r_bank ep)\<rparr>) s = upd_cur (\<lambda>ep. ep\<lparr>r_bank := []\<rparr>) s"
    using assms(2) by (intro upd_cur_cong) simp
  then show ?thesis using Read_Stream_fits [of s L buf w] assms by simp
qed

end
