(* ===== verification/UsbInterface.thy ===== *)
theory UsbInterface
  imports UsbDevice
begin

text \<open>
  The interface management of \<open>LowLevel/LowLevel.c\<close> (initialisation, reset, shut-down) with the
  macros of \<open>LowLevel.h\<close> and \<open>Device.h\<close>, and the general interrupt routine of
  \<open>HighLevel/USBInterrupt.c\<close>, for the ATmega32U4 in device mode with the options of the gadget's
  makefile (full speed, automatic PLL, regulator on). The library's default event handlers
  (\<open>HighLevel/Events.c\<close>) do nothing; the gadget overrides none of those raised here.
\<close>

section \<open>Register bits\<close>

definition USBE :: nat where "USBE = 7"
definition FRZCLK :: nat where "FRZCLK = 5"
definition OTGPADE :: nat where "OTGPADE = 4"
definition VBUSTE :: nat where "VBUSTE = 0"
definition VBUS :: nat where "VBUS = 0"
definition UVREGE :: nat where "UVREGE = 0"
definition LSM :: nat where "LSM = 2"
definition RMWKUP :: nat where "RMWKUP = 1"
definition DETACH :: nat where "DETACH = 0"
definition PINDIV :: nat where "PINDIV = 4"
definition PLLE :: nat where "PLLE = 1"
definition PLOCK :: nat where "PLOCK = 0"
definition PLLUSB :: nat where "PLLUSB = 6"
definition PDIV3 :: nat where "PDIV3 = 3"
definition PDIV1 :: nat where "PDIV1 = 1"

lemmas usb_bits = USBE_def FRZCLK_def OTGPADE_def VBUSTE_def VBUS_def UVREGE_def LSM_def RMWKUP_def
  DETACH_def PINDIV_def PLLE_def PLOCK_def PLLUSB_def PDIV3_def PDIV1_def

text \<open>
  Reaction of the controller: clearing \<open>USBE\<close> resets its device registers and the endpoints
  (the packets collected by the host are history and stay).
\<close>

definition usbcon_write :: "u8 \<Rightarrow> 'a usb_hw_scheme \<Rightarrow> 'a usb_hw_scheme" where
  "usbcon_write v h =
     (if bit v USBE then h\<lparr>USBCON := v\<rparr>
      else h\<lparr>USBCON := v, UENUM := 0, UDADDR := 0, UDCON := 1, UDIEN := 0, UDINT := 0, UEINT := 0,
             eps := (\<lambda>n. ep_none\<lparr>r_sent := r_sent (eps h n)\<rparr>)\<rparr>)"

section \<open>Macros\<close>

definition USB_VBUS_GetStatus :: "'a usb_hw_scheme \<Rightarrow> bool" where
  "USB_VBUS_GetStatus h = bit (USBSTA h) VBUS"

definition USB_Detach :: "'a usb_hw_scheme \<Rightarrow> 'a usb_hw_scheme" where
  "USB_Detach h = h\<lparr>UDCON := set_bit DETACH (UDCON h)\<rparr>"

definition USB_Attach :: "'a usb_hw_scheme \<Rightarrow> 'a usb_hw_scheme" where
  "USB_Attach h = h\<lparr>UDCON := unset_bit DETACH (UDCON h)\<rparr>"

definition USB_PLL_PSC :: u8 where "USB_PLL_PSC = push_bit PINDIV 1"

definition USB_PLL_On :: "'a usb_hw_scheme \<Rightarrow> 'a usb_hw_scheme" where
  "USB_PLL_On h = (let h = h\<lparr>PLLCSR := USB_PLL_PSC\<rparr> in h\<lparr>PLLCSR := set_bit PLLE (PLLCSR h)\<rparr>)"

definition USB_PLL_Off :: "'a usb_hw_scheme \<Rightarrow> 'a usb_hw_scheme" where
  "USB_PLL_Off h = h\<lparr>PLLCSR := 0\<rparr>"

definition USB_PLL_IsReady :: "'a usb_hw_scheme \<Rightarrow> bool" where
  "USB_PLL_IsReady h = bit (PLLCSR h) PLOCK"

definition USB_REG_On :: "'a usb_hw_scheme \<Rightarrow> 'a usb_hw_scheme" where
  "USB_REG_On h = h\<lparr>UHWCON := set_bit UVREGE (UHWCON h)\<rparr>"

definition USB_OTGPAD_On :: "'a usb_hw_scheme \<Rightarrow> 'a usb_hw_scheme" where
  "USB_OTGPAD_On h = usbcon_write (set_bit OTGPADE (USBCON h)) h"

definition USB_OTGPAD_Off :: "'a usb_hw_scheme \<Rightarrow> 'a usb_hw_scheme" where
  "USB_OTGPAD_Off h = usbcon_write (unset_bit OTGPADE (USBCON h)) h"

definition USB_CLK_Freeze :: "'a usb_hw_scheme \<Rightarrow> 'a usb_hw_scheme" where
  "USB_CLK_Freeze h = usbcon_write (set_bit FRZCLK (USBCON h)) h"

definition USB_CLK_Unfreeze :: "'a usb_hw_scheme \<Rightarrow> 'a usb_hw_scheme" where
  "USB_CLK_Unfreeze h = usbcon_write (unset_bit FRZCLK (USBCON h)) h"

definition USB_Controller_Disable :: "'a usb_hw_scheme \<Rightarrow> 'a usb_hw_scheme" where
  "USB_Controller_Disable h = usbcon_write (unset_bit USBE (USBCON h)) h"

definition USB_Controller_Reset :: "'a usb_hw_scheme \<Rightarrow> 'a usb_hw_scheme" where
  "USB_Controller_Reset h =
     (let Temp = USBCON h
      in usbcon_write (set_bit USBE Temp) (usbcon_write (unset_bit USBE Temp) h))"

definition USB_Device_SetFullSpeed :: "'a usb_hw_scheme \<Rightarrow> 'a usb_hw_scheme" where
  "USB_Device_SetFullSpeed h = h\<lparr>UDCON := unset_bit LSM (UDCON h)\<rparr>"

section \<open>Interrupt sources\<close>

definition USB_INT_DisableAllInterrupts :: "'a usb_hw_scheme \<Rightarrow> 'a usb_hw_scheme" where
  "USB_INT_DisableAllInterrupts h = (usbcon_write (unset_bit VBUSTE (USBCON h)) h)\<lparr>UDIEN := 0\<rparr>"

definition USB_INT_ClearAllInterrupts :: "'a usb_hw_scheme \<Rightarrow> 'a usb_hw_scheme" where
  "USB_INT_ClearAllInterrupts h = h\<lparr>USBINT := 0, UDINT := 0\<rparr>"

section \<open>LowLevel.c\<close>

text \<open>\<open>while (!(USB_PLL_IsReady()));\<close>\<close>

definition await_pll :: "'a usb_dev_scheme world \<Rightarrow> 'a usb_dev_scheme \<Rightarrow> ('a usb_dev_scheme, unit) run" where
  "await_pll = poll_until (\<lambda>_ s. if USB_PLL_IsReady s then Inl ((), s) else Inr ((), s)) ()"

definition USB_ResetInterface :: "'a usb_dev_scheme world \<Rightarrow> 'a usb_dev_scheme \<Rightarrow> ('a usb_dev_scheme, unit) run" where
  "USB_ResetInterface w s =
     (let s = USB_INT_DisableAllInterrupts s;
          s = USB_INT_ClearAllInterrupts s;
          s = s\<lparr>USB_DeviceState := DEVICE_STATE_Unattached, USB_ConfigurationNumber := 0,
                USB_RemoteWakeupEnabled := False, USB_CurrentlySelfPowered := False\<rparr>;
          s = s\<lparr>PLLFRQ := set_bit PLLUSB (set_bit PDIV3 (set_bit PDIV1 0))\<rparr>
      in bind_run (await_pll w (USB_PLL_On s)) (\<lambda>_ s w.
           let s = USB_Controller_Reset s;
               s = USB_REG_On s;
               s = USB_CLK_Unfreeze s;
               s = USB_Device_SetFullSpeed s;
               s = USB_Attach s;
               s = USB_INT_Enable INT_SUSPEND (USB_INT_Clear INT_SUSPEND s);
               s = USB_INT_Enable INT_EORSTI (USB_INT_Clear INT_EORSTI s);
               s = USB_INT_Enable INT_VBUS s
           in Inr ((), s, w)))"

definition USB_Init :: "'a usb_dev_scheme world \<Rightarrow> 'a usb_dev_scheme \<Rightarrow> ('a usb_dev_scheme, unit) run" where
  "USB_Init w s =
     bind_run (USB_ResetInterface w s) (\<lambda>_ s w.
       let s = USB_OTGPAD_On s;
           s = s\<lparr>USB_IsInitialized := True\<rparr>
       in Inr ((), s\<lparr>SREG_I := True\<rparr>, w))"

definition USB_ShutDown :: "'a usb_dev_scheme world \<Rightarrow> 'a usb_dev_scheme \<Rightarrow> ('a usb_dev_scheme, unit) run" where
  "USB_ShutDown w s =
     bind_run (USB_ResetInterface w s) (\<lambda>_ s w.
       let s = USB_Detach s;
           s = USB_Controller_Disable s;
           s = USB_PLL_Off s;
           s = USB_OTGPAD_Off s
       in Inr ((), s\<lparr>USB_IsInitialized := False\<rparr>, w))"

section \<open>The general interrupt\<close>

text \<open>One block of \<open>ISR(USB_GEN_vect)\<close> per source, in the order of the routine.\<close>

definition isr_vbus :: "'a usb_dev_scheme \<Rightarrow> 'a usb_dev_scheme" where
  "isr_vbus s =
     (if USB_INT_HasOccurred INT_VBUS s \<and> USB_INT_IsEnabled INT_VBUS s then
        (let s = USB_INT_Clear INT_VBUS s
         in if USB_VBUS_GetStatus s then s\<lparr>USB_DeviceState := DEVICE_STATE_Powered\<rparr>
            else s\<lparr>USB_DeviceState := DEVICE_STATE_Unattached\<rparr>)
      else s)"

definition isr_suspend :: "'a usb_dev_scheme \<Rightarrow> 'a usb_dev_scheme" where
  "isr_suspend s =
     (if USB_INT_HasOccurred INT_SUSPEND s \<and> USB_INT_IsEnabled INT_SUSPEND s then
        (let s = USB_INT_Clear INT_SUSPEND s;
             s = USB_INT_Enable INT_WAKEUP (USB_INT_Disable INT_SUSPEND s);
             s = USB_PLL_Off (USB_CLK_Freeze s)
         in s\<lparr>USB_DeviceState := DEVICE_STATE_Suspended\<rparr>)
      else s)"

definition isr_wakeup :: "'a usb_dev_scheme world \<Rightarrow> 'a usb_dev_scheme \<Rightarrow> ('a usb_dev_scheme, unit) run" where
  "isr_wakeup w s =
     (if USB_INT_HasOccurred INT_WAKEUP s \<and> USB_INT_IsEnabled INT_WAKEUP s then
        bind_run (await_pll w (USB_PLL_On s)) (\<lambda>_ s w.
          let s = USB_CLK_Unfreeze s;
              s = USB_INT_Clear INT_WAKEUP s;
              s = USB_INT_Enable INT_SUSPEND (USB_INT_Disable INT_WAKEUP s)
          in Inr ((), s\<lparr>USB_DeviceState := (if USB_ConfigurationNumber s \<noteq> 0 then DEVICE_STATE_Configured
                                        else DEVICE_STATE_Addressed)\<rparr>, w))
      else Inr ((), s, w))"

definition isr_reset :: "'a usb_dev_scheme world \<Rightarrow> 'a usb_dev_scheme \<Rightarrow> ('a usb_dev_scheme, unit) run" where
  "isr_reset w s =
     (if USB_INT_HasOccurred INT_EORSTI s \<and> USB_INT_IsEnabled INT_EORSTI s then
        (let s = USB_INT_Clear INT_EORSTI s;
             s = s\<lparr>USB_DeviceState := DEVICE_STATE_Default, USB_ConfigurationNumber := 0\<rparr>;
             s = USB_INT_Clear INT_SUSPEND s;
             s = USB_INT_Enable INT_WAKEUP (USB_INT_Disable INT_SUSPEND s);
             s = Endpoint_ClearEndpoints s
         in case Endpoint_ConfigureEndpoint ENDPOINT_CONTROLEP EP_TYPE_CONTROL ENDPOINT_DIR_OUT
                   USB_ControlEndpointSize ENDPOINT_BANK_SINGLE s of
              Inl e \<Rightarrow> Inl e
            | Inr (_, s) \<Rightarrow> Inr ((), USB_INT_Enable INT_RXSTPI s, w))
      else Inr ((), s, w))"

definition isr_sof :: "'a usb_dev_scheme \<Rightarrow> 'a usb_dev_scheme" where
  "isr_sof s = (if USB_INT_HasOccurred INT_SOFI s \<and> USB_INT_IsEnabled INT_SOFI s then USB_INT_Clear INT_SOFI s else s)"

definition USB_GEN_vect :: "'a usb_dev_scheme world \<Rightarrow> 'a usb_dev_scheme \<Rightarrow> ('a usb_dev_scheme, unit) run" where
  "USB_GEN_vect w s =
     bind_run (isr_wakeup w (isr_suspend (isr_vbus s))) (\<lambda>_ s w.
       bind_run (isr_reset w s) (\<lambda>_ s w. Inr ((), isr_sof s, w)))"


section \<open>Effects\<close>

lemma BytesToEPSizeMask_8: "Endpoint_BytesToEPSizeMask n = Inr 0" if "unat n \<le> 8"
proof -
  have "\<not> 8 < n" using that by (simp add: word_less_nat_alt)
  then show ?thesis by (simp add: Endpoint_BytesToEPSizeMask_def epsize_fuel_def eval_nat_numeral)
qed

text \<open>What clearing does to the registers of one endpoint.\<close>

definition ep_cleared :: "nat \<Rightarrow> ep_regs \<Rightarrow> ep_regs" where
  "ep_cleared n ep =
     (let ep = ueintx_write 0 (ep\<lparr>r_ueienx := 0\<rparr>);
          ep = uecfg1x_write n (unset_bit ALLOC (r_uecfg1x ep)) ep
      in ueconx_write (unset_bit EPEN (r_ueconx ep)) ep)"

lemma ep_cleared_simps [simp]:
  "r_uecfg0x (ep_cleared n ep) = r_uecfg0x ep"
  "r_ueienx (ep_cleared n ep) = 0"
  "r_bank (ep_cleared n ep) = []"
  "r_tx (ep_cleared n ep) = None"
  "r_sent (ep_cleared n ep) = r_sent ep"
  "\<not> bit (r_ueconx (ep_cleared n ep)) EPEN"
  "\<not> bit (r_uesta0x (ep_cleared n ep)) CFGOK"
  "k \<noteq> RWAL \<Longrightarrow> \<not> bit (r_ueintx (ep_cleared n ep)) k"
  by (simp_all add: ep_cleared_def Let_def ueconx_write_def uecfg1x_write_def ueintx_write_def ep_commit_def
      ep_free_def bit_and_iff bit_exp_iff)

lemma of_nat_and_7:
  assumes "k < 8"
  shows "(of_nat k :: u8) AND 7 = of_nat k" "unat (of_nat k :: u8) = k"
proof -
  from assms consider "k = 0" | "k = 1" | "k = 2" | "k = 3" | "k = 4" | "k = 5" | "k = 6" | "k = 7" by linarith
  then show "(of_nat k :: u8) AND 7 = of_nat k" "unat (of_nat k :: u8) = k" by (cases; simp)+
qed

lemma clear_endpoint_eq:
  assumes "k < 8"
  shows "clear_endpoint k h = (upd_ep k (ep_cleared k) h)\<lparr>UENUM := of_nat k\<rparr>"
  using assms
  by (simp add: clear_endpoint_def Let_def Endpoint_SelectEndpoint_def uenum_write_def of_nat_and_7 set_UEIENX_def
      set_UEINTX_def Endpoint_DeallocateMemory_def set_UECFG1X_def Endpoint_con_cur upd_cur_def upd_ep_def
      ep_cleared_def UECFG1X_def cur_def)


lemma fold_clear_endpoint:
  "\<forall>k \<in> set ks. k < 8 \<Longrightarrow> distinct ks \<Longrightarrow>
   fold clear_endpoint ks h = h\<lparr>UENUM := (if ks = [] then UENUM h else of_nat (last ks)),
     eps := (\<lambda>n. if n \<in> set ks then ep_cleared n (eps h n) else eps h n)\<rparr>"
proof (induction ks arbitrary: h)
  case Nil
  then show ?case by simp
next
  case (Cons k ks)
  then show ?case
    by (auto simp: clear_endpoint_eq upd_ep_def fun_eq_iff intro!: arg_cong [where f = "\<lambda>x. h\<lparr>UENUM := _, eps := x\<rparr>"])
qed

lemma Endpoint_ClearEndpoints_eq:
  "Endpoint_ClearEndpoints h = h\<lparr>UEINT := 0, UENUM := 6,
     eps := (\<lambda>n. if n < 7 then ep_cleared n (eps h n) else eps h n)\<rparr>"
  unfolding Endpoint_ClearEndpoints_def ENDPOINT_TOTAL_ENDPOINTS_def
  by (subst fold_clear_endpoint) (auto simp: fun_eq_iff)

text \<open>Configuring an endpoint with at most eight bytes and a single bank.\<close>

definition ep_configured :: "nat \<Rightarrow> u8 \<Rightarrow> u8 \<Rightarrow> ep_regs \<Rightarrow> ep_regs" where
  "ep_configured n c0 c1 ep =
     (let ep = ueconx_write (set_bit EPEN (r_ueconx ep)) ep;
          ep = (uecfg1x_write n 0 ep)\<lparr>r_uecfg0x := c0\<rparr>
      in uecfg1x_write n c1 ep)"

lemma Endpoint_ConfigureEndpoint_Prv_eq:
  assumes "unat N < 8" "N AND 7 = N"
  shows "Endpoint_ConfigureEndpoint_Prv N c0 c1 h =
    (bit (r_uesta0x (ep_configured (unat N) c0 c1 (eps h (unat N)))) CFGOK,
     (upd_ep (unat N) (ep_configured (unat N) c0 c1) h)\<lparr>UENUM := N\<rparr>)"
  using assms
  by (simp add: Endpoint_ConfigureEndpoint_Prv_def Let_def Endpoint_SelectEndpoint_def uenum_write_def set_UECFG1X_def
      set_UECFG0X_def Endpoint_con_cur upd_cur_def upd_ep_def ep_configured_def Endpoint_flags cur_def)

lemma ep_configured_simps:
  assumes "bit c1 ALLOC"
  shows "bit (r_ueconx (ep_configured n c0 c1 ep)) EPEN"
    "r_uecfg0x (ep_configured n c0 c1 ep) = c0"
    "r_uecfg1x (ep_configured n c0 c1 ep) = c1"
    "bit (r_uesta0x (ep_configured n c0 c1 ep)) CFGOK \<longleftrightarrow> 8 * 2 ^ unat (drop_bit EPSIZE0 c1 AND 7) \<le> ep_max n"
    "r_ueienx (ep_configured n c0 c1 ep) = r_ueienx ep"
    "r_bank (ep_configured n c0 c1 ep) = []"
    "r_tx (ep_configured n c0 c1 ep) = None"
    "r_sent (ep_configured n c0 c1 ep) = r_sent ep"
    "r_ueintx (ep_configured n c0 c1 ep) =
       (if drop_bit EPTYPE0 c0 = 0 then set_bit TXINI 0
        else if bit c0 EPDIR then set_bit FIFOCON (set_bit TXINI 0) else 0)"
  using assms
  by (simp_all add: ep_configured_def Let_def uecfg1x_write_def ueconx_write_def ep_reset_fifo_def ep_is_control_def
      ep_is_in_def ep_size_def)


section \<open>Bus reset\<close>

text \<open>The state a bus reset leaves: only the control endpoint is enabled, with its setup interrupt.\<close>

definition default_state :: "'a usb_dev_scheme \<Rightarrow> bool" where
  "default_state s \<longleftrightarrow> USB_DeviceState s = DEVICE_STATE_Default \<and> USB_ConfigurationNumber s = 0 \<and> UENUM s = 0 \<and>
     bit (r_ueconx (eps s 0)) EPEN \<and> bit (r_uesta0x (eps s 0)) CFGOK \<and> ep_is_control (eps s 0) \<and>
     ep_size (eps s 0) = 8 \<and> r_ueintx (eps s 0) = set_bit TXINI 0 \<and> bit (r_ueienx (eps s 0)) RXSTPE \<and>
     (\<forall>n \<in> {1..6}. \<not> bit (r_ueconx (eps s n)) EPEN \<and> \<not> bit (r_uesta0x (eps s n)) CFGOK \<and>
        r_bank (eps s n) = [] \<and> r_tx (eps s n) = None)"

lemma control_config:
  "Endpoint_ConfigureEndpoint ENDPOINT_CONTROLEP EP_TYPE_CONTROL ENDPOINT_DIR_OUT USB_ControlEndpointSize
     ENDPOINT_BANK_SINGLE h = Inr (True, (upd_ep 0 (ep_configured 0 0 2) h)\<lparr>UENUM := 0\<rparr>)"
proof -
  have "bit (2 :: u8) ALLOC" by (simp add: ALLOC_def)
  then have "bit (r_uesta0x (ep_configured 0 0 2 (eps h 0))) CFGOK"
    by (simp add: ep_configured_simps ep_max_def EPSIZE0_def)
  then show ?thesis
    using Endpoint_ConfigureEndpoint_Prv_eq [of 0 0 2 h]
    by (simp add: Endpoint_ConfigureEndpoint_def BytesToEPSizeMask_8 USB_ControlEndpointSize_def ENDPOINT_CONTROLEP_def
        EP_TYPE_CONTROL_def ENDPOINT_DIR_OUT_def ENDPOINT_BANK_SINGLE_def ALLOC_def)
qed

lemma isr_reset_default:
  assumes "bit (UDINT s) 3" "bit (UDIEN s) 3"
  shows "\<exists>s'. isr_reset w s = Inr ((), s', w) \<and> default_state s' \<and> UDADDR s' = UDADDR s \<and>
    bit (UDIEN s') 4 \<and> \<not> bit (UDIEN s') 0 \<and> \<not> bit (UDINT s') 3 \<and> (\<forall>n. r_sent (eps s' n) = r_sent (eps s n))"
  using assms
  by (simp add: isr_reset_def control_config Let_def Endpoint_ClearEndpoints_eq)
    (auto simp: default_state_def upd_ep_def set_UEIENX_def UEIENX_def upd_cur_def cur_def ep_configured_simps ALLOC_def
      ep_is_control_def ep_size_def EPTYPE0_def EPSIZE0_def ep_max_def RXSTPE_def)

lemma udint_vbus [simp]: "UDINT (isr_vbus s) = UDINT s" "UDIEN (isr_vbus s) = UDIEN s" "UDADDR (isr_vbus s) = UDADDR s"
  "eps (isr_vbus s) = eps s"
  by (simp_all add: isr_vbus_def Let_def)

lemma bit_usbcon_write [simp]:
  "bit v USBE \<Longrightarrow> usbcon_write v h = h\<lparr>USBCON := v\<rparr>"
  by (simp add: usbcon_write_def)

lemma isr_suspend_frame:
  assumes "bit (USBCON s) USBE"
  shows "bit (UDINT (isr_suspend s)) k \<longleftrightarrow> bit (UDINT s) k \<and> (k = 0 \<longrightarrow> \<not> bit (UDIEN s) 0)"
    "0 < k \<Longrightarrow> k \<noteq> 4 \<Longrightarrow> bit (UDIEN (isr_suspend s)) k \<longleftrightarrow> bit (UDIEN s) k"
    "eps (isr_suspend s) = eps s" "UDADDR (isr_suspend s) = UDADDR s"
  using assms
  by (auto simp: isr_suspend_def Let_def USB_PLL_Off_def USB_CLK_Freeze_def usb_bits)

lemma isr_sof_default: "default_state s \<Longrightarrow> default_state (isr_sof s)"
  by (simp add: isr_sof_def default_state_def)

text \<open>Whatever was configured before, a bus reset with no wake-up pending leaves the device in the
  default state with configuration 0, the control endpoint enabled with an empty 8-byte bank and its
  setup interrupt on, and every other endpoint disabled, unallocated and empty. It also leaves the
  control endpoint selected, whichever endpoint the interrupted code had selected.\<close>

lemma USB_GEN_vect_bus_reset:
  assumes "bit (UDINT s) 3" "bit (UDIEN s) 3" "\<not> bit (UDINT s) 4" "bit (USBCON s) USBE"
  shows "\<exists>s'. USB_GEN_vect w s = Inr ((), s', w) \<and> default_state s'"
proof -
  let ?t = "isr_suspend (isr_vbus s)"
  have u: "bit (USBCON (isr_vbus s)) USBE" using assms(4) by (simp add: isr_vbus_def Let_def)
  have "\<not> bit (UDINT ?t) 4" "bit (UDINT ?t) 3" "bit (UDIEN ?t) 3"
    using assms by (simp_all add: isr_suspend_frame [OF u])
  then show ?thesis
    using isr_reset_default [of ?t w] isr_sof_default
    by (auto simp: USB_GEN_vect_def isr_wakeup_def)
qed

definition pll_lock :: "'a usb_hw_scheme \<Rightarrow> 'a usb_hw_scheme" where
  "pll_lock h = h\<lparr>PLLCSR := set_bit PLOCK (PLLCSR h)\<rparr>"

lemma await_pll_lock:
  "\<not> bit (PLLCSR s) PLOCK \<Longrightarrow> await_pll (replicate n id @ pll_lock # w) s = Inr ((), pll_lock s, w)"
proof (induction n)
  case 0
  then show ?case
    by (simp add: await_pll_def poll_until_round [of _ _ _ "()"] USB_PLL_IsReady_def)
      (simp add: poll_until_exit pll_lock_def USB_PLL_IsReady_def PLOCK_def)
next
  case (Suc n)
  then show ?case
    by (simp add: await_pll_def poll_until_round [of _ _ _ "()"] USB_PLL_IsReady_def)
qed

lemma PLL_On_unlocked: "\<not> bit (PLLCSR (USB_PLL_On h)) PLOCK"
  by (simp add: USB_PLL_On_def Let_def USB_PLL_PSC_def usb_bits)

text \<open>Initialisation returns once the PLL locks, with the interface attached at full speed in the
  unattached state, every endpoint in its reset state, exactly the suspend, bus-reset and VBUS
  interrupts enabled, none of them pending, and interrupts on.\<close>

lemma USB_Init_attached:
  "\<exists>s'. USB_Init (replicate n id @ pll_lock # w) s = Inr ((), s', w) \<and>
    USB_DeviceState s' = DEVICE_STATE_Unattached \<and> USB_ConfigurationNumber s' = 0 \<and>
    \<not> USB_RemoteWakeupEnabled s' \<and> USB_IsInitialized s' \<and> SREG_I s' \<and>
    \<not> bit (UDCON s') DETACH \<and> \<not> bit (UDCON s') LSM \<and> bit (USBCON s') USBE \<and> \<not> bit (USBCON s') FRZCLK \<and>
    bit (PLLCSR s') PLOCK \<and> bit (UHWCON s') UVREGE \<and>
    (\<forall>k. bit (UDIEN s') k \<longleftrightarrow> k = 0 \<or> k = 3) \<and> UDINT s' = 0 \<and> bit (USBCON s') VBUSTE \<and> USBINT s' = 0 \<and>
    (\<forall>n. eps s' n = ep_none\<lparr>r_sent := r_sent (eps s n)\<rparr>)"
  by (simp add: USB_Init_def USB_ResetInterface_def Let_def await_pll_lock PLL_On_unlocked USB_OTGPAD_On_def
        USB_CLK_Unfreeze_def)
      (auto simp: USB_REG_On_def USB_Device_SetFullSpeed_def USB_Attach_def USB_Controller_Reset_def Let_def
        USB_INT_DisableAllInterrupts_def USB_INT_ClearAllInterrupts_def usbcon_write_def pll_lock_def USB_PLL_On_def usb_bits bit_1_iff)


text \<open>A wake-up interrupt makes the device configured when a configuration is set and addressed
  otherwise, whatever state it was in and whatever its address register holds; it leaves the
  endpoints, the selected endpoint and the address alone and swaps the wake-up interrupt for the
  suspend interrupt. As a bus reset enables the wake-up interrupt, a device in the default state,
  with no address yet, is then called addressed.\<close>

lemma USB_GEN_vect_wakeup:
  assumes "bit (UDINT s) 4" "bit (UDIEN s) 4" "\<not> bit (UDINT s) 3" "\<not> bit (UDINT s) 0" "bit (USBCON s) USBE"
  shows "\<exists>s'. USB_GEN_vect (replicate n id @ pll_lock # w) s = Inr ((), s', w) \<and>
    USB_DeviceState s' = (if USB_ConfigurationNumber s \<noteq> 0 then DEVICE_STATE_Configured else DEVICE_STATE_Addressed) \<and>
    UDADDR s' = UDADDR s \<and> UENUM s' = UENUM s \<and> eps s' = eps s \<and>
    bit (UDIEN s') 0 \<and> \<not> bit (UDIEN s') 4 \<and> \<not> bit (UDINT s') 4"
proof -
  have "isr_suspend (isr_vbus s) = isr_vbus s" using assms by (simp add: isr_suspend_def)
  then show ?thesis
    using assms
    by (simp add: USB_GEN_vect_def isr_wakeup_def await_pll_lock PLL_On_unlocked)
      (auto simp: isr_reset_def isr_sof_def isr_vbus_def USB_PLL_On_def pll_lock_def USB_CLK_Unfreeze_def Let_def usb_bits)
qed

text \<open>A device after a bus reset, before it has an address, with the host's next activity pending.\<close>

definition reset_demo :: usb_dev where
  "reset_demo = dev_reset\<lparr>USBCON := 0x81, UDIEN := 8, UDINT := 8, USB_DeviceState := 4, USB_ConfigurationNumber := 1, UENUM := 2\<rparr>"

lemma USB_GEN_vect_bus_reset_instance:
  "\<exists>s'. USB_GEN_vect [] reset_demo = Inr ((), s', []) \<and> default_state s'"
  by (rule USB_GEN_vect_bus_reset) (simp_all add: reset_demo_def usb_bits)

definition wakeup_demo :: usb_dev where
  "wakeup_demo = dev_reset\<lparr>USBCON := 0x81, UDIEN := 0x18, UDINT := 0x10, USB_DeviceState := 2\<rparr>"

lemma USB_GEN_vect_wakeup_instance:
  "\<exists>s'. USB_GEN_vect [pll_lock] wakeup_demo = Inr ((), s', []) \<and>
    USB_DeviceState s' = DEVICE_STATE_Addressed \<and> UDADDR s' = 0"
proof -
  have "bit (UDINT wakeup_demo) 4" "bit (UDIEN wakeup_demo) 4" "\<not> bit (UDINT wakeup_demo) 3"
    "\<not> bit (UDINT wakeup_demo) 0" "bit (USBCON wakeup_demo) USBE"
    by (simp_all add: wakeup_demo_def usb_bits)
  from USB_GEN_vect_wakeup [OF this, of 0 "[]"] show ?thesis
    by (auto simp: wakeup_demo_def dev_reset_def hw_reset_def usb_hw.defs)
qed

end
