(* ===== verification/Control.thy ===== *)
theory Control
  imports Streams UsbInterface
begin

text \<open>
  What the control write routines of \<open>Endpoint.c\<close> achieve on the control endpoint: the data stage
  in packets of eight bytes, ended by a short packet, and the host's status stage.
\<close>

section \<open>The idle control endpoint\<close>

definition ctl_idle :: "ep_regs \<Rightarrow> bool" where
  "ctl_idle ep \<longleftrightarrow> ep_is_control ep \<and> \<not> ep_is_in ep \<and> ep_size ep = 8 \<and> bit (r_ueconx ep) EPEN \<and>
     r_ueintx ep = set_bit TXINI 0 \<and> r_bank ep = [] \<and> r_tx ep = None"

definition ctl_ready :: "'a usb_dev_scheme \<Rightarrow> bool" where
  "ctl_ready s \<longleftrightarrow> UENUM s = 0 \<and> ctl_idle (eps s 0) \<and> USB_DeviceState s \<noteq> DEVICE_STATE_Unattached"

text \<open>The packets of a control transfer: all of eight bytes but the last, which is shorter.\<close>

function packets8 :: "u8 list \<Rightarrow> u8 list list" where
  "packets8 xs = (if length xs < 8 then [xs] else take 8 xs # packets8 (drop 8 xs))"
  by pat_completeness auto
termination by (relation "measure length") auto

declare packets8.simps [simp del]

lemma concat_packets8: "concat (packets8 xs) = xs"
proof (induction xs rule: packets8.induct)
  case (1 xs)
  then show ?case by (subst packets8.simps) simp
qed

definition add_sent :: "u8 list list \<Rightarrow> 'a usb_hw_scheme \<Rightarrow> 'a usb_hw_scheme" where
  "add_sent ps = upd_ep 0 (\<lambda>ep. ep\<lparr>r_sent := r_sent ep @ ps\<rparr>)"

lemma add_sent_add_sent: "add_sent qs (add_sent ps s) = add_sent (ps @ qs) s"
  by (simp add: add_sent_def upd_ep_upd_ep)

lemma add_sent_Nil [simp]: "add_sent [] s = s"
  by (simp add: add_sent_def upd_ep_def)

lemma add_sent_simps [simp]:
  "UENUM (add_sent ps s) = UENUM s"
  "USB_DeviceState (add_sent ps s') = USB_DeviceState s'"
  "USB_ControlRequest (add_sent ps s') = USB_ControlRequest s'"
  "ctl_idle (eps (add_sent ps s) 0) = ctl_idle (eps s 0)"
  by (simp_all add: add_sent_def upd_ep_def ctl_idle_def ep_is_control_def ep_is_in_def ep_size_def)

lemma ctl_ready_add_sent [simp]: "ctl_ready (add_sent ps s) = ctl_ready s"
  by (simp add: ctl_ready_def)

section \<open>One packet\<close>

definition with_bank :: "u8 list \<Rightarrow> 'a usb_hw_scheme \<Rightarrow> 'a usb_hw_scheme" where
  "with_bank b = upd_ep 0 (\<lambda>ep. ep\<lparr>r_bank := b\<rparr>)"

lemma with_bank_simps [simp]:
  "UENUM (with_bank b s) = UENUM s"
  "eps (with_bank b s) 0 = (eps s 0)\<lparr>r_bank := b\<rparr>"
  "with_bank b (with_bank c s) = with_bank b s"
  by (simp_all add: with_bank_def upd_ep_upd_ep)

lemma with_bank_same: "r_bank (eps s 0) = b \<Longrightarrow> with_bank b s = s"
  by (auto simp: with_bank_def upd_ep_def)

lemma of_nat_Suc_minus_1: "(of_nat (Suc m) :: u16) - 1 = of_nat m"
  by simp

lemma fill_bank_eq:
  assumes "ctl_idle (eps s 0)" "UENUM s = 0" "m < 65536" "length b \<le> 8"
  shows "fill_bank (xfer_write d) (of_nat m) (buf, p) (with_bank b s) =
    (of_nat (m - (8 - length b)), (buf, p + d * int (min (8 - length b) m)),
     with_bank (b @ map (\<lambda>j. buf ! nat (p + d * int j)) [0..<min (8 - length b) m]) s)"
  using assms
proof (induction m arbitrary: b p)
  case 0
  then show ?case by (simp add: fill_bank.simps)
next
  case (Suc m)
  have cur: "cur (with_bank b s) = (eps s 0)\<lparr>r_bank := b\<rparr>" using Suc.prems by (simp add: cur_def)
  have n: "(of_nat (Suc m) :: u16) \<noteq> 0" using of_nat_word_eq_0 [of "Suc m"] Suc.prems by simp
  show ?case
  proof (cases "length b = 8")
    case True
    then show ?thesis
      by (subst fill_bank.simps) (simp add: Endpoint_BytesInEndpoint_def cur USB_ControlEndpointSize_def)
  next
    case False
    then have l: "length b < 8" using Suc.prems by simp
    then have less: "Endpoint_BytesInEndpoint (with_bank b s) < USB_ControlEndpointSize"
      by (simp add: Endpoint_BytesInEndpoint_def cur USB_ControlEndpointSize_def word_less_nat_alt unat_of_nat take_bit_nat_eq_self)
    have push: "Endpoint_Write_Byte (buf ! nat p) (with_bank b s) = with_bank (b @ [buf ! nat p]) s"
      using l Suc.prems(1,2)
      by (simp add: Endpoint_ops_cur upd_cur_def with_bank_def upd_ep_upd_ep)
        (simp add: upd_ep_def ep_push_def ctl_idle_def)
    have e: "min (8 - length b) (Suc m) = Suc (min (7 - length b) m)" using l by arith
    have "fill_bank (xfer_write d) (of_nat (Suc m)) (buf, p) (with_bank b s) =
        fill_bank (xfer_write d) (of_nat m) (buf, p + d) (with_bank (b @ [buf ! nat p]) s)"
      using n less by (subst fill_bank.simps) (simp only: xfer_write_def prod.case push of_nat_Suc_minus_1, simp)
    also have "\<dots> = (of_nat (m - (8 - length (b @ [buf ! nat p]))),
        (buf, p + d + d * int (min (8 - length (b @ [buf ! nat p])) m)),
        with_bank ((b @ [buf ! nat p]) @ map (\<lambda>j. buf ! nat (p + d + d * int j)) [0..<min (8 - length (b @ [buf ! nat p])) m]) s)"
      using Suc.prems l by (intro Suc.IH) simp_all
    also have "8 - length (b @ [buf ! nat p]) = 7 - length b" by simp
    also have "m - (7 - length b) = Suc m - (8 - length b)" using l by simp
    also have "p + d + d * int (min (7 - length b) m) = p + d * int (min (8 - length b) (Suc m))"
      unfolding e by (simp add: algebra_simps)
    also have "(b @ [buf ! nat p]) @ map (\<lambda>j. buf ! nat (p + d + d * int j)) [0..<min (7 - length b) m] =
        b @ map (\<lambda>j. buf ! nat (p + d * int j)) [0..<Suc (min (7 - length b) m)]"
      by (simp add: upt_map_shift [of "\<lambda>i. buf ! nat i"] del: upt_Suc)
    finally show ?thesis by (simp add: e)
  qed
qed


text \<open>A filled bank handed over and collected leaves the endpoint idle, with one more packet sent.\<close>

lemma send_with_bank:
  assumes "ctl_idle (eps s 0)" "UENUM s = 0"
  shows "collect 0 (Endpoint_ClearIN (with_bank b s)) = add_sent [b] s"
proof -
  have i: "ctl_idle ep \<Longrightarrow> ep_clear_in (ep\<lparr>r_bank := b\<rparr>) = ep\<lparr>r_bank := [], r_ueintx := 0, r_tx := Some b\<rparr>" for ep
  proof -
    assume "ctl_idle ep"
    moreover have "set_bit TXINI 0 AND set_bit RWAL (unset_bit TXINI u) = 0" for u :: u8
      by (intro bit_eqI) (auto simp: bit_and_iff bit_exp_iff)
    ultimately show ?thesis
      by (simp add: ep_clear_in_def ueintx_write_def Let_def ctl_idle_def ep_is_control_def ep_commit_def bit_exp_iff)
  qed
  have "ep\<lparr>r_bank := [], r_tx := None, r_sent := x, r_ueintx := 2 ^ TXINI\<rparr> = ep\<lparr>r_sent := x\<rparr>" if "ctl_idle ep" for ep x
    using that by (cases ep) (simp add: ctl_idle_def)
  note r = this [OF assms(1)]
  show ?thesis
    using assms i [OF assms(1)]
    by (simp add: collect_def host_in_def Endpoint_ops_cur upd_cur_def add_sent_def with_bank_def upd_ep_upd_ep)
      (simp add: upd_ep_def ctl_idle_def ep_is_control_def r)
qed


section \<open>The whole transfer\<close>

definition data_packets :: "bool \<Rightarrow> u8 list \<Rightarrow> u8 list list" where
  "data_packets full xs = (if xs = [] \<and> \<not> full then [] else packets8 xs)"

lemma data_packets_step:
  assumes "xs \<noteq> [] \<or> full"
  shows "data_packets full xs = take 8 xs # data_packets (length (take 8 xs) = 8) (drop 8 xs)"
proof (cases "length xs < 8")
  case True
  then show ?thesis using assms by (simp add: data_packets_def packets8.simps [of xs])
next
  case False
  then show ?thesis using assms by (simp add: data_packets_def packets8.simps [of xs])
qed

lemma ctl_flags:
  assumes "ctl_ready s"
  shows "Endpoint_IsINReady s" "\<not> Endpoint_IsOUTReceived s" "\<not> Endpoint_IsSETUPReceived s"
    "USB_DeviceState s \<noteq> DEVICE_STATE_Unattached" "cur s = eps s 0"
  using assms by (simp_all add: ctl_ready_def ctl_idle_def Endpoint_flags cur_def bit_exp_iff)

lemma map_nth_upt: "p + n \<le> length buf \<Longrightarrow> map (\<lambda>j. buf ! nat (int p + 1 * int j)) [0..<n] = take n (drop p buf)"
  by (rule nth_equalityI) (auto simp: nat_add_distrib)

lemma control_write_step_ready:
  assumes "ctl_ready s" "m \<noteq> 0 \<or> full" "m < 65536" "p + m \<le> length buf"
  shows "\<exists>n. n = min 8 m \<and> control_write_step (xfer_write 1) (of_nat m, full, (buf, int p)) s =
    Inr ((of_nat (m - n), n = 8, (buf, int (p + n))), Endpoint_ClearIN (with_bank (take n (drop p buf)) s))"
proof -
  have i: "ctl_idle (eps s 0)" "UENUM s = 0" using assms(1) by (simp_all add: ctl_ready_def)
  have m0: "(of_nat m :: u16) = 0 \<longleftrightarrow> m = 0" using assms(3) by (rule of_nat_word_eq_0)
  have s: "with_bank [] s = s" using i by (intro with_bank_same) (simp add: ctl_idle_def)
  have f: "fill_bank (xfer_write 1) (of_nat m) (buf, int p) s =
      (of_nat (m - min 8 m), (buf, int (p + min 8 m)), with_bank (take (min 8 m) (drop p buf)) s)"
    using fill_bank_eq [OF i assms(3), of "[]" 1 buf "int p"] assms(4)
    by (simp add: s map_nth_upt [simplified] min_def)
  have b: "Endpoint_BytesInEndpoint (with_bank (take (min 8 m) (drop p buf)) s) = USB_ControlEndpointSize \<longleftrightarrow> min 8 m = 8"
  proof -
    have "(of_nat (min 8 m) :: u16) = 8 \<longleftrightarrow> min 8 m = 8"
      using of_nat_eq_iff_u16 [of "min 8 m" 8] by simp
    then show ?thesis
      using assms(4) i by (simp add: Endpoint_BytesInEndpoint_def cur_def USB_ControlEndpointSize_def min_absorb2)
  qed
  show ?thesis
    using assms(2) ctl_flags [OF assms(1)] m0
    by (simp add: control_write_step_def f b Let_def)
qed

lemma packets8_not_Nil [simp]: "packets8 xs \<noteq> []" "[] \<noteq> packets8 xs"
  by (subst packets8.simps, simp)+

lemma control_write_packets:
  assumes "ctl_ready s" "m < 65536" "p + m \<le> length buf"
  shows "poll_until (control_write_step (xfer_write 1)) (of_nat m, full, (buf, int p))
      (replicate (length (data_packets full (take m (drop p buf)))) (collect 0) @ w) s =
    Inr (None, add_sent (data_packets full (take m (drop p buf))) s, w)"
  using assms
proof (induction "data_packets full (take m (drop p buf))" arbitrary: m p full s)
  case Nil
  then have "take m (drop p buf) = []" "\<not> full"
    by (simp_all add: data_packets_def split: if_splits)
  with Nil have "m = 0" by auto
  with \<open>\<not> full\<close> Nil show ?case by (simp add: poll_until_exit control_write_step_def data_packets_def)
next
  case (Cons q qs)
  let ?xs = "take m (drop p buf)" and ?n = "min 8 m"
  have xs: "?xs \<noteq> [] \<or> full"
    using Cons(2) unfolding data_packets_def by (metis list.distinct(1))
  then have go: "m \<noteq> 0 \<or> full" by auto
  have n: "take 8 ?xs = take ?n (drop p buf)" "length (take 8 ?xs) = ?n" "drop 8 ?xs = take (m - ?n) (drop (p + ?n) buf)"
    using Cons.prems by (simp_all add: drop_take min_def add.commute) arith
  have q: "q = take ?n (drop p buf)" and qs: "qs = data_packets (?n = 8) (take (m - ?n) (drop (p + ?n) buf))"
    using Cons(2) data_packets_step [OF xs] n by simp_all
  obtain s' where s': "s' = collect 0 (Endpoint_ClearIN (with_bank (take ?n (drop p buf)) s))" by blast
  have s1: "s' = add_sent [q] s"
    using Cons.prems(1) unfolding s' q by (intro send_with_bank) (simp_all add: ctl_ready_def)
  have "poll_until (control_write_step (xfer_write 1)) (of_nat m, full, (buf, int p)) (collect 0 # replicate (length qs) (collect 0) @ w) s =
      poll_until (control_write_step (xfer_write 1)) (of_nat (m - ?n), ?n = 8, (buf, int (p + ?n))) (replicate (length qs) (collect 0) @ w) s'"
    unfolding s' using control_write_step_ready [OF Cons.prems(1) go Cons.prems(2,3)] by (intro poll_until_round) simp
  also have "\<dots> = Inr (None, add_sent qs s', w)"
    unfolding qs using Cons.prems qs s1 by (intro Cons.hyps(1)) simp_all
  finally show ?case
    using s1 by (simp add: Cons(2) [symmetric] add_sent_add_sent)
qed


text \<open>The state in which the host's empty status packet has arrived.\<close>

lemma ctl_ready_status:
  assumes "ctl_ready s"
  shows "deliver 0 [] s = upd_ep 0 (\<lambda>ep. ep\<lparr>r_ueintx := set_bit RXOUTI (r_ueintx ep)\<rparr>) s"
    "Endpoint_IsOUTReceived (deliver 0 [] s)"
    "Endpoint_ClearOUT (deliver 0 [] s) = s"
proof -
  have b: "ep\<lparr>r_bank := [], r_ueintx := x\<rparr> = ep\<lparr>r_ueintx := x\<rparr>" if "r_bank ep = []" for ep x
    using that by (cases ep) simp
  show d: "deliver 0 [] s = upd_ep 0 (\<lambda>ep. ep\<lparr>r_ueintx := set_bit RXOUTI (r_ueintx ep)\<rparr>) s"
    using assms by (simp add: deliver_def host_out_def Let_def ctl_ready_def ctl_idle_def bit_exp_iff)
      (simp add: upd_ep_def b)
  have u: "UENUM s = 0" "ctl_idle (eps s 0)" using assms by (simp_all add: ctl_ready_def)
  show "Endpoint_IsOUTReceived (deliver 0 [] s)"
    using u by (simp add: d Endpoint_flags cur_def)
  have r: "ep\<lparr>r_bank := [], r_ueintx := 2 ^ TXINI\<rparr> = ep" if "ctl_idle ep" for ep
    using that by (cases ep) (simp add: ctl_idle_def)
  have w: "(set_bit RXOUTI (2 ^ TXINI) AND set_bit RWAL (unset_bit RXOUTI u)) AND set_bit RWAL (unset_bit FIFOCON u) = 2 ^ TXINI"
    if "bit u TXINI" for u :: u8
    using that by (intro bit_eqI) (auto simp: bit_and_iff bit_exp_iff)
  show "Endpoint_ClearOUT (deliver 0 [] s) = s"
    using u r [OF u(2)]
    by (simp add: d Endpoint_ops_cur upd_cur_def upd_ep_upd_ep)
      (simp add: upd_ep_def ep_clear_out_def ueintx_write_def Let_def ctl_idle_def ep_is_control_def w ep_free_def bit_and_iff bit_exp_iff r)
qed

text \<open>A control write of at most the requested length to a host that collects every packet and then
  sends its status packet: the packets are the first \<open>min Length wLength\<close> bytes of the buffer cut
  into eights, the last packet shorter than eight (empty when needed), the routine returns without
  error, and acknowledging the status packet leaves the endpoint as it was. The flash memory variant
  does the same.\<close>

lemma Endpoint_Write_Control_Stream_packets:
  assumes "ctl_ready s" "unat L \<le> length buf" "L \<noteq> 0" "wLength (USB_ControlRequest s) \<noteq> 0"
    "T = min (unat L) (unat (wLength (USB_ControlRequest s)))" "ps = packets8 (take T buf)"
  shows "concat ps = take T buf \<and>
    (\<exists>s'. Endpoint_Write_Control_Stream_LE buf L (replicate (length ps) (collect 0) @ deliver 0 [] # w) s =
        Inr (ENDPOINT_RWCSTREAM_NoError, s', w) \<and>
      Endpoint_Write_Control_PStream_LE buf L (replicate (length ps) (collect 0) @ deliver 0 [] # w) s =
        Inr (ENDPOINT_RWCSTREAM_NoError, s', w) \<and>
      Endpoint_ClearOUT s' = add_sent ps s)"
proof -
  let ?L = "if L > wLength (USB_ControlRequest s) then wLength (USB_ControlRequest s) else L"
  have T: "?L = of_nat T" by (simp add: assms(5) min_def word_less_nat_alt not_less)
  have l: "unat L < 65536" by (rule unat_less_u16)
  have "0 < T" using assms(3,4) by (simp add: assms(5) unat_gt_0)
  then have ps: "data_packets False (take T (drop 0 buf)) = ps"
    using assms(2) by (auto simp: data_packets_def assms(6) assms(5))
  have loop: "poll_until (control_write_step (xfer_write 1)) (?L, False, (buf, 0)) (replicate (length ps) (collect 0) @ deliver 0 [] # w) s =
      Inr (None, add_sent ps s, deliver 0 [] # w)"
    using control_write_packets [OF assms(1), of T 0 buf False "deliver 0 [] # w"] l assms(2)
    unfolding T ps by (simp add: assms(5))
  have ready: "ctl_ready (add_sent ps s)" using assms(1) by simp
  note f = ctl_flags [OF ready]
  have "await_out (deliver 0 [] # w) (add_sent ps s) = Inr (True, deliver 0 [] (add_sent ps s), w)"
    unfolding await_out_def
    using f ctl_ready_status(2) [OF ready]
    by (subst poll_until_round [where l' = "()" and s' = "add_sent ps s"]) (auto intro!: poll_until_exit)
  with loop assms(3) have "control_write (xfer_write 1) (\<lambda>_. 0) buf L (replicate (length ps) (collect 0) @ deliver 0 [] # w) s =
      Inr (ENDPOINT_RWCSTREAM_NoError, deliver 0 [] (add_sent ps s), w)"
    by (auto simp: control_write_def Let_def split: if_splits)
  then show ?thesis
    using assms(2) ctl_ready_status(3) [OF ready]
    by (simp add: Endpoint_Write_Control_Stream_LE_def Endpoint_Write_Control_PStream_LE_def assms(6) concat_packets8)
qed

text \<open>An idle control endpoint, and a request for at most ten bytes.\<close>

definition ctl_demo :: usb_dev where
  "ctl_demo = dev_reset\<lparr>eps := (\<lambda>_. ep_none)(0 := ep_none\<lparr>r_ueconx := 1, r_ueintx := 1\<rparr>), USB_DeviceState := 3,
     USB_ControlRequest := \<lparr>bmRequestType = 0x80, bRequest = 6, wValue = 0x100, wIndex = 0, wLength = 10\<rparr>\<rparr>"

lemma ctl_demo_ready: "ctl_ready ctl_demo"
  by (simp add: ctl_demo_def ctl_ready_def ctl_idle_def dev_reset_def hw_reset_def usb_hw.defs ep_none_def
      ep_is_control_def ep_is_in_def ep_size_def reg_bits device_state_defs)

lemma Endpoint_Write_Control_Stream_packets_instance:
  "\<exists>s'. Endpoint_Write_Control_Stream_LE [1,2,3,4,5,6,7,8,9,10,11,12] 12 [collect 0, collect 0, deliver 0 []] ctl_demo =
      Inr (ENDPOINT_RWCSTREAM_NoError, s', []) \<and>
    Endpoint_ClearOUT s' = add_sent [[1,2,3,4,5,6,7,8], [9,10]] ctl_demo"
proof -
  have p: "packets8 [1,2,3,4,5,6,7,8,9,10] = [[1,2,3,4,5,6,7,8], [9,10]]"
    by (subst packets8.simps, simp, subst packets8.simps, simp)
  have l: "wLength (USB_ControlRequest ctl_demo) = 10" by (simp add: ctl_demo_def)
  have "unat (12 :: u16) \<le> length [1,2,3,4,5,6,7,8,9,10,11,12::u8]" "(12 :: u16) \<noteq> 0" "wLength (USB_ControlRequest ctl_demo) \<noteq> 0"
    "10 = min (unat (12 :: u16)) (unat (wLength (USB_ControlRequest ctl_demo)))"
    "[[1,2,3,4,5,6,7,8], [9,10]] = packets8 (take 10 [1,2,3,4,5,6,7,8,9,10,11,12])"
    using p by (simp_all add: l)
  from Endpoint_Write_Control_Stream_packets [OF ctl_demo_ready this, of "[]"]
  show ?thesis by (auto simp: numeral_2_eq_2)
qed

end
