(* ===== verification/Chapter9.thy ===== *)
theory Chapter9
  imports Control
begin

text \<open>
  The standard control requests of \<open>LowLevel/DevChapter9.c\<close>, the device task of
  \<open>HighLevel/USBTask.c\<close> and the endpoint interrupt of \<open>HighLevel/USBInterrupt.c\<close>, as the
  gadget's makefile builds them (\<open>USB_DEVICE_ONLY\<close>, \<open>USE_FLASH_DESCRIPTORS\<close>,
  \<open>FIXED_NUM_CONFIGURATIONS=1\<close>, \<open>INTERRUPT_CONTROL_ENDPOINT\<close>, no internal serial number on this
  controller). The application's event handlers and its descriptor callback are an argument.
\<close>

section \<open>The application's part\<close>

text \<open>
  \<open>app_descriptor\<close> is \<open>CALLBACK_USB_GetDescriptor\<close>: the flash memory at the address it returns,
  and the size.
\<close>

record 's app =
  app_config :: "'s \<Rightarrow> stop + 's"
  app_unhandled :: "'s world \<Rightarrow> 's \<Rightarrow> ('s, unit) run"
  app_descriptor :: "u16 \<Rightarrow> u8 \<Rightarrow> u8 list \<times> u16"

definition NO_DESCRIPTOR :: u16 where "NO_DESCRIPTOR = 0"
definition FIXED_NUM_CONFIGURATIONS :: u8 where "FIXED_NUM_CONFIGURATIONS = 1"

definition CONTROL_REQTYPE_RECIPIENT :: u8 where "CONTROL_REQTYPE_RECIPIENT = 0x1F"
definition REQDIR_HOSTTODEVICE :: u8 where "REQDIR_HOSTTODEVICE = push_bit 7 0"
definition REQTYPE_STANDARD :: u8 where "REQTYPE_STANDARD = push_bit 5 0"
definition REQREC_DEVICE :: u8 where "REQREC_DEVICE = push_bit 0 0"
definition REQREC_INTERFACE :: u8 where "REQREC_INTERFACE = push_bit 0 1"
definition REQREC_ENDPOINT :: u8 where "REQREC_ENDPOINT = push_bit 0 2"
definition FEATURE_ENDPOINT_HALT :: u8 where "FEATURE_ENDPOINT_HALT = 0x00"
definition FEATURE_REMOTE_WAKEUP :: u8 where "FEATURE_REMOTE_WAKEUP = 0x01"
definition REQ_GetStatus :: u8 where "REQ_GetStatus = 0"
definition REQ_ClearFeature :: u8 where "REQ_ClearFeature = 1"
definition REQ_SetFeature :: u8 where "REQ_SetFeature = 3"
definition REQ_SetAddress :: u8 where "REQ_SetAddress = 5"
definition REQ_GetDescriptor :: u8 where "REQ_GetDescriptor = 6"
definition REQ_GetConfiguration :: u8 where "REQ_GetConfiguration = 8"
definition REQ_SetConfiguration :: u8 where "REQ_SetConfiguration = 9"
definition FEATURE_SELFPOWERED_ENABLED :: u8 where "FEATURE_SELFPOWERED_ENABLED = push_bit 0 1"
definition FEATURE_REMOTE_WAKEUP_ENABLED :: u8 where "FEATURE_REMOTE_WAKEUP_ENABLED = push_bit 1 1"
definition ADDEN :: nat where "ADDEN = 7"

lemmas req_defs = REQ_GetStatus_def REQ_ClearFeature_def REQ_SetFeature_def REQ_SetAddress_def
  REQ_GetDescriptor_def REQ_GetConfiguration_def REQ_SetConfiguration_def
lemmas reqtype_defs = REQDIR_HOSTTODEVICE_def REQDIR_DEVICETOHOST_def REQTYPE_STANDARD_def REQREC_DEVICE_def
  REQREC_INTERFACE_def REQREC_ENDPOINT_def CONTROL_REQTYPE_RECIPIENT_def

section \<open>The requests\<close>

definition USB_Device_SetAddress ::
  "'a usb_dev_scheme world \<Rightarrow> 'a usb_dev_scheme \<Rightarrow> ('a usb_dev_scheme, unit) run" where
  "USB_Device_SetAddress w s =
     (let DeviceAddress = (ucast (wValue (USB_ControlRequest s) AND 0x7F) :: u8);
          s = Endpoint_ClearSETUP s
      in bind_run (Endpoint_ClearStatusStage w s) (\<lambda>_ s w.
         bind_run (await_in w s) (\<lambda>ok s w.
           if \<not> ok then Inr ((), s, w)
           else
             let s = (if DeviceAddress \<noteq> 0 then s\<lparr>USB_DeviceState := DEVICE_STATE_Addressed\<rparr> else s)
             in Inr ((), s\<lparr>UDADDR := push_bit ADDEN 1 OR DeviceAddress\<rparr>, w))))"

definition USB_Device_SetConfiguration ::
  "'a usb_dev_scheme app \<Rightarrow> 'a usb_dev_scheme world \<Rightarrow> 'a usb_dev_scheme \<Rightarrow> ('a usb_dev_scheme, unit) run" where
  "USB_Device_SetConfiguration app w s =
     (if (ucast (wValue (USB_ControlRequest s)) :: u8) > FIXED_NUM_CONFIGURATIONS then Inr ((), s, w)
      else
        let s = Endpoint_ClearSETUP s;
            s = s\<lparr>USB_ConfigurationNumber := ucast (wValue (USB_ControlRequest s))\<rparr>
        in bind_run (Endpoint_ClearStatusStage w s) (\<lambda>_ s w.
             let s = s\<lparr>USB_DeviceState := (if USB_ConfigurationNumber s \<noteq> 0 then DEVICE_STATE_Configured
                                          else DEVICE_STATE_Addressed)\<rparr>
             in case app_config app s of Inl e \<Rightarrow> Inl e | Inr s \<Rightarrow> Inr ((), s, w)))"

definition USB_Device_GetConfiguration ::
  "'a usb_dev_scheme world \<Rightarrow> 'a usb_dev_scheme \<Rightarrow> ('a usb_dev_scheme, unit) run" where
  "USB_Device_GetConfiguration w s =
     (let s = Endpoint_ClearSETUP s;
          s = Endpoint_Write_Byte (USB_ConfigurationNumber s) s;
          s = Endpoint_ClearIN s
      in Endpoint_ClearStatusStage w s)"

definition USB_Device_GetDescriptor ::
  "'a usb_dev_scheme app \<Rightarrow> 'a usb_dev_scheme world \<Rightarrow> 'a usb_dev_scheme \<Rightarrow> ('a usb_dev_scheme, unit) run" where
  "USB_Device_GetDescriptor app w s =
     (case app_descriptor app (wValue (USB_ControlRequest s)) (ucast (wIndex (USB_ControlRequest s))) of
        (DescriptorPointer, DescriptorSize) \<Rightarrow>
          if DescriptorSize = NO_DESCRIPTOR then Inr ((), s, w)
          else
            let s = Endpoint_ClearSETUP s
            in bind_run (Endpoint_Write_Control_PStream_LE DescriptorPointer DescriptorSize w s) (\<lambda>_ s w.
                 Inr ((), Endpoint_ClearOUT s, w)))"

definition USB_Device_GetStatus ::
  "'a usb_dev_scheme world \<Rightarrow> 'a usb_dev_scheme \<Rightarrow> ('a usb_dev_scheme, unit) run" where
  "USB_Device_GetStatus w s =
     (let finish = (\<lambda>(CurrentStatus :: u8) s.
            let s = Endpoint_ClearSETUP s;
                s = Endpoint_Write_Word_LE (ucast CurrentStatus) s;
                s = Endpoint_ClearIN s
            in Endpoint_ClearStatusStage w s)
      in if bmRequestType (USB_ControlRequest s) = REQDIR_DEVICETOHOST OR REQTYPE_STANDARD OR REQREC_DEVICE then
           finish ((if USB_CurrentlySelfPowered s then FEATURE_SELFPOWERED_ENABLED else 0) OR
                   (if USB_RemoteWakeupEnabled s then FEATURE_REMOTE_WAKEUP_ENABLED else 0)) s
         else if bmRequestType (USB_ControlRequest s) = REQDIR_DEVICETOHOST OR REQTYPE_STANDARD OR REQREC_ENDPOINT then
           (let s = Endpoint_SelectEndpoint (ucast (wIndex (USB_ControlRequest s) AND 0xFF)) s;
                CurrentStatus = of_bool (Endpoint_IsStalled s);
                s = Endpoint_SelectEndpoint ENDPOINT_CONTROLEP s
            in finish CurrentStatus s)
         else Inr ((), s, w))"

definition USB_Device_ClearSetFeature ::
  "'a usb_dev_scheme world \<Rightarrow> 'a usb_dev_scheme \<Rightarrow> ('a usb_dev_scheme, unit) run" where
  "USB_Device_ClearSetFeature w s =
     (let finish = (\<lambda>s. Endpoint_ClearStatusStage w (Endpoint_ClearSETUP (Endpoint_SelectEndpoint ENDPOINT_CONTROLEP s)));
          recipient = bmRequestType (USB_ControlRequest s) AND CONTROL_REQTYPE_RECIPIENT;
          feature = (ucast (wValue (USB_ControlRequest s)) :: u8);
          setting = (bRequest (USB_ControlRequest s) = REQ_SetFeature)
      in if recipient = REQREC_DEVICE then
           (if feature = FEATURE_REMOTE_WAKEUP then finish (s\<lparr>USB_RemoteWakeupEnabled := setting\<rparr>)
            else Inr ((), s, w))
         else if recipient = REQREC_ENDPOINT then
           (if feature = FEATURE_ENDPOINT_HALT then
              (let EndpointIndex = (ucast (wIndex (USB_ControlRequest s)) :: u8) AND ENDPOINT_EPNUM_MASK
               in if EndpointIndex = ENDPOINT_CONTROLEP then Inr ((), s, w)
                  else
                    let s = Endpoint_SelectEndpoint EndpointIndex s
                    in finish (if Endpoint_IsEnabled s
                               then if setting then Endpoint_StallTransaction s
                                    else Endpoint_ResetDataToggle (Endpoint_ResetFIFO EndpointIndex (Endpoint_ClearStall s))
                               else s))
            else finish s)
         else finish s)"

section \<open>Dispatch\<close>

text \<open>The eight bytes of the request, in memory order.\<close>

fun read_bytes :: "nat \<Rightarrow> 'a usb_hw_scheme \<Rightarrow> u8 list \<times> 'a usb_hw_scheme" where
  "read_bytes 0 h = ([], h)"
| "read_bytes (Suc n) h =
     (case Endpoint_Read_Byte h of (b, h) \<Rightarrow> case read_bytes n h of (bs, h) \<Rightarrow> (b # bs, h))"

definition request_of_bytes :: "u8 list \<Rightarrow> usb_request" where
  "request_of_bytes bs = \<lparr>bmRequestType = bs ! 0, bRequest = bs ! 1, wValue = le_word [bs ! 2, bs ! 3],
     wIndex = le_word [bs ! 4, bs ! 5], wLength = le_word [bs ! 6, bs ! 7]\<rparr>"

definition dispatch ::
  "'a usb_dev_scheme app \<Rightarrow> 'a usb_dev_scheme world \<Rightarrow> 'a usb_dev_scheme \<Rightarrow>
   ('a usb_dev_scheme, unit) run option" where
  "dispatch app w s =
     (let r = bRequest (USB_ControlRequest s);
          t = bmRequestType (USB_ControlRequest s);
          out_device = REQDIR_HOSTTODEVICE OR REQTYPE_STANDARD OR REQREC_DEVICE;
          out_endpoint = REQDIR_HOSTTODEVICE OR REQTYPE_STANDARD OR REQREC_ENDPOINT;
          in_device = REQDIR_DEVICETOHOST OR REQTYPE_STANDARD OR REQREC_DEVICE;
          in_interface = REQDIR_DEVICETOHOST OR REQTYPE_STANDARD OR REQREC_INTERFACE;
          in_endpoint = REQDIR_DEVICETOHOST OR REQTYPE_STANDARD OR REQREC_ENDPOINT
      in if r = REQ_GetStatus then
           (if t = in_device \<or> t = in_endpoint then Some (USB_Device_GetStatus w s) else None)
         else if r = REQ_ClearFeature \<or> r = REQ_SetFeature then
           (if t = out_device \<or> t = out_endpoint then Some (USB_Device_ClearSetFeature w s) else None)
         else if r = REQ_SetAddress then
           (if t = out_device then Some (USB_Device_SetAddress w s) else None)
         else if r = REQ_GetDescriptor then
           (if t = in_device \<or> t = in_interface then Some (USB_Device_GetDescriptor app w s) else None)
         else if r = REQ_GetConfiguration then
           (if t = in_device then Some (USB_Device_GetConfiguration w s) else None)
         else if r = REQ_SetConfiguration then
           (if t = out_device then Some (USB_Device_SetConfiguration app w s) else None)
         else None)"

definition USB_Device_ProcessControlRequest ::
  "'a usb_dev_scheme app \<Rightarrow> 'a usb_dev_scheme world \<Rightarrow> 'a usb_dev_scheme \<Rightarrow> ('a usb_dev_scheme, unit) run" where
  "USB_Device_ProcessControlRequest app w s =
     (case read_bytes 8 s of (bs, s) \<Rightarrow>
        let s = s\<lparr>USB_ControlRequest := request_of_bytes bs\<rparr>
        in bind_run (case dispatch app w s of
                       Some r \<Rightarrow> r
                     | None \<Rightarrow> app_unhandled app w s)
             (\<lambda>_ s w.
               Inr ((), if Endpoint_IsSETUPReceived s then Endpoint_ClearSETUP (Endpoint_StallTransaction s) else s, w)))"

section \<open>Device task and endpoint interrupt\<close>

definition USB_DeviceTask ::
  "'a usb_dev_scheme app \<Rightarrow> 'a usb_dev_scheme world \<Rightarrow> 'a usb_dev_scheme \<Rightarrow> ('a usb_dev_scheme, unit) run" where
  "USB_DeviceTask app w s =
     (if USB_DeviceState s \<noteq> DEVICE_STATE_Unattached then
        (let PrevEndpoint = Endpoint_GetCurrentEndpoint s;
             s = Endpoint_SelectEndpoint ENDPOINT_CONTROLEP s
         in bind_run (if Endpoint_IsSETUPReceived s then USB_Device_ProcessControlRequest app w s else Inr ((), s, w))
              (\<lambda>_ s w. Inr ((), Endpoint_SelectEndpoint PrevEndpoint s, w)))
      else Inr ((), s, w))"

definition USB_USBTask ::
  "'a usb_dev_scheme app \<Rightarrow> 'a usb_dev_scheme world \<Rightarrow> 'a usb_dev_scheme \<Rightarrow> ('a usb_dev_scheme, unit) run" where
  "USB_USBTask app w s = USB_DeviceTask app w s"

definition USB_COM_vect ::
  "'a usb_dev_scheme app \<Rightarrow> 'a usb_dev_scheme world \<Rightarrow> 'a usb_dev_scheme \<Rightarrow> ('a usb_dev_scheme, unit) run" where
  "USB_COM_vect app w s =
     (let PrevSelectedEndpoint = Endpoint_GetCurrentEndpoint s
      in bind_run (USB_USBTask app w s) (\<lambda>_ s w.
           Inr ((), Endpoint_SelectEndpoint PrevSelectedEndpoint (USB_INT_Clear INT_RXSTPI s), w)))"


section \<open>A request arrives\<close>

text \<open>
  \<open>pending r t\<close> is the idle state \<open>t\<close> after the host's SETUP packet for request \<open>r\<close> came and its bytes
  were read.
\<close>

definition pending :: "usb_request \<Rightarrow> 'a usb_dev_scheme \<Rightarrow> 'a usb_dev_scheme" where
  "pending r t = (upd_ep 0 (\<lambda>ep. ep\<lparr>r_ueintx := set_bit RXSTPI (set_bit TXINI 0)\<rparr>) t)\<lparr>USB_ControlRequest := r\<rparr>"

definition ctl_open :: "'a usb_dev_scheme \<Rightarrow> bool" where
  "ctl_open t \<longleftrightarrow> ctl_ready t \<and> \<not> bit (r_ueconx (eps t 0)) STALLRQ"

lemma read_bytes_eq:
  "r_bank (cur h) = xs @ ys \<Longrightarrow> read_bytes (length xs) h = (xs, upd_cur (\<lambda>ep. ep\<lparr>r_bank := ys\<rparr>) h)"
proof (induction xs arbitrary: h)
  case Nil
  then show ?case using upd_cur_bank_same [of h] by simp
next
  case (Cons x xs)
  then show ?case
    by (simp add: Endpoint_Read_Byte_def uedatx_read_Cons upd_cur_upd_cur)
qed

lemma unset_bit_absent: "\<not> bit w n \<Longrightarrow> unset_bit n w = w" for w :: "'a::len word"
  by (intro bit_eqI) auto

lemma read_setup:
  assumes "ctl_open t" "length p = 8"
  shows "(case read_bytes 8 (host_setup p t) of (bs, s) \<Rightarrow> (bs, s\<lparr>USB_ControlRequest := r\<rparr>)) = (p, pending r t)"
proof -
  have u: "UENUM t = 0" "ctl_idle (eps t 0)" "\<not> bit (r_ueconx (eps t 0)) STALLRQ"
    using assms by (simp_all add: ctl_open_def ctl_ready_def)
  have e: "ep\<lparr>r_tx := None, r_ueconx := unset_bit STALLRQ (r_ueconx ep), r_ueintx := x, r_bank := []\<rparr> = ep\<lparr>r_ueintx := x\<rparr>"
    if "ctl_idle ep" "\<not> bit (r_ueconx ep) STALLRQ" for ep x
    using that by (cases ep) (simp add: ctl_idle_def unset_bit_absent)
  have c: "set_bit TXINI (set_bit RXSTPI (2 ^ TXINI)) = (set_bit RXSTPI (2 ^ TXINI) :: u8)"
    by (intro bit_eqI) (auto simp: bit_exp_iff)
  have "r_bank (cur (host_setup p t)) = p @ []" using u by (simp add: host_setup_def cur_def)
  from read_bytes_eq [OF this] assms(2)
  have "read_bytes 8 (host_setup p t) = (p, upd_cur (\<lambda>ep. ep\<lparr>r_bank := []\<rparr>) (host_setup p t))" by simp
  then show ?thesis
    using u
    by (simp add: pending_def host_setup_def upd_cur_def upd_ep_upd_ep)
      (simp add: upd_ep_def e [OF u(2,3), unfolded ctl_idle_def] ctl_idle_def c e [OF u(2,3)])
qed

lemma pending_simps [simp]:
  "USB_ControlRequest (pending r t) = r" "UENUM (pending r t) = UENUM t" "USB_DeviceState (pending r t) = USB_DeviceState t"
  "eps (pending r t) 0 = (eps t 0)\<lparr>r_ueintx := set_bit RXSTPI (set_bit TXINI 0)\<rparr>"
  by (simp_all add: pending_def upd_ep_def)

text \<open>An acknowledged SETUP packet leaves the control endpoint as it was before.\<close>

lemma ep_clear_setup_idle:
  assumes "ep_is_control ep" "r_ueintx ep = set_bit TXINI 0" "r_bank ep = []"
  shows "ep_clear_setup (ep\<lparr>r_ueintx := set_bit RXSTPI (set_bit TXINI 0)\<rparr>) = ep"
proof -
  have w: "set_bit RXSTPI (2 ^ TXINI) AND set_bit TXINI (set_bit RWAL (unset_bit RXSTPI x)) = (2 ^ TXINI :: u8)"
    if "bit x TXINI" for x
    using that by (intro bit_eqI) (auto simp: bit_and_iff bit_exp_iff)
  show ?thesis
    using assms
    by (intro ep_regs.equality)
      (simp_all add: ep_clear_setup_def ueintx_write_def Let_def ep_is_control_def ep_free_def w bit_exp_iff)
qed

lemma ClearSETUP_pending:
  assumes "ctl_ready t"
  shows "Endpoint_ClearSETUP (pending r t) = t\<lparr>USB_ControlRequest := r\<rparr>"
  using assms ep_clear_setup_idle [of "eps t 0"]
  by (simp add: pending_def Endpoint_ops_cur upd_cur_def upd_ep_def ctl_ready_def ctl_idle_def)

lemma ctl_ready_request [simp]: "ctl_ready (t\<lparr>USB_ControlRequest := r\<rparr>) = ctl_ready t"
  by (simp add: ctl_ready_def)

lemma ProcessControlRequest_eq:
  assumes "ctl_open t" "length p = 8"
  shows "USB_Device_ProcessControlRequest app w (host_setup p t) =
    bind_run (case dispatch app w (pending (request_of_bytes p) t) of Some r \<Rightarrow> r
              | None \<Rightarrow> app_unhandled app w (pending (request_of_bytes p) t))
      (\<lambda>_ s w. Inr ((), if Endpoint_IsSETUPReceived s then Endpoint_ClearSETUP (Endpoint_StallTransaction s) else s, w))"
proof -
  obtain h where h: "read_bytes 8 (host_setup p t) = (p, h)" "h\<lparr>USB_ControlRequest := request_of_bytes p\<rparr> = pending (request_of_bytes p) t"
    using read_setup [OF assms, of "request_of_bytes p"] by (auto split: prod.splits)
  show ?thesis by (simp add: USB_Device_ProcessControlRequest_def Let_def h cong: option.case_cong)
qed

text \<open>The interrupt around the processing: the endpoint selected before is selected again.\<close>

lemma INT_Clear_RXSTPI_absent:
  assumes "\<not> bit (r_ueintx (cur s)) RXSTPI"
  shows "USB_INT_Clear INT_RXSTPI s = s"
proof -
  have r: "r_ueintx ep AND set_bit RWAL (unset_bit RXSTPI (ueintx_read ep)) = r_ueintx ep" if "\<not> bit (r_ueintx ep) RXSTPI" for ep
    using that by (intro bit_eqI) (auto simp: bit_and_iff)
  have "ueintx_write (unset_bit RXSTPI (ueintx_read ep)) ep = ep" if "\<not> bit (r_ueintx ep) RXSTPI" for ep
    using that r [OF that] by (intro ep_regs.equality) (simp_all add: ueintx_write_def Let_def)
  then show ?thesis
    using assms by (simp add: set_UEINTX_def UEINTX_def upd_cur_def upd_ep_def cur_def)
qed

lemma USB_COM_vect_eq:
  assumes "USB_DeviceState t \<noteq> DEVICE_STATE_Unattached" "UENUM t AND 7 = UENUM t"
    "USB_Device_ProcessControlRequest app w (host_setup p (Endpoint_SelectEndpoint 0 t)) = Inr ((), s', w')"
    "\<not> bit (r_ueintx (eps s' (unat (UENUM t)))) RXSTPI"
  shows "USB_COM_vect app w (host_setup p t) = Inr ((), Endpoint_SelectEndpoint (UENUM t) s', w')"
proof -
  have h: "Endpoint_SelectEndpoint 0 (host_setup p t) = host_setup p (Endpoint_SelectEndpoint 0 t)"
    by (simp add: host_setup_def upd_ep_def Endpoint_SelectEndpoint_def uenum_write_def)
  have i: "Endpoint_IsSETUPReceived (host_setup p (Endpoint_SelectEndpoint 0 t))"
    by (simp add: Endpoint_flags host_setup_def cur_def)
  show ?thesis
    using assms(1-3) i INT_Clear_RXSTPI_absent [of "Endpoint_SelectEndpoint (UENUM t) s'"] assms(4)
    by (simp add: USB_COM_vect_def USB_USBTask_def USB_DeviceTask_def Let_def h ENDPOINT_CONTROLEP_def
        Endpoint_GetCurrentEndpoint_def ENDPOINT_EPNUM_MASK_def)
      (simp add: host_setup_def upd_ep_def)
qed

text \<open>Without a request of the host the device task only changes the selection.\<close>

lemma idle_device_task:
  assumes "\<not> bit (r_ueintx (eps s 0)) RXSTPI" "USB_DeviceState s \<noteq> DEVICE_STATE_Unattached"
  shows "\<exists>n. USB_USBTask app w s = Inr ((), s\<lparr>UENUM := n\<rparr>, w)"
proof -
  have "cur (Endpoint_SelectEndpoint ENDPOINT_CONTROLEP s) = eps s 0"
    by (simp add: cur_def Endpoint_SelectEndpoint_def uenum_write_def ENDPOINT_CONTROLEP_def)
  then have "USB_USBTask app w s = Inr ((), Endpoint_SelectEndpoint (Endpoint_GetCurrentEndpoint s) (Endpoint_SelectEndpoint ENDPOINT_CONTROLEP s), w)"
    using assms by (simp add: USB_USBTask_def USB_DeviceTask_def Endpoint_flags Let_def)
  then show ?thesis by (simp add: Endpoint_SelectEndpoint_def uenum_write_def) blast
qed

end
