(* ===== verification/Descriptors.thy ===== *)
theory Descriptors
  imports Commands ConfigDescriptor Chapter9
begin

text \<open>
  The gadget's descriptors (\<open>gadget/desc.c\<close>, \<open>gadget/desc.h\<close>) with the structures of
  \<open>HighLevel/StdDescriptors.h\<close> they are made of, as the bytes in flash memory, and the callback
  that hands them to the library.
\<close>

section \<open>Structures\<close>

definition DTYPE_Device :: u8 where "DTYPE_Device = 0x01"
definition DTYPE_Configuration :: u8 where "DTYPE_Configuration = 0x02"
definition DTYPE_String :: u8 where "DTYPE_String = 0x03"
definition DTYPE_Interface :: u8 where "DTYPE_Interface = 0x04"
definition DTYPE_Endpoint :: u8 where "DTYPE_Endpoint = 0x05"
definition ENDPOINT_DESCRIPTOR_DIR_IN :: u8 where "ENDPOINT_DESCRIPTOR_DIR_IN = 0x80"
definition ENDPOINT_DESCRIPTOR_DIR_OUT :: u8 where "ENDPOINT_DESCRIPTOR_DIR_OUT = 0x00"
definition USB_CONFIG_ATTR_BUSPOWERED :: u8 where "USB_CONFIG_ATTR_BUSPOWERED = 0x80"
definition ENDPOINT_ATTR_NO_SYNC :: u8 where "ENDPOINT_ATTR_NO_SYNC = push_bit 2 0"
definition ENDPOINT_USAGE_DATA :: u8 where "ENDPOINT_USAGE_DATA = push_bit 4 0"
definition LANGUAGE_ID_ENG :: u16 where "LANGUAGE_ID_ENG = 0x0409"

definition USB_STRING_LEN :: "nat \<Rightarrow> nat" where "USB_STRING_LEN str = 2 + 2 * str"
definition USB_CONFIG_POWER_MA :: "nat \<Rightarrow> nat" where "USB_CONFIG_POWER_MA mA = mA div 2"

lemmas desc_consts = DTYPE_Device_def DTYPE_Configuration_def DTYPE_String_def DTYPE_Interface_def DTYPE_Endpoint_def
  ENDPOINT_DESCRIPTOR_DIR_IN_def ENDPOINT_DESCRIPTOR_DIR_OUT_def USB_CONFIG_ATTR_BUSPOWERED_def ENDPOINT_ATTR_NO_SYNC_def
  ENDPOINT_USAGE_DATA_def LANGUAGE_ID_ENG_def USB_STRING_LEN_def USB_CONFIG_POWER_MA_def

record device_desc =
  dd_USBSpecification :: u16
  dd_Class :: u8
  dd_SubClass :: u8
  dd_Protocol :: u8
  dd_Endpoint0Size :: u8
  dd_VendorID :: u16
  dd_ProductID :: u16
  dd_ReleaseNumber :: u16
  dd_ManufacturerStrIndex :: u8
  dd_ProductStrIndex :: u8
  dd_SerialNumStrIndex :: u8
  dd_NumberOfConfigurations :: u8

text \<open>The packed layout, header first; the header of each is its size and its type.\<close>

definition device_desc_bytes :: "device_desc \<Rightarrow> u8 list" where
  "device_desc_bytes d = [18, DTYPE_Device] @ le_bytes 2 (dd_USBSpecification d) @
     [dd_Class d, dd_SubClass d, dd_Protocol d, dd_Endpoint0Size d] @
     le_bytes 2 (dd_VendorID d) @ le_bytes 2 (dd_ProductID d) @ le_bytes 2 (dd_ReleaseNumber d) @
     [dd_ManufacturerStrIndex d, dd_ProductStrIndex d, dd_SerialNumStrIndex d, dd_NumberOfConfigurations d]"

record config_header =
  ch_TotalConfigurationSize :: u16
  ch_TotalInterfaces :: u8
  ch_ConfigurationNumber :: u8
  ch_ConfigurationStrIndex :: u8
  ch_ConfigAttributes :: u8
  ch_MaxPowerConsumption :: u8

definition config_header_bytes :: "config_header \<Rightarrow> u8 list" where
  "config_header_bytes d = [9, DTYPE_Configuration] @ le_bytes 2 (ch_TotalConfigurationSize d) @
     [ch_TotalInterfaces d, ch_ConfigurationNumber d, ch_ConfigurationStrIndex d, ch_ConfigAttributes d,
      ch_MaxPowerConsumption d]"

record interface_desc =
  if_InterfaceNumber :: u8
  if_AlternateSetting :: u8
  if_TotalEndpoints :: u8
  if_Class :: u8
  if_SubClass :: u8
  if_Protocol :: u8
  if_InterfaceStrIndex :: u8

definition interface_desc_bytes :: "interface_desc \<Rightarrow> u8 list" where
  "interface_desc_bytes d = [9, DTYPE_Interface, if_InterfaceNumber d, if_AlternateSetting d, if_TotalEndpoints d,
     if_Class d, if_SubClass d, if_Protocol d, if_InterfaceStrIndex d]"

record endpoint_desc =
  ed_EndpointAddress :: u8
  ed_Attributes :: u8
  ed_EndpointSize :: u16
  ed_PollingIntervalMS :: u8

definition endpoint_desc_bytes :: "endpoint_desc \<Rightarrow> u8 list" where
  "endpoint_desc_bytes d = [7, DTYPE_Endpoint, ed_EndpointAddress d, ed_Attributes d] @
     le_bytes 2 (ed_EndpointSize d) @ [ed_PollingIntervalMS d]"

section \<open>The gadget's descriptors\<close>

definition BULK_IN_EPNUM :: u8 where "BULK_IN_EPNUM = 1"
definition BULK_OUT_EPNUM :: u8 where "BULK_OUT_EPNUM = 2"
definition COMMAND_EPNUM :: u8 where "COMMAND_EPNUM = 3"
definition BULK_OUT_EPSIZE :: u16 where "BULK_OUT_EPSIZE = 2"
definition BULK_IN_EPSIZE :: u16 where "BULK_IN_EPSIZE = 2"
definition COMMAND_EPSIZE :: u16 where "COMMAND_EPSIZE = of_nat sizeof_usb_cmd"

lemmas epnum_defs = BULK_IN_EPNUM_def BULK_OUT_EPNUM_def COMMAND_EPNUM_def
lemmas epsize_defs = BULK_OUT_EPSIZE_def BULK_IN_EPSIZE_def COMMAND_EPSIZE_def sizeof_usb_cmd_def

text \<open>\<open>VERSION_BCD(01.10)\<close> is \<open>0x0110\<close>; there is no internal serial number on this controller.\<close>

definition DeviceDescriptor :: device_desc where
  "DeviceDescriptor = \<lparr>dd_USBSpecification = 0x0110, dd_Class = 0xff, dd_SubClass = 0xaa, dd_Protocol = 0,
     dd_Endpoint0Size = 8, dd_VendorID = 0x16c0, dd_ProductID = 0x0478, dd_ReleaseNumber = 0,
     dd_ManufacturerStrIndex = 1, dd_ProductStrIndex = 2, dd_SerialNumStrIndex = ucast NO_DESCRIPTOR,
     dd_NumberOfConfigurations = FIXED_NUM_CONFIGURATIONS\<rparr>"

definition ConfigHeader :: config_header where
  "ConfigHeader = \<lparr>ch_TotalConfigurationSize = 39, ch_TotalInterfaces = 1, ch_ConfigurationNumber = 1,
     ch_ConfigurationStrIndex = ucast NO_DESCRIPTOR, ch_ConfigAttributes = USB_CONFIG_ATTR_BUSPOWERED,
     ch_MaxPowerConsumption = of_nat (USB_CONFIG_POWER_MA 100)\<rparr>"

definition GadgetInterface :: interface_desc where
  "GadgetInterface = \<lparr>if_InterfaceNumber = 0, if_AlternateSetting = 0, if_TotalEndpoints = 3, if_Class = 0xff,
     if_SubClass = 0xaa, if_Protocol = 0, if_InterfaceStrIndex = ucast NO_DESCRIPTOR\<rparr>"

definition bulk_endpoint :: "u8 \<Rightarrow> u8 \<Rightarrow> u16 \<Rightarrow> endpoint_desc" where
  "bulk_endpoint dir num sz = \<lparr>ed_EndpointAddress = dir OR num,
     ed_Attributes = EP_TYPE_BULK OR ENDPOINT_ATTR_NO_SYNC OR ENDPOINT_USAGE_DATA, ed_EndpointSize = sz,
     ed_PollingIntervalMS = 0\<rparr>"

definition DataInEndpoint :: endpoint_desc where
  "DataInEndpoint = bulk_endpoint ENDPOINT_DESCRIPTOR_DIR_IN BULK_IN_EPNUM BULK_IN_EPSIZE"
definition DataOutEndpoint :: endpoint_desc where
  "DataOutEndpoint = bulk_endpoint ENDPOINT_DESCRIPTOR_DIR_OUT BULK_OUT_EPNUM BULK_OUT_EPSIZE"
definition CommandEndpoint :: endpoint_desc where
  "CommandEndpoint = bulk_endpoint ENDPOINT_DESCRIPTOR_DIR_OUT COMMAND_EPNUM COMMAND_EPSIZE"

definition config_parts :: "u8 list list" where
  "config_parts = [config_header_bytes ConfigHeader, interface_desc_bytes GadgetInterface,
     endpoint_desc_bytes DataInEndpoint, endpoint_desc_bytes DataOutEndpoint, endpoint_desc_bytes CommandEndpoint]"

definition ConfigurationDescriptor :: "u8 list" where
  "ConfigurationDescriptor = concat config_parts"

text \<open>A wide string literal keeps its terminating zero, which is not counted in the header's size.\<close>

definition string_desc :: "nat \<Rightarrow> u16 list \<Rightarrow> u8 list" where
  "string_desc n cs = [of_nat (USB_STRING_LEN n), DTYPE_String] @ concat (map (le_bytes 2) cs)"

definition wide :: "string \<Rightarrow> u16 list" where
  "wide s = map (\<lambda>c. of_char c) s @ [0]"

definition LanguageString :: "u8 list" where "LanguageString = string_desc 1 [LANGUAGE_ID_ENG]"
definition ManufacturerString :: "u8 list" where "ManufacturerString = string_desc 3 (wide ''JRT'')"
definition ProductString :: "u8 list" where "ProductString = string_desc 13 (wide ''Micro Storage'')"

text \<open>The result is the object pointed to (none: the empty list) and the size.\<close>

definition CALLBACK_USB_GetDescriptor :: "u16 \<Rightarrow> u8 \<Rightarrow> u8 list \<times> u16" where
  "CALLBACK_USB_GetDescriptor v i =
     (let DescriptorType = (ucast (drop_bit 8 v) :: u8);
          DescriptorNumber = (ucast (v AND 0xFF) :: u8)
      in if DescriptorType = DTYPE_Device then (device_desc_bytes DeviceDescriptor, 18)
         else if DescriptorType = DTYPE_Configuration then
           (ConfigurationDescriptor, of_nat (length ConfigurationDescriptor))
         else if DescriptorType = DTYPE_String then
           (if DescriptorNumber = 0 then (LanguageString, ucast (LanguageString ! 0))
            else if DescriptorNumber = 1 then (ManufacturerString, ucast (ManufacturerString ! 0))
            else if DescriptorNumber = 2 then (ProductString, ucast (ProductString ! 0))
            else ([], NO_DESCRIPTOR))
         else ([], NO_DESCRIPTOR))"

section \<open>Consistency\<close>

lemma config_sizes: "map length config_parts = [9, 9, 7, 7, 7]" "length ConfigurationDescriptor = 39"
  by (simp_all add: config_parts_def ConfigurationDescriptor_def config_header_bytes_def interface_desc_bytes_def
      endpoint_desc_bytes_def)

lemma config_parts_wf: "\<forall>x \<in> set config_parts. wf_desc x"
  by (simp add: config_parts_def wf_desc_def config_header_bytes_def interface_desc_bytes_def endpoint_desc_bytes_def)

lemma length_concat_map2: "length (concat (map (le_bytes 2) cs)) = 2 * length cs"
  by (induction cs) auto

text \<open>Every answer of the descriptor callback is consistent: a size of 0 for a descriptor that does not
  exist, otherwise a size within the object, whose second byte is the type asked for and whose size is
  the object's first byte, or for the configuration descriptor the total size in its third and fourth
  bytes, the sum of the sizes of its parts.\<close>

lemma GetDescriptor_consistent:
  "(case CALLBACK_USB_GetDescriptor v i of (mem, n) \<Rightarrow>
     unat n \<le> length mem \<and>
     (n \<noteq> NO_DESCRIPTOR \<longrightarrow> mem ! 1 = ucast (drop_bit 8 v) \<and>
        (if mem ! 1 = DTYPE_Configuration
         then le_word [mem ! 2, mem ! 3] = n \<and> unat n = sum_list (map length config_parts)
         else unat (mem ! 0) = unat n)))"
proof -
  have dev: "device_desc_bytes DeviceDescriptor ! 0 = 18" "device_desc_bytes DeviceDescriptor ! 1 = DTYPE_Device"
    "length (device_desc_bytes DeviceDescriptor) = 18"
    by (simp_all add: device_desc_bytes_def)
  have conf: "ConfigurationDescriptor ! 1 = DTYPE_Configuration" "ConfigurationDescriptor ! 2 = 39"
    "ConfigurationDescriptor ! 3 = 0"
    by (simp_all add: ConfigurationDescriptor_def config_parts_def config_header_bytes_def ConfigHeader_def le_bytes_2)
  have lang: "LanguageString ! 0 = 4" "LanguageString ! 1 = DTYPE_String" "length LanguageString = 4"
    "ManufacturerString ! 0 = 8" "ManufacturerString ! 1 = DTYPE_String" "length ManufacturerString = 10"
    "ProductString ! 0 = 28" "ProductString ! 1 = DTYPE_String" "length ProductString = 30"
    by (simp_all add: LanguageString_def ManufacturerString_def ProductString_def string_desc_def USB_STRING_LEN_def
        wide_def length_concat_map2)
  show ?thesis
    by (simp add: CALLBACK_USB_GetDescriptor_def Let_def dev conf lang config_sizes NO_DESCRIPTOR_def desc_consts
        del: One_nat_def)
qed


lemma GetDescriptor_consistent_instance:
  "snd (CALLBACK_USB_GetDescriptor 0x200 0) = 39 \<and> fst (CALLBACK_USB_GetDescriptor 0x200 0) ! 1 = 2 \<and>
   le_word [fst (CALLBACK_USB_GetDescriptor 0x200 0) ! 2, fst (CALLBACK_USB_GetDescriptor 0x200 0) ! 3] = (39 :: u16)"
proof -
  have c: "CALLBACK_USB_GetDescriptor 0x200 0 = (ConfigurationDescriptor, 39)"
    by (simp add: CALLBACK_USB_GetDescriptor_def Let_def desc_consts config_sizes)
  have v: "(ucast (drop_bit 8 (0x200 :: u16)) :: u8) = 2" by code_simp
  show ?thesis
    using GetDescriptor_consistent [of "0x200" 0, unfolded c v prod.case]
    by (simp add: c NO_DESCRIPTOR_def desc_consts del: One_nat_def le_word.simps)
qed

text \<open>Walking the gadget's configuration descriptor for endpoints from its start finds the data-in, the
  data-out and the command endpoint, in this order and no other, and then the end.\<close>

lemma config_walk_endpoints:
  assumes "2 \<le> length tail" "mem = ConfigurationDescriptor @ tail"
  shows "USB_GetNextDescriptorOfType mem DTYPE_Endpoint 39 0 = Some (Inr (21, 18)) \<and>
    take 7 (drop 18 mem) = endpoint_desc_bytes DataInEndpoint \<and>
    USB_GetNextDescriptorOfType mem DTYPE_Endpoint 21 18 = Some (Inr (14, 25)) \<and>
    take 7 (drop 25 mem) = endpoint_desc_bytes DataOutEndpoint \<and>
    USB_GetNextDescriptorOfType mem DTYPE_Endpoint 14 25 = Some (Inr (7, 32)) \<and>
    take 7 (drop 32 mem) = endpoint_desc_bytes CommandEndpoint \<and>
    USB_GetNextDescriptorOfType mem DTYPE_Endpoint 7 32 = Some (Inr (0, 39))"
proof -
  let ?h = "config_header_bytes ConfigHeader" and ?i = "interface_desc_bytes GadgetInterface"
  let ?a = "endpoint_desc_bytes DataInEndpoint" and ?b = "endpoint_desc_bytes DataOutEndpoint"
    and ?c = "endpoint_desc_bytes CommandEndpoint"
  have wf: "wf_desc ?h" "wf_desc ?i" "wf_desc ?a" "wf_desc ?b" "wf_desc ?c"
    using config_parts_wf by (simp_all add: config_parts_def)
  have len: "length ?h = 9" "length ?i = 9" "length ?a = 7" "length ?b = 7" "length ?c = 7"
    using config_sizes(1) by (simp_all add: config_parts_def)
  have ty: "\<not> of_type DTYPE_Endpoint ?i" "of_type DTYPE_Endpoint ?a" "of_type DTYPE_Endpoint ?b" "of_type DTYPE_Endpoint ?c"
    by (simp_all add: of_type_def interface_desc_bytes_def endpoint_desc_bytes_def desc_consts)
  have mem: "mem = ?h @ ?i @ ?a @ ?b @ ?c @ tail"
    by (simp add: assms(2) ConfigurationDescriptor_def config_parts_def)
  show ?thesis
    using search_skip [of ?h "[?i, ?a, ?b, ?c]" tail "[]" DTYPE_Endpoint] search_skip [of ?a "[?b, ?c]" tail "?h @ ?i" DTYPE_Endpoint]
      search_skip [of ?b "[?c]" tail "?h @ ?i @ ?a" DTYPE_Endpoint] search_skip [of ?c "[]" tail "?h @ ?i @ ?a @ ?b" DTYPE_Endpoint]
    by (simp add: mem wf len ty assms(1))
qed

lemma config_walk_endpoints_instance:
  "USB_GetNextDescriptorOfType (ConfigurationDescriptor @ [0, 0]) DTYPE_Endpoint 39 0 = Some (Inr (21, 18))"
  using config_walk_endpoints [of "[0, 0]"] by simp

end
