(* ===== verification/Blobs.thy ===== *)
theory Blobs
  imports Commands
begin

text \<open>
  The gadget's storage (\<open>gadget/teensy_blobs.c\<close>, \<open>teensy_blobs.h\<close>): an array of
  \<open>MAX_BLOBS\<close> data objects of 16 bits, and the store, read and delete operations on it.
  An access outside the array is \<open>Fault\<close>.
\<close>

section \<open>The array and its operations\<close>

record blob =
  blob_data :: u16

definition MAX_BLOBS :: u64 where "MAX_BLOBS = 256"

definition blobs_init :: "blob list" where
  "blobs_init = replicate (unat MAX_BLOBS) \<lparr>blob_data = 0\<rparr>"

text \<open>\<open>blobs[index].data = d\<close> and \<open>blobs[index].data\<close>, inside the array or not.\<close>

definition blobs_write :: "blob list \<Rightarrow> u64 \<Rightarrow> u16 \<Rightarrow> stop + blob list" where
  "blobs_write blobs i d =
     (if unat i < length blobs then Inr (blobs[unat i := (blobs ! unat i)\<lparr>blob_data := d\<rparr>]) else Inl Fault)"

definition blobs_read :: "blob list \<Rightarrow> u64 \<Rightarrow> stop + u16" where
  "blobs_read blobs i = (if unat i < length blobs then Inr (blob_data (blobs ! unat i)) else Inl Fault)"

definition teensy_store :: "u64 \<Rightarrow> u16 \<Rightarrow> blob list \<Rightarrow> stop + u8 \<times> blob list" where
  "teensy_store index d blobs =
     (if index < 0 \<or> index > MAX_BLOBS then Inr (EINVALIDINDEX, blobs)
      else case blobs_write blobs index d of
             Inl e \<Rightarrow> Inl e
           | Inr blobs' \<Rightarrow> Inr (ENOERR, blobs'))"

text \<open>The second argument and the second result are the caller's \<open>*data\<close> before and after.\<close>

definition teensy_read :: "u64 \<Rightarrow> u16 \<Rightarrow> blob list \<Rightarrow> stop + u8 \<times> u16" where
  "teensy_read index d blobs =
     (if index < 0 \<or> index > MAX_BLOBS then Inr (EINVALIDINDEX, d)
      else case blobs_read blobs index of
             Inl e \<Rightarrow> Inl e
           | Inr d' \<Rightarrow> Inr (ENOERR, d'))"

definition teensy_delete :: "u64 \<Rightarrow> blob list \<Rightarrow> stop + u8 \<times> blob list" where
  "teensy_delete index blobs =
     (if index < 0 \<or> index > MAX_BLOBS then Inr (EINVALIDINDEX, blobs)
      else case blobs_write blobs index 0 of
             Inl e \<Rightarrow> Inl e
           | Inr blobs' \<Rightarrow> Inr (ENOERR, blobs'))"

definition blobs_ok :: "blob list \<Rightarrow> bool" where
  "blobs_ok blobs \<longleftrightarrow> length blobs = unat MAX_BLOBS"

lemma unat_MAX_BLOBS [simp]: "unat MAX_BLOBS = 256"
  by (simp add: MAX_BLOBS_def)

lemma le_MAX_BLOBS_iff: "\<not> MAX_BLOBS < i \<longleftrightarrow> unat i \<le> 256"
  by (simp add: word_less_nat_alt not_less)

lemma blobs_ok_init: "blobs_ok blobs_init"
  by (simp add: blobs_ok_def blobs_init_def)

lemma blob_update [simp]: "b\<lparr>blob_data := d\<rparr> = \<lparr>blob_data = d\<rparr>" for b :: blob
  by (cases b) simp

lemmas blob_op_defs = teensy_store_def teensy_read_def teensy_delete_def blobs_write_def blobs_read_def

text \<open>Inside the array every operation returns \<open>ENOERR\<close> and does its work.\<close>

lemma teensy_store_valid:
  "blobs_ok blobs \<Longrightarrow> unat i < 256 \<Longrightarrow>
     teensy_store i d blobs = Inr (ENOERR, blobs[unat i := \<lparr>blob_data = d\<rparr>])"
  by (auto simp: blob_op_defs blobs_ok_def word_less_nat_alt not_less)

lemma teensy_read_valid:
  "blobs_ok blobs \<Longrightarrow> unat i < 256 \<Longrightarrow> teensy_read i d blobs = Inr (ENOERR, blob_data (blobs ! unat i))"
  by (auto simp: blob_op_defs blobs_ok_def word_less_nat_alt not_less)

lemma teensy_delete_valid:
  "blobs_ok blobs \<Longrightarrow> unat i < 256 \<Longrightarrow>
     teensy_delete i blobs = Inr (ENOERR, blobs[unat i := \<lparr>blob_data = 0\<rparr>])"
  by (auto simp: blob_op_defs blobs_ok_def word_less_nat_alt not_less)

lemma teensy_ops_beyond:
  assumes "256 < unat i"
  shows "teensy_store i d blobs = Inr (EINVALIDINDEX, blobs)"
    and "teensy_read i d blobs = Inr (EINVALIDINDEX, d)"
    and "teensy_delete i blobs = Inr (EINVALIDINDEX, blobs)"
  using assms by (auto simp: blob_op_defs word_less_nat_alt)

lemma teensy_ops_at_256:
  assumes "blobs_ok blobs" "unat i = 256"
  shows "teensy_store i d blobs = Inl Fault"
    and "teensy_read i d blobs = Inl Fault"
    and "teensy_delete i blobs = Inl Fault"
  using assms by (auto simp: blob_op_defs blobs_ok_def word_less_nat_alt)

lemma teensy_store_ok: "teensy_store i d blobs = Inr (e, blobs') \<Longrightarrow> blobs_ok blobs \<Longrightarrow> blobs_ok blobs'"
  by (auto simp: blob_op_defs blobs_ok_def split: if_splits)

lemma teensy_delete_ok: "teensy_delete i blobs = Inr (e, blobs') \<Longrightarrow> blobs_ok blobs \<Longrightarrow> blobs_ok blobs'"
  by (auto simp: blob_op_defs blobs_ok_def split: if_splits)

section \<open>The contract of an indexed store\<close>

text \<open>
  What a client of the storage relies on: a slot holds what was last put into it, and putting
  into one slot leaves the others alone.
\<close>

locale slot_store =
  fixes get :: "'s \<Rightarrow> nat \<Rightarrow> 'v"
    and put :: "nat \<Rightarrow> 'v \<Rightarrow> 's \<Rightarrow> 's"
    and inv :: "'s \<Rightarrow> bool"
    and slots :: nat
  assumes inv_put: "inv s \<Longrightarrow> i < slots \<Longrightarrow> inv (put i v s)"
    and get_put: "inv s \<Longrightarrow> i < slots \<Longrightarrow> j < slots \<Longrightarrow>
          get (put i v s) j = (if i = j then v else get s j)"
begin

lemma inv_puts: "inv s \<Longrightarrow> \<forall>x \<in> set ops. fst x < slots \<Longrightarrow> inv (fold (\<lambda>(i, v). put i v) ops s)"
  by (induction ops arbitrary: s) (simp_all add: split_beta inv_put)

lemma get_puts:
  "inv s \<Longrightarrow> \<forall>x \<in> set ops. fst x < slots \<Longrightarrow> j < slots \<Longrightarrow>
     get (fold (\<lambda>(i, v). put i v) ops s) j =
       (case map_of (rev ops) j of None \<Rightarrow> get s j | Some v \<Rightarrow> v)"
proof (induction ops rule: rev_induct)
  case Nil
  then show ?case by simp
next
  case (snoc x ops)
  then show ?case
    by (cases x) (simp add: get_put inv_puts)
qed

lemma put_put_swap:
  "inv s \<Longrightarrow> i < slots \<Longrightarrow> j < slots \<Longrightarrow> k < slots \<Longrightarrow> i \<noteq> j \<Longrightarrow>
     get (put i v (put j w s)) k = get (put j w (put i v s)) k"
  by (simp add: get_put inv_put)

end

definition blob_get :: "blob list \<Rightarrow> nat \<Rightarrow> u16" where
  "blob_get blobs i = blob_data (blobs ! i)"

definition blob_put :: "nat \<Rightarrow> u16 \<Rightarrow> blob list \<Rightarrow> blob list" where
  "blob_put i d blobs = blobs[i := \<lparr>blob_data = d\<rparr>]"

interpretation blobs: slot_store blob_get blob_put blobs_ok 256
  by unfold_locales (auto simp: blob_get_def blob_put_def blobs_ok_def nth_list_update)

section \<open>Sequences of requests\<close>

datatype blob_req = Store u64 u16 | Delete u64

fun req_index :: "blob_req \<Rightarrow> u64" where
  "req_index (Store i d) = i"
| "req_index (Delete i) = i"

fun req_data :: "blob_req \<Rightarrow> u16" where
  "req_data (Store i d) = d"
| "req_data (Delete i) = 0"

fun blob_step :: "blob_req \<Rightarrow> blob list \<Rightarrow> stop + u8 \<times> blob list" where
  "blob_step (Store i d) blobs = teensy_store i d blobs"
| "blob_step (Delete i) blobs = teensy_delete i blobs"

fun blob_run :: "blob_req list \<Rightarrow> blob list \<Rightarrow> stop + blob list" where
  "blob_run [] blobs = Inr blobs"
| "blob_run (r # rs) blobs =
     (case blob_step r blobs of Inl e \<Rightarrow> Inl e | Inr (_, blobs') \<Rightarrow> blob_run rs blobs')"

text \<open>The writes a list of requests amounts to: requests beyond the array have no effect.\<close>

definition effective :: "blob_req list \<Rightarrow> (nat \<times> u16) list" where
  "effective rs = map (\<lambda>r. (unat (req_index r), req_data r)) (filter (\<lambda>r. unat (req_index r) < 256) rs)"

lemma blob_step_valid:
  "blobs_ok blobs \<Longrightarrow> unat (req_index r) < 256 \<Longrightarrow>
     blob_step r blobs = Inr (ENOERR, blob_put (unat (req_index r)) (req_data r) blobs)"
  by (cases r) (simp_all add: teensy_store_valid teensy_delete_valid blob_put_def)

lemma blob_step_beyond: "256 < unat (req_index r) \<Longrightarrow> blob_step r blobs = Inr (EINVALIDINDEX, blobs)"
  by (cases r) (simp_all add: teensy_ops_beyond)

lemma blob_run_puts:
  "blobs_ok blobs \<Longrightarrow> \<forall>r \<in> set rs. unat (req_index r) \<noteq> 256 \<Longrightarrow>
     blob_run rs blobs = Inr (fold (\<lambda>(i, v). blob_put i v) (effective rs) blobs)"
proof (induction rs arbitrary: blobs)
  case Nil
  then show ?case by (simp add: effective_def)
next
  case (Cons r rs)
  then consider "unat (req_index r) < 256" | "256 < unat (req_index r)" by fastforce
  then show ?case
  proof cases
    case 1
    with Cons show ?thesis
      by (simp add: blob_step_valid blobs.inv_put effective_def)
  next
    case 2
    with Cons show ?thesis
      by (simp add: blob_step_beyond effective_def)
  qed
qed

lemma effective_bound: "\<forall>x \<in> set (effective rs). fst x < 256"
  by (auto simp: effective_def)

text \<open>C8: after any sequence of store and delete requests that never names index 256, every
  index inside the array reads back, without error, the data of the last request that named it
  (0 for a delete), or its old value when none did; requests beyond the array change nothing.\<close>

theorem blob_run_last_write:
  assumes "blobs_ok bs" and "\<forall>r \<in> set rs. unat (req_index r) \<noteq> 256" and "unat j < 256"
  shows "\<exists>bs'. blob_run rs bs = Inr bs' \<and> blobs_ok bs' \<and>
    teensy_read j d bs' = Inr (ENOERR,
      (case map_of (rev (effective rs)) (unat j) of None \<Rightarrow> blob_get bs (unat j) | Some v \<Rightarrow> v))"
proof -
  let ?bs' = "fold (\<lambda>(i, v). blob_put i v) (effective rs) bs"
  have "blobs_ok ?bs'"
    using assms(1) effective_bound by (rule blobs.inv_puts)
  moreover have "blob_get ?bs' (unat j) =
      (case map_of (rev (effective rs)) (unat j) of None \<Rightarrow> blob_get bs (unat j) | Some v \<Rightarrow> v)"
    using assms(1) effective_bound assms(3) by (rule blobs.get_puts)
  ultimately show ?thesis
    using assms by (simp add: blob_run_puts teensy_read_valid blob_get_def)
qed

theorem blob_run_last_write_witness:
  "blobs_ok blobs_init \<and>
   (\<exists>bs'. blob_run [Store 28 7, Store 13 9, Delete 28, Store 1000 1] blobs_init = Inr bs' \<and> blobs_ok bs' \<and>
      teensy_read 13 0 bs' = Inr (ENOERR, 9))"
  using blob_run_last_write [of blobs_init "[Store 28 7, Store 13 9, Delete 28, Store 1000 1]" 13 0]
  by (simp add: blobs_ok_init effective_def)

text \<open>C9: the bounds check lets index 256 through: each of the three operations then accesses the
  array one past its end, and every larger index is refused with \<open>EINVALIDINDEX\<close> and no change.\<close>

theorem blob_bounds_check:
  assumes "blobs_ok bs"
  shows "(teensy_store i d bs = Inl Fault \<longleftrightarrow> unat i = 256) \<and>
    (teensy_read i d bs = Inl Fault \<longleftrightarrow> unat i = 256) \<and>
    (teensy_delete i bs = Inl Fault \<longleftrightarrow> unat i = 256) \<and>
    (256 < unat i \<longrightarrow> teensy_store i d bs = Inr (EINVALIDINDEX, bs) \<and>
       teensy_read i d bs = Inr (EINVALIDINDEX, d) \<and> teensy_delete i bs = Inr (EINVALIDINDEX, bs))"
  using assms
  by (cases "unat i" "256 :: nat" rule: linorder_cases)
    (simp_all add: teensy_store_valid teensy_read_valid teensy_delete_valid teensy_ops_beyond teensy_ops_at_256)

theorem blob_bounds_check_witness:
  "teensy_store 256 7 blobs_init = Inl Fault \<and> teensy_delete 257 blobs_init = Inr (EINVALIDINDEX, blobs_init)"
  using blob_bounds_check [OF blobs_ok_init, of 256 7] blob_bounds_check [OF blobs_ok_init, of 257] by simp

end
