(* ===== verification/Display.thy ===== *)
theory Display
  imports Blobs
begin

text \<open>
  The four-digit hexadecimal display of the gadget (\<open>gadget/teensy_display.c\<close>): the
  digit decoder, the pin driver, the digit driver and the initialisation; and the
  stand-alone display program \<open>gadget/teensy_main.c\<close>, whose three drivers are the same
  text. The state is the port registers.
\<close>

section \<open>Ports and pins\<close>

record ports =
  PORTB :: u8
  PORTD :: u8
  PORTF :: u8
  DDRB :: u8
  DDRD :: u8
  DDRF :: u8

text \<open>The cases of the \<open>switch\<close>; \<open>default\<close> is 0.\<close>

definition hex_val_cases :: "(char \<times> u16) list" where
  "hex_val_cases =
      [(CHR ''0'', 0), (CHR ''1'', 1), (CHR ''2'', 2), (CHR ''3'', 3),
       (CHR ''4'', 4), (CHR ''5'', 5), (CHR ''6'', 6), (CHR ''7'', 7),
       (CHR ''8'', 8), (CHR ''9'', 9), (CHR ''A'', 10), (CHR ''B'', 11),
       (CHR ''C'', 12), (CHR ''D'', 13), (CHR ''E'', 14), (CHR ''F'', 15)]"

definition hex_val :: "char \<Rightarrow> u16" where
  "hex_val c = (case map_of hex_val_cases c of Some v \<Rightarrow> v | None \<Rightarrow> 0)"

definition digitalWrite :: "u8 \<Rightarrow> u8 \<Rightarrow> 'a ports_scheme \<Rightarrow> 'a ports_scheme" where
  "digitalWrite pin val s =
     (if pin = 0 then (if val \<noteq> 0 then s\<lparr>PORTB := set_bit 0 (PORTB s)\<rparr> else s\<lparr>PORTB := unset_bit 0 (PORTB s)\<rparr>)
      else if pin = 1 then (if val \<noteq> 0 then s\<lparr>PORTB := set_bit 1 (PORTB s)\<rparr> else s\<lparr>PORTB := unset_bit 1 (PORTB s)\<rparr>)
      else if pin = 2 then (if val \<noteq> 0 then s\<lparr>PORTB := set_bit 2 (PORTB s)\<rparr> else s\<lparr>PORTB := unset_bit 2 (PORTB s)\<rparr>)
      else if pin = 3 then (if val \<noteq> 0 then s\<lparr>PORTB := set_bit 3 (PORTB s)\<rparr> else s\<lparr>PORTB := unset_bit 3 (PORTB s)\<rparr>)
      else if pin = 4 then (if val \<noteq> 0 then s\<lparr>PORTB := set_bit 7 (PORTB s)\<rparr> else s\<lparr>PORTB := unset_bit 7 (PORTB s)\<rparr>)
      else if pin = 5 then (if val \<noteq> 0 then s\<lparr>PORTD := set_bit 0 (PORTD s)\<rparr> else s\<lparr>PORTD := unset_bit 0 (PORTD s)\<rparr>)
      else if pin = 6 then (if val \<noteq> 0 then s\<lparr>PORTD := set_bit 1 (PORTD s)\<rparr> else s\<lparr>PORTD := unset_bit 1 (PORTD s)\<rparr>)
      else if pin = 7 then (if val \<noteq> 0 then s\<lparr>PORTD := set_bit 2 (PORTD s)\<rparr> else s\<lparr>PORTD := unset_bit 2 (PORTD s)\<rparr>)
      else if pin = 14 then (if val \<noteq> 0 then s\<lparr>PORTB := set_bit 5 (PORTB s)\<rparr> else s\<lparr>PORTB := unset_bit 5 (PORTB s)\<rparr>)
      else if pin = 15 then (if val \<noteq> 0 then s\<lparr>PORTB := set_bit 6 (PORTB s)\<rparr> else s\<lparr>PORTB := unset_bit 6 (PORTB s)\<rparr>)
      else if pin = 16 then (if val \<noteq> 0 then s\<lparr>PORTF := set_bit 7 (PORTF s)\<rparr> else s\<lparr>PORTF := unset_bit 7 (PORTF s)\<rparr>)
      else if pin = 17 then (if val \<noteq> 0 then s\<lparr>PORTF := set_bit 6 (PORTF s)\<rparr> else s\<lparr>PORTF := unset_bit 6 (PORTF s)\<rparr>)
      else if pin = 18 then (if val \<noteq> 0 then s\<lparr>PORTF := set_bit 5 (PORTF s)\<rparr> else s\<lparr>PORTF := unset_bit 5 (PORTF s)\<rparr>)
      else if pin = 19 then (if val \<noteq> 0 then s\<lparr>PORTF := set_bit 4 (PORTF s)\<rparr> else s\<lparr>PORTF := unset_bit 4 (PORTF s)\<rparr>)
      else if pin = 20 then (if val \<noteq> 0 then s\<lparr>PORTF := set_bit 1 (PORTF s)\<rparr> else s\<lparr>PORTF := unset_bit 1 (PORTF s)\<rparr>)
      else if pin = 21 then (if val \<noteq> 0 then s\<lparr>PORTF := set_bit 0 (PORTF s)\<rparr> else s\<lparr>PORTF := unset_bit 0 (PORTF s)\<rparr>)
      else s)"

text \<open>\<open>for (i = 0; i < 4; i++)\<close>: the low four bits of \<open>nib\<close> to four consecutive pins.\<close>

definition out_hex_bit :: "u16 \<Rightarrow> u16 \<Rightarrow> nat \<Rightarrow> 'a ports_scheme \<Rightarrow> 'a ports_scheme" where
  "out_hex_bit nib pos i s =
     (let signal = (ucast nib :: u8) AND push_bit i 1
      in if signal \<noteq> 0 then digitalWrite (ucast (pos + of_nat i)) 1 s
         else digitalWrite (ucast (pos + of_nat i)) 0 s)"

definition out_hex :: "u16 \<Rightarrow> u16 \<Rightarrow> 'a ports_scheme \<Rightarrow> 'a ports_scheme" where
  "out_hex nib pos s =
     (let pos = pos * 4;
          pos = (if pos > 7 then pos + 6 else pos)
      in fold (out_hex_bit nib pos) [0..<4] s)"

definition Display_Init :: "'a ports_scheme \<Rightarrow> 'a ports_scheme" where
  "Display_Init s =
     (let s = s\<lparr>DDRB := 0xef, DDRD := 0x7, DDRF := 0xf3\<rparr>;
          s = fold (\<lambda>i. digitalWrite (of_nat i) 0) [0..<8] s
      in fold (\<lambda>i. digitalWrite (of_nat i) 0) [14..<22] s)"

section \<open>Where a pin is\<close>

datatype port = PinB | PinD | PinF

definition pin_loc :: "u8 \<Rightarrow> (port \<times> nat) option" where
  "pin_loc pin =
     (if pin = 0 then Some (PinB, 0)
      else if pin = 1 then Some (PinB, 1)
      else if pin = 2 then Some (PinB, 2)
      else if pin = 3 then Some (PinB, 3)
      else if pin = 4 then Some (PinB, 7)
      else if pin = 5 then Some (PinD, 0)
      else if pin = 6 then Some (PinD, 1)
      else if pin = 7 then Some (PinD, 2)
      else if pin = 14 then Some (PinB, 5)
      else if pin = 15 then Some (PinB, 6)
      else if pin = 16 then Some (PinF, 7)
      else if pin = 17 then Some (PinF, 6)
      else if pin = 18 then Some (PinF, 5)
      else if pin = 19 then Some (PinF, 4)
      else if pin = 20 then Some (PinF, 1)
      else if pin = 21 then Some (PinF, 0)
      else None)"

fun port_get :: "port \<Rightarrow> 'a ports_scheme \<Rightarrow> u8" where
  "port_get PinB s = PORTB s"
| "port_get PinD s = PORTD s"
| "port_get PinF s = PORTF s"

fun port_set :: "port \<Rightarrow> u8 \<Rightarrow> 'a ports_scheme \<Rightarrow> 'a ports_scheme" where
  "port_set PinB v s = s\<lparr>PORTB := v\<rparr>"
| "port_set PinD v s = s\<lparr>PORTD := v\<rparr>"
| "port_set PinF v s = s\<lparr>PORTF := v\<rparr>"

lemma port_get_set: "port_get p (port_set q v s) = (if p = q then v else port_get p s)"
  by (cases p; cases q) simp_all

text \<open>The level of a pin; a pin the board does not have reads low.\<close>

definition pin_get :: "u8 \<Rightarrow> 'a ports_scheme \<Rightarrow> bool" where
  "pin_get pin s = (case pin_loc pin of None \<Rightarrow> False | Some (p, b) \<Rightarrow> bit (port_get p s) b)"

lemma digitalWrite_loc:
  "digitalWrite pin val s =
     (case pin_loc pin of None \<Rightarrow> s | Some (p, b) \<Rightarrow> port_set p (put_bit b (val \<noteq> 0) (port_get p s)) s)"
  unfolding digitalWrite_def pin_loc_def by (simp add: put_bit_def)

lemma pin_loc_inj: "pin_loc p = Some (P, b) \<Longrightarrow> pin_loc q = Some (P, b) \<Longrightarrow> p = q"
  unfolding pin_loc_def by (cases P) (simp_all split: if_splits)

lemma pin_loc_bit: "pin_loc p = Some (P, b) \<Longrightarrow> b < 8"
  unfolding pin_loc_def by (auto split: if_splits)

lemma pin_get_digitalWrite:
  "pin_get q (digitalWrite p v s) = (if p = q \<and> pin_loc p \<noteq> None then v \<noteq> 0 else pin_get q s)"
proof (cases "pin_loc p")
  case None
  then show ?thesis by (simp add: digitalWrite_loc)
next
  case (Some l)
  obtain P b where l: "l = (P, b)" by (cases l)
  show ?thesis
  proof (cases "pin_loc q")
    case None
    then show ?thesis using Some by (auto simp: pin_get_def)
  next
    case (Some m)
    obtain Q c where m: "m = (Q, c)" by (cases m)
    have "(P, b) = (Q, c) \<longleftrightarrow> p = q"
      using \<open>pin_loc p = Some l\<close> Some l m by (auto dest: pin_loc_inj)
    then show ?thesis
      using \<open>pin_loc p = Some l\<close> Some l m pin_loc_bit [of p P b]
      by (auto simp: pin_get_def digitalWrite_loc port_get_set)
  qed
qed

section \<open>The display as sixteen slots\<close>

text \<open>
  Digit \<open>k\<close> is driven by the four slots \<open>4 * k .. 4 * k + 3\<close>; slots 0 to 7 are pins 0 to 7,
  slots 8 to 15 are pins 14 to 21. The pins satisfy the contract of an indexed store.
\<close>

definition slot_pin :: "nat \<Rightarrow> u8" where
  "slot_pin k = of_nat (if k > 7 then k + 6 else k)"

definition slot_get :: "'a ports_scheme \<Rightarrow> nat \<Rightarrow> bool" where
  "slot_get s k = pin_get (slot_pin k) s"

definition slot_put :: "nat \<Rightarrow> bool \<Rightarrow> 'a ports_scheme \<Rightarrow> 'a ports_scheme" where
  "slot_put k v s = digitalWrite (slot_pin k) (if v then 1 else 0) s"

lemma slot_pin_valid: "k < 16 \<Longrightarrow> pin_loc (slot_pin k) \<noteq> None"
proof -
  assume "k < 16"
  then have "k \<in> set [0..<16]" by simp
  moreover have "\<forall>k \<in> set [0..<16]. pin_loc (slot_pin k) \<noteq> None"
    by (simp add: upt_rec slot_pin_def pin_loc_def)
  ultimately show ?thesis by blast
qed

lemma slot_pin_inj: "j < 16 \<Longrightarrow> k < 16 \<Longrightarrow> slot_pin j = slot_pin k \<longleftrightarrow> j = k"
  by (auto simp: slot_pin_def word_unat_eq_iff take_bit_nat_eq_self unat_of_nat)

interpretation pins: slot_store slot_get slot_put "\<lambda>_. True" 16
  by unfold_locales (auto simp: slot_get_def slot_put_def pin_get_digitalWrite slot_pin_valid slot_pin_inj)

text \<open>The digit the display shows at a position.\<close>

definition digit :: "nat \<Rightarrow> 'a ports_scheme \<Rightarrow> bool list" where
  "digit k s = map (\<lambda>i. slot_get s (4 * k + i)) [0..<4]"

definition nibble :: "u16 \<Rightarrow> bool list" where
  "nibble v = map (bit v) [0..<4]"

lemma upt_4: "[0..<4] = [0, 1, 2, 3 :: nat]"
  by (simp add: upt_rec)

lemma less_4_cases: "k < (4::nat) \<Longrightarrow> k = 0 \<or> k = 1 \<or> k = 2 \<or> k = 3"
  by auto

text \<open>\<open>out_hex\<close> puts the low four bits of its argument into the four slots of the digit.\<close>

definition digit_base :: "u16 \<Rightarrow> u16" where
  "digit_base pos = (if pos * 4 > 7 then pos * 4 + 6 else pos * 4)"

lemma out_hex_bit_pin:
  assumes "k < 4" "i < 4"
  shows "ucast (digit_base (of_nat k) + of_nat i :: u16) = slot_pin (4 * k + i)"
  using less_4_cases [OF assms(1)] less_4_cases [OF assms(2)]
  by (elim disjE; simp add: slot_pin_def digit_base_def)

lemma out_hex_bit_slot:
  assumes "k < 4" "i < 4"
  shows "out_hex_bit nib (digit_base (of_nat k)) i s = slot_put (4 * k + i) (bit nib i) s"
proof -
  have "((ucast nib :: u8) AND push_bit i 1 \<noteq> 0) = bit nib i"
    using assms by (simp add: and_exp_eq_0_iff_not_bit bit_simps)
  with out_hex_bit_pin [OF assms] show ?thesis
    by (simp add: out_hex_bit_def slot_put_def Let_def)
qed

lemma out_hex_slots:
  assumes "k < 4"
  shows "out_hex nib (of_nat k) s =
    fold (\<lambda>(i, v). slot_put i v) (map (\<lambda>i. (4 * k + i, bit nib i)) [0..<4]) s"
  using assms
  by (simp add: out_hex_def Let_def digit_base_def [symmetric] upt_4
    out_hex_bit_slot [of k 0, simplified] out_hex_bit_slot [of k 1, simplified]
    out_hex_bit_slot [of k 2, simplified] out_hex_bit_slot [of k 3, simplified])

lemma out_hex_slot_get:
  assumes "k < 4" "j < 16"
  shows "slot_get (out_hex nib (of_nat k) s) j =
    (if 4 * k \<le> j \<and> j < 4 * k + 4 then bit nib (j - 4 * k) else slot_get s j)"
proof -
  have "slot_get (out_hex nib (of_nat k) s) j =
      (case map_of (rev (map (\<lambda>i. (4 * k + i, bit nib i)) [0..<4])) j of
         None \<Rightarrow> slot_get s j | Some v \<Rightarrow> v)"
    unfolding out_hex_slots [OF assms(1)] using assms by (intro pins.get_puts) auto
  also have "\<dots> = (if 4 * k \<le> j \<and> j < 4 * k + 4 then bit nib (j - 4 * k) else slot_get s j)"
    by (auto simp: upt_4 numeral_eq_Suc less_Suc_eq)
  finally show ?thesis .
qed

lemma digit_out_hex:
  "k < 4 \<Longrightarrow> j < 4 \<Longrightarrow>
     digit j (out_hex nib (of_nat k) s) = (if j = k then nibble nib else digit j s)"
  by (auto simp: digit_def nibble_def out_hex_slot_get)

text \<open>C10: writing a value at one of the four positions shows exactly its low hexadecimal digit there
  and leaves the other three digits as they were.\<close>

theorem out_hex_shows_digit:
  assumes "k < 4" and "j < 4"
  shows "digit j (out_hex nib (of_nat k) s) = (if j = k then nibble nib else digit j s)"
  using assms by (rule digit_out_hex)

theorem out_hex_shows_digit_witness:
  "digit 2 (out_hex 0xABC 2 \<lparr>PORTB = 0xFF, PORTD = 0xFF, PORTF = 0xFF, DDRB = 0, DDRD = 0, DDRF = 0\<rparr>)
     = nibble 0xC"
  using out_hex_shows_digit [of 2 2 "0xABC"
      "\<lparr>PORTB = 0xFF, PORTD = 0xFF, PORTF = 0xFF, DDRB = 0, DDRD = 0, DDRF = 0\<rparr>"]
  by (simp add: nibble_def upt_4)

section \<open>Initialisation\<close>

text \<open>The data direction of a pin: set for an output.\<close>

fun port_ddr :: "port \<Rightarrow> 'a ports_scheme \<Rightarrow> u8" where
  "port_ddr PinB s = DDRB s"
| "port_ddr PinD s = DDRD s"
| "port_ddr PinF s = DDRF s"

lemma port_ddr_digitalWrite: "port_ddr p (digitalWrite q v s) = port_ddr p s"
proof (cases "pin_loc q")
  case None
  then show ?thesis by (simp add: digitalWrite_loc)
next
  case (Some l)
  then show ?thesis
    by (cases p; cases "fst l"; cases l) (simp_all add: digitalWrite_loc)
qed

lemma Display_Init_slots:
  "Display_Init s = fold (\<lambda>(i, v). slot_put i v) (map (\<lambda>i. (i, False)) [0..<16])
     (s\<lparr>DDRB := 0xef, DDRD := 0x7, DDRF := 0xf3\<rparr>)"
  by (simp add: Display_Init_def slot_put_def slot_pin_def upt_rec)

lemma Display_Init_slot:
  assumes "j < 16"
  shows "\<not> slot_get (Display_Init s) j"
proof -
  have "slot_get (Display_Init s) j = (case map_of (rev (map (\<lambda>i. (i, False)) [0..<16])) j of
       None \<Rightarrow> slot_get (s\<lparr>DDRB := 0xef, DDRD := 0x7, DDRF := 0xf3\<rparr>) j | Some v \<Rightarrow> v)"
    unfolding Display_Init_slots using assms by (intro pins.get_puts) auto
  moreover have "map_of (rev (map (\<lambda>i. (i, False)) [0..<16])) j = Some False"
    using assms by (simp add: map_of_eq_Some_iff rev_map [symmetric] comp_def)
  ultimately show ?thesis by simp
qed

lemma port_ddr_fold: "port_ddr p (fold (\<lambda>i. digitalWrite (f i) v) is s) = port_ddr p s"
  by (induction "is" arbitrary: s) (simp_all add: port_ddr_digitalWrite)

text \<open>After initialisation the four digits show 0 and every pin the driver can write is
  configured as an output.\<close>

lemma Display_Init_blank:
  "(\<forall>j < 4. digit j (Display_Init s) = nibble 0) \<and>
   (\<forall>pin p b. pin_loc pin = Some (p, b) \<longrightarrow> bit (port_ddr p (Display_Init s)) b)"
proof (intro conjI allI impI)
  fix j :: nat
  assume "j < 4"
  then show "digit j (Display_Init s) = nibble 0"
    by (simp add: digit_def nibble_def Display_Init_slot)
next
  fix pin p b
  assume "pin_loc pin = Some (p, b)"
  moreover have "port_ddr p (Display_Init s) = port_ddr p (s\<lparr>DDRB := 0xef, DDRD := 0x7, DDRF := 0xf3\<rparr>)"
    by (simp only: Display_Init_def Let_def port_ddr_fold)
  ultimately show "bit (port_ddr p (Display_Init s)) b"
    unfolding pin_loc_def by (cases p) (auto split: if_splits)
qed

section \<open>The stand-alone display program\<close>

text \<open>
  \<open>gadget/teensy_main.c\<close> scrolls the sixteen hexadecimal digits across the display for
  ever. \<open>scroll_step\<close> is the body of its \<open>for\<close> loop at one index, and \<open>scroll_pass\<close> one
  iteration of \<open>while (1)\<close> up to a given index.
\<close>

definition main_test :: string where
  "main_test = ''0123456789ABCDEF''"

definition scroll_step :: "nat \<Rightarrow> 'a ports_scheme \<Rightarrow> 'a ports_scheme" where
  "scroll_step index s =
     (let s = out_hex (hex_val (main_test ! index)) 0 s;
          s = (if index > 0 then out_hex (hex_val (main_test ! (index - 1))) 1 s else s);
          s = (if index > 1 then out_hex (hex_val (main_test ! (index - 2))) 2 s else s)
      in if index > 2 then out_hex (hex_val (main_test ! (index - 3))) 3 s else s)"

definition scroll_pass :: "nat \<Rightarrow> 'a ports_scheme \<Rightarrow> 'a ports_scheme" where
  "scroll_pass n s = fold scroll_step [0..<n] s"

lemma hex_val_main_test: "i < 16 \<Longrightarrow> hex_val (main_test ! i) = of_nat i"
proof -
  assume "i < 16"
  then have "i \<in> set [0..<16]" by simp
  moreover have "\<forall>i \<in> set [0..<16]. hex_val (main_test ! i) = of_nat i"
    by (simp add: upt_rec main_test_def hex_val_def hex_val_cases_def)
  ultimately show ?thesis by blast
qed

lemmas digit_out_hex_at =
  digit_out_hex [of 0, simplified] digit_out_hex [of 1, simplified]
  digit_out_hex [of 2, simplified] digit_out_hex [of 3, simplified]

lemma digit_scroll_step:
  assumes "i < 16" "j < 4"
  shows "digit j (scroll_step i s) = (if j \<le> i then nibble (of_nat (i - j)) else digit j s)"
  using assms(1) less_4_cases [OF assms(2)]
  by (elim disjE) (auto simp: scroll_step_def Let_def hex_val_main_test digit_out_hex_at)

text \<open>The stand-alone program scrolls: after the step at index \<open>i\<close>, digit \<open>j\<close> shows the value
  \<open>i - j\<close> for every digit already reached, so the string moves one position per step.\<close>

lemma scroll_pass_digits:
  assumes "i < 16" and "j < 4" and "j \<le> i"
  shows "digit j (scroll_pass (Suc i) s) = nibble (of_nat (i - j))"
  using assms by (simp add: scroll_pass_def digit_scroll_step)

lemma scroll_pass_digits_instance:
  "digit 3 (scroll_pass 16 \<lparr>PORTB = 0, PORTD = 0, PORTF = 0, DDRB = 0, DDRD = 0, DDRF = 0\<rparr>) = nibble 12"
  using scroll_pass_digits [of 15 3 "\<lparr>PORTB = 0, PORTD = 0, PORTF = 0, DDRB = 0, DDRD = 0, DDRF = 0\<rparr>"]
  by simp

end
