(* ===== verification/Gadget.thy ===== *)
theory Gadget
  imports Descriptors Display
begin

text \<open>
  The gadget's program, \<open>gadget/main.c\<close>: its events, its initialisation and the store task, over
  the USB library (theories \<open>UsbDevice\<close> to \<open>Chapter9\<close>), the storage (theory \<open>Blobs\<close>) and the
  display (theory \<open>Display\<close>).
\<close>

section \<open>State\<close>

record state_t =
  st_command :: u8
  st_index :: u64

text \<open>
  \<open>g_state\<close> is the object \<open>main\<close> passes to \<open>StoreTask\<close>; \<open>g_stack\<close> the bytes an uninitialised local
  variable happens to have; \<open>wdt_on\<close> and \<open>clock_div\<close> what \<open>wdt_disable\<close> and \<open>clock_prescale_set\<close> of
  the C library act on.
\<close>

record gadget = usb_dev +
  g_ports :: ports
  g_blobs :: "blob list"
  config_led :: int
  g_state :: state_t
  g_stack :: "nat \<Rightarrow> u8"
  MCUSR :: u8
  wdt_on :: bool
  clock_div :: u8

definition on_ports :: "(ports \<Rightarrow> ports) \<Rightarrow> gadget \<Rightarrow> gadget" where
  "on_ports f g = g\<lparr>g_ports := f (g_ports g)\<rparr>"

definition uninit :: "nat \<Rightarrow> gadget \<Rightarrow> u8 list" where
  "uninit n g = map (g_stack g) [0..<n]"

definition LED_CONFIG :: "gadget \<Rightarrow> gadget" where
  "LED_CONFIG g =
     (if config_led g = 0 then on_ports (\<lambda>p. p\<lparr>DDRD := set_bit 6 (DDRD p)\<rparr>) (g\<lparr>config_led := 1\<rparr>) else g)"

definition LED_OFF :: "gadget \<Rightarrow> gadget" where
  "LED_OFF = on_ports (\<lambda>p. p\<lparr>PORTD := unset_bit 6 (PORTD p)\<rparr>)"

definition LED_ON :: "gadget \<Rightarrow> gadget" where
  "LED_ON = on_ports (\<lambda>p. p\<lparr>PORTD := set_bit 6 (PORTD p)\<rparr>)"

section \<open>Events\<close>

text \<open>The delays between the blinks have no effect on the state.\<close>

definition EVENT_USB_Device_ConfigurationChanged :: "gadget \<Rightarrow> stop + gadget" where
  "EVENT_USB_Device_ConfigurationChanged g =
     (case Endpoint_ConfigureEndpoint BULK_IN_EPNUM EP_TYPE_BULK ENDPOINT_DIR_IN BULK_IN_EPSIZE ENDPOINT_BANK_SINGLE g of
        Inl e \<Rightarrow> Inl e
      | Inr (s1, g) \<Rightarrow>
     (case Endpoint_ConfigureEndpoint BULK_OUT_EPNUM EP_TYPE_BULK ENDPOINT_DIR_OUT BULK_OUT_EPSIZE ENDPOINT_BANK_SINGLE g of
        Inl e \<Rightarrow> Inl e
      | Inr (s2, g) \<Rightarrow>
     (case Endpoint_ConfigureEndpoint COMMAND_EPNUM EP_TYPE_BULK ENDPOINT_DIR_OUT COMMAND_EPSIZE ENDPOINT_BANK_SINGLE g of
        Inl e \<Rightarrow> Inl e
      | Inr (s3, g) \<Rightarrow>
          let succ = s1 \<and> s2 \<and> s3;
              g = LED_CONFIG g
          in if \<not> succ then Inl Hang
             else Inr (((\<lambda>g. LED_OFF (LED_ON g)) ^^ 5) g))))"

text \<open>\<open>while(1)\<close> with the LED blinking.\<close>

definition EVENT_USB_Device_UnhandledControlRequest :: "gadget \<Rightarrow> stop + gadget" where
  "EVENT_USB_Device_UnhandledControlRequest g = Inl Hang"

definition gadget_app :: "gadget app" where
  "gadget_app = \<lparr>app_config = EVENT_USB_Device_ConfigurationChanged,
     app_unhandled = (\<lambda>w g. case EVENT_USB_Device_UnhandledControlRequest g of Inl e \<Rightarrow> Inl e | Inr g \<Rightarrow> Inr ((), g, w)),
     app_descriptor = CALLBACK_USB_GetDescriptor\<rparr>"

section \<open>The store task\<close>

definition ep_guard_in :: "gadget \<Rightarrow> bool" where
  "ep_guard_in g \<longleftrightarrow> Endpoint_IsConfigured g \<and> Endpoint_IsINReady g \<and> Endpoint_IsReadWriteAllowed g"

definition ep_guard_out :: "gadget \<Rightarrow> bool" where
  "ep_guard_out g \<longleftrightarrow> Endpoint_IsConfigured g \<and> Endpoint_IsOUTReceived g \<and> Endpoint_IsReadWriteAllowed g"

definition store_in :: "gadget world \<Rightarrow> gadget \<Rightarrow> (gadget, unit) run" where
  "store_in w g =
     (let g = Endpoint_SelectEndpoint BULK_IN_EPNUM g
      in if ep_guard_in g then
           bind_run
             (if CMD_READ = st_command (g_state g) then
                (case teensy_read (st_index (g_state g)) (le_word (uninit 2 g)) (g_blobs g) of
                   Inl e \<Rightarrow> Inl e
                 | Inr (_, data) \<Rightarrow>
                     bind_run (Endpoint_Write_Stream_LE (le_bytes 2 data) 2 w g) (\<lambda>err g w.
                       Inr ((), on_ports (out_hex data 0) g, w)))
              else Inr ((), g, w))
             (\<lambda>_ g w. Inr ((), Endpoint_ClearIN g, w))
         else Inr ((), g, w))"

definition store_out :: "gadget world \<Rightarrow> gadget \<Rightarrow> (gadget, unit) run" where
  "store_out w g =
     (let g = Endpoint_SelectEndpoint BULK_OUT_EPNUM g
      in if ep_guard_out g then
           bind_run
             (if CMD_STORE = st_command (g_state g) then
                bind_run (Endpoint_Read_Stream_LE (uninit 2 g) 2 w g) (\<lambda>(err, buf) g w.
                  let data = le_word buf
                  in case teensy_store (st_index (g_state g)) data (g_blobs g) of
                       Inl e \<Rightarrow> Inl e
                     | Inr (_, blobs') \<Rightarrow> Inr ((), on_ports (out_hex data 1) (g\<lparr>g_blobs := blobs'\<rparr>), w))
              else Inr ((), g, w))
             (\<lambda>_ g w. Inr ((), Endpoint_ClearOUT g, w))
         else Inr ((), g, w))"

definition store_cmd :: "gadget world \<Rightarrow> gadget \<Rightarrow> (gadget, unit) run" where
  "store_cmd w g =
     (let g = Endpoint_SelectEndpoint COMMAND_EPNUM g
      in if ep_guard_out g then
           bind_run (Endpoint_Read_Stream_LE (uninit sizeof_usb_cmd g) (of_nat sizeof_usb_cmd) w g) (\<lambda>(err, buf) g w.
             let cmd = usb_cmd_of_bytes buf
             in case (if uc_cmd_type cmd = CMD_DELETE
                      then (case teensy_delete (uc_index cmd) (g_blobs g) of
                              Inl e \<Rightarrow> Inl e
                            | Inr (_, blobs') \<Rightarrow> Inr (g\<lparr>g_blobs := blobs'\<rparr>))
                      else Inr g) of
                  Inl e \<Rightarrow> Inl e
                | Inr g \<Rightarrow>
                    let g = g\<lparr>g_state := \<lparr>st_command = uc_cmd_type cmd, st_index = uc_index cmd\<rparr>\<rparr>;
                        g = Endpoint_ResetFIFO BULK_IN_EPNUM g;
                        g = Endpoint_ResetFIFO BULK_OUT_EPNUM g
                    in Inr ((), Endpoint_ClearOUT g, w))
         else Inr ((), g, w))"

definition StoreTask :: "gadget world \<Rightarrow> gadget \<Rightarrow> (gadget, unit) run" where
  "StoreTask w g =
     (if USB_DeviceState g \<noteq> DEVICE_STATE_Configured then Inr ((), g, w)
      else bind_run (store_in w g) (\<lambda>_ g w. bind_run (store_out w g) (\<lambda>_ g w. store_cmd w g)))"

section \<open>Initialisation and main loop\<close>

definition Init :: "gadget world \<Rightarrow> gadget \<Rightarrow> (gadget, unit) run" where
  "Init w g =
     (let g = g\<lparr>MCUSR := unset_bit 3 (MCUSR g)\<rparr>;
          g = g\<lparr>wdt_on := False\<rparr>;
          g = g\<lparr>clock_div := 0\<rparr>
      in bind_run (USB_Init w g) (\<lambda>_ g w.
           Inr ((), on_ports Display_Init (LED_OFF (LED_CONFIG g)), w)))"

text \<open>\<open>main\<close> with its endless loop cut after \<open>n\<close> rounds.\<close>

fun rounds :: "nat \<Rightarrow> gadget world \<Rightarrow> gadget \<Rightarrow> (gadget, unit) run" where
  "rounds 0 w g = Inr ((), g, w)"
| "rounds (Suc n) w g = bind_run (StoreTask w g) (\<lambda>_ g w. rounds n w g)"

definition gadget_main :: "nat \<Rightarrow> gadget world \<Rightarrow> gadget \<Rightarrow> (gadget, unit) run" where
  "gadget_main n w g =
     (let g = g\<lparr>g_state := \<lparr>st_command = CMD_NULL, st_index = 0\<rparr>\<rparr>
      in bind_run (Init w g) (\<lambda>_ g w. rounds n w g))"

end
