(* ===== verification/StoreSpec.thy ===== *)
theory StoreSpec
  imports Gadget
begin

text \<open>
  What the store task promises: an abstract machine with one slot per endpoint, and the proof that
  every round of \<open>StoreTask\<close>, on a configured gadget, is a step of it.
\<close>

section \<open>The abstract machine\<close>

text \<open>
  \<open>sp_in\<close> is the packet waiting for the host, \<open>sp_out\<close> and \<open>sp_req\<close> the packets of the host that wait
  for the gadget; \<open>sp_junk\<close> is what an uninitialised data variable holds.
\<close>

record spec =
  sp_command :: u8
  sp_index :: u64
  sp_blobs :: "blob list"
  sp_ports :: ports
  sp_in :: "u8 list option"
  sp_out :: "u8 list option"
  sp_req :: "u8 list option"
  sp_junk :: u16

definition spec_in :: "spec \<Rightarrow> stop + spec" where
  "spec_in a =
     (if sp_in a \<noteq> None then Inr a
      else if sp_command a = CMD_READ then
        (case teensy_read (sp_index a) (sp_junk a) (sp_blobs a) of
           Inl e \<Rightarrow> Inl e
         | Inr (_, d) \<Rightarrow> Inr (a\<lparr>sp_ports := out_hex d 0 (sp_ports a), sp_in := Some (le_bytes 2 d)\<rparr>))
      else Inr (a\<lparr>sp_in := Some []\<rparr>))"

definition spec_out :: "spec \<Rightarrow> stop + spec" where
  "spec_out a =
     (case sp_out a of
        None \<Rightarrow> Inr a
      | Some p \<Rightarrow>
          if sp_command a = CMD_STORE then
            (case teensy_store (sp_index a) (le_word p) (sp_blobs a) of
               Inl e \<Rightarrow> Inl e
             | Inr (_, b) \<Rightarrow> Inr (a\<lparr>sp_blobs := b, sp_ports := out_hex (le_word p) 1 (sp_ports a), sp_out := None\<rparr>))
          else Inr (a\<lparr>sp_out := None\<rparr>))"

definition spec_cmd :: "spec \<Rightarrow> stop + spec" where
  "spec_cmd a =
     (case sp_req a of
        None \<Rightarrow> Inr a
      | Some p \<Rightarrow>
          let c = usb_cmd_of_bytes p
          in case (if uc_cmd_type c = CMD_DELETE
                   then (case teensy_delete (uc_index c) (sp_blobs a) of Inl e \<Rightarrow> Inl e | Inr (_, b) \<Rightarrow> Inr (a\<lparr>sp_blobs := b\<rparr>))
                   else Inr a) of
               Inl e \<Rightarrow> Inl e
             | Inr a \<Rightarrow> Inr (a\<lparr>sp_command := uc_cmd_type c, sp_index := uc_index c, sp_in := None, sp_out := None, sp_req := None\<rparr>))"

definition spec_task :: "spec \<Rightarrow> stop + spec" where
  "spec_task a =
     (case spec_in a of Inl e \<Rightarrow> Inl e | Inr a \<Rightarrow>
       (case spec_out a of Inl e \<Rightarrow> Inl e | Inr a \<Rightarrow> spec_cmd a))"

section \<open>Configured endpoints\<close>

definition in_ep_ok :: "ep_regs \<Rightarrow> bool" where
  "in_ep_ok ep \<longleftrightarrow> \<not> ep_is_control ep \<and> ep_is_in ep \<and> ep_size ep = 8 \<and> bit (r_ueconx ep) EPEN \<and>
     bit (r_uesta0x ep) CFGOK \<and> r_bank ep = [] \<and>
     (bit (r_ueintx ep) TXINI \<longleftrightarrow> r_tx ep = None) \<and> (bit (r_ueintx ep) FIFOCON \<longleftrightarrow> r_tx ep = None)"

text \<open>An OUT endpoint whose packets have \<open>n\<close> bytes.\<close>

definition out_ep_ok :: "nat \<Rightarrow> ep_regs \<Rightarrow> bool" where
  "out_ep_ok n ep \<longleftrightarrow> \<not> ep_is_control ep \<and> \<not> ep_is_in ep \<and> n \<le> ep_size ep \<and> bit (r_ueconx ep) EPEN \<and>
     bit (r_uesta0x ep) CFGOK \<and> (bit (r_ueintx ep) FIFOCON \<longleftrightarrow> bit (r_ueintx ep) RXOUTI) \<and>
     length (r_bank ep) = (if bit (r_ueintx ep) RXOUTI then n else 0)"

definition out_packet :: "ep_regs \<Rightarrow> u8 list option" where
  "out_packet ep = (if bit (r_ueintx ep) RXOUTI then Some (r_bank ep) else None)"

definition configured :: "gadget \<Rightarrow> bool" where
  "configured g \<longleftrightarrow> USB_DeviceState g = DEVICE_STATE_Configured \<and> in_ep_ok (eps g 1) \<and> out_ep_ok 2 (eps g 2) \<and>
     out_ep_ok 9 (eps g 3) \<and> blobs_ok (g_blobs g)"

definition abs_gadget :: "gadget \<Rightarrow> spec" where
  "abs_gadget g = \<lparr>sp_command = st_command (g_state g), sp_index = st_index (g_state g), sp_blobs = g_blobs g,
     sp_ports = g_ports g, sp_in = r_tx (eps g 1), sp_out = out_packet (eps g 2), sp_req = out_packet (eps g 3),
     sp_junk = le_word (uninit 2 g)\<rparr>"

lemma in_ep_free: "in_ep_ok ep \<Longrightarrow> r_tx ep = None \<Longrightarrow> in_owned ep"
  by (simp add: in_ep_ok_def in_owned_def)

lemma out_ep_full: "out_ep_ok n ep \<Longrightarrow> bit (r_ueintx ep) RXOUTI \<Longrightarrow> out_owned ep"
  by (simp add: out_ep_ok_def out_owned_def)

lemma guard_in:
  "in_ep_ok (cur g) \<Longrightarrow> ep_guard_in g \<longleftrightarrow> r_tx (cur g) = None"
  by (auto simp: ep_guard_in_def Endpoint_flags in_ep_ok_def ep_rwal_def)

lemma guard_out:
  "out_ep_ok n (cur g) \<Longrightarrow> 0 < n \<Longrightarrow> ep_guard_out g \<longleftrightarrow> bit (r_ueintx (cur g)) RXOUTI"
  by (auto simp: ep_guard_out_def Endpoint_flags out_ep_ok_def ep_rwal_def)

text \<open>Handing over the bank, giving it back, and resetting.\<close>

lemma in_ep_send:
  assumes "in_ep_ok ep" "r_tx ep = None"
  shows "in_ep_ok (ep_clear_in (ep\<lparr>r_bank := b\<rparr>))" "r_tx (ep_clear_in (ep\<lparr>r_bank := b\<rparr>)) = Some b"
  using assms
  by (simp_all add: ep_clear_in_bulk in_ep_ok_def ep_is_control_def ep_is_in_def ep_size_def)

lemma out_ep_release:
  assumes "out_ep_ok n ep" "bit (r_ueintx ep) RXOUTI" "length b \<le> n"
  shows "out_ep_ok n (ep_clear_out (ep\<lparr>r_bank := b\<rparr>))" "out_packet (ep_clear_out (ep\<lparr>r_bank := b\<rparr>)) = None"
  using assms
  by (simp_all add: ep_clear_out_bulk out_ep_ok_def out_packet_def ep_is_control_def ep_is_in_def ep_size_def)

lemma ep_reset_ok:
  "in_ep_ok ep \<Longrightarrow> in_ep_ok (ep_reset_fifo ep)"
  "out_ep_ok n ep \<Longrightarrow> out_ep_ok n (ep_reset_fifo ep) \<and> out_packet (ep_reset_fifo ep) = None"
  by (simp_all add: in_ep_ok_def out_ep_ok_def out_packet_def ep_reset_fifo_def ep_is_control_def ep_is_in_def
      ep_size_def bit_exp_iff)

section \<open>Each stage\<close>

lemma gadget_frames [simp]:
  "USB_DeviceState (upd_ep n f g) = USB_DeviceState g" "g_blobs (upd_ep n f g) = g_blobs g" "g_state (upd_ep n f g) = g_state g"
  "g_ports (upd_ep n f g) = g_ports g" "uninit k (upd_ep n f g) = uninit k g"
  "USB_DeviceState (Endpoint_SelectEndpoint m g) = USB_DeviceState g" "g_blobs (Endpoint_SelectEndpoint m g) = g_blobs g"
  "g_state (Endpoint_SelectEndpoint m g) = g_state g" "g_ports (Endpoint_SelectEndpoint m g) = g_ports g"
  "uninit k (Endpoint_SelectEndpoint m g) = uninit k g" "eps (on_ports h g) = eps g" "UENUM (on_ports h g) = UENUM g"
  "g_blobs (on_ports h g) = g_blobs g" "g_state (on_ports h g) = g_state g" "g_ports (on_ports h g) = h (g_ports g)"
  "uninit k (on_ports h g) = uninit k g" "USB_DeviceState (on_ports h g) = USB_DeviceState g"
  by (simp_all add: upd_ep_def Endpoint_SelectEndpoint_def uenum_write_def on_ports_def uninit_def)

lemma uninit_frames [simp]:
  "uninit k (g\<lparr>g_blobs := bs\<rparr>) = uninit k g" "uninit k (g\<lparr>g_state := st\<rparr>) = uninit k g"
  by (simp_all add: uninit_def)

lemma gadget_frames_cur [simp]:
  "USB_DeviceState (upd_cur f g) = USB_DeviceState g" "g_blobs (upd_cur f g) = g_blobs g" "g_state (upd_cur f g) = g_state g"
  "g_ports (upd_cur f g) = g_ports g" "uninit k (upd_cur f g) = uninit k g"
  by (simp_all add: upd_cur_def)

lemma store_in_refines:
  assumes "configured g"
  shows "case spec_in (abs_gadget g) of
      Inl e \<Rightarrow> store_in w g = Inl e
    | Inr a \<Rightarrow> \<exists>g'. store_in w g = Inr ((), g', w) \<and> configured g' \<and> abs_gadget g' = a"
proof -
  let ?g = "Endpoint_SelectEndpoint BULK_IN_EPNUM g"
  have c: "cur ?g = eps g 1" "in_ep_ok (eps g 1)" "UENUM ?g = 1"
    using assms by (simp_all add: BULK_IN_EPNUM_def configured_def)
  show ?thesis
  proof (cases "r_tx (eps g 1)")
    case (Some p)
    then show ?thesis
      using c assms guard_in [of ?g]
      by (simp add: spec_in_def store_in_def Let_def abs_gadget_def configured_def)
  next
    case None
    then have guard: "ep_guard_in ?g" using c guard_in [of ?g] by simp
    have own: "in_owned (cur ?g)" "r_bank (cur ?g) = []" "ep_size (cur ?g) = 8"
      using c None in_ep_free by (simp_all add: in_ep_ok_def)
    have send: "Endpoint_Write_Stream_LE (le_bytes 2 d) 2 w ?g =
        Inr (ENDPOINT_READYWAIT_NoError, upd_cur (\<lambda>ep. ep\<lparr>r_bank := le_bytes 2 d\<rparr>) ?g, w)" for d :: u16
      using own by (intro Write_Stream_one) simp_all
    have same: "upd_cur (\<lambda>ep. ep\<lparr>r_bank := []\<rparr>) ?g = ?g" using upd_cur_bank_same [of ?g] own by simp
    have fin: "configured (Endpoint_ClearIN (on_ports h (upd_cur (\<lambda>ep. ep\<lparr>r_bank := b\<rparr>) ?g))) \<and>
        abs_gadget (Endpoint_ClearIN (on_ports h (upd_cur (\<lambda>ep. ep\<lparr>r_bank := b\<rparr>) ?g))) =
          (abs_gadget g)\<lparr>sp_ports := h (g_ports g), sp_in := Some b\<rparr>" for h b
      using assms c None in_ep_send [of "eps g 1" b]
      by (simp add: configured_def abs_gadget_def Endpoint_ops_cur)
    show ?thesis
    proof (cases "st_command (g_state g) = CMD_READ")
      case True
      then show ?thesis
        using fin guard None
        by (auto simp: spec_in_def store_in_def Let_def abs_gadget_def send split: sum.splits)
    next
      case False
      have id: "on_ports (\<lambda>p. p) x = x" for x by (simp add: on_ports_def)
      from False show ?thesis
        using fin [of "\<lambda>p. p" "[]"] guard None
        by (simp add: spec_in_def store_in_def Let_def abs_gadget_def same id)
    qed
  qed
qed

lemma store_out_refines:
  assumes "configured g"
  shows "case spec_out (abs_gadget g) of
      Inl e \<Rightarrow> store_out w g = Inl e
    | Inr a \<Rightarrow> \<exists>g'. store_out w g = Inr ((), g', w) \<and> configured g' \<and> abs_gadget g' = a"
proof -
  let ?g = "Endpoint_SelectEndpoint BULK_OUT_EPNUM g"
  have c: "cur ?g = eps g 2" "out_ep_ok 2 (eps g 2)" "UENUM ?g = 2"
    using assms by (simp_all add: BULK_OUT_EPNUM_def configured_def)
  show ?thesis
  proof (cases "bit (r_ueintx (eps g 2)) RXOUTI")
    case False
    then show ?thesis
      using c assms guard_out [of 2 ?g]
      by (simp add: spec_out_def store_out_def Let_def abs_gadget_def configured_def out_packet_def)
  next
    case True
    let ?p = "r_bank (eps g 2)"
    have guard: "ep_guard_out ?g" using c True guard_out [of 2 ?g] by simp
    have own: "out_owned (cur ?g)" "length ?p = 2" "out_packet (eps g 2) = Some ?p"
      using c True out_ep_full by (simp_all add: out_ep_ok_def out_packet_def)
    have recv: "Endpoint_Read_Stream_LE (uninit 2 g) 2 w ?g =
        Inr ((ENDPOINT_READYWAIT_NoError, ?p), upd_cur (\<lambda>ep. ep\<lparr>r_bank := []\<rparr>) ?g, w)"
      using own c Read_Stream_one [of ?g 2 "uninit 2 g" w] by (simp add: uninit_def)
    have fin: "configured (Endpoint_ClearOUT (on_ports h ((upd_cur (\<lambda>ep. ep\<lparr>r_bank := b\<rparr>) ?g)\<lparr>g_blobs := bs\<rparr>))) \<and>
        abs_gadget (Endpoint_ClearOUT (on_ports h ((upd_cur (\<lambda>ep. ep\<lparr>r_bank := b\<rparr>) ?g)\<lparr>g_blobs := bs\<rparr>))) =
          (abs_gadget g)\<lparr>sp_blobs := bs, sp_ports := h (g_ports g), sp_out := None\<rparr>"
      if "blobs_ok bs" "length b \<le> 2" for h b bs
      using assms c True that out_ep_release [of 2 "eps g 2" b]
      by (simp add: configured_def abs_gadget_def Endpoint_ops_cur)
    show ?thesis
    proof (cases "st_command (g_state g) = CMD_STORE")
      case True
      have "blobs_ok bs" if "teensy_store i d (g_blobs g) = Inr (e, bs)" for i d e bs
        using that assms teensy_store_ok by (auto simp: configured_def)
      with True show ?thesis
        using fin guard own(3)
        by (auto simp: spec_out_def store_out_def Let_def abs_gadget_def recv split: sum.splits)
    next
      case False
      have id: "on_ports (\<lambda>p. p) x = x" "x\<lparr>g_blobs := g_blobs x\<rparr> = x" for x by (simp_all add: on_ports_def)
      have bs: "?g\<lparr>g_blobs := g_blobs g\<rparr> = ?g" using id(2) [of ?g] by simp
      have same: "upd_cur (\<lambda>ep. ep\<lparr>r_bank := ?p\<rparr>) ?g = ?g" using upd_cur_bank_same [of ?g] c by simp
      from False show ?thesis
        using fin [of "g_blobs g" ?p "\<lambda>p. p"] guard own assms
        by (simp add: spec_out_def store_out_def Let_def abs_gadget_def configured_def same id bs)
    qed
  qed
qed

lemma store_cmd_refines:
  assumes "configured g"
  shows "case spec_cmd (abs_gadget g) of
      Inl e \<Rightarrow> store_cmd w g = Inl e
    | Inr a \<Rightarrow> \<exists>g'. store_cmd w g = Inr ((), g', w) \<and> configured g' \<and> abs_gadget g' = a"
proof -
  let ?g = "Endpoint_SelectEndpoint COMMAND_EPNUM g"
  have c: "cur ?g = eps g 3" "out_ep_ok 9 (eps g 3)" "UENUM ?g = 3"
    using assms by (simp_all add: COMMAND_EPNUM_def configured_def)
  show ?thesis
  proof (cases "bit (r_ueintx (eps g 3)) RXOUTI")
    case False
    then show ?thesis
      using c assms guard_out [of 9 ?g]
      by (simp add: spec_cmd_def store_cmd_def Let_def abs_gadget_def configured_def out_packet_def)
  next
    case True
    let ?p = "r_bank (eps g 3)" and ?c = "usb_cmd_of_bytes (r_bank (eps g 3))"
    have guard: "ep_guard_out ?g" using c True guard_out [of 9 ?g] by simp
    have own: "out_owned (cur ?g)" "length ?p = 9" "out_packet (eps g 3) = Some ?p"
      using c True out_ep_full by (simp_all add: out_ep_ok_def out_packet_def)
    have recv: "Endpoint_Read_Stream_LE (uninit sizeof_usb_cmd g) (of_nat sizeof_usb_cmd) w ?g =
        Inr ((ENDPOINT_READYWAIT_NoError, ?p), upd_cur (\<lambda>ep. ep\<lparr>r_bank := []\<rparr>) ?g, w)"
      using own c Read_Stream_one [of ?g 9 "uninit 9 g" w] by (simp add: uninit_def sizeof_usb_cmd_def)
    let ?fin = "\<lambda>bs. Endpoint_ClearOUT (Endpoint_ResetFIFO BULK_OUT_EPNUM (Endpoint_ResetFIFO BULK_IN_EPNUM
        ((upd_cur (\<lambda>ep. ep\<lparr>r_bank := []\<rparr>) ?g)\<lparr>g_blobs := bs, g_state := \<lparr>st_command = uc_cmd_type ?c, st_index = uc_index ?c\<rparr>\<rparr>)))"
    have fin: "configured (?fin bs) \<and> abs_gadget (?fin bs) = (abs_gadget g)\<lparr>sp_blobs := bs, sp_command := uc_cmd_type ?c,
        sp_index := uc_index ?c, sp_in := None, sp_out := None, sp_req := None\<rparr>" if "blobs_ok bs" for bs
      using assms c True that out_ep_release [of 9 "eps g 3" "[]"] ep_reset_ok(1) [of "eps g 1"] ep_reset_ok(2) [of 2 "eps g 2"]
      by (simp add: configured_def abs_gadget_def Endpoint_ops_cur Endpoint_ResetFIFO_upd BULK_IN_EPNUM_def BULK_OUT_EPNUM_def)
    show ?thesis
    proof (cases "uc_cmd_type ?c = CMD_DELETE")
      case True
      have "blobs_ok bs" if "teensy_delete i (g_blobs g) = Inr (e, bs)" for i e bs
        using that assms teensy_delete_ok by (auto simp: configured_def)
      with True show ?thesis
        using fin guard own(3)
        by (auto simp: spec_cmd_def store_cmd_def Let_def abs_gadget_def recv split: sum.splits)
    next
      case False
      have "x\<lparr>g_blobs := g_blobs x\<rparr> = x" for x :: gadget by simp
      from this [of "upd_cur f ?g" for f] have bs: "(upd_cur f ?g)\<lparr>g_blobs := g_blobs g\<rparr> = upd_cur f ?g" for f by simp
      from False show ?thesis
        using fin [of "g_blobs g"] guard own(3) assms
        by (simp add: spec_cmd_def store_cmd_def Let_def abs_gadget_def configured_def recv bs)
    qed
  qed
qed


lemma StoreTask_step:
  assumes "configured g"
  shows "case spec_task (abs_gadget g) of
      Inl e \<Rightarrow> StoreTask w g = Inl e
    | Inr a \<Rightarrow> \<exists>g'. StoreTask w g = Inr ((), g', w) \<and> configured g' \<and> abs_gadget g' = a"
proof (cases "spec_in (abs_gadget g)")
  case (Inl e)
  then show ?thesis
    using store_in_refines [OF assms, of w] assms by (simp add: spec_task_def StoreTask_def configured_def)
next
  case (Inr a1)
  then obtain g1 where g1: "store_in w g = Inr ((), g1, w)" "configured g1" "abs_gadget g1 = a1"
    using store_in_refines [OF assms, of w] by auto
  show ?thesis
  proof (cases "spec_out a1")
    case (Inl e)
    then show ?thesis
      using store_out_refines [OF g1(2), of w] assms g1 Inr by (simp add: spec_task_def StoreTask_def configured_def)
  next
    case (Inr a2)
    then obtain g2 where "store_out w g1 = Inr ((), g2, w)" "configured g2" "abs_gadget g2 = a2"
      using store_out_refines [OF g1(2), of w] g1 by auto
    then show ?thesis
      using store_cmd_refines [of g2 w] assms g1 Inr \<open>spec_in (abs_gadget g) = Inr a1\<close>
      by (simp add: spec_task_def StoreTask_def configured_def split: sum.splits)
  qed
qed

text \<open>C2: on a configured gadget, whose waiting packets, if any, have the two lengths that the host sends (9 bytes for a
  command, 2 for data), one round of the store task is one step of the abstract machine: it
  faults exactly when the machine does, otherwise it returns without waiting, the gadget is still
  configured, and its state is the one the machine reaches.\<close>

theorem StoreTask_refines:
  assumes "configured g"
  shows "case spec_task (abs_gadget g) of
      Inl e \<Rightarrow> StoreTask w g = Inl e
    | Inr a \<Rightarrow> \<exists>g'. StoreTask w g = Inr ((), g', w) \<and> configured g' \<and> abs_gadget g' = a"
  using assms by (rule StoreTask_step)

end
