(* ===== verification/HostOps.thy ===== *)
theory HostOps
  imports Commands
begin

text \<open>
  The file operations of the host's kernel driver, \<open>file_ops.c\<close>. The kernel they call is a parameter:
  a record of functions over a kernel state, with what the driver relies on stated as the laws of the
  locale \<open>kernel\<close>.
\<close>

section \<open>The kernel\<close>

text \<open>
  \<open>k_down\<close> and \<open>k_up\<close> act on the semaphore of the device; \<open>k_from_user\<close> and \<open>k_to_user\<close> return how
  many bytes they could not copy; \<open>k_snd\<close> and \<open>k_rcv\<close> are \<open>usb_bulk_msg\<close> on a sending and on a
  receiving pipe, with the length it stores through its pointer when it stores one; \<open>k_rcv\<close> maps the
  buffer to what it holds afterwards.
\<close>

record 'k kapi =
  k_down :: "'k \<Rightarrow> int \<times> 'k"
  k_up :: "'k \<Rightarrow> 'k"
  k_from_user :: "u64 \<Rightarrow> nat \<Rightarrow> 'k \<Rightarrow> nat \<times> u8 list \<times> 'k"
  k_to_user :: "u64 \<Rightarrow> u8 list \<Rightarrow> 'k \<Rightarrow> nat \<times> 'k"
  k_snd :: "u8 \<Rightarrow> u8 list \<Rightarrow> 'k \<Rightarrow> int \<times> int option \<times> 'k"
  k_rcv :: "u8 \<Rightarrow> u8 list \<Rightarrow> 'k \<Rightarrow> int \<times> int option \<times> u8 list \<times> 'k"
  k_IO :: "u8 \<Rightarrow> u8 \<Rightarrow> u32"
  k_IOC_TYPE :: "u32 \<Rightarrow> u8"
  k_IOC_NR :: "u32 \<Rightarrow> u8"

text \<open>The error numbers of the kernel's headers.\<close>

definition ENOMEM :: int where "ENOMEM = 12"
definition ENODEV :: int where "ENODEV = 19"
definition EINVAL :: int where "EINVAL = 22"
definition ENOTTY :: int where "ENOTTY = 25"
definition ENOSYS :: int where "ENOSYS = 38"
definition ERESTARTSYS :: int where "ERESTARTSYS = 512"

lemmas errno_defs = ENOMEM_def ENODEV_def EINVAL_def ENOTTY_def ENOSYS_def ERESTARTSYS_def

definition TEENSY_MAGIC :: u8 where "TEENSY_MAGIC = 0x74"
definition TEENSY_IOCFLUSH :: "'k kapi \<Rightarrow> u32" where "TEENSY_IOCFLUSH K = k_IO K TEENSY_MAGIC 1"
definition TEENSY_IOCERASE_IDX :: "'k kapi \<Rightarrow> u32" where "TEENSY_IOCERASE_IDX K = k_IO K TEENSY_MAGIC 2"
definition TEENSY_IOC_MAXNR :: u8 where "TEENSY_IOC_MAXNR = 3"

section \<open>The operations\<close>

text \<open>What the operations use of \<open>struct teensy_dev\<close>: its endpoint addresses.\<close>

record teensy_eps =
  td_cmd_endpoint :: u8
  td_read_endpoint :: u8
  td_write_endpoint :: u8

text \<open>\<open>actualLen\<close> after a transfer that may have stored a length.\<close>

definition stored_len :: "int \<Rightarrow> int option \<Rightarrow> int" where
  "stored_len old act = (case act of None \<Rightarrow> old | Some n \<Rightarrow> n)"

definition host_teensy_read :: "'k kapi \<Rightarrow> 'a teensy_eps_scheme \<Rightarrow> u64 \<Rightarrow> nat \<Rightarrow> 'k \<Rightarrow> int \<times> 'k" where
  "host_teensy_read K teensy buf count k =
     (case k_down K k of (r, k) \<Rightarrow>
        if r \<noteq> 0 then (0, k)
        else case k_from_user K buf sizeof_command k of (err, bs, k) \<Rightarrow>
          if err \<noteq> 0 then (0, k_up K k)
          else let cmd = command_of_bytes bs
          in if c_cmd_type cmd \<noteq> CMD_READ then (0, k_up K k)
          else let usb_cmd = \<lparr>uc_cmd_type = CMD_READ, uc_index = c_index cmd\<rparr>
          in case k_snd K (td_cmd_endpoint teensy) (usb_cmd_bytes usb_cmd) k of (err, act, k) \<Rightarrow>
            let actualLen = stored_len 0 act
            in if err \<noteq> 0 then (actualLen, k_up K k)
            else case k_rcv K (td_read_endpoint teensy) (le_bytes 2 (c_data cmd)) k of (err, act, data, k) \<Rightarrow>
              let actualLen = stored_len actualLen act;
                  cmd = cmd\<lparr>c_data := le_word data\<rparr>
              in if err \<noteq> 0 \<or> actualLen \<noteq> 2 then (actualLen, k_up K k)
              else case k_to_user K buf (command_bytes cmd) k of (err, k) \<Rightarrow>
                if err \<noteq> 0 then (0, k_up K k)
                else (actualLen, k_up K k))"

definition host_teensy_write :: "'k kapi \<Rightarrow> 'a teensy_eps_scheme \<Rightarrow> u64 \<Rightarrow> nat \<Rightarrow> 'k \<Rightarrow> int \<times> 'k" where
  "host_teensy_write K teensy buf count k =
     (case k_down K k of (r, k) \<Rightarrow>
        if r \<noteq> 0 then (0, k)
        else case k_from_user K buf sizeof_command k of (err, bs, k) \<Rightarrow>
          if err \<noteq> 0 then (0, k_up K k)
          else let cmd = command_of_bytes bs
          in if c_cmd_type cmd \<noteq> CMD_STORE then (0, k_up K k)
          else let usb_cmd = \<lparr>uc_cmd_type = CMD_STORE, uc_index = c_index cmd\<rparr>
          in case k_snd K (td_cmd_endpoint teensy) (usb_cmd_bytes usb_cmd) k of (err, act, k) \<Rightarrow>
            let actualLen = stored_len 0 act
            in if err \<noteq> 0 then (0, k_up K k)
            else case k_snd K (td_write_endpoint teensy) (le_bytes 2 (c_data cmd)) k of (err, act, k) \<Rightarrow>
              let actualLen = stored_len actualLen act
              in if err \<noteq> 0 then (0, k_up K k)
              else (actualLen, k_up K k))"

text \<open>\<open>junk\<close> is the uninitialised \<open>actualLen\<close>; the switch leaves \<open>res\<close> at 0 in both of its cases.\<close>

definition host_teensy_ioctl ::
  "'k kapi \<Rightarrow> int \<Rightarrow> 'a teensy_eps_scheme \<Rightarrow> u32 \<Rightarrow> u64 \<Rightarrow> 'k \<Rightarrow> int \<times> 'k" where
  "host_teensy_ioctl K junk teensy cmd idx k =
     (if k_IOC_TYPE K cmd \<noteq> TEENSY_MAGIC then (- ENOTTY, k)
      else if k_IOC_NR K cmd \<ge> TEENSY_IOC_MAXNR then (- ENOTTY, k)
      else case k_down K k of (r, k) \<Rightarrow>
        let res = 0
        in if r \<noteq> 0 then (res, k)
        else if cmd = TEENSY_IOCFLUSH K then (res, k_up K k)
        else if cmd = TEENSY_IOCERASE_IDX K then
          (let usb_cmd = \<lparr>uc_cmd_type = CMD_DELETE, uc_index = idx\<rparr>
           in case k_snd K (td_cmd_endpoint teensy) (usb_cmd_bytes usb_cmd) k of (err, act, k) \<Rightarrow>
             let actualLen = stored_len junk act
             in if err \<noteq> 0 \<or> actualLen \<noteq> int sizeof_usb_cmd then (res, k_up K k)
             else (res, k_up K k))
        else let res = - EINVAL in (res, k_up K k))"

section \<open>What the driver relies on\<close>

text \<open>
  Taking the semaphore lowers its count unless a signal interrupts the wait, releasing it raises the
  count, and no other call touches it.
\<close>

locale kernel =
  fixes K :: "'k kapi" and sem :: "'k \<Rightarrow> int"
  assumes down: "k_down K k = (r, k') \<Longrightarrow> sem k' = (if r = 0 then sem k - 1 else sem k)"
    and up: "sem (k_up K k) = sem k + 1"
    and from_user: "k_from_user K a n k = (e, bs, k') \<Longrightarrow> sem k' = sem k"
    and to_user: "k_to_user K a bs k = (e, k') \<Longrightarrow> sem k' = sem k"
    and snd: "k_snd K ep bs k = (e', act, k') \<Longrightarrow> sem k' = sem k"
    and rcv: "k_rcv K ep bs k = (e', act, bs', k') \<Longrightarrow> sem k' = sem k"
begin

lemma read_balanced: "host_teensy_read K t buf n k = (r, k') \<Longrightarrow> sem k' = sem k"
  unfolding host_teensy_read_def Let_def
  by (auto split: prod.splits if_splits simp: up dest!: down from_user snd rcv to_user)

lemma write_balanced: "host_teensy_write K t buf n k = (r, k') \<Longrightarrow> sem k' = sem k"
  unfolding host_teensy_write_def Let_def
  by (auto split: prod.splits if_splits simp: up dest!: down from_user snd)

lemma ioctl_balanced: "host_teensy_ioctl K j t c i k = (r, k') \<Longrightarrow> sem k' = sem k"
  unfolding host_teensy_ioctl_def Let_def
  by (auto split: prod.splits if_splits simp: up dest!: down snd)

end

text \<open>The ioctl numbers: type and number of a request are those it was made of.\<close>

definition ioc_laws :: "'k kapi \<Rightarrow> bool" where
  "ioc_laws K \<longleftrightarrow> (\<forall>t n. k_IOC_TYPE K (k_IO K t n) = t \<and> k_IOC_NR K (k_IO K t n) = n)"

lemma ioctl_erase:
  assumes "ioc_laws K"
  shows "host_teensy_ioctl K junk t (TEENSY_IOCERASE_IDX K) idx k =
    (case k_down K k of (r, k) \<Rightarrow>
       if r \<noteq> 0 then (0, k)
       else case k_snd K (td_cmd_endpoint t) (usb_cmd_bytes \<lparr>uc_cmd_type = CMD_DELETE, uc_index = idx\<rparr>) k of
         (err, act, k) \<Rightarrow> (0, k_up K k))"
proof -
  have "k_IOC_NR K (TEENSY_IOCERASE_IDX K) \<noteq> k_IOC_NR K (TEENSY_IOCFLUSH K)"
    using assms by (simp add: ioc_laws_def TEENSY_IOCERASE_IDX_def TEENSY_IOCFLUSH_def)
  then have "TEENSY_IOCERASE_IDX K \<noteq> TEENSY_IOCFLUSH K" by metis
  moreover have "k_IOC_TYPE K (TEENSY_IOCERASE_IDX K) = TEENSY_MAGIC" "\<not> k_IOC_NR K (TEENSY_IOCERASE_IDX K) \<ge> TEENSY_IOC_MAXNR"
    using assms by (simp_all add: ioc_laws_def TEENSY_IOCERASE_IDX_def TEENSY_IOC_MAXNR_def)
  ultimately show ?thesis
    by (simp add: host_teensy_ioctl_def Let_def split: prod.splits)
qed

text \<open>C17: every path through the three file operations, failures included, leaves the count of the
  device's semaphore where it was.\<close>

theorem host_ops_balanced:
  assumes "kernel K sem"
  shows "sem (snd (host_teensy_read K t buf n k)) = sem k \<and>
    sem (snd (host_teensy_write K t buf n k)) = sem k \<and>
    sem (snd (host_teensy_ioctl K junk t c i k)) = sem k"
  using kernel.read_balanced [OF assms] kernel.write_balanced [OF assms] kernel.ioctl_balanced [OF assms]
  by (metis surjective_pairing)

text \<open>The path of a read that succeeds.\<close>

lemma host_teensy_read_ok:
  assumes "k_down K k = (0, k1)" "k_from_user K buf sizeof_command k1 = (0, command_bytes c, k2)" "c_cmd_type c = CMD_READ"
    "k_snd K (td_cmd_endpoint t) (usb_cmd_bytes \<lparr>uc_cmd_type = CMD_READ, uc_index = c_index c\<rparr>) k2 = (0, Some 9, k3)"
    "k_rcv K (td_read_endpoint t) (le_bytes 2 (c_data c)) k3 = (0, Some 2, le_bytes 2 d, k4)"
    "k_to_user K buf (command_bytes (c\<lparr>c_data := d\<rparr>)) k4 = (0, k5)"
  shows "host_teensy_read K t buf n k = (2, k_up K k5)"
  using assms by (simp add: host_teensy_read_def stored_len_def Let_def)

section \<open>Failures\<close>

text \<open>C18: the operations do not report failures as errors. A read whose second transfer fails, with whatever error,
  leaves the user's buffer untouched and returns the length that the failed transfer stored, such as 0 after a
  timeout; if it stored none, the read returns 9, the length of the command it sent. The erase request returns 0,
  success, whatever the kernel's transfers return.\<close>

theorem host_failures_look_like_success:
  assumes "ioc_laws K" "k_down K k = (0, k1)" "k_from_user K buf sizeof_command k1 = (0, command_bytes c, k2)"
    "c_cmd_type c = CMD_READ"
    "k_snd K (td_cmd_endpoint t) (usb_cmd_bytes \<lparr>uc_cmd_type = CMD_READ, uc_index = c_index c\<rparr>) k2 = (0, Some 9, k3)"
    "k_rcv K (td_read_endpoint t) (le_bytes 2 (c_data c)) k3 = (err, act, data, k4)"
    "err \<noteq> 0"
  shows "host_teensy_read K t buf n k = (case act of None \<Rightarrow> 9 | Some m \<Rightarrow> m, k_up K k4) \<and>
    fst (host_teensy_ioctl K junk t (TEENSY_IOCERASE_IDX K) idx k') = 0"
proof
  show "host_teensy_read K t buf n k = (case act of None \<Rightarrow> 9 | Some m \<Rightarrow> m, k_up K k4)"
    using assms by (simp add: host_teensy_read_def stored_len_def Let_def split: option.splits)
  show "fst (host_teensy_ioctl K junk t (TEENSY_IOCERASE_IDX K) idx k') = 0"
    by (simp add: ioctl_erase [OF assms(1)] split: prod.splits)
qed

end
