(* ===== verification/HostProbe.thy ===== *)
theory HostProbe
  imports HostOps Descriptors
begin

text \<open>
  The life cycle of the host's driver, \<open>main.c\<close>: loading and unloading, probing and disconnecting a
  device, opening and closing it. Kernel memory is a store of \<open>struct teensy_dev\<close> objects; using a null
  pointer or a freed object is a fault. Open and disconnect run as threads whose steps interleave.
\<close>

section \<open>State\<close>

text \<open>\<open>struct teensy_dev\<close>; the statistics are never used, and the two back pointers are those of the
  device and interface at hand.\<close>

record teensy_dev = teensy_eps +
  td_cmd_size :: u16
  td_read_size :: u16
  td_write_size :: u16
  td_sem :: int
  td_num_open :: int

datatype kfault = NullDeref | UseAfterFree

text \<open>
  \<open>kh_heap\<close> holds the live objects, \<open>kh_next\<close> the next address; \<open>kh_intfdata\<close> is the pointer kept in the
  interface, \<open>kh_minor\<close> whether the interface has a minor number (it can be found by open), \<open>kh_refs\<close> the
  reference count of the USB device, \<open>kh_driver\<close> whether the driver is registered.
\<close>

record khost =
  kh_heap :: "nat \<Rightarrow> teensy_dev option"
  kh_next :: nat
  kh_intfdata :: "nat option"
  kh_minor :: bool
  kh_refs :: int
  kh_driver :: bool

type_synonym 'a kres = "kfault + 'a"

definition NUM_ENDPOINTS :: u8 where "NUM_ENDPOINTS = 3"

definition with_dev :: "nat option \<Rightarrow> khost \<Rightarrow> (nat \<Rightarrow> teensy_dev \<Rightarrow> 'a kres) \<Rightarrow> 'a kres" where
  "with_dev p h f =
     (case p of
        None \<Rightarrow> Inl NullDeref
      | Some a \<Rightarrow> (case kh_heap h a of None \<Rightarrow> Inl UseAfterFree | Some d \<Rightarrow> f a d))"

definition put_dev :: "nat \<Rightarrow> teensy_dev \<Rightarrow> khost \<Rightarrow> khost" where
  "put_dev a d h = h\<lparr>kh_heap := (kh_heap h)(a \<mapsto> d)\<rparr>"

definition kfree :: "nat \<Rightarrow> khost \<Rightarrow> khost" where
  "kfree a h = h\<lparr>kh_heap := (kh_heap h)(a := None)\<rparr>"

section \<open>Loading and unloading\<close>

text \<open>\<open>reg\<close> is the result of \<open>usb_register\<close>.\<close>

definition teensy_init :: "int \<Rightarrow> khost \<Rightarrow> int \<times> khost" where
  "teensy_init reg h = (reg, if reg = 0 then h\<lparr>kh_driver := True\<rparr> else h)"

definition teensy_exit :: "khost \<Rightarrow> khost" where
  "teensy_exit h = h\<lparr>kh_driver := False\<rparr>"

section \<open>Probing\<close>

text \<open>
  \<open>bulk_in\<close> and \<open>bulk_out\<close> are \<open>usb_endpoint_is_bulk_in\<close> and \<open>usb_endpoint_is_bulk_out\<close>; one pass of the
  loop over the endpoint descriptors.
\<close>

definition probe_endpoint :: "(endpoint_desc \<Rightarrow> bool) \<Rightarrow> (endpoint_desc \<Rightarrow> bool) \<Rightarrow> endpoint_desc \<Rightarrow> teensy_dev \<Rightarrow> teensy_dev" where
  "probe_endpoint bulk_in bulk_out ep d =
     (if td_read_endpoint d = 0 \<and> bulk_in ep then
        d\<lparr>td_read_endpoint := ed_EndpointAddress ep, td_read_size := ed_EndpointSize ep\<rparr>
      else if td_write_endpoint d = 0 \<and> bulk_out ep then
        d\<lparr>td_write_endpoint := ed_EndpointAddress ep, td_write_size := ed_EndpointSize ep\<rparr>
      else if td_cmd_endpoint d = 0 \<and> bulk_out ep then
        d\<lparr>td_cmd_endpoint := ed_EndpointAddress ep, td_cmd_size := ed_EndpointSize ep\<rparr>
      else d)"

definition dev_zero :: teensy_dev where
  "dev_zero = \<lparr>td_cmd_endpoint = 0, td_read_endpoint = 0, td_write_endpoint = 0, td_cmd_size = 0, td_read_size = 0,
     td_write_size = 0, td_sem = 0, td_num_open = 0\<rparr>"

text \<open>\<open>alloc\<close>: \<open>kmalloc\<close> finds memory; \<open>reg\<close>: the result of \<open>usb_register_dev\<close>; \<open>descs\<close>: the descriptors of
  the current setting, \<open>bNumEndpoints\<close> of them.\<close>

definition teensy_probe ::
  "(endpoint_desc \<Rightarrow> bool) \<Rightarrow> (endpoint_desc \<Rightarrow> bool) \<Rightarrow> bool \<Rightarrow> int \<Rightarrow> endpoint_desc list \<Rightarrow> khost \<Rightarrow> int \<times> khost" where
  "teensy_probe bulk_in bulk_out alloc reg descs h =
     (if \<not> alloc then (- ENOMEM, h)
      else
        let a = kh_next h;
            h = h\<lparr>kh_next := Suc a\<rparr>;
            d = dev_zero\<lparr>td_num_open := 1, td_sem := 1\<rparr>;
            h = h\<lparr>kh_refs := kh_refs h + 1\<rparr>;
            fail_after_setup = (\<lambda>result h. (result, kfree a (h\<lparr>kh_refs := kh_refs h - 1\<rparr>)))
        in if length descs \<noteq> unat NUM_ENDPOINTS then fail_after_setup (- ENOSYS) (put_dev a d h)
           else
             let d = fold (probe_endpoint bulk_in bulk_out) descs d;
                 h = put_dev a d h
             in if td_read_endpoint d = 0 \<or> td_write_endpoint d = 0 \<or> td_cmd_endpoint d = 0 then fail_after_setup (- ENOSYS) h
                else
                  let h = h\<lparr>kh_intfdata := Some a\<rparr>
                  in if reg = 0 then (reg, h\<lparr>kh_minor := True\<rparr>)
                     else fail_after_setup reg (h\<lparr>kh_intfdata := None\<rparr>))"

section \<open>Open and release\<close>

text \<open>A thread in \<open>teensy_open\<close>, at the call it makes next; \<open>Some r\<close> with what it put into \<open>private_data\<close>
  when it has returned \<open>r\<close>.\<close>

datatype open_pc =
    OpenFind
  | OpenGet
  | OpenDown "nat option"
  | OpenAgain
  | OpenRef "nat option"
  | OpenUp "nat option" int "nat option"
  | OpenRet int "nat option"

text \<open>\<open>sig\<close>: a signal interrupts the wait for the semaphore. A thread that has to wait stays where it is.\<close>

fun open_step :: "bool \<Rightarrow> open_pc \<Rightarrow> khost \<Rightarrow> (open_pc \<times> khost) kres" where
  "open_step sig OpenFind h = Inr (if kh_minor h then OpenGet else OpenRet (- ENODEV) None, h)"
| "open_step sig OpenGet h = Inr (case kh_intfdata h of None \<Rightarrow> OpenRet (- ENODEV) None | Some a \<Rightarrow> OpenDown (Some a), h)"
| "open_step sig (OpenDown p) h = with_dev p h (\<lambda>a d.
     if td_sem d > 0 then Inr (OpenAgain, put_dev a (d\<lparr>td_sem := td_sem d - 1\<rparr>) h)
     else if sig then Inr (OpenRet (- ERESTARTSYS) None, h)
     else Inr (OpenDown p, h))"
| "open_step sig OpenAgain h = Inr (case kh_intfdata h of None \<Rightarrow> OpenUp None (- ENODEV) None | Some a \<Rightarrow> OpenRef (Some a), h)"
| "open_step sig (OpenRef p) h = with_dev p h (\<lambda>a d. Inr (OpenUp p 0 p, put_dev a (d\<lparr>td_num_open := td_num_open d + 1\<rparr>) h))"
| "open_step sig (OpenUp p r f) h = with_dev p h (\<lambda>a d. Inr (OpenRet r f, put_dev a (d\<lparr>td_sem := td_sem d + 1\<rparr>) h))"
| "open_step sig (OpenRet r f) h = Inr (OpenRet r f, h)"

text \<open>The first component of the result: the call of \<open>on_teensy_close\<close>, which only prints.\<close>

definition kref_put :: "teensy_dev \<Rightarrow> bool \<times> teensy_dev" where
  "kref_put d = (td_num_open d - 1 = 0, d\<lparr>td_num_open := td_num_open d - 1\<rparr>)"

definition teensy_release :: "nat option \<Rightarrow> khost \<Rightarrow> (int \<times> bool \<times> khost) kres" where
  "teensy_release private_data h =
     (if private_data = None then Inr (- ENODEV, False, h)
      else with_dev private_data h (\<lambda>a d. case kref_put d of (closed, d') \<Rightarrow> Inr (0, closed, put_dev a d' h)))"

section \<open>Disconnect\<close>

datatype disc_pc =
    DiscGet
  | DiscDown "nat option"
  | DiscDeregister "nat option"
  | DiscClear "nat option"
  | DiscUp "nat option"
  | DiscPut "nat option"
  | DiscFree "nat option"
  | DiscRet

fun disc_step :: "bool \<Rightarrow> disc_pc \<Rightarrow> khost \<Rightarrow> (disc_pc \<times> khost) kres" where
  "disc_step sig DiscGet h = Inr (DiscDown (kh_intfdata h), h)"
| "disc_step sig (DiscDown p) h = with_dev p h (\<lambda>a d.
     if td_sem d > 0 then Inr (DiscDeregister p, put_dev a (d\<lparr>td_sem := td_sem d - 1\<rparr>) h)
     else if sig then Inr (DiscRet, h)
     else Inr (DiscDown p, h))"
| "disc_step sig (DiscDeregister p) h = with_dev p h (\<lambda>a d. Inr (DiscClear p, h\<lparr>kh_minor := False\<rparr>))"
| "disc_step sig (DiscClear p) h = with_dev p h (\<lambda>a d. Inr (DiscUp p, h\<lparr>kh_intfdata := None\<rparr>))"
| "disc_step sig (DiscUp p) h = with_dev p h (\<lambda>a d. Inr (DiscPut p, put_dev a (d\<lparr>td_sem := td_sem d + 1\<rparr>) h))"
| "disc_step sig (DiscPut p) h = with_dev p h (\<lambda>a d. Inr (DiscFree p, h\<lparr>kh_refs := kh_refs h - 1\<rparr>))"
| "disc_step sig (DiscFree p) h = with_dev p h (\<lambda>a d. Inr (DiscRet, kfree a h))"
| "disc_step sig DiscRet h = Inr (DiscRet, h)"

section \<open>Probing the gadget\<close>

text \<open>What the two tests of the kernel say of a descriptor.\<close>

definition bulk_laws :: "(endpoint_desc \<Rightarrow> bool) \<Rightarrow> (endpoint_desc \<Rightarrow> bool) \<Rightarrow> bool" where
  "bulk_laws bulk_in bulk_out \<longleftrightarrow> (\<forall>ep.
     bulk_in ep = (ed_Attributes ep AND 3 = 2 \<and> bit (ed_EndpointAddress ep) 7) \<and>
     bulk_out ep = (ed_Attributes ep AND 3 = 2 \<and> \<not> bit (ed_EndpointAddress ep) 7))"

definition gadget_endpoints :: "endpoint_desc list" where
  "gadget_endpoints = [DataInEndpoint, DataOutEndpoint, CommandEndpoint]"

definition dev_here :: teensy_dev where
  "dev_here = \<lparr>td_cmd_endpoint = 3, td_read_endpoint = 0x81, td_write_endpoint = 2, td_cmd_size = 9, td_read_size = 2,
     td_write_size = 2, td_sem = 1, td_num_open = 1\<rparr>"

lemmas gadget_endpoint_defs = DataInEndpoint_def DataOutEndpoint_def CommandEndpoint_def bulk_endpoint_def epnum_defs epsize_defs
  ENDPOINT_DESCRIPTOR_DIR_IN_def ENDPOINT_DESCRIPTOR_DIR_OUT_def EP_TYPE_BULK_def ENDPOINT_ATTR_NO_SYNC_def ENDPOINT_USAGE_DATA_def

lemma bulk_kinds:
  assumes "bulk_laws bulk_in bulk_out"
  shows "bulk_in DataInEndpoint" "\<not> bulk_in DataOutEndpoint" "\<not> bulk_in CommandEndpoint"
    "bulk_out DataOutEndpoint" "bulk_out CommandEndpoint"
  using assms by (simp_all add: bulk_laws_def gadget_endpoint_defs)

lemma probe_gadget:
  assumes "bulk_laws bulk_in bulk_out"
  shows "fold (probe_endpoint bulk_in bulk_out) gadget_endpoints (dev_zero\<lparr>td_num_open := 1, td_sem := 1\<rparr>) = dev_here"
  by (simp add: gadget_endpoints_def probe_endpoint_def dev_zero_def bulk_kinds [OF assms] dev_here_def)
    (simp add: gadget_endpoint_defs)

text \<open>C19: probing an interface with the gadget's endpoint descriptors finds its three endpoints, with their
  sizes, and keeps one object, referenced by the interface, with a free semaphore; and a probe that fails
  for whatever reason leaves memory, the interface and the device's reference count as they were.\<close>

theorem teensy_probe_outcome:
  assumes "bulk_laws bulk_in bulk_out" "kh_heap h (kh_next h) = None" "kh_intfdata h = None"
  shows "teensy_probe bulk_in bulk_out True 0 gadget_endpoints h =
      (0, h\<lparr>kh_heap := (kh_heap h)(kh_next h \<mapsto> dev_here), kh_next := Suc (kh_next h), kh_intfdata := Some (kh_next h),
        kh_minor := True, kh_refs := kh_refs h + 1\<rparr>) \<and>
    (\<forall>alloc reg descs r h'. teensy_probe bulk_in bulk_out alloc reg descs h = (r, h') \<longrightarrow> r \<noteq> 0 \<longrightarrow>
      kh_heap h' = kh_heap h \<and> kh_intfdata h' = kh_intfdata h \<and> kh_minor h' = kh_minor h \<and> kh_refs h' = kh_refs h)"
proof (intro conjI allI impI)
  show "teensy_probe bulk_in bulk_out True 0 gadget_endpoints h =
      (0, h\<lparr>kh_heap := (kh_heap h)(kh_next h \<mapsto> dev_here), kh_next := Suc (kh_next h), kh_intfdata := Some (kh_next h),
        kh_minor := True, kh_refs := kh_refs h + 1\<rparr>)"
    unfolding teensy_probe_def Let_def probe_gadget [OF assms(1)]
    by (simp add: gadget_endpoints_def NUM_ENDPOINTS_def put_dev_def) (simp add: dev_here_def)
next
  fix alloc reg descs r h'
  assume "teensy_probe bulk_in bulk_out alloc reg descs h = (r, h')" "r \<noteq> 0"
  then show "kh_heap h' = kh_heap h" "kh_intfdata h' = kh_intfdata h" "kh_minor h' = kh_minor h" "kh_refs h' = kh_refs h"
    using assms(2,3) unfolding teensy_probe_def Let_def
    by (auto simp: put_dev_def kfree_def fun_upd_idem split: if_splits)
qed

section \<open>Interleavings of open and disconnect\<close>

datatype event = Open bool | Disc bool

fun interleave :: "event list \<Rightarrow> open_pc \<times> disc_pc \<times> khost \<Rightarrow> (open_pc \<times> disc_pc \<times> khost) kres" where
  "interleave [] s = Inr s"
| "interleave (Open sig # es) (p, q, h) = (case open_step sig p h of Inl e \<Rightarrow> Inl e | Inr (p', h') \<Rightarrow> interleave es (p', q, h'))"
| "interleave (Disc sig # es) (p, q, h) = (case disc_step sig q h of Inl e \<Rightarrow> Inl e | Inr (q', h') \<Rightarrow> interleave es (p, q', h'))"

definition probed :: "nat \<Rightarrow> teensy_dev \<Rightarrow> khost \<Rightarrow> bool" where
  "probed a d h \<longleftrightarrow> kh_intfdata h = Some a \<and> kh_heap h a = Some d \<and> kh_minor h \<and> td_sem d = 1"

text \<open>C20: on a probed device an open that runs alone returns 0 with a handle and the use count raised; an
  open after a whole disconnect returns \<open>-ENODEV\<close>; but an open that has fetched the device pointer when a
  disconnect begins can use the freed object, or, if it gets the semaphore in time, the null pointer; and
  closing a handle after a disconnect uses the freed object.\<close>

theorem open_disconnect_interleavings:
  assumes "probed a d h"
  shows "interleave (replicate 6 (Open False)) (OpenFind, DiscGet, h) =
      Inr (OpenRet 0 (Some a), DiscGet, put_dev a (d\<lparr>td_num_open := td_num_open d + 1\<rparr>) h) \<and>
    interleave (replicate 7 (Disc False) @ [Open False]) (OpenFind, DiscGet, h) =
      Inr (OpenRet (- ENODEV) None, DiscRet, (kfree a h)\<lparr>kh_intfdata := None, kh_minor := False, kh_refs := kh_refs h - 1\<rparr>) \<and>
    interleave ([Open False, Open False] @ replicate 7 (Disc False) @ [Open False]) (OpenFind, DiscGet, h) = Inl UseAfterFree \<and>
    interleave ([Open False, Open False] @ replicate 5 (Disc False) @ replicate 3 (Open False)) (OpenFind, DiscGet, h) = Inl NullDeref \<and>
    teensy_release (Some a) (kfree a h) = Inl UseAfterFree"
  using assms
  by (simp add: eval_nat_numeral probed_def with_dev_def put_dev_def kfree_def teensy_release_def ENODEV_def)
    (cases d, simp)

section \<open>Instances\<close>

definition khost_demo :: khost where
  "khost_demo = \<lparr>kh_heap = (\<lambda>_. None), kh_next = 1, kh_intfdata = None, kh_minor = False, kh_refs = 1, kh_driver = True\<rparr>"

lemma bulk_laws_demo:
  "bulk_laws (\<lambda>ep. ed_Attributes ep AND 3 = 2 \<and> bit (ed_EndpointAddress ep) 7) (\<lambda>ep. ed_Attributes ep AND 3 = 2 \<and> \<not> bit (ed_EndpointAddress ep) 7)"
  by (simp add: bulk_laws_def)

theorem teensy_probe_outcome_witness:
  "\<exists>h'. teensy_probe (\<lambda>ep. ed_Attributes ep AND 3 = 2 \<and> bit (ed_EndpointAddress ep) 7)
      (\<lambda>ep. ed_Attributes ep AND 3 = 2 \<and> \<not> bit (ed_EndpointAddress ep) 7) True 0 gadget_endpoints khost_demo = (0, h') \<and>
    kh_intfdata h' = Some 1 \<and> kh_heap h' 1 = Some dev_here"
  using teensy_probe_outcome [OF bulk_laws_demo, of khost_demo] by (simp add: khost_demo_def)

theorem open_disconnect_interleavings_witness:
  "interleave ([Open False, Open False] @ replicate 7 (Disc False) @ [Open False])
     (OpenFind, DiscGet, khost_demo\<lparr>kh_heap := [1 \<mapsto> dev_here], kh_intfdata := Some 1, kh_minor := True\<rparr>) = Inl UseAfterFree"
proof -
  have "probed 1 dev_here (khost_demo\<lparr>kh_heap := [1 \<mapsto> dev_here], kh_intfdata := Some 1, kh_minor := True\<rparr>)"
    by (simp add: probed_def dev_here_def)
  from open_disconnect_interleavings [OF this] show ?thesis by blast
qed

end
