(* ===== verification/SysModel.thy ===== *)
theory SysModel
  imports StoreSpec HostProbe
begin

text \<open>
  Host and gadget together: the driver's file operations (theory \<open>HostOps\<close>) run over a kernel whose
  bulk transfers reach a gadget on the bus. The gadget is an interface, so that the operations can run
  against the model of the program (\<open>gadget_if\<close>) and against the abstract machine (\<open>spec_if\<close>); the
  locale \<open>dev_sim\<close> carries results from one to the other.
\<close>

section \<open>A device on the bus\<close>

text \<open>
  \<open>d_round\<close> is one round of the device's main loop, \<open>None\<close> when it stops; \<open>d_out\<close> offers a packet to
  an endpoint and \<open>d_in\<close> asks one for a packet, \<open>None\<close> for a refusal.
\<close>

record 'g dev_if =
  d_round :: "'g \<Rightarrow> 'g option"
  d_out :: "nat \<Rightarrow> u8 list \<Rightarrow> 'g \<Rightarrow> 'g option"
  d_in :: "nat \<Rightarrow> 'g \<Rightarrow> (u8 list \<times> 'g) option"

definition gadget_if :: "gadget dev_if" where
  "gadget_if = \<lparr>d_round = (\<lambda>g. case StoreTask [] g of Inl _ \<Rightarrow> None | Inr (_, g', _) \<Rightarrow> Some g'),
     d_out = host_out, d_in = host_in\<rparr>"

definition spec_if :: "spec dev_if" where
  "spec_if = \<lparr>d_round = (\<lambda>a. case spec_task a of Inl _ \<Rightarrow> None | Inr a' \<Rightarrow> Some a'),
     d_out = (\<lambda>n p a. if n = 2 \<and> sp_out a = None then Some (a\<lparr>sp_out := Some p\<rparr>)
                      else if n = 3 \<and> sp_req a = None then Some (a\<lparr>sp_req := Some p\<rparr>) else None),
     d_in = (\<lambda>n a. if n = 1 then (case sp_in a of None \<Rightarrow> None | Some p \<Rightarrow> Some (p, a\<lparr>sp_in := None\<rparr>)) else None)\<rparr>"

fun d_rounds :: "'g dev_if \<Rightarrow> nat \<Rightarrow> 'g \<Rightarrow> 'g option" where
  "d_rounds D 0 g = Some g"
| "d_rounds D (Suc n) g = (case d_round D g of None \<Rightarrow> None | Some g' \<Rightarrow> d_rounds D n g')"

text \<open>
  A bulk transfer: the host tries it again and again until the device takes part. The schedule says
  how many rounds the device makes before each try; when it ends, the transfer has timed out.
\<close>

fun transfer :: "'g dev_if \<Rightarrow> ('g \<Rightarrow> ('r \<times> 'g) option) \<Rightarrow> nat list \<Rightarrow> 'g option \<Rightarrow> 'r option \<times> nat list \<times> 'g option" where
  "transfer D f [] g = (None, [], g)"
| "transfer D f (n # ns) g =
     (case g of
        None \<Rightarrow> (None, [], None)
      | Some g \<Rightarrow>
          (case d_rounds D n g of
             None \<Rightarrow> (None, [], None)
           | Some g \<Rightarrow> (case f g of Some (r, g) \<Rightarrow> (Some r, ns, Some g) | None \<Rightarrow> transfer D f ns (Some g))))"

section \<open>A kernel for it\<close>

record 'g sys =
  sys_dev :: "'g option"
  sys_sched :: "nat list"
  sys_mem :: "u64 \<Rightarrow> u8 option"
  sys_sem :: int

definition mem_read :: "(u64 \<Rightarrow> u8 option) \<Rightarrow> u64 \<Rightarrow> nat \<Rightarrow> u8 option list" where
  "mem_read m a n = map (\<lambda>i. m (a + of_nat i)) [0..<n]"

fun mem_write :: "u64 \<Rightarrow> u8 list \<Rightarrow> (u64 \<Rightarrow> u8 option) \<Rightarrow> (u64 \<Rightarrow> u8 option)" where
  "mem_write a [] m = m"
| "mem_write a (b # bs) m = (if m a = None then m else mem_write (a + 1) bs (m(a \<mapsto> b)))"

definition mem_room :: "(u64 \<Rightarrow> u8 option) \<Rightarrow> u64 \<Rightarrow> nat \<Rightarrow> nat" where
  "mem_room m a n = length (takeWhile (\<lambda>b. b \<noteq> None) (mem_read m a n))"

definition sysK :: "'g dev_if \<Rightarrow> 'g sys kapi" where
  "sysK D = \<lparr>
     k_down = (\<lambda>s. if sys_sem s > 0 then (0, s\<lparr>sys_sem := sys_sem s - 1\<rparr>) else (-4, s)),
     k_up = (\<lambda>s. s\<lparr>sys_sem := sys_sem s + 1\<rparr>),
     k_from_user = (\<lambda>a n s. let m = mem_room (sys_mem s) a n
       in (n - m, map the (take m (mem_read (sys_mem s) a n)) @ replicate (n - m) 0, s)),
     k_to_user = (\<lambda>a bs s. (length bs - mem_room (sys_mem s) a (length bs), s\<lparr>sys_mem := mem_write a bs (sys_mem s)\<rparr>)),
     k_snd = (\<lambda>ep p s. case transfer D (\<lambda>g. map_option (Pair ()) (d_out D (unat (ep AND 15)) p g)) (sys_sched s) (sys_dev s) of
         (Some _, ns, g) \<Rightarrow> (0, Some (int (length p)), s\<lparr>sys_dev := g, sys_sched := ns\<rparr>)
       | (None, ns, g) \<Rightarrow> (-110, Some 0, s\<lparr>sys_dev := g, sys_sched := ns\<rparr>)),
     k_rcv = (\<lambda>ep buf s. case transfer D (d_in D (unat (ep AND 15))) (sys_sched s) (sys_dev s) of
         (Some p, ns, g) \<Rightarrow>
           (if length p \<le> length buf then 0 else -75, Some (int (min (length p) (length buf))),
            take (length buf) p @ drop (length p) buf, s\<lparr>sys_dev := g, sys_sched := ns\<rparr>)
       | (None, ns, g) \<Rightarrow> (-110, Some 0, buf, s\<lparr>sys_dev := g, sys_sched := ns\<rparr>)),
     k_IO = (\<lambda>t n. push_bit 8 (ucast t) OR ucast n),
     k_IOC_TYPE = (\<lambda>c. ucast (drop_bit 8 c)),
     k_IOC_NR = ucast\<rparr>"

interpretation sysk: kernel "sysK D" sys_sem for D :: "'g dev_if"
  by unfold_locales (auto simp: sysK_def Let_def split: if_splits prod.splits option.splits)

lemma sysK_ioc: "ioc_laws (sysK D)"
  unfolding ioc_laws_def
proof (intro allI conjI)
  fix t n :: u8
  show "k_IOC_TYPE (sysK D) (k_IO (sysK D) t n) = t"
    by (intro bit_eqI) (auto simp: sysK_def bit_simps dest: bit_imp_le_length)
  show "k_IOC_NR (sysK D) (k_IO (sysK D) t n) = n"
    by (intro bit_eqI) (auto simp: sysK_def bit_simps dest: bit_imp_le_length)
qed

text \<open>The endpoint addresses the driver finds when it probes the gadget.\<close>

definition teensy_here :: teensy_eps where
  "teensy_here = teensy_eps.truncate dev_here"

lemma teensy_here_eps [simp]:
  "td_cmd_endpoint teensy_here = 3" "td_read_endpoint teensy_here = 0x81" "td_write_endpoint teensy_here = 2"
  by (simp_all add: teensy_here_def dev_here_def teensy_eps.defs)

section \<open>Two kernels that behave alike\<close>

lemma case_prod_rel:
  "rel_prod (=) S x y \<Longrightarrow> (\<And>r a b. S a b \<Longrightarrow> rel_prod (=) T (f r a) (g r b)) \<Longrightarrow>
     rel_prod (=) T (case x of (r, a) \<Rightarrow> f r a) (case y of (r, b) \<Rightarrow> g r b)"
  by (cases x; cases y) auto

lemma if_rel:
  "(c \<Longrightarrow> rel_prod (=) T a b) \<Longrightarrow> (\<not> c \<Longrightarrow> rel_prod (=) T a' b') \<Longrightarrow>
     rel_prod (=) T (if c then a else a') (if c then b else b')"
  by simp

lemma pair_rel: "r = r' \<Longrightarrow> T s s' \<Longrightarrow> rel_prod (=) T (r, s) (r', s')"
  by simp

text \<open>
  What makes the file operations behave alike over two kernels: related states stay related, and every
  call gives the same results. The transfers need to agree only on packets of the sizes the driver sends.
\<close>

locale kapi_sim =
  fixes K :: "'k kapi" and L :: "'l kapi" and rel :: "'k \<Rightarrow> 'l \<Rightarrow> bool" and t :: "'t teensy_eps_scheme"
  assumes down: "rel s u \<Longrightarrow> rel_prod (=) rel (k_down K s) (k_down L u)"
    and up: "rel s u \<Longrightarrow> rel (k_up K s) (k_up L u)"
    and from_user: "rel s u \<Longrightarrow> rel_prod (=) (rel_prod (=) rel) (k_from_user K a n s) (k_from_user L a n u)"
    and to_user: "rel s u \<Longrightarrow> rel_prod (=) rel (k_to_user K a bs s) (k_to_user L a bs u)"
    and snd_cmd: "rel s u \<Longrightarrow> length p = 9 \<Longrightarrow>
      rel_prod (=) (rel_prod (=) rel) (k_snd K (td_cmd_endpoint t) p s) (k_snd L (td_cmd_endpoint t) p u)"
    and snd_data: "rel s u \<Longrightarrow> length p = 2 \<Longrightarrow>
      rel_prod (=) (rel_prod (=) rel) (k_snd K (td_write_endpoint t) p s) (k_snd L (td_write_endpoint t) p u)"
    and rcv: "rel s u \<Longrightarrow> rel_prod (=) (rel_prod (=) (rel_prod (=) rel))
      (k_rcv K (td_read_endpoint t) buf s) (k_rcv L (td_read_endpoint t) buf u)"
    and ioc: "k_IO K = k_IO L" "k_IOC_TYPE K = k_IOC_TYPE L" "k_IOC_NR K = k_IOC_NR L"
begin

lemma read_sim:
  "rel s u \<Longrightarrow> rel_prod (=) rel (host_teensy_read K t buf n s) (host_teensy_read L t buf n u)"
  unfolding host_teensy_read_def Let_def
  by (((rule case_prod_rel, (assumption | erule down from_user to_user rcv | (erule snd_cmd snd_data, simp))) | rule if_rel
      | (rule pair_rel, rule refl, (assumption | erule up)))+)

lemma write_sim:
  "rel s u \<Longrightarrow> rel_prod (=) rel (host_teensy_write K t buf n s) (host_teensy_write L t buf n u)"
  unfolding host_teensy_write_def Let_def
  by (((rule case_prod_rel, (assumption | erule down from_user to_user rcv | (erule snd_cmd snd_data, simp))) | rule if_rel
      | (rule pair_rel, rule refl, (assumption | erule up)))+)

lemma ioctl_sim:
  "rel s u \<Longrightarrow> rel_prod (=) rel (host_teensy_ioctl K j t c i s) (host_teensy_ioctl L j t c i u)"
  unfolding host_teensy_ioctl_def Let_def ioc TEENSY_IOCFLUSH_def TEENSY_IOCERASE_IDX_def
  by (((rule case_prod_rel, (assumption | erule down from_user to_user rcv | (erule snd_cmd snd_data, simp))) | rule if_rel
      | (rule pair_rel, rule refl, (assumption | erule up)))+)

end

section \<open>Devices that behave alike\<close>

definition dev_rel :: "('c \<Rightarrow> 'a) \<Rightarrow> ('c \<Rightarrow> bool) \<Rightarrow> 'c \<Rightarrow> 'a \<Rightarrow> bool" where
  "dev_rel absn ok c a \<longleftrightarrow> ok c \<and> a = absn c"

definition sys_rel :: "('c \<Rightarrow> 'a \<Rightarrow> bool) \<Rightarrow> 'c sys \<Rightarrow> 'a sys \<Rightarrow> bool" where
  "sys_rel R s u \<longleftrightarrow> rel_option R (sys_dev s) (sys_dev u) \<and> sys_sched s = sys_sched u \<and> sys_mem s = sys_mem u \<and> sys_sem s = sys_sem u"

locale dev_sim =
  fixes C :: "'c dev_if" and A :: "'a dev_if" and absn :: "'c \<Rightarrow> 'a" and ok :: "'c \<Rightarrow> bool"
  assumes round: "ok c \<Longrightarrow> rel_option (dev_rel absn ok) (d_round C c) (d_round A (absn c))"
    and out: "ok c \<Longrightarrow> (n, length p) \<in> {(2, 2), (3, 9)} \<Longrightarrow>
      rel_option (dev_rel absn ok) (d_out C n p c) (d_out A n p (absn c))"
    and in1: "ok c \<Longrightarrow> rel_option (rel_prod (=) (dev_rel absn ok)) (d_in C 1 c) (d_in A 1 (absn c))"
begin

lemma rounds: "dev_rel absn ok c a \<Longrightarrow> rel_option (dev_rel absn ok) (d_rounds C n c) (d_rounds A n a)"
proof (induction n arbitrary: c a)
  case 0
  then show ?case by simp
next
  case (Suc n)
  then show ?case
    using round [of c] by (auto simp: dev_rel_def split: option.splits elim!: option.rel_cases)
qed

lemma transfer_rel:
  assumes "\<And>c a. dev_rel absn ok c a \<Longrightarrow> rel_option (rel_prod (=) (dev_rel absn ok)) (f c) (h a)"
  shows "rel_option (dev_rel absn ok) x y \<Longrightarrow>
    rel_prod (=) (rel_prod (=) (rel_option (dev_rel absn ok))) (transfer C f ns x) (transfer A h ns y)"
proof (induction ns arbitrary: x y)
  case Nil
  then show ?case by simp
next
  case (Cons n ns)
  show ?case
  proof (cases x)
    case None
    with Cons show ?thesis by simp
  next
    case (Some c)
    then obtain a where a: "y = Some a" "dev_rel absn ok c a" using Cons by (auto elim: option.rel_cases)
    show ?thesis
    proof (cases "d_rounds C n c")
      case None
      then show ?thesis using rounds [OF a(2), of n] Some a by simp
    next
      case (Some c')
      then obtain a' where a': "d_rounds A n a = Some a'" "dev_rel absn ok c' a'"
        using rounds [OF a(2), of n] by (auto elim: option.rel_cases)
      show ?thesis
        using assms [OF a'(2)] Cons.IH [of "Some c'" "Some a'"] a a' Some \<open>x = Some c\<close>
        by (auto split: option.splits elim!: option.rel_cases)
    qed
  qed
qed

lemma snd_sim:
  assumes "sys_rel (dev_rel absn ok) s u" "(unat (ep AND 15), length p) \<in> {(2, 2), (3, 9)}"
  shows "rel_prod (=) (rel_prod (=) (sys_rel (dev_rel absn ok))) (k_snd (sysK C) ep p s) (k_snd (sysK A) ep p u)"
proof -
  let ?F = "\<lambda>g. map_option (Pair ()) (d_out C (unat (ep AND 15)) p g)"
  let ?H = "\<lambda>g. map_option (Pair ()) (d_out A (unat (ep AND 15)) p g)"
  have "rel_option (rel_prod (=) (dev_rel absn ok)) (?F c) (?H a)" if "dev_rel absn ok c a" for c a
    using that out [OF _ assms(2), of c] by (auto simp: dev_rel_def elim: option.rel_cases)
  from transfer_rel [of ?F ?H, OF this, where x = "sys_dev s" and y = "sys_dev u" and ns = "sys_sched s"] show ?thesis
    using assms(1) by (auto simp: sysK_def sys_rel_def split: prod.splits option.splits)
qed

lemma rcv_sim:
  assumes "sys_rel (dev_rel absn ok) s u" "unat (ep AND 15) = 1"
  shows "rel_prod (=) (rel_prod (=) (rel_prod (=) (sys_rel (dev_rel absn ok)))) (k_rcv (sysK C) ep buf s) (k_rcv (sysK A) ep buf u)"
proof -
  have "rel_option (rel_prod (=) (dev_rel absn ok)) (d_in C 1 c) (d_in A 1 a)" if "dev_rel absn ok c a" for c a
    using that in1 [of c] by (simp add: dev_rel_def)
  from transfer_rel [of "d_in C 1" "d_in A 1", OF this, where x = "sys_dev s" and y = "sys_dev u" and ns = "sys_sched s"] show ?thesis
    using assms by (auto simp: sysK_def sys_rel_def split: prod.splits option.splits)
qed

end

sublocale dev_sim \<subseteq> ops: kapi_sim "sysK C" "sysK A" "sys_rel (dev_rel absn ok)" teensy_here
proof unfold_locales
  fix s u p
  assume s: "sys_rel (dev_rel absn ok) s u"
  show "length p = 9 \<Longrightarrow> rel_prod (=) (rel_prod (=) (sys_rel (dev_rel absn ok)))
      (k_snd (sysK C) (td_cmd_endpoint teensy_here) p s) (k_snd (sysK A) (td_cmd_endpoint teensy_here) p u)"
    by (rule snd_sim [OF s]) simp
  show "length p = 2 \<Longrightarrow> rel_prod (=) (rel_prod (=) (sys_rel (dev_rel absn ok)))
      (k_snd (sysK C) (td_write_endpoint teensy_here) p s) (k_snd (sysK A) (td_write_endpoint teensy_here) p u)"
    by (rule snd_sim [OF s]) simp
  show "rel_prod (=) (rel_prod (=) (rel_prod (=) (sys_rel (dev_rel absn ok))))
      (k_rcv (sysK C) (td_read_endpoint teensy_here) p s) (k_rcv (sysK A) (td_read_endpoint teensy_here) p u)"
    by (rule rcv_sim [OF s]) simp
qed (auto simp: sysK_def sys_rel_def Let_def)

section \<open>The gadget and its abstract machine\<close>

lemma host_in_configured:
  assumes "configured g"
  shows "host_in 1 g = None \<longleftrightarrow> sp_in (abs_gadget g) = None"
    "host_in 1 g = Some (p, g') \<Longrightarrow> sp_in (abs_gadget g) = Some p \<and> configured g' \<and> abs_gadget g' = (abs_gadget g)\<lparr>sp_in := None\<rparr>"
  using assms
  by (auto simp: host_in_def abs_gadget_def configured_def in_ep_ok_def ep_is_control_def ep_is_in_def ep_size_def
      split: option.splits)

lemma out_ep_accept:
  assumes "out_ep_ok n ep" "\<not> bit (r_ueintx ep) RXOUTI" "length p = n"
  shows "bit (r_ueconx ep) EPEN \<and> \<not> ep_is_in ep \<and> \<not> bit (r_ueintx ep) FIFOCON \<and> length p \<le> ep_size ep \<and> \<not> ep_is_control ep"
    and "out_ep_ok n (ep\<lparr>r_bank := p, r_ueintx := set_bit FIFOCON (set_bit RXOUTI (r_ueintx ep))\<rparr>)"
    and "out_packet (ep\<lparr>r_bank := p, r_ueintx := set_bit FIFOCON (set_bit RXOUTI (r_ueintx ep))\<rparr>) = Some p"
  using assms by (auto simp: out_ep_ok_def out_packet_def ep_is_control_def ep_is_in_def ep_size_def)

lemma host_out_configured:
  assumes "configured g" "(n, length p) \<in> {(2, 2), (3, 9)}"
  shows "rel_option (dev_rel abs_gadget configured) (host_out n p g) (d_out spec_if n p (abs_gadget g))"
proof -
  have e: "out_ep_ok (length p) (eps g n)" using assms by (auto simp: configured_def)
  show ?thesis
  proof (cases "bit (r_ueintx (eps g n)) RXOUTI")
    case True
    then show ?thesis
      using assms(2) by (auto simp: host_out_def Let_def spec_if_def abs_gadget_def out_packet_def)
  next
    case False
    note a = out_ep_accept [OF e False refl]
    have "host_out n p g = Some (upd_ep n (\<lambda>ep. ep\<lparr>r_bank := p, r_ueintx := set_bit FIFOCON (set_bit RXOUTI (r_ueintx ep))\<rparr>) g)"
      using a(1) False by (auto simp: host_out_def Let_def upd_ep_def)
    then show ?thesis
      using assms a False
      by (auto simp: spec_if_def abs_gadget_def configured_def dev_rel_def out_packet_def [of "eps g 2"] out_packet_def [of "eps g 3"])
  qed
qed

interpretation on_bus: dev_sim gadget_if spec_if abs_gadget configured
proof unfold_locales
  fix c
  assume c: "configured c"
  show "rel_option (dev_rel abs_gadget configured) (d_round gadget_if c) (d_round spec_if (abs_gadget c))"
    using StoreTask_step [OF c, of "[]"] by (auto simp: gadget_if_def spec_if_def dev_rel_def split: sum.splits)
  show "rel_option (rel_prod (=) (dev_rel abs_gadget configured)) (d_in gadget_if 1 c) (d_in spec_if 1 (abs_gadget c))"
    using host_in_configured [OF c] by (cases "host_in 1 c") (auto simp: gadget_if_def spec_if_def dev_rel_def split: option.splits)
  fix n :: nat and p :: "u8 list"
  assume "(n, length p) \<in> {(2, 2), (3, 9)}"
  from host_out_configured [OF c this]
  show "rel_option (dev_rel abs_gadget configured) (d_out gadget_if n p c) (d_out spec_if n p (abs_gadget c))"
    by (simp add: gadget_if_def)
qed

end
