(* ===== verification/Enumeration.thy ===== *)
theory Enumeration
  imports Chapter9
begin

text \<open>
  The standard requests from the host's point of view: each request of \<open>DevChapter9.c\<close> run through
  the endpoint interrupt, from the SETUP packet to the end of its status stage.
\<close>

section \<open>Status stages\<close>

text \<open>The device can take a request: its control endpoint is idle, whatever endpoint is selected.\<close>

definition com_ok :: "'a usb_dev_scheme \<Rightarrow> bool" where
  "com_ok t \<longleftrightarrow> ctl_open (Endpoint_SelectEndpoint 0 t) \<and> UENUM t AND 7 = UENUM t \<and>
     \<not> bit (r_ueintx (cur t)) RXSTPI"

lemma com_okD:
  assumes "com_ok t"
  shows "ctl_open (Endpoint_SelectEndpoint 0 t)" "ctl_ready (Endpoint_SelectEndpoint 0 t)"
    "USB_DeviceState t \<noteq> DEVICE_STATE_Unattached" "UENUM t AND 7 = UENUM t" "\<not> bit (r_ueintx (eps t (unat (UENUM t)))) RXSTPI"
  using assms
  by (simp_all add: com_ok_def ctl_open_def ctl_ready_def cur_def Endpoint_SelectEndpoint_def uenum_write_def)

lemma dispatch_done:
  assumes "com_ok t" "length p = 8"
    "dispatch app w (pending (request_of_bytes p) (Endpoint_SelectEndpoint 0 t)) = Some (Inr ((), s', w'))"
    "\<not> Endpoint_IsSETUPReceived s'" "\<not> bit (r_ueintx (eps s' (unat (UENUM t)))) RXSTPI"
  shows "USB_COM_vect app w (host_setup p t) = Inr ((), Endpoint_SelectEndpoint (UENUM t) s', w')"
  using assms(3-5) com_okD [OF assms(1)]
  by (intro USB_COM_vect_eq) (simp_all add: ProcessControlRequest_eq [OF com_okD(1) [OF assms(1)] assms(2)])

lemma dispatch_stop:
  assumes "com_ok t" "length p = 8"
    "dispatch app w (pending (request_of_bytes p) (Endpoint_SelectEndpoint 0 t)) = Some (Inl e)"
  shows "USB_COM_vect app w (host_setup p t) = Inl e"
proof -
  have h: "Endpoint_SelectEndpoint 0 (host_setup p t) = host_setup p (Endpoint_SelectEndpoint 0 t)"
    by (simp add: host_setup_def upd_ep_def Endpoint_SelectEndpoint_def uenum_write_def)
  have i: "Endpoint_IsSETUPReceived (host_setup p (Endpoint_SelectEndpoint 0 t))"
    by (simp add: Endpoint_flags host_setup_def cur_def)
  have "USB_DeviceState (host_setup p t) \<noteq> DEVICE_STATE_Unattached"
    using com_okD [OF assms(1)] by (simp add: host_setup_def upd_ep_def)
  then show ?thesis
    using assms(3) i
    by (simp add: USB_COM_vect_def USB_USBTask_def USB_DeviceTask_def Let_def h ENDPOINT_CONTROLEP_def
        ProcessControlRequest_eq [OF com_okD(1) [OF assms(1)] assms(2)])
qed

lemma ClearIN_idle:
  assumes "ctl_ready s"
  shows "collect 0 (Endpoint_ClearIN s) = add_sent [[]] s" "\<not> Endpoint_IsINReady (Endpoint_ClearIN s)"
    "USB_DeviceState (Endpoint_ClearIN s) = USB_DeviceState s" "USB_ControlRequest (Endpoint_ClearIN s) = USB_ControlRequest s"
    "\<not> Endpoint_IsOUTReceived (Endpoint_ClearIN s)" "\<not> Endpoint_IsSETUPReceived (Endpoint_ClearIN s)"
proof -
  have u: "UENUM s = 0" "ctl_idle (eps s 0)" using assms by (simp_all add: ctl_ready_def)
  have "with_bank [] s = s" using u by (intro with_bank_same) (simp add: ctl_idle_def)
  then show "collect 0 (Endpoint_ClearIN s) = add_sent [[]] s"
    using send_with_bank [OF u(2,1), of "[]"] by simp
  show "\<not> Endpoint_IsINReady (Endpoint_ClearIN s)" "\<not> Endpoint_IsOUTReceived (Endpoint_ClearIN s)"
    "\<not> Endpoint_IsSETUPReceived (Endpoint_ClearIN s)"
    using u by (simp_all add: Endpoint_ops_cur Endpoint_flags ep_clear_in_def ueintx_write_def Let_def cur_def ctl_idle_def
        ep_is_control_def ep_commit_def bit_and_iff bit_exp_iff)
  show "USB_DeviceState (Endpoint_ClearIN s) = USB_DeviceState s" "USB_ControlRequest (Endpoint_ClearIN s) = USB_ControlRequest s"
    by (simp_all add: Endpoint_ops_cur upd_cur_def upd_ep_def)
qed

lemma ep_clear_in_control:
  assumes "ep_is_control ep" "r_ueintx ep = set_bit TXINI 0" "r_bank ep = []"
  shows "ep_clear_in ep = ep\<lparr>r_ueintx := 0, r_tx := Some []\<rparr>"
proof -
  have w: "set_bit TXINI 0 AND set_bit RWAL (unset_bit TXINI x) = 0" for x :: u8
    by (intro bit_eqI) (auto simp: bit_and_iff bit_exp_iff)
  show ?thesis
    using assms w
    by (intro ep_regs.equality)
      (simp_all add: ep_clear_in_def ueintx_write_def Let_def ep_is_control_def ep_commit_def bit_exp_iff)
qed

lemma ClearIN_eps:
  assumes "ctl_ready s"
  shows "eps (Endpoint_ClearIN s) k = (if k = 0 then (eps s 0)\<lparr>r_ueintx := 0, r_tx := Some []\<rparr> else eps s k)"
    "UENUM (Endpoint_ClearIN s) = 0"
  using assms ep_clear_in_control [of "eps s 0"]
  by (simp_all add: Endpoint_ops_cur upd_cur_def ctl_ready_def ctl_idle_def)

lemma status_in:
  assumes "ctl_ready s" "bmRequestType (USB_ControlRequest s) AND REQDIR_DEVICETOHOST = 0"
  shows "Endpoint_ClearStatusStage w s = Inr ((), Endpoint_ClearIN s, w)"
  using assms ctl_flags [OF assms(1)]
  by (simp add: Endpoint_ClearStatusStage_def await_in_def poll_until_exit)

lemma await_collect:
  assumes "ctl_ready s"
  shows "await_in (replicate n id @ collect 0 # w) (Endpoint_ClearIN s) = Inr (True, add_sent [[]] s, w)"
    "await_in (replicate n id) (Endpoint_ClearIN s) = Inl Waiting"
proof -
  note c = ClearIN_idle [OF assms] and f = ctl_flags [OF assms]
  have f': "Endpoint_IsINReady (add_sent [[]] s)"
    using assms by (intro ctl_flags(1)) simp
  show "await_in (replicate n id @ collect 0 # w) (Endpoint_ClearIN s) = Inr (True, add_sent [[]] s, w)"
  proof (induction n)
    case 0
    then show ?case
      using c f f' by (simp add: await_in_def poll_until_round [of _ _ _ "()"] poll_until_exit)
  next
    case (Suc n)
    then show ?case using c f by (simp add: await_in_def poll_until_round [of _ _ _ "()"])
  qed
  show "await_in (replicate n id) (Endpoint_ClearIN s) = Inl Waiting"
  proof (induction n)
    case 0
    then show ?case using c f by (simp add: await_in_def poll_until_end [of _ _ _ "()"])
  next
    case (Suc n)
    then show ?case using c f by (simp add: await_in_def poll_until_round [of _ _ _ "()"])
  qed
qed

text \<open>The data stage of one short packet, and the host's status packet.\<close>

lemma status_out:
  assumes "ctl_ready s" "length b < 8" "bmRequestType (USB_ControlRequest s) AND REQDIR_DEVICETOHOST \<noteq> 0"
  shows "Endpoint_ClearStatusStage (collect 0 # deliver 0 [] # w) (Endpoint_ClearIN (with_bank b s)) = Inr ((), add_sent [b] s, w)"
proof -
  have u: "UENUM s = 0" "ctl_idle (eps s 0)" using assms by (simp_all add: ctl_ready_def)
  let ?s = "Endpoint_ClearIN (with_bank b s)"
  have s: "collect 0 ?s = add_sent [b] s" by (rule send_with_bank [OF u(2,1)])
  have r: "ctl_ready (add_sent [b] s)" using assms by simp
  have q: "\<not> Endpoint_IsOUTReceived ?s" "USB_DeviceState ?s = USB_DeviceState s" "USB_ControlRequest ?s = USB_ControlRequest s"
    using u by (simp_all add: Endpoint_ops_cur Endpoint_flags ep_clear_in_def ueintx_write_def Let_def cur_def ctl_idle_def
        ep_is_control_def ep_commit_def bit_and_iff bit_exp_iff) (simp_all add: upd_cur_def upd_ep_def with_bank_def)
  have "await_out (collect 0 # deliver 0 [] # w) ?s = Inr (True, deliver 0 [] (add_sent [b] s), w)"
    using q ctl_flags [OF r] ctl_flags [OF assms(1)] ctl_ready_status(2) [OF r]
    by (simp add: await_out_def poll_until_round [of _ _ _ "()"] poll_until_exit s)
  then show ?thesis
    using q assms(3) ctl_ready_status(3) [OF r] by (simp add: Endpoint_ClearStatusStage_def)
qed

section \<open>SetAddress\<close>

lemma ctl_idle_no_setup: "ctl_idle ep \<Longrightarrow> \<not> bit (r_ueintx ep) RXSTPI"
  by (simp add: ctl_idle_def bit_exp_iff)

lemma SelectEndpoint_back:
  "UENUM t AND 7 = UENUM t \<Longrightarrow> Endpoint_SelectEndpoint (UENUM t) (Endpoint_SelectEndpoint n t) = t"
  by (simp add: Endpoint_SelectEndpoint_def uenum_write_def)

text \<open>A SetAddress request takes effect after the host has collected its status packet and not
  before: while the packet is waiting the request is still being processed, and once it is collected
  the interrupt returns with the address enabled, the device addressed if the address is not 0, and
  everything else as it was, the selected endpoint included.\<close>

lemma USB_SetAddress_after_status:
  assumes "com_ok t" "length p = 8" "p ! 0 = 0" "p ! 1 = REQ_SetAddress"
    "a = ucast (wValue (request_of_bytes p) AND 0x7F)"
  shows "USB_COM_vect app (replicate n id) (host_setup p t) = Inl Waiting \<and>
    USB_COM_vect app (replicate n id @ collect 0 # w) (host_setup p t) =
      Inr ((), (add_sent [[]] t)\<lparr>USB_ControlRequest := request_of_bytes p, UDADDR := set_bit ADDEN a,
        USB_DeviceState := (if a \<noteq> 0 then DEVICE_STATE_Addressed else USB_DeviceState t)\<rparr>, w)"
proof -
  let ?r = "request_of_bytes p" and ?t0 = "Endpoint_SelectEndpoint 0 t"
  let ?s1 = "?t0\<lparr>USB_ControlRequest := ?r\<rparr>"
  note ok = com_okD [OF assms(1)]
  have s1: "ctl_ready ?s1" "bmRequestType (USB_ControlRequest ?s1) AND REQDIR_DEVICETOHOST = 0"
    using ok(2) assms(3) by (simp_all add: request_of_bytes_def)
  have d: "dispatch app w' (pending ?r ?t0) = Some (USB_Device_SetAddress w' (pending ?r ?t0))" for w'
    using assms(3,4) by (simp add: dispatch_def Let_def request_of_bytes_def req_defs reqtype_defs)
  have run: "USB_Device_SetAddress w' (pending ?r ?t0) =
      bind_run (await_in w' (Endpoint_ClearIN ?s1)) (\<lambda>ok s w.
        if \<not> ok then Inr ((), s, w)
        else let s = (if a \<noteq> 0 then s\<lparr>USB_DeviceState := DEVICE_STATE_Addressed\<rparr> else s)
          in Inr ((), s\<lparr>UDADDR := push_bit ADDEN 1 OR a\<rparr>, w))" for w'
    by (simp add: USB_Device_SetAddress_def ClearSETUP_pending [OF ok(2)] status_in [OF s1] assms(5) [symmetric])
  have pb: "push_bit ADDEN 1 OR a = set_bit ADDEN a" by (simp add: set_bit_eq_or or.commute)
  let ?s' = "(if a \<noteq> 0 then (add_sent [[]] ?s1)\<lparr>USB_DeviceState := DEVICE_STATE_Addressed\<rparr> else add_sent [[]] ?s1)\<lparr>UDADDR := set_bit ADDEN a\<rparr>"
  have e: "eps ?s' n = eps (add_sent [[]] t) n" "cur ?s' = eps ?s' 0" for n
    by (simp_all add: add_sent_def upd_ep_def cur_def Endpoint_SelectEndpoint_def uenum_write_def)
  have "r_ueintx (eps (add_sent [[]] t) n) = r_ueintx (eps t n)" for n by (simp add: add_sent_def)
  then have f: "\<not> Endpoint_IsSETUPReceived ?s'" "\<not> bit (r_ueintx (eps ?s' (unat (UENUM t)))) RXSTPI"
    using ok(2,5) by (simp_all only: Endpoint_flags e ctl_ready_def ctl_idle_no_setup) (simp_all add: ctl_idle_no_setup)
  have run1: "USB_Device_SetAddress (replicate n id @ collect 0 # w) (pending ?r ?t0) = Inr ((), ?s', w)"
    unfolding run await_collect(1) [OF s1(1)] by (simp add: pb [simplified])
  have run2: "USB_Device_SetAddress (replicate n id) (pending ?r ?t0) = Inl Waiting"
    unfolding run await_collect(2) [OF s1(1)] by simp
  have b: "Endpoint_SelectEndpoint (UENUM t) ?s' = (add_sent [[]] t)\<lparr>USB_ControlRequest := ?r, UDADDR := set_bit ADDEN a,
        USB_DeviceState := (if a \<noteq> 0 then DEVICE_STATE_Addressed else USB_DeviceState t)\<rparr>"
    using ok(4) by (simp add: Endpoint_SelectEndpoint_def uenum_write_def add_sent_def upd_ep_def)
  show ?thesis
    using dispatch_stop [OF assms(1,2) d [of "replicate n id", unfolded run2]]
      dispatch_done [OF assms(1,2) d [of "replicate n id @ collect 0 # w", unfolded run1] f] b by simp
qed


section \<open>The other requests\<close>

text \<open>A handler that ends with the control endpoint idle, apart from packets sent.\<close>

lemma dispatch_idle:
  assumes "com_ok t" "length p = 8"
    "dispatch app w (pending (request_of_bytes p) (Endpoint_SelectEndpoint 0 t)) =
       Some (Inr ((), (add_sent ps (Endpoint_SelectEndpoint 0 t))\<lparr>USB_ControlRequest := request_of_bytes p\<rparr>, w'))"
  shows "USB_COM_vect app w (host_setup p t) = Inr ((), (add_sent ps t)\<lparr>USB_ControlRequest := request_of_bytes p\<rparr>, w')"
proof -
  let ?s' = "(add_sent ps (Endpoint_SelectEndpoint 0 t))\<lparr>USB_ControlRequest := request_of_bytes p\<rparr>"
  note ok = com_okD [OF assms(1)]
  have r: "ctl_ready ?s'" using ok(2) by simp
  have "r_ueintx (eps ?s' n) = r_ueintx (eps t n)" for n
    by (simp add: add_sent_def)
  then have e: "\<not> bit (r_ueintx (eps ?s' (unat (UENUM t)))) RXSTPI"
    using ok(5) by (simp only: not_False_eq_True)
  have b: "Endpoint_SelectEndpoint (UENUM t) ?s' = (add_sent ps t)\<lparr>USB_ControlRequest := request_of_bytes p\<rparr>"
    using ok(4) by (simp add: Endpoint_SelectEndpoint_def uenum_write_def add_sent_def upd_ep_def)
  show ?thesis
    using dispatch_done [OF assms ctl_flags(3) [OF r] e] b by simp
qed

text \<open>C13: a GetDescriptor request for a descriptor the application has sends exactly the first
  \<open>min size wLength\<close> bytes of it, in packets of eight ended by a short one, to a host that collects
  them and sends its status packet, and leaves the device as it was.\<close>

theorem USB_GetDescriptor_delivers:
  assumes "com_ok t" "length p = 8" "p ! 0 = 0x80 \<or> p ! 0 = 0x81" "p ! 1 = REQ_GetDescriptor"
    "app_descriptor app (wValue (request_of_bytes p)) (ucast (wIndex (request_of_bytes p))) = (mem, sz)"
    "sz \<noteq> NO_DESCRIPTOR" "unat sz \<le> length mem" "wLength (request_of_bytes p) \<noteq> 0"
    "T = min (unat sz) (unat (wLength (request_of_bytes p)))" "ps = packets8 (take T mem)"
  shows "concat ps = take T mem \<and>
    USB_COM_vect app (replicate (length ps) (collect 0) @ deliver 0 [] # w) (host_setup p t) =
      Inr ((), (add_sent ps t)\<lparr>USB_ControlRequest := request_of_bytes p\<rparr>, w)"
proof -
  let ?r = "request_of_bytes p" and ?t0 = "Endpoint_SelectEndpoint 0 t"
  let ?s1 = "?t0\<lparr>USB_ControlRequest := ?r\<rparr>" and ?w = "replicate (length ps) (collect 0) @ deliver 0 [] # w"
  note ok = com_okD [OF assms(1)]
  have s1: "ctl_ready ?s1" using ok(2) by simp
  have d: "dispatch app w' (pending ?r ?t0) = Some (USB_Device_GetDescriptor app w' (pending ?r ?t0))" for w'
    using assms(3,4) by (auto simp: dispatch_def Let_def request_of_bytes_def req_defs reqtype_defs)
  have L: "sz \<noteq> 0" using assms(6) by (simp add: NO_DESCRIPTOR_def)
  have T: "T = min (unat sz) (unat (wLength (USB_ControlRequest ?s1)))" "wLength (USB_ControlRequest ?s1) \<noteq> 0"
    using assms(8,9) by simp_all
  obtain s' where s': "Endpoint_Write_Control_PStream_LE mem sz ?w ?s1 = Inr (ENDPOINT_RWCSTREAM_NoError, s', w)"
    "Endpoint_ClearOUT s' = add_sent ps ?s1" "concat ps = take T mem"
    using Endpoint_Write_Control_Stream_packets [OF s1 assms(7) L T(2,1) assms(10), of w] by auto
  have "add_sent ps ?s1 = (add_sent ps ?t0)\<lparr>USB_ControlRequest := ?r\<rparr>" by (simp add: add_sent_def upd_ep_def)
  then have "USB_Device_GetDescriptor app ?w (pending ?r ?t0) = Inr ((), (add_sent ps ?t0)\<lparr>USB_ControlRequest := ?r\<rparr>, w)"
    using s' by (simp add: USB_Device_GetDescriptor_def assms(5,6) ClearSETUP_pending [OF ok(2)])
  then show ?thesis
    using dispatch_idle [OF assms(1,2), of app ?w ps w] d s'(3) by simp
qed

text \<open>Requests the library answers with a stall, although it has a handler for their kind.\<close>

definition refused :: "'s app \<Rightarrow> usb_request \<Rightarrow> bool" where
  "refused app r \<longleftrightarrow>
     bRequest r = REQ_SetConfiguration \<and> bmRequestType r = 0 \<and> (ucast (wValue r) :: u8) > 1 \<or>
     bRequest r = REQ_GetDescriptor \<and> bmRequestType r \<in> {0x80, 0x81} \<and>
       snd (app_descriptor app (wValue r) (ucast (wIndex r))) = NO_DESCRIPTOR \<or>
     bRequest r \<in> {REQ_ClearFeature, REQ_SetFeature} \<and> bmRequestType r = 0 \<and>
       (ucast (wValue r) :: u8) \<noteq> FEATURE_REMOTE_WAKEUP \<or>
     bRequest r \<in> {REQ_ClearFeature, REQ_SetFeature} \<and> bmRequestType r = 2 \<and>
       (ucast (wValue r) :: u8) = FEATURE_ENDPOINT_HALT \<and> (ucast (wIndex r) :: u8) AND 7 = 0"

lemma stall_pending:
  assumes "ctl_ready t"
  shows "Endpoint_ClearSETUP (Endpoint_StallTransaction (pending r t)) =
    (upd_ep 0 (\<lambda>ep. ueconx_write (set_bit STALLRQ (r_ueconx ep)) ep) t)\<lparr>USB_ControlRequest := r\<rparr>"
proof -
  have u: "UENUM t = 0" "ctl_idle (eps t 0)" using assms by (simp_all add: ctl_ready_def)
  have w: "set_bit RXSTPI (2 ^ TXINI) AND set_bit TXINI (set_bit RWAL (unset_bit RXSTPI x)) = (2 ^ TXINI :: u8)"
    if "bit x TXINI" for x
    using that by (intro bit_eqI) (auto simp: bit_and_iff bit_exp_iff)
  have "ep_clear_setup (ueconx_write (set_bit STALLRQ (r_ueconx ep)) (ep\<lparr>r_ueintx := set_bit RXSTPI (2 ^ TXINI)\<rparr>)) =
      ueconx_write (set_bit STALLRQ (r_ueconx ep)) ep" if "ctl_idle ep" for ep
    using that
    by (intro ep_regs.equality)
      (simp_all add: ep_clear_setup_def ueintx_write_def Let_def ctl_idle_def ep_is_control_def ep_free_def w bit_exp_iff
        ueconx_write_def)
  then show ?thesis
    using u by (simp add: pending_def Endpoint_ops_cur Endpoint_con_cur upd_cur_def upd_ep_def)
qed

text \<open>C14: a request the device does not support (a configuration other than 0 and 1, a descriptor the
  application does not have, a device feature other than remote wake-up, a halt of the control
  endpoint) is answered by a stall of the control endpoint and changes nothing else.\<close>

theorem USB_refused_request_stalls:
  assumes "com_ok t" "length p = 8" "refused app (request_of_bytes p)"
  shows "USB_COM_vect app w (host_setup p t) =
    Inr ((), (upd_ep 0 (\<lambda>ep. ueconx_write (set_bit STALLRQ (r_ueconx ep)) ep) t)\<lparr>USB_ControlRequest := request_of_bytes p\<rparr>, w)"
proof -
  let ?r = "request_of_bytes p" and ?t0 = "Endpoint_SelectEndpoint 0 t"
  let ?q = "pending ?r ?t0"
  note ok = com_okD [OF assms(1)]
  have "dispatch app w ?q = Some (Inr ((), ?q, w))"
    using assms(3) unfolding refused_def
    by (elim disjE conjE)
      (auto simp: dispatch_def Let_def req_defs reqtype_defs USB_Device_SetConfiguration_def FIXED_NUM_CONFIGURATIONS_def
        USB_Device_GetDescriptor_def USB_Device_ClearSetFeature_def ENDPOINT_EPNUM_MASK_def ENDPOINT_CONTROLEP_def
        split: prod.splits)
  moreover have "Endpoint_IsSETUPReceived ?q"
    using ok(2) by (simp add: Endpoint_flags cur_def ctl_ready_def)
  ultimately have "USB_Device_ProcessControlRequest app w (host_setup p ?t0) = Inr ((),
      (upd_ep 0 (\<lambda>ep. ueconx_write (set_bit STALLRQ (r_ueconx ep)) ep) ?t0)\<lparr>USB_ControlRequest := ?r\<rparr>, w)"
    by (simp add: ProcessControlRequest_eq [OF ok(1) assms(2)] stall_pending [OF ok(2)])
  moreover have "r_ueintx (ueconx_write v ep) = r_ueintx ep" for v ep by (simp add: ueconx_write_def)
  then have "\<not> bit (r_ueintx (eps ((upd_ep 0 (\<lambda>ep. ueconx_write (set_bit STALLRQ (r_ueconx ep)) ep) ?t0)\<lparr>USB_ControlRequest := ?r\<rparr>)
      (unat (UENUM t)))) RXSTPI"
    using ok(5) by (cases "UENUM t = 0") (auto simp: unat_eq_0)
  ultimately show ?thesis
    using USB_COM_vect_eq [OF ok(3,4)] ok(4)
    by (simp add: Endpoint_SelectEndpoint_def uenum_write_def upd_ep_def)
qed

section \<open>Halting an endpoint\<close>

definition ep_halt :: "bool \<Rightarrow> ep_regs \<Rightarrow> ep_regs" where
  "ep_halt on ep =
     (if \<not> bit (r_ueconx ep) EPEN then ep
      else if on then ueconx_write (set_bit STALLRQ (r_ueconx ep)) ep
      else let ep = ep_reset_fifo (ueconx_write (set_bit STALLRQC (r_ueconx ep)) ep)
           in ueconx_write (set_bit RSTDT (r_ueconx ep)) ep)"

lemma ep_halt_effect:
  "\<not> bit (r_ueconx ep) EPEN \<Longrightarrow> ep_halt on ep = ep"
  "bit (r_ueconx ep) EPEN \<Longrightarrow> bit (r_ueconx ep) STALLRQC = False \<Longrightarrow> bit (r_ueconx (ep_halt True ep)) STALLRQ"
  "bit (r_ueconx ep) EPEN \<Longrightarrow> \<not> bit (r_ueconx (ep_halt False ep)) STALLRQ \<and> r_bank (ep_halt False ep) = [] \<and>
     r_tx (ep_halt False ep) = None \<and> \<not> r_dtog (ep_halt False ep)"
  "\<not> bit (r_ueintx ep) RXSTPI \<Longrightarrow> \<not> bit (r_ueintx (ep_halt on ep)) RXSTPI"
  by (simp_all add: ep_halt_def ueconx_write_def Let_def ep_reset_fifo_def bit_exp_iff)

lemma upd_ep_pending: "n \<noteq> 0 \<Longrightarrow> upd_ep n f (pending r t) = pending r (upd_ep n f t)"
  by (simp add: pending_def upd_ep_def fun_upd_twist)

lemma ctl_ready_upd_ep [simp]: "n \<noteq> 0 \<Longrightarrow> ctl_ready (upd_ep n f t) = ctl_ready t"
  by (simp add: ctl_ready_def upd_ep_def)

lemma halt_run:
  fixes t :: "'a usb_dev_scheme"
  assumes "ctl_ready t" "bmRequestType r = 2" "bRequest r \<in> {REQ_ClearFeature, REQ_SetFeature}"
    "(ucast (wValue r) :: u8) = FEATURE_ENDPOINT_HALT" "N = (ucast (wIndex r) :: u8) AND 7" "N \<noteq> 0" "unat N < 7"
  shows "USB_Device_ClearSetFeature w (pending r t) =
    Inr ((), Endpoint_ClearIN ((upd_ep (unat N) (ep_halt (bRequest r = REQ_SetFeature)) t)\<lparr>USB_ControlRequest := r\<rparr>), w)"
proof -
  let ?on = "bRequest r = REQ_SetFeature"
  have N: "N AND 7 = N" "unat N \<noteq> 0" using assms(5,6) by (simp_all add: and.assoc unat_eq_0)
  have u: "UENUM t = 0" using assms(1) by (simp add: ctl_ready_def)
  let ?s = "Endpoint_SelectEndpoint N (pending r t)"
  have h: "(if Endpoint_IsEnabled ?s
      then if ?on then Endpoint_StallTransaction ?s
           else Endpoint_ResetDataToggle (Endpoint_ResetFIFO N (Endpoint_ClearStall ?s))
      else ?s) = Endpoint_SelectEndpoint N (upd_ep (unat N) (ep_halt ?on) (pending r t))"
    using N assms(7)
    by (simp add: Endpoint_flags Endpoint_con_cur Endpoint_ResetFIFO_upd upd_cur_def upd_ep_upd_ep)
      (simp add: upd_ep_def Endpoint_SelectEndpoint_def uenum_write_def ep_halt_def Let_def)
  let ?t = "upd_ep (unat N) (ep_halt ?on) t"
  have b: "Endpoint_SelectEndpoint 0 (pending r ?t) = pending r ?t"
    using u by (simp add: Endpoint_SelectEndpoint_def uenum_write_def pending_def upd_ep_def)
  have r: "ctl_ready (?t\<lparr>USB_ControlRequest := r\<rparr>)" "bmRequestType (USB_ControlRequest (?t\<lparr>USB_ControlRequest := r\<rparr>)) AND REQDIR_DEVICETOHOST = 0"
    using assms(1,2) N by (simp_all add: REQDIR_DEVICETOHOST_def)
  have "USB_Device_ClearSetFeature w (pending r t) =
      Endpoint_ClearStatusStage w (Endpoint_ClearSETUP (Endpoint_SelectEndpoint ENDPOINT_CONTROLEP
        (Endpoint_SelectEndpoint N (upd_ep (unat N) (ep_halt ?on) (pending r t)))))"
    unfolding h [symmetric] using assms(2,4,6)
    by (simp add: USB_Device_ClearSetFeature_def Let_def reqtype_defs ENDPOINT_EPNUM_MASK_def assms(5) [symmetric]
        ENDPOINT_CONTROLEP_def)
  also have "\<dots> = Endpoint_ClearStatusStage w (?t\<lparr>USB_ControlRequest := r\<rparr>)"
    using N assms(1) by (simp add: ENDPOINT_CONTROLEP_def upd_ep_pending b ClearSETUP_pending)
  also have "\<dots> = Inr ((), Endpoint_ClearIN (?t\<lparr>USB_ControlRequest := r\<rparr>), w)"
    by (rule status_in [OF r])
  finally show ?thesis .
qed

text \<open>C15: SetFeature and ClearFeature for the halt of an enabled endpoint \<open>n\<close> other than the control
  endpoint: setting stalls it, clearing ends the stall, empties it and resets its data toggle; an
  endpoint that is not enabled is left alone, and so is every other endpoint, but the request is
  acknowledged in every case and the endpoint selected before is selected again.\<close>

theorem USB_endpoint_halt:
  assumes "com_ok t" "length p = 8" "p ! 0 = 2" "p ! 1 \<in> {REQ_ClearFeature, REQ_SetFeature}"
    "(ucast (wValue (request_of_bytes p)) :: u8) = FEATURE_ENDPOINT_HALT"
    "n = unat ((ucast (wIndex (request_of_bytes p)) :: u8) AND 7)" "n \<in> {1..6}" "\<not> bit (r_ueconx (eps t n)) STALLRQC"
  shows "\<exists>s'. USB_COM_vect app w (host_setup p t) = Inr ((), s', w) \<and> UENUM s' = UENUM t \<and>
    r_tx (eps s' 0) = Some [] \<and> (\<forall>k. k \<noteq> 0 \<and> k \<noteq> n \<longrightarrow> eps s' k = eps t k) \<and>
    (if \<not> bit (r_ueconx (eps t n)) EPEN then eps s' n = eps t n
     else if p ! 1 = REQ_SetFeature then bit (r_ueconx (eps s' n)) STALLRQ
     else \<not> bit (r_ueconx (eps s' n)) STALLRQ \<and> r_bank (eps s' n) = [] \<and> r_tx (eps s' n) = None \<and> \<not> r_dtog (eps s' n))"
proof -
  let ?r = "request_of_bytes p" and ?t0 = "Endpoint_SelectEndpoint 0 t" and ?on = "bRequest (request_of_bytes p) = REQ_SetFeature"
  let ?N = "(ucast (wIndex ?r) :: u8) AND 7"
  let ?s1 = "(upd_ep n (ep_halt ?on) ?t0)\<lparr>USB_ControlRequest := ?r\<rparr>"
  note ok = com_okD [OF assms(1)]
  have r: "bmRequestType ?r = 2" "bRequest ?r = p ! 1" using assms(3) by (simp_all add: request_of_bytes_def)
  have n: "n \<noteq> 0" "?N \<noteq> 0" "unat ?N < 7" using assms(6,7) by (auto simp: unat_eq_0)
  have run: "USB_Device_ClearSetFeature w (pending ?r ?t0) = Inr ((), Endpoint_ClearIN ?s1, w)"
    using halt_run [OF ok(2) r(1) _ assms(5) refl n(2,3)] r(2) assms(4) by (simp add: assms(6))
  have d: "dispatch app w (pending ?r ?t0) = Some (USB_Device_ClearSetFeature w (pending ?r ?t0))"
    using r assms(4) by (auto simp: dispatch_def Let_def req_defs reqtype_defs)
  have s1: "ctl_ready ?s1" using ok(2) n by simp
  note e = ClearIN_eps [OF s1]
  have "\<not> bit (r_ueintx (eps ?s1 (unat (UENUM t)))) RXSTPI"
    using ok(5) by (auto simp: ep_halt_effect(4))
  then have f: "\<not> bit (r_ueintx (eps (Endpoint_ClearIN ?s1) (unat (UENUM t)))) RXSTPI"
    by (auto simp: e(1))
  have "USB_COM_vect app w (host_setup p t) = Inr ((), Endpoint_SelectEndpoint (UENUM t) (Endpoint_ClearIN ?s1), w)"
    using dispatch_done [OF assms(1,2) d [unfolded run] ClearIN_idle(6) [OF s1] f] .
  then show ?thesis
    using ok(4) n e assms(8) r(2) ep_halt_effect(1-3) [of "eps t n"]
    by (intro exI [of _ "Endpoint_SelectEndpoint (UENUM t) (Endpoint_ClearIN ?s1)"]) auto
qed

section \<open>Reports\<close>

text \<open>The data a report request asks for.\<close>

definition report :: "usb_request \<Rightarrow> 'a usb_dev_scheme \<Rightarrow> u8 list option" where
  "report r t =
     (if bRequest r = REQ_GetConfiguration \<and> bmRequestType r = 0x80 then Some [USB_ConfigurationNumber t]
      else if bRequest r = REQ_GetStatus \<and> bmRequestType r = 0x80 then
        Some [of_bool (USB_CurrentlySelfPowered t) + 2 * of_bool (USB_RemoteWakeupEnabled t), 0]
      else if bRequest r = REQ_GetStatus \<and> bmRequestType r = 0x82 then
        Some [of_bool (bit (r_ueconx (eps t (unat ((ucast (wIndex r) :: u8) AND 7)))) STALLRQ), 0]
      else None)"

lemma push_with_bank:
  assumes "ctl_ready s" "length b < 8"
  shows "Endpoint_Write_Byte x (with_bank b s) = with_bank (b @ [x]) s"
  using assms
  by (simp add: Endpoint_ops_cur upd_cur_def with_bank_def upd_ep_upd_ep ctl_ready_def)
    (simp add: upd_ep_def ep_push_def ctl_idle_def)

lemma write_report:
  assumes "ctl_ready s"
  shows "Endpoint_Write_Byte x s = with_bank [x] s" "Endpoint_Write_Word_LE (ucast x) s = with_bank [x, 0] s"
proof -
  have s: "with_bank [] s = s" using assms by (intro with_bank_same) (simp add: ctl_ready_def ctl_idle_def)
  have z: "(ucast (drop_bit 8 (ucast x :: u16)) :: u8) = 0"
    by (intro bit_eqI) (auto simp: bit_simps dest: bit_imp_le_length)
  have y: "(ucast ((ucast x :: u16) AND 0xFF) :: u8) = x"
    by (subst ucast_and_mask8) (intro bit_eqI, auto simp: bit_simps)
  show 1: "Endpoint_Write_Byte x s = with_bank [x] s"
    using push_with_bank [OF assms, of "[]" x] s by simp
  show "Endpoint_Write_Word_LE (ucast x) s = with_bank [x, 0] s"
    using push_with_bank [OF assms, of "[x]" 0] 1
    by (simp add: Endpoint_Write_Word_LE_def z y Endpoint_Write_Byte_def)
qed

text \<open>GetConfiguration and the two GetStatus requests send the configuration number, the power and
  remote wake-up flags, or the stall flag of the endpoint named in the request, to a host that
  collects the packet and sends its status packet, and leave the device as it was.\<close>

lemma USB_reports:
  assumes "com_ok t" "length p = 8" "report (request_of_bytes p) t = Some b"
  shows "USB_COM_vect app (collect 0 # deliver 0 [] # w) (host_setup p t) =
    Inr ((), (add_sent [b] t)\<lparr>USB_ControlRequest := request_of_bytes p\<rparr>, w)"
proof -
  let ?r = "request_of_bytes p" and ?t0 = "Endpoint_SelectEndpoint 0 t"
  let ?s1 = "?t0\<lparr>USB_ControlRequest := ?r\<rparr>" and ?w = "collect 0 # deliver 0 [] # w"
  note ok = com_okD [OF assms(1)]
  have s1: "ctl_ready ?s1" using ok(2) by simp
  have a: "add_sent [b] ?s1 = (add_sent [b] ?t0)\<lparr>USB_ControlRequest := ?r\<rparr>" by (simp add: add_sent_def upd_ep_def)
  have in_dir: "bmRequestType ?r AND REQDIR_DEVICETOHOST \<noteq> 0" and short: "length b < 8"
    using assms(3) by (auto simp: report_def REQDIR_DEVICETOHOST_def split: if_splits)
  have fin: "Endpoint_ClearStatusStage ?w (Endpoint_ClearIN (with_bank b ?s1)) = Inr ((), (add_sent [b] ?t0)\<lparr>USB_ControlRequest := ?r\<rparr>, w)"
    using status_out [OF s1 short] in_dir by (simp add: a)
  note wr = write_report [OF s1]
  have flags: "(if x then FEATURE_SELFPOWERED_ENABLED else 0) OR (if y then FEATURE_REMOTE_WAKEUP_ENABLED else 0) =
      of_bool x + 2 * of_bool y" for x y
    by (simp add: FEATURE_SELFPOWERED_ENABLED_def FEATURE_REMOTE_WAKEUP_ENABLED_def)
  have pend: "USB_CurrentlySelfPowered (pending ?r ?t0) = USB_CurrentlySelfPowered t"
    "USB_RemoteWakeupEnabled (pending ?r ?t0) = USB_RemoteWakeupEnabled t"
    by (simp_all add: pending_def upd_ep_def Endpoint_SelectEndpoint_def uenum_write_def)
  have conf: "USB_ConfigurationNumber ?s1 = USB_ConfigurationNumber t"
    by (simp add: Endpoint_SelectEndpoint_def uenum_write_def)
  consider "bRequest ?r = REQ_GetConfiguration" "bmRequestType ?r = 0x80"
    | "bRequest ?r = REQ_GetStatus" "bmRequestType ?r = 0x80"
    | "bRequest ?r = REQ_GetStatus" "bmRequestType ?r = 0x82"
    using assms(3) by (auto simp: report_def split: if_splits)
  then have "dispatch app ?w (pending ?r ?t0) = Some (Inr ((), (add_sent [b] ?t0)\<lparr>USB_ControlRequest := ?r\<rparr>, w))"
  proof cases
    case 1
    then have "b = [USB_ConfigurationNumber t]" using assms(3) by (simp add: report_def)
    then show ?thesis
      using 1 fin wr(1) [of "USB_ConfigurationNumber t"] conf
      by (simp add: dispatch_def req_defs reqtype_defs USB_Device_GetConfiguration_def Let_def ClearSETUP_pending [OF ok(2)])
  next
    case 2
    then have "b = [of_bool (USB_CurrentlySelfPowered t) + 2 * of_bool (USB_RemoteWakeupEnabled t), 0]"
      using assms(3) by (simp add: report_def req_defs)
    then show ?thesis
      using 2 fin wr(2) [of "of_bool (USB_CurrentlySelfPowered t) + 2 * of_bool (USB_RemoteWakeupEnabled t)"]
      by (simp add: dispatch_def req_defs reqtype_defs USB_Device_GetStatus_def Let_def flags pend ClearSETUP_pending [OF ok(2)])
  next
    case 3
    let ?N = "ucast (wIndex ?r AND 0xFF) :: u8"
    have N: "?N = ucast (wIndex ?r)" by (rule ucast_and_mask8)
    have "r_ueconx (eps (pending ?r ?t0) k) = r_ueconx (eps t k)" for k
      by (simp add: pending_def upd_ep_def)
    then have st: "Endpoint_IsStalled (Endpoint_SelectEndpoint ?N (pending ?r ?t0)) =
        bit (r_ueconx (eps t (unat ((ucast (wIndex ?r) :: u8) AND 7)))) STALLRQ"
      by (simp add: Endpoint_flags N)
    have bk: "Endpoint_SelectEndpoint ENDPOINT_CONTROLEP (Endpoint_SelectEndpoint ?N (pending ?r ?t0)) = pending ?r ?t0"
      by (simp add: ENDPOINT_CONTROLEP_def Endpoint_SelectEndpoint_def uenum_write_def pending_def upd_ep_def)
    have "b = [of_bool (bit (r_ueconx (eps t (unat ((ucast (wIndex ?r) :: u8) AND 7)))) STALLRQ), 0]"
      using assms(3) 3 by (simp add: report_def req_defs)
    then show ?thesis
      using 3 fin wr(2) [of "of_bool (bit (r_ueconx (eps t (unat ((ucast (wIndex ?r) :: u8) AND 7)))) STALLRQ)"]
      by (simp add: dispatch_def req_defs reqtype_defs USB_Device_GetStatus_def Let_def st bk ClearSETUP_pending [OF ok(2)]
          del: Endpoint_SelectEndpoint_twice)
  qed
  then show ?thesis by (rule dispatch_idle [OF assms(1,2)])
qed


section \<open>Instances\<close>

text \<open>A device with its second endpoint enabled and selected; an application with one descriptor.\<close>

definition com_demo :: usb_dev where
  "com_demo = ctl_demo\<lparr>UENUM := 2, eps := (eps ctl_demo)(2 := ep_none\<lparr>r_ueconx := 1, r_uecfg0x := 0x80\<rparr>)\<rparr>"

definition app_demo :: "usb_dev app" where
  "app_demo = \<lparr>app_config = Inr, app_unhandled = (\<lambda>_ _. Inl Hang),
     app_descriptor = (\<lambda>v i. if v = 0x300 then ([4, 3, 9, 4], 4) else ([], 0))\<rparr>"

lemma com_demo_ok: "com_ok com_demo"
  by (simp add: com_ok_def com_demo_def ctl_open_def ctl_ready_def ctl_demo_def ctl_idle_def dev_reset_def hw_reset_def
      usb_hw.defs ep_none_def ep_is_control_def ep_is_in_def ep_size_def reg_bits device_state_defs
      Endpoint_SelectEndpoint_def uenum_write_def cur_def)

lemma USB_SetAddress_after_status_instance:
  "USB_COM_vect app_demo [collect 0] (host_setup [0, 5, 42, 0, 0, 0, 0, 0] com_demo) =
      Inr ((), (add_sent [[]] com_demo)\<lparr>USB_ControlRequest := request_of_bytes [0, 5, 42, 0, 0, 0, 0, 0], UDADDR := 0xAA,
        USB_DeviceState := DEVICE_STATE_Addressed\<rparr>, [])"
  using USB_SetAddress_after_status [OF com_demo_ok, of "[0, 5, 42, 0, 0, 0, 0, 0]" 42 app_demo 0 "[]"]
  by (simp add: req_defs request_of_bytes_def ADDEN_def)

theorem USB_GetDescriptor_delivers_witness:
  "USB_COM_vect app_demo [collect 0, deliver 0 []] (host_setup [0x80, 6, 0, 3, 0, 0, 255, 0] com_demo) =
      Inr ((), (add_sent [[4, 3, 9, 4]] com_demo)\<lparr>USB_ControlRequest := request_of_bytes [0x80, 6, 0, 3, 0, 0, 255, 0]\<rparr>, [])"
proof -
  let ?p = "[0x80, 6, 0, 3, 0, 0, 255, 0] :: u8 list"
  have r: "wValue (request_of_bytes ?p) = 0x300" "wIndex (request_of_bytes ?p) = 0" "wLength (request_of_bytes ?p) = 255"
    by (simp_all add: request_of_bytes_def)
  have pr: "length ?p = 8" "?p ! 0 = 0x80 \<or> ?p ! 0 = 0x81" "?p ! 1 = REQ_GetDescriptor"
    "app_descriptor app_demo (wValue (request_of_bytes ?p)) (ucast (wIndex (request_of_bytes ?p))) = ([4, 3, 9, 4], 4)"
    "(4 :: u16) \<noteq> NO_DESCRIPTOR" "unat (4 :: u16) \<le> length [4, 3, 9, 4 :: u8]" "wLength (request_of_bytes ?p) \<noteq> 0"
    "4 = min (unat (4 :: u16)) (unat (wLength (request_of_bytes ?p)))" "[[4, 3, 9, 4]] = packets8 (take 4 [4, 3, 9, 4])"
    by (simp_all add: r app_demo_def NO_DESCRIPTOR_def REQ_GetDescriptor_def packets8.simps [of "[4, 3, 9, 4]"])
  from USB_GetDescriptor_delivers [OF com_demo_ok pr, of "[]"] show ?thesis by simp
qed

theorem USB_refused_request_stalls_witness:
  "USB_COM_vect app_demo [] (host_setup [0, 9, 2, 0, 0, 0, 0, 0] com_demo) =
    Inr ((), (upd_ep 0 (\<lambda>ep. ueconx_write (set_bit STALLRQ (r_ueconx ep)) ep) com_demo)\<lparr>
      USB_ControlRequest := request_of_bytes [0, 9, 2, 0, 0, 0, 0, 0]\<rparr>, [])"
  using com_demo_ok
  by (rule USB_refused_request_stalls) (simp_all add: refused_def request_of_bytes_def req_defs)

theorem USB_endpoint_halt_witness:
  "\<exists>s'. USB_COM_vect app_demo [] (host_setup [2, 3, 0, 0, 2, 0, 0, 0] com_demo) = Inr ((), s', []) \<and> UENUM s' = 2 \<and>
    bit (r_ueconx (eps s' 2)) STALLRQ"
proof -
  let ?p = "[2, 3, 0, 0, 2, 0, 0, 0] :: u8 list"
  have "(ucast (wValue (request_of_bytes ?p)) :: u8) = FEATURE_ENDPOINT_HALT"
    "2 = unat ((ucast (wIndex (request_of_bytes ?p)) :: u8) AND 7)"
    by (simp_all add: request_of_bytes_def FEATURE_ENDPOINT_HALT_def)
  from USB_endpoint_halt [OF com_demo_ok _ _ _ this, of app_demo "[]"]
  show ?thesis by (auto simp: req_defs com_demo_def ep_none_def ueconx_bits)
qed

lemma USB_reports_instance:
  "USB_COM_vect app_demo [collect 0, deliver 0 []] (host_setup [0x82, 0, 0, 0, 0x82, 0, 2, 0] com_demo) =
    Inr ((), (add_sent [[0, 0]] com_demo)\<lparr>USB_ControlRequest := request_of_bytes [0x82, 0, 0, 0, 0x82, 0, 2, 0]\<rparr>, [])"
  using com_demo_ok
  by (rule USB_reports) (simp_all add: report_def request_of_bytes_def req_defs com_demo_def ep_none_def STALLRQ_def bit_1_iff)

end
