(* ===== verification/GadgetUsb.thy ===== *)
theory GadgetUsb
  imports StoreSpec Enumeration
begin

text \<open>
  The gadget on the bus: its configuration by the host, the requests it cannot take, the board's
  LED, and its initialisation.
\<close>

section \<open>Configuration\<close>

lemma BytesToEPSizeMask_9: "Endpoint_BytesToEPSizeMask 9 = Inr (push_bit 4 1)"
proof -
  have "epsize_loop (Suc (Suc k)) 0 8 9 = Inr 1" for k by simp
  from this [of 15] show ?thesis
    by (simp add: Endpoint_BytesToEPSizeMask_def epsize_fuel_def EPSIZE0_def del: epsize_loop.simps)
qed

lemma configure_endpoints:
  "Endpoint_ConfigureEndpoint BULK_IN_EPNUM EP_TYPE_BULK ENDPOINT_DIR_IN BULK_IN_EPSIZE ENDPOINT_BANK_SINGLE h =
     Endpoint_ConfigureEndpoint 1 2 1 2 0 h"
  "Endpoint_ConfigureEndpoint 1 2 1 2 0 h = Inr (True, (upd_ep 1 (ep_configured 1 0x81 2) h)\<lparr>UENUM := 1\<rparr>)"
  "Endpoint_ConfigureEndpoint 2 2 0 2 0 h = Inr (True, (upd_ep 2 (ep_configured 2 0x80 2) h)\<lparr>UENUM := 2\<rparr>)"
  "Endpoint_ConfigureEndpoint 3 2 0 9 0 h = Inr (True, (upd_ep 3 (ep_configured 3 0x80 18) h)\<lparr>UENUM := 3\<rparr>)"
proof -
  have a: "bit (2 :: u8) ALLOC" "bit (18 :: u8) ALLOC" by (simp_all add: ALLOC_def)
  then have ok: "bit (r_uesta0x (ep_configured n c 2 ep)) CFGOK" "bit (r_uesta0x (ep_configured n c 18 ep)) CFGOK" for n c ep
    by (simp_all add: ep_configured_simps [OF a(1)] ep_configured_simps [OF a(2)] ep_max_def EPSIZE0_def)
  show "Endpoint_ConfigureEndpoint 1 2 1 2 0 h = Inr (True, (upd_ep 1 (ep_configured 1 0x81 2) h)\<lparr>UENUM := 1\<rparr>)"
    using Endpoint_ConfigureEndpoint_Prv_eq [of 1 "0x81" 2 h] ok
    by (simp add: Endpoint_ConfigureEndpoint_def BytesToEPSizeMask_8 EPTYPE0_def ALLOC_def)
  show "Endpoint_ConfigureEndpoint 2 2 0 2 0 h = Inr (True, (upd_ep 2 (ep_configured 2 0x80 2) h)\<lparr>UENUM := 2\<rparr>)"
    using Endpoint_ConfigureEndpoint_Prv_eq [of 2 "0x80" 2 h] ok
    by (simp add: Endpoint_ConfigureEndpoint_def BytesToEPSizeMask_8 EPTYPE0_def ALLOC_def)
  show "Endpoint_ConfigureEndpoint 3 2 0 9 0 h = Inr (True, (upd_ep 3 (ep_configured 3 0x80 18) h)\<lparr>UENUM := 3\<rparr>)"
    using Endpoint_ConfigureEndpoint_Prv_eq [of 3 "0x80" 18 h] ok
    by (simp add: Endpoint_ConfigureEndpoint_def BytesToEPSizeMask_9 EPTYPE0_def ALLOC_def)
  show "Endpoint_ConfigureEndpoint BULK_IN_EPNUM EP_TYPE_BULK ENDPOINT_DIR_IN BULK_IN_EPSIZE ENDPOINT_BANK_SINGLE h =
     Endpoint_ConfigureEndpoint 1 2 1 2 0 h"
    by (simp add: BULK_IN_EPNUM_def EP_TYPE_BULK_def ENDPOINT_DIR_IN_def BULK_IN_EPSIZE_def ENDPOINT_BANK_SINGLE_def EPDIR_def)
qed

lemma ep_configured_ok:
  "in_ep_ok (ep_configured 1 0x81 2 ep)" "r_tx (ep_configured 1 0x81 2 ep) = None"
  "out_ep_ok 2 (ep_configured 2 0x80 2 ep)" "out_packet (ep_configured 2 0x80 2 ep) = None"
  "out_ep_ok 9 (ep_configured 3 0x80 18 ep)" "out_packet (ep_configured 3 0x80 18 ep) = None"
proof -
  have a: "bit (2 :: u8) ALLOC" "bit (18 :: u8) ALLOC" by (simp_all add: ALLOC_def)
  show "in_ep_ok (ep_configured 1 0x81 2 ep)" "r_tx (ep_configured 1 0x81 2 ep) = None"
    "out_ep_ok 2 (ep_configured 2 0x80 2 ep)" "out_packet (ep_configured 2 0x80 2 ep) = None"
    "out_ep_ok 9 (ep_configured 3 0x80 18 ep)" "out_packet (ep_configured 3 0x80 18 ep) = None"
    by (simp_all add: in_ep_ok_def out_ep_ok_def out_packet_def ep_configured_simps [OF a(1)] ep_configured_simps [OF a(2)] ep_is_control_def ep_is_in_def
        ep_size_def ep_max_def bit_exp_iff EPTYPE0_def EPDIR_def EPSIZE0_def)
qed

text \<open>What the LED code may change: the direction register of port D, its output, and the flag.\<close>

definition led_part :: "gadget \<Rightarrow> gadget" where
  "led_part g = ((\<lambda>g. LED_OFF (LED_ON g)) ^^ 5) (LED_CONFIG g)"

lemma led_ops_frame [simp]:
  "eps (LED_CONFIG g) = eps g" "USB_DeviceState (LED_CONFIG g) = USB_DeviceState g" "g_blobs (LED_CONFIG g) = g_blobs g"
  "g_state (LED_CONFIG g) = g_state g" "UENUM (LED_CONFIG g) = UENUM g" "uninit k (LED_CONFIG g) = uninit k g"
  "eps (LED_OFF g) = eps g" "USB_DeviceState (LED_OFF g) = USB_DeviceState g" "g_blobs (LED_OFF g) = g_blobs g"
  "g_state (LED_OFF g) = g_state g" "UENUM (LED_OFF g) = UENUM g" "uninit k (LED_OFF g) = uninit k g"
  "eps (LED_ON g) = eps g" "USB_DeviceState (LED_ON g) = USB_DeviceState g" "g_blobs (LED_ON g) = g_blobs g"
  "g_state (LED_ON g) = g_state g" "UENUM (LED_ON g) = UENUM g" "uninit k (LED_ON g) = uninit k g"
  by (simp_all add: LED_CONFIG_def LED_OFF_def LED_ON_def) (simp add: on_ports_def uninit_def)

lemma led_part_frame [simp]:
  "eps (led_part g) = eps g" "USB_DeviceState (led_part g) = USB_DeviceState g" "g_blobs (led_part g) = g_blobs g"
  "g_state (led_part g) = g_state g" "UENUM (led_part g) = UENUM g" "uninit k (led_part g) = uninit k g"
  by (simp_all add: led_part_def eval_nat_numeral)

lemma ConfigurationChanged_eq:
  "EVENT_USB_Device_ConfigurationChanged g = Inr (led_part
     ((upd_ep 3 (ep_configured 3 0x80 18) (upd_ep 2 (ep_configured 2 0x80 2) (upd_ep 1 (ep_configured 1 0x81 2) g)))\<lparr>UENUM := 3\<rparr>))"
proof -
  have c: "Endpoint_ConfigureEndpoint BULK_OUT_EPNUM EP_TYPE_BULK ENDPOINT_DIR_OUT BULK_OUT_EPSIZE ENDPOINT_BANK_SINGLE h =
      Endpoint_ConfigureEndpoint 2 2 0 2 0 h"
    "Endpoint_ConfigureEndpoint COMMAND_EPNUM EP_TYPE_BULK ENDPOINT_DIR_OUT COMMAND_EPSIZE ENDPOINT_BANK_SINGLE h =
      Endpoint_ConfigureEndpoint 3 2 0 9 0 h" for h :: gadget
    by (simp_all add: epnum_defs EP_TYPE_BULK_def ENDPOINT_DIR_OUT_def epsize_defs ENDPOINT_BANK_SINGLE_def)
  show ?thesis
    by (simp add: EVENT_USB_Device_ConfigurationChanged_def c configure_endpoints Let_def led_part_def)
      (simp add: upd_ep_def)
qed

text \<open>When the host selects configuration 1, the interrupt returns with the gadget configured: its
  three endpoints are set up as its descriptors announce them and empty, its command, index and
  storage are as before, the status packet waits for the host, and the endpoint selected before is
  selected again.\<close>

lemma SetConfiguration_configures:
  assumes "com_ok g" "length p = 8" "p ! 0 = 0" "p ! 1 = REQ_SetConfiguration" "p ! 2 = 1" "blobs_ok (g_blobs g)"
  shows "\<exists>g'. USB_COM_vect gadget_app w (host_setup p g) = Inr ((), g', w) \<and> configured g' \<and>
    sp_in (abs_gadget g') = None \<and> sp_out (abs_gadget g') = None \<and> sp_req (abs_gadget g') = None \<and>
    g_state g' = g_state g \<and> g_blobs g' = g_blobs g \<and> UENUM g' = UENUM g \<and> r_tx (eps g' 0) = Some []"
proof -
  let ?r = "request_of_bytes p" and ?t0 = "Endpoint_SelectEndpoint 0 g"
  note ok = com_okD [OF assms(1)]
  have v: "(ucast (wValue ?r) :: u8) = 1"
  proof -
    have "(ucast (le_word [x, y] :: u16) :: u8) = x" for x y
      by (intro bit_eqI) (auto simp: bit_simps)
    with assms(5) show ?thesis by (simp add: request_of_bytes_def del: le_word.simps)
  qed
  let ?s1 = "?t0\<lparr>USB_ControlRequest := ?r, USB_ConfigurationNumber := 1\<rparr>"
  let ?s2 = "(Endpoint_ClearIN ?s1)\<lparr>USB_DeviceState := DEVICE_STATE_Configured\<rparr>"
  let ?s3 = "led_part ((upd_ep 3 (ep_configured 3 0x80 18) (upd_ep 2 (ep_configured 2 0x80 2) (upd_ep 1 (ep_configured 1 0x81 2) ?s2)))\<lparr>UENUM := 3\<rparr>)"
  have s1: "ctl_ready ?s1" "bmRequestType (USB_ControlRequest ?s1) AND REQDIR_DEVICETOHOST = 0"
    using ok(2) assms(3) by (simp_all add: ctl_ready_def request_of_bytes_def)
  have n: "USB_ConfigurationNumber (Endpoint_ClearIN ?s1) = 1"
    by (simp add: Endpoint_ops_cur upd_cur_def upd_ep_def)
  have run: "USB_Device_SetConfiguration gadget_app w (pending ?r ?t0) = Inr ((), ?s3, w)"
    by (simp add: USB_Device_SetConfiguration_def FIXED_NUM_CONFIGURATIONS_def v Let_def ClearSETUP_pending [OF ok(2)]
        status_in [OF s1] n gadget_app_def ConfigurationChanged_eq)
  have d: "dispatch gadget_app w (pending ?r ?t0) = Some (USB_Device_SetConfiguration gadget_app w (pending ?r ?t0))"
    using assms(3,4) by (simp add: dispatch_def Let_def request_of_bytes_def req_defs reqtype_defs)
  note e = ClearIN_eps(1) [OF s1(1)]
  have e3: "eps ?s3 k = (if k = 3 then ep_configured 3 0x80 18 (eps g 3) else if k = 2 then ep_configured 2 0x80 2 (eps g 2)
      else if k = 1 then ep_configured 1 0x81 2 (eps g 1) else if k = 0 then (eps g 0)\<lparr>r_ueintx := 0, r_tx := Some []\<rparr> else eps g k)" for k
    by (simp add: e)
  have a: "bit (2 :: u8) ALLOC" "bit (18 :: u8) ALLOC" by (simp_all add: ALLOC_def)
  have nosetup: "\<not> bit (r_ueintx (ep_configured 3 0x80 18 ep)) RXSTPI" "\<not> bit (r_ueintx (ep_configured 2 0x80 2 ep)) RXSTPI"
    "\<not> bit (r_ueintx (ep_configured 1 0x81 2 ep)) RXSTPI" for ep
    by (simp_all add: ep_configured_simps [OF a(1)] ep_configured_simps [OF a(2)] bit_exp_iff)
  have f: "\<not> Endpoint_IsSETUPReceived ?s3" "\<not> bit (r_ueintx (eps ?s3 (unat (UENUM g)))) RXSTPI"
    using nosetup ok(5) by (simp_all only: Endpoint_flags cur_def e3) simp_all
  let ?g' = "Endpoint_SelectEndpoint (UENUM g) ?s3"
  have "USB_COM_vect gadget_app w (host_setup p g) = Inr ((), ?g', w)"
    using dispatch_done [OF assms(1,2) d [unfolded run] f] .
  moreover have g: "g_blobs ?g' = g_blobs g" "g_state ?g' = g_state g" "USB_DeviceState ?g' = DEVICE_STATE_Configured"
    by (simp_all add: Endpoint_ops_cur)
  moreover have e: "eps ?g' 0 = (eps g 0)\<lparr>r_ueintx := 0, r_tx := Some []\<rparr>" "eps ?g' 1 = ep_configured 1 0x81 2 (eps g 1)"
    "eps ?g' 2 = ep_configured 2 0x80 2 (eps g 2)" "eps ?g' 3 = ep_configured 3 0x80 18 (eps g 3)"
    by (simp_all only: eps_Endpoint_SelectEndpoint e3) simp_all
  moreover have "UENUM ?g' = UENUM g" using ok(4) by (simp add: Endpoint_SelectEndpoint_def uenum_write_def)
  moreover have "configured ?g'"
    using g e assms(6) ep_configured_ok by (simp only: configured_def)
  moreover have "sp_in (abs_gadget ?g') = None" "sp_out (abs_gadget ?g') = None" "sp_req (abs_gadget ?g') = None"
    using e ep_configured_ok by (simp_all only: abs_gadget_def spec.simps)
  ultimately show ?thesis by (intro exI [of _ ?g']) simp
qed


section \<open>Requests the gadget does not know\<close>

lemma dispatch_None:
  assumes "bmRequestType r \<notin> {0x00, 0x02, 0x80, 0x81, 0x82} \<or>
    bRequest r \<notin> {REQ_GetStatus, REQ_ClearFeature, REQ_SetFeature, REQ_SetAddress, REQ_GetDescriptor,
      REQ_GetConfiguration, REQ_SetConfiguration}"
  shows "dispatch app w (pending r t) = None"
  using assms by (auto simp: dispatch_def Let_def reqtype_defs)

text \<open>A control request of any class, vendor or interface type, or with a request code the library has
  no handler for, never returns from the interrupt: the gadget's handler for it blinks for ever, so
  nothing answers the host and no other interrupt is served.\<close>

lemma unhandled_request_hangs:
  assumes "com_ok g" "length p = 8"
    "p ! 0 \<notin> {0x00, 0x02, 0x80, 0x81, 0x82} \<or>
     p ! 1 \<notin> {REQ_GetStatus, REQ_ClearFeature, REQ_SetFeature, REQ_SetAddress, REQ_GetDescriptor,
       REQ_GetConfiguration, REQ_SetConfiguration}"
  shows "USB_COM_vect gadget_app w (host_setup p g) = Inl Hang"
proof -
  let ?r = "request_of_bytes p" and ?t0 = "Endpoint_SelectEndpoint 0 g"
  note ok = com_okD [OF assms(1)]
  have none: "dispatch gadget_app w (pending ?r ?t0) = None"
    using assms(3) by (intro dispatch_None) (simp add: request_of_bytes_def)
  have h: "Endpoint_SelectEndpoint 0 (host_setup p g) = host_setup p ?t0"
    by (simp add: host_setup_def upd_ep_def Endpoint_SelectEndpoint_def uenum_write_def)
  have i: "Endpoint_IsSETUPReceived (host_setup p ?t0)"
    by (simp add: Endpoint_flags host_setup_def cur_def)
  have "USB_DeviceState (host_setup p g) \<noteq> DEVICE_STATE_Unattached"
    using ok(3) by (simp add: host_setup_def)
  moreover have "app_unhandled gadget_app v x = Inl Hang" for v x
    by (simp add: gadget_app_def EVENT_USB_Device_UnhandledControlRequest_def)
  ultimately show ?thesis
    using i
    by (simp add: USB_COM_vect_def USB_USBTask_def USB_DeviceTask_def Let_def h ENDPOINT_CONTROLEP_def
        ProcessControlRequest_eq [OF ok(1) assms(2)] none)
qed

section \<open>The LED\<close>

definition led_dark :: "gadget \<Rightarrow> bool" where
  "led_dark g \<longleftrightarrow> config_led g \<noteq> 0 \<and> \<not> bit (DDRD (g_ports g)) 6"

lemma DDRD_Display_Init: "DDRD (Display_Init s) = 7"
  unfolding Display_Init_def Let_def port_ddr.simps(2) [symmetric] port_ddr_fold by simp

lemma led_dark_ops:
  "led_dark g \<Longrightarrow> LED_CONFIG g = g" "led_dark (LED_ON g) = led_dark g" "led_dark (LED_OFF g) = led_dark g"
  by (simp_all add: led_dark_def LED_CONFIG_def LED_ON_def LED_OFF_def on_ports_def)

text \<open>Initialisation configures the LED pin as an output and then sets the direction register of its
  port as a whole for the display, which makes the pin an input again, while the flag says it is
  configured; from then on no configuration event makes it an output, so the LED stays dark.\<close>

lemma Init_LED_dark:
  "(\<forall>g' w'. Init w g = Inr ((), g', w') \<longrightarrow> led_dark g') \<and>
   (led_dark h \<longrightarrow> (\<exists>h'. EVENT_USB_Device_ConfigurationChanged h = Inr h' \<and> led_dark h'))"
proof (intro conjI allI impI)
  fix g' w' assume "Init w g = Inr ((), g', w')"
  then obtain s where "g' = on_ports Display_Init (LED_OFF (LED_CONFIG s))"
    by (auto simp: Init_def Let_def bind_run_Inr_iff)
  then show "led_dark g'"
    by (simp add: led_dark_def DDRD_Display_Init) (simp add: on_ports_def LED_OFF_def LED_CONFIG_def)
next
  assume "led_dark h"
  then have "led_dark (upd_ep n f h)" for n f by (simp add: led_dark_def upd_ep_def)
  have d: "led_dark ((upd_ep k3 f3 (upd_ep k2 f2 (upd_ep k1 f1 h)))\<lparr>UENUM := 3\<rparr>)" for k3 f3 k2 f2 k1 f1
    using \<open>led_dark h\<close> by (simp add: led_dark_def upd_ep_def)
  show "\<exists>h'. EVENT_USB_Device_ConfigurationChanged h = Inr h' \<and> led_dark h'"
    unfolding ConfigurationChanged_eq led_part_def
    by (simp add: led_dark_ops(1) [OF d] led_dark_ops(2,3) d eval_nat_numeral)
qed

section \<open>Instances\<close>

text \<open>A gadget after its bus reset and address, and one that is configured and holds a read command
  for index 1.\<close>

definition gadget_demo :: gadget where
  "gadget_demo = usb_dev.extend com_demo (gadget.fields \<lparr>PORTB = 0, PORTD = 0, PORTF = 0, DDRB = 0, DDRD = 0, DDRF = 0\<rparr>
     blobs_init 0 \<lparr>st_command = CMD_NULL, st_index = 0\<rparr> (\<lambda>_. 0) 0 False 0)"

definition gadget_run :: gadget where
  "gadget_run = (upd_ep 3 (ep_configured 3 0x80 18) (upd_ep 2 (ep_configured 2 0x80 2) (upd_ep 1 (ep_configured 1 0x81 2) gadget_demo)))
     \<lparr>USB_DeviceState := DEVICE_STATE_Configured, g_state := \<lparr>st_command = CMD_READ, st_index = 1\<rparr>\<rparr>"

lemma gadget_demo_fields:
  "eps gadget_demo = eps com_demo" "UENUM gadget_demo = UENUM com_demo" "USB_DeviceState gadget_demo = USB_DeviceState com_demo"
  "g_blobs gadget_demo = blobs_init"
  by (simp_all add: gadget_demo_def usb_dev.defs gadget.defs)

lemma com_ok_cong:
  "com_ok t \<Longrightarrow> eps t' = eps t \<Longrightarrow> UENUM t' = UENUM t \<Longrightarrow> USB_DeviceState t' = USB_DeviceState t \<Longrightarrow> com_ok t'"
  by (simp add: com_ok_def ctl_open_def ctl_ready_def cur_def Endpoint_SelectEndpoint_def uenum_write_def)

lemma gadget_demo_ok: "com_ok gadget_demo" "blobs_ok (g_blobs gadget_demo)"
  by (rule com_ok_cong [OF com_demo_ok]) (simp_all add: gadget_demo_fields blobs_ok_init)

lemma gadget_run_configured: "configured gadget_run"
  using gadget_demo_ok(2) ep_configured_ok by (simp add: configured_def gadget_run_def)

lemma SetConfiguration_configures_instance:
  "\<exists>g'. USB_COM_vect gadget_app [] (host_setup [0, 9, 1, 0, 0, 0, 0, 0] gadget_demo) = Inr ((), g', []) \<and> configured g'"
  using SetConfiguration_configures [OF gadget_demo_ok(1), of "[0, 9, 1, 0, 0, 0, 0, 0]" "[]"] gadget_demo_ok(2)
  by (auto simp: REQ_SetConfiguration_def)

lemma unhandled_request_hangs_instance:
  "USB_COM_vect gadget_app [] (host_setup [0xC0, 1, 0, 0, 0, 0, 0, 0] gadget_demo) = Inl Hang"
  by (rule unhandled_request_hangs [OF gadget_demo_ok(1)]) simp_all

lemma Init_LED_dark_instance:
  "\<exists>h'. EVENT_USB_Device_ConfigurationChanged (gadget_demo\<lparr>config_led := 1\<rparr>) = Inr h' \<and> led_dark h'"
proof -
  have "led_dark (gadget_demo\<lparr>config_led := 1\<rparr>)"
    by (simp add: led_dark_def gadget_demo_def usb_dev.defs gadget.defs)
  then show ?thesis
    using Init_LED_dark [of "[]" gadget_demo "gadget_demo\<lparr>config_led := 1\<rparr>"] by blast
qed

theorem StoreTask_refines_witness:
  "\<exists>g'. StoreTask [] gadget_run = Inr ((), g', []) \<and> configured g' \<and> sp_in (abs_gadget g') = Some [0, 0]"
proof -
  have "r_tx (eps gadget_run 1) = None" "\<not> bit (r_ueintx (eps gadget_run 2)) RXOUTI" "\<not> bit (r_ueintx (eps gadget_run 3)) RXOUTI"
    using ep_configured_ok(2,4,6) [of "eps gadget_demo 1"] ep_configured_ok(4) [of "eps gadget_demo 2"] ep_configured_ok(6) [of "eps gadget_demo 3"]
    by (auto simp: gadget_run_def out_packet_def)
  moreover have "g_blobs gadget_run = blobs_init" "g_state gadget_run = \<lparr>st_command = CMD_READ, st_index = 1\<rparr>"
    by (simp_all add: gadget_run_def gadget_demo_fields)
  moreover have "teensy_read 1 j blobs_init = Inr (ENOERR, 0)" for j
    by (simp add: teensy_read_valid blobs_ok_init) (simp add: blobs_init_def MAX_BLOBS_def)
  ultimately obtain a where "spec_task (abs_gadget gadget_run) = Inr a" "sp_in a = Some [0, 0]"
    by (auto simp: spec_task_def spec_in_def spec_out_def spec_cmd_def abs_gadget_def out_packet_def numeral_2_eq_2)
  then show ?thesis
    using StoreTask_refines [OF gadget_run_configured, of "[]"] by auto
qed

end
