(* ===== verification/SysTheorems.thy ===== *)
theory SysTheorems
  imports SysModel GadgetUsb
begin

text \<open>
  The store as its users see it: requests made through the driver of the host, with the gadget making
  at least one round of its main loop before each try of a transfer, behave as on an array.
\<close>

section \<open>Requests of a user process\<close>

datatype host_op = HWrite u64 u16 | HRead u64 | HErase u64

text \<open>A user's buffer holds the command structure when the request is made.\<close>

definition poke :: "u64 \<Rightarrow> command \<Rightarrow> 'g sys \<Rightarrow> 'g sys" where
  "poke buf c s = s\<lparr>sys_mem := mem_write buf (command_bytes c) (sys_mem s)\<rparr>"

definition peek :: "u64 \<Rightarrow> 'g sys \<Rightarrow> u16" where
  "peek buf s = c_data (command_of_bytes (map the (mem_read (sys_mem s) buf sizeof_command)))"

text \<open>The result of the call, and what the data field of the buffer holds after a read.\<close>

fun host_call :: "'g dev_if \<Rightarrow> u64 \<Rightarrow> host_op \<Rightarrow> 'g sys \<Rightarrow> (int \<times> u16 option) \<times> 'g sys" where
  "host_call D buf (HWrite i d) s =
     (case host_teensy_write (sysK D) teensy_here buf 1 (poke buf \<lparr>c_cmd_type = CMD_STORE, c_index = i, c_data = d\<rparr> s) of
        (r, s) \<Rightarrow> ((r, None), s))"
| "host_call D buf (HRead i) s =
     (case host_teensy_read (sysK D) teensy_here buf 1 (poke buf \<lparr>c_cmd_type = CMD_READ, c_index = i, c_data = 0\<rparr> s) of
        (r, s) \<Rightarrow> ((r, Some (peek buf s)), s))"
| "host_call D buf (HErase i) s =
     (case host_teensy_ioctl (sysK D) 0 teensy_here (TEENSY_IOCERASE_IDX (sysK D)) i s of
        (r, s) \<Rightarrow> ((r, None), s))"

fun host_calls :: "'g dev_if \<Rightarrow> u64 \<Rightarrow> host_op list \<Rightarrow> 'g sys \<Rightarrow> (int \<times> u16 option) list \<times> 'g sys" where
  "host_calls D buf [] s = ([], s)"
| "host_calls D buf (x # xs) s =
     (case host_call D buf x s of (r, s) \<Rightarrow> (case host_calls D buf xs s of (rs, s) \<Rightarrow> (r # rs, s)))"

section \<open>What they promise\<close>

text \<open>The store: an array of 256 values, and what each request returns and does.\<close>

fun store_call :: "host_op \<Rightarrow> (nat \<Rightarrow> u16) \<Rightarrow> (int \<times> u16 option) \<times> (nat \<Rightarrow> u16)" where
  "store_call (HWrite i d) m = ((2, None), m(unat i := d))"
| "store_call (HRead i) m = ((2, Some (m (unat i))), m)"
| "store_call (HErase i) m = ((0, None), m(unat i := 0))"

fun store_calls :: "host_op list \<Rightarrow> (nat \<Rightarrow> u16) \<Rightarrow> (int \<times> u16 option) list \<times> (nat \<Rightarrow> u16)" where
  "store_calls [] m = ([], m)"
| "store_calls (x # xs) m = (case store_call x m of (r, m) \<Rightarrow> (case store_calls xs m of (rs, m) \<Rightarrow> (r # rs, m)))"

fun op_index :: "host_op \<Rightarrow> u64" where
  "op_index (HWrite i d) = i"
| "op_index (HRead i) = i"
| "op_index (HErase i) = i"

section \<open>User memory\<close>

definition buf_ok :: "u64 \<Rightarrow> (u64 \<Rightarrow> u8 option) \<Rightarrow> bool" where
  "buf_ok a m \<longleftrightarrow> (\<forall>i < sizeof_command. m (a + of_nat i) \<noteq> None)"

lemma mem_room_buf: "buf_ok a m \<Longrightarrow> n \<le> sizeof_command \<Longrightarrow> mem_room m a n = n"
  by (auto simp: mem_room_def mem_read_def buf_ok_def takeWhile_eq_all_conv [THEN iffD2])

lemma mem_write_other:
  "(\<forall>i < length bs. x \<noteq> a + of_nat i) \<Longrightarrow> mem_write a bs m x = m x"
proof (induction bs arbitrary: a m)
  case Nil
  then show ?case by simp
next
  case (Cons b bs)
  have "\<forall>i < length bs. x \<noteq> a + 1 + of_nat i"
    using Cons.prems by (auto simp: add.assoc dest: spec [of _ "Suc i" for i])
  moreover have "x \<noteq> a" using Cons.prems by (auto dest: spec [of _ 0])
  ultimately show ?case using Cons.IH by simp
qed

lemma mem_write_read:
  "length bs < 2 ^ 64 \<Longrightarrow> (\<forall>i < length bs. m (a + of_nat i) \<noteq> None) \<Longrightarrow>
     mem_read (mem_write a bs m) a (length bs) = map Some bs"
proof (induction bs arbitrary: a m)
  case Nil
  then show ?case by (simp add: mem_read_def)
next
  case (Cons b bs)
  have a: "m a \<noteq> None" using Cons.prems(2) by (auto dest: spec [of _ 0])
  have n: "(1 :: u64) + of_nat i \<noteq> 0" if "i < length bs" for i
  proof -
    have "(of_nat (Suc i) :: u64) \<noteq> 0"
      using that Cons.prems(1) by (auto simp: word_of_nat_eq_0_iff simp del: of_nat_Suc dest: dvd_imp_le)
    then show ?thesis by simp
  qed
  then have o: "\<forall>i < length bs. a \<noteq> a + 1 + of_nat i" by (simp add: add.assoc)
  have m: "\<forall>i < length bs. (m(a \<mapsto> b)) (a + 1 + of_nat i) \<noteq> None"
    using Cons.prems(2) by (auto simp: add.assoc dest: spec [of _ "Suc i" for i])
  have "mem_read (mem_write (a + 1) bs (m(a \<mapsto> b))) (a + 1) (length bs) = map Some bs"
    using Cons.prems(1) by (intro Cons.IH m) simp
  then show ?case
    using a mem_write_other [OF o, of "m(a \<mapsto> b)"]
    by (simp add: mem_read_def upt_conv_Cons map_Suc_upt [symmetric] algebra_simps comp_def del: upt_Suc)
qed

section \<open>States between requests\<close>

text \<open>The machine holds the array \<open>m\<close>: nothing is pending, and a read command it may carry is in range.\<close>

definition holds :: "(nat \<Rightarrow> u16) \<Rightarrow> blob list \<Rightarrow> bool" where
  "holds m bs \<longleftrightarrow> blobs_ok bs \<and> (\<forall>i < 256. blob_get bs i = m i)"

definition in_range :: "spec \<Rightarrow> bool" where
  "in_range a \<longleftrightarrow> (sp_command a = CMD_READ \<longrightarrow> unat (sp_index a) < 256)"

definition idle :: "(nat \<Rightarrow> u16) \<Rightarrow> spec \<Rightarrow> bool" where
  "idle m a \<longleftrightarrow> in_range a \<and> sp_out a = None \<and> sp_req a = None \<and> holds m (sp_blobs a)"

text \<open>It will hold \<open>m\<close> after its next round: the data of a store, or an erase command, may be pending.\<close>

definition pend :: "(nat \<Rightarrow> u16) \<Rightarrow> spec \<Rightarrow> bool" where
  "pend m a \<longleftrightarrow> idle m a \<or>
     in_range a \<and> (\<exists>d. sp_out a = Some (le_bytes 2 d) \<and> sp_req a = None \<and> sp_command a = CMD_STORE \<and>
        unat (sp_index a) < 256 \<and> blobs_ok (sp_blobs a) \<and> holds m (blob_put (unat (sp_index a)) d (sp_blobs a))) \<or>
     in_range a \<and> (\<exists>i. sp_out a = None \<and> sp_req a = Some (usb_cmd_bytes \<lparr>uc_cmd_type = CMD_DELETE, uc_index = i\<rparr>) \<and>
        unat i < 256 \<and> blobs_ok (sp_blobs a) \<and> holds m (blob_put (unat i) 0 (sp_blobs a)))"

lemma holds_put: "holds m bs \<Longrightarrow> i < 256 \<Longrightarrow> holds (m(i := d)) (blob_put i d bs)"
  by (simp add: holds_def blobs.inv_put blobs.get_put)

definition fills :: "(nat \<Rightarrow> u16) \<Rightarrow> spec \<Rightarrow> u8 list \<Rightarrow> bool" where
  "fills m a p \<longleftrightarrow> (\<forall>q. sp_in a = Some q \<longrightarrow> p = q) \<and>
     (sp_in a = None \<longrightarrow> p = (if sp_command a = CMD_READ then le_bytes 2 (m (unat (sp_index a))) else []))"

lemma spec_in_fills:
  assumes "in_range a" "blobs_ok (sp_blobs a)"
  obtains p ports where "spec_in a = Inr (a\<lparr>sp_in := Some p, sp_ports := ports\<rparr>)" "fills (blob_get (sp_blobs a)) a p"
proof (cases "sp_in a")
  case (Some q)
  have s: "spec_in a = Inr (a\<lparr>sp_in := Some q, sp_ports := sp_ports a\<rparr>)"
    unfolding spec_in_def using Some by (intro trans [OF if_P] arg_cong [of _ _ Inr] spec.equality) simp_all
  show ?thesis by (rule that [OF s]) (simp add: fills_def Some)
next
  case None
  show ?thesis
  proof (cases "sp_command a = CMD_READ")
    case True
    have "spec_in a = Inr (a\<lparr>sp_in := Some (le_bytes 2 (blob_get (sp_blobs a) (unat (sp_index a)))),
        sp_ports := out_hex (blob_get (sp_blobs a) (unat (sp_index a))) 0 (sp_ports a)\<rparr>)"
      using None True assms by (simp add: spec_in_def teensy_read_valid in_range_def blob_get_def)
    with True None that show ?thesis by (simp add: fills_def)
  next
    case False
    have s: "spec_in a = Inr (a\<lparr>sp_in := Some [], sp_ports := sp_ports a\<rparr>)"
      using None False by (simp add: spec_in_def)
    show ?thesis by (rule that [OF s]) (simp add: fills_def None False)
  qed
qed

lemma fills_holds:
  assumes "holds m bs" "in_range a" "fills (blob_get bs) a p"
  shows "fills m a p"
  using assms by (auto simp: fills_def holds_def in_range_def)

lemma spec_task_idle:
  assumes "idle m a"
  obtains p ports where "spec_task a = Inr (a\<lparr>sp_in := Some p, sp_ports := ports\<rparr>)" "fills m a p"
proof -
  have i: "in_range a" "blobs_ok (sp_blobs a)" "holds m (sp_blobs a)" using assms by (simp_all add: idle_def holds_def)
  from spec_in_fills [OF i(1,2)] obtain p ports where p: "spec_in a = Inr (a\<lparr>sp_in := Some p, sp_ports := ports\<rparr>)"
    "fills (blob_get (sp_blobs a)) a p" .
  have "spec_task a = Inr (a\<lparr>sp_in := Some p, sp_ports := ports\<rparr>)"
    using p(1) assms by (simp add: spec_task_def spec_out_def spec_cmd_def idle_def)
  then show ?thesis using fills_holds [OF i(3,1) p(2)] by (rule that)
qed

lemma idle_frame: "idle m (a\<lparr>sp_in := x, sp_ports := y\<rparr>) = idle m a"
  by (simp add: idle_def in_range_def)

text \<open>A store's data and an erase command take effect in the next round; so do the commands of a store
  and of a read, which also empty the data endpoints.\<close>

lemma spec_task_pend:
  assumes "pend m a"
  obtains a' where "spec_task a = Inr a'" "idle m a'"
proof -
  consider "idle m a"
    | d where "in_range a" "sp_out a = Some (le_bytes 2 d)" "sp_req a = None" "sp_command a = CMD_STORE"
        "unat (sp_index a) < 256" "blobs_ok (sp_blobs a)" "holds m (blob_put (unat (sp_index a)) d (sp_blobs a))"
    | i where "in_range a" "sp_out a = None" "sp_req a = Some (usb_cmd_bytes \<lparr>uc_cmd_type = CMD_DELETE, uc_index = i\<rparr>)"
        "unat i < 256" "blobs_ok (sp_blobs a)" "holds m (blob_put (unat i) 0 (sp_blobs a))"
    using assms unfolding pend_def by blast
  then show ?thesis
  proof cases
    case 1
    then obtain p ports where "spec_task a = Inr (a\<lparr>sp_in := Some p, sp_ports := ports\<rparr>)" by (rule spec_task_idle)
    with that 1 show ?thesis by (simp add: idle_frame)
  next
    case (2 d)
    from spec_in_fills [OF 2(1,6)] obtain p ports where p: "spec_in a = Inr (a\<lparr>sp_in := Some p, sp_ports := ports\<rparr>)" .
    with 2 have "spec_task a = Inr (a\<lparr>sp_in := Some p, sp_ports := out_hex d 1 ports, sp_out := None,
        sp_blobs := blob_put (unat (sp_index a)) d (sp_blobs a)\<rparr>)"
      by (simp add: spec_task_def spec_out_def spec_cmd_def teensy_store_valid blob_put_def)
    with that 2 show ?thesis by (simp add: idle_def in_range_def)
  next
    case (3 i)
    from spec_in_fills [OF 3(1,5)] obtain p ports where p: "spec_in a = Inr (a\<lparr>sp_in := Some p, sp_ports := ports\<rparr>)" .
    with 3 have "spec_task a = Inr (a\<lparr>sp_ports := ports, sp_blobs := blob_put (unat i) 0 (sp_blobs a),
        sp_command := CMD_DELETE, sp_index := i, sp_in := None, sp_out := None, sp_req := None\<rparr>)"
      by (simp add: spec_task_def spec_out_def spec_cmd_def teensy_delete_valid blob_put_def)
    with that 3 show ?thesis by (simp add: idle_def in_range_def)
  qed
qed

lemma spec_task_cmd:
  assumes "idle m a" "uc_cmd_type c \<noteq> CMD_DELETE" "unat (uc_index c) < 256"
  obtains a' where "spec_task (a\<lparr>sp_req := Some (usb_cmd_bytes c)\<rparr>) = Inr a'" "idle m a'"
    "sp_command a' = uc_cmd_type c" "sp_index a' = uc_index c" "sp_in a' = None"
proof -
  let ?a = "a\<lparr>sp_req := Some (usb_cmd_bytes c)\<rparr>"
  have "in_range ?a" "blobs_ok (sp_blobs ?a)" using assms by (simp_all add: idle_def holds_def in_range_def)
  from spec_in_fills [OF this] obtain p ports where p: "spec_in ?a = Inr (?a\<lparr>sp_in := Some p, sp_ports := ports\<rparr>)" .
  with assms have "spec_task ?a = Inr (a\<lparr>sp_ports := ports, sp_command := uc_cmd_type c, sp_index := uc_index c,
      sp_in := None, sp_out := None, sp_req := None\<rparr>)"
    by (simp add: spec_task_def spec_out_def spec_cmd_def idle_def)
  with that assms show ?thesis by (simp add: idle_def in_range_def)
qed

section \<open>Rounds and transfers\<close>

lemma d_round_spec: "spec_task a = Inr a' \<Longrightarrow> d_round spec_if a = Some a'"
  by (simp add: spec_if_def)

lemma rounds_inv:
  assumes "\<And>a. P a \<Longrightarrow> \<exists>a'. d_round D a = Some a' \<and> P a'" "P a"
  obtains a' where "d_rounds D n a = Some a'" "P a'"
proof -
  have "\<exists>a'. d_rounds D n a = Some a' \<and> P a'"
    using assms(2)
  proof (induction n arbitrary: a)
    case 0
    then show ?case by simp
  next
    case (Suc n)
    then show ?case using assms(1) by fastforce
  qed
  with that show ?thesis by blast
qed

lemma rounds_inv_Suc:
  assumes "d_round D a = Some b" "P b" "\<And>a. P a \<Longrightarrow> \<exists>a'. d_round D a = Some a' \<and> P a'" "1 \<le> n"
  obtains a' where "d_rounds D n a = Some a'" "P a'"
proof (cases n)
  case (Suc k)
  from rounds_inv [of P D b k, OF assms(3,2)] obtain a' where "d_rounds D k b = Some a'" "P a'" by blast
  with that Suc assms(1) show ?thesis by simp
qed (use assms(4) in simp)

text \<open>The machine has taken command \<open>c\<close> and its IN endpoint is empty or holds the packet for it.\<close>

definition serving :: "(nat \<Rightarrow> u16) \<Rightarrow> usb_cmd \<Rightarrow> spec \<Rightarrow> bool" where
  "serving m c a \<longleftrightarrow> idle m a \<and> sp_command a = uc_cmd_type c \<and> sp_index a = uc_index c \<and>
     (uc_cmd_type c = CMD_READ \<longrightarrow> sp_in a = None \<or> sp_in a = Some (le_bytes 2 (m (unat (uc_index c)))))"

definition served :: "(nat \<Rightarrow> u16) \<Rightarrow> usb_cmd \<Rightarrow> spec \<Rightarrow> bool" where
  "served m c a \<longleftrightarrow> serving m c a \<and> sp_in a \<noteq> None"

lemma serving_round:
  assumes "serving m c a"
  obtains a' where "d_round spec_if a = Some a'" "served m c a'"
proof -
  have i: "idle m a" using assms by (simp add: serving_def)
  from spec_task_idle [OF i] obtain p ports where p: "spec_task a = Inr (a\<lparr>sp_in := Some p, sp_ports := ports\<rparr>)" "fills m a p" .
  have "served m c (a\<lparr>sp_in := Some p, sp_ports := ports\<rparr>)"
    using assms p(2) by (auto simp: served_def serving_def idle_frame fills_def)
  with that p show ?thesis by (simp add: d_round_spec)
qed

lemma pend_rounds:
  assumes "pend m a" "1 \<le> n"
  obtains a' where "d_rounds spec_if n a = Some a'" "idle m a'"
proof -
  from spec_task_pend [OF assms(1)] obtain b where b: "spec_task a = Inr b" "idle m b" .
  have "\<exists>a'. d_round spec_if a = Some a' \<and> idle m a'" if "idle m a" for a
    using that spec_task_pend [of m a] d_round_spec by (metis pend_def)
  from rounds_inv_Suc [of spec_if a b "idle m", OF d_round_spec [OF b(1)] b(2) this assms(2)] that
  show ?thesis by blast
qed

lemma cmd_rounds:
  assumes "idle m a" "uc_cmd_type c \<noteq> CMD_DELETE" "unat (uc_index c) < 256" "1 \<le> n"
  obtains a' where "d_rounds spec_if n (a\<lparr>sp_req := Some (usb_cmd_bytes c)\<rparr>) = Some a'" "serving m c a'"
proof -
  from spec_task_cmd [OF assms(1-3)] obtain b where b: "spec_task (a\<lparr>sp_req := Some (usb_cmd_bytes c)\<rparr>) = Inr b"
    "serving m c b" by (metis serving_def)
  have "\<exists>a'. d_round spec_if a = Some a' \<and> serving m c a'" if "serving m c a" for a
    using serving_round [OF that] by (metis served_def)
  from rounds_inv_Suc [of spec_if _ b "serving m c", OF d_round_spec [OF b(1)] b(2) this assms(4)] that
  show ?thesis by blast
qed

lemma serving_rounds:
  assumes "serving m c a" "1 \<le> n"
  obtains a' where "d_rounds spec_if n a = Some a'" "served m c a'"
proof -
  from serving_round [OF assms(1)] obtain b where b: "d_round spec_if a = Some b" "served m c b" .
  have "\<exists>a'. d_round spec_if a = Some a' \<and> served m c a'" if "served m c a" for a
    using that serving_round [of m c a] by (metis served_def)
  from rounds_inv_Suc [of spec_if a b "served m c", OF b this assms(2)] that show ?thesis by blast
qed

section \<open>One request\<close>

lemma transfer_snd:
  assumes "d_rounds spec_if n a = Some a'" "d_out spec_if k p a' = Some b"
  shows "transfer spec_if (\<lambda>g. map_option (Pair ()) (d_out spec_if k p g)) (n # ns) (Some a) = (Some (), ns, Some b)"
  using assms by simp

text \<open>Between two requests.\<close>

definition ready :: "u64 \<Rightarrow> (nat \<Rightarrow> u16) \<Rightarrow> spec sys \<Rightarrow> bool" where
  "ready buf m s \<longleftrightarrow> (\<exists>a. sys_dev s = Some a \<and> pend m a) \<and> sys_sem s = 1 \<and> buf_ok buf (sys_mem s)"

definition fair :: "nat list \<Rightarrow> nat \<Rightarrow> bool" where
  "fair ns k \<longleftrightarrow> 3 * k \<le> length ns \<and> (\<forall>n \<in> set ns. 1 \<le> n)"

lemma fair_Cons:
  assumes "fair ns (Suc k)"
  obtains n1 n2 n3 ms where "ns = n1 # n2 # n3 # ms" "1 \<le> n1" "1 \<le> n2" "1 \<le> n3" "fair ms k" "fair (n3 # ms) k" "fair (n2 # n3 # ms) k"
  using assms by (cases ns; cases "tl ns"; cases "tl (tl ns)") (auto simp: fair_def)

lemma buf_write:
  assumes "buf_ok buf m"
  shows "mem_read (mem_write buf (command_bytes c) m) buf sizeof_command = map Some (command_bytes c)"
    "buf_ok buf (mem_write buf (command_bytes c) m)"
proof -
  show r: "mem_read (mem_write buf (command_bytes c) m) buf sizeof_command = map Some (command_bytes c)"
    using mem_write_read [of "command_bytes c" m buf] assms by (simp add: buf_ok_def sizeof_command_def)
  have "mem_write buf (command_bytes c) m (buf + of_nat i) \<noteq> None" if "i < sizeof_command" for i
  proof -
    have "mem_read (mem_write buf (command_bytes c) m) buf sizeof_command ! i = Some (command_bytes c ! i)"
      unfolding r using that by (simp add: sizeof_command_def)
    with that show ?thesis by (simp add: mem_read_def)
  qed
  then show "buf_ok buf (mem_write buf (command_bytes c) m)" by (simp add: buf_ok_def)
qed

lemma from_user_buf:
  assumes "buf_ok buf (sys_mem s)"
  shows "k_from_user (sysK D) buf sizeof_command (poke buf c s) = (0, command_bytes c, poke buf c s)"
  using buf_write [OF assms, of c] mem_room_buf [of buf "mem_write buf (command_bytes c) (sys_mem s)" sizeof_command]
  by (simp add: sysK_def poke_def sizeof_command_def comp_def)

lemma to_user_buf:
  assumes "buf_ok buf (sys_mem s)"
  shows "k_to_user (sysK D) buf (command_bytes c) s = (0, s\<lparr>sys_mem := mem_write buf (command_bytes c) (sys_mem s)\<rparr>)"
  using mem_room_buf [OF assms, of sizeof_command] by (simp add: sysK_def sizeof_command_def)

lemma sysK_sem:
  "sys_sem s = 1 \<Longrightarrow> k_down (sysK D) s = (0, s\<lparr>sys_sem := 0\<rparr>)"
  "k_up (sysK D) s = s\<lparr>sys_sem := sys_sem s + 1\<rparr>"
  by (simp_all add: sysK_def)

lemma snd_ok:
  assumes "sys_dev s = Some a" "sys_sched s = n # ns" "d_rounds spec_if n a = Some a'" "d_out spec_if (unat (ep AND 15)) p a' = Some b"
  shows "k_snd (sysK spec_if) ep p s = (0, Some (int (length p)), s\<lparr>sys_dev := Some b, sys_sched := ns\<rparr>)"
  using assms by (simp add: sysK_def)

lemma ep_numbers: "unat (td_cmd_endpoint teensy_here AND 15) = 3" "unat (td_write_endpoint teensy_here AND 15) = 2"
  "unat (td_read_endpoint teensy_here AND 15) = 1"
  by simp_all

lemma snd_cmd_ok:
  assumes "sys_dev s = Some a" "pend m a" "sys_sched s = n # ns" "1 \<le> n"
  obtains a' where "idle m a'"
    "k_snd (sysK spec_if) (td_cmd_endpoint teensy_here) p s =
      (0, Some (int (length p)), s\<lparr>sys_dev := Some (a'\<lparr>sp_req := Some p\<rparr>), sys_sched := ns\<rparr>)"
proof -
  from pend_rounds [OF assms(2,4)] obtain a' where a': "d_rounds spec_if n a = Some a'" "idle m a'" .
  then have "d_out spec_if (unat (td_cmd_endpoint teensy_here AND 15)) p a' = Some (a'\<lparr>sp_req := Some p\<rparr>)"
    by (simp add: spec_if_def ep_numbers idle_def)
  with that a' snd_ok [OF assms(1,3) a'(1)] show ?thesis by blast
qed

lemma write_run:
  assumes "sys_dev s = Some a" "sys_sem s = 1" "buf_ok buf (sys_mem s)" "sys_sched s = n1 # n2 # ns"
    "d_rounds spec_if n1 a = Some a1" "sp_req a1 = None"
    "d_rounds spec_if n2 (a1\<lparr>sp_req := Some (usb_cmd_bytes \<lparr>uc_cmd_type = CMD_STORE, uc_index = i\<rparr>)\<rparr>) = Some a2" "sp_out a2 = None"
  obtains s' where "host_call spec_if buf (HWrite i d) s = ((2, None), s')" "sys_dev s' = Some (a2\<lparr>sp_out := Some (le_bytes 2 d)\<rparr>)"
    "sys_sched s' = ns" "sys_sem s' = 1" "buf_ok buf (sys_mem s')"
proof -
  let ?c = "\<lparr>c_cmd_type = CMD_STORE, c_index = i, c_data = d\<rparr>" and ?u = "\<lparr>uc_cmd_type = CMD_STORE, uc_index = i\<rparr>"
  let ?s1 = "(poke buf ?c s)\<lparr>sys_sem := 0\<rparr>"
  let ?s2 = "?s1\<lparr>sys_dev := Some (a1\<lparr>sp_req := Some (usb_cmd_bytes ?u)\<rparr>), sys_sched := n2 # ns\<rparr>"
  let ?s3 = "?s2\<lparr>sys_dev := Some (a2\<lparr>sp_out := Some (le_bytes 2 d)\<rparr>), sys_sched := ns, sys_sem := 1\<rparr>"
  have s1: "k_down (sysK spec_if) (poke buf ?c s) = (0, ?s1)"
    using assms(2) by (intro sysK_sem) (simp add: poke_def)
  have p: "?s1 = poke buf ?c (s\<lparr>sys_sem := 0\<rparr>)" by (simp add: poke_def)
  have fu: "k_from_user (sysK spec_if) buf sizeof_command ?s1 = (0, command_bytes ?c, ?s1)"
    unfolding p using assms(3) by (intro from_user_buf) simp
  have "d_out spec_if (unat (td_cmd_endpoint teensy_here AND 15)) (usb_cmd_bytes ?u) a1 = Some (a1\<lparr>sp_req := Some (usb_cmd_bytes ?u)\<rparr>)"
    using assms(6) by (simp add: spec_if_def ep_numbers)
  from snd_ok [of ?s1, OF _ _ assms(5) this] assms(1,4)
  have c: "k_snd (sysK spec_if) (td_cmd_endpoint teensy_here) (usb_cmd_bytes ?u) ?s1 = (0, Some 9, ?s2)" by (simp add: poke_def)
  have "d_out spec_if (unat (td_write_endpoint teensy_here AND 15)) (le_bytes 2 d) a2 = Some (a2\<lparr>sp_out := Some (le_bytes 2 d)\<rparr>)"
    using assms(8) by (simp add: spec_if_def ep_numbers)
  from snd_ok [of ?s2, OF _ _ assms(7) this] have s2: "k_snd (sysK spec_if) (td_write_endpoint teensy_here) (le_bytes 2 d) ?s2 =
      (0, Some 2, ?s2\<lparr>sys_dev := Some (a2\<lparr>sp_out := Some (le_bytes 2 d)\<rparr>), sys_sched := ns\<rparr>)"
    by simp
  have "host_call spec_if buf (HWrite i d) s = ((2, None), ?s3)"
    using s1 fu c s2 by (simp add: host_teensy_write_def Let_def stored_len_def sysK_sem(2) poke_def)
  then show ?thesis
    using that buf_write(2) [OF assms(3), of ?c] by (simp add: poke_def)
qed

lemma write_call:
  assumes "ready buf m s" "unat i < 256" "sys_sched s = n1 # n2 # ns" "1 \<le> n1" "1 \<le> n2"
  obtains s' where "host_call spec_if buf (HWrite i d) s = ((2, None), s')" "ready buf (m(unat i := d)) s'" "sys_sched s' = ns"
proof -
  let ?u = "\<lparr>uc_cmd_type = CMD_STORE, uc_index = i\<rparr>"
  obtain a where a: "sys_dev s = Some a" "pend m a" and u: "sys_sem s = 1" "buf_ok buf (sys_mem s)"
    using assms(1) by (auto simp: ready_def)
  from pend_rounds [OF a(2) assms(4)] obtain a1 where a1: "d_rounds spec_if n1 a = Some a1" "idle m a1" .
  have c: "uc_cmd_type ?u \<noteq> CMD_DELETE" "unat (uc_index ?u) < 256" using assms(2) by simp_all
  from cmd_rounds [OF a1(2) c assms(5)] obtain a2 where a2: "d_rounds spec_if n2 (a1\<lparr>sp_req := Some (usb_cmd_bytes ?u)\<rparr>) = Some a2"
    "serving m ?u a2" .
  have "sp_req a1 = None" "sp_out a2 = None" using a1(2) a2(2) by (simp_all add: serving_def idle_def)
  from write_run [OF a(1) u assms(3) a1(1) this(1) a2(1) this(2), of d] obtain s' where s':
    "host_call spec_if buf (HWrite i d) s = ((2, None), s')" "sys_dev s' = Some (a2\<lparr>sp_out := Some (le_bytes 2 d)\<rparr>)"
    "sys_sched s' = ns" "sys_sem s' = 1" "buf_ok buf (sys_mem s')" .
  have "pend (m(unat i := d)) (a2\<lparr>sp_out := Some (le_bytes 2 d)\<rparr>)"
    using a2(2) assms(2) holds_put [of m "sp_blobs a2" "unat i" d]
    by (auto simp: pend_def serving_def idle_def in_range_def holds_def)
  with that s' show ?thesis by (simp add: ready_def)
qed

lemma erase_call:
  assumes "ready buf m s" "unat i < 256" "sys_sched s = n1 # ns" "1 \<le> n1"
  obtains s' where "host_call spec_if buf (HErase i) s = ((0, None), s')" "ready buf (m(unat i := 0)) s'" "sys_sched s' = ns"
proof -
  obtain a where a: "sys_dev s = Some a" "pend m a" and u: "sys_sem s = 1" "buf_ok buf (sys_mem s)"
    using assms(1) by (auto simp: ready_def)
  let ?u = "\<lparr>uc_cmd_type = CMD_DELETE, uc_index = i\<rparr>"
  have "sys_dev (s\<lparr>sys_sem := 0\<rparr>) = Some a" "sys_sched (s\<lparr>sys_sem := 0\<rparr>) = n1 # ns" using a assms(3) by simp_all
  from snd_cmd_ok [OF this(1) a(2) this(2) assms(4)] obtain a1 where a1: "idle m a1"
    "k_snd (sysK spec_if) (td_cmd_endpoint teensy_here) (usb_cmd_bytes ?u) (s\<lparr>sys_sem := 0\<rparr>) =
      (0, Some (int (length (usb_cmd_bytes ?u))), s\<lparr>sys_sem := 0, sys_dev := Some (a1\<lparr>sp_req := Some (usb_cmd_bytes ?u)\<rparr>), sys_sched := ns\<rparr>)"
    by blast
  let ?s3 = "s\<lparr>sys_sem := 1, sys_dev := Some (a1\<lparr>sp_req := Some (usb_cmd_bytes ?u)\<rparr>), sys_sched := ns\<rparr>"
  have "host_call spec_if buf (HErase i) s = ((0, None), ?s3)"
    using a1(2) by (simp add: ioctl_erase [OF sysK_ioc] sysK_sem(1) [OF u(1)] sysK_sem(2))
  moreover have "pend (m(unat i := 0)) (a1\<lparr>sp_req := Some (usb_cmd_bytes ?u)\<rparr>)"
    using a1(1) assms(2) holds_put [of m "sp_blobs a1" "unat i" 0]
    by (auto simp: pend_def idle_def in_range_def holds_def)
  ultimately show ?thesis
    using that u by (simp add: ready_def)
qed

lemma transfer_in:
  assumes "idle m a" "uc_cmd_type c = CMD_READ" "unat (uc_index c) < 256" "1 \<le> n2" "1 \<le> n3"
  obtains a' ns' where "idle m a'" "ns' \<in> {n3 # ns, ns}"
    "transfer spec_if (d_in spec_if 1) (n2 # n3 # ns) (Some (a\<lparr>sp_req := Some (usb_cmd_bytes c)\<rparr>)) =
      (Some (le_bytes 2 (m (unat (uc_index c)))), ns', Some a')"
proof -
  from cmd_rounds [OF assms(1) _ assms(3,4)] assms(2) obtain b where
    b: "d_rounds spec_if n2 (a\<lparr>sp_req := Some (usb_cmd_bytes c)\<rparr>) = Some b" "serving m c b" by auto
  have took: "d_in spec_if 1 x = Some (le_bytes 2 (m (unat (uc_index c))), x\<lparr>sp_in := None\<rparr>)" "idle m (x\<lparr>sp_in := None\<rparr>)"
    if "served m c x" for x
    using that assms(2) by (auto simp: served_def serving_def spec_if_def idle_def in_range_def)
  show ?thesis
  proof (cases "sp_in b")
    case None
    then have n: "d_in spec_if 1 b = None" by (simp add: spec_if_def)
    from serving_rounds [OF b(2) assms(5)] obtain b' where b': "d_rounds spec_if n3 b = Some b'" "served m c b'" .
    show ?thesis
      using that [OF took(2) [OF b'(2)], of ns] b n b' took(1) [OF b'(2)] by simp
  next
    case (Some p)
    then have "served m c b" using b(2) by (simp add: served_def)
    then show ?thesis
      using that [OF took(2), of b "n3 # ns"] b took(1) [of b] by simp
  qed
qed

lemma read_call:
  assumes "ready buf m s" "unat i < 256" "sys_sched s = n1 # n2 # n3 # ns" "1 \<le> n1" "1 \<le> n2" "1 \<le> n3"
  obtains s' where "host_call spec_if buf (HRead i) s = ((2, Some (m (unat i))), s')" "ready buf m s'" "sys_sched s' \<in> {n3 # ns, ns}"
proof -
  obtain a where a: "sys_dev s = Some a" "pend m a" and u: "sys_sem s = 1" "buf_ok buf (sys_mem s)"
    using assms(1) by (auto simp: ready_def)
  let ?c = "\<lparr>c_cmd_type = CMD_READ, c_index = i, c_data = 0\<rparr>" and ?u = "\<lparr>uc_cmd_type = CMD_READ, uc_index = i\<rparr>"
  let ?s1 = "(poke buf ?c s)\<lparr>sys_sem := 0\<rparr>" and ?d = "m (unat i)"
  have s1: "k_down (sysK spec_if) (poke buf ?c s) = (0, ?s1)"
    using u by (intro sysK_sem) (simp add: poke_def)
  have p: "?s1 = poke buf ?c (s\<lparr>sys_sem := 0\<rparr>)" by (simp add: poke_def)
  have fu: "k_from_user (sysK spec_if) buf sizeof_command ?s1 = (0, command_bytes ?c, ?s1)"
    unfolding p using u by (intro from_user_buf) simp
  have "sys_dev ?s1 = Some a" "sys_sched ?s1 = n1 # n2 # n3 # ns" using a assms(3) by (simp_all add: poke_def)
  from snd_cmd_ok [OF this(1) a(2) this(2) assms(4)] obtain a1 where a1: "idle m a1"
    "k_snd (sysK spec_if) (td_cmd_endpoint teensy_here) (usb_cmd_bytes ?u) ?s1 =
      (0, Some 9, ?s1\<lparr>sys_dev := Some (a1\<lparr>sp_req := Some (usb_cmd_bytes ?u)\<rparr>), sys_sched := n2 # n3 # ns\<rparr>)"
    by (metis length_usb_cmd_bytes of_nat_numeral)
  let ?s2 = "?s1\<lparr>sys_dev := Some (a1\<lparr>sp_req := Some (usb_cmd_bytes ?u)\<rparr>), sys_sched := n2 # n3 # ns\<rparr>"
  have "uc_cmd_type ?u = CMD_READ" "unat (uc_index ?u) < 256" using assms(2) by simp_all
  from transfer_in [OF a1(1) this assms(5,6), of ns] obtain a2 ns' where a2: "idle m a2" "ns' \<in> {n3 # ns, ns}"
    "transfer spec_if (d_in spec_if 1) (n2 # n3 # ns) (Some (a1\<lparr>sp_req := Some (usb_cmd_bytes ?u)\<rparr>)) = (Some (le_bytes 2 ?d), ns', Some a2)"
    by auto
  then have s2: "k_rcv (sysK spec_if) (td_read_endpoint teensy_here) (le_bytes 2 0) ?s2 =
      (0, Some 2, le_bytes 2 ?d, ?s2\<lparr>sys_dev := Some a2, sys_sched := ns'\<rparr>)"
    by (simp add: sysK_def ep_numbers del: transfer.simps)
  let ?s3 = "?s2\<lparr>sys_dev := Some a2, sys_sched := ns'\<rparr>"
  have m3: "buf_ok buf (sys_mem ?s3)" using buf_write(2) [OF u(2), of ?c] by (simp add: poke_def)
  note tu = to_user_buf [OF m3, of spec_if "?c\<lparr>c_data := ?d\<rparr>"]
  let ?s4 = "?s3\<lparr>sys_mem := mem_write buf (command_bytes (?c\<lparr>c_data := ?d\<rparr>)) (sys_mem ?s3), sys_sem := 1\<rparr>"
  have r: "host_teensy_read (sysK spec_if) teensy_here buf 1 (poke buf ?c s) = (2, ?s4)"
    using host_teensy_read_ok [OF s1 fu _ _ _ tu, where n = 1 and t = teensy_here] a1(2) s2 by (simp add: sysK_sem(2))
  have "peek buf ?s4 = ?d"
    using buf_write(1) [OF m3, of "?c\<lparr>c_data := ?d\<rparr>"] by (simp add: peek_def comp_def)
  with r have "host_call spec_if buf (HRead i) s = ((2, Some ?d), ?s4)" by simp
  moreover have "ready buf m ?s4"
    using a2(1) buf_write(2) [OF m3, of "?c\<lparr>c_data := ?d\<rparr>"] by (auto simp: ready_def pend_def)
  ultimately show ?thesis using that a2(2) by simp
qed

section \<open>Sequences of requests\<close>

lemma call_ok:
  assumes "ready buf m s" "unat (op_index x) < 256" "fair (sys_sched s) (Suc k)"
  obtains s' where "host_call spec_if buf x s = (fst (store_call x m), s')" "ready buf (snd (store_call x m)) s'" "fair (sys_sched s') k"
proof -
  from fair_Cons [OF assms(3)] obtain n1 n2 n3 ms where f: "sys_sched s = n1 # n2 # n3 # ms" "1 \<le> n1" "1 \<le> n2" "1 \<le> n3"
    "fair ms k" "fair (n3 # ms) k" "fair (n2 # n3 # ms) k" .
  show ?thesis
  proof (cases x)
    case (HWrite i d)
    with assms(2) write_call [OF assms(1) _ f(1-3), of i d] that f(6) show ?thesis by (metis fst_conv snd_conv op_index.simps(1) store_call.simps(1))
  next
    case (HRead i)
    with assms(2) read_call [OF assms(1) _ f(1-4), of i] that f(5,6) show ?thesis
      by (metis fst_conv snd_conv op_index.simps(2) store_call.simps(2) insertE singletonD)
  next
    case (HErase i)
    with assms(2) erase_call [OF assms(1) _ f(1,2), of i] that f(7) show ?thesis by (metis fst_conv snd_conv op_index.simps(3) store_call.simps(3))
  qed
qed

lemma calls_ok:
  "ready buf m s \<Longrightarrow> \<forall>x \<in> set xs. unat (op_index x) < 256 \<Longrightarrow> fair (sys_sched s) (length xs) \<Longrightarrow>
     fst (host_calls spec_if buf xs s) = fst (store_calls xs m)"
proof (induction xs arbitrary: m s)
  case Nil
  then show ?case by simp
next
  case (Cons x xs)
  then obtain s' where s': "host_call spec_if buf x s = (fst (store_call x m), s')" "ready buf (snd (store_call x m)) s'"
    "fair (sys_sched s') (length xs)"
    using call_ok [of buf m s x "length xs"] by auto
  have "fst (host_calls spec_if buf xs s') = fst (store_calls xs (snd (store_call x m)))"
    using Cons.prems s' by (intro Cons.IH) simp_all
  with s'(1) show ?case
    by (cases "store_call x m"; cases "host_calls spec_if buf xs s'"; cases "store_calls xs (snd (store_call x m))") simp
qed

text \<open>The same requests on the gadget and on the machine.\<close>

abbreviation bus_rel :: "gadget sys \<Rightarrow> spec sys \<Rightarrow> bool" where
  "bus_rel \<equiv> sys_rel (dev_rel abs_gadget configured)"

definition sys_abs :: "gadget sys \<Rightarrow> spec sys" where
  "sys_abs s = \<lparr>sys_dev = map_option abs_gadget (sys_dev s), sys_sched = sys_sched s, sys_mem = sys_mem s, sys_sem = sys_sem s\<rparr>"

lemma bus_rel_abs: "sys_dev s = Some g \<Longrightarrow> configured g \<Longrightarrow> bus_rel s (sys_abs s)"
  by (simp add: sys_rel_def sys_abs_def dev_rel_def)

lemma host_call_sim:
  assumes "bus_rel s u"
  shows "rel_prod (=) bus_rel (host_call gadget_if buf x s) (host_call spec_if buf x u)"
proof -
  have p: "bus_rel (poke buf c s) (poke buf c u)" for c using assms by (simp add: sys_rel_def poke_def)
  have k: "peek buf s' = peek buf u'" if "bus_rel s' u'" for s' u'
    using that by (simp add: sys_rel_def peek_def)
  have e: "TEENSY_IOCERASE_IDX (sysK gadget_if) = TEENSY_IOCERASE_IDX (sysK spec_if)"
    by (simp add: TEENSY_IOCERASE_IDX_def on_bus.ops.ioc)
  show ?thesis
  proof (cases x)
    case (HWrite i d)
    show ?thesis unfolding HWrite host_call.simps
      by (rule case_prod_rel [OF on_bus.ops.write_sim [OF p]]) simp
  next
    case (HRead i)
    show ?thesis unfolding HRead host_call.simps
      by (rule case_prod_rel [OF on_bus.ops.read_sim [OF p]]) (simp add: k)
  next
    case (HErase i)
    show ?thesis unfolding HErase host_call.simps e
      by (rule case_prod_rel [OF on_bus.ops.ioctl_sim [OF assms]]) simp
  qed
qed

lemma host_calls_sim:
  "bus_rel s u \<Longrightarrow> rel_prod (=) bus_rel (host_calls gadget_if buf xs s) (host_calls spec_if buf xs u)"
proof (induction xs arbitrary: s u)
  case Nil
  then show ?case by simp
next
  case (Cons x xs)
  show ?case
    using host_call_sim [OF Cons.prems, of buf x] unfolding host_calls.simps
    by (rule case_prod_rel) (rule case_prod_rel [OF Cons.IH], simp_all)
qed

text \<open>A system with a configured gadget whose endpoints hold no packet of the host.\<close>

definition sys_quiet :: "u64 \<Rightarrow> gadget \<Rightarrow> gadget sys \<Rightarrow> bool" where
  "sys_quiet buf g s \<longleftrightarrow> sys_dev s = Some g \<and> configured g \<and> sys_sem s = 1 \<and> buf_ok buf (sys_mem s) \<and>
     out_packet (eps g 2) = None \<and> out_packet (eps g 3) = None \<and>
     (st_command (g_state g) = CMD_READ \<longrightarrow> unat (st_index (g_state g)) < 256)"

lemma sys_quiet_ready:
  "sys_quiet buf g s \<Longrightarrow> ready buf (blob_get (g_blobs g)) (sys_abs s)"
  by (simp add: sys_quiet_def ready_def sys_abs_def pend_def idle_def in_range_def abs_gadget_def holds_def configured_def)

text \<open>C1: any sequence of write, read and erase requests of a user, through the driver, the bus and the
  gadget's program, returns what the same sequence on an array of 256 values returns, if every index is
  in range, no transfer times out and the gadget makes a round of its main loop before each try of one.\<close>

theorem driver_is_an_array:
  assumes "sys_quiet buf g s" "\<forall>x \<in> set xs. unat (op_index x) < 256" "fair (sys_sched s) (length xs)"
  shows "fst (host_calls gadget_if buf xs s) = fst (store_calls xs (blob_get (g_blobs g)))"
proof -
  have "bus_rel s (sys_abs s)" using assms(1) by (intro bus_rel_abs [of s g]) (simp_all add: sys_quiet_def)
  from host_calls_sim [OF this, of buf xs]
  have "fst (host_calls gadget_if buf xs s) = fst (host_calls spec_if buf xs (sys_abs s))"
    by (auto elim: rel_prod.cases)
  also have "\<dots> = fst (store_calls xs (blob_get (g_blobs g)))"
    using assms sys_quiet_ready [OF assms(1)] by (intro calls_ok) (simp_all add: sys_abs_def)
  finally show ?thesis .
qed

section \<open>A race\<close>

lemma misdirected_spec:
  assumes "serving m \<lparr>uc_cmd_type = CMD_STORE, uc_index = j\<rparr> a" "unat j < 256" "sys_dev u = Some a"
    "sys_sem u = 1" "buf_ok buf (sys_mem u)" "sys_sched u = n # 0 # ns" "1 \<le> n"
  obtains u' b b' where "host_call spec_if buf (HWrite i d) u = ((2, None), u')" "sys_dev u' = Some b"
    "spec_task b = Inr b'" "holds (m(unat j := d)) (sp_blobs b')"
proof -
  let ?u = "\<lparr>uc_cmd_type = CMD_STORE, uc_index = i\<rparr>"
  from serving_rounds [OF assms(1,7)] obtain a1 where a1: "d_rounds spec_if n a = Some a1"
    "served m \<lparr>uc_cmd_type = CMD_STORE, uc_index = j\<rparr> a1" .
  then have i: "idle m a1" "sp_command a1 = CMD_STORE" "sp_index a1 = j" by (simp_all add: served_def serving_def)
  let ?a2 = "a1\<lparr>sp_req := Some (usb_cmd_bytes ?u)\<rparr>" and ?b = "a1\<lparr>sp_req := Some (usb_cmd_bytes ?u), sp_out := Some (le_bytes 2 d)\<rparr>"
  have "sp_req a1 = None" "d_rounds spec_if 0 ?a2 = Some ?a2" "sp_out ?a2 = None" using i by (simp_all add: idle_def)
  from write_run [OF assms(3-6) a1(1) this, of d] obtain s' where
    s': "host_call spec_if buf (HWrite i d) u = ((2, None), s')" "sys_dev s' = Some ?b" by auto
  have r: "in_range ?b" "blobs_ok (sp_blobs ?b)" using i by (simp_all add: idle_def in_range_def holds_def)
  from spec_in_fills [OF r] obtain p ports where "spec_in ?b = Inr (?b\<lparr>sp_in := Some p, sp_ports := ports\<rparr>)" .
  then have "spec_task ?b = Inr (?b\<lparr>sp_ports := out_hex d 1 ports, sp_blobs := blob_put (unat j) d (sp_blobs a1),
      sp_command := CMD_STORE, sp_index := i, sp_in := None, sp_out := None, sp_req := None\<rparr>)"
    using i r assms(2) by (simp add: spec_task_def spec_out_def spec_cmd_def teensy_store_valid blob_put_def)
  with that [OF s'] holds_put [of m "sp_blobs a1" "unat j" d] i(1) assms(2) show ?thesis by (simp add: idle_def)
qed

text \<open>C5: a write whose command has not yet been taken by the gadget's main loop when its data arrives is
  reported as done to the user, but the data goes to the index of the store before it.\<close>

theorem write_race_misdirects:
  assumes "sys_quiet buf g s" "g_state g = \<lparr>st_command = CMD_STORE, st_index = j\<rparr>" "unat j < 256"
    "sys_sched s = n # 0 # ns" "1 \<le> n"
  shows "\<exists>s' g' g''. host_call gadget_if buf (HWrite i d) s = ((2, None), s') \<and> sys_dev s' = Some g' \<and>
    StoreTask [] g' = Inr ((), g'', []) \<and> holds ((blob_get (g_blobs g))(unat j := d)) (g_blobs g'')"
proof -
  let ?m = "blob_get (g_blobs g)"
  have q: "sys_dev s = Some g" "configured g" "sys_sem s = 1" "buf_ok buf (sys_mem s)" "out_packet (eps g 2) = None" "out_packet (eps g 3) = None"
    using assms(1) by (simp_all add: sys_quiet_def)
  have "serving ?m \<lparr>uc_cmd_type = CMD_STORE, uc_index = j\<rparr> (abs_gadget g)"
    using q assms(2) by (simp add: serving_def idle_def in_range_def abs_gadget_def holds_def configured_def)
  from misdirected_spec [OF this assms(3), of "sys_abs s" buf n ns i d] q assms(4,5)
  obtain u' b b' where u: "host_call spec_if buf (HWrite i d) (sys_abs s) = ((2, None), u')" "sys_dev u' = Some b"
    "spec_task b = Inr b'" "holds (?m(unat j := d)) (sp_blobs b')"
    by (auto simp: sys_abs_def)
  have "bus_rel s (sys_abs s)" by (rule bus_rel_abs [OF q(1,2)])
  from host_call_sim [OF this, of buf "HWrite i d"] u(1,2) obtain s' where
    s': "host_call gadget_if buf (HWrite i d) s = ((2, None), s')" "bus_rel s' u'" by (auto elim: rel_prod.cases)
  then obtain g' where g': "sys_dev s' = Some g'" "configured g'" "abs_gadget g' = b"
    using u(2) by (auto simp: sys_rel_def dev_rel_def elim: option.rel_cases)
  from StoreTask_step [OF g'(2), of "[]"] u(3,4) g'(3) obtain g'' where
    "StoreTask [] g' = Inr ((), g'', [])" "abs_gadget g'' = b'" by auto
  moreover from this(2) have "g_blobs g'' = sp_blobs b'" by (auto simp: abs_gadget_def)
  ultimately show ?thesis using s'(1) g'(1) u(4) by auto
qed

section \<open>Answers\<close>

lemma rounds_refine:
  "configured g \<Longrightarrow> d_rounds spec_if n (abs_gadget g) = Some a \<Longrightarrow>
     \<exists>g'. rounds n w g = Inr ((), g', w) \<and> configured g' \<and> abs_gadget g' = a"
proof (induction n arbitrary: g)
  case 0
  then show ?case by simp
next
  case (Suc n)
  then obtain a1 where a1: "spec_task (abs_gadget g) = Inr a1" "d_rounds spec_if n a1 = Some a"
    by (auto simp: spec_if_def split: option.splits sum.splits)
  with StoreTask_step [OF Suc.prems(1), of w] obtain g1 where
    "StoreTask w g = Inr ((), g1, w)" "configured g1" "abs_gadget g1 = a1" by auto
  with Suc.IH [of g1] a1(2) show ?case by simp
qed

text \<open>C3: on a configured gadget with no data packet waiting, a read command that has arrived for an index below 256 is
  answered: after two rounds of the main loop, and for as long as the host does not collect it, the IN endpoint holds the
  value stored at its index, whatever was waiting there before. The read command before it, if the gadget is still serving
  one, has to be for an index below 256 too: index 256 passes the gadget's check but lies outside the array, where the
  model faults (C9).\<close>

theorem read_command_answered:
  assumes "configured g" "out_packet (eps g 2) = None" "out_packet (eps g 3) = Some (usb_cmd_bytes \<lparr>uc_cmd_type = CMD_READ, uc_index = i\<rparr>)"
    "unat i < 256" "st_command (g_state g) = CMD_READ \<longrightarrow> unat (st_index (g_state g)) < 256" "2 \<le> n"
  shows "\<exists>g'. rounds n w g = Inr ((), g', w) \<and> r_tx (eps g' 1) = Some (le_bytes 2 (blob_get (g_blobs g) (unat i)))"
proof -
  let ?c = "\<lparr>uc_cmd_type = CMD_READ, uc_index = i\<rparr>" and ?m = "blob_get (g_blobs g)"
  let ?a = "(abs_gadget g)\<lparr>sp_req := None\<rparr>"
  have i: "idle ?m ?a" "uc_cmd_type ?c \<noteq> CMD_DELETE" "unat (uc_index ?c) < 256"
    using assms by (simp_all add: idle_def in_range_def abs_gadget_def holds_def configured_def)
  have a: "?a\<lparr>sp_req := Some (usb_cmd_bytes ?c)\<rparr> = abs_gadget g"
    using assms(3) by (simp add: abs_gadget_def)
  from spec_task_cmd [OF i] obtain a1 where b: "spec_task (?a\<lparr>sp_req := Some (usb_cmd_bytes ?c)\<rparr>) = Inr a1" "idle ?m a1"
    "sp_command a1 = uc_cmd_type ?c" "sp_index a1 = uc_index ?c" "sp_in a1 = None" .
  have a1: "spec_task (abs_gadget g) = Inr a1" "serving ?m ?c a1"
    using b(1) unfolding a by simp (simp add: serving_def b(2-5))
  obtain k where k: "n = Suc k" "1 \<le> k" using assms(6) by (cases n) auto
  from serving_rounds [OF a1(2) k(2)] obtain a2 where a2: "d_rounds spec_if k a1 = Some a2" "served ?m ?c a2" .
  then have "d_rounds spec_if n (abs_gadget g) = Some a2" using a1(1) k by (simp add: d_round_spec)
  from rounds_refine [OF assms(1) this, of w] obtain g' where g': "rounds n w g = Inr ((), g', w)" "abs_gadget g' = a2" by blast
  moreover have "sp_in a2 = Some (le_bytes 2 (?m (unat i)))"
    using a2(2) by (auto simp: served_def serving_def)
  then have "r_tx (eps g' 1) = Some (le_bytes 2 (?m (unat i)))" using g'(2) by (auto simp: abs_gadget_def)
  ultimately show ?thesis by blast
qed

section \<open>Instances\<close>

definition sys_demo :: "gadget \<Rightarrow> nat list \<Rightarrow> gadget sys" where
  "sys_demo g ns = \<lparr>sys_dev = Some g, sys_sched = ns, sys_mem = (\<lambda>_. Some 0), sys_sem = 1\<rparr>"

lemma gadget_run_out: "out_packet (eps gadget_run 2) = None" "out_packet (eps gadget_run 3) = None"
  using ep_configured_ok(4) [of "eps gadget_demo 2"] ep_configured_ok(6) [of "eps gadget_demo 3"]
  by (simp_all add: gadget_run_def)

lemma gadget_run_blobs: "g_blobs gadget_run = blobs_init" "g_state gadget_run = \<lparr>st_command = CMD_READ, st_index = 1\<rparr>"
  by (simp_all add: gadget_run_def gadget_demo_fields)

lemma sys_demo_quiet: "sys_quiet 0 gadget_run (sys_demo gadget_run ns)"
  by (simp add: sys_quiet_def sys_demo_def gadget_run_configured buf_ok_def gadget_run_out gadget_run_blobs)

theorem driver_is_an_array_witness:
  "fst (host_calls gadget_if 0 [HWrite 5 7, HRead 5, HErase 5, HRead 5] (sys_demo gadget_run (replicate 12 1))) =
    [(2, None), (2, Some 7), (0, None), (2, Some 0)]"
proof -
  have "fair (sys_sched (sys_demo gadget_run (replicate 12 1))) (length [HWrite 5 7, HRead 5, HErase 5, HRead 5])"
    by (simp add: fair_def sys_demo_def)
  from driver_is_an_array [OF sys_demo_quiet _ this] show ?thesis by simp
qed

theorem write_race_misdirects_witness:
  "\<exists>s' g' g''. host_call gadget_if 0 (HWrite 9 3) (sys_demo (gadget_run\<lparr>g_state := \<lparr>st_command = CMD_STORE, st_index = 4\<rparr>\<rparr>) [1, 0]) =
      ((2, None), s') \<and> sys_dev s' = Some g' \<and> StoreTask [] g' = Inr ((), g'', []) \<and>
    blob_get (g_blobs g'') 4 = 3 \<and> blob_get (g_blobs g'') 9 = 0"
proof -
  let ?g = "gadget_run\<lparr>g_state := \<lparr>st_command = CMD_STORE, st_index = 4\<rparr>\<rparr>"
  have "sys_quiet 0 ?g (sys_demo ?g [1, 0])"
    using sys_demo_quiet [of "[1, 0]"] by (simp add: sys_quiet_def sys_demo_def configured_def)
  from write_race_misdirects [OF this, of 4 1 "[]" 9 3] obtain s' g' g'' where
    "host_call gadget_if 0 (HWrite 9 3) (sys_demo ?g [1, 0]) = ((2, None), s')" "sys_dev s' = Some g'"
    "StoreTask [] g' = Inr ((), g'', [])" "holds ((blob_get (g_blobs ?g))(4 := 3)) (g_blobs g'')"
    by (auto simp: sys_demo_def)
  moreover from this(4) have "blob_get (g_blobs g'') 4 = 3" "blob_get (g_blobs g'') 9 = 0"
    by (simp_all add: holds_def gadget_run_blobs blob_get_def blobs_init_def)
  ultimately show ?thesis by blast
qed

definition gadget_asked :: gadget where
  "gadget_asked = deliver 3 (usb_cmd_bytes \<lparr>uc_cmd_type = CMD_READ, uc_index = 9\<rparr>) gadget_run"

lemma gadget_asked_ok:
  "configured gadget_asked" "out_packet (eps gadget_asked 2) = None"
  "out_packet (eps gadget_asked 3) = Some (usb_cmd_bytes \<lparr>uc_cmd_type = CMD_READ, uc_index = 9\<rparr>)"
  "g_state gadget_asked = g_state gadget_run" "g_blobs gadget_asked = blobs_init"
proof -
  let ?p = "usb_cmd_bytes \<lparr>uc_cmd_type = CMD_READ, uc_index = 9\<rparr>"
  have "sp_req (abs_gadget gadget_run) = None" using gadget_run_out by (simp add: abs_gadget_def)
  with host_out_configured [OF gadget_run_configured, of 3 ?p] obtain g' where
    g': "host_out 3 ?p gadget_run = Some g'" "configured g'" "abs_gadget g' = (abs_gadget gadget_run)\<lparr>sp_req := Some ?p\<rparr>"
    by (auto simp: spec_if_def dev_rel_def elim: option.rel_cases)
  then have "gadget_asked = g'" by (simp add: gadget_asked_def deliver_def)
  with g' gadget_run_out gadget_run_blobs show "configured gadget_asked" "out_packet (eps gadget_asked 2) = None"
    "out_packet (eps gadget_asked 3) = Some ?p" "g_state gadget_asked = g_state gadget_run" "g_blobs gadget_asked = blobs_init"
    by (auto simp: abs_gadget_def)
qed

theorem read_command_answered_witness:
  "\<exists>g'. rounds 2 [] gadget_asked = Inr ((), g', []) \<and> r_tx (eps g' 1) = Some [0, 0]"
proof -
  have "le_bytes 2 (blob_get (g_blobs gadget_asked) (unat (9 :: u64))) = [0, 0]"
    by (simp add: gadget_asked_ok blob_get_def blobs_init_def) (simp add: numeral_2_eq_2)
  moreover have "unat (9 :: u64) < 256" "st_command (g_state gadget_asked) = CMD_READ \<longrightarrow> unat (st_index (g_state gadget_asked)) < 256"
    by (simp_all add: gadget_asked_ok gadget_run_blobs)
  ultimately show ?thesis
    using read_command_answered [OF gadget_asked_ok(1-3), of 2 "[]"] by (simp only: order_refl)
qed

theorem host_ops_balanced_witness:
  "sys_sem (snd (host_teensy_read (sysK gadget_if) teensy_here 0 1 (sys_demo gadget_run [0, 0]))) = 1"
  using host_ops_balanced [OF sysk.kernel_axioms, of gadget_if teensy_here 0 1 "sys_demo gadget_run [0, 0]"]
  by (simp add: sys_demo_def)

definition broken_in :: "spec sys kapi" where
  "broken_in = (sysK spec_if)\<lparr>k_snd := (\<lambda>ep p s. (0, Some (int (length p)), s)), k_rcv := (\<lambda>ep buf s. (-19, None, buf, s))\<rparr>"

theorem host_failures_look_like_success_witness:
  "\<exists>s. host_teensy_read broken_in teensy_here 0 1
      (poke 0 \<lparr>c_cmd_type = CMD_READ, c_index = 3, c_data = 0\<rparr> \<lparr>sys_dev = None, sys_sched = [], sys_mem = (\<lambda>_. Some 0), sys_sem = 1\<rparr>) = (9, s)"
proof -
  let ?c = "\<lparr>c_cmd_type = CMD_READ, c_index = 3, c_data = 0\<rparr>"
  let ?s = "\<lparr>sys_dev = None, sys_sched = [], sys_mem = (\<lambda>_. Some 0), sys_sem = 0\<rparr> :: spec sys"
  let ?t = "?s\<lparr>sys_sem := 1\<rparr>"
  have i: "ioc_laws broken_in" using sysK_ioc [of spec_if] by (simp add: ioc_laws_def broken_in_def)
  have d: "k_down broken_in (poke 0 ?c ?t) = (0, poke 0 ?c ?s)"
    by (simp add: broken_in_def sysK_def poke_def)
  have f: "k_from_user broken_in 0 sizeof_command (poke 0 ?c ?s) = (0, command_bytes ?c, poke 0 ?c ?s)"
    using from_user_buf [of 0 ?s spec_if ?c] by (simp add: broken_in_def buf_ok_def)
  have t: "c_cmd_type ?c = CMD_READ" by simp
  have sn: "k_snd broken_in (td_cmd_endpoint teensy_here) (usb_cmd_bytes \<lparr>uc_cmd_type = CMD_READ, uc_index = c_index ?c\<rparr>) (poke 0 ?c ?s) =
      (0, Some 9, poke 0 ?c ?s)"
    by (simp add: broken_in_def)
  have r: "k_rcv broken_in (td_read_endpoint teensy_here) (le_bytes 2 (c_data ?c)) (poke 0 ?c ?s) = (-19, None, le_bytes 2 (c_data ?c), poke 0 ?c ?s)"
    by (simp add: broken_in_def)
  have "host_teensy_read broken_in teensy_here 0 1 (poke 0 ?c ?t) = (9, k_up broken_in (poke 0 ?c ?s))"
    using host_failures_look_like_success [OF i d f t sn r, THEN conjunct1] by simp
  moreover have "?t = \<lparr>sys_dev = None, sys_sched = [], sys_mem = (\<lambda>_. Some 0), sys_sem = 1\<rparr>" by simp
  ultimately show ?thesis by metis
qed

end
