(* ===== verification/Reachable.thy ===== *)
theory Reachable
  imports SysTheorems
begin

text \<open>
  Every order in which the host's packets and the rounds of the gadget's main loop can come: a step
  relation between states of the gadget, its runs, and what holds along every run.
\<close>

section \<open>Steps and runs\<close>

text \<open>
  The host offers a command or a data packet and the controller takes it, the host collects a packet, or
  the main loop makes a round. A refused packet is no step.
\<close>

datatype bus_act = HostCmd "u8 list" | HostData "u8 list" | HostTake "u8 list" | Round

inductive bus_step :: "gadget \<Rightarrow> bus_act \<Rightarrow> gadget \<Rightarrow> bool" where
  cmd: "length p = 9 \<Longrightarrow> host_out 3 p g = Some g' \<Longrightarrow> bus_step g (HostCmd p) g'"
| data: "length p = 2 \<Longrightarrow> host_out 2 p g = Some g' \<Longrightarrow> bus_step g (HostData p) g'"
| take_in: "host_in 1 g = Some (p, g') \<Longrightarrow> bus_step g (HostTake p) g'"
| round: "StoreTask [] g = Inr ((), g', []) \<Longrightarrow> bus_step g Round g'"

inductive_simps bus_step_simps:
  "bus_step g (HostCmd p) g'" "bus_step g (HostData p) g'" "bus_step g (HostTake p) g'" "bus_step g Round g'"

inductive bus_run :: "gadget \<Rightarrow> bus_act list \<Rightarrow> gadget \<Rightarrow> bool" where
  start: "bus_run g [] g"
| step: "bus_run g tr g' \<Longrightarrow> bus_step g' a g'' \<Longrightarrow> bus_run g (tr @ [a]) g''"

section \<open>What every step keeps\<close>

text \<open>
  \<open>V\<close> is the set of values that may be around: in the slots, in a packet on its way to the host, in a
  data packet of the host.
\<close>

definition values_ok :: "u16 set \<Rightarrow> spec \<Rightarrow> bool" where
  "values_ok V a \<longleftrightarrow> unat (sp_index a) < 256 \<and> blobs_ok (sp_blobs a) \<and> (\<forall>i < 256. blob_get (sp_blobs a) i \<in> V) \<and>
     (\<forall>p. sp_in a = Some p \<longrightarrow> p = [] \<or> (\<exists>v \<in> V. p = le_bytes 2 v)) \<and>
     (\<forall>p. sp_out a = Some p \<longrightarrow> le_word p \<in> V) \<and>
     (\<forall>p. sp_req a = Some p \<longrightarrow> unat (uc_index (usb_cmd_of_bytes p)) < 256)"

text \<open>The packets of a run that the property is about.\<close>

fun act_ok :: "u16 set \<Rightarrow> bus_act \<Rightarrow> bool" where
  "act_ok V (HostCmd p) \<longleftrightarrow> unat (uc_index (usb_cmd_of_bytes p)) < 256"
| "act_ok V (HostData p) \<longleftrightarrow> le_word p \<in> V"
| "act_ok V (HostTake p) \<longleftrightarrow> p = [] \<or> (\<exists>v \<in> V. p = le_bytes 2 v)"
| "act_ok V Round \<longleftrightarrow> True"

lemma slots_put: "(\<forall>i < 256. blob_get b i \<in> V) \<Longrightarrow> v \<in> V \<Longrightarrow> blobs_ok b \<Longrightarrow> \<forall>i < 256. blob_get (b[k := \<lparr>blob_data = v\<rparr>]) i \<in> V"
proof (intro allI impI)
  fix i :: nat
  assume "\<forall>i < 256. blob_get b i \<in> V" "v \<in> V" "blobs_ok b" "i < 256"
  then show "blob_get (b[k := \<lparr>blob_data = v\<rparr>]) i \<in> V" by (cases "i = k") (simp_all add: blob_get_def blobs_ok_def)
qed

lemma values_ok_packet:
  "values_ok V a \<Longrightarrow> le_word p \<in> V \<Longrightarrow> values_ok V (a\<lparr>sp_out := Some p\<rparr>)"
  "values_ok V a \<Longrightarrow> unat (uc_index (usb_cmd_of_bytes p)) < 256 \<Longrightarrow> values_ok V (a\<lparr>sp_req := Some p\<rparr>)"
  "values_ok V a \<Longrightarrow> values_ok V (a\<lparr>sp_in := None\<rparr>)"
  by (simp_all add: values_ok_def)

lemma spec_in_values:
  assumes "values_ok V a"
  shows "\<exists>a'. spec_in a = Inr a' \<and> values_ok V a'"
  using assms by (auto simp: spec_in_def values_ok_def teensy_read_valid blob_get_def)

lemma spec_out_values:
  assumes "values_ok V a"
  shows "\<exists>a'. spec_out a = Inr a' \<and> values_ok V a'"
proof (cases "sp_out a")
  case None
  with assms show ?thesis by (simp add: spec_out_def)
next
  case (Some p)
  with assms have "le_word p \<in> V" "blobs_ok (sp_blobs a)" "\<forall>i < 256. blob_get (sp_blobs a) i \<in> V" "unat (sp_index a) < 256"
    by (auto simp: values_ok_def)
  from slots_put [OF this(3,1,2)] this(2,4) Some assms show ?thesis
    by (auto simp: spec_out_def teensy_store_valid) (auto simp: values_ok_def blobs_ok_def)
qed

lemma spec_cmd_values:
  assumes "values_ok V a" "0 \<in> V"
  shows "\<exists>a'. spec_cmd a = Inr a' \<and> values_ok V a'"
proof (cases "sp_req a")
  case None
  with assms show ?thesis by (simp add: spec_cmd_def)
next
  case (Some p)
  with assms have "blobs_ok (sp_blobs a)" "\<forall>i < 256. blob_get (sp_blobs a) i \<in> V" "unat (uc_index (usb_cmd_of_bytes p)) < 256"
    by (auto simp: values_ok_def)
  from slots_put [OF this(2) assms(2) this(1)] this Some assms show ?thesis
    by (auto simp: spec_cmd_def Let_def teensy_delete_valid) (auto simp: values_ok_def blobs_ok_def)
qed

lemma spec_task_values:
  assumes "values_ok V a" "0 \<in> V"
  shows "\<exists>a'. spec_task a = Inr a' \<and> values_ok V a'"
proof -
  obtain a1 where 1: "spec_in a = Inr a1" "values_ok V a1" using spec_in_values [OF assms(1)] by blast
  obtain a2 where 2: "spec_out a1 = Inr a2" "values_ok V a2" using spec_out_values [OF 1(2)] by blast
  from spec_cmd_values [OF 2(2) assms(2)] 1 2 show ?thesis by (auto simp: spec_task_def)
qed

definition gadget_ok :: "u16 set \<Rightarrow> gadget \<Rightarrow> bool" where
  "gadget_ok V g \<longleftrightarrow> configured g \<and> values_ok V (abs_gadget g)"

lemma round_ok:
  assumes "gadget_ok V g" "0 \<in> V"
  shows "\<exists>g'. StoreTask [] g = Inr ((), g', []) \<and> gadget_ok V g'"
proof -
  have c: "configured g" using assms(1) by (simp add: gadget_ok_def)
  obtain a where a: "spec_task (abs_gadget g) = Inr a" "values_ok V a"
    using assms spec_task_values by (auto simp: gadget_ok_def)
  from StoreTask_step [OF c, of "[]"] a show ?thesis by (auto simp: gadget_ok_def)
qed

lemma out_ok:
  assumes "gadget_ok V g" "host_out n p g = Some g'" "(n, length p) \<in> {(2, 2), (3, 9)}"
    "n = 2 \<Longrightarrow> le_word p \<in> V" "n = 3 \<Longrightarrow> unat (uc_index (usb_cmd_of_bytes p)) < 256"
  shows "gadget_ok V g'"
proof -
  have g: "configured g" "values_ok V (abs_gadget g)" using assms(1) by (simp_all add: gadget_ok_def)
  from host_out_configured [OF g(1) assms(3)] assms(2) have
    a: "d_out spec_if n p (abs_gadget g) = Some (abs_gadget g')" "configured g'"
    by (auto simp: dev_rel_def elim: option.rel_cases)
  from a(1) consider "n = 2" "abs_gadget g' = (abs_gadget g)\<lparr>sp_out := Some p\<rparr>"
    | "n = 3" "abs_gadget g' = (abs_gadget g)\<lparr>sp_req := Some p\<rparr>"
    by (auto simp: spec_if_def split: if_splits)
  then have "values_ok V (abs_gadget g')" by cases (simp_all add: values_ok_packet g(2) assms(4,5))
  with a show ?thesis by (simp add: gadget_ok_def)
qed

lemma take_ok:
  assumes "gadget_ok V g" "host_in 1 g = Some (p, g')"
  shows "gadget_ok V g' \<and> act_ok V (HostTake p)"
proof -
  have g: "configured g" "values_ok V (abs_gadget g)" using assms(1) by (simp_all add: gadget_ok_def)
  from host_in_configured(2) [OF g(1) assms(2)] have
    h: "sp_in (abs_gadget g) = Some p" "configured g'" "abs_gadget g' = (abs_gadget g)\<lparr>sp_in := None\<rparr>" by auto
  with g(2) show ?thesis by (simp add: gadget_ok_def values_ok_packet(3)) (simp add: values_ok_def)
qed

lemma bus_step_ok:
  assumes "bus_step g a g'" "gadget_ok V g" "0 \<in> V" "(\<exists>p. a = HostTake p) \<or> act_ok V a"
  shows "gadget_ok V g' \<and> act_ok V a"
proof (cases a)
  case (HostCmd p)
  with assms out_ok [of V g 3 p g'] show ?thesis by (auto simp: bus_step_simps)
next
  case (HostData p)
  with assms out_ok [of V g 2 p g'] show ?thesis by (auto simp: bus_step_simps)
next
  case (HostTake p)
  with assms take_ok [of V g p g'] show ?thesis by (simp add: bus_step_simps)
next
  case Round
  with assms round_ok [of V g] show ?thesis by (auto simp: bus_step_simps)
qed

lemma bus_run_ok:
  assumes "bus_run g tr g'" "gadget_ok V g" "0 \<in> V" "\<forall>a \<in> set tr. (\<exists>p. a = HostTake p) \<or> act_ok V a"
  shows "gadget_ok V g' \<and> (\<forall>a \<in> set tr. act_ok V a)"
  using assms
proof (induction rule: bus_run.induct)
  case (step g tr g' a g'')
  then have "gadget_ok V g' \<and> (\<forall>a \<in> set tr. act_ok V a)" by auto
  with bus_step_ok [OF step.hyps(2), of V] step.prems show ?case by auto
qed simp

text \<open>C4: in whatever order the host sends its packets, collects the gadget's and the main loop makes its
  rounds, as long as no command names an index beyond the array the gadget stays configured, its next
  round returns, and every packet the host collects is empty or a value that was in the store at the
  start, 0, or a value the host has sent: none is made up and none comes from uninitialised memory.\<close>

theorem bus_runs_safe:
  assumes "configured g0" "r_tx (eps g0 1) = None" "out_packet (eps g0 2) = None" "out_packet (eps g0 3) = None"
    "unat (st_index (g_state g0)) < 256" "bus_run g0 tr g"
    "\<forall>p. HostCmd p \<in> set tr \<longrightarrow> unat (uc_index (usb_cmd_of_bytes p)) < 256"
  shows "configured g \<and> (\<exists>g'. StoreTask [] g = Inr ((), g', [])) \<and>
    (\<forall>p. HostTake p \<in> set tr \<longrightarrow> p = [] \<or> (\<exists>v. p = le_bytes 2 v \<and>
       (v = 0 \<or> (\<exists>i < 256. v = blob_get (g_blobs g0) i) \<or> (\<exists>q. HostData q \<in> set tr \<and> v = le_word q))))"
proof -
  let ?V = "{0} \<union> {v. \<exists>i < 256. v = blob_get (g_blobs g0) i} \<union> {v. \<exists>q. HostData q \<in> set tr \<and> v = le_word q}"
  have "blobs_ok (g_blobs g0)" using assms(1) by (simp add: configured_def)
  then have g0: "gadget_ok ?V g0"
    using assms(1-5) by (auto simp: gadget_ok_def values_ok_def abs_gadget_def)
  have acts: "\<forall>a \<in> set tr. (\<exists>p. a = HostTake p) \<or> act_ok ?V a"
  proof
    fix a
    assume a: "a \<in> set tr"
    show "(\<exists>p. a = HostTake p) \<or> act_ok ?V a"
    proof (cases a)
      case (HostCmd p)
      with a assms(7) show ?thesis by simp
    next
      case (HostData p)
      with a show ?thesis by auto
    qed simp_all
  qed
  have ok: "gadget_ok ?V g" "\<forall>a \<in> set tr. act_ok ?V a" using bus_run_ok [OF assms(6) g0 _ acts] by auto
  from round_ok [OF ok(1)] have "\<exists>g'. StoreTask [] g = Inr ((), g', [])" by auto
  moreover have "configured g" using ok(1) by (simp add: gadget_ok_def)
  moreover have "p = [] \<or> (\<exists>v \<in> ?V. p = le_bytes 2 v)" if "HostTake p \<in> set tr" for p
    using bspec [OF ok(2) that] by (simp only: act_ok.simps)
  ultimately show ?thesis by blast
qed

lemma bus_runs_safe_witness:
  "\<exists>g'. bus_run gadget_run [Round] g' \<and> configured g' \<and> (\<exists>g''. StoreTask [] g' = Inr ((), g'', []))"
proof -
  have t: "r_tx (eps gadget_run 1) = None"
    using ep_configured_ok(2) [of "eps gadget_demo 1"] by (simp add: gadget_run_def)
  have i: "unat (st_index (g_state gadget_run)) < 256" by (simp add: gadget_run_blobs)
  note w = bus_runs_safe [OF gadget_run_configured t gadget_run_out i]
  obtain g' where "StoreTask [] gadget_run = Inr ((), g', [])" using w [OF bus_run.start] by auto
  then have r: "bus_run gadget_run [Round] g'"
    using bus_run.step [OF bus_run.start bus_step.round] by simp
  from w [OF r] have "configured g' \<and> (\<exists>g''. StoreTask [] g' = Inr ((), g'', []))" by simp
  with r show ?thesis by blast
qed

end
