(* ===== verification/UsbDebug.thy ===== *)
theory UsbDebug
  imports UsbInterface
begin

text \<open>
  The stand-alone debug channel \<open>usb_debug_only.c\<close>: a driver of the USB controller written on its
  registers, with one interrupt endpoint to the host. It is built for the same processor as the gadget
  (\<open>ATmega32U4\<close>).

  Endpoint 3 has two banks. The controller of theory AvrUsb has one: there the host's collecting of a
  packet and the controller's change to its other free bank are the same event, \<open>host_in\<close>, and
  \<open>r_sent\<close> lists the packets in the order in which they were handed over.
\<close>

section \<open>State\<close>

record dbg_dev = usb_hw +
  SREG :: u8
  UDFNUML :: u8
  usb_configuration :: u8
  debug_flush_timer :: u8
  previous_timeout :: u8

definition cli :: "'a dbg_dev_scheme \<Rightarrow> 'a dbg_dev_scheme" where "cli s = s\<lparr>SREG := unset_bit 7 (SREG s)\<rparr>"
definition sei :: "'a dbg_dev_scheme \<Rightarrow> 'a dbg_dev_scheme" where "sei s = s\<lparr>SREG := set_bit 7 (SREG s)\<rparr>"

definition DBG_TYPE_CONTROL :: u8 where "DBG_TYPE_CONTROL = 0x01"
definition EP_TYPE_INTERRUPT_IN :: u8 where "EP_TYPE_INTERRUPT_IN = 0xC1"
definition EP_SINGLE_BUFFER :: u8 where "EP_SINGLE_BUFFER = 0x02"
definition EP_DOUBLE_BUFFER :: u8 where "EP_DOUBLE_BUFFER = 0x06"
definition EP_SIZE :: "nat \<Rightarrow> u8" where
  "EP_SIZE s = (if s = 64 then 0x30 else if s = 32 then 0x20 else if s = 16 then 0x10 else 0x00)"
definition MAX_ENDPOINT :: u8 where "MAX_ENDPOINT = 4"
definition LSB :: "u16 \<Rightarrow> u8" where "LSB n = ucast (n AND 255)"
definition MSB :: "u16 \<Rightarrow> u8" where "MSB n = ucast (drop_bit 8 n AND 255)"

definition HW_CONFIG :: "'a usb_hw_scheme \<Rightarrow> 'a usb_hw_scheme" where "HW_CONFIG s = s\<lparr>UHWCON := 0x01\<rparr>"
definition PLL_CONFIG :: "'a usb_hw_scheme \<Rightarrow> 'a usb_hw_scheme" where "PLL_CONFIG s = s\<lparr>PLLCSR := 0x12\<rparr>"
definition USB_CONFIG :: "'a usb_hw_scheme \<Rightarrow> 'a usb_hw_scheme" where
  "USB_CONFIG s = usbcon_write (push_bit USBE 1 OR push_bit OTGPADE 1) s"
definition USB_FREEZE :: "'a usb_hw_scheme \<Rightarrow> 'a usb_hw_scheme" where
  "USB_FREEZE s = usbcon_write (push_bit USBE 1 OR push_bit FRZCLK 1) s"

definition GET_STATUS :: u8 where "GET_STATUS = 0"
definition CLEAR_FEATURE :: u8 where "CLEAR_FEATURE = 1"
definition SET_FEATURE :: u8 where "SET_FEATURE = 3"
definition SET_ADDRESS :: u8 where "SET_ADDRESS = 5"
definition GET_DESCRIPTOR :: u8 where "GET_DESCRIPTOR = 6"
definition GET_CONFIGURATION :: u8 where "GET_CONFIGURATION = 8"
definition SET_CONFIGURATION :: u8 where "SET_CONFIGURATION = 9"
definition HID_GET_REPORT :: u8 where "HID_GET_REPORT = 1"

lemmas dbg_requests = GET_STATUS_def CLEAR_FEATURE_def SET_FEATURE_def SET_ADDRESS_def GET_DESCRIPTOR_def
  GET_CONFIGURATION_def SET_CONFIGURATION_def HID_GET_REPORT_def

section \<open>Tables\<close>

definition VENDOR_ID :: u16 where "VENDOR_ID = 0x16C0"
definition PRODUCT_ID :: u16 where "PRODUCT_ID = 0x0478"
definition ENDPOINT0_SIZE :: nat where "ENDPOINT0_SIZE = 32"
definition DEBUG_TX_ENDPOINT :: u8 where "DEBUG_TX_ENDPOINT = 3"
definition DEBUG_TX_SIZE :: nat where "DEBUG_TX_SIZE = 32"
definition DEBUG_TX_BUFFER :: u8 where "DEBUG_TX_BUFFER = EP_DOUBLE_BUFFER"

definition endpoint_config_table :: "u8 list" where
  "endpoint_config_table = [0, 0, 1, EP_TYPE_INTERRUPT_IN, EP_SIZE DEBUG_TX_SIZE OR DEBUG_TX_BUFFER, 0]"

definition device_descriptor :: "u8 list" where
  "device_descriptor = [18, 1, 0x00, 0x02, 0, 0, 0, of_nat ENDPOINT0_SIZE, LSB VENDOR_ID, MSB VENDOR_ID, LSB PRODUCT_ID, MSB PRODUCT_ID,
     0x00, 0x01, 1, 2, 0, 1]"

definition hid_report_descriptor :: "u8 list" where
  "hid_report_descriptor = [0x06, 0x31, 0xFF, 0x09, 0x74, 0xA1, 0x53, 0x75, 0x08, 0x15, 0x00, 0x26, 0xFF, 0x00,
     0x95, of_nat DEBUG_TX_SIZE, 0x09, 0x75, 0x81, 0x02, 0xC0]"

definition CONFIG1_DESC_SIZE :: u16 where "CONFIG1_DESC_SIZE = 9+9+9+7"
definition HID_DESC2_OFFSET :: nat where "HID_DESC2_OFFSET = 9+9"

definition config1_descriptor :: "u8 list" where
  "config1_descriptor =
     [9, 2, LSB CONFIG1_DESC_SIZE, MSB CONFIG1_DESC_SIZE, 1, 1, 0, 0xC0, 50] @
     [9, 4, 0, 0, 1, 0x03, 0x00, 0x00, 0] @
     [9, 0x21, 0x11, 0x01, 0, 1, 0x22, of_nat (length hid_report_descriptor), 0] @
     [7, 5, DEBUG_TX_ENDPOINT OR 0x80, 0x03, of_nat DEBUG_TX_SIZE, 0, 1]"

text \<open>A wide string literal has two bytes a character and a terminator, which \<open>sizeof\<close> counts.\<close>

definition wide :: "string \<Rightarrow> u8 list" where
  "wide s = concat (map (\<lambda>c. [of_char c, 0]) s) @ [0, 0]"

definition STR_MANUFACTURER :: string where "STR_MANUFACTURER = ''Your Name''"
definition STR_PRODUCT :: string where "STR_PRODUCT = ''Your USB Device''"
definition string0 :: "u8 list" where "string0 = [4, 3, 0x09, 0x04]"
definition string1 :: "u8 list" where
  "string1 = [of_nat (length (wide STR_MANUFACTURER)), 3] @ wide STR_MANUFACTURER"
definition string2 :: "u8 list" where
  "string2 = [of_nat (length (wide STR_PRODUCT)), 3] @ wide STR_PRODUCT"

text \<open>\<open>struct descriptor_list_struct\<close>; the address is the table from there on.\<close>

record dbg_desc =
  dd_wValue :: u16
  dd_wIndex :: u16
  dd_addr :: "u8 list"
  dd_length :: u8

definition descriptor_list :: "dbg_desc list" where
  "descriptor_list =
     [\<lparr>dd_wValue = 0x0100, dd_wIndex = 0x0000, dd_addr = device_descriptor, dd_length = of_nat (length device_descriptor)\<rparr>,
      \<lparr>dd_wValue = 0x0200, dd_wIndex = 0x0000, dd_addr = config1_descriptor, dd_length = of_nat (length config1_descriptor)\<rparr>,
      \<lparr>dd_wValue = 0x2200, dd_wIndex = 0x0000, dd_addr = hid_report_descriptor, dd_length = of_nat (length hid_report_descriptor)\<rparr>,
      \<lparr>dd_wValue = 0x2100, dd_wIndex = 0x0000, dd_addr = drop HID_DESC2_OFFSET config1_descriptor, dd_length = 9\<rparr>,
      \<lparr>dd_wValue = 0x0300, dd_wIndex = 0x0000, dd_addr = string0, dd_length = 4\<rparr>,
      \<lparr>dd_wValue = 0x0301, dd_wIndex = 0x0409, dd_addr = string1, dd_length = of_nat (length (wide STR_MANUFACTURER))\<rparr>,
      \<lparr>dd_wValue = 0x0302, dd_wIndex = 0x0409, dd_addr = string2, dd_length = of_nat (length (wide STR_PRODUCT))\<rparr>]"

definition NUM_DESC_LIST :: nat where "NUM_DESC_LIST = length descriptor_list"

section \<open>Functions for the user\<close>

definition EORSTE :: nat where "EORSTE = 3"
definition SOFE :: nat where "SOFE = 2"
definition EORSTI :: nat where "EORSTI = 3"
definition SOFI :: nat where "SOFI = 2"
definition ADDEN :: nat where "ADDEN = 7"

lemmas dbg_bits = EORSTE_def SOFE_def EORSTI_def SOFI_def ADDEN_def

definition usb_init :: "'a dbg_dev_scheme world \<Rightarrow> 'a dbg_dev_scheme \<Rightarrow> ('a dbg_dev_scheme, unit) run" where
  "usb_init w s =
     (let s = PLL_CONFIG (USB_FREEZE (HW_CONFIG s))
      in bind_run (poll_until (\<lambda>_ s. if bit (PLLCSR s) PLOCK then Inl ((), s) else Inr ((), s)) () w s) (\<lambda>_ s w.
           let s = (USB_CONFIG s)\<lparr>UDCON := 0\<rparr>;
               s = s\<lparr>usb_configuration := 0\<rparr>;
               s = s\<lparr>UDIEN := push_bit EORSTE 1 OR push_bit SOFE 1\<rparr>
           in Inr ((), sei s, w)))"

definition usb_configured :: "'a dbg_dev_scheme \<Rightarrow> u8" where
  "usb_configured s = usb_configuration s"

text \<open>
  One pass of the loop of \<open>usb_debug_putchar\<close>. Its variable is the saved status register, \<open>None\<close> before
  it is saved again; the loop ends with it, or with \<open>None\<close> for \<open>return -1\<close>. Between two passes the
  interrupts are enabled again if they were.
\<close>

definition putchar_pass ::
  "u8 \<Rightarrow> u8 option \<Rightarrow> 'a dbg_dev_scheme \<Rightarrow> u8 option \<times> 'a dbg_dev_scheme + u8 option \<times> 'a dbg_dev_scheme" where
  "putchar_pass timeout l s =
     (let (intr_state, s) = (case l of Some i \<Rightarrow> (i, s) | None \<Rightarrow> (SREG s, uenum_write DEBUG_TX_ENDPOINT (cli s)))
      in if bit (UEINTX s) RWAL then Inl (Some intr_state, s)
         else
           let s = s\<lparr>SREG := intr_state\<rparr>
           in if UDFNUML s = timeout then Inl (None, s\<lparr>previous_timeout := 1\<rparr>)
              else if usb_configuration s = 0 then Inl (None, s)
              else Inr (None, s))"

text \<open>Writing the byte into the bank, and sending a full one.\<close>

definition putchar_write :: "u8 \<Rightarrow> u8 \<Rightarrow> 'a dbg_dev_scheme \<Rightarrow> 'a dbg_dev_scheme" where
  "putchar_write c intr_state s =
     (let s = uedatx_write c s;
          s = (if \<not> bit (UEINTX s) RWAL then (set_UEINTX 0x3A s)\<lparr>debug_flush_timer := 0\<rparr> else s\<lparr>debug_flush_timer := 2\<rparr>)
      in s\<lparr>SREG := intr_state\<rparr>)"

definition usb_debug_putchar :: "u8 \<Rightarrow> 'a dbg_dev_scheme world \<Rightarrow> 'a dbg_dev_scheme \<Rightarrow> ('a dbg_dev_scheme, 8 word) run" where
  "usb_debug_putchar c w s =
     (if usb_configuration s = 0 then Inr (-1, s, w)
      else
        let intr_state = SREG s;
            s = uenum_write DEBUG_TX_ENDPOINT (cli s)
        in if previous_timeout s \<noteq> 0 \<and> \<not> bit (UEINTX s) RWAL then Inr (-1, s\<lparr>SREG := intr_state\<rparr>, w)
           else
             let s = (if previous_timeout s \<noteq> 0 then s\<lparr>previous_timeout := 0\<rparr> else s);
                 timeout = UDFNUML s + 4
             in bind_run (poll_until (putchar_pass timeout) (Some intr_state) w s) (\<lambda>r s w.
                  case r of None \<Rightarrow> Inr (-1, s, w) | Some intr_state \<Rightarrow> Inr (0, putchar_write c intr_state s, w)))"

text \<open>
  \<open>while (UEINTX & (1<<RWAL)) UEDATX = 0\<close>. A bank has at most 1024 bytes; on an OUT endpoint that holds
  data the loop has no end.
\<close>

fun pad_loop :: "nat \<Rightarrow> 'a usb_hw_scheme \<Rightarrow> stop + 'a usb_hw_scheme" where
  "pad_loop 0 s = Inl Hang"
| "pad_loop (Suc fuel) s = (if bit (UEINTX s) RWAL then pad_loop fuel (uedatx_write 0 s) else Inr s)"

definition pad_fuel :: nat where "pad_fuel = 1025"

definition usb_debug_flush_output :: "'a dbg_dev_scheme \<Rightarrow> stop + 'a dbg_dev_scheme" where
  "usb_debug_flush_output s =
     (let intr_state = SREG s; s = cli s
      in if debug_flush_timer s \<noteq> 0 then
           (case pad_loop pad_fuel (uenum_write DEBUG_TX_ENDPOINT s) of
              Inl e \<Rightarrow> Inl e
            | Inr s \<Rightarrow> Inr ((set_UEINTX 0x3A s)\<lparr>debug_flush_timer := 0, SREG := intr_state\<rparr>))
         else Inr (s\<lparr>SREG := intr_state\<rparr>))"

section \<open>Interrupts\<close>

definition dbg_reset :: "'a dbg_dev_scheme \<Rightarrow> 'a dbg_dev_scheme" where
  "dbg_reset s =
     (let s = set_UECONX 1 (uenum_write 0 s);
          s = set_UECFG1X (EP_SIZE ENDPOINT0_SIZE OR EP_SINGLE_BUFFER) (set_UECFG0X DBG_TYPE_CONTROL s)
      in (set_UEIENX (push_bit RXSTPE 1) s)\<lparr>usb_configuration := 0\<rparr>)"

definition dbg_sof :: "'a dbg_dev_scheme \<Rightarrow> stop + 'a dbg_dev_scheme" where
  "dbg_sof s =
     (if usb_configuration s \<noteq> 0 \<and> debug_flush_timer s \<noteq> 0 then
        let t = debug_flush_timer s - 1;
            s = s\<lparr>debug_flush_timer := t\<rparr>
        in if t = 0 then
             (case pad_loop pad_fuel (uenum_write DEBUG_TX_ENDPOINT s) of Inl e \<Rightarrow> Inl e | Inr s \<Rightarrow> Inr (set_UEINTX 0x3A s))
           else Inr s
      else Inr s)"

definition dbg_GEN_vect :: "'a dbg_dev_scheme \<Rightarrow> stop + 'a dbg_dev_scheme" where
  "dbg_GEN_vect s =
     (let intbits = UDINT s;
          s = s\<lparr>UDINT := 0\<rparr>;
          s = (if bit intbits EORSTI then dbg_reset s else s)
      in if bit intbits SOFI then dbg_sof s else Inr s)"

definition usb_wait_in_ready :: "'a dbg_dev_scheme world \<Rightarrow> 'a dbg_dev_scheme \<Rightarrow> ('a dbg_dev_scheme, unit) run" where
  "usb_wait_in_ready = poll_until (\<lambda>_ s. if bit (UEINTX s) TXINI then Inl ((), s) else Inr ((), s)) ()"

definition usb_send_in :: "'a dbg_dev_scheme \<Rightarrow> 'a dbg_dev_scheme" where
  "usb_send_in s = set_UEINTX (NOT (push_bit TXINI 1)) s"

definition usb_wait_receive_out :: "'a dbg_dev_scheme world \<Rightarrow> 'a dbg_dev_scheme \<Rightarrow> ('a dbg_dev_scheme, unit) run" where
  "usb_wait_receive_out = poll_until (\<lambda>_ s. if bit (UEINTX s) RXOUTI then Inl ((), s) else Inr ((), s)) ()"

definition usb_ack_out :: "'a dbg_dev_scheme \<Rightarrow> 'a dbg_dev_scheme" where
  "usb_ack_out s = set_UEINTX (NOT (push_bit RXOUTI 1)) s"

definition dbg_stall :: "'a dbg_dev_scheme \<Rightarrow> 'a dbg_dev_scheme" where
  "dbg_stall s = set_UECONX (push_bit STALLRQ 1 OR push_bit EPEN 1) s"

text \<open>
  The loop that sends \<open>len\<close> bytes to the host, from \<open>desc_addr\<close> on: one pass waits once for the bank or
  sends one packet.
\<close>

definition send_pass ::
  "u8 list \<times> u8 \<Rightarrow> 'a dbg_dev_scheme \<Rightarrow> unit \<times> 'a dbg_dev_scheme + (u8 list \<times> u8) \<times> 'a dbg_dev_scheme" where
  "send_pass l s =
     (case l of (desc_addr, len) \<Rightarrow>
        if \<not> (bit (UEINTX s) TXINI \<or> bit (UEINTX s) RXOUTI) then Inr (l, s)
        else if bit (UEINTX s) RXOUTI then Inl ((), s)
        else
          let n = (if unat len < ENDPOINT0_SIZE then len else of_nat ENDPOINT0_SIZE);
              s = usb_send_in (fold uedatx_write (take (unat n) desc_addr) s);
              len = len - n
          in if len \<noteq> 0 \<or> unat n = ENDPOINT0_SIZE then Inr ((drop (unat n) desc_addr, len), s) else Inl ((), s))"

definition send_packets :: "u8 list \<Rightarrow> u8 \<Rightarrow> 'a dbg_dev_scheme world \<Rightarrow> 'a dbg_dev_scheme \<Rightarrow> ('a dbg_dev_scheme, unit) run" where
  "send_packets desc_addr len = poll_until send_pass (desc_addr, len)"

text \<open>The search of the descriptor table.\<close>

fun find_desc :: "u16 \<Rightarrow> u16 \<Rightarrow> dbg_desc list \<Rightarrow> dbg_desc option" where
  "find_desc v i [] = None"
| "find_desc v i (d # ds) = (if dd_wValue d \<noteq> v then find_desc v i ds else if dd_wIndex d \<noteq> i then find_desc v i ds else Some d)"

definition com_get_descriptor :: "usb_request \<Rightarrow> 'a dbg_dev_scheme world \<Rightarrow> 'a dbg_dev_scheme \<Rightarrow> ('a dbg_dev_scheme, unit) run" where
  "com_get_descriptor r w s =
     (case find_desc (wValue r) (wIndex r) descriptor_list of
        None \<Rightarrow> Inr ((), dbg_stall s, w)
      | Some d \<Rightarrow>
          let len = (if wLength r < 256 then ucast (wLength r) else 255);
              len = (if len > dd_length d then dd_length d else len)
          in send_packets (dd_addr d) len w s)"

text \<open>The bank is free again after the host's turn in \<open>usb_wait_in_ready\<close>.\<close>

definition com_set_address :: "usb_request \<Rightarrow> 'a dbg_dev_scheme world \<Rightarrow> 'a dbg_dev_scheme \<Rightarrow> ('a dbg_dev_scheme, unit) run" where
  "com_set_address r w s =
     bind_run (usb_wait_in_ready w (usb_send_in s)) (\<lambda>_ s w. Inr ((), s\<lparr>UDADDR := ucast (wValue r OR push_bit ADDEN 1)\<rparr>, w))"

fun config_endpoints :: "u8 list \<Rightarrow> u8 list \<Rightarrow> 'a dbg_dev_scheme \<Rightarrow> 'a dbg_dev_scheme" where
  "config_endpoints [] cfg s = s"
| "config_endpoints (i # is) cfg s =
     (let s = set_UECONX (hd cfg) (uenum_write i s)
      in if hd cfg \<noteq> 0 then config_endpoints is (drop 3 cfg) (set_UECFG1X (cfg ! 2) (set_UECFG0X (cfg ! 1) s))
         else config_endpoints is (tl cfg) s)"

definition com_set_configuration :: "usb_request \<Rightarrow> 'a dbg_dev_scheme \<Rightarrow> 'a dbg_dev_scheme" where
  "com_set_configuration r s =
     uerst_write 0 (uerst_write 0x1E (config_endpoints [1, 2, 3, 4] endpoint_config_table
       (usb_send_in (s\<lparr>usb_configuration := ucast (wValue r)\<rparr>))))"

definition com_get_configuration :: "'a dbg_dev_scheme world \<Rightarrow> 'a dbg_dev_scheme \<Rightarrow> ('a dbg_dev_scheme, unit) run" where
  "com_get_configuration w s =
     bind_run (usb_wait_in_ready w s) (\<lambda>_ s w. Inr ((), usb_send_in (uedatx_write (usb_configuration s) s), w))"

definition com_get_status :: "usb_request \<Rightarrow> 'a dbg_dev_scheme world \<Rightarrow> 'a dbg_dev_scheme \<Rightarrow> ('a dbg_dev_scheme, unit) run" where
  "com_get_status r w s =
     bind_run (usb_wait_in_ready w s) (\<lambda>_ s w.
       let (i, s) = (if bmRequestType r = 0x82
                     then let s = uenum_write (ucast (wIndex r)) s
                          in (if bit (UECONX s) STALLRQ then 1 else 0, uenum_write 0 s)
                     else (0, s))
       in Inr ((), usb_send_in (uedatx_write 0 (uedatx_write i s)), w))"

definition com_feature :: "usb_request \<Rightarrow> u8 \<Rightarrow> 'a dbg_dev_scheme \<Rightarrow> 'a dbg_dev_scheme" where
  "com_feature r i s =
     (let s = uenum_write i (usb_send_in s)
      in if bRequest r = SET_FEATURE then dbg_stall s
         else uerst_write 0 (uerst_write (push_bit (unat i) 1)
                (set_UECONX (push_bit STALLRQC 1 OR push_bit RSTDT 1 OR push_bit EPEN 1) s)))"

text \<open>A report of zeros; its length loses the high byte of \<open>wLength\<close>.\<close>

definition com_get_report :: "usb_request \<Rightarrow> 'a dbg_dev_scheme world \<Rightarrow> 'a dbg_dev_scheme \<Rightarrow> ('a dbg_dev_scheme, unit) run" where
  "com_get_report r w s =
     (let len = ucast (wLength r) in send_packets (replicate (unat len) 0) len w s)"

definition com_request :: "usb_request \<Rightarrow> 'a dbg_dev_scheme world \<Rightarrow> 'a dbg_dev_scheme \<Rightarrow> ('a dbg_dev_scheme, unit) run" where
  "com_request r w s =
     (if bRequest r = GET_DESCRIPTOR then com_get_descriptor r w s
      else if bRequest r = SET_ADDRESS then com_set_address r w s
      else if bRequest r = SET_CONFIGURATION \<and> bmRequestType r = 0 then Inr ((), com_set_configuration r s, w)
      else if bRequest r = GET_CONFIGURATION \<and> bmRequestType r = 0x80 then com_get_configuration w s
      else if bRequest r = GET_STATUS then com_get_status r w s
      else
        let i = ucast (wIndex r) AND 0x7F
        in if (bRequest r = CLEAR_FEATURE \<or> bRequest r = SET_FEATURE) \<and> bmRequestType r = 0x02 \<and> wValue r = 0 \<and> 1 \<le> i \<and> i \<le> MAX_ENDPOINT
           then Inr ((), com_feature r i s, w)
           else if bRequest r = HID_GET_REPORT \<and> bmRequestType r = 0xA1 \<and> wIndex r = 0 then com_get_report r w s
           else Inr ((), dbg_stall s, w))"

text \<open>The eight bytes of the SETUP packet.\<close>

definition read_request :: "'a dbg_dev_scheme \<Rightarrow> usb_request \<times> 'a dbg_dev_scheme" where
  "read_request s =
     (let (t, s) = uedatx_read s; (q, s) = uedatx_read s;
          (v0, s) = uedatx_read s; (v1, s) = uedatx_read s;
          (i0, s) = uedatx_read s; (i1, s) = uedatx_read s;
          (l0, s) = uedatx_read s; (l1, s) = uedatx_read s
      in (\<lparr>bmRequestType = t, bRequest = q, wValue = ucast v0 OR push_bit 8 (ucast v1),
           wIndex = ucast i0 OR push_bit 8 (ucast i1), wLength = ucast l0 OR push_bit 8 (ucast l1)\<rparr>, s))"

definition dbg_COM_vect :: "'a dbg_dev_scheme world \<Rightarrow> 'a dbg_dev_scheme \<Rightarrow> ('a dbg_dev_scheme, unit) run" where
  "dbg_COM_vect w s =
     (let s = uenum_write 0 s
      in if bit (UEINTX s) RXSTPI then
           (case read_request s of (r, s) \<Rightarrow>
              com_request r w (set_UEINTX (NOT (push_bit RXSTPI 1 OR push_bit RXOUTI 1 OR push_bit TXINI 1)) s))
         else Inr ((), dbg_stall s, w))"

end
