(* ===== verification/UsbDebugStream.thy ===== *)
theory UsbDebugStream
  imports UsbDebug
begin

text \<open>
  What the debug channel does with the characters it is given: they reach the host in order and in full
  packets, a host that does not listen costs one wait of four frames, and the control requests are
  answered from the descriptor table.
\<close>

section \<open>The stream of endpoint 3\<close>

definition tx_ok :: "ep_regs \<Rightarrow> bool" where
  "tx_ok ep \<longleftrightarrow> ep_is_in ep \<and> \<not> ep_is_control ep \<and> ep_size ep = 32 \<and>
     (if bit (r_ueintx ep) FIFOCON then length (r_bank ep) < 32 \<and> r_tx ep = None else r_bank ep = []) \<and>
     (\<forall>p \<in> set (r_sent ep). length p = 32) \<and> (\<forall>p. r_tx ep = Some p \<longrightarrow> length p = 32)"

definition dbg_stream :: "'a usb_hw_scheme \<Rightarrow> u8 list" where
  "dbg_stream s = tx_stream (eps s 3)"

definition dbg_ok :: "'a usb_hw_scheme \<Rightarrow> bool" where
  "dbg_ok s \<longleftrightarrow> tx_ok (eps s 3)"

lemma FIFOCON_3A: "\<not> bit (0x3A :: int) FIFOCON" "\<not> bit (0x3A :: int) TXINI"
  by (simp_all add: FIFOCON_def TXINI_def bit_numeral_rec)

lemma send_bulk:
  assumes "ep_is_in ep" "\<not> ep_is_control ep"
  shows "ueintx_write 0x3A ep =
    (if bit (r_ueintx ep) FIFOCON then ep_commit (ep\<lparr>r_ueintx := r_ueintx ep AND set_bit RWAL 0x3A\<rparr>)
     else ep\<lparr>r_ueintx := r_ueintx ep AND set_bit RWAL 0x3A\<rparr>)"
  using assms by (simp add: ueintx_write_def Let_def FIFOCON_3A)

definition tx_send :: "ep_regs \<Rightarrow> ep_regs" where
  "tx_send ep = (let ep = (if ep_rwal ep then ep\<lparr>r_bank := r_bank ep @ replicate (32 - length (r_bank ep)) 0\<rparr> else ep)
     in ueintx_write 0x3A ep)"

lemma tx_rwal: "tx_ok ep \<Longrightarrow> ep_rwal ep \<longleftrightarrow> bit (r_ueintx ep) FIFOCON"
  by (auto simp: tx_ok_def ep_rwal_def)

lemma tx_send_ok:
  assumes "tx_ok ep"
  shows "tx_ok (tx_send ep)" "\<exists>k. tx_stream (tx_send ep) = tx_stream ep @ replicate k 0"
proof -
  have a: "ep_is_in ep" "\<not> ep_is_control ep" using assms by (simp_all add: tx_ok_def)
  have m: "ep_is_in (ep\<lparr>r_bank := b\<rparr>) = ep_is_in ep" "ep_is_control (ep\<lparr>r_bank := b\<rparr>) = ep_is_control ep" for b
    by (simp_all add: ep_is_in_def ep_is_control_def)
  show "tx_ok (tx_send ep)" "\<exists>k. tx_stream (tx_send ep) = tx_stream ep @ replicate k 0"
    using assms
    by (auto simp: tx_send_def Let_def tx_rwal send_bulk a m ep_commit_def FIFOCON_3A tx_ok_def ep_is_in_def ep_is_control_def
        ep_size_def bit_and_iff tx_stream_def intro: exI [of _ 0])
qed

lemma tx_write_ok:
  assumes "tx_ok ep" "ep_rwal ep"
  shows "tx_ok (if ep_rwal (ep_push c ep) then ep_push c ep else ueintx_write 0x3A (ep_push c ep))"
    "tx_stream (if ep_rwal (ep_push c ep) then ep_push c ep else ueintx_write 0x3A (ep_push c ep)) = tx_stream ep @ [c]"
proof -
  have a: "ep_is_in ep" "\<not> ep_is_control ep" "ep_size ep = 32" "bit (r_ueintx ep) FIFOCON" "length (r_bank ep) < 32" "r_tx ep = None"
    using assms by (auto simp: tx_ok_def ep_rwal_def split: if_splits)
  have p: "ep_push c ep = ep\<lparr>r_bank := r_bank ep @ [c]\<rparr>" using a by (simp add: ep_push_def)
  have q: "ep_rwal (ep\<lparr>r_bank := r_bank ep @ [c]\<rparr>) \<longleftrightarrow> Suc (length (r_bank ep)) < 32"
    using a by (simp add: ep_rwal_def ep_is_in_def ep_size_def)
  have m: "ep_is_in (ep\<lparr>r_bank := b\<rparr>)" "\<not> ep_is_control (ep\<lparr>r_bank := b\<rparr>)" for b
    using a by (simp_all add: ep_is_in_def ep_is_control_def)
  show "tx_ok (if ep_rwal (ep_push c ep) then ep_push c ep else ueintx_write 0x3A (ep_push c ep))"
    "tx_stream (if ep_rwal (ep_push c ep) then ep_push c ep else ueintx_write 0x3A (ep_push c ep)) = tx_stream ep @ [c]"
    using assms a
    by (auto simp: p q send_bulk m ep_commit_def FIFOCON_3A tx_ok_def ep_is_in_def ep_is_control_def ep_size_def bit_and_iff tx_stream_def)
qed

lemma pad_loop_room:
  assumes "UENUM s = 3" "ep_is_in (eps s 3)" "bit (r_ueintx (eps s 3)) FIFOCON" "length (r_bank (eps s 3)) + k = ep_size (eps s 3)" "k < fuel"
  shows "pad_loop fuel s = Inr (upd_ep 3 (\<lambda>ep. ep\<lparr>r_bank := r_bank ep @ replicate k 0\<rparr>) s)"
  using assms
proof (induction fuel arbitrary: s k)
  case (Suc fuel)
  have c: "cur s = eps s 3" using Suc.prems(1) by (simp add: cur_def)
  show ?case
  proof (cases k)
    case 0
    then have "upd_ep 3 (\<lambda>ep. ep\<lparr>r_bank := r_bank ep @ replicate k 0\<rparr>) s = s" by (simp add: upd_ep_def)
    with 0 Suc.prems c show ?thesis by (simp add: UEINTX_def ep_rwal_def)
  next
    case (Suc j)
    have w: "uedatx_write 0 s = upd_ep 3 (\<lambda>ep. ep\<lparr>r_bank := r_bank ep @ [0]\<rparr>) s"
      using Suc.prems Suc c by (simp add: uedatx_write_def upd_cur_def upd_ep_def)
    have "pad_loop fuel (uedatx_write 0 s) = Inr (upd_ep 3 (\<lambda>ep. ep\<lparr>r_bank := r_bank ep @ replicate j 0\<rparr>) (uedatx_write 0 s))"
      by (rule Suc.IH) (use Suc.prems Suc in \<open>simp_all add: w ep_is_in_def ep_size_def\<close>)
    with Suc.prems Suc c show ?thesis by (simp add: UEINTX_def ep_rwal_def w upd_ep_upd_ep)
  qed
qed simp

lemma pad_loop_stop: "\<not> ep_rwal (cur s) \<Longrightarrow> 0 < fuel \<Longrightarrow> pad_loop fuel s = Inr s"
  by (cases fuel) (simp_all add: UEINTX_def)

text \<open>Padding and sending, the part that the flush and the start of frame share.\<close>

lemma pad_send:
  assumes "tx_ok (eps s 3)"
  shows "\<exists>s'. pad_loop pad_fuel (uenum_write DEBUG_TX_ENDPOINT s) = Inr s' \<and>
    set_UEINTX 0x3A s' = upd_ep 3 tx_send (uenum_write DEBUG_TX_ENDPOINT s)"
proof -
  let ?s = "uenum_write DEBUG_TX_ENDPOINT s"
  have u: "UENUM ?s = 3" "eps ?s = eps s" by (simp_all add: uenum_write_def DEBUG_TX_ENDPOINT_def)
  show ?thesis
  proof (cases "ep_rwal (eps s 3)")
    case True
    then have "length (r_bank (eps s 3)) + (32 - length (r_bank (eps s 3))) = ep_size (eps s 3)" "ep_is_in (eps s 3)"
      "bit (r_ueintx (eps s 3)) FIFOCON" using assms by (auto simp: tx_ok_def ep_rwal_def)
    then have "pad_loop pad_fuel ?s = Inr (upd_ep 3 (\<lambda>ep. ep\<lparr>r_bank := r_bank ep @ replicate (32 - length (r_bank (eps s 3))) 0\<rparr>) ?s)"
      using u by (intro pad_loop_room) (simp_all add: pad_fuel_def)
    with True u show ?thesis by (simp add: set_UEINTX_def upd_cur_def upd_ep_def tx_send_def)
  next
    case False
    then have "pad_loop pad_fuel ?s = Inr ?s"
      using u by (intro pad_loop_stop) (simp_all add: pad_fuel_def cur_def)
    with False u show ?thesis by (simp add: set_UEINTX_def upd_cur_def upd_ep_def tx_send_def)
  qed
qed

section \<open>Nothing is lost\<close>

text \<open>Some zeros may follow what was there before.\<close>

definition grows :: "'a usb_hw_scheme \<Rightarrow> 'a usb_hw_scheme \<Rightarrow> bool" where
  "grows s t \<longleftrightarrow> dbg_ok t \<and> (\<exists>k. dbg_stream t = dbg_stream s @ replicate k 0)"

definition dbg_event :: "('a usb_hw_scheme \<Rightarrow> 'a usb_hw_scheme) \<Rightarrow> bool" where
  "dbg_event e \<longleftrightarrow> (\<forall>s. dbg_ok s \<longrightarrow> grows s (e s))"

lemma grows_refl: "dbg_ok s \<Longrightarrow> grows s s"
  by (auto simp: grows_def intro: exI [of _ 0])

lemma grows_trans: "grows s t \<Longrightarrow> grows t u \<Longrightarrow> grows s u"
  by (auto simp: grows_def replicate_add [symmetric])

lemma grows_eps: "eps t 3 = eps u 3 \<Longrightarrow> grows s t = grows s u" "eps t 3 = eps u 3 \<Longrightarrow> grows t s = grows u s"
  "eps t 3 = eps u 3 \<Longrightarrow> dbg_ok t = dbg_ok u"
  by (simp_all add: grows_def dbg_ok_def dbg_stream_def)

lemma grows_send: "dbg_ok s \<Longrightarrow> eps t 3 = tx_send (eps s 3) \<Longrightarrow> grows s t"
  using tx_send_ok [of "eps s 3"] by (simp add: grows_def dbg_ok_def dbg_stream_def)

lemma uenum_write_eps [simp]: "eps (uenum_write v s) = eps s" "UENUM (uenum_write DEBUG_TX_ENDPOINT s) = 3"
  by (simp_all add: uenum_write_def DEBUG_TX_ENDPOINT_def)

lemma cli_eps [simp]: "eps (cli s) = eps s" "UENUM (cli s) = UENUM s"
  by (simp_all add: cli_def)

lemma flush_grows:
  assumes "dbg_ok s"
  shows "\<exists>s'. usb_debug_flush_output s = Inr s' \<and> grows s s'"
proof (cases "debug_flush_timer (cli s) = 0")
  case True
  then show ?thesis
    using assms by (simp add: usb_debug_flush_output_def Let_def grows_eps(1) [of "cli s\<lparr>SREG := SREG s\<rparr>" s] grows_refl)
next
  case False
  have "tx_ok (eps (cli s) 3)" using assms by (simp add: dbg_ok_def)
  then obtain t where t: "pad_loop pad_fuel (uenum_write DEBUG_TX_ENDPOINT (cli s)) = Inr t"
    "set_UEINTX 0x3A t = upd_ep 3 tx_send (uenum_write DEBUG_TX_ENDPOINT (cli s))" using pad_send by blast
  let ?t = "(set_UEINTX 0x3A t)\<lparr>debug_flush_timer := 0, SREG := SREG s\<rparr>"
  have "grows s ?t" using assms by (rule grows_send) (simp add: t(2))
  with False t(1) show ?thesis by (simp add: usb_debug_flush_output_def Let_def)
qed

lemma sof_grows:
  assumes "dbg_ok s"
  shows "\<exists>s'. dbg_sof s = Inr s' \<and> grows s s'"
proof (cases "usb_configuration s \<noteq> 0 \<and> debug_flush_timer s \<noteq> 0")
  case False
  then have "dbg_sof s = Inr s" by (auto simp: dbg_sof_def)
  with assms show ?thesis by (simp add: grows_refl)
next
  case True
  let ?s = "s\<lparr>debug_flush_timer := debug_flush_timer s - 1\<rparr>"
  show ?thesis
  proof (cases "debug_flush_timer s - 1 = 0")
    case True': False
    with True assms show ?thesis by (simp add: dbg_sof_def Let_def grows_eps(1) [of ?s s] grows_refl)
  next
    case False': True
    have "tx_ok (eps ?s 3)" using assms by (simp add: dbg_ok_def)
    then obtain t where t: "pad_loop pad_fuel (uenum_write DEBUG_TX_ENDPOINT ?s) = Inr t"
      "set_UEINTX 0x3A t = upd_ep 3 tx_send (uenum_write DEBUG_TX_ENDPOINT ?s)" using pad_send by blast
    have "grows s (set_UEINTX 0x3A t)" using assms by (rule grows_send) (simp add: t(2))
    with True False' t(1) show ?thesis by (simp add: dbg_sof_def Let_def)
  qed
qed

lemma GEN_grows:
  assumes "dbg_ok s" "\<not> bit (UDINT s) EORSTI"
  shows "\<exists>s'. dbg_GEN_vect s = Inr s' \<and> grows s s'"
proof -
  have "dbg_ok (s\<lparr>UDINT := 0\<rparr>)" using assms(1) by (simp add: dbg_ok_def)
  from sof_grows [OF this] grows_refl [OF this] assms(2) show ?thesis
    by (auto simp: dbg_GEN_vect_def Let_def grows_eps(2) [of s "s\<lparr>UDINT := 0\<rparr>"])
qed

lemma putchar_write_stream:
  assumes "dbg_ok s" "UENUM s = 3" "bit (UEINTX s) RWAL"
  shows "dbg_ok (putchar_write c i s)" "dbg_stream (putchar_write c i s) = dbg_stream s @ [c]"
proof -
  have r: "ep_rwal (eps s 3)" and k: "tx_ok (eps s 3)" using assms by (simp_all add: UEINTX_def cur_def dbg_ok_def)
  have w: "uedatx_write c s = upd_cur (ep_push c) s" by (simp add: uedatx_write_def ep_push_def [abs_def])
  have "eps (putchar_write c i s) 3 = (if ep_rwal (ep_push c (eps s 3)) then ep_push c (eps s 3) else ueintx_write 0x3A (ep_push c (eps s 3)))"
    using assms(2) by (simp add: putchar_write_def Let_def w UEINTX_def set_UEINTX_def) (simp add: cur_def)
  with tx_write_ok [OF k r, of c] show "dbg_ok (putchar_write c i s)" "dbg_stream (putchar_write c i s) = dbg_stream s @ [c]"
    by (simp_all add: dbg_ok_def dbg_stream_def)
qed

definition putchar_inv :: "'a dbg_dev_scheme \<Rightarrow> u8 option \<Rightarrow> 'a dbg_dev_scheme \<Rightarrow> bool" where
  "putchar_inv s0 l s \<longleftrightarrow> dbg_ok s \<and> grows s0 s \<and> (l \<noteq> None \<longrightarrow> UENUM s = 3)"

lemma putchar_pass_exit:
  assumes "putchar_inv s0 l s" "putchar_pass timeout l s = Inl (r, s')"
  shows "dbg_ok s' \<and> grows s0 s' \<and> (r \<noteq> None \<longrightarrow> UENUM s' = 3 \<and> bit (UEINTX s') RWAL)"
proof (cases l)
  case (Some i)
  with assms show ?thesis
    by (auto simp: putchar_pass_def putchar_inv_def Let_def dbg_ok_def grows_def dbg_stream_def split: if_splits)
next
  case None
  with assms show ?thesis
    by (auto simp: putchar_pass_def putchar_inv_def Let_def dbg_ok_def grows_def dbg_stream_def split: if_splits)
qed

lemma putchar_pass_round:
  assumes "putchar_inv s0 l s" "putchar_pass timeout l s = Inr (l', s')" "dbg_event e"
  shows "putchar_inv s0 l' (e s')"
proof -
  have l': "l' = None" using assms(2) by (auto simp: putchar_pass_def Let_def split: if_splits option.splits)
  have "eps s' = eps s" using assms(2) by (auto simp: putchar_pass_def Let_def split: if_splits option.splits)
  with assms(1) have "dbg_ok s'" "grows s0 s'" by (simp_all add: putchar_inv_def dbg_ok_def grows_def dbg_stream_def)
  with assms(3) have "grows s' (e s')" by (simp add: dbg_event_def)
  moreover from this have "dbg_ok (e s')" by (simp add: grows_def)
  ultimately show ?thesis using grows_trans [OF \<open>grows s0 s'\<close>] l' by (simp add: putchar_inv_def)
qed

lemma putchar_stream:
  assumes "dbg_ok s" "\<And>e. e \<in> set w \<Longrightarrow> dbg_event e" "usb_debug_putchar c w s = Inr (r, s', w')"
  shows "dbg_ok s'" "(r = 0 \<and> (\<exists>k. dbg_stream s' = dbg_stream s @ replicate k 0 @ [c])) \<or> (r = -1 \<and> (\<exists>k. dbg_stream s' = dbg_stream s @ replicate k 0))"
proof -
  have "dbg_ok s' \<and> ((r = 0 \<and> (\<exists>k. dbg_stream s' = dbg_stream s @ replicate k 0 @ [c])) \<or> (r = -1 \<and> (\<exists>k. dbg_stream s' = dbg_stream s @ replicate k 0)))"
  proof (cases "usb_configuration s = 0 \<or> (previous_timeout s \<noteq> 0 \<and> \<not> bit (UEINTX (uenum_write DEBUG_TX_ENDPOINT (cli s))) RWAL)")
    case True
    then have "r = -1" "eps s' = eps s"
      using assms(3) by (auto simp: usb_debug_putchar_def Let_def cli_def uenum_write_def split: if_splits)
    with assms(1) show ?thesis by (auto simp: dbg_ok_def dbg_stream_def intro: exI [of _ 0])
  next
    case False
    let ?s = "uenum_write DEBUG_TX_ENDPOINT (cli s)"
    let ?t = "if previous_timeout ?s \<noteq> 0 then ?s\<lparr>previous_timeout := 0\<rparr> else ?s"
    have t: "eps ?t = eps s" "UENUM ?t = 3" by simp_all
    have inv: "putchar_inv s (Some (SREG s)) ?t"
      using assms(1) t by (auto simp: putchar_inv_def dbg_ok_def grows_def dbg_stream_def intro: exI [of _ 0])
    have p: "previous_timeout ?s = previous_timeout s" by (simp add: uenum_write_def cli_def)
    obtain q u v where run: "poll_until (putchar_pass (UDFNUML ?t + 4)) (Some (SREG s)) w ?t = Inr (q, u, v)"
      and r: "(r, s', w') = (case q of None \<Rightarrow> (-1, u, v) | Some i \<Rightarrow> (0, putchar_write c i u, v))"
      using assms(3) False p
      by (cases "poll_until (putchar_pass (UDFNUML ?t + 4)) (Some (SREG s)) w ?t")
        (auto simp: usb_debug_putchar_def Let_def split: option.splits)
    have u: "dbg_ok u \<and> grows s u \<and> (q \<noteq> None \<longrightarrow> UENUM u = 3 \<and> bit (UEINTX u) RWAL)"
      by (rule poll_until_inv_loop [where P = "putchar_inv s" and Q = "\<lambda>q u. dbg_ok u \<and> grows s u \<and> (q \<noteq> None \<longrightarrow> UENUM u = 3 \<and> bit (UEINTX u) RWAL)", OF run inv])
        (use putchar_pass_exit putchar_pass_round assms(2) in blast)+
    show ?thesis
    proof (cases q)
      case None
      with u r show ?thesis by (auto simp: grows_def)
    next
      case (Some i)
      with u r putchar_write_stream [of u c i] show ?thesis by (auto simp: grows_def)
    qed
  qed
  then show "dbg_ok s'" "(r = 0 \<and> (\<exists>k. dbg_stream s' = dbg_stream s @ replicate k 0 @ [c])) \<or> (r = -1 \<and> (\<exists>k. dbg_stream s' = dbg_stream s @ replicate k 0))"
    by auto
qed

text \<open>What the host and the frame counter do; the interrupt comes only when it is enabled.\<close>

definition collect :: "nat \<Rightarrow> 'a usb_hw_scheme \<Rightarrow> 'a usb_hw_scheme" where
  "collect n s = (case host_in n s of None \<Rightarrow> s | Some (p, s) \<Rightarrow> s)"

definition tick :: "'a dbg_dev_scheme \<Rightarrow> 'a dbg_dev_scheme" where
  "tick s = s\<lparr>UDFNUML := UDFNUML s + 1\<rparr>"

definition frame_interrupt :: "'a dbg_dev_scheme \<Rightarrow> 'a dbg_dev_scheme" where
  "frame_interrupt s =
     (if bit (SREG s) 7 then (case dbg_GEN_vect ((tick s)\<lparr>UDINT := push_bit SOFI 1\<rparr>) of Inl e \<Rightarrow> s | Inr s \<Rightarrow> s) else tick s)"

lemma collect_event: "dbg_event (collect 3)"
proof -
  have "grows s (collect 3 s)" if "dbg_ok s" for s :: "'a usb_hw_scheme"
  proof (cases "r_tx (eps s 3)")
    case None
    with that show ?thesis by (simp add: collect_def host_in_def grows_refl)
  next
    case (Some p)
    with that show ?thesis
      by (auto simp: collect_def host_in_def grows_def dbg_ok_def dbg_stream_def tx_ok_def tx_stream_def ep_is_in_def ep_is_control_def ep_size_def
          split: if_splits)
  qed
  then show ?thesis by (simp add: dbg_event_def)
qed

lemma frame_event: "dbg_event frame_interrupt"
proof -
  have "grows s (frame_interrupt s)" if "dbg_ok s" for s :: "'a dbg_dev_scheme"
  proof -
    let ?t = "(tick s)\<lparr>UDINT := push_bit SOFI 1\<rparr>"
    have e: "eps ?t = eps s" "eps (tick s) = eps s" by (simp_all add: tick_def)
    then have "dbg_ok ?t" using that by (simp add: dbg_ok_def)
    moreover have "\<not> bit (UDINT ?t) EORSTI" by (simp add: dbg_bits bit_numeral_rec)
    ultimately obtain s' where "dbg_GEN_vect ?t = Inr s'" "grows ?t s'" using GEN_grows by blast
    moreover from this(2) have "grows s s'" by (simp only: grows_eps(2) [OF fun_cong [OF e(1)]])
    moreover have "grows s (tick s)" using that e by (simp add: grows_eps(1) [of "tick s" s] grows_refl)
    ultimately show ?thesis by (simp add: frame_interrupt_def)
  qed
  then show ?thesis by (simp add: dbg_event_def)
qed

text \<open>C24: whatever the host collects and however many frames pass meanwhile, a character the debug channel
  accepts is appended to what reaches the host and one it refuses is not; flushing, by the program or by
  the start of frame, terminates and appends only zeros; and all packets have 32 bytes.\<close>

theorem debug_channel_keeps_order:
  assumes "dbg_ok s" "\<forall>e \<in> set w. dbg_event e"
  shows "(\<forall>r s' w'. usb_debug_putchar c w s = Inr (r, s', w') \<longrightarrow> dbg_ok s' \<and>
      ((r = 0 \<and> (\<exists>k. dbg_stream s' = dbg_stream s @ replicate k 0 @ [c])) \<or> (r = -1 \<and> (\<exists>k. dbg_stream s' = dbg_stream s @ replicate k 0)))) \<and>
    (\<exists>s'. usb_debug_flush_output s = Inr s' \<and> dbg_ok s' \<and> (\<exists>k. dbg_stream s' = dbg_stream s @ replicate k 0)) \<and>
    (\<not> bit (UDINT s) EORSTI \<longrightarrow> (\<exists>s'. dbg_GEN_vect s = Inr s' \<and> dbg_ok s' \<and> (\<exists>k. dbg_stream s' = dbg_stream s @ replicate k 0))) \<and>
    (\<forall>p \<in> set (r_sent (eps s 3)). length p = 32)"
  using putchar_stream [OF assms(1), of w] assms(2) flush_grows [OF assms(1)] GEN_grows [OF assms(1)] assms(1)
  by (simp add: grows_def) (auto simp: dbg_ok_def tx_ok_def)

section \<open>A host that does not listen\<close>

definition ticks :: "bool list \<Rightarrow> 'a dbg_dev_scheme world" where
  "ticks bs = map (\<lambda>b. if b then tick else id) bs"

definition stuck :: "'a dbg_dev_scheme \<Rightarrow> bool" where
  "stuck s \<longleftrightarrow> UENUM s = 3 \<and> usb_configuration s \<noteq> 0 \<and> \<not> ep_rwal (eps s 3)"

lemma putchar_pass_stuck:
  assumes "stuck s"
  shows "putchar_pass t None s = (if UDFNUML s = t then Inl (None, s\<lparr>previous_timeout := 1\<rparr>) else Inr (None, s))"
proof -
  have "(uenum_write DEBUG_TX_ENDPOINT (cli s))\<lparr>SREG := SREG s\<rparr> = s"
    using assms by (simp add: stuck_def uenum_write_def DEBUG_TX_ENDPOINT_def cli_def)
  moreover have "\<not> bit (UEINTX (uenum_write DEBUG_TX_ENDPOINT (cli s))) RWAL"
    using assms by (simp add: stuck_def UEINTX_def cur_def)
  ultimately show ?thesis using assms by (simp add: putchar_pass_def Let_def stuck_def)
qed

lemma putchar_wait_stuck:
  assumes "stuck s"
  shows "poll_until (putchar_pass t) None (ticks bs) s =
    (if t = UDFNUML s then Inr (None, s\<lparr>previous_timeout := 1\<rparr>, ticks bs)
     else if count_list bs True < unat (t - UDFNUML s) then Inl Waiting
     else Inr (None, s\<lparr>UDFNUML := t, previous_timeout := 1\<rparr>, ticks (after_frames (unat (t - UDFNUML s) - 1) bs)))"
  using assms
proof (induction bs arbitrary: s)
  case Nil
  show ?case
  proof (cases "t = UDFNUML s")
    case True
    then have "putchar_pass t None s = Inl (None, s\<lparr>previous_timeout := 1\<rparr>)" using putchar_pass_stuck [OF Nil, of t] by simp
    from poll_until_exit [of "putchar_pass t", OF this] True show ?thesis by simp
  next
    case False
    then have "putchar_pass t None s = Inr (None, s)" using putchar_pass_stuck [OF Nil, of t] by simp
    from poll_until_end [of "putchar_pass t", OF this] False show ?thesis by (simp add: ticks_def unat_gt_0)
  qed
next
  case (Cons b bs)
  show ?case
  proof (cases "t = UDFNUML s")
    case True
    then have "putchar_pass t None s = Inl (None, s\<lparr>previous_timeout := 1\<rparr>)" using putchar_pass_stuck [OF Cons.prems, of t] by simp
    from poll_until_exit [of "putchar_pass t", OF this] True show ?thesis by simp
  next
    case False
    have w: "ticks (b # bs) = (if b then tick else id) # ticks bs" by (simp add: ticks_def)
    have r: "poll_until (putchar_pass t) None (ticks (b # bs)) s = poll_until (putchar_pass t) None (ticks bs) ((if b then tick else id) s)"
      unfolding w using False by (intro poll_until_round) (simp add: putchar_pass_stuck [OF Cons.prems])
    show ?thesis
    proof (cases b)
      case False': False
      then show ?thesis unfolding r using Cons.IH [OF Cons.prems] False by simp
    next
      case True
      have st: "stuck (tick s)" using Cons.prems by (simp add: stuck_def tick_def)
      have d: "t - UDFNUML (tick s) = t - UDFNUML s - 1" by (simp add: tick_def)
      have g: "t - UDFNUML s \<noteq> 0" using False by simp
      then have u: "unat (t - UDFNUML (tick s)) = unat (t - UDFNUML s) - 1" unfolding d by (rule unat_minus_one)
      show ?thesis
      proof (cases "t = UDFNUML (tick s)")
        case one: True
        then have "unat (t - UDFNUML s) = 1" using u g unat_gt_0 [of "t - UDFNUML s"] by simp
        moreover have "(tick s)\<lparr>previous_timeout := 1\<rparr> = s\<lparr>UDFNUML := t, previous_timeout := 1\<rparr>"
          unfolding one by (simp add: tick_def)
        moreover have "poll_until (putchar_pass t) None (ticks bs) (tick s) = Inr (None, (tick s)\<lparr>previous_timeout := 1\<rparr>, ticks bs)"
          by (rule trans [OF Cons.IH [OF st] if_P [OF one]])
        ultimately show ?thesis unfolding r using True False by (simp only: if_True if_False) simp
      next
        case more: False
        then have "unat (t - UDFNUML (tick s)) \<noteq> 0" by (simp add: unat_eq_0)
        then obtain m where m2: "unat (t - UDFNUML (tick s)) = Suc m" by (cases "unat (t - UDFNUML (tick s))") simp_all
        with u have m: "unat (t - UDFNUML s) = Suc (Suc m)" by simp
        have e: "(tick s)\<lparr>UDFNUML := t, previous_timeout := 1\<rparr> = s\<lparr>UDFNUML := t, previous_timeout := 1\<rparr>" by (simp add: tick_def)
        have "poll_until (putchar_pass t) None (ticks bs) (tick s) =
            (if count_list bs True < Suc m then Inl Waiting
             else Inr (None, (tick s)\<lparr>UDFNUML := t, previous_timeout := 1\<rparr>, ticks (after_frames m bs)))"
          using trans [OF Cons.IH [OF st] if_not_P [OF more]] unfolding m2 by simp
        then show ?thesis unfolding r e m using True False by simp
      qed
    qed
  qed
qed

text \<open>With the bank of a configured channel full and a host that collects nothing, a character is refused at
  exactly the fourth new frame, and from then on every further character at once, without a wait.\<close>

lemma putchar_gives_up:
  assumes "usb_configuration s \<noteq> 0" "previous_timeout s = 0" "\<not> ep_rwal (eps s 3)"
  shows "usb_debug_putchar c (ticks bs) s =
      (if count_list bs True < 4 then Inl Waiting
       else Inr (-1, s\<lparr>UENUM := 3, UDFNUML := UDFNUML s + 4, previous_timeout := 1\<rparr>, ticks (after_frames 3 bs))) \<and>
    usb_debug_putchar d w (s\<lparr>UENUM := 3, UDFNUML := UDFNUML s + 4, previous_timeout := 1\<rparr>) =
      Inr (-1, s\<lparr>UENUM := 3, UDFNUML := UDFNUML s + 4, previous_timeout := 1\<rparr>, w)"
proof
  let ?s = "uenum_write DEBUG_TX_ENDPOINT (cli s)"
  let ?u = "s\<lparr>UENUM := 3\<rparr>"
  have st: "stuck ?u" using assms by (simp add: stuck_def)
  have u: "?s\<lparr>SREG := SREG s\<rparr> = ?u" by (simp add: uenum_write_def cli_def DEBUG_TX_ENDPOINT_def)
  have r: "\<not> bit (UEINTX ?s) RWAL" using assms(3) by (simp add: UEINTX_def cur_def)
  have f: "UDFNUML ?s = UDFNUML s" "previous_timeout ?s = 0" "usb_configuration ?s = usb_configuration s"
    using assms(2) by (simp_all add: uenum_write_def cli_def)
  have n4: "UDFNUML s \<noteq> UDFNUML s + 4" "UDFNUML s + 4 \<noteq> UDFNUML s" by simp_all
  have first: "putchar_pass (UDFNUML s + 4) (Some (SREG s)) ?s = Inr (None, ?u)"
    using r assms(1) u by (simp add: putchar_pass_def Let_def f n4)
  have "poll_until (putchar_pass (UDFNUML s + 4)) (Some (SREG s)) (ticks bs) ?s =
    poll_until (putchar_pass (UDFNUML s + 4)) None (ticks bs) ?u"
    using first putchar_pass_stuck [OF st, of "UDFNUML s + 4"] n4
    by (cases "ticks bs :: 'a dbg_dev_scheme world") (simp_all add: poll_until_end poll_until_round)
  with putchar_wait_stuck [OF st, of "UDFNUML s + 4" bs] n4
  show "usb_debug_putchar c (ticks bs) s =
      (if count_list bs True < 4 then Inl Waiting
       else Inr (-1, s\<lparr>UENUM := 3, UDFNUML := UDFNUML s + 4, previous_timeout := 1\<rparr>, ticks (after_frames 3 bs)))"
    using assms(1) by (simp add: usb_debug_putchar_def Let_def f)
  show "usb_debug_putchar d w (s\<lparr>UENUM := 3, UDFNUML := UDFNUML s + 4, previous_timeout := 1\<rparr>) =
      Inr (-1, s\<lparr>UENUM := 3, UDFNUML := UDFNUML s + 4, previous_timeout := 1\<rparr>, w)"
    using assms by (simp add: usb_debug_putchar_def Let_def uenum_write_def cli_def DEBUG_TX_ENDPOINT_def UEINTX_def cur_def)
qed

end
