(* ===== verification/HidParser.thy ===== *)
theory HidParser
  imports Prelude
begin

text \<open>
  The HID report descriptor parser of the library, \<open>HIDParser.c\<close> with \<open>HIDParser.h\<close>,
  \<open>HIDReportData.h\<close> and \<open>HID.h\<close>: the tables it fills, one function per kind of item, the loop over the
  descriptor, and the accessors of a report's fields. Pointers into the tables are indices. An access
  outside an array or past the end of the descriptor is a fault.
\<close>

section \<open>Item codes\<close>

definition IOF_CONSTANT :: u32 where "IOF_CONSTANT = 0x01"
definition DATA_SIZE_MASK :: u8 where "DATA_SIZE_MASK = 0x03"
definition TYPE_MASK :: u8 where "TYPE_MASK = 0x0C"
definition TAG_MASK :: u8 where "TAG_MASK = 0xF0"
definition DATA_SIZE_1 :: u8 where "DATA_SIZE_1 = 0x01"
definition DATA_SIZE_2 :: u8 where "DATA_SIZE_2 = 0x02"
definition DATA_SIZE_4 :: u8 where "DATA_SIZE_4 = 0x03"
definition TYPE_MAIN :: u8 where "TYPE_MAIN = 0x00"
definition TYPE_GLOBAL :: u8 where "TYPE_GLOBAL = 0x04"
definition TYPE_LOCAL :: u8 where "TYPE_LOCAL = 0x08"
definition TAG_MAIN_INPUT :: u8 where "TAG_MAIN_INPUT = 0x80"
definition TAG_MAIN_OUTPUT :: u8 where "TAG_MAIN_OUTPUT = 0x90"
definition TAG_MAIN_COLLECTION :: u8 where "TAG_MAIN_COLLECTION = 0xA0"
definition TAG_MAIN_FEATURE :: u8 where "TAG_MAIN_FEATURE = 0xB0"
definition TAG_MAIN_ENDCOLLECTION :: u8 where "TAG_MAIN_ENDCOLLECTION = 0xC0"
definition TAG_GLOBAL_USAGEPAGE :: u8 where "TAG_GLOBAL_USAGEPAGE = 0x00"
definition TAG_GLOBAL_LOGICALMIN :: u8 where "TAG_GLOBAL_LOGICALMIN = 0x10"
definition TAG_GLOBAL_LOGICALMAX :: u8 where "TAG_GLOBAL_LOGICALMAX = 0x20"
definition TAG_GLOBAL_PHYSMIN :: u8 where "TAG_GLOBAL_PHYSMIN = 0x30"
definition TAG_GLOBAL_PHYSMAX :: u8 where "TAG_GLOBAL_PHYSMAX = 0x40"
definition TAG_GLOBAL_UNITEXP :: u8 where "TAG_GLOBAL_UNITEXP = 0x50"
definition TAG_GLOBAL_UNIT :: u8 where "TAG_GLOBAL_UNIT = 0x60"
definition TAG_GLOBAL_REPORTSIZE :: u8 where "TAG_GLOBAL_REPORTSIZE = 0x70"
definition TAG_GLOBAL_REPORTID :: u8 where "TAG_GLOBAL_REPORTID = 0x80"
definition TAG_GLOBAL_REPORTCOUNT :: u8 where "TAG_GLOBAL_REPORTCOUNT = 0x90"
definition TAG_GLOBAL_PUSH :: u8 where "TAG_GLOBAL_PUSH = 0xA0"
definition TAG_GLOBAL_POP :: u8 where "TAG_GLOBAL_POP = 0xB0"
definition TAG_LOCAL_USAGE :: u8 where "TAG_LOCAL_USAGE = 0x00"
definition TAG_LOCAL_USAGEMIN :: u8 where "TAG_LOCAL_USAGEMIN = 0x10"
definition TAG_LOCAL_USAGEMAX :: u8 where "TAG_LOCAL_USAGEMAX = 0x20"

lemmas hid_tags = IOF_CONSTANT_def
  DATA_SIZE_MASK_def
  TYPE_MASK_def
  TAG_MASK_def
  DATA_SIZE_1_def
  DATA_SIZE_2_def
  DATA_SIZE_4_def
  TYPE_MAIN_def
  TYPE_GLOBAL_def
  TYPE_LOCAL_def
  TAG_MAIN_INPUT_def
  TAG_MAIN_OUTPUT_def
  TAG_MAIN_COLLECTION_def
  TAG_MAIN_FEATURE_def
  TAG_MAIN_ENDCOLLECTION_def
  TAG_GLOBAL_USAGEPAGE_def
  TAG_GLOBAL_LOGICALMIN_def
  TAG_GLOBAL_LOGICALMAX_def
  TAG_GLOBAL_PHYSMIN_def
  TAG_GLOBAL_PHYSMAX_def
  TAG_GLOBAL_UNITEXP_def
  TAG_GLOBAL_UNIT_def
  TAG_GLOBAL_REPORTSIZE_def
  TAG_GLOBAL_REPORTID_def
  TAG_GLOBAL_REPORTCOUNT_def
  TAG_GLOBAL_PUSH_def
  TAG_GLOBAL_POP_def
  TAG_LOCAL_USAGE_def
  TAG_LOCAL_USAGEMIN_def
  TAG_LOCAL_USAGEMAX_def

section \<open>Tables\<close>

record hid_minmax =
  mm_Minimum :: u32
  mm_Maximum :: u32

record hid_unit =
  un_Type :: u32
  un_Exponent :: u8

record hid_usage =
  us_Page :: u16
  us_Usage :: u16
  us_MinMax :: hid_minmax

record hid_collection =
  co_Type :: u8
  co_Usage :: hid_usage
  co_Parent :: "nat option"

record hid_attributes =
  at_BitSize :: u8
  at_Usage :: hid_usage
  at_Unit :: hid_unit
  at_Logical :: hid_minmax
  at_Physical :: hid_minmax

record hid_item =
  it_BitOffset :: u16
  it_ItemType :: u8
  it_ItemFlags :: u16
  it_ReportID :: u8
  it_CollectionPath :: "nat option"
  it_Attributes :: hid_attributes
  it_Value :: u32

record hid_size_info =
  sz_ReportID :: u8
  sz_ReportSizeBits :: "u8 list"

record hid_info =
  hi_TotalReportItems :: u8
  hi_ReportItems :: "hid_item list"
  hi_CollectionPaths :: "hid_collection list"
  hi_TotalDeviceReports :: u8
  hi_ReportIDSizes :: "hid_size_info list"
  hi_LargestReportSizeBits :: u16
  hi_UsingReportIDs :: bool

record hid_table =
  ta_Attributes :: hid_attributes
  ta_ReportCount :: u8
  ta_ReportID :: u8

definition HID_STATETABLE_STACK_DEPTH :: nat where "HID_STATETABLE_STACK_DEPTH = 2"
definition HID_USAGE_STACK_DEPTH :: nat where "HID_USAGE_STACK_DEPTH = 8"
definition HID_MAX_COLLECTIONS :: nat where "HID_MAX_COLLECTIONS = 10"
definition HID_MAX_REPORTITEMS :: nat where "HID_MAX_REPORTITEMS = 20"
definition HID_MAX_REPORT_IDS :: nat where "HID_MAX_REPORT_IDS = 10"

lemmas hid_limits = HID_STATETABLE_STACK_DEPTH_def HID_USAGE_STACK_DEPTH_def HID_MAX_COLLECTIONS_def
  HID_MAX_REPORTITEMS_def HID_MAX_REPORT_IDS_def

text \<open>The sizes of the structures on the controller, which has no padding and two-byte pointers.\<close>

definition sizeof_attributes :: nat where "sizeof_attributes = 1 + 12 + 5 + 8 + 8"
definition sizeof_hid_table :: nat where "sizeof_hid_table = sizeof_attributes + 2"
definition sizeof_hid_item :: nat where "sizeof_hid_item = 2 + 1 + 2 + 1 + 2 + sizeof_attributes + 4"

definition HID_PARSE_Successful :: u8 where "HID_PARSE_Successful = 0"
definition HID_PARSE_HIDStackOverflow :: u8 where "HID_PARSE_HIDStackOverflow = 1"
definition HID_PARSE_HIDStackUnderflow :: u8 where "HID_PARSE_HIDStackUnderflow = 2"
definition HID_PARSE_InsufficientReportItems :: u8 where "HID_PARSE_InsufficientReportItems = 3"
definition HID_PARSE_UnexpectedEndCollection :: u8 where "HID_PARSE_UnexpectedEndCollection = 4"
definition HID_PARSE_InsufficientCollectionPaths :: u8 where "HID_PARSE_InsufficientCollectionPaths = 5"
definition HID_PARSE_UsageListOverflow :: u8 where "HID_PARSE_UsageListOverflow = 6"
definition HID_PARSE_InsufficientReportIDItems :: u8 where "HID_PARSE_InsufficientReportIDItems = 7"
definition HID_PARSE_NoUnfilteredReportItems :: u8 where "HID_PARSE_NoUnfilteredReportItems = 8"

lemmas hid_codes = HID_PARSE_Successful_def HID_PARSE_HIDStackOverflow_def HID_PARSE_HIDStackUnderflow_def
  HID_PARSE_InsufficientReportItems_def HID_PARSE_UnexpectedEndCollection_def HID_PARSE_InsufficientCollectionPaths_def
  HID_PARSE_UsageListOverflow_def HID_PARSE_InsufficientReportIDItems_def HID_PARSE_NoUnfilteredReportItems_def

definition REPORT_ITEM_TYPE_In :: u8 where "REPORT_ITEM_TYPE_In = 1"
definition REPORT_ITEM_TYPE_Out :: u8 where "REPORT_ITEM_TYPE_Out = 2"
definition REPORT_ITEM_TYPE_Feature :: u8 where "REPORT_ITEM_TYPE_Feature = 3"

lemmas hid_item_types = REPORT_ITEM_TYPE_In_def REPORT_ITEM_TYPE_Out_def REPORT_ITEM_TYPE_Feature_def

section \<open>State of the parse\<close>

record hid_state =
  hs_tables :: "hid_table list"
  hs_cur :: nat
  hs_path :: "nat option"
  hs_id :: nat
  hs_usages :: "u16 list"
  hs_nusages :: nat
  hs_info :: hid_info

text \<open>What the uninitialised variables of the function hold.\<close>

record hid_junk =
  hj_table :: hid_table
  hj_usages :: "u16 list"
  hj_value :: u32

text \<open>An item ends the parse with a fault or with a return code, or the loop goes on.\<close>

datatype hid_stop = HFault | HReturn u8 hid_info

type_synonym hid_step = "hid_stop + hid_state"

definition minmax_zero :: hid_minmax where "minmax_zero = \<lparr>mm_Minimum = 0, mm_Maximum = 0\<rparr>"
definition usage_zero :: hid_usage where "usage_zero = \<lparr>us_Page = 0, us_Usage = 0, us_MinMax = minmax_zero\<rparr>"
definition attributes_zero :: hid_attributes where
  "attributes_zero = \<lparr>at_BitSize = 0, at_Usage = usage_zero, at_Unit = \<lparr>un_Type = 0, un_Exponent = 0\<rparr>,
     at_Logical = minmax_zero, at_Physical = minmax_zero\<rparr>"
definition table_zero :: hid_table where
  "table_zero = \<lparr>ta_Attributes = attributes_zero, ta_ReportCount = 0, ta_ReportID = 0\<rparr>"
definition item_zero :: hid_item where
  "item_zero = \<lparr>it_BitOffset = 0, it_ItemType = 0, it_ItemFlags = 0, it_ReportID = 0, it_CollectionPath = None,
     it_Attributes = attributes_zero, it_Value = 0\<rparr>"
definition collection_zero :: hid_collection where
  "collection_zero = \<lparr>co_Type = 0, co_Usage = usage_zero, co_Parent = None\<rparr>"
definition size_zero :: hid_size_info where
  "size_zero = \<lparr>sz_ReportID = 0, sz_ReportSizeBits = [0, 0, 0]\<rparr>"

definition hid_init :: "hid_junk \<Rightarrow> hid_state" where
  "hid_init j = \<lparr>hs_tables = [table_zero, hj_table j], hs_cur = 0, hs_path = None, hs_id = 0,
     hs_usages = hj_usages j, hs_nusages = 0,
     hs_info = \<lparr>hi_TotalReportItems = 0, hi_ReportItems = replicate HID_MAX_REPORTITEMS item_zero,
       hi_CollectionPaths = replicate HID_MAX_COLLECTIONS collection_zero, hi_TotalDeviceReports = 1,
       hi_ReportIDSizes = replicate HID_MAX_REPORT_IDS size_zero, hi_LargestReportSizeBits = 0, hi_UsingReportIDs = False\<rparr>\<rparr>"

definition cur_table :: "hid_state \<Rightarrow> hid_table" where
  "cur_table st = hs_tables st ! hs_cur st"

definition upd_table :: "(hid_table \<Rightarrow> hid_table) \<Rightarrow> hid_state \<Rightarrow> hid_state" where
  "upd_table f st = st\<lparr>hs_tables := (hs_tables st)[hs_cur st := f (cur_table st)]\<rparr>"

definition upd_attr :: "(hid_attributes \<Rightarrow> hid_attributes) \<Rightarrow> hid_state \<Rightarrow> hid_state" where
  "upd_attr f = upd_table (\<lambda>t. t\<lparr>ta_Attributes := f (ta_Attributes t)\<rparr>)"

definition upd_info :: "(hid_info \<Rightarrow> hid_info) \<Rightarrow> hid_state \<Rightarrow> hid_state" where
  "upd_info f st = st\<lparr>hs_info := f (hs_info st)\<rparr>"

definition hid_return :: "u8 \<Rightarrow> hid_state \<Rightarrow> hid_step" where
  "hid_return c st = Inl (HReturn c (hs_info st))"

section \<open>Items\<close>

text \<open>The data of an item and the bytes after it; \<open>None\<close>: the item reaches past the end.\<close>

definition item_size :: "u8 \<Rightarrow> nat" where
  "item_size i = (if i AND DATA_SIZE_MASK = DATA_SIZE_4 then 4 else if i AND DATA_SIZE_MASK = DATA_SIZE_2 then 2
      else if i AND DATA_SIZE_MASK = DATA_SIZE_1 then 1 else 0)"

definition item_data :: "u8 \<Rightarrow> u8 list \<Rightarrow> (u32 \<times> u8 list) option" where
  "item_data i bs = (if item_size i \<le> length bs then Some (le_word (take (item_size i) bs), drop (item_size i) bs) else None)"

text \<open>
  \<open>TAG_GLOBAL_PUSH\<close>: the copy starts at the next table and has the size of a report item, not of a
  table; the model knows only the tables, so a copy that does not fit into them is a fault.
\<close>

definition hid_push :: "hid_state \<Rightarrow> hid_step" where
  "hid_push st =
     (if hs_cur st = HID_STATETABLE_STACK_DEPTH - 1 then hid_return HID_PARSE_HIDStackOverflow st
      else if Suc (hs_cur st) * sizeof_hid_table + sizeof_hid_item > HID_STATETABLE_STACK_DEPTH * sizeof_hid_table then Inl HFault
      else Inr (st\<lparr>hs_tables := (hs_tables st)[Suc (hs_cur st) := cur_table st], hs_cur := Suc (hs_cur st)\<rparr>))"

definition hid_pop :: "hid_state \<Rightarrow> hid_step" where
  "hid_pop st = (if hs_cur st = 0 then hid_return HID_PARSE_HIDStackUnderflow st else Inr (st\<lparr>hs_cur := hs_cur st - 1\<rparr>))"

text \<open>The first entry of \<open>ReportIDSizes\<close> in use with the given identifier.\<close>

fun find_id :: "u8 \<Rightarrow> nat \<Rightarrow> nat \<Rightarrow> hid_size_info list \<Rightarrow> nat option" where
  "find_id r k 0 xs = None"
| "find_id r k (Suc n) xs = (if sz_ReportID (xs ! k) = r then Some k else find_id r (Suc k) n xs)"

definition hid_report_id :: "u32 \<Rightarrow> hid_state \<Rightarrow> hid_step" where
  "hid_report_id data st =
     (let st = upd_table (\<lambda>t. t\<lparr>ta_ReportID := ucast data\<rparr>) st;
          r = ta_ReportID (cur_table st);
          info = hs_info st;
          total = hi_TotalDeviceReports info;
          finish = (\<lambda>st. Inr (upd_info (\<lambda>info. info\<lparr>hi_UsingReportIDs := True,
             hi_ReportIDSizes := (hi_ReportIDSizes info)[hs_id st := (hi_ReportIDSizes info ! hs_id st)\<lparr>sz_ReportID := r\<rparr>]\<rparr>) st))
      in if hi_UsingReportIDs info then
           (case find_id r 0 (unat total) (hi_ReportIDSizes info) of
              Some k \<Rightarrow> finish (st\<lparr>hs_id := k\<rparr>)
            | None \<Rightarrow>
                if unat total = HID_MAX_REPORT_IDS then hid_return HID_PARSE_InsufficientReportIDItems st
                else finish (upd_info (\<lambda>info. info\<lparr>hi_TotalDeviceReports := total + 1,
                       hi_ReportIDSizes := (hi_ReportIDSizes info)[unat total := size_zero]\<rparr>) (st\<lparr>hs_id := unat total\<rparr>)))
         else finish st)"

definition hid_usage_item :: "u32 \<Rightarrow> hid_state \<Rightarrow> hid_step" where
  "hid_usage_item data st =
     (if hs_nusages st = HID_USAGE_STACK_DEPTH then hid_return HID_PARSE_UsageListOverflow st
      else Inr (st\<lparr>hs_usages := (hs_usages st)[hs_nusages st := ucast data], hs_nusages := hs_nusages st + 1\<rparr>))"

text \<open>Taking the first usage of the list: the shifting loop reads one entry past the last one in use.\<close>

definition shift_usages :: "hid_state \<Rightarrow> hid_step" where
  "shift_usages st =
     (if hs_nusages st < HID_USAGE_STACK_DEPTH then
        Inr (st\<lparr>hs_usages := map (\<lambda>i. hs_usages st ! (if i < hs_nusages st then i + 1 else i)) [0..<HID_USAGE_STACK_DEPTH],
          hs_nusages := hs_nusages st - 1\<rparr>)
      else Inl HFault)"

text \<open>The search for a free collection: from the second entry on, the first without a parent.\<close>

fun find_free :: "nat \<Rightarrow> hid_collection list \<Rightarrow> nat option" where
  "find_free k [] = None"
| "find_free k (c # cs) = (if co_Parent c = None then Some k else find_free (Suc k) cs)"

definition upd_collection :: "nat \<Rightarrow> (hid_collection \<Rightarrow> hid_collection) \<Rightarrow> hid_state \<Rightarrow> hid_state" where
  "upd_collection k f = upd_info (\<lambda>info. info\<lparr>hi_CollectionPaths := (hi_CollectionPaths info)[k := f (hi_CollectionPaths info ! k)]\<rparr>)"

definition hid_open_collection :: "hid_state \<Rightarrow> (nat \<times> hid_state) option" where
  "hid_open_collection st =
     (case hs_path st of
        None \<Rightarrow> Some (0, st\<lparr>hs_path := Some 0\<rparr>)
      | Some parent \<Rightarrow>
          (case find_free 1 (tl (hi_CollectionPaths (hs_info st))) of
             None \<Rightarrow> None
           | Some k \<Rightarrow> Some (k, upd_collection k (\<lambda>c. c\<lparr>co_Parent := Some parent\<rparr>) (st\<lparr>hs_path := Some k\<rparr>))))"

definition hid_collection_item :: "u32 \<Rightarrow> hid_state \<Rightarrow> hid_step" where
  "hid_collection_item data st =
     (case hid_open_collection st of
        None \<Rightarrow> hid_return HID_PARSE_InsufficientCollectionPaths st
      | Some (k, st) \<Rightarrow>
          let page = us_Page (at_Usage (ta_Attributes (cur_table st)));
              st = upd_collection k (\<lambda>c. c\<lparr>co_Type := ucast data, co_Usage := (co_Usage c)\<lparr>us_Page := page\<rparr>\<rparr>) st
          in if hs_nusages st \<noteq> 0 then
               shift_usages (upd_collection k (\<lambda>c. c\<lparr>co_Usage := (co_Usage c)\<lparr>us_Usage := hs_usages st ! 0\<rparr>\<rparr>) st)
             else Inr st)"

definition hid_end_collection :: "hid_state \<Rightarrow> hid_step" where
  "hid_end_collection st =
     (case hs_path st of
        None \<Rightarrow> hid_return HID_PARSE_UnexpectedEndCollection st
      | Some k \<Rightarrow> Inr (st\<lparr>hs_path := co_Parent (hi_CollectionPaths (hs_info st) ! k)\<rparr>))"

text \<open>
  One report item of an INPUT, OUTPUT or FEATURE item. \<open>filt\<close> is the application's
  \<open>CALLBACK_HIDParser_FilterHIDReportItem\<close>, which may also change the item.
\<close>

definition item_type :: "u8 \<Rightarrow> u8" where
  "item_type item =
     (if item AND TAG_MASK = TAG_MAIN_INPUT then REPORT_ITEM_TYPE_In else if item AND TAG_MASK = TAG_MAIN_OUTPUT then REPORT_ITEM_TYPE_Out
      else REPORT_ITEM_TYPE_Feature)"

definition hid_store_item :: "hid_item \<Rightarrow> hid_state \<Rightarrow> hid_step" where
  "hid_store_item new st =
     (let info = hs_info st; n = hi_TotalReportItems info
      in if unat n = HID_MAX_REPORTITEMS then hid_return HID_PARSE_InsufficientReportItems st
         else Inr (st\<lparr>hs_info := info\<lparr>hi_ReportItems := (hi_ReportItems info)[unat n := new], hi_TotalReportItems := n + 1\<rparr>\<rparr>))"

definition hid_new_item :: "u32 \<Rightarrow> u32 \<Rightarrow> hid_state \<Rightarrow> hid_item" where
  "hid_new_item junk data st =
     (let t = cur_table st
      in \<lparr>it_BitOffset = 0, it_ItemType = 0, it_ItemFlags = ucast data, it_ReportID = ta_ReportID t, it_CollectionPath = hs_path st,
         it_Attributes = ta_Attributes t, it_Value = junk\<rparr>)"

definition hid_place_item :: "u8 \<Rightarrow> hid_item \<Rightarrow> hid_state \<Rightarrow> hid_stop + hid_item \<times> hid_state" where
  "hid_place_item type new st =
     (let info = hs_info st; sz = hi_ReportIDSizes info ! hs_id st
      in if length (sz_ReportSizeBits sz) \<le> unat type then Inl HFault
         else
           let off = ucast (sz_ReportSizeBits sz ! unat type);
               sz' = sz\<lparr>sz_ReportSizeBits := (sz_ReportSizeBits sz)[unat type :=
                 sz_ReportSizeBits sz ! unat type + at_BitSize (ta_Attributes (cur_table st))]\<rparr>;
               info = info\<lparr>hi_ReportIDSizes := (hi_ReportIDSizes info)[hs_id st := sz']\<rparr>;
               info = (if hi_LargestReportSizeBits info < off then info\<lparr>hi_LargestReportSizeBits := off\<rparr> else info)
           in Inr (new\<lparr>it_ItemType := type, it_BitOffset := off\<rparr>, st\<lparr>hs_info := info\<rparr>))"

definition hid_add_item :: "(hid_item \<Rightarrow> bool \<times> hid_item) \<Rightarrow> u32 \<Rightarrow> u8 \<Rightarrow> u32 \<Rightarrow> hid_state \<Rightarrow> hid_step" where
  "hid_add_item filt junk item data st =
     (let new = hid_new_item junk data st;
          usage = hs_usages st ! 0;
          named = new\<lparr>it_Attributes := (it_Attributes new)\<lparr>at_Usage := (at_Usage (it_Attributes new))\<lparr>us_Usage := usage\<rparr>\<rparr>\<rparr>
      in case (if hs_nusages st \<noteq> 0
               then (case shift_usages st of Inl e \<Rightarrow> Inl e | Inr st \<Rightarrow> Inr (named, st))
               else Inr (new, st)) of
           Inl e \<Rightarrow> Inl e
         | Inr (new, st) \<Rightarrow>
             (case hid_place_item (item_type item) new st of
                Inl e \<Rightarrow> Inl e
              | Inr (new, st) \<Rightarrow>
                  if data AND IOF_CONSTANT \<noteq> 0 then Inr st
                  else (case filt new of (keep, new) \<Rightarrow> if keep then hid_store_item new st else Inr st)))"

primrec hid_add_items :: "(hid_item \<Rightarrow> bool \<times> hid_item) \<Rightarrow> u32 \<Rightarrow> u8 \<Rightarrow> u32 \<Rightarrow> nat \<Rightarrow> hid_state \<Rightarrow> hid_step" where
  "hid_add_items filt junk item data 0 st = Inr st"
| "hid_add_items filt junk item data (Suc n) st =
     (case hid_add_item filt junk item data st of Inl e \<Rightarrow> Inl e | Inr st \<Rightarrow> hid_add_items filt junk item data n st)"

text \<open>The switch over type and tag.\<close>

definition hid_dispatch :: "(hid_item \<Rightarrow> bool \<times> hid_item) \<Rightarrow> u32 \<Rightarrow> u8 \<Rightarrow> u32 \<Rightarrow> hid_state \<Rightarrow> hid_step" where
  "hid_dispatch filt junk item data st =
     (let k = item AND (TYPE_MASK OR TAG_MASK)
      in if k = TYPE_GLOBAL OR TAG_GLOBAL_PUSH then hid_push st
         else if k = TYPE_GLOBAL OR TAG_GLOBAL_POP then hid_pop st
         else if k = TYPE_GLOBAL OR TAG_GLOBAL_USAGEPAGE then Inr (upd_attr (\<lambda>a. a\<lparr>at_Usage := (at_Usage a)\<lparr>us_Page := ucast data\<rparr>\<rparr>) st)
         else if k = TYPE_GLOBAL OR TAG_GLOBAL_LOGICALMIN then Inr (upd_attr (\<lambda>a. a\<lparr>at_Logical := (at_Logical a)\<lparr>mm_Minimum := data\<rparr>\<rparr>) st)
         else if k = TYPE_GLOBAL OR TAG_GLOBAL_LOGICALMAX then Inr (upd_attr (\<lambda>a. a\<lparr>at_Logical := (at_Logical a)\<lparr>mm_Maximum := data\<rparr>\<rparr>) st)
         else if k = TYPE_GLOBAL OR TAG_GLOBAL_PHYSMIN then Inr (upd_attr (\<lambda>a. a\<lparr>at_Physical := (at_Physical a)\<lparr>mm_Minimum := data\<rparr>\<rparr>) st)
         else if k = TYPE_GLOBAL OR TAG_GLOBAL_PHYSMAX then Inr (upd_attr (\<lambda>a. a\<lparr>at_Physical := (at_Physical a)\<lparr>mm_Maximum := data\<rparr>\<rparr>) st)
         else if k = TYPE_GLOBAL OR TAG_GLOBAL_UNITEXP then Inr (upd_attr (\<lambda>a. a\<lparr>at_Unit := (at_Unit a)\<lparr>un_Exponent := ucast data\<rparr>\<rparr>) st)
         else if k = TYPE_GLOBAL OR TAG_GLOBAL_UNIT then Inr (upd_attr (\<lambda>a. a\<lparr>at_Unit := (at_Unit a)\<lparr>un_Type := data\<rparr>\<rparr>) st)
         else if k = TYPE_GLOBAL OR TAG_GLOBAL_REPORTSIZE then Inr (upd_attr (\<lambda>a. a\<lparr>at_BitSize := ucast data\<rparr>) st)
         else if k = TYPE_GLOBAL OR TAG_GLOBAL_REPORTCOUNT then Inr (upd_table (\<lambda>t. t\<lparr>ta_ReportCount := ucast data\<rparr>) st)
         else if k = TYPE_GLOBAL OR TAG_GLOBAL_REPORTID then hid_report_id data st
         else if k = TYPE_LOCAL OR TAG_LOCAL_USAGE then hid_usage_item data st
         else if k = TYPE_LOCAL OR TAG_LOCAL_USAGEMIN then Inr (upd_attr (\<lambda>a. a\<lparr>at_Usage := (at_Usage a)\<lparr>us_MinMax := (us_MinMax (at_Usage a))\<lparr>mm_Minimum := data\<rparr>\<rparr>\<rparr>) st)
         else if k = TYPE_LOCAL OR TAG_LOCAL_USAGEMAX then Inr (upd_attr (\<lambda>a. a\<lparr>at_Usage := (at_Usage a)\<lparr>us_MinMax := (us_MinMax (at_Usage a))\<lparr>mm_Maximum := data\<rparr>\<rparr>\<rparr>) st)
         else if k = TYPE_MAIN OR TAG_MAIN_COLLECTION then hid_collection_item data st
         else if k = TYPE_MAIN OR TAG_MAIN_ENDCOLLECTION then hid_end_collection st
         else if k = TYPE_MAIN OR TAG_MAIN_INPUT \<or> k = TYPE_MAIN OR TAG_MAIN_OUTPUT \<or> k = TYPE_MAIN OR TAG_MAIN_FEATURE then
           hid_add_items filt junk item data (unat (ta_ReportCount (cur_table st))) st
         else Inr st)"

text \<open>After a main item the local state is cleared.\<close>

definition hid_after :: "u8 \<Rightarrow> hid_state \<Rightarrow> hid_state" where
  "hid_after item st =
     (if item AND TYPE_MASK = TYPE_MAIN then
        (upd_attr (\<lambda>a. a\<lparr>at_Usage := (at_Usage a)\<lparr>us_MinMax := minmax_zero\<rparr>\<rparr>) st)\<lparr>hs_nusages := 0\<rparr>
      else st)"

definition hid_step :: "(hid_item \<Rightarrow> bool \<times> hid_item) \<Rightarrow> u32 \<Rightarrow> u8 \<Rightarrow> u32 \<Rightarrow> hid_state \<Rightarrow> hid_step" where
  "hid_step filt junk item data st =
     (case hid_dispatch filt junk item data st of Inl e \<Rightarrow> Inl e | Inr st \<Rightarrow> Inr (hid_after item st))"

section \<open>The parser\<close>

lemma item_data_shorter: "item_data i bs = Some (d, bs') \<Longrightarrow> length bs' \<le> length bs"
  by (auto simp: item_data_def split: if_splits)

function hid_loop :: "(hid_item \<Rightarrow> bool \<times> hid_item) \<Rightarrow> u32 \<Rightarrow> u8 list \<Rightarrow> hid_state \<Rightarrow> hid_step" where
  "hid_loop filt junk [] st = Inr st"
| "hid_loop filt junk (item # bs) st =
     (case item_data item bs of
        None \<Rightarrow> Inl HFault
      | Some (data, bs') \<Rightarrow>
          (case hid_step filt junk item data st of Inl e \<Rightarrow> Inl e | Inr st' \<Rightarrow> hid_loop filt junk bs' st'))"
  by pat_completeness auto
termination
  by (relation "measure (\<lambda>(filt, junk, bs, st). length bs)") (auto dest: item_data_shorter)

text \<open>The return code and the filled table, or a fault.\<close>

definition USB_ProcessHIDReport ::
  "(hid_item \<Rightarrow> bool \<times> hid_item) \<Rightarrow> hid_junk \<Rightarrow> u8 list \<Rightarrow> stop + u8 \<times> hid_info" where
  "USB_ProcessHIDReport filt j ReportData =
     (case hid_loop filt (hj_value j) ReportData (hid_init j) of
        Inl HFault \<Rightarrow> Inl Fault
      | Inl (HReturn c info) \<Rightarrow> Inr (c, info)
      | Inr st \<Rightarrow>
          if hi_TotalReportItems (hs_info st) = 0 then Inr (HID_PARSE_NoUnfilteredReportItems, hs_info st)
          else Inr (HID_PARSE_Successful, hs_info st))"

section \<open>Fields of a report\<close>

text \<open>The loop over the bits of a field; \<open>n\<close> is \<open>DataBitsRem\<close>, \<open>v\<close> the value so far.\<close>

primrec get_bits :: "u8 list \<Rightarrow> nat \<Rightarrow> u16 \<Rightarrow> u32 \<Rightarrow> u32 \<Rightarrow> stop + u32" where
  "get_bits rep 0 cb bm v = Inr v"
| "get_bits rep (Suc n) cb bm v =
     (if unat cb div 8 < length rep then
        get_bits rep n (cb + 1) (push_bit 1 bm) (if bit (rep ! (unat cb div 8)) (unat cb mod 8) then v OR bm else v)
      else Inl Fault)"

text \<open>\<open>False\<close>: the report is not the item's.\<close>

definition USB_GetHIDReportItemInfo :: "u8 list \<Rightarrow> hid_item \<Rightarrow> stop + bool \<times> hid_item" where
  "USB_GetHIDReportItemInfo rep item =
     (let item = item\<lparr>it_Value := 0\<rparr>;
          read = (\<lambda>rep. case get_bits rep (unat (at_BitSize (it_Attributes item))) (it_BitOffset item) 1 0 of
             Inl e \<Rightarrow> Inl e | Inr v \<Rightarrow> Inr (True, item\<lparr>it_Value := v\<rparr>))
      in if it_ReportID item \<noteq> 0 then
           (if rep = [] then Inl Fault else if it_ReportID item \<noteq> rep ! 0 then Inr (False, item) else read (tl rep))
         else read rep)"

primrec set_bits :: "u32 \<Rightarrow> nat \<Rightarrow> u16 \<Rightarrow> u32 \<Rightarrow> u8 list \<Rightarrow> stop + u8 list" where
  "set_bits v 0 cb bm rep = Inr rep"
| "set_bits v (Suc n) cb bm rep =
     (if bit v (unat cb mod 8) then
        (if unat cb div 8 < length rep then
           set_bits v n (cb + 1) (push_bit 1 bm) (rep[unat cb div 8 := rep ! (unat cb div 8) OR ucast bm])
         else Inl Fault)
      else set_bits v n (cb + 1) (push_bit 1 bm) rep)"

definition USB_SetHIDReportItemInfo :: "u8 list \<Rightarrow> hid_item \<Rightarrow> stop + u8 list" where
  "USB_SetHIDReportItemInfo rep item =
     (let write = set_bits (it_Value item) (unat (at_BitSize (it_Attributes item))) (it_BitOffset item) 1
      in if it_ReportID item \<noteq> 0 then
           (case rep of [] \<Rightarrow> Inl Fault
            | b # bs \<Rightarrow> (case write bs of Inl e \<Rightarrow> Inl e | Inr bs \<Rightarrow> Inr (it_ReportID item # bs)))
         else write rep)"

text \<open>The loop over all entries of \<open>ReportIDSizes\<close>.\<close>

definition USB_GetHIDReportSize :: "hid_info \<Rightarrow> u8 \<Rightarrow> u8 \<Rightarrow> stop + u16" where
  "USB_GetHIDReportSize info ReportID ReportType =
     (case find_id ReportID 0 HID_MAX_REPORT_IDS (hi_ReportIDSizes info) of
        None \<Rightarrow> Inr 0
      | Some k \<Rightarrow>
          let bits = sz_ReportSizeBits (hi_ReportIDSizes info ! k)
          in if unat ReportType < length bits then Inr (ucast (bits ! unat ReportType)) else Inl Fault)"

end
