(* ===== verification/HidInvariant.thy ===== *)
theory HidInvariant
  imports HidParser
begin

text \<open>
  What the HID parser guarantees of its tables whatever the descriptor, which items make it leave them,
  and what its field accessors do.
\<close>

section \<open>Well-formed tables\<close>

text \<open>
  The collections form a forest: some rank falls from every collection to its parent, and a parent is
  the first collection or has been opened itself, that is, has a parent.
\<close>

definition forest :: "hid_collection list \<Rightarrow> bool" where
  "forest cs \<longleftrightarrow> length cs = HID_MAX_COLLECTIONS \<and> co_Parent (cs ! 0) = None \<and>
     (\<exists>rank :: nat \<Rightarrow> nat. \<forall>k < HID_MAX_COLLECTIONS. \<forall>p. co_Parent (cs ! k) = Some p \<longrightarrow>
        p < HID_MAX_COLLECTIONS \<and> rank p < rank k \<and> (p = 0 \<or> co_Parent (cs ! p) \<noteq> None))"

definition info_ok :: "hid_info \<Rightarrow> bool" where
  "info_ok info \<longleftrightarrow> unat (hi_TotalReportItems info) \<le> HID_MAX_REPORTITEMS \<and>
     length (hi_ReportItems info) = HID_MAX_REPORTITEMS \<and>
     1 \<le> unat (hi_TotalDeviceReports info) \<and> unat (hi_TotalDeviceReports info) \<le> HID_MAX_REPORT_IDS \<and>
     length (hi_ReportIDSizes info) = HID_MAX_REPORT_IDS \<and>
     (\<forall>z \<in> set (hi_ReportIDSizes info). length (sz_ReportSizeBits z) = 3) \<and> forest (hi_CollectionPaths info)"

definition opened :: "hid_collection list \<Rightarrow> nat \<Rightarrow> bool" where
  "opened cs k \<longleftrightarrow> k < HID_MAX_COLLECTIONS \<and> (k = 0 \<or> co_Parent (cs ! k) \<noteq> None)"

definition hid_ok :: "hid_state \<Rightarrow> bool" where
  "hid_ok st \<longleftrightarrow> info_ok (hs_info st) \<and> length (hs_tables st) = HID_STATETABLE_STACK_DEPTH \<and> hs_cur st < HID_STATETABLE_STACK_DEPTH \<and>
     length (hs_usages st) = HID_USAGE_STACK_DEPTH \<and> hs_nusages st \<le> HID_USAGE_STACK_DEPTH \<and>
     hs_id st < unat (hi_TotalDeviceReports (hs_info st)) \<and>
     (\<forall>k. hs_path st = Some k \<longrightarrow> opened (hi_CollectionPaths (hs_info st)) k)"

fun step_ok :: "hid_step \<Rightarrow> bool" where
  "step_ok (Inl HFault) = True"
| "step_ok (Inl (HReturn c info)) = (c \<noteq> 0 \<and> c \<le> 8 \<and> info_ok info)"
| "step_ok (Inr st) = hid_ok st"

lemma hid_okD:
  assumes "hid_ok st"
  shows "info_ok (hs_info st)" "hs_id st < HID_MAX_REPORT_IDS" "hs_id st < length (hi_ReportIDSizes (hs_info st))"
    "hs_nusages st \<le> HID_USAGE_STACK_DEPTH"
  using assms by (simp_all add: hid_ok_def info_ok_def)

lemma return_ok: "hid_ok st \<Longrightarrow> c \<noteq> 0 \<Longrightarrow> c \<le> 8 \<Longrightarrow> step_ok (hid_return c st)"
  by (simp add: hid_return_def hid_okD)

lemma upd_table_ok [simp]: "hid_ok (upd_table f st) = hid_ok st" "hs_info (upd_table f st) = hs_info st"
  "hs_id (upd_table f st) = hs_id st"
  by (simp_all add: hid_ok_def upd_table_def)

lemma upd_attr_ok [simp]: "hid_ok (upd_attr f st) = hid_ok st"
  by (simp add: upd_attr_def)

section \<open>Each item keeps them\<close>

lemma push_ok: "hid_ok st \<Longrightarrow> step_ok (hid_push st)"
  by (simp add: hid_push_def return_ok hid_codes sizeof_hid_table_def sizeof_hid_item_def sizeof_attributes_def hid_limits)

lemma pop_ok: "hid_ok st \<Longrightarrow> step_ok (hid_pop st)"
  by (simp add: hid_pop_def return_ok hid_codes) (auto simp: hid_ok_def)

lemma find_id_less: "find_id r k n xs = Some i \<Longrightarrow> i < k + n"
  by (induction r k n xs rule: find_id.induct) (auto split: if_splits)

lemma set_update_sizes:
  "\<forall>z \<in> set zs. length (sz_ReportSizeBits z) = 3 \<Longrightarrow> length (sz_ReportSizeBits y) = 3 \<Longrightarrow>
     \<forall>z \<in> set (zs[k := y]). length (sz_ReportSizeBits z) = 3"
  using set_update_subset_insert [of zs k y] by auto

lemma nth_size: "info_ok info \<Longrightarrow> k < HID_MAX_REPORT_IDS \<Longrightarrow> length (sz_ReportSizeBits (hi_ReportIDSizes info ! k)) = 3"
  by (simp add: info_ok_def)

lemma info_ok_sizes:
  "info_ok info \<Longrightarrow> length (sz_ReportSizeBits y) = 3 \<Longrightarrow> info_ok (info\<lparr>hi_ReportIDSizes := (hi_ReportIDSizes info)[k := y]\<rparr>)"
  using set_update_sizes [of "hi_ReportIDSizes info" y k] by (simp add: info_ok_def)

lemma info_ok_misc [simp]:
  "info_ok (info\<lparr>hi_LargestReportSizeBits := x\<rparr>) = info_ok info"
  "info_ok (info\<lparr>hi_UsingReportIDs := b\<rparr>) = info_ok info"
  by (simp_all add: info_ok_def)

lemma finish_id_ok:
  assumes "hid_ok st"
  shows "hid_ok (upd_info (\<lambda>info. info\<lparr>hi_UsingReportIDs := True,
     hi_ReportIDSizes := (hi_ReportIDSizes info)[hs_id st := (hi_ReportIDSizes info ! hs_id st)\<lparr>sz_ReportID := r\<rparr>]\<rparr>) st)"
proof -
  note d = hid_okD [OF assms]
  have "info_ok ((hs_info st)\<lparr>hi_ReportIDSizes := (hi_ReportIDSizes (hs_info st))
      [hs_id st := (hi_ReportIDSizes (hs_info st) ! hs_id st)\<lparr>sz_ReportID := r\<rparr>]\<rparr>)"
    using d nth_size [OF d(1,2)] by (intro info_ok_sizes) simp_all
  then have "info_ok ((hs_info st)\<lparr>hi_UsingReportIDs := True, hi_ReportIDSizes := (hi_ReportIDSizes (hs_info st))
      [hs_id st := (hi_ReportIDSizes (hs_info st) ! hs_id st)\<lparr>sz_ReportID := r\<rparr>]\<rparr>)"
    by (simp add: info_ok_def)
  with assms show ?thesis by (simp add: hid_ok_def upd_info_def)
qed

lemma new_id_ok:
  assumes "hid_ok st" "unat (hi_TotalDeviceReports (hs_info st)) \<noteq> HID_MAX_REPORT_IDS"
  shows "hid_ok (upd_info (\<lambda>info. info\<lparr>hi_TotalDeviceReports := hi_TotalDeviceReports (hs_info st) + 1,
     hi_ReportIDSizes := (hi_ReportIDSizes info)[unat (hi_TotalDeviceReports (hs_info st)) := size_zero]\<rparr>)
       (st\<lparr>hs_id := unat (hi_TotalDeviceReports (hs_info st))\<rparr>))"
proof -
  let ?t = "hi_TotalDeviceReports (hs_info st)"
  note d = hid_okD [OF assms(1)]
  have t: "unat ?t < 10" using d(1) assms(2) by (simp add: info_ok_def hid_limits)
  then have u: "unat (?t + 1) = unat ?t + 1" by (subst unat_word_ariths) simp
  have "info_ok ((hs_info st)\<lparr>hi_ReportIDSizes := (hi_ReportIDSizes (hs_info st))[unat ?t := size_zero]\<rparr>)"
    using d(1) by (rule info_ok_sizes) (simp add: size_zero_def)
  then have "info_ok ((hs_info st)\<lparr>hi_TotalDeviceReports := ?t + 1, hi_ReportIDSizes := (hi_ReportIDSizes (hs_info st))[unat ?t := size_zero]\<rparr>)"
    using t u by (simp add: info_ok_def hid_limits)
  with assms(1) t u show ?thesis by (simp add: hid_ok_def upd_info_def)
qed

lemma report_id_ok:
  assumes "hid_ok st"
  shows "step_ok (hid_report_id data st)"
proof -
  let ?st = "upd_table (\<lambda>t. t\<lparr>ta_ReportID := ucast data\<rparr>) st"
  have u: "hid_ok ?st" using assms by simp
  show ?thesis
  proof (cases "hi_UsingReportIDs (hs_info st)")
    case False
    with finish_id_ok [OF u] show ?thesis by (simp add: hid_report_id_def Let_def)
  next
    case True
    show ?thesis
    proof (cases "find_id (ta_ReportID (cur_table ?st)) 0 (unat (hi_TotalDeviceReports (hs_info st))) (hi_ReportIDSizes (hs_info st))")
      case (Some k)
      then have "hid_ok (?st\<lparr>hs_id := k\<rparr>)" using find_id_less [OF Some] u by (simp add: hid_ok_def)
      from finish_id_ok [OF this] True Some show ?thesis by (simp add: hid_report_id_def Let_def)
    next
      case None
      show ?thesis
      proof (cases "unat (hi_TotalDeviceReports (hs_info st)) = HID_MAX_REPORT_IDS")
        case True
        with \<open>hi_UsingReportIDs (hs_info st)\<close> None return_ok [OF u] show ?thesis
          by (simp add: hid_report_id_def Let_def hid_codes)
      next
        case False
        from finish_id_ok [OF new_id_ok [OF u]] False \<open>hi_UsingReportIDs (hs_info st)\<close> None show ?thesis
          by (simp add: hid_report_id_def Let_def upd_info_def)
      qed
    qed
  qed
qed

lemma usage_item_ok: "hid_ok st \<Longrightarrow> step_ok (hid_usage_item data st)"
  by (simp add: hid_usage_item_def return_ok hid_codes) (simp add: hid_ok_def)

lemma shift_usages_ok: "hid_ok st \<Longrightarrow> step_ok (shift_usages st)"
  by (simp add: shift_usages_def) (auto simp: hid_ok_def)

text \<open>Opening a collection: the new one had no parent, so nothing hangs from it yet.\<close>

lemma find_free_Some:
  "find_free j cs = Some k \<Longrightarrow> j \<le> k \<and> k < j + length cs \<and> co_Parent (cs ! (k - j)) = None"
proof (induction j cs rule: find_free.induct)
  case (2 j c cs)
  show ?case
  proof (cases "co_Parent c = None")
    case False
    with 2 have "Suc j \<le> k" "k < Suc j + length cs" "co_Parent (cs ! (k - Suc j)) = None" by simp_all
    moreover from this(1) have "k - j = Suc (k - Suc j)" by simp
    ultimately show ?thesis by simp
  qed (use 2 in simp)
qed simp

lemma forest_link:
  assumes f: "forest cs" and k: "1 \<le> k" "k < HID_MAX_COLLECTIONS" "co_Parent (cs ! k) = None" and p: "opened cs p"
    and c: "co_Parent c = Some p"
  shows "forest (cs[k := c])" "opened (cs[k := c]) k"
proof -
  let ?cs = "cs[k := c]"
  obtain rank :: "nat \<Rightarrow> nat" where r: "\<And>i q. i < HID_MAX_COLLECTIONS \<Longrightarrow> co_Parent (cs ! i) = Some q \<Longrightarrow>
      q < HID_MAX_COLLECTIONS \<and> rank q < rank i \<and> (q = 0 \<or> co_Parent (cs ! q) \<noteq> None)"
    and l: "length cs = HID_MAX_COLLECTIONS" "co_Parent (cs ! 0) = None"
    using f unfolding forest_def by blast
  have pk: "p \<noteq> k" "p < HID_MAX_COLLECTIONS" using p k by (auto simp: opened_def)
  have "q < HID_MAX_COLLECTIONS \<and> (rank(k := Suc (rank p))) q < (rank(k := Suc (rank p))) i \<and> (q = 0 \<or> co_Parent (?cs ! q) \<noteq> None)"
    if "i < HID_MAX_COLLECTIONS" "co_Parent (?cs ! i) = Some q" for i q
  proof (cases "i = k")
    case True
    then have "q = p" using that(2) c l k by simp
    then show ?thesis using True pk p l by (auto simp: opened_def nth_list_update)
  next
    case False
    then have "co_Parent (cs ! i) = Some q" using that by simp
    from r [OF that(1) this] have q: "q < HID_MAX_COLLECTIONS" "rank q < rank i" "q = 0 \<or> co_Parent (cs ! q) \<noteq> None" by auto
    then have "q \<noteq> k" using k by auto
    then show ?thesis using q False by (auto simp: nth_list_update)
  qed
  then have "\<forall>i < HID_MAX_COLLECTIONS. \<forall>q. co_Parent (?cs ! i) = Some q \<longrightarrow> q < HID_MAX_COLLECTIONS \<and>
      (rank(k := Suc (rank p))) q < (rank(k := Suc (rank p))) i \<and> (q = 0 \<or> co_Parent (?cs ! q) \<noteq> None)" by blast
  moreover have "length ?cs = HID_MAX_COLLECTIONS" "co_Parent (?cs ! 0) = None" using l k by simp_all
  ultimately show "forest ?cs" unfolding forest_def by blast
  show "opened ?cs k" using c l k by (simp add: opened_def)
qed

lemma forest_same_parent:
  assumes "forest cs" "co_Parent c = co_Parent (cs ! k)"
  shows "forest (cs[k := c])" "opened cs j \<Longrightarrow> opened (cs[k := c]) j"
proof -
  have s: "co_Parent (cs[k := c] ! i) = co_Parent (cs ! i)" if "i < HID_MAX_COLLECTIONS" for i
    using assms(2) that by (cases "i = k"; cases "k < length cs") (simp_all add: not_less list_update_beyond)
  then show "opened cs j \<Longrightarrow> opened (cs[k := c]) j" by (simp add: opened_def)
  obtain rank :: "nat \<Rightarrow> nat" where "\<forall>i < HID_MAX_COLLECTIONS. \<forall>q. co_Parent (cs ! i) = Some q \<longrightarrow>
      q < HID_MAX_COLLECTIONS \<and> rank q < rank i \<and> (q = 0 \<or> co_Parent (cs ! q) \<noteq> None)"
    and l: "length cs = HID_MAX_COLLECTIONS" "co_Parent (cs ! 0) = None"
    using assms(1) unfolding forest_def by blast
  with s have "\<forall>i < HID_MAX_COLLECTIONS. \<forall>q. co_Parent (cs[k := c] ! i) = Some q \<longrightarrow>
      q < HID_MAX_COLLECTIONS \<and> rank q < rank i \<and> (q = 0 \<or> co_Parent (cs[k := c] ! q) \<noteq> None)" by metis
  moreover have "co_Parent (cs[k := c] ! 0) = None" using s [of 0] l by (simp add: hid_limits)
  ultimately show "forest (cs[k := c])" using l unfolding forest_def by (metis length_list_update)
qed

lemma upd_collection_ok:
  assumes "hid_ok st" "\<And>c. co_Parent (f c) = co_Parent c"
  shows "hid_ok (upd_collection k f st)"
  using assms forest_same_parent [of "hi_CollectionPaths (hs_info st)" "f (hi_CollectionPaths (hs_info st) ! k)" k]
  by (simp add: hid_ok_def info_ok_def upd_collection_def upd_info_def)

lemma open_collection_ok:
  assumes "hid_ok st" "hid_open_collection st = Some (k, st')"
  shows "hid_ok st'"
proof (cases "hs_path st")
  case None
  with assms have "st' = st\<lparr>hs_path := Some 0\<rparr>" by (simp add: hid_open_collection_def)
  with assms(1) show ?thesis by (simp add: hid_ok_def opened_def hid_limits)
next
  case (Some p)
  let ?cs = "hi_CollectionPaths (hs_info st)"
  from assms(2) Some have k: "find_free 1 (tl ?cs) = Some k"
    and st': "st' = upd_collection k (\<lambda>c. c\<lparr>co_Parent := Some p\<rparr>) (st\<lparr>hs_path := Some k\<rparr>)"
    by (auto simp: hid_open_collection_def split: option.splits)
  have f: "forest ?cs" "opened ?cs p" using assms(1) Some by (simp_all add: hid_ok_def info_ok_def)
  then have "length ?cs = 10" by (simp add: forest_def hid_limits)
  then have "1 \<le> k" "k < HID_MAX_COLLECTIONS" "co_Parent (?cs ! k) = None"
    using find_free_Some [OF k] by (auto simp: hid_limits nth_tl Suc_diff_Suc)
  from forest_link [OF f(1) this f(2), of "(?cs ! k)\<lparr>co_Parent := Some p\<rparr>"] assms(1)
  show ?thesis by (simp add: st' hid_ok_def info_ok_def upd_collection_def upd_info_def)
qed

lemma collection_item_ok:
  assumes "hid_ok st"
  shows "step_ok (hid_collection_item data st)"
proof (cases "hid_open_collection st")
  case None
  with assms return_ok show ?thesis by (simp add: hid_collection_item_def hid_codes)
next
  case (Some r)
  obtain k st' where r: "r = (k, st')" by (cases r)
  have "hid_ok st'" using open_collection_ok [OF assms] Some r by simp
  then have "hid_ok (upd_collection k (\<lambda>c. c\<lparr>co_Type := ucast data, co_Usage := (co_Usage c)\<lparr>us_Page := x\<rparr>\<rparr>) st')" for x
    by (rule upd_collection_ok) simp
  moreover from this have "hid_ok (upd_collection k (\<lambda>c. c\<lparr>co_Usage := (co_Usage c)\<lparr>us_Usage := y\<rparr>\<rparr>)
      (upd_collection k (\<lambda>c. c\<lparr>co_Type := ucast data, co_Usage := (co_Usage c)\<lparr>us_Page := x\<rparr>\<rparr>) st'))" for x y
    by (rule upd_collection_ok) simp
  ultimately show ?thesis
    using Some r by (simp add: hid_collection_item_def Let_def shift_usages_ok)
qed

lemma end_collection_ok:
  assumes "hid_ok st"
  shows "step_ok (hid_end_collection st)"
proof (cases "hs_path st")
  case None
  with assms return_ok show ?thesis by (simp add: hid_end_collection_def hid_codes)
next
  case (Some k)
  then have k: "opened (hi_CollectionPaths (hs_info st)) k" "forest (hi_CollectionPaths (hs_info st))"
    using assms by (simp_all add: hid_ok_def info_ok_def)
  then have "opened (hi_CollectionPaths (hs_info st)) p" if "co_Parent (hi_CollectionPaths (hs_info st) ! k) = Some p" for p
    using that unfolding forest_def opened_def by blast
  with assms Some show ?thesis by (simp add: hid_end_collection_def) (simp add: hid_ok_def)
qed

lemma place_item_ok:
  assumes "hid_ok st" "hid_place_item type new st = Inr (new', st')"
  shows "hid_ok st'"
proof -
  let ?info = "hs_info st"
  let ?z = "hi_ReportIDSizes ?info ! hs_id st"
  note d = hid_okD [OF assms(1)]
  have "info_ok (?info\<lparr>hi_ReportIDSizes := (hi_ReportIDSizes ?info)[hs_id st :=
      ?z\<lparr>sz_ReportSizeBits := (sz_ReportSizeBits ?z)[unat type := x]\<rparr>]\<rparr>)" for x
    using d(1) by (rule info_ok_sizes) (simp add: nth_size [OF d(1,2)])
  with assms show ?thesis
    by (auto simp: hid_place_item_def Let_def hid_ok_def info_ok_def split: if_splits)
qed

lemma store_item_ok:
  assumes "hid_ok st"
  shows "step_ok (hid_store_item new st)"
proof (cases "unat (hi_TotalReportItems (hs_info st)) = HID_MAX_REPORTITEMS")
  case True
  with assms return_ok show ?thesis by (simp add: hid_store_item_def Let_def hid_codes)
next
  case False
  then have t: "unat (hi_TotalReportItems (hs_info st)) < 20" using hid_okD(1) [OF assms] by (simp add: info_ok_def hid_limits)
  then have "unat (hi_TotalReportItems (hs_info st) + 1) \<le> HID_MAX_REPORTITEMS"
    by (subst unat_word_ariths) (simp add: hid_limits)
  with False assms show ?thesis
    by (simp add: hid_store_item_def Let_def) (simp add: hid_ok_def info_ok_def)
qed

lemma add_item_ok:
  assumes "hid_ok st"
  shows "step_ok (hid_add_item filt junk item data st)"
proof -
  have after: "step_ok (case hid_place_item (item_type item) new st of Inl e \<Rightarrow> Inl e
      | Inr (new, st) \<Rightarrow> if data AND IOF_CONSTANT \<noteq> 0 then Inr st
          else (case filt new of (keep, new) \<Rightarrow> if keep then hid_store_item new st else Inr st))"
    if "hid_ok st" for new st
  proof (cases "hid_place_item (item_type item) new st")
    case (Inl e)
    then have "e = HFault" by (auto simp: hid_place_item_def Let_def split: if_splits)
    with Inl show ?thesis by simp
  next
    case (Inr r)
    with place_item_ok [OF that] store_item_ok show ?thesis by (auto split: prod.splits)
  qed
  show ?thesis
  proof (cases "hs_nusages st = 0")
    case True
    with after [OF assms] show ?thesis by (simp add: hid_add_item_def Let_def)
  next
    case False
    show ?thesis
    proof (cases "shift_usages st")
      case (Inl e)
      then have "e = HFault" by (auto simp: shift_usages_def split: if_splits)
      with Inl False show ?thesis by (simp add: hid_add_item_def Let_def)
    next
      case (Inr st')
      then have "hid_ok st'" using shift_usages_ok [OF assms] by simp
      from after [OF this] Inr False show ?thesis by (simp add: hid_add_item_def Let_def)
    qed
  qed
qed

lemma add_items_ok: "hid_ok st \<Longrightarrow> step_ok (hid_add_items filt junk item data n st)"
proof (induction n arbitrary: st)
  case 0
  then show ?case by simp
next
  case (Suc n)
  show ?case
  proof (cases "hid_add_item filt junk item data st")
    case (Inl e)
    then show ?thesis using add_item_ok [OF Suc.prems, of filt junk item data] by simp
  next
    case (Inr st')
    then have "hid_ok st'" using add_item_ok [OF Suc.prems, of filt junk item data] by simp
    with Inr Suc.IH show ?thesis by simp
  qed
qed

lemmas item_oks = push_ok pop_ok report_id_ok usage_item_ok collection_item_ok end_collection_ok add_items_ok

lemma dispatch_ok: "hid_ok st \<Longrightarrow> step_ok (hid_dispatch filt junk item data st)"
  by (simp add: hid_dispatch_def Let_def item_oks)

lemma nusages0_ok: "hid_ok st \<Longrightarrow> hid_ok (st\<lparr>hs_nusages := 0\<rparr>)"
  by (simp add: hid_ok_def)

lemma after_ok: "hid_ok st \<Longrightarrow> hid_ok (hid_after item st)"
  by (simp add: hid_after_def nusages0_ok)

lemma step_ok_step:
  assumes "hid_ok st"
  shows "step_ok (hid_step filt junk item data st)"
  using dispatch_ok [OF assms, of filt junk item data]
  by (cases "hid_dispatch filt junk item data st") (simp_all add: hid_step_def after_ok)

lemma loop_ok: "hid_ok st \<Longrightarrow> step_ok (hid_loop filt junk bs st)"
proof (induction filt junk bs st rule: hid_loop.induct)
  case (1 filt junk st)
  then show ?case by simp
next
  case (2 filt junk item bs st)
  show ?case
  proof (cases "item_data item bs")
    case None
    then show ?thesis by simp
  next
    case (Some r)
    obtain data bs' where r: "r = (data, bs')" by (cases r)
    show ?thesis
    proof (cases "hid_step filt junk item data st")
      case (Inl e)
      then show ?thesis using step_ok_step [OF 2(2), of filt junk item data] Some r by simp
    next
      case (Inr st')
      then have "hid_ok st'" using step_ok_step [OF 2(2), of filt junk item data] by simp
      then show ?thesis using 2(1) [OF Some r [symmetric] Inr] Some r Inr by simp
    qed
  qed
qed

definition junk_ok :: "hid_junk \<Rightarrow> bool" where
  "junk_ok j \<longleftrightarrow> length (hj_usages j) = HID_USAGE_STACK_DEPTH"

lemma init_ok: "junk_ok j \<Longrightarrow> hid_ok (hid_init j)"
  by (auto simp: junk_ok_def hid_ok_def hid_init_def info_ok_def forest_def hid_limits size_zero_def collection_zero_def nth_replicate
      intro: exI [of _ "\<lambda>_. 0"])

section \<open>The result of a parse\<close>

text \<open>Following the parents of a collection, as the filters of applications do, at most \<open>n\<close> times.\<close>

fun root_of :: "nat \<Rightarrow> hid_collection list \<Rightarrow> nat \<Rightarrow> nat option" where
  "root_of 0 cs k = None"
| "root_of (Suc n) cs k = (case co_Parent (cs ! k) of None \<Rightarrow> Some k | Some p \<Rightarrow> root_of n cs p)"

lemma root_of_Suc: "root_of n cs k = Some x \<Longrightarrow> root_of (Suc n) cs k = Some x"
proof (induction n cs k rule: root_of.induct)
  case (2 n cs k)
  show ?case
  proof (cases "co_Parent (cs ! k)")
    case None
    with 2(2) show ?thesis by simp
  next
    case (Some p)
    then have "root_of (Suc n) cs p = Some x" using 2 by (simp del: root_of.simps(2) add: root_of.simps(2) [of n])
    then show ?thesis by (subst root_of.simps(2)) (simp del: root_of.simps(2) add: Some)
  qed
qed simp

lemma root_of_mono: "root_of m cs k = Some x \<Longrightarrow> m \<le> n \<Longrightarrow> root_of n cs k = Some x"
  by (induction n) (auto simp: le_Suc_eq simp del: root_of.simps(2) intro: root_of_Suc)

lemma forest_root:
  assumes "forest cs" "opened cs k"
  shows "\<exists>n. root_of n cs k = Some 0"
proof -
  obtain rank :: "nat \<Rightarrow> nat" where r: "\<And>i q. i < HID_MAX_COLLECTIONS \<Longrightarrow> co_Parent (cs ! i) = Some q \<Longrightarrow>
      q < HID_MAX_COLLECTIONS \<and> rank q < rank i \<and> (q = 0 \<or> co_Parent (cs ! q) \<noteq> None)"
    and l: "co_Parent (cs ! 0) = None"
    using assms(1) unfolding forest_def by blast
  have "root_of (Suc (rank k)) cs k = Some 0" if "opened cs k" for k
    using that
  proof (induction "rank k" arbitrary: k rule: less_induct)
    case less
    show ?case
    proof (cases "co_Parent (cs ! k)")
      case None
      with less.prems show ?thesis by (auto simp: opened_def)
    next
      case (Some p)
      with r less.prems have p: "p < HID_MAX_COLLECTIONS" "rank p < rank k" "opened cs p" by (auto simp: opened_def)
      from less.hyps [OF p(2,3)] have "root_of (Suc (rank p)) cs p = Some 0" .
      moreover have "Suc (rank p) \<le> rank k" using p(2) by simp
      ultimately have "root_of (rank k) cs p = Some 0" by (rule root_of_mono)
      with Some show ?thesis by simp
    qed
  qed
  with assms(2) show ?thesis by blast
qed

text \<open>C21: whatever bytes the descriptor has and whatever the application's filter does, a parse that leaves no
  array ends with one of the nine codes and tables within their bounds; a successful one has stored an
  item; and following parents from any collection that was opened ends at the first one.\<close>

theorem hid_parse_wellformed:
  assumes "junk_ok j" "USB_ProcessHIDReport filt j bs = Inr (c, info)"
  shows "c \<le> 8 \<and> unat (hi_TotalReportItems info) \<le> HID_MAX_REPORTITEMS \<and>
    1 \<le> unat (hi_TotalDeviceReports info) \<and> unat (hi_TotalDeviceReports info) \<le> HID_MAX_REPORT_IDS \<and>
    (c = HID_PARSE_Successful \<longrightarrow> hi_TotalReportItems info \<noteq> 0) \<and>
    (\<forall>k < HID_MAX_COLLECTIONS. co_Parent (hi_CollectionPaths info ! k) \<noteq> None \<longrightarrow> (\<exists>n. root_of n (hi_CollectionPaths info) k = Some 0))"
proof -
  have "step_ok (hid_loop filt (hj_value j) bs (hid_init j))" using loop_ok [OF init_ok [OF assms(1)]] .
  with assms(2) have "info_ok info \<and> c \<le> 8 \<and> (c = HID_PARSE_Successful \<longrightarrow> hi_TotalReportItems info \<noteq> 0)"
    by (auto simp: USB_ProcessHIDReport_def hid_codes hid_okD split: sum.splits hid_stop.splits if_splits)
  then show ?thesis
    using forest_root [of "hi_CollectionPaths info"] by (simp add: info_ok_def opened_def)
qed

section \<open>The items that leave the tables\<close>

lemma item_type_of:
  assumes "item AND (TYPE_MASK OR TAG_MASK) = k"
  shows "item_type item = (if k AND TAG_MASK = TAG_MAIN_INPUT then REPORT_ITEM_TYPE_In
    else if k AND TAG_MASK = TAG_MAIN_OUTPUT then REPORT_ITEM_TYPE_Out else REPORT_ITEM_TYPE_Feature)"
proof -
  have "item AND TAG_MASK = k AND TAG_MASK" by (simp add: assms [symmetric] and.assoc TYPE_MASK_def TAG_MASK_def)
  then show ?thesis by (simp add: item_type_def)
qed

lemma shift_nusages: "shift_usages st = Inr st' \<Longrightarrow> hs_nusages st < 8 \<and> hs_nusages st' = hs_nusages st - 1 \<and> hs_info st' = hs_info st \<and> hs_id st' = hs_id st"
  by (auto simp: shift_usages_def hid_limits split: if_splits)

lemma shift_fault: "shift_usages st = Inl e \<longleftrightarrow> e = HFault \<and> \<not> hs_nusages st < 8"
  by (auto simp: shift_usages_def hid_limits)

lemma place_fault:
  assumes "hid_ok st"
  shows "hid_place_item type new st = Inl e \<longleftrightarrow> e = HFault \<and> 3 \<le> unat type"
  using nth_size [OF hid_okD(1,2) [OF assms]] by (auto simp: hid_place_item_def Let_def)

lemma place_nusages: "hid_place_item type new st = Inr (new', st') \<Longrightarrow> hs_nusages st' = hs_nusages st"
  by (auto simp: hid_place_item_def Let_def split: if_splits)

lemma store_nusages: "hid_store_item new st = Inr st' \<Longrightarrow> hs_nusages st' = hs_nusages st" "hid_store_item new st \<noteq> Inl HFault"
  by (auto simp: hid_store_item_def hid_return_def Let_def split: if_splits)

lemma add_item_fault:
  assumes "hid_ok st"
  shows "hid_add_item filt junk item data st = Inl HFault \<longleftrightarrow> hs_nusages st = 8 \<or> 3 \<le> unat (item_type item)"
proof -
  have full: "hs_nusages st = 8 \<longleftrightarrow> \<not> hs_nusages st < 8" using hid_okD(4) [OF assms] by (simp add: hid_limits)
  have tail: "(case hid_place_item (item_type item) new st of Inl e \<Rightarrow> Inl e
      | Inr (new, st) \<Rightarrow> if data AND IOF_CONSTANT \<noteq> 0 then Inr st
          else (case filt new of (keep, new) \<Rightarrow> if keep then hid_store_item new st else Inr st)) = Inl HFault
      \<longleftrightarrow> 3 \<le> unat (item_type item)" if "hid_ok st" for new st
    using place_fault [OF that, of "item_type item" new] store_nusages(2)
    by (cases "hid_place_item (item_type item) new st") (auto split: prod.splits)
  show ?thesis
  proof (cases "hs_nusages st = 0")
    case True
    with tail [OF assms] show ?thesis by (simp add: hid_add_item_def Let_def)
  next
    case False
    show ?thesis
    proof (cases "shift_usages st")
      case (Inl e)
      then have "e = HFault" "\<not> hs_nusages st < 8" by (simp_all add: shift_fault)
      with Inl False full show ?thesis by (simp add: hid_add_item_def Let_def)
    next
      case (Inr st')
      then have "hid_ok st'" "hs_nusages st < 8" using shift_usages_ok [OF assms] shift_nusages [OF Inr] by simp_all
      with tail [OF this(1)] Inr False show ?thesis by (simp add: hid_add_item_def Let_def)
    qed
  qed
qed

lemma add_item_nusages:
  assumes "hid_add_item filt junk item data st = Inr st'" "hs_nusages st < 8"
  shows "hs_nusages st' < 8"
proof -
  have tail: "hs_nusages st' < 8" if "(case hid_place_item (item_type item) new st of Inl e \<Rightarrow> Inl e
      | Inr (new, st) \<Rightarrow> if data AND IOF_CONSTANT \<noteq> 0 then Inr st
          else (case filt new of (keep, new) \<Rightarrow> if keep then hid_store_item new st else Inr st)) = Inr st'"
      "hs_nusages st < 8" for new st
    using that by (auto simp: place_nusages store_nusages split: sum.splits if_splits prod.splits dest!: place_nusages store_nusages(1))
  show ?thesis
  proof (cases "hs_nusages st = 0")
    case True
    with assms tail show ?thesis by (simp add: hid_add_item_def Let_def)
  next
    case False
    then show ?thesis
      using assms tail shift_nusages by (cases "shift_usages st") (fastforce simp: hid_add_item_def Let_def)+
  qed
qed

lemma add_items_fault:
  assumes "hid_ok st"
  shows "hid_add_items filt junk item data n st = Inl HFault \<longleftrightarrow> n \<noteq> 0 \<and> (hs_nusages st = 8 \<or> 3 \<le> unat (item_type item))"
  using assms
proof (induction n arbitrary: st)
  case 0
  then show ?case by simp
next
  case (Suc n)
  note f = add_item_fault [OF Suc.prems, of filt junk item data]
  show ?case
  proof (cases "hid_add_item filt junk item data st")
    case (Inl e)
    with f show ?thesis by (cases e) auto
  next
    case (Inr st')
    then have ok: "hid_ok st'" using add_item_ok [OF Suc.prems, of filt junk item data] by simp
    from Inr f have "hs_nusages st < 8" "\<not> 3 \<le> unat (item_type item)" using hid_okD(4) [OF Suc.prems] by (auto simp: hid_limits)
    with add_item_nusages [OF Inr] Suc.IH [OF ok] Inr show ?thesis by simp
  qed
qed

lemma collection_item_fault:
  assumes "hid_ok st"
  shows "hid_collection_item data st = Inl HFault \<longleftrightarrow> hs_nusages st = 8 \<and> hid_open_collection st \<noteq> None"
proof (cases "hid_open_collection st")
  case None
  then show ?thesis by (simp add: hid_collection_item_def hid_return_def)
next
  case (Some r)
  obtain k st' where r: "r = (k, st')" by (cases r)
  have n: "hs_nusages st' = hs_nusages st"
    using Some r by (auto simp: hid_open_collection_def upd_collection_def upd_info_def split: option.splits)
  show ?thesis
    using hid_okD(4) [OF assms] Some r n
    by (auto simp: hid_collection_item_def Let_def shift_fault upd_collection_def upd_info_def hid_limits)
qed

lemma push_fault: "hid_ok st \<Longrightarrow> hid_push st = Inl HFault \<longleftrightarrow> hs_cur st = 0"
  by (auto simp: hid_push_def hid_return_def sizeof_hid_table_def sizeof_hid_item_def sizeof_attributes_def hid_limits hid_ok_def)

lemma report_id_no_fault: "hid_report_id data st \<noteq> Inl HFault"
  by (simp add: hid_report_id_def hid_return_def Let_def split: option.split)

text \<open>C22: on well-formed tables exactly these items leave an array: a first PUSH (its copy has the size of a
  report item), a FEATURE item with a count (its type indexes one entry too far), and a collection, input or
  output item that takes a usage from a full list.\<close>

theorem hid_fault_iff:
  assumes "hid_ok st"
  shows "hid_step filt junk item data st = Inl HFault \<longleftrightarrow>
    (let k = item AND (TYPE_MASK OR TAG_MASK); count = ta_ReportCount (cur_table st)
     in k = TYPE_GLOBAL OR TAG_GLOBAL_PUSH \<and> hs_cur st = 0
      \<or> k = TYPE_MAIN OR TAG_MAIN_FEATURE \<and> count \<noteq> 0
      \<or> (k = TYPE_MAIN OR TAG_MAIN_INPUT \<or> k = TYPE_MAIN OR TAG_MAIN_OUTPUT) \<and> count \<noteq> 0 \<and> hs_nusages st = HID_USAGE_STACK_DEPTH
      \<or> k = TYPE_MAIN OR TAG_MAIN_COLLECTION \<and> hs_nusages st = HID_USAGE_STACK_DEPTH \<and> hid_open_collection st \<noteq> None)"
proof -
  have step: "hid_step filt junk item data st = Inl HFault \<longleftrightarrow> hid_dispatch filt junk item data st = Inl HFault"
    by (simp add: hid_step_def split: sum.split)
  have simple: "hid_pop st \<noteq> Inl HFault" "hid_usage_item data st \<noteq> Inl HFault" "hid_end_collection st \<noteq> Inl HFault"
    by (simp_all add: hid_pop_def hid_usage_item_def hid_end_collection_def hid_return_def split: option.split)
  show ?thesis
    using item_type_of [of item]
    by (simp add: step hid_dispatch_def Let_def push_fault [OF assms] add_items_fault [OF assms] collection_item_fault [OF assms]
        report_id_no_fault simple hid_tags hid_item_types hid_limits unat_eq_zero)
qed

end
