(* ===== verification/HidFields.thy ===== *)
theory HidFields
  imports HidInvariant
begin

text \<open>
  The accessors of a report's fields: what a read returns, which fields survive a write and a read, and
  which writes are lost. Then instances of the parser's theorems.
\<close>

section \<open>Reading\<close>

definition report_bit :: "u8 list \<Rightarrow> nat \<Rightarrow> bool" where
  "report_bit rep p = bit (rep ! (p div 8)) (p mod 8)"

text \<open>The data of a report after its identifier.\<close>

definition report_body :: "hid_item \<Rightarrow> u8 list \<Rightarrow> u8 list" where
  "report_body item rep = (if it_ReportID item \<noteq> 0 then tl rep else rep)"

lemma unat_Suc_u16: "unat cb + n < 65536 \<Longrightarrow> 0 < n \<Longrightarrow> unat (cb + 1) = Suc (unat cb)" for cb :: u16
  by (subst unat_word_ariths) simp

text \<open>The \<open>BitMask\<close> after \<open>i\<close> rounds.\<close>

definition bit_mask :: "nat \<Rightarrow> u32" where
  "bit_mask i = push_bit i 1"

lemma bit_mask_simps [simp]: "bit (bit_mask i) j \<longleftrightarrow> j = i \<and> j < 32" "bit_mask i * 2 = bit_mask (Suc i)"
  by (auto simp: bit_mask_def bit_simps)

lemma bit_mask_0: "bit_mask 0 = 1"
  by (simp add: bit_mask_def)

lemma get_bits_value:
  assumes "unat cb + n \<le> 8 * length rep" "unat cb + n < 65536"
  shows "\<exists>w. get_bits rep n cb (bit_mask i) v = Inr w \<and>
    (\<forall>j < 32. bit w j \<longleftrightarrow> bit v j \<or> (i \<le> j \<and> j < i + n \<and> report_bit rep (unat cb + (j - i))))"
  using assms
proof (induction n arbitrary: cb i v)
  case 0
  then show ?case by auto
next
  case (Suc n)
  let ?v = "if bit (rep ! (unat cb div 8)) (unat cb mod 8) then v OR bit_mask i else v"
  have u: "unat (cb + 1) = Suc (unat cb)" using unat_Suc_u16 [OF Suc.prems(2)] by simp
  obtain w where w: "get_bits rep n (cb + 1) (bit_mask (Suc i)) ?v = Inr w"
    and b: "\<And>j. j < 32 \<Longrightarrow> bit w j \<longleftrightarrow> bit ?v j \<or> (Suc i \<le> j \<and> j < Suc i + n \<and> report_bit rep (Suc (unat cb) + (j - Suc i)))"
    using Suc.IH [of "cb + 1" "Suc i" ?v] Suc.prems u by auto
  have "bit w j \<longleftrightarrow> bit v j \<or> (i \<le> j \<and> j < i + Suc n \<and> report_bit rep (unat cb + (j - i)))" if "j < 32" for j
  proof (cases "j = i")
    case True
    with b [OF that] that show ?thesis by (simp add: report_bit_def bit_or_iff)
  next
    case False
    moreover from False have "Suc i \<le> j \<Longrightarrow> Suc (unat cb) + (j - Suc i) = unat cb + (j - i)" by simp
    ultimately show ?thesis using b [OF that] that by (auto simp: bit_or_iff)
  qed
  moreover have "get_bits rep (Suc n) cb (bit_mask i) v = Inr w"
    using w Suc.prems less_mult_imp_div_less [of "unat cb" "length rep" 8] by (simp add: mult.commute)
  ultimately show ?case by blast
qed

lemma u32_eqI: "(\<And>j. j < 32 \<Longrightarrow> bit a j = bit b j) \<Longrightarrow> a = b" for a b :: u32
  by (rule bit_word_eqI) simp

lemma get_info_value:
  assumes "unat (it_BitOffset item) + unat (at_BitSize (it_Attributes item)) \<le> 8 * length (report_body item rep)"
    "unat (it_BitOffset item) + unat (at_BitSize (it_Attributes item)) < 65536"
    "it_ReportID item \<noteq> 0 \<Longrightarrow> rep \<noteq> [] \<and> rep ! 0 = it_ReportID item"
  obtains w where "USB_GetHIDReportItemInfo rep item = Inr (True, item\<lparr>it_Value := w\<rparr>)"
    "\<And>j. j < 32 \<Longrightarrow> bit w j \<longleftrightarrow> j < unat (at_BitSize (it_Attributes item)) \<and> report_bit (report_body item rep) (unat (it_BitOffset item) + j)"
proof -
  obtain w where "get_bits (report_body item rep) (unat (at_BitSize (it_Attributes item))) (it_BitOffset item) (bit_mask 0) 0 = Inr w"
    and "\<And>j. j < 32 \<Longrightarrow> bit w j \<longleftrightarrow> j < unat (at_BitSize (it_Attributes item)) \<and> report_bit (report_body item rep) (unat (it_BitOffset item) + j)"
    using get_bits_value [OF assms(1,2), of 0 0] by auto
  with assms(3) that [of w] show ?thesis
    by (auto simp: bit_mask_0 USB_GetHIDReportItemInfo_def report_body_def Let_def split: if_splits)
qed

text \<open>Reading a field that lies in its report returns the little-endian number its bits spell, the first
  32 of them, wherever the field starts; only the item's value changes.\<close>

lemma hid_get_reads_field:
  assumes "unat (it_BitOffset item) + unat (at_BitSize (it_Attributes item)) \<le> 8 * length (report_body item rep)"
    "unat (it_BitOffset item) + unat (at_BitSize (it_Attributes item)) < 65536"
    "it_ReportID item \<noteq> 0 \<longrightarrow> rep \<noteq> [] \<and> rep ! 0 = it_ReportID item"
  shows "\<exists>w. USB_GetHIDReportItemInfo rep item = Inr (True, item\<lparr>it_Value := w\<rparr>) \<and>
    (\<forall>j < 32. bit w j \<longleftrightarrow> j < unat (at_BitSize (it_Attributes item)) \<and>
       bit (report_body item rep ! ((unat (it_BitOffset item) + j) div 8)) ((unat (it_BitOffset item) + j) mod 8))"
  using get_info_value [OF assms(1,2)] assms(3) by (metis report_bit_def)

section \<open>Writing\<close>

lemma set_bits_aligned:
  assumes "unat cb mod 8 = i" "i + n \<le> 8" "unat cb div 8 = q" "q < length rep" "unat cb + n < 65536"
  shows "\<exists>b. set_bits v n cb (bit_mask i) rep = Inr (rep[q := b]) \<and>
    (\<forall>j < 8. bit b j \<longleftrightarrow> bit (rep ! q) j \<or> (i \<le> j \<and> j < i + n \<and> bit v j))"
  using assms
proof (induction n arbitrary: cb i rep)
  case 0
  then show ?case by (intro exI [of _ "rep ! q"]) auto
next
  case (Suc n)
  let ?rep = "if bit v i then rep[q := rep ! q OR ucast (bit_mask i)] else rep"
  have i: "i < 8" using Suc.prems(2) by simp
  have u: "unat (cb + 1) = Suc (unat cb)" using unat_Suc_u16 [OF Suc.prems(5)] by simp
  have step: "set_bits v (Suc n) cb (bit_mask i) rep = set_bits v n (cb + 1) (bit_mask (Suc i)) ?rep"
    using Suc.prems by auto
  have b8: "bit (?rep ! q) j \<longleftrightarrow> bit (rep ! q) j \<or> j = i \<and> bit v i" if "j < 8" for j
    using that Suc.prems(4) by (auto simp: bit_or_iff bit_simps)
  show ?case
  proof (cases n)
    case 0
    have e: "?rep = rep[q := ?rep ! q]" using Suc.prems(4) by simp
    have "set_bits v (Suc n) cb (bit_mask i) rep = Inr (rep[q := ?rep ! q])" by (subst e [symmetric]) (simp only: step, simp only: 0 set_bits.simps)
    moreover have "\<forall>j < 8. bit (?rep ! q) j \<longleftrightarrow> bit (rep ! q) j \<or> (i \<le> j \<and> j < i + Suc n \<and> bit v j)"
      using b8 0 by (auto simp: le_less_Suc_eq)
    ultimately show ?thesis by blast
  next
    case (Suc m)
    have c: "unat cb = 8 * q + i" using Suc.prems(1,3) by (metis mult_div_mod_eq)
    have "unat (cb + 1) mod 8 = Suc i" "unat (cb + 1) div 8 = q"
      unfolding u c using Suc.prems(2) Suc by simp_all
    moreover have "Suc i + n \<le> 8" "q < length ?rep" "unat (cb + 1) + n < 65536" using Suc.prems(2,4,5) u by simp_all
    ultimately obtain b where b: "set_bits v n (cb + 1) (bit_mask (Suc i)) ?rep = Inr (?rep[q := b])"
      and bb: "\<And>j. j < 8 \<Longrightarrow> bit b j \<longleftrightarrow> bit (?rep ! q) j \<or> (Suc i \<le> j \<and> j < Suc i + n \<and> bit v j)"
      using Suc.IH [of "cb + 1" "Suc i" ?rep] by blast
    have "?rep[q := b] = rep[q := b]" by simp
    moreover have "\<forall>j < 8. bit b j \<longleftrightarrow> bit (rep ! q) j \<or> (i \<le> j \<and> j < i + Suc n \<and> bit v j)"
      using bb b8 by (auto simp: Suc_le_eq nat_less_le)
    ultimately show ?thesis using step b by metis
  qed
qed

lemma set_bits_lost:
  assumes "unat cb mod 8 = s" "s + n \<le> 8" "\<And>j. s \<le> j \<Longrightarrow> j < s + n \<Longrightarrow> \<not> bit v j" "unat cb + n < 65536"
  shows "set_bits v n cb bm rep = Inr rep"
  using assms
proof (induction n arbitrary: cb s bm)
  case (Suc n)
  have u: "unat (cb + 1) = Suc (unat cb)" using unat_Suc_u16 [OF Suc.prems(4)] by simp
  have "set_bits v n (cb + 1) (push_bit 1 bm) rep = Inr rep"
  proof (cases "n = 0")
    case False
    have "unat (cb + 1) mod 8 = Suc s" using Suc.prems(1,2) False u by presburger
    with Suc.IH [of "cb + 1" "Suc s"] Suc.prems u show ?thesis by simp
  qed simp
  with Suc.prems show ?case by simp
qed simp

lemma set_info:
  assumes "report_body item rep \<noteq> []"
    "set_bits (it_Value item) (unat (at_BitSize (it_Attributes item))) (it_BitOffset item) 1 (report_body item rep) = Inr body"
  shows "USB_SetHIDReportItemInfo rep item = Inr (if it_ReportID item \<noteq> 0 then it_ReportID item # body else body)"
  using assms by (cases rep) (auto simp: USB_SetHIDReportItemInfo_def report_body_def Let_def split: if_splits)

text \<open>A value whose bits from the field's bit position on are zero is not written at all.\<close>

lemma hid_set_loses:
  assumes "it_ReportID item = 0" "unat (it_BitOffset item) mod 8 + unat (at_BitSize (it_Attributes item)) \<le> 8"
    "unat (it_BitOffset item) + unat (at_BitSize (it_Attributes item)) < 65536"
    "take_bit (unat (at_BitSize (it_Attributes item))) (drop_bit (unat (it_BitOffset item) mod 8) (it_Value item)) = 0"
  shows "USB_SetHIDReportItemInfo rep item = Inr rep"
proof -
  let ?n = "unat (at_BitSize (it_Attributes item))" and ?s = "unat (it_BitOffset item) mod 8"
  have "\<not> bit (it_Value item) j" if "?s \<le> j" "j < ?s + ?n" for j
  proof -
    have "\<not> bit (take_bit ?n (drop_bit ?s (it_Value item))) (j - ?s)" using assms(4) by simp
    with that show ?thesis by (auto simp: bit_take_bit_iff bit_drop_bit_eq)
  qed
  from set_bits_lost [OF refl assms(2) this assms(3)] show ?thesis
    using assms(1) by (simp add: USB_SetHIDReportItemInfo_def)
qed

lemma field_roundtrip:
  assumes "unat (it_BitOffset item) mod 8 = 0" "unat (at_BitSize (it_Attributes item)) \<le> 8"
    "unat (it_BitOffset item) div 8 < length (report_body item rep)"
    "unat (it_BitOffset item) + unat (at_BitSize (it_Attributes item)) < 65536"
    "take_bit (unat (at_BitSize (it_Attributes item))) (report_body item rep ! (unat (it_BitOffset item) div 8)) = 0"
  shows "\<exists>rep'. USB_SetHIDReportItemInfo rep item = Inr rep' \<and>
    USB_GetHIDReportItemInfo rep' item =
      Inr (True, item\<lparr>it_Value := take_bit (unat (at_BitSize (it_Attributes item))) (it_Value item)\<rparr>)"
proof -
  let ?n = "unat (at_BitSize (it_Attributes item))" and ?off = "unat (it_BitOffset item)" and ?body = "report_body item rep"
  let ?q = "?off div 8"
  obtain b where s: "set_bits (it_Value item) ?n (it_BitOffset item) 1 ?body = Inr (?body[?q := b])"
    and b: "\<And>j. j < 8 \<Longrightarrow> bit b j \<longleftrightarrow> bit (?body ! ?q) j \<or> (j < ?n \<and> bit (it_Value item) j)"
    using set_bits_aligned [OF assms(1) _ refl assms(3,4), of "it_Value item"] assms(2) by (auto simp: bit_mask_0)
  let ?rep = "if it_ReportID item \<noteq> 0 then it_ReportID item # ?body[?q := b] else ?body[?q := b]"
  have set: "USB_SetHIDReportItemInfo rep item = Inr ?rep" using assms(3) s by (intro set_info) auto
  have body: "report_body item ?rep = ?body[?q := b]" by (simp add: report_body_def)
  obtain q where q: "?off = 8 * q" using assms(1) by auto
  have len: "?off + ?n \<le> 8 * length (report_body item ?rep)" using assms(2,3) q by (subst body) simp
  obtain w where get: "USB_GetHIDReportItemInfo ?rep item = Inr (True, item\<lparr>it_Value := w\<rparr>)"
    and w: "\<And>j. j < 32 \<Longrightarrow> bit w j \<longleftrightarrow> j < ?n \<and> report_bit (report_body item ?rep) (?off + j)"
    by (rule get_info_value [OF len assms(4)]) auto
  have "w = take_bit ?n (it_Value item)"
  proof (rule u32_eqI)
    fix j :: nat assume "j < 32"
    show "bit w j = bit (take_bit ?n (it_Value item)) j"
    proof (cases "j < ?n")
      case True
      then have j: "j < 8" "(?off + j) div 8 = ?q" "(?off + j) mod 8 = j" using assms(2) q by auto
      have "\<not> bit (take_bit ?n (?body ! ?q)) j" using assms(5) by simp
      then have "\<not> bit (?body ! ?q) j" using True by (simp add: bit_take_bit_iff)
      with w [OF \<open>j < 32\<close>] True j b [OF j(1)] assms(3) show ?thesis
        by (simp only: body) (simp add: report_bit_def bit_take_bit_iff)
    qed (simp add: w [OF \<open>j < 32\<close>] bit_take_bit_iff)
  qed
  with set get show ?thesis by blast
qed

text \<open>C23: a field of at most eight bits that starts a byte of its report keeps what is written to it: writing
  into a report where it is zero and reading it back gives the value's low bits. But where it starts
  inside a byte, the value's bits are taken at the report's position: a value with zeros there leaves a
  report without identifier as it was.\<close>

theorem hid_field_roundtrip:
  assumes "unat (it_BitOffset item) + unat (at_BitSize (it_Attributes item)) < 65536"
    "unat (it_BitOffset item) mod 8 + unat (at_BitSize (it_Attributes item)) \<le> 8"
    "unat (it_BitOffset item) div 8 < length (report_body item rep)"
  shows "(unat (it_BitOffset item) mod 8 = 0 \<longrightarrow>
      take_bit (unat (at_BitSize (it_Attributes item))) (report_body item rep ! (unat (it_BitOffset item) div 8)) = 0 \<longrightarrow>
      (\<exists>rep'. USB_SetHIDReportItemInfo rep item = Inr rep' \<and>
        USB_GetHIDReportItemInfo rep' item =
          Inr (True, item\<lparr>it_Value := take_bit (unat (at_BitSize (it_Attributes item))) (it_Value item)\<rparr>))) \<and>
    (it_ReportID item = 0 \<longrightarrow>
      take_bit (unat (at_BitSize (it_Attributes item))) (drop_bit (unat (it_BitOffset item) mod 8) (it_Value item)) = 0 \<longrightarrow>
      USB_SetHIDReportItemInfo rep item = Inr rep)"
  using field_roundtrip [OF _ _ assms(3,1)] hid_set_loses [OF _ assms(2,1)] assms(2) by simp

section \<open>Instances\<close>

definition junk_demo :: hid_junk where
  "junk_demo = \<lparr>hj_table = table_zero, hj_usages = replicate 8 0, hj_value = 0\<rparr>"

lemma junk_demo_ok: "junk_ok junk_demo"
  by (simp add: junk_ok_def junk_demo_def hid_limits)

text \<open>A device with two collections: three buttons of one bit, five bits of padding, a byte.\<close>

definition hid_demo :: "u8 list" where
  "hid_demo = [0x05, 0x01, 0x09, 0x02, 0xA1, 0x01, 0xA1, 0x00, 0x05, 0x09, 0x09, 0x01, 0x09, 0x02, 0x09, 0x03,
     0x95, 0x03, 0x75, 0x01, 0x81, 0x02, 0x95, 0x01, 0x75, 0x05, 0x81, 0x01, 0x75, 0x08, 0x81, 0x06, 0xC0, 0xC0]"

definition hid_demo_result :: "u8 \<times> hid_info" where
  "hid_demo_result = (case USB_ProcessHIDReport (\<lambda>i. (True, i)) junk_demo hid_demo of Inr r \<Rightarrow> r | Inl _ \<Rightarrow> undefined)"

lemma hid_demo_parses:
  "USB_ProcessHIDReport (\<lambda>i. (True, i)) junk_demo hid_demo = Inr hid_demo_result"
  "fst hid_demo_result = HID_PARSE_Successful"
  "map (\<lambda>i. (it_BitOffset i, at_BitSize (it_Attributes i), us_Usage (at_Usage (it_Attributes i)), it_CollectionPath i))
     (take 5 (hi_ReportItems (snd hid_demo_result))) = [(0, 1, 1, Some 1), (1, 1, 2, Some 1), (2, 1, 3, Some 1), (8, 8, 0, Some 1), (0, 0, 0, None)]"
  by code_simp+

lemma hid_parse_wellformed_witness:
  "fst hid_demo_result \<le> 8 \<and> unat (hi_TotalReportItems (snd hid_demo_result)) \<le> HID_MAX_REPORTITEMS \<and>
   hi_TotalReportItems (snd hid_demo_result) \<noteq> 0 \<and>
   (\<exists>n. root_of n (hi_CollectionPaths (snd hid_demo_result)) 1 = Some 0)"
proof -
  have "USB_ProcessHIDReport (\<lambda>i. (True, i)) junk_demo hid_demo = Inr (fst hid_demo_result, snd hid_demo_result)"
    using hid_demo_parses(1) by simp
  note w = hid_parse_wellformed [OF junk_demo_ok this]
  have "co_Parent (hi_CollectionPaths (snd hid_demo_result) ! 1) \<noteq> None" by code_simp
  with w hid_demo_parses(2) show ?thesis by (simp add: hid_limits)
qed

lemma hid_fault_iff_witness:
  "hid_step (\<lambda>i. (True, i)) 0 0xA4 0 (hid_init junk_demo) = Inl HFault \<and>
   hid_step (\<lambda>i. (True, i)) 0 0x81 0 (hid_init junk_demo) \<noteq> Inl HFault"
  using hid_fault_iff [OF init_ok [OF junk_demo_ok], of "\<lambda>i. (True, i)" 0 "0xA4" 0]
    hid_fault_iff [OF init_ok [OF junk_demo_ok], of "\<lambda>i. (True, i)" 0 "0x81" 0]
  by (simp_all add: hid_tags hid_init_def cur_table_def table_zero_def)

definition field :: "u16 \<Rightarrow> u8 \<Rightarrow> u8 \<Rightarrow> u32 \<Rightarrow> hid_item" where
  "field off n r v = item_zero\<lparr>it_BitOffset := off, it_ReportID := r, it_Value := v,
     it_Attributes := attributes_zero\<lparr>at_BitSize := n\<rparr>\<rparr>"

lemma field_simps [simp]: "it_BitOffset (field off n r v) = off" "it_ReportID (field off n r v) = r"
  "it_Value (field off n r v) = v" "at_BitSize (it_Attributes (field off n r v)) = n"
  by (simp_all add: field_def)

lemma hid_get_reads_field_instance:
  "\<exists>w. USB_GetHIDReportItemInfo [2, 0x50, 0x0A] (field 4 8 2 0) = Inr (True, field 4 8 2 w) \<and> bit w 0 \<and> \<not> bit w 1 \<and> bit w 2 \<and> bit w 5 \<and> bit w 7 \<and> \<not> bit w 9"
proof -
  have "unat (it_BitOffset (field 4 8 2 0)) + unat (at_BitSize (it_Attributes (field 4 8 2 0))) \<le> 8 * length (report_body (field 4 8 2 0) [2, 0x50, 0x0A])"
    "unat (it_BitOffset (field 4 8 2 0)) + unat (at_BitSize (it_Attributes (field 4 8 2 0))) < 65536"
    "it_ReportID (field 4 8 2 0) \<noteq> 0 \<longrightarrow> [2, 0x50, 0x0A] \<noteq> [] \<and> [2, 0x50, 0x0A] ! 0 = it_ReportID (field 4 8 2 0)"
    by (simp_all add: report_body_def)
  from hid_get_reads_field [OF this] obtain w where
    "USB_GetHIDReportItemInfo [2, 0x50, 0x0A] (field 4 8 2 0) = Inr (True, (field 4 8 2 0)\<lparr>it_Value := w\<rparr>)"
    and b: "\<And>j. j < 32 \<Longrightarrow> bit w j \<longleftrightarrow> j < 8 \<and> bit ([0x50, 0x0A :: u8] ! ((4 + j) div 8)) ((4 + j) mod 8)"
    by (auto simp: report_body_def)
  moreover have "(field 4 8 2 0)\<lparr>it_Value := w\<rparr> = field 4 8 2 w" by (simp add: field_def)
  moreover have "bit w 0 \<and> \<not> bit w 1 \<and> bit w 2 \<and> bit w 5 \<and> bit w 7 \<and> \<not> bit w 9"
    using b [of 0] b [of 1] b [of 2] b [of 5] b [of 7] b [of 9] by (simp add: bit_numeral_rec bit_simps)
  ultimately show ?thesis by metis
qed

lemma hid_field_roundtrip_witness:
  "(\<exists>rep'. USB_SetHIDReportItemInfo [0, 0xFF, 0x20] (field 8 4 3 0x1A5) = Inr rep' \<and>
     USB_GetHIDReportItemInfo rep' (field 8 4 3 0x1A5) = Inr (True, (field 8 4 3 0x1A5)\<lparr>it_Value := take_bit 4 0x1A5\<rparr>)) \<and>
   USB_SetHIDReportItemInfo [0, 0] (field 4 4 0 5) = Inr [0, 0]"
  using hid_field_roundtrip [of "field 8 4 3 0x1A5" "[0, 0xFF, 0x20]"] hid_field_roundtrip [of "field 4 4 0 5" "[0, 0]"]
  by (simp add: report_body_def)

end
