(* ===== verification/UsbDebugControl.thy ===== *)
theory UsbDebugControl
  imports UsbDebugStream HidFields
begin

text \<open>
  The control requests of the debug channel, and the instances of its properties.
\<close>

section \<open>Sending packets\<close>

text \<open>Full packets and a shorter last one, empty when the length is a multiple of 32.\<close>

function packets32 :: "u8 list \<Rightarrow> u8 list list" where
  "packets32 xs = (if length xs < 32 then [xs] else take 32 xs # packets32 (drop 32 xs))"
  by pat_completeness auto
termination by (relation "measure length") auto

declare packets32.simps [simp del]

lemma packets32_nonempty [simp]: "packets32 xs \<noteq> []"
  by (subst packets32.simps) simp

text \<open>The control endpoint with its bank free.\<close>

definition ctl32 :: "ep_regs \<Rightarrow> bool" where
  "ctl32 ep \<longleftrightarrow> ep_is_control ep \<and> ep_size ep = 32 \<and> bit (r_ueintx ep) TXINI \<and> \<not> bit (r_ueintx ep) RXOUTI \<and> \<not> bit (r_ueintx ep) RXSTPI \<and>
     r_tx ep = None \<and> r_bank ep = []"

lemma bits_FE: "\<not> bit (NOT (push_bit TXINI 1) :: u8) TXINI" "bit (NOT (push_bit TXINI 1) :: u8) RXSTPI" "bit (NOT (push_bit TXINI 1) :: u8) RXOUTI"
  by (simp_all add: bit_not_iff bit_exp_iff)

lemma fold_uedatx_write:
  "length (r_bank (cur s)) + length xs \<le> ep_size (cur s) \<Longrightarrow>
   fold uedatx_write xs s = upd_cur (\<lambda>ep. ep\<lparr>r_bank := r_bank ep @ xs\<rparr>) s"
proof (induction xs arbitrary: s)
  case Nil
  then show ?case by (simp add: upd_cur_def upd_ep_def)
next
  case (Cons x xs)
  have w: "uedatx_write x s = upd_cur (\<lambda>ep. ep\<lparr>r_bank := r_bank ep @ [x]\<rparr>) s"
    using Cons.prems by (simp add: uedatx_write_def upd_cur_def upd_ep_def cur_def)
  have "fold uedatx_write xs (uedatx_write x s) = upd_cur (\<lambda>ep. ep\<lparr>r_bank := r_bank ep @ xs\<rparr>) (uedatx_write x s)"
    by (rule Cons.IH) (use Cons.prems in \<open>simp add: w ep_size_def\<close>)
  then show ?case by (simp add: w upd_cur_upd_cur)
qed

definition ctl_sent :: "u8 list \<Rightarrow> ep_regs \<Rightarrow> ep_regs" where
  "ctl_sent p ep = ep\<lparr>r_ueintx := r_ueintx ep AND set_bit RWAL (NOT (push_bit TXINI 1)), r_tx := Some p, r_bank := []\<rparr>"

lemma send_one:
  assumes "UENUM s = 0" "ctl32 (eps s 0)" "length xs \<le> 32"
  shows "usb_send_in (fold uedatx_write xs s) = upd_ep 0 (ctl_sent xs) s"
proof -
  have c: "cur s = eps s 0" using assms(1) by (simp add: cur_def)
  have f: "fold uedatx_write xs s = upd_cur (\<lambda>ep. ep\<lparr>r_bank := r_bank ep @ xs\<rparr>) s"
    using assms c by (intro fold_uedatx_write) (simp add: ctl32_def)
  have "ueintx_write (NOT (push_bit TXINI 1)) ((eps s 0)\<lparr>r_bank := r_bank (eps s 0) @ xs\<rparr>) = ctl_sent xs (eps s 0)"
    using assms(2) bits_FE by (simp add: ueintx_write_def Let_def ctl32_def ep_is_control_def ep_commit_def ctl_sent_def)
  then show ?thesis
    using assms(1) by (simp add: usb_send_in_def f set_UEINTX_def upd_cur_def upd_ep_def)
qed

text \<open>The host collects the packet: the bank is free again.\<close>

definition ctl_collected :: "u8 list \<Rightarrow> ep_regs \<Rightarrow> ep_regs" where
  "ctl_collected p ep = ep\<lparr>r_ueintx := set_bit TXINI (r_ueintx ep AND set_bit RWAL (NOT (push_bit TXINI 1))), r_sent := r_sent ep @ [p]\<rparr>"

lemma collect_sent:
  assumes "ctl32 (eps s 0)"
  shows "collect 0 (upd_ep 0 (ctl_sent p) s) = upd_ep 0 (ctl_collected p) s"
proof -
  have c: "ep_is_control (ctl_sent p (eps s 0))" "r_tx (eps s 0) = None" "r_bank (eps s 0) = []"
    using assms by (simp_all add: ctl32_def ctl_sent_def ep_is_control_def)
  have "(ctl_sent p (eps s 0))\<lparr>r_tx := None, r_sent := r_sent (ctl_sent p (eps s 0)) @ [p],
      r_ueintx := set_bit TXINI (r_ueintx (ctl_sent p (eps s 0)))\<rparr> = ctl_collected p (eps s 0)"
    using c by (intro ep_regs.equality) (simp_all add: ctl_sent_def ctl_collected_def)
  moreover have "r_tx (ctl_sent p (eps s 0)) = Some p" by (simp add: ctl_sent_def)
  ultimately show ?thesis using c by (simp add: collect_def host_in_def upd_ep_def)
qed

lemma ctl_collected_ctl32: "ctl32 ep \<Longrightarrow> ctl32 (ctl_collected p ep)"
  using bits_FE by (auto simp: ctl32_def ctl_collected_def ep_is_control_def ep_size_def bit_and_iff)

lemma send_pass_ready:
  assumes "UENUM s = 0" "ctl32 (eps s 0)" "unat len \<le> length xs"
  shows "send_pass (xs, len) s =
    (if unat len < 32 then Inl ((), upd_ep 0 (ctl_sent (take (unat len) xs)) s)
     else Inr ((drop 32 xs, len - 32), upd_ep 0 (ctl_sent (take 32 xs)) s))"
proof -
  have c: "bit (UEINTX s) TXINI" "\<not> bit (UEINTX s) RXOUTI" using assms by (simp_all add: UEINTX_def cur_def ctl32_def)
  show ?thesis
  proof (cases "unat len < 32")
    case True
    have "usb_send_in (fold uedatx_write (take (unat len) xs) s) = upd_ep 0 (ctl_sent (take (unat len) xs)) s"
      by (rule send_one [OF assms(1,2)]) (use True in simp)
    with True c show ?thesis by (simp add: send_pass_def ENDPOINT0_SIZE_def Let_def)
  next
    case False
    have "usb_send_in (fold uedatx_write (take 32 xs) s) = upd_ep 0 (ctl_sent (take 32 xs)) s"
      by (rule send_one [OF assms(1,2)]) simp
    with False c show ?thesis by (simp add: send_pass_def ENDPOINT0_SIZE_def Let_def)
  qed
qed

lemma send_packets_delivers:
  assumes "UENUM s = 0" "ctl32 (eps s 0)" "unat len \<le> length xs"
  shows "\<exists>s'. send_packets xs len (replicate (length (packets32 (take (unat len) xs)) - 1) (collect 0)) s = Inr ((), s', []) \<and>
    r_tx (eps s' 0) = Some (last (packets32 (take (unat len) xs))) \<and>
    r_sent (eps s' 0) = r_sent (eps s 0) @ butlast (packets32 (take (unat len) xs))"
  using assms
proof (induction "unat len" arbitrary: xs len s rule: less_induct)
  case less
  let ?ps = "packets32 (take (unat len) xs)"
  show ?case
  proof (cases "unat len < 32")
    case True
    then have ps: "?ps = [take (unat len) xs]" by (subst packets32.simps) simp
    have "send_pass (xs, len) s = Inl ((), upd_ep 0 (ctl_sent (take (unat len) xs)) s)"
      using send_pass_ready [OF less.prems] True by simp
    from poll_until_exit [of send_pass, OF this] show ?thesis
      unfolding ps by (simp add: send_packets_def ctl_sent_def)
  next
    case False
    have l: "32 \<le> unat len" using False by simp
    then have sub: "unat (len - 32) = unat len - 32" by (simp add: unat_sub word_le_nat_alt)
    have ps: "?ps = take 32 xs # packets32 (take (unat (len - 32)) (drop 32 xs))"
      using False less.prems(3) by (subst packets32.simps) (simp add: sub drop_take min_def)
    let ?s = "upd_ep 0 (ctl_collected (take 32 xs)) s"
    have "\<exists>s'. send_packets (drop 32 xs) (len - 32) (replicate (length (packets32 (take (unat (len - 32)) (drop 32 xs))) - 1) (collect 0)) ?s = Inr ((), s', []) \<and>
      r_tx (eps s' 0) = Some (last (packets32 (take (unat (len - 32)) (drop 32 xs)))) \<and>
      r_sent (eps s' 0) = r_sent (eps ?s 0) @ butlast (packets32 (take (unat (len - 32)) (drop 32 xs)))"
      by (rule less.hyps) (use less.prems l sub ctl_collected_ctl32 in auto)
    then obtain s' where s': "send_packets (drop 32 xs) (len - 32) (replicate (length ?ps - 2) (collect 0)) ?s = Inr ((), s', [])"
      "r_tx (eps s' 0) = Some (last ?ps)" "r_sent (eps s' 0) = r_sent (eps s 0) @ butlast ?ps"
      unfolding ps by (auto simp: ctl_collected_def numeral_2_eq_2)
    have "0 < length (packets32 (take (unat (len - 32)) (drop 32 xs)))" by simp
    then obtain m where m: "length ?ps = Suc (Suc m)" unfolding ps by (metis gr0_conv_Suc length_Cons)
    have step: "send_pass (xs, len) s = Inr ((drop 32 xs, len - 32), upd_ep 0 (ctl_sent (take 32 xs)) s)"
      using send_pass_ready [OF less.prems] False by simp
    have "send_packets xs len (replicate (length ?ps - 1) (collect 0)) s =
        send_packets (drop 32 xs) (len - 32) (replicate (length ?ps - 2) (collect 0)) ?s"
      unfolding m send_packets_def using poll_until_round [of send_pass, OF step, of "collect 0"] collect_sent [OF less.prems(2)]
      by simp
    with s' show ?thesis by auto
  qed
qed

section \<open>The request\<close>

definition setup_bytes :: "usb_request \<Rightarrow> u8 list" where
  "setup_bytes r = [bmRequestType r, bRequest r] @ le_bytes 2 (wValue r) @ le_bytes 2 (wIndex r) @ le_bytes 2 (wLength r)"

lemma word_of_bytes: "ucast (ucast w :: u8) OR push_bit 8 (ucast (ucast (drop_bit 8 w) :: u8)) = w" for w :: u16
  by (intro bit_eqI) (auto simp: bit_simps)

lemma read_request_bank:
  assumes "UENUM s = 0" "r_bank (eps s 0) = setup_bytes r"
  shows "read_request s = (r, upd_ep 0 (\<lambda>ep. ep\<lparr>r_bank := []\<rparr>) s)"
proof -
  have b: "r_bank (cur s) = [bmRequestType r, bRequest r, ucast (wValue r), ucast (drop_bit 8 (wValue r)), ucast (wIndex r),
      ucast (drop_bit 8 (wIndex r)), ucast (wLength r), ucast (drop_bit 8 (wLength r))]"
    using assms by (simp add: cur_def setup_bytes_def le_bytes_2)
  have "r = \<lparr>bmRequestType = bmRequestType r, bRequest = bRequest r, wValue = wValue r, wIndex = wIndex r, wLength = wLength r\<rparr>" by simp
  with b have "read_request s = (r, upd_cur (\<lambda>ep. ep\<lparr>r_bank := []\<rparr>) s)"
    by (simp add: read_request_def uedatx_read_def word_of_bytes upd_cur_upd_cur)
  with assms(1) show ?thesis by (simp add: upd_cur_def)
qed

text \<open>A SETUP packet finds the control endpoint in whatever state; its interrupt frees the bank.\<close>

lemma setup_ready:
  assumes "ep_is_control (eps s 0)" "ep_size (eps s 0) = 32"
  obtains t where "\<And>w. dbg_COM_vect w (host_setup (setup_bytes r) s) = com_request r w t" "UENUM t = 0" "ctl32 (eps t 0)"
    "r_sent (eps t 0) = r_sent (eps s 0)" "\<not> bit (r_ueconx (eps t 0)) STALLRQ"
proof -
  let ?v = "NOT (push_bit RXSTPI 1 OR push_bit RXOUTI 1 OR push_bit TXINI 1) :: u8"
  let ?h = "uenum_write 0 (host_setup (setup_bytes r) s)"
  have v: "\<not> bit ?v RXSTPI" "\<not> bit ?v RXOUTI" by (simp_all add: bit_not_iff bit_or_iff bit_and_iff bit_exp_iff)
  have h: "UENUM ?h = 0" "r_bank (eps ?h 0) = setup_bytes r" "bit (r_ueintx (eps ?h 0)) RXSTPI" "bit (r_ueintx (eps ?h 0)) TXINI"
    "ep_is_control (eps ?h 0)" "ep_size (eps ?h 0) = 32" "r_tx (eps ?h 0) = None" "r_sent (eps ?h 0) = r_sent (eps s 0)"
    "\<not> bit (r_ueconx (eps ?h 0)) STALLRQ"
    using assms by (simp_all add: host_setup_def uenum_write_def ep_is_control_def ep_size_def)
  let ?t = "set_UEINTX ?v (upd_ep 0 (\<lambda>ep. ep\<lparr>r_bank := []\<rparr>) ?h)"
  have e: "eps ?t 0 = ueintx_write ?v ((eps ?h 0)\<lparr>r_bank := []\<rparr>)" using h(1) by (simp add: set_UEINTX_def)
  have w: "ueintx_write ?v ((eps ?h 0)\<lparr>r_bank := []\<rparr>) =
      (eps ?h 0)\<lparr>r_bank := [], r_ueintx := r_ueintx (eps ?h 0) AND set_bit TXINI (set_bit RWAL ?v)\<rparr>"
    using h(3,5) v by (intro ep_regs.equality) (simp_all add: ueintx_write_def Let_def ep_is_control_def ep_free_def)
  show ?thesis
  proof (rule that [of ?t])
    show "UENUM ?t = 0" using h(1) by (simp add: set_UEINTX_def)
    show "ctl32 (eps ?t 0)" unfolding e w using h v by (simp add: ctl32_def ep_is_control_def ep_size_def bit_and_iff)
    show "r_sent (eps ?t 0) = r_sent (eps s 0)" "\<not> bit (r_ueconx (eps ?t 0)) STALLRQ" unfolding e w using h by simp_all
    have "bit (UEINTX ?h) RXSTPI" using h by (simp add: UEINTX_def cur_def)
    with read_request_bank [OF h(1,2)] show "dbg_COM_vect w (host_setup (setup_bytes r) s) = com_request r w ?t" for w
      by (simp add: dbg_COM_vect_def Let_def)
  qed
qed

lemma descriptor_lengths: "list_all (\<lambda>d. unat (dd_length d) \<le> length (dd_addr d)) descriptor_list"
  by code_simp

lemma find_desc_in: "find_desc v i ds = Some d \<Longrightarrow> d \<in> set ds"
  by (induction v i ds rule: find_desc.induct) (auto split: if_splits)

lemma dbg_stall_ep:
  "UENUM s = 0 \<Longrightarrow> bit (r_ueconx (eps (dbg_stall s) 0)) STALLRQ \<and> r_tx (eps (dbg_stall s) 0) = r_tx (eps s 0) \<and>
     r_sent (eps (dbg_stall s) 0) = r_sent (eps s 0)"
  by (auto simp: dbg_stall_def set_UECONX_def ueconx_write_def bit_or_iff bit_exp_iff)

text \<open>A request for a descriptor of the table is answered with its first bytes, as many as the host asked for
  (at most 255) and the table has, in packets of 32 and a shorter last one, if the host collects the
  packets; one for any other descriptor stalls the control endpoint and sends nothing.\<close>

lemma debug_get_descriptor:
  assumes "ep_is_control (eps s 0)" "ep_size (eps s 0) = 32" "bRequest r = GET_DESCRIPTOR"
  shows "case find_desc (wValue r) (wIndex r) descriptor_list of
      None \<Rightarrow> (\<exists>s'. dbg_COM_vect w (host_setup (setup_bytes r) s) = Inr ((), s', w) \<and> bit (r_ueconx (eps s' 0)) STALLRQ \<and>
        r_tx (eps s' 0) = None \<and> r_sent (eps s' 0) = r_sent (eps s 0))
    | Some d \<Rightarrow> (let ps = packets32 (take (min (min (unat (wLength r)) 255) (unat (dd_length d))) (dd_addr d)) in
        \<exists>s'. dbg_COM_vect (replicate (length ps - 1) (collect 0)) (host_setup (setup_bytes r) s) = Inr ((), s', []) \<and>
          r_tx (eps s' 0) = Some (last ps) \<and> r_sent (eps s' 0) = r_sent (eps s 0) @ butlast ps)"
proof -
  obtain t where t: "\<And>w. dbg_COM_vect w (host_setup (setup_bytes r) s) = com_request r w t" "UENUM t = 0" "ctl32 (eps t 0)"
    "r_sent (eps t 0) = r_sent (eps s 0)" "\<not> bit (r_ueconx (eps t 0)) STALLRQ"
    by (rule setup_ready [OF assms(1,2)]) blast
  have q: "com_request r w t = com_get_descriptor r w t" for w using assms(3) by (simp add: com_request_def)
  show ?thesis
  proof (cases "find_desc (wValue r) (wIndex r) descriptor_list")
    case None
    then have "dbg_COM_vect w (host_setup (setup_bytes r) s) = Inr ((), dbg_stall t, w)"
      by (simp add: t(1) q com_get_descriptor_def)
    moreover have "r_tx (eps t 0) = None" using t(3) by (simp add: ctl32_def)
    ultimately show ?thesis using None dbg_stall_ep [OF t(2)] t(4) by simp
  next
    case (Some d)
    let ?l = "if wLength r < 256 then ucast (wLength r) else 255 :: u8"
    let ?len = "if ?l > dd_length d then dd_length d else ?l"
    have "unat ?l = min (unat (wLength r)) 255"
      by (auto simp: word_less_nat_alt unsigned_ucast_eq take_bit_nat_eq_self)
    then have len: "unat ?len = min (min (unat (wLength r)) 255) (unat (dd_length d))" by (auto simp: word_less_nat_alt)
    have "unat (dd_length d) \<le> length (dd_addr d)"
      using descriptor_lengths find_desc_in [OF Some] by (simp add: list_all_iff)
    then have "unat ?len \<le> length (dd_addr d)" unfolding len by simp
    from send_packets_delivers [OF t(2,3) this] show ?thesis
      using Some t(4) by (simp add: t(1) q com_get_descriptor_def Let_def len [symmetric])
  qed
qed

section \<open>Instances\<close>

definition dbg_start :: dbg_dev where
  "dbg_start = dbg_reset (usb_hw.extend hw_reset \<lparr>SREG = 0x80, UDFNUML = 0, usb_configuration = 0, debug_flush_timer = 0, previous_timeout = 0\<rparr>)"

definition dbg_configured :: dbg_dev where
  "dbg_configured = com_set_configuration \<lparr>bmRequestType = 0, bRequest = 9, wValue = 1, wIndex = 0, wLength = 0\<rparr> dbg_start"

lemma dbg_start_ctl: "ep_is_control (eps dbg_start 0)" "ep_size (eps dbg_start 0) = 32" "r_sent (eps dbg_start 0) = []"
  by code_simp+

lemma dbg_configured_ep: "ep_is_in (eps dbg_configured 3) \<and> \<not> ep_is_control (eps dbg_configured 3) \<and> ep_size (eps dbg_configured 3) = 32 \<and>
    bit (r_ueintx (eps dbg_configured 3)) FIFOCON \<and> r_bank (eps dbg_configured 3) = [] \<and> r_tx (eps dbg_configured 3) = None \<and>
    r_sent (eps dbg_configured 3) = []"
  by code_simp

lemma dbg_configured_ok: "dbg_ok dbg_configured" "dbg_stream dbg_configured = []"
  using dbg_configured_ep by (simp_all add: dbg_ok_def tx_ok_def dbg_stream_def tx_stream_def)

lemma putchar_demo:
  "case usb_debug_putchar 65 [collect 3, frame_interrupt] dbg_configured of Inl _ \<Rightarrow> False | Inr (r, s', w') \<Rightarrow> r = 0"
  by code_simp

lemma debug_channel_keeps_order_witness:
  "(\<exists>s' w' k. usb_debug_putchar 65 [collect 3, frame_interrupt] dbg_configured = Inr (0, s', w') \<and> dbg_stream s' = replicate k 0 @ [65]) \<and>
   (\<exists>s' k. usb_debug_flush_output dbg_configured = Inr s' \<and> dbg_stream s' = replicate k 0)"
proof -
  have "\<forall>e \<in> set [collect 3, frame_interrupt :: dbg_dev \<Rightarrow> dbg_dev]. dbg_event e"
    using collect_event frame_event by simp
  note w = debug_channel_keeps_order [OF dbg_configured_ok(1) this, of 65]
  obtain s' w' where r: "usb_debug_putchar 65 [collect 3, frame_interrupt] dbg_configured = Inr (0, s', w')"
    using putchar_demo by (auto split: sum.splits)
  then have "\<exists>k. dbg_stream s' = replicate k 0 @ [65]" using w dbg_configured_ok(2) by auto
  moreover have "\<exists>s' k. usb_debug_flush_output dbg_configured = Inr s' \<and> dbg_stream s' = replicate k 0"
    using w dbg_configured_ok(2) by auto
  ultimately show ?thesis using r by blast
qed

lemma putchar_gives_up_instance:
  "usb_debug_putchar 65 (ticks [True, True, False, True]) (dbg_start\<lparr>usb_configuration := 1\<rparr>) = Inl Waiting \<and>
   usb_debug_putchar 65 (ticks [True, True, False, True, True, True]) (dbg_start\<lparr>usb_configuration := 1\<rparr>) =
     Inr (-1, dbg_start\<lparr>usb_configuration := 1, UENUM := 3, UDFNUML := UDFNUML dbg_start + 4, previous_timeout := 1\<rparr>, ticks [True])"
proof -
  have "previous_timeout dbg_start = 0" "\<not> ep_rwal (eps dbg_start 3)" by code_simp+
  then have s: "usb_configuration (dbg_start\<lparr>usb_configuration := 1\<rparr>) \<noteq> 0" "previous_timeout (dbg_start\<lparr>usb_configuration := 1\<rparr>) = 0"
    "\<not> ep_rwal (eps (dbg_start\<lparr>usb_configuration := 1\<rparr>) 3)" by simp_all
  show ?thesis
    using putchar_gives_up [OF s, of 65 "[True, True, False, True]"] putchar_gives_up [OF s, of 65 "[True, True, False, True, True, True]"]
    by (simp add: numeral_3_eq_3)
qed

lemma debug_get_descriptor_instance:
  "\<exists>s'. dbg_COM_vect [collect 0] (host_setup [0x80, 6, 0, 2, 0, 0, 255, 0] dbg_start) = Inr ((), s', []) \<and>
     r_tx (eps s' 0) = Some [0, 1] \<and> r_sent (eps s' 0) = [take 32 config1_descriptor]"
proof -
  let ?r = "\<lparr>bmRequestType = 0x80, bRequest = 6, wValue = 0x200, wIndex = 0, wLength = 255\<rparr>"
  have "bRequest ?r = GET_DESCRIPTOR" by (simp add: dbg_requests)
  note w = debug_get_descriptor [OF dbg_start_ctl(1,2) this]
  have f: "find_desc (wValue ?r) (wIndex ?r) descriptor_list =
    Some \<lparr>dd_wValue = 0x0200, dd_wIndex = 0x0000, dd_addr = config1_descriptor, dd_length = 34\<rparr>" by code_simp
  have p: "packets32 (take 34 config1_descriptor) = [take 32 config1_descriptor, [0, 1]]" by code_simp
  have b: "setup_bytes ?r = [0x80, 6, 0, 2, 0, 0, 255, 0]" by code_simp
  from w [of "[]"] show ?thesis by (simp only: f option.case) (simp add: Let_def p b dbg_start_ctl)
qed

text \<open>
  The report descriptor of the channel has 32 fields; the library's parser, with a filter that keeps all
  of them, has room for 20.
\<close>

lemma debug_report_too_long:
  "(case USB_ProcessHIDReport (\<lambda>i. (True, i)) junk_demo hid_report_descriptor of Inl e \<Rightarrow> None | Inr (c, info) \<Rightarrow> Some c)
     = Some HID_PARSE_InsufficientReportItems"
  by code_simp

end
