(* ===== verification/TestPrograms.thy ===== *)
theory TestPrograms
  imports Commands
begin

text \<open>
  The test programs of the driver, \<open>tests/utils.c\<close> and \<open>tests/test1.c\<close> to \<open>test11.c\<close>: user programs
  that write the contents of files to the device, read them back and delete them, and combine the
  results with a bitwise or into their exit code.
\<close>

section \<open>What they call\<close>

text \<open>
  The system calls, on a state \<open>'d\<close> of the device: opening, reading into a request, writing one, the
  erase request and closing. \<open>px_open_file\<close> tells whether a data file can be opened, \<open>px_fstat\<close> its
  result and size, \<open>px_read_file\<close> the result of reading that many bytes and the bytes; \<open>px_memcmp\<close> is
  \<open>memcmp\<close>, \<open>px_errno\<close> the error number after a failed call.
\<close>

record 'd posix =
  px_open :: "int \<Rightarrow> 'd \<Rightarrow> int \<times> 'd"
  px_read :: "command \<Rightarrow> 'd \<Rightarrow> int \<times> command \<times> 'd"
  px_write :: "command \<Rightarrow> 'd \<Rightarrow> int \<times> 'd"
  px_ioctl :: "u64 \<Rightarrow> 'd \<Rightarrow> int \<times> 'd"
  px_close :: "'d \<Rightarrow> int \<times> 'd"
  px_errno :: "'d \<Rightarrow> int"
  px_open_file :: "string \<Rightarrow> bool"
  px_fstat :: "string \<Rightarrow> int \<times> int"
  px_read_file :: "string \<Rightarrow> int \<Rightarrow> int \<times> u8 list"
  px_memcmp :: "u8 list \<Rightarrow> u8 list \<Rightarrow> int"

definition O_NONBLOCK :: int where "O_NONBLOCK = 2048"
definition EAGAIN :: int where "EAGAIN = 11"
definition MAXDATASIZE :: int where "MAXDATASIZE = 2"

section \<open>utils.c\<close>

definition open_teensy :: "'d posix \<Rightarrow> int \<Rightarrow> 'd \<Rightarrow> int \<times> 'd" where
  "open_teensy P flags d = px_open P flags d"

definition filesize :: "'d posix \<Rightarrow> string \<Rightarrow> 'd \<Rightarrow> int" where
  "filesize P f d = (case px_fstat P f of (err, st_size) \<Rightarrow> if err \<noteq> 0 then px_errno P d else st_size)"

text \<open>\<open>datasize > MAXDATASIZE\<close> compares as unsigned numbers: a negative size is too large.\<close>

definition too_large :: "int \<Rightarrow> bool" where
  "too_large n \<longleftrightarrow> n < 0 \<or> n > MAXDATASIZE"

text \<open>
  \<open>m\<close> is what the data field of the allocated request happens to hold. When the file is too large the
  function frees \<open>filedata\<close> before it has a value: a fault.
\<close>

definition compare_dev_to_file :: "'d posix \<Rightarrow> u16 \<Rightarrow> string \<Rightarrow> u64 \<Rightarrow> 'd \<Rightarrow> stop + int \<times> 'd" where
  "compare_dev_to_file P m f index d =
     (if \<not> px_open_file P f then Inr (-1, d)
      else
        let datasize = filesize P f d
        in if too_large datasize then Inl Fault
           else
             let rreq = \<lparr>c_cmd_type = CMD_READ, c_index = index, c_data = m\<rparr>
             in case px_read_file P f datasize of (err, filedata) \<Rightarrow>
                  if err \<noteq> datasize then Inr (-1, d)
                  else case px_read P rreq d of (err, rreq, d) \<Rightarrow>
                    if err = -1 then Inr (px_errno P d, d)
                    else if err = 1 then Inr (px_memcmp P filedata (take (nat datasize) (le_bytes 2 (c_data rreq))), d)
                    else Inr (err, d))"

definition write_file_to_dev :: "'d posix \<Rightarrow> u16 \<Rightarrow> string \<Rightarrow> u64 \<Rightarrow> 'd \<Rightarrow> stop + int \<times> 'd" where
  "write_file_to_dev P m f index d =
     (if \<not> px_open_file P f then Inr (-1, d)
      else
        let datasize = filesize P f d
        in if too_large datasize then Inr (-1, d)
           else case px_read_file P f datasize of (err, bytes) \<Rightarrow>
             let wreq = \<lparr>c_cmd_type = CMD_STORE, c_index = index, c_data = le_word (take 2 (bytes @ drop (length bytes) (le_bytes 2 m)))\<rparr>
             in if err \<noteq> datasize then Inr (-1, d)
                else case px_write P wreq d of (err, d) \<Rightarrow>
                  if err = -1 then Inr (px_errno P d, d)
                  else if err = 1 then Inr (0, d)
                  else Inr (err, d))"

section \<open>The programs\<close>

text \<open>\<open>err |= ...\<close>\<close>

definition or_err :: "('d \<Rightarrow> stop + int \<times> 'd) \<Rightarrow> int \<times> 'd \<Rightarrow> stop + int \<times> 'd" where
  "or_err f e = (case e of (err, d) \<Rightarrow> (case f d of Inl x \<Rightarrow> Inl x | Inr (r, d) \<Rightarrow> Inr (err OR r, d)))"

fun or_all :: "('d \<Rightarrow> stop + int \<times> 'd) list \<Rightarrow> int \<times> 'd \<Rightarrow> stop + int \<times> 'd" where
  "or_all [] e = Inr e"
| "or_all (f # fs) e = (case or_err f e of Inl x \<Rightarrow> Inl x | Inr e \<Rightarrow> or_all fs e)"

definition lift_ioctl :: "'d posix \<Rightarrow> u64 \<Rightarrow> 'd \<Rightarrow> stop + int \<times> 'd" where
  "lift_ioctl P i d = Inr (px_ioctl P i d)"

definition close_dev :: "'d posix \<Rightarrow> 'd \<Rightarrow> stop + int \<times> 'd" where
  "close_dev P d = Inr (px_close P d)"

definition test1 :: "'d posix \<Rightarrow> u16 \<Rightarrow> 'd \<Rightarrow> stop + int \<times> 'd" where
  "test1 P m d =
     (case open_teensy P 0 d of (teensy, d) \<Rightarrow>
        if teensy = -1 then Inr (-1, d)
        else case or_all
               [write_file_to_dev P m ''data/mid'' 28,
                write_file_to_dev P m ''data/small'' 13,
                write_file_to_dev P m ''data/small'' 29,
                compare_dev_to_file P m ''data/small'' 13] (0, d) of
             Inl e \<Rightarrow> Inl e
           | Inr (err, d) \<Rightarrow> or_err (close_dev P) (err, d))"

definition test2 :: "'d posix \<Rightarrow> u16 \<Rightarrow> 'd \<Rightarrow> stop + int \<times> 'd" where
  "test2 P m d =
     (case open_teensy P 0 d of (teensy, d) \<Rightarrow>
        if teensy = -1 then Inr (-1, d)
        else case or_all
               [write_file_to_dev P m ''data/mid'' 28,
                write_file_to_dev P m ''data/small'' 13,
                write_file_to_dev P m ''data/small'' 29,
                compare_dev_to_file P m ''data/mid'' 28] (0, d) of
             Inl e \<Rightarrow> Inl e
           | Inr (err, d) \<Rightarrow> or_err (close_dev P) (err, d))"

definition test3 :: "'d posix \<Rightarrow> u16 \<Rightarrow> 'd \<Rightarrow> stop + int \<times> 'd" where
  "test3 P m d =
     (case open_teensy P 0 d of (teensy, d) \<Rightarrow>
        if teensy = -1 then Inr (-1, d)
        else case or_all
               [write_file_to_dev P m ''data/mid'' 28,
                write_file_to_dev P m ''data/small'' 13,
                write_file_to_dev P m ''data/small'' 29,
                compare_dev_to_file P m ''data/small'' 29] (0, d) of
             Inl e \<Rightarrow> Inl e
           | Inr (err, d) \<Rightarrow> or_err (close_dev P) (err, d))"

definition test4 :: "'d posix \<Rightarrow> u16 \<Rightarrow> 'd \<Rightarrow> stop + int \<times> 'd" where
  "test4 P m d =
     (case open_teensy P 0 d of (teensy, d) \<Rightarrow>
        if teensy = -1 then Inr (-1, d)
        else case or_all
               [write_file_to_dev P m ''data/mid'' 28,
                write_file_to_dev P m ''data/small'' 13,
                write_file_to_dev P m ''data/small'' 17,
                compare_dev_to_file P m ''data/small'' 17] (0, d) of
             Inl e \<Rightarrow> Inl e
           | Inr (err, d) \<Rightarrow> or_err (close_dev P) (err, d))"

definition test5 :: "'d posix \<Rightarrow> u16 \<Rightarrow> 'd \<Rightarrow> stop + int \<times> 'd" where
  "test5 P m d =
     (case open_teensy P 0 d of (teensy, d) \<Rightarrow>
        if teensy = -1 then Inr (-1, d)
        else case or_all
               [write_file_to_dev P m ''data/mid'' 28,
                write_file_to_dev P m ''data/small'' 13,
                write_file_to_dev P m ''data/small'' 5,
                compare_dev_to_file P m ''data/small'' 5] (0, d) of
             Inl e \<Rightarrow> Inl e
           | Inr (err, d) \<Rightarrow> or_err (close_dev P) (err, d))"

definition test6 :: "'d posix \<Rightarrow> u16 \<Rightarrow> 'd \<Rightarrow> stop + int \<times> 'd" where
  "test6 P m d =
     (case open_teensy P O_NONBLOCK d of (teensy, d) \<Rightarrow>
        if teensy = -1 then Inr (-1, d)
        else case or_all
               [lift_ioctl P 7] (0, d) of
             Inl e \<Rightarrow> Inl e
           | Inr (err, d) \<Rightarrow> or_err (close_dev P) (err, d))"

definition test7 :: "'d posix \<Rightarrow> u16 \<Rightarrow> 'd \<Rightarrow> stop + int \<times> 'd" where
  "test7 P m d =
     (case open_teensy P O_NONBLOCK d of (teensy, d) \<Rightarrow>
        if teensy = -1 then Inr (-1, d)
        else case or_all
               [write_file_to_dev P m ''data/mid'' 28,
                write_file_to_dev P m ''data/small'' 13,
                lift_ioctl P 13,
                compare_dev_to_file P m ''data/small'' 13] (0, d) of
             Inl e \<Rightarrow> Inl e
           | Inr (err, d) \<Rightarrow>
               let err = (if err = EAGAIN then 0 else -1)
               in or_err (close_dev P) (err, d))"

definition test8 :: "'d posix \<Rightarrow> u16 \<Rightarrow> 'd \<Rightarrow> stop + int \<times> 'd" where
  "test8 P m d =
     (case open_teensy P O_NONBLOCK d of (teensy, d) \<Rightarrow>
        if teensy = -1 then Inr (-1, d)
        else case or_all
               [write_file_to_dev P m ''data/mid'' 28,
                write_file_to_dev P m ''data/small'' 13,
                write_file_to_dev P m ''data/small'' 29,
                lift_ioctl P 29,
                compare_dev_to_file P m ''data/small'' 29] (0, d) of
             Inl e \<Rightarrow> Inl e
           | Inr (err, d) \<Rightarrow>
               let err = (if err = EAGAIN then 0 else -1)
               in or_err (close_dev P) (err, d))"

definition test9 :: "'d posix \<Rightarrow> u16 \<Rightarrow> 'd \<Rightarrow> stop + int \<times> 'd" where
  "test9 P m d =
     (case open_teensy P O_NONBLOCK d of (teensy, d) \<Rightarrow>
        if teensy = -1 then Inr (-1, d)
        else case or_all
               [write_file_to_dev P m ''data/mid'' 28,
                write_file_to_dev P m ''data/small'' 13,
                write_file_to_dev P m ''data/small'' 29,
                lift_ioctl P 28,
                compare_dev_to_file P m ''data/small'' 28] (0, d) of
             Inl e \<Rightarrow> Inl e
           | Inr (err, d) \<Rightarrow>
               let err = (if err = EAGAIN then 0 else -1)
               in or_err (close_dev P) (err, d))"

definition test10 :: "'d posix \<Rightarrow> u16 \<Rightarrow> 'd \<Rightarrow> stop + int \<times> 'd" where
  "test10 P m d =
     (case open_teensy P O_NONBLOCK d of (teensy, d) \<Rightarrow>
        if teensy = -1 then Inr (-1, d)
        else case or_all
               [write_file_to_dev P m ''data/mid'' 28,
                write_file_to_dev P m ''data/small'' 13,
                write_file_to_dev P m ''data/small'' 29,
                lift_ioctl P 13,
                compare_dev_to_file P m ''data/small'' 13] (0, d) of
             Inl e \<Rightarrow> Inl e
           | Inr (err, d) \<Rightarrow>
               let err = (if err = EAGAIN then 0 else -1)
               in or_err (close_dev P) (err, d))"

definition test11 :: "'d posix \<Rightarrow> u16 \<Rightarrow> 'd \<Rightarrow> stop + int \<times> 'd" where
  "test11 P m d =
     (case open_teensy P O_NONBLOCK d of (teensy, d) \<Rightarrow>
        if teensy = -1 then Inr (-1, d)
        else case or_all
               [write_file_to_dev P m ''data/mid'' 28,
                write_file_to_dev P m ''data/small'' 28,
                compare_dev_to_file P m ''data/small'' 28] (0, d) of
             Inl e \<Rightarrow> Inl e
           | Inr (err, d) \<Rightarrow> or_err (close_dev P) (err, d))"

section \<open>Their outcome\<close>

definition returns :: "('d \<Rightarrow> stop + int \<times> 'd) \<Rightarrow> bool" where
  "returns f \<longleftrightarrow> (\<forall>d. \<exists>r d'. f d = Inr (r, d'))"

lemma returns_write: "returns (write_file_to_dev P m f i)"
  by (simp add: returns_def write_file_to_dev_def Let_def split: prod.split)

lemma returns_ioctl: "returns (lift_ioctl P i)" "returns (close_dev P)"
  by (simp_all add: returns_def lift_ioctl_def close_dev_def)

lemma returns_compare: "px_fstat P f = (0, n) \<Longrightarrow> 0 \<le> n \<Longrightarrow> n \<le> 2 \<Longrightarrow> returns (compare_dev_to_file P m f i)"
  by (simp add: returns_def compare_dev_to_file_def filesize_def too_large_def MAXDATASIZE_def Let_def split: prod.split)

lemma or_err_returns: "returns f \<Longrightarrow> \<exists>r d'. f d = Inr (r, d') \<and> or_err f (e, d) = Inr (e OR r, d')"
  unfolding returns_def or_err_def by (metis (mono_tags, lifting) case_prod_conv sum.case(2))

lemma or_all_minus1: "\<forall>f \<in> set fs. returns f \<Longrightarrow> \<exists>d'. or_all fs (-1, d) = Inr (-1, d')"
proof (induction fs arbitrary: d)
  case (Cons f fs)
  obtain r d' where "or_err f (-1, d) = Inr (-1 OR r, d')" using or_err_returns [of f d "-1"] Cons.prems by auto
  with Cons.IH [of d'] Cons.prems show ?case by simp
qed simp

text \<open>A data file that is too large makes the first write fail, whatever the device does.\<close>

lemma first_write_fails:
  assumes "px_fstat P f = (0, n)" "n > 2" "\<forall>g \<in> set fs. returns g"
  shows "\<exists>d'. or_all (write_file_to_dev P m f i # fs) (0, d) = Inr (-1, d')"
proof -
  have "write_file_to_dev P m f i d = Inr (-1, d)"
    using assms(1,2) by (simp add: write_file_to_dev_def filesize_def too_large_def MAXDATASIZE_def)
  then have "or_err (write_file_to_dev P m f i) (0, d) = Inr (-1, d)" by (simp add: or_err_def)
  with or_all_minus1 [OF assms(3), of d] show ?thesis by simp
qed

lemma close_minus1: "\<exists>d'. or_err (close_dev P) (-1, d) = Inr (-1, d')"
  using or_err_returns [OF returns_ioctl(2), of P d "-1"] by auto

text \<open>The data files as they are in the repository: three bytes and two.\<close>

definition repo_files :: "'d posix \<Rightarrow> bool" where
  "repo_files P \<longleftrightarrow> px_open_file P ''data/mid'' \<and> px_fstat P ''data/mid'' = (0, 3) \<and> px_open_file P ''data/small'' \<and> px_fstat P ''data/small'' = (0, 2)"

text \<open>Data files that fit, and a device that answers every read and write with \<open>r\<close>, erases and closes.\<close>

definition answers :: "int \<Rightarrow> 'd posix \<Rightarrow> bool" where
  "answers r P \<longleftrightarrow> (\<forall>f. px_open_file P f \<and> px_fstat P f = (0, 2) \<and> fst (px_read_file P f 2) = 2) \<and>
     (\<forall>c d. fst (px_read P c d) = r \<and> fst (px_write P c d) = r) \<and> (\<forall>i d. fst (px_ioctl P i d) = 0) \<and> (\<forall>d. fst (px_close P d) = 0)"

definition gives :: "int \<Rightarrow> ('d \<Rightarrow> stop + int \<times> 'd) \<Rightarrow> bool" where
  "gives r f \<longleftrightarrow> (\<forall>d. \<exists>d'. f d = Inr (r, d'))"

lemma answers_gives:
  assumes "answers r P" "r \<noteq> -1" "r \<noteq> 1"
  shows "gives r (write_file_to_dev P m f i)" "gives r (compare_dev_to_file P m f i)" "gives 0 (lift_ioctl P i)" "gives 0 (close_dev P)"
proof -
  have f: "px_open_file P f" "filesize P f d = 2" "fst (px_read_file P f 2) = 2" for f d
    using assms(1) by (simp_all add: answers_def filesize_def)
  have a: "fst (px_read P c d) = r" "fst (px_write P c d) = r" "fst (px_ioctl P i d) = 0" "fst (px_close P d) = 0" for c d i
    using assms(1) by (simp_all add: answers_def)
  show "gives r (write_file_to_dev P m f i)"
    using assms(2,3) by (simp add: gives_def write_file_to_dev_def f too_large_def MAXDATASIZE_def Let_def a split: prod.split)
      (metis a(2) f(3) fst_conv)
  show "gives r (compare_dev_to_file P m f i)"
    using assms(2,3) by (simp add: gives_def compare_dev_to_file_def f too_large_def MAXDATASIZE_def Let_def a split: prod.split)
      (metis a(1) f(3) fst_conv)
  show "gives 0 (lift_ioctl P i)" "gives 0 (close_dev P)"
    unfolding gives_def lift_ioctl_def close_dev_def by (metis a(3,4) prod.collapse)+
qed

lemma or_err_gives: "gives r f \<Longrightarrow> \<exists>d'. or_err f (e, d) = Inr (e OR r, d')"
  unfolding gives_def or_err_def by (metis (mono_tags, lifting) case_prod_conv sum.case(2))

lemma or_all_gives: "\<forall>f \<in> set fs. gives r f \<or> gives 0 f \<Longrightarrow> \<exists>d'. or_all fs (r, d) = Inr (r, d')"
proof (induction fs arbitrary: d)
  case (Cons f fs)
  then obtain d' where "or_err f (r, d) = Inr (r, d')" using or_err_gives [of _ f r d] by fastforce
  with Cons.IH [of d'] Cons.prems show ?case by simp
qed simp

lemma or_all_gives_first:
  assumes "gives r f" "\<forall>f \<in> set fs. gives r f \<or> gives 0 f"
  shows "\<exists>d'. or_all (f # fs) (0, d) = Inr (r, d')"
proof -
  obtain d' where "or_err f (0, d) = Inr (r, d')" using or_err_gives [OF assms(1), of 0 d] by auto
  with or_all_gives [OF assms(2), of d'] show ?thesis by simp
qed

lemmas plain_tests = test1_def test3_def test4_def test5_def test11_def
lemmas erase_tests = test7_def test8_def test9_def test10_def

lemma opened_dev:
  assumes "fst (px_open P fl d) \<noteq> -1"
  obtains h d1 where "open_teensy P fl d = (h, d1)" "h \<noteq> -1"
  using assms by (cases "px_open P fl d") (auto simp: open_teensy_def)

lemma repo_returns:
  assumes "repo_files P"
  shows "\<forall>f \<in> set [write_file_to_dev P m f1 i1, write_file_to_dev P m f2 i2, compare_dev_to_file P m ''data/small'' i3,
      lift_ioctl P i4]. returns f"
  using assms returns_compare [of P "''data/small''" 2] by (simp add: repo_files_def returns_write returns_ioctl)

text \<open>The two ways a test ends, for whatever requests follow the first write.\<close>

lemma repo_plain:
  assumes "repo_files P" "\<forall>g \<in> set fs. returns g"
  shows "\<exists>d'. (case or_all (write_file_to_dev P m ''data/mid'' i # fs) (0, d) of Inl e \<Rightarrow> Inl e
      | Inr (err, d) \<Rightarrow> or_err (close_dev P) (err, d)) = Inr (-1, d')"
proof -
  obtain d' where "or_all (write_file_to_dev P m ''data/mid'' i # fs) (0, d) = Inr (-1, d')"
    using first_write_fails [of P "''data/mid''" 3 fs m i d] assms by (auto simp: repo_files_def)
  with close_minus1 [of P d'] show ?thesis by simp
qed

lemma repo_erase:
  assumes "repo_files P" "\<forall>g \<in> set fs. returns g"
  shows "\<exists>d'. (case or_all (write_file_to_dev P m ''data/mid'' i # fs) (0, d) of Inl e \<Rightarrow> Inl e
      | Inr (err, d) \<Rightarrow> let err = (if err = EAGAIN then 0 else -1) in or_err (close_dev P) (err, d)) = Inr (-1, d')"
proof -
  obtain d' where "or_all (write_file_to_dev P m ''data/mid'' i # fs) (0, d) = Inr (-1, d')"
    using first_write_fails [of P "''data/mid''" 3 fs m i d] assms by (auto simp: repo_files_def)
  with close_minus1 [of P d'] show ?thesis by (simp add: EAGAIN_def)
qed

lemma answers_plain:
  assumes "answers r P" "r \<noteq> -1" "r \<noteq> 1" "\<forall>g \<in> set fs. gives r g \<or> gives 0 g"
  shows "\<exists>d'. (case or_all (write_file_to_dev P m f i # fs) (0, d) of Inl e \<Rightarrow> Inl e
      | Inr (err, d) \<Rightarrow> or_err (close_dev P) (err, d)) = Inr (r, d')"
proof -
  note g = answers_gives [OF assms(1-3)]
  obtain d' where "or_all (write_file_to_dev P m f i # fs) (0, d) = Inr (r, d')"
    using or_all_gives_first [OF g(1) assms(4)] by blast
  with or_err_gives [OF g(4), of r d'] show ?thesis by simp
qed

lemma answers_erase:
  assumes "answers r P" "r \<noteq> -1" "r \<noteq> 1" "\<forall>g \<in> set fs. gives r g \<or> gives 0 g"
  shows "\<exists>d'. (case or_all (write_file_to_dev P m f i # fs) (0, d) of Inl e \<Rightarrow> Inl e
      | Inr (err, d) \<Rightarrow> let err = (if err = EAGAIN then 0 else -1) in or_err (close_dev P) (err, d)) = Inr (if r = EAGAIN then 0 else -1, d')"
proof -
  note g = answers_gives [OF assms(1-3)]
  obtain d' where "or_all (write_file_to_dev P m f i # fs) (0, d) = Inr (r, d')"
    using or_all_gives_first [OF g(1) assms(4)] by blast
  with or_err_gives [OF g(4), of 0 d'] or_err_gives [OF g(4), of "-1" d'] show ?thesis by simp
qed

text \<open>C11: where opening the device succeeds, test by test. With the data files of the repository, whatever the device
  does: test 2 frees a pointer without a value, which is a fault, and the other tests that write (1, 3 to 5 and 7 to 11) exit
  with -1, because one file is larger than the device's values. With files that fit, on a device that answers every request
  with one number, neither -1 nor 1: tests 1 to 5 and 11 exit with that number, so that they fail on the driver, which
  returns 2, and pass on one that returns 0 and stores nothing; tests 7 to 10 exit with 0 if the number is 11 (\<open>EAGAIN\<close>)
  and with -1 otherwise.\<close>

theorem test_programs_outcome:
  assumes "fst (px_open P 0 d) \<noteq> -1" "fst (px_open P O_NONBLOCK d) \<noteq> -1"
  shows "(repo_files P \<longrightarrow> test2 P m d = Inl Fault \<and>
      (\<forall>t \<in> {test1, test3, test4, test5, test7, test8, test9, test10, test11}. \<exists>d'. t P m d = Inr (-1, d'))) \<and>
    (answers r P \<longrightarrow> r \<noteq> -1 \<longrightarrow> r \<noteq> 1 \<longrightarrow>
      (\<forall>t \<in> {test1, test2, test3, test4, test5, test11}. \<exists>d'. t P m d = Inr (r, d')) \<and>
      (\<forall>t \<in> {test7, test8, test9, test10}. \<exists>d'. t P m d = Inr (if r = EAGAIN then 0 else -1, d')))"
proof -
  obtain h d1 where o: "open_teensy P 0 d = (h, d1)" "h \<noteq> -1" using opened_dev [OF assms(1)] .
  obtain k d2 where n: "open_teensy P O_NONBLOCK d = (k, d2)" "k \<noteq> -1" using opened_dev [OF assms(2)] .
  have "test2 P m d = Inl Fault" if "repo_files P"
  proof -
    have w: "write_file_to_dev P m ''data/mid'' i d = Inr (-1, d)" for i d
      using that by (simp add: repo_files_def write_file_to_dev_def filesize_def too_large_def MAXDATASIZE_def)
    have c: "compare_dev_to_file P m ''data/mid'' i d = Inl Fault" for i d
      using that by (simp add: repo_files_def compare_dev_to_file_def filesize_def too_large_def MAXDATASIZE_def)
    obtain r1 e1 where 1: "write_file_to_dev P m ''data/small'' 13 d1 = Inr (r1, e1)" using returns_write [of P m] unfolding returns_def by blast
    obtain r2 e2 where 2: "write_file_to_dev P m ''data/small'' 29 e1 = Inr (r2, e2)" using returns_write [of P m] unfolding returns_def by blast
    show ?thesis using o by (simp add: test2_def or_err_def w c 1 2)
  qed
  moreover have "\<exists>d'. t P m d = Inr (-1, d')"
    if "repo_files P" "t \<in> {test1, test3, test4, test5, test7, test8, test9, test10, test11}" for t
    using that(2) o n repo_returns [OF that(1)] repo_plain [OF that(1)] repo_erase [OF that(1)]
    by (elim insertE emptyE) (simp_all only: plain_tests erase_tests prod.case if_False list.set ball_simps)
  moreover have "\<exists>d'. t P m d = Inr (r, d')"
    if "answers r P" "r \<noteq> -1" "r \<noteq> 1" "t \<in> {test1, test2, test3, test4, test5, test11}" for t
    using that(4) o n answers_gives [OF that(1-3)] answers_plain [OF that(1-3)]
    by (elim insertE emptyE) (simp_all only: plain_tests test2_def prod.case if_False list.set ball_simps simp_thms)
  moreover have "\<exists>d'. t P m d = Inr (if r = EAGAIN then 0 else -1, d')"
    if "answers r P" "r \<noteq> -1" "r \<noteq> 1" "t \<in> {test7, test8, test9, test10}" for t
    using that(4) o n answers_gives [OF that(1-3)] answers_erase [OF that(1-3)]
    by (elim insertE emptyE) (simp_all only: erase_tests prod.case if_False list.set ball_simps simp_thms)
  ultimately show ?thesis by blast
qed

section \<open>Instances\<close>

text \<open>The tests on an array of values that answers as the driver does, with a size for each data file.\<close>

definition posix_demo :: "(string \<Rightarrow> int) \<Rightarrow> (nat \<Rightarrow> u16) posix" where
  "posix_demo sz = \<lparr>px_open = (\<lambda>_ d. (3, d)),
     px_read = (\<lambda>c d. (2, c\<lparr>c_data := d (unat (c_index c))\<rparr>, d)),
     px_write = (\<lambda>c d. (2, d(unat (c_index c) := c_data c))),
     px_ioctl = (\<lambda>i d. (0, d(unat i := 0))), px_close = (\<lambda>d. (0, d)), px_errno = (\<lambda>_. 5),
     px_open_file = (\<lambda>_. True), px_fstat = (\<lambda>f. (0, sz f)), px_read_file = (\<lambda>f n. (n, replicate (nat n) 7)),
     px_memcmp = (\<lambda>a b. if a = b then 0 else 1)\<rparr>"

lemma test_programs_outcome_witness:
  "test2 (posix_demo (\<lambda>f. if f = ''data/mid'' then 3 else 2)) 0 (\<lambda>_. 0) = Inl Fault \<and>
   (\<exists>d'. test11 (posix_demo (\<lambda>f. if f = ''data/mid'' then 3 else 2)) 0 (\<lambda>_. 0) = Inr (-1, d')) \<and>
   (\<exists>d'. test1 (posix_demo (\<lambda>_. 2)) 0 (\<lambda>_. 0) = Inr (2, d')) \<and> (\<exists>d'. test7 (posix_demo (\<lambda>_. 2)) 0 (\<lambda>_. 0) = Inr (-1, d'))"
proof -
  have o: "fst (px_open (posix_demo sz) fl d) \<noteq> -1" for sz fl d by (simp add: posix_demo_def)
  have r: "repo_files (posix_demo (\<lambda>f. if f = ''data/mid'' then 3 else 2))" by (simp add: repo_files_def posix_demo_def)
  have a: "answers 2 (posix_demo (\<lambda>_. 2))" by (simp add: answers_def posix_demo_def)
  show ?thesis
    using test_programs_outcome [where P = "posix_demo (\<lambda>f. if f = ''data/mid'' then 3 else 2)" and d = "\<lambda>_. 0" and m = 0, OF o o] r
      test_programs_outcome [where P = "posix_demo (\<lambda>_. 2)" and d = "\<lambda>_. 0" and m = 0 and r = 2, OF o o] a
    by (simp add: EAGAIN_def)
qed

end
