(* ===== verification/FlashMem.thy ===== *)
theory FlashMem
  imports Prelude
begin

text \<open>
  The self-programming of an AVR's flash memory, as the boot loaders use it through \<open>avr/boot.h\<close>: a page is
  erased as a whole, a page buffer is filled word by word, and a page write clears in the page the bits that
  are clear in the buffer. The functions are the documented behaviour of the hardware; \<open>pz\<close> is the size of
  a page in bytes. Then what erasing, filling and writing a sequence of pages leaves in the memory.
\<close>

section \<open>The memory and its operations\<close>

text \<open>
  \<open>fl_buf\<close> is the page buffer (\<open>None\<close>: not filled since the buffer was cleared). After an erase or a write the
  memory cannot be read until it is enabled again; \<open>fl_junk\<close> stands for what a read returns meanwhile.
\<close>

record flash =
  fl_mem :: "nat \<Rightarrow> u8"
  fl_buf :: "nat \<Rightarrow> u16 option"
  fl_busy :: bool
  fl_junk :: "nat \<Rightarrow> u8"

definition boot_page_erase :: "nat \<Rightarrow> nat \<Rightarrow> flash \<Rightarrow> flash" where
  "boot_page_erase pz a m =
     m\<lparr>fl_mem := (\<lambda>i. if i div pz = a div pz then 0xFF else fl_mem m i), fl_busy := True\<rparr>"

text \<open>A word of the buffer is filled once; filling it again before the buffer is cleared has no effect.\<close>

definition boot_page_fill :: "nat \<Rightarrow> nat \<Rightarrow> u16 \<Rightarrow> flash \<Rightarrow> flash" where
  "boot_page_fill pz a v m =
     (let i = a mod pz div 2
      in case fl_buf m i of None \<Rightarrow> m\<lparr>fl_buf := (fl_buf m)(i := Some v)\<rparr> | Some _ \<Rightarrow> m)"

definition buf_byte :: "(nat \<Rightarrow> u16 option) \<Rightarrow> nat \<Rightarrow> u8" where
  "buf_byte b j = (case b (j div 2) of None \<Rightarrow> 0xFF | Some v \<Rightarrow> if even j then ucast v else ucast (drop_bit 8 v))"

definition boot_page_write :: "nat \<Rightarrow> nat \<Rightarrow> flash \<Rightarrow> flash" where
  "boot_page_write pz a m =
     m\<lparr>fl_mem := (\<lambda>i. if i div pz = a div pz then fl_mem m i AND buf_byte (fl_buf m) (i mod pz) else fl_mem m i),
       fl_buf := (\<lambda>_. None), fl_busy := True\<rparr>"

definition boot_rww_enable :: "flash \<Rightarrow> flash" where
  "boot_rww_enable m = m\<lparr>fl_buf := (\<lambda>_. None), fl_busy := False\<rparr>"

definition pgm_read_byte :: "nat \<Rightarrow> flash \<Rightarrow> u8" where
  "pgm_read_byte a m = (if fl_busy m then fl_junk m a else fl_mem m a)"

definition pgm_read_word :: "nat \<Rightarrow> flash \<Rightarrow> u16" where
  "pgm_read_word a m = le_word [pgm_read_byte a m, pgm_read_byte (a + 1) m]"

section \<open>Programming pages\<close>

text \<open>
  \<open>flash_image pz P bs f\<close>: the memory \<open>f\<close> with the bytes \<open>bs\<close> from address \<open>P\<close>, the start of a page, and the
  rest of the last page they reach erased.
\<close>

definition flash_image :: "nat \<Rightarrow> nat \<Rightarrow> u8 list \<Rightarrow> (nat \<Rightarrow> u8) \<Rightarrow> nat \<Rightarrow> u8" where
  "flash_image pz P bs f i =
     (if P \<le> i \<and> i < P + length bs then bs ! (i - P)
      else if P \<le> i \<and> i div pz \<le> (P + length bs - 1) div pz then 0xFF
      else f i)"

text \<open>The page buffer after the bytes \<open>bs\<close> were filled in from its start.\<close>

definition buf_of :: "u8 list \<Rightarrow> nat \<Rightarrow> u16 option" where
  "buf_of bs j = (if 2 * j + 1 < length bs then Some (le_word [bs ! (2 * j), bs ! (2 * j + 1)]) else None)"

lemma buf_byte_buf_of:
  assumes "even (length bs)"
  shows "buf_byte (buf_of bs) j = (if j < length bs then bs ! j else 0xFF)"
proof (cases "j < length bs")
  case True
  then have l: "2 * (j div 2) + 1 < length bs" using assms by presburger
  have b: "le_bytes 2 (le_word [b0, b1] :: u16) = [b0, b1]" for b0 b1
    using le_bytes_le_word [of "[b0, b1]", where 'a=16] by (simp add: numeral_2_eq_2)
  then have "ucast (le_word [b0, b1] :: u16) = b0" "ucast (drop_bit 8 (le_word [b0, b1] :: u16)) = b1" for b0 b1 :: u8
    by (simp_all add: numeral_2_eq_2)
  moreover have "2 * (j div 2) = (if even j then j else j - 1)" by presburger
  ultimately show ?thesis
    using True l by (auto simp: buf_byte_def buf_of_def simp del: le_word.simps)
next
  case False
  then have "\<not> 2 * (j div 2) + 1 < length bs" using assms by presburger
  with False show ?thesis by (simp add: buf_byte_def buf_of_def)
qed

lemma boot_page_fill_buf_of:
  assumes "fl_buf m = buf_of bs" "even (length bs)" "a mod pz = length bs"
  shows "boot_page_fill pz a (le_word [b0, b1]) m = m\<lparr>fl_buf := buf_of (bs @ [b0, b1])\<rparr>"
proof -
  obtain k where k: "length bs = 2 * k" using assms(2) by blast
  then have "buf_of (bs @ [b0, b1]) = (buf_of bs)(k := Some (le_word [b0, b1]))"
    by (auto simp: buf_of_def fun_eq_iff nth_append simp del: le_word.simps)
  moreover have "buf_of bs k = None" using k by (simp add: buf_of_def)
  ultimately show ?thesis using assms k by (simp add: boot_page_fill_def)
qed

lemma boot_page_fill_frame [simp]:
  "fl_mem (boot_page_fill pz a v m) = fl_mem m"
  by (simp add: boot_page_fill_def Let_def split: option.splits)

lemma boot_page_erase_simps [simp]:
  "fl_buf (boot_page_erase pz a m) = fl_buf m"
  "fl_mem (boot_page_erase pz a m) i = (if i div pz = a div pz then 0xFF else fl_mem m i)"
  by (simp_all add: boot_page_erase_def)

lemma boot_page_write_simps [simp]:
  "fl_buf (boot_page_write pz a m) = buf_of []"
  by (simp add: boot_page_write_def buf_of_def fun_eq_iff)

lemma and_FF [simp]: "0xFF AND x = x" for x :: u8
proof -
  have "(0xFF :: u8) = - 1" by simp
  then show ?thesis by (simp only: and.left_neutral)
qed

lemma in_page_iff:
  fixes i pz q :: nat
  assumes "0 < pz" "pz dvd q"
  shows "i div pz = q div pz \<longleftrightarrow> q \<le> i \<and> i < q + pz"
proof -
  obtain k where k: "q = pz * k" using assms(2) by blast
  show ?thesis
  proof
    assume "i div pz = q div pz"
    moreover have "q div pz = k" unfolding k by (rule nonzero_mult_div_cancel_left) (use assms(1) in simp)
    ultimately have "i div pz = k" by simp
    then have "i = pz * k + i mod pz" by (metis mult_div_mod_eq)
    moreover have "i mod pz < pz" using assms(1) by simp
    ultimately show "q \<le> i \<and> i < q + pz" using k by linarith
  next
    assume "q \<le> i \<and> i < q + pz"
    then show "i div pz = q div pz" using assms(1) k by (simp add: div_nat_eqI)
  qed
qed

text \<open>
  The write of the last page begun: of the bytes \<open>bs\<close>, those before \<open>full\<close> are in the memory, the others in
  the buffer, and the page they belong to is erased.
\<close>

lemma boot_page_write_image:
  assumes pz: "0 < pz" and P: "pz dvd P" and full: "pz dvd full" "full < length bs" "length bs \<le> full + pz"
    and e: "even (length bs)" "even full"
    and m: "fl_buf m = buf_of (drop full bs)"
      "\<And>i. fl_mem m i = (if i div pz = (P + full) div pz then 0xFF else flash_image pz P (take full bs) f i)"
  shows "fl_mem (boot_page_write pz (P + full) m) = flash_image pz P bs f"
proof
  fix i
  let ?pg = "P + full"
  have pg: "pz dvd ?pg" using P full(1) by simp
  have in_pg: "i div pz = ?pg div pz \<longleftrightarrow> ?pg \<le> i \<and> i < ?pg + pz"
    by (rule in_page_iff [OF pz pg])
  have last: "(P + length bs - 1) div pz = ?pg div pz"
  proof -
    have "?pg \<le> P + length bs - 1" "P + length bs - 1 < ?pg + pz" using full pz by auto
    then show ?thesis using in_page_iff [OF pz pg] by simp
  qed
  show "fl_mem (boot_page_write pz ?pg m) i = flash_image pz P bs f i"
  proof (cases "i div pz = ?pg div pz")
    case True
    then have i: "?pg \<le> i" "i < ?pg + pz" using in_pg by auto
    have "i mod pz = i - i div pz * pz" by (simp add: minus_div_mult_eq_mod)
    then have "i mod pz = i - ?pg" using True pg by simp
    then show ?thesis
      using True i last e m by (auto simp: boot_page_write_def flash_image_def buf_byte_buf_of)
  next
    case False
    then have "i < ?pg \<or> ?pg + pz \<le> i" using in_pg by auto
    then show ?thesis
    proof
      assume lt: "i < ?pg"
      then have "i div pz \<le> ?pg div pz" by (simp add: div_le_mono)
      moreover have "P \<le> i \<Longrightarrow> i - P < full" using lt by auto
      ultimately show ?thesis
        using False lt full last m by (auto simp: boot_page_write_def flash_image_def)
    next
      assume ge: "?pg + pz \<le> i"
      then have "?pg div pz < i div pz" using False by (metis add_leD1 div_le_mono order_le_imp_less_or_eq)
      moreover have "(P + full - 1) div pz \<le> ?pg div pz" by (simp add: div_le_mono)
      ultimately show ?thesis
        using False ge full last m by (auto simp: boot_page_write_def flash_image_def)
    qed
  qed
qed

lemma flash_image_Nil:
  assumes "pz dvd P" "i div pz \<noteq> P div pz" "0 < pz"
  shows "flash_image pz P [] f i = f i"
proof -
  have "(P - 1) div pz < P div pz" if "0 < P" using assms(1,3) that by (auto elim!: dvdE simp: div_less_iff_less_mult)
  moreover have "P div pz \<le> i div pz" if "P \<le> i" using that by (rule div_le_mono)
  ultimately show ?thesis using assms(2) by (cases "P = 0") (auto simp: flash_image_def)
qed

text \<open>A page that is erased, filled and written as a whole.\<close>

lemma flash_page_image:
  assumes "0 < pz" "pz dvd P" "length bs = pz" "even pz" "fl_buf m = buf_of bs"
    "fl_mem m = fl_mem (boot_page_erase pz P m0)"
  shows "fl_mem (boot_page_write pz P m) = flash_image pz P bs (fl_mem m0)"
  using boot_page_write_image [OF assms(1,2), of 0 bs m "fl_mem m0"] assms
  by (simp add: flash_image_Nil)

end
