(* ===== verification/DfuBoot.thy ===== *)
theory DfuBoot
  imports FlashMem Chapter9
begin

text \<open>
  The DFU boot loader of the library, \<open>Bootloaders/DFU/BootloaderDFU.c\<close>, built as its makefile builds it:
  for the AT90USB1287 (128 KB of flash in pages of 256 bytes, 4 KB of EEPROM, the boot loader from \<open>0x1E000\<close>),
  with a control endpoint of 32 bytes. The requests of the host arrive as control requests the library does
  not handle; their data stage is read packet by packet with the functions of theory \<open>AvrUsb\<close>. A table access
  out of range is \<open>Fault\<close>. Setting up and resetting the processor are left out.
\<close>

section \<open>Constants\<close>

definition SPM_PAGESIZE :: nat where "SPM_PAGESIZE = 256"
definition FLASH_BYTES :: nat where "FLASH_BYTES = 0x20000"
definition EEPROM_BYTES :: nat where "EEPROM_BYTES = 4096"
definition BOOT_START_ADDR :: u32 where "BOOT_START_ADDR = 0x1E000"
definition DFU_CONTROL_SIZE :: u16 where "DFU_CONTROL_SIZE = 32"

definition SECURE_MODE :: bool where "SECURE_MODE = False"
definition BOOTLOADER_VERSION :: u8 where "BOOTLOADER_VERSION = push_bit 4 2 OR 0"
definition BOOTLOADER_ID_BYTE1 :: u8 where "BOOTLOADER_ID_BYTE1 = 0xDC"
definition BOOTLOADER_ID_BYTE2 :: u8 where "BOOTLOADER_ID_BYTE2 = 0xFB"
definition AVR_SIGNATURE :: "u8 list" where "AVR_SIGNATURE = [0x1E, 0x97, 0x82]"

definition DFU_FILE_SUFFIX_SIZE :: u8 where "DFU_FILE_SUFFIX_SIZE = 16"
definition DFU_FILLER_BYTES_SIZE :: u8 where "DFU_FILLER_BYTES_SIZE = 26"

definition DFU_DNLOAD :: u8 where "DFU_DNLOAD = 0x01"
definition DFU_UPLOAD :: u8 where "DFU_UPLOAD = 0x02"
definition DFU_GETSTATUS :: u8 where "DFU_GETSTATUS = 0x03"
definition DFU_CLRSTATUS :: u8 where "DFU_CLRSTATUS = 0x04"
definition DFU_GETSTATE :: u8 where "DFU_GETSTATE = 0x05"
definition DFU_ABORT :: u8 where "DFU_ABORT = 0x06"

definition COMMAND_PROG_START :: u8 where "COMMAND_PROG_START = 0x01"
definition COMMAND_DISP_DATA :: u8 where "COMMAND_DISP_DATA = 0x03"
definition COMMAND_WRITE :: u8 where "COMMAND_WRITE = 0x04"
definition COMMAND_READ :: u8 where "COMMAND_READ = 0x05"
definition COMMAND_CHANGE_BASE_ADDR :: u8 where "COMMAND_CHANGE_BASE_ADDR = 0x06"

definition dfuIDLE :: u8 where "dfuIDLE = 2"
definition dfuDNLOAD_IDLE :: u8 where "dfuDNLOAD_IDLE = 5"
definition dfuUPLOAD_IDLE :: u8 where "dfuUPLOAD_IDLE = 9"
definition dfuERROR :: u8 where "dfuERROR = 10"
definition DFU_OK :: u8 where "DFU_OK = 0"
definition errWRITE :: u8 where "errWRITE = 3"
definition errCHECK_ERASED :: u8 where "errCHECK_ERASED = 5"

lemmas dfu_request_defs = DFU_DNLOAD_def DFU_UPLOAD_def DFU_GETSTATUS_def DFU_CLRSTATUS_def DFU_GETSTATE_def DFU_ABORT_def
lemmas dfu_command_defs = COMMAND_PROG_START_def COMMAND_DISP_DATA_def COMMAND_WRITE_def COMMAND_READ_def
  COMMAND_CHANGE_BASE_ADDR_def
lemmas dfu_state_defs = dfuIDLE_def dfuDNLOAD_IDLE_def dfuUPLOAD_IDLE_def dfuERROR_def
lemmas dfu_status_defs = DFU_OK_def errWRITE_def errCHECK_ERASED_def

section \<open>State\<close>

record dfu_command =
  cmd_Command :: u8
  cmd_Data :: "u8 list"
  cmd_DataSize :: u16

text \<open>\<open>Watchdog\<close>: \<open>wdt_enable\<close> was called. \<open>AppStartPtr\<close> is a function pointer of 16 bits.\<close>

record dfu = usb_dev +
  Flash :: flash
  Eeprom :: "nat \<Rightarrow> u8"
  Watchdog :: bool
  IsSecure :: bool
  RunBootloader :: bool
  WaitForExit :: bool
  DFU_State :: u8
  DFU_Status :: u8
  SentCommand :: dfu_command
  ResponseByte :: u8
  AppStartPtr :: u16
  Flash64KBPage :: u8
  StartAddr :: u16
  EndAddr :: u16

definition dfu_init :: "usb_dev \<Rightarrow> flash \<Rightarrow> (nat \<Rightarrow> u8) \<Rightarrow> dfu" where
  "dfu_init u f e = usb_dev.extend u \<lparr>Flash = f, Eeprom = e, Watchdog = False, IsSecure = SECURE_MODE,
     RunBootloader = True, WaitForExit = False, DFU_State = dfuIDLE, DFU_Status = DFU_OK,
     SentCommand = \<lparr>cmd_Command = 0, cmd_Data = [0, 0, 0, 0, 0], cmd_DataSize = 0\<rparr>, ResponseByte = 0, AppStartPtr = 0,
     Flash64KBPage = 0, StartAddr = 0, EndAddr = 0\<rparr>"

definition IS_ONEBYTE_COMMAND :: "u8 list \<Rightarrow> u8 \<Rightarrow> bool" where
  "IS_ONEBYTE_COMMAND dataarr cb1 \<longleftrightarrow> dataarr ! 0 = cb1"

definition IS_TWOBYTE_COMMAND :: "u8 list \<Rightarrow> u8 \<Rightarrow> u8 \<Rightarrow> bool" where
  "IS_TWOBYTE_COMMAND dataarr cb1 cb2 \<longleftrightarrow> dataarr ! 0 = cb1 \<and> dataarr ! 1 = cb2"

section \<open>Memories\<close>

text \<open>\<open>union {uint16_t Words[2]; uint32_t Long;} = {.Words = {StartAddr, Flash64KBPage}}\<close>\<close>

definition flash_long :: "u16 \<Rightarrow> u8 \<Rightarrow> u32" where
  "flash_long a p = ucast a OR push_bit 16 (ucast p)"

definition flash_at :: "u32 \<Rightarrow> nat" where
  "flash_at a = unat a mod FLASH_BYTES"

definition dfu_page_erase :: "u32 \<Rightarrow> dfu \<Rightarrow> dfu" where
  "dfu_page_erase a s = s\<lparr>Flash := boot_page_erase SPM_PAGESIZE (flash_at a) (Flash s)\<rparr>"

definition dfu_page_fill :: "u32 \<Rightarrow> u16 \<Rightarrow> dfu \<Rightarrow> dfu" where
  "dfu_page_fill a v s = s\<lparr>Flash := boot_page_fill SPM_PAGESIZE (flash_at a) v (Flash s)\<rparr>"

definition dfu_page_write :: "u32 \<Rightarrow> dfu \<Rightarrow> dfu" where
  "dfu_page_write a s = s\<lparr>Flash := boot_page_write SPM_PAGESIZE (flash_at a) (Flash s)\<rparr>"

definition dfu_rww_enable :: "dfu \<Rightarrow> dfu" where
  "dfu_rww_enable s = s\<lparr>Flash := boot_rww_enable (Flash s)\<rparr>"

definition eeprom_write_byte :: "u16 \<Rightarrow> u8 \<Rightarrow> dfu \<Rightarrow> dfu" where
  "eeprom_write_byte a b s = s\<lparr>Eeprom := (Eeprom s)(unat a mod EEPROM_BYTES := b)\<rparr>"

definition eeprom_read_byte :: "u16 \<Rightarrow> dfu \<Rightarrow> u8" where
  "eeprom_read_byte a s = Eeprom s (unat a mod EEPROM_BYTES)"

section \<open>Commands\<close>

definition LoadStartEndAddresses :: "dfu \<Rightarrow> dfu" where
  "LoadStartEndAddresses s =
     (let D = cmd_Data (SentCommand s)
      in s\<lparr>StartAddr := le_word [D ! 2, D ! 1], EndAddr := le_word [D ! 4, D ! 3]\<rparr>)"

definition ProcessMemProgCommand :: "dfu \<Rightarrow> dfu" where
  "ProcessMemProgCommand s =
     (let D = cmd_Data (SentCommand s)
      in if IS_ONEBYTE_COMMAND D 0x00 \<or> IS_ONEBYTE_COMMAND D 0x01 then
           (let s = LoadStartEndAddresses s;
                s = (if IS_ONEBYTE_COMMAND D 0x00
                     then dfu_page_erase (flash_long (StartAddr s) (Flash64KBPage s)) s else s)
            in s\<lparr>DFU_State := dfuDNLOAD_IDLE\<rparr>)
         else s)"

text \<open>The loop of the blank check, from \<open>CurrFlashAddress\<close> on.\<close>

function blank_check :: "u32 \<Rightarrow> dfu \<Rightarrow> dfu" where
  "blank_check CurrFlashAddress s =
     (if CurrFlashAddress < BOOT_START_ADDR then
        (if pgm_read_byte (flash_at CurrFlashAddress) (Flash s) \<noteq> 0xFF
         then s\<lparr>Flash64KBPage := ucast (drop_bit 16 CurrFlashAddress), StartAddr := ucast CurrFlashAddress,
                DFU_State := dfuERROR, DFU_Status := errCHECK_ERASED\<rparr>
         else blank_check (CurrFlashAddress + 1) s)
      else s)"
  by pat_completeness auto
termination
  by (relation "measure (\<lambda>(a, s). unat BOOT_START_ADDR - unat a)")
    (auto simp: word_less_nat_alt BOOT_START_ADDR_def unat_word_ariths)

declare blank_check.simps [simp del]

definition ProcessMemReadCommand :: "dfu \<Rightarrow> dfu" where
  "ProcessMemReadCommand s =
     (let D = cmd_Data (SentCommand s)
      in if IS_ONEBYTE_COMMAND D 0x00 \<or> IS_ONEBYTE_COMMAND D 0x02 then
           (LoadStartEndAddresses s)\<lparr>DFU_State := dfuUPLOAD_IDLE\<rparr>
         else if IS_ONEBYTE_COMMAND D 0x01 then blank_check 0 s
         else s)"

function erase_pages :: "u32 \<Rightarrow> dfu \<Rightarrow> dfu" where
  "erase_pages CurrFlashAddress s =
     (if CurrFlashAddress < BOOT_START_ADDR
      then erase_pages (CurrFlashAddress + of_nat SPM_PAGESIZE)
             (dfu_page_write CurrFlashAddress (dfu_page_erase CurrFlashAddress s))
      else s)"
  by pat_completeness auto
termination
  by (relation "measure (\<lambda>(a, s). unat BOOT_START_ADDR - unat a)")
    (auto simp: word_less_nat_alt BOOT_START_ADDR_def SPM_PAGESIZE_def unat_word_ariths)

declare erase_pages.simps [simp del]

definition ProcessWriteCommand :: "dfu \<Rightarrow> dfu" where
  "ProcessWriteCommand s =
     (let D = cmd_Data (SentCommand s)
      in if IS_ONEBYTE_COMMAND D 0x03 then
           (let s = s\<lparr>WaitForExit := True\<rparr>
            in if cmd_DataSize (SentCommand s) = 0 then
                 (if D ! 1 = 0x00 then s\<lparr>Watchdog := True\<rparr>
                  else s\<lparr>AppStartPtr := le_word [D ! 4, D ! 3], RunBootloader := False\<rparr>)
               else s)
         else if IS_TWOBYTE_COMMAND D 0x00 0xFF then (dfu_rww_enable (erase_pages 0 s))\<lparr>IsSecure := False\<rparr>
         else s)"

definition table_read :: "u8 list \<Rightarrow> int \<Rightarrow> stop + u8" where
  "table_read xs i = (if 0 \<le> i \<and> i < int (length xs) then Inr (xs ! nat i) else Inl Fault)"

definition ProcessReadCommand :: "dfu \<Rightarrow> stop + dfu" where
  "ProcessReadCommand s =
     (let BootloaderInfo = [BOOTLOADER_VERSION, BOOTLOADER_ID_BYTE1, BOOTLOADER_ID_BYTE2];
          D = cmd_Data (SentCommand s);
          DataIndexToRead = int (unat (D ! 1))
      in if IS_ONEBYTE_COMMAND D 0x00 then
           (case table_read BootloaderInfo DataIndexToRead of Inl e \<Rightarrow> Inl e | Inr b \<Rightarrow> Inr (s\<lparr>ResponseByte := b\<rparr>))
         else if IS_ONEBYTE_COMMAND D 0x01 then
           (case table_read AVR_SIGNATURE (DataIndexToRead - 0x30) of Inl e \<Rightarrow> Inl e | Inr b \<Rightarrow> Inr (s\<lparr>ResponseByte := b\<rparr>))
         else Inr s)"

definition ProcessBootloaderCommand :: "dfu \<Rightarrow> stop + dfu" where
  "ProcessBootloaderCommand s =
     (let C = cmd_Command (SentCommand s); D = cmd_Data (SentCommand s)
      in if IsSecure s \<and> \<not> (C = COMMAND_WRITE \<and> IS_TWOBYTE_COMMAND D 0x00 0xFF \<or> C = COMMAND_READ)
         then Inr (Endpoint_StallTransaction (s\<lparr>DFU_State := dfuERROR, DFU_Status := errWRITE\<rparr>))
         else if C = COMMAND_PROG_START then Inr (ProcessMemProgCommand s)
         else if C = COMMAND_DISP_DATA then Inr (ProcessMemReadCommand s)
         else if C = COMMAND_WRITE then Inr (ProcessWriteCommand s)
         else if C = COMMAND_READ then ProcessReadCommand s
         else if C = COMMAND_CHANGE_BASE_ADDR then
           Inr (if IS_TWOBYTE_COMMAND D 0x03 0x00 then s\<lparr>Flash64KBPage := D ! 2\<rparr> else s)
         else Inr s)"

section \<open>The data stage\<close>

text \<open>
  The code waits for a packet at seven places, with the same loop, which gives up when the device is
  detached. The result tells whether the handler goes on (\<open>True\<close>) or returns (\<open>False\<close>).
\<close>

definition next_out :: "dfu world \<Rightarrow> dfu \<Rightarrow> (dfu, bool) run" where
  "next_out w s = (if Endpoint_BytesInEndpoint s = 0 then await_out w (Endpoint_ClearOUT s) else Inr (True, s, w))"

definition next_in :: "dfu world \<Rightarrow> dfu \<Rightarrow> (dfu, bool) run" where
  "next_in w s =
     (if Endpoint_BytesInEndpoint s = DFU_CONTROL_SIZE then await_in w (Endpoint_ClearIN s) else Inr (True, s, w))"

fun discard_filler :: "nat \<Rightarrow> dfu world \<Rightarrow> dfu \<Rightarrow> (dfu, unit) run" where
  "discard_filler 0 w s = Inr ((), s, w)"
| "discard_filler (Suc n) w s =
     (if Endpoint_BytesInEndpoint s = 0
      then bind_run (await_out w (Endpoint_ClearOUT s)) (\<lambda>ok s w. if ok then discard_filler n w s else Inr ((), s, w))
      else discard_filler n w (Endpoint_Discard_Byte s))"

definition DiscardFillerBytes :: "u8 \<Rightarrow> dfu world \<Rightarrow> dfu \<Rightarrow> (dfu, unit) run" where
  "DiscardFillerBytes NumberOfBytes = discard_filler (unat NumberOfBytes)"

text \<open>The parameters of a command: as many of the five bytes as the packet holds, \<open>n\<close> of them still to come.\<close>

fun read_params :: "nat \<Rightarrow> dfu \<Rightarrow> dfu" where
  "read_params 0 s = s"
| "read_params (Suc n) s =
     (if Endpoint_BytesInEndpoint s = 0 then s
      else case Endpoint_Read_Byte s of (b, s) \<Rightarrow>
        let c = SentCommand s
        in read_params n (s\<lparr>SentCommand := c\<lparr>cmd_Data := (cmd_Data c)[5 - Suc n := b], cmd_DataSize := cmd_DataSize c - 1\<rparr>\<rparr>))"

definition dnload_command :: "dfu world \<Rightarrow> dfu \<Rightarrow> (dfu, bool) run" where
  "dnload_command w s =
     (if cmd_DataSize (SentCommand s) \<noteq> 0 then
        bind_run (await_out w s) (\<lambda>ok s w.
          if \<not> ok then Inr (False, s, w)
          else case Endpoint_Read_Byte s of (b, s) \<Rightarrow>
            let c = SentCommand s;
                s = read_params 5 (s\<lparr>SentCommand := c\<lparr>cmd_Command := b, cmd_DataSize := cmd_DataSize c - 1\<rparr>\<rparr>)
            in case ProcessBootloaderCommand s of Inl e \<Rightarrow> Inl e | Inr s \<Rightarrow> Inr (True, s, w))
      else Inr (True, s, w))"

text \<open>\<open>while (WordsRemaining--)\<close>: \<open>n\<close> words to go.\<close>

fun write_flash_words :: "nat \<Rightarrow> u32 \<Rightarrow> u32 \<Rightarrow> u8 \<Rightarrow> dfu world \<Rightarrow> dfu \<Rightarrow> (dfu, bool) run" where
  "write_flash_words 0 CurrFlashAddress CurrFlashPageStartAddress WordsInFlashPage w s = Inr (True, s, w)"
| "write_flash_words (Suc n) CurrFlashAddress CurrFlashPageStartAddress WordsInFlashPage w s =
     bind_run (next_out w s) (\<lambda>ok s w.
       if \<not> ok then Inr (False, s, w)
       else case Endpoint_Read_Word_LE s of (v, s) \<Rightarrow>
         let s = dfu_page_fill CurrFlashAddress v s;
             k = WordsInFlashPage + 1;
             a = CurrFlashAddress + 2
         in if k = of_nat (SPM_PAGESIZE div 2) \<or> n = 0 then
              (let s = dfu_page_write CurrFlashPageStartAddress s
               in if n \<noteq> 0 then write_flash_words n a a 0 w (dfu_page_erase a s)
                  else write_flash_words n a CurrFlashPageStartAddress k w s)
            else write_flash_words n a CurrFlashPageStartAddress k w s)"

fun write_eeprom_bytes :: "nat \<Rightarrow> dfu world \<Rightarrow> dfu \<Rightarrow> (dfu, bool) run" where
  "write_eeprom_bytes 0 w s = Inr (True, s, w)"
| "write_eeprom_bytes (Suc n) w s =
     bind_run (next_out w s) (\<lambda>ok s w.
       if \<not> ok then Inr (False, s, w)
       else case Endpoint_Read_Byte s of (b, s) \<Rightarrow>
         let s = eeprom_write_byte (StartAddr s) b s
         in write_eeprom_bytes n w (s\<lparr>StartAddr := StartAddr s + 1\<rparr>))"

definition BytesRemaining :: "dfu \<Rightarrow> u16" where
  "BytesRemaining s = (EndAddr s - StartAddr s) + 1"

definition dnload_firmware :: "dfu world \<Rightarrow> dfu \<Rightarrow> (dfu, bool) run" where
  "dnload_firmware w s =
     (if DFU_State s \<noteq> dfuDNLOAD_IDLE then Inr (True, s, w)
      else if cmd_DataSize (SentCommand s) = 0 then Inr (True, s\<lparr>DFU_State := dfuIDLE\<rparr>, w)
      else
        bind_run (DiscardFillerBytes DFU_FILLER_BYTES_SIZE w s) (\<lambda>_ s w.
        bind_run (DiscardFillerBytes (of_nat (unat (StartAddr s) mod SPM_PAGESIZE)) w s) (\<lambda>_ s w.
        bind_run
          (if IS_ONEBYTE_COMMAND (cmd_Data (SentCommand s)) 0x00 then
             (let a = flash_long (StartAddr s) (Flash64KBPage s)
              in bind_run (write_flash_words (unat (drop_bit 1 (BytesRemaining s))) a a 0 w s) (\<lambda>ok s w.
                   if \<not> ok then Inr (False, s, w)
                   else Inr (True, dfu_rww_enable (s\<lparr>StartAddr := EndAddr s\<rparr>), w)))
           else write_eeprom_bytes (unat (BytesRemaining s)) w s)
          (\<lambda>ok s w.
            if \<not> ok then Inr (False, s, w)
            else bind_run (DiscardFillerBytes DFU_FILE_SUFFIX_SIZE w s) (\<lambda>_ s w. Inr (True, s, w))))))"

section \<open>Requests\<close>

definition request_dnload :: "dfu world \<Rightarrow> dfu \<Rightarrow> (dfu, unit) run" where
  "request_dnload w s =
     (let s = Endpoint_ClearSETUP s
      in case (if WaitForExit s then
                 (case ProcessBootloaderCommand s of Inl e \<Rightarrow> Inl e | Inr s \<Rightarrow> Inr (s\<lparr>WaitForExit := False\<rparr>))
               else Inr s) of
           Inl e \<Rightarrow> Inl e
         | Inr s \<Rightarrow>
             bind_run (dnload_command w s) (\<lambda>ok s w.
               if \<not> ok then Inr ((), s, w)
               else bind_run (dnload_firmware w s) (\<lambda>ok s w.
                 if \<not> ok then Inr ((), s, w)
                 else Endpoint_ClearStatusStage w (Endpoint_ClearOUT s))))"

fun read_flash_words :: "nat \<Rightarrow> u32 \<Rightarrow> dfu world \<Rightarrow> dfu \<Rightarrow> (dfu, bool) run" where
  "read_flash_words 0 CurrFlashAddress w s = Inr (True, s, w)"
| "read_flash_words (Suc n) CurrFlashAddress w s =
     bind_run (next_in w s) (\<lambda>ok s w.
       if \<not> ok then Inr (False, s, w)
       else read_flash_words n (CurrFlashAddress + 2) w
              (Endpoint_Write_Word_LE (pgm_read_word (flash_at CurrFlashAddress) (Flash s)) s))"

fun read_eeprom_bytes :: "nat \<Rightarrow> dfu world \<Rightarrow> dfu \<Rightarrow> (dfu, bool) run" where
  "read_eeprom_bytes 0 w s = Inr (True, s, w)"
| "read_eeprom_bytes (Suc n) w s =
     bind_run (next_in w s) (\<lambda>ok s w.
       if \<not> ok then Inr (False, s, w)
       else
         let s = Endpoint_Write_Byte (eeprom_read_byte (StartAddr s) s) s
         in read_eeprom_bytes n w (s\<lparr>StartAddr := StartAddr s + 1\<rparr>))"

definition upload_data :: "dfu world \<Rightarrow> dfu \<Rightarrow> (dfu, bool) run" where
  "upload_data w s =
     (let D = cmd_Data (SentCommand s)
      in if DFU_State s \<noteq> dfuUPLOAD_IDLE then
           Inr (True,
             if DFU_State s = dfuERROR \<and> IS_ONEBYTE_COMMAND D 0x01 then Endpoint_Write_Word_LE (StartAddr s) s
             else Endpoint_Write_Byte (ResponseByte s) s, w)
         else
           bind_run
             (if IS_ONEBYTE_COMMAND D 0x00 then
                bind_run (read_flash_words (unat (drop_bit 1 (BytesRemaining s))) (flash_long (StartAddr s) (Flash64KBPage s)) w s)
                  (\<lambda>ok s w. if \<not> ok then Inr (False, s, w) else Inr (True, s\<lparr>StartAddr := EndAddr s\<rparr>, w))
              else if IS_ONEBYTE_COMMAND D 0x02 then read_eeprom_bytes (unat (BytesRemaining s)) w s
              else Inr (True, s, w))
             (\<lambda>ok s w. if \<not> ok then Inr (False, s, w) else Inr (True, s\<lparr>DFU_State := dfuIDLE\<rparr>, w)))"

definition request_upload :: "dfu world \<Rightarrow> dfu \<Rightarrow> (dfu, unit) run" where
  "request_upload w s =
     bind_run (await_in w (Endpoint_ClearSETUP s)) (\<lambda>ok s w.
       if \<not> ok then Inr ((), s, w)
       else bind_run (upload_data w s) (\<lambda>ok s w.
         if \<not> ok then Inr ((), s, w) else Endpoint_ClearStatusStage w (Endpoint_ClearIN s)))"

definition request_getstatus :: "dfu world \<Rightarrow> dfu \<Rightarrow> (dfu, unit) run" where
  "request_getstatus w s =
     (let s = Endpoint_ClearSETUP s;
          s = Endpoint_Write_Byte (DFU_Status s) s;
          s = Endpoint_Write_Byte 0 s;
          s = Endpoint_Write_Word_LE 0 s;
          s = Endpoint_Write_Byte (DFU_State s) s;
          s = Endpoint_Write_Byte 0 s
      in Endpoint_ClearStatusStage w (Endpoint_ClearIN s))"

definition DFU_UnhandledControlRequest :: "dfu world \<Rightarrow> dfu \<Rightarrow> (dfu, unit) run" where
  "DFU_UnhandledControlRequest w s =
     (let s = s\<lparr>SentCommand := (SentCommand s)\<lparr>cmd_DataSize := wLength (USB_ControlRequest s)\<rparr>\<rparr>;
          r = bRequest (USB_ControlRequest s)
      in if r = DFU_DNLOAD then request_dnload w s
         else if r = DFU_UPLOAD then request_upload w s
         else if r = DFU_GETSTATUS then request_getstatus w s
         else if r = DFU_CLRSTATUS then
           Endpoint_ClearStatusStage w ((Endpoint_ClearSETUP s)\<lparr>DFU_Status := DFU_OK\<rparr>)
         else if r = DFU_GETSTATE then
           (let s = Endpoint_ClearSETUP s
            in Endpoint_ClearStatusStage w (Endpoint_ClearIN (Endpoint_Write_Byte (DFU_State s) s)))
         else if r = DFU_ABORT then
           Endpoint_ClearStatusStage w ((Endpoint_ClearSETUP s)\<lparr>DFU_State := dfuIDLE\<rparr>)
         else Inr ((), s, w))"

section \<open>The program\<close>

definition dfu_app :: "(u16 \<Rightarrow> u8 \<Rightarrow> u8 list \<times> u16) \<Rightarrow> dfu app" where
  "dfu_app descriptors = \<lparr>app_config = Inr, app_unhandled = DFU_UnhandledControlRequest, app_descriptor = descriptors\<rparr>"

text \<open>
  \<open>while (RunBootloader || WaitForExit) USB_USBTask();\<close>, cut after \<open>n\<close> passes; the result is the application's
  address when the loop was left.
\<close>

fun dfu_loop :: "nat \<Rightarrow> (u16 \<Rightarrow> u8 \<Rightarrow> u8 list \<times> u16) \<Rightarrow> dfu world \<Rightarrow> dfu \<Rightarrow> (dfu, u16 option) run" where
  "dfu_loop 0 descriptors w s = Inr (if RunBootloader s \<or> WaitForExit s then None else Some (AppStartPtr s), s, w)"
| "dfu_loop (Suc n) descriptors w s =
     (if RunBootloader s \<or> WaitForExit s
      then bind_run (USB_USBTask (dfu_app descriptors) w s) (\<lambda>_ s w. dfu_loop n descriptors w s)
      else Inr (Some (AppStartPtr s), s, w))"

end
