(* ===== verification/DfuSecure.thy ===== *)
theory DfuSecure
  imports DfuBoot
begin

text \<open>
  The secure mode of the DFU boot loader: while it is on, what the memories hold neither changes nor has an
  influence on anything the boot loader does. Two states that differ in their memories alone are
  \<open>s\<close> and \<open>with_memory F E s\<close>.
\<close>

section \<open>States that differ in their memories\<close>

definition with_memory :: "flash \<Rightarrow> (nat \<Rightarrow> u8) \<Rightarrow> dfu \<Rightarrow> dfu" where
  "with_memory F E s = s\<lparr>Flash := F, Eeprom := E\<rparr>"

lemma with_memory_simps [simp]:
  "cur (with_memory F E s) = cur s" "UENUM (with_memory F E s) = UENUM s" "eps (with_memory F E s) = eps s"
  "USB_DeviceState (with_memory F E s) = USB_DeviceState s" "USB_ControlRequest (with_memory F E s) = USB_ControlRequest s"
  "IsSecure (with_memory F E s) = IsSecure s" "DFU_State (with_memory F E s) = DFU_State s"
  "DFU_Status (with_memory F E s) = DFU_Status s" "WaitForExit (with_memory F E s) = WaitForExit s"
  "SentCommand (with_memory F E s) = SentCommand s" "ResponseByte (with_memory F E s) = ResponseByte s"
  "StartAddr (with_memory F E s) = StartAddr s" "EndAddr (with_memory F E s) = EndAddr s"
  "Flash (with_memory F E s) = F" "Eeprom (with_memory F E s) = E"
  "with_memory (Flash s) (Eeprom s) s = s"
  by (simp_all add: with_memory_def cur_def)

text \<open>The operations of the endpoint layer, on the whole state.\<close>

lemma upd_cur_memory: "upd_cur f (with_memory F E s) = with_memory F E (upd_cur f s)"
  by (simp add: with_memory_def upd_cur_def upd_ep_def)

lemma upd_cur_dfu [simp]:
  "IsSecure (upd_cur f s) = IsSecure s" "DFU_State (upd_cur f s) = DFU_State s"
  by (simp_all add: upd_cur_def upd_ep_def)

lemma uedatx_read_memory:
  "uedatx_read (with_memory F E s) = (fst (uedatx_read s), with_memory F E (snd (uedatx_read s)))"
  by (simp add: uedatx_read_def upd_cur_memory split: list.splits)

lemma uedatx_read_dfu [simp]:
  "IsSecure (snd (uedatx_read s)) = IsSecure s" "DFU_State (snd (uedatx_read s)) = DFU_State s"
  by (simp_all add: uedatx_read_def split: list.splits)

lemma ops_memory:
  "Endpoint_ClearSETUP (with_memory F E s) = with_memory F E (Endpoint_ClearSETUP s)"
  "Endpoint_ClearIN (with_memory F E s) = with_memory F E (Endpoint_ClearIN s)"
  "Endpoint_ClearOUT (with_memory F E s) = with_memory F E (Endpoint_ClearOUT s)"
  "Endpoint_StallTransaction (with_memory F E s) = with_memory F E (Endpoint_StallTransaction s)"
  "Endpoint_Write_Byte b (with_memory F E s) = with_memory F E (Endpoint_Write_Byte b s)"
  "Endpoint_Write_Word_LE v (with_memory F E s) = with_memory F E (Endpoint_Write_Word_LE v s)"
  by (simp_all add: Endpoint_ops_cur Endpoint_con_cur upd_cur_memory Endpoint_Write_Word_LE_def uedatx_write_def)

lemma ops_dfu [simp]:
  "IsSecure (Endpoint_ClearSETUP s) = IsSecure s" "DFU_State (Endpoint_ClearSETUP s) = DFU_State s"
  "IsSecure (Endpoint_ClearIN s) = IsSecure s" "DFU_State (Endpoint_ClearIN s) = DFU_State s"
  "IsSecure (Endpoint_ClearOUT s) = IsSecure s" "DFU_State (Endpoint_ClearOUT s) = DFU_State s"
  "IsSecure (Endpoint_StallTransaction s) = IsSecure s" "DFU_State (Endpoint_StallTransaction s) = DFU_State s"
  "IsSecure (Endpoint_Write_Byte b s) = IsSecure s" "DFU_State (Endpoint_Write_Byte b s) = DFU_State s"
  "IsSecure (Endpoint_Write_Word_LE v s) = IsSecure s" "DFU_State (Endpoint_Write_Word_LE v s) = DFU_State s"
  "IsSecure (Endpoint_Discard_Byte s) = IsSecure s" "DFU_State (Endpoint_Discard_Byte s) = DFU_State s"
  by (simp_all add: Endpoint_ops_cur Endpoint_con_cur Endpoint_Write_Word_LE_def uedatx_write_def Endpoint_Discard_Byte_def)

lemma read_ops_dfu [simp]:
  "IsSecure (snd (Endpoint_Read_Byte s)) = IsSecure s" "DFU_State (snd (Endpoint_Read_Byte s)) = DFU_State s"
  "IsSecure (snd (Endpoint_Read_Word_LE s)) = IsSecure s"
  by (simp_all add: Endpoint_Read_Byte_def Endpoint_Read_Word_LE_def split_beta)

lemma bytes_memory [simp]: "Endpoint_BytesInEndpoint (with_memory F E s) = Endpoint_BytesInEndpoint s"
  by (simp add: Endpoint_BytesInEndpoint_def)

lemma fields_memory:
  "(with_memory F E s)\<lparr>SentCommand := c\<rparr> = with_memory F E (s\<lparr>SentCommand := c\<rparr>)"
  "(with_memory F E s)\<lparr>DFU_State := x\<rparr> = with_memory F E (s\<lparr>DFU_State := x\<rparr>)"
  "(with_memory F E s)\<lparr>DFU_Status := y\<rparr> = with_memory F E (s\<lparr>DFU_Status := y\<rparr>)"
  "(with_memory F E s)\<lparr>WaitForExit := z\<rparr> = with_memory F E (s\<lparr>WaitForExit := z\<rparr>)"
  "(with_memory F E s)\<lparr>ResponseByte := b\<rparr> = with_memory F E (s\<lparr>ResponseByte := b\<rparr>)"
  by (simp_all add: with_memory_def)

section \<open>Runs\<close>

definition run_map :: "('s \<Rightarrow> 's) \<Rightarrow> ('s, 'a) run \<Rightarrow> ('s, 'a) run" where
  "run_map g m = (case m of Inl e \<Rightarrow> Inl e | Inr (a, s, w) \<Rightarrow> Inr (a, g s, w))"

lemma run_map_simps [simp]: "run_map g (Inl e) = Inl e" "run_map g (Inr (a, s, w)) = Inr (a, g s, w)"
  by (simp_all add: run_map_def)

text \<open>
  Events of the bus: they leave the boot loader's variables alone and neither see nor touch the memories.
\<close>

definition bus_event :: "(dfu \<Rightarrow> dfu) \<Rightarrow> bool" where
  "bus_event e \<longleftrightarrow> (\<forall>s F E. e (with_memory F E s) = with_memory F E (e s) \<and>
     IsSecure (e s) = IsSecure s \<and> DFU_State (e s) = DFU_State s)"

definition bus_world :: "dfu world \<Rightarrow> bool" where
  "bus_world w \<longleftrightarrow> (\<forall>e \<in> set w. bus_event e)"

lemma bus_world_simps [simp]:
  "bus_world []" "bus_world (e # w) \<longleftrightarrow> bus_event e \<and> bus_world w"
  by (auto simp: bus_world_def)

text \<open>
  \<open>blind f\<close>: the run commutes with a change of the memories, and keeps the two variables and the kind of
  its world.
\<close>

definition keeps :: "dfu \<Rightarrow> (dfu, 'a) run \<Rightarrow> bool" where
  "keeps s m \<longleftrightarrow> (\<forall>a s' w'. m = Inr (a, s', w') \<longrightarrow> IsSecure s' = IsSecure s \<and> DFU_State s' = DFU_State s \<and> bus_world w')"

lemma poll_until_memory:
  assumes "\<And>l s. f l (with_memory F E s) =
      (case f l s of Inl (a, s') \<Rightarrow> Inl (a, with_memory F E s') | Inr (l', s') \<Rightarrow> Inr (l', with_memory F E s'))"
    "bus_world w"
  shows "poll_until f l w (with_memory F E s) = run_map (with_memory F E) (poll_until f l w s)"
  using assms(2)
proof (induction w arbitrary: l s)
  case Nil
  show ?case
    by (subst (1 2) poll_until.simps) (simp add: assms(1) split: sum.splits prod.splits)
next
  case (Cons e w)
  then have "e (with_memory F E s') = with_memory F E (e s')" for s' by (simp add: bus_event_def)
  then show ?case
    using Cons by (subst (1 2) poll_until.simps) (simp add: assms(1) split: sum.splits prod.splits)
qed

lemma poll_until_keeps:
  assumes "\<And>l s a s'. f l s = Inl (a, s') \<Longrightarrow> s' = s" "\<And>l s l' s'. f l s = Inr (l', s') \<Longrightarrow> s' = s" "bus_world w"
  shows "keeps s (poll_until f l w s)"
  using assms(3)
proof (induction w arbitrary: l s)
  case Nil
  then show ?case
    by (subst poll_until.simps) (auto simp: keeps_def dest: assms(1) split: sum.splits)
next
  case (Cons e w)
  then have "IsSecure (e s) = IsSecure s" "DFU_State (e s) = DFU_State s" by (simp_all add: bus_event_def)
  moreover have "keeps (e s) (poll_until f l' w (e s))" for l' using Cons by simp
  ultimately have "keeps s (poll_until f l' w (e s))" for l' by (simp add: keeps_def)
  then show ?case
    using Cons.prems
    by (subst poll_until.simps) (auto simp: keeps_def dest: assms(1,2) split: sum.splits)
qed

lemma await_memory:
  assumes "bus_world w"
  shows "await_out w (with_memory F E s) = run_map (with_memory F E) (await_out w s)"
    "await_in w (with_memory F E s) = run_map (with_memory F E) (await_in w s)"
  using assms by (auto simp: await_out_def await_in_def Endpoint_flags intro!: poll_until_memory)

lemma await_keeps:
  assumes "bus_world w"
  shows "keeps s (await_out w s)" "keeps s (await_in w s)"
  using assms by (auto simp: await_out_def await_in_def intro!: poll_until_keeps split: if_splits)

section \<open>What never locks or unlocks\<close>

lemma keeps_Inr [simp]:
  "keeps s (Inr (a, s', w)) \<longleftrightarrow> IsSecure s' = IsSecure s \<and> DFU_State s' = DFU_State s \<and> bus_world w"
  "keeps s (Inl e)"
  by (auto simp: keeps_def)

lemma keeps_bind:
  assumes "keeps s m" "\<And>a s' w'. bus_world w' \<Longrightarrow> keeps s' (f a s' w')"
  shows "keeps s (bind_run m f)"
proof (cases m)
  case (Inr r)
  obtain a s' w' where r: "r = (a, s', w')" by (cases r)
  with Inr assms(1) have "IsSecure s' = IsSecure s" "DFU_State s' = DFU_State s" "bus_world w'" by simp_all
  moreover from this have "keeps s' (f a s' w')" using assms(2) by blast
  ultimately show ?thesis using Inr r by (simp add: keeps_def)
qed simp

lemma keeps_cong: "IsSecure s = IsSecure t \<Longrightarrow> DFU_State s = DFU_State t \<Longrightarrow> keeps s m = keeps t m"
  by (simp add: keeps_def)

lemma ClearStatusStage_keeps:
  assumes "bus_world w"
  shows "keeps s (Endpoint_ClearStatusStage w s)"
  using assms by (auto simp: Endpoint_ClearStatusStage_def intro!: keeps_bind await_keeps)

lemma discard_filler_keeps: "bus_world w \<Longrightarrow> keeps s (discard_filler n w s)"
proof (induction n arbitrary: w s)
  case (Suc n)
  have "keeps s (await_out w (Endpoint_ClearOUT s))"
    using await_keeps(1) [OF Suc.prems, of "Endpoint_ClearOUT s"] by (simp add: keeps_def)
  moreover have "keeps s (discard_filler n w (Endpoint_Discard_Byte s))"
    using Suc by (simp add: keeps_cong [of s "Endpoint_Discard_Byte s"])
  ultimately show ?case using Suc by (auto intro!: keeps_bind)
qed simp

lemma next_out_keeps: "bus_world w \<Longrightarrow> keeps s (next_out w s)"
  using await_keeps(1) [of w "Endpoint_ClearOUT s"] by (simp add: next_out_def keeps_def)

lemma flash_ops_dfu [simp]:
  "IsSecure (dfu_page_erase a s) = IsSecure s" "DFU_State (dfu_page_erase a s) = DFU_State s"
  "IsSecure (dfu_page_write a s) = IsSecure s" "DFU_State (dfu_page_write a s) = DFU_State s"
  "IsSecure (dfu_page_fill a v s) = IsSecure s" "DFU_State (dfu_page_fill a v s) = DFU_State s"
  "IsSecure (dfu_rww_enable s) = IsSecure s" "DFU_State (dfu_rww_enable s) = DFU_State s"
  "IsSecure (eeprom_write_byte i b s) = IsSecure s" "DFU_State (eeprom_write_byte i b s) = DFU_State s"
  by (simp_all add: dfu_page_erase_def dfu_page_write_def dfu_page_fill_def dfu_rww_enable_def eeprom_write_byte_def)

lemma read_word_state [simp]: "DFU_State (snd (Endpoint_Read_Word_LE s)) = DFU_State s"
  by (simp add: Endpoint_Read_Word_LE_def split_beta)

lemma write_flash_words_keeps: "bus_world w \<Longrightarrow> keeps s (write_flash_words n a pg k w s)"
proof (induction n arbitrary: a pg k w s)
  case (Suc n)
  have step: "keeps s' (write_flash_words n a' pg' k' w' t)"
    if "bus_world w'" "IsSecure t = IsSecure s'" "DFU_State t = DFU_State s'" for a' pg' k' w' t s'
    using Suc.IH [OF that(1), of t a' pg' k'] that(2,3) by (simp add: keeps_def)
  show ?case
    using Suc.prems by (auto simp: split_beta Let_def intro!: keeps_bind next_out_keeps step)
qed simp

lemma write_eeprom_bytes_keeps: "bus_world w \<Longrightarrow> keeps s (write_eeprom_bytes n w s)"
proof (induction n arbitrary: w s)
  case (Suc n)
  have step: "keeps s' (write_eeprom_bytes n w' t)"
    if "bus_world w'" "IsSecure t = IsSecure s'" "DFU_State t = DFU_State s'" for w' t s'
    using Suc.IH [OF that(1), of t] that(2,3) by (simp add: keeps_def)
  show ?case
    using Suc.prems by (auto simp: split_beta Let_def intro!: keeps_bind next_out_keeps step)
qed simp

text \<open>\<open>open_run m\<close>: the boot loader is unlocked wherever the run ends.\<close>

definition open_run :: "(dfu, 'a) run \<Rightarrow> bool" where
  "open_run m \<longleftrightarrow> (\<forall>a s' w'. m = Inr (a, s', w') \<longrightarrow> \<not> IsSecure s' \<and> bus_world w')"

lemma open_run_simps [simp]:
  "open_run (Inl e)" "open_run (Inr (a, s, w)) \<longleftrightarrow> \<not> IsSecure s \<and> bus_world w"
  by (auto simp: open_run_def)

lemma open_run_keeps: "keeps s m \<Longrightarrow> \<not> IsSecure s \<Longrightarrow> open_run m"
  by (simp add: keeps_def open_run_def)

lemma open_run_bind:
  assumes "open_run m" "\<And>a s w. \<not> IsSecure s \<Longrightarrow> bus_world w \<Longrightarrow> open_run (f a s w)"
  shows "open_run (bind_run m f)"
proof (cases m)
  case (Inr r)
  obtain a s w where "r = (a, s, w)" by (cases r)
  with Inr assms show ?thesis by simp
qed simp

lemma blank_check_secure [simp]: "IsSecure (blank_check a s) = IsSecure s"
  by (induction a s rule: blank_check.induct) (subst blank_check.simps, simp)

lemma erase_pages_dfu [simp]: "IsSecure (erase_pages a s) = IsSecure s" "DFU_State (erase_pages a s) = DFU_State s"
  by (induction a s rule: erase_pages.induct) (subst erase_pages.simps, simp)+

lemma ProcessBootloaderCommand_secure:
  assumes "ProcessBootloaderCommand s = Inr s'" "IsSecure s'"
  shows "IsSecure s"
  using assms
  by (auto simp: ProcessBootloaderCommand_def ProcessMemProgCommand_def ProcessMemReadCommand_def ProcessWriteCommand_def
      ProcessReadCommand_def LoadStartEndAddresses_def Let_def split: if_splits sum.splits)

lemma read_params_dfu [simp]: "IsSecure (read_params n s) = IsSecure s" "DFU_State (read_params n s) = DFU_State s"
  by (induction n arbitrary: s) (simp_all add: split_beta Let_def)

lemma dnload_command_open:
  assumes "\<not> IsSecure s" "bus_world w"
  shows "open_run (dnload_command w s)"
  using assms
  by (auto simp: dnload_command_def Let_def split_beta dest!: ProcessBootloaderCommand_secure split: sum.splits
      intro!: open_run_bind open_run_keeps [OF await_keeps(1)])

lemma dnload_firmware_open:
  assumes "\<not> IsSecure s" "bus_world w"
  shows "open_run (dnload_firmware w s)"
  using assms
  by (auto simp: dnload_firmware_def DiscardFillerBytes_def Let_def
      intro!: open_run_bind intro: open_run_keeps [OF discard_filler_keeps] open_run_keeps [OF write_flash_words_keeps]
        open_run_keeps [OF write_eeprom_bytes_keeps])

section \<open>Secure mode\<close>

text \<open>A locked boot loader is in none of the states in which a request moves the contents of a memory.\<close>

definition locked :: "dfu \<Rightarrow> bool" where
  "locked s \<longleftrightarrow> IsSecure s \<and> DFU_State s \<noteq> dfuDNLOAD_IDLE \<and> DFU_State s \<noteq> dfuUPLOAD_IDLE"

text \<open>
  \<open>blind f s w\<close>: a run of \<open>f\<close> that ends with the boot loader secure ends locked, and on other memories it ends
  in the same way with those memories as they were.
\<close>

definition blind :: "(dfu world \<Rightarrow> dfu \<Rightarrow> (dfu, 'a) run) \<Rightarrow> dfu \<Rightarrow> dfu world \<Rightarrow> bool" where
  "blind f s w \<longleftrightarrow> (\<forall>a s' w'. f w s = Inr (a, s', w') \<longrightarrow> bus_world w' \<and>
     (IsSecure s' \<longrightarrow> locked s' \<and> (\<forall>F E. f w (with_memory F E s) = Inr (a, with_memory F E s', w'))))"

lemma blindI:
  assumes "\<And>F E. f w (with_memory F E s) = run_map (with_memory F E) (f w s)" "keeps s (f w s)" "locked s"
  shows "blind f s w"
  unfolding blind_def
proof (intro allI impI)
  fix a s' w' assume r: "f w s = Inr (a, s', w')"
  with assms(2) have "IsSecure s' = IsSecure s" "DFU_State s' = DFU_State s" "bus_world w'" by simp_all
  with assms(1,3) r show "bus_world w' \<and>
     (IsSecure s' \<longrightarrow> locked s' \<and> (\<forall>F E. f w (with_memory F E s) = Inr (a, with_memory F E s', w')))"
    by (simp add: locked_def)
qed

lemma blind_bind:
  assumes "blind f s w"
    "\<And>a t v. bus_world v \<Longrightarrow> locked t \<Longrightarrow> blind (\<lambda>v t. g a t v) t v"
    "\<And>a t v. bus_world v \<Longrightarrow> \<not> IsSecure t \<Longrightarrow> open_run (g a t v)"
  shows "blind (\<lambda>w s. bind_run (f w s) g) s w"
  unfolding blind_def
proof (intro allI impI)
  fix b u x assume "bind_run (f w s) g = Inr (b, u, x)"
  then obtain a t v where f: "f w s = Inr (a, t, v)" and g: "g a t v = Inr (b, u, x)"
    by (auto simp: bind_run_Inr_iff)
  have v: "bus_world v" using assms(1) f by (simp add: blind_def)
  show "bus_world x \<and> (IsSecure u \<longrightarrow> locked u \<and>
      (\<forall>F E. bind_run (f w (with_memory F E s)) g = Inr (b, with_memory F E u, x)))"
  proof (cases "IsSecure t")
    case True
    then have l: "locked t" "f w (with_memory F E s) = Inr (a, with_memory F E t, v)" for F E
      using assms(1) f by (simp_all add: blind_def)
    with assms(2) [OF v l(1)] g show ?thesis by (simp add: blind_def)
  next
    case False
    from assms(3) [OF v False] g show ?thesis by (simp add: open_run_def)
  qed
qed

lemma ClearStatusStage_blind:
  assumes "bus_world w" "locked s"
  shows "blind Endpoint_ClearStatusStage s w"
proof (rule blindI)
  show "Endpoint_ClearStatusStage w (with_memory F E s) = run_map (with_memory F E) (Endpoint_ClearStatusStage w s)" for F E
    using assms(1) by (auto simp: Endpoint_ClearStatusStage_def await_memory ops_memory bind_run_def run_map_def split: sum.splits)
qed (use assms ClearStatusStage_keeps in auto)

lemma read_params_memory: "read_params n (with_memory F E s) = with_memory F E (read_params n s)"
  by (induction n arbitrary: s) (simp_all add: Endpoint_Read_Byte_def uedatx_read_memory split_beta Let_def fields_memory)

lemma ProcessBootloaderCommand_locked:
  assumes "locked s" "ProcessBootloaderCommand s = Inr s'" "IsSecure s'"
  shows "locked s'" "ProcessBootloaderCommand (with_memory F E s) = Inr (with_memory F E s')"
  using assms
  by (auto simp: locked_def ProcessBootloaderCommand_def ProcessWriteCommand_def ProcessReadCommand_def Let_def
      IS_TWOBYTE_COMMAND_def IS_ONEBYTE_COMMAND_def dfu_command_defs dfu_state_defs fields_memory ops_memory
      split: if_splits sum.splits)

lemma blind_pre:
  assumes "\<And>F E. g (with_memory F E s) = with_memory F E (g s)" "blind f (g s) w"
  shows "blind (\<lambda>w s. f w (g s)) s w"
  using assms by (simp add: blind_def)

lemma blind_return: "bus_world w \<Longrightarrow> locked s \<Longrightarrow> blind (\<lambda>w s. Inr (a, s, w)) s w"
  by (simp add: blind_def)

lemma blind_await:
  assumes "bus_world w" "locked s"
  shows "blind await_out s w" "blind await_in s w"
  by (rule blindI, use assms await_memory await_keeps in auto)+

lemma locked_upd [simp]:
  "locked (s\<lparr>SentCommand := c\<rparr>) = locked s" "locked (Endpoint_ClearSETUP s) = locked s"
  "locked (Endpoint_ClearIN s) = locked s" "locked (Endpoint_ClearOUT s) = locked s"
  "locked (Endpoint_Write_Byte b s) = locked s" "locked (Endpoint_Write_Word_LE v s) = locked s"
  "locked (snd (Endpoint_Read_Byte s)) = locked s" "locked (read_params n s) = locked s"
  "locked (s\<lparr>DFU_Status := y\<rparr>) = locked s" "locked (s\<lparr>WaitForExit := z\<rparr>) = locked s"
  by (simp_all add: locked_def)

text \<open>A command: the processing is the only step that may unlock.\<close>

definition process_run :: "dfu world \<Rightarrow> dfu \<Rightarrow> (dfu, bool) run" where
  "process_run w s = (case ProcessBootloaderCommand s of Inl e \<Rightarrow> Inl e | Inr s \<Rightarrow> Inr (True, s, w))"

lemma process_run_blind: "bus_world w \<Longrightarrow> locked s \<Longrightarrow> blind process_run s w"
  by (auto simp: blind_def process_run_def ProcessBootloaderCommand_locked split: sum.splits)

lemma dnload_command_blind:
  assumes "bus_world w" "locked s"
  shows "blind dnload_command s w"
proof (cases "cmd_DataSize (SentCommand s) = 0")
  case True
  then show ?thesis using assms by (simp add: blind_def dnload_command_def)
next
  case False
  let ?load = "\<lambda>s. let c = SentCommand (snd (Endpoint_Read_Byte s))
    in read_params 5 ((snd (Endpoint_Read_Byte s))\<lparr>SentCommand := c\<lparr>cmd_Command := fst (Endpoint_Read_Byte s),
         cmd_DataSize := cmd_DataSize c - 1\<rparr>\<rparr>)"
  let ?body = "\<lambda>ok s w. if \<not> ok then Inr (False, s, w) else process_run w (?load s)"
  have eq: "dnload_command v t = bind_run (await_out v t) ?body" if "cmd_DataSize (SentCommand t) \<noteq> 0" for v t
    using that by (simp add: dnload_command_def process_run_def split_beta Let_def cong: if_cong)
  have load: "?load (with_memory F E t) = with_memory F E (?load t)" for F E t
    by (simp add: Let_def Endpoint_Read_Byte_def uedatx_read_memory fields_memory read_params_memory)
  have "blind (\<lambda>v t. ?body ok t v) t v" if "bus_world v" "locked t" for ok t v
    using that load blind_return [of v t False] blind_pre [of ?load t process_run v] process_run_blind [of v "?load t"]
    by (cases ok) (simp_all add: Let_def)
  moreover have "open_run (?body ok t v)" if "bus_world v" "\<not> IsSecure t" for ok t v
    using that by (auto simp: process_run_def Let_def dest!: ProcessBootloaderCommand_secure split: sum.splits)
  ultimately have "blind (\<lambda>w s. bind_run (await_out w s) ?body) s w"
    by (intro blind_bind blind_await assms)
  with False show ?thesis by (simp add: blind_def eq)
qed

lemma dnload_firmware_blind: "bus_world w \<Longrightarrow> locked s \<Longrightarrow> blind dnload_firmware s w"
  by (simp add: blind_def dnload_firmware_def locked_def)

lemma finish_blind:
  assumes "bus_world w" "locked s"
  shows "blind (\<lambda>w s. Endpoint_ClearStatusStage w (Endpoint_ClearOUT s)) s w"
    "blind (\<lambda>w s. Endpoint_ClearStatusStage w (Endpoint_ClearIN s)) s w"
  by (rule blind_pre, use assms in \<open>auto simp: ops_memory intro!: ClearStatusStage_blind\<close>)+

lemma finish_open:
  assumes "bus_world w" "\<not> IsSecure s"
  shows "open_run (Endpoint_ClearStatusStage w (Endpoint_ClearOUT s))"
  using open_run_keeps [OF ClearStatusStage_keeps [OF assms(1), of "Endpoint_ClearOUT s"]] assms(2) by simp

definition dnload_rest :: "dfu world \<Rightarrow> dfu \<Rightarrow> (dfu, unit) run" where
  "dnload_rest w s =
     bind_run (dnload_command w s) (\<lambda>ok s w.
       if \<not> ok then Inr ((), s, w)
       else bind_run (dnload_firmware w s) (\<lambda>ok s w.
         if \<not> ok then Inr ((), s, w) else Endpoint_ClearStatusStage w (Endpoint_ClearOUT s)))"

lemma dnload_rest_open: "bus_world w \<Longrightarrow> \<not> IsSecure s \<Longrightarrow> open_run (dnload_rest w s)"
  by (auto simp: dnload_rest_def intro!: open_run_bind dnload_command_open dnload_firmware_open finish_open)

lemma dnload_rest_blind:
  assumes "bus_world w" "locked s"
  shows "blind dnload_rest s w"
proof -
  let ?fin = "\<lambda>ok s w. if \<not> ok then Inr ((), s, w) else Endpoint_ClearStatusStage w (Endpoint_ClearOUT s)"
  let ?fw = "\<lambda>ok s w. if \<not> ok then Inr ((), s, w) else bind_run (dnload_firmware w s) ?fin"
  have e: "blind (\<lambda>v t. ?fin ok t v) t v" if "bus_world v" "locked t" for ok t v
    using that by (cases ok) (auto intro: blind_return finish_blind)
  have o: "open_run (?fin ok t v)" if "bus_world v" "\<not> IsSecure t" for ok t v
    using that by (cases ok) (auto intro: finish_open)
  have "blind (\<lambda>v t. bind_run (dnload_firmware v t) ?fin) t v" if "bus_world v" "locked t" for t v
    by (intro blind_bind dnload_firmware_blind e o that)
  then have f: "blind (\<lambda>v t. ?fw ok t v) t v" if "bus_world v" "locked t" for ok t v
    using that by (cases ok) (auto intro: blind_return)
  have "open_run (?fw ok t v)" if "bus_world v" "\<not> IsSecure t" for ok t v
    using that o by (cases ok) (auto intro!: open_run_bind dnload_firmware_open)
  then show ?thesis
    unfolding dnload_rest_def [abs_def] by (intro blind_bind dnload_command_blind f assms)
qed

lemma request_dnload_blind:
  assumes "bus_world w" "locked s"
  shows "blind request_dnload s w"
proof (cases "WaitForExit s")
  case False
  have "WaitForExit (Endpoint_ClearSETUP t) = WaitForExit t" for t :: dfu
    by (simp add: Endpoint_ops_cur upd_cur_def upd_ep_def)
  then have "request_dnload v t = dnload_rest v (Endpoint_ClearSETUP t)" if "\<not> WaitForExit t" for v t
    using that by (simp add: request_dnload_def dnload_rest_def Let_def)
  moreover have "blind (\<lambda>w s. dnload_rest w (Endpoint_ClearSETUP s)) s w"
    by (rule blind_pre [of Endpoint_ClearSETUP s dnload_rest w]) (use assms in \<open>simp_all add: dnload_rest_blind ops_memory\<close>)
  ultimately show ?thesis using False by (simp add: blind_def)
next
  case True
  have "WaitForExit (Endpoint_ClearSETUP t) = WaitForExit t" for t :: dfu
    by (simp add: Endpoint_ops_cur upd_cur_def upd_ep_def)
  then have eq: "request_dnload v t = (case ProcessBootloaderCommand (Endpoint_ClearSETUP t) of Inl e \<Rightarrow> Inl e
      | Inr u \<Rightarrow> dnload_rest v (u\<lparr>WaitForExit := False\<rparr>))" if "WaitForExit t" for v t
    using that by (simp add: request_dnload_def dnload_rest_def Let_def split: sum.splits)
  show ?thesis
    unfolding blind_def
  proof (intro allI impI)
    fix a s' w' assume r: "request_dnload w s = Inr (a, s', w')"
    then obtain u where u: "ProcessBootloaderCommand (Endpoint_ClearSETUP s) = Inr u"
      "dnload_rest w (u\<lparr>WaitForExit := False\<rparr>) = Inr (a, s', w')"
      using eq [OF True] by (auto split: sum.splits)
    show "bus_world w' \<and> (IsSecure s' \<longrightarrow> locked s' \<and>
        (\<forall>F E. request_dnload w (with_memory F E s) = Inr (a, with_memory F E s', w')))"
    proof (cases "IsSecure u")
      case sec: True
      note p = ProcessBootloaderCommand_locked [OF _ u(1) sec]
      have "blind dnload_rest (u\<lparr>WaitForExit := False\<rparr>) w"
        using assms p(1) by (intro dnload_rest_blind) simp_all
      moreover have "request_dnload w (with_memory F E s) = dnload_rest w (with_memory F E (u\<lparr>WaitForExit := False\<rparr>))" for F E
        using True p(2) assms eq [of "with_memory F E s"] by (simp add: ops_memory fields_memory)
      ultimately show ?thesis using u(2) by (simp add: blind_def)
    next
      case False
      then show ?thesis
        using dnload_rest_open [OF assms(1), of "u\<lparr>WaitForExit := False\<rparr>"] u(2) by (simp add: open_run_def)
    qed
  qed
qed

lemma next_in_open: "bus_world w \<Longrightarrow> \<not> IsSecure s \<Longrightarrow> open_run (next_in w s)"
  using open_run_keeps [OF await_keeps(2), of w "Endpoint_ClearIN s"] by (simp add: next_in_def)

lemma read_flash_words_open: "bus_world w \<Longrightarrow> \<not> IsSecure s \<Longrightarrow> open_run (read_flash_words n a w s)"
  by (induction n arbitrary: a w s) (auto intro!: open_run_bind next_in_open)

lemma read_eeprom_bytes_open: "bus_world w \<Longrightarrow> \<not> IsSecure s \<Longrightarrow> open_run (read_eeprom_bytes n w s)"
  by (induction n arbitrary: w s) (auto simp: Let_def intro!: open_run_bind next_in_open)

lemma upload_data_open: "bus_world w \<Longrightarrow> \<not> IsSecure s \<Longrightarrow> open_run (upload_data w s)"
  by (auto simp: upload_data_def Let_def intro!: open_run_bind intro: read_flash_words_open read_eeprom_bytes_open)

lemma upload_data_blind:
  assumes "bus_world w" "locked s"
  shows "blind upload_data s w"
  using assms by (auto simp: blind_def upload_data_def locked_def Let_def ops_memory)

lemma request_upload_blind:
  assumes "bus_world w" "locked s"
  shows "blind request_upload s w"
proof -
  let ?fin = "\<lambda>ok s w. if \<not> ok then Inr ((), s, w) else Endpoint_ClearStatusStage w (Endpoint_ClearIN s)"
  let ?data = "\<lambda>ok s w. if \<not> ok then Inr ((), s, w) else bind_run (upload_data w s) ?fin"
  have e: "blind (\<lambda>v t. ?fin ok t v) t v" if "bus_world v" "locked t" for ok t v
    using that by (cases ok) (auto intro: blind_return finish_blind)
  have k: "open_run (Endpoint_ClearStatusStage v (Endpoint_ClearIN t))" if "bus_world v" "\<not> IsSecure t" for t v
    using open_run_keeps [OF ClearStatusStage_keeps [OF that(1), of "Endpoint_ClearIN t"]] that(2) by simp
  have o: "open_run (?fin ok t v)" if "bus_world v" "\<not> IsSecure t" for ok t v
    using that k by (cases ok) auto
  have "blind (\<lambda>v t. bind_run (upload_data v t) ?fin) t v" if "bus_world v" "locked t" for t v
    by (intro blind_bind upload_data_blind e o that)
  then have f: "blind (\<lambda>v t. ?data ok t v) t v" if "bus_world v" "locked t" for ok t v
    using that by (cases ok) (auto intro: blind_return)
  have u: "open_run (upload_data v t)" if "bus_world v" "\<not> IsSecure t" for t v
    using upload_data_open that by blast
  have "open_run (?data ok t v)" if "bus_world v" "\<not> IsSecure t" for ok t v
    using that o u by (cases ok) (auto intro!: open_run_bind)
  then have "blind (\<lambda>w s. bind_run (await_in w s) ?data) (Endpoint_ClearSETUP s) w"
    using assms by (intro blind_bind blind_await f) simp_all
  then have "blind (\<lambda>w s. bind_run (await_in w (Endpoint_ClearSETUP s)) ?data) s w"
    by (rule blind_pre [of Endpoint_ClearSETUP s "\<lambda>w s. bind_run (await_in w s) ?data", OF ops_memory(1)])
  then show ?thesis unfolding request_upload_def [abs_def] .
qed

lemma blind_eq:
  assumes "\<And>F E. f w (with_memory F E s) = g w (with_memory F E s)" "blind g s w"
  shows "blind f s w"
  using assms(1) [of "Flash s" "Eeprom s"] assms by (simp add: blind_def)

lemma blind_answer:
  assumes "\<And>F E t. h (with_memory F E t) = with_memory F E (h t)" "locked (h s)" "bus_world w"
  shows "blind (\<lambda>w s. Endpoint_ClearStatusStage w (h s)) s w"
  by (rule blind_pre [of h s Endpoint_ClearStatusStage w, OF assms(1) ClearStatusStage_blind [OF assms(3,2)]])

definition set_size :: "dfu \<Rightarrow> dfu" where
  "set_size s = s\<lparr>SentCommand := (SentCommand s)\<lparr>cmd_DataSize := wLength (USB_ControlRequest s)\<rparr>\<rparr>"

lemma set_size_memory: "set_size (with_memory F E s) = with_memory F E (set_size s)"
  by (simp add: set_size_def fields_memory)

lemma set_size_simps [simp]: "locked (set_size s) = locked s" "USB_ControlRequest (set_size s) = USB_ControlRequest s"
  by (simp_all add: set_size_def)

definition answer :: "u8 \<Rightarrow> dfu \<Rightarrow> dfu" where
  "answer r s =
     (if r = DFU_GETSTATUS then
        let s = Endpoint_ClearSETUP s; s = Endpoint_Write_Byte (DFU_Status s) s; s = Endpoint_Write_Byte 0 s;
            s = Endpoint_Write_Word_LE 0 s; s = Endpoint_Write_Byte (DFU_State s) s
        in Endpoint_ClearIN (Endpoint_Write_Byte 0 s)
      else if r = DFU_CLRSTATUS then (Endpoint_ClearSETUP s)\<lparr>DFU_Status := DFU_OK\<rparr>
      else if r = DFU_GETSTATE then
        let s = Endpoint_ClearSETUP s in Endpoint_ClearIN (Endpoint_Write_Byte (DFU_State s) s)
      else (Endpoint_ClearSETUP s)\<lparr>DFU_State := dfuIDLE\<rparr>)"

lemma answer_memory: "answer r (with_memory F E s) = with_memory F E (answer r s)"
  by (simp add: answer_def Let_def ops_memory fields_memory)

lemma answer_locked: "locked s \<Longrightarrow> locked (answer r s)"
  by (simp add: answer_def Let_def) (simp add: locked_def dfu_state_defs)

text \<open>The handler, by the request.\<close>

lemma DFU_UnhandledControlRequest_cases:
  "DFU_UnhandledControlRequest w s =
     (let r = bRequest (USB_ControlRequest s)
      in if r = DFU_DNLOAD then request_dnload w (set_size s)
         else if r = DFU_UPLOAD then request_upload w (set_size s)
         else if r \<in> {DFU_GETSTATUS, DFU_CLRSTATUS, DFU_GETSTATE, DFU_ABORT}
         then Endpoint_ClearStatusStage w (answer r (set_size s))
         else Inr ((), set_size s, w))"
  by (simp add: DFU_UnhandledControlRequest_def request_getstatus_def answer_def set_size_def Let_def dfu_request_defs)

lemma DFU_UnhandledControlRequest_blind:
  assumes "bus_world w" "locked s"
  shows "blind DFU_UnhandledControlRequest s w"
proof -
  let ?r = "bRequest (USB_ControlRequest s)"
  have l: "locked (set_size s)" using assms(2) by simp
  note pre = blind_pre [of set_size s, OF set_size_memory]
  have d: "blind (\<lambda>w s. request_dnload w (set_size s)) s w" "blind (\<lambda>w s. request_upload w (set_size s)) s w"
    "blind (\<lambda>w s. Inr ((), set_size s, w)) s w"
    by (rule pre, rule request_dnload_blind [OF assms(1) l], rule pre, rule request_upload_blind [OF assms(1) l],
        rule pre, rule blind_return [OF assms(1) l])
  have a: "blind (\<lambda>w s. Endpoint_ClearStatusStage w (answer ?r (set_size s))) s w"
    by (rule blind_answer [of "\<lambda>s. answer ?r (set_size s)"])
      (use assms l in \<open>simp_all add: set_size_memory answer_memory answer_locked\<close>)
  consider "?r = DFU_DNLOAD" | "?r = DFU_UPLOAD" "?r \<noteq> DFU_DNLOAD"
    | "?r \<in> {DFU_GETSTATUS, DFU_CLRSTATUS, DFU_GETSTATE, DFU_ABORT}" "?r \<noteq> DFU_DNLOAD" "?r \<noteq> DFU_UPLOAD"
    | "?r \<notin> {DFU_GETSTATUS, DFU_CLRSTATUS, DFU_GETSTATE, DFU_ABORT}" "?r \<noteq> DFU_DNLOAD" "?r \<noteq> DFU_UPLOAD"
    by blast
  then show ?thesis
  proof cases
    case 1
    show ?thesis by (rule blind_eq [OF _ d(1)]) (use 1 in \<open>simp add: DFU_UnhandledControlRequest_cases\<close>)
  next
    case 2
    show ?thesis by (rule blind_eq [OF _ d(2)]) (use 2 in \<open>simp add: DFU_UnhandledControlRequest_cases Let_def\<close>)
  next
    case 3
    show ?thesis by (rule blind_eq [OF _ a]) (simp only: DFU_UnhandledControlRequest_cases Let_def with_memory_simps 3 if_False if_True)
  next
    case 4
    show ?thesis by (rule blind_eq [OF _ d(3)]) (simp only: DFU_UnhandledControlRequest_cases Let_def with_memory_simps 4 if_False if_True)
  qed
qed

section \<open>Runs in secure mode\<close>

datatype dfu_act = Bus "dfu \<Rightarrow> dfu" | Request "dfu world"

inductive secure_run :: "dfu \<Rightarrow> dfu_act list \<Rightarrow> dfu \<Rightarrow> bool" for s :: dfu where
  start: "secure_run s [] s"
| bus: "secure_run s as t \<Longrightarrow> bus_event e \<Longrightarrow> secure_run s (as @ [Bus e]) (e t)"
| request: "secure_run s as t \<Longrightarrow> bus_world w \<Longrightarrow> DFU_UnhandledControlRequest w t = Inr ((), u, w') \<Longrightarrow> IsSecure u \<Longrightarrow>
    secure_run s (as @ [Request w]) u"

lemma secure_run_locked:
  assumes "secure_run s as t" "locked s"
  shows "locked t \<and> secure_run (with_memory F E s) as (with_memory F E t)"
  using assms
proof (induction rule: secure_run.induct)
  case start
  then show ?case by (simp add: secure_run.start)
next
  case (bus as t e)
  then have t: "locked t" "secure_run (with_memory F E s) as (with_memory F E t)" by simp_all
  have "e (with_memory F E t) = with_memory F E (e t)" "locked (e t)"
    using bus.hyps(2) t(1) by (simp_all add: bus_event_def locked_def)
  with secure_run.bus [OF t(2) bus.hyps(2)] show ?case by simp
next
  case (request as t w u w')
  then have t: "locked t" "secure_run (with_memory F E s) as (with_memory F E t)" by simp_all
  have "locked u" "DFU_UnhandledControlRequest w (with_memory F E t) = Inr ((), with_memory F E u, w')"
    using DFU_UnhandledControlRequest_blind [OF request.hyps(2) t(1)] request.hyps(3,4) by (simp_all add: blind_def)
  with secure_run.request [OF t(2) request.hyps(2)] request.hyps(4) show ?case by simp
qed

text \<open>The erase of the chip: page by page, up to the boot loader.\<close>

lemma erase_pages_mem:
  assumes "fl_buf (Flash s) = (\<lambda>_. None)" "256 dvd unat a"
  shows "fl_mem (Flash (erase_pages a s)) i = (if unat a \<le> i \<and> i < 0x1E000 then 0xFF else fl_mem (Flash s) i) \<and>
    Eeprom (erase_pages a s) = Eeprom s"
  using assms
proof (induction a s rule: erase_pages.induct)
  case (1 a s)
  let ?s = "dfu_page_write a (dfu_page_erase a s)"
  have m: "fl_mem (Flash ?s) i = (if unat a \<le> i \<and> i < unat a + 256 then 0xFF else fl_mem (Flash s) i)"
    "fl_buf (Flash ?s) = (\<lambda>_. None)" "Eeprom ?s = Eeprom s" if "unat a < 0x1E000"
    using that in_page_iff [of 256 "unat a" i] "1.prems"
    by (auto simp: dfu_page_write_def dfu_page_erase_def boot_page_write_def boot_page_erase_def SPM_PAGESIZE_def flash_at_def
        FLASH_BYTES_def buf_byte_def)
  have b: "a < BOOT_START_ADDR \<longleftrightarrow> unat a < 0x1E000" by (simp add: BOOT_START_ADDR_def word_less_nat_alt)
  show ?case
  proof (cases "unat a < 0x1E000")
    case True
    then have n: "unat (a + of_nat SPM_PAGESIZE) = unat a + 256" by (simp add: SPM_PAGESIZE_def unat_word_ariths)
    have "erase_pages a s = erase_pages (a + of_nat SPM_PAGESIZE) ?s"
      using True b by (subst erase_pages.simps) simp
    moreover have "256 dvd unat a + 256" using "1.prems" by simp
    moreover have "unat a + 256 \<le> 0x1E000" using True "1.prems"(2) by auto
    ultimately show ?thesis
      using "1.IH" True b m n by (auto simp del: dvd_add_right_iff)
  next
    case False
    then show ?thesis using b by (subst (1 2) erase_pages.simps) auto
  qed
qed

text \<open>C25: while the boot loader is in secure mode, nothing the host does reads or changes the flash or the
  EEPROM: along every run of bus events and requests that leaves it secure, the memories stay as they were,
  and the same events and requests lead, with any other contents of the memories, to the same state but for
  those contents. A command that ends secure mode has erased the flash up to the boot loader before (the
  page buffer being empty); it leaves the EEPROM as it was.\<close>

theorem dfu_secure_mode:
  assumes "locked s"
  shows "(secure_run s as t \<longrightarrow> locked t \<and> Flash t = Flash s \<and> Eeprom t = Eeprom s \<and>
      (\<forall>F E. secure_run (with_memory F E s) as (with_memory F E t))) \<and>
    (ProcessBootloaderCommand s = Inr u \<and> \<not> IsSecure u \<and> fl_buf (Flash s) = (\<lambda>_. None) \<longrightarrow>
      (\<forall>i < 0x1E000. fl_mem (Flash u) i = 0xFF) \<and> (\<forall>i \<ge> 0x1E000. fl_mem (Flash u) i = fl_mem (Flash s) i) \<and>
      Eeprom u = Eeprom s)"
proof (intro conjI impI)
  assume r: "secure_run s as t"
  from secure_run_locked [OF r assms] show "locked t"
    and "\<forall>F E. secure_run (with_memory F E s) as (with_memory F E t)" by simp_all
  from r have "Flash t = Flash s \<and> Eeprom t = Eeprom s"
  proof (induction rule: secure_run.induct)
    case (bus as t e)
    from bus.hyps(2) have "e (with_memory (Flash t) (Eeprom t) t) = with_memory (Flash t) (Eeprom t) (e t)"
      unfolding bus_event_def by blast
    then have "Flash (e t) = Flash t" "Eeprom (e t) = Eeprom t" by (metis with_memory_simps(14,15,16))+
    with bus.IH show ?case by simp
  next
    case (request as t w u w')
    have "blind DFU_UnhandledControlRequest t w"
      using secure_run_locked [OF request.hyps(1) assms] request.hyps(2) by (blast intro: DFU_UnhandledControlRequest_blind)
    then have "DFU_UnhandledControlRequest w (with_memory (Flash t) (Eeprom t) t) =
        Inr ((), with_memory (Flash t) (Eeprom t) u, w')"
      using request.hyps(3,4) unfolding blind_def by blast
    with request.hyps(3) have "u = with_memory (Flash t) (Eeprom t) u" by simp
    then have "Flash u = Flash t" "Eeprom u = Eeprom t" by (metis with_memory_simps(14,15))+
    with request.IH show ?case by simp
  qed simp
  then show "Flash t = Flash s" "Eeprom t = Eeprom s" by simp_all
next
  assume p: "ProcessBootloaderCommand s = Inr u \<and> \<not> IsSecure u \<and> fl_buf (Flash s) = (\<lambda>_. None)"
  then have u: "u = (dfu_rww_enable (erase_pages 0 s))\<lparr>IsSecure := False\<rparr>"
    using assms
    by (auto simp: locked_def ProcessBootloaderCommand_def ProcessWriteCommand_def ProcessReadCommand_def Let_def
        IS_TWOBYTE_COMMAND_def IS_ONEBYTE_COMMAND_def dfu_command_defs split: if_splits sum.splits)
  have e: "fl_mem (Flash (erase_pages 0 s)) i = (if i < 0x1E000 then 0xFF else fl_mem (Flash s) i)"
    "Eeprom (erase_pages 0 s) = Eeprom s" for i
    using erase_pages_mem [of s 0 i] p by simp_all
  show "\<forall>i < 0x1E000. fl_mem (Flash u) i = 0xFF" "\<forall>i \<ge> 0x1E000. fl_mem (Flash u) i = fl_mem (Flash s) i"
    "Eeprom u = Eeprom s"
    using e by (simp_all add: u dfu_rww_enable_def boot_rww_enable_def)
qed

end
