(* ===== verification/ControlOut.thy ===== *)
theory ControlOut
  imports Enumeration
begin

text \<open>
  The data stage of a control write as a program sees it that reads it packet by packet: the control
  endpoint, of \<open>sz\<close> bytes, with a packet of the host in its bank.
\<close>

section \<open>The control endpoint\<close>

definition ctl_out :: "nat \<Rightarrow> ep_regs \<Rightarrow> bool" where
  "ctl_out sz ep \<longleftrightarrow> ep_is_control ep \<and> \<not> ep_is_in ep \<and> ep_size ep = sz \<and> bit (r_ueconx ep) EPEN \<and>
     r_ueintx ep = set_bit TXINI 0 \<and> r_bank ep = [] \<and> r_tx ep = None"

definition ctl_out_ready :: "nat \<Rightarrow> 'a usb_dev_scheme \<Rightarrow> bool" where
  "ctl_out_ready sz t \<longleftrightarrow> UENUM t = 0 \<and> ctl_out sz (eps t 0) \<and> USB_DeviceState t \<noteq> DEVICE_STATE_Unattached"

text \<open>\<open>held b t\<close>: the ready state \<open>t\<close>, but with a packet of the host in the bank, of which \<open>b\<close> is unread.\<close>

definition held :: "u8 list \<Rightarrow> 'a usb_dev_scheme \<Rightarrow> 'a usb_dev_scheme" where
  "held b t = upd_ep 0 (\<lambda>ep. ep\<lparr>r_bank := b, r_ueintx := set_bit RXOUTI (set_bit TXINI 0)\<rparr>) t"

lemma held_simps [simp]:
  "UENUM (held b t) = UENUM t" "USB_DeviceState (held b t) = USB_DeviceState t" "USB_ControlRequest (held b t) = USB_ControlRequest t"
  "held b (held c t) = held b t"
  by (simp_all add: held_def upd_ep_def)

lemma eps_held: "eps (held b t) 0 = (eps t 0)\<lparr>r_bank := b, r_ueintx := set_bit RXOUTI (set_bit TXINI 0)\<rparr>"
  by (simp add: held_def)

lemma ctl_out_ready_request [simp]: "ctl_out_ready sz (t\<lparr>USB_ControlRequest := r\<rparr>) = ctl_out_ready sz t"
  by (simp add: ctl_out_ready_def)

lemma cur_held: "UENUM t = 0 \<Longrightarrow> cur (held b t) = (eps t 0)\<lparr>r_bank := b, r_ueintx := set_bit RXOUTI (set_bit TXINI 0)\<rparr>"
  by (simp add: held_def cur_def)

lemma held_flags:
  assumes "ctl_out_ready sz t"
  shows "Endpoint_IsOUTReceived (held b t)" "\<not> Endpoint_IsOUTReceived t" "Endpoint_IsINReady t"
    "Endpoint_BytesInEndpoint (held b t) = of_nat (length b)"
  using assms
  by (simp_all add: ctl_out_ready_def Endpoint_flags cur_held Endpoint_BytesInEndpoint_def cur_def eps_held ctl_out_def bit_exp_iff)

lemma deliver_ready:
  assumes "ctl_out_ready sz t" "length p \<le> sz"
  shows "deliver 0 p t = held p t"
  using assms
  by (simp add: deliver_def host_out_def Let_def ctl_out_ready_def ctl_out_def bit_exp_iff held_def upd_ep_def)

lemma ep_clear_out_control:
  assumes "ep_is_control ep" "r_ueintx ep = set_bit TXINI 0" "r_bank ep = []"
  shows "ep_clear_out (ep\<lparr>r_bank := b, r_ueintx := set_bit RXOUTI (set_bit TXINI 0)\<rparr>) = ep"
proof -
  have w: "(set_bit RXOUTI (2 ^ TXINI) AND set_bit RWAL (unset_bit RXOUTI x)) AND set_bit RWAL (unset_bit FIFOCON x) = (2 ^ TXINI :: u8)"
    if "bit x TXINI" for x
    using that by (intro bit_eqI) (auto simp: bit_and_iff bit_exp_iff)
  show ?thesis
    using assms
    by (intro ep_regs.equality)
      (simp_all add: ep_clear_out_def ueintx_write_def Let_def ep_is_control_def ep_free_def w bit_exp_iff bit_and_iff)
qed

lemma ClearOUT_held:
  assumes "ctl_out_ready sz t"
  shows "Endpoint_ClearOUT (held b t) = t"
proof -
  have "ep_clear_out ((eps t 0)\<lparr>r_bank := b, r_ueintx := set_bit RXOUTI (set_bit TXINI 0)\<rparr>) = eps t 0"
    using assms by (intro ep_clear_out_control) (simp_all add: ctl_out_ready_def ctl_out_def)
  then show ?thesis
    using assms by (simp add: ctl_out_ready_def Endpoint_ops_cur upd_cur_def upd_ep_def held_def)
qed

lemma ClearOUT_ready:
  assumes "ctl_out_ready sz t"
  shows "Endpoint_ClearOUT t = t"
proof -
  have "unset_bit RXOUTI (set_bit TXINI 0) = (set_bit TXINI 0 :: u8)" "unset_bit FIFOCON (set_bit TXINI 0) = (set_bit TXINI 0 :: u8)"
    by (intro bit_eqI; auto simp: bit_exp_iff)+
  have w: "2 ^ TXINI AND set_bit RWAL (unset_bit n x) = (2 ^ TXINI :: u8)" if "bit x TXINI" "n \<noteq> TXINI" for x n
    using that by (intro bit_eqI) (auto simp: bit_and_iff bit_exp_iff)
  have "ep_clear_out ep = ep" if "ctl_out sz ep" for ep
    using that
    by (intro ep_regs.equality)
      (simp_all add: ep_clear_out_def ueintx_write_def Let_def ep_is_control_def ep_free_def ctl_out_def w bit_exp_iff bit_and_iff)
  then show ?thesis
    using assms by (simp add: ctl_out_ready_def Endpoint_ops_cur upd_cur_def upd_ep_def)
qed

lemma read_held:
  assumes "UENUM t = 0"
  shows "Endpoint_Read_Byte (held (x # b) t) = (x, held b t)"
    "Endpoint_Read_Word_LE (held (x # y # b) t) = (le_word [x, y], held b t)"
    "Endpoint_Discard_Byte (held (x # b) t) = held b t"
proof -
  have r: "uedatx_read (held (x # b) t) = (x, held b t)" for x b
  proof -
    have "r_bank (cur (held (x # b) t)) = x # b" using assms by (simp add: cur_held)
    moreover have "ep\<lparr>r_bank := x # b, r_ueintx := v, r_bank := b\<rparr> = ep\<lparr>r_bank := b, r_ueintx := v\<rparr>" for ep :: ep_regs and v
      by (cases ep) simp
    ultimately show ?thesis
      using assms by (subst uedatx_read_Cons [of _ x b]) (simp_all only: held_def upd_cur_def upd_ep_upd_ep UENUM_upd_ep unsigned_0)
  qed
  show "Endpoint_Read_Byte (held (x # b) t) = (x, held b t)"
    "Endpoint_Read_Word_LE (held (x # y # b) t) = (le_word [x, y], held b t)"
    "Endpoint_Discard_Byte (held (x # b) t) = held b t"
    by (simp_all add: Endpoint_Read_Byte_def Endpoint_Read_Word_LE_def Endpoint_Discard_Byte_def r)
qed

lemma await_held:
  assumes "ctl_out_ready sz t"
  shows "await_out w (held b t) = Inr (True, held b t, w)"
    "length p \<le> sz \<Longrightarrow> await_out (deliver 0 p # w) t = Inr (True, held p t, w)"
  using assms held_flags [OF assms] deliver_ready [OF assms]
  by (simp_all add: await_out_def poll_until_exit poll_until_round [of _ _ _ "()"] ctl_out_ready_def)

section \<open>Packets\<close>

text \<open>The host sends a data stage in packets of \<open>sz\<close> bytes, the last of which may be shorter.\<close>

function chunks :: "nat \<Rightarrow> u8 list \<Rightarrow> u8 list list" where
  "chunks sz xs = (if xs = [] \<or> sz = 0 then [] else take sz xs # chunks sz (drop sz xs))"
  by pat_completeness auto
termination by (relation "measure (\<lambda>(sz, xs). length xs)") auto

declare chunks.simps [simp del]

lemma chunks_Nil [simp]: "chunks sz [] = []"
  by (simp add: chunks.simps)

definition out_packets :: "nat \<Rightarrow> u8 list \<Rightarrow> 'a usb_dev_scheme world" where
  "out_packets sz xs = map (deliver 0) (chunks sz xs)"

lemma out_packets_simps:
  "out_packets sz [] = []" "xs \<noteq> [] \<Longrightarrow> 0 < sz \<Longrightarrow> out_packets sz xs = deliver 0 (take sz xs) # out_packets sz (drop sz xs)"
  by (simp_all add: out_packets_def chunks.simps [of sz xs])

section \<open>Builds with the control endpoint only\<close>

text \<open>
  With \<open>CONTROL_ONLY_DEVICE\<close>, as both boot loaders are built, the library never writes \<open>UENUM\<close>, which stays 0:
  selecting an endpoint does nothing, and packets are acknowledged with a single write. On the control
  endpoint that is what the other macros do; configuring any endpoint configures endpoint 0.
\<close>

definition ctl_only_GetCurrentEndpoint :: u8 where
  "ctl_only_GetCurrentEndpoint = ENDPOINT_CONTROLEP"

definition ctl_only_SelectEndpoint :: "u8 \<Rightarrow> 'a usb_hw_scheme \<Rightarrow> 'a usb_hw_scheme" where
  "ctl_only_SelectEndpoint epnum h = h"

definition ctl_only_ClearIN :: "'a usb_hw_scheme \<Rightarrow> 'a usb_hw_scheme" where
  "ctl_only_ClearIN h = set_UEINTX (unset_bit TXINI (UEINTX h)) h"

definition ctl_only_ClearOUT :: "'a usb_hw_scheme \<Rightarrow> 'a usb_hw_scheme" where
  "ctl_only_ClearOUT h = set_UEINTX (unset_bit RXOUTI (UEINTX h)) h"

definition ctl_only_ConfigureEndpoint_Prv :: "u8 \<Rightarrow> u8 \<Rightarrow> u8 \<Rightarrow> 'a usb_hw_scheme \<Rightarrow> bool \<times> 'a usb_hw_scheme" where
  "ctl_only_ConfigureEndpoint_Prv Number UECFG0XData UECFG1XData h =
     (let h = ctl_only_SelectEndpoint Number h;
          h = Endpoint_EnableEndpoint h;
          h = set_UECFG1X 0 h;
          h = set_UECFG0X UECFG0XData h;
          h = set_UECFG1X UECFG1XData h
      in (Endpoint_IsConfigured h, h))"

definition ctl_only_ConfigureEndpoint ::
  "u8 \<Rightarrow> u8 \<Rightarrow> u8 \<Rightarrow> u16 \<Rightarrow> u8 \<Rightarrow> 'a usb_hw_scheme \<Rightarrow> stop + bool \<times> 'a usb_hw_scheme" where
  "ctl_only_ConfigureEndpoint Number Type Direction Size Banks h =
     (case Endpoint_BytesToEPSizeMask Size of
        Inl e \<Rightarrow> Inl e
      | Inr SizeMask \<Rightarrow>
          Inr (ctl_only_ConfigureEndpoint_Prv Number (push_bit EPTYPE0 Type OR Direction)
                 (push_bit ALLOC 1 OR Banks OR SizeMask) h))"

lemma ctl_only_select:
  assumes "UENUM h = 0"
  shows "Endpoint_GetCurrentEndpoint h = ctl_only_GetCurrentEndpoint"
    "Endpoint_SelectEndpoint ENDPOINT_CONTROLEP h = ctl_only_SelectEndpoint N h"
  using assms
  by (simp_all add: Endpoint_GetCurrentEndpoint_def ctl_only_GetCurrentEndpoint_def Endpoint_SelectEndpoint_def
      uenum_write_def ctl_only_SelectEndpoint_def ENDPOINT_CONTROLEP_def)

lemma ctl_only_clear:
  assumes "ep_is_control (cur h)" "\<not> bit (r_ueintx (cur h)) FIFOCON"
  shows "ctl_only_ClearIN h = Endpoint_ClearIN h" "ctl_only_ClearOUT h = Endpoint_ClearOUT h"
proof -
  have e: "(u AND set_bit RWAL (unset_bit k (put_bit RWAL z u))) AND set_bit RWAL (unset_bit FIFOCON (put_bit RWAL z u)) =
      u AND set_bit RWAL (unset_bit k (put_bit RWAL z u))" if "\<not> bit u FIFOCON" for u :: u8 and k z
    using that by (intro bit_eqI) (auto simp: bit_and_iff)
  have "ueintx_write (unset_bit FIFOCON (ueintx_read ep)) (ueintx_write (unset_bit k (ueintx_read ep)) ep) =
      ueintx_write (unset_bit k (ueintx_read ep)) ep"
    if "ep_is_control ep" "\<not> bit (r_ueintx ep) FIFOCON" "k = TXINI \<or> k = RXOUTI" for ep k
    using that e [OF that(2), of k]
    by (auto simp: ueintx_write_def Let_def ueintx_read_def ep_is_control_def ep_commit_def ep_free_def bit_and_iff
        intro!: ep_regs.equality)
  then show "ctl_only_ClearIN h = Endpoint_ClearIN h" "ctl_only_ClearOUT h = Endpoint_ClearOUT h"
    using assms
    by (simp_all add: ctl_only_ClearIN_def ctl_only_ClearOUT_def Endpoint_ClearIN_def Endpoint_ClearOUT_def Let_def
        set_UEINTX_def UEINTX_def upd_cur_def upd_ep_def cur_def)
qed

lemma ctl_only_configure:
  assumes "UENUM h = 0"
  shows "ctl_only_ConfigureEndpoint N Type Direction Size Banks h = Endpoint_ConfigureEndpoint ENDPOINT_CONTROLEP Type Direction Size Banks h"
  using assms
  by (simp add: ctl_only_ConfigureEndpoint_def Endpoint_ConfigureEndpoint_def ctl_only_ConfigureEndpoint_Prv_def
      Endpoint_ConfigureEndpoint_Prv_def ctl_only_select(2) [OF assms, symmetric] ENDPOINT_CONTROLEP_def cong: sum.case_cong)

section \<open>The bytes of a data stage\<close>

text \<open>
  A handler that reads a data stage calls, before each word, an operation that leaves a bank with unread
  bytes alone and otherwise acknowledges the packet and waits for the next one. That is all the handlers
  need of it: they read the bytes of the stage in order, as if they had come in one packet.
\<close>

locale packet_source =
  fixes sz :: nat
    and fetch :: "'a usb_dev_scheme world \<Rightarrow> 'a usb_dev_scheme \<Rightarrow> ('a usb_dev_scheme, 'r) run"
    and go :: 'r
  assumes sz: "0 < sz" "even sz"
    and fetch_unread: "ctl_out_ready sz t \<Longrightarrow> b \<noteq> [] \<Longrightarrow> length b \<le> sz \<Longrightarrow> fetch w (held b t) = Inr (go, held b t, w)"
    and fetch_next: "ctl_out_ready sz t \<Longrightarrow> length p \<le> sz \<Longrightarrow> fetch (deliver 0 p # w) (held [] t) = Inr (go, held p t, w)"
begin

lemma fetch_word:
  assumes "ctl_out_ready sz t" "b @ xs = x # y # rest" "even (length b)" "even (length xs)" "length b \<le> sz"
  shows "\<exists>b' xs'. fetch (out_packets sz xs @ w) (held b t) = Inr (go, held (x # y # b') t, out_packets sz xs' @ w) \<and>
    b' @ xs' = rest \<and> even (length b') \<and> even (length xs') \<and> length b' + 2 \<le> sz"
proof -
  obtain c xs' where c: "fetch (out_packets sz xs @ w) (held b t) = Inr (go, held c t, out_packets sz xs' @ w)"
    "c @ xs' = x # y # rest" "c \<noteq> []" "even (length c)" "even (length xs')" "length c \<le> sz"
  proof (cases "b = []")
    case True
    then have "xs \<noteq> []" using assms(2) by auto
    moreover have "length (take sz xs) \<le> sz" by simp
    ultimately have "fetch (out_packets sz xs @ w) (held b t) = Inr (go, held (take sz xs) t, out_packets sz (drop sz xs) @ w)"
      using True fetch_next [OF assms(1)] sz by (simp add: out_packets_simps)
    moreover have "even (length (take sz xs))" "even (length (drop sz xs))" using assms(4) sz by (simp_all add: min_def)
    ultimately show ?thesis
      using True \<open>xs \<noteq> []\<close> sz assms(2) that [of "take sz xs" "drop sz xs"] by simp
  next
    case False
    then show ?thesis using that [of b xs] fetch_unread [OF assms(1)] assms by simp
  qed
  then obtain b' where "c = x # y # b'" "b' @ xs' = rest" by (cases c; cases "tl c") auto
  with c show ?thesis by (intro exI [of _ b'] exI [of _ xs']) simp
qed

end

section \<open>The status stage\<close>

lemma collect_ready:
  assumes "ctl_out_ready sz t"
  shows "collect 0 (Endpoint_ClearIN t) = add_sent [[]] t"
proof -
  have "ep_clear_in (eps t 0) = (eps t 0)\<lparr>r_ueintx := 0, r_tx := Some []\<rparr>"
    using assms by (intro ep_clear_in_control) (simp_all add: ctl_out_ready_def ctl_out_def)
  then show ?thesis
    using assms
    by (simp add: ctl_out_ready_def ctl_out_def Endpoint_ops_cur upd_cur_def collect_def host_in_def add_sent_def ep_is_control_def)
      (simp add: upd_ep_def, intro arg_cong [of _ _ "\<lambda>e. t\<lparr>eps := (eps t)(0 := e)\<rparr>"] ep_regs.equality, simp_all)
qed

lemma status_ready:
  assumes "ctl_out_ready sz t" "bmRequestType (USB_ControlRequest t) AND REQDIR_DEVICETOHOST = 0"
  shows "Endpoint_ClearStatusStage w t = Inr ((), Endpoint_ClearIN t, w)"
  using assms held_flags(3) [OF assms(1)]
  by (simp add: Endpoint_ClearStatusStage_def await_in_def poll_until_exit)

end
