(* ===== verification/DfuProtocol.thy ===== *)
theory DfuProtocol
  imports DfuSecure ControlOut
begin

text \<open>
  What the requests of the DFU boot loader achieve: the firmware of a download ends up in the flash memory,
  the application is started after its two requests, and the tables behind the read commands.
\<close>

section \<open>The control endpoint of the boot loader\<close>

abbreviation dfu_ready :: "dfu \<Rightarrow> bool" where
  "dfu_ready \<equiv> ctl_out_ready 32"

abbreviation out32 :: "u8 list \<Rightarrow> dfu world" where
  "out32 \<equiv> out_packets 32"

lemma held_dfu [simp]:
  "Flash (held b t) = Flash t" "Eeprom (held b t) = Eeprom t" "SentCommand (held b t) = SentCommand t"
  "DFU_State (held b t) = DFU_State t" "DFU_Status (held b t) = DFU_Status t" "IsSecure (held b t) = IsSecure t"
  "WaitForExit (held b t) = WaitForExit t" "StartAddr (held b t) = StartAddr t" "EndAddr (held b t) = EndAddr t"
  "Flash64KBPage (held b t) = Flash64KBPage t"
  by (simp_all add: held_def upd_ep_def)

lemma held_fields:
  "(held b t)\<lparr>Flash := m\<rparr> = held b (t\<lparr>Flash := m\<rparr>)" "(held b t)\<lparr>SentCommand := c\<rparr> = held b (t\<lparr>SentCommand := c\<rparr>)"
  "(held b t)\<lparr>DFU_State := x\<rparr> = held b (t\<lparr>DFU_State := x\<rparr>)" "(held b t)\<lparr>StartAddr := a\<rparr> = held b (t\<lparr>StartAddr := a\<rparr>)"
  "(held b t)\<lparr>EndAddr := a'\<rparr> = held b (t\<lparr>EndAddr := a'\<rparr>)"
  "(held b t)\<lparr>WaitForExit := z\<rparr> = held b (t\<lparr>WaitForExit := z\<rparr>)"
  "(held b t)\<lparr>AppStartPtr := p\<rparr> = held b (t\<lparr>AppStartPtr := p\<rparr>)"
  "(held b t)\<lparr>RunBootloader := r\<rparr> = held b (t\<lparr>RunBootloader := r\<rparr>)"
  by (simp_all add: held_def upd_ep_def)

lemma dfu_ready_fields [simp]:
  "dfu_ready (t\<lparr>Flash := m\<rparr>) = dfu_ready t" "dfu_ready (t\<lparr>SentCommand := c\<rparr>) = dfu_ready t"
  "dfu_ready (t\<lparr>DFU_State := x\<rparr>) = dfu_ready t" "dfu_ready (t\<lparr>StartAddr := a\<rparr>) = dfu_ready t"
  "dfu_ready (t\<lparr>EndAddr := a\<rparr>) = dfu_ready t"
  "dfu_ready (t\<lparr>WaitForExit := z\<rparr>) = dfu_ready t" "dfu_ready (t\<lparr>AppStartPtr := p\<rparr>) = dfu_ready t"
  "dfu_ready (t\<lparr>RunBootloader := r\<rparr>) = dfu_ready t"
  by (simp_all add: ctl_out_ready_def)

lemma next_out_held:
  assumes "dfu_ready t"
  shows "b \<noteq> [] \<Longrightarrow> length b \<le> 32 \<Longrightarrow> next_out w (held b t) = Inr (True, held b t, w)"
    "length p \<le> 32 \<Longrightarrow> next_out (deliver 0 p # w) (held [] t) = Inr (True, held p t, w)"
  using held_flags [OF assms] ClearOUT_held [OF assms] await_held(2) [OF assms] of_nat_word_eq_0 [of "length b"]
  by (simp_all add: next_out_def)

interpretation dfu_out: packet_source 32 next_out True
  by unfold_locales (simp_all add: next_out_held)

section \<open>Programming\<close>

lemma dfu_flash_held:
  "dfu_page_fill a v (held b t) = held b (t\<lparr>Flash := boot_page_fill SPM_PAGESIZE (flash_at a) v (Flash t)\<rparr>)"
  "dfu_page_write a (held b t) = held b (t\<lparr>Flash := boot_page_write SPM_PAGESIZE (flash_at a) (Flash t)\<rparr>)"
  "dfu_page_erase a (held b t) = held b (t\<lparr>Flash := boot_page_erase SPM_PAGESIZE (flash_at a) (Flash t)\<rparr>)"
  by (simp_all add: dfu_page_fill_def dfu_page_write_def dfu_page_erase_def held_fields)

lemma flash_at_of_nat: "n < FLASH_BYTES \<Longrightarrow> flash_at (of_nat n) = n"
  by (simp add: flash_at_def FLASH_BYTES_def unat_of_nat take_bit_nat_eq_self)

text \<open>
  The memory in the middle of a programming run that started at \<open>P\<close> with contents \<open>f\<close>: of the bytes \<open>D\<close>
  received, those before \<open>full\<close> are in the memory, the others in the page buffer.
\<close>

definition programming :: "(nat \<Rightarrow> u8) \<Rightarrow> nat \<Rightarrow> u8 list \<Rightarrow> nat \<Rightarrow> flash \<Rightarrow> bool" where
  "programming f P D full m \<longleftrightarrow> 256 dvd full \<and> full \<le> length D \<and> length D < full + 256 \<and> even (length D) \<and>
     fl_buf m = buf_of (drop full D) \<and>
     (\<forall>i. fl_mem m i = (if i div 256 = (P + full) div 256 then 0xFF else flash_image 256 P (take full D) f i))"

lemma programming_length:
  assumes "programming f P D full m"
  obtains j where "length D = full + 2 * j" "j < 128" "even full"
proof -
  obtain k d where kd: "full = 256 * k" "length D = 2 * d" "256 * k \<le> 2 * d" "2 * d < 256 * k + 256"
    using assms unfolding programming_def by (metis dvdE)
  then have "length D = full + 2 * (d - 128 * k)" "d - 128 * k < 128" "even full" by simp_all
  with that show thesis by blast
qed

lemma programming_fill:
  assumes "programming f P D full m" "256 dvd P"
  shows "boot_page_fill 256 (P + length D) (le_word [x, y]) m = m\<lparr>fl_buf := buf_of (drop full (D @ [x, y]))\<rparr>"
proof -
  have d: "256 dvd P + full" "length D = full + (length D - full)" "length D - full < 256"
    using assms by (auto simp: programming_def)
  then obtain q where "P + full = 256 * q" by blast
  then have "P + length D = 256 * q + (length D - full)" using d(2) by simp
  then have "(P + length D) mod 256 = length (drop full D)" using d(3) by simp
  moreover have "even (length (drop full D))" using assms(1) by (auto elim: programming_length)
  ultimately show ?thesis
    using boot_page_fill_buf_of [of m "drop full D" "P + length D" 256 x y] assms(1) by (simp add: programming_def)
qed

lemma programming_write:
  assumes "programming f P D full m" "256 dvd P"
  shows "fl_mem (boot_page_write 256 (P + full) (m\<lparr>fl_buf := buf_of (drop full (D @ [x, y]))\<rparr>)) = flash_image 256 P (D @ [x, y]) f"
proof -
  obtain j where "length D = full + 2 * j" "j < 128" "even full" using assms(1) by (rule programming_length)
  then show ?thesis
    using assms by (intro boot_page_write_image) (simp_all add: programming_def)
qed

text \<open>One round of the loop before the last.\<close>

lemma programming_step:
  fixes x y :: u8
  assumes "programming f P D full m" "256 dvd P"
  defines "D' \<equiv> D @ [x, y]"
  shows "length D' < full + 256 \<Longrightarrow> programming f P D' full (boot_page_fill 256 (P + length D) (le_word [x, y]) m)"
    "\<not> length D' < full + 256 \<Longrightarrow> programming f P D' (length D')
       (boot_page_erase 256 (P + length D') (boot_page_write 256 (P + full) (boot_page_fill 256 (P + length D) (le_word [x, y]) m)))"
proof -
  assume "length D' < full + 256"
  then show "programming f P D' full (boot_page_fill 256 (P + length D) (le_word [x, y]) m)"
    unfolding programming_fill [OF assms(1,2)] using assms by (simp add: programming_def)
next
  assume l: "\<not> length D' < full + 256"
  obtain j where "length D = full + 2 * j" "j < 128" "even full" using assms(1) by (rule programming_length)
  then have "length D' = full + 256" using l by (simp add: D'_def)
  then have "256 dvd length D'" using assms(1) by (auto simp: programming_def)
  then show "programming f P D' (length D')
      (boot_page_erase 256 (P + length D') (boot_page_write 256 (P + full) (boot_page_fill 256 (P + length D) (le_word [x, y]) m)))"
    unfolding programming_fill [OF assms(1,2)]
    using programming_write [OF assms(1,2), of x y] assms(1)
    by (simp add: programming_def D'_def)
qed

lemma write_flash_words_programs:
  assumes "dfu_ready t" "256 dvd P" "programming f P D full (Flash t)"
    "b @ xs = fw @ rest" "length fw = 2 * Suc n" "even (length b)" "even (length xs)" "length b \<le> 32"
    "P + length D + length fw \<le> FLASH_BYTES"
  shows "\<exists>b' xs' m. write_flash_words (Suc n) (of_nat (P + length D)) (of_nat (P + full)) (of_nat ((length D - full) div 2))
        (out32 xs @ w) (held b t) = Inr (True, held b' (t\<lparr>Flash := m\<rparr>), out32 xs' @ w) \<and>
      b' @ xs' = rest \<and> length b' \<le> 32 \<and> fl_mem m = flash_image 256 P (D @ fw) f"
  using assms
proof (induction n arbitrary: t D full b xs fw)
  case (0 t D full b xs fw)
  then obtain x y where fw: "fw = [x, y]" by (auto simp: numeral_2_eq_2 length_Suc_conv)
  then have "b @ xs = x # y # rest" using 0(4) by simp
  from dfu_out.fetch_word [OF 0(1) this 0(6,7,8)] obtain b2 xs1 where
    b2: "next_out (out32 xs @ w) (held b t) = Inr (True, held (x # y # b2) t, out32 xs1 @ w)" "b2 @ xs1 = rest"
      "length b2 + 2 \<le> 32" by blast
  have a: "flash_at (of_nat (P + length D)) = P + length D" "flash_at (of_nat (P + full)) = P + full"
    by (rule flash_at_of_nat, use 0(3,5,9) in \<open>simp add: programming_def\<close>)+
  have u: "UENUM t = 0" using 0(1) by (simp add: ctl_out_ready_def)
  let ?m = "boot_page_write 256 (P + full) ((Flash t)\<lparr>fl_buf := buf_of (drop full (D @ [x, y]))\<rparr>)"
  have "write_flash_words (Suc 0) (of_nat (P + length D)) (of_nat (P + full)) (of_nat ((length D - full) div 2))
      (out32 xs @ w) (held b t) = Inr (True, held b2 (t\<lparr>Flash := ?m\<rparr>), out32 xs1 @ w)"
    using b2(1) a programming_fill [OF 0(3,2), of x y] read_held(2) [OF u]
    by (simp add: Let_def dfu_flash_held SPM_PAGESIZE_def)
  moreover have "fl_mem ?m = flash_image 256 P (D @ fw) f"
    using programming_write [OF 0(3,2)] fw by simp
  ultimately show ?case using b2 by (intro exI [of _ b2] exI [of _ xs1] exI [of _ ?m]) simp
next
  case (Suc n t D full b xs fw)
  obtain x y fw' where fw: "fw = x # y # fw'" "length fw' = 2 * Suc n"
    using Suc.prems(5) by (cases fw; cases "tl fw") auto
  then have "b @ xs = x # y # fw' @ rest" using Suc.prems(4) by simp
  from dfu_out.fetch_word [OF Suc.prems(1) this Suc.prems(6,7,8)] obtain b2 xs1 where
    b2: "next_out (out32 xs @ w) (held b t) = Inr (True, held (x # y # b2) t, out32 xs1 @ w)" "b2 @ xs1 = fw' @ rest"
      "even (length b2)" "even (length xs1)" "length b2 + 2 \<le> 32" by blast
  note P = Suc.prems(2) and pr = Suc.prems(3)
  let ?D = "D @ [x, y]" and ?j = "(length D - full) div 2"
  have j: "length D = full + 2 * ?j" "?j < 128" using pr by (auto elim: programming_length)
  have a: "flash_at (of_nat (P + length D)) = P + length D" "flash_at (of_nat (P + full)) = P + full"
    "flash_at (of_nat (P + length ?D)) = P + length ?D"
    by (rule flash_at_of_nat, use Suc.prems(9) fw pr in \<open>simp add: programming_def\<close>)+
  have n2: "(of_nat (P + length D) :: u32) + 2 = of_nat (P + length ?D)" by simp
  have k1: "(of_nat ?j :: u8) + 1 = of_nat (Suc ?j)" by simp
  have k: "(of_nat ?j :: u8) + 1 = of_nat (SPM_PAGESIZE div 2) \<longleftrightarrow> \<not> length ?D < full + 256"
  proof -
    have "(of_nat (Suc ?j) :: u8) = of_nat 128 \<longleftrightarrow> Suc ?j = 128"
      using j(2) by (subst word_unat_eq_iff) (simp only: unat_of_nat, simp add: take_bit_nat_eq_self)
    then show ?thesis unfolding k1 using j by (auto simp: SPM_PAGESIZE_def)
  qed
  have u: "UENUM t = 0" using Suc.prems(1) by (simp add: ctl_out_ready_def)
  let ?m1 = "boot_page_fill 256 (P + length D) (le_word [x, y]) (Flash t)"
  have ev: "even (length b2)" "length b2 \<le> 32" using b2 by auto
  have len: "P + length ?D + length fw' \<le> FLASH_BYTES" using Suc.prems(9) fw by simp
  note go = Suc.IH [OF _ P _ b2(2) fw(2) ev(1) b2(4) ev(2) len]
  show ?case
  proof (cases "length ?D < full + 256")
    case True
    let ?t = "t\<lparr>Flash := ?m1\<rparr>"
    have "write_flash_words (Suc (Suc n)) (of_nat (P + length D)) (of_nat (P + full)) (of_nat ?j) (out32 xs @ w) (held b t) =
        write_flash_words (Suc n) (of_nat (P + length D) + 2) (of_nat (P + full)) (of_nat ?j + 1) (out32 xs1 @ w) (held b2 ?t)"
      using True b2(1) k a(1) read_held(2) [OF u]
      by (subst write_flash_words.simps) (simp add: Let_def dfu_flash_held SPM_PAGESIZE_def del: write_flash_words.simps)
    moreover have "(of_nat ((length ?D - full) div 2) :: u8) = of_nat ?j + 1"
      unfolding k1 using j(1) by (intro arg_cong [of _ _ of_nat]) simp
    moreover have "dfu_ready ?t" "programming f P ?D full (Flash ?t)"
      using Suc.prems(1) programming_step(1) [OF pr P] True by simp_all
    ultimately show ?thesis using go [of ?t full] fw(1) unfolding n2 by simp
  next
    case False
    let ?t = "t\<lparr>Flash := boot_page_erase 256 (P + length ?D) (boot_page_write 256 (P + full) ?m1)\<rparr>"
    have "write_flash_words (Suc (Suc n)) (of_nat (P + length D)) (of_nat (P + full)) (of_nat ?j) (out32 xs @ w) (held b t) =
        write_flash_words (Suc n) (of_nat (P + length D) + 2) (of_nat (P + length D) + 2) 0 (out32 xs1 @ w) (held b2 ?t)"
      using False b2(1) k a(1,2,3) [unfolded n2 [symmetric]] read_held(2) [OF u]
      by (subst write_flash_words.simps) (simp add: Let_def dfu_flash_held SPM_PAGESIZE_def del: write_flash_words.simps)
    moreover have "dfu_ready ?t" "programming f P ?D (length ?D) (Flash ?t)"
      using Suc.prems(1) programming_step(2) [OF pr P] False by simp_all
    ultimately show ?thesis using go [of ?t "length ?D"] fw(1) unfolding n2 by simp
  qed
qed

section \<open>A download\<close>

text \<open>Filler bytes: those of the packet in the bank; where it ends, the wait for the next one counts as a byte.\<close>

lemma discard_bytes:
  assumes "dfu_ready t" "length (b @ c) \<le> 32"
  shows "discard_filler (length b + m) w (held (b @ c) t) = discard_filler m w (held c t)"
  using assms(2)
proof (induction b)
  case (Cons x b)
  then have "(of_nat (length (x # b @ c)) :: u16) \<noteq> 0" using of_nat_word_eq_0 [of "length (x # b @ c)"] by simp
  then show ?case
    using Cons held_flags [OF assms(1)] read_held(3) [of t x "b @ c"] assms(1) by (simp add: ctl_out_ready_def)
qed simp

lemma discard_wait:
  assumes "dfu_ready t" "length p \<le> 32"
  shows "discard_filler (Suc m) (deliver 0 p # w) (held [] t) = discard_filler m w (held p t)"
  using assms held_flags [OF assms(1)] by (simp add: ClearOUT_held await_held)

lemma discard_suffix:
  assumes "dfu_ready t" "length (b @ xs) = m" "length b \<le> 32" "length xs \<le> 32"
  shows "\<exists>c. discard_filler m (out32 xs @ w) (held b t) = Inr ((), held c t, w)"
proof (cases "xs = []")
  case True
  then show ?thesis
    using assms discard_bytes [OF assms(1), of b "[]" 0] by (auto simp: out_packets_simps)
next
  case False
  then obtain ys z where z: "xs = ys @ [z]" by (metis append_butlast_last_id)
  have "discard_filler m (out32 xs @ w) (held b t) = discard_filler (length xs) (out32 xs @ w) (held [] t)"
    using assms discard_bytes [OF assms(1), of b "[]" "length xs" "out32 xs @ w"] by simp
  also have "\<dots> = discard_filler (length ys) w (held xs t)"
    using False z assms discard_wait [OF assms(1), of xs "length ys" w] by (simp add: out_packets_simps)
  also have "\<dots> = Inr ((), held [z] t, w)"
    using discard_bytes [OF assms(1), of ys "[z]" 0 w] assms(4) z by simp
  finally show ?thesis by blast
qed

lemma read_params_held:
  assumes "UENUM t = 0" "length (cmd_Data (SentCommand t)) = 5" "length d \<le> 5" "length (d @ b) < 65536"
  shows "read_params (length d) (held (d @ b) t) = held b
    (t\<lparr>SentCommand := (SentCommand t)\<lparr>cmd_Data := take (5 - length d) (cmd_Data (SentCommand t)) @ d,
       cmd_DataSize := cmd_DataSize (SentCommand t) - of_nat (length d)\<rparr>\<rparr>)"
  using assms
proof (induction d arbitrary: t)
  case Nil
  then show ?case by (cases "SentCommand t") (simp add: held_def upd_ep_def)
next
  case (Cons x d)
  let ?c = "SentCommand t"
  let ?t = "t\<lparr>SentCommand := ?c\<lparr>cmd_Data := (cmd_Data ?c)[5 - Suc (length d) := x], cmd_DataSize := cmd_DataSize ?c - 1\<rparr>\<rparr>"
  have "(of_nat (length (x # d @ b)) :: u16) \<noteq> 0" using Cons.prems of_nat_word_eq_0 [of "length (x # d @ b)"] by simp
  moreover have "cur (held (x # d @ b) t) = (eps t 0)\<lparr>r_bank := x # d @ b, r_ueintx := set_bit RXOUTI (set_bit TXINI 0)\<rparr>"
    using Cons.prems by (intro cur_held)
  ultimately have "read_params (length (x # d)) (held ((x # d) @ b) t) = read_params (length d) (held (d @ b) ?t)"
    using Cons.prems read_held(1) [of t x "d @ b"] by (simp add: Endpoint_BytesInEndpoint_def Let_def held_fields)
  also have "\<dots> = held b (?t\<lparr>SentCommand := (SentCommand ?t)\<lparr>cmd_Data := take (5 - length d) (cmd_Data (SentCommand ?t)) @ d,
       cmd_DataSize := cmd_DataSize (SentCommand ?t) - of_nat (length d)\<rparr>\<rparr>)"
    using Cons.prems by (intro Cons.IH) simp_all
  also have "take (5 - length d) (cmd_Data (SentCommand ?t)) @ d = take (5 - length (x # d)) (cmd_Data ?c) @ x # d"
  proof -
    have "5 - length d = Suc (5 - Suc (length d))" "5 - Suc (length d) < length (cmd_Data ?c)" using Cons.prems by simp_all
    then show ?thesis by (simp add: take_Suc_conv_app_nth)
  qed
  finally show ?case by (simp add: algebra_simps)
qed

lemma dnload_command_held:
  fixes c :: u8
  assumes "dfu_ready t" "length (cmd_Data (SentCommand t)) = 5" "length d = 5" "length b \<le> 26" "cmd_DataSize (SentCommand t) \<noteq> 0"
  defines "u \<equiv> held b (t\<lparr>SentCommand := \<lparr>cmd_Command = c, cmd_Data = d, cmd_DataSize = cmd_DataSize (SentCommand t) - 6\<rparr>\<rparr>)"
  shows "dnload_command (deliver 0 (c # d @ b) # w) t =
    (case ProcessBootloaderCommand u of Inl e \<Rightarrow> Inl e | Inr s \<Rightarrow> Inr (True, s, w))"
proof -
  have u: "UENUM t = 0" using assms(1) by (simp add: ctl_out_ready_def)
  let ?t = "t\<lparr>SentCommand := (SentCommand t)\<lparr>cmd_Command := c, cmd_DataSize := cmd_DataSize (SentCommand t) - 1\<rparr>\<rparr>"
  have "read_params 5 (held (d @ b) ?t) = u"
    using read_params_held [of ?t d b] assms(2-4) u by (simp add: u_def diff_diff_add) (cases "SentCommand t", simp)
  moreover have "await_out (deliver 0 (c # d @ b) # w) t = Inr (True, held (c # d @ b) t, w)"
    using assms(3,4) by (intro await_held(2) [OF assms(1)]) simp
  ultimately show ?thesis
    using assms(5) read_held(1) [OF u, of c "d @ b"] by (simp add: dnload_command_def Let_def held_fields)
qed

lemma add_sent_dfu [simp]:
  "dfu_ready (add_sent ps t) = dfu_ready t" "SentCommand (add_sent ps t) = SentCommand t"
  "IsSecure (add_sent ps t) = IsSecure t" "WaitForExit (add_sent ps t) = WaitForExit t" "DFU_State (add_sent ps t) = DFU_State t"
  "RunBootloader (add_sent ps t) = RunBootloader t" "AppStartPtr (add_sent ps t) = AppStartPtr t"
  "Flash (add_sent ps t) = Flash t" "Flash64KBPage (add_sent ps t) = Flash64KBPage t"
  by (simp_all add: add_sent_def upd_ep_def ctl_out_ready_def ctl_out_def ep_is_control_def ep_is_in_def ep_size_def)

lemma ClearIN_dfu [simp]:
  "IsSecure (Endpoint_ClearIN t) = IsSecure t" "WaitForExit (Endpoint_ClearIN t) = WaitForExit t"
  "RunBootloader (Endpoint_ClearIN t) = RunBootloader t" "AppStartPtr (Endpoint_ClearIN t) = AppStartPtr t"
  "Flash (Endpoint_ClearIN t) = Flash t" "Eeprom (Endpoint_ClearIN t) = Eeprom t" "DFU_Status (Endpoint_ClearIN t) = DFU_Status t"
  by (simp_all add: Endpoint_ops_cur upd_cur_def upd_ep_def)

text \<open>The handler at work on a download request \<open>r\<close> of the host.\<close>

lemma DFU_dnload_pending:
  assumes "dfu_ready t" "bRequest r = DFU_DNLOAD"
  defines "t' \<equiv> t\<lparr>USB_ControlRequest := r, SentCommand := (SentCommand t)\<lparr>cmd_DataSize := wLength r\<rparr>\<rparr>"
  shows "DFU_UnhandledControlRequest w (pending r t) =
    (case (if WaitForExit t then
             (case ProcessBootloaderCommand t' of Inl e \<Rightarrow> Inl e | Inr s \<Rightarrow> Inr (s\<lparr>WaitForExit := False\<rparr>))
           else Inr t') of
       Inl e \<Rightarrow> Inl e
     | Inr s \<Rightarrow> bind_run (dnload_command w s) (\<lambda>ok s w.
         if \<not> ok then Inr ((), s, w)
         else bind_run (dnload_firmware w s) (\<lambda>ok s w.
           if \<not> ok then Inr ((), s, w) else Endpoint_ClearStatusStage w (Endpoint_ClearOUT s))))"
proof -
  have "ep_clear_setup ((eps t 0)\<lparr>r_ueintx := set_bit RXSTPI (set_bit TXINI 0)\<rparr>) = eps t 0"
    using assms(1) by (intro ep_clear_setup_idle) (simp_all add: ctl_out_ready_def ctl_out_def)
  then have c: "Endpoint_ClearSETUP (set_size (pending r t)) = t'"
    using assms(1)
    by (simp add: pending_def set_size_def t'_def Endpoint_ops_cur upd_cur_def upd_ep_def ctl_out_ready_def)
  have "WaitForExit t' = WaitForExit t" by (simp add: t'_def)
  then show ?thesis
    using assms(2) by (simp add: DFU_UnhandledControlRequest_cases request_dnload_def Let_def c)
qed

lemma flash_long_of_nat: "flash_long a p = of_nat (65536 * unat p + unat a)"
proof -
  have "ucast a AND push_bit 16 (ucast p) = (0 :: u32)" for a :: u16 and p :: u8
    by (intro bit_eqI) (auto simp: bit_simps dest: bit_imp_le_length)
  then have "flash_long a p = ucast a + push_bit 16 (ucast p)"
    unfolding flash_long_def by (intro disjunctive_add_eq_or [symmetric])
  then show ?thesis by (simp add: push_bit_eq_mult mult.commute add.commute)
qed

lemma dnload_firmware_flash:
  assumes t: "dfu_ready t" "DFU_State t = dfuDNLOAD_IDLE" "cmd_DataSize (SentCommand t) \<noteq> 0" "cmd_Data (SentCommand t) ! 0 = 0"
    and a: "256 dvd unat (StartAddr t)" "unat (StartAddr t) + length fw \<le> 65536" "unat (Flash64KBPage t) < 2"
      "unat (BytesRemaining t) = length fw"
    and l: "length filler = 26" "length suffix = 16" "length fw = 2 * Suc n"
    and m: "programming f P [] 0 (Flash t)" "P = 65536 * unat (Flash64KBPage t) + unat (StartAddr t)"
  shows "\<exists>c m. dnload_firmware (out32 (fw @ suffix) @ w) (held filler t) =
      Inr (True, held c (t\<lparr>StartAddr := EndAddr t, Flash := boot_rww_enable m\<rparr>), w) \<and> fl_mem m = flash_image 256 P fw f"
proof -
  have P: "256 dvd P" "P + length fw \<le> FLASH_BYTES" using a by (auto simp: m(2) FLASH_BYTES_def)
  have z: "P + length ([] :: u8 list) = P" "P + 0 = P" "(length ([] :: u8 list) - 0) div 2 = 0" by simp_all
  have "P + length ([] :: u8 list) + length fw \<le> FLASH_BYTES" using P(2) by simp
  from write_flash_words_programs [OF t(1) P(1) m(1), of "[]" "fw @ suffix" fw suffix n w, OF _ l(3) _ _ _ this]
  obtain b xs m' where w1: "write_flash_words (Suc n) (of_nat P) (of_nat P) 0 (out32 (fw @ suffix) @ w) (held [] t) =
      Inr (True, held b (t\<lparr>Flash := m'\<rparr>), out32 xs @ w)"
    "b @ xs = suffix" "length b \<le> 32" "fl_mem m' = flash_image 256 P fw f"
    using l by (auto simp: z)
  let ?t = "t\<lparr>StartAddr := EndAddr t, Flash := boot_rww_enable m'\<rparr>"
  have "length (b @ xs) = 16" using w1(2) l(2) by simp
  moreover from this have "length xs \<le> 32" by simp
  ultimately have e: "\<exists>c. discard_filler 16 (out32 xs @ w) (held b ?t) = Inr ((), held c ?t, w)"
    using discard_suffix [of ?t b xs 16 w] t(1) w1(3) by simp
  from e obtain c where c: "discard_filler 16 (out32 xs @ w) (held b ?t) = Inr ((), held c ?t, w)" by blast
  have f: "discard_filler 26 v (held filler t) = discard_filler 0 v (held [] t)" for v
    using discard_bytes [OF t(1), of filler "[]" 0 v] l(1) by simp
  have n: "unat (drop_bit 1 (BytesRemaining t)) = Suc n"
    using a(4) l(3) by (simp add: drop_bit_eq_div unat_div_distrib)
  have s: "unat (StartAddr t) mod SPM_PAGESIZE = 0" using a(1) by (simp add: SPM_PAGESIZE_def)
  have p: "flash_long (StartAddr t) (Flash64KBPage t) = of_nat P" by (simp add: flash_long_of_nat m(2))
  have "BytesRemaining (held b' t') = BytesRemaining t'" for b' t' by (simp add: BytesRemaining_def)
  then have "dnload_firmware (out32 (fw @ suffix) @ w) (held filler t) = Inr (True, held c ?t, w)"
    using t(2-4) f w1(1) c
    by (simp add: dnload_firmware_def DiscardFillerBytes_def DFU_FILLER_BYTES_SIZE_def DFU_FILE_SUFFIX_SIZE_def s p n
        IS_ONEBYTE_COMMAND_def dfu_rww_enable_def held_fields Let_def del: write_flash_words.simps One_nat_def)
  with w1(4) show ?thesis by blast
qed

text \<open>The header of a download of \<open>n\<close> bytes to the flash memory from address \<open>a\<close> on.\<close>

definition addr_bytes :: "u16 \<Rightarrow> u8 list" where
  "addr_bytes a = [ucast (drop_bit 8 a), ucast a]"

definition flash_params :: "u16 \<Rightarrow> nat \<Rightarrow> u8 list" where
  "flash_params a n = 0x00 # addr_bytes a @ addr_bytes (a + of_nat n - 1)"

lemma addr_bytes_word: "le_word (rev (addr_bytes a)) = a"
  using le_word_le_bytes_u16 [of a] by (simp add: addr_bytes_def le_bytes_2 del: le_word.simps le_word_le_bytes_u16)

lemma ProcessBootloaderCommand_program:
  assumes "\<not> IsSecure t" "cmd_Command (SentCommand t) = COMMAND_PROG_START" "cmd_Data (SentCommand t) = flash_params a n"
  shows "ProcessBootloaderCommand (held b t) = Inr (held b (t\<lparr>StartAddr := a, EndAddr := a + of_nat n - 1,
    Flash := boot_page_erase SPM_PAGESIZE (flash_at (flash_long a (Flash64KBPage t))) (Flash t), DFU_State := dfuDNLOAD_IDLE\<rparr>))"
  using assms addr_bytes_word [of a] addr_bytes_word [of "a + of_nat n - 1"]
  by (simp add: ProcessBootloaderCommand_def ProcessMemProgCommand_def LoadStartEndAddresses_def Let_def IS_ONEBYTE_COMMAND_def
      flash_params_def addr_bytes_def dfu_page_erase_def held_fields 
      del: le_word.simps)

lemma out_packets_first: "length xs = 32 \<Longrightarrow> out32 (xs @ ys) = deliver 0 xs # out32 ys"
  by (cases "xs = []") (simp_all add: out_packets_simps)

lemma programming_start:
  assumes "256 dvd P" "fl_buf m = (\<lambda>_. None)"
  shows "programming (fl_mem m) P [] 0 (boot_page_erase 256 P m)"
proof -
  have "\<forall>i. i div 256 \<noteq> P div 256 \<longrightarrow> flash_image 256 P [] (fl_mem m) i = fl_mem m i"
    using flash_image_Nil [OF assms(1)] by simp
  then show ?thesis using assms(2) by (simp add: programming_def buf_of_def fun_eq_iff)
qed

text \<open>C26: outside secure mode and with an empty page buffer, a download request of the host, its data stage in packets of 32
  bytes (the command with the address range, filler bytes, the firmware, a suffix), leaves in the flash memory exactly the
  firmware from the given address on, which starts a page, with the rest of its last page erased and everything else as it
  was; the memory is readable again and the status stage is answered. The firmware is a whole number of
  words and fits the 64 KB page selected.\<close>

theorem dfu_download_programs:
  assumes t: "dfu_ready t" "\<not> IsSecure t" "\<not> WaitForExit t" "length (cmd_Data (SentCommand t)) = 5"
      "fl_buf (Flash t) = (\<lambda>_. None)" "unat (Flash64KBPage t) < 2"
    and r: "bRequest r = DFU_DNLOAD" "bmRequestType r AND REQDIR_DEVICETOHOST = 0" "wLength r = of_nat (48 + length fw)"
    and fw: "256 dvd unat a" "fw \<noteq> []" "even (length fw)" "unat a + length fw \<le> 65536" "48 + length fw < 65536"
    and l: "length filler = 26" "length suffix = 16"
  shows "\<exists>s'. DFU_UnhandledControlRequest
        (out32 (COMMAND_PROG_START # flash_params a (length fw) @ filler @ fw @ suffix) @ w) (pending r t) = Inr ((), s', w) \<and>
      fl_mem (Flash s') = flash_image 256 (65536 * unat (Flash64KBPage t) + unat a) fw (fl_mem (Flash t)) \<and>
      \<not> fl_busy (Flash s') \<and> DFU_Status s' = DFU_Status t \<and> r_tx (eps s' 0) = Some []"
proof -
  define t1 where "t1 = t\<lparr>USB_ControlRequest := r, SentCommand := (SentCommand t)\<lparr>cmd_DataSize := wLength r\<rparr>\<rparr>"
  define P where "P = 65536 * unat (Flash64KBPage t) + unat a"
  define c where "c = \<lparr>cmd_Command = COMMAND_PROG_START, cmd_Data = flash_params a (length fw), cmd_DataSize = of_nat (42 + length fw)\<rparr>"
  define t2 where "t2 = t1\<lparr>SentCommand := c, StartAddr := a, EndAddr := a + of_nat (length fw) - 1,
    Flash := boot_page_erase 256 P (Flash t), DFU_State := dfuDNLOAD_IDLE\<rparr>"
  have t1: "dfu_ready t1" "\<not> IsSecure t1" "\<not> WaitForExit t1" "length (cmd_Data (SentCommand t1)) = 5"
    "Flash t1 = Flash t" "Flash64KBPage t1 = Flash64KBPage t" "cmd_DataSize (SentCommand t1) = wLength r"
    using t by (simp_all add: t1_def)
  have "unat a < 65536" using fw(2,4) by (cases fw) simp_all
  then have P: "256 dvd P" "P < FLASH_BYTES" using fw(1) t(6) by (simp_all add: P_def FLASH_BYTES_def)
  have sz: "(of_nat (48 + length fw) :: u16) \<noteq> 0" "(of_nat (42 + length fw) :: u16) \<noteq> 0"
    using fw(5) of_nat_word_eq_0 [of "48 + length fw"] of_nat_word_eq_0 [of "42 + length fw"] by simp_all
  have "dnload_command (deliver 0 (COMMAND_PROG_START # flash_params a (length fw) @ filler) # v) t1 =
      Inr (True, held filler t2, v)" for v
  proof -
    have "ProcessBootloaderCommand (held filler (t1\<lparr>SentCommand := c\<rparr>)) = Inr (held filler t2)"
      using t1(2) P flash_at_of_nat [OF P(2)]
      by (subst ProcessBootloaderCommand_program [of _ a "length fw"])
        (simp_all add: c_def t2_def flash_long_of_nat t1(5,6) SPM_PAGESIZE_def P_def)
    then show ?thesis
      using t1(1,4) l r(3) sz
      by (subst dnload_command_held) (simp_all add: t1(7) c_def flash_params_def addr_bytes_def)
  qed
  moreover have "length (COMMAND_PROG_START # flash_params a (length fw) @ filler) = 32"
    using l by (simp add: flash_params_def addr_bytes_def)
  ultimately have cmd: "dnload_command (out32 (COMMAND_PROG_START # flash_params a (length fw) @ filler @ fw @ suffix) @ w) t1 =
      Inr (True, held filler t2, out32 (fw @ suffix) @ w)"
    using out_packets_first [of "COMMAND_PROG_START # flash_params a (length fw) @ filler" "fw @ suffix"] by simp
  obtain n where n: "length fw = 2 * Suc n" using fw(2,3) by (metis evenE length_0_conv mult_0_right not0_implies_Suc)
  have "unat (BytesRemaining t2) = length fw"
    using fw(5) by (simp add: BytesRemaining_def t2_def unat_of_nat take_bit_nat_eq_self)
  then obtain b m where fin: "dnload_firmware (out32 (fw @ suffix) @ w) (held filler t2) =
      Inr (True, held b (t2\<lparr>StartAddr := EndAddr t2, Flash := boot_rww_enable m\<rparr>), w)"
      "fl_mem m = flash_image 256 P fw (fl_mem (Flash t))"
    using dnload_firmware_flash [of t2 fw filler suffix n "fl_mem (Flash t)" P w] t1 t fw l n sz programming_start [OF P(1) t(5)]
    by (auto simp: t2_def c_def P_def flash_params_def)
  let ?s = "t2\<lparr>StartAddr := EndAddr t2, Flash := boot_rww_enable m\<rparr>"
  have s: "dfu_ready ?s" "USB_ControlRequest ?s = r" using t1(1) by (simp_all add: t2_def t1_def)
  then have "DFU_UnhandledControlRequest (out32 (COMMAND_PROG_START # flash_params a (length fw) @ filler @ fw @ suffix) @ w)
      (pending r t) = Inr ((), Endpoint_ClearIN ?s, w)"
    unfolding DFU_dnload_pending [OF t(1) r(1), folded t1_def]
    using t(3) r(2) s cmd fin(1) status_ready [OF s(1), of w] ClearOUT_held [OF s(1)] by simp
  moreover have "r_tx (eps (Endpoint_ClearIN ?s) 0) = Some []"
    using s(1) ep_clear_in_control [of "eps ?s 0"] by (simp add: Endpoint_ops_cur upd_cur_def ctl_out_ready_def ctl_out_def)
  ultimately show ?thesis
    using fin(2) by (intro exI [of _ "Endpoint_ClearIN ?s"]) (simp add: boot_rww_enable_def P_def t2_def t1_def)
qed

section \<open>Starting the application\<close>

text \<open>The host has collected the status packet of the request before, and sends the next one.\<close>

definition next_request :: "usb_request \<Rightarrow> dfu \<Rightarrow> dfu" where
  "next_request r s = pending r (collect 0 s)"

definition start_params :: "u8 \<Rightarrow> u8 \<Rightarrow> u16 \<Rightarrow> u8 list" where
  "start_params k x a = [0x03, k, x] @ addr_bytes a"

lemma ProcessBootloaderCommand_start:
  assumes "\<not> IsSecure t" "SentCommand t = \<lparr>cmd_Command = COMMAND_WRITE, cmd_Data = start_params k x a, cmd_DataSize = 0\<rparr>" "k \<noteq> 0"
  shows "ProcessBootloaderCommand t = Inr (t\<lparr>WaitForExit := True, AppStartPtr := a, RunBootloader := False\<rparr>)"
  using assms addr_bytes_word [of a]
  by (simp add: ProcessBootloaderCommand_def ProcessWriteCommand_def Let_def IS_ONEBYTE_COMMAND_def dfu_command_defs
      start_params_def addr_bytes_def del: le_word.simps)

lemma dnload_firmware_idle:
  assumes "cmd_DataSize (SentCommand s) = 0"
  shows "dnload_firmware w s = Inr (True, if DFU_State s = dfuDNLOAD_IDLE then s\<lparr>DFU_State := dfuIDLE\<rparr> else s, w)"
  using assms by (simp add: dnload_firmware_def)

text \<open>A start command of the host (with a jump, to address \<open>a\<close>) takes two download requests: after the
  first, which carries the command, the boot loader runs on to answer it; after the second, which is empty, its
  main loop ends and the application is started at \<open>a\<close>.\<close>

lemma dfu_start_application:
  assumes t: "dfu_ready t" "\<not> IsSecure t" "\<not> WaitForExit t" "length (cmd_Data (SentCommand t)) = 5" "k \<noteq> 0"
    and r: "bRequest r = DFU_DNLOAD" "bmRequestType r AND REQDIR_DEVICETOHOST = 0" "wLength r = 6"
    and r': "bRequest r' = DFU_DNLOAD" "bmRequestType r' AND REQDIR_DEVICETOHOST = 0" "wLength r' = 0"
  shows "\<exists>s1 s2. DFU_UnhandledControlRequest (out32 (COMMAND_WRITE # start_params k x a) @ w) (pending r t) = Inr ((), s1, w) \<and>
      WaitForExit s1 \<and>
      DFU_UnhandledControlRequest w (next_request r' s1) = Inr ((), s2, w) \<and>
      dfu_loop 0 descriptors w s2 = Inr (Some a, s2, w) \<and> Flash s2 = Flash t"
proof -
  define c where "c = \<lparr>cmd_Command = COMMAND_WRITE, cmd_Data = start_params k x a, cmd_DataSize = 0\<rparr>"
  define t1 where "t1 = t\<lparr>USB_ControlRequest := r, SentCommand := (SentCommand t)\<lparr>cmd_DataSize := wLength r\<rparr>\<rparr>"
  define t2 where "t2 = t1\<lparr>SentCommand := c, WaitForExit := True, AppStartPtr := a, RunBootloader := False\<rparr>"
  define u where "u = (if DFU_State t2 = dfuDNLOAD_IDLE then t2\<lparr>DFU_State := dfuIDLE\<rparr> else t2)"
  define u1 where "u1 = (add_sent [[]] u)\<lparr>USB_ControlRequest := r', SentCommand := (SentCommand (add_sent [[]] u))\<lparr>cmd_DataSize := wLength r'\<rparr>\<rparr>"
  define u2 where "u2 = u1\<lparr>AppStartPtr := a, RunBootloader := False, WaitForExit := False\<rparr>"
  define v where "v = (if DFU_State u2 = dfuDNLOAD_IDLE then u2\<lparr>DFU_State := dfuIDLE\<rparr> else u2)"
  have ready: "dfu_ready t1" "dfu_ready t2" "dfu_ready u" "dfu_ready (add_sent [[]] u)" "dfu_ready u1" "dfu_ready u2" "dfu_ready v"
    using t(1) by (simp_all add: t1_def t2_def u_def u1_def u2_def v_def)
  have "ProcessBootloaderCommand (held [] (t1\<lparr>SentCommand := c\<rparr>)) = Inr (held [] t2)"
    using t(2,5) by (subst ProcessBootloaderCommand_start) (simp_all add: c_def t1_def t2_def held_fields)
  then have "dnload_command (deliver 0 (COMMAND_WRITE # start_params k x a) # w) t1 = Inr (True, held [] t2, w)"
    using dnload_command_held [OF ready(1), of "start_params k x a" "[]" COMMAND_WRITE w] t r(3)
    by (simp add: t1_def c_def start_params_def addr_bytes_def)
  then have cmd: "dnload_command (out32 (COMMAND_WRITE # start_params k x a) @ w) t1 = Inr (True, held [] t2, w)"
    by (simp add: out_packets_simps start_params_def addr_bytes_def)
  have fw: "dnload_firmware w (held [] t2) = Inr (True, held [] u, w)"
    by (subst dnload_firmware_idle) (simp_all add: t2_def c_def u_def held_fields)
  have st: "Endpoint_ClearStatusStage w u = Inr ((), Endpoint_ClearIN u, w)"
    using ready(3) r(2) by (intro status_ready) (simp_all add: u_def t2_def t1_def)
  have one: "DFU_UnhandledControlRequest (out32 (COMMAND_WRITE # start_params k x a) @ w) (pending r t) =
      Inr ((), Endpoint_ClearIN u, w)"
    unfolding DFU_dnload_pending [OF t(1) r(1), folded t1_def]
    using t(3) cmd fw st ready(3) by (simp add: ClearOUT_held)
  have "u1 = (add_sent [[]] u)\<lparr>USB_ControlRequest := r', SentCommand := c\<rparr>"
    using r'(3) by (simp add: u1_def u_def t2_def c_def)
  then have "ProcessBootloaderCommand u1 = Inr (u1\<lparr>WaitForExit := True, AppStartPtr := a, RunBootloader := False\<rparr>)"
    using t(2,5) by (intro ProcessBootloaderCommand_start [of u1 k x a]) (simp_all add: c_def u_def t2_def t1_def)
  moreover have "dnload_command w u2 = Inr (True, u2, w)" "dnload_firmware w u2 = Inr (True, v, w)"
    using r'(3) by (simp_all add: dnload_command_def dnload_firmware_idle v_def u2_def u1_def)
  moreover have "Endpoint_ClearStatusStage w v = Inr ((), Endpoint_ClearIN v, w)"
    using ready(7) r'(2) by (intro status_ready) (simp_all add: v_def u2_def u1_def)
  moreover have "WaitForExit (add_sent [[]] u)" by (simp add: u_def t2_def)
  ultimately have two: "DFU_UnhandledControlRequest w (next_request r' (Endpoint_ClearIN u)) = Inr ((), Endpoint_ClearIN v, w)"
    unfolding next_request_def collect_ready [OF ready(3)] DFU_dnload_pending [OF ready(4) r'(1), folded u1_def]
    using ready(7) by (simp add: ClearOUT_ready u2_def)
  have "WaitForExit u" "\<not> RunBootloader v" "\<not> WaitForExit v" "AppStartPtr v = a" "Flash v = Flash t"
    by (simp_all add: v_def u2_def u1_def u_def t2_def t1_def)
  with one two show ?thesis
    by (intro exI [of _ "Endpoint_ClearIN u"] exI [of _ "Endpoint_ClearIN v"]) simp
qed

section \<open>The read commands\<close>

text \<open>The boot loader looks up what a read command names without checking the index: a command reads
  outside its table exactly when it is a read of the boot loader's information with an index above 2, or of
  the signature with an index outside \<open>0x30\<close> to \<open>0x32\<close>, also in secure mode; otherwise the answer byte is
  the entry.\<close>

lemma dfu_read_index:
  "(ProcessBootloaderCommand s = Inl Fault \<longleftrightarrow> cmd_Command (SentCommand s) = COMMAND_READ \<and>
      (cmd_Data (SentCommand s) ! 0 = 0 \<and> 2 < cmd_Data (SentCommand s) ! 1 \<or>
       cmd_Data (SentCommand s) ! 0 = 1 \<and> cmd_Data (SentCommand s) ! 1 \<notin> {0x30, 0x31, 0x32})) \<and>
   (cmd_Command (SentCommand s) = COMMAND_READ \<and> cmd_Data (SentCommand s) ! 0 = 1 \<and> cmd_Data (SentCommand s) ! 1 = 0x30 + of_nat i \<and> i < 3 \<longrightarrow>
      ProcessBootloaderCommand s = Inr (s\<lparr>ResponseByte := AVR_SIGNATURE ! i\<rparr>))"
proof -
  let ?C = "cmd_Command (SentCommand s)" and ?D = "cmd_Data (SentCommand s)"
  have b: "uint b < 3 \<longleftrightarrow> \<not> 2 < b" "(0x30 \<le> uint b \<and> uint b < 0x33) \<longleftrightarrow> b \<in> {0x30, 0x31, 0x32}" for b :: u8
    by (auto simp: word_less_def word_uint_eq_iff)
  have p: "ProcessBootloaderCommand s = Inl Fault \<longleftrightarrow> ?C = COMMAND_READ \<and> ProcessReadCommand s = Inl Fault"
    by (auto simp: ProcessBootloaderCommand_def Let_def dfu_command_defs)
  have q: "ProcessReadCommand s = Inl Fault \<longleftrightarrow>
      ?D ! 0 = 0 \<and> \<not> uint (?D ! 1) < 3 \<or> ?D ! 0 = 1 \<and> \<not> (0x30 \<le> uint (?D ! 1) \<and> uint (?D ! 1) < 0x33)"
    by (auto simp: ProcessReadCommand_def Let_def IS_ONEBYTE_COMMAND_def table_read_def AVR_SIGNATURE_def)
  have "ProcessBootloaderCommand s = Inr (s\<lparr>ResponseByte := AVR_SIGNATURE ! i\<rparr>)"
    if "?C = COMMAND_READ" "?D ! 0 = 1" "?D ! 1 = 0x30 + of_nat i" "i < 3"
  proof -
    have "i = 0 \<or> i = 1 \<or> i = 2" using that(4) by auto
    then have "uint (?D ! 1) - 0x30 = int i" unfolding that(3) by auto
    then have "ProcessReadCommand s = Inr (s\<lparr>ResponseByte := AVR_SIGNATURE ! i\<rparr>)"
      using that(2,4) by (simp add: ProcessReadCommand_def Let_def IS_ONEBYTE_COMMAND_def table_read_def AVR_SIGNATURE_def)
    then show ?thesis using that(1) by (simp add: ProcessBootloaderCommand_def dfu_command_defs)
  qed
  then show ?thesis unfolding p q b by blast
qed

section \<open>Instances\<close>

definition dfu_demo :: dfu where
  "dfu_demo = dfu_init (dev_reset\<lparr>USB_DeviceState := 4,
       eps := (\<lambda>_. ep_none)(0 := ep_none\<lparr>r_ueconx := 1, r_uecfg1x := 0x22, r_ueintx := 1\<rparr>)\<rparr>)
     \<lparr>fl_mem = (\<lambda>_. 0x12), fl_buf = (\<lambda>_. None), fl_busy = False, fl_junk = (\<lambda>_. 0)\<rparr> (\<lambda>_. 0xFF)"

definition dnload_demo :: "u16 \<Rightarrow> usb_request" where
  "dnload_demo n = \<lparr>bmRequestType = 0x21, bRequest = DFU_DNLOAD, wValue = 0, wIndex = 0, wLength = n\<rparr>"

lemma dfu_demo_simps:
  "dfu_ready dfu_demo" "\<not> IsSecure dfu_demo" "\<not> WaitForExit dfu_demo" "length (cmd_Data (SentCommand dfu_demo)) = 5"
  "fl_buf (Flash dfu_demo) = (\<lambda>_. None)" "unat (Flash64KBPage dfu_demo) = 0" "fl_mem (Flash dfu_demo) = (\<lambda>_. 0x12)"
  "DFU_State dfu_demo = dfuIDLE"
  by (simp_all add: dfu_demo_def dfu_init_def ctl_out_ready_def ctl_out_def dev_reset_def hw_reset_def usb_hw.defs usb_dev.defs ep_none_def
      ep_is_control_def ep_is_in_def ep_size_def reg_bits device_state_defs SECURE_MODE_def drop_bit_eq_div take_bit_eq_mod
      and_exp_eq_0_iff_not_bit)

theorem dfu_download_programs_witness:
  "\<exists>s'. DFU_UnhandledControlRequest
      (out32 (COMMAND_PROG_START # flash_params 0x100 2 @ replicate 26 0 @ [0xAA, 0xBB] @ replicate 16 0))
      (pending (dnload_demo 50) dfu_demo) = Inr ((), s', []) \<and>
    fl_mem (Flash s') 0x101 = 0xBB \<and> fl_mem (Flash s') 0x102 = 0xFF \<and> fl_mem (Flash s') 0x200 = 0x12"
proof -
  define fw :: "u8 list" where "fw = [0xAA, 0xBB]"
  have fw: "length fw = 2" "fw \<noteq> []" by (simp_all add: fw_def)
  obtain s' where "DFU_UnhandledControlRequest
      (out32 (COMMAND_PROG_START # flash_params 0x100 2 @ replicate 26 0 @ fw @ replicate 16 0) @ [])
      (pending (dnload_demo 50) dfu_demo) = Inr ((), s', [])" "fl_mem (Flash s') = flash_image 256 256 fw (\<lambda>_. 0x12)"
    using dfu_download_programs [of dfu_demo "dnload_demo 50" fw "0x100" "replicate 26 0" "replicate 16 0" "[]"]
      dfu_demo_simps fw
    by (auto simp: dnload_demo_def REQDIR_DEVICETOHOST_def)
  then show ?thesis by (intro exI [of _ s']) (simp add: flash_image_def fw_def)
qed

lemma dfu_start_application_instance:
  "\<exists>s1 s2. DFU_UnhandledControlRequest (out32 (COMMAND_WRITE # start_params 1 0 0x1234)) (pending (dnload_demo 6) dfu_demo) =
      Inr ((), s1, []) \<and> WaitForExit s1 \<and>
    DFU_UnhandledControlRequest [] (next_request (dnload_demo 0) s1) = Inr ((), s2, []) \<and>
    dfu_loop 0 (\<lambda>_ _. ([], 0)) [] s2 = Inr (Some 0x1234, s2, [])"
proof -
  obtain s1 s2 where "DFU_UnhandledControlRequest (out32 (COMMAND_WRITE # start_params 1 0 0x1234) @ []) (pending (dnload_demo 6) dfu_demo) =
      Inr ((), s1, [])" "WaitForExit s1" "DFU_UnhandledControlRequest [] (next_request (dnload_demo 0) s1) = Inr ((), s2, [])"
    "dfu_loop 0 (\<lambda>_ _. ([], 0)) [] s2 = Inr (Some 0x1234, s2, [])"
    using dfu_start_application [of dfu_demo 1 "dnload_demo 6" "dnload_demo 0" 0 "0x1234" "[]" "\<lambda>_ _. ([], 0)"] dfu_demo_simps
    by (auto simp: dnload_demo_def REQDIR_DEVICETOHOST_def simp del: dfu_loop.simps)
  then show ?thesis by (intro exI [of _ s1] exI [of _ s2]) simp
qed

definition read_demo :: "u8 \<Rightarrow> u8 \<Rightarrow> dfu" where
  "read_demo k i = dfu_demo\<lparr>IsSecure := True, SentCommand := \<lparr>cmd_Command = COMMAND_READ, cmd_Data = [k, i, 0, 0, 0], cmd_DataSize = 0\<rparr>\<rparr>"

lemma dfu_read_index_instance:
  "ProcessBootloaderCommand (read_demo 0 3) = Inl Fault \<and> ProcessBootloaderCommand (read_demo 1 0x2F) = Inl Fault \<and>
   ProcessBootloaderCommand (read_demo 1 0x31) = Inr ((read_demo 1 0x31)\<lparr>ResponseByte := 0x97\<rparr>)"
  using dfu_read_index [of "read_demo 0 3" 0] dfu_read_index [of "read_demo 1 0x2F" 0] dfu_read_index [of "read_demo 1 0x31" 1]
  by (simp add: read_demo_def AVR_SIGNATURE_def)

definition secure_demo :: dfu where
  "secure_demo = (pending \<lparr>bmRequestType = 0x21, bRequest = DFU_CLRSTATUS, wValue = 0, wIndex = 0, wLength = 0\<rparr> dfu_demo)
     \<lparr>IsSecure := True, SentCommand := \<lparr>cmd_Command = COMMAND_WRITE, cmd_Data = [0, 0xFF, 0, 0, 0], cmd_DataSize = 0\<rparr>\<rparr>"

lemma secure_demo_simps:
  "locked secure_demo" "fl_buf (Flash secure_demo) = (\<lambda>_. None)" "Flash secure_demo = Flash dfu_demo"
  using dfu_demo_simps by (simp_all add: secure_demo_def locked_def dfu_state_defs pending_def upd_ep_def)

lemma secure_demo_erase:
  "ProcessBootloaderCommand secure_demo = Inr ((dfu_rww_enable (erase_pages 0 secure_demo))\<lparr>IsSecure := False\<rparr>)"
  by (simp add: ProcessBootloaderCommand_def ProcessWriteCommand_def secure_demo_def Let_def IS_ONEBYTE_COMMAND_def
      IS_TWOBYTE_COMMAND_def dfu_command_defs)

lemma secure_demo_run: "\<exists>t. secure_run secure_demo [Request []] t"
proof -
  let ?t = "(Endpoint_ClearSETUP (set_size secure_demo))\<lparr>DFU_Status := DFU_OK\<rparr>"
  have ctl: "ctl_out 32 (eps dfu_demo 0)" "UENUM dfu_demo = 0" using dfu_demo_simps(1) by (simp_all add: ctl_out_ready_def)
  then have "ep_clear_setup ((eps dfu_demo 0)\<lparr>r_ueintx := set_bit RXSTPI (set_bit TXINI 0)\<rparr>) = eps dfu_demo 0"
    by (intro ep_clear_setup_idle) (simp_all add: ctl_out_def)
  then have "Endpoint_IsINReady ?t" "bmRequestType (USB_ControlRequest ?t) = 0x21"
    using ctl by (simp_all add: secure_demo_def set_size_def pending_def Endpoint_ops_cur upd_cur_def upd_ep_def Endpoint_flags cur_def
        ctl_out_def bit_exp_iff)
  then have "Endpoint_ClearStatusStage [] ?t = Inr ((), Endpoint_ClearIN ?t, [])"
    by (simp add: Endpoint_ClearStatusStage_def await_in_def poll_until_exit REQDIR_DEVICETOHOST_def)
  then have "DFU_UnhandledControlRequest [] secure_demo = Inr ((), Endpoint_ClearIN ?t, [])"
    by (simp add: DFU_UnhandledControlRequest_cases answer_def dfu_request_defs secure_demo_def)
  moreover have "IsSecure (Endpoint_ClearIN ?t)" by (simp add: set_size_def secure_demo_def)
  ultimately have "secure_run secure_demo ([] @ [Request []]) (Endpoint_ClearIN ?t)"
    using secure_run.request [OF secure_run.start [of secure_demo], of "[]"] by simp
  then show ?thesis by auto
qed

theorem dfu_secure_mode_witness:
  "(\<exists>t. secure_run secure_demo [Request []] t \<and> Flash t = Flash dfu_demo) \<and>
   fl_mem (Flash ((dfu_rww_enable (erase_pages 0 secure_demo))\<lparr>IsSecure := False\<rparr>)) 5 = 0xFF"
proof -
  obtain t where t: "secure_run secure_demo [Request []] t" using secure_demo_run by blast
  let ?u = "(dfu_rww_enable (erase_pages 0 secure_demo))\<lparr>IsSecure := False\<rparr>"
  have "\<not> IsSecure ?u" by simp
  then show ?thesis
    using dfu_secure_mode [OF secure_demo_simps(1), of "[Request []]" t ?u] t secure_demo_erase secure_demo_simps(2,3)
    by (intro conjI exI [of _ t]) simp_all
qed

end
