(* ===== verification/TeensyBoot.thy ===== *)
theory TeensyBoot
  imports FlashMem ControlOut
begin

text \<open>
  The HID boot loader of the Teensy boards, \<open>Bootloaders/TeensyHID/TeensyHID.c\<close>: the host sends a report of
  an address and a page of firmware, as the data stage of a SetReport request. The processors the code
  accepts differ in the size of a page and of the flash memory (\<open>part\<close>). Setting up and resetting the
  processor are left out. What the handler achieves, and that it hangs on one of the two processors.
\<close>

section \<open>The program\<close>

record part =
  part_page :: nat
  part_flash :: nat

definition AT90USB162 :: part where "AT90USB162 = \<lparr>part_page = 128, part_flash = 0x4000\<rparr>"
definition AT90USB646 :: part where "AT90USB646 = \<lparr>part_page = 256, part_flash = 0x10000\<rparr>"

definition REQ_SetReport :: u8 where "REQ_SetReport = 0x09"
definition TEENSY_STARTAPPLICATION :: u16 where "TEENSY_STARTAPPLICATION = 0xFFFF"
definition REQTYPE_CLASS :: u8 where "REQTYPE_CLASS = push_bit 5 1"
definition EP_TYPE_INTERRUPT :: u8 where "EP_TYPE_INTERRUPT = 0x03"
definition HID_EPNUM :: u8 where "HID_EPNUM = 1"
definition HID_EPSIZE :: u16 where "HID_EPSIZE = 64"

record teensy = usb_dev +
  teensy_Flash :: flash
  teensy_RunBootloader :: bool

definition teensy_start :: "usb_dev \<Rightarrow> flash \<Rightarrow> teensy" where
  "teensy_start u f = usb_dev.extend u \<lparr>teensy_Flash = f, teensy_RunBootloader = True\<rparr>"

definition teensy_flash :: "(flash \<Rightarrow> flash) \<Rightarrow> teensy \<Rightarrow> teensy" where
  "teensy_flash f s = s\<lparr>teensy_Flash := f (teensy_Flash s)\<rparr>"

text \<open>The build defines \<open>CONTROL_ONLY_DEVICE\<close>.\<close>

definition teensy_ConfigurationChanged :: "teensy \<Rightarrow> stop + teensy" where
  "teensy_ConfigurationChanged s =
     (case ctl_only_ConfigureEndpoint HID_EPNUM EP_TYPE_INTERRUPT ENDPOINT_DIR_IN HID_EPSIZE ENDPOINT_BANK_SINGLE s of
        Inl e \<Rightarrow> Inl e | Inr (_, s) \<Rightarrow> Inr s)"

text \<open>\<open>while (!(Endpoint_IsOUTReceived()));\<close>, which has no test for a detached device.\<close>

definition await_packet :: "teensy world \<Rightarrow> teensy \<Rightarrow> (teensy, unit) run" where
  "await_packet = poll_until (\<lambda>_ s. if Endpoint_IsOUTReceived s then Inl ((), s) else Inr ((), s)) ()"

definition next_packet :: "teensy world \<Rightarrow> teensy \<Rightarrow> (teensy, unit) run" where
  "next_packet w s =
     (if Endpoint_BytesInEndpoint s = 0 then await_packet w (Endpoint_ClearOUT s) else Inr ((), s, w))"

text \<open>
  \<open>for (uint8_t PageByte = 0; PageByte < SPM_PAGESIZE; PageByte += 2)\<close>. After 128 rounds \<open>PageByte\<close> is back at its
  first value and the test, which depends on nothing else, comes out as before: a loop that has not ended
  then never ends, \<open>Hang\<close>.
\<close>

fun teensy_fill :: "nat \<Rightarrow> part \<Rightarrow> u16 \<Rightarrow> u8 \<Rightarrow> teensy world \<Rightarrow> teensy \<Rightarrow> (teensy, unit) run" where
  "teensy_fill 0 p PageAddress PageByte w s = Inl Hang"
| "teensy_fill (Suc n) p PageAddress PageByte w s =
     (if unat PageByte < part_page p then
        bind_run (next_packet w s) (\<lambda>_ s w.
          case Endpoint_Read_Word_LE s of (v, s) \<Rightarrow>
            teensy_fill n p PageAddress (PageByte + 2) w
              (teensy_flash (boot_page_fill (part_page p) (unat (PageAddress + ucast PageByte) mod part_flash p) v) s))
      else Inr ((), s, w))"

definition teensy_program :: "part \<Rightarrow> u16 \<Rightarrow> teensy world \<Rightarrow> teensy \<Rightarrow> (teensy, unit) run" where
  "teensy_program p PageAddress w s =
     (let a = unat PageAddress mod part_flash p
      in bind_run (teensy_fill 129 p PageAddress 0 w (teensy_flash (boot_page_erase (part_page p) a) s)) (\<lambda>_ s w.
           Inr ((), teensy_flash boot_rww_enable (teensy_flash (boot_page_write (part_page p) a) s), w)))"

definition teensy_UnhandledControlRequest :: "part \<Rightarrow> teensy world \<Rightarrow> teensy \<Rightarrow> (teensy, unit) run" where
  "teensy_UnhandledControlRequest p w s =
     (if bRequest (USB_ControlRequest s) = REQ_SetReport \<and>
         bmRequestType (USB_ControlRequest s) = REQDIR_HOSTTODEVICE OR REQTYPE_CLASS OR REQREC_INTERFACE
      then
        bind_run (await_packet w (Endpoint_ClearSETUP s)) (\<lambda>_ s w.
          case Endpoint_Read_Word_LE s of (PageAddress, s) \<Rightarrow>
            bind_run (if PageAddress = TEENSY_STARTAPPLICATION then Inr ((), s\<lparr>teensy_RunBootloader := False\<rparr>, w)
                      else teensy_program p PageAddress w s)
              (\<lambda>_ s w. Endpoint_ClearStatusStage w (Endpoint_ClearOUT s)))
      else Inr ((), s, w))"

definition teensy_app :: "part \<Rightarrow> (u16 \<Rightarrow> u8 \<Rightarrow> u8 list \<times> u16) \<Rightarrow> teensy app" where
  "teensy_app p descriptors =
     \<lparr>app_config = teensy_ConfigurationChanged, app_unhandled = teensy_UnhandledControlRequest p, app_descriptor = descriptors\<rparr>"

text \<open>\<open>while (RunBootloader) USB_USBTask();\<close>, cut after \<open>n\<close> passes; the result tells whether the loop was left.\<close>

fun teensy_loop :: "nat \<Rightarrow> teensy app \<Rightarrow> teensy world \<Rightarrow> teensy \<Rightarrow> (teensy, bool) run" where
  "teensy_loop 0 app w s = Inr (\<not> teensy_RunBootloader s, s, w)"
| "teensy_loop (Suc n) app w s =
     (if teensy_RunBootloader s then bind_run (USB_USBTask app w s) (\<lambda>_ s w. teensy_loop n app w s) else Inr (True, s, w))"

section \<open>The data stage\<close>

lemma teensy_ready_fields [simp]:
  "ctl_out_ready sz (teensy_flash f t) = ctl_out_ready sz t"
  "ctl_out_ready sz (t\<lparr>teensy_RunBootloader := x\<rparr>) = ctl_out_ready sz t"
  by (simp_all add: ctl_out_ready_def teensy_flash_def)

lemma held_teensy [simp]:
  "teensy_Flash (held b t) = teensy_Flash t" "teensy_RunBootloader (held b t) = teensy_RunBootloader t"
  "(held b t)\<lparr>teensy_RunBootloader := x\<rparr> = held b (t\<lparr>teensy_RunBootloader := x\<rparr>)"
  "teensy_flash f (held b t) = held b (teensy_flash f t)"
  by (simp_all add: held_def upd_ep_def teensy_flash_def)

lemma teensy_flash_simps [simp]:
  "teensy_Flash (teensy_flash f t) = f (teensy_Flash t)" "UENUM (teensy_flash f t) = UENUM t"
  "USB_ControlRequest (teensy_flash f t) = USB_ControlRequest t" "teensy_RunBootloader (teensy_flash f t) = teensy_RunBootloader t"
  by (simp_all add: teensy_flash_def)

lemma await_packet_held:
  assumes "ctl_out_ready sz t"
  shows "await_packet w (held b t) = Inr ((), held b t, w)"
    "length p \<le> sz \<Longrightarrow> await_packet (deliver 0 p # w) t = Inr ((), held p t, w)"
  using assms held_flags [OF assms] deliver_ready [OF assms]
  by (simp_all add: await_packet_def poll_until_exit poll_until_round [of _ _ _ "()"])

lemma next_packet_held:
  assumes "ctl_out_ready 8 t"
  shows "b \<noteq> [] \<Longrightarrow> length b \<le> 8 \<Longrightarrow> next_packet w (held b t) = Inr ((), held b t, w)"
    "length p \<le> 8 \<Longrightarrow> next_packet (deliver 0 p # w) (held [] t) = Inr ((), held p t, w)"
  using held_flags [OF assms] ClearOUT_held [OF assms] await_packet_held(2) [OF assms] of_nat_word_eq_0 [of "length b"]
  by (simp_all add: next_packet_def)

interpretation teensy_out: packet_source 8 next_packet "()"
  by unfold_locales (simp_all add: next_packet_held)

section \<open>Programming a page\<close>

text \<open>After the bytes \<open>d\<close>, \<open>n\<close> words are missing to a page.\<close>

lemma teensy_fill_page:
  assumes "ctl_out_ready 8 t" "fl_buf (teensy_Flash t) = buf_of d" "even (length d)" "length d + 2 * n = part_page p" "part_page p < 256"
    "b @ xs = e" "length e = 2 * n" "even (length b)" "even (length xs)" "length b \<le> 8"
    "part_page p dvd unat a" "unat a + part_page p \<le> part_flash p" "part_flash p \<le> 0x10000" "n < k"
  shows "\<exists>m. teensy_fill k p a (of_nat (length d)) (out_packets 8 xs @ w) (held b t) = Inr ((), held [] (teensy_flash (\<lambda>_. m) t), w) \<and>
    fl_mem m = fl_mem (teensy_Flash t) \<and> fl_buf m = buf_of (d @ e)"
  using assms
proof (induction n arbitrary: t d b xs e k)
  case (0 t d b xs e k)
  then obtain k' where k: "k = Suc k'" by (cases k) auto
  have "unat (of_nat (length d) :: u8) = part_page p" using 0 by (simp add: unat_of_nat take_bit_nat_eq_self)
  then show ?case
    using 0 by (intro exI [of _ "teensy_Flash t"]) (simp add: k teensy_flash_def out_packets_simps)
next
  case (Suc n t d b xs e k)
  obtain k' where k: "k = Suc k'" "n < k'" using Suc.prems(14) by (cases k) auto
  obtain x y e' where e: "e = x # y # e'" "length e' = 2 * n" using Suc.prems(7) by (cases e; cases "tl e") auto
  obtain b' xs' where b': "next_packet (out_packets 8 xs @ w) (held b t) = Inr ((), held (x # y # b') t, out_packets 8 xs' @ w)"
    "b' @ xs' = e'" "even (length b')" "even (length xs')" "length b' + 2 \<le> 8"
    using teensy_out.fetch_word [OF Suc.prems(1), of b xs x y e' w] Suc.prems(6,8-10) unfolding e by blast
  have pb: "unat (of_nat (length d) :: u8) = length d" "length d < part_page p" "length d < 256"
    using Suc.prems(4,5) by (simp_all add: unat_of_nat take_bit_nat_eq_self)
  have "unat (a + ucast (of_nat (length d) :: u8)) = unat a + length d"
    using pb Suc.prems(12,13) by (simp add: unat_word_ariths unsigned_ucast_eq take_bit_nat_eq_self)
  then have ad: "unat (a + ucast (of_nat (length d) :: u8)) mod part_flash p mod part_page p = length d"
    using pb Suc.prems(11,12) by auto
  let ?f = "boot_page_fill (part_page p) (unat (a + ucast (of_nat (length d) :: u8)) mod part_flash p) (le_word [x, y])"
  have f: "?f (teensy_Flash t) = (teensy_Flash t)\<lparr>fl_buf := buf_of (d @ [x, y])\<rparr>"
    using boot_page_fill_buf_of [OF Suc.prems(2,3) ad, of x y] .
  have s2: "(of_nat (length d) :: u8) + 2 = of_nat (length (d @ [x, y]))" by simp
  have u: "UENUM t = 0" using Suc.prems(1) by (simp add: ctl_out_ready_def)
  have "\<exists>m. teensy_fill k' p a (of_nat (length (d @ [x, y]))) (out_packets 8 xs' @ w) (held b' (teensy_flash ?f t)) =
      Inr ((), held [] (teensy_flash (\<lambda>_. m) (teensy_flash ?f t)), w) \<and>
      fl_mem m = fl_mem (teensy_Flash (teensy_flash ?f t)) \<and> fl_buf m = buf_of ((d @ [x, y]) @ e')"
    using Suc.prems b' e k by (intro Suc.IH) (simp_all add: f del: le_word.simps)
  then obtain m where m: "teensy_fill k' p a (of_nat (length (d @ [x, y]))) (out_packets 8 xs' @ w) (held b' (teensy_flash ?f t)) =
      Inr ((), held [] (teensy_flash (\<lambda>_. m) (teensy_flash ?f t)), w)" "fl_mem m = fl_mem (teensy_Flash t)" "fl_buf m = buf_of (d @ e)"
    by (auto simp: f e simp del: le_word.simps)
  have "teensy_flash (\<lambda>_. m) (teensy_flash ?f t) = teensy_flash (\<lambda>_. m) t" by (simp add: teensy_flash_def)
  then show ?case
    using m b'(1) pb read_held(2) [OF u, of x y b'] unfolding k s2 [symmetric]
    by (intro exI [of _ m]) (simp del: le_word.simps)
qed

text \<open>
  A SetReport request with the address of a page and its contents, in packets of eight bytes, on a part with
  pages of less than 256 bytes.
\<close>

lemma teensy_page_packets:
  assumes "ctl_out_ready 8 t" "fl_buf (teensy_Flash t) = (\<lambda>_. None)"
    and p: "0 < part_page p" "even (part_page p)" "part_page p < 256" "part_flash p \<le> 0x10000"
    and a: "part_page p dvd unat a" "unat a + part_page p \<le> part_flash p"
    and d: "b @ xs = d" "length d = part_page p" "even (length b)" "even (length xs)" "length b \<le> 8"
  shows "\<exists>m. teensy_program p a (out_packets 8 xs @ w) (held b t) =
      Inr ((), held [] (teensy_flash (\<lambda>_. boot_rww_enable m) t), w) \<and> fl_mem m = flash_image (part_page p) (unat a) d (fl_mem (teensy_Flash t))"
proof -
  let ?e = "boot_page_erase (part_page p) (unat a)"
  have ad: "unat a mod part_flash p = unat a" using p(1) a(2) by simp
  have "buf_of [] = (\<lambda>_. None)" by (simp add: buf_of_def fun_eq_iff)
  moreover have "part_page p div 2 < 129" using p(3) by simp
  ultimately obtain m where m: "teensy_fill 129 p a 0 (out_packets 8 xs @ w) (held b (teensy_flash ?e t)) =
      Inr ((), held [] (teensy_flash (\<lambda>_. m) (teensy_flash ?e t)), w)"
    "fl_mem m = fl_mem (?e (teensy_Flash t))" "fl_buf m = buf_of d"
    using teensy_fill_page [of "teensy_flash ?e t" "[]" "part_page p div 2" p b xs d a 129 w] assms by auto
  have "fl_mem (boot_page_write (part_page p) (unat a) m) = flash_image (part_page p) (unat a) d (fl_mem (teensy_Flash t))"
    using flash_page_image [of "part_page p" "unat a" d m "teensy_Flash t"] m p a d by simp
  moreover have "teensy_flash boot_rww_enable (teensy_flash f (teensy_flash (\<lambda>_. m) (teensy_flash ?e t))) =
      teensy_flash (\<lambda>_. boot_rww_enable (f m)) t" for f
    by (simp add: teensy_flash_def)
  ultimately show ?thesis
    using m(1) by (intro exI [of _ "boot_page_write (part_page p) (unat a) m"]) (simp add: teensy_program_def ad Let_def)
qed

lemma teensy_request_pending:
  assumes "ctl_out_ready 8 t"
  shows "Endpoint_ClearSETUP (pending r t) = t\<lparr>USB_ControlRequest := r\<rparr>" "USB_ControlRequest (pending r t) = r"
proof -
  have u: "UENUM t = 0" "ctl_out 8 (eps t 0)" using assms by (simp_all add: ctl_out_ready_def)
  have "ep_clear_setup ((eps t 0)\<lparr>r_ueintx := set_bit RXSTPI (set_bit TXINI 0)\<rparr>) = eps t 0"
    using u(2) by (intro ep_clear_setup_idle) (simp_all add: ctl_out_def)
  then show "Endpoint_ClearSETUP (pending r t) = t\<lparr>USB_ControlRequest := r\<rparr>" "USB_ControlRequest (pending r t) = r"
    using u(1) by (simp_all add: pending_def Endpoint_ops_cur upd_cur_def upd_ep_def)
qed

text \<open>C27: while endpoint 0 is still a control endpoint, that is before the device is configured (C28), a SetReport request
  whose data is the address of a page inside the flash memory and the page for it, in packets of 8 bytes, programs that page:
  the flash then holds the page at that address and is otherwise unchanged, the request is answered, and the boot loader
  keeps running. The page buffer is empty before, and the page length is even and below 256, which it is on the
  AT90USB162; on the AT90USB646, with pages of 256 bytes, the loop over the page never ends (lemma
  \<open>teensy_program_hangs\<close>).\<close>

theorem teensy_programs_page:
  fixes a :: u16
  assumes t: "ctl_out_ready 8 t" "fl_buf (teensy_Flash t) = (\<lambda>_. None)"
    and r: "bRequest r = REQ_SetReport" "bmRequestType r = 0x21"
    and p: "0 < part_page p" "even (part_page p)" "part_page p < 256" "part_flash p \<le> 0x10000"
    and a: "part_page p dvd unat a" "unat a + part_page p \<le> part_flash p" "length d = part_page p"
  shows "\<exists>s'. teensy_UnhandledControlRequest p (out_packets 8 (le_bytes 2 a @ d) @ w) (pending r t) = Inr ((), s', w) \<and>
    fl_mem (teensy_Flash s') = flash_image (part_page p) (unat a) d (fl_mem (teensy_Flash t)) \<and>
    \<not> fl_busy (teensy_Flash s') \<and> teensy_RunBootloader s' = teensy_RunBootloader t \<and> r_tx (eps s' 0) = Some []"
proof -
  let ?t = "t\<lparr>USB_ControlRequest := r\<rparr>"
  have u: "UENUM ?t = 0" using t(1) by (simp add: ctl_out_ready_def)
  have t': "ctl_out_ready 8 ?t" "fl_buf (teensy_Flash ?t) = (\<lambda>_. None)" using t by simp_all
  obtain x y where xy: "le_bytes 2 a = [x, y]" "le_word [x, y] = a"
    using le_word_le_bytes_u16 [of a] by (simp add: le_bytes_2 del: le_word.simps le_word_le_bytes_u16)
  let ?b = "take 6 d" and ?xs = "drop 6 d"
  have pk: "out_packets 8 (le_bytes 2 a @ d) = deliver 0 (x # y # ?b) # out_packets 8 ?xs"
    unfolding xy using out_packets_simps(2) [of "[x, y] @ d" 8] by (simp add: take_Cons' drop_Cons')
  have w1: "await_packet (deliver 0 (x # y # ?b) # v) ?t = Inr ((), held (x # y # ?b) ?t, v)" for v
    using await_packet_held(2) [OF t'(1), of "x # y # ?b" v] by simp
  have na: "a \<noteq> TEENSY_STARTAPPLICATION"
  proof
    assume "a = TEENSY_STARTAPPLICATION"
    then have "unat a = 65535" by (simp add: TEENSY_STARTAPPLICATION_def)
    moreover have "even (unat a)" using p(2) a(1) by (rule dvd_trans)
    ultimately show False by simp
  qed
  have ev: "even (length ?b)" "even (length ?xs)" "length ?b \<le> 8" using p(2) a(3) by (simp_all add: min_def)
  obtain m where m: "teensy_program p a (out_packets 8 ?xs @ w) (held ?b ?t) =
      Inr ((), held [] (teensy_flash (\<lambda>_. boot_rww_enable m) ?t), w)" "fl_mem m = flash_image (part_page p) (unat a) d (fl_mem (teensy_Flash t))"
    using teensy_page_packets [OF t' p a(1,2), of ?b ?xs d w] a(3) ev by auto
  let ?s = "teensy_flash (\<lambda>_. boot_rww_enable m) ?t"
  have s: "ctl_out_ready 8 ?s" "USB_ControlRequest ?s = r" using t'(1) by simp_all
  have "teensy_UnhandledControlRequest p (out_packets 8 (le_bytes 2 a @ d) @ w) (pending r t) = Inr ((), Endpoint_ClearIN ?s, w)"
    using r na m(1) s status_ready [OF s(1), of w] ClearOUT_held [OF s(1), of "[]"] read_held(2) [OF u, of x y ?b] xy(2)
    by (simp add: teensy_UnhandledControlRequest_def teensy_request_pending [OF t(1)] pk w1 REQDIR_HOSTTODEVICE_def
        REQTYPE_CLASS_def REQREC_INTERFACE_def REQDIR_DEVICETOHOST_def del: le_word.simps)
  moreover have "r_tx (eps (Endpoint_ClearIN ?s) 0) = Some []"
    using s(1) ep_clear_in_control [of "eps ?s 0"] by (simp add: Endpoint_ops_cur upd_cur_def ctl_out_ready_def ctl_out_def)
  moreover have "teensy_Flash (Endpoint_ClearIN ?s) = boot_rww_enable m" "teensy_RunBootloader (Endpoint_ClearIN ?s) = teensy_RunBootloader t"
    by (simp_all add: Endpoint_ops_cur upd_cur_def upd_ep_def)
  ultimately show ?thesis
    using m(2) by (intro exI [of _ "Endpoint_ClearIN ?s"]) (simp add: boot_rww_enable_def)
qed

section \<open>Starting the application\<close>

lemma teensy_starts_application:
  assumes "ctl_out_ready 8 t" "bRequest r = REQ_SetReport" "bmRequestType r = 0x21" "length d \<le> 6"
  shows "\<exists>s'. teensy_UnhandledControlRequest p (deliver 0 (0xFF # 0xFF # d) # w) (pending r t) = Inr ((), s', w) \<and>
    \<not> teensy_RunBootloader s' \<and> teensy_Flash s' = teensy_Flash t \<and> teensy_loop n app w s' = Inr (True, s', w)"
proof -
  let ?t = "t\<lparr>USB_ControlRequest := r\<rparr>"
  let ?s = "?t\<lparr>teensy_RunBootloader := False\<rparr>"
  have u: "UENUM ?t = 0" and t': "ctl_out_ready 8 ?t" "ctl_out_ready 8 ?s" using assms(1) by (simp_all add: ctl_out_ready_def)
  have w1: "await_packet (deliver 0 (0xFF # 0xFF # d) # w) ?t = Inr ((), held (0xFF # 0xFF # d) ?t, w)"
    using assms(4) by (intro await_packet_held(2) [OF t'(1)]) simp
  have l: "le_word [0xFF, 0xFF] = TEENSY_STARTAPPLICATION" unfolding TEENSY_STARTAPPLICATION_def by code_simp
  have "teensy_UnhandledControlRequest p (deliver 0 (0xFF # 0xFF # d) # w) (pending r t) = Inr ((), Endpoint_ClearIN ?s, w)"
    using assms(2,3) w1 l read_held(2) [OF u, of "0xFF" "0xFF" d] status_ready [OF t'(2), of w] ClearOUT_held [OF t'(2), of d]
    by (simp add: teensy_UnhandledControlRequest_def teensy_request_pending [OF assms(1)] REQDIR_HOSTTODEVICE_def
        REQTYPE_CLASS_def REQREC_INTERFACE_def REQDIR_DEVICETOHOST_def del: le_word.simps)
  moreover have "teensy_Flash (Endpoint_ClearIN ?s) = teensy_Flash t" "\<not> teensy_RunBootloader (Endpoint_ClearIN ?s)"
    by (simp_all add: Endpoint_ops_cur upd_cur_def upd_ep_def)
  ultimately show ?thesis by (cases n) (intro exI [of _ "Endpoint_ClearIN ?s"], simp)+
qed

section \<open>Where the loop does not end\<close>

text \<open>On the other processor \<open>PageByte\<close>, eight bits wide, is always below the page size of 256.\<close>

lemma teensy_fill_never_ends: "teensy_fill n AT90USB646 a k w s \<noteq> Inr r"
proof (induction n arbitrary: k w s)
  case (Suc n)
  have "unat k < part_page AT90USB646" using unat_less_u8 [of k] by (simp add: AT90USB646_def)
  then show ?case using Suc by (auto simp: bind_run_def split: sum.splits prod.splits)
qed simp

lemma teensy_program_hangs: "teensy_program AT90USB646 a w s \<noteq> Inr r"
  using teensy_fill_never_ends
  by (auto simp: teensy_program_def Let_def bind_run_def split: sum.splits)

section \<open>After the configuration\<close>

lemma BytesToEPSizeMask_64: "Endpoint_BytesToEPSizeMask 64 = Inr 0x30"
  by code_simp

lemma teensy_ConfigurationChanged_eq:
  assumes "UENUM s = 0"
  shows "teensy_ConfigurationChanged s = Inr ((upd_ep 0 (ep_configured 0 0xC1 0x32) s)\<lparr>UENUM := 0\<rparr>)"
  using Endpoint_ConfigureEndpoint_Prv_eq [of 0 "0xC1" "0x32" s]
  by (simp add: teensy_ConfigurationChanged_def ctl_only_configure [OF assms] Endpoint_ConfigureEndpoint_def HID_EPSIZE_def
      BytesToEPSizeMask_64 ENDPOINT_CONTROLEP_def EP_TYPE_INTERRUPT_def ENDPOINT_DIR_IN_def ENDPOINT_BANK_SINGLE_def EPTYPE0_def EPDIR_def ALLOC_def)

text \<open>An endpoint of direction IN takes no packet of the host, so that a wait for one does not end.\<close>

definition deaf :: "'a usb_hw_scheme \<Rightarrow> bool" where
  "deaf s \<longleftrightarrow> UENUM s = 0 \<and> ep_is_in (eps s 0) \<and> \<not> bit (r_ueintx (eps s 0)) RXOUTI"

lemma deaf_deliver: "deaf s \<Longrightarrow> deliver 0 p s = s"
  by (simp add: deaf_def deliver_def host_out_def)

lemma deaf_await: "deaf s \<Longrightarrow> await_packet (map (deliver 0) ps) s = Inl Waiting"
proof (induction ps)
  case Nil
  then show ?case
    by (simp add: await_packet_def poll_until.simps deaf_def Endpoint_flags cur_def)
next
  case (Cons p ps)
  then show ?case
    by (simp add: await_packet_def poll_until.simps [of _ _ "_ # _"] deaf_deliver)
      (simp add: deaf_def Endpoint_flags cur_def)
qed

lemma deaf_request: "deaf s \<Longrightarrow> deaf (s\<lparr>USB_ControlRequest := r\<rparr>)"
  by (simp add: deaf_def)

lemma deaf_ClearSETUP:
  assumes "deaf s"
  shows "deaf (Endpoint_ClearSETUP s)"
proof -
  have "ep_is_in (ep_clear_setup ep) = ep_is_in ep \<and> (\<not> bit (r_ueintx ep) RXOUTI \<longrightarrow> \<not> bit (r_ueintx (ep_clear_setup ep)) RXOUTI)" for ep
    by (simp add: ep_clear_setup_def ueintx_write_def Let_def ep_is_in_def ep_free_def ep_commit_def bit_and_iff)
  then show ?thesis using assms by (simp add: deaf_def Endpoint_ops_cur upd_cur_def upd_ep_def)
qed

lemma SetReport_not_dispatched:
  assumes "bRequest (USB_ControlRequest s) = REQ_SetReport" "bmRequestType (USB_ControlRequest s) = 0x21"
  shows "dispatch app w s = None"
  using assms
  by (simp add: dispatch_def Let_def REQ_SetReport_def REQ_GetStatus_def REQ_ClearFeature_def REQ_SetFeature_def REQ_SetAddress_def
      REQ_GetDescriptor_def REQ_GetConfiguration_def REQ_SetConfiguration_def REQDIR_HOSTTODEVICE_def REQTYPE_STANDARD_def REQREC_DEVICE_def)

text \<open>C28: The configuration event turns the control endpoint into an interrupt IN endpoint. A SetReport request that comes
  afterwards, whatever packets follow it, is never completed: the handler waits for a packet that cannot arrive.\<close>

theorem teensy_deaf_once_configured:
  assumes "UENUM s = 0" "length q = 8" "q ! 0 = 0x21" "q ! 1 = REQ_SetReport"
  shows "\<exists>s'. teensy_ConfigurationChanged s = Inr s' \<and> \<not> ep_is_control (eps s' 0) \<and> ep_is_in (eps s' 0) \<and>
    USB_Device_ProcessControlRequest (teensy_app p desc) (map (deliver 0) ps) (host_setup q s') = Inl Waiting"
proof -
  define s' where "s' = (upd_ep 0 (ep_configured 0 0xC1 0x32) s)\<lparr>UENUM := 0\<rparr>"
  have e: "eps s' 0 = ep_configured 0 0xC1 0x32 (eps s 0)" by (simp add: s'_def upd_ep_def)
  note cfg = ep_configured_simps [of "0x32" 0 "0xC1" "eps s 0"]
  have bad: "\<not> ep_is_control (eps s' 0)" "ep_is_in (eps s' 0)" "r_ueintx (eps s' 0) = set_bit FIFOCON (set_bit TXINI 0)"
    unfolding e using cfg by (simp_all add: ep_is_control_def ep_is_in_def EPTYPE0_def EPDIR_def ALLOC_def)
  obtain h where h: "read_bytes 8 (host_setup q s') = (q, h)" "deaf h"
  proof -
    have b: "r_bank (cur (host_setup q s')) = q @ []" by (simp add: host_setup_def cur_def s'_def)
    have u: "unat (UENUM (host_setup q s')) = 0" by (simp add: host_setup_def s'_def)
    have "ep_is_in (ep\<lparr>r_bank := x, r_tx := y, r_ueconx := z, r_ueintx := v, r_bank := []\<rparr>) = ep_is_in ep" for ep x y z v
      by (simp add: ep_is_in_def)
    then have "deaf (upd_cur (\<lambda>ep. ep\<lparr>r_bank := []\<rparr>) (host_setup q s'))"
      unfolding upd_cur_def u using bad
      by (simp add: deaf_def host_setup_def upd_ep_upd_ep bit_exp_iff) (simp add: s'_def upd_ep_def)
    then show ?thesis using that read_bytes_eq [OF b] assms(2) by simp
  qed
  let ?h = "h\<lparr>USB_ControlRequest := request_of_bytes q\<rparr>"
  have r: "bRequest (USB_ControlRequest ?h) = REQ_SetReport" "bmRequestType (USB_ControlRequest ?h) = 0x21"
    using assms(3,4) by (simp_all add: request_of_bytes_def)
  have "await_packet (map (deliver 0) ps) (Endpoint_ClearSETUP ?h) = Inl Waiting"
    using h(2) by (intro deaf_await deaf_ClearSETUP deaf_request)
  then have "teensy_UnhandledControlRequest p (map (deliver 0) ps) ?h = Inl Waiting"
    using r by (simp add: teensy_UnhandledControlRequest_def REQDIR_HOSTTODEVICE_def REQTYPE_CLASS_def REQREC_INTERFACE_def)
  then have "USB_Device_ProcessControlRequest (teensy_app p desc) (map (deliver 0) ps) (host_setup q s') = Inl Waiting"
    by (simp add: USB_Device_ProcessControlRequest_def Let_def h(1) SetReport_not_dispatched [OF r] teensy_app_def)
  then show ?thesis
    using bad teensy_ConfigurationChanged_eq [OF assms(1)] by (intro exI [of _ s']) (simp add: s'_def)
qed

section \<open>Instances\<close>

definition teensy_demo :: teensy where
  "teensy_demo = teensy_start (dev_reset\<lparr>USB_DeviceState := 3,
       eps := (\<lambda>_. ep_none)(0 := ep_none\<lparr>r_ueconx := 1, r_uecfg1x := 0x02, r_ueintx := 1\<rparr>)\<rparr>)
     \<lparr>fl_mem = (\<lambda>_. 0x12), fl_buf = (\<lambda>_. None), fl_busy = False, fl_junk = (\<lambda>_. 0)\<rparr>"

definition set_report :: usb_request where
  "set_report = \<lparr>bmRequestType = 0x21, bRequest = REQ_SetReport, wValue = 0x200, wIndex = 0, wLength = 130\<rparr>"

lemma teensy_demo_ready: "ctl_out_ready 8 teensy_demo" "fl_buf (teensy_Flash teensy_demo) = (\<lambda>_. None)"
  "fl_mem (teensy_Flash teensy_demo) = (\<lambda>_. 0x12)"
  by (simp_all add: teensy_demo_def teensy_start_def ctl_out_ready_def ctl_out_def dev_reset_def hw_reset_def usb_hw.defs usb_dev.defs
      ep_none_def ep_is_control_def ep_is_in_def ep_size_def reg_bits device_state_defs drop_bit_eq_div)

theorem teensy_programs_page_witness:
  "\<exists>s'. teensy_UnhandledControlRequest AT90USB162 (out_packets 8 (le_bytes 2 (0x100 :: u16) @ replicate 128 0xAB))
      (pending set_report teensy_demo) = Inr ((), s', []) \<and>
    fl_mem (teensy_Flash s') 0x17F = 0xAB \<and> fl_mem (teensy_Flash s') 0x180 = 0x12"
proof -
  obtain s' where "teensy_UnhandledControlRequest AT90USB162 (out_packets 8 (le_bytes 2 (0x100 :: u16) @ replicate 128 0xAB) @ [])
      (pending set_report teensy_demo) = Inr ((), s', [])"
    "fl_mem (teensy_Flash s') = flash_image 128 0x100 (replicate 128 0xAB) (\<lambda>_. 0x12)"
    using teensy_programs_page [of teensy_demo set_report AT90USB162 "0x100" "replicate 128 0xAB" "[]"] teensy_demo_ready
    by (auto simp: set_report_def AT90USB162_def)
  then show ?thesis by (intro exI [of _ s']) (simp add: flash_image_def)
qed

theorem teensy_deaf_once_configured_witness:
  "\<exists>s'. teensy_ConfigurationChanged teensy_demo = Inr s' \<and>
    USB_Device_ProcessControlRequest (teensy_app AT90USB162 (\<lambda>_ _. ([], 0))) [deliver 0 [0xFF, 0xFF]]
      (host_setup [0x21, 0x09, 0, 2, 0, 0, 130, 0] s') = Inl Waiting"
proof -
  have "UENUM teensy_demo = 0" using teensy_demo_ready(1) by (simp add: ctl_out_ready_def)
  then obtain s' where "teensy_ConfigurationChanged teensy_demo = Inr s'"
    "USB_Device_ProcessControlRequest (teensy_app AT90USB162 (\<lambda>_ _. ([], 0))) (map (deliver 0) [[0xFF, 0xFF]])
      (host_setup [0x21, 0x09, 0, 2, 0, 0, 130, 0] s') = Inl Waiting"
    using teensy_deaf_once_configured [of teensy_demo "[0x21, 0x09, 0, 2, 0, 0, 130, 0]" AT90USB162 "\<lambda>_ _. ([], 0)" "[[0xFF, 0xFF]]"]
    by (auto simp: REQ_SetReport_def)
  then show ?thesis by (intro exI [of _ s']) simp
qed

end
