(* ===== verification/CdcDevice.thy ===== *)
theory CdcDevice
  imports Streams Chapter9
begin

text \<open>
  The device driver of the communications class, \<open>USB/Class/Device/CDC.c\<close>: a serial port over three
  endpoints. The interface's constants are an argument, its state is part of the device's record, so that
  a program can extend it. Then what the driver does with the bytes that pass through it.
\<close>

section \<open>State\<close>

record cdc_config =
  ControlInterfaceNumber :: u8
  DataINEndpointNumber :: u8
  DataINEndpointSize :: u16
  DataINEndpointDoubleBank :: bool
  DataOUTEndpointNumber :: u8
  DataOUTEndpointSize :: u16
  DataOUTEndpointDoubleBank :: bool
  NotificationEndpointNumber :: u8
  NotificationEndpointSize :: u16
  NotificationEndpointDoubleBank :: bool

record line_encoding =
  BaudRateBPS :: u32
  CharFormat :: u8
  ParityType :: u8
  DataBits :: u8

record cdc = usb_dev +
  HostToDevice :: u8
  DeviceToHost :: u8
  LineEncoding :: line_encoding

definition line_bytes :: "line_encoding \<Rightarrow> u8 list" where
  "line_bytes l = le_bytes 4 (BaudRateBPS l) @ [CharFormat l, ParityType l, DataBits l]"

definition line_of_bytes :: "u8 list \<Rightarrow> line_encoding" where
  "line_of_bytes bs = \<lparr>BaudRateBPS = le_word (take 4 bs), CharFormat = bs ! 4, ParityType = bs ! 5, DataBits = bs ! 6\<rparr>"

definition REQ_GetLineEncoding :: u8 where "REQ_GetLineEncoding = 0x21"
definition REQ_SetLineEncoding :: u8 where "REQ_SetLineEncoding = 0x20"
definition REQ_SetControlLineState :: u8 where "REQ_SetControlLineState = 0x22"
definition NOTIF_SerialState :: u8 where "NOTIF_SerialState = 0x20"
definition CLASS_INTERFACE :: u8 where "CLASS_INTERFACE = push_bit 5 1 OR REQREC_INTERFACE"
definition CDC_TYPE_INTERRUPT :: u8 where "CDC_TYPE_INTERRUPT = 0x03"
definition ENDPOINT_BANK_DOUBLE :: u8 where "ENDPOINT_BANK_DOUBLE = push_bit EPBK0 1"

section \<open>Control requests\<close>

text \<open>\<open>line_changed\<close> and \<open>state_changed\<close> are the program's event handlers.\<close>

definition CDC_Device_ProcessControlRequest ::
  "cdc_config \<Rightarrow> ('a cdc_scheme \<Rightarrow> stop + 'a cdc_scheme) \<Rightarrow> ('a cdc_scheme \<Rightarrow> 'a cdc_scheme) \<Rightarrow>
   'a cdc_scheme world \<Rightarrow> 'a cdc_scheme \<Rightarrow> ('a cdc_scheme, unit) run" where
  "CDC_Device_ProcessControlRequest c line_changed state_changed w s =
     (let r = USB_ControlRequest s
      in if \<not> Endpoint_IsSETUPReceived s then Inr ((), s, w)
         else if wIndex r \<noteq> ucast (ControlInterfaceNumber c) then Inr ((), s, w)
         else if bRequest r = REQ_GetLineEncoding then
           (if bmRequestType r = REQDIR_DEVICETOHOST OR CLASS_INTERFACE then
              bind_run (Endpoint_Write_Control_Stream_LE (line_bytes (LineEncoding s)) 7 w (Endpoint_ClearSETUP s))
                (\<lambda>_ s w. Inr ((), Endpoint_ClearOUT s, w))
            else Inr ((), s, w))
         else if bRequest r = REQ_SetLineEncoding then
           (if bmRequestType r = REQDIR_HOSTTODEVICE OR CLASS_INTERFACE then
              bind_run (Endpoint_Read_Control_Stream_LE (line_bytes (LineEncoding s)) 7 w (Endpoint_ClearSETUP s))
                (\<lambda>(_, buf) s w.
                  case line_changed (Endpoint_ClearIN (s\<lparr>LineEncoding := line_of_bytes buf\<rparr>)) of
                    Inl e \<Rightarrow> Inl e | Inr s \<Rightarrow> Inr ((), s, w))
            else Inr ((), s, w))
         else if bRequest r = REQ_SetControlLineState then
           (if bmRequestType r = REQDIR_HOSTTODEVICE OR CLASS_INTERFACE then
              Endpoint_ClearStatusStage w (state_changed ((Endpoint_ClearSETUP s)\<lparr>HostToDevice := ucast (wValue r)\<rparr>))
            else Inr ((), s, w))
         else Inr ((), s, w))"

definition bank_mode :: "bool \<Rightarrow> u8" where
  "bank_mode double = (if double then ENDPOINT_BANK_DOUBLE else ENDPOINT_BANK_SINGLE)"

text \<open>The state is cleared; each endpoint is configured when those before it could be.\<close>

definition CDC_Device_ConfigureEndpoints :: "cdc_config \<Rightarrow> 'a cdc_scheme \<Rightarrow> stop + bool \<times> 'a cdc_scheme" where
  "CDC_Device_ConfigureEndpoints c s =
     (let s = s\<lparr>HostToDevice := 0, DeviceToHost := 0,
                LineEncoding := \<lparr>BaudRateBPS = 0, CharFormat = 0, ParityType = 0, DataBits = 0\<rparr>\<rparr>
      in case Endpoint_ConfigureEndpoint (DataINEndpointNumber c) EP_TYPE_BULK ENDPOINT_DIR_IN (DataINEndpointSize c)
                (bank_mode (DataINEndpointDoubleBank c)) s of
           Inl e \<Rightarrow> Inl e
         | Inr (ok, s) \<Rightarrow>
             if \<not> ok then Inr (False, s)
             else case Endpoint_ConfigureEndpoint (DataOUTEndpointNumber c) EP_TYPE_BULK ENDPOINT_DIR_OUT (DataOUTEndpointSize c)
                         (bank_mode (DataOUTEndpointDoubleBank c)) s of
                 Inl e \<Rightarrow> Inl e
               | Inr (ok, s) \<Rightarrow>
                   if \<not> ok then Inr (False, s)
                   else Endpoint_ConfigureEndpoint (NotificationEndpointNumber c) CDC_TYPE_INTERRUPT ENDPOINT_DIR_IN
                          (NotificationEndpointSize c) (bank_mode (NotificationEndpointDoubleBank c)) s)"

section \<open>Data\<close>

definition cdc_open :: "'a cdc_scheme \<Rightarrow> bool" where
  "cdc_open s \<longleftrightarrow> USB_DeviceState s = DEVICE_STATE_Configured \<and> BaudRateBPS (LineEncoding s) \<noteq> 0"

definition CDC_Device_Flush :: "cdc_config \<Rightarrow> 'a cdc_scheme world \<Rightarrow> 'a cdc_scheme \<Rightarrow> ('a cdc_scheme, u8) run" where
  "CDC_Device_Flush c w s =
     (if \<not> cdc_open s then Inr (ENDPOINT_READYWAIT_NoError, s, w)
      else
        let s = Endpoint_SelectEndpoint (DataINEndpointNumber c) s
        in if Endpoint_BytesInEndpoint s = 0 then Inr (ENDPOINT_READYWAIT_NoError, s, w)
           else
             let BankFull = \<not> Endpoint_IsReadWriteAllowed s;
                 s = Endpoint_ClearIN s
             in if BankFull then
                  bind_run (Endpoint_WaitUntilReady w s) (\<lambda>ErrorCode s w.
                    if ErrorCode \<noteq> ENDPOINT_READYWAIT_NoError then Inr (ErrorCode, s, w)
                    else Inr (ENDPOINT_READYWAIT_NoError, Endpoint_ClearIN s, w))
                else Inr (ENDPOINT_READYWAIT_NoError, s, w))"

text \<open>\<open>if (Endpoint_IsOUTReceived() && !(Endpoint_BytesInEndpoint())) Endpoint_ClearOUT();\<close>\<close>

definition clear_empty_out :: "'a cdc_scheme \<Rightarrow> 'a cdc_scheme" where
  "clear_empty_out s =
     (if Endpoint_IsOUTReceived s \<and> Endpoint_BytesInEndpoint s = 0 then Endpoint_ClearOUT s else s)"

definition CDC_Device_USBTask :: "cdc_config \<Rightarrow> 'a cdc_scheme world \<Rightarrow> 'a cdc_scheme \<Rightarrow> ('a cdc_scheme, unit) run" where
  "CDC_Device_USBTask c w s =
     (if \<not> cdc_open s then Inr ((), s, w)
      else bind_run (CDC_Device_Flush c w (clear_empty_out (Endpoint_SelectEndpoint (DataOUTEndpointNumber c) s)))
             (\<lambda>_ s w. Inr ((), s, w)))"

definition CDC_Device_SendString ::
  "cdc_config \<Rightarrow> u8 list \<Rightarrow> u16 \<Rightarrow> 'a cdc_scheme world \<Rightarrow> 'a cdc_scheme \<Rightarrow> ('a cdc_scheme, u8) run" where
  "CDC_Device_SendString c Data Length w s =
     (if \<not> cdc_open s then Inr (ENDPOINT_READYWAIT_NoError, s, w)
      else Endpoint_Write_Stream_LE Data Length w (Endpoint_SelectEndpoint (DataINEndpointNumber c) s))"

definition CDC_Device_SendByte ::
  "cdc_config \<Rightarrow> u8 \<Rightarrow> 'a cdc_scheme world \<Rightarrow> 'a cdc_scheme \<Rightarrow> ('a cdc_scheme, u8) run" where
  "CDC_Device_SendByte c Data w s =
     (if \<not> cdc_open s then Inr (ENDPOINT_READYWAIT_NoError, s, w)
      else
        let s = Endpoint_SelectEndpoint (DataINEndpointNumber c) s
        in if \<not> Endpoint_IsReadWriteAllowed s then
             bind_run (Endpoint_WaitUntilReady w (Endpoint_ClearIN s)) (\<lambda>ErrorCode s w.
               if ErrorCode \<noteq> ENDPOINT_READYWAIT_NoError then Inr (ErrorCode, s, w)
               else Inr (ENDPOINT_READYWAIT_NoError, Endpoint_Write_Byte Data s, w))
           else Inr (ENDPOINT_READYWAIT_NoError, Endpoint_Write_Byte Data s, w))"

definition CDC_Device_BytesReceived :: "cdc_config \<Rightarrow> 'a cdc_scheme \<Rightarrow> u16 \<times> 'a cdc_scheme" where
  "CDC_Device_BytesReceived c s =
     (if \<not> cdc_open s then (0, s)
      else
        let s = clear_empty_out (Endpoint_SelectEndpoint (DataOUTEndpointNumber c) s)
        in (Endpoint_BytesInEndpoint s, s))"

definition CDC_Device_ReceiveByte :: "cdc_config \<Rightarrow> 'a cdc_scheme \<Rightarrow> u8 \<times> 'a cdc_scheme" where
  "CDC_Device_ReceiveByte c s =
     (if \<not> cdc_open s then (0, s)
      else
        case Endpoint_Read_Byte (Endpoint_SelectEndpoint (DataOUTEndpointNumber c) s) of
          (DataByte, s) \<Rightarrow> (DataByte, if Endpoint_BytesInEndpoint s = 0 then Endpoint_ClearOUT s else s))"

definition serial_state_header :: "u8 list" where
  "serial_state_header = [REQDIR_DEVICETOHOST OR CLASS_INTERFACE, NOTIF_SerialState] @
     le_bytes 2 (0 :: u16) @ le_bytes 2 (0 :: u16) @ le_bytes 2 (1 :: u16)"

definition CDC_Device_SendControlLineStateChange ::
  "cdc_config \<Rightarrow> 'a cdc_scheme world \<Rightarrow> 'a cdc_scheme \<Rightarrow> ('a cdc_scheme, unit) run" where
  "CDC_Device_SendControlLineStateChange c w s =
     (if \<not> cdc_open s then Inr ((), s, w)
      else
        bind_run (Endpoint_Write_Stream_LE serial_state_header 8 w (Endpoint_SelectEndpoint (NotificationEndpointNumber c) s))
          (\<lambda>_ s w. bind_run (Endpoint_Write_Stream_LE [DeviceToHost s] 1 w s)
          (\<lambda>_ s w. Inr ((), Endpoint_ClearIN s, w))))"

text \<open>The stream functions of \<open>stdio.h\<close>, with the two codes of that header.\<close>

definition FDEV_ERR :: int where "FDEV_ERR = -1"
definition FDEV_EOF :: int where "FDEV_EOF = -2"

definition CDC_Device_putchar :: "cdc_config \<Rightarrow> u8 \<Rightarrow> 'a cdc_scheme world \<Rightarrow> 'a cdc_scheme \<Rightarrow> ('a cdc_scheme, int) run" where
  "CDC_Device_putchar c ch w s =
     bind_run (CDC_Device_SendByte c ch w s) (\<lambda>r s w. Inr (if r \<noteq> 0 then FDEV_ERR else 0, s, w))"

definition CDC_Device_getchar :: "cdc_config \<Rightarrow> 'a cdc_scheme \<Rightarrow> int \<times> 'a cdc_scheme" where
  "CDC_Device_getchar c s =
     (case CDC_Device_BytesReceived c s of
        (n, s) \<Rightarrow> if n = 0 then (FDEV_EOF, s)
                  else case CDC_Device_ReceiveByte c s of (b, s) \<Rightarrow> (uint b, s))"

text \<open>The loop until a byte came; the bus has a turn in each round, of which there are at most \<open>n\<close>.\<close>

fun getchar_wait :: "nat \<Rightarrow> cdc_config \<Rightarrow> 'a cdc_scheme app \<Rightarrow> 'a cdc_scheme world \<Rightarrow> 'a cdc_scheme \<Rightarrow> ('a cdc_scheme, unit) run" where
  "getchar_wait 0 c app w s = Inl Waiting"
| "getchar_wait (Suc n) c app w s =
     (case CDC_Device_BytesReceived c s of
        (k, s) \<Rightarrow>
          if k \<noteq> 0 then Inr ((), s, w)
          else
            bind_run (CDC_Device_USBTask c w s) (\<lambda>_ s w.
            bind_run (USB_USBTask app w s) (\<lambda>_ s w.
              case w of [] \<Rightarrow> Inl Waiting | e # w \<Rightarrow> getchar_wait n c app w (e s))))"

definition CDC_Device_getchar_Blocking ::
  "cdc_config \<Rightarrow> 'a cdc_scheme app \<Rightarrow> 'a cdc_scheme world \<Rightarrow> 'a cdc_scheme \<Rightarrow> ('a cdc_scheme, int) run" where
  "CDC_Device_getchar_Blocking c app w s =
     bind_run (getchar_wait (Suc (length w)) c app w s) (\<lambda>_ s w.
       case CDC_Device_ReceiveByte c s of (b, s) \<Rightarrow> Inr (uint b, s, w))"

section \<open>The stream to the host\<close>

text \<open>A bulk IN endpoint: its bank is the program's, or handed over and empty.\<close>

definition cdc_in :: "ep_regs \<Rightarrow> bool" where
  "cdc_in ep \<longleftrightarrow> \<not> ep_is_control ep \<and> ep_is_in ep \<and> length (r_bank ep) \<le> ep_size ep \<and>
     (if bit (r_ueintx ep) FIFOCON then bit (r_ueintx ep) TXINI \<and> r_tx ep = None
      else \<not> bit (r_ueintx ep) TXINI \<and> r_bank ep = [])"

lemma cdc_in_rwal: "cdc_in ep \<Longrightarrow> ep_rwal ep \<longleftrightarrow> bit (r_ueintx ep) FIFOCON \<and> length (r_bank ep) < ep_size ep"
  by (simp add: cdc_in_def ep_rwal_def)

lemma ep_clear_in_again:
  assumes "\<not> bit (r_ueintx ep) FIFOCON" "\<not> bit (r_ueintx ep) TXINI" "\<not> ep_is_control ep"
  shows "ep_clear_in ep = ep"
proof -
  have "(r_ueintx ep AND set_bit RWAL (unset_bit TXINI (ueintx_read ep))) AND set_bit RWAL (unset_bit FIFOCON (ueintx_read ep)) = r_ueintx ep"
    using assms by (intro bit_eqI) (auto simp: bit_and_iff ueintx_read_def)
  then show ?thesis
    using assms by (cases ep) (simp add: ep_clear_in_def ueintx_write_def Let_def ep_is_control_def bit_and_iff)
qed

lemma cdc_in_clear:
  assumes "cdc_in ep"
  shows "cdc_in (ep_clear_in ep)" "tx_stream (ep_clear_in ep) = tx_stream ep"
    "r_bank (ep_clear_in ep) = []"
proof -
  show "cdc_in (ep_clear_in ep)" "tx_stream (ep_clear_in ep) = tx_stream ep" "r_bank (ep_clear_in ep) = []"
    using assms ep_clear_in_again [of ep] ep_clear_in_bulk [of ep]
    by (cases "bit (r_ueintx ep) FIFOCON"; simp add: cdc_in_def ep_is_control_def ep_is_in_def ep_size_def tx_stream_def)+
qed

lemma cdc_in_push:
  assumes "cdc_in ep" "bit (r_ueintx ep) FIFOCON" "length (r_bank ep) < ep_size ep"
  shows "cdc_in (ep_push b ep)" "tx_stream (ep_push b ep) = tx_stream ep @ [b]"
  using assms by (simp_all add: ep_push_def cdc_in_def ep_is_control_def ep_is_in_def ep_size_def tx_stream_def)

text \<open>What may happen on the bus while the driver waits: anything that keeps what was sent in order.\<close>

definition in_event :: "nat \<Rightarrow> ('a usb_hw_scheme \<Rightarrow> 'a usb_hw_scheme) \<Rightarrow> bool" where
  "in_event n e \<longleftrightarrow> (\<forall>s. UENUM (e s) = UENUM s \<and>
     (cdc_in (eps s n) \<longrightarrow> cdc_in (eps (e s) n) \<and> tx_stream (eps (e s) n) = tx_stream (eps s n) \<and>
        (r_bank (eps s n) = [] \<longrightarrow> r_bank (eps (e s) n) = [])))"

lemma collect_in_event: "in_event n (collect m)"
  by (auto simp: in_event_def collect_def host_in_def upd_ep_def cdc_in_def tx_stream_def ep_is_control_def ep_is_in_def ep_size_def
      split: option.splits if_splits)

lemma deliver_in_event: "in_event n (deliver m p)"
  by (auto simp: in_event_def deliver_def host_out_def Let_def upd_ep_def cdc_in_def)

lemma sof_in_event: "in_event n sof" "in_event n id"
  by (simp_all add: in_event_def sof_def)

lemma wait_ready_step_cases:
  "wait_ready_step t s = Inl (r, s') \<Longrightarrow> (\<exists>x. s' = s\<lparr>UDINT := x\<rparr>) \<and>
     (r = 0 \<longrightarrow> (if ep_is_in (cur s') then bit (r_ueintx (cur s')) TXINI else bit (r_ueintx (cur s')) RXOUTI))"
  "wait_ready_step t s = Inr (t', s') \<Longrightarrow> \<exists>x. s' = s\<lparr>UDINT := x\<rparr>"
proof -
  have same: "\<exists>x. s = s\<lparr>UDINT := x\<rparr>" by (rule exI [of _ "UDINT s"]) simp
  show "wait_ready_step t s = Inl (r, s') \<Longrightarrow> (\<exists>x. s' = s\<lparr>UDINT := x\<rparr>) \<and>
     (r = 0 \<longrightarrow> (if ep_is_in (cur s') then bit (r_ueintx (cur s')) TXINI else bit (r_ueintx (cur s')) RXOUTI))"
    "wait_ready_step t s = Inr (t', s') \<Longrightarrow> \<exists>x. s' = s\<lparr>UDINT := x\<rparr>"
    using same
    by (auto simp: wait_ready_step_def Let_def readywait_defs Endpoint_direction_IN Endpoint_flags split: if_splits)
qed

text \<open>A wait ends within 101 frames, whatever the bus does.\<close>

lemma wait_frames_from:
  assumes "bit (UDINT s) 2" "unat t \<le> n"
  shows "\<exists>r s' k. poll_until wait_ready_step t (replicate n sof @ w) s = Inr (r, s', replicate k sof @ w) \<and> n \<le> k + unat t"
  using assms
proof (induction "unat t" arbitrary: t n s)
  case 0
  then have "t = 0" by (simp add: unat_eq_0)
  then have "\<exists>r s'. wait_ready_step t s = Inl (r, s')"
    using 0 by (simp add: wait_ready_step_def Let_def)
  then show ?case by (auto simp: poll_until_exit intro: exI [of _ n])
next
  case (Suc m)
  then have t: "t \<noteq> 0" "unat (t - 1) = m" using unat_minus_one [of t] by fastforce+
  show ?case
  proof (cases "wait_ready_step t s")
    case (Inl x)
    then show ?thesis by (cases x) (auto simp: poll_until_exit intro: exI [of _ n])
  next
    case (Inr x)
    obtain s' where x: "x = (t - 1, s')"
      using Inr Suc.prems t(1) by (cases x) (auto simp: wait_ready_step_def Let_def split: if_splits)
    obtain n' where n: "n = Suc n'" "m \<le> n'" using Suc.hyps(2) Suc.prems(2) by (cases n) auto
    have "bit (UDINT (sof s')) 2" by (simp add: sof_def)
    from Suc.hyps(1) [of "t - 1", OF _ this] n(2) t(2) show ?thesis
      using Inr Suc.hyps(2) by (fastforce simp: n(1) x poll_until_round)
  qed
qed

lemma wait_frames:
  assumes "101 \<le> n"
  shows "\<exists>r s' k. Endpoint_WaitUntilReady (replicate n sof @ w) s = Inr (r, s', replicate k sof @ w) \<and> n \<le> k + 101"
proof (cases "wait_ready_step USB_STREAM_TIMEOUT_MS s")
  case (Inl x)
  then show ?thesis by (cases x) (auto simp: Endpoint_WaitUntilReady_def poll_until_exit intro: exI [of _ n])
next
  case (Inr x)
  obtain t s' where x: "x = (t, s')" by (cases x)
  obtain m where m: "n = Suc m" "100 \<le> m" using assms by (cases n) auto
  have t: "unat t \<le> 100"
    using Inr by (auto simp: x wait_ready_step_def Let_def USB_STREAM_TIMEOUT_MS_def split: if_splits)
  have "bit (UDINT (sof s')) 2" by (simp add: sof_def)
  from wait_frames_from [OF this, of t m w] show ?thesis
    using Inr t m by (fastforce simp: x m(1) Endpoint_WaitUntilReady_def poll_until_round)
qed

lemma wait_keeps:
  assumes "Endpoint_WaitUntilReady w s = Inr (r, s', w')"
    "\<And>e s. e \<in> set w \<Longrightarrow> f (e s) = f s" "\<And>s x. f (s\<lparr>UDINT := x\<rparr>) = f s"
  shows "f s' = f s"
proof (rule poll_until_inv [where P = "\<lambda>t. f t = f s" and Q = "\<lambda>_ t. f t = f s", OF assms(1) [unfolded Endpoint_WaitUntilReady_def]])
  show "\<And>l t a t'. f t = f s \<Longrightarrow> wait_ready_step l t = Inl (a, t') \<Longrightarrow> f t' = f s"
    using wait_ready_step_cases(1) assms(3) by metis
  show "\<And>l t l' t'. f t = f s \<Longrightarrow> wait_ready_step l t = Inr (l', t') \<Longrightarrow> f t' = f s"
    using wait_ready_step_cases(2) assms(3) by metis
qed (simp_all add: assms(2))

lemma wait_stream:
  assumes "Endpoint_WaitUntilReady w s = Inr (r, s', w')" "\<forall>e \<in> set w. in_event n e" "unat (UENUM s) = n" "cdc_in (eps s n)" "r_bank (eps s n) = []"
  shows "UENUM s' = UENUM s" "cdc_in (eps s' n)" "r_bank (eps s' n) = []" "tx_stream (eps s' n) = tx_stream (eps s n)"
    "r = 0 \<Longrightarrow> bit (r_ueintx (eps s' n)) TXINI"
proof -
  let ?P = "\<lambda>t. UENUM t = UENUM s \<and> cdc_in (eps t n) \<and> tx_stream (eps t n) = tx_stream (eps s n) \<and> r_bank (eps t n) = []"
  have "?P s' \<and> (r = 0 \<longrightarrow> bit (r_ueintx (eps s' n)) TXINI)"
  proof (rule poll_until_inv [where P = ?P and Q = "\<lambda>r t. ?P t \<and> (r = 0 \<longrightarrow> bit (r_ueintx (eps t n)) TXINI)",
        OF assms(1) [unfolded Endpoint_WaitUntilReady_def]])
    show "?P t' \<and> (a = 0 \<longrightarrow> bit (r_ueintx (eps t' n)) TXINI)" if "?P t" "wait_ready_step l t = Inl (a, t')" for l t a t'
    proof -
      note step = that
      obtain x where x: "t' = t\<lparr>UDINT := x\<rparr>"
        "a = 0 \<longrightarrow> (if ep_is_in (cur t') then bit (r_ueintx (cur t')) TXINI else bit (r_ueintx (cur t')) RXOUTI)"
        using wait_ready_step_cases(1) [OF step(2)] by blast
      have "cur t' = eps t n" using that(1) assms(3) by (simp add: x(1) cur_def)
      then show ?thesis using that(1) x by (simp add: cdc_in_def)
    qed
    show "?P t'" if "?P t" "wait_ready_step l t = Inr (l', t')" for l t l' t'
      using wait_ready_step_cases(2) [OF that(2)] that(1) by auto
    show "?P (e t)" if "e \<in> set w" "?P t" for e t
      using assms(2) that by (simp add: in_event_def)
  qed (use assms in simp)
  then show "UENUM s' = UENUM s" "cdc_in (eps s' n)" "r_bank (eps s' n) = []" "tx_stream (eps s' n) = tx_stream (eps s n)"
    "r = 0 \<Longrightarrow> bit (r_ueintx (eps s' n)) TXINI" by simp_all
qed

lemma ep_number: "n < 8 \<Longrightarrow> n AND 7 = n" for n :: u8
proof -
  assume "n < 8"
  have "n AND 7 = take_bit 3 n" by (simp add: take_bit_eq_mask mask_eq_exp_minus_1)
  also have "\<dots> = n" using \<open>n < 8\<close> by (simp add: take_bit_eq_mod word_unat_eq_iff unat_mod word_less_nat_alt)
  finally show ?thesis .
qed

lemma select_simps:
  "eps (Endpoint_SelectEndpoint n s) = eps s" "n < 8 \<Longrightarrow> UENUM (Endpoint_SelectEndpoint n s) = n"
  "cdc_open (Endpoint_SelectEndpoint n s') = cdc_open s'"
  by (simp_all add: Endpoint_SelectEndpoint_def uenum_write_def cdc_open_def ep_number)

lemma SendByte_stream:
  assumes "CDC_Device_SendByte c d w s = Inr (r, s', w')" "cdc_open s" "DataINEndpointNumber c < 8" "n = unat (DataINEndpointNumber c)"
    "cdc_in (eps s n)" "\<forall>e \<in> set w. in_event n e"
  shows "cdc_in (eps s' n) \<and> tx_stream (eps s' n) = tx_stream (eps s n) @ (if r = 0 then [d] else [])"
proof -
  let ?s = "Endpoint_SelectEndpoint (DataINEndpointNumber c) s"
  have u: "unat (UENUM ?s) = n" "cur ?s = eps s n" using assms(3,4) by (simp_all add: select_simps(1) cur_def ep_number)
  show ?thesis
  proof (cases "Endpoint_IsReadWriteAllowed ?s")
    case True
    then have "s' = Endpoint_Write_Byte d ?s" "r = 0" using assms(1,2) by (simp_all add: CDC_Device_SendByte_def readywait_defs)
    moreover have "bit (r_ueintx (eps s n)) FIFOCON" "length (r_bank (eps s n)) < ep_size (eps s n)"
      using True cdc_in_rwal [OF assms(5)] assms(3,4) by (simp_all add: Endpoint_flags u ep_number)
    ultimately show ?thesis
      using cdc_in_push [OF assms(5)] u by (simp add: Endpoint_ops_cur upd_cur_def select_simps)
  next
    case False
    let ?t = "Endpoint_ClearIN ?s"
    have t: "eps ?t n = ep_clear_in (eps s n)" "UENUM ?t = UENUM ?s"
      using u by (simp_all add: Endpoint_ops_cur upd_cur_def upd_ep_def select_simps)
    obtain r1 t1 w1 where w: "Endpoint_WaitUntilReady w ?t = Inr (r1, t1, w1)"
      "r = r1 \<and> s' = (if r1 = 0 then Endpoint_Write_Byte d t1 else t1)"
      using False assms(1,2) by (auto simp: CDC_Device_SendByte_def readywait_defs bind_run_Inr_iff split: if_splits)
    have c: "cdc_in (eps ?t n)" "tx_stream (eps ?t n) = tx_stream (eps s n)" using cdc_in_clear [OF assms(5)] by (simp_all add: t)
    have u1: "unat (UENUM ?t) = n" using u(1) t(2) by simp
    have "r_bank (eps ?t n) = []" using cdc_in_clear [OF assms(5)] by (simp add: t)
    note t1 = wait_stream [OF w(1) assms(6) u1 c(1) this]
    show ?thesis
    proof (cases "r1 = 0")
      case True
      then have "bit (r_ueintx (eps t1 n)) FIFOCON" using t1(2,5) by (auto simp: cdc_in_def split: if_splits)
      moreover have "length (r_bank (eps t1 n)) < ep_size (eps t1 n)" using t1(3) by (simp add: ep_size_def)
      ultimately show ?thesis
        using t1 c u1 w(2) True by (simp add: Endpoint_ops_cur upd_cur_def cdc_in_push)
    next
      case False
      then show ?thesis using t1 c w(2) by simp
    qed
  qed
qed

lemma Flush_stream:
  assumes "CDC_Device_Flush c w s = Inr (r, s', w')" "cdc_open s" "DataINEndpointNumber c < 8" "n = unat (DataINEndpointNumber c)"
    "cdc_in (eps s n)" "\<forall>e \<in> set w. in_event n e"
  shows "cdc_in (eps s' n) \<and> tx_stream (eps s' n) = tx_stream (eps s n)"
proof -
  let ?s = "Endpoint_SelectEndpoint (DataINEndpointNumber c) s"
  let ?t = "Endpoint_ClearIN ?s"
  have u: "unat (UENUM ?s) = n" using assms(3,4) by (simp add: select_simps(1) ep_number)
  have t: "eps ?t n = ep_clear_in (eps s n)" "UENUM ?t = UENUM ?s"
    using u by (simp_all add: Endpoint_ops_cur upd_cur_def upd_ep_def select_simps)
  note c = cdc_in_clear [OF assms(5), folded t(1)]
  consider "s' = ?s" | "s' = ?t" | r1 t1 w1 where "Endpoint_WaitUntilReady w ?t = Inr (r1, t1, w1)" "s' = t1 \<or> s' = Endpoint_ClearIN t1"
    using assms(1,2) by (auto simp: CDC_Device_Flush_def Let_def readywait_defs bind_run_Inr_iff split: if_splits)
  then show ?thesis
  proof cases
    case 1
    then show ?thesis using assms(5) by (simp add: select_simps)
  next
    case 2
    then show ?thesis using c by simp
  next
    case 3
    have u1: "unat (UENUM ?t) = n" using u t(2) by simp
    note w = wait_stream [OF 3(1) assms(6) u1 c(1,3)]
    have "eps (Endpoint_ClearIN t1) n = ep_clear_in (eps t1 n)" using w(1) u1 by (simp add: Endpoint_ops_cur upd_cur_def)
    then show ?thesis using 3(2) w c cdc_in_clear [OF w(2)] by auto
  qed
qed

theorem cdc_keeps_order:
  assumes "cdc_open s" "DataINEndpointNumber c < 8" "n = unat (DataINEndpointNumber c)" "cdc_in (eps s n)" "\<forall>e \<in> set w. in_event n e"
  shows "(\<forall>d r s' w'. CDC_Device_SendByte c d w s = Inr (r, s', w') \<longrightarrow>
      cdc_in (eps s' n) \<and> tx_stream (eps s' n) = tx_stream (eps s n) @ (if r = 0 then [d] else [])) \<and>
    (\<forall>r s' w'. CDC_Device_Flush c w s = Inr (r, s', w') \<longrightarrow> cdc_in (eps s' n) \<and> tx_stream (eps s' n) = tx_stream (eps s n))"
  using SendByte_stream [OF _ assms] Flush_stream [OF _ assms] by blast

text \<open>Both return, within 101 frames.\<close>

lemma in_operations_return:
  assumes "101 \<le> n"
  shows "\<exists>r s' k. CDC_Device_SendByte c d (replicate n sof @ w) s = Inr (r, s', replicate k sof @ w) \<and> n \<le> k + 101"
    "\<exists>r s' k. CDC_Device_Flush c (replicate n sof @ w) s = Inr (r, s', replicate k sof @ w) \<and> n \<le> k + 101"
proof -
  note wait = wait_frames [OF assms, of w]
  show "\<exists>r s' k. CDC_Device_SendByte c d (replicate n sof @ w) s = Inr (r, s', replicate k sof @ w) \<and> n \<le> k + 101"
    using wait [of "Endpoint_ClearIN (Endpoint_SelectEndpoint (DataINEndpointNumber c) s)"]
    by (auto simp: CDC_Device_SendByte_def Let_def bind_run_def)
  show "\<exists>r s' k. CDC_Device_Flush c (replicate n sof @ w) s = Inr (r, s', replicate k sof @ w) \<and> n \<le> k + 101"
    using wait [of "Endpoint_ClearIN (Endpoint_SelectEndpoint (DataINEndpointNumber c) s)"]
    by (auto simp: CDC_Device_Flush_def Let_def bind_run_def)
qed

text \<open>What the two leave alone: anything that the endpoint, the selection and the frame flag have no part in.\<close>

lemma in_operations_keep:
  assumes "DataINEndpointNumber c < 8" "n = unat (DataINEndpointNumber c)"
    and f: "\<And>s x. f (s\<lparr>UENUM := x\<rparr>) = f s" "\<And>s x. f (s\<lparr>UDINT := x\<rparr>) = f s" "\<And>s g. f (upd_ep n g s) = f s"
    and e: "\<And>e s. e \<in> set w \<Longrightarrow> f (e s) = f s \<and> UENUM (e s) = UENUM s"
  shows "CDC_Device_SendByte c d w s = Inr (r, s', w') \<Longrightarrow> f s' = f s"
    "CDC_Device_Flush c w s = Inr (r, s', w') \<Longrightarrow> f s' = f s"
proof -
  let ?s = "Endpoint_SelectEndpoint (DataINEndpointNumber c) s"
  let ?f = "\<lambda>s. (f s, UENUM s)"
  have s: "?f ?s = (f s, DataINEndpointNumber c)"
    using f(1) assms(1) by (simp add: Endpoint_SelectEndpoint_def uenum_write_def ep_number)
  have cur: "?f (upd_cur g t) = ?f t" if "?f t = ?f ?s" for g t
    using that s f(3) assms(2) by (simp add: upd_cur_def)
  have wait: "?f t' = ?f t" if "Endpoint_WaitUntilReady w t = Inr (r', t', v)" for r' t t' v
    using that by (rule wait_keeps) (simp_all add: e f)
  show "f s' = f s" if "CDC_Device_SendByte c d w s = Inr (r, s', w')"
  proof -
    have "f s = f s'" if "s' = Endpoint_Write_Byte d ?s" using that cur [of ?s] s by (simp add: Endpoint_ops_cur)
    moreover have "f s = f s'"
      if "Endpoint_WaitUntilReady w (Endpoint_ClearIN ?s) = Inr (r1, t1, w1)" "s' = t1 \<or> s' = Endpoint_Write_Byte d t1" for r1 t1 w1
    proof -
      have "?f t1 = ?f ?s" using wait [OF that(1)] cur [of ?s] by (simp add: Endpoint_ops_cur)
      then show ?thesis using that(2) cur [of t1] s by (auto simp: Endpoint_ops_cur)
    qed
    ultimately show ?thesis
      using that by (auto simp: CDC_Device_SendByte_def bind_run_Inr_iff Let_def split: if_splits)
  qed
  show "f s' = f s" if "CDC_Device_Flush c w s = Inr (r, s', w')"
  proof -
    have "f s = f s'" if "s' = Endpoint_ClearIN ?s \<or> s' = ?s" using that cur [of ?s] s by (auto simp: Endpoint_ops_cur)
    moreover have "f s = f s'"
      if "Endpoint_WaitUntilReady w (Endpoint_ClearIN ?s) = Inr (r1, t1, w1)" "s' = t1 \<or> s' = Endpoint_ClearIN t1" for r1 t1 w1
    proof -
      have "?f t1 = ?f ?s" using wait [OF that(1)] cur [of ?s] by (simp add: Endpoint_ops_cur)
      then show ?thesis using that(2) cur [of t1] s by (auto simp: Endpoint_ops_cur)
    qed
    ultimately show ?thesis
      using that by (auto simp: CDC_Device_Flush_def bind_run_Inr_iff Let_def split: if_splits)
  qed
qed

section \<open>The stream from the host\<close>

definition cdc_out :: "ep_regs \<Rightarrow> bool" where
  "cdc_out ep \<longleftrightarrow> \<not> ep_is_control ep \<and> \<not> ep_is_in ep \<and> bit (r_ueconx ep) EPEN \<and>
     (bit (r_ueintx ep) RXOUTI \<longleftrightarrow> bit (r_ueintx ep) FIFOCON) \<and> (bit (r_ueintx ep) FIFOCON \<or> r_bank ep = [])"

lemma ep_clear_out_again:
  assumes "\<not> bit (r_ueintx ep) FIFOCON" "\<not> bit (r_ueintx ep) RXOUTI" "\<not> ep_is_control ep"
  shows "ep_clear_out ep = ep"
proof -
  have "(r_ueintx ep AND set_bit RWAL (unset_bit RXOUTI (ueintx_read ep))) AND set_bit RWAL (unset_bit FIFOCON (ueintx_read ep)) = r_ueintx ep"
    using assms by (intro bit_eqI) (auto simp: bit_and_iff ueintx_read_def)
  then show ?thesis
    using assms by (cases ep) (simp add: ep_clear_out_def ueintx_write_def Let_def ep_is_control_def bit_and_iff)
qed

lemma cdc_out_clear: "cdc_out ep \<Longrightarrow> cdc_out (ep_clear_out ep) \<and> r_bank (ep_clear_out ep) = []"
  using ep_clear_out_again [of ep] ep_clear_out_bulk [of ep]
  by (cases "bit (r_ueintx ep) FIFOCON") (simp_all add: cdc_out_def ep_is_control_def ep_is_in_def)

lemma cdc_out_bank: "cdc_out ep \<Longrightarrow> bit (r_ueintx ep) FIFOCON \<Longrightarrow> cdc_out (ep\<lparr>r_bank := b\<rparr>)"
  by (simp add: cdc_out_def ep_is_control_def ep_is_in_def)

definition taken :: "nat \<Rightarrow> u8 list \<Rightarrow> ('a usb_hw_scheme \<Rightarrow> 'a usb_hw_scheme)" where
  "taken n b = upd_ep n (\<lambda>ep. if b = [] then ep_clear_out (ep\<lparr>r_bank := []\<rparr>) else ep\<lparr>r_bank := b\<rparr>)"

lemma ReceiveByte_takes:
  assumes "cdc_open s" "DataOUTEndpointNumber c < 8" "n = unat (DataOUTEndpointNumber c)" "cdc_out (eps s n)" "r_bank (eps s n) = x # xs"
    "length xs < 65536"
  shows "CDC_Device_ReceiveByte c s = (x, taken n xs (s\<lparr>UENUM := DataOUTEndpointNumber c\<rparr>))"
    "cdc_out (eps (taken n xs (s\<lparr>UENUM := DataOUTEndpointNumber c\<rparr>)) n)"
    "r_bank (eps (taken n xs (s\<lparr>UENUM := DataOUTEndpointNumber c\<rparr>)) n) = xs"
proof -
  let ?s = "s\<lparr>UENUM := DataOUTEndpointNumber c\<rparr>"
  have sel: "Endpoint_SelectEndpoint (DataOUTEndpointNumber c) s = ?s"
    using assms(2) by (simp add: Endpoint_SelectEndpoint_def uenum_write_def ep_number)
  have cur: "cur ?s = eps s n" "\<And>g. upd_cur g ?s = upd_ep n g ?s" using assms(3) by (simp_all add: cur_def upd_cur_def)
  have rd: "Endpoint_Read_Byte ?s = (x, upd_ep n (\<lambda>ep. ep\<lparr>r_bank := xs\<rparr>) ?s)"
    using assms(5) by (simp add: Endpoint_Read_Byte_def uedatx_read_Cons cur)
  have "cur (upd_ep n g ?s) = g (eps s n)" for g using assms(3) by (simp add: cur_def)
  moreover have "upd_cur g (upd_ep n h ?s) = upd_ep n (\<lambda>ep. g (h ep)) ?s" for g h
    using assms(3) by (simp add: upd_cur_def upd_ep_upd_ep)
  moreover have "(of_nat (length xs) :: u16) = 0 \<longleftrightarrow> xs = []" using of_nat_word_eq_0 [OF assms(6)] by simp
  ultimately show "CDC_Device_ReceiveByte c s = (x, taken n xs ?s)"
    using assms(1) by (simp add: CDC_Device_ReceiveByte_def sel rd Endpoint_BytesInEndpoint_def Endpoint_ops_cur taken_def)
  have "bit (r_ueintx (eps s n)) FIFOCON" using assms(4,5) by (simp add: cdc_out_def)
  from cdc_out_bank [OF assms(4) this] have b: "cdc_out ((eps s n)\<lparr>r_bank := b\<rparr>)" for b .
  show "cdc_out (eps (taken n xs ?s) n)" "r_bank (eps (taken n xs ?s) n) = xs"
    using b cdc_out_clear [OF b [of "[]"]] by (simp_all add: taken_def)
qed

lemma clear_empty_keeps:
  assumes "DataOUTEndpointNumber c < 8" "n = unat (DataOUTEndpointNumber c)" "cdc_out (eps s n)" "length (r_bank (eps s n)) < 65536"
  defines "t \<equiv> clear_empty_out (Endpoint_SelectEndpoint (DataOUTEndpointNumber c) s)"
  shows "\<exists>g. t = upd_ep n g (s\<lparr>UENUM := DataOUTEndpointNumber c\<rparr>) \<and> cdc_out (eps t n) \<and> r_bank (eps t n) = r_bank (eps s n)"
proof -
  let ?s = "s\<lparr>UENUM := DataOUTEndpointNumber c\<rparr>"
  have sel: "Endpoint_SelectEndpoint (DataOUTEndpointNumber c) s = ?s"
    using assms(1) by (simp add: Endpoint_SelectEndpoint_def uenum_write_def ep_number)
  have cur: "cur ?s = eps s n" "\<And>g. upd_cur g ?s = upd_ep n g ?s" using assms(2) by (simp_all add: cur_def upd_cur_def)
  have b: "Endpoint_BytesInEndpoint ?s = 0 \<longleftrightarrow> r_bank (eps s n) = []"
    using of_nat_word_eq_0 [OF assms(4)] by (simp add: Endpoint_BytesInEndpoint_def cur)
  show ?thesis
  proof (cases "Endpoint_IsOUTReceived ?s \<and> r_bank (eps s n) = []")
    case True
    then have "t = upd_ep n ep_clear_out ?s" by (simp add: t_def clear_empty_out_def sel b Endpoint_ops_cur cur)
    then show ?thesis using True cdc_out_clear [OF assms(3)] by auto
  next
    case False
    then have "t = upd_ep n id ?s" by (auto simp: t_def clear_empty_out_def sel b upd_ep_def)
    then show ?thesis using assms(3) by auto
  qed
qed

lemma BytesReceived_counts:
  assumes "cdc_open s" "DataOUTEndpointNumber c < 8" "n = unat (DataOUTEndpointNumber c)" "cdc_out (eps s n)" "length (r_bank (eps s n)) < 65536"
  shows "\<exists>g. CDC_Device_BytesReceived c s = (of_nat (length (r_bank (eps s n))), upd_ep n g (s\<lparr>UENUM := DataOUTEndpointNumber c\<rparr>)) \<and>
    cdc_out (g (eps s n)) \<and> r_bank (g (eps s n)) = r_bank (eps s n)"
  using clear_empty_keeps [OF assms(2-5)] assms(1,3)
  by (auto simp: CDC_Device_BytesReceived_def Let_def Endpoint_BytesInEndpoint_def cur_def)

end
