(* ===== verification/CdcBoot.thy ===== *)
theory CdcBoot
  imports CdcDevice DfuBoot
begin

text \<open>
  The serial boot loader of the library, \<open>Bootloaders/CDC/BootloaderCDC.c\<close>, built as its makefile builds it for
  the AT90USB1287 (the memory sizes are those of theory \<open>DfuBoot\<close>). The host sends commands of the AVR910
  protocol on endpoint 2 and reads the answers from endpoint 1. As in the streams of theory \<open>UsbDevice\<close> the bus
  has its turn after a packet was released and before the wait for the next one starts. The processor has
  16-bit integers. Setting up and resetting the processor are left out.
\<close>

section \<open>Constants and state\<close>

definition CDC_NOTIFICATION_EPNUM :: u8 where "CDC_NOTIFICATION_EPNUM = 3"
definition CDC_NOTIFICATION_EPSIZE :: u16 where "CDC_NOTIFICATION_EPSIZE = 8"
definition CDC_TX_EPNUM :: u8 where "CDC_TX_EPNUM = 1"
definition CDC_RX_EPNUM :: u8 where "CDC_RX_EPNUM = 2"
definition CDC_TXRX_EPSIZE :: u16 where "CDC_TXRX_EPSIZE = 16"

definition BOOTLOADER_VERSION_MAJOR :: u8 where "BOOTLOADER_VERSION_MAJOR = 0x01"
definition BOOTLOADER_VERSION_MINOR :: u8 where "BOOTLOADER_VERSION_MINOR = 0x00"

definition ascii :: "string \<Rightarrow> u8 list" where
  "ascii = map of_char"

definition ch :: "char \<Rightarrow> u8" where
  "ch = of_char"

text \<open>\<open>'\r'\<close>\<close>

definition CR :: u8 where "CR = 0x0D"

definition SOFTWARE_IDENTIFIER :: "u8 list" where
  "SOFTWARE_IDENTIFIER = ascii ''LUFACDC''"

text \<open>The bytes \<open>boot_lock_fuse_bits_get\<close> reads, by their numbers in \<open>avr/boot.h\<close>.\<close>

definition GET_LOW_FUSE_BITS :: nat where "GET_LOW_FUSE_BITS = 0"
definition GET_LOCK_BITS :: nat where "GET_LOCK_BITS = 1"
definition GET_EXTENDED_FUSE_BITS :: nat where "GET_EXTENDED_FUSE_BITS = 2"
definition GET_HIGH_FUSE_BITS :: nat where "GET_HIGH_FUSE_BITS = 3"

record cdcboot = usb_dev +
  LineCoding :: line_encoding
  CurrAddress :: u32
  cdcboot_RunBootloader :: bool
  avr_Flash :: flash
  avr_Eeprom :: "nat \<Rightarrow> u8"
  avr_LockFuse :: "nat \<Rightarrow> u8"

definition cdcboot_start :: "usb_dev \<Rightarrow> flash \<Rightarrow> (nat \<Rightarrow> u8) \<Rightarrow> (nat \<Rightarrow> u8) \<Rightarrow> cdcboot" where
  "cdcboot_start u f e b = usb_dev.extend u
     \<lparr>LineCoding = \<lparr>BaudRateBPS = 9600, CharFormat = 0, ParityType = 0, DataBits = 8\<rparr>, CurrAddress = 0,
      cdcboot_RunBootloader = True, avr_Flash = f, avr_Eeprom = e, avr_LockFuse = b\<rparr>"

definition with_flash :: "(flash \<Rightarrow> flash) \<Rightarrow> 'a cdcboot_scheme \<Rightarrow> 'a cdcboot_scheme" where
  "with_flash f s = s\<lparr>avr_Flash := f (avr_Flash s)\<rparr>"

text \<open>\<open>(uint8_t*)(uint16_t)(CurrAddress >> 1)\<close>\<close>

definition eeprom_at :: "u32 \<Rightarrow> nat" where
  "eeprom_at a = unat (ucast (drop_bit 1 a) :: u16) mod EEPROM_BYTES"

text \<open>\<open>boot_lock_bits_set\<close> programs, that is clears, the four boot lock bits that are set in its argument.\<close>

definition boot_lock_bits_set :: "u8 \<Rightarrow> 'a cdcboot_scheme \<Rightarrow> 'a cdcboot_scheme" where
  "boot_lock_bits_set b s =
     s\<lparr>avr_LockFuse := (avr_LockFuse s)(GET_LOCK_BITS := avr_LockFuse s GET_LOCK_BITS AND NOT (b AND 0x3C))\<rparr>"

section \<open>Events\<close>

definition cdcboot_ConfigurationChanged :: "'a cdcboot_scheme \<Rightarrow> stop + 'a cdcboot_scheme" where
  "cdcboot_ConfigurationChanged s =
     (case Endpoint_ConfigureEndpoint CDC_NOTIFICATION_EPNUM CDC_TYPE_INTERRUPT ENDPOINT_DIR_IN CDC_NOTIFICATION_EPSIZE ENDPOINT_BANK_SINGLE s of
        Inl e \<Rightarrow> Inl e
      | Inr (_, s) \<Rightarrow>
          case Endpoint_ConfigureEndpoint CDC_TX_EPNUM EP_TYPE_BULK ENDPOINT_DIR_IN CDC_TXRX_EPSIZE ENDPOINT_BANK_SINGLE s of
            Inl e \<Rightarrow> Inl e
          | Inr (_, s) \<Rightarrow>
              case Endpoint_ConfigureEndpoint CDC_RX_EPNUM EP_TYPE_BULK ENDPOINT_DIR_OUT CDC_TXRX_EPSIZE ENDPOINT_BANK_SINGLE s of
                Inl e \<Rightarrow> Inl e | Inr (_, s) \<Rightarrow> Inr s)"

definition cdcboot_UnhandledControlRequest :: "'a cdcboot_scheme world \<Rightarrow> 'a cdcboot_scheme \<Rightarrow> ('a cdcboot_scheme, unit) run" where
  "cdcboot_UnhandledControlRequest w s =
     (let r = bRequest (USB_ControlRequest s); t = bmRequestType (USB_ControlRequest s)
      in if r = REQ_GetLineEncoding then
           (if t = REQDIR_DEVICETOHOST OR CLASS_INTERFACE then
              Endpoint_ClearStatusStage w
                (Endpoint_ClearIN (fold Endpoint_Write_Byte (line_bytes (LineCoding s)) (Endpoint_ClearSETUP s)))
            else Inr ((), s, w))
         else if r = REQ_SetLineEncoding then
           (if t = REQDIR_HOSTTODEVICE OR CLASS_INTERFACE then
              bind_run (await_out w (Endpoint_ClearSETUP s)) (\<lambda>ok s w.
                if \<not> ok then Inr ((), s, w)
                else case read_bytes 7 s of (bs, s) \<Rightarrow>
                  Endpoint_ClearStatusStage w (Endpoint_ClearOUT (s\<lparr>LineCoding := line_of_bytes bs\<rparr>)))
            else Inr ((), s, w))
         else if r = REQ_SetControlLineState then
           (if t = REQDIR_HOSTTODEVICE OR CLASS_INTERFACE then Endpoint_ClearStatusStage w (Endpoint_ClearSETUP s)
            else Inr ((), s, w))
         else Inr ((), s, w))"

section \<open>Bytes from and to the host\<close>

function fetch_loop :: "'a usb_dev_scheme world \<Rightarrow> 'a usb_dev_scheme \<Rightarrow> ('a usb_dev_scheme, bool) run" where
  "fetch_loop w s =
     (if Endpoint_IsReadWriteAllowed s then Inr (True, s, w)
      else case w of
             [] \<Rightarrow> Inl Waiting
           | e # w \<Rightarrow>
               (case await_out w (e (Endpoint_ClearOUT s)) of
                  Inl x \<Rightarrow> Inl x
                | Inr (ok, s, w) \<Rightarrow> if ok then fetch_loop w s else Inr (False, s, w)))"
  by pat_completeness auto
termination
proof (relation "measure (\<lambda>(w, s). length w)", goal_cases)
  case (2 w s e w' r ok s' w'')
  then show ?case using poll_until_world [of _ _ w'] by (fastforce simp: await_out_def)
qed simp

declare fetch_loop.simps [simp del]

definition FetchNextCommandByte :: "'a usb_dev_scheme world \<Rightarrow> 'a usb_dev_scheme \<Rightarrow> ('a usb_dev_scheme, u8) run" where
  "FetchNextCommandByte w s =
     bind_run (fetch_loop w (Endpoint_SelectEndpoint CDC_RX_EPNUM s)) (\<lambda>ok s w.
       if ok then (case Endpoint_Read_Byte s of (b, s) \<Rightarrow> Inr (b, s, w)) else Inr (0, s, w))"

definition WriteNextResponseByte :: "u8 \<Rightarrow> 'a usb_dev_scheme world \<Rightarrow> 'a usb_dev_scheme \<Rightarrow> ('a usb_dev_scheme, unit) run" where
  "WriteNextResponseByte Response w s =
     (let s = Endpoint_SelectEndpoint CDC_TX_EPNUM s
      in if \<not> Endpoint_IsReadWriteAllowed s then
           bind_run (await_in w (Endpoint_ClearIN s)) (\<lambda>ok s w.
             Inr ((), if ok then Endpoint_Write_Byte Response s else s, w))
         else Inr ((), Endpoint_Write_Byte Response s, w))"

fun respond :: "u8 list \<Rightarrow> 'a usb_dev_scheme world \<Rightarrow> 'a usb_dev_scheme \<Rightarrow> ('a usb_dev_scheme, unit) run" where
  "respond [] w s = Inr ((), s, w)"
| "respond (b # bs) w s = bind_run (WriteNextResponseByte b w s) (\<lambda>_ s w. respond bs w s)"

section \<open>Block transfers\<close>

text \<open>\<open>while (BlockSize--)\<close>: \<open>n\<close> bytes to go.\<close>

fun read_block :: "nat \<Rightarrow> u8 \<Rightarrow> bool \<Rightarrow> 'a cdcboot_scheme world \<Rightarrow> 'a cdcboot_scheme \<Rightarrow> ('a cdcboot_scheme, unit) run" where
  "read_block 0 MemoryType HighByte w s = Inr ((), s, w)"
| "read_block (Suc n) MemoryType HighByte w s =
     (if MemoryType = ch CHR ''F'' then
        bind_run (WriteNextResponseByte (pgm_read_byte (flash_at (CurrAddress s OR of_bool HighByte)) (avr_Flash s)) w s) (\<lambda>_ s w.
          read_block n MemoryType (\<not> HighByte) w (if HighByte then s\<lparr>CurrAddress := CurrAddress s + 2\<rparr> else s))
      else
        bind_run (WriteNextResponseByte (avr_Eeprom s (eeprom_at (CurrAddress s))) w s) (\<lambda>_ s w.
          read_block n MemoryType HighByte w (s\<lparr>CurrAddress := CurrAddress s + 2\<rparr>)))"

fun write_block :: "nat \<Rightarrow> u8 \<Rightarrow> bool \<Rightarrow> u8 \<Rightarrow> 'a cdcboot_scheme world \<Rightarrow> 'a cdcboot_scheme \<Rightarrow> ('a cdcboot_scheme, unit) run" where
  "write_block 0 MemoryType HighByte LowByte w s = Inr ((), s, w)"
| "write_block (Suc n) MemoryType HighByte LowByte w s =
     bind_run (FetchNextCommandByte w s) (\<lambda>b s w.
       if MemoryType = ch CHR ''F'' then
         (if HighByte then
            (let s = with_flash (boot_page_fill SPM_PAGESIZE (flash_at (CurrAddress s)) (push_bit 8 (ucast b) OR ucast LowByte)) s
             in write_block n MemoryType False LowByte w (s\<lparr>CurrAddress := CurrAddress s + 2\<rparr>))
          else write_block n MemoryType True b w s)
       else
         write_block n MemoryType HighByte LowByte w
           (s\<lparr>avr_Eeprom := (avr_Eeprom s)(eeprom_at (CurrAddress s) := b), CurrAddress := CurrAddress s + 2\<rparr>))"

definition ReadWriteMemoryBlock :: "u8 \<Rightarrow> 'a cdcboot_scheme world \<Rightarrow> 'a cdcboot_scheme \<Rightarrow> ('a cdcboot_scheme, unit) run" where
  "ReadWriteMemoryBlock Command w s =
     bind_run (FetchNextCommandByte w s) (\<lambda>hi s w.
     bind_run (FetchNextCommandByte w s) (\<lambda>lo s w.
     bind_run (FetchNextCommandByte w s) (\<lambda>MemoryType s w.
       let BlockSize = (push_bit 8 (ucast hi) OR ucast lo :: u16)
       in if MemoryType \<noteq> ch CHR ''E'' \<and> MemoryType \<noteq> ch CHR ''F'' then WriteNextResponseByte (ch CHR ''?'') w s
          else if Command = ch CHR ''g'' then read_block (unat BlockSize) MemoryType False w (with_flash boot_rww_enable s)
          else
            let PageStartAddress = CurrAddress s;
                s = (if MemoryType = ch CHR ''F'' then with_flash (boot_page_erase SPM_PAGESIZE (flash_at PageStartAddress)) s else s)
            in bind_run (write_block (unat BlockSize) MemoryType False 0 w s) (\<lambda>_ s w.
                 let s = (if MemoryType = ch CHR ''F'' then with_flash (boot_page_write SPM_PAGESIZE (flash_at PageStartAddress)) s else s)
                 in WriteNextResponseByte (CR) w s))))"

section \<open>Commands\<close>

text \<open>
  \<open>for (CurrFlashAddress = 0; CurrFlashAddress < BOOT_START_ADDR; CurrFlashAddress++)\<close>, whose body adds the size of
  a page as well.
\<close>

function chip_erase :: "u32 \<Rightarrow> 'a cdcboot_scheme \<Rightarrow> 'a cdcboot_scheme" where
  "chip_erase CurrFlashAddress s =
     (if CurrFlashAddress < BOOT_START_ADDR then
        chip_erase (CurrFlashAddress + of_nat SPM_PAGESIZE + 1)
          (with_flash (boot_page_write SPM_PAGESIZE (flash_at CurrFlashAddress))
            (with_flash (boot_page_erase SPM_PAGESIZE (flash_at CurrFlashAddress)) s))
      else s)"
  by pat_completeness auto
termination
  by (relation "measure (\<lambda>(a, s). unat BOOT_START_ADDR - unat a)")
    (auto simp: word_less_nat_alt BOOT_START_ADDR_def SPM_PAGESIZE_def unat_word_ariths)

declare chip_erase.simps [simp del]

text \<open>
  \<open>CurrAddress = (FetchNextCommandByte() << 9); CurrAddress |= (FetchNextCommandByte() << 1);\<close> The bytes are
  promoted to \<open>int\<close>, which has 16 bits, and the shifted values to 32 bits, by their sign.
\<close>

definition set_high :: "u8 \<Rightarrow> u32" where
  "set_high hi = signed (push_bit 9 (ucast hi) :: u16)"

definition or_low :: "u8 \<Rightarrow> u32 \<Rightarrow> u32" where
  "or_low lo a = a OR signed (push_bit 1 (ucast lo) :: u16)"

definition cdcboot_command :: "u8 \<Rightarrow> 'a cdcboot_scheme world \<Rightarrow> 'a cdcboot_scheme \<Rightarrow> ('a cdcboot_scheme, unit) run" where
  "cdcboot_command c w s =
     (if c = ch CHR ''L'' \<or> c = ch CHR ''P'' \<or> c = ch CHR ''T'' \<or> c = ch CHR ''E'' then
        (let s = (if c = ch CHR ''E'' then s\<lparr>cdcboot_RunBootloader := False\<rparr> else s)
         in if c = ch CHR ''T'' then bind_run (FetchNextCommandByte w s) (\<lambda>_ s w. WriteNextResponseByte CR w s)
            else WriteNextResponseByte CR w s)
      else if c = ch CHR ''t'' then respond [0x44, 0x00] w s
      else if c = ch CHR ''a'' then WriteNextResponseByte (ch CHR ''Y'') w s
      else if c = ch CHR ''A'' then
        bind_run (FetchNextCommandByte w s) (\<lambda>hi s w.
        bind_run (FetchNextCommandByte w (s\<lparr>CurrAddress := set_high hi\<rparr>)) (\<lambda>lo s w.
          WriteNextResponseByte CR w (s\<lparr>CurrAddress := or_low lo (CurrAddress s)\<rparr>)))
      else if c = ch CHR ''p'' then WriteNextResponseByte (ch CHR ''S'') w s
      else if c = ch CHR ''S'' then respond SOFTWARE_IDENTIFIER w s
      else if c = ch CHR ''V'' then
        respond [ch CHR ''0'' + BOOTLOADER_VERSION_MAJOR, ch CHR ''0'' + BOOTLOADER_VERSION_MINOR] w s
      else if c = ch CHR ''s'' then respond (rev AVR_SIGNATURE) w s
      else if c = ch CHR ''b'' then
        respond [ch CHR ''Y'', of_nat (SPM_PAGESIZE div 256), of_nat (SPM_PAGESIZE mod 256)] w s
      else if c = ch CHR ''e'' then WriteNextResponseByte CR w (chip_erase 0 s)
      else if c = ch CHR ''l'' then
        bind_run (FetchNextCommandByte w s) (\<lambda>b s w. WriteNextResponseByte CR w (boot_lock_bits_set b s))
      else if c = ch CHR ''r'' then WriteNextResponseByte (avr_LockFuse s GET_LOCK_BITS) w s
      else if c = ch CHR ''F'' then WriteNextResponseByte (avr_LockFuse s GET_LOW_FUSE_BITS) w s
      else if c = ch CHR ''N'' then WriteNextResponseByte (avr_LockFuse s GET_HIGH_FUSE_BITS) w s
      else if c = ch CHR ''Q'' then WriteNextResponseByte (avr_LockFuse s GET_EXTENDED_FUSE_BITS) w s
      else if c = ch CHR ''C'' then
        bind_run (FetchNextCommandByte w s) (\<lambda>b s w.
          WriteNextResponseByte CR w (with_flash (boot_page_fill SPM_PAGESIZE (flash_at (CurrAddress s)) (ucast b)) s))
      else if c = ch CHR ''c'' then
        bind_run (FetchNextCommandByte w s) (\<lambda>b s w.
          let s = with_flash (boot_page_fill SPM_PAGESIZE (flash_at (CurrAddress s OR 1)) (ucast b)) s
          in WriteNextResponseByte CR w (s\<lparr>CurrAddress := CurrAddress s + 2\<rparr>))
      else if c = ch CHR ''m'' then
        WriteNextResponseByte CR w (with_flash (boot_page_write SPM_PAGESIZE (flash_at (CurrAddress s))) s)
      else if c = ch CHR ''B'' \<or> c = ch CHR ''g'' then ReadWriteMemoryBlock c w s
      else if c = ch CHR ''R'' then
        (let ProgramWord = pgm_read_word (flash_at (CurrAddress s)) (avr_Flash s)
         in respond [ucast (drop_bit 8 ProgramWord), ucast (ProgramWord AND 0xFF)] w s)
      else if c = ch CHR ''D'' then
        bind_run (FetchNextCommandByte w s) (\<lambda>b s w.
          WriteNextResponseByte CR w
            (s\<lparr>avr_Eeprom := (avr_Eeprom s)(eeprom_at (CurrAddress s) := b), CurrAddress := CurrAddress s + 2\<rparr>))
      else if c = ch CHR ''d'' then
        bind_run (WriteNextResponseByte (avr_Eeprom s (eeprom_at (CurrAddress s))) w s) (\<lambda>_ s w.
          Inr ((), s\<lparr>CurrAddress := CurrAddress s + 2\<rparr>, w))
      else if c = 27 then Inr ((), s, w)
      else WriteNextResponseByte (ch CHR ''?'') w s)"

text \<open>The end of \<open>CDC_Task\<close>: the answer goes to the host, then the packet of the command is released.\<close>

definition cdcboot_finish :: "'a usb_dev_scheme world \<Rightarrow> 'a usb_dev_scheme \<Rightarrow> ('a usb_dev_scheme, unit) run" where
  "cdcboot_finish w s =
     (let s = Endpoint_SelectEndpoint CDC_TX_EPNUM s;
          IsEndpointFull = \<not> Endpoint_IsReadWriteAllowed s;
          s = Endpoint_ClearIN s;
          last_wait = (\<lambda>s w. bind_run (await_in w s) (\<lambda>ok s w.
            Inr ((), if ok then Endpoint_ClearOUT (Endpoint_SelectEndpoint CDC_RX_EPNUM s) else s, w)))
      in if IsEndpointFull then
           bind_run (await_in w s) (\<lambda>ok s w. if ok then last_wait (Endpoint_ClearIN s) w else Inr ((), s, w))
         else last_wait s w)"

definition CDC_Task :: "'a cdcboot_scheme world \<Rightarrow> 'a cdcboot_scheme \<Rightarrow> ('a cdcboot_scheme, unit) run" where
  "CDC_Task w s =
     (let s = Endpoint_SelectEndpoint CDC_RX_EPNUM s
      in if Endpoint_IsOUTReceived s then
           bind_run (FetchNextCommandByte w s) (\<lambda>Command s w.
           bind_run (cdcboot_command Command w s) (\<lambda>_ s w. cdcboot_finish w s))
         else Inr ((), s, w))"

section \<open>The program\<close>

definition cdcboot_app :: "(u16 \<Rightarrow> u8 \<Rightarrow> u8 list \<times> u16) \<Rightarrow> 'a cdcboot_scheme app" where
  "cdcboot_app descriptors = \<lparr>app_config = cdcboot_ConfigurationChanged, app_unhandled = cdcboot_UnhandledControlRequest,
     app_descriptor = descriptors\<rparr>"

text \<open>\<open>while (RunBootloader)\<close>, cut after \<open>n\<close> passes; the result tells whether the loop was left.\<close>

fun cdcboot_loop :: "nat \<Rightarrow> 'a cdcboot_scheme app \<Rightarrow> 'a cdcboot_scheme world \<Rightarrow> 'a cdcboot_scheme \<Rightarrow> ('a cdcboot_scheme, bool) run" where
  "cdcboot_loop 0 app w s = Inr (\<not> cdcboot_RunBootloader s, s, w)"
| "cdcboot_loop (Suc n) app w s =
     (if cdcboot_RunBootloader s then
        bind_run (CDC_Task w s) (\<lambda>_ s w.
        bind_run (USB_USBTask app w s) (\<lambda>_ s w. cdcboot_loop n app w s))
      else Inr (True, s, w))"

lemma ch_simps [simp]:
  "ch CHR ''L'' = 0x4C" "ch CHR ''P'' = 0x50" "ch CHR ''T'' = 0x54" "ch CHR ''E'' = 0x45" "ch CHR ''t'' = 0x74" "ch CHR ''a'' = 0x61"
  "ch CHR ''A'' = 0x41" "ch CHR ''p'' = 0x70" "ch CHR ''S'' = 0x53" "ch CHR ''V'' = 0x56" "ch CHR ''s'' = 0x73" "ch CHR ''b'' = 0x62"
  "ch CHR ''e'' = 0x65" "ch CHR ''l'' = 0x6C" "ch CHR ''r'' = 0x72" "ch CHR ''F'' = 0x46" "ch CHR ''N'' = 0x4E" "ch CHR ''Q'' = 0x51"
  "ch CHR ''C'' = 0x43" "ch CHR ''c'' = 0x63" "ch CHR ''m'' = 0x6D" "ch CHR ''B'' = 0x42" "ch CHR ''g'' = 0x67" "ch CHR ''R'' = 0x52"
  "ch CHR ''D'' = 0x44" "ch CHR ''d'' = 0x64" "ch CHR ''Y'' = 0x59" "ch CHR ''?'' = 0x3F" "ch CHR ''0'' = 0x30" "ch CHR ''1'' = 0x31"
  by (simp_all add: ch_def)

end
