(* ===== verification/BootDescriptors.thy ===== *)
theory BootDescriptors
  imports Descriptors TeensyBoot CdcBoot
begin

text \<open>
  The descriptors of the three boot loaders (\<open>Bootloaders/DFU/Descriptors.c\<close> and \<open>Bootloaders/CDC/Descriptors.c\<close> for the
  AT90USB1287, \<open>Bootloaders/TeensyHID/Descriptors.c\<close>), and that their descriptor callbacks answer consistently.
\<close>

section \<open>All\<close>

definition USB_CONFIG_ATTR_SELFPOWERED :: u8 where "USB_CONFIG_ATTR_SELFPOWERED = 0xC0"

definition boot_device :: "u8 \<Rightarrow> u16 \<Rightarrow> u16 \<Rightarrow> u16 \<Rightarrow> device_desc" where
  "boot_device ep0 vid pid rel = \<lparr>dd_USBSpecification = 0x0110, dd_Class = 0, dd_SubClass = 0, dd_Protocol = 0,
     dd_Endpoint0Size = ep0, dd_VendorID = vid, dd_ProductID = pid, dd_ReleaseNumber = rel,
     dd_ManufacturerStrIndex = ucast NO_DESCRIPTOR, dd_ProductStrIndex = 1, dd_SerialNumStrIndex = ucast NO_DESCRIPTOR,
     dd_NumberOfConfigurations = FIXED_NUM_CONFIGURATIONS\<rparr>"

definition boot_config_header :: "u16 \<Rightarrow> config_header" where
  "boot_config_header n = \<lparr>ch_TotalConfigurationSize = n, ch_TotalInterfaces = 1, ch_ConfigurationNumber = 1,
     ch_ConfigurationStrIndex = ucast NO_DESCRIPTOR,
     ch_ConfigAttributes = USB_CONFIG_ATTR_BUSPOWERED OR USB_CONFIG_ATTR_SELFPOWERED,
     ch_MaxPowerConsumption = of_nat (USB_CONFIG_POWER_MA 100)\<rparr>"

definition boot_interface :: "u8 \<Rightarrow> u8 \<Rightarrow> u8 \<Rightarrow> u8 \<Rightarrow> interface_desc" where
  "boot_interface n c sc p = \<lparr>if_InterfaceNumber = 0, if_AlternateSetting = 0, if_TotalEndpoints = n, if_Class = c,
     if_SubClass = sc, if_Protocol = p, if_InterfaceStrIndex = ucast NO_DESCRIPTOR\<rparr>"

section \<open>DFU\<close>

definition DTYPE_DFUFunctional :: u8 where "DTYPE_DFUFunctional = 0x21"
definition ATTR_CAN_UPLOAD :: u8 where "ATTR_CAN_UPLOAD = push_bit 1 1"
definition ATTR_CAN_DOWNLOAD :: u8 where "ATTR_CAN_DOWNLOAD = push_bit 0 1"
definition PRODUCT_ID_CODE :: u16 where "PRODUCT_ID_CODE = 0x2FFB"

record dfu_functional =
  df_Attributes :: u8
  df_DetachTimeout :: u16
  df_TransferSize :: u16
  df_DFUSpecification :: u16

definition dfu_functional_bytes :: "dfu_functional \<Rightarrow> u8 list" where
  "dfu_functional_bytes d = [9, DTYPE_DFUFunctional, df_Attributes d] @ le_bytes 2 (df_DetachTimeout d) @
     le_bytes 2 (df_TransferSize d) @ le_bytes 2 (df_DFUSpecification d)"

definition dfu_DeviceDescriptor :: device_desc where
  "dfu_DeviceDescriptor = boot_device (ucast DFU_CONTROL_SIZE) 0x03EB PRODUCT_ID_CODE 0x0000"

definition dfu_config_parts :: "u8 list list" where
  "dfu_config_parts = [config_header_bytes (boot_config_header 27), interface_desc_bytes (boot_interface 0 0xFE 0x01 0x02),
     dfu_functional_bytes \<lparr>df_Attributes = ATTR_CAN_UPLOAD OR ATTR_CAN_DOWNLOAD, df_DetachTimeout = 0x0000,
       df_TransferSize = 0x0c00, df_DFUSpecification = 0x0101\<rparr>]"

definition dfu_ConfigurationDescriptor :: "u8 list" where
  "dfu_ConfigurationDescriptor = concat dfu_config_parts"

definition dfu_ProductString :: "u8 list" where
  "dfu_ProductString = string_desc 18 (wide ''AVR DFU Bootloader'')"

definition dfu_GetDescriptor :: "u16 \<Rightarrow> u8 \<Rightarrow> u8 list \<times> u16" where
  "dfu_GetDescriptor v i =
     (let DescriptorType = (ucast (drop_bit 8 v) :: u8);
          DescriptorNumber = (ucast (v AND 0xFF) :: u8)
      in if DescriptorType = DTYPE_Device then (device_desc_bytes dfu_DeviceDescriptor, 18)
         else if DescriptorType = DTYPE_Configuration then
           (dfu_ConfigurationDescriptor, of_nat (length dfu_ConfigurationDescriptor))
         else if DescriptorType = DTYPE_String then
           (if DescriptorNumber = 0 then (LanguageString, ucast (LanguageString ! 0))
            else (dfu_ProductString, ucast (dfu_ProductString ! 0)))
         else ([], NO_DESCRIPTOR))"

section \<open>Teensy\<close>

definition DTYPE_HID :: u8 where "DTYPE_HID = 0x21"
definition DTYPE_Report :: u8 where "DTYPE_Report = 0x22"

record hid_desc =
  hd_HIDSpec :: u16
  hd_CountryCode :: u8
  hd_TotalHIDDescriptors :: u8
  hd_HIDReportType :: u8
  hd_HIDReportLength :: u16

definition hid_desc_bytes :: "hid_desc \<Rightarrow> u8 list" where
  "hid_desc_bytes d = [9, DTYPE_HID] @ le_bytes 2 (hd_HIDSpec d) @
     [hd_CountryCode d, hd_TotalHIDDescriptors d, hd_HIDReportType d] @ le_bytes 2 (hd_HIDReportLength d)"

definition HIDReport :: "u8 list" where
  "HIDReport = [0x06, 0x9c, 0xff, 0x09, 0x19, 0xa1, 0x01, 0x0a, 0x19, 0x00, 0x75, 0x08, 0x95, 0x82, 0x15, 0x00,
     0x25, 0xff, 0x91, 0x02, 0xc0]"

definition teensy_DeviceDescriptor :: device_desc where
  "teensy_DeviceDescriptor = boot_device (ucast USB_ControlEndpointSize) 0x16C0 0x0478 0x0010"

definition teensy_HIDDescriptor :: "u8 list" where
  "teensy_HIDDescriptor = hid_desc_bytes \<lparr>hd_HIDSpec = 0x0111, hd_CountryCode = 0, hd_TotalHIDDescriptors = 1,
     hd_HIDReportType = DTYPE_Report, hd_HIDReportLength = of_nat (length HIDReport)\<rparr>"

definition teensy_config_parts :: "u8 list list" where
  "teensy_config_parts = [config_header_bytes (boot_config_header 34), interface_desc_bytes (boot_interface 1 0x03 0x00 0x00),
     teensy_HIDDescriptor,
     endpoint_desc_bytes \<lparr>ed_EndpointAddress = ENDPOINT_DESCRIPTOR_DIR_IN OR HID_EPNUM,
       ed_Attributes = EP_TYPE_INTERRUPT OR ENDPOINT_ATTR_NO_SYNC OR ENDPOINT_USAGE_DATA,
       ed_EndpointSize = HID_EPSIZE, ed_PollingIntervalMS = 0x40\<rparr>]"

definition teensy_ConfigurationDescriptor :: "u8 list" where
  "teensy_ConfigurationDescriptor = concat teensy_config_parts"

definition teensy_ProductString :: "u8 list" where
  "teensy_ProductString = string_desc 21 (wide ''AVR Teensy Bootloader'')"

text \<open>\<open>&ConfigurationDescriptor.HIDDescriptor\<close> points into the configuration, whose tail follows it in memory.\<close>

definition teensy_GetDescriptor :: "u16 \<Rightarrow> u8 \<Rightarrow> u8 list \<times> u16" where
  "teensy_GetDescriptor v i =
     (let DescriptorType = (ucast (drop_bit 8 v) :: u8);
          DescriptorNumber = (ucast (v AND 0xFF) :: u8)
      in if DescriptorType = DTYPE_Device then (device_desc_bytes teensy_DeviceDescriptor, 18)
         else if DescriptorType = DTYPE_Configuration then
           (teensy_ConfigurationDescriptor, of_nat (length teensy_ConfigurationDescriptor))
         else if DescriptorType = DTYPE_String then
           (if DescriptorNumber = 0 then (LanguageString, ucast (LanguageString ! 0))
            else (teensy_ProductString, ucast (teensy_ProductString ! 0)))
         else if DescriptorType = DTYPE_HID then (drop 18 teensy_ConfigurationDescriptor, 9)
         else if DescriptorType = DTYPE_Report then (HIDReport, of_nat (length HIDReport))
         else ([], NO_DESCRIPTOR))"

section \<open>CDC\<close>

definition cdcboot_DeviceDescriptor :: device_desc where
  "cdcboot_DeviceDescriptor = (boot_device (ucast USB_ControlEndpointSize) 0x03EB 0x204A 0x0000)\<lparr>dd_Class := 0x02\<rparr>"

text \<open>\<open>CDC_FUNCTIONAL_DESCRIPTOR(n)\<close>, of type \<open>0x24\<close>.\<close>

definition cdc_functional_bytes :: "u8 \<Rightarrow> u8 list \<Rightarrow> u8 list" where
  "cdc_functional_bytes SubType Data = [of_nat (3 + length Data), 0x24, SubType] @ Data"

definition cdcboot_interface :: "u8 \<Rightarrow> u8 \<Rightarrow> u8 \<Rightarrow> u8 \<Rightarrow> u8 \<Rightarrow> interface_desc" where
  "cdcboot_interface i n c sc p = (boot_interface n c sc p)\<lparr>if_InterfaceNumber := i\<rparr>"

definition cdcboot_endpoints :: "endpoint_desc list" where
  "cdcboot_endpoints =
     [\<lparr>ed_EndpointAddress = ENDPOINT_DESCRIPTOR_DIR_IN OR CDC_NOTIFICATION_EPNUM,
       ed_Attributes = CDC_TYPE_INTERRUPT OR ENDPOINT_ATTR_NO_SYNC OR ENDPOINT_USAGE_DATA,
       ed_EndpointSize = CDC_NOTIFICATION_EPSIZE, ed_PollingIntervalMS = 0x02\<rparr>,
      \<lparr>ed_EndpointAddress = ENDPOINT_DESCRIPTOR_DIR_OUT OR CDC_RX_EPNUM,
       ed_Attributes = EP_TYPE_BULK OR ENDPOINT_ATTR_NO_SYNC OR ENDPOINT_USAGE_DATA,
       ed_EndpointSize = CDC_TXRX_EPSIZE, ed_PollingIntervalMS = 0x00\<rparr>,
      \<lparr>ed_EndpointAddress = ENDPOINT_DESCRIPTOR_DIR_IN OR CDC_TX_EPNUM,
       ed_Attributes = EP_TYPE_BULK OR ENDPOINT_ATTR_NO_SYNC OR ENDPOINT_USAGE_DATA,
       ed_EndpointSize = CDC_TXRX_EPSIZE, ed_PollingIntervalMS = 0x00\<rparr>]"

definition cdcboot_config_parts :: "u8 list list" where
  "cdcboot_config_parts =
     [config_header_bytes ((boot_config_header 67)\<lparr>ch_TotalInterfaces := 2\<rparr>),
      interface_desc_bytes (cdcboot_interface 0 1 0x02 0x02 0x01),
      cdc_functional_bytes 0x00 [0x10, 0x01], cdc_functional_bytes 0x01 [0x03, 0x01], cdc_functional_bytes 0x02 [0x06],
      cdc_functional_bytes 0x06 [0x00, 0x01],
      endpoint_desc_bytes (cdcboot_endpoints ! 0),
      interface_desc_bytes (cdcboot_interface 1 2 0x0A 0x00 0x00),
      endpoint_desc_bytes (cdcboot_endpoints ! 1), endpoint_desc_bytes (cdcboot_endpoints ! 2)]"

definition cdcboot_ConfigurationDescriptor :: "u8 list" where
  "cdcboot_ConfigurationDescriptor = concat cdcboot_config_parts"

definition cdcboot_ProductString :: "u8 list" where
  "cdcboot_ProductString = string_desc 18 (wide ''AVR CDC Bootloader'')"

definition cdcboot_GetDescriptor :: "u16 \<Rightarrow> u8 \<Rightarrow> u8 list \<times> u16" where
  "cdcboot_GetDescriptor v i =
     (let DescriptorType = (ucast (drop_bit 8 v) :: u8);
          DescriptorNumber = (ucast (v AND 0xFF) :: u8)
      in if DescriptorType = DTYPE_Device then (device_desc_bytes cdcboot_DeviceDescriptor, 18)
         else if DescriptorType = DTYPE_Configuration then
           (cdcboot_ConfigurationDescriptor, of_nat (length cdcboot_ConfigurationDescriptor))
         else if DescriptorType = DTYPE_String then
           (if DescriptorNumber = 0 then (LanguageString, ucast (LanguageString ! 0))
            else (cdcboot_ProductString, ucast (cdcboot_ProductString ! 0)))
         else ([], NO_DESCRIPTOR))"

section \<open>Consistency\<close>

lemma boot_config_sizes:
  "map length dfu_config_parts = [9, 9, 9]" "length dfu_ConfigurationDescriptor = 27"
  "map length teensy_config_parts = [9, 9, 9, 7]" "length teensy_ConfigurationDescriptor = 34" "length HIDReport = 21"
  by (simp_all add: dfu_config_parts_def dfu_ConfigurationDescriptor_def teensy_config_parts_def teensy_ConfigurationDescriptor_def
      config_header_bytes_def interface_desc_bytes_def endpoint_desc_bytes_def dfu_functional_bytes_def hid_desc_bytes_def
      teensy_HIDDescriptor_def HIDReport_def)

text \<open>The object answers a request for type \<open>t\<close>: it has the type, and the size as its own or its total size.\<close>

definition answers :: "u8 \<Rightarrow> u8 list \<times> u16 \<Rightarrow> bool" where
  "answers t d \<longleftrightarrow> unat (snd d) \<le> length (fst d) \<and>
     (snd d = NO_DESCRIPTOR \<or> fst d ! 1 = t \<and>
       (if t = DTYPE_Configuration then le_word [fst d ! 2, fst d ! 3] = snd d else unat (fst d ! 0) = unat (snd d)))"

lemma device_desc_answers: "answers DTYPE_Device (device_desc_bytes d, 18)"
  by (simp add: answers_def device_desc_bytes_def desc_consts)

lemma string_desc_answers:
  assumes "n \<le> length cs" "n < 127"
  shows "answers DTYPE_String (string_desc n cs, ucast (string_desc n cs ! 0))"
proof -
  have "unat (ucast (of_nat (2 + 2 * n) :: u8) :: u16) = 2 + 2 * n" "unat (of_nat (2 + 2 * n) :: u8) = 2 + 2 * n"
    using assms(2) by (simp_all only: unsigned_ucast_eq unat_of_nat) (simp_all add: take_bit_nat_eq_self)
  then show ?thesis
    using assms(1) by (simp add: answers_def string_desc_def desc_consts length_concat_map2 del: of_nat_add of_nat_mult)
qed

lemma LanguageString_answers: "answers DTYPE_String (LanguageString, ucast (LanguageString ! 0))"
  unfolding LanguageString_def by (rule string_desc_answers) simp_all

lemma boot_strings_answer:
  "answers DTYPE_String (dfu_ProductString, ucast (dfu_ProductString ! 0))"
  "answers DTYPE_String (teensy_ProductString, ucast (teensy_ProductString ! 0))"
  unfolding dfu_ProductString_def teensy_ProductString_def by (rule string_desc_answers, simp_all add: wide_def)+

lemma boot_configs_answer:
  "answers DTYPE_Configuration (dfu_ConfigurationDescriptor, 27)"
  "answers DTYPE_Configuration (teensy_ConfigurationDescriptor, 34)"
  "answers DTYPE_HID (drop 18 teensy_ConfigurationDescriptor, 9)"
  by (simp_all add: answers_def boot_config_sizes)
    (simp_all add: dfu_ConfigurationDescriptor_def dfu_config_parts_def teensy_ConfigurationDescriptor_def teensy_config_parts_def
      config_header_bytes_def boot_config_header_def interface_desc_bytes_def teensy_HIDDescriptor_def hid_desc_bytes_def le_bytes_2
      desc_consts DTYPE_HID_def)

lemma no_answer: "answers t ([], NO_DESCRIPTOR)"
  by (simp add: answers_def NO_DESCRIPTOR_def)

lemma dfu_GetDescriptor_answers: "answers (ucast (drop_bit 8 v)) (dfu_GetDescriptor v i)"
  using device_desc_answers LanguageString_answers boot_strings_answer(1) boot_configs_answer(1) no_answer
  by (simp add: dfu_GetDescriptor_def Let_def boot_config_sizes)

text \<open>The report descriptor is no descriptor with a header; the HID descriptor names its type and size.\<close>

lemma teensy_GetDescriptor_answers:
  "if ucast (drop_bit 8 v) = DTYPE_Report
   then teensy_GetDescriptor v i = (HIDReport, le_word (take 2 (drop 25 teensy_ConfigurationDescriptor))) \<and>
     teensy_ConfigurationDescriptor ! 24 = DTYPE_Report
   else answers (ucast (drop_bit 8 v)) (teensy_GetDescriptor v i)"
proof -
  have "teensy_ConfigurationDescriptor ! 24 = DTYPE_Report" "le_word (take 2 (drop 25 teensy_ConfigurationDescriptor)) = (21 :: u16)"
    by (simp_all add: teensy_ConfigurationDescriptor_def teensy_config_parts_def config_header_bytes_def interface_desc_bytes_def
        teensy_HIDDescriptor_def hid_desc_bytes_def le_bytes_2 boot_config_sizes)
  then show ?thesis
    using device_desc_answers LanguageString_answers boot_strings_answer(2) boot_configs_answer(2,3) no_answer
    by (simp add: teensy_GetDescriptor_def Let_def boot_config_sizes desc_consts DTYPE_Report_def DTYPE_HID_def)
qed

text \<open>The report of the descriptor, 130 bytes, is an address and a page of the AT90USB162, not of the AT90USB646.\<close>

lemma HIDReport_count:
  "unat (HIDReport ! 13) = 2 + part_page AT90USB162" "unat (HIDReport ! 13) \<noteq> 2 + part_page AT90USB646"
  by (simp_all add: HIDReport_def AT90USB162_def AT90USB646_def)

lemma cdcboot_config_sizes:
  "map length cdcboot_config_parts = [9, 9, 5, 5, 4, 5, 7, 9, 7, 7]" "length cdcboot_ConfigurationDescriptor = 67"
  by (simp_all add: cdcboot_config_parts_def cdcboot_ConfigurationDescriptor_def config_header_bytes_def interface_desc_bytes_def
      endpoint_desc_bytes_def cdc_functional_bytes_def)

lemma cdcboot_answer:
  "answers DTYPE_Configuration (cdcboot_ConfigurationDescriptor, 67)"
  "answers DTYPE_String (cdcboot_ProductString, ucast (cdcboot_ProductString ! 0))"
proof -
  show "answers DTYPE_Configuration (cdcboot_ConfigurationDescriptor, 67)"
    by (simp add: answers_def cdcboot_config_sizes)
      (simp add: cdcboot_ConfigurationDescriptor_def cdcboot_config_parts_def config_header_bytes_def boot_config_header_def le_bytes_2 desc_consts)
  show "answers DTYPE_String (cdcboot_ProductString, ucast (cdcboot_ProductString ! 0))"
    unfolding cdcboot_ProductString_def by (rule string_desc_answers) (simp_all add: wide_def)
qed

lemma cdcboot_GetDescriptor_answers: "answers (ucast (drop_bit 8 v)) (cdcboot_GetDescriptor v i)"
  using device_desc_answers LanguageString_answers cdcboot_answer no_answer
  by (simp add: cdcboot_GetDescriptor_def Let_def cdcboot_config_sizes)

end
