(* ===== verification/Scheduler.thy ===== *)
theory Scheduler
  imports Prelude
begin

text \<open>
  The task scheduler of the library (\<open>LUFA/Scheduler/Scheduler.c\<close>, \<open>Scheduler.h\<close>): delays measured on a tick
  counter of 16 bits that wraps around, tasks switched on and off one by one and in groups, and the round
  robin that runs them. A task is an argument, as what it does to the state.
\<close>

section \<open>The scheduler\<close>

record 'task task_entry =
  te_Task :: 'task
  te_TaskStatus :: bool
  te_GroupID :: u8

record 'task sched =
  Scheduler_TickCounter :: u16
  Scheduler_TotalTasks :: u8
  Scheduler_TaskList :: "'task task_entry list"

definition MAX_DELAYCTR_COUNT :: u16 where "MAX_DELAYCTR_COUNT = 0xFFFF"
definition TASK_MAX_DELAY :: u16 where "TASK_MAX_DELAY = MAX_DELAYCTR_COUNT - 1"

text \<open>The result, and the new value of \<open>*DelayCounter\<close>.\<close>

definition Scheduler_HasDelayElapsed :: "u16 \<Rightarrow> u16 \<Rightarrow> ('task, 'x) sched_scheme \<Rightarrow> bool \<times> u16" where
  "Scheduler_HasDelayElapsed Delay DelayCounter s =
     (let CurrentTickValue_LCL = Scheduler_TickCounter s
      in if CurrentTickValue_LCL \<ge> DelayCounter
         then (if CurrentTickValue_LCL - DelayCounter \<ge> Delay then (True, CurrentTickValue_LCL) else (False, DelayCounter))
         else (if (MAX_DELAYCTR_COUNT - DelayCounter) + CurrentTickValue_LCL \<ge> Delay then (True, CurrentTickValue_LCL)
               else (False, DelayCounter)))"

definition Scheduler_ResetDelay :: "('task, 'x) sched_scheme \<Rightarrow> u16" where
  "Scheduler_ResetDelay s = Scheduler_TickCounter s"

text \<open>The walks over the table, \<open>n\<close> entries to go; an entry behind the end of the table is a fault.\<close>

datatype sched_stop = TableOverrun

fun task_walk :: "nat \<Rightarrow> 'task \<Rightarrow> bool \<Rightarrow> 'task task_entry list \<Rightarrow> sched_stop + 'task task_entry list" where
  "task_walk 0 Task TaskStatus ts = Inr ts"
| "task_walk (Suc n) Task TaskStatus [] = Inl TableOverrun"
| "task_walk (Suc n) Task TaskStatus (e # ts) =
     (if te_Task e = Task then Inr (e\<lparr>te_TaskStatus := TaskStatus\<rparr> # ts)
      else case task_walk n Task TaskStatus ts of Inl x \<Rightarrow> Inl x | Inr ts \<Rightarrow> Inr (e # ts))"

fun group_walk :: "nat \<Rightarrow> u8 \<Rightarrow> bool \<Rightarrow> 'task task_entry list \<Rightarrow> sched_stop + 'task task_entry list" where
  "group_walk 0 GroupID TaskStatus ts = Inr ts"
| "group_walk (Suc n) GroupID TaskStatus [] = Inl TableOverrun"
| "group_walk (Suc n) GroupID TaskStatus (e # ts) =
     (case group_walk n GroupID TaskStatus ts of
        Inl x \<Rightarrow> Inl x
      | Inr ts \<Rightarrow> Inr ((if te_GroupID e = GroupID then e\<lparr>te_TaskStatus := TaskStatus\<rparr> else e) # ts))"

definition Scheduler_SetTaskMode :: "'task \<Rightarrow> bool \<Rightarrow> ('task, 'x) sched_scheme \<Rightarrow> sched_stop + ('task, 'x) sched_scheme" where
  "Scheduler_SetTaskMode Task TaskStatus s =
     (case task_walk (unat (Scheduler_TotalTasks s)) Task TaskStatus (Scheduler_TaskList s) of
        Inl x \<Rightarrow> Inl x | Inr ts \<Rightarrow> Inr (s\<lparr>Scheduler_TaskList := ts\<rparr>))"

definition Scheduler_SetGroupTaskMode :: "u8 \<Rightarrow> bool \<Rightarrow> ('task, 'x) sched_scheme \<Rightarrow> sched_stop + ('task, 'x) sched_scheme" where
  "Scheduler_SetGroupTaskMode GroupID TaskStatus s =
     (case group_walk (unat (Scheduler_TotalTasks s)) GroupID TaskStatus (Scheduler_TaskList s) of
        Inl x \<Rightarrow> Inl x | Inr ts \<Rightarrow> Inr (s\<lparr>Scheduler_TaskList := ts\<rparr>))"

definition Scheduler_InitScheduler :: "u8 \<Rightarrow> ('task, 'x) sched_scheme \<Rightarrow> ('task, 'x) sched_scheme" where
  "Scheduler_InitScheduler TotalTasks s = s\<lparr>Scheduler_TotalTasks := TotalTasks\<rparr>"

text \<open>One pass over the table from entry \<open>i\<close> on, \<open>n\<close> entries to go; a task may change the table.\<close>

fun sched_pass :: "('task \<Rightarrow> ('task, 'x) sched_scheme \<Rightarrow> ('task, 'x) sched_scheme) \<Rightarrow> nat \<Rightarrow> nat \<Rightarrow> ('task, 'x) sched_scheme \<Rightarrow>
    sched_stop + ('task, 'x) sched_scheme" where
  "sched_pass exec 0 i s = Inr s"
| "sched_pass exec (Suc n) i s =
     (if i < length (Scheduler_TaskList s) then
        let e = Scheduler_TaskList s ! i
        in sched_pass exec n (i + 1) (if te_TaskStatus e then exec (te_Task e) s else s)
      else Inl TableOverrun)"

text \<open>\<open>for (;;)\<close>, cut after \<open>k\<close> passes.\<close>

fun sched_passes :: "('task \<Rightarrow> ('task, 'x) sched_scheme \<Rightarrow> ('task, 'x) sched_scheme) \<Rightarrow> nat \<Rightarrow> u8 \<Rightarrow> ('task, 'x) sched_scheme \<Rightarrow>
    sched_stop + ('task, 'x) sched_scheme" where
  "sched_passes exec 0 TotalTasks s = Inr s"
| "sched_passes exec (Suc k) TotalTasks s =
     (case sched_pass exec (unat TotalTasks) 0 s of Inl x \<Rightarrow> Inl x | Inr s \<Rightarrow> sched_passes exec k TotalTasks s)"

definition Scheduler_GoSchedule :: "('task \<Rightarrow> ('task, 'x) sched_scheme \<Rightarrow> ('task, 'x) sched_scheme) \<Rightarrow> nat \<Rightarrow> u8 \<Rightarrow>
    ('task, 'x) sched_scheme \<Rightarrow> sched_stop + ('task, 'x) sched_scheme" where
  "Scheduler_GoSchedule exec k TotalTasks s = sched_passes exec k TotalTasks (Scheduler_InitScheduler TotalTasks s)"

section \<open>Delays\<close>

text \<open>The tick counter \<open>e\<close> ticks after it read \<open>t0\<close>.\<close>

lemma tick_wrap:
  fixes t0 :: u16
  assumes "e < 65536"
  shows "unat (t0 + of_nat e) = (if unat t0 + e < 65536 then unat t0 + e else unat t0 + e - 65536)"
  using assms unat_less_u16 [of t0]
  by (simp add: unat_word_ariths unat_of_nat take_bit_nat_eq_self mod_if)

text \<open>\<open>e\<close> ticks after the counter was reset, the delay has elapsed exactly when it is at most \<open>e\<close>; but one tick more is
  needed when the tick counter wrapped around meanwhile. When it has elapsed the counter is reset.\<close>

lemma Scheduler_HasDelayElapsed_ticks:
  assumes "Scheduler_TickCounter s = t0 + of_nat e" "e < 65536"
  shows "Scheduler_HasDelayElapsed Delay t0 s =
    (if unat Delay + (if unat t0 + e < 65536 then 0 else 1) \<le> e then (True, t0 + of_nat e) else (False, t0))"
proof (cases "unat t0 + e < 65536")
  case True
  then have "t0 \<le> t0 + of_nat e" "unat (t0 + of_nat e - t0) = e"
    using tick_wrap [OF assms(2), of t0] assms(2) by (simp_all add: word_le_nat_alt unat_of_nat take_bit_nat_eq_self)
  then show ?thesis
    using True by (simp add: Scheduler_HasDelayElapsed_def assms(1) word_le_nat_alt)
next
  case False
  let ?c = "t0 + of_nat e"
  have c: "unat ?c = unat t0 + e - 65536" using False tick_wrap [OF assms(2), of t0] by simp
  then have lt: "\<not> t0 \<le> ?c" using assms(2) False unat_less_u16 [of t0] by (simp add: word_le_nat_alt)
  have "unat (MAX_DELAYCTR_COUNT - t0) = 65535 - unat t0"
    using unat_less_u16 [of t0] by (subst unat_sub) (simp_all add: MAX_DELAYCTR_COUNT_def word_le_nat_alt)
  then have "unat (MAX_DELAYCTR_COUNT - t0 + ?c) = e - 1"
    using c False assms(2) unat_less_u16 [of t0] by (subst unat_word_ariths) simp
  moreover have "1 \<le> e" using False unat_less_u16 [of t0] by simp
  ultimately show ?thesis
    using False lt by (auto simp: Scheduler_HasDelayElapsed_def assms(1) Let_def word_le_nat_alt)
qed

definition sched_at :: "u16 \<Rightarrow> nat sched" where
  "sched_at t = \<lparr>Scheduler_TickCounter = t, Scheduler_TotalTasks = 0, Scheduler_TaskList = []\<rparr>"

lemma Scheduler_HasDelayElapsed_ticks_instance:
  "Scheduler_HasDelayElapsed 16 0xFFF8 (sched_at 8) = (False, 0xFFF8) \<and>
   fst (Scheduler_HasDelayElapsed 16 0xFFF8 (sched_at 9)) \<and>
   Scheduler_HasDelayElapsed 16 0xFFE8 (sched_at 0xFFF8) = (True, 0xFFF8)"
  using Scheduler_HasDelayElapsed_ticks [of "sched_at 8" "0xFFF8" 16 16] Scheduler_HasDelayElapsed_ticks [of "sched_at 9" "0xFFF8" 17 16]
    Scheduler_HasDelayElapsed_ticks [of "sched_at 0xFFF8" "0xFFE8" 16 16]
  by (simp add: sched_at_def)

section \<open>Tasks\<close>

lemma group_walk_eq:
  "n \<le> length ts \<Longrightarrow> group_walk n g v ts = Inr (map (\<lambda>e. if te_GroupID e = g then e\<lparr>te_TaskStatus := v\<rparr> else e) (take n ts) @ drop n ts)"
  by (induction n g v ts rule: group_walk.induct) auto

lemma task_walk_first:
  assumes "n \<le> length ts" "i < n" "te_Task (ts ! i) = t" "\<forall>j < i. te_Task (ts ! j) \<noteq> t"
  shows "task_walk n t v ts = Inr (ts[i := (ts ! i)\<lparr>te_TaskStatus := v\<rparr>])"
  using assms
proof (induction n t v ts arbitrary: i rule: task_walk.induct)
  case (3 n t v e ts)
  show ?case
  proof (cases i)
    case (Suc j)
    then have "te_Task e \<noteq> t" "\<forall>k < j. te_Task (ts ! k) \<noteq> t" using "3.prems"(4) by auto
    then show ?thesis using "3.IH" [of j] "3.prems" Suc by simp
  qed (use "3.prems" in simp)
qed auto

text \<open>The walks overrun the table exactly when the count is larger than the table, and nothing stops them before.\<close>

lemma walk_overrun:
  "group_walk n g v ts = Inl x \<longleftrightarrow> length ts < n"
  "task_walk n t v ts = Inl x \<longleftrightarrow> length ts < n \<and> t \<notin> te_Task ` set ts"
proof -
  show "group_walk n g v ts = Inl x \<longleftrightarrow> length ts < n"
    by (induction n g v ts rule: group_walk.induct) (auto split: sum.splits, (cases x, auto)+)
  show "task_walk n t v ts = Inl x \<longleftrightarrow> length ts < n \<and> t \<notin> te_Task ` set ts"
    by (induction n t v ts rule: task_walk.induct) (auto split: sum.splits, (cases x, auto)+)
qed

text \<open>As long as the tasks leave the table alone, a pass runs those that are switched on, in order, once each.\<close>

definition running :: "'task task_entry list \<Rightarrow> 'task list" where
  "running ts = map te_Task (filter te_TaskStatus ts)"

lemma sched_pass_runs:
  assumes "\<And>t s. Scheduler_TaskList (exec t s) = Scheduler_TaskList s" "i + n \<le> length (Scheduler_TaskList s)"
  shows "sched_pass exec n i s = Inr (fold exec (running (take n (drop i (Scheduler_TaskList s)))) s)"
  using assms(2)
proof (induction n arbitrary: i s)
  case (Suc n)
  let ?e = "Scheduler_TaskList s ! i"
  have d: "take (Suc n) (drop i (Scheduler_TaskList s)) = ?e # take n (drop (i + 1) (Scheduler_TaskList s))"
    using Suc.prems by (simp add: Cons_nth_drop_Suc [symmetric])
  show ?case
    using Suc assms(1) unfolding d by (simp add: running_def Let_def)
qed (simp add: running_def)

lemma fold_keeps: "(\<And>t s. f (exec t s) = f s) \<Longrightarrow> f (fold exec ts s) = f s"
  by (induction ts arbitrary: s) auto

lemma Scheduler_GoSchedule_fair:
  assumes "\<And>t s. Scheduler_TaskList (exec t s) = Scheduler_TaskList s" "unat n = length (Scheduler_TaskList s)"
  shows "Scheduler_GoSchedule exec k n s =
    Inr (fold exec (concat (replicate k (running (Scheduler_TaskList s)))) (s\<lparr>Scheduler_TotalTasks := n\<rparr>))"
proof -
  have "sched_passes exec k n s' = Inr (fold exec (concat (replicate k (running (Scheduler_TaskList s')))) s')"
    if "unat n = length (Scheduler_TaskList s')" for s'
    using that
  proof (induction k arbitrary: s')
    case (Suc k)
    let ?s = "fold exec (running (Scheduler_TaskList s')) s'"
    have l: "Scheduler_TaskList ?s = Scheduler_TaskList s'" using assms(1) by (rule fold_keeps)
    show ?case using sched_pass_runs [of exec 0 "unat n" s'] assms(1) Suc.prems Suc.IH [of ?s] l by simp
  qed simp
  then show ?thesis using assms(2) by (simp add: Scheduler_GoSchedule_def Scheduler_InitScheduler_def)
qed

end
