(* ===== verification/RingBuffer.thy ===== *)
theory RingBuffer
  imports Prelude
begin

text \<open>
  The ring buffer of the serial projects (\<open>Projects/USBtoSerial/Lib/RingBuff.c\<close>, the same file in
  \<open>Projects/Benito/Lib\<close>), in all the modes its header offers, and that it is a queue: an interface for
  queues of bytes, which the buffer provides in each mode that checks for a full buffer.
\<close>

section \<open>The buffer\<close>

text \<open>Pointers into the buffer are indices. With \<open>-funsigned-char\<close> the count is a \<open>uint8_t\<close>.\<close>

record ring =
  rb_Buffer :: "u8 list"
  rb_InPtr :: nat
  rb_OutPtr :: nat
  rb_Elements :: u8

datatype drop_mode = BUFF_DROPOLD | BUFF_DROPNEW | BUFF_NODROPCHECK
datatype empty_mode = BUFF_EMPTYRETURNSZERO | BUFF_NOEMPTYCHECK

definition BUFF_LENGTH :: nat where "BUFF_LENGTH = 128"

definition rb_next :: "nat \<Rightarrow> nat" where
  "rb_next p = (if p + 1 = BUFF_LENGTH then 0 else p + 1)"

definition Buffer_Initialize :: "ring \<Rightarrow> ring" where
  "Buffer_Initialize b = b\<lparr>rb_InPtr := 0, rb_OutPtr := 0, rb_Elements := 0\<rparr>"

definition rb_write :: "u8 \<Rightarrow> ring \<Rightarrow> ring" where
  "rb_write d b = b\<lparr>rb_Buffer := (rb_Buffer b)[rb_InPtr b := d], rb_InPtr := rb_next (rb_InPtr b)\<rparr>"

definition Buffer_StoreElement :: "drop_mode \<Rightarrow> u8 \<Rightarrow> ring \<Rightarrow> ring" where
  "Buffer_StoreElement mode d b =
     (case mode of
        BUFF_DROPOLD \<Rightarrow>
          rb_write d (if unat (rb_Elements b) = BUFF_LENGTH then b\<lparr>rb_OutPtr := rb_next (rb_OutPtr b)\<rparr>
                      else b\<lparr>rb_Elements := rb_Elements b + 1\<rparr>)
      | BUFF_DROPNEW \<Rightarrow>
          if unat (rb_Elements b) = BUFF_LENGTH then b else rb_write d (b\<lparr>rb_Elements := rb_Elements b + 1\<rparr>)
      | BUFF_NODROPCHECK \<Rightarrow> rb_write d (b\<lparr>rb_Elements := rb_Elements b + 1\<rparr>))"

definition Buffer_GetElement :: "empty_mode \<Rightarrow> ring \<Rightarrow> u8 \<times> ring" where
  "Buffer_GetElement mode b =
     (if mode = BUFF_EMPTYRETURNSZERO \<and> rb_Elements b = 0 then (0, b)
      else (rb_Buffer b ! rb_OutPtr b, b\<lparr>rb_OutPtr := rb_next (rb_OutPtr b), rb_Elements := rb_Elements b - 1\<rparr>))"

definition Buffer_PeekElement :: "empty_mode \<Rightarrow> ring \<Rightarrow> u8" where
  "Buffer_PeekElement mode b =
     (if mode = BUFF_EMPTYRETURNSZERO \<and> rb_Elements b = 0 then 0 else rb_Buffer b ! rb_OutPtr b)"

section \<open>Its contents\<close>

definition ring_ok :: "ring \<Rightarrow> bool" where
  "ring_ok b \<longleftrightarrow> length (rb_Buffer b) = 128 \<and> rb_OutPtr b < 128 \<and> unat (rb_Elements b) \<le> 128 \<and>
     rb_InPtr b = (rb_OutPtr b + unat (rb_Elements b)) mod 128"

definition ring_contents :: "ring \<Rightarrow> u8 list" where
  "ring_contents b = map (\<lambda>k. rb_Buffer b ! ((rb_OutPtr b + k) mod 128)) [0..<unat (rb_Elements b)]"

lemma length_ring_contents [simp]: "length (ring_contents b) = unat (rb_Elements b)"
  by (simp add: ring_contents_def)

lemma rb_next_mod: "p < 128 \<Longrightarrow> rb_next p = (p + 1) mod 128"
  by (simp add: rb_next_def BUFF_LENGTH_def mod_Suc)

lemma Initialize_ring: "length (rb_Buffer b) = 128 \<Longrightarrow> ring_ok (Buffer_Initialize b) \<and> ring_contents (Buffer_Initialize b) = []"
  by (simp add: ring_ok_def ring_contents_def Buffer_Initialize_def)

lemma unat_Suc_u8: "unat w < 255 \<Longrightarrow> unat (w + 1 :: u8) = Suc (unat w)"
  by (simp add: unat_word_ariths)

lemma mod_neq: "(o' + k) mod 128 \<noteq> (o' + e) mod (128 :: nat)" if "k < e" "e < k + 128"
proof
  assume "(o' + k) mod 128 = (o' + e) mod 128"
  then have "128 dvd (o' + e) - (o' + k)" using that by (metis mod_eq_dvd_iff_nat add_left_mono less_imp_le)
  then show False using that by (auto dest: dvd_imp_le)
qed

lemma store_with_room:
  assumes "ring_ok b" "unat (rb_Elements b) < 128"
  shows "ring_ok (rb_write d (b\<lparr>rb_Elements := rb_Elements b + 1\<rparr>))"
    "ring_contents (rb_write d (b\<lparr>rb_Elements := rb_Elements b + 1\<rparr>)) = ring_contents b @ [d]"
proof -
  let ?e = "unat (rb_Elements b)"
  have e: "unat (rb_Elements b + 1) = Suc ?e" using assms(2) by (intro unat_Suc_u8) simp
  have i: "rb_InPtr b = (rb_OutPtr b + ?e) mod 128" "rb_InPtr b < 128" using assms(1) by (simp_all add: ring_ok_def)
  show "ring_ok (rb_write d (b\<lparr>rb_Elements := rb_Elements b + 1\<rparr>))"
    using assms i e by (simp add: ring_ok_def rb_write_def rb_next_mod mod_Suc_eq)
  show "ring_contents (rb_write d (b\<lparr>rb_Elements := rb_Elements b + 1\<rparr>)) = ring_contents b @ [d]"
    using assms i mod_neq [of _ ?e "rb_OutPtr b", THEN not_sym]
    by (auto simp: ring_contents_def rb_write_def e ring_ok_def nth_list_update_neq)
qed

lemma store_full:
  assumes "ring_ok b" "unat (rb_Elements b) = 128"
  shows "ring_ok (rb_write d (b\<lparr>rb_OutPtr := rb_next (rb_OutPtr b)\<rparr>))"
    "ring_contents (rb_write d (b\<lparr>rb_OutPtr := rb_next (rb_OutPtr b)\<rparr>)) = tl (ring_contents b) @ [d]"
proof -
  let ?o = "rb_OutPtr b"
  have o: "?o < 128" "rb_InPtr b = ?o" "length (rb_Buffer b) = 128" using assms by (simp_all add: ring_ok_def)
  show "ring_ok (rb_write d (b\<lparr>rb_OutPtr := rb_next ?o\<rparr>))"
    using assms o by (simp add: ring_ok_def rb_write_def rb_next_mod)
  show "ring_contents (rb_write d (b\<lparr>rb_OutPtr := rb_next ?o\<rparr>)) = tl (ring_contents b) @ [d]"
  proof (rule nth_equalityI)
    show "length (ring_contents (rb_write d (b\<lparr>rb_OutPtr := rb_next ?o\<rparr>))) = length (tl (ring_contents b) @ [d])"
      using assms(2) by (simp add: rb_write_def)
  next
    fix k assume "k < length (ring_contents (rb_write d (b\<lparr>rb_OutPtr := rb_next ?o\<rparr>)))"
    then have k: "k < 128" using assms(2) by (simp add: rb_write_def)
    have "((?o + 1) mod 128 + k) mod 128 = (?o + Suc k) mod 128" by (simp add: mod_simps)
    moreover have "(?o + Suc k) mod 128 \<noteq> ?o" if "k < 127" using mod_neq [of 0 "Suc k" ?o] that o by simp
    moreover have "(?o + Suc k) mod 128 = ?o" if "\<not> k < 127"
    proof -
      have "Suc k = 128" using that k by simp
      then show ?thesis using o(1) by simp
    qed
    ultimately show "ring_contents (rb_write d (b\<lparr>rb_OutPtr := rb_next ?o\<rparr>)) ! k = (tl (ring_contents b) @ [d]) ! k"
      using assms(2) o k by (cases "k < 127") (auto simp: ring_contents_def rb_write_def rb_next_mod nth_append nth_tl)
  qed
qed

lemma get_nonempty:
  assumes "ring_ok b" "ring_contents b = x # xs"
  shows "\<exists>b'. Buffer_GetElement m b = (x, b') \<and> ring_ok b' \<and> ring_contents b' = xs" "Buffer_PeekElement m b = x"
proof -
  let ?e = "unat (rb_Elements b)" and ?o = "rb_OutPtr b"
  have e: "0 < ?e" "rb_Elements b \<noteq> 0" using assms(2) length_ring_contents [of b] by auto
  then have e1: "unat (rb_Elements b - 1) = ?e - 1" by (simp add: unat_sub word_le_nat_alt Suc_leI)
  have o: "?o < 128" using assms(1) by (simp add: ring_ok_def)
  have x: "rb_Buffer b ! ?o = x" "xs = tl (ring_contents b)"
    using assms(2) e o by (simp_all add: ring_contents_def upt_conv_Cons)
  let ?b = "b\<lparr>rb_OutPtr := rb_next ?o, rb_Elements := rb_Elements b - 1\<rparr>"
  have "((?o + 1) mod 128 + (?e - 1)) mod 128 = (?o + ?e) mod 128" using e(1) by (cases ?e) (simp_all add: mod_simps)
  then have "ring_ok ?b" using assms(1) o e1 by (simp add: ring_ok_def rb_next_mod) linarith
  moreover have "ring_contents ?b = xs"
    unfolding x(2) by (rule nth_equalityI) (simp_all add: e1 ring_contents_def rb_next_mod o nth_tl mod_simps less_diff_conv)
  ultimately show "\<exists>b'. Buffer_GetElement m b = (x, b') \<and> ring_ok b' \<and> ring_contents b' = xs" "Buffer_PeekElement m b = x"
    using x(1) e by (simp_all add: Buffer_GetElement_def Buffer_PeekElement_def)
qed

section \<open>A queue of bytes\<close>

text \<open>
  What a program that passes bytes through a buffer relies on: while there is room a byte put in is appended,
  and taking one out takes the oldest. Then whatever goes in comes out, in the order in which it went in.
\<close>

datatype queue_op = Put u8 | Get

fun puts :: "queue_op list \<Rightarrow> u8 list" where
  "puts [] = []"
| "puts (Put d # ops) = d # puts ops"
| "puts (Get # ops) = puts ops"

locale byte_queue =
  fixes ok :: "'b \<Rightarrow> bool"
    and contents :: "'b \<Rightarrow> u8 list"
    and put :: "u8 \<Rightarrow> 'b \<Rightarrow> 'b"
    and get :: "'b \<Rightarrow> u8 \<times> 'b"
    and room :: nat
  assumes put_room: "ok b \<Longrightarrow> length (contents b) < room \<Longrightarrow> ok (put d b) \<and> contents (put d b) = contents b @ [d]"
    and get_oldest: "ok b \<Longrightarrow> contents b = x # xs \<Longrightarrow> ok (snd (get b)) \<and> fst (get b) = x \<and> contents (snd (get b)) = xs"
begin

lemma put_all:
  "ok b \<Longrightarrow> length (contents b) + length ds \<le> room \<Longrightarrow> ok (fold put ds b) \<and> contents (fold put ds b) = contents b @ ds"
proof (induction ds arbitrary: b)
  case (Cons d ds)
  then show ?case using put_room [of b d] Cons.IH [of "put d b"] by simp
qed simp

end

text \<open>The operations run in order, with the bytes taken out; the abstract queue drops its oldest byte when full.\<close>

fun ring_run :: "drop_mode \<Rightarrow> empty_mode \<Rightarrow> queue_op list \<Rightarrow> ring \<Rightarrow> u8 list \<times> ring" where
  "ring_run m e [] b = ([], b)"
| "ring_run m e (Put d # ops) b = ring_run m e ops (Buffer_StoreElement m d b)"
| "ring_run m e (Get # ops) b =
     (case Buffer_GetElement e b of (x, b) \<Rightarrow> case ring_run m e ops b of (xs, b) \<Rightarrow> (x # xs, b))"

definition queue_put :: "drop_mode \<Rightarrow> u8 \<Rightarrow> u8 list \<Rightarrow> u8 list option" where
  "queue_put m d q =
     (if length q < 128 then Some (q @ [d])
      else case m of BUFF_DROPOLD \<Rightarrow> Some (tl q @ [d]) | BUFF_DROPNEW \<Rightarrow> Some q | BUFF_NODROPCHECK \<Rightarrow> None)"

fun queue_run :: "drop_mode \<Rightarrow> empty_mode \<Rightarrow> queue_op list \<Rightarrow> u8 list \<Rightarrow> (u8 list \<times> u8 list) option" where
  "queue_run m e [] q = Some ([], q)"
| "queue_run m e (Put d # ops) q = (case queue_put m d q of None \<Rightarrow> None | Some q \<Rightarrow> queue_run m e ops q)"
| "queue_run m e (Get # ops) [] =
     (if e = BUFF_EMPTYRETURNSZERO then map_option (\<lambda>(xs, q). (0 # xs, q)) (queue_run m e ops []) else None)"
| "queue_run m e (Get # ops) (x # q) = map_option (\<lambda>(xs, q). (x # xs, q)) (queue_run m e ops q)"

lemma store_refines:
  assumes "ring_ok b" "queue_put m d (ring_contents b) = Some q"
  shows "ring_ok (Buffer_StoreElement m d b)" "ring_contents (Buffer_StoreElement m d b) = q"
proof -
  have "unat (rb_Elements b) \<le> 128" using assms(1) by (simp add: ring_ok_def)
  then show "ring_ok (Buffer_StoreElement m d b)" "ring_contents (Buffer_StoreElement m d b) = q"
    using assms store_with_room [of b d] store_full [of b d]
    by (auto simp: queue_put_def Buffer_StoreElement_def BUFF_LENGTH_def split: if_splits drop_mode.splits)
qed

lemma get_empty:
  assumes "ring_contents b = []"
  shows "Buffer_GetElement BUFF_EMPTYRETURNSZERO b = (0, b)"
proof -
  have "unat (rb_Elements b) = 0" using assms length_ring_contents [of b] by simp
  then show ?thesis by (simp add: Buffer_GetElement_def unat_eq_0)
qed

lemma ring_queue_laws:
  "ring_ok b \<Longrightarrow> length (ring_contents b) < 128 \<Longrightarrow>
     ring_ok (Buffer_StoreElement m d b) \<and> ring_contents (Buffer_StoreElement m d b) = ring_contents b @ [d]"
  "ring_ok b \<Longrightarrow> ring_contents b = x # xs \<Longrightarrow>
     ring_ok (snd (Buffer_GetElement e b)) \<and> fst (Buffer_GetElement e b) = x \<and> ring_contents (snd (Buffer_GetElement e b)) = xs"
proof -
  show "ring_ok (Buffer_StoreElement m d b) \<and> ring_contents (Buffer_StoreElement m d b) = ring_contents b @ [d]"
    if "ring_ok b" "length (ring_contents b) < 128"
    using store_refines [OF that(1), of m d "ring_contents b @ [d]"] that(2) by (simp add: queue_put_def)
  assume "ring_ok b" "ring_contents b = x # xs"
  from get_nonempty(1) [OF this, of e]
  show "ring_ok (snd (Buffer_GetElement e b)) \<and> fst (Buffer_GetElement e b) = x \<and> ring_contents (snd (Buffer_GetElement e b)) = xs"
    by auto
qed

interpretation ringq: byte_queue ring_ok ring_contents "Buffer_StoreElement m" "Buffer_GetElement e" 128
  by unfold_locales (rule ring_queue_laws, assumption+)+

text \<open>C29: In each configuration a sequence of operations on the ring buffer gives what it gives on a queue of at most 128
  elements, as long as the queue says what it gives: reading an empty buffer without the check, and storing into a
  full one without the check, are left to the caller.\<close>

theorem ring_refines_queue:
  assumes "ring_ok b" "queue_run m e ops (ring_contents b) = Some (xs, q)"
  shows "\<exists>b'. ring_run m e ops b = (xs, b') \<and> ring_ok b' \<and> ring_contents b' = q"
  using assms
proof (induction ops arbitrary: b xs)
  case Nil
  then show ?case by simp
next
  case (Cons op ops)
  note ok = Cons.prems(1) and op = Cons.prems(2) and IH = Cons.IH
  show ?case
  proof (cases op)
    case (Put d)
    then obtain q' where "queue_put m d (ring_contents b) = Some q'" "queue_run m e ops q' = Some (xs, q)"
      using Cons.prems(2) by (auto split: option.splits)
    with Put Cons show ?thesis using store_refines [OF Cons.prems(1)] by simp
  next
    case Get
    show ?thesis
    proof (cases "ring_contents b")
      case Nil
      then obtain ys where "e = BUFF_EMPTYRETURNSZERO" "xs = 0 # ys" "queue_run m e ops (ring_contents b) = Some (ys, q)"
        using Cons.prems(2) Get by (auto split: if_splits)
      then show ?thesis using Cons.IH [OF Cons.prems(1)] Get get_empty [OF Nil] by fastforce
    next
      case (Cons x q')
      then obtain ys where ys: "xs = x # ys" "queue_run m e ops q' = Some (ys, q)" using op Get by auto
      obtain b' where b': "Buffer_GetElement e b = (x, b')" "ring_ok b'" "ring_contents b' = q'"
        using get_nonempty(1) [OF ok Cons] by blast
      then obtain b'' where "ring_run m e ops b' = (ys, b'')" "ring_ok b''" "ring_contents b'' = q"
        using IH [of b' ys] ys(2) by auto
      then show ?thesis using Get ys(1) b'(1) by simp
    qed
  qed
qed

text \<open>The modes without checks leave the buffer unusable: after a byte taken from an empty buffer it holds 255.\<close>

lemma get_empty_unchecked:
  assumes "ring_contents b = []"
  shows "rb_Elements (snd (Buffer_GetElement BUFF_NOEMPTYCHECK b)) = 255"
    "\<not> ring_ok (snd (Buffer_GetElement BUFF_NOEMPTYCHECK b))"
proof -
  have "unat (- 1 :: u8) = 255" by code_simp
  moreover have "unat (rb_Elements b) = 0" using assms length_ring_contents [of b] by simp
  ultimately show "rb_Elements (snd (Buffer_GetElement BUFF_NOEMPTYCHECK b)) = 255"
    "\<not> ring_ok (snd (Buffer_GetElement BUFF_NOEMPTYCHECK b))"
    by (simp_all add: Buffer_GetElement_def unat_eq_0 ring_ok_def)
qed

section \<open>Instance\<close>

definition ring_demo :: ring where
  "ring_demo = Buffer_Initialize \<lparr>rb_Buffer = replicate 128 0, rb_InPtr = 5, rb_OutPtr = 7, rb_Elements = 9\<rparr>"

theorem ring_refines_queue_witness:
  "\<exists>b'. ring_run BUFF_DROPOLD BUFF_NOEMPTYCHECK (Put 3 # Put 4 # Get # replicate 128 (Put 6) @ [Get]) ring_demo = ([3, 6], b') \<and>
    ring_contents b' = replicate 127 6"
proof -
  have b: "ring_ok ring_demo" "ring_contents ring_demo = []"
    using Initialize_ring [of "\<lparr>rb_Buffer = replicate 128 0, rb_InPtr = 5, rb_OutPtr = 7, rb_Elements = 9\<rparr>"]
    by (simp_all add: ring_demo_def)
  have "queue_run BUFF_DROPOLD BUFF_NOEMPTYCHECK (Put 3 # Put 4 # Get # replicate 128 (Put 6) @ [Get]) [] = Some ([3, 6], replicate 127 6)"
    by code_simp
  then show ?thesis
    using ring_refines_queue [OF b(1), of BUFF_DROPOLD BUFF_NOEMPTYCHECK "Put 3 # Put 4 # Get # replicate 128 (Put 6) @ [Get]"] b(2)
    by auto
qed

end
