(* ===== verification/SerialBridge.thy ===== *)
theory SerialBridge
  imports CdcDevice RingBuffer
begin

text \<open>
  The USB to serial adapter, \<open>Projects/USBtoSerial/USBtoSerial.c\<close>, built as its makefile builds it: bytes from
  the host go through a ring buffer to the USART and back through another. The main loop is a round at a
  time, between which the host, the frames and the receive interrupt act. The driver of the USART's two
  macros and functions is \<open>LUFA/Drivers/Peripheral/Serial.h\<close>.
\<close>

section \<open>The program\<close>

datatype led_mask = LEDMASK_USB_NOTREADY | LEDMASK_USB_ENUMERATING | LEDMASK_USB_READY | LEDMASK_USB_ERROR

text \<open>\<open>uart_out\<close> is what was written to \<open>UDR1\<close>, a history.\<close>

record bridge = cdc +
  USBtoUSART_Buffer :: ring
  USARTtoUSB_Buffer :: ring
  uart_out :: "u8 list"
  UCSR1A :: u8
  UCSR1B :: u8
  UCSR1C :: u8
  UBRR1 :: u16
  DDRD :: u8
  PORTD :: u8
  LEDs :: led_mask

definition F_CPU :: u32 where "F_CPU = 8000000"
definition U2X1 :: nat where "U2X1 = 1"
definition TXEN1 :: nat where "TXEN1 = 3"
definition RXEN1 :: nat where "RXEN1 = 4"
definition RXCIE1 :: nat where "RXCIE1 = 7"
definition UCSZ10 :: nat where "UCSZ10 = 1"
definition UCSZ11 :: nat where "UCSZ11 = 2"
definition USBS1 :: nat where "USBS1 = 3"
definition UPM10 :: nat where "UPM10 = 4"
definition UPM11 :: nat where "UPM11 = 5"
definition CDC_PARITY_Odd :: u8 where "CDC_PARITY_Odd = 1"
definition CDC_PARITY_Even :: u8 where "CDC_PARITY_Even = 2"
definition CDC_LINEENCODING_TwoStopBits :: u8 where "CDC_LINEENCODING_TwoStopBits = 2"

text \<open>The macros divide; a divisor of 0 is a fault.\<close>

definition SERIAL_UBBRVAL :: "u32 \<Rightarrow> stop + u32" where
  "SERIAL_UBBRVAL baud = (if baud = 0 then Inl Fault else Inr ((F_CPU div 16) div baud - 1))"

definition SERIAL_2X_UBBRVAL :: "u32 \<Rightarrow> stop + u32" where
  "SERIAL_2X_UBBRVAL baud = (if baud = 0 then Inl Fault else Inr ((F_CPU div 8) div baud - 1))"

definition Serial_Init :: "u32 \<Rightarrow> bool \<Rightarrow> 'a bridge_scheme \<Rightarrow> stop + 'a bridge_scheme" where
  "Serial_Init BaudRate DoubleSpeed s =
     (let s = s\<lparr>UCSR1A := (if DoubleSpeed then push_bit U2X1 1 else 0), UCSR1B := push_bit TXEN1 1 OR push_bit RXEN1 1,
                UCSR1C := push_bit UCSZ11 1 OR push_bit UCSZ10 1, DDRD := set_bit 3 (DDRD s), PORTD := set_bit 2 (PORTD s)\<rparr>
      in case (if DoubleSpeed then SERIAL_2X_UBBRVAL BaudRate else SERIAL_UBBRVAL BaudRate) of
           Inl e \<Rightarrow> Inl e | Inr v \<Rightarrow> Inr (s\<lparr>UBRR1 := ucast v\<rparr>))"

definition Serial_ShutDown :: "'a bridge_scheme \<Rightarrow> 'a bridge_scheme" where
  "Serial_ShutDown s = s\<lparr>UCSR1A := 0, UCSR1B := 0, UCSR1C := 0, DDRD := unset_bit 3 (DDRD s), PORTD := unset_bit 2 (PORTD s), UBRR1 := 0\<rparr>"

text \<open>The wait for the data register, which the hardware empties at the line's speed, always ends.\<close>

definition Serial_TxByte :: "u8 \<Rightarrow> 'a bridge_scheme \<Rightarrow> 'a bridge_scheme" where
  "Serial_TxByte b s = s\<lparr>uart_out := uart_out s @ [b]\<rparr>"

definition bridge_config :: cdc_config where
  "bridge_config = \<lparr>ControlInterfaceNumber = 0, DataINEndpointNumber = 3, DataINEndpointSize = 16, DataINEndpointDoubleBank = False,
     DataOUTEndpointNumber = 4, DataOUTEndpointSize = 16, DataOUTEndpointDoubleBank = False,
     NotificationEndpointNumber = 2, NotificationEndpointSize = 8, NotificationEndpointDoubleBank = False\<rparr>"

definition bridge_Connect :: "'a bridge_scheme \<Rightarrow> 'a bridge_scheme" where
  "bridge_Connect s = s\<lparr>LEDs := LEDMASK_USB_ENUMERATING\<rparr>"

definition bridge_Disconnect :: "'a bridge_scheme \<Rightarrow> 'a bridge_scheme" where
  "bridge_Disconnect s = s\<lparr>LEDs := LEDMASK_USB_NOTREADY\<rparr>"

definition bridge_ConfigurationChanged :: "'a bridge_scheme \<Rightarrow> stop + 'a bridge_scheme" where
  "bridge_ConfigurationChanged s =
     (case CDC_Device_ConfigureEndpoints bridge_config (s\<lparr>LEDs := LEDMASK_USB_READY\<rparr>) of
        Inl e \<Rightarrow> Inl e
      | Inr (ok, s) \<Rightarrow> Inr (if ok then s else s\<lparr>LEDs := LEDMASK_USB_ERROR\<rparr>))"

text \<open>\<open>ISR(USART1_RX_vect)\<close> with the byte in \<open>UDR1\<close>.\<close>

definition USART1_RX_vect :: "u8 \<Rightarrow> 'a bridge_scheme \<Rightarrow> 'a bridge_scheme" where
  "USART1_RX_vect ReceivedByte s =
     (if USB_DeviceState s = DEVICE_STATE_Configured
      then s\<lparr>USARTtoUSB_Buffer := Buffer_StoreElement BUFF_DROPOLD ReceivedByte (USARTtoUSB_Buffer s)\<rparr> else s)"

definition line_config_mask :: "line_encoding \<Rightarrow> u8" where
  "line_config_mask l =
     (let m = (if ParityType l = CDC_PARITY_Odd then push_bit UPM11 1 OR push_bit UPM10 1
               else if ParityType l = CDC_PARITY_Even then push_bit UPM11 1 else 0);
          m = (if CharFormat l = CDC_LINEENCODING_TwoStopBits then m OR push_bit USBS1 1 else m)
      in if DataBits l = 6 then m OR push_bit UCSZ10 1
         else if DataBits l = 7 then m OR push_bit UCSZ11 1
         else if DataBits l = 8 then m OR (push_bit UCSZ11 1 OR push_bit UCSZ10 1)
         else m)"

text \<open>The cast to \<open>uint16_t\<close> is the code's.\<close>

definition bridge_LineEncodingChanged :: "'a bridge_scheme \<Rightarrow> stop + 'a bridge_scheme" where
  "bridge_LineEncodingChanged s =
     (let s = s\<lparr>UCSR1A := push_bit U2X1 1, UCSR1B := push_bit RXCIE1 1 OR push_bit TXEN1 1 OR push_bit RXEN1 1,
                UCSR1C := line_config_mask (LineEncoding s)\<rparr>
      in case SERIAL_2X_UBBRVAL (ucast (ucast (BaudRateBPS (LineEncoding s)) :: u16)) of
           Inl e \<Rightarrow> Inl e | Inr v \<Rightarrow> Inr (s\<lparr>UBRR1 := ucast v\<rparr>))"

definition bridge_app :: "(u16 \<Rightarrow> u8 \<Rightarrow> u8 list \<times> u16) \<Rightarrow> 'a bridge_scheme app" where
  "bridge_app descriptors = \<lparr>app_config = bridge_ConfigurationChanged,
     app_unhandled = CDC_Device_ProcessControlRequest bridge_config bridge_LineEncodingChanged id,
     app_descriptor = descriptors\<rparr>"

section \<open>The main loop\<close>

text \<open>\<open>for (uint8_t DataBytesRem = ...; DataBytesRem != 0; DataBytesRem--)\<close>\<close>

fun usb_to_usart :: "nat \<Rightarrow> 'a bridge_scheme \<Rightarrow> 'a bridge_scheme" where
  "usb_to_usart 0 s = s"
| "usb_to_usart (Suc DataBytesRem) s =
     (if int BUFF_LENGTH - uint (rb_Elements (USBtoUSART_Buffer s)) = 0 then s
      else case CDC_Device_ReceiveByte bridge_config s of
        (b, s) \<Rightarrow> usb_to_usart DataBytesRem (s\<lparr>USBtoUSART_Buffer := Buffer_StoreElement BUFF_DROPOLD b (USBtoUSART_Buffer s)\<rparr>))"

definition usart_to_usb :: "'a bridge_scheme world \<Rightarrow> 'a bridge_scheme \<Rightarrow> ('a bridge_scheme, unit) run" where
  "usart_to_usb w s =
     (if rb_Elements (USARTtoUSB_Buffer s) \<noteq> 0 then
        (case Buffer_GetElement BUFF_NOEMPTYCHECK (USARTtoUSB_Buffer s) of
           (b, buf) \<Rightarrow> bind_run (CDC_Device_SendByte bridge_config b w (s\<lparr>USARTtoUSB_Buffer := buf\<rparr>)) (\<lambda>_ s w. Inr ((), s, w)))
      else Inr ((), s, w))"

definition usart_load :: "'a bridge_scheme \<Rightarrow> 'a bridge_scheme" where
  "usart_load s =
     (if rb_Elements (USBtoUSART_Buffer s) \<noteq> 0 then
        (case Buffer_GetElement BUFF_NOEMPTYCHECK (USBtoUSART_Buffer s) of
           (b, buf) \<Rightarrow> Serial_TxByte b (s\<lparr>USBtoUSART_Buffer := buf\<rparr>))
      else s)"

definition bridge_round :: "'a bridge_scheme app \<Rightarrow> 'a bridge_scheme world \<Rightarrow> 'a bridge_scheme \<Rightarrow> ('a bridge_scheme, unit) run" where
  "bridge_round app w s =
     (case CDC_Device_BytesReceived bridge_config s of
        (n, s) \<Rightarrow>
          bind_run (usart_to_usb w (usb_to_usart (unat (ucast n :: u8)) s)) (\<lambda>_ s w.
          bind_run (CDC_Device_USBTask bridge_config w (usart_load s)) (\<lambda>_ s w.
          USB_USBTask app w s)))"

text \<open>Setting up: the part of \<open>SetupHardware\<close> and \<open>main\<close> that this state shows.\<close>

definition bridge_start :: "'a bridge_scheme \<Rightarrow> stop + 'a bridge_scheme" where
  "bridge_start s =
     (case Serial_Init 9600 False s of
        Inl e \<Rightarrow> Inl e
      | Inr s \<Rightarrow> Inr (s\<lparr>USBtoUSART_Buffer := Buffer_Initialize (USBtoUSART_Buffer s),
                      USARTtoUSB_Buffer := Buffer_Initialize (USARTtoUSB_Buffer s), LEDs := LEDMASK_USB_NOTREADY\<rparr>))"

text \<open>
  The line's speed is set from the low 16 bits of the host's rate: with 115200 baud the divisor is that of 49664,
  and a multiple of 65536 divides by 0.
\<close>

lemma baud_rate_truncated:
  "bridge_LineEncodingChanged s = Inl Fault \<longleftrightarrow> 65536 dvd uint (BaudRateBPS (LineEncoding s))"
  "BaudRateBPS (LineEncoding s) = 115200 \<Longrightarrow> map_sum id UBRR1 (bridge_LineEncodingChanged s) = Inr 19"
  "SERIAL_2X_UBBRVAL 115200 = Inr 7"
proof -
  have "ucast (ucast b :: u16) = (0 :: u32) \<longleftrightarrow> 65536 dvd uint b" for b :: u32
    by (simp add: word_uint_eq_iff unsigned_ucast_eq take_bit_eq_mod dvd_eq_mod_eq_0 uint_mod_distrib)
  then show "bridge_LineEncodingChanged s = Inl Fault \<longleftrightarrow> 65536 dvd uint (BaudRateBPS (LineEncoding s))"
    by (simp add: bridge_LineEncodingChanged_def SERIAL_2X_UBBRVAL_def Let_def)
qed (simp_all add: bridge_LineEncodingChanged_def SERIAL_2X_UBBRVAL_def F_CPU_def Let_def)

section \<open>From the host to the line\<close>

text \<open>The bytes on their way to the line: sent, in the buffer, in the bank of endpoint 4.\<close>

definition down :: "'a bridge_scheme \<Rightarrow> u8 list" where
  "down s = uart_out s @ ring_contents (USBtoUSART_Buffer s) @ r_bank (eps s 4)"

definition bridge_ok :: "'a bridge_scheme \<Rightarrow> bool" where
  "bridge_ok s \<longleftrightarrow> cdc_open s \<and> cdc_out (eps s 4) \<and> ep_size (eps s 4) \<le> 128 \<and> length (r_bank (eps s 4)) \<le> ep_size (eps s 4) \<and>
     ring_ok (USBtoUSART_Buffer s) \<and> \<not> bit (r_ueintx (eps s 0)) RXSTPI"

text \<open>All that matters for it.\<close>

definition down_view :: "'a bridge_scheme \<Rightarrow> ep_regs \<times> ring \<times> u8 list \<times> u8 \<times> line_encoding \<times> ep_regs" where
  "down_view s = (eps s 4, USBtoUSART_Buffer s, uart_out s, USB_DeviceState s, LineEncoding s, eps s 0)"

lemma down_view_down: "down_view s = down_view t \<Longrightarrow> down s = down t"
  by (simp add: down_view_def down_def)

lemma down_view_ok: "down_view s = down_view t \<Longrightarrow> bridge_ok s = bridge_ok t"
  by (simp add: down_view_def bridge_ok_def cdc_open_def)

lemma down_view_frame [simp]:
  "down_view (s\<lparr>UENUM := x\<rparr>) = down_view s" "down_view (s\<lparr>UDINT := x\<rparr>) = down_view s" "down_view (upd_ep 3 g s) = down_view s"
  "down_view (s\<lparr>USARTtoUSB_Buffer := b\<rparr>) = down_view s" "down_view (Endpoint_SelectEndpoint n s) = down_view s"
  by (simp_all add: down_view_def upd_ep_def Endpoint_SelectEndpoint_def uenum_write_def)

lemma config_numbers [simp]:
  "DataINEndpointNumber bridge_config = 3" "DataOUTEndpointNumber bridge_config = 4"
  by (simp_all add: bridge_config_def)

lemma config_out: "DataOUTEndpointNumber bridge_config < 8" "4 = unat (DataOUTEndpointNumber bridge_config)"
  by simp_all

text \<open>The host collects, a frame starts, the line delivers a byte.\<close>

definition bridge_event :: "('a bridge_scheme \<Rightarrow> 'a bridge_scheme) \<Rightarrow> bool" where
  "bridge_event e \<longleftrightarrow> e = collect 3 \<or> e = sof \<or> e = id \<or> (\<exists>b. e = USART1_RX_vect b)"

lemma bridge_event_keeps: "bridge_event e \<Longrightarrow> down_view (e s) = down_view s \<and> UENUM (e s) = UENUM s"
  by (auto simp: bridge_event_def collect_def host_in_def sof_def USART1_RX_vect_def down_view_def upd_ep_def split: option.splits)

lemma in_operations_down:
  assumes "\<forall>e \<in> set w. bridge_event e"
  shows "CDC_Device_SendByte bridge_config d w s = Inr (r, s', w') \<Longrightarrow> down_view s' = down_view s"
    "CDC_Device_Flush bridge_config w s = Inr (r, s', w') \<Longrightarrow> down_view s' = down_view s"
proof -
  have k: "down_view (e s) = down_view s \<and> UENUM (e s) = UENUM s" if "e \<in> set w" for e s
    using bridge_event_keeps assms that by blast
  have c: "DataINEndpointNumber bridge_config < 8" "3 = unat (DataINEndpointNumber bridge_config)" by simp_all
  show "down_view s' = down_view s" if "CDC_Device_SendByte bridge_config d w s = Inr (r, s', w')"
    by (rule in_operations_keep(1) [where c = bridge_config and n = 3 and f = down_view and w = w, OF c];
        (rule down_view_frame(1) | rule down_view_frame(2) | rule down_view_frame(3) | rule that | erule k))
  show "down_view s' = down_view s" if "CDC_Device_Flush bridge_config w s = Inr (r, s', w')"
    by (rule in_operations_keep(2) [where c = bridge_config and n = 3 and f = down_view and w = w, OF c];
        (rule down_view_frame(1) | rule down_view_frame(2) | rule down_view_frame(3) | rule that | erule k))
qed

lemma ep_size_clear_out: "ep_size (ep_clear_out ep) = ep_size ep"
proof -
  have "r_uecfg1x (ueintx_write v ep) = r_uecfg1x ep" for v ep
    by (simp add: ueintx_write_def Let_def ep_free_def ep_commit_def)
  then show ?thesis by (simp add: ep_size_def ep_clear_out_def)
qed

lemma taken_frame:
  "k \<noteq> n \<Longrightarrow> eps (taken n b s) k = eps s k" "ep_size (eps (taken n b s) n) = ep_size (eps s n)"
  "cdc_open (taken n b s') = cdc_open s'" "USBtoUSART_Buffer (taken n b t) = USBtoUSART_Buffer t" "uart_out (taken n b t) = uart_out t"
  by (simp_all add: taken_def upd_ep_def cdc_open_def ep_size_clear_out)

lemma fill_step:
  assumes "bridge_ok s" "r_bank (eps s 4) = x # xs" "length (ring_contents (USBtoUSART_Buffer s)) < 128"
  shows "\<exists>t. CDC_Device_ReceiveByte bridge_config s = (x, t) \<and>
    bridge_ok (t\<lparr>USBtoUSART_Buffer := Buffer_StoreElement BUFF_DROPOLD x (USBtoUSART_Buffer t)\<rparr>) \<and>
    r_bank (eps t 4) = xs \<and> USBtoUSART_Buffer t = USBtoUSART_Buffer s \<and> uart_out t = uart_out s"
proof -
  let ?t = "taken 4 xs (s\<lparr>UENUM := 4\<rparr>)"
  have ok: "cdc_open s" "cdc_out (eps s 4)" "length (x # xs) \<le> ep_size (eps s 4)" "ep_size (eps s 4) \<le> 128"
    using assms(1,2) by (simp_all add: bridge_ok_def)
  then have "length xs < 65536" by simp
  note t = ReceiveByte_takes [OF ok(1) config_out ok(2) assms(2) this, unfolded config_numbers]
  have f: "cdc_open ?t" "eps ?t 0 = eps s 0" "ep_size (eps ?t 4) = ep_size (eps s 4)" "USBtoUSART_Buffer ?t = USBtoUSART_Buffer s" "uart_out ?t = uart_out s"
    using ok(1) by (simp_all add: taken_frame) (simp add: cdc_open_def)
  have r: "ring_ok (Buffer_StoreElement BUFF_DROPOLD x (USBtoUSART_Buffer s))" "\<not> bit (r_ueintx (eps s 0)) RXSTPI"
    using ringq.put_room [of "USBtoUSART_Buffer s" BUFF_DROPOLD x] assms(1,3) by (simp_all add: bridge_ok_def)
  have o: "cdc_open (t\<lparr>USBtoUSART_Buffer := b\<rparr>) = cdc_open t" for t :: "'a bridge_scheme" and b by (simp add: cdc_open_def)
  show ?thesis
    using t ok(3,4) r f by (intro exI [of _ ?t]) (simp only: bridge_ok_def o bridge.simps cdc.simps usb_dev.simps usb_hw.simps, simp)
qed

lemma usb_to_usart_down:
  assumes "bridge_ok s" "n \<le> length (r_bank (eps s 4))"
  shows "bridge_ok (usb_to_usart n s) \<and> down (usb_to_usart n s) = down s \<and> uart_out (usb_to_usart n s) = uart_out s \<and>
    (ring_contents (USBtoUSART_Buffer (usb_to_usart n s)) = [] \<longrightarrow> ring_contents (USBtoUSART_Buffer s) = [] \<and> n = 0)"
  using assms
proof (induction n arbitrary: s)
  case (Suc n)
  have full: "int BUFF_LENGTH - uint (rb_Elements (USBtoUSART_Buffer s)) = 0 \<longleftrightarrow> length (ring_contents (USBtoUSART_Buffer s)) = 128"
  proof -
    have "uint w = 128 \<longleftrightarrow> w = 128" "unat w = 128 \<longleftrightarrow> w = 128" for w :: u8
      using word_uint_eq_iff [of w 128] word_unat_eq_iff [of w 128] by simp_all
    then show ?thesis by (simp add: BUFF_LENGTH_def)
  qed
  show ?case
  proof (cases "length (ring_contents (USBtoUSART_Buffer s)) = 128")
    case True
    then have "ring_contents (USBtoUSART_Buffer s) \<noteq> []" by (auto simp del: length_ring_contents)
    with full True Suc.prems show ?thesis by simp
  next
    case False
    then have room: "length (ring_contents (USBtoUSART_Buffer s)) < 128" using Suc.prems(1) by (simp add: bridge_ok_def ring_ok_def)
    obtain x xs where x: "r_bank (eps s 4) = x # xs" using Suc.prems(2) by (cases "r_bank (eps s 4)") auto
    obtain t where t: "CDC_Device_ReceiveByte bridge_config s = (x, t)"
      "bridge_ok (t\<lparr>USBtoUSART_Buffer := Buffer_StoreElement BUFF_DROPOLD x (USBtoUSART_Buffer t)\<rparr>)"
      "r_bank (eps t 4) = xs" "USBtoUSART_Buffer t = USBtoUSART_Buffer s" "uart_out t = uart_out s"
      using fill_step [OF Suc.prems(1) x room] by blast
    let ?t = "t\<lparr>USBtoUSART_Buffer := Buffer_StoreElement BUFF_DROPOLD x (USBtoUSART_Buffer t)\<rparr>"
    have "ring_contents (USBtoUSART_Buffer ?t) = ring_contents (USBtoUSART_Buffer s) @ [x]"
      using ringq.put_room [of "USBtoUSART_Buffer s" BUFF_DROPOLD x] room Suc.prems(1) t(4) by (simp add: bridge_ok_def)
    then show ?thesis
      using Suc.IH [OF t(2)] Suc.prems(2) x t full False by (auto simp: down_def)
  qed
qed simp

lemma usart_to_usb_down:
  assumes "usart_to_usb w s = Inr ((), s', w')" "\<forall>e \<in> set w. bridge_event e"
  shows "down_view s' = down_view s"
proof (cases "rb_Elements (USARTtoUSB_Buffer s) = 0")
  case True
  then show ?thesis using assms(1) by (simp add: usart_to_usb_def)
next
  case False
  obtain b buf where g: "Buffer_GetElement BUFF_NOEMPTYCHECK (USARTtoUSB_Buffer s) = (b, buf)" by (cases "Buffer_GetElement BUFF_NOEMPTYCHECK (USARTtoUSB_Buffer s)")
  then obtain r where "CDC_Device_SendByte bridge_config b w (s\<lparr>USARTtoUSB_Buffer := buf\<rparr>) = Inr (r, s', w')"
    using assms(1) False by (auto simp: usart_to_usb_def bind_run_Inr_iff)
  from in_operations_down(1) [OF assms(2) this] show ?thesis by simp
qed

lemma SendByte_world: "CDC_Device_SendByte c d w s = Inr (r, s', w') \<Longrightarrow> set w' \<subseteq> set w"
  using poll_until_world_set
  by (fastforce simp: CDC_Device_SendByte_def Endpoint_WaitUntilReady_def bind_run_Inr_iff Let_def split: if_splits)

lemma usart_to_usb_world: "usart_to_usb w s = Inr ((), s', w') \<Longrightarrow> set w' \<subseteq> set w"
  using SendByte_world by (fastforce simp: usart_to_usb_def bind_run_Inr_iff split: if_splits prod.splits)

lemma usart_load_down:
  assumes "bridge_ok s"
  shows "bridge_ok (usart_load s)" "down (usart_load s) = down s"
    "uart_out (usart_load s) = uart_out s @ take 1 (ring_contents (USBtoUSART_Buffer s))"
proof -
  have e: "rb_Elements (USBtoUSART_Buffer s) = 0 \<longleftrightarrow> ring_contents (USBtoUSART_Buffer s) = []"
    using length_ring_contents [of "USBtoUSART_Buffer s"] by (metis length_0_conv unat_eq_0)
  have "bridge_ok (usart_load s) \<and> down (usart_load s) = down s \<and>
      uart_out (usart_load s) = uart_out s @ take 1 (ring_contents (USBtoUSART_Buffer s))"
  proof (cases "ring_contents (USBtoUSART_Buffer s)")
    case Nil
    then show ?thesis using e assms by (simp add: usart_load_def)
  next
    case (Cons x xs)
    let ?g = "Buffer_GetElement BUFF_NOEMPTYCHECK (USBtoUSART_Buffer s)"
    have g: "ring_ok (snd ?g)" "fst ?g = x" "ring_contents (snd ?g) = xs"
      using ringq.get_oldest [of "USBtoUSART_Buffer s" x xs BUFF_NOEMPTYCHECK] assms Cons by (simp_all add: bridge_ok_def)
    have "usart_load s = s\<lparr>USBtoUSART_Buffer := snd ?g, uart_out := uart_out s @ [x]\<rparr>"
      using Cons e g(2) by (cases ?g) (simp add: usart_load_def Serial_TxByte_def)
    then show ?thesis using assms g(1,3) Cons by (simp add: bridge_ok_def down_def cdc_open_def)
  qed
  then show "bridge_ok (usart_load s)" "down (usart_load s) = down s"
    "uart_out (usart_load s) = uart_out s @ take 1 (ring_contents (USBtoUSART_Buffer s))" by simp_all
qed

lemma usb_task_down:
  assumes "CDC_Device_USBTask bridge_config w s = Inr ((), s', w')" "bridge_ok s" "\<forall>e \<in> set w. bridge_event e"
  shows "bridge_ok s'" "down s' = down s" "uart_out s' = uart_out s"
proof -
  let ?t = "clear_empty_out (Endpoint_SelectEndpoint 4 s)"
  have ok: "cdc_open s" "cdc_out (eps s 4)" "length (r_bank (eps s 4)) < 65536" using assms(2) by (simp_all add: bridge_ok_def)
  obtain g where g: "?t = upd_ep 4 g (s\<lparr>UENUM := 4\<rparr>)" "cdc_out (eps ?t 4)" "r_bank (eps ?t 4) = r_bank (eps s 4)"
    using clear_empty_keeps [OF config_out ok(2,3)] unfolding config_numbers by blast
  have z: "ep_size (eps ?t 4) = ep_size (eps s 4)"
    by (simp add: clear_empty_out_def Endpoint_ops_cur upd_cur_def upd_ep_def Endpoint_SelectEndpoint_def uenum_write_def ep_size_clear_out)
  have t: "bridge_ok ?t" "down ?t = down s" "uart_out ?t = uart_out s"
    using assms(2) g z by (simp_all add: bridge_ok_def down_def) (simp_all add: g(1) upd_ep_def cdc_open_def)
  obtain r where "CDC_Device_Flush bridge_config w ?t = Inr (r, s', w')"
    using assms(1) ok(1) by (auto simp: CDC_Device_USBTask_def bind_run_Inr_iff)
  from in_operations_down(2) [OF assms(3) this] have v: "down_view s' = down_view ?t" .
  then show "bridge_ok s'" "down s' = down s" "uart_out s' = uart_out s"
    using t down_view_ok [OF v] down_view_down [OF v] by (simp_all add: down_view_def)
qed

lemma round_start:
  assumes "bridge_ok s" "k = length (r_bank (eps s 4))"
  shows "\<exists>t. CDC_Device_BytesReceived bridge_config s = (of_nat k, t) \<and> unat (ucast (of_nat k :: u16) :: u8) = k \<and>
    bridge_ok t \<and> down t = down s \<and> k \<le> length (r_bank (eps t 4)) \<and> uart_out t = uart_out s \<and>
    USBtoUSART_Buffer t = USBtoUSART_Buffer s \<and> r_bank (eps t 4) = r_bank (eps s 4)"
proof -
  let ?k = "length (r_bank (eps s 4))"
  have ok: "cdc_open s" "cdc_out (eps s 4)" "?k \<le> 128" "?k < 65536" using assms(1) by (simp_all add: bridge_ok_def)
  obtain g where g: "CDC_Device_BytesReceived bridge_config s = (of_nat ?k, upd_ep 4 g (s\<lparr>UENUM := 4\<rparr>))"
    "cdc_out (g (eps s 4))" "r_bank (g (eps s 4)) = r_bank (eps s 4)"
    and z: "ep_size (g (eps s 4)) = ep_size (eps s 4)"
  proof -
    obtain g where g: "CDC_Device_BytesReceived bridge_config s = (of_nat ?k, upd_ep 4 g (s\<lparr>UENUM := 4\<rparr>))"
      "cdc_out (g (eps s 4))" "r_bank (g (eps s 4)) = r_bank (eps s 4)"
      using BytesReceived_counts [OF ok(1) config_out ok(2,4)] unfolding config_numbers by blast
    then have "upd_ep 4 g (s\<lparr>UENUM := 4\<rparr>) = clear_empty_out (Endpoint_SelectEndpoint 4 s)"
      using ok(1) by (simp add: CDC_Device_BytesReceived_def Let_def)
    moreover have "ep_size (eps (clear_empty_out (Endpoint_SelectEndpoint 4 s)) 4) = ep_size (eps s 4)"
      by (simp add: clear_empty_out_def Endpoint_ops_cur upd_cur_def upd_ep_def Endpoint_SelectEndpoint_def uenum_write_def ep_size_clear_out)
    moreover have "eps (upd_ep 4 g (s\<lparr>UENUM := 4\<rparr>)) 4 = g (eps s 4)" by simp
    ultimately have "ep_size (g (eps s 4)) = ep_size (eps s 4)" by metis
    with g that show ?thesis by blast
  qed
  define t where "t = upd_ep 4 g (s\<lparr>UENUM := 4\<rparr>)"
  have e: "eps t 4 = g (eps s 4)" "eps t 0 = eps s 0" "USBtoUSART_Buffer t = USBtoUSART_Buffer s" "uart_out t = uart_out s" "cdc_open t = cdc_open s"
    by (simp_all add: t_def upd_ep_def cdc_open_def)
  then have t: "bridge_ok t" "down t = down s" "?k \<le> length (r_bank (eps t 4))"
    using assms(1) g(2,3) z by (simp_all add: bridge_ok_def down_def)
  have n: "unat (ucast (of_nat ?k :: u16) :: u8) = ?k"
    using ok(3) by (simp only: unsigned_ucast_eq unat_of_nat) (simp add: take_bit_nat_eq_self)
  show ?thesis
    unfolding assms(2) using g(1,3) t n e unfolding t_def [symmetric] by (intro exI [of _ t]) simp
qed

text \<open>A round returns within 202 frames: at most two waits for the endpoint to the host.\<close>

lemma usart_to_usb_returns:
  assumes "101 \<le> n"
  shows "\<exists>s' k. usart_to_usb (replicate n sof) s = Inr ((), s', replicate k sof) \<and> n \<le> k + 101"
proof (cases "rb_Elements (USARTtoUSB_Buffer s) = 0")
  case True
  then show ?thesis by (auto simp: usart_to_usb_def intro: exI [of _ n])
next
  case False
  obtain b buf where g: "Buffer_GetElement BUFF_NOEMPTYCHECK (USARTtoUSB_Buffer s) = (b, buf)"
    by (cases "Buffer_GetElement BUFF_NOEMPTYCHECK (USARTtoUSB_Buffer s)")
  obtain r s' k where "CDC_Device_SendByte bridge_config b (replicate n sof) (s\<lparr>USARTtoUSB_Buffer := buf\<rparr>) = Inr (r, s', replicate k sof)"
    "n \<le> k + 101"
    using in_operations_return(1) [OF assms, of bridge_config b "[]"] unfolding append_Nil2 by blast
  then show ?thesis using False g by (simp add: usart_to_usb_def)
qed

lemma usb_task_returns:
  assumes "101 \<le> n"
  shows "\<exists>s' k. CDC_Device_USBTask bridge_config (replicate n sof) s = Inr ((), s', replicate k sof)"
proof -
  obtain r s' k where "CDC_Device_Flush bridge_config (replicate n sof)
      (clear_empty_out (Endpoint_SelectEndpoint (DataOUTEndpointNumber bridge_config) s)) = Inr (r, s', replicate k sof)"
    using in_operations_return(2) [OF assms, of bridge_config "[]"] unfolding append_Nil2 by blast
  then show ?thesis by (auto simp: CDC_Device_USBTask_def intro: exI [of _ n])
qed

lemma bridge_round_returns:
  assumes "bridge_ok s"
  shows "\<exists>s' w'. bridge_round app (replicate 202 sof) s = Inr ((), s', w')"
proof -
  have ev: "\<forall>e \<in> set (replicate k sof). bridge_event e" for k by (simp add: bridge_event_def)
  let ?k = "length (r_bank (eps s 4))"
  obtain t where t: "CDC_Device_BytesReceived bridge_config s = (of_nat ?k, t)" "unat (ucast (of_nat ?k :: u16) :: u8) = ?k"
    "bridge_ok t" "?k \<le> length (r_bank (eps t 4))"
    using round_start [OF assms refl] by blast
  let ?a = "usb_to_usart ?k t"
  obtain b k where b: "usart_to_usb (replicate 202 sof) ?a = Inr ((), b, replicate k sof)" "202 \<le> k + 101"
    using usart_to_usb_returns [of 202 ?a] by auto
  then have "101 \<le> k" by simp
  then obtain c k' where c: "CDC_Device_USBTask bridge_config (replicate k sof) (usart_load b) = Inr ((), c, replicate k' sof)"
    using usb_task_returns by blast
  have "bridge_ok b"
    using usb_to_usart_down [OF t(3,4)] down_view_ok [OF usart_to_usb_down [OF b(1) ev]] by simp
  then have "bridge_ok c" using usb_task_down(1) [OF c usart_load_down(1) ev] by blast
  then obtain n where "USB_USBTask app (replicate k' sof) c = Inr ((), c\<lparr>UENUM := n\<rparr>, replicate k' sof)"
    using idle_device_task [of c app "replicate k' sof"] by (auto simp: bridge_ok_def cdc_open_def device_state_defs)
  then show ?thesis using t(1,2) b(1) c by (simp add: bridge_round_def)
qed

lemma bridge_round_down:
  assumes "bridge_round app w s = Inr ((), s', w')" "bridge_ok s" "\<forall>e \<in> set w. bridge_event e"
  shows "bridge_ok s' \<and> down s' = down s \<and> uart_out s' = uart_out s @ take 1 (ring_contents (USBtoUSART_Buffer s) @ r_bank (eps s 4))"
proof -
  let ?k = "length (r_bank (eps s 4))"
  obtain t where t: "CDC_Device_BytesReceived bridge_config s = (of_nat ?k, t)" "unat (ucast (of_nat ?k :: u16) :: u8) = ?k"
    "bridge_ok t" "down t = down s" "?k \<le> length (r_bank (eps t 4))" "uart_out t = uart_out s"
    "USBtoUSART_Buffer t = USBtoUSART_Buffer s"
    using round_start [OF assms(2) refl] by blast
  let ?a = "usb_to_usart ?k t"
  note a = usb_to_usart_down [OF t(3,5)]
  obtain b c w1 w2 where run: "usart_to_usb w ?a = Inr ((), b, w1)" "CDC_Device_USBTask bridge_config w1 (usart_load b) = Inr ((), c, w2)"
    "USB_USBTask app w2 c = Inr ((), s', w')"
    using assms(1) by (auto simp: bridge_round_def t bind_run_Inr_iff)
  have v: "down_view b = down_view ?a" using usart_to_usb_down [OF run(1) assms(3)] .
  have w1: "\<forall>e \<in> set w1. bridge_event e" using usart_to_usb_world [OF run(1)] assms(3) by blast
  have b: "bridge_ok b" "down b = down s" "uart_out b = uart_out s" "USBtoUSART_Buffer b = USBtoUSART_Buffer ?a" "r_bank (eps b 4) = r_bank (eps ?a 4)"
    using a down_view_ok [OF v] down_view_down [OF v] v t(4,6) by (simp_all add: down_view_def)
  note l = usart_load_down [OF b(1)]
  note c = usb_task_down [OF run(2) l(1) w1]
  have "take 1 (ring_contents (USBtoUSART_Buffer b)) = take 1 (ring_contents (USBtoUSART_Buffer s) @ r_bank (eps s 4))"
  proof (cases "ring_contents (USBtoUSART_Buffer ?a) = []")
    case True
    then have "ring_contents (USBtoUSART_Buffer s) = []" "r_bank (eps s 4) = []" using a t(7) by simp_all
    then show ?thesis using True b(4) by simp
  next
    case False
    have "ring_contents (USBtoUSART_Buffer ?a) @ r_bank (eps ?a 4) = ring_contents (USBtoUSART_Buffer s) @ r_bank (eps s 4)"
      using a t(4,6) by (auto simp: down_def)
    then have "take 1 (ring_contents (USBtoUSART_Buffer s) @ r_bank (eps s 4)) = take 1 (ring_contents (USBtoUSART_Buffer ?a) @ r_bank (eps ?a 4))"
      by simp
    then show ?thesis using False b(4) by (cases "ring_contents (USBtoUSART_Buffer ?a)") simp_all
  qed
  moreover obtain k where "s' = c\<lparr>UENUM := k\<rparr>"
    using idle_device_task [of c app w2] run(3) c(1) by (auto simp: bridge_ok_def cdc_open_def device_state_defs)
  moreover have "bridge_ok (c\<lparr>UENUM := k\<rparr>) = bridge_ok c" "down (c\<lparr>UENUM := k\<rparr>) = down c" for k
    using down_view_ok [OF down_view_frame(1)] down_view_down [OF down_view_frame(1)] by blast+
  ultimately show ?thesis using l c b by simp
qed

section \<open>Runs\<close>

text \<open>
  Rounds of the main loop, with the host, the frames and the line acting between them and while it waits:
  \<open>bridge_run s D t\<close>, where \<open>D\<close> is what the host sent on endpoint 4 in packets the controller accepted. No
  control request arrives.
\<close>

inductive bridge_run :: "'a bridge_scheme \<Rightarrow> u8 list \<Rightarrow> 'a bridge_scheme \<Rightarrow> bool" for s where
  start: "bridge_run s [] s"
| round: "bridge_run s D t \<Longrightarrow> bridge_round app w t = Inr ((), t', w') \<Longrightarrow> \<forall>e \<in> set w. bridge_event e \<Longrightarrow> bridge_run s D t'"
| host: "bridge_run s D t \<Longrightarrow> host_out 4 p t = Some t' \<Longrightarrow> bridge_run s (D @ p) t'"
| event: "bridge_run s D t \<Longrightarrow> bridge_event e \<Longrightarrow> bridge_run s D (e t)"

lemma host_out_down:
  assumes "host_out 4 p t = Some t'" "bridge_ok t"
  shows "bridge_ok t' \<and> down t' = down t @ p \<and> uart_out t' = uart_out t"
proof -
  have h: "\<not> bit (r_ueintx (eps t 4)) FIFOCON" "length p \<le> ep_size (eps t 4)"
    and t': "t' = upd_ep 4 (\<lambda>ep. ep\<lparr>r_bank := p, r_ueintx := (if ep_is_control ep then set_bit RXOUTI (r_ueintx ep)
        else set_bit FIFOCON (set_bit RXOUTI (r_ueintx ep)))\<rparr>) t"
    using assms(1) by (auto simp: host_out_def Let_def split: if_splits)
  have c: "cdc_out (eps t 4)" "r_bank (eps t 4) = []" using assms(2) h(1) by (simp_all add: bridge_ok_def cdc_out_def)
  have "cdc_out (eps t' 4)" "ep_size (eps t' 4) = ep_size (eps t 4)" "r_bank (eps t' 4) = p"
    using c by (simp_all add: t' cdc_out_def ep_is_control_def ep_is_in_def ep_size_def)
  then show ?thesis using assms(2) h(2) c(2) by (simp add: bridge_ok_def down_def) (simp add: t' upd_ep_def cdc_open_def)
qed

lemma bridge_run_down:
  assumes "bridge_run s D t" "bridge_ok s"
  shows "bridge_ok t \<and> down t = down s @ D"
  using assms
proof (induction rule: bridge_run.induct)
  case (round D t app w t' w')
  then show ?case using bridge_round_down [OF round.hyps(2)] by simp
next
  case (host D t p t')
  then show ?case using host_out_down [OF host.hyps(2)] by simp
next
  case (event D t e)
  have v: "down_view (e t) = down_view t" using bridge_event_keeps [OF event.hyps(2)] by simp
  show ?case using event.IH [OF event.prems] down_view_ok [OF v] down_view_down [OF v] by simp
qed simp

text \<open>C30: In every run of the USB to serial adapter without control requests what the host sent, the line got or will get, in
  order and without loss: written bytes, ring buffer and endpoint bank together are the host's bytes. A round puts
  exactly the oldest byte on its way onto the line, if there is one, and it returns once 202 frames came.\<close>

theorem serial_bridge_delivers:
  assumes "bridge_run s D t" "bridge_ok s"
  shows "uart_out t @ ring_contents (USBtoUSART_Buffer t) @ r_bank (eps t 4) =
      uart_out s @ ring_contents (USBtoUSART_Buffer s) @ r_bank (eps s 4) @ D \<and>
    (\<forall>app w t' w'. bridge_round app w t = Inr ((), t', w') \<and> (\<forall>e \<in> set w. bridge_event e) \<longrightarrow>
      uart_out t' = uart_out t @ take 1 (ring_contents (USBtoUSART_Buffer t) @ r_bank (eps t 4))) \<and>
    (\<forall>app. \<exists>t' w'. bridge_round app (replicate 202 sof) t = Inr ((), t', w'))"
proof -
  have t: "bridge_ok t" "down t = down s @ D" using bridge_run_down [OF assms] by simp_all
  show ?thesis
  proof (intro conjI)
    show "uart_out t @ ring_contents (USBtoUSART_Buffer t) @ r_bank (eps t 4) =
        uart_out s @ ring_contents (USBtoUSART_Buffer s) @ r_bank (eps s 4) @ D" using t(2) by (simp add: down_def)
    show "\<forall>app. \<exists>t' w'. bridge_round app (replicate 202 sof) t = Inr ((), t', w')" using bridge_round_returns [OF t(1)] by blast
  qed (use bridge_round_down [OF _ t(1)] in blast)
qed

definition bridge_demo :: bridge where
  "bridge_demo = usb_dev.extend (dev_reset\<lparr>USB_DeviceState := 4,
       eps := (\<lambda>_. ep_none)(4 := ep_none\<lparr>r_ueconx := 1, r_uecfg0x := 0x80, r_uecfg1x := 0x12\<rparr>)\<rparr>)
     \<lparr>HostToDevice = 0, DeviceToHost = 0, LineEncoding = \<lparr>BaudRateBPS = 9600, CharFormat = 0, ParityType = 0, DataBits = 8\<rparr>,
      USBtoUSART_Buffer = Buffer_Initialize \<lparr>rb_Buffer = replicate 128 0, rb_InPtr = 5, rb_OutPtr = 7, rb_Elements = 9\<rparr>,
      USARTtoUSB_Buffer = Buffer_Initialize \<lparr>rb_Buffer = replicate 128 0, rb_InPtr = 5, rb_OutPtr = 7, rb_Elements = 9\<rparr>,
      uart_out = [], UCSR1A = 0, UCSR1B = 0, UCSR1C = 0, UBRR1 = 0, DDRD = 0, PORTD = 0, LEDs = LEDMASK_USB_READY\<rparr>"

lemma bridge_demo_ok: "bridge_ok bridge_demo" "USBtoUSART_Buffer bridge_demo = ring_demo" "uart_out bridge_demo = []"
  "r_bank (eps bridge_demo 4) = []" "ring_contents ring_demo = []"
  using Initialize_ring [of "\<lparr>rb_Buffer = replicate 128 0, rb_InPtr = 5, rb_OutPtr = 7, rb_Elements = 9\<rparr>"]
  by (simp_all add: bridge_demo_def bridge_ok_def cdc_open_def cdc_out_def ring_demo_def dev_reset_def hw_reset_def usb_hw.defs usb_dev.defs
      ep_none_def ep_is_control_def ep_is_in_def ep_size_def reg_bits device_state_defs drop_bit_eq_div)

theorem serial_bridge_delivers_witness:
  "\<exists>t t' w'. bridge_run bridge_demo [0x48, 0x69] t \<and> uart_out t @ ring_contents (USBtoUSART_Buffer t) @ r_bank (eps t 4) = [0x48, 0x69] \<and>
    bridge_round (bridge_app (\<lambda>_ _. ([], 0))) (replicate 202 sof) t = Inr ((), t', w')"
proof -
  obtain t where "host_out 4 [0x48, 0x69] bridge_demo = Some t"
    by (simp add: host_out_def Let_def bridge_demo_def dev_reset_def hw_reset_def usb_hw.defs usb_dev.defs ep_none_def
        ep_is_control_def ep_is_in_def ep_size_def reg_bits drop_bit_eq_div)
  then have run: "bridge_run bridge_demo [0x48, 0x69] t"
    using bridge_run.host [OF bridge_run.start] by simp
  note del = serial_bridge_delivers [OF run bridge_demo_ok(1), unfolded bridge_demo_ok(2-5)]
  obtain t' w' where "bridge_round (bridge_app (\<lambda>_ _. ([], 0))) (replicate 202 sof) t = Inr ((), t', w')" using del by blast
  then show ?thesis using run conjunct1 [OF del] by (intro exI [of _ t] exI [of _ t'] exI [of _ w']) simp
qed

end
