(* ===== verification/HidDevice.thy ===== *)
theory HidDevice
  imports CdcDevice Enumeration
begin

text \<open>
  The device side of the HID class driver (\<open>USB/Class/Device/HID.c\<close>): requests, and the policy that decides when
  a report goes to the host. The two application callbacks are arguments.
\<close>

section \<open>State\<close>

record hid_config =
  hid_InterfaceNumber :: u8
  ReportINEndpointNumber :: u8
  ReportINEndpointSize :: u16
  ReportINEndpointDoubleBank :: bool
  PrevReportINBufferSize :: u8

text \<open>\<open>PrevReportINBuffer\<close> is the memory behind the pointer of that name, \<open>None\<close> for the null pointer.\<close>

record hid_dev = usb_dev +
  PrevReportINBuffer :: "u8 list option"
  UsingReportProtocol :: bool
  IdleCount :: u16
  IdleMSRemaining :: u16

definition REQ_GetReport :: u8 where "REQ_GetReport = 0x01"
definition REQ_GetIdle :: u8 where "REQ_GetIdle = 0x02"
definition REQ_GetProtocol :: u8 where "REQ_GetProtocol = 0x03"
definition HID_REQ_SetReport :: u8 where "HID_REQ_SetReport = 0x09"
definition REQ_SetIdle :: u8 where "REQ_SetIdle = 0x0A"
definition REQ_SetProtocol :: u8 where "REQ_SetProtocol = 0x0B"

text \<open>
  \<open>CALLBACK_HID_Device_CreateHIDReport\<close>: from the state, the report's number and the cleared buffer to the result,
  the report's number, the buffer filled and the report's size. \<open>CALLBACK_HID_Device_ProcessHIDReport\<close>.
\<close>

type_synonym 'a hid_create = "'a hid_dev_scheme \<Rightarrow> u8 \<Rightarrow> u8 list \<Rightarrow> (bool \<times> u8 \<times> u8 list \<times> u16) \<times> 'a hid_dev_scheme"
type_synonym 'a hid_process = "u8 \<Rightarrow> u8 list \<Rightarrow> u16 \<Rightarrow> 'a hid_dev_scheme \<Rightarrow> 'a hid_dev_scheme"

section \<open>Requests\<close>

text \<open>\<open>memset(p, 0, n)\<close>\<close>

definition clear_memory :: "nat \<Rightarrow> u8 list option \<Rightarrow> stop + u8 list" where
  "clear_memory n p =
     (case p of
        None \<Rightarrow> if n = 0 then Inr [] else Inl Fault
      | Some m \<Rightarrow> if length m < n then Inl Fault else Inr (replicate n 0 @ drop n m))"

definition hid_GetReport :: "hid_config \<Rightarrow> 'a hid_create \<Rightarrow> 'a hid_dev_scheme world \<Rightarrow> 'a hid_dev_scheme \<Rightarrow> ('a hid_dev_scheme, unit) run" where
  "hid_GetReport c create w s =
     (let s = Endpoint_ClearSETUP s;
          ReportID = ucast (wValue (USB_ControlRequest s) AND 0xFF)
      in case clear_memory (unat (PrevReportINBufferSize c)) (PrevReportINBuffer s) of
           Inl e \<Rightarrow> Inl e
         | Inr m \<Rightarrow>
             (case create s ReportID m of
                ((_, _, m, ReportINSize), s) \<Rightarrow>
                  let s = Endpoint_SelectEndpoint ENDPOINT_CONTROLEP (s\<lparr>PrevReportINBuffer := map_option (\<lambda>_. m) (PrevReportINBuffer s)\<rparr>)
                  in bind_run (Endpoint_Write_Control_Stream_LE m ReportINSize w s) (\<lambda>_ s w. Inr ((), Endpoint_ClearOUT s, w))))"

text \<open>\<open>junk\<close> is what the array on the stack holds before the report is read into it.\<close>

definition hid_SetReport :: "(nat \<Rightarrow> u8) \<Rightarrow> 'a hid_process \<Rightarrow> 'a hid_dev_scheme world \<Rightarrow> 'a hid_dev_scheme \<Rightarrow> ('a hid_dev_scheme, unit) run" where
  "hid_SetReport junk process w s =
     (let s = Endpoint_ClearSETUP s;
          ReportOUTSize = wLength (USB_ControlRequest s);
          ReportID = ucast (wValue (USB_ControlRequest s) AND 0xFF)
      in bind_run (Endpoint_Read_Control_Stream_LE (map junk [0..<unat ReportOUTSize]) ReportOUTSize w s)
           (\<lambda>(_, ReportOUTData) s w. Inr ((), process ReportID ReportOUTData ReportOUTSize (Endpoint_ClearIN s), w)))"

definition hid_answer :: "u8 \<Rightarrow> 'a hid_dev_scheme world \<Rightarrow> 'a hid_dev_scheme \<Rightarrow> ('a hid_dev_scheme, unit) run" where
  "hid_answer b w s = Endpoint_ClearStatusStage w (Endpoint_ClearIN (Endpoint_Write_Byte b (Endpoint_ClearSETUP s)))"

definition idle_of :: "u16 \<Rightarrow> u16" where
  "idle_of v = drop_bit 6 (v AND 0xFF00)"

definition HID_Device_ProcessControlRequest ::
  "hid_config \<Rightarrow> (nat \<Rightarrow> u8) \<Rightarrow> 'a hid_create \<Rightarrow> 'a hid_process \<Rightarrow> 'a hid_dev_scheme world \<Rightarrow> 'a hid_dev_scheme \<Rightarrow> ('a hid_dev_scheme, unit) run" where
  "HID_Device_ProcessControlRequest c junk create process w s =
     (let r = USB_ControlRequest s;
          to_host = (bmRequestType r = REQDIR_DEVICETOHOST OR CLASS_INTERFACE);
          to_device = (bmRequestType r = REQDIR_HOSTTODEVICE OR CLASS_INTERFACE)
      in if \<not> Endpoint_IsSETUPReceived s then Inr ((), s, w)
         else if wIndex r \<noteq> ucast (hid_InterfaceNumber c) then Inr ((), s, w)
         else if bRequest r = REQ_GetReport then (if to_host then hid_GetReport c create w s else Inr ((), s, w))
         else if bRequest r = HID_REQ_SetReport then (if to_device then hid_SetReport junk process w s else Inr ((), s, w))
         else if bRequest r = REQ_GetProtocol then
           (if to_host then hid_answer (if UsingReportProtocol s then 1 else 0) w s else Inr ((), s, w))
         else if bRequest r = REQ_SetProtocol then
           (if to_device then
              Endpoint_ClearStatusStage w ((Endpoint_ClearSETUP s)\<lparr>UsingReportProtocol := (wValue r AND 0xFF \<noteq> 0)\<rparr>)
            else Inr ((), s, w))
         else if bRequest r = REQ_SetIdle then
           (if to_device then
              Endpoint_ClearStatusStage w ((Endpoint_ClearSETUP s)\<lparr>IdleCount := idle_of (wValue r)\<rparr>)
            else Inr ((), s, w))
         else if bRequest r = REQ_GetIdle then
           (if to_host then hid_answer (ucast (drop_bit 2 (IdleCount s))) w s else Inr ((), s, w))
         else Inr ((), s, w))"

definition HID_Device_ConfigureEndpoints :: "hid_config \<Rightarrow> 'a hid_dev_scheme \<Rightarrow> stop + bool \<times> 'a hid_dev_scheme" where
  "HID_Device_ConfigureEndpoints c s =
     Endpoint_ConfigureEndpoint (ReportINEndpointNumber c) CDC_TYPE_INTERRUPT ENDPOINT_DIR_IN (ReportINEndpointSize c)
       (bank_mode (ReportINEndpointDoubleBank c)) (s\<lparr>UsingReportProtocol := True, IdleCount := 500, IdleMSRemaining := 0\<rparr>)"

section \<open>Reports\<close>

text \<open>\<open>memcmp\<close> and \<open>memcpy\<close> of the first \<open>n\<close> bytes of the report and the previous one.\<close>

definition compare_and_keep :: "nat \<Rightarrow> u8 list \<Rightarrow> u8 list option \<Rightarrow> stop + bool \<times> u8 list option" where
  "compare_and_keep n rpt prev =
     (case prev of
        None \<Rightarrow> Inr (False, None)
      | Some m \<Rightarrow>
          if length rpt < n \<or> length m < n then Inl Fault
          else Inr (take n rpt \<noteq> take n m, Some (take n rpt @ drop n m)))"

definition HID_Device_USBTask :: "hid_config \<Rightarrow> 'a hid_create \<Rightarrow> 'a hid_dev_scheme world \<Rightarrow> 'a hid_dev_scheme \<Rightarrow> ('a hid_dev_scheme, unit) run" where
  "HID_Device_USBTask c create w s =
     (if USB_DeviceState s \<noteq> DEVICE_STATE_Configured then Inr ((), s, w)
      else
        let s = Endpoint_SelectEndpoint (ReportINEndpointNumber c) s
        in if \<not> Endpoint_IsReadWriteAllowed s then Inr ((), s, w)
           else
             case create s 0 (replicate (unat (PrevReportINBufferSize c)) 0) of
               ((ForceSend, ReportID, ReportINData, ReportINSize), s) \<Rightarrow>
                 let IdlePeriodElapsed = (IdleCount s \<noteq> 0 \<and> IdleMSRemaining s = 0)
                 in case compare_and_keep (unat ReportINSize) ReportINData (PrevReportINBuffer s) of
                      Inl e \<Rightarrow> Inl e
                    | Inr (StatesChanged, prev) \<Rightarrow>
                        let s = s\<lparr>PrevReportINBuffer := prev\<rparr>
                        in if ReportINSize \<noteq> 0 \<and> (ForceSend \<or> StatesChanged \<or> IdlePeriodElapsed) then
                             let s = Endpoint_SelectEndpoint (ReportINEndpointNumber c) (s\<lparr>IdleMSRemaining := IdleCount s\<rparr>);
                                 s = (if ReportID \<noteq> 0 then Endpoint_Write_Byte ReportID s else s)
                             in bind_run (Endpoint_Write_Stream_LE ReportINData ReportINSize w s) (\<lambda>_ s w. Inr ((), Endpoint_ClearIN s, w))
                           else Inr ((), s, w))"

definition HID_Device_MillisecondElapsed :: "'a hid_dev_scheme \<Rightarrow> 'a hid_dev_scheme" where
  "HID_Device_MillisecondElapsed s = (if IdleMSRemaining s \<noteq> 0 then s\<lparr>IdleMSRemaining := IdleMSRemaining s - 1\<rparr> else s)"

section \<open>When a report is sent\<close>

text \<open>A report is due when there is one and the program forces it, it differs from the previous one, or the idle period is over.\<close>

definition hid_due :: "bool \<Rightarrow> u8 list \<Rightarrow> 'a hid_dev_scheme \<Rightarrow> bool" where
  "hid_due force rpt s \<longleftrightarrow> rpt \<noteq> [] \<and>
     (force \<or> (case PrevReportINBuffer s of None \<Rightarrow> False | Some m \<Rightarrow> take (length rpt) m \<noteq> rpt) \<or>
      IdleCount s \<noteq> 0 \<and> IdleMSRemaining s = 0)"

lemma ticks_idle:
  "unat (IdleMSRemaining ((HID_Device_MillisecondElapsed ^^ k) s)) = unat (IdleMSRemaining s) - k"
  "IdleCount ((HID_Device_MillisecondElapsed ^^ k) s) = IdleCount s"
  "PrevReportINBuffer ((HID_Device_MillisecondElapsed ^^ k) s) = PrevReportINBuffer s"
  by (induction k) (auto simp: HID_Device_MillisecondElapsed_def unat_minus_one unat_eq_0)

text \<open>An unchanged report is sent again when the idle period is over, and not before; with an idle count of 0, never.\<close>

lemma hid_idle_repeat:
  assumes "rpt \<noteq> []" "IdleMSRemaining s = IdleCount s"
    "case PrevReportINBuffer s of None \<Rightarrow> True | Some m \<Rightarrow> take (length rpt) m = rpt"
  shows "hid_due False rpt ((HID_Device_MillisecondElapsed ^^ k) s) \<longleftrightarrow> IdleCount s \<noteq> 0 \<and> unat (IdleCount s) \<le> k"
proof -
  have "IdleMSRemaining ((HID_Device_MillisecondElapsed ^^ k) s) = 0 \<longleftrightarrow> unat (IdleCount s) \<le> k"
    using ticks_idle(1) [of k s] assms(2) by (simp add: unat_eq_0 [symmetric])
  then show ?thesis using assms by (simp add: hid_due_def ticks_idle split: option.splits)
qed

lemma hid_frame [simp]:
  "eps (s\<lparr>PrevReportINBuffer := x\<rparr>) = eps s" "cur (s\<lparr>PrevReportINBuffer := x\<rparr>) = cur s" "cur (s\<lparr>IdleMSRemaining := y\<rparr>) = cur s"
  by (simp_all add: cur_def)

text \<open>With a ready endpoint the task returns; it hands the report to the host, behind its number if it has one,
  exactly when it is due, then starts the idle period anew, and keeps it as the previous one.\<close>

lemma hid_report_sent:
  fixes s :: "'a hid_dev_scheme"
  assumes "USB_DeviceState s = DEVICE_STATE_Configured" "N < 8" "ReportINEndpointNumber c = N" "in_owned (eps s (unat N))"
    "r_bank (eps s (unat N)) = []"
    and c: "create (Endpoint_SelectEndpoint N s) 0 (replicate (unat (PrevReportINBufferSize c)) 0) =
      ((force, number, buf, L), Endpoint_SelectEndpoint N s)"
    and l: "unat L \<le> length buf" "case PrevReportINBuffer s of None \<Rightarrow> True | Some m \<Rightarrow> unat L \<le> length m"
      "length (if number = 0 then [] else [number]) + unat L \<le> ep_size (eps s (unat N))"
  defines "rpt \<equiv> take (unat L) buf"
  shows "\<exists>s'. HID_Device_USBTask c create w s = Inr ((), s', w) \<and>
    r_tx (eps s' (unat N)) = (if hid_due force rpt s then Some ((if number = 0 then [] else [number]) @ rpt) else None) \<and>
    IdleMSRemaining s' = (if hid_due force rpt s then IdleCount s else IdleMSRemaining s) \<and>
    PrevReportINBuffer s' = map_option (\<lambda>m. rpt @ drop (length rpt) m) (PrevReportINBuffer s)"
proof -
  let ?s = "Endpoint_SelectEndpoint N s" and ?n = "unat N" and ?d = "hid_due force rpt s"
  let ?p = "map_option (\<lambda>m. rpt @ drop (length rpt) m) (PrevReportINBuffer s)"
  have f: "IdleCount ?s = IdleCount s" "IdleMSRemaining ?s = IdleMSRemaining s" "PrevReportINBuffer ?s = PrevReportINBuffer s"
    "UENUM ?s = N" "eps ?s = eps s"
    using assms(2) by (simp_all add: Endpoint_SelectEndpoint_def uenum_write_def ep_number)
  have cur: "cur ?s = eps s ?n" using f by (simp add: cur_def)
  have len: "length rpt = unat L" using l(1) by (simp add: rpt_def)
  have rwal: "Endpoint_IsReadWriteAllowed ?s"
    unfolding Endpoint_flags cur using assms(4,5) by (simp add: ep_rwal_in ep_size_def)
  have cmp: "compare_and_keep (unat L) buf (PrevReportINBuffer s) =
      Inr (case PrevReportINBuffer s of None \<Rightarrow> False | Some m \<Rightarrow> take (length rpt) m \<noteq> rpt, ?p)"
    using l(1,2) by (auto simp: compare_and_keep_def rpt_def split: option.splits)
  have due: "L \<noteq> 0 \<and> (force \<or> (case PrevReportINBuffer s of None \<Rightarrow> False | Some m \<Rightarrow> take (length rpt) m \<noteq> rpt) \<or>
      IdleCount s \<noteq> 0 \<and> IdleMSRemaining s = 0) \<longleftrightarrow> ?d"
    using len by (auto simp: hid_due_def unat_eq_0)
  let ?t = "?s\<lparr>PrevReportINBuffer := ?p\<rparr>"
  show ?thesis
  proof (cases ?d)
    case False
    then have "HID_Device_USBTask c create w s = Inr ((), ?t, w)"
      using assms(1,3) c rwal by (simp add: HID_Device_USBTask_def Let_def f cmp due cong: if_cong)
    then show ?thesis using False assms(4) f by (simp add: in_owned_def)
  next
    case True
    let ?u = "Endpoint_SelectEndpoint N (?t\<lparr>IdleMSRemaining := IdleCount s\<rparr>)"
    let ?b = "if number = 0 then [] else [number]"
    let ?v = "upd_cur (\<lambda>ep. ep\<lparr>r_bank := ?b\<rparr>) ?u"
    have u: "UENUM ?u = N" "cur ?u = eps s ?n" "IdleMSRemaining ?u = IdleCount s" "PrevReportINBuffer ?u = ?p"
      using assms(2) f by (simp_all add: Endpoint_SelectEndpoint_def uenum_write_def ep_number cur_def)
    have v: "(if number \<noteq> 0 then Endpoint_Write_Byte number ?u else ?u) = ?v"
    proof (cases "number = 0")
      case True
      have "upd_cur (\<lambda>ep. ep\<lparr>r_bank := r_bank (cur ?u)\<rparr>) ?u = ?u" by (rule upd_cur_bank_same)
      then show ?thesis using True u(2) assms(5) by simp
    next
      case False
      then show ?thesis
        using assms(5) by (simp add: Endpoint_ops_cur, intro upd_cur_cong) (simp add: ep_push_def ep_size_def ep_number [OF assms(2)])
    qed
    have cv: "cur ?v = (eps s ?n)\<lparr>r_bank := ?b\<rparr>" using u(2) by simp
    have own: "in_owned (cur ?v)" unfolding cv using assms(4) by (simp add: in_owned_def ep_is_control_def ep_is_in_def)
    have "length (r_bank (cur ?v)) + unat L \<le> ep_size (cur ?v)" unfolding cv using l(3) by simp
    note run = Write_Stream_fits [OF own this l(1), of w, folded rpt_def]
    let ?z = "Endpoint_ClearIN (upd_cur (\<lambda>ep. ep\<lparr>r_bank := r_bank ep @ rpt\<rparr>) ?v)"
    have "HID_Device_USBTask c create w s = Inr ((), ?z, w)"
      using assms(1,3) c rwal True by (simp add: HID_Device_USBTask_def Let_def f cmp due v run cong: if_cong)
    moreover have "r_tx (eps ?z ?n) = Some (?b @ rpt)"
    proof -
      have "eps ?z ?n = ep_clear_in ((eps s ?n)\<lparr>r_bank := ?b @ rpt\<rparr>)"
        using u(1,2) by (simp add: Endpoint_ops_cur upd_cur_def upd_ep_def cur_def ep_number [OF assms(2)])
      then show ?thesis using assms(4) by (simp add: ep_clear_in_bulk in_owned_def ep_is_control_def ep_is_in_def)
    qed
    moreover have "IdleMSRemaining ?z = IdleCount s" "PrevReportINBuffer ?z = ?p"
      using u(3,4) by (simp_all add: Endpoint_ops_cur upd_cur_def upd_ep_def)
    ultimately show ?thesis using True by simp
  qed
qed

section \<open>The idle rate\<close>

text \<open>The rate is kept in milliseconds, the requests carry it in steps of four.\<close>

lemma idle_steps:
  fixes v :: u16
  shows "unat (idle_of v) = 4 * unat (drop_bit 8 v)" "(ucast (drop_bit 2 (idle_of v)) :: u8) = ucast (drop_bit 8 v)"
proof -
  have m: "bit (0xFF00 :: u16) k \<longleftrightarrow> 8 \<le> k \<and> k < 16" for k
  proof -
    have "(0xFF00 :: u16) = push_bit 8 (mask 8)" by (simp add: mask_eq_exp_minus_1 push_bit_eq_mult)
    then have "bit (0xFF00 :: u16) k = bit (push_bit 8 (mask 8) :: u16) k" by (simp only:)
    then show ?thesis by (simp only:) (auto simp: bit_simps)
  qed
  have b16: "bit v n \<Longrightarrow> n < 16" for n by (drule bit_imp_le_length) simp
  have i: "idle_of v = push_bit 2 (drop_bit 8 v)"
  proof (rule bit_eqI)
    show "bit (idle_of v) n = bit (push_bit 2 (drop_bit 8 v)) n" for n
      using b16 [of "6 + n"] unfolding idle_of_def bit_drop_bit_eq bit_and_iff comp_def m by (auto simp: bit_simps)
  qed
  have "unat (drop_bit 8 v) < 256" using unat_less_u16 [of v] by (simp only: unat_drop_bit_eq) (simp only: drop_bit_eq_div, simp)
  then show "unat (idle_of v) = 4 * unat (drop_bit 8 v)" unfolding i by (simp add: push_bit_eq_mult unat_word_ariths)
  have "drop_bit 2 (push_bit 2 (drop_bit 8 v)) = drop_bit 8 v"
  proof (rule bit_eqI)
    show "bit (drop_bit 2 (push_bit 2 (drop_bit 8 v))) n = bit (drop_bit 8 v) n" for n
      using b16 [of "8 + n"] by (auto simp: bit_simps)
  qed
  then show "(ucast (drop_bit 2 (idle_of v)) :: u8) = ucast (drop_bit 8 v)" unfolding i by (simp only:)
qed

text \<open>The idle rate a host sets is the one it reads back: SetIdle, its status packet collected, and GetIdle
  answer with the rate in the SetIdle request, and the driver counts four milliseconds for each step.\<close>

lemma hid_idle_roundtrip:
  assumes "ctl_ready t" "bRequest r = REQ_SetIdle" "bmRequestType r = 0x21" "wIndex r = ucast (hid_InterfaceNumber c)"
    "bRequest q = REQ_GetIdle" "bmRequestType q = 0xA1" "wIndex q = ucast (hid_InterfaceNumber c)"
  shows "\<exists>t1 t2. HID_Device_ProcessControlRequest c junk create process w (pending r t) = Inr ((), t1, w) \<and>
    HID_Device_ProcessControlRequest c junk create process (collect 0 # deliver 0 [] # w) (pending q (collect 0 t1)) = Inr ((), t2, w) \<and>
    r_sent (eps t2 0) = r_sent (eps t 0) @ [[], [ucast (drop_bit 8 (wValue r))]] \<and>
    unat (IdleCount t2) = 4 * unat (drop_bit 8 (wValue r))"
proof -
  note req = REQ_SetIdle_def REQ_GetIdle_def REQ_GetReport_def REQ_GetProtocol_def HID_REQ_SetReport_def REQ_SetProtocol_def
    REQDIR_DEVICETOHOST_def REQDIR_HOSTTODEVICE_def CLASS_INTERFACE_def REQREC_INTERFACE_def
  have arrived: "Endpoint_IsSETUPReceived (pending p u)" if "ctl_ready u" for p and u :: "'a hid_dev_scheme"
    using that by (simp add: Endpoint_flags cur_def ctl_ready_def)
  let ?s = "t\<lparr>USB_ControlRequest := r, IdleCount := idle_of (wValue r)\<rparr>"
  have s: "ctl_ready ?s" using assms(1) by (simp add: ctl_ready_def)
  have set: "HID_Device_ProcessControlRequest c junk create process w (pending r t) = Inr ((), Endpoint_ClearIN ?s, w)"
    using assms(2-4) arrived [OF assms(1)] ClearSETUP_pending [OF assms(1), of r] status_in [OF s]
    by (simp add: HID_Device_ProcessControlRequest_def Let_def req)
  let ?u = "add_sent [[]] ?s"
  let ?v = "?u\<lparr>USB_ControlRequest := q\<rparr>"
  have u: "collect 0 (Endpoint_ClearIN ?s) = ?u" "ctl_ready ?u" "ctl_ready ?v" using ClearIN_idle(1) [OF s] s by simp_all
  have i: "IdleCount (pending q ?u) = idle_of (wValue r)" by (simp add: pending_def add_sent_def upd_ep_def)
  have get: "HID_Device_ProcessControlRequest c junk create process (collect 0 # deliver 0 [] # w) (pending q ?u) =
      Inr ((), add_sent [[ucast (drop_bit 8 (wValue r))]] ?v, w)"
    using assms(5-7) arrived [OF u(2)] ClearSETUP_pending [OF u(2), of q] write_report(1) [OF u(3)] status_out [OF u(3), of "[ucast (drop_bit 8 (wValue r))]" w]
    by (simp add: HID_Device_ProcessControlRequest_def hid_answer_def Let_def i idle_steps(2)) (simp add: req)
  show ?thesis
    using set get u(1) by (intro exI conjI) (assumption | simp add: add_sent_def upd_ep_def idle_steps(1))+
qed

section \<open>Instances\<close>

definition hid_demo_config :: hid_config where
  "hid_demo_config = \<lparr>hid_InterfaceNumber = 0, ReportINEndpointNumber = 3, ReportINEndpointSize = 8, ReportINEndpointDoubleBank = False,
     PrevReportINBufferSize = 3\<rparr>"

text \<open>A report of three bytes, the same each time; the host has set no idle rate.\<close>

definition hid_demo_dev :: "u8 list \<Rightarrow> hid_dev" where
  "hid_demo_dev prev = usb_dev.extend (dev_reset\<lparr>USB_DeviceState := 4,
       eps := (\<lambda>_. ep_none)(0 := ep_none\<lparr>r_ueconx := 1, r_ueintx := 1\<rparr>, 3 := ep_none\<lparr>r_uecfg0x := 0xC1, r_ueintx := 0x81\<rparr>)\<rparr>)
     \<lparr>PrevReportINBuffer = Some prev, UsingReportProtocol = True, IdleCount = 500, IdleMSRemaining = 20\<rparr>"

definition hid_demo_create :: "unit hid_create" where
  "hid_demo_create s ReportID buf = ((False, 0, [1, 0, 4], 3), s)"

lemma hid_demo_state:
  "in_owned (eps (hid_demo_dev m) 3)" "r_bank (eps (hid_demo_dev m) 3) = []" "ep_size (eps (hid_demo_dev m) 3) = 8"
  "USB_DeviceState (hid_demo_dev m) = 4" "PrevReportINBuffer (hid_demo_dev m) = Some m" "IdleCount (hid_demo_dev m) = 500"
  "IdleMSRemaining (hid_demo_dev m) = 20" "ctl_ready (hid_demo_dev m)" "r_sent (eps (hid_demo_dev m) 0) = []"
  by (simp_all add: hid_demo_dev_def dev_reset_def hw_reset_def usb_hw.defs usb_dev.defs ep_none_def in_owned_def ctl_ready_def
      ctl_idle_def ep_is_control_def ep_is_in_def ep_size_def reg_bits device_state_defs drop_bit_eq_div)

lemma hid_report_sent_instance:
  "\<exists>s' t'. HID_Device_USBTask hid_demo_config hid_demo_create [] (hid_demo_dev [1, 0, 0]) = Inr ((), s', []) \<and>
    r_tx (eps s' 3) = Some [1, 0, 4] \<and> IdleMSRemaining s' = 500 \<and>
    HID_Device_USBTask hid_demo_config hid_demo_create [] (hid_demo_dev [1, 0, 4]) = Inr ((), t', []) \<and> r_tx (eps t' 3) = None"
proof -
  have run: "\<exists>s'. HID_Device_USBTask hid_demo_config hid_demo_create [] (hid_demo_dev m) = Inr ((), s', []) \<and>
    r_tx (eps s' 3) = (if hid_due False [1, 0, 4] (hid_demo_dev m) then Some [1, 0, 4] else None) \<and>
    IdleMSRemaining s' = (if hid_due False [1, 0, 4] (hid_demo_dev m) then 500 else 20)" if "length m = 3" for m
    using hid_report_sent [of "hid_demo_dev m" 3 hid_demo_config hid_demo_create False 0 "[1, 0, 4]" 3 "[]"] that
    by (auto simp: hid_demo_state hid_demo_config_def hid_demo_create_def device_state_defs)
  have "hid_due False [1, 0, 4] (hid_demo_dev [1, 0, 0])" "\<not> hid_due False [1, 0, 4] (hid_demo_dev [1, 0, 4])"
    by (simp_all add: hid_due_def hid_demo_state)
  then show ?thesis using run [of "[1, 0, 0]"] run [of "[1, 0, 4]"] by auto
qed

lemma hid_idle_roundtrip_instance:
  "\<exists>t1 t2 :: hid_dev. r_sent (eps t2 0) = [[], [25]] \<and> IdleCount t2 = 100 \<and>
    HID_Device_ProcessControlRequest hid_demo_config (\<lambda>_. 0) hid_demo_create (\<lambda>_ _ _ s. s) []
      (pending \<lparr>bmRequestType = 0x21, bRequest = REQ_SetIdle, wValue = 0x1900, wIndex = 0, wLength = 0\<rparr> (hid_demo_dev [])) = Inr ((), t1, []) \<and>
    HID_Device_ProcessControlRequest hid_demo_config (\<lambda>_. 0) hid_demo_create (\<lambda>_ _ _ s. s) [collect 0, deliver 0 []]
      (pending \<lparr>bmRequestType = 0xA1, bRequest = REQ_GetIdle, wValue = 0, wIndex = 0, wLength = 1\<rparr> (collect 0 t1)) = Inr ((), t2, [])"
proof -
  let ?r = "\<lparr>bmRequestType = 0x21, bRequest = REQ_SetIdle, wValue = 0x1900, wIndex = 0, wLength = 0\<rparr> :: usb_request"
  let ?q = "\<lparr>bmRequestType = 0xA1, bRequest = REQ_GetIdle, wValue = 0, wIndex = 0, wLength = 1\<rparr> :: usb_request"
  obtain t1 t2 :: hid_dev where t: "HID_Device_ProcessControlRequest hid_demo_config (\<lambda>_. 0) hid_demo_create (\<lambda>_ _ _ s. s) [] (pending ?r (hid_demo_dev [])) = Inr ((), t1, [])"
    "HID_Device_ProcessControlRequest hid_demo_config (\<lambda>_. 0) hid_demo_create (\<lambda>_ _ _ s. s) [collect 0, deliver 0 []] (pending ?q (collect 0 t1)) = Inr ((), t2, [])"
    "r_sent (eps t2 0) = r_sent (eps (hid_demo_dev []) 0) @ [[], [ucast (drop_bit 8 (wValue ?r))]]" "unat (IdleCount t2) = 4 * unat (drop_bit 8 (wValue ?r))"
    using hid_idle_roundtrip [of "hid_demo_dev []" ?r hid_demo_config ?q "\<lambda>_. 0" hid_demo_create "\<lambda>_ _ _ s. s" "[]"]
    by (auto simp: hid_demo_state hid_demo_config_def)
  have "IdleCount t2 = 100" using t(4) by (simp add: word_unat_eq_iff)
  then show ?thesis using t(1,2,3) by (intro exI [of _ t1] exI [of _ t2]) (simp add: hid_demo_state)
qed

end
