(* ===== verification/MidiDevice.thy ===== *)
theory MidiDevice
  imports CdcDevice
begin

text \<open>The device side of the MIDI class driver (\<open>USB/Class/Device/MIDI.c\<close>): events of four bytes in both directions.\<close>

record midi_config =
  StreamingInterfaceNumber :: u8
  midi_DataINEndpointNumber :: u8
  midi_DataINEndpointSize :: u16
  midi_DataINEndpointDoubleBank :: bool
  midi_DataOUTEndpointNumber :: u8
  midi_DataOUTEndpointSize :: u16
  midi_DataOUTEndpointDoubleBank :: bool

text \<open>\<open>Command\<close> and \<open>CableNumber\<close> are bit fields of four bits, the first in the low bits of their byte.\<close>

record midi_event =
  me_Command :: u8
  me_CableNumber :: u8
  Data1 :: u8
  Data2 :: u8
  Data3 :: u8

definition midi_event_bytes :: "midi_event \<Rightarrow> u8 list" where
  "midi_event_bytes e = [(me_Command e AND 0x0F) OR push_bit 4 (me_CableNumber e AND 0x0F), Data1 e, Data2 e, Data3 e]"

definition midi_event_of_bytes :: "u8 list \<Rightarrow> midi_event" where
  "midi_event_of_bytes bs =
     \<lparr>me_Command = bs ! 0 AND 0x0F, me_CableNumber = drop_bit 4 (bs ! 0), Data1 = bs ! 1, Data2 = bs ! 2, Data3 = bs ! 3\<rparr>"

definition MIDI_Device_ConfigureEndpoints :: "midi_config \<Rightarrow> 'a usb_dev_scheme \<Rightarrow> stop + bool \<times> 'a usb_dev_scheme" where
  "MIDI_Device_ConfigureEndpoints c s =
     (case (if midi_DataINEndpointNumber c \<noteq> 0
            then Endpoint_ConfigureEndpoint (midi_DataINEndpointNumber c) EP_TYPE_BULK ENDPOINT_DIR_IN (midi_DataINEndpointSize c)
                   (bank_mode (midi_DataINEndpointDoubleBank c)) s
            else Inr (True, s)) of
        Inl e \<Rightarrow> Inl e
      | Inr (ok, s) \<Rightarrow>
          if \<not> ok then Inr (False, s)
          else if midi_DataOUTEndpointNumber c \<noteq> 0
          then Endpoint_ConfigureEndpoint (midi_DataOUTEndpointNumber c) EP_TYPE_BULK ENDPOINT_DIR_OUT (midi_DataOUTEndpointSize c)
                 (bank_mode (midi_DataOUTEndpointDoubleBank c)) s
          else Inr (True, s))"

text \<open>\<open>if (Endpoint_IsReadWriteAllowed());\<close>: the test has an empty body, and the block behind it always runs.\<close>

definition MIDI_Device_SendEventPacket ::
  "midi_config \<Rightarrow> midi_event \<Rightarrow> 'a usb_dev_scheme world \<Rightarrow> 'a usb_dev_scheme \<Rightarrow> ('a usb_dev_scheme, u8) run" where
  "MIDI_Device_SendEventPacket c Event w s =
     (if USB_DeviceState s \<noteq> DEVICE_STATE_Configured then Inr (ENDPOINT_READYWAIT_NoError, s, w)
      else
        bind_run (Endpoint_Write_Stream_LE (midi_event_bytes Event) 4 w (Endpoint_SelectEndpoint (midi_DataINEndpointNumber c) s))
          (\<lambda>ErrorCode s w.
            if ErrorCode \<noteq> ENDPOINT_READYWAIT_NoError then Inr (ErrorCode, s, w)
            else Inr (ENDPOINT_READYWAIT_NoError, Endpoint_ClearIN s, w)))"

definition MIDI_Device_ReceiveEventPacket ::
  "midi_config \<Rightarrow> midi_event \<Rightarrow> 'a usb_dev_scheme world \<Rightarrow> 'a usb_dev_scheme \<Rightarrow> ('a usb_dev_scheme, bool \<times> midi_event) run" where
  "MIDI_Device_ReceiveEventPacket c Event w s =
     (if USB_DeviceState s \<noteq> DEVICE_STATE_Configured then Inr ((False, Event), s, w)
      else
        let s = Endpoint_SelectEndpoint (midi_DataOUTEndpointNumber c) s
        in if \<not> Endpoint_IsReadWriteAllowed s then Inr ((False, Event), s, w)
           else
             bind_run (Endpoint_Read_Stream_LE (midi_event_bytes Event) 4 w s)
               (\<lambda>(_, buf) s w. Inr ((True, midi_event_of_bytes buf), Endpoint_ClearOUT s, w)))"

text \<open>The bytes of an event: what is sent is what the other side reads.\<close>

lemma midi_event_roundtrip:
  assumes "me_Command e < 16" "me_CableNumber e < 16"
  shows "midi_event_of_bytes (midi_event_bytes e) = e"
proof -
  have f: "(0x0F :: u8) = mask 4" by (simp add: mask_eq_exp_minus_1)
  have t: "take_bit 4 x = x" if "x < 16" for x :: u8
    using that by (simp add: word_less_nat_alt word_unat_eq_iff unsigned_take_bit_eq take_bit_nat_eq_self)
  have b: "n < 4" if "x < 16" "bit x n" for x :: u8 and n
    using t [OF that(1)] that(2) by (metis bit_take_bit_iff)
  have "((c AND 0x0F) OR push_bit 4 (n AND 0x0F)) AND 0x0F = c" "drop_bit 4 ((c AND 0x0F) OR push_bit 4 (n AND 0x0F)) = n"
    if "c < 16" "n < 16" for c n :: u8
    unfolding f take_bit_eq_mask [symmetric] t [OF that(1)] t [OF that(2)]
    using b [OF that(1)] b [OF that(2)] by (auto intro!: bit_eqI simp: bit_simps) fastforce
  then show ?thesis using assms by (simp add: midi_event_of_bytes_def midi_event_bytes_def)
qed

text \<open>
  A packet of the host may hold several events; the driver takes the first and frees the bank, so the others
  are lost.
\<close>

lemma midi_rest_lost:
  fixes s :: "'a usb_dev_scheme"
  assumes "USB_DeviceState s = DEVICE_STATE_Configured" "midi_DataOUTEndpointNumber c < 8" "n = unat (midi_DataOUTEndpointNumber c)"
    "out_owned (eps s n)" "r_bank (eps s n) = midi_event_bytes e @ rest" "me_Command e < 16" "me_CableNumber e < 16"
  shows "\<exists>s'. MIDI_Device_ReceiveEventPacket c old w s = Inr ((True, e), s', w) \<and> r_bank (eps s' n) = [] \<and> \<not> bit (r_ueintx (eps s' n)) RXOUTI"
proof -
  let ?s = "Endpoint_SelectEndpoint (midi_DataOUTEndpointNumber c) s"
  have u: "UENUM ?s = midi_DataOUTEndpointNumber c" "eps ?s = eps s"
    using assms(2) by (simp_all add: Endpoint_SelectEndpoint_def uenum_write_def ep_number)
  have cur: "cur ?s = eps s n" using u assms(3) by (simp add: cur_def)
  have l: "length (midi_event_bytes x) = 4" for x by (simp add: midi_event_bytes_def)
  have rw: "Endpoint_IsReadWriteAllowed ?s"
    unfolding Endpoint_flags cur using ep_rwal_out [OF assms(4)] assms(5) l [of e] by auto
  have "out_owned (cur ?s)" "unat (4 :: u16) \<le> length (r_bank (cur ?s))" "unat (4 :: u16) \<le> length (midi_event_bytes old)"
    unfolding cur using assms(4,5) l by simp_all
  note run = Read_Stream_fits [OF this, of w, unfolded cur assms(5)]
  let ?z = "Endpoint_ClearOUT (upd_cur (\<lambda>ep. ep\<lparr>r_bank := drop (unat (4 :: u16)) (r_bank ep)\<rparr>) ?s)"
  have "MIDI_Device_ReceiveEventPacket c old w s = Inr ((True, e), ?z, w)"
    using assms(1) rw run l midi_event_roundtrip [OF assms(6,7)] by (simp add: MIDI_Device_ReceiveEventPacket_def Let_def)
  moreover have "eps ?z n = ep_clear_out ((eps s n)\<lparr>r_bank := rest\<rparr>)"
    using u assms(3,5) l [of e] by (simp add: Endpoint_ops_cur upd_cur_def upd_ep_def cur_def)
  ultimately show ?thesis
    using assms(4) by (simp add: ep_clear_out_bulk out_owned_def ep_is_control_def ep_is_in_def bit_unset_bit_iff)
qed

end
