(* ===== verification/MassStorage.thy ===== *)
theory MassStorage
  imports CdcDevice Enumeration
begin

text \<open>
  The device side of the mass storage class driver (\<open>USB/Class/Device/MassStorage.c\<close>): the bulk-only transport,
  a command block in, the program's SCSI command, a status block out. The library is built as the gadget
  builds it, with control requests answered in an interrupt, but with the stream callbacks that this driver uses.
\<close>

section \<open>Streams with a callback\<close>

text \<open>
  \<open>Template_Endpoint_RW.c\<close> without \<open>NO_STREAM_CALLBACKS\<close>: after each packet \<open>abort\<close> is asked whether to go on.
\<close>

definition ENDPOINT_RWSTREAM_CallbackAborted :: u8 where "ENDPOINT_RWSTREAM_CallbackAborted = 4"

function stream_loop_cb ::
  "('a usb_dev_scheme \<Rightarrow> bool) \<Rightarrow> ('a usb_dev_scheme \<Rightarrow> 'a usb_dev_scheme) \<Rightarrow> ('b \<Rightarrow> 'a usb_dev_scheme \<Rightarrow> 'b \<times> 'a usb_dev_scheme) \<Rightarrow>
   u16 \<Rightarrow> 'b \<Rightarrow> 'a usb_dev_scheme world \<Rightarrow> 'a usb_dev_scheme \<Rightarrow> ('a usb_dev_scheme, u8 \<times> 'b) run" where
  "stream_loop_cb abort clear xfer Length b w s =
     (if Length = 0 then Inr ((ENDPOINT_READYWAIT_NoError, b), s, w)
      else if \<not> Endpoint_IsReadWriteAllowed s then
        (case w of
           [] \<Rightarrow> Inl Waiting
         | e # w \<Rightarrow>
             let s = e (clear s)
             in if abort s then Inr ((ENDPOINT_RWSTREAM_CallbackAborted, b), s, w)
                else case Endpoint_WaitUntilReady w s of
                       Inl x \<Rightarrow> Inl x
                     | Inr (ErrorCode, s, w) \<Rightarrow>
                         if ErrorCode \<noteq> 0 then Inr ((ErrorCode, b), s, w)
                         else stream_loop_cb abort clear xfer Length b w s)
      else
        (case xfer b s of (b, s) \<Rightarrow> stream_loop_cb abort clear xfer (Length - 1) b w s))"
  by pat_completeness auto
termination
proof (relation "measure (\<lambda>(abort, clear, xfer, Length, b, w, s). unat Length + length w)", goal_cases)
  case 1
  then show ?case by simp
next
  case (2 abort clear xfer Length b w s e w' s0 r c s1 w1)
  then show ?case using Endpoint_WaitUntilReady_world by fastforce
next
  case (3 abort clear xfer Length b w s b' s')
  then show ?case by (simp add: unat_minus_one unat_gt_0)
qed

declare stream_loop_cb.simps [simp del]

definition rw_stream_cb ::
  "('a usb_dev_scheme \<Rightarrow> bool) \<Rightarrow> ('a usb_dev_scheme \<Rightarrow> 'a usb_dev_scheme) \<Rightarrow> (buffer \<Rightarrow> 'a usb_dev_scheme \<Rightarrow> buffer \<times> 'a usb_dev_scheme) \<Rightarrow>
   u8 list \<Rightarrow> u16 \<Rightarrow> 'a usb_dev_scheme world \<Rightarrow> 'a usb_dev_scheme \<Rightarrow> ('a usb_dev_scheme, u8 \<times> u8 list) run" where
  "rw_stream_cb abort clear xfer Buffer Length w s =
     (if length Buffer < unat Length then Inl Fault
      else
        bind_run (Endpoint_WaitUntilReady w s) (\<lambda>ErrorCode s w.
          if ErrorCode \<noteq> 0 then Inr ((ErrorCode, Buffer), s, w)
          else bind_run (stream_loop_cb abort clear xfer Length (Buffer, 0) w s) (\<lambda>(c, (buf, p)) s w. Inr ((c, buf), s, w))))"

section \<open>State\<close>

record ms_config =
  ms_InterfaceNumber :: u8
  ms_DataINEndpointNumber :: u8
  ms_DataINEndpointSize :: u16
  ms_DataINEndpointDoubleBank :: bool
  ms_DataOUTEndpointNumber :: u8
  ms_DataOUTEndpointSize :: u16
  ms_DataOUTEndpointDoubleBank :: bool
  TotalLUNs :: u8

record command_block =
  cb_Signature :: u32
  cb_Tag :: u32
  cb_DataTransferLength :: u32
  cb_Flags :: u8
  cb_LUN :: u8
  cb_SCSICommandLength :: u8
  cb_SCSICommandData :: "u8 list"

record command_status =
  cs_Signature :: u32
  cs_Tag :: u32
  cs_DataTransferResidue :: u32
  cs_Status :: u8

record ms = usb_dev +
  CommandBlock :: command_block
  CommandStatus :: command_status
  IsMassStoreReset :: bool

definition command_block_bytes :: "command_block \<Rightarrow> u8 list" where
  "command_block_bytes b = le_bytes 4 (cb_Signature b) @ le_bytes 4 (cb_Tag b) @ le_bytes 4 (cb_DataTransferLength b) @
     [cb_Flags b, cb_LUN b, cb_SCSICommandLength b] @ cb_SCSICommandData b"

definition command_block_of_bytes :: "u8 list \<Rightarrow> command_block" where
  "command_block_of_bytes bs = \<lparr>cb_Signature = le_word (take 4 bs), cb_Tag = le_word (take 4 (drop 4 bs)),
     cb_DataTransferLength = le_word (take 4 (drop 8 bs)), cb_Flags = bs ! 12, cb_LUN = bs ! 13,
     cb_SCSICommandLength = bs ! 14, cb_SCSICommandData = drop 15 bs\<rparr>"

definition command_status_bytes :: "command_status \<Rightarrow> u8 list" where
  "command_status_bytes c = le_bytes 4 (cs_Signature c) @ le_bytes 4 (cs_Tag c) @ le_bytes 4 (cs_DataTransferResidue c) @ [cs_Status c]"

definition REQ_MassStorageReset :: u8 where "REQ_MassStorageReset = 0xFF"
definition REQ_GetMaxLUN :: u8 where "REQ_GetMaxLUN = 0xFE"
definition MS_CBW_SIGNATURE :: u32 where "MS_CBW_SIGNATURE = 0x43425355"
definition MS_CSW_SIGNATURE :: u32 where "MS_CSW_SIGNATURE = 0x53425355"
definition MS_COMMAND_DIR_DATA_IN :: u8 where "MS_COMMAND_DIR_DATA_IN = push_bit 7 1"
definition SCSI_Command_Pass :: u8 where "SCSI_Command_Pass = 0"
definition SCSI_Command_Fail :: u8 where "SCSI_Command_Fail = 1"

section \<open>Requests and configuration\<close>

definition MS_Device_ProcessControlRequest :: "ms_config \<Rightarrow> 'a ms_scheme world \<Rightarrow> 'a ms_scheme \<Rightarrow> ('a ms_scheme, unit) run" where
  "MS_Device_ProcessControlRequest c w s =
     (let r = USB_ControlRequest s
      in if \<not> Endpoint_IsSETUPReceived s then Inr ((), s, w)
         else if wIndex r \<noteq> ucast (ms_InterfaceNumber c) then Inr ((), s, w)
         else if bRequest r = REQ_MassStorageReset then
           (if bmRequestType r = REQDIR_HOSTTODEVICE OR CLASS_INTERFACE then
              Endpoint_ClearStatusStage w ((Endpoint_ClearSETUP s)\<lparr>IsMassStoreReset := True\<rparr>)
            else Inr ((), s, w))
         else if bRequest r = REQ_GetMaxLUN then
           (if bmRequestType r = REQDIR_DEVICETOHOST OR CLASS_INTERFACE then
              Endpoint_ClearStatusStage w (Endpoint_ClearIN (Endpoint_Write_Byte (TotalLUNs c - 1) (Endpoint_ClearSETUP s)))
            else Inr ((), s, w))
         else Inr ((), s, w))"

definition ms_zero_state :: "'a ms_scheme \<Rightarrow> 'a ms_scheme" where
  "ms_zero_state s = s\<lparr>CommandBlock := command_block_of_bytes (replicate 31 0),
     CommandStatus := \<lparr>cs_Signature = 0, cs_Tag = 0, cs_DataTransferResidue = 0, cs_Status = 0\<rparr>, IsMassStoreReset := False\<rparr>"

definition MS_Device_ConfigureEndpoints :: "ms_config \<Rightarrow> 'a ms_scheme \<Rightarrow> stop + bool \<times> 'a ms_scheme" where
  "MS_Device_ConfigureEndpoints c s =
     (case Endpoint_ConfigureEndpoint (ms_DataINEndpointNumber c) EP_TYPE_BULK ENDPOINT_DIR_IN (ms_DataINEndpointSize c)
             (bank_mode (ms_DataINEndpointDoubleBank c)) (ms_zero_state s) of
        Inl e \<Rightarrow> Inl e
      | Inr (ok, s) \<Rightarrow>
          if \<not> ok then Inr (False, s)
          else Endpoint_ConfigureEndpoint (ms_DataOUTEndpointNumber c) EP_TYPE_BULK ENDPOINT_DIR_OUT (ms_DataOUTEndpointSize c)
                 (bank_mode (ms_DataOUTEndpointDoubleBank c)) s)"

section \<open>The transport\<close>

definition block_valid :: "ms_config \<Rightarrow> command_block \<Rightarrow> bool" where
  "block_valid c b \<longleftrightarrow> \<not> (cb_Signature b \<noteq> MS_CBW_SIGNATURE \<or> cb_LUN b \<ge> TotalLUNs c \<or> cb_Flags b AND 0x1F \<noteq> 0 \<or>
     cb_SCSICommandLength b = 0 \<or> cb_SCSICommandLength b > 16)"

definition MS_Device_ReadInCommandBlock :: "ms_config \<Rightarrow> 'a ms_scheme world \<Rightarrow> 'a ms_scheme \<Rightarrow> ('a ms_scheme, bool) run" where
  "MS_Device_ReadInCommandBlock c w s =
     (let s = Endpoint_SelectEndpoint (ms_DataOUTEndpointNumber c) s
      in bind_run (rw_stream_cb IsMassStoreReset Endpoint_ClearOUT (xfer_read 1) (command_block_bytes (CommandBlock s)) 15 w s)
           (\<lambda>(e, buf) s w.
             let s = s\<lparr>CommandBlock := command_block_of_bytes buf\<rparr>
             in if e \<noteq> 0 then Inr (False, s, w)
                else if \<not> block_valid c (CommandBlock s) then
                  Inr (False, Endpoint_StallTransaction (Endpoint_SelectEndpoint (ms_DataINEndpointNumber c) (Endpoint_StallTransaction s)), w)
                else
                  bind_run (rw_stream_cb IsMassStoreReset Endpoint_ClearOUT (xfer_read 1) (cb_SCSICommandData (CommandBlock s))
                              (ucast (cb_SCSICommandLength (CommandBlock s))) w s)
                    (\<lambda>(e, buf) s w.
                      let s = s\<lparr>CommandBlock := (CommandBlock s)\<lparr>cb_SCSICommandData := buf\<rparr>\<rparr>
                      in if e \<noteq> 0 then Inr (False, s, w) else Inr (True, Endpoint_ClearOUT s, w))))"

text \<open>\<open>while (Endpoint_IsStalled()) { if (IsMassStoreReset) return; }\<close>: whether the reset ended it.\<close>

definition await_unstalled :: "'a ms_scheme world \<Rightarrow> 'a ms_scheme \<Rightarrow> ('a ms_scheme, bool) run" where
  "await_unstalled = poll_until (\<lambda>_ s. if \<not> Endpoint_IsStalled s then Inl (False, s)
     else if IsMassStoreReset s then Inl (True, s) else Inr ((), s)) ()"

definition MS_Device_ReturnCommandStatus :: "ms_config \<Rightarrow> 'a ms_scheme world \<Rightarrow> 'a ms_scheme \<Rightarrow> ('a ms_scheme, unit) run" where
  "MS_Device_ReturnCommandStatus c w s =
     bind_run (await_unstalled w (Endpoint_SelectEndpoint (ms_DataOUTEndpointNumber c) s)) (\<lambda>reset s w.
       if reset then Inr ((), s, w)
       else bind_run (await_unstalled w (Endpoint_SelectEndpoint (ms_DataINEndpointNumber c) s)) (\<lambda>reset s w.
         if reset then Inr ((), s, w)
         else bind_run (rw_stream_cb IsMassStoreReset Endpoint_ClearIN (xfer_write 1) (command_status_bytes (CommandStatus s)) 13 w s)
                (\<lambda>(e, _) s w. if e \<noteq> 0 then Inr ((), s, w) else Inr ((), Endpoint_ClearIN s, w))))"

text \<open>The handler of a mass storage reset in the main task.\<close>

definition ms_reset :: "ms_config \<Rightarrow> 'a ms_scheme \<Rightarrow> 'a ms_scheme" where
  "ms_reset c s =
     (if IsMassStoreReset s then
        let s = Endpoint_ResetFIFO (ms_DataINEndpointNumber c) (Endpoint_ResetFIFO (ms_DataOUTEndpointNumber c) s);
            s = Endpoint_ResetDataToggle (Endpoint_ClearStall (Endpoint_SelectEndpoint (ms_DataOUTEndpointNumber c) s));
            s = Endpoint_ResetDataToggle (Endpoint_ClearStall (Endpoint_SelectEndpoint (ms_DataINEndpointNumber c) s))
        in s\<lparr>IsMassStoreReset := False\<rparr>
      else s)"

text \<open>\<open>scsi\<close> is the program's \<open>CALLBACK_MS_Device_SCSICommandReceived\<close>.\<close>

definition ms_command ::
  "ms_config \<Rightarrow> ('a ms_scheme world \<Rightarrow> 'a ms_scheme \<Rightarrow> ('a ms_scheme, bool) run) \<Rightarrow> 'a ms_scheme world \<Rightarrow> 'a ms_scheme \<Rightarrow> ('a ms_scheme, unit) run" where
  "ms_command c scsi w s =
     (let s = (if cb_Flags (CommandBlock s) AND MS_COMMAND_DIR_DATA_IN \<noteq> 0 then Endpoint_SelectEndpoint (ms_DataINEndpointNumber c) s else s)
      in bind_run (scsi w s) (\<lambda>ok s w.
           let status = (if ok then SCSI_Command_Pass else SCSI_Command_Fail);
               s = s\<lparr>CommandStatus := \<lparr>cs_Signature = MS_CSW_SIGNATURE, cs_Tag = cb_Tag (CommandBlock s),
                       cs_DataTransferResidue = cb_DataTransferLength (CommandBlock s), cs_Status = status\<rparr>\<rparr>;
               s = (if status = SCSI_Command_Fail \<and> cs_DataTransferResidue (CommandStatus s) \<noteq> 0 then Endpoint_StallTransaction s else s)
           in MS_Device_ReturnCommandStatus c w s))"

definition MS_Device_USBTask ::
  "ms_config \<Rightarrow> ('a ms_scheme world \<Rightarrow> 'a ms_scheme \<Rightarrow> ('a ms_scheme, bool) run) \<Rightarrow> 'a ms_scheme world \<Rightarrow> 'a ms_scheme \<Rightarrow> ('a ms_scheme, unit) run" where
  "MS_Device_USBTask c scsi w s =
     (if USB_DeviceState s \<noteq> DEVICE_STATE_Configured then Inr ((), s, w)
      else
        let s = Endpoint_SelectEndpoint (ms_DataOUTEndpointNumber c) s
        in bind_run (if Endpoint_IsReadWriteAllowed s then
                       bind_run (MS_Device_ReadInCommandBlock c w s) (\<lambda>ok s w.
                         if ok then ms_command c scsi w s else Inr ((), s, w))
                     else Inr ((), s, w))
             (\<lambda>_ s w. Inr ((), ms_reset c s, w)))"

end
