(* ===== verification/MassTransport.thy ===== *)
theory MassTransport
  imports MassStorage
begin

text \<open>
  What the bulk-only transport of \<open>MassStorage\<close> does with one command: a valid command block reaches the program and
  is answered with a status block that carries its tag; an invalid one stalls both endpoints and reaches nobody;
  a reset of the host makes both endpoints usable again.
\<close>

section \<open>Streams that stay in one packet\<close>

lemma stream_cb_read:
  assumes "out_owned (cur s)" "m < 65536" "m \<le> length (r_bank (cur s))"
  shows "stream_loop_cb abort Endpoint_ClearOUT (xfer_read 1) (of_nat m) b w s = stream_loop Endpoint_ClearOUT (xfer_read 1) (of_nat m) b w s"
  using assms
proof (induction m arbitrary: s b)
  case 0
  then show ?case by (simp add: stream_loop_cb.simps stream_loop.simps)
next
  case (Suc m)
  obtain x bs where x: "r_bank (cur s) = x # bs" using Suc.prems(3) by (cases "r_bank (cur s)") auto
  have nz: "(of_nat (Suc m) :: u16) \<noteq> 0" using Suc.prems of_nat_word_eq_0 [of "Suc m"] by simp
  have rw: "Endpoint_IsReadWriteAllowed s" using Suc.prems(1) x by (simp add: Endpoint_flags ep_rwal_out)
  obtain b' where b': "xfer_read 1 b s = (b', upd_cur (\<lambda>ep. ep\<lparr>r_bank := bs\<rparr>) s)"
    using x by (cases b) (simp add: xfer_read_def Endpoint_Read_Byte_def uedatx_read_Cons)
  show ?case
    using Suc.IH [of "upd_cur (\<lambda>ep. ep\<lparr>r_bank := bs\<rparr>) s" b'] Suc.prems x nz rw b'
    by (subst stream_loop_cb.simps, subst stream_loop.simps) simp
qed

lemma stream_cb_write:
  assumes "in_owned (cur s)" "m < 65536" "length (r_bank (cur s)) + m \<le> ep_size (cur s)"
  shows "stream_loop_cb abort Endpoint_ClearIN (xfer_write 1) (of_nat m) b w s = stream_loop Endpoint_ClearIN (xfer_write 1) (of_nat m) b w s"
  using assms
proof (induction m arbitrary: s b)
  case 0
  then show ?case by (simp add: stream_loop_cb.simps stream_loop.simps)
next
  case (Suc m)
  have nz: "(of_nat (Suc m) :: u16) \<noteq> 0" using Suc.prems of_nat_word_eq_0 [of "Suc m"] by simp
  have rw: "Endpoint_IsReadWriteAllowed s" using Suc.prems by (simp add: Endpoint_flags ep_rwal_in)
  obtain b' x where b': "xfer_write 1 b s = (b', upd_cur (ep_push x) s)"
    by (cases b) (simp add: xfer_write_def Endpoint_ops_cur)
  let ?s = "upd_cur (ep_push x) s"
  have c: "cur ?s = (cur s)\<lparr>r_bank := r_bank (cur s) @ [x]\<rparr>" using Suc.prems by (simp add: ep_push_def)
  have "in_owned (cur ?s)" "length (r_bank (cur ?s)) + m \<le> ep_size (cur ?s)"
    using Suc.prems unfolding c by (simp_all add: in_owned_def ep_is_control_def ep_is_in_def)
  then show ?case
    using Suc.IH [of ?s b'] Suc.prems nz rw b' by (subst stream_loop_cb.simps, subst stream_loop.simps) simp
qed

lemma rw_cb_read:
  assumes "out_owned (cur s)" "unat L \<le> length (r_bank (cur s))" "unat L \<le> length buf"
  shows "rw_stream_cb abort Endpoint_ClearOUT (xfer_read 1) buf L w s =
    Inr ((ENDPOINT_READYWAIT_NoError, take (unat L) (r_bank (cur s)) @ drop (unat L) buf), upd_cur (\<lambda>ep. ep\<lparr>r_bank := drop (unat L) (r_bank ep)\<rparr>) s, w)"
  using stream_cb_read [OF assms(1) unat_less_u16 assms(2), of abort "(buf, 0)" w] stream_read_fits [OF assms(1) unat_less_u16 assms(2), of 0 buf w] assms
  by (simp add: rw_stream_cb_def out_owned_ready readywait_defs)

lemma rw_cb_write:
  assumes "in_owned (cur s)" "length (r_bank (cur s)) + unat L \<le> ep_size (cur s)" "unat L \<le> length buf"
  shows "rw_stream_cb abort Endpoint_ClearIN (xfer_write 1) buf L w s =
    Inr ((ENDPOINT_READYWAIT_NoError, buf), upd_cur (\<lambda>ep. ep\<lparr>r_bank := r_bank ep @ take (unat L) buf\<rparr>) s, w)"
  using stream_cb_write [OF assms(1) unat_less_u16 assms(2), of abort "(buf, 0)" w] stream_write_fits [OF assms(1) unat_less_u16 assms(2), of 0 buf w] assms
  by (simp add: rw_stream_cb_def in_owned_ready readywait_defs)

section \<open>Blocks\<close>

lemma command_block_roundtrip [simp]: "command_block_of_bytes (command_block_bytes b) = b"
  by (cases b) (simp add: command_block_of_bytes_def command_block_bytes_def nth_append)

lemma length_command_block [simp]: "length (command_block_bytes b) = 15 + length (cb_SCSICommandData b)"
  by (simp add: command_block_bytes_def)

lemma command_block_merge:
  "command_block_of_bytes (take 15 (command_block_bytes b) @ drop 15 (command_block_bytes old)) = b\<lparr>cb_SCSICommandData := cb_SCSICommandData old\<rparr>"
  using command_block_roundtrip [of "b\<lparr>cb_SCSICommandData := cb_SCSICommandData old\<rparr>"]
  by (simp add: command_block_bytes_def)

section \<open>Reading a command\<close>

definition ms_ready :: "ms_config \<Rightarrow> 'a ms_scheme \<Rightarrow> bool" where
  "ms_ready c s \<longleftrightarrow> USB_DeviceState s = DEVICE_STATE_Configured \<and> ms_DataOUTEndpointNumber c < 7 \<and> ms_DataINEndpointNumber c < 7 \<and>
     ms_DataOUTEndpointNumber c \<noteq> ms_DataINEndpointNumber c \<and> length (cb_SCSICommandData (CommandBlock s)) = 16"

text \<open>A packet of the host with the block \<open>b\<close> has arrived: its header and at least the bytes of its command.\<close>

definition block_arrived :: "ms_config \<Rightarrow> command_block \<Rightarrow> 'a ms_scheme \<Rightarrow> bool" where
  "block_arrived c b s \<longleftrightarrow> out_owned (eps s (unat (ms_DataOUTEndpointNumber c))) \<and>
     (if block_valid c b then unat (cb_SCSICommandLength b) else 0) \<le> length (cb_SCSICommandData b) \<and>
     r_bank (eps s (unat (ms_DataOUTEndpointNumber c))) = command_block_bytes b"

text \<open>The block as the driver has it: the part of the command behind its length is that of an earlier command.\<close>

definition block_taken :: "command_block \<Rightarrow> command_block \<Rightarrow> command_block" where
  "block_taken b old = b\<lparr>cb_SCSICommandData := take (unat (cb_SCSICommandLength b)) (cb_SCSICommandData b) @
     drop (unat (cb_SCSICommandLength b)) (cb_SCSICommandData old)\<rparr>"

definition ms_received :: "ms_config \<Rightarrow> command_block \<Rightarrow> 'a ms_scheme \<Rightarrow> 'a ms_scheme" where
  "ms_received c b s = (upd_cur ep_clear_out (Endpoint_SelectEndpoint (ms_DataOUTEndpointNumber c) s))
     \<lparr>CommandBlock := block_taken b (CommandBlock s)\<rparr>"

definition ms_refused :: "ms_config \<Rightarrow> command_block \<Rightarrow> 'a ms_scheme \<Rightarrow> 'a ms_scheme" where
  "ms_refused c b s = Endpoint_StallTransaction (Endpoint_SelectEndpoint (ms_DataINEndpointNumber c) (Endpoint_StallTransaction
     ((upd_cur (\<lambda>ep. ep\<lparr>r_bank := cb_SCSICommandData b\<rparr>) (Endpoint_SelectEndpoint (ms_DataOUTEndpointNumber c) s))
      \<lparr>CommandBlock := b\<lparr>cb_SCSICommandData := cb_SCSICommandData (CommandBlock s)\<rparr>\<rparr>)))"

lemma cur_CommandBlock [simp]: "cur (s\<lparr>CommandBlock := b\<rparr>) = cur s" "cur (s\<lparr>CommandStatus := x\<rparr>) = cur s" "cur (s\<lparr>IsMassStoreReset := y\<rparr>) = cur s"
  by (simp_all add: cur_def)

lemma ms_frame [simp]:
  "CommandBlock (upd_cur f s) = CommandBlock s" "CommandStatus (upd_cur f s) = CommandStatus s" "IsMassStoreReset (upd_cur f s) = IsMassStoreReset s"
  "CommandBlock (Endpoint_SelectEndpoint n s) = CommandBlock s" "CommandStatus (Endpoint_SelectEndpoint n s) = CommandStatus s"
  "IsMassStoreReset (Endpoint_SelectEndpoint n s) = IsMassStoreReset s"
  "USB_DeviceState (Endpoint_SelectEndpoint n t) = USB_DeviceState t"
  by (simp_all add: upd_cur_def upd_ep_def Endpoint_SelectEndpoint_def uenum_write_def)

lemma read_block:
  assumes "ms_ready c s" "block_arrived c b s"
  shows "MS_Device_ReadInCommandBlock c w s =
    Inr (block_valid c b, if block_valid c b then ms_received c b s else ms_refused c b s, w)"
proof -
  let ?o = "ms_DataOUTEndpointNumber c" and ?old = "CommandBlock s"
  let ?s = "Endpoint_SelectEndpoint ?o s" and ?d = "cb_SCSICommandData b"
  let ?b = "b\<lparr>cb_SCSICommandData := cb_SCSICommandData ?old\<rparr>"
  have o: "?o AND 7 = ?o" using assms(1) by (intro ep_number) (simp add: ms_ready_def word_less_nat_alt)
  have cur: "cur ?s = eps s (unat ?o)" by (simp add: o)
  have cb: "CommandBlock ?s = ?old" by (simp add: Endpoint_SelectEndpoint_def uenum_write_def)
  have own: "out_owned (cur ?s)" "r_bank (cur ?s) = command_block_bytes b" "length (cb_SCSICommandData ?old) = 16"
    using assms unfolding cur by (simp_all add: block_arrived_def ms_ready_def)
  let ?t = "upd_cur (\<lambda>ep. ep\<lparr>r_bank := drop 15 (r_bank ep)\<rparr>) ?s"
  have t: "?t = upd_cur (\<lambda>ep. ep\<lparr>r_bank := ?d\<rparr>) ?s" using own(2) by (intro upd_cur_cong) (simp add: command_block_bytes_def)
  have "rw_stream_cb IsMassStoreReset Endpoint_ClearOUT (xfer_read 1) (command_block_bytes ?old) 15 w ?s =
      Inr ((ENDPOINT_READYWAIT_NoError, take 15 (command_block_bytes b) @ drop 15 (command_block_bytes ?old)), ?t, w)"
    using rw_cb_read [OF own(1), of 15 "command_block_bytes ?old" IsMassStoreReset w] own by simp
  note first = this [unfolded t]
  have valid: "block_valid c ?b = block_valid c b" by (simp add: block_valid_def)
  let ?u = "(upd_cur (\<lambda>ep. ep\<lparr>r_bank := ?d\<rparr>) ?s)\<lparr>CommandBlock := ?b\<rparr>"
  show ?thesis
  proof (cases "block_valid c b")
    case False
    then show ?thesis
      using first valid by (simp add: MS_Device_ReadInCommandBlock_def Let_def cb command_block_merge readywait_defs ms_refused_def)
  next
    case True
    let ?L = "ucast (cb_SCSICommandLength b) :: u16"
    have "cb_SCSICommandLength b \<le> 16" using True by (simp add: block_valid_def linorder_not_less)
    then have "unat (cb_SCSICommandLength b) \<le> 16" by (simp add: word_le_nat_alt)
    then have l: "unat ?L = unat (cb_SCSICommandLength b)" "unat (cb_SCSICommandLength b) \<le> 16"
      by (simp_all add: unsigned_ucast_eq take_bit_nat_eq_self)
    have u: "cur ?u = (cur ?s)\<lparr>r_bank := ?d\<rparr>" by simp
    have "out_owned (cur ?u)" "unat ?L \<le> length (r_bank (cur ?u))" "unat ?L \<le> length (cb_SCSICommandData ?old)"
      unfolding u using own l True assms(2) by (simp_all add: block_arrived_def)
    from rw_cb_read [OF this, of IsMassStoreReset w]
    have second: "rw_stream_cb IsMassStoreReset Endpoint_ClearOUT (xfer_read 1) (cb_SCSICommandData ?old) ?L w ?u =
        Inr ((ENDPOINT_READYWAIT_NoError, cb_SCSICommandData (block_taken b ?old)),
             upd_cur (\<lambda>ep. ep\<lparr>r_bank := drop (unat ?L) (r_bank ep)\<rparr>) ?u, w)"
      by (simp add: l block_taken_def)
    have "Endpoint_ClearOUT ((upd_cur (\<lambda>ep. ep\<lparr>r_bank := drop (unat ?L) (r_bank ep)\<rparr>) ?u)\<lparr>CommandBlock := block_taken b ?old\<rparr>) = ms_received c b s"
    proof -
      have e: "ep_clear_out (ep\<lparr>r_bank := x\<rparr>) = ep_clear_out ep" if "out_owned ep" for ep x
        using that by (cases ep) (simp add: ep_clear_out_bulk out_owned_def ep_is_control_def ep_is_in_def)
      show ?thesis
        using e [OF own(1)] own(1) by (simp add: Endpoint_ops_cur ms_received_def upd_cur_def upd_ep_def cur_def)
    qed
    then show ?thesis
      using True first valid second
      by (simp add: MS_Device_ReadInCommandBlock_def Let_def cb command_block_merge readywait_defs block_taken_def)
  qed
qed

section \<open>Answering it\<close>

lemma numbers_masked:
  assumes "ms_ready c s"
  shows "ms_DataOUTEndpointNumber c AND 7 = ms_DataOUTEndpointNumber c" "ms_DataINEndpointNumber c AND 7 = ms_DataINEndpointNumber c"
    "unat (ms_DataINEndpointNumber c) \<noteq> unat (ms_DataOUTEndpointNumber c)"
proof -
  have "n < 7 \<Longrightarrow> n < 8" for n :: u8 by (simp add: word_less_nat_alt)
  then show "ms_DataOUTEndpointNumber c AND 7 = ms_DataOUTEndpointNumber c" "ms_DataINEndpointNumber c AND 7 = ms_DataINEndpointNumber c"
    using assms by (auto intro!: ep_number simp: ms_ready_def)
  show "unat (ms_DataINEndpointNumber c) \<noteq> unat (ms_DataOUTEndpointNumber c)"
    using assms by (auto simp: ms_ready_def word_unat_eq_iff)
qed

lemma unstalled_at_once: "\<not> bit (r_ueconx (cur s)) STALLRQ \<Longrightarrow> await_unstalled w s = Inr (False, s, w)"
  by (simp add: await_unstalled_def poll_until_exit Endpoint_flags)

text \<open>
  What the program's handler leaves: neither endpoint halted, and the one to the host either free or with the last packet
  of the command's data (\<open>r_tx\<close>), which the host has not collected yet.
\<close>

definition answer_place :: "ep_regs \<Rightarrow> bool" where
  "answer_place ep \<longleftrightarrow> \<not> bit (r_ueconx ep) STALLRQ \<and> \<not> ep_is_control ep \<and> ep_is_in ep \<and> r_bank ep = [] \<and> 13 \<le> ep_size ep \<and>
     (if r_tx ep = None then in_owned ep else \<not> bit (r_ueintx ep) TXINI)"

definition answerable :: "ms_config \<Rightarrow> 'a ms_scheme \<Rightarrow> bool" where
  "answerable c s \<longleftrightarrow> (let out = eps s (unat (ms_DataOUTEndpointNumber c)); inn = eps s (unat (ms_DataINEndpointNumber c))
     in \<not> bit (r_ueconx out) STALLRQ \<and> \<not> bit (r_ueconx out) STALLRQC \<and> \<not> bit (r_ueconx inn) STALLRQC \<and> answer_place inn) \<and>
     USB_DeviceState s = DEVICE_STATE_Configured \<and> \<not> IsMassStoreReset s"

text \<open>
  The host's request that clears the halt of an endpoint, as the interrupt of \<open>Chapter9\<close> serves it between two polls: the
  state of the endpoint is that after \<open>USB_Device_ClearSetFeature\<close>, and the selection that of before.
\<close>

definition clear_halt :: "u8 \<Rightarrow> 'a usb_hw_scheme \<Rightarrow> 'a usb_hw_scheme" where
  "clear_halt n s = Endpoint_SelectEndpoint (Endpoint_GetCurrentEndpoint s)
     (Endpoint_ResetDataToggle (Endpoint_ResetFIFO n (Endpoint_ClearStall (Endpoint_SelectEndpoint n s))))"

lemma ep_halt_cleared:
  fixes ep :: ep_regs
  defines "f \<equiv> ep_reset_fifo (ueconx_write (set_bit STALLRQC (r_ueconx ep)) ep)"
  defines "g \<equiv> ueconx_write (set_bit RSTDT (r_ueconx f)) f"
  shows "g = (ep_reset_fifo ep)\<lparr>r_ueconx := r_ueconx g, r_dtog := r_dtog g\<rparr>" "\<not> bit (r_ueconx g) STALLRQ"
  by (simp_all add: f_def g_def ueconx_write_def ep_reset_fifo_def ep_is_control_def ep_is_in_def)

lemma eps_clear_halt:
  fixes s :: "'a usb_hw_scheme"
  assumes "n < 7"
  shows "k \<noteq> unat n \<Longrightarrow> eps (clear_halt n s) k = eps s k"
    "\<exists>x d. eps (clear_halt n s) (unat n) = (ep_reset_fifo (eps s (unat n)))\<lparr>r_ueconx := x, r_dtog := d\<rparr> \<and> \<not> bit x STALLRQ"
proof -
  have "n < 8" and u: "unat n < 7" using assms by (simp_all add: word_less_nat_alt)
  then have n: "n AND 7 = n" by (intro ep_number)
  let ?s = "Endpoint_SelectEndpoint n s"
  have c: "UENUM ?s = n" "eps ?s = eps s" by (simp_all add: Endpoint_SelectEndpoint_def uenum_write_def n)
  have e: "eps (clear_halt n s) = eps (Endpoint_ResetDataToggle (Endpoint_ResetFIFO n (Endpoint_ClearStall ?s)))"
    by (simp add: clear_halt_def Endpoint_SelectEndpoint_def uenum_write_def)
  show "k \<noteq> unat n \<Longrightarrow> eps (clear_halt n s) k = eps s k"
    by (simp add: e Endpoint_con_cur upd_cur_def Endpoint_ResetFIFO_upd [OF u] n)
  show "\<exists>x d. eps (clear_halt n s) (unat n) = (ep_reset_fifo (eps s (unat n)))\<lparr>r_ueconx := x, r_dtog := d\<rparr> \<and> \<not> bit x STALLRQ"
    using ep_halt_cleared [of "eps s (unat n)"] by (simp add: e Endpoint_con_cur upd_cur_def Endpoint_ResetFIFO_upd [OF u] n) blast
qed

lemma clear_halt_frame [simp]:
  "CommandBlock (clear_halt n s) = CommandBlock s" "CommandStatus (clear_halt n s) = CommandStatus s" "IsMassStoreReset (clear_halt n s) = IsMassStoreReset s"
  "USB_DeviceState (clear_halt n t) = USB_DeviceState t"
  by (simp_all add: clear_halt_def Endpoint_con_cur Endpoint_ResetFIFO_def uerst_write_def upd_cur_def upd_ep_def Endpoint_SelectEndpoint_def uenum_write_def)

lemma clear_halt_select:
  "Endpoint_SelectEndpoint m (clear_halt n s) = clear_halt n (Endpoint_SelectEndpoint m s)"
  by (simp add: clear_halt_def Endpoint_con_cur Endpoint_ResetFIFO_def uerst_write_def upd_cur_def upd_ep_def Endpoint_SelectEndpoint_def uenum_write_def
      Endpoint_GetCurrentEndpoint_def ENDPOINT_EPNUM_MASK_def)

lemma unstalled_after_clear:
  assumes "bit (r_ueconx (cur s)) STALLRQ" "\<not> IsMassStoreReset s" "\<not> bit (r_ueconx (cur (e s))) STALLRQ"
  shows "await_unstalled (e # w) s = Inr (False, e s, w)"
  using assms by (simp add: await_unstalled_def poll_until_round Endpoint_flags) (simp add: poll_until_exit Endpoint_flags)

lemma collect_frame [simp]:
  "CommandBlock (collect n s) = CommandBlock s" "CommandStatus (collect n s) = CommandStatus s" "IsMassStoreReset (collect n s) = IsMassStoreReset s"
  "UENUM (collect n t) = UENUM t"
  by (simp_all add: collect_def host_in_def upd_ep_def split: option.splits)

text \<open>The wait for the endpoint to the host, when the host collects the packet in it at the first poll.\<close>

lemma wait_collected:
  assumes "\<not> ep_is_control (cur s)" "ep_is_in (cur s)" "r_tx (cur s) = Some p" "\<not> bit (r_ueintx (cur s)) TXINI" "\<not> bit (r_ueconx (cur s)) STALLRQ"
    "USB_DeviceState s = DEVICE_STATE_Configured"
  shows "\<exists>s'. Endpoint_WaitUntilReady (collect (unat (UENUM s)) # w) s = Inr (ENDPOINT_READYWAIT_NoError, s', w) \<and>
    (s' = collect (unat (UENUM s)) s \<or> s' = collect (unat (UENUM s)) (USB_INT_Clear INT_SOFI s))"
proof -
  let ?n = "unat (UENUM s)"
  have own: "in_owned (cur (collect ?n t))" if "cur t = cur s" "UENUM t = UENUM s" for t :: "'a usb_dev_scheme"
    using assms(1-4) that
    by (auto simp: collect_def host_in_def cur_def in_owned_def ep_is_control_def ep_is_in_def upd_ep_def reg_bits bit_simps)
  have dir: "Endpoint_GetEndpointDirection s = ENDPOINT_DIR_IN" using assms(2) by (simp add: Endpoint_direction_IN)
  have st: "USB_DeviceState s \<noteq> DEVICE_STATE_Unattached" using assms(6) by (simp add: device_state_defs)
  have step: "wait_ready_step USB_STREAM_TIMEOUT_MS s =
      (if USB_INT_HasOccurred INT_SOFI s then Inr (USB_STREAM_TIMEOUT_MS - 1, USB_INT_Clear INT_SOFI s) else Inr (USB_STREAM_TIMEOUT_MS, s))"
    using assms(4,5) dir st by (simp add: wait_ready_step_def Endpoint_flags USB_STREAM_TIMEOUT_MS_def Let_def)
  have poll: "poll_until wait_ready_step l w (collect ?n t) = Inr (ENDPOINT_READYWAIT_NoError, collect ?n t, w)" if "cur t = cur s" "UENUM t = UENUM s" for l t
    using own [OF that] by (simp add: poll_until_exit wait_ready_step_def Endpoint_direction_IN Endpoint_flags in_owned_def)
  have c: "cur (USB_INT_Clear INT_SOFI s) = cur s" "UENUM (USB_INT_Clear INT_SOFI s) = UENUM s" by (simp_all add: cur_def)
  show ?thesis
    using step poll [OF refl refl] poll [OF c]
    by (cases "USB_INT_HasOccurred INT_SOFI s") (simp_all add: Endpoint_WaitUntilReady_def poll_until_round del: USB_INT_Clear.simps)
qed

lemma rw_cb_write_wait:
  assumes "Endpoint_WaitUntilReady w s = Inr (ENDPOINT_READYWAIT_NoError, z, w')" "in_owned (cur z)" "length (r_bank (cur z)) + unat L \<le> ep_size (cur z)"
    "unat L \<le> length buf"
  shows "rw_stream_cb abort Endpoint_ClearIN (xfer_write 1) buf L w s =
    Inr ((ENDPOINT_READYWAIT_NoError, buf), upd_cur (\<lambda>ep. ep\<lparr>r_bank := r_bank ep @ take (unat L) buf\<rparr>) z, w')"
  using rw_cb_write [OF assms(2-4), of abort w'] assms(1,2,4)
  by (simp add: rw_stream_cb_def in_owned_ready readywait_defs)

lemma answer_written:
  fixes x :: "'a ms_scheme"
  assumes a: "answer_place (cur x)" "USB_DeviceState x = DEVICE_STATE_Configured" "\<not> IsMassStoreReset x" and n: "n = unat (UENUM x)" and b: "length b = 13"
  shows "\<exists>y. bind_run (rw_stream_cb IsMassStoreReset Endpoint_ClearIN (xfer_write 1) b 13 ((if r_tx (cur x) = None then [] else [collect n]) @ w) x)
      (\<lambda>(e, _) s w. if e \<noteq> 0 then Inr ((), s, w) else Inr ((), Endpoint_ClearIN s, w)) = Inr ((), y, w) \<and>
    \<not> IsMassStoreReset y \<and> r_tx (eps y n) = Some b \<and> r_sent (eps y n) = r_sent (eps x n) @ (case r_tx (eps x n) of None \<Rightarrow> [] | Some p \<Rightarrow> [p]) \<and>
    r_ueconx (eps y n) = r_ueconx (eps x n) \<and> (\<forall>k. k \<noteq> n \<longrightarrow> eps y k = eps x k)"
proof -
  obtain z where z: "Endpoint_WaitUntilReady ((if r_tx (cur x) = None then [] else [collect n]) @ w) x = Inr (ENDPOINT_READYWAIT_NoError, z, w)"
    "in_owned (cur z)" "r_bank (cur z) = []" "ep_size (cur z) = ep_size (cur x)" "UENUM z = UENUM x" "IsMassStoreReset z = IsMassStoreReset x"
    "r_ueconx (cur z) = r_ueconx (cur x)" "r_sent (cur z) = r_sent (cur x) @ (case r_tx (cur x) of None \<Rightarrow> [] | Some p \<Rightarrow> [p])"
    "\<And>k. k \<noteq> n \<Longrightarrow> eps z k = eps x k"
  proof (cases "r_tx (cur x)")
    case None
    then show ?thesis using a(1) that [of x] in_owned_ready [of x w] by (simp add: answer_place_def)
  next
    case (Some p)
    then obtain z where z: "Endpoint_WaitUntilReady (collect n # w) x = Inr (ENDPOINT_READYWAIT_NoError, z, w)"
      "z = collect n x \<or> z = collect n (USB_INT_Clear INT_SOFI x)"
      using wait_collected [of x p w] a(1,2) by (auto simp: answer_place_def n)
    have e: "eps z = (eps x)(n := eps z n)" "eps z n = (cur x)\<lparr>r_tx := None, r_sent := r_sent (cur x) @ [p], r_ueintx := set_bit FIFOCON (set_bit TXINI (r_ueintx (cur x)))\<rparr>"
      "UENUM z = UENUM x" "IsMassStoreReset z = IsMassStoreReset x"
      using z(2) Some a(1) by (auto simp: collect_def host_in_def upd_ep_def cur_def n answer_place_def)
    then show ?thesis
      using z(1) Some a(1) that [of z] by (simp add: cur_def n [symmetric] answer_place_def in_owned_def ep_is_control_def ep_is_in_def ep_size_def reg_bits bit_simps fun_upd_def)
  qed
  have "rw_stream_cb IsMassStoreReset Endpoint_ClearIN (xfer_write 1) b 13 ((if r_tx (cur x) = None then [] else [collect n]) @ w) x =
      Inr ((ENDPOINT_READYWAIT_NoError, b), upd_cur (\<lambda>ep. ep\<lparr>r_bank := r_bank ep @ b\<rparr>) z, w)"
    using rw_cb_write_wait [OF z(1,2), of 13 b IsMassStoreReset] z(3,4) a(1) b by (simp add: answer_place_def)
  then show ?thesis
    using z a(3) by (intro exI [of _ "Endpoint_ClearIN (upd_cur (\<lambda>ep. ep\<lparr>r_bank := r_bank ep @ b\<rparr>) z)"])
      (simp add: readywait_defs Endpoint_ops_cur upd_cur_def upd_ep_def n [symmetric] cur_def ep_clear_in_bulk in_owned_def ep_is_control_def ep_is_in_def)
qed

text \<open>
  What the host does while the answer is being sent: it clears the halt of a failed command, and collects the last packet
  of the data unless the halt has discarded it.
\<close>

definition halts :: "bool \<Rightarrow> 'a ms_scheme \<Rightarrow> bool" where
  "halts ok u \<longleftrightarrow> \<not> ok \<and> cb_DataTransferLength (CommandBlock u) \<noteq> 0"

definition data_kept :: "ms_config \<Rightarrow> bool \<Rightarrow> 'a ms_scheme \<Rightarrow> u8 list list" where
  "data_kept c ok u =
     (if halts ok u \<and> UENUM u = ms_DataINEndpointNumber c then []
      else case r_tx (eps u (unat (ms_DataINEndpointNumber c))) of None \<Rightarrow> [] | Some p \<Rightarrow> [p])"

definition host_serves :: "ms_config \<Rightarrow> bool \<Rightarrow> 'a ms_scheme \<Rightarrow> 'a ms_scheme world" where
  "host_serves c ok u = (if halts ok u then [clear_halt (UENUM u)] else []) @
     (if data_kept c ok u = [] then [] else [collect (unat (ms_DataINEndpointNumber c))])"

lemma UENUM_clear_halt: "UENUM (clear_halt n (Endpoint_SelectEndpoint m s)) = m AND 7"
  by (simp add: clear_halt_def Endpoint_GetCurrentEndpoint_def ENDPOINT_EPNUM_MASK_def and.assoc)

lemma place_cleared:
  assumes "answer_place ep" "ep' = (ep_reset_fifo (ueconx_write v ep))\<lparr>r_ueconx := f, r_dtog := d\<rparr>" "\<not> bit f STALLRQ"
  shows "answer_place ep'" "r_tx ep' = None" "r_sent ep' = r_sent ep"
proof -
  have "\<not> ep_is_control ep" "ep_is_in ep" using assms(1) by (simp_all add: answer_place_def)
  then show "answer_place ep'" "r_tx ep' = None" "r_sent ep' = r_sent ep"
    using assms
    by (simp_all add: answer_place_def ep_reset_fifo_def ueconx_write_def in_owned_def ep_is_control_def ep_is_in_def ep_size_def bit_simps)
qed

text \<open>The two waits for the end of a halt.\<close>

lemma halt_served:
  fixes u :: "'a ms_scheme"
  assumes r: "ms_ready c t" and u: "answerable c u" and h: "halts ok u \<Longrightarrow> UENUM u \<in> {ms_DataOUTEndpointNumber c, ms_DataINEndpointNumber c}"
    and v: "eps v = (if halts ok u then (eps u)(unat (UENUM u) := ueconx_write (set_bit STALLRQ (r_ueconx (cur u))) (cur u)) else eps u)" "UENUM v = UENUM u"
      "USB_DeviceState v = USB_DeviceState u" "IsMassStoreReset v = IsMassStoreReset u"
    and ou: "ou = ms_DataOUTEndpointNumber c" and i: "i = ms_DataINEndpointNumber c"
  shows "\<exists>y x w1. await_unstalled ((if halts ok u then [clear_halt (UENUM u)] else []) @ w) (Endpoint_SelectEndpoint ou v) = Inr (False, y, w1) \<and>
    await_unstalled w1 (Endpoint_SelectEndpoint i y) = Inr (False, x, w) \<and> UENUM x = i \<and> CommandStatus x = CommandStatus v \<and>
    USB_DeviceState x = USB_DeviceState u \<and> \<not> IsMassStoreReset x \<and> answer_place (eps x (unat i)) \<and> \<not> bit (r_ueconx (eps x (unat ou))) STALLRQ \<and>
    r_sent (eps x (unat i)) = r_sent (eps u (unat i)) \<and> (case r_tx (eps x (unat i)) of None \<Rightarrow> [] | Some p \<Rightarrow> [p]) = data_kept c ok u \<and>
    (halts ok u \<and> UENUM u = ou \<or> eps x (unat ou) = eps u (unat ou))"
proof -
  have n: "ou AND 7 = ou" "i AND 7 = i" "unat i \<noteq> unat ou" "ou \<noteq> i" and lt: "ou < 7" "i < 7" "i < 8"
    using numbers_masked [OF r] r by (auto simp: ou i ms_ready_def word_less_nat_alt)
  have q: "\<not> bit (r_ueconx (eps u (unat ou))) STALLRQ" "\<not> bit (r_ueconx (eps u (unat ou))) STALLRQC" "\<not> bit (r_ueconx (eps u (unat i))) STALLRQC"
    "answer_place (eps u (unat i))" "USB_DeviceState u = DEVICE_STATE_Configured" "\<not> IsMassStoreReset u"
    using u by (simp_all add: answerable_def ou i Let_def)
  let ?so = "Endpoint_SelectEndpoint ou v"
  consider (no) "\<not> halts ok u" | (out) "halts ok u" "UENUM u = ou" | (inn) "halts ok u" "UENUM u = i" using h by (auto simp: ou i)
  then show ?thesis
  proof cases
    case no
    have "await_unstalled w ?so = Inr (False, ?so, w)" "await_unstalled w (Endpoint_SelectEndpoint i ?so) = Inr (False, Endpoint_SelectEndpoint i ?so, w)"
      using no q v n by (intro unstalled_at_once, simp add: answer_place_def)+
    then show ?thesis
      using no q v n by (intro exI [of _ ?so] exI [of _ "Endpoint_SelectEndpoint i ?so"] exI [of _ w] conjI) (simp_all add: data_kept_def i [symmetric])
  next
    case out
    let ?y = "clear_halt ou ?so"
    obtain f d where y: "eps ?y (unat ou) = (ep_reset_fifo (eps ?so (unat ou)))\<lparr>r_ueconx := f, r_dtog := d\<rparr>" "\<not> bit f STALLRQ"
      using eps_clear_halt(2) [OF lt(1), of ?so] by blast
    have y': "eps ?y (unat i) = eps u (unat i)" using eps_clear_halt(1) [OF lt(1) n(3), of ?so] out v n by simp
    have "await_unstalled (clear_halt ou # w) ?so = Inr (False, ?y, w)"
      using out v q n y by (intro unstalled_after_clear) (simp_all add: cur_def UENUM_clear_halt ueconx_write_def)
    moreover have "await_unstalled w (Endpoint_SelectEndpoint i ?y) = Inr (False, Endpoint_SelectEndpoint i ?y, w)"
      using q n y' by (intro unstalled_at_once) (simp add: answer_place_def)
    ultimately show ?thesis
      using out q v n y y' by (intro exI [of _ ?y] exI [of _ "Endpoint_SelectEndpoint i ?y"] exI [of _ w] conjI) (simp_all add: data_kept_def i [symmetric])
  next
    case inn
    let ?si = "Endpoint_SelectEndpoint i ?so"
    let ?x = "clear_halt i ?si"
    obtain f d where x: "eps ?x (unat i) = (ep_reset_fifo (eps ?si (unat i)))\<lparr>r_ueconx := f, r_dtog := d\<rparr>" "\<not> bit f STALLRQ"
      using eps_clear_halt(2) [OF lt(2), of ?si] by blast
    have x': "eps ?x (unat ou) = eps u (unat ou)" using eps_clear_halt(1) [OF lt(2) n(3) [symmetric], of ?si] inn v n by simp
    have "await_unstalled (clear_halt i # w) ?so = Inr (False, ?so, clear_halt i # w)"
      using inn q v n by (intro unstalled_at_once) simp
    moreover have "await_unstalled (clear_halt i # w) ?si = Inr (False, ?x, w)"
      using inn v q n x by (intro unstalled_after_clear) (simp_all add: cur_def UENUM_clear_halt ueconx_write_def)
    moreover have "eps ?si (unat i) = ueconx_write (set_bit STALLRQ (r_ueconx (cur u))) (eps u (unat i))" using inn v n by (simp add: cur_def)
    note place_cleared [OF q(4) x(1) [unfolded this] x(2)]
    ultimately show ?thesis
      using inn q v n x x' lt by (intro exI [of _ ?so] exI [of _ ?x] exI [of _ "clear_halt i # w"]) (simp add: data_kept_def UENUM_clear_halt i [symmetric])
  qed
qed

text \<open>C31: A valid command block, whatever its command, is carried out once, by the program's handler, on the state in
  which the block has been taken and its bank released. The host then gets the command's data to the last packet, and one
  status block with the command's tag, whether it succeeded, and what is left of its data length; no endpoint stays
  halted. This covers commands with data to the host, whose last packet may still be waiting when the handler returns, and
  commands that fail with data left: for these the endpoint that the handler has selected is halted, the task waits until
  the host clears that halt, and a packet that still waited there is lost with it. Assumed: the device stays configured and
  no reset comes from the host meanwhile; the handler keeps the command's tag, and leaves the endpoints not halted and one of the two selected where it fails with data left, and in the endpoint to the host no
  packet that is only half written, with room for the 13 bytes; the host clears the halt and collects the packet at
  the first poll.\<close>

theorem ms_command_answered:
  fixes s :: "'a ms_scheme"
  assumes "ms_ready c s" "block_arrived c b s" "block_valid c b" "i = unat (ms_DataINEndpointNumber c)" "out = unat (ms_DataOUTEndpointNumber c)"
    and h: "scsi w (if cb_Flags b AND MS_COMMAND_DIR_DATA_IN \<noteq> 0 then Endpoint_SelectEndpoint (ms_DataINEndpointNumber c) (ms_received c b s)
                    else ms_received c b s) = Inr (ok, u, host_serves c ok u @ w')"
    and u: "answerable c u" "cb_Tag (CommandBlock u) = cb_Tag b"
      "halts ok u \<longrightarrow> UENUM u \<in> {ms_DataOUTEndpointNumber c, ms_DataINEndpointNumber c}"
  shows "\<exists>s'. MS_Device_USBTask c scsi w s = Inr ((), s', w') \<and>
    r_sent (eps s' i) = r_sent (eps u i) @ data_kept c ok u \<and>
    r_tx (eps s' i) = Some (command_status_bytes
      \<lparr>cs_Signature = MS_CSW_SIGNATURE, cs_Tag = cb_Tag b, cs_DataTransferResidue = cb_DataTransferLength (CommandBlock u),
       cs_Status = (if ok then SCSI_Command_Pass else SCSI_Command_Fail)\<rparr>) \<and>
    \<not> bit (r_ueconx (eps s' i)) STALLRQ \<and> \<not> bit (r_ueconx (eps s' out)) STALLRQ \<and>
    (halts ok u \<and> UENUM u = ms_DataOUTEndpointNumber c \<or> eps s' out = eps u out)"
proof -
  note n = numbers_masked [OF assms(1)]
  let ?S = "Endpoint_SelectEndpoint (ms_DataOUTEndpointNumber c) s" and ?i = "ms_DataINEndpointNumber c"
  have rw: "Endpoint_IsReadWriteAllowed ?S"
    using assms(2) ep_rwal_out [of "eps s out"] by (auto simp: Endpoint_flags n assms(5) block_arrived_def command_block_bytes_def)
  have S: "ms_ready c ?S" "block_arrived c b ?S" "ms_received c b ?S = ms_received c b s"
    using assms(1,2) by (simp_all add: ms_ready_def block_arrived_def ms_received_def n)
  have f: "cb_Flags (CommandBlock (ms_received c b s)) = cb_Flags b" by (simp add: ms_received_def block_taken_def)
  let ?st = "\<lparr>cs_Signature = MS_CSW_SIGNATURE, cs_Tag = cb_Tag b, cs_DataTransferResidue = cb_DataTransferLength (CommandBlock u),
       cs_Status = (if ok then SCSI_Command_Pass else SCSI_Command_Fail)\<rparr>"
  define v where "v = (if halts ok u then Endpoint_StallTransaction (u\<lparr>CommandStatus := ?st\<rparr>) else u\<lparr>CommandStatus := ?st\<rparr>)"
  have v: "eps v = (if halts ok u then (eps u)(unat (UENUM u) := ueconx_write (set_bit STALLRQ (r_ueconx (cur u))) (cur u)) else eps u)"
    "UENUM v = UENUM u" "USB_DeviceState v = USB_DeviceState u" "IsMassStoreReset v = IsMassStoreReset u" "CommandStatus v = ?st"
    by (simp_all add: v_def Endpoint_con_cur upd_cur_def upd_ep_def cur_def)
  let ?w = "(if data_kept c ok u = [] then [] else [collect i]) @ w'"
  obtain y x w1 where a: "await_unstalled ((if halts ok u then [clear_halt (UENUM u)] else []) @ ?w) (Endpoint_SelectEndpoint (ms_DataOUTEndpointNumber c) v) = Inr (False, y, w1)"
      "await_unstalled w1 (Endpoint_SelectEndpoint ?i y) = Inr (False, x, ?w)"
    and x: "UENUM x = ?i" "CommandStatus x = CommandStatus v" "USB_DeviceState x = USB_DeviceState u" "\<not> IsMassStoreReset x" "answer_place (eps x i)"
      "\<not> bit (r_ueconx (eps x out)) STALLRQ" "r_sent (eps x i) = r_sent (eps u i)"
      "(case r_tx (eps x i) of None \<Rightarrow> [] | Some p \<Rightarrow> [p]) = data_kept c ok u"
      "halts ok u \<and> UENUM u = ms_DataOUTEndpointNumber c \<or> eps x out = eps u out"
    using halt_served [OF assms(1) u(1) u(3) [rule_format] v(1-4) refl refl, of ?w] unfolding assms(4,5) by blast
  have e: "r_tx (cur x) = None \<longleftrightarrow> data_kept c ok u = []" using x(8) by (auto simp: cur_def x(1) assms(4) split: option.splits)
  have p: "answer_place (cur x)" "USB_DeviceState x = DEVICE_STATE_Configured" "i = unat (UENUM x)" "length (command_status_bytes ?st) = 13"
    using x(1,3,5) u(1) by (simp_all add: cur_def assms(4) answerable_def command_status_bytes_def)
  from answer_written [OF p(1,2) x(4) p(3,4), of w'] obtain z where
    z: "bind_run (rw_stream_cb IsMassStoreReset Endpoint_ClearIN (xfer_write 1) (command_status_bytes ?st) 13 ?w x)
      (\<lambda>(e, _) s w. if e \<noteq> 0 then Inr ((), s, w) else Inr ((), Endpoint_ClearIN s, w)) = Inr ((), z, w')"
    "\<not> IsMassStoreReset z" "r_tx (eps z i) = Some (command_status_bytes ?st)" "r_sent (eps z i) = r_sent (eps x i) @ data_kept c ok u"
    "r_ueconx (eps z i) = r_ueconx (eps x i)" "\<And>k. k \<noteq> i \<Longrightarrow> eps z k = eps x k"
    unfolding e x(8) by blast
  have "MS_Device_ReturnCommandStatus c (host_serves c ok u @ w') v = Inr ((), z, w')"
  proof -
    have "host_serves c ok u @ w' = (if halts ok u then [clear_halt (UENUM u)] else []) @ ?w" by (simp add: host_serves_def assms(4))
    then show ?thesis
      unfolding MS_Device_ReturnCommandStatus_def by (simp only: a bind_run_simps if_False z(1) x(2) v(5))
  qed
  moreover have "ms_command c scsi w (ms_received c b s) = MS_Device_ReturnCommandStatus c (host_serves c ok u @ w') v"
    using h u(2) by (simp add: ms_command_def Let_def f v_def halts_def SCSI_Command_Pass_def SCSI_Command_Fail_def)
  ultimately have "MS_Device_USBTask c scsi w s = Inr ((), z, w')"
    using assms(1,3) rw read_block [OF S(1,2), of w] S(3) z(2)
    by (simp add: MS_Device_USBTask_def Let_def ms_reset_def) (simp add: ms_ready_def)
  moreover have "\<not> bit (r_ueconx (eps z i)) STALLRQ" "eps z out = eps x out"
    using x(5) z(5,6) n(3) by (simp_all add: answer_place_def assms(4,5))
  ultimately show ?thesis using x z by (intro exI [of _ z]) simp
qed

section \<open>Refusing it\<close>

text \<open>An invalid block (signature, unit, flags or command length) stalls both endpoints; the program's handler is not
  called and no status is sent. The part of the packet behind the header stays in the bank.\<close>

lemma ms_bad_block_stalls:
  fixes s :: "'a ms_scheme"
  assumes "ms_ready c s" "block_arrived c b s" "\<not> block_valid c b" "\<not> IsMassStoreReset s"
    "out = unat (ms_DataOUTEndpointNumber c)" "i = unat (ms_DataINEndpointNumber c)"
    "\<not> bit (r_ueconx (eps s out)) STALLRQC" "\<not> bit (r_ueconx (eps s i)) STALLRQC"
  shows "\<exists>s'. MS_Device_USBTask c scsi w s = Inr ((), s', w) \<and> bit (r_ueconx (eps s' out)) STALLRQ \<and> bit (r_ueconx (eps s' i)) STALLRQ \<and>
    r_tx (eps s' i) = r_tx (eps s i) \<and> r_bank (eps s' out) = cb_SCSICommandData b \<and> out_owned (eps s' out) \<and> ms_ready c s'"
proof -
  note n = numbers_masked [OF assms(1)]
  let ?S = "Endpoint_SelectEndpoint (ms_DataOUTEndpointNumber c) s"
  have rw: "Endpoint_IsReadWriteAllowed ?S"
    using assms(2) ep_rwal_out [of "eps s out"] by (auto simp: Endpoint_flags n assms(5) block_arrived_def command_block_bytes_def)
  have S: "ms_ready c ?S" "block_arrived c b ?S" using assms(1,2) by (simp_all add: ms_ready_def block_arrived_def n)
  let ?r = "ms_refused c b ?S"
  have "MS_Device_USBTask c scsi w s = Inr ((), ?r, w)"
    using assms(1,3,4) rw read_block [OF S, of w]
    by (simp add: MS_Device_USBTask_def Let_def ms_reset_def) (simp add: ms_ready_def ms_refused_def Endpoint_con_cur)
  moreover have "bit (r_ueconx (eps ?r out)) STALLRQ" "bit (r_ueconx (eps ?r i)) STALLRQ" "r_tx (eps ?r i) = r_tx (eps s i)"
    "r_bank (eps ?r out) = cb_SCSICommandData b"
    using assms(5-8) n by (simp_all add: ms_refused_def Endpoint_con_cur ueconx_write_def)
  moreover have "out_owned (eps ?r out)" "ms_ready c ?r"
    using assms(1,2,5) n
    by (auto simp: ms_refused_def Endpoint_con_cur ueconx_write_def block_arrived_def out_owned_def ep_is_control_def ep_is_in_def ms_ready_def
        upd_cur_def upd_ep_def)
  ultimately show ?thesis by blast
qed

text \<open>So the rest of a refused packet is taken for a command block of its own in the next pass.\<close>

lemma refused_rest_arrived:
  assumes "out_owned (eps s (unat (ms_DataOUTEndpointNumber c)))"
    "r_bank (eps s (unat (ms_DataOUTEndpointNumber c))) = command_block_bytes b" "cb_SCSICommandLength b = 1" "length (cb_SCSICommandData b) = 1"
  shows "block_arrived c b s"
  using assms by (simp add: block_arrived_def)

text \<open>The reset of the host, once the bank from the host is empty.\<close>

lemma ms_reset_recovers:
  fixes s :: "'a ms_scheme"
  assumes "ms_ready c s" "IsMassStoreReset s" "out = unat (ms_DataOUTEndpointNumber c)" "i = unat (ms_DataINEndpointNumber c)"
    "\<not> ep_rwal (eps s out)"
  shows "\<exists>s'. MS_Device_USBTask c scsi w s = Inr ((), s', w) \<and> \<not> IsMassStoreReset s' \<and>
    (\<forall>k \<in> {out, i}. \<not> bit (r_ueconx (eps s' k)) STALLRQ \<and> r_bank (eps s' k) = [] \<and> r_tx (eps s' k) = None \<and> \<not> r_dtog (eps s' k))"
proof -
  note n = numbers_masked [OF assms(1)]
  let ?S = "Endpoint_SelectEndpoint (ms_DataOUTEndpointNumber c) s"
  have lt: "unat (ms_DataOUTEndpointNumber c) < 7" "unat (ms_DataINEndpointNumber c) < 7" using assms(1) by (simp_all add: ms_ready_def word_less_nat_alt)
  have flag: "IsMassStoreReset (Endpoint_ResetFIFO k t) = IsMassStoreReset t" for k and t :: "'a ms_scheme"
    by (simp add: Endpoint_ResetFIFO_def uerst_write_def)
  have "MS_Device_USBTask c scsi w s = Inr ((), ms_reset c ?S, w)"
    using assms(1,3,5) n by (simp add: MS_Device_USBTask_def Let_def Endpoint_flags ms_ready_def)
  moreover have "\<not> IsMassStoreReset (ms_reset c ?S)" using assms(2) by (simp add: ms_reset_def Let_def)
  moreover have "\<not> bit (r_ueconx (eps (ms_reset c ?S) k)) STALLRQ \<and> r_bank (eps (ms_reset c ?S) k) = [] \<and> r_tx (eps (ms_reset c ?S) k) = None \<and>
      \<not> r_dtog (eps (ms_reset c ?S) k)" if "k \<in> {out, i}" for k
    using that assms(2-4) n lt
    by (auto simp: ms_reset_def Let_def Endpoint_con_cur eps_Endpoint_ResetFIFO ueconx_write_def ep_reset_fifo_def bit_exp_iff)
  ultimately show ?thesis by blast
qed

section \<open>Instances\<close>

definition ms_demo_config :: ms_config where
  "ms_demo_config = \<lparr>ms_InterfaceNumber = 0, ms_DataINEndpointNumber = 3, ms_DataINEndpointSize = 64, ms_DataINEndpointDoubleBank = False,
     ms_DataOUTEndpointNumber = 4, ms_DataOUTEndpointSize = 64, ms_DataOUTEndpointDoubleBank = False, TotalLUNs = 1\<rparr>"

text \<open>The command TEST UNIT READY to a unit.\<close>

definition unit_ready :: "u8 \<Rightarrow> command_block" where
  "unit_ready lun = \<lparr>cb_Signature = MS_CBW_SIGNATURE, cb_Tag = 0x1234, cb_DataTransferLength = 0, cb_Flags = 0, cb_LUN = lun,
     cb_SCSICommandLength = 6, cb_SCSICommandData = replicate 16 0\<rparr>"

definition ms_demo :: "command_block \<Rightarrow> ms" where
  "ms_demo b = ms_zero_state (usb_dev.extend (dev_reset\<lparr>USB_DeviceState := 4,
       eps := (\<lambda>_. ep_none)(3 := ep_none\<lparr>r_ueconx := 1, r_uecfg0x := 0x81, r_uecfg1x := 0x32, r_ueintx := 0x81\<rparr>,
                            4 := ep_none\<lparr>r_ueconx := 1, r_uecfg0x := 0x80, r_uecfg1x := 0x32, r_ueintx := 0x84, r_bank := command_block_bytes b\<rparr>)\<rparr>)
     \<lparr>CommandBlock = b, CommandStatus = \<lparr>cs_Signature = 0, cs_Tag = 0, cs_DataTransferResidue = 0, cs_Status = 0\<rparr>, IsMassStoreReset = False\<rparr>)"

lemma ms_demo_state:
  "ms_ready ms_demo_config (ms_demo b)" "\<not> IsMassStoreReset (ms_demo b)" "out_owned (eps (ms_demo b) 4)" "r_bank (eps (ms_demo b) 4) = command_block_bytes b"
  "in_owned (eps (ms_demo b) 3)" "r_bank (eps (ms_demo b) 3) = []" "ep_size (eps (ms_demo b) 3) = 64" "r_ueconx (eps (ms_demo b) 3) = 1"
  "r_ueconx (eps (ms_demo b) 4) = 1" "r_tx (eps (ms_demo b) 3) = None"
  by (simp_all add: ms_demo_def ms_demo_config_def ms_zero_state_def ms_ready_def dev_reset_def hw_reset_def usb_hw.defs usb_dev.defs ep_none_def
      out_owned_def in_owned_def ep_is_control_def ep_is_in_def ep_size_def reg_bits device_state_defs drop_bit_eq_div command_block_of_bytes_def)

lemma unit_ready_valid:
  "block_valid ms_demo_config (unit_ready 0)" "\<not> block_valid ms_demo_config (unit_ready 1)" "length (cb_SCSICommandData (unit_ready n)) = 16"
  by (simp_all add: block_valid_def unit_ready_def ms_demo_config_def)

lemma unit_ready_arrived: "block_arrived ms_demo_config (unit_ready n) (ms_demo (unit_ready n))"
proof -
  have "unat (cb_SCSICommandLength (unit_ready n)) \<le> length (cb_SCSICommandData (unit_ready n))" by (simp add: unit_ready_def)
  then show ?thesis using ms_demo_state [of "unit_ready n"] by (simp add: block_arrived_def) (simp add: ms_demo_config_def)
qed

text \<open>A command whose data goes to the host, for \<open>n\<close> bytes; one handler answers it with a byte, the other one refuses it.\<close>

definition data_in :: "u32 \<Rightarrow> command_block" where
  "data_in n = (unit_ready 0)\<lparr>cb_Flags := 0x80, cb_DataTransferLength := n\<rparr>"

definition one_byte :: "'a ms_scheme world \<Rightarrow> 'a ms_scheme \<Rightarrow> ('a ms_scheme, bool) run" where
  "one_byte w s = (let s = Endpoint_ClearIN (Endpoint_Write_Byte 7 s) in Inr (True, s\<lparr>CommandBlock := (CommandBlock s)\<lparr>cb_DataTransferLength := 0\<rparr>\<rparr>, w))"

definition refuse :: "'a ms_scheme world \<Rightarrow> 'a ms_scheme \<Rightarrow> ('a ms_scheme, bool) run" where
  "refuse w s = Inr (False, s, w)"

lemma data_in_arrived: "block_arrived ms_demo_config (data_in n) (ms_demo (data_in n))" "block_valid ms_demo_config (data_in n)"
proof -
  show "block_valid ms_demo_config (data_in n)" by (simp add: block_valid_def data_in_def unit_ready_def ms_demo_config_def)
  have "unat (cb_SCSICommandLength (data_in n)) \<le> length (cb_SCSICommandData (data_in n))" by (simp add: data_in_def unit_ready_def)
  then show "block_arrived ms_demo_config (data_in n) (ms_demo (data_in n))"
    using ms_demo_state [of "data_in n"] by (simp add: block_arrived_def) (simp add: ms_demo_config_def)
qed

text \<open>The state the handler starts from.\<close>

definition demo_start :: "u32 \<Rightarrow> ms" where
  "demo_start n = Endpoint_SelectEndpoint 3 (ms_received ms_demo_config (data_in n) (ms_demo (data_in n)))"

lemma demo_start_state:
  "eps (demo_start n) 3 = eps (ms_demo (data_in n)) 3" "r_ueconx (eps (demo_start n) 4) = 1" "UENUM (demo_start n) = 3"
  "USB_DeviceState (demo_start n) = DEVICE_STATE_Configured" "\<not> IsMassStoreReset (demo_start n)"
  "cb_Tag (CommandBlock (demo_start n)) = 0x1234" "cb_DataTransferLength (CommandBlock (demo_start n)) = n"
proof -
  have c: "ep_clear_out (eps (ms_demo (data_in n)) 4) = (eps (ms_demo (data_in n)) 4)
      \<lparr>r_ueintx := unset_bit FIFOCON (unset_bit RXOUTI (r_ueintx (eps (ms_demo (data_in n)) 4))), r_bank := []\<rparr>"
    using ms_demo_state(3) [of "data_in n"] by (intro ep_clear_out_bulk) (simp_all add: out_owned_def)
  show "eps (demo_start n) 3 = eps (ms_demo (data_in n)) 3" "r_ueconx (eps (demo_start n) 4) = 1" "UENUM (demo_start n) = 3"
    "\<not> IsMassStoreReset (demo_start n)"
    using ms_demo_state [of "data_in n"] c by (simp_all add: demo_start_def ms_received_def ms_demo_config_def)
  show "USB_DeviceState (demo_start n) = DEVICE_STATE_Configured"
    using ms_demo_state(1) [of "data_in n"] by (simp add: demo_start_def ms_received_def ms_ready_def upd_cur_def upd_ep_def)
  show "cb_Tag (CommandBlock (demo_start n)) = 0x1234" "cb_DataTransferLength (CommandBlock (demo_start n)) = n"
    by (simp_all add: demo_start_def ms_received_def block_taken_def data_in_def unit_ready_def)
qed

lemma demo_answerable:
  assumes "\<And>k. k \<noteq> 3 \<Longrightarrow> eps u k = eps (demo_start n) k" "answer_place (eps u 3)" "r_ueconx (eps u 3) = 1" "USB_DeviceState u = DEVICE_STATE_Configured" "\<not> IsMassStoreReset u"
  shows "answerable ms_demo_config u"
  using assms(1) [of 4] assms(2-) demo_start_state(2) by (simp add: answerable_def Let_def ms_demo_config_def reg_bits)

theorem ms_command_answered_witness:
  "(\<exists>s'. MS_Device_USBTask ms_demo_config one_byte [collect 3] (ms_demo (data_in 1)) = Inr ((), s', []) \<and>
    r_sent (eps s' 3) = [[7]] \<and> r_tx (eps s' 3) = Some [0x55, 0x53, 0x42, 0x53, 0x34, 0x12, 0, 0, 0, 0, 0, 0, 0]) \<and>
   (\<exists>s'. MS_Device_USBTask ms_demo_config refuse [clear_halt 3] (ms_demo (data_in 8)) = Inr ((), s', []) \<and>
    r_sent (eps s' 3) = [] \<and> r_tx (eps s' 3) = Some [0x55, 0x53, 0x42, 0x53, 0x34, 0x12, 0, 0, 8, 0, 0, 0, 1])"
proof -
  note csw = command_status_bytes_def MS_CSW_SIGNATURE_def SCSI_Command_Pass_def SCSI_Command_Fail_def le_bytes_4
  have b: "cb_Tag (data_in n) = 0x1234" "cb_Flags (data_in n) AND MS_COMMAND_DIR_DATA_IN \<noteq> 0" for n
    by (simp_all add: data_in_def unit_ready_def MS_COMMAND_DIR_DATA_IN_def)
  have c: "ms_DataINEndpointNumber ms_demo_config = 3" "ms_DataOUTEndpointNumber ms_demo_config = 4" by (simp_all add: ms_demo_config_def)
  have i: "3 = unat (ms_DataINEndpointNumber ms_demo_config)" "4 = unat (ms_DataOUTEndpointNumber ms_demo_config)" by (simp_all add: c)
  note d = demo_start_state [of 1] and e = demo_start_state [of 8] and m = ms_demo_state [of "data_in 1"] and k = ms_demo_state [of "data_in 8"]
  have sent: "r_sent (eps (ms_demo x) 3) = []" for x
    by (simp add: ms_demo_def ms_zero_state_def usb_hw.defs usb_dev.defs ep_none_def)
  obtain u where u: "one_byte [collect 3] (demo_start 1) = Inr (True, u, [collect 3])" "\<And>k. k \<noteq> 3 \<Longrightarrow> eps u k = eps (demo_start 1) k"
    "eps u 3 = ep_clear_in ((eps (ms_demo (data_in 1)) 3)\<lparr>r_bank := [7]\<rparr>)" "UENUM u = 3" "USB_DeviceState u = DEVICE_STATE_Configured" "\<not> IsMassStoreReset u"
    "cb_Tag (CommandBlock u) = 0x1234" "cb_DataTransferLength (CommandBlock u) = 0"
    using d m by (simp add: one_byte_def Let_def Endpoint_ops_cur upd_cur_def upd_ep_def ep_push_def cur_def ep_size_def)
  have "eps u 3 = (eps (ms_demo (data_in 1)) 3)\<lparr>r_ueintx := unset_bit FIFOCON (unset_bit TXINI (r_ueintx (eps (ms_demo (data_in 1)) 3))), r_tx := Some [7], r_bank := []\<rparr>"
    using m(5) unfolding u(3) by (subst ep_clear_in_bulk) (simp_all add: in_owned_def ep_is_control_def ep_is_in_def)
  note ep = this
  have "answer_place (eps u 3)" using m unfolding ep by (simp add: answer_place_def in_owned_def ep_is_control_def ep_is_in_def ep_size_def bit_simps STALLRQ_def)
  then have a: "answerable ms_demo_config u" using m(8) u(2,5,6) by (intro demo_answerable) (simp_all add: ep)
  have t: "r_sent (eps u 3) = []" "data_kept ms_demo_config True u = [[7]]" "host_serves ms_demo_config True u = [collect 3]" "\<not> halts True u"
    by (simp_all add: ep sent data_kept_def host_serves_def halts_def c)
  have h: "one_byte [collect 3] (demo_start 1) = Inr (True, u, host_serves ms_demo_config True u @ [])" using u(1) t(3) by simp
  have x: "one_byte [collect 3] (if cb_Flags (data_in 1) AND MS_COMMAND_DIR_DATA_IN \<noteq> 0
      then Endpoint_SelectEndpoint (ms_DataINEndpointNumber ms_demo_config) (ms_received ms_demo_config (data_in 1) (ms_demo (data_in 1)))
      else ms_received ms_demo_config (data_in 1) (ms_demo (data_in 1))) = Inr (True, u, host_serves ms_demo_config True u @ [])"
    using h b(2) [of 1] unfolding c(1) demo_start_def by (simp only: if_True simp_thms)
  have g: "cb_Tag (CommandBlock u) = cb_Tag (data_in 1)" "halts True u \<longrightarrow> UENUM u \<in> {ms_DataOUTEndpointNumber ms_demo_config, ms_DataINEndpointNumber ms_demo_config}"
    using u(4,7) b(1) [of 1] by (simp_all add: c)
  obtain s' where "MS_Device_USBTask ms_demo_config one_byte [collect 3] (ms_demo (data_in 1)) = Inr ((), s', [])" "r_sent (eps s' 3) = [[7]]"
      "r_tx (eps s' 3) = Some (command_status_bytes \<lparr>cs_Signature = MS_CSW_SIGNATURE, cs_Tag = 0x1234, cs_DataTransferResidue = 0, cs_Status = 0\<rparr>)"
    using ms_command_answered [where scsi = one_byte and w = "[collect 3]", OF m(1) data_in_arrived i x a g] unfolding b t(1,2) u(8)
    by (elim exE conjE) (simp add: SCSI_Command_Pass_def SCSI_Command_Fail_def)
  then have one: "\<exists>s'. MS_Device_USBTask ms_demo_config one_byte [collect 3] (ms_demo (data_in 1)) = Inr ((), s', []) \<and>
    r_sent (eps s' 3) = [[7]] \<and> r_tx (eps s' 3) = Some [0x55, 0x53, 0x42, 0x53, 0x34, 0x12, 0, 0, 0, 0, 0, 0, 0]"
    by (intro exI [of _ s']) (simp add: csw)
  let ?v = "demo_start 8"
  have a: "answerable ms_demo_config ?v" using k e by (intro demo_answerable) (simp_all add: answer_place_def in_owned_def STALLRQ_def)
  have t: "r_sent (eps ?v 3) = []" "data_kept ms_demo_config False ?v = []" "host_serves ms_demo_config False ?v = [clear_halt 3]"
    using e by (simp_all add: sent data_kept_def host_serves_def halts_def c)
  have h: "refuse [clear_halt 3] ?v = Inr (False, ?v, host_serves ms_demo_config False ?v @ [])" using t(3) by (simp add: refuse_def)
  have x: "refuse [clear_halt 3] (if cb_Flags (data_in 8) AND MS_COMMAND_DIR_DATA_IN \<noteq> 0
      then Endpoint_SelectEndpoint (ms_DataINEndpointNumber ms_demo_config) (ms_received ms_demo_config (data_in 8) (ms_demo (data_in 8)))
      else ms_received ms_demo_config (data_in 8) (ms_demo (data_in 8))) = Inr (False, ?v, host_serves ms_demo_config False ?v @ [])"
    using h b(2) [of 8] unfolding c(1) demo_start_def by (simp only: if_True simp_thms)
  have g: "cb_Tag (CommandBlock ?v) = cb_Tag (data_in 8)" "halts False ?v \<longrightarrow> UENUM ?v \<in> {ms_DataOUTEndpointNumber ms_demo_config, ms_DataINEndpointNumber ms_demo_config}"
    using e(3,6) b(1) [of 8] by (simp_all add: c)
  obtain s' where "MS_Device_USBTask ms_demo_config refuse [clear_halt 3] (ms_demo (data_in 8)) = Inr ((), s', [])" "r_sent (eps s' 3) = []"
      "r_tx (eps s' 3) = Some (command_status_bytes \<lparr>cs_Signature = MS_CSW_SIGNATURE, cs_Tag = 0x1234, cs_DataTransferResidue = 8, cs_Status = 1\<rparr>)"
    using ms_command_answered [where scsi = refuse and w = "[clear_halt 3]", OF k(1) data_in_arrived i x a g] unfolding b t(1,2) e(7)
    by (elim exE conjE) (simp add: SCSI_Command_Pass_def SCSI_Command_Fail_def)
  then have "\<exists>s'. MS_Device_USBTask ms_demo_config refuse [clear_halt 3] (ms_demo (data_in 8)) = Inr ((), s', []) \<and>
    r_sent (eps s' 3) = [] \<and> r_tx (eps s' 3) = Some [0x55, 0x53, 0x42, 0x53, 0x34, 0x12, 0, 0, 8, 0, 0, 0, 1]"
    by (intro exI [of _ s']) (simp add: csw)
  with one show ?thesis by blast
qed

lemma ms_bad_block_stalls_instance:
  "\<exists>s'. MS_Device_USBTask ms_demo_config (\<lambda>w s. Inl Fault) [] (ms_demo (unit_ready 1)) = Inr ((), s', []) \<and>
    bit (r_ueconx (eps s' 4)) STALLRQ \<and> bit (r_ueconx (eps s' 3)) STALLRQ \<and> r_tx (eps s' 3) = None"
  using ms_bad_block_stalls [of ms_demo_config "ms_demo (unit_ready 1)" "unit_ready 1" 4 3 "\<lambda>w s. Inl Fault" "[]"]
    ms_demo_state [of "unit_ready 1"] unit_ready_valid(2) unit_ready_arrived [of 1]
  by (auto simp: ms_demo_config_def STALLRQC_def)

end
