(* ===== verification/CdcBootLink.thy ===== *)
theory CdcBootLink
  imports CdcBoot
begin

text \<open>
  The bytes between the host and the serial boot loader: the host has packets to send and collects the answers,
  and every byte the boot loader fetches is the next of them, every byte it responds with reaches the host, in
  order, whatever the packets are. The functions are shown to return, by counting how often the host must have
  its turn: a total-correctness triple \<open>gives\<close> with its rules, used for the commands in theory \<open>CdcBootCommands\<close>.
\<close>

section \<open>The host's side\<close>

record boot_link = cdcboot +
  to_send :: "u8 list list"

text \<open>The host's turn: it collects a waiting answer and sends its next packet, which the controller may refuse.\<close>

definition host_turn :: "boot_link \<Rightarrow> boot_link" where
  "host_turn s =
     (let s = collect 1 s
      in case to_send s of
           [] \<Rightarrow> s
         | p # ps \<Rightarrow> (case host_out 2 p s of None \<Rightarrow> s | Some s \<Rightarrow> s\<lparr>to_send := ps\<rparr>))"

definition bus_world :: "boot_link world \<Rightarrow> bool" where
  "bus_world w \<longleftrightarrow> (\<forall>e \<in> set w. e = host_turn \<or> e = id \<or> e = sof \<or> e = collect 3)"

definition turns :: "boot_link world \<Rightarrow> nat" where
  "turns w = length (filter (\<lambda>e. e = host_turn) w)"

lemma link_world_simps [simp]:
  "bus_world []" "bus_world (e # w) \<longleftrightarrow> (e = host_turn \<or> e = id \<or> e = sof \<or> e = collect 3) \<and> bus_world w"
  "bus_world (replicate n host_turn)"
  by (auto simp: bus_world_def)

lemma turns_simps [simp]:
  "turns [] = 0" "turns (e # w) = (if e = host_turn then Suc (turns w) else turns w)" "turns (replicate n host_turn) = n"
  by (simp_all add: turns_def)

section \<open>Total correctness\<close>

text \<open>With \<open>k\<close> turns of the host, \<open>F\<close> returns and \<open>Q\<close> holds, and it has used at most \<open>k\<close> of them.\<close>

definition gives :: "nat \<Rightarrow> (boot_link world \<Rightarrow> (boot_link, 'a) run) \<Rightarrow> ('a \<Rightarrow> boot_link \<Rightarrow> bool) \<Rightarrow> bool" where
  "gives k F Q \<longleftrightarrow> (\<forall>w. bus_world w \<and> k \<le> turns w \<longrightarrow>
     (\<exists>a s' w'. F w = Inr (a, s', w') \<and> Q a s' \<and> bus_world w' \<and> turns w \<le> turns w' + k))"

lemma givesI:
  assumes "\<And>w. bus_world w \<Longrightarrow> k \<le> turns w \<Longrightarrow> \<exists>a s' w'. F w = Inr (a, s', w') \<and> Q a s' \<and> bus_world w' \<and> turns w \<le> turns w' + k"
  shows "gives k F Q"
  using assms by (simp add: gives_def)

lemma givesD:
  assumes "gives k F Q" "bus_world w" "k \<le> turns w"
  obtains a s' w' where "F w = Inr (a, s', w')" "Q a s'" "bus_world w'" "turns w \<le> turns w' + k"
  using assms by (auto simp: gives_def)

lemma gives_return: "Q a s \<Longrightarrow> gives k (\<lambda>w. Inr (a, s, w)) Q"
  by (auto simp: gives_def)

lemma gives_mono:
  assumes "gives k F Q" "k \<le> l" "\<And>a s. Q a s \<Longrightarrow> R a s"
  shows "gives l F R"
proof (rule givesI)
  fix w assume w: "bus_world w" "l \<le> turns w"
  have "k \<le> turns w" using w(2) assms(2) by simp
  obtain a s' w' where "F w = Inr (a, s', w')" "Q a s'" "bus_world w'" "turns w \<le> turns w' + k"
    using givesD [OF assms(1) w(1) \<open>k \<le> turns w\<close>] by metis
  then show "\<exists>a s' w'. F w = Inr (a, s', w') \<and> R a s' \<and> bus_world w' \<and> turns w \<le> turns w' + l"
    using assms(2,3) by (intro exI [of _ a] exI [of _ s'] exI [of _ w']) simp
qed

lemma gives_bind:
  assumes "gives k F P" "\<And>a s. P a s \<Longrightarrow> gives l (\<lambda>w. G a s w) Q"
  shows "gives (k + l) (\<lambda>w. bind_run (F w) G) Q"
proof (rule givesI)
  fix w assume w: "bus_world w" "k + l \<le> turns w"
  have "k \<le> turns w" using w(2) by simp
  obtain a s v where 1: "F w = Inr (a, s, v)" "P a s" "bus_world v" "turns w \<le> turns v + k"
    using givesD [OF assms(1) w(1) \<open>k \<le> turns w\<close>] by metis
  have "l \<le> turns v" using 1(4) w(2) by simp
  obtain b t u where "G a s v = Inr (b, t, u)" "Q b t" "bus_world u" "turns v \<le> turns u + l"
    using givesD [OF assms(2) [OF 1(2)] 1(3) \<open>l \<le> turns v\<close>] by metis
  then show "\<exists>b t u. bind_run (F w) G = Inr (b, t, u) \<and> Q b t \<and> bus_world u \<and> turns w \<le> turns u + (k + l)"
    using 1 by (intro exI [of _ b] exI [of _ t] exI [of _ u]) simp
qed

text \<open>A waiting loop that the host's next turn ends.\<close>

lemma gives_poll:
  assumes exit: "\<And>s. P s \<Longrightarrow> B s \<Longrightarrow> f () s = Inl (a, s)"
    and round: "\<And>s. P s \<Longrightarrow> \<not> B s \<Longrightarrow> f () s = Inr ((), s)"
    and quiet: "\<And>s e. P s \<Longrightarrow> e = id \<or> e = sof \<or> e = collect 3 \<Longrightarrow> P (e s)"
    and turn: "\<And>s. P s \<Longrightarrow> \<not> B s \<Longrightarrow> P (host_turn s) \<and> B (host_turn s)"
    and "P s"
  shows "gives 1 (\<lambda>w. poll_until f () w s) (\<lambda>r s'. r = a \<and> P s' \<and> B s')"
proof (rule givesI)
  fix w :: "boot_link world"
  assume "bus_world w" "1 \<le> turns w"
  then show "\<exists>r s' w'. poll_until f () w s = Inr (r, s', w') \<and> (r = a \<and> P s' \<and> B s') \<and> bus_world w' \<and> turns w \<le> turns w' + 1"
    using \<open>P s\<close>
  proof (induction w arbitrary: s)
    case (Cons e w)
    show ?case
    proof (cases "B s")
      case True
      then show ?thesis using exit [OF Cons.prems(3)] Cons.prems(1)
        by (intro exI [of _ a] exI [of _ s] exI [of _ "e # w"]) (simp add: poll_until_exit Cons.prems)
    next
      case False
      have r: "poll_until f () (e # w) s = poll_until f () w (e s)" by (rule poll_until_round) (rule round [OF Cons.prems(3) False])
      show ?thesis
      proof (cases "e = host_turn")
        case True
        have "P (host_turn s)" "B (host_turn s)" using turn [OF Cons.prems(3) False] by simp_all
        then show ?thesis using exit r True Cons.prems(1)
          by (intro exI [of _ a] exI [of _ "host_turn s"] exI [of _ w]) (simp add: poll_until_exit)
      next
        case e: False
        have "P (e s)" using quiet [OF Cons.prems(3)] Cons.prems(1) e by auto
        moreover have "bus_world w" "1 \<le> turns w" using Cons.prems(1,2) e by simp_all
        ultimately show ?thesis using Cons.IH [of "e s"] r e by simp
      qed
    qed
  qed simp
qed

section \<open>The connection\<close>

record boot_mem =
  bm_addr :: u32
  bm_run :: bool
  bm_flash :: flash
  bm_eeprom :: "nat \<Rightarrow> u8"
  bm_fuses :: "nat \<Rightarrow> u8"

definition mem_of :: "'a cdcboot_scheme \<Rightarrow> boot_mem" where
  "mem_of s = \<lparr>bm_addr = CurrAddress s, bm_run = cdcboot_RunBootloader s, bm_flash = avr_Flash s, bm_eeprom = avr_Eeprom s,
     bm_fuses = avr_LockFuse s\<rparr>"

definition link_ok :: "boot_link \<Rightarrow> bool" where
  "link_ok s \<longleftrightarrow> USB_DeviceState s \<noteq> DEVICE_STATE_Unattached \<and> \<not> bit (r_ueintx (eps s 0)) RXSTPI \<and> cdc_in (eps s 1) \<and> cdc_out (eps s 2) \<and>
     (bit (r_ueintx (eps s 1)) FIFOCON \<or> r_tx (eps s 1) \<noteq> None) \<and>
     (\<forall>p \<in> set (to_send s). p \<noteq> [] \<and> length p \<le> ep_size (eps s 2))"

text \<open>
  A packet of a command is in the bank; of the bytes \<open>X\<close> of the command still to be fetched the rest is in packets
  the host has yet to send, before the packets \<open>Y\<close>; the host got \<open>A\<close> or will.
\<close>

definition unread :: "u8 list \<Rightarrow> u8 list list \<Rightarrow> boot_link \<Rightarrow> bool" where
  "unread X Y s \<longleftrightarrow> (\<exists>ps. to_send s = ps @ Y \<and> r_bank (eps s 2) @ concat ps = X)"

definition conn :: "u8 list \<Rightarrow> u8 list list \<Rightarrow> u8 list \<Rightarrow> boot_mem \<Rightarrow> boot_link \<Rightarrow> bool" where
  "conn X Y A m s \<longleftrightarrow> link_ok s \<and> bit (r_ueintx (eps s 2)) FIFOCON \<and> unread X Y s \<and> tx_stream (eps s 1) = A \<and> mem_of s = m"

section \<open>What the bus does\<close>

declare One_nat_def [simp del]

text \<open>All of the state that the connection is about.\<close>

definition link_view :: "boot_link \<Rightarrow> ep_regs \<times> ep_regs \<times> ep_regs \<times> u8 \<times> u8 list list \<times> boot_mem" where
  "link_view s = (eps s 0, eps s 1, eps s 2, USB_DeviceState s, to_send s, mem_of s)"

lemma link_view_eq:
  "link_view s = link_view t \<longleftrightarrow> eps s 0 = eps t 0 \<and> eps s 1 = eps t 1 \<and> eps s 2 = eps t 2 \<and> USB_DeviceState s = USB_DeviceState t \<and>
     to_send s = to_send t \<and> mem_of s = mem_of t"
  by (simp add: link_view_def)

lemma conn_view: "link_view s = link_view t \<Longrightarrow> conn X Y A m s = conn X Y A m t"
  by (simp add: link_view_eq conn_def link_ok_def unread_def)

lemma link_ok_view: "link_view s = link_view t \<Longrightarrow> link_ok s = link_ok t"
  by (simp add: link_view_eq link_ok_def)

lemma link_view_simps [simp]:
  "link_view (s\<lparr>UENUM := x\<rparr>) = link_view s" "link_view (s\<lparr>UDINT := y\<rparr>) = link_view s" "link_view (upd_ep 3 g s) = link_view s"
  "link_view (Endpoint_SelectEndpoint n s) = link_view s"
  by (simp_all add: link_view_def mem_of_def upd_ep_def Endpoint_SelectEndpoint_def uenum_write_def)

lemma quiet_view:
  assumes "e = id \<or> e = sof \<or> e = collect 3"
  shows "link_view (e s) = link_view s" "UENUM (e s) = UENUM s"
  using assms by (auto simp: collect_def host_in_def sof_def split: option.splits)

text \<open>The packets handed over to the host.\<close>

definition handed :: "ep_regs \<Rightarrow> u8 list list" where
  "handed ep = r_sent ep @ (case r_tx ep of None \<Rightarrow> [] | Some p \<Rightarrow> [p])"

lemma collect_link:
  assumes "link_ok s"
  shows "\<exists>ep. collect 1 s = upd_ep 1 (\<lambda>_. ep) s \<and> cdc_in ep \<and> bit (r_ueintx ep) FIFOCON \<and> bit (r_ueintx ep) TXINI \<and>
    tx_stream ep = tx_stream (eps s 1) \<and> r_bank ep = r_bank (eps s 1) \<and> handed ep = handed (eps s 1) \<and> ep_size ep = ep_size (eps s 1)"
proof (cases "r_tx (eps s 1)")
  case None
  then show ?thesis
    using assms by (intro exI [of _ "eps s 1"]) (auto simp: link_ok_def collect_def host_in_def upd_ep_def cdc_in_def split: if_splits)
next
  case (Some p)
  have c: "cdc_in (eps s 1)" using assms by (simp add: link_ok_def)
  then have "\<not> bit (r_ueintx (eps s 1)) FIFOCON" "r_bank (eps s 1) = []" "\<not> ep_is_control (eps s 1)"
    using Some by (auto simp: cdc_in_def split: if_splits)
  then show ?thesis
    using c Some
    by (intro exI [of _ "(eps s 1)\<lparr>r_tx := None, r_sent := r_sent (eps s 1) @ [p], r_ueintx := set_bit FIFOCON (set_bit TXINI (r_ueintx (eps s 1)))\<rparr>"])
      (simp add: collect_def host_in_def cdc_in_def tx_stream_def ep_is_control_def ep_is_in_def ep_size_def handed_def, simp add: upd_ep_def)
qed

lemma mem_of_upd [simp]:
  "mem_of (upd_ep n f s) = mem_of s" "mem_of (s\<lparr>to_send := x\<rparr>) = mem_of (s :: boot_link)" "mem_of (upd_cur f s) = mem_of s"
  "mem_of (Endpoint_SelectEndpoint k s) = mem_of s"
  by (simp_all add: mem_of_def upd_ep_def upd_cur_def Endpoint_SelectEndpoint_def uenum_write_def)

lemma upd_ep_frame [simp]:
  "USB_DeviceState (upd_ep n f s) = USB_DeviceState s" "to_send (upd_ep n f t) = to_send t"
  by (simp_all add: upd_ep_def)

text \<open>The endpoint to the host is free after the host's turn; a packet in the bank of the other stays there.\<close>

lemma turn_in:
  assumes "link_ok s"
  shows "link_ok (host_turn s)" "UENUM (host_turn s) = UENUM s" "mem_of (host_turn s) = mem_of s"
    "bit (r_ueintx (eps (host_turn s) 1)) TXINI" "bit (r_ueintx (eps (host_turn s) 1)) FIFOCON"
    "tx_stream (eps (host_turn s) 1) = tx_stream (eps s 1)" "r_bank (eps (host_turn s) 1) = r_bank (eps s 1)"
    "bit (r_ueintx (eps s 2)) FIFOCON \<Longrightarrow> eps (host_turn s) 2 = eps s 2 \<and> to_send (host_turn s) = to_send s"
    "\<not> bit (r_ueintx (eps s 2)) FIFOCON \<Longrightarrow> to_send s = p # ps \<Longrightarrow> bit (r_ueintx (eps (host_turn s) 2)) FIFOCON \<and>
       r_bank (eps (host_turn s) 2) = p \<and> to_send (host_turn s) = ps"
    "handed (eps (host_turn s) 1) = handed (eps s 1) \<and> ep_size (eps (host_turn s) 1) = ep_size (eps s 1)"
proof -
  obtain ep where ep: "collect 1 s = upd_ep 1 (\<lambda>_. ep) s" "cdc_in ep" "bit (r_ueintx ep) FIFOCON" "bit (r_ueintx ep) TXINI"
    "tx_stream ep = tx_stream (eps s 1)" "r_bank ep = r_bank (eps s 1)" "handed ep = handed (eps s 1)" "ep_size ep = ep_size (eps s 1)"
    using collect_link [OF assms] by blast
  have o: "cdc_out (eps s 2)" "\<And>p. p \<in> set (to_send s) \<Longrightarrow> p \<noteq> [] \<and> length p \<le> ep_size (eps s 2)"
    "USB_DeviceState s \<noteq> DEVICE_STATE_Unattached" "\<not> bit (r_ueintx (eps s 0)) RXSTPI" using assms by (auto simp: link_ok_def)
  let ?s = "upd_ep 1 (\<lambda>_. ep) s"
  have "link_ok (host_turn s) \<and> UENUM (host_turn s) = UENUM s \<and> mem_of (host_turn s) = mem_of s \<and> eps (host_turn s) 1 = ep \<and>
    (bit (r_ueintx (eps s 2)) FIFOCON \<longrightarrow> eps (host_turn s) 2 = eps s 2 \<and> to_send (host_turn s) = to_send s) \<and>
    (\<not> bit (r_ueintx (eps s 2)) FIFOCON \<longrightarrow> to_send s = p # ps \<longrightarrow> bit (r_ueintx (eps (host_turn s) 2)) FIFOCON \<and>
       r_bank (eps (host_turn s) 2) = p \<and> to_send (host_turn s) = ps)" for p ps
  proof (cases "to_send s = [] \<or> bit (r_ueintx (eps s 2)) FIFOCON")
    case True
    then have "host_turn s = ?s" by (auto simp: host_turn_def Let_def ep(1) host_out_def split: list.split)
    then show ?thesis using True o ep by (auto simp: link_ok_def)
  next
    case False
    then obtain q qs where q: "to_send s = q # qs" by (cases "to_send s") auto
    let ?f = "\<lambda>e :: ep_regs. e\<lparr>r_bank := q, r_ueintx := set_bit FIFOCON (set_bit RXOUTI (r_ueintx e))\<rparr>"
    have "host_out 2 q ?s = Some (upd_ep 2 ?f ?s)"
      using False o(1) o(2) [of q] q by (simp add: host_out_def Let_def cdc_out_def) (simp add: upd_ep_def)
    then have h: "host_turn s = (upd_ep 2 ?f ?s)\<lparr>to_send := qs\<rparr>" by (simp add: host_turn_def Let_def ep(1) q)
    have "eps (host_turn s) 2 = ?f (eps s 2)" "eps (host_turn s) 1 = ep" "eps (host_turn s) 0 = eps s 0" "UENUM (host_turn s) = UENUM s" "to_send (host_turn s) = qs"
      "USB_DeviceState (host_turn s) = USB_DeviceState s" "mem_of (host_turn s) = mem_of s"
      unfolding h by simp_all
    moreover have "cdc_out (?f (eps s 2))" "ep_size (?f (eps s 2)) = ep_size (eps s 2)"
      using o(1) by (simp_all add: cdc_out_def ep_is_control_def ep_is_in_def ep_size_def)
    ultimately show ?thesis using False o ep q by (auto simp: link_ok_def)
  qed
  then show "link_ok (host_turn s)" "UENUM (host_turn s) = UENUM s" "mem_of (host_turn s) = mem_of s"
    "bit (r_ueintx (eps (host_turn s) 1)) TXINI" "bit (r_ueintx (eps (host_turn s) 1)) FIFOCON"
    "tx_stream (eps (host_turn s) 1) = tx_stream (eps s 1)" "r_bank (eps (host_turn s) 1) = r_bank (eps s 1)"
    "bit (r_ueintx (eps s 2)) FIFOCON \<Longrightarrow> eps (host_turn s) 2 = eps s 2 \<and> to_send (host_turn s) = to_send s"
    "\<not> bit (r_ueintx (eps s 2)) FIFOCON \<Longrightarrow> to_send s = p # ps \<Longrightarrow> bit (r_ueintx (eps (host_turn s) 2)) FIFOCON \<and>
       r_bank (eps (host_turn s) 2) = p \<and> to_send (host_turn s) = ps"
    "handed (eps (host_turn s) 1) = handed (eps s 1) \<and> ep_size (eps (host_turn s) 1) = ep_size (eps s 1)"
    using ep by auto
qed

section \<open>Fetching a byte\<close>

lemma cdcboot_ep_numbers [simp]: "CDC_TX_EPNUM AND 7 = 1" "CDC_RX_EPNUM AND 7 = 2"
  by (simp_all add: CDC_TX_EPNUM_def CDC_RX_EPNUM_def)

lemma sel_in: "UENUM (Endpoint_SelectEndpoint CDC_TX_EPNUM s) = 1" "cur (Endpoint_SelectEndpoint CDC_TX_EPNUM s) = eps s 1"
  and sel_out: "UENUM (Endpoint_SelectEndpoint CDC_RX_EPNUM s) = 2" "cur (Endpoint_SelectEndpoint CDC_RX_EPNUM s) = eps s 2"
  by simp_all

text \<open>The packet in the bank was read and is released; the wait for the next one.\<close>

definition between :: "u8 list \<Rightarrow> u8 list list \<Rightarrow> u8 list \<Rightarrow> boot_mem \<Rightarrow> boot_link \<Rightarrow> bool" where
  "between X Y A m s \<longleftrightarrow> UENUM s = 2 \<and> link_ok s \<and> unread X Y s \<and> tx_stream (eps s 1) = A \<and> mem_of s = m"

lemma between_conn: "between X Y A m s \<Longrightarrow> bit (r_ueintx (eps s 2)) FIFOCON \<Longrightarrow> conn X Y A m s"
  by (simp add: between_def conn_def)

lemma between_turn:
  assumes "between (x # X) Y A m s" "\<not> bit (r_ueintx (eps s 2)) FIFOCON"
  shows "between (x # X) Y A m (host_turn s)" "bit (r_ueintx (eps (host_turn s) 2)) FIFOCON"
proof -
  have l: "link_ok s" using assms by (simp add: between_def)
  obtain ps where ps: "to_send s = ps @ Y" "r_bank (eps s 2) @ concat ps = x # X"
    using assms(1) by (auto simp: between_def unread_def)
  have "r_bank (eps s 2) = []" using l assms(2) by (simp add: link_ok_def cdc_out_def)
  then obtain q qs where "ps = q # qs" using ps(2) by (cases ps) auto
  with ps have q: "to_send s = q # (qs @ Y)" "q @ concat qs = x # X" using \<open>r_bank (eps s 2) = []\<close> by auto
  note t = turn_in(1-8) [OF l] turn_in(9) [OF l assms(2) q(1)]
  show "bit (r_ueintx (eps (host_turn s) 2)) FIFOCON" using t(9) by simp
  show "between (x # X) Y A m (host_turn s)"
    using t assms(1) q(2) by (auto simp: between_def unread_def)
qed

lemma fetch_loop_exit: "Endpoint_IsReadWriteAllowed s \<Longrightarrow> fetch_loop w s = Inr (True, s, w)"
  by (simp add: fetch_loop.simps [of w s])

lemma between_rwal:
  assumes "between (x # X) Y A m s" "bit (r_ueintx (eps s 2)) FIFOCON"
  shows "Endpoint_IsReadWriteAllowed s \<longleftrightarrow> r_bank (eps s 2) \<noteq> []"
  using assms by (simp add: between_def link_ok_def Endpoint_flags cur_def ep_rwal_def cdc_out_def)

lemma fetched_packet_nonempty:
  assumes "between (x # X) Y A m s" "\<not> bit (r_ueintx (eps s 2)) FIFOCON"
  shows "r_bank (eps (host_turn s) 2) \<noteq> []"
proof -
  have l: "link_ok s" using assms by (simp add: between_def)
  obtain ps where ps: "to_send s = ps @ Y" "r_bank (eps s 2) @ concat ps = x # X"
    using assms(1) by (auto simp: between_def unread_def)
  have "r_bank (eps s 2) = []" using l assms(2) by (simp add: link_ok_def cdc_out_def)
  then obtain q qs where q: "to_send s = q # qs" using ps by (cases ps) auto
  have "q \<noteq> []" using l q by (simp add: link_ok_def)
  then show ?thesis using turn_in(9) [OF l assms(2) q] by simp
qed

lemma await_out_packet:
  assumes "between (x # X) Y A m s" "bit (r_ueintx (eps s 2)) FIFOCON \<longrightarrow> r_bank (eps s 2) \<noteq> []"
  shows "gives 1 (\<lambda>w. await_out w s) (\<lambda>ok t. ok \<and> between (x # X) Y A m t \<and> bit (r_ueintx (eps t 2)) FIFOCON \<and> r_bank (eps t 2) \<noteq> [])"
proof -
  let ?P = "\<lambda>s. between (x # X) Y A m s \<and> (bit (r_ueintx (eps s 2)) FIFOCON \<longrightarrow> r_bank (eps s 2) \<noteq> [])"
    and ?B = "\<lambda>s :: boot_link. bit (r_ueintx (eps s 2)) FIFOCON"
  have r: "Endpoint_IsOUTReceived s = ?B s" "USB_DeviceState s \<noteq> DEVICE_STATE_Unattached" if "?P s" for s
    using that by (simp_all add: Endpoint_flags cur_def between_def link_ok_def cdc_out_def)
  have "gives 1 (\<lambda>w. await_out w s) (\<lambda>ok t. ok = True \<and> ?P t \<and> ?B t)"
    unfolding await_out_def
  proof (rule gives_poll [where a = True])
    show "?P (e t)" if "?P t" "e = id \<or> e = sof \<or> e = collect 3" for t e
      using that(1) quiet_view [OF that(2), of t]
      by (simp add: between_def link_ok_view [OF quiet_view(1) [OF that(2)]] link_view_eq unread_def)
    show "?P (host_turn t) \<and> ?B (host_turn t)" if "?P t" "\<not> ?B t" for t
      using between_turn [of x X Y A m t] fetched_packet_nonempty [of x X Y A m t] that by blast
  qed (use assms r in simp_all)
  then show ?thesis by (rule gives_mono) auto
qed

lemma await_out_immediate:
  assumes "between X Y A m s" "bit (r_ueintx (eps s 2)) FIFOCON"
  shows "await_out w s = Inr (True, s, w)"
proof -
  have "Endpoint_IsOUTReceived s" using assms by (simp add: Endpoint_flags cur_def between_def link_ok_def cdc_out_def)
  then show ?thesis by (simp add: await_out_def poll_until_exit)
qed

lemma ClearOUT_between:
  assumes "conn X Y A m s" "UENUM s = 2" "r_bank (eps s 2) = []"
  shows "between X Y A m (Endpoint_ClearOUT s)" "\<not> bit (r_ueintx (eps (Endpoint_ClearOUT s) 2)) FIFOCON"
proof -
  have c: "cdc_out (eps s 2)" "bit (r_ueintx (eps s 2)) FIFOCON" using assms(1) by (simp_all add: conn_def link_ok_def)
  have "ep_clear_out (eps s 2) = (eps s 2)\<lparr>r_ueintx := unset_bit FIFOCON (unset_bit RXOUTI (r_ueintx (eps s 2))), r_bank := []\<rparr>"
    using c by (intro ep_clear_out_bulk) (simp_all add: cdc_out_def)
  then have e: "Endpoint_ClearOUT s = upd_ep 2 (\<lambda>_. (eps s 2)\<lparr>r_ueintx := unset_bit FIFOCON (unset_bit RXOUTI (r_ueintx (eps s 2))), r_bank := []\<rparr>) s"
    using assms(2) by (simp add: Endpoint_ops_cur upd_cur_def upd_ep_def)
  show "between X Y A m (Endpoint_ClearOUT s)" "\<not> bit (r_ueintx (eps (Endpoint_ClearOUT s) 2)) FIFOCON"
    unfolding e using assms c(1)
    by (simp_all add: between_def conn_def link_ok_def cdc_out_def ep_is_control_def ep_is_in_def ep_size_def unread_def)
qed

lemma fetch_loop_gives:
  assumes "conn (x # X) Y A m s" "UENUM s = 2"
  shows "gives 1 (\<lambda>w. fetch_loop w s) (\<lambda>ok t. ok \<and> conn (x # X) Y A m t \<and> UENUM t = 2 \<and> r_bank (eps t 2) \<noteq> [])"
proof (cases "r_bank (eps s 2) = []")
  case False
  have "between (x # X) Y A m s" "bit (r_ueintx (eps s 2)) FIFOCON" using assms by (simp_all add: conn_def between_def)
  from between_rwal [OF this] False have "Endpoint_IsReadWriteAllowed s" by simp
  then show ?thesis using False assms by (simp add: fetch_loop_exit gives_return)
next
  case True
  let ?s = "Endpoint_ClearOUT s"
  have b: "between (x # X) Y A m s" "bit (r_ueintx (eps s 2)) FIFOCON" using assms by (simp_all add: conn_def between_def)
  have n: "\<not> Endpoint_IsReadWriteAllowed s" using between_rwal [OF b] True by simp
  note c = ClearOUT_between [OF assms True]
  have ends: "fetch_loop w t = Inr (True, t, w) \<and> conn (x # X) Y A m t \<and> UENUM t = 2"
    if "between (x # X) Y A m t" "bit (r_ueintx (eps t 2)) FIFOCON" "r_bank (eps t 2) \<noteq> []" for t w
    using that between_conn [OF that(1,2)] by (simp add: fetch_loop_exit between_rwal [OF that(1,2)]) (simp add: between_def)
  show ?thesis
  proof (rule givesI)
    fix w assume w: "bus_world w" "1 \<le> turns w"
    then obtain e v where v: "w = e # v" by (cases w) auto
    have f: "fetch_loop w s = (case await_out v (e ?s) of Inl x \<Rightarrow> Inl x | Inr (ok, s, w) \<Rightarrow> if ok then fetch_loop w s else Inr (False, s, w))"
      using n by (subst fetch_loop.simps) (simp add: v)
    show "\<exists>ok t w'. fetch_loop w s = Inr (ok, t, w') \<and> (ok \<and> conn (x # X) Y A m t \<and> UENUM t = 2 \<and> r_bank (eps t 2) \<noteq> []) \<and>
        bus_world w' \<and> turns w \<le> turns w' + 1"
    proof (cases "e = host_turn")
      case e: True
      have t: "between (x # X) Y A m (e ?s)" "bit (r_ueintx (eps (e ?s) 2)) FIFOCON" "r_bank (eps (e ?s) 2) \<noteq> []"
        using between_turn [OF c] fetched_packet_nonempty [OF c] e by simp_all
      then have "fetch_loop w s = Inr (True, e ?s, v)"
        using ends [OF t] by (simp add: f await_out_immediate [OF t(1,2)])
      then show ?thesis using ends [OF t] t(3) w(1) v e by (intro exI [of _ True] exI [of _ "e ?s"] exI [of _ v]) simp
    next
      case e: False
      then have q: "e = id \<or> e = sof \<or> e = collect 3" and v': "bus_world v" "1 \<le> turns v" using w v by auto
      have t: "between (x # X) Y A m (e ?s)" "\<not> bit (r_ueintx (eps (e ?s) 2)) FIFOCON"
        using c quiet_view [OF q, of ?s] by (simp_all add: between_def link_ok_view [OF quiet_view(1) [OF q]] link_view_eq unread_def)
      then have t2: "bit (r_ueintx (eps (e ?s) 2)) FIFOCON \<longrightarrow> r_bank (eps (e ?s) 2) \<noteq> []" by simp
      obtain ok u w' where u: "await_out v (e ?s) = Inr (ok, u, w')" "ok" "between (x # X) Y A m u" "bit (r_ueintx (eps u 2)) FIFOCON"
        "r_bank (eps u 2) \<noteq> []" "bus_world w'" "turns v \<le> turns w' + 1"
        using givesD [OF await_out_packet [OF t(1) t2] v'] by metis
      then have "fetch_loop w s = Inr (True, u, w')" using ends [OF u(3-5)] by (simp add: f)
      then show ?thesis using ends [OF u(3-5)] u v e by (intro exI [of _ True] exI [of _ u] exI [of _ w']) simp
    qed
  qed
qed

lemma fetch_gives:
  assumes "conn (x # X) Y A m s"
  shows "gives 1 (\<lambda>w. FetchNextCommandByte w s) (\<lambda>b t. b = x \<and> conn X Y A m t)"
proof -
  let ?s = "Endpoint_SelectEndpoint CDC_RX_EPNUM s"
  have "conn (x # X) Y A m ?s" using assms conn_view [of ?s s] by simp
  then have "gives (1 + 0) (\<lambda>w. FetchNextCommandByte w s) (\<lambda>b t. b = x \<and> conn X Y A m t)"
    unfolding FetchNextCommandByte_def
  proof (intro gives_bind [OF fetch_loop_gives])
    show "gives 0 (\<lambda>w. if ok then case Endpoint_Read_Byte t of (b, s) \<Rightarrow> Inr (b, s, w) else Inr (0, t, w)) (\<lambda>b t. b = x \<and> conn X Y A m t)"
      if "ok \<and> conn (x # X) Y A m t \<and> UENUM t = 2 \<and> r_bank (eps t 2) \<noteq> []" for ok t
    proof -
      have c: "conn (x # X) Y A m t" and u: "UENUM t = 2" and ne: "r_bank (eps t 2) \<noteq> []" using that by simp_all
      obtain xs where xs: "r_bank (eps t 2) = x # xs"
        using ne c by (cases "r_bank (eps t 2)") (auto simp: conn_def unread_def)
      let ?t = "upd_cur (\<lambda>ep. ep\<lparr>r_bank := xs\<rparr>) t"
      have "Endpoint_Read_Byte t = (x, ?t)" using xs u by (simp add: Endpoint_Read_Byte_def uedatx_read_Cons cur_def)
      moreover have "?t = upd_ep 2 (\<lambda>ep. ep\<lparr>r_bank := xs\<rparr>) t" using u by (simp add: upd_cur_def)
      moreover have "conn X Y A m (upd_ep 2 (\<lambda>ep. ep\<lparr>r_bank := xs\<rparr>) t)"
        using c xs by (auto simp: conn_def link_ok_def unread_def cdc_out_def ep_is_control_def ep_is_in_def ep_size_def)
      ultimately show ?thesis using that by (simp add: gives_return)
    qed
  qed simp_all
  then show ?thesis by simp
qed

section \<open>Responding\<close>

lemma ClearIN_conn:
  assumes "conn X Y A m s" "UENUM s = 1"
  shows "conn X Y A m (Endpoint_ClearIN s)" "UENUM (Endpoint_ClearIN s) = 1" "r_bank (eps (Endpoint_ClearIN s) 1) = []"
proof -
  have l: "link_ok s" using assms(1) by (simp add: conn_def)
  have e: "Endpoint_ClearIN s = upd_ep 1 ep_clear_in s" using assms(2) by (simp add: Endpoint_ops_cur upd_cur_def)
  have c: "cdc_in (eps s 1)" using l by (simp add: link_ok_def)
  have "bit (r_ueintx (ep_clear_in (eps s 1))) FIFOCON \<or> r_tx (ep_clear_in (eps s 1)) \<noteq> None"
    using c l ep_clear_in_again [of "eps s 1"] ep_clear_in_bulk [of "eps s 1"]
    by (cases "bit (r_ueintx (eps s 1)) FIFOCON") (simp_all add: cdc_in_def link_ok_def)
  then show "conn X Y A m (Endpoint_ClearIN s)" "UENUM (Endpoint_ClearIN s) = 1" "r_bank (eps (Endpoint_ClearIN s) 1) = []"
    using assms cdc_in_clear [OF c] by (simp_all add: e conn_def link_ok_def unread_def)
qed

lemma await_in_gives:
  assumes "conn X Y A m s" "UENUM s = 1" "r_bank (eps s 1) = []"
  shows "gives 1 (\<lambda>w. await_in w s) (\<lambda>ok t. ok \<and> conn X Y A m t \<and> UENUM t = 1 \<and> r_bank (eps t 1) = [] \<and>
    handed (eps t 1) = handed (eps s 1) \<and> ep_size (eps t 1) = ep_size (eps s 1) \<and> bit (r_ueintx (eps t 1)) FIFOCON)"
proof -
  let ?P = "\<lambda>t. conn X Y A m t \<and> UENUM t = 1 \<and> r_bank (eps t 1) = [] \<and> handed (eps t 1) = handed (eps s 1) \<and>
      ep_size (eps t 1) = ep_size (eps s 1)" and ?B = "\<lambda>s :: boot_link. bit (r_ueintx (eps s 1)) FIFOCON"
  have r: "Endpoint_IsINReady s = ?B s" "USB_DeviceState s \<noteq> DEVICE_STATE_Unattached" if "?P s" for s
    using that by (auto simp: Endpoint_flags cur_def conn_def link_ok_def cdc_in_def split: if_splits)
  have "gives 1 (\<lambda>w. await_in w s) (\<lambda>ok t. ok = True \<and> ?P t \<and> ?B t)"
    unfolding await_in_def
  proof (rule gives_poll [where a = True])
    show "?P (e t)" if "?P t" "e = id \<or> e = sof \<or> e = collect 3" for t e
      using that(1) quiet_view [OF that(2), of t] conn_view [OF quiet_view(1) [OF that(2)]] by (simp add: link_view_eq)
    show "?P (host_turn t) \<and> ?B (host_turn t)" if "?P t" "\<not> ?B t" for t
    proof -
      have l: "link_ok t" and f: "bit (r_ueintx (eps t 2)) FIFOCON" using that(1) by (simp_all add: conn_def)
      note h = turn_in(1-7,10) [OF l] turn_in(8) [OF l f]
      show ?thesis using that(1) h by (simp add: conn_def unread_def)
    qed
  qed (use assms in \<open>simp_all add: r\<close>)
  then show ?thesis by (rule gives_mono) simp_all
qed

lemma Write_Byte_conn:
  assumes "conn X Y A m s" "UENUM s = 1" "bit (r_ueintx (eps s 1)) FIFOCON" "length (r_bank (eps s 1)) < ep_size (eps s 1)"
  shows "conn X Y (A @ [b]) m (Endpoint_Write_Byte b s)"
proof -
  have c: "cdc_in (eps s 1)" using assms(1) by (simp add: conn_def link_ok_def)
  have "bit (r_ueintx (ep_push b (eps s 1))) FIFOCON" using assms(3) by (simp add: ep_push_def)
  then show ?thesis
    using assms cdc_in_push [OF c assms(3,4)] by (simp add: Endpoint_ops_cur upd_cur_def conn_def link_ok_def unread_def)
qed

lemma write_gives:
  assumes "conn X Y A m s"
  shows "gives 1 (\<lambda>w. WriteNextResponseByte b w s) (\<lambda>_. conn X Y (A @ [b]) m)"
proof -
  let ?s = "Endpoint_SelectEndpoint CDC_TX_EPNUM s"
  have c: "conn X Y A m ?s" using assms conn_view [of ?s s] by simp
  have i: "cdc_in (eps s 1)" using assms by (simp add: conn_def link_ok_def)
  show ?thesis
  proof (cases "Endpoint_IsReadWriteAllowed ?s")
    case True
    then have "bit (r_ueintx (eps ?s 1)) FIFOCON" "length (r_bank (eps ?s 1)) < ep_size (eps ?s 1)"
      using cdc_in_rwal [OF i] by (simp_all add: Endpoint_flags sel_in)
    then have "conn X Y (A @ [b]) m (Endpoint_Write_Byte b ?s)" by (intro Write_Byte_conn [OF c sel_in(1)])
    then show ?thesis using True by (simp add: WriteNextResponseByte_def gives_return)
  next
    case False
    note n = ClearIN_conn [OF c sel_in(1)]
    have "gives (1 + 0) (\<lambda>w. bind_run (await_in w (Endpoint_ClearIN ?s)) (\<lambda>ok s w. Inr ((), if ok then Endpoint_Write_Byte b s else s, w)))
        (\<lambda>_. conn X Y (A @ [b]) m)"
      by (intro gives_bind [OF await_in_gives [OF n]] gives_return) (simp add: Write_Byte_conn ep_size_def)
    then show ?thesis using False by (simp add: WriteNextResponseByte_def Let_def)
  qed
qed

lemma respond_gives:
  assumes "conn X Y A m s"
  shows "gives (length bs) (\<lambda>w. respond bs w s) (\<lambda>_. conn X Y (A @ bs) m)"
  using assms
proof (induction bs arbitrary: A s)
  case Nil
  then show ?case by (simp add: gives_return)
next
  case (Cons b bs)
  have "gives (1 + length bs) (\<lambda>w. respond (b # bs) w s) (\<lambda>_. conn X Y ((A @ [b]) @ bs) m)"
    unfolding respond.simps by (rule gives_bind [OF write_gives [OF Cons.prems]]) (rule Cons.IH)
  then show ?case by (simp add: One_nat_def del: respond.simps)
qed

section \<open>The end of a command\<close>

text \<open>Between commands: the host got all of \<open>A\<close> and has the packets \<open>Y\<close> to send, both banks are free.\<close>

definition at_rest :: "u8 list list \<Rightarrow> u8 list \<Rightarrow> boot_mem \<Rightarrow> boot_link \<Rightarrow> bool" where
  "at_rest Y A m s \<longleftrightarrow> link_ok s \<and> to_send s = Y \<and> r_bank (eps s 2) = [] \<and> \<not> bit (r_ueintx (eps s 2)) FIFOCON \<and>
     concat (r_sent (eps s 1)) = A \<and> r_tx (eps s 1) = None \<and> r_bank (eps s 1) = [] \<and> mem_of s = m"

text \<open>After a command the last packet the host got is a short one.\<close>

definition settled :: "u8 list list \<Rightarrow> u8 list \<Rightarrow> boot_mem \<Rightarrow> boot_link \<Rightarrow> bool" where
  "settled Y A m s \<longleftrightarrow> at_rest Y A m s \<and> r_sent (eps s 1) \<noteq> [] \<and> length (last (r_sent (eps s 1))) < ep_size (eps s 1)"

lemma ClearIN_handed:
  assumes "conn X Y A m s" "UENUM s = 1" "bit (r_ueintx (eps s 1)) FIFOCON"
  shows "handed (eps (Endpoint_ClearIN s) 1) = handed (eps s 1) @ [r_bank (eps s 1)]" "ep_size (eps (Endpoint_ClearIN s) 1) = ep_size (eps s 1)"
  using assms ep_clear_in_bulk [of "eps s 1"]
  by (simp_all add: conn_def link_ok_def cdc_in_def Endpoint_ops_cur upd_cur_def handed_def ep_size_def)

lemma last_wait_gives:
  assumes c: "conn [] Y A m s" "UENUM s = 1" "r_bank (eps s 1) = []"
    and h: "handed (eps s 1) \<noteq> []" "length (last (handed (eps s 1))) < ep_size (eps s 1)"
  shows "gives 1 (\<lambda>w. bind_run (await_in w s) (\<lambda>ok s w.
      Inr ((), if ok then Endpoint_ClearOUT (Endpoint_SelectEndpoint CDC_RX_EPNUM s) else s, w))) (\<lambda>_. settled Y A m)"
proof -
  have "gives (1 + 0) (\<lambda>w. bind_run (await_in w s) (\<lambda>ok s w.
      Inr ((), if ok then Endpoint_ClearOUT (Endpoint_SelectEndpoint CDC_RX_EPNUM s) else s, w))) (\<lambda>_. settled Y A m)"
  proof (intro gives_bind [OF await_in_gives [OF c]] gives_return)
    fix ok t
    assume t: "ok \<and> conn [] Y A m t \<and> UENUM t = 1 \<and> r_bank (eps t 1) = [] \<and> handed (eps t 1) = handed (eps s 1) \<and>
      ep_size (eps t 1) = ep_size (eps s 1) \<and> bit (r_ueintx (eps t 1)) FIFOCON"
    let ?t = "Endpoint_SelectEndpoint CDC_RX_EPNUM t" and ?u = "Endpoint_ClearOUT (Endpoint_SelectEndpoint CDC_RX_EPNUM t)"
    have l: "link_ok t" "cdc_in (eps t 1)" using t by (simp_all add: conn_def link_ok_def)
    then have tx: "r_tx (eps t 1) = None" using t by (simp add: cdc_in_def)
    have y: "to_send t = Y" "r_bank (eps t 2) = []"
      using t l(1) by (auto simp: conn_def unread_def link_ok_def)
    have ct: "conn [] Y A m ?t" "UENUM ?t = 2" "r_bank (eps ?t 2) = []" using t y conn_view [of ?t t] by simp_all
    have u: "eps ?u 1 = eps t 1" "r_bank (eps ?u 2) = []" "to_send ?u = to_send t"
      using cdc_out_clear [of "eps t 2"] l(1) by (simp_all add: Endpoint_ops_cur upd_cur_def link_ok_def)
        (simp_all add: upd_ep_def Endpoint_SelectEndpoint_def uenum_write_def)
    have "r_sent (eps t 1) = handed (eps s 1)" using t tx by (simp add: handed_def)
    moreover have "concat (r_sent (eps t 1)) = A" using t tx by (auto simp: conn_def tx_stream_def)
    ultimately have "settled Y A m ?u"
      using ClearOUT_between [OF ct] u y tx t h by (simp add: between_def settled_def at_rest_def)
    then show "settled Y A m (if ok then ?u else t)" using t by simp
  qed
  then show ?thesis by simp
qed

lemma finish_gives:
  assumes "conn [] Y A m s"
  shows "gives 2 (\<lambda>w. cdcboot_finish w s) (\<lambda>_. settled Y A m)"
proof -
  let ?s = "Endpoint_SelectEndpoint CDC_TX_EPNUM s"
  let ?t = "Endpoint_ClearIN ?s"
  have c: "conn [] Y A m ?s" using assms conn_view [of ?s s] by simp
  have i: "cdc_in (eps s 1)" using assms by (simp add: conn_def link_ok_def)
  note t = ClearIN_conn [OF c sel_in(1)]
  show ?thesis
  proof (cases "Endpoint_IsReadWriteAllowed ?s")
    case True
    then have "bit (r_ueintx (eps ?s 1)) FIFOCON" "length (r_bank (eps ?s 1)) < ep_size (eps ?s 1)"
      using cdc_in_rwal [OF i] by (simp_all add: Endpoint_flags)
    then have "gives 1 (\<lambda>w. bind_run (await_in w ?t) (\<lambda>ok s w.
        Inr ((), if ok then Endpoint_ClearOUT (Endpoint_SelectEndpoint CDC_RX_EPNUM s) else s, w))) (\<lambda>_. settled Y A m)"
      using ClearIN_handed [OF c sel_in(1)] by (intro last_wait_gives [OF t]) simp_all
    then show ?thesis using True by (simp add: cdcboot_finish_def Let_def) (rule gives_mono, assumption, simp_all)
  next
    case False
    have "gives (1 + 1) (\<lambda>w. bind_run (await_in w ?t) (\<lambda>ok s w.
        if ok then bind_run (await_in w (Endpoint_ClearIN s)) (\<lambda>ok s w.
          Inr ((), if ok then Endpoint_ClearOUT (Endpoint_SelectEndpoint CDC_RX_EPNUM s) else s, w))
        else Inr ((), s, w))) (\<lambda>_. settled Y A m)"
    proof (rule gives_bind [OF await_in_gives [OF t]])
      fix ok u
      assume u: "ok \<and> conn [] Y A m u \<and> UENUM u = 1 \<and> r_bank (eps u 1) = [] \<and> handed (eps u 1) = handed (eps ?t 1) \<and>
        ep_size (eps u 1) = ep_size (eps ?t 1) \<and> bit (r_ueintx (eps u 1)) FIFOCON"
      then have cu: "conn [] Y A m u" "UENUM u = 1" "bit (r_ueintx (eps u 1)) FIFOCON" by simp_all
      have "gives 1 (\<lambda>w. bind_run (await_in w (Endpoint_ClearIN u)) (\<lambda>ok s w.
          Inr ((), if ok then Endpoint_ClearOUT (Endpoint_SelectEndpoint CDC_RX_EPNUM s) else s, w))) (\<lambda>_. settled Y A m)"
        using ClearIN_handed [OF cu] u by (intro last_wait_gives [OF ClearIN_conn [OF cu(1,2)]]) (simp_all add: ep_size_def)
      then show "gives 1 (\<lambda>w. if ok then bind_run (await_in w (Endpoint_ClearIN u)) (\<lambda>ok s w.
          Inr ((), if ok then Endpoint_ClearOUT (Endpoint_SelectEndpoint CDC_RX_EPNUM s) else s, w)) else Inr ((), u, w)) (\<lambda>_. settled Y A m)"
        using u by simp
    qed
    then show ?thesis using False by (simp add: cdcboot_finish_def Let_def)
  qed
qed

end
