(* ===== verification/CdcBootCommands.thy ===== *)
theory CdcBootCommands
  imports CdcBootLink
begin

text \<open>
  The command set of the serial boot loader: what a command does to the memories and what is answered, as functions
  of the command and the memories alone, and that \<open>CDC_Task\<close> does exactly that, however the host splits the
  command into packets. Then what sequences of commands achieve, and where they do not do what they should.
\<close>

declare One_nat_def [simp]

section \<open>The commands\<close>

datatype avr_command =
  Escape | LeaveMode | EnterMode | SelectType u8 | ExitBoot | SupportedTypes | AutoIncrement | SetAddress u8 u8 | ProgrammerType |
  SoftwareId | SoftwareVersion | Signature | BlockSupport | ChipErase | SetLock u8 | ReadLock | ReadLowFuse | ReadHighFuse |
  ReadExtFuse | FillHigh u8 | FillLow u8 | WritePage | WriteFlash "u8 list" | WriteEeprom "u8 list" | ReadFlash u16 | ReadEeprom u16 |
  BadBlock bool u16 u8 | ReadWord | PutEeprom u8 | GetEeprom | Unknown u8

definition word_be :: "u16 \<Rightarrow> u8 list" where
  "word_be v = [ucast (drop_bit 8 v), ucast v]"

fun encode :: "avr_command \<Rightarrow> u8 list" where
  "encode Escape = [27]"
| "encode LeaveMode = ascii ''L''"
| "encode EnterMode = ascii ''P''"
| "encode (SelectType b) = ascii ''T'' @ [b]"
| "encode ExitBoot = ascii ''E''"
| "encode SupportedTypes = ascii ''t''"
| "encode AutoIncrement = ascii ''a''"
| "encode (SetAddress hi lo) = ascii ''A'' @ [hi, lo]"
| "encode ProgrammerType = ascii ''p''"
| "encode SoftwareId = ascii ''S''"
| "encode SoftwareVersion = ascii ''V''"
| "encode Signature = ascii ''s''"
| "encode BlockSupport = ascii ''b''"
| "encode ChipErase = ascii ''e''"
| "encode (SetLock b) = ascii ''l'' @ [b]"
| "encode ReadLock = ascii ''r''"
| "encode ReadLowFuse = ascii ''F''"
| "encode ReadHighFuse = ascii ''N''"
| "encode ReadExtFuse = ascii ''Q''"
| "encode (FillHigh b) = ascii ''C'' @ [b]"
| "encode (FillLow b) = ascii ''c'' @ [b]"
| "encode WritePage = ascii ''m''"
| "encode (WriteFlash d) = ascii ''B'' @ word_be (of_nat (length d)) @ ascii ''F'' @ d"
| "encode (WriteEeprom d) = ascii ''B'' @ word_be (of_nat (length d)) @ ascii ''E'' @ d"
| "encode (ReadFlash n) = ascii ''g'' @ word_be n @ ascii ''F''"
| "encode (ReadEeprom n) = ascii ''g'' @ word_be n @ ascii ''E''"
| "encode (BadBlock r n t) = (if r then ascii ''g'' else ascii ''B'') @ word_be n @ [t]"
| "encode ReadWord = ascii ''R''"
| "encode (PutEeprom b) = ascii ''D'' @ [b]"
| "encode GetEeprom = ascii ''d''"
| "encode (Unknown c) = [c]"

fun command_ok :: "avr_command \<Rightarrow> bool" where
  "command_ok (WriteFlash d) \<longleftrightarrow> length d < 65536"
| "command_ok (WriteEeprom d) \<longleftrightarrow> length d < 65536"
| "command_ok (BadBlock r n t) \<longleftrightarrow> [t] \<noteq> ascii ''E'' \<and> [t] \<noteq> ascii ''F''"
| "command_ok (Unknown c) \<longleftrightarrow> c \<noteq> 27 \<and> c \<notin> set (ascii ''LPTEtaApSVsbelrFNQCcmBgRDd'')"
| "command_ok _ \<longleftrightarrow> True"

section \<open>Their meaning\<close>

definition flash_byte :: "u32 \<Rightarrow> nat \<Rightarrow> nat" where
  "flash_byte a i = flash_at ((a + of_nat (2 * (i div 2))) OR of_bool (odd i))"

definition eeprom_byte :: "u32 \<Rightarrow> nat \<Rightarrow> nat" where
  "eeprom_byte a i = eeprom_at (a + of_nat (2 * i))"

text \<open>The addresses the erase loop visits are 257 apart.\<close>

definition erase_step :: "nat \<Rightarrow> flash \<Rightarrow> flash" where
  "erase_step k m = boot_page_write 256 (257 * k) (boot_page_erase 256 (257 * k) m)"

text \<open>The words of \<open>d\<close>, a last odd byte being dropped.\<close>

fun fill_words :: "u32 \<Rightarrow> u8 list \<Rightarrow> flash \<Rightarrow> flash" where
  "fill_words a (x # y # d) m = fill_words (a + 2) d (boot_page_fill 256 (flash_at a) (le_word [x, y]) m)"
| "fill_words a d m = m"

fun put_eeprom :: "u32 \<Rightarrow> u8 list \<Rightarrow> (nat \<Rightarrow> u8) \<Rightarrow> nat \<Rightarrow> u8" where
  "put_eeprom a [] e = e"
| "put_eeprom a (x # d) e = put_eeprom (a + 2) d (e(eeprom_at a := x))"

fun effect :: "avr_command \<Rightarrow> boot_mem \<Rightarrow> boot_mem" where
  "effect ExitBoot m = m\<lparr>bm_run := False\<rparr>"
| "effect (SetAddress hi lo) m = m\<lparr>bm_addr := or_low lo (set_high hi)\<rparr>"
| "effect ChipErase m = m\<lparr>bm_flash := fold erase_step [0..<479] (bm_flash m)\<rparr>"
| "effect (SetLock b) m = m\<lparr>bm_fuses := (bm_fuses m)(GET_LOCK_BITS := bm_fuses m GET_LOCK_BITS AND NOT (b AND 0x3C))\<rparr>"
| "effect (FillHigh b) m = m\<lparr>bm_flash := boot_page_fill 256 (flash_at (bm_addr m)) (ucast b) (bm_flash m)\<rparr>"
| "effect (FillLow b) m =
     m\<lparr>bm_flash := boot_page_fill 256 (flash_at (bm_addr m OR 1)) (ucast b) (bm_flash m), bm_addr := bm_addr m + 2\<rparr>"
| "effect WritePage m = m\<lparr>bm_flash := boot_page_write 256 (flash_at (bm_addr m)) (bm_flash m)\<rparr>"
| "effect (WriteFlash d) m =
     m\<lparr>bm_addr := bm_addr m + of_nat (2 * (length d div 2)),
       bm_flash := boot_page_write 256 (flash_at (bm_addr m)) (fill_words (bm_addr m) d (boot_page_erase 256 (flash_at (bm_addr m)) (bm_flash m)))\<rparr>"
| "effect (WriteEeprom d) m = m\<lparr>bm_addr := bm_addr m + of_nat (2 * length d), bm_eeprom := put_eeprom (bm_addr m) d (bm_eeprom m)\<rparr>"
| "effect (ReadFlash n) m = m\<lparr>bm_flash := boot_rww_enable (bm_flash m), bm_addr := bm_addr m + of_nat (2 * (unat n div 2))\<rparr>"
| "effect (ReadEeprom n) m = m\<lparr>bm_flash := boot_rww_enable (bm_flash m), bm_addr := bm_addr m + of_nat (2 * unat n)\<rparr>"
| "effect (PutEeprom b) m = m\<lparr>bm_eeprom := (bm_eeprom m)(eeprom_at (bm_addr m) := b), bm_addr := bm_addr m + 2\<rparr>"
| "effect GetEeprom m = m\<lparr>bm_addr := bm_addr m + 2\<rparr>"
| "effect _ m = m"

fun reply :: "avr_command \<Rightarrow> boot_mem \<Rightarrow> u8 list" where
  "reply Escape m = []"
| "reply SupportedTypes m = [0x44, 0]"
| "reply AutoIncrement m = ascii ''Y''"
| "reply ProgrammerType m = ascii ''S''"
| "reply SoftwareId m = ascii ''LUFACDC''"
| "reply SoftwareVersion m = ascii ''10''"
| "reply Signature m = [0x82, 0x97, 0x1E]"
| "reply BlockSupport m = ascii ''Y'' @ [1, 0]"
| "reply ReadLock m = [bm_fuses m GET_LOCK_BITS]"
| "reply ReadLowFuse m = [bm_fuses m GET_LOW_FUSE_BITS]"
| "reply ReadHighFuse m = [bm_fuses m GET_HIGH_FUSE_BITS]"
| "reply ReadExtFuse m = [bm_fuses m GET_EXTENDED_FUSE_BITS]"
| "reply (ReadFlash n) m = map (\<lambda>i. fl_mem (bm_flash m) (flash_byte (bm_addr m) i)) [0..<unat n]"
| "reply (ReadEeprom n) m = map (\<lambda>i. bm_eeprom m (eeprom_byte (bm_addr m) i)) [0..<unat n]"
| "reply (BadBlock r n t) m = ascii ''?''"
| "reply ReadWord m = word_be (pgm_read_word (flash_at (bm_addr m)) (bm_flash m))"
| "reply GetEeprom m = [bm_eeprom m (eeprom_at (bm_addr m))]"
| "reply (Unknown c) m = ascii ''?''"
| "reply _ m = [CR]"

section \<open>Rules\<close>

lemma fetch_then:
  assumes "conn (x # X) Y A m s" "\<And>t. conn X Y A m t \<Longrightarrow> gives k (\<lambda>w. G x t w) Q"
  shows "gives (Suc k) (\<lambda>w. bind_run (FetchNextCommandByte w s) G) Q"
proof -
  have "gives (1 + k) (\<lambda>w. bind_run (FetchNextCommandByte w s) G) Q"
    by (rule gives_bind [OF fetch_gives [OF assms(1)]]) (use assms(2) in blast)
  then show ?thesis by (simp add: One_nat_def)
qed

lemma write_then:
  assumes "conn X Y A m s" "\<And>t. conn X Y (A @ [b]) m t \<Longrightarrow> gives k (\<lambda>w. G () t w) Q"
  shows "gives (Suc k) (\<lambda>w. bind_run (WriteNextResponseByte b w s) G) Q"
proof -
  have "gives (1 + k) (\<lambda>w. bind_run (WriteNextResponseByte b w s) G) Q"
    by (rule gives_bind [OF write_gives [OF assms(1)]]) (use assms(2) in simp)
  then show ?thesis by (simp add: One_nat_def)
qed

lemma respond_ends:
  assumes "conn [] Y A m s" "length bs = k" "B = A @ bs"
  shows "gives k (\<lambda>w. respond bs w s) (\<lambda>_. conn [] Y B m)"
  using respond_gives [OF assms(1), of bs] assms(2,3) by simp

lemma write_ends:
  assumes "conn [] Y A m s" "B = A @ [b]"
  shows "gives (Suc 0) (\<lambda>w. WriteNextResponseByte b w s) (\<lambda>_. conn [] Y B m)"
  using write_gives [OF assms(1), of b] assms(2) by (simp add: One_nat_def)

text \<open>The memories are the part of the program the connection tells.\<close>

lemma conn_fields:
  assumes "conn X Y A m s"
  shows "CurrAddress s = bm_addr m" "cdcboot_RunBootloader s = bm_run m" "avr_Flash s = bm_flash m" "avr_Eeprom s = bm_eeprom m"
    "avr_LockFuse s = bm_fuses m"
  using assms by (auto simp: conn_def mem_of_def)

lemma conn_update:
  assumes "conn X Y A m s"
  shows "conn X Y A (m\<lparr>bm_addr := a\<rparr>) (s\<lparr>CurrAddress := a\<rparr>)"
    "conn X Y A (m\<lparr>bm_run := r\<rparr>) (s\<lparr>cdcboot_RunBootloader := r\<rparr>)"
    "conn X Y A (m\<lparr>bm_flash := f (bm_flash m)\<rparr>) (with_flash f s)"
    "conn X Y A (m\<lparr>bm_eeprom := e\<rparr>) (s\<lparr>avr_Eeprom := e\<rparr>)"
    "conn X Y A (m\<lparr>bm_fuses := l\<rparr>) (s\<lparr>avr_LockFuse := l\<rparr>)"
  using assms by (auto simp: conn_def link_ok_def unread_def mem_of_def with_flash_def)

section \<open>The loops\<close>

lemma chip_erase_fold:
  "k \<le> 479 \<Longrightarrow> chip_erase (of_nat (257 * k)) s = with_flash (fold erase_step [k..<479]) s"
proof (induction "479 - k" arbitrary: k s)
  case 0
  then show ?case by (subst chip_erase.simps) (simp add: BOOT_START_ADDR_def with_flash_def)
next
  case (Suc n)
  have u: "unat (of_nat (257 * k) :: u32) = 257 * k" using Suc.prems by (simp only: unat_of_nat) (simp add: take_bit_nat_eq_self)
  have "of_nat (257 * k) < BOOT_START_ADDR" using Suc.hyps(2) by (simp add: word_less_nat_alt u BOOT_START_ADDR_def del: of_nat_mult)
  moreover have "flash_at (of_nat (257 * k)) = 257 * k"
    using Suc.prems by (simp add: flash_at_def u FLASH_BYTES_def del: of_nat_mult)
  moreover have "(of_nat (257 * k) :: u32) + of_nat SPM_PAGESIZE + 1 = of_nat (257 * Suc k)" by (simp add: SPM_PAGESIZE_def)
  ultimately have "chip_erase (of_nat (257 * k)) s = chip_erase (of_nat (257 * Suc k)) (with_flash (erase_step k) s)"
    by (subst chip_erase.simps) (simp add: erase_step_def [abs_def] SPM_PAGESIZE_def with_flash_def del: of_nat_mult)
  also have "\<dots> = with_flash (fold erase_step [Suc k..<479]) (with_flash (erase_step k) s)"
    using Suc.hyps(2) by (intro Suc.hyps(1)) simp_all
  also have "\<dots> = with_flash (fold erase_step [k..<479]) s"
    using Suc.hyps(2) by (simp add: with_flash_def upt_conv_Cons del: upt_Suc)
  finally show ?case .
qed

lemma chip_erase_eq: "chip_erase 0 s = with_flash (fold erase_step [0..<479]) s"
  using chip_erase_fold [of 0 s] by (simp del: upt_Suc)

lemma fill_word_eq: "push_bit 8 (ucast y) OR ucast x = (le_word [x, y] :: u16)"
  by (simp add: or.commute)

lemma write_flash_gives:
  assumes "conn d Y A m s"
  shows "gives (length d) (\<lambda>w. write_block (length d) 0x46 False l w s)
    (\<lambda>_. conn [] Y A (m\<lparr>bm_addr := bm_addr m + of_nat (2 * (length d div 2)), bm_flash := fill_words (bm_addr m) d (bm_flash m)\<rparr>))"
  using assms
proof (induction "bm_addr m" d "bm_flash m" arbitrary: m s l rule: fill_words.induct)
  case (1 x y d)
  let ?f = "boot_page_fill 256 (flash_at (bm_addr m)) (le_word [x, y])"
  let ?m = "m\<lparr>bm_flash := ?f (bm_flash m), bm_addr := bm_addr m + 2\<rparr>"
  have ih: "gives (length d) (\<lambda>w. write_block (length d) 0x46 False l w t)
      (\<lambda>_. conn [] Y A (?m\<lparr>bm_addr := bm_addr ?m + of_nat (2 * (length d div 2)), bm_flash := fill_words (bm_addr ?m) d (bm_flash ?m)\<rparr>))"
    if "conn d Y A ?m t" for t l
    by (rule "1.hyps") (use that in simp_all)
  have step: "gives (Suc (length d)) (\<lambda>w. write_block (Suc (length d)) 0x46 True x w t)
      (\<lambda>_. conn [] Y A (?m\<lparr>bm_addr := bm_addr ?m + of_nat (2 * (length d div 2)), bm_flash := fill_words (bm_addr ?m) d (bm_flash ?m)\<rparr>))"
    if "conn (y # d) Y A m t" for t
    unfolding write_block.simps
  proof (rule fetch_then [OF that])
    fix u assume u: "conn d Y A m u"
    note c = conn_update(1) [OF conn_update(3) [OF u], of "bm_addr m + 2" ?f]
    show "gives (length d) (\<lambda>w. if (0x46 :: u8) = ch CHR ''F'' then (if True then
        (let s = with_flash (boot_page_fill SPM_PAGESIZE (flash_at (CurrAddress u)) (push_bit 8 (ucast y) OR ucast x)) u
         in write_block (length d) 0x46 False x w (s\<lparr>CurrAddress := CurrAddress s + 2\<rparr>))
        else write_block (length d) 0x46 True y w u)
      else write_block (length d) 0x46 True x w (u\<lparr>avr_Eeprom := (avr_Eeprom u)(eeprom_at (CurrAddress u) := y), CurrAddress := CurrAddress u + 2\<rparr>))
      (\<lambda>_. conn [] Y A (?m\<lparr>bm_addr := bm_addr ?m + of_nat (2 * (length d div 2)), bm_flash := fill_words (bm_addr ?m) d (bm_flash ?m)\<rparr>))"
      using ih [OF c, of x] conn_fields [OF u] conn_fields [OF conn_update(3) [OF u, of ?f]]
      by (simp add: fill_word_eq SPM_PAGESIZE_def del: le_word.simps)
  qed
  have "gives (Suc (Suc (length d))) (\<lambda>w. write_block (Suc (Suc (length d))) 0x46 False l w s)
      (\<lambda>_. conn [] Y A (?m\<lparr>bm_addr := bm_addr ?m + of_nat (2 * (length d div 2)), bm_flash := fill_words (bm_addr ?m) d (bm_flash ?m)\<rparr>))"
  proof (subst write_block.simps, rule fetch_then [OF "1.prems"], goal_cases)
    case (1 t)
    then show ?case using step [OF 1] by (simp del: write_block.simps)
  qed
  then show ?case by (simp add: algebra_simps del: write_block.simps)
next
  case "2_1"
  then show ?case by (simp add: gives_return)
next
  case "2_2"
  then show ?case
    by (simp add: One_nat_def) (rule fetch_then, assumption, simp add: gives_return)
qed

lemma write_eeprom_gives:
  assumes "conn d Y A m s"
  shows "gives (length d) (\<lambda>w. write_block (length d) 0x45 h l w s)
    (\<lambda>_. conn [] Y A (m\<lparr>bm_addr := bm_addr m + of_nat (2 * length d), bm_eeprom := put_eeprom (bm_addr m) d (bm_eeprom m)\<rparr>))"
  using assms
proof (induction d arbitrary: m s)
  case Nil
  then show ?case by (simp add: gives_return)
next
  case (Cons x d)
  let ?m = "m\<lparr>bm_eeprom := (bm_eeprom m)(eeprom_at (bm_addr m) := x), bm_addr := bm_addr m + 2\<rparr>"
  have "gives (Suc (length d)) (\<lambda>w. write_block (Suc (length d)) 0x45 h l w s)
     (\<lambda>_. conn [] Y A (?m\<lparr>bm_addr := bm_addr ?m + of_nat (2 * length d), bm_eeprom := put_eeprom (bm_addr ?m) d (bm_eeprom ?m)\<rparr>))"
  proof (subst write_block.simps, rule fetch_then [OF Cons.prems])
    fix t assume t: "conn d Y A m t"
    from Cons.IH [OF conn_update(1) [OF conn_update(4) [OF t]], of "bm_addr m + 2" "(bm_eeprom m)(eeprom_at (bm_addr m) := x)"]
    show "gives (length d) (\<lambda>w. if (0x45 :: u8) = ch CHR ''F'' then (if h then
        (let s = with_flash (boot_page_fill SPM_PAGESIZE (flash_at (CurrAddress t)) (push_bit 8 (ucast x) OR ucast l)) t
         in write_block (length d) 0x45 False l w (s\<lparr>CurrAddress := CurrAddress s + 2\<rparr>))
        else write_block (length d) 0x45 True x w t)
      else write_block (length d) 0x45 h l w (t\<lparr>avr_Eeprom := (avr_Eeprom t)(eeprom_at (CurrAddress t) := x), CurrAddress := CurrAddress t + 2\<rparr>))
      (\<lambda>_. conn [] Y A (?m\<lparr>bm_addr := bm_addr ?m + of_nat (2 * length d), bm_eeprom := put_eeprom (bm_addr ?m) d (bm_eeprom ?m)\<rparr>))"
      using conn_fields [OF t] by (simp add: fun_upd_def)
  qed
  then show ?case by (simp add: algebra_simps fun_upd_def del: write_block.simps)
qed

text \<open>A block of flash memory: byte \<open>i\<close> of the block, where the address counter has moved by the words before it.\<close>

lemma read_flash_gives:
  assumes "conn [] Y A (m\<lparr>bm_addr := a + of_nat (2 * (i div 2))\<rparr>) s" "\<not> fl_busy (bm_flash m)"
  shows "gives n (\<lambda>w. read_block n 0x46 (odd i) w s)
    (\<lambda>_. conn [] Y (A @ map (\<lambda>j. fl_mem (bm_flash m) (flash_byte a j)) [i..<i + n]) (m\<lparr>bm_addr := a + of_nat (2 * ((i + n) div 2))\<rparr>))"
  using assms(1)
proof (induction n arbitrary: i A s)
  case 0
  then show ?case by (simp add: gives_return)
next
  case (Suc n)
  have f: "CurrAddress s = a + of_nat (2 * (i div 2))" "avr_Flash s = bm_flash m" using conn_fields [OF Suc.prems] by simp_all
  have r: "pgm_read_byte (flash_at (CurrAddress s OR of_bool (odd i))) (avr_Flash s) = fl_mem (bm_flash m) (flash_byte a i)"
    using assms(2) by (simp add: pgm_read_byte_def flash_byte_def f)
  show ?case
  proof (subst read_block.simps, simp only: ch_simps refl if_True r, rule write_then [OF Suc.prems], goal_cases)
    case (1 t)
    let ?m = "m\<lparr>bm_addr := a + of_nat (2 * (Suc i div 2))\<rparr>" and ?t = "if odd i then t\<lparr>CurrAddress := CurrAddress t + 2\<rparr> else t"
    have "conn [] Y (A @ [fl_mem (bm_flash m) (flash_byte a i)]) ?m ?t"
    proof (cases "odd i")
      case True
      then have "2 * (Suc i div 2) = 2 * (i div 2) + 2" by presburger
      then have e: "a + of_nat (2 * (Suc i div 2)) = CurrAddress t + 2" using conn_fields(1) [OF 1] by simp
      show ?thesis unfolding e using conn_update(1) [OF 1, of "CurrAddress t + 2"] True by simp
    next
      case False
      then have e: "Suc i div 2 = i div 2" "?t = t" using False by (presburger, simp)
      show ?thesis unfolding e by (rule 1)
    qed
    from Suc.IH [OF this] show ?case by (simp add: upt_conv_Cons del: upt_Suc)
  qed
qed

lemma read_eeprom_gives:
  assumes "conn [] Y A (m\<lparr>bm_addr := a + of_nat (2 * i)\<rparr>) s"
  shows "gives n (\<lambda>w. read_block n 0x45 h w s)
    (\<lambda>_. conn [] Y (A @ map (\<lambda>j. bm_eeprom m (eeprom_byte a j)) [i..<i + n]) (m\<lparr>bm_addr := a + of_nat (2 * (i + n))\<rparr>))"
  using assms
proof (induction n arbitrary: i A s)
  case 0
  then show ?case by (simp add: gives_return)
next
  case (Suc n)
  have f: "CurrAddress s = a + of_nat (2 * i)" "avr_Eeprom s = bm_eeprom m" using conn_fields [OF Suc.prems] by simp_all
  have r: "avr_Eeprom s (eeprom_at (CurrAddress s)) = bm_eeprom m (eeprom_byte a i)"
    by (simp add: eeprom_byte_def f)
  have n: "(0x45 :: u8) \<noteq> 0x46" by simp
  show ?case
  proof (subst read_block.simps, simp only: ch_simps n if_False r, rule write_then [OF Suc.prems], goal_cases)
    case (1 t)
    have e: "a + of_nat (2 * Suc i) = CurrAddress t + 2" using conn_fields(1) [OF 1] by simp
    have "conn [] Y (A @ [bm_eeprom m (eeprom_byte a i)]) (m\<lparr>bm_addr := a + of_nat (2 * Suc i)\<rparr>) (t\<lparr>CurrAddress := CurrAddress t + 2\<rparr>)"
      unfolding e using conn_update(1) [OF 1, of "CurrAddress t + 2"] by simp
    from Suc.IH [OF this] show ?case by (simp add: upt_conv_Cons del: upt_Suc of_nat_mult)
  qed
qed

lemma block_size: "push_bit 8 (ucast (ucast (drop_bit 8 v) :: u8)) OR ucast (ucast v :: u8) = v" for v :: u16
proof -
  have "push_bit 8 (ucast (ucast (drop_bit 8 v) :: u8)) OR ucast (ucast v :: u8) = (le_word [ucast v, ucast (drop_bit 8 v)] :: u16)"
    by (simp add: or.commute)
  then show ?thesis using le_word_of_le_bytes(1) [of v] by simp
qed

section \<open>Every command\<close>

definition command_turns :: "avr_command \<Rightarrow> boot_mem \<Rightarrow> nat" where
  "command_turns c m = length (encode c) + length (reply c m)"

lemma ascii_simps [simp]: "ascii [] = []" "ascii (c # cs) = ch c # ascii cs"
  by (simp_all add: ascii_def ch_def)

text \<open>What \<open>ReadWriteMemoryBlock\<close> does after the size and the type of the memory were fetched.\<close>

abbreviation block_body :: "u8 \<Rightarrow> u8 \<Rightarrow> u16 \<Rightarrow> boot_link \<Rightarrow> boot_link world \<Rightarrow> (boot_link, unit) run" where
  "block_body c t n u w \<equiv>
     (if t \<noteq> 0x45 \<and> t \<noteq> 0x46 then WriteNextResponseByte 0x3F w u
      else if c = 0x67 then read_block (unat n) t False w (with_flash boot_rww_enable u)
      else
        let PageStartAddress = CurrAddress u;
            s = (if t = 0x46 then with_flash (boot_page_erase SPM_PAGESIZE (flash_at PageStartAddress)) u else u)
        in bind_run (write_block (unat n) t False 0 w s) (\<lambda>_ s w.
             let s = (if t = 0x46 then with_flash (boot_page_write SPM_PAGESIZE (flash_at PageStartAddress)) s else s)
             in WriteNextResponseByte CR w s))"

lemma block_gives:
  assumes "conn (word_be n @ t # d) Y A m s" "\<And>u. conn d Y A m u \<Longrightarrow> gives k (block_body c t n u) Q"
  shows "gives (k + 3) (\<lambda>w. ReadWriteMemoryBlock c w s) Q"
proof -
  have "gives (Suc (Suc (Suc k))) (\<lambda>w. ReadWriteMemoryBlock c w s) Q"
    unfolding ReadWriteMemoryBlock_def
  proof (rule fetch_then [OF assms(1) [unfolded word_be_def append.simps]], rule fetch_then, assumption, rule fetch_then, assumption)
    fix u assume "conn d Y A m u"
    from assms(2) [OF this]
    show "gives k (\<lambda>w. let BlockSize = (push_bit 8 (ucast (ucast (drop_bit 8 n) :: u8)) OR ucast (ucast n :: u8) :: u16)
       in if t \<noteq> ch CHR ''E'' \<and> t \<noteq> ch CHR ''F'' then WriteNextResponseByte (ch CHR ''?'') w u
          else if c = ch CHR ''g'' then read_block (unat BlockSize) t False w (with_flash boot_rww_enable u)
          else
            let PageStartAddress = CurrAddress u;
                s = (if t = ch CHR ''F'' then with_flash (boot_page_erase SPM_PAGESIZE (flash_at PageStartAddress)) u else u)
            in bind_run (write_block (unat BlockSize) t False 0 w s) (\<lambda>_ s w.
                 let s = (if t = ch CHR ''F'' then with_flash (boot_page_write SPM_PAGESIZE (flash_at PageStartAddress)) s else s)
                 in WriteNextResponseByte CR w s)) Q"
      by (simp only: block_size ch_simps Let_def)
  qed
  then show ?thesis by (simp add: numeral_3_eq_3)
qed

text \<open>What \<open>cdcboot_command\<close> runs for each command, and that it has the command's meaning.\<close>

lemma slack:
  assumes "gives k F (\<lambda>_. conn [] Y B m')" "k \<le> command_turns c m" "B = A @ reply c m" "m' = effect c m"
  shows "gives (command_turns c m) F (\<lambda>_. conn [] Y (A @ reply c m) (effect c m))"
  by (rule gives_mono [OF assms(1,2)]) (simp add: assms(3,4))

lemma answer_only:
  assumes "conn [] Y A m s" "reply c m = [b]" "effect c m = m" "F = (\<lambda>w. WriteNextResponseByte b w s)"
  shows "gives (command_turns c m) F (\<lambda>_. conn [] Y (A @ reply c m) (effect c m))"
  unfolding assms(4) by (rule slack [OF write_ends [OF assms(1) refl]]) (simp_all add: assms(2,3) command_turns_def)

lemma some_answers:
  assumes "conn [] Y A m s" "F = (\<lambda>w. respond (reply c m) w s)" "effect c m = m"
  shows "gives (command_turns c m) F (\<lambda>_. conn [] Y (A @ reply c m) (effect c m))"
  unfolding assms(2) by (rule slack [OF respond_ends [OF assms(1) refl refl]]) (simp_all add: assms(3) command_turns_def)

text \<open>An argument byte, then the answer.\<close>

lemma argument_then_answer:
  assumes "conn [x] Y A m s" "F = (\<lambda>w. bind_run (FetchNextCommandByte w s) (\<lambda>b s w. WriteNextResponseByte CR w (g b s)))"
    "\<And>t. conn [] Y A m t \<Longrightarrow> conn [] Y A (effect c m) (g x t)" "reply c m = [CR]" "2 \<le> length (encode c)"
  shows "gives (command_turns c m) F (\<lambda>_. conn [] Y (A @ reply c m) (effect c m))"
  unfolding assms(2)
  by (rule slack [OF fetch_then [OF assms(1)]], rule write_ends, erule assms(3), rule refl)
    (use assms(4,5) in \<open>simp_all add: command_turns_def\<close>)

lemma command_answer:
  assumes "conn (tl (encode c)) Y A m s"
    "c \<in> {LeaveMode, EnterMode, AutoIncrement, ProgrammerType, ReadLock, ReadLowFuse, ReadHighFuse, ReadExtFuse}"
  shows "gives (command_turns c m) (\<lambda>w. cdcboot_command (hd (encode c)) w s) (\<lambda>_. conn [] Y (A @ reply c m) (effect c m))"
proof -
  have c: "conn [] Y A m s" using assms by auto
  have "reply c m = [hd (reply c m)]" "effect c m = m" "cdcboot_command (hd (encode c)) w s = WriteNextResponseByte (hd (reply c m)) w s" for w
    using assms(2) conn_fields [OF c] by (auto simp: cdcboot_command_def)
  then show ?thesis by (intro answer_only [OF c, of c "hd (reply c m)"]) simp_all
qed

lemma command_answers:
  assumes "conn (tl (encode c)) Y A m s" "c \<in> {SupportedTypes, SoftwareId, SoftwareVersion, Signature, BlockSupport, ReadWord}"
  shows "gives (command_turns c m) (\<lambda>w. cdcboot_command (hd (encode c)) w s) (\<lambda>_. conn [] Y (A @ reply c m) (effect c m))"
proof -
  have c: "conn [] Y A m s" using assms by auto
  have r: "cdcboot_command (hd (encode c)) w s = respond (reply c m) w s" for w
    using assms(2) conn_fields(3) [OF c]
    by (elim insertE emptyE; simp add: cdcboot_command_def SOFTWARE_IDENTIFIER_def BOOTLOADER_VERSION_MAJOR_def
        BOOTLOADER_VERSION_MINOR_def AVR_SIGNATURE_def SPM_PAGESIZE_def word_be_def ucast_and_mask8 conn_fields(1) [OF c] Let_def
      del: respond.simps)
  have "effect c m = m" using assms(2) by auto
  then show ?thesis unfolding r by (intro some_answers [OF c refl])
qed

lemma command_argument:
  assumes "conn (tl (encode c)) Y A m s" "c \<in> {SelectType b, SetLock b, FillHigh b, FillLow b, PutEeprom b}"
  shows "gives (command_turns c m) (\<lambda>w. cdcboot_command (hd (encode c)) w s) (\<lambda>_. conn [] Y (A @ reply c m) (effect c m))"
proof -
  have c: "conn [b] Y A m s" using assms by auto
  obtain g where g: "\<And>w. cdcboot_command (hd (encode c)) w s = bind_run (FetchNextCommandByte w s) (\<lambda>b s w. WriteNextResponseByte CR w (g b s))"
    "\<And>t. conn [] Y A m t \<Longrightarrow> conn [] Y A (effect c m) (g b t)"
    using assms(2)
  proof (elim insertE emptyE, goal_cases)
    case 1
    then show thesis by (intro 1(1) [of "\<lambda>b s. s"]) (simp_all add: cdcboot_command_def)
  next
    case 2
    then show thesis
      using conn_update(5) conn_fields(5)
      by (intro 2(1) [of boot_lock_bits_set]) (simp_all add: cdcboot_command_def boot_lock_bits_set_def)
  next
    case 3
    then show thesis
      by (intro 3(1) [of "\<lambda>b s. with_flash (boot_page_fill SPM_PAGESIZE (flash_at (CurrAddress s)) (ucast b)) s"])
        (simp_all add: cdcboot_command_def conn_update(3) conn_fields(1) SPM_PAGESIZE_def)
  next
    case 4
    show thesis
    proof (rule 4(1))
      show "cdcboot_command (hd (encode c)) w s = bind_run (FetchNextCommandByte w s) (\<lambda>b s w. WriteNextResponseByte CR w
          ((with_flash (boot_page_fill SPM_PAGESIZE (flash_at (CurrAddress s OR 1)) (ucast b)) s)\<lparr>CurrAddress := CurrAddress s + 2\<rparr>))" for w
        using 4(2) by (simp add: cdcboot_command_def with_flash_def)
      show "conn [] Y A (effect c m) ((with_flash (boot_page_fill SPM_PAGESIZE (flash_at (CurrAddress t OR 1)) (ucast b)) t)\<lparr>CurrAddress := CurrAddress t + 2\<rparr>)"
        if "conn [] Y A m t" for t
        using conn_update(1) [OF conn_update(3) [OF that], of "bm_addr m + 2" "boot_page_fill 256 (flash_at (bm_addr m OR 1)) (ucast b)"]
          4(2) conn_fields(1) [OF that] by (simp add: SPM_PAGESIZE_def)
    qed
  next
    case 5
    show thesis
    proof (rule 5(1))
      show "cdcboot_command (hd (encode c)) w s = bind_run (FetchNextCommandByte w s) (\<lambda>b s w. WriteNextResponseByte CR w
          (s\<lparr>avr_Eeprom := (avr_Eeprom s)(eeprom_at (CurrAddress s) := b), CurrAddress := CurrAddress s + 2\<rparr>))" for w
        using 5(2) by (simp add: cdcboot_command_def)
      show "conn [] Y A (effect c m) (t\<lparr>avr_Eeprom := (avr_Eeprom t)(eeprom_at (CurrAddress t) := b), CurrAddress := CurrAddress t + 2\<rparr>)"
        if "conn [] Y A m t" for t
        using conn_update(1) [OF conn_update(4) [OF that], of "bm_addr m + 2" "(bm_eeprom m)(eeprom_at (bm_addr m) := b)"]
          5(2) conn_fields [OF that] by simp
    qed
  qed
  have "reply c m = [CR]" "2 \<le> length (encode c)" using assms(2) by auto
  then show ?thesis using g by (intro argument_then_answer [OF c, where g = g]) simp_all
qed

lemma command_effect:
  assumes "conn (tl (encode c)) Y A m s" "c \<in> {ExitBoot, ChipErase, WritePage}"
  shows "gives (command_turns c m) (\<lambda>w. cdcboot_command (hd (encode c)) w s) (\<lambda>_. conn [] Y (A @ reply c m) (effect c m))"
proof -
  have c: "conn [] Y A m s" using assms by auto
  obtain t where t: "\<And>w. cdcboot_command (hd (encode c)) w s = WriteNextResponseByte CR w t" "conn [] Y A (effect c m) t"
    using assms(2)
  proof (elim insertE emptyE, goal_cases)
    case 1
    show thesis by (rule 1(1)) (use 1(2) conn_update(2) [OF c, of False] in \<open>simp_all add: cdcboot_command_def\<close>)
  next
    case 2
    show thesis by (rule 2(1)) (use 2(2) conn_update(3) [OF c] in \<open>simp_all add: cdcboot_command_def chip_erase_eq del: upt_Suc\<close>)
  next
    case 3
    show thesis
      by (rule 3(1)) (use 3(2) conn_update(3) [OF c] conn_fields(1) [OF c] in \<open>simp_all add: cdcboot_command_def SPM_PAGESIZE_def\<close>)
  qed
  have "reply c m = [CR]" "1 \<le> length (encode c)" using assms(2) by auto
  then show ?thesis unfolding t(1) by (intro slack [OF write_ends [OF t(2) refl]]) (simp_all add: command_turns_def)
qed

lemma command_address:
  assumes "conn [hi, lo] Y A m s"
  shows "gives 3 (\<lambda>w. cdcboot_command 0x41 w s) (\<lambda>_. conn [] Y (A @ [CR]) (m\<lparr>bm_addr := or_low lo (set_high hi)\<rparr>))"
proof -
  have r: "cdcboot_command 0x41 w s = bind_run (FetchNextCommandByte w s) (\<lambda>hi s w.
        bind_run (FetchNextCommandByte w (s\<lparr>CurrAddress := set_high hi\<rparr>)) (\<lambda>lo s w.
          WriteNextResponseByte CR w (s\<lparr>CurrAddress := or_low lo (CurrAddress s)\<rparr>)))" for w
    by (simp add: cdcboot_command_def)
  have "gives (Suc (Suc (Suc 0))) (\<lambda>w. cdcboot_command 0x41 w s) (\<lambda>_. conn [] Y (A @ [CR]) (m\<lparr>bm_addr := or_low lo (set_high hi)\<rparr>))"
    unfolding r
  proof (rule fetch_then [OF assms], rule fetch_then, erule conn_update(1), rule write_ends)
    fix t u assume "conn [] Y A (m\<lparr>bm_addr := set_high hi\<rparr>) u"
    then show "conn [] Y A (m\<lparr>bm_addr := or_low lo (set_high hi)\<rparr>) (u\<lparr>CurrAddress := or_low lo (CurrAddress u)\<rparr>)"
      using conn_update(1) [of "[]" Y A "m\<lparr>bm_addr := set_high hi\<rparr>" u "or_low lo (CurrAddress u)"] conn_fields(1) by fastforce
  qed simp
  then show ?thesis by (simp add: numeral_3_eq_3)
qed

lemma command_get_eeprom:
  assumes "conn [] Y A m s"
  shows "gives 1 (\<lambda>w. cdcboot_command 0x64 w s) (\<lambda>_. conn [] Y (A @ [bm_eeprom m (eeprom_at (bm_addr m))]) (m\<lparr>bm_addr := bm_addr m + 2\<rparr>))"
proof -
  have r: "cdcboot_command 0x64 w s = bind_run (WriteNextResponseByte (bm_eeprom m (eeprom_at (bm_addr m))) w s)
      (\<lambda>_ s w. Inr ((), s\<lparr>CurrAddress := CurrAddress s + 2\<rparr>, w))" for w
    using conn_fields [OF assms] by (simp add: cdcboot_command_def)
  show ?thesis
    unfolding r One_nat_def
  proof (rule write_then [OF assms], rule gives_return)
    fix t assume "conn [] Y (A @ [bm_eeprom m (eeprom_at (bm_addr m))]) m t"
    from conn_update(1) [OF this, of "bm_addr m + 2"] conn_fields(1) [OF this]
    show "conn [] Y (A @ [bm_eeprom m (eeprom_at (bm_addr m))]) (m\<lparr>bm_addr := bm_addr m + 2\<rparr>) (t\<lparr>CurrAddress := CurrAddress t + 2\<rparr>)" by simp
  qed
qed

text \<open>The four block commands and the one with a wrong memory type.\<close>

lemma command_block:
  "c = 0x42 \<or> c = 0x67 \<Longrightarrow> cdcboot_command c w s = ReadWriteMemoryBlock c w s"
  by (auto simp: cdcboot_command_def)

lemma block_length: "n < 65536 \<Longrightarrow> unat (of_nat n :: u16) = n"
  by (simp add: unat_of_nat take_bit_nat_eq_self)

lemma command_write_flash:
  assumes "conn (word_be (of_nat (length d)) @ 0x46 # d) Y A m s" "length d < 65536"
  shows "gives (length d + 1 + 3) (\<lambda>w. ReadWriteMemoryBlock 0x42 w s) (\<lambda>_. conn [] Y (A @ [CR]) (effect (WriteFlash d) m))"
proof (rule block_gives [OF assms(1)])
  fix u assume u: "conn d Y A m u"
  let ?e = "boot_page_erase 256 (flash_at (bm_addr m))" and ?w = "boot_page_write 256 (flash_at (bm_addr m))"
  have "gives (length d + 1) (\<lambda>w. bind_run (write_block (length d) 0x46 False 0 w (with_flash ?e u)) (\<lambda>_ s w.
      WriteNextResponseByte CR w (with_flash ?w s))) (\<lambda>_. conn [] Y (A @ [CR]) (effect (WriteFlash d) m))"
  proof (rule gives_bind [OF write_flash_gives [OF conn_update(3) [OF u, of ?e]]], goal_cases)
    case (1 a s)
    from write_ends [OF conn_update(3) [OF 1, of ?w] refl] show ?case by simp
  qed
  then show "gives (length d + 1) (block_body 0x42 0x46 (of_nat (length d)) u) (\<lambda>_. conn [] Y (A @ [CR]) (effect (WriteFlash d) m))"
    using conn_fields(1) [OF u] by (simp add: block_length [OF assms(2)] SPM_PAGESIZE_def Let_def)
qed

lemma command_write_eeprom:
  assumes "conn (word_be (of_nat (length d)) @ 0x45 # d) Y A m s" "length d < 65536"
  shows "gives (length d + 1 + 3) (\<lambda>w. ReadWriteMemoryBlock 0x42 w s) (\<lambda>_. conn [] Y (A @ [CR]) (effect (WriteEeprom d) m))"
proof (rule block_gives [OF assms(1)])
  fix u assume u: "conn d Y A m u"
  have "gives (length d + 1) (\<lambda>w. bind_run (write_block (length d) 0x45 False 0 w u) (\<lambda>_ s w. WriteNextResponseByte CR w s))
      (\<lambda>_. conn [] Y (A @ [CR]) (effect (WriteEeprom d) m))"
  proof (rule gives_bind [OF write_eeprom_gives [OF u]], goal_cases)
    case (1 a s)
    from write_ends [OF 1 refl] show ?case by simp
  qed
  then show "gives (length d + 1) (block_body 0x42 0x45 (of_nat (length d)) u) (\<lambda>_. conn [] Y (A @ [CR]) (effect (WriteEeprom d) m))"
    by (simp add: block_length [OF assms(2)] Let_def)
qed

lemma command_read_flash:
  assumes "conn (word_be n @ [0x46]) Y A m s"
  shows "gives (unat n + 3) (\<lambda>w. ReadWriteMemoryBlock 0x67 w s) (\<lambda>_. conn [] Y (A @ reply (ReadFlash n) m) (effect (ReadFlash n) m))"
proof (rule block_gives [OF assms])
  fix u assume u: "conn [] Y A m u"
  let ?m = "m\<lparr>bm_flash := boot_rww_enable (bm_flash m)\<rparr>"
  have m: "\<not> fl_busy (bm_flash ?m)" "fl_mem (boot_rww_enable (bm_flash m)) = fl_mem (bm_flash m)" by (simp_all add: boot_rww_enable_def)
  have "conn [] Y A (?m\<lparr>bm_addr := bm_addr m + of_nat (2 * (0 div 2))\<rparr>) (with_flash boot_rww_enable u)"
    using conn_update(3) [OF u, of boot_rww_enable] by simp
  from read_flash_gives [OF this m(1), of "unat n"]
  show "gives (unat n) (block_body 0x67 0x46 n u) (\<lambda>_. conn [] Y (A @ reply (ReadFlash n) m) (effect (ReadFlash n) m))"
    by (simp add: m(2) del: upt_Suc)
qed

lemma command_read_eeprom:
  assumes "conn (word_be n @ [0x45]) Y A m s"
  shows "gives (unat n + 3) (\<lambda>w. ReadWriteMemoryBlock 0x67 w s) (\<lambda>_. conn [] Y (A @ reply (ReadEeprom n) m) (effect (ReadEeprom n) m))"
proof (rule block_gives [OF assms])
  fix u assume u: "conn [] Y A m u"
  let ?m = "m\<lparr>bm_flash := boot_rww_enable (bm_flash m)\<rparr>"
  have "conn [] Y A (?m\<lparr>bm_addr := bm_addr m + of_nat (2 * 0)\<rparr>) (with_flash boot_rww_enable u)"
    using conn_update(3) [OF u, of boot_rww_enable] by simp
  from read_eeprom_gives [OF this, of "unat n" False]
  show "gives (unat n) (block_body 0x67 0x45 n u) (\<lambda>_. conn [] Y (A @ reply (ReadEeprom n) m) (effect (ReadEeprom n) m))"
    by (simp del: upt_Suc)
qed

lemma command_bad_block:
  assumes "conn (word_be n @ [t]) Y A m s" "t \<noteq> 0x45" "t \<noteq> 0x46"
  shows "gives (1 + 3) (\<lambda>w. ReadWriteMemoryBlock c w s) (\<lambda>_. conn [] Y (A @ [0x3F]) m)"
  by (rule block_gives [OF assms(1)]) (use assms(2,3) write_ends in simp)

lemma command_gives:
  assumes "conn (tl (encode c)) Y A m s" "command_ok c"
  shows "gives (command_turns c m) (\<lambda>w. cdcboot_command (hd (encode c)) w s) (\<lambda>_. conn [] Y (A @ reply c m) (effect c m))"
proof (cases c)
  case Escape
  then show ?thesis using assms(1) by (simp add: cdcboot_command_def gives_return)
next
  case (SetAddress hi lo)
  from command_address [of hi lo Y A m s] show ?thesis
    using assms(1) SetAddress by (intro slack [of 3]) (simp_all add: command_turns_def)
next
  case GetEeprom
  from command_get_eeprom [of Y A m s] show ?thesis
    using assms(1) GetEeprom by (intro slack [of 1]) (simp_all add: command_turns_def)
next
  case (WriteFlash d)
  from command_write_flash [of d Y A m s] show ?thesis
    using assms WriteFlash by (intro slack [of "length d + 1 + 3"]) (simp_all add: command_turns_def command_block word_be_def)
next
  case (WriteEeprom d)
  from command_write_eeprom [of d Y A m s] show ?thesis
    using assms WriteEeprom by (intro slack [of "length d + 1 + 3"]) (simp_all add: command_turns_def command_block word_be_def)
next
  case (ReadFlash n)
  from command_read_flash [of n Y A m s] show ?thesis
    using assms ReadFlash by (intro slack [of "unat n + 3"]) (simp_all add: command_turns_def command_block word_be_def)
next
  case (ReadEeprom n)
  from command_read_eeprom [of n Y A m s] show ?thesis
    using assms ReadEeprom by (intro slack [of "unat n + 3"]) (simp_all add: command_turns_def command_block word_be_def)
next
  case (BadBlock r n t)
  from command_bad_block [of n t Y A m s "hd (encode c)"] show ?thesis
    using assms BadBlock by (intro slack [of "1 + 3"]) (auto simp: command_turns_def command_block word_be_def)
next
  case (Unknown x)
  then have "cdcboot_command x w s = WriteNextResponseByte 0x3F w s" for w
    using assms(2) by (simp add: cdcboot_command_def)
  moreover have "conn [] Y A m s" using assms(1) Unknown by simp
  ultimately show ?thesis using Unknown by (intro answer_only [where b = "0x3F"]) simp_all
next
  case (SelectType b)
  then show ?thesis using command_argument [OF assms(1), of b] by simp
next
  case (SetLock b)
  then show ?thesis using command_argument [OF assms(1), of b] by simp
next
  case (FillHigh b)
  then show ?thesis using command_argument [OF assms(1), of b] by simp
next
  case (FillLow b)
  then show ?thesis using command_argument [OF assms(1), of b] by simp
next
  case (PutEeprom b)
  then show ?thesis using command_argument [OF assms(1), of b] by simp
qed ((rule command_answer [OF assms(1)], (simp; fail)) | (rule command_answers [OF assms(1)], (simp; fail)) |
  (rule command_effect [OF assms(1)], (simp; fail)))+

end
