(* ===== verification/CdcBootSession.thy ===== *)
theory CdcBootSession
  imports CdcBootCommands
begin

text \<open>
  Sessions with the serial boot loader: every command is carried out and answered, as part of its main loop, and what
  sequences of commands do to the flash memory.
\<close>

declare One_nat_def [simp del]

section \<open>One command\<close>

lemma encode_Cons: "encode c = hd (encode c) # tl (encode c)"
  by (cases c) simp_all

lemma task_gives:
  assumes "conn (encode c) Y A m s" "command_ok c"
  shows "gives (command_turns c m + 3) (\<lambda>w. CDC_Task w s) (\<lambda>_. settled Y (A @ reply c m) (effect c m))"
proof -
  let ?s = "Endpoint_SelectEndpoint CDC_RX_EPNUM s"
  have s: "conn (hd (encode c) # tl (encode c)) Y A m ?s"
    using assms(1) conn_view [of ?s s] encode_Cons [of c] by simp
  have "Endpoint_IsOUTReceived ?s"
    using assms(1) by (simp add: Endpoint_flags conn_def link_ok_def cdc_out_def)
  then have t: "CDC_Task w s = bind_run (FetchNextCommandByte w ?s) (\<lambda>Command s w.
      bind_run (cdcboot_command Command w s) (\<lambda>_ s w. cdcboot_finish w s))" for w
    by (simp add: CDC_Task_def)
  have "gives (Suc (command_turns c m + 2)) (\<lambda>w. CDC_Task w s) (\<lambda>_. settled Y (A @ reply c m) (effect c m))"
    unfolding t
  proof (rule fetch_then [OF s])
    fix t assume "conn (tl (encode c)) Y A m t"
    from command_gives [OF this assms(2)]
    show "gives (command_turns c m + 2) (\<lambda>w. bind_run (cdcboot_command (hd (encode c)) w t) (\<lambda>_ s w. cdcboot_finish w s))
        (\<lambda>_. settled Y (A @ reply c m) (effect c m))"
      by (rule gives_bind) (rule finish_gives)
  qed
  then show ?thesis by (simp add: numeral_3_eq_3)
qed

text \<open>C32: Every command of the protocol, in whatever packets the host sends its bytes, is carried out by one call of the
  task: it returns after a bounded number of the host's turns, the memories are those of the command's meaning, and the
  host has got exactly the command's reply, ended by a short packet; the endpoint is free for the next command.\<close>

theorem cdcboot_command_done:
  assumes "conn (encode c) Y A m s" "command_ok c" "bus_world w" "length (encode c) + length (reply c m) + 3 \<le> turns w"
  shows "\<exists>s' w'. CDC_Task w s = Inr ((), s', w') \<and> settled Y (A @ reply c m) (effect c m) s'"
proof -
  have "command_turns c m + 3 \<le> turns w" using assms(4) by (simp add: command_turns_def)
  from givesD [OF task_gives [OF assms(1,2)] assms(3) this] show ?thesis by (metis (full_types) old.unit.exhaust)
qed

section \<open>Sessions\<close>

text \<open>The main loop, a pass at a time, the host and the bus acting between and during the passes.\<close>

inductive boot_run :: "boot_link app \<Rightarrow> boot_link \<Rightarrow> boot_link \<Rightarrow> bool" for app s where
  start: "boot_run app s s"
| pass: "boot_run app s t \<Longrightarrow> cdcboot_RunBootloader t \<Longrightarrow> bus_world w \<Longrightarrow> cdcboot_loop 1 app w t = Inr (b, t', w') \<Longrightarrow> boot_run app s t'"
| turn: "boot_run app s t \<Longrightarrow> boot_run app s (host_turn t)"

fun effects :: "avr_command list \<Rightarrow> boot_mem \<Rightarrow> boot_mem" where
  "effects [] m = m"
| "effects (c # cs) m = effects cs (effect c m)"

fun replies :: "avr_command list \<Rightarrow> boot_mem \<Rightarrow> u8 list" where
  "replies [] m = []"
| "replies (c # cs) m = reply c m @ replies cs (effect c m)"

lemma boot_run_trans: "boot_run app t u \<Longrightarrow> boot_run app s t \<Longrightarrow> boot_run app s u"
  by (induction rule: boot_run.induct) (auto intro: boot_run.intros)

lemma at_rest_turn:
  assumes "at_rest ((p # ps) @ Y) A m s"
  shows "conn (concat (p # ps)) Y A m (host_turn s)"
proof -
  have l: "link_ok s" and f: "\<not> bit (r_ueintx (eps s 2)) FIFOCON" and q: "to_send s = p # (ps @ Y)"
    using assms by (simp_all add: at_rest_def)
  note t = turn_in(1-7) [OF l] turn_in(9) [OF l f q]
  have "tx_stream (eps s 1) = A" "mem_of s = m" using assms by (simp_all add: at_rest_def tx_stream_def)
  then show ?thesis using t by (simp add: conn_def unread_def)
qed

text \<open>One command in the main loop: a turn of the host, then a pass.\<close>

lemma boot_run_command:
  assumes "at_rest (ps @ Y) A m s" "concat ps = encode c" "command_ok c" "bm_run m"
  shows "\<exists>t. boot_run app s t \<and> settled Y (A @ reply c m) (effect c m) t"
proof -
  obtain q qs where q: "ps = q # qs" using assms(2) encode_Cons [of c] by (cases ps) auto
  have c: "conn (encode c) Y A m (host_turn s)" using at_rest_turn [of q qs Y A m s] assms(1,2) q by simp
  define w where "w = replicate (command_turns c m + 3) host_turn"
  obtain t v where t: "CDC_Task w (host_turn s) = Inr ((), t, v)" "settled Y (A @ reply c m) (effect c m) t" "bus_world v"
    using givesD [OF task_gives [OF c assms(3)], of w] by (auto simp: w_def)
  obtain n where "USB_USBTask app v t = Inr ((), t\<lparr>UENUM := n\<rparr>, v)"
    using idle_device_task [of t app v] t(2) by (auto simp: settled_def at_rest_def link_ok_def)
  moreover have run: "cdcboot_RunBootloader (host_turn s)" using c assms(4) by (simp add: conn_fields)
  ultimately have "cdcboot_loop 1 app w (host_turn s) = Inr (\<not> cdcboot_RunBootloader t, t\<lparr>UENUM := n\<rparr>, v)"
    using t(1) by (simp add: One_nat_def)
  moreover have "bus_world w" by (simp add: w_def)
  ultimately have "boot_run app s (t\<lparr>UENUM := n\<rparr>)"
    by (rule boot_run.pass [OF boot_run.turn [OF boot_run.start] run, rotated])
  moreover have "link_ok (t\<lparr>UENUM := n\<rparr>) = link_ok t" by (rule link_ok_view) simp
  moreover have "mem_of (t\<lparr>UENUM := n\<rparr>) = mem_of t" by (simp add: mem_of_def)
  ultimately have "boot_run app s (t\<lparr>UENUM := n\<rparr>) \<and> settled Y (A @ reply c m) (effect c m) (t\<lparr>UENUM := n\<rparr>)"
    using t(2) by (simp add: settled_def at_rest_def)
  then show ?thesis by blast
qed

lemma effect_run: "c \<noteq> ExitBoot \<Longrightarrow> bm_run (effect c m) = bm_run m"
  by (cases c) simp_all

lemma boot_session:
  assumes "at_rest (concat qs) A m s" "list_all2 (\<lambda>ps c. concat ps = encode c) qs cs" "list_all command_ok cs"
    "ExitBoot \<notin> set (butlast cs)" "bm_run m"
  shows "\<exists>t. boot_run app s t \<and> at_rest [] (A @ replies cs m) (effects cs m) t"
  using assms
proof (induction cs arbitrary: qs A m s)
  case Nil
  then show ?case using boot_run.start by auto
next
  case (Cons c cs)
  obtain ps qs' where qs: "qs = ps # qs'" "concat ps = encode c" "list_all2 (\<lambda>ps c. concat ps = encode c) qs' cs"
    using Cons.prems(2) by (cases qs) auto
  have k: "command_ok c" "list_all command_ok cs" "at_rest (ps @ concat qs') A m s" using Cons.prems(1,3) qs(1) by simp_all
  obtain t where t: "boot_run app s t" "at_rest (concat qs') (A @ reply c m) (effect c m) t"
    using boot_run_command [OF k(3) qs(2) k(1) Cons.prems(5)] unfolding settled_def by blast
  show ?case
  proof (cases "cs = []")
    case True
    then show ?thesis using t qs(3) by (intro exI [of _ t]) simp
  next
    case False
    then have "bm_run (effect c m)" "ExitBoot \<notin> set (butlast cs)" using Cons.prems(4,5) effect_run [of c m] by auto
    from Cons.IH [OF t(2) qs(3) k(2) this(2,1)] show ?thesis using boot_run_trans [OF _ t(1)] by auto
  qed
qed

section \<open>Addresses\<close>

lemma flash_at_take_bit: "flash_at a = unat (take_bit 17 a)"
  unfolding unsigned_take_bit_eq by (simp add: flash_at_def FLASH_BYTES_def take_bit_eq_mod)

lemma address_bits:
  "take_bit 17 (or_low lo (set_high hi)) =
     push_bit 9 (take_bit 7 (ucast hi)) OR (push_bit 1 (ucast lo) OR push_bit 16 (of_bool (bit hi 6)) :: u32)"
proof (rule bit_eqI)
  fix n
  have e: "bit (signed (push_bit k (ucast b :: u16)) :: u32) n \<longleftrightarrow> n < 32 \<and> bit (push_bit k (ucast b :: u16)) (min 15 n)" for k n and b :: u8
    by (simp add: bit_simps)
  show "bit (take_bit 17 (or_low lo (set_high hi))) n =
      bit (push_bit 9 (take_bit 7 (ucast hi)) OR (push_bit 1 (ucast lo) OR push_bit 16 (of_bool (bit hi 6)) :: u32)) n"
  proof -
    consider "n < 15" | "n = 15" | "n = 16" | "16 < n" by linarith
    then show ?thesis
      by cases (auto simp: or_low_def set_high_def bit_or_iff bit_take_bit_iff e bit_push_bit_iff bit_ucast_iff min_def bit_of_bool_iff
          dest: bit_imp_le_length)
  qed
qed

text \<open>
  Where the address command leads: from the two bytes of a word address, bit 7 of the high one is lost, and bit 6, the
  sign of the shifted value, is extended into bit 16 of the address.
\<close>

lemma unat_ucast_u32: "unat (ucast b :: u32) = unat b" for b :: u8
  using unat_less_u8 [of b] by (simp add: unsigned_ucast_eq take_bit_nat_eq_self)

lemma address_reached:
  "flash_at (or_low lo (set_high hi)) = 512 * (unat hi mod 128) + 2 * unat lo + (if bit hi 6 then 65536 else 0)"
proof -
  let ?a = "push_bit 9 (take_bit 7 (ucast hi)) :: u32" and ?b = "push_bit 1 (ucast lo) :: u32" and ?c = "push_bit 16 (of_bool (bit hi 6)) :: u32"
  have "?b + ?c = ?b OR ?c" by (rule disjunctive_add) (auto simp: bit_push_bit_iff bit_ucast_iff bit_of_bool_iff dest: bit_imp_le_length)
  moreover have "?a + (?b OR ?c) = ?a OR (?b OR ?c)"
    by (rule disjunctive_add) (auto simp: bit_push_bit_iff bit_ucast_iff bit_of_bool_iff bit_or_iff bit_take_bit_iff dest: bit_imp_le_length)
  ultimately have d: "?a OR (?b OR ?c) = ?a + (?b + ?c)" by simp
  have h: "unat (take_bit 7 (ucast hi :: u32)) = unat hi mod 128"
    unfolding unsigned_take_bit_eq unat_ucast_u32 by (simp add: take_bit_eq_mod)
  have x: "unat ?a = 512 * (unat hi mod 128)"
    unfolding push_bit_eq_mult by (simp add: unat_word_ariths h)
  have y: "unat ?b = 2 * unat lo"
    using unat_less_u8 [of lo] unfolding push_bit_eq_mult by (simp add: unat_word_ariths unat_ucast_u32)
  have z: "unat ?c = (if bit hi 6 then 65536 else 0)" by simp
  have sum: "unat (a + (b + c)) = unat a + (unat b + unat c)" if "unat a + (unat b + unat c) < 2 ^ 32" for a b c :: u32
    using that by (simp add: unat_word_ariths)
  have "unat hi mod 128 < 128" by simp
  then have "unat ?a + (unat ?b + unat ?c) < 2 ^ 32" unfolding x y z using unat_less_u8 [of lo] by (cases "bit hi 6") simp_all
  from sum [OF this] show ?thesis unfolding flash_at_take_bit address_bits d x y z by simp
qed

lemma bit_6_iff: "bit hi 6 \<longleftrightarrow> 64 \<le> unat hi mod 128" for hi :: u8
proof -
  have m: "unat hi mod 128 = 64 * (unat hi div 64 mod 2) + unat hi mod 64" using mod_mult2_eq [of "unat hi" 64 2] by simp
  have "bit hi 6 \<longleftrightarrow> bit (unat hi) 6" by (simp add: bit_unsigned_iff)
  also have "\<dots> \<longleftrightarrow> unat hi div 64 mod 2 = 1" by (simp add: bit_iff_odd odd_iff_mod_2_eq_one)
  also have "\<dots> \<longleftrightarrow> 64 \<le> unat hi mod 128" unfolding m by (cases "unat hi div 64 mod 2 = 1") (simp_all add: not_mod_2_eq_1_eq_0)
  finally show ?thesis .
qed

lemma address_named:
  "unat hi < 64 \<or> 192 \<le> unat hi \<Longrightarrow> flash_at (or_low lo (set_high hi)) = 2 * (256 * unat hi + unat lo)"
  using unat_less_u8 [of hi] by (auto simp: address_reached bit_6_iff mod_if)

text \<open>C35: The address command leads to the address its two bytes name, a word address, only in the first and the last quarter
  of the 64K words the two bytes can name; in between it leads somewhere else.\<close>

theorem cdcboot_address_range:
  "flash_at (or_low lo (set_high hi)) = 2 * (256 * unat hi + unat lo) \<longleftrightarrow> unat hi < 64 \<or> 192 \<le> unat hi"
proof -
  have "unat hi < 256" by (rule unat_less_u8)
  moreover have "unat hi mod 128 = (if unat hi < 128 then unat hi else unat hi - 128)" if "unat hi < 256"
    using that by (simp add: mod_if)
  ultimately show ?thesis
    by (auto simp: address_reached bit_6_iff)
qed

section \<open>Erasing the chip\<close>

declare One_nat_def [simp]

lemma write_clean:
  assumes "fl_buf m = (\<lambda>_. None)"
  shows "fl_mem (erase_step k m) = (\<lambda>i. if i div 256 = 257 * k div 256 then 0xFF else fl_mem m i)" "fl_buf (erase_step k m) = (\<lambda>_. None)"
  using assms by (simp_all add: erase_step_def boot_page_write_def boot_page_erase_def buf_byte_def fun_eq_iff)

lemma erase_steps:
  assumes "fl_buf m = (\<lambda>_. None)"
  shows "fl_mem (fold erase_step ks m) i = (if \<exists>k \<in> set ks. i div 256 = 257 * k div 256 then 0xFF else fl_mem m i)"
  using assms
proof (induction ks arbitrary: m)
  case (Cons k ks)
  show ?case using Cons.IH [OF write_clean(2) [OF Cons.prems]] write_clean(1) [OF Cons.prems] by simp
qed simp

lemma pages_visited: "(\<exists>k < 479. p = 257 * k div 256) \<longleftrightarrow> p < 480 \<and> p \<noteq> 256" for p :: nat
proof -
  have k: "257 * k div 256 = k + k div 256" for k :: nat
    using div_mult_self1 [of 256 k k] by (simp add: algebra_simps)
  have d: "k < 479 \<Longrightarrow> k div 256 = (if k < 256 then 0 else 1)" for k :: nat
    by (simp add: div_nat_eqI)
  show ?thesis
  proof
    assume "\<exists>k < 479. p = 257 * k div 256"
    then obtain j where "j < 479" "p = j + j div 256" by (auto simp: k)
    then show "p < 480 \<and> p \<noteq> 256" using d [of j] by (simp split: if_splits)
  next
    assume p: "p < 480 \<and> p \<noteq> 256"
    show "\<exists>k < 479. p = 257 * k div 256"
    proof (cases "p < 256")
      case True
      then show ?thesis using d [of p] by (intro exI [of _ p]) (simp add: k)
    next
      case False
      then obtain j where "p = j + 1" "256 \<le> j" "j < 479" using p by (intro that [of "p - 1"]) auto
      then show ?thesis using d [of j] by (intro exI [of _ j]) (simp add: k)
    qed
  qed
qed

text \<open>C34: The chip erase command, with an empty page buffer, leaves the page from address 0x10000 as it was; it erases every
  other page of the application section and touches nothing of the boot loader's own.\<close>

theorem cdcboot_erase_skips_page:
  assumes "fl_buf (avr_Flash s) = (\<lambda>_. None)"
  shows "fl_mem (avr_Flash (chip_erase 0 s)) i =
    (if i < unat BOOT_START_ADDR \<and> \<not> (0x10000 \<le> i \<and> i < 0x10100) then 0xFF else fl_mem (avr_Flash s) i)"
proof -
  have "(\<exists>k \<in> set [0..<479]. i div 256 = 257 * k div 256) \<longleftrightarrow> i div 256 < 480 \<and> i div 256 \<noteq> 256"
    using pages_visited [of "i div 256"] by auto
  also have "\<dots> \<longleftrightarrow> i < 122880 \<and> \<not> (65536 \<le> i \<and> i < 65792)"
    by (auto simp: div_less_iff_less_mult div_nat_eqI)
  finally show ?thesis
    using erase_steps [OF assms, of "[0..<479]" i] by (simp add: chip_erase_eq with_flash_def BOOT_START_ADDR_def del: upt_Suc)
qed

section \<open>Programming\<close>

lemma flash_at_plus:
  assumes "256 dvd flash_at a" "j < 256"
  shows "flash_at (a + of_nat j) = flash_at a + j" "flash_at (a + of_nat j) mod 256 = j"
proof -
  have j: "unat (of_nat j :: u32) = j" using assms(2) by (simp add: unat_of_nat take_bit_nat_eq_self)
  have "flash_at (a + of_nat j) = (unat a + j) mod FLASH_BYTES"
    unfolding flash_at_def FLASH_BYTES_def unat_word_ariths j by (rule mod_mod_cancel) simp
  also have "\<dots> = (flash_at a + j) mod FLASH_BYTES"
    unfolding flash_at_def by (rule mod_add_left_eq [symmetric])
  also have "\<dots> = flash_at a + j"
  proof -
    obtain q where q: "flash_at a = 256 * q" using assms(1) by blast
    have "flash_at a < FLASH_BYTES" by (simp add: flash_at_def FLASH_BYTES_def)
    then have "flash_at a + j < FLASH_BYTES" using assms(2) by (simp add: q FLASH_BYTES_def)
    then show ?thesis by simp
  qed
  finally show "flash_at (a + of_nat j) = flash_at a + j" .
  then show "flash_at (a + of_nat j) mod 256 = j" using assms by (metis mod_add_self1 dvd_imp_mod_0 mod_add_left_eq add_0 mod_less)
qed

lemma fill_words_buffer:
  assumes "256 dvd flash_at a" "fl_buf m = buf_of b" "even (length b)" "even (length d)" "length b + length d \<le> 256"
  shows "fill_words (a + of_nat (length b)) d m = m\<lparr>fl_buf := buf_of (b @ d)\<rparr>"
  using assms(2-5)
proof (induction d arbitrary: b m rule: induct_list012)
  case (3 x y d)
  have "length b < 256" using "3.prems"(4) by simp
  then have f: "boot_page_fill 256 (flash_at (a + of_nat (length b))) (le_word [x, y]) m = m\<lparr>fl_buf := buf_of (b @ [x, y])\<rparr>"
    using "3.prems"(1,2) flash_at_plus(2) [OF assms(1)] by (intro boot_page_fill_buf_of) simp_all
  have "a + of_nat (length b) + 2 = a + of_nat (length (b @ [x, y]))" by simp
  then show ?case using "3.IH"(1) [of "m\<lparr>fl_buf := buf_of (b @ [x, y])\<rparr>" "b @ [x, y]"] "3.prems" by (simp add: f ac_simps del: le_word.simps)
qed simp_all

lemma flash_byte_at:
  assumes "256 dvd flash_at a" "i < 256"
  shows "flash_byte a i = flash_at a + i"
proof -
  have "odd a \<longleftrightarrow> odd (unat a)" using bit_unsigned_iff [where ?'a = nat, of a 0] by (simp add: bit_0)
  moreover have "even (flash_at a)" using assms(1) by (rule dvd_trans [rotated]) simp
  ultimately have e: "even a" by (simp add: flash_at_def FLASH_BYTES_def dvd_mod_iff)
  have "(a + of_nat (2 * (i div 2))) OR of_bool (odd i) = a + of_nat i"
  proof (cases "odd i")
    case True
    then have "i = 2 * (i div 2) + 1" by presburger
    then have "(of_nat i :: u32) = of_nat (2 * (i div 2)) + 1" by (metis of_nat_Suc Suc_eq_plus1 add.commute)
    then show ?thesis using True e by (simp add: or_one_eq)
  qed (simp add: e)
  then show ?thesis using flash_at_plus(1) [OF assms] by (simp add: flash_byte_def)
qed

text \<open>A page written with the block command at the start of a page, from a clear page buffer.\<close>

lemma write_flash_image:
  assumes "256 dvd flash_at (bm_addr m)" "fl_buf (bm_flash m) = (\<lambda>_. None)" "d \<noteq> []" "even (length d)" "length d \<le> 256"
  shows "fl_mem (bm_flash (effect (WriteFlash d) m)) = flash_image 256 (flash_at (bm_addr m)) d (fl_mem (bm_flash m))"
    "fl_buf (bm_flash (effect (WriteFlash d) m)) = (\<lambda>_. None)"
proof -
  let ?e = "boot_page_erase 256 (flash_at (bm_addr m)) (bm_flash m)"
  have "fl_buf ?e = buf_of []" using assms(2) by (simp add: buf_of_def fun_eq_iff)
  from fill_words_buffer [OF assms(1) this] have f: "fill_words (bm_addr m) d ?e = ?e\<lparr>fl_buf := buf_of d\<rparr>"
    using assms(4,5) by simp
  have "fl_mem (boot_page_write 256 (flash_at (bm_addr m) + 0) (?e\<lparr>fl_buf := buf_of d\<rparr>)) =
      flash_image 256 (flash_at (bm_addr m)) d (fl_mem (bm_flash m))"
    using assms by (intro boot_page_write_image) (simp_all add: flash_image_Nil)
  then show "fl_mem (bm_flash (effect (WriteFlash d) m)) = flash_image 256 (flash_at (bm_addr m)) d (fl_mem (bm_flash m))"
    by (simp add: f)
  show "fl_buf (bm_flash (effect (WriteFlash d) m)) = (\<lambda>_. None)" by (simp add: buf_of_def fun_eq_iff)
qed

lemma set_address_page:
  assumes "lo = 0 \<or> lo = 0x80"
  shows "256 dvd flash_at (or_low lo (set_high hi))"
proof -
  have "256 dvd 2 * unat lo" using assms by auto
  moreover have "256 dvd (if bit hi 6 then 65536 else 0 :: nat)" by simp
  moreover have "256 dvd 512 * (unat hi mod 128)" by (rule dvd_mult2) simp
  ultimately show ?thesis unfolding address_reached by (intro dvd_add)
qed

definition program_and_verify :: "u8 \<Rightarrow> u8 \<Rightarrow> u8 list \<Rightarrow> avr_command list" where
  "program_and_verify hi lo d = [SetAddress hi lo, WriteFlash d, SetAddress hi lo, ReadFlash (of_nat (length d))]"

lemma program_and_verify_effects:
  assumes "lo = 0 \<or> lo = 0x80" "fl_buf (bm_flash m) = (\<lambda>_. None)" "d \<noteq> []" "even (length d)" "length d \<le> 256"
  shows "replies (program_and_verify hi lo d) m = [CR, CR, CR] @ d"
    "fl_mem (bm_flash (effects (program_and_verify hi lo d) m)) = flash_image 256 (flash_at (or_low lo (set_high hi))) d (fl_mem (bm_flash m))"
    "\<not> fl_busy (bm_flash (effects (program_and_verify hi lo d) m))"
proof -
  let ?a = "or_low lo (set_high hi)"
  let ?m1 = "m\<lparr>bm_addr := ?a\<rparr>"
  let ?m2 = "effect (WriteFlash d) ?m1"
  note p = set_address_page [OF assms(1), of hi]
  have w: "fl_mem (bm_flash ?m2) = flash_image 256 (flash_at ?a) d (fl_mem (bm_flash m))"
    using write_flash_image(1) [of ?m1 d] p assms(2-5) by simp
  have n: "unat (of_nat (length d) :: u16) = length d" using assms(5) by (simp add: unat_of_nat take_bit_nat_eq_self)
  have r: "map (\<lambda>i. fl_mem (bm_flash ?m2) (flash_byte ?a i)) [0..<length d] = d"
  proof (rule nth_equalityI)
    fix i assume "i < length (map (\<lambda>i. fl_mem (bm_flash ?m2) (flash_byte ?a i)) [0..<length d])"
    then have i: "i < length d" by simp
    then have "flash_byte ?a i = flash_at ?a + i" using assms(5) by (intro flash_byte_at [OF p]) simp
    then show "map (\<lambda>i. fl_mem (bm_flash ?m2) (flash_byte ?a i)) [0..<length d] ! i = d ! i"
      using i by (simp add: w flash_image_def del: effect.simps)
  qed simp
  show "replies (program_and_verify hi lo d) m = [CR, CR, CR] @ d"
    using r by (simp add: program_and_verify_def n del: upt_Suc)
  show "fl_mem (bm_flash (effects (program_and_verify hi lo d) m)) = flash_image 256 (flash_at ?a) d (fl_mem (bm_flash m))"
    "\<not> fl_busy (bm_flash (effects (program_and_verify hi lo d) m))"
    using w by (simp_all add: program_and_verify_def boot_rww_enable_def)
qed

text \<open>C33: The host programs at most one page and reads it back: an even number of bytes, from 2 to 256, with the page buffer
  empty before, to the start of a page (the low byte of its word address is 0 or 0x80), each command's bytes in any packets of its own. There is a
  run of the boot loader's main loop in which it gets three acknowledgements and then exactly the bytes it sent; the flash
  memory then has those bytes at the page the address command leads to, the rest of the page erased and everything else as
  it was. That page is the one the two bytes name where the high byte is below 64 or at least 192, and another one for the
  high bytes in between (C35).\<close>

theorem cdcboot_program_roundtrip:
  assumes "at_rest (concat qs) A m s" "map concat qs = map encode (program_and_verify hi lo d)" "bm_run m"
    "lo = 0 \<or> lo = 0x80" "fl_buf (bm_flash m) = (\<lambda>_. None)" "d \<noteq> []" "even (length d)" "length d \<le> 256"
  shows "\<exists>t. boot_run app s t \<and> concat (r_sent (eps t 1)) = A @ [CR, CR, CR] @ d \<and> to_send t = [] \<and>
    fl_mem (avr_Flash t) = flash_image 256 (flash_at (or_low lo (set_high hi))) d (fl_mem (bm_flash m)) \<and> \<not> fl_busy (avr_Flash t) \<and>
    (unat hi < 64 \<or> 192 \<le> unat hi \<longrightarrow> flash_at (or_low lo (set_high hi)) = 2 * (256 * unat hi + unat lo))"
proof -
  let ?cs = "program_and_verify hi lo d"
  have l: "list_all2 (\<lambda>ps c. concat ps = encode c) qs ?cs"
    using assms(2) by (simp add: list_all2_conv_all_nth list_eq_iff_nth_eq)
  have ok: "list_all command_ok ?cs" "ExitBoot \<notin> set (butlast ?cs)" using assms(8) by (simp_all add: program_and_verify_def)
  obtain t where t: "boot_run app s t" "at_rest [] (A @ replies ?cs m) (effects ?cs m) t"
    using boot_session [OF assms(1) l ok assms(3)] by blast
  have "mem_of t = effects ?cs m" using t(2) by (simp add: at_rest_def)
  then have "avr_Flash t = bm_flash (effects ?cs m)" by (metis boot_mem.select_convs(3) mem_of_def)
  then show ?thesis
    using t program_and_verify_effects [OF assms(4-8), of hi] address_named [of hi lo] by (intro exI [of _ t]) (simp add: at_rest_def)
qed

section \<open>Where the commands fall short\<close>

text \<open>
  The two fill commands are for the two bytes of a word: they put each byte as a word of its own, and the second to come
  of two for the same word is lost.
\<close>

lemma fill_commands_split_word:
  assumes "fl_buf (bm_flash m) = (\<lambda>_. None)" "bm_addr m = 0"
  shows "fl_buf (bm_flash (effects [FillHigh h, FillLow l] m)) = (\<lambda>_. None)(0 := Some (ucast h))"
    "fl_buf (bm_flash (effects [FillLow l, FillHigh h] m)) = (\<lambda>_. None)(0 := Some (ucast l), 1 := Some (ucast h))"
  using assms by (simp_all add: boot_page_fill_def flash_at_def FLASH_BYTES_def fun_eq_iff)

text \<open>The lock bits \<open>b\<close> are taken for a mask: those the host wants set are cleared.\<close>

lemma lock_bits_inverted:
  assumes "bit b n" "n \<in> {2, 3, 4, 5}"
  shows "\<not> bit (bm_fuses (effect (SetLock b) m) GET_LOCK_BITS) n"
proof -
  have "bit (0x3C :: u8) n" using assms(2) by auto
  moreover have "bm_fuses (effect (SetLock b) m) GET_LOCK_BITS = bm_fuses m GET_LOCK_BITS AND NOT (b AND 0x3C)" by simp
  ultimately show ?thesis using assms(1) by (simp only: bit_and_iff bit_not_iff simp_thms)
qed

text \<open>The word command reads before the memory was enabled again.\<close>

lemma read_word_busy:
  assumes "fl_busy (bm_flash m)"
  shows "reply ReadWord m = word_be (le_word [fl_junk (bm_flash m) (flash_at (bm_addr m)), fl_junk (bm_flash m) (flash_at (bm_addr m) + 1)])"
  using assms by (simp add: pgm_read_word_def pgm_read_byte_def del: le_word.simps)

section \<open>Instances\<close>

definition link_demo :: "u8 list list \<Rightarrow> boot_link" where
  "link_demo qs = cdcboot.extend
     (cdcboot_start (dev_reset\<lparr>USB_DeviceState := 4, eps := (\<lambda>_. ep_none)
         (1 := ep_none\<lparr>r_ueconx := 1, r_uecfg0x := 0x81, r_uecfg1x := 0x12, r_ueintx := set_bit FIFOCON (set_bit TXINI 0)\<rparr>,
          2 := ep_none\<lparr>r_ueconx := 1, r_uecfg0x := 0x80, r_uecfg1x := 0x12\<rparr>)\<rparr>)
       \<lparr>fl_mem = (\<lambda>_. 0x12), fl_buf = (\<lambda>_. None), fl_busy = False, fl_junk = (\<lambda>_. 0)\<rparr> (\<lambda>_. 0) (\<lambda>_. 0xFF))
     \<lparr>to_send = qs\<rparr>"

definition mem_demo :: boot_mem where
  "mem_demo = \<lparr>bm_addr = 0, bm_run = True, bm_flash = \<lparr>fl_mem = (\<lambda>_. 0x12), fl_buf = (\<lambda>_. None), fl_busy = False, fl_junk = (\<lambda>_. 0)\<rparr>,
     bm_eeprom = (\<lambda>_. 0), bm_fuses = (\<lambda>_. 0xFF)\<rparr>"

lemma link_demo_at_rest:
  assumes "\<forall>p \<in> set qs. p \<noteq> [] \<and> length p \<le> 16"
  shows "at_rest qs [] mem_demo (link_demo qs)"
  using assms
  by (simp add: at_rest_def link_ok_def link_demo_def mem_of_def mem_demo_def cdcboot_start_def cdcboot.defs usb_dev.defs usb_hw.defs dev_reset_def
      hw_reset_def cdc_in_def cdc_out_def ep_none_def ep_is_control_def ep_is_in_def ep_size_def reg_bits device_state_defs drop_bit_eq_div)

theorem cdcboot_program_roundtrip_witness:
  "\<exists>t. boot_run (cdcboot_app (\<lambda>_ _. ([], 0))) (link_demo [[0x41], [0, 0x80], [0x42, 0, 2, 0x46, 0xAB, 0xCD], [0x41, 0, 0x80], [0x67, 0, 2, 0x46]]) t \<and>
    concat (r_sent (eps t 1)) = [13, 13, 13, 0xAB, 0xCD] \<and> fl_mem (avr_Flash t) 0x101 = 0xCD \<and> flash_at (or_low 0x80 (set_high 0)) = 0x100"
proof -
  let ?qs = "[[[0x41], [0, 0x80]], [[0x42, 0, 2, 0x46, 0xAB, 0xCD]], [[0x41, 0, 0x80]], [[0x67, 0, 2, 0x46]]] :: u8 list list list"
  have r: "at_rest (concat ?qs) [] mem_demo (link_demo (concat ?qs))" by (rule link_demo_at_rest) simp
  have e: "map concat ?qs = map encode (program_and_verify 0 0x80 [0xAB, 0xCD])"
    by (simp add: program_and_verify_def word_be_def)
  have m: "bm_run mem_demo" "fl_buf (bm_flash mem_demo) = (\<lambda>_. None)" by (simp_all add: mem_demo_def)
  from cdcboot_program_roundtrip [OF r e m(1) _ m(2), of "cdcboot_app (\<lambda>_ _. ([], 0))"] obtain t where
    "boot_run (cdcboot_app (\<lambda>_ _. ([], 0))) (link_demo (concat ?qs)) t" "concat (r_sent (eps t 1)) = [] @ [CR, CR, CR] @ [0xAB, 0xCD]"
    "fl_mem (avr_Flash t) = flash_image 256 (flash_at (or_low 0x80 (set_high 0))) [0xAB, 0xCD] (fl_mem (bm_flash mem_demo))"
    and a: "flash_at (or_low 0x80 (set_high 0)) = 0x100"
    by auto
  then show ?thesis by (intro exI [of _ t]) (simp add: a flash_image_def CR_def)
qed

theorem cdcboot_erase_skips_page_witness:
  "fl_mem (avr_Flash (chip_erase 0 (link_demo []))) 0x10080 = 0x12 \<and> fl_mem (avr_Flash (chip_erase 0 (link_demo []))) 0x1DFFF = 0xFF"
proof -
  have "fl_buf (avr_Flash (link_demo [])) = (\<lambda>_. None)" "fl_mem (avr_Flash (link_demo [])) = (\<lambda>_. 0x12)"
    by (simp_all add: link_demo_def cdcboot_start_def cdcboot.defs usb_dev.defs usb_hw.defs dev_reset_def hw_reset_def)
  then show ?thesis
    using cdcboot_erase_skips_page [of "link_demo []" "0x10080"] cdcboot_erase_skips_page [of "link_demo []" "0x1DFFF"]
    by (simp add: BOOT_START_ADDR_def)
qed

theorem cdcboot_command_done_witness:
  "\<exists>s' w'. CDC_Task (replicate 20 host_turn) (host_turn (link_demo [[0x53]])) = Inr ((), s', w') \<and>
    concat (r_sent (eps s' 1)) = ascii ''LUFACDC''"
proof -
  have "at_rest ([[0x53]] @ []) [] mem_demo (link_demo [[0x53]])" using link_demo_at_rest [of "[[0x53]]"] by simp
  from at_rest_turn [OF this] have "conn (encode SoftwareId) [] [] mem_demo (host_turn (link_demo [[0x53]]))" by simp
  from cdcboot_command_done [OF this, of "replicate 20 host_turn"] show ?thesis
    by (auto simp: settled_def at_rest_def)
qed

end
