(* ===== verification/Dataflash.thy ===== *)
theory Dataflash
  imports Prelude
begin

text \<open>
  The driver of the two AT45DB642D memories of the USBKEY board: \<open>Drivers/Board/Dataflash.h\<close>,
  \<open>Drivers/Board/USBKEY/Dataflash.h\<close> and the byte transfers of \<open>Drivers/Peripheral/SPI.h\<close>. A transfer over the
  SPI port always completes. The first section states how a memory reacts to the bytes it gets, after its data
  sheet, for the commands the code sends.
\<close>

section \<open>Commands\<close>

definition DF_STATUS_READY :: u8 where "DF_STATUS_READY = push_bit 7 1"
definition DF_STATUS_SECTORPROTECTION_ON :: u8 where "DF_STATUS_SECTORPROTECTION_ON = push_bit 1 1"
definition DF_MANUFACTURER_ATMEL :: u8 where "DF_MANUFACTURER_ATMEL = 0x1F"
definition DF_CMD_GETSTATUS :: u8 where "DF_CMD_GETSTATUS = 0xD7"
definition DF_CMD_MAINMEMTOBUFF1 :: u8 where "DF_CMD_MAINMEMTOBUFF1 = 0x53"
definition DF_CMD_MAINMEMTOBUFF2 :: u8 where "DF_CMD_MAINMEMTOBUFF2 = 0x55"
definition DF_CMD_MAINMEMPAGEREAD :: u8 where "DF_CMD_MAINMEMPAGEREAD = 0xD2"
definition DF_CMD_BUFF1WRITE :: u8 where "DF_CMD_BUFF1WRITE = 0x84"
definition DF_CMD_BUFF2WRITE :: u8 where "DF_CMD_BUFF2WRITE = 0x87"
definition DF_CMD_BUFF1TOMAINMEMWITHERASE :: u8 where "DF_CMD_BUFF1TOMAINMEMWITHERASE = 0x83"
definition DF_CMD_BUFF2TOMAINMEMWITHERASE :: u8 where "DF_CMD_BUFF2TOMAINMEMWITHERASE = 0x86"
definition DF_CMD_SECTORPROTECTIONOFF :: "u8 list" where "DF_CMD_SECTORPROTECTIONOFF = [0x3D, 0x2A, 0x7F, 0x9A]"
definition DF_CMD_READMANUFACTURERDEVICEINFO :: u8 where "DF_CMD_READMANUFACTURERDEVICEINFO = 0x9F"

lemmas df_command_defs = DF_CMD_GETSTATUS_def DF_CMD_MAINMEMTOBUFF1_def DF_CMD_MAINMEMTOBUFF2_def DF_CMD_MAINMEMPAGEREAD_def
  DF_CMD_BUFF1WRITE_def DF_CMD_BUFF2WRITE_def DF_CMD_BUFF1TOMAINMEMWITHERASE_def DF_CMD_BUFF2TOMAINMEMWITHERASE_def
  DF_CMD_READMANUFACTURERDEVICEINFO_def

section \<open>Reactions of a memory\<close>

text \<open>
  A memory has pages of 1056 bytes and two buffers of that size, and collects the bytes of a command while its select
  line is low. A command that moves a page starts when the line goes high; then the memory is busy until its status
  has been read \<open>df_time\<close> times, and meanwhile takes nothing but status requests and bytes for the other buffer.
\<close>

record df_chip =
  df_mem :: "nat \<Rightarrow> nat \<Rightarrow> u8"
  df_buf :: "nat \<Rightarrow> nat \<Rightarrow> u8"
  df_in :: "u8 list"
  df_busy :: nat
  df_owner :: nat
  df_time :: nat
  df_protected :: bool

definition DF_BUFFER_BYTES :: nat where "DF_BUFFER_BYTES = 1056"

text \<open>The three bytes after a command: thirteen bits of page number, eleven of the place in the page.\<close>

fun df_page_of :: "u8 list \<Rightarrow> nat" where
  "df_page_of (a # b # c # _) = unat a * 32 + unat b div 8"
| "df_page_of _ = 0"

fun df_byte_of :: "u8 list \<Rightarrow> nat" where
  "df_byte_of (a # b # c # _) = unat b mod 8 * 256 + unat c"
| "df_byte_of _ = 0"

definition df_write_buffer :: "u8 \<Rightarrow> nat option" where
  "df_write_buffer c = (if c = DF_CMD_BUFF1WRITE then Some 1 else if c = DF_CMD_BUFF2WRITE then Some 2 else None)"

definition df_load_buffer :: "u8 \<Rightarrow> nat option" where
  "df_load_buffer c = (if c = DF_CMD_MAINMEMTOBUFF1 then Some 1 else if c = DF_CMD_MAINMEMTOBUFF2 then Some 2 else None)"

definition df_program_buffer :: "u8 \<Rightarrow> nat option" where
  "df_program_buffer c =
     (if c = DF_CMD_BUFF1TOMAINMEMWITHERASE then Some 1 else if c = DF_CMD_BUFF2TOMAINMEMWITHERASE then Some 2 else None)"

definition chip_status :: "df_chip \<Rightarrow> u8" where
  "chip_status c = (if df_busy c = 0 then DF_STATUS_READY else 0) OR 0x3C OR (if df_protected c then DF_STATUS_SECTORPROTECTION_ON else 0)"

text \<open>The byte a memory answers with while it gets the next one; a line nobody drives is pulled high.\<close>

definition chip_answer :: "df_chip \<Rightarrow> u8" where
  "chip_answer c =
     (case df_in c of
        [] \<Rightarrow> 0xFF
      | cmd # as \<Rightarrow>
          if cmd = DF_CMD_GETSTATUS then chip_status c
          else if df_busy c \<noteq> 0 then 0xFF
          else if cmd = DF_CMD_MAINMEMPAGEREAD \<and> 7 \<le> length as then
            df_mem c (df_page_of as) ((df_byte_of as + (length as - 7)) mod DF_BUFFER_BYTES)
          else if cmd = DF_CMD_READMANUFACTURERDEVICEINFO \<and> as = [] then DF_MANUFACTURER_ATMEL
          else 0xFF)"

definition chip_take :: "u8 \<Rightarrow> df_chip \<Rightarrow> df_chip" where
  "chip_take b c =
     (let c' = c\<lparr>df_in := df_in c @ [b]\<rparr>
      in case df_in c of
           [] \<Rightarrow> c'
         | cmd # as \<Rightarrow>
             if cmd = DF_CMD_GETSTATUS then c'\<lparr>df_busy := df_busy c - 1\<rparr>
             else case df_write_buffer cmd of
                    None \<Rightarrow> c'
                  | Some u \<Rightarrow>
                      if 3 \<le> length as \<and> (df_busy c = 0 \<or> df_owner c \<noteq> u) then
                        c'\<lparr>df_buf := (df_buf c)(u := (df_buf c u)((df_byte_of as + (length as - 3)) mod DF_BUFFER_BYTES := b))\<rparr>
                      else c')"

definition chip_select :: "df_chip \<Rightarrow> df_chip" where
  "chip_select c = c\<lparr>df_in := []\<rparr>"

definition chip_execute :: "df_chip \<Rightarrow> df_chip" where
  "chip_execute c =
     (if df_busy c \<noteq> 0 \<or> length (df_in c) \<noteq> 4 then c
      else if df_in c = DF_CMD_SECTORPROTECTIONOFF then c\<lparr>df_protected := False\<rparr>
      else
        let cmd = hd (df_in c); page = df_page_of (tl (df_in c))
        in case df_load_buffer cmd of
             Some u \<Rightarrow> c\<lparr>df_buf := (df_buf c)(u := df_mem c page), df_busy := df_time c, df_owner := u\<rparr>
           | None \<Rightarrow>
               case df_program_buffer cmd of
                 Some u \<Rightarrow> if df_protected c then c
                            else c\<lparr>df_mem := (df_mem c)(page := df_buf c u), df_busy := df_time c, df_owner := u\<rparr>
               | None \<Rightarrow> c)"

definition chip_deselect :: "df_chip \<Rightarrow> df_chip" where
  "chip_deselect c = (chip_execute c)\<lparr>df_in := []\<rparr>"

section \<open>The port and the bus\<close>

text \<open>The select line of memory \<open>k\<close> is bit \<open>k\<close> of port E.\<close>

record dataflash =
  df_PORTE :: u8
  df_DDRE :: u8
  df_chips :: "nat \<Rightarrow> df_chip"

definition df_upd :: "nat \<Rightarrow> (df_chip \<Rightarrow> df_chip) \<Rightarrow> dataflash \<Rightarrow> dataflash" where
  "df_upd k f d = d\<lparr>df_chips := (df_chips d)(k := f (df_chips d k))\<rparr>"

definition df_line :: "u8 \<Rightarrow> nat \<Rightarrow> dataflash \<Rightarrow> dataflash" where
  "df_line v k d =
     (if bit (df_PORTE d) k \<and> \<not> bit v k then df_upd k chip_select d
      else if \<not> bit (df_PORTE d) k \<and> bit v k then df_upd k chip_deselect d
      else d)"

definition PORTE_write :: "u8 \<Rightarrow> dataflash \<Rightarrow> dataflash" where
  "PORTE_write v d = (df_line v 1 (df_line v 0 d))\<lparr>df_PORTE := v\<rparr>"

definition SPI_TransferByte :: "u8 \<Rightarrow> dataflash \<Rightarrow> u8 \<times> dataflash" where
  "SPI_TransferByte Byte d =
     (let d' = (if \<not> bit (df_PORTE d) 0 then df_upd 0 (chip_take Byte) d else d)
      in (if \<not> bit (df_PORTE d) 0 then chip_answer (df_chips d 0) else if \<not> bit (df_PORTE d) 1 then chip_answer (df_chips d 1) else 0xFF,
          if \<not> bit (df_PORTE d) 1 then df_upd 1 (chip_take Byte) d' else d'))"

definition SPI_SendByte :: "u8 \<Rightarrow> dataflash \<Rightarrow> dataflash" where
  "SPI_SendByte Byte d = snd (SPI_TransferByte Byte d)"

definition SPI_ReceiveByte :: "dataflash \<Rightarrow> u8 \<times> dataflash" where
  "SPI_ReceiveByte d = SPI_TransferByte 0x00 d"

section \<open>The driver\<close>

definition DATAFLASH_CHIPCS_MASK :: u8 where "DATAFLASH_CHIPCS_MASK = push_bit 1 1 OR push_bit 0 1"
definition DATAFLASH_NO_CHIP :: u8 where "DATAFLASH_NO_CHIP = DATAFLASH_CHIPCS_MASK"
definition DATAFLASH_CHIP1 :: u8 where "DATAFLASH_CHIP1 = push_bit 1 1"
definition DATAFLASH_CHIP2 :: u8 where "DATAFLASH_CHIP2 = push_bit 0 1"
definition DATAFLASH_TOTALCHIPS :: nat where "DATAFLASH_TOTALCHIPS = 2"
definition DATAFLASH_PAGE_SIZE :: nat where "DATAFLASH_PAGE_SIZE = 1024"
definition DATAFLASH_PAGES :: nat where "DATAFLASH_PAGES = 8192"

definition Dataflash_GetSelectedChip :: "dataflash \<Rightarrow> u8" where
  "Dataflash_GetSelectedChip d = df_PORTE d AND DATAFLASH_CHIPCS_MASK"

definition Dataflash_SelectChip :: "u8 \<Rightarrow> dataflash \<Rightarrow> dataflash" where
  "Dataflash_SelectChip ChipMask d = PORTE_write ((df_PORTE d AND NOT DATAFLASH_CHIPCS_MASK) OR ChipMask) d"

definition Dataflash_DeselectChip :: "dataflash \<Rightarrow> dataflash" where
  "Dataflash_DeselectChip d = Dataflash_SelectChip DATAFLASH_NO_CHIP d"

definition Dataflash_TransferByte :: "u8 \<Rightarrow> dataflash \<Rightarrow> u8 \<times> dataflash" where
  "Dataflash_TransferByte Byte d = SPI_TransferByte Byte d"

definition Dataflash_SendByte :: "u8 \<Rightarrow> dataflash \<Rightarrow> dataflash" where
  "Dataflash_SendByte Byte d = SPI_SendByte Byte d"

definition Dataflash_ReceiveByte :: "dataflash \<Rightarrow> u8 \<times> dataflash" where
  "Dataflash_ReceiveByte d = SPI_ReceiveByte d"

definition Dataflash_Init :: "dataflash \<Rightarrow> dataflash" where
  "Dataflash_Init d =
     (let d = d\<lparr>df_DDRE := df_DDRE d OR DATAFLASH_CHIPCS_MASK\<rparr> in PORTE_write (df_PORTE d OR DATAFLASH_CHIPCS_MASK) d)"

definition Dataflash_ToggleSelectedChipCS :: "dataflash \<Rightarrow> dataflash" where
  "Dataflash_ToggleSelectedChipCS d =
     (let SelectedChipMask = Dataflash_GetSelectedChip d
      in Dataflash_SelectChip SelectedChipMask (Dataflash_DeselectChip d))"

text \<open>
  \<open>while (!(Dataflash_ReceiveByte() & DF_STATUS_READY));\<close> for at most \<open>n\<close> rounds. One more than the memories are still
  busy is enough when the loop reads a status.
\<close>

fun df_poll :: "nat \<Rightarrow> dataflash \<Rightarrow> stop + dataflash" where
  "df_poll 0 d = Inl Hang"
| "df_poll (Suc n) d = (case Dataflash_ReceiveByte d of (b, d) \<Rightarrow> if b AND DF_STATUS_READY = 0 then df_poll n d else Inr d)"

definition Dataflash_WaitWhileBusy :: "dataflash \<Rightarrow> stop + dataflash" where
  "Dataflash_WaitWhileBusy d =
     (let d = Dataflash_SendByte DF_CMD_GETSTATUS (Dataflash_ToggleSelectedChipCS d)
      in case df_poll (Suc (df_busy (df_chips d 0) + df_busy (df_chips d 1))) d of
           Inl e \<Rightarrow> Inl e | Inr d \<Rightarrow> Inr (Dataflash_ToggleSelectedChipCS d))"

definition Dataflash_SelectChipFromPage :: "u16 \<Rightarrow> dataflash \<Rightarrow> dataflash" where
  "Dataflash_SelectChipFromPage PageAddress d =
     (let d = Dataflash_DeselectChip d
      in if unat PageAddress \<ge> DATAFLASH_PAGES * DATAFLASH_TOTALCHIPS then d
         else if PageAddress AND 0x01 \<noteq> 0 then Dataflash_SelectChip DATAFLASH_CHIP2 d
         else Dataflash_SelectChip DATAFLASH_CHIP1 d)"

definition Dataflash_SendAddressBytes :: "u16 \<Rightarrow> u16 \<Rightarrow> dataflash \<Rightarrow> dataflash" where
  "Dataflash_SendAddressBytes PageAddress BufferByte d =
     (let PageAddress = drop_bit 1 PageAddress
      in Dataflash_SendByte (ucast BufferByte)
           (Dataflash_SendByte (ucast (push_bit 3 PageAddress OR drop_bit 8 BufferByte))
             (Dataflash_SendByte (ucast (drop_bit 5 PageAddress)) d)))"

section \<open>One memory selected, or none\<close>

definition df_selected :: "nat option \<Rightarrow> dataflash \<Rightarrow> bool" where
  "df_selected k d \<longleftrightarrow> (bit (df_PORTE d) 0 \<longleftrightarrow> k \<noteq> Some 0) \<and> (bit (df_PORTE d) 1 \<longleftrightarrow> k \<noteq> Some 1) \<and> (k = None \<or> k = Some 0 \<or> k = Some 1)"

lemma df_upd_simps [simp]:
  "df_PORTE (df_upd k f d) = df_PORTE d"
  "df_chips (df_upd k f d) = (df_chips d)(k := f (df_chips d k))"
  "df_selected j (df_upd k f d) = df_selected j d"
  "df_upd k f (df_upd k g d) = df_upd k (\<lambda>c. f (g c)) d"
  by (simp_all add: df_upd_def df_selected_def)

lemma df_upd_cong: "f (df_chips d k) = g (df_chips d k) \<Longrightarrow> df_upd k f d = df_upd k g d"
  by (simp add: df_upd_def)

lemma df_upd_id [simp]: "df_upd k (\<lambda>c. c) d = d"
  by (simp add: df_upd_def)

lemma df_upd_PORTE: "(df_upd k f d)\<lparr>df_PORTE := v\<rparr> = df_upd k f (d\<lparr>df_PORTE := v\<rparr>)"
  by (simp add: df_upd_def)

lemma PORTE_same [simp]: "d\<lparr>df_PORTE := df_PORTE d\<rparr> = d"
  by simp

lemma df_selected_bits:
  "df_selected None d \<Longrightarrow> bit (df_PORTE d) 0" "df_selected None d \<Longrightarrow> bit (df_PORTE d) 1"
  "df_selected (Some 0) d \<Longrightarrow> \<not> bit (df_PORTE d) 0" "df_selected (Some 0) d \<Longrightarrow> bit (df_PORTE d) 1"
  "df_selected (Some 1) d \<Longrightarrow> bit (df_PORTE d) 0" "df_selected (Some 1) d \<Longrightarrow> \<not> bit (df_PORTE d) 1"
  by (simp_all add: df_selected_def)

lemma Dataflash_SendByte_selected: "df_selected (Some k) d \<Longrightarrow> Dataflash_SendByte b d = df_upd k (chip_take b) d"
  by (auto simp: df_selected_def Dataflash_SendByte_def SPI_SendByte_def SPI_TransferByte_def Let_def)

lemma Dataflash_ReceiveByte_selected:
  "df_selected (Some k) d \<Longrightarrow> Dataflash_ReceiveByte d = (chip_answer (df_chips d k), df_upd k (chip_take 0) d)"
  by (auto simp: df_selected_def Dataflash_ReceiveByte_def SPI_ReceiveByte_def SPI_TransferByte_def Let_def)

lemma Dataflash_bytes_none:
  assumes "df_selected None d"
  shows "Dataflash_SendByte b d = d" "Dataflash_ReceiveByte d = (0xFF, d)"
  using df_selected_bits(1,2) [OF assms]
  by (simp_all add: Dataflash_SendByte_def SPI_SendByte_def Dataflash_ReceiveByte_def SPI_ReceiveByte_def SPI_TransferByte_def Let_def)

lemma chip_mask_bits:
  "bit ((v AND NOT DATAFLASH_CHIPCS_MASK) OR DATAFLASH_NO_CHIP) 0" "bit ((v AND NOT DATAFLASH_CHIPCS_MASK) OR DATAFLASH_NO_CHIP) 1"
  "\<not> bit ((v AND NOT DATAFLASH_CHIPCS_MASK) OR DATAFLASH_CHIP1) 0" "bit ((v AND NOT DATAFLASH_CHIPCS_MASK) OR DATAFLASH_CHIP1) 1"
  "bit ((v AND NOT DATAFLASH_CHIPCS_MASK) OR DATAFLASH_CHIP2) 0" "\<not> bit ((v AND NOT DATAFLASH_CHIPCS_MASK) OR DATAFLASH_CHIP2) 1"
  by (simp_all add: DATAFLASH_CHIPCS_MASK_def DATAFLASH_NO_CHIP_def DATAFLASH_CHIP1_def DATAFLASH_CHIP2_def bit_simps)

text \<open>Deselecting lets the selected memory carry out its command.\<close>

definition df_release :: "nat option \<Rightarrow> dataflash \<Rightarrow> dataflash" where
  "df_release k d = (case k of None \<Rightarrow> d | Some k \<Rightarrow> df_upd k chip_deselect d)"

lemma Dataflash_DeselectChip_chips:
  assumes "df_selected k d"
  shows "Dataflash_DeselectChip d = (df_release k d)\<lparr>df_PORTE := (df_PORTE d AND NOT DATAFLASH_CHIPCS_MASK) OR DATAFLASH_NO_CHIP\<rparr>"
    "df_selected None (Dataflash_DeselectChip d)"
proof -
  have "k = None \<or> k = Some 0 \<or> k = Some 1" using assms by (simp add: df_selected_def)
  then show e: "Dataflash_DeselectChip d = (df_release k d)\<lparr>df_PORTE := (df_PORTE d AND NOT DATAFLASH_CHIPCS_MASK) OR DATAFLASH_NO_CHIP\<rparr>"
    using assms chip_mask_bits(1,2) [of "df_PORTE d"]
    by (auto simp: Dataflash_DeselectChip_def Dataflash_SelectChip_def PORTE_write_def df_line_def df_release_def df_selected_def)
  show "df_selected None (Dataflash_DeselectChip d)"
    unfolding e using chip_mask_bits(1,2) [of "df_PORTE d"] by (simp add: df_selected_def)
qed

lemma chip_select_deselect [simp]: "chip_select (chip_deselect c) = chip_deselect c"
  by (simp add: chip_select_def chip_deselect_def)

lemma port_restored: "(((v AND NOT m) OR m) AND NOT m) OR (v AND m) = v" for v :: u8
  by (rule bit_eqI) (auto simp: bit_simps)

lemma Dataflash_ToggleSelectedChipCS_selected:
  assumes "df_selected k d"
  shows "Dataflash_ToggleSelectedChipCS d = df_release k d"
proof -
  let ?d = "Dataflash_DeselectChip d"
  have r: "df_PORTE ?d = (df_PORTE d AND NOT DATAFLASH_CHIPCS_MASK) OR DATAFLASH_CHIPCS_MASK"
    by (simp add: Dataflash_DeselectChip_chips [OF assms] DATAFLASH_NO_CHIP_def)
  have v: "(df_PORTE ?d AND NOT DATAFLASH_CHIPCS_MASK) OR Dataflash_GetSelectedChip d = df_PORTE d"
    unfolding r Dataflash_GetSelectedChip_def by (rule port_restored)
  have b: "bit (df_PORTE ?d) 0" "bit (df_PORTE ?d) 1"
    using Dataflash_DeselectChip_chips(2) [OF assms] by (simp_all add: df_selected_def)
  have k: "k = None \<or> k = Some 0 \<or> k = Some 1" using assms by (simp add: df_selected_def)
  have "Dataflash_ToggleSelectedChipCS d = PORTE_write (df_PORTE d) ?d"
    by (simp only: Dataflash_ToggleSelectedChipCS_def Let_def Dataflash_SelectChip_def v)
  also have "\<dots> = df_release k d"
    using k
  proof (elim disjE)
    assume "k = None"
    then show ?thesis
      using assms b df_selected_bits [of d] by (simp add: PORTE_write_def df_line_def Dataflash_DeselectChip_chips(1) [OF assms] df_release_def)
  next
    assume "k = Some 0"
    then show ?thesis
      using assms b df_selected_bits [of d]
      by (simp add: PORTE_write_def df_line_def) (simp add: Dataflash_DeselectChip_chips(1) [OF assms] df_release_def df_upd_def)
  next
    assume "k = Some 1"
    then show ?thesis
      using assms b df_selected_bits [of d]
      by (simp add: PORTE_write_def df_line_def) (simp add: Dataflash_DeselectChip_chips(1) [OF assms] df_release_def df_upd_def)
  qed
  finally show ?thesis .
qed

text \<open>The wait for the selected memory: afterwards its command has been carried out and it is not busy.\<close>

definition chip_rest :: "df_chip \<Rightarrow> df_chip" where
  "chip_rest c = (chip_deselect c)\<lparr>df_busy := 0\<rparr>"

lemma DF_STATUS_READY_test: "chip_status c AND DF_STATUS_READY = 0 \<longleftrightarrow> df_busy c \<noteq> 0"
  by (simp add: chip_status_def DF_STATUS_READY_def DF_STATUS_SECTORPROTECTION_ON_def)

lemma chip_poll:
  assumes "df_selected (Some k) d" "df_in (df_chips d k) = DF_CMD_GETSTATUS # as" "df_busy (df_chips d k) < n"
  shows "\<exists>bs. df_poll n d = Inr (df_upd k (\<lambda>c. c\<lparr>df_busy := 0, df_in := DF_CMD_GETSTATUS # bs\<rparr>) d)"
  using assms
proof (induction n arbitrary: d as)
  case (Suc n)
  let ?c = "df_chips d k" and ?d = "df_upd k (chip_take 0) d"
  have a: "chip_answer ?c = chip_status ?c" using Suc.prems(2) by (simp add: chip_answer_def)
  have t: "chip_take 0 ?c = ?c\<lparr>df_busy := df_busy ?c - 1, df_in := DF_CMD_GETSTATUS # as @ [0]\<rparr>"
    using Suc.prems(2) by (simp add: chip_take_def Let_def)
  show ?case
  proof (cases "df_busy ?c = 0")
    case True
    then have "df_poll (Suc n) d = Inr ?d"
      using Suc.prems(1) by (simp add: Dataflash_ReceiveByte_selected a DF_STATUS_READY_test)
    moreover have "?d = df_upd k (\<lambda>c. c\<lparr>df_busy := 0, df_in := DF_CMD_GETSTATUS # as @ [0]\<rparr>) d"
      by (rule df_upd_cong) (simp add: t True)
    ultimately show ?thesis by auto
  next
    case False
    then have "df_poll (Suc n) d = df_poll n ?d"
      using Suc.prems(1) by (simp add: Dataflash_ReceiveByte_selected a DF_STATUS_READY_test)
    moreover have "\<exists>bs. df_poll n ?d = Inr (df_upd k (\<lambda>c. c\<lparr>df_busy := 0, df_in := DF_CMD_GETSTATUS # bs\<rparr>) ?d)"
      using Suc.prems False by (intro Suc.IH [of _ "as @ [0]"]) (simp_all add: t)
    then obtain bs where "df_poll n ?d = Inr (df_upd k (\<lambda>c. c\<lparr>df_busy := 0, df_in := DF_CMD_GETSTATUS # bs\<rparr>) ?d)" by blast
    moreover have "df_upd k (\<lambda>c. c\<lparr>df_busy := 0, df_in := DF_CMD_GETSTATUS # bs\<rparr>) ?d =
        df_upd k (\<lambda>c. c\<lparr>df_busy := 0, df_in := DF_CMD_GETSTATUS # bs\<rparr>) d"
      unfolding df_upd_simps by (rule df_upd_cong) (simp add: t)
    ultimately show ?thesis by auto
  qed
qed simp

lemma status_command_executes: "df_in c = DF_CMD_GETSTATUS # bs \<Longrightarrow> chip_execute c = c"
  by (simp add: chip_execute_def Let_def df_load_buffer_def df_program_buffer_def df_command_defs DF_CMD_SECTORPROTECTIONOFF_def)

lemma Dataflash_WaitWhileBusy_selected:
  assumes "df_selected (Some k) d"
  shows "Dataflash_WaitWhileBusy d = Inr (df_upd k chip_rest d)"
proof -
  let ?t = "df_upd k chip_deselect d"
  let ?d = "Dataflash_SendByte DF_CMD_GETSTATUS ?t" and ?c = "chip_deselect (df_chips d k)"
  have d: "?d = df_upd k (\<lambda>c. chip_take DF_CMD_GETSTATUS (chip_deselect c)) d"
    using assms by (simp add: Dataflash_SendByte_selected)
  have c: "df_chips ?d k = ?c\<lparr>df_in := [DF_CMD_GETSTATUS]\<rparr>" by (simp add: d chip_take_def chip_deselect_def Let_def)
  have k: "k = 0 \<or> k = 1" using assms by (simp add: df_selected_def)
  obtain bs where p: "df_poll (Suc (df_busy (df_chips ?d 0) + df_busy (df_chips ?d 1))) ?d =
      Inr (df_upd k (\<lambda>c. c\<lparr>df_busy := 0, df_in := DF_CMD_GETSTATUS # bs\<rparr>) ?d)"
    using chip_poll [of k ?d "[]" "Suc (df_busy (df_chips ?d 0) + df_busy (df_chips ?d 1))"] assms c k by (auto simp: d)
  let ?e = "df_upd k (\<lambda>c. c\<lparr>df_busy := 0, df_in := DF_CMD_GETSTATUS # bs\<rparr>) ?d"
  have "Dataflash_ToggleSelectedChipCS ?e = df_upd k chip_deselect ?e"
    using assms by (subst Dataflash_ToggleSelectedChipCS_selected [of "Some k"]) (simp_all add: d df_release_def)
  also have "\<dots> = df_upd k chip_rest d"
    unfolding d df_upd_simps
    by (rule df_upd_cong) (simp add: chip_deselect_def [of "_\<lparr>df_in := _\<rparr>"] status_command_executes, simp add: chip_rest_def chip_deselect_def chip_take_def Let_def)
  finally have "Dataflash_ToggleSelectedChipCS ?e = df_upd k chip_rest d" .
  moreover have "Dataflash_ToggleSelectedChipCS d = ?t"
    using assms by (simp add: Dataflash_ToggleSelectedChipCS_selected df_release_def)
  ultimately show ?thesis
    using p by (simp add: Dataflash_WaitWhileBusy_def Let_def)
qed

lemma Dataflash_WaitWhileBusy_none:
  assumes "df_selected None d"
  shows "Dataflash_WaitWhileBusy d = Inr d"
  using assms
  by (simp add: Dataflash_WaitWhileBusy_def Dataflash_ToggleSelectedChipCS_selected df_release_def Dataflash_bytes_none Let_def DF_STATUS_READY_def)

text \<open>The memory a page is in; beyond the last page no memory is selected.\<close>

definition page_chip :: "u16 \<Rightarrow> nat option" where
  "page_chip p = (if unat p < 16384 then Some (unat p mod 2) else None)"

lemma Dataflash_SelectChipFromPage_chips:
  assumes "df_selected k d"
  shows "df_selected (page_chip p) (Dataflash_SelectChipFromPage p d)"
    "df_chips (Dataflash_SelectChipFromPage p d) =
      (case page_chip p of None \<Rightarrow> df_chips (df_release k d)
       | Some j \<Rightarrow> (df_chips (df_release k d))(j := chip_select (df_chips (df_release k d) j)))"
proof -
  let ?d = "Dataflash_DeselectChip d"
  note n = Dataflash_DeselectChip_chips [OF assms]
  have odd: "p AND 1 = 0 \<longleftrightarrow> unat p mod 2 = 0"
    by (simp add: word_unat_eq_iff and_one_eq unat_mod)
  have c: "df_chips ?d = df_chips (df_release k d)" by (simp add: n(1))
  have b: "bit (df_PORTE ?d) 0" "bit (df_PORTE ?d) (Suc 0)" using n(2) by (simp_all add: df_selected_def)
  have two: "j mod 2 = 0 \<or> j mod 2 = 1" for j :: nat by (simp add: mod2_eq_if)
  show "df_selected (page_chip p) (Dataflash_SelectChipFromPage p d)"
    using n(2) odd two [of "unat p"] chip_mask_bits(3-) [of "df_PORTE ?d"]
    by (auto simp: Dataflash_SelectChipFromPage_def Let_def DATAFLASH_PAGES_def DATAFLASH_TOTALCHIPS_def page_chip_def
        Dataflash_SelectChip_def PORTE_write_def df_selected_def)
  show "df_chips (Dataflash_SelectChipFromPage p d) =
      (case page_chip p of None \<Rightarrow> df_chips (df_release k d)
       | Some j \<Rightarrow> (df_chips (df_release k d))(j := chip_select (df_chips (df_release k d) j)))"
    unfolding c [symmetric]
    using odd two [of "unat p"] chip_mask_bits(3-) [of "df_PORTE ?d"] b
    by (auto simp: Dataflash_SelectChipFromPage_def Let_def DATAFLASH_PAGES_def DATAFLASH_TOTALCHIPS_def page_chip_def
        Dataflash_SelectChip_def PORTE_write_def df_line_def)
qed

section \<open>Commands with an address\<close>

definition address_bytes :: "u16 \<Rightarrow> u16 \<Rightarrow> u8 list" where
  "address_bytes p o' = [ucast (drop_bit 5 (drop_bit 1 p)), ucast (push_bit 3 (drop_bit 1 p) OR drop_bit 8 o'), ucast o']"

lemma unat_ucast_u8: "unat (ucast w :: u8) = unat w mod 256" for w :: u16
  by (simp add: unsigned_ucast_eq take_bit_eq_mod)

lemma address_bytes_decode:
  assumes "unat p < 16384" "unat o' < 2048"
  shows "df_page_of (address_bytes p o') = unat p div 2" "df_byte_of (address_bytes p o') = unat o'"
proof -
  have high: "unat (drop_bit 5 (drop_bit 1 p)) = unat p div 64" "unat (drop_bit 8 o') = unat o' div 256"
    by (simp_all add: drop_bit_eq_div unat_div div_mult2_eq [symmetric])
  have a: "unat p div 64 < 256" "unat o' div 256 < 8" "unat p div 2 < 8192" using assms by simp_all
  have "push_bit 3 (drop_bit 1 p) OR drop_bit 8 o' = push_bit 3 (drop_bit 1 p) + drop_bit 8 o'"
  proof (rule disjunctive_add [symmetric])
    fix n
    show "\<not> bit (push_bit 3 (drop_bit 1 p)) n \<or> \<not> bit (drop_bit 8 o') n"
    proof (cases "n < 3")
      case True
      then show ?thesis by (simp add: bit_simps)
    next
      case False
      have "take_bit 11 o' = o'" using assms(2) by (simp add: take_bit_eq_mod word_unat_eq_iff unat_mod)
      then have "bit o' m \<Longrightarrow> m < 11" for m by (metis bit_take_bit_iff)
      then have "\<not> bit o' (8 + n)" using False by fastforce
      then show ?thesis by (simp add: bit_simps)
    qed
  qed
  moreover have "unat (push_bit 3 (drop_bit 1 p)) = unat p div 2 * 8"
    using assms(1) by (simp add: push_bit_eq_mult drop_bit_eq_div unat_word_ariths unat_div)
  ultimately have mid: "unat (push_bit 3 (drop_bit 1 p) OR drop_bit 8 o') = unat p div 2 * 8 + unat o' div 256"
    using a high(2) by (simp add: unat_word_ariths)
  have d: "(x * 8 + y) div 8 = x" "(x * 8 + y) mod 8 = y" if "y < 8" for x y :: nat using that by simp_all
  have m: "(x * 8 + y) mod 256 = x mod 32 * 8 + y" if "y < 8" for x y :: nat
    using mod_mult2_eq [of "x * 8 + y" 8 32] d [OF that, of x] by simp
  show "df_page_of (address_bytes p o') = unat p div 2"
    using a high by (simp add: address_bytes_def unat_ucast_u8 mid m d del: One_nat_def) (simp add: div_mult2_eq [of _ 2 32, simplified])
  show "df_byte_of (address_bytes p o') = unat o'"
    using a by (simp add: address_bytes_def unat_ucast_u8 mid m d del: One_nat_def)
qed

lemma address_bytes_length [simp]: "length (address_bytes p o') = 3"
  by (simp add: address_bytes_def)

lemma Dataflash_SendAddressBytes_selected:
  "df_selected (Some k) d \<Longrightarrow> Dataflash_SendAddressBytes p o' d = df_upd k (fold chip_take (address_bytes p o')) d"
  by (simp add: Dataflash_SendAddressBytes_def Let_def Dataflash_SendByte_selected address_bytes_def comp_def)

lemma Dataflash_SendAddressBytes_none: "df_selected None d \<Longrightarrow> Dataflash_SendAddressBytes p o' d = d"
  by (simp add: Dataflash_SendAddressBytes_def Let_def Dataflash_bytes_none)

lemma chip_takes_address:
  assumes "df_in c = []" "cmd \<noteq> DF_CMD_GETSTATUS"
  shows "fold chip_take (address_bytes p o') (chip_take cmd c) = c\<lparr>df_in := cmd # address_bytes p o'\<rparr>"
  using assms by (auto simp: address_bytes_def chip_take_def Let_def split: option.splits)

section \<open>Filling a buffer and reading a page\<close>

text \<open>The memory is in the middle of a command: the next byte goes to, or comes from, the given place.\<close>

definition chip_filling :: "nat \<Rightarrow> nat \<Rightarrow> df_chip \<Rightarrow> bool" where
  "chip_filling u pos c \<longleftrightarrow>
     (\<exists>cmd as. df_in c = cmd # as \<and> df_write_buffer cmd = Some u \<and> 3 \<le> length as \<and> pos = df_byte_of as + (length as - 3)) \<and>
     (df_busy c = 0 \<or> df_owner c \<noteq> u)"

definition chip_reading :: "nat \<Rightarrow> nat \<Rightarrow> df_chip \<Rightarrow> bool" where
  "chip_reading page pos c \<longleftrightarrow>
     (\<exists>as. df_in c = DF_CMD_MAINMEMPAGEREAD # as \<and> 7 \<le> length as \<and> df_page_of as = page \<and> pos = df_byte_of as + (length as - 7)) \<and>
     df_busy c = 0"

definition overlay :: "nat \<Rightarrow> u8 list \<Rightarrow> (nat \<Rightarrow> u8) \<Rightarrow> nat \<Rightarrow> u8" where
  "overlay a bs f = (\<lambda>i. if a \<le> i \<and> i < a + length bs then bs ! (i - a) else f i)"

lemma overlay_Nil [simp]: "overlay a [] f = f"
  by (auto simp: overlay_def fun_eq_iff)

lemma overlay_Cons: "overlay a (b # bs) f = overlay (Suc a) bs (f(a := b))"
  by (rule ext) (auto simp: overlay_def nth_Cons' Suc_diff_le)

lemma overlay_append: "overlay a (bs @ cs) f = overlay (a + length bs) cs (overlay a bs f)"
  by (induction bs arbitrary: a f) (simp_all add: overlay_Cons)

lemma address_append: "3 \<le> length as \<Longrightarrow> df_byte_of (as @ bs) = df_byte_of as" "3 \<le> length as \<Longrightarrow> df_page_of (as @ bs) = df_page_of as"
  by (cases as rule: df_byte_of.cases; simp)+

lemma write_buffer_not_status: "df_write_buffer cmd = Some u \<Longrightarrow> cmd \<noteq> DF_CMD_GETSTATUS"
  by (auto simp: df_write_buffer_def df_command_defs split: if_splits)

lemma chip_filling_take:
  assumes "chip_filling u pos c" "pos < DF_BUFFER_BYTES"
  shows "chip_take b c = c\<lparr>df_in := df_in c @ [b], df_buf := (df_buf c)(u := (df_buf c u)(pos := b))\<rparr>" (is ?T)
    "chip_filling u (Suc pos) (chip_take b c)"
proof -
  obtain cmd as where c: "df_in c = cmd # as" "df_write_buffer cmd = Some u" "3 \<le> length as" "pos = df_byte_of as + (length as - 3)"
    and f: "df_busy c = 0 \<or> df_owner c \<noteq> u"
    using assms(1) by (auto simp: chip_filling_def)
  show t: ?T
    using c f assms(2) write_buffer_not_status [OF c(2)] by (simp add: chip_take_def Let_def)
  show "chip_filling u (Suc pos) (chip_take b c)"
    unfolding chip_filling_def t using c f by (simp add: address_append)
qed

lemma chip_filling_takes:
  assumes "chip_filling u pos c" "pos + length bs \<le> DF_BUFFER_BYTES"
  shows "fold chip_take bs c = c\<lparr>df_in := df_in c @ bs, df_buf := (df_buf c)(u := overlay pos bs (df_buf c u))\<rparr> \<and>
    chip_filling u (pos + length bs) (fold chip_take bs c)"
  using assms
proof (induction bs arbitrary: c pos)
  case (Cons b bs)
  let ?c = "chip_take b c"
  have t: "?c = c\<lparr>df_in := df_in c @ [b], df_buf := (df_buf c)(u := (df_buf c u)(pos := b))\<rparr>" "chip_filling u (Suc pos) ?c"
    using chip_filling_take [of u pos c b] Cons.prems by simp_all
  have e: "overlay (Suc pos) bs (df_buf ?c u) = overlay pos (b # bs) (df_buf c u)" "df_in ?c @ bs = df_in c @ b # bs"
    by (simp_all add: t(1) overlay_Cons)
  have f: "(df_buf ?c)(u := x) = (df_buf c)(u := x)" for x by (simp add: t(1))
  have g: "?c\<lparr>df_in := x, df_buf := y\<rparr> = c\<lparr>df_in := x, df_buf := y\<rparr>" for x y by (simp add: t(1))
  have "Suc pos + length bs \<le> DF_BUFFER_BYTES" using Cons.prems(2) by simp
  from Cons.IH [OF t(2) this] show ?case
    by (simp only: e f g fold_simps list.size add_Suc_right add_Suc) (auto simp: fun_upd_def)
qed simp

lemma chip_reading_take:
  assumes "chip_reading page pos c" "pos < DF_BUFFER_BYTES"
  shows "chip_answer c = df_mem c page pos" "chip_take 0 c = c\<lparr>df_in := df_in c @ [0]\<rparr>" "chip_reading page (Suc pos) (chip_take 0 c)"
proof -
  obtain as where c: "df_in c = DF_CMD_MAINMEMPAGEREAD # as" "7 \<le> length as" "df_page_of as = page" "pos = df_byte_of as + (length as - 7)"
    and f: "df_busy c = 0"
    using assms(1) by (auto simp: chip_reading_def)
  show "chip_answer c = df_mem c page pos"
    using c f assms(2) by (simp add: chip_answer_def df_command_defs)
  show t: "chip_take 0 c = c\<lparr>df_in := df_in c @ [0]\<rparr>"
    using c by (simp add: chip_take_def Let_def df_write_buffer_def df_command_defs)
  show "chip_reading page (Suc pos) (chip_take 0 c)"
    unfolding chip_reading_def t using c f by (simp add: address_append)
qed

fun df_receive_bytes :: "nat \<Rightarrow> dataflash \<Rightarrow> u8 list \<times> dataflash" where
  "df_receive_bytes 0 d = ([], d)"
| "df_receive_bytes (Suc n) d =
     (case Dataflash_ReceiveByte d of (b, d) \<Rightarrow> case df_receive_bytes n d of (bs, d) \<Rightarrow> (b # bs, d))"

lemma df_receive_bytes_reading:
  assumes "df_selected (Some k) d" "chip_reading page pos (df_chips d k)" "pos + n \<le> DF_BUFFER_BYTES"
  shows "\<exists>d'. df_receive_bytes n d = (map (df_mem (df_chips d k) page) [pos..<pos + n], d') \<and>
    df_selected (Some k) d' \<and> chip_reading page (pos + n) (df_chips d' k) \<and>
    (\<forall>j. df_mem (df_chips d' j) = df_mem (df_chips d j) \<and> df_busy (df_chips d' j) = df_busy (df_chips d j) \<and>
         df_protected (df_chips d' j) = df_protected (df_chips d j) \<and>
         (j \<noteq> k \<longrightarrow> df_chips d' j = df_chips d j))"
  using assms
proof (induction n arbitrary: d pos)
  case 0
  then show ?case by auto
next
  case (Suc n)
  let ?c = "df_chips d k" and ?d = "df_upd k (chip_take 0) d"
  have p: "pos < DF_BUFFER_BYTES" using Suc.prems by simp
  note t = chip_reading_take [OF Suc.prems(2) p]
  have "df_selected (Some k) ?d" "chip_reading page (Suc pos) (df_chips ?d k)" "Suc pos + n \<le> DF_BUFFER_BYTES"
    using Suc.prems t by simp_all
  from Suc.IH [OF this] obtain d' where d': "df_receive_bytes n ?d = (map (df_mem (df_chips ?d k) page) [Suc pos..<Suc pos + n], d')"
    "df_selected (Some k) d'" "chip_reading page (Suc pos + n) (df_chips d' k)"
    "\<forall>j. df_mem (df_chips d' j) = df_mem (df_chips ?d j) \<and> df_busy (df_chips d' j) = df_busy (df_chips ?d j) \<and>
         df_protected (df_chips d' j) = df_protected (df_chips ?d j) \<and>
         (j \<noteq> k \<longrightarrow> df_chips d' j = df_chips ?d j)"
    by blast
  have "df_mem (df_chips d' j) = df_mem (df_chips d j) \<and> df_busy (df_chips d' j) = df_busy (df_chips d j) \<and>
         df_protected (df_chips d' j) = df_protected (df_chips d j) \<and>
      (j \<noteq> k \<longrightarrow> df_chips d' j = df_chips d j)" for j
    using d'(4) t(2) by (cases "j = k") simp_all
  moreover have u: "[pos..<Suc (pos + n)] = pos # [Suc pos..<Suc (pos + n)]" by (simp add: upt_conv_Cons del: upt_Suc)
  moreover have "df_receive_bytes (Suc n) d = (map (df_mem (df_chips d k) page) [pos..<pos + Suc n], d')"
    using Suc.prems(1) t(1,2) d'(1) u by (simp add: Dataflash_ReceiveByte_selected del: upt_Suc)
  ultimately show ?case using d'(2,3) by (intro exI [of _ d']) simp
qed

lemma df_receive_bytes_none: "df_selected None d \<Longrightarrow> df_receive_bytes n d = (replicate n 0xFF, d)"
  by (induction n) (simp_all add: Dataflash_bytes_none)

end
