(* ===== verification/DataflashManager.thy ===== *)
theory DataflashManager
  imports MassTransport Dataflash
begin

text \<open>
  The blocks of the mass storage demonstration on its two memories:
  \<open>Demos/Device/ClassDriver/MassStorage/Lib/DataflashManager.c\<close>, for the pages of 1024 bytes of the USBKEY board,
  the blocks of 512 bytes the host sees, and the endpoint that the transport has selected. Pages go to the two
  memories by turns.
\<close>

definition VIRTUAL_MEMORY_BLOCK_SIZE :: nat where "VIRTUAL_MEMORY_BLOCK_SIZE = 512"
definition VIRTUAL_MEMORY_BYTES :: u32 where
  "VIRTUAL_MEMORY_BYTES = of_nat DATAFLASH_PAGES * of_nat DATAFLASH_PAGE_SIZE * of_nat DATAFLASH_TOTALCHIPS"
definition VIRTUAL_MEMORY_BLOCKS :: u32 where "VIRTUAL_MEMORY_BLOCKS = VIRTUAL_MEMORY_BYTES div of_nat VIRTUAL_MEMORY_BLOCK_SIZE"

record disk = ms +
  Flash :: dataflash

definition with_Flash :: "(dataflash \<Rightarrow> dataflash) \<Rightarrow> 'a disk_scheme \<Rightarrow> 'a disk_scheme" where
  "with_Flash f s = s\<lparr>Flash := f (Flash s)\<rparr>"

definition on_Flash :: "(dataflash \<Rightarrow> stop + 'b \<times> dataflash) \<Rightarrow> 'a disk_scheme world \<Rightarrow> 'a disk_scheme \<Rightarrow> ('a disk_scheme, 'b) run" where
  "on_Flash f w s = (case f (Flash s) of Inl e \<Rightarrow> Inl e | Inr (r, d) \<Rightarrow> Inr (r, s\<lparr>Flash := d\<rparr>, w))"

section \<open>Where a transfer is\<close>

text \<open>The variables \<open>CurrDFPage\<close>, \<open>CurrDFPageByteDiv16\<close> and \<open>UsingSecondBuffer\<close>.\<close>

type_synonym cursor = "u16 \<times> u8 \<times> bool"

definition first_page :: "u32 \<Rightarrow> u16" where
  "first_page BlockAddress = ucast ((BlockAddress * of_nat VIRTUAL_MEMORY_BLOCK_SIZE) div of_nat DATAFLASH_PAGE_SIZE)"

definition first_page_byte :: "u32 \<Rightarrow> u16" where
  "first_page_byte BlockAddress = ucast ((BlockAddress * of_nat VIRTUAL_MEMORY_BLOCK_SIZE) mod of_nat DATAFLASH_PAGE_SIZE)"

definition start_cursor :: "u32 \<Rightarrow> cursor" where
  "start_cursor BlockAddress = (first_page BlockAddress, ucast (drop_bit 4 (first_page_byte BlockAddress)), False)"

definition PAGE_DIV16 :: u8 where "PAGE_DIV16 = of_nat (DATAFLASH_PAGE_SIZE div 16)"

text \<open>\<open>while (BytesInBlockDiv16 < (VIRTUAL_MEMORY_BLOCK_SIZE >> 4))\<close>: the rounds for one block.\<close>

definition BLOCK_DIV16 :: nat where "BLOCK_DIV16 = VIRTUAL_MEMORY_BLOCK_SIZE div 16"

section \<open>Writing\<close>

definition begin_write :: "u32 \<Rightarrow> dataflash \<Rightarrow> stop + unit \<times> dataflash" where
  "begin_write BlockAddress d =
     (let d = Dataflash_SelectChipFromPage (first_page BlockAddress) d;
          d = Dataflash_SendAddressBytes (first_page BlockAddress) 0 (Dataflash_SendByte DF_CMD_MAINMEMTOBUFF1 d)
      in case Dataflash_WaitWhileBusy d of
           Inl e \<Rightarrow> Inl e
         | Inr d \<Rightarrow> Inr ((), Dataflash_SendAddressBytes 0 (first_page_byte BlockAddress) (Dataflash_SendByte DF_CMD_BUFF1WRITE d)))"

text \<open>The buffer goes back to the page.\<close>

definition send_page :: "u16 \<Rightarrow> bool \<Rightarrow> dataflash \<Rightarrow> stop + dataflash" where
  "send_page CurrDFPage UsingSecondBuffer d =
     (case Dataflash_WaitWhileBusy d of
        Inl e \<Rightarrow> Inl e
      | Inr d \<Rightarrow> Inr (Dataflash_SendAddressBytes CurrDFPage 0
          (Dataflash_SendByte (if UsingSecondBuffer then DF_CMD_BUFF2TOMAINMEMWITHERASE else DF_CMD_BUFF1TOMAINMEMWITHERASE) d)))"

text \<open>The part of the next page that will not be written is kept.\<close>

definition keep_trailing :: "u16 \<Rightarrow> u16 \<Rightarrow> bool \<Rightarrow> dataflash \<Rightarrow> stop + dataflash" where
  "keep_trailing TotalBlocks CurrDFPage UsingSecondBuffer d =
     (if TotalBlocks * of_nat (VIRTUAL_MEMORY_BLOCK_SIZE div 16) < of_nat (DATAFLASH_PAGE_SIZE div 16) then
        (case Dataflash_WaitWhileBusy d of
           Inl e \<Rightarrow> Inl e
         | Inr d \<Rightarrow> Dataflash_WaitWhileBusy (Dataflash_SendAddressBytes CurrDFPage 0
             (Dataflash_SendByte (if UsingSecondBuffer then DF_CMD_MAINMEMTOBUFF2 else DF_CMD_MAINMEMTOBUFF1) d)))
      else Inr d)"

text \<open>The end of a page; \<open>fill\<close> sends the command that fills the next buffer, in which the two writing functions differ.\<close>

definition next_page :: "(bool \<Rightarrow> dataflash \<Rightarrow> dataflash) \<Rightarrow> u16 \<Rightarrow> cursor \<Rightarrow> dataflash \<Rightarrow> stop + cursor \<times> dataflash" where
  "next_page fill TotalBlocks cursor d =
     (case cursor of (CurrDFPage, CurrDFPageByteDiv16, UsingSecondBuffer) \<Rightarrow>
       if CurrDFPageByteDiv16 = PAGE_DIV16 then
         (case send_page CurrDFPage UsingSecondBuffer d of
            Inl e \<Rightarrow> Inl e
          | Inr d \<Rightarrow>
              let CurrDFPage = CurrDFPage + 1;
                  UsingSecondBuffer = (if Dataflash_GetSelectedChip d = DATAFLASH_CHIP2 then \<not> UsingSecondBuffer else UsingSecondBuffer);
                  d = Dataflash_SelectChipFromPage CurrDFPage d
              in case keep_trailing TotalBlocks CurrDFPage UsingSecondBuffer d of
                   Inl e \<Rightarrow> Inl e
                 | Inr d \<Rightarrow> Inr ((CurrDFPage, 0, UsingSecondBuffer), Dataflash_SendAddressBytes 0 0 (fill UsingSecondBuffer d)))
       else Inr (cursor, d))"

definition fill_used_buffer :: "bool \<Rightarrow> dataflash \<Rightarrow> dataflash" where
  "fill_used_buffer UsingSecondBuffer d = Dataflash_SendByte (if UsingSecondBuffer then DF_CMD_BUFF2WRITE else DF_CMD_BUFF1WRITE) d"

definition fill_first_buffer :: "bool \<Rightarrow> dataflash \<Rightarrow> dataflash" where
  "fill_first_buffer UsingSecondBuffer d = Dataflash_SendByte DF_CMD_BUFF1WRITE (Dataflash_ToggleSelectedChipCS d)"

definition end_write :: "cursor \<Rightarrow> dataflash \<Rightarrow> stop + unit \<times> dataflash" where
  "end_write cursor d =
     (case cursor of (CurrDFPage, _, UsingSecondBuffer) \<Rightarrow>
       case send_page CurrDFPage UsingSecondBuffer d of
         Inl e \<Rightarrow> Inl e | Inr d \<Rightarrow> (case Dataflash_WaitWhileBusy d of Inl e \<Rightarrow> Inl e | Inr d \<Rightarrow> Inr ((), d)))"

fun endpoint_to_flash :: "nat \<Rightarrow> 'a disk_scheme \<Rightarrow> 'a disk_scheme" where
  "endpoint_to_flash 0 s = s"
| "endpoint_to_flash (Suc n) s =
     (case Endpoint_Read_Byte s of (b, s) \<Rightarrow> endpoint_to_flash n (with_Flash (Dataflash_SendByte b) s))"

text \<open>The wait for the next packet, or for the last one to be collected; the result is its error code.\<close>

definition next_bank :: "('a disk_scheme \<Rightarrow> 'a disk_scheme) \<Rightarrow> 'a disk_scheme world \<Rightarrow> 'a disk_scheme \<Rightarrow> ('a disk_scheme, u8) run" where
  "next_bank clear w s =
     (if \<not> Endpoint_IsReadWriteAllowed s then
        (case w of [] \<Rightarrow> Inl Waiting | e # w \<Rightarrow> Endpoint_WaitUntilReady w (e (clear s)))
      else Inr (ENDPOINT_READYWAIT_NoError, s, w))"

text \<open>One chunk of sixteen bytes; no cursor means that the function returns early.\<close>

definition write_chunk :: "u16 \<Rightarrow> cursor \<Rightarrow> 'a disk_scheme world \<Rightarrow> 'a disk_scheme \<Rightarrow> ('a disk_scheme, cursor option) run" where
  "write_chunk TotalBlocks cursor w s =
     bind_run (next_bank Endpoint_ClearOUT w s) (\<lambda>ErrorCode s w.
       if ErrorCode \<noteq> 0 then Inr (None, s, w)
       else bind_run (on_Flash (next_page fill_used_buffer TotalBlocks cursor) w s) (\<lambda>(p, q, u) s w.
         let s = endpoint_to_flash 16 s
         in Inr (if IsMassStoreReset s then None else Some (p, q + 1, u), s, w)))"

fun transfer_chunks :: "(cursor \<Rightarrow> 's world \<Rightarrow> 's \<Rightarrow> ('s, cursor option) run) \<Rightarrow> nat \<Rightarrow> cursor \<Rightarrow> 's world \<Rightarrow> 's \<Rightarrow> ('s, cursor option) run" where
  "transfer_chunks chunk 0 cursor w s = Inr (Some cursor, s, w)"
| "transfer_chunks chunk (Suc n) cursor w s =
     bind_run (chunk cursor w s) (\<lambda>r s w. case r of None \<Rightarrow> Inr (None, s, w) | Some cursor \<Rightarrow> transfer_chunks chunk n cursor w s)"

fun transfer_blocks :: "(u16 \<Rightarrow> cursor \<Rightarrow> 's world \<Rightarrow> 's \<Rightarrow> ('s, cursor option) run) \<Rightarrow> nat \<Rightarrow> cursor \<Rightarrow> 's world \<Rightarrow> 's \<Rightarrow> ('s, cursor option) run" where
  "transfer_blocks chunk 0 cursor w s = Inr (Some cursor, s, w)"
| "transfer_blocks chunk (Suc n) cursor w s =
     bind_run (transfer_chunks (chunk (of_nat (Suc n))) BLOCK_DIV16 cursor w s)
       (\<lambda>r s w. case r of None \<Rightarrow> Inr (None, s, w) | Some cursor \<Rightarrow> transfer_blocks chunk n cursor w s)"

definition DataflashManager_WriteBlocks :: "u32 \<Rightarrow> u16 \<Rightarrow> 'a disk_scheme world \<Rightarrow> 'a disk_scheme \<Rightarrow> ('a disk_scheme, unit) run" where
  "DataflashManager_WriteBlocks BlockAddress TotalBlocks w s =
     bind_run (on_Flash (begin_write BlockAddress) w s) (\<lambda>_ s w.
     bind_run (Endpoint_WaitUntilReady w s) (\<lambda>ErrorCode s w.
       if ErrorCode \<noteq> 0 then Inr ((), s, w)
       else bind_run (transfer_blocks write_chunk (unat TotalBlocks) (start_cursor BlockAddress) w s) (\<lambda>r s w.
         case r of
           None \<Rightarrow> Inr ((), s, w)
         | Some cursor \<Rightarrow>
             bind_run (on_Flash (end_write cursor) w s) (\<lambda>_ s w.
               Inr ((), with_Flash Dataflash_DeselectChip (if \<not> Endpoint_IsReadWriteAllowed s then Endpoint_ClearOUT s else s), w)))))"

section \<open>Reading\<close>

definition begin_page_read :: "u16 \<Rightarrow> u16 \<Rightarrow> dataflash \<Rightarrow> dataflash" where
  "begin_page_read CurrDFPage CurrDFPageByte d =
     (let d = Dataflash_SelectChipFromPage CurrDFPage d;
          d = Dataflash_SendAddressBytes CurrDFPage CurrDFPageByte (Dataflash_SendByte DF_CMD_MAINMEMPAGEREAD d)
      in fold Dataflash_SendByte [0x00, 0x00, 0x00, 0x00] d)"

definition next_page_read :: "cursor \<Rightarrow> dataflash \<Rightarrow> cursor \<times> dataflash" where
  "next_page_read cursor d =
     (case cursor of (CurrDFPage, CurrDFPageByteDiv16, u) \<Rightarrow>
       if CurrDFPageByteDiv16 = PAGE_DIV16 then ((CurrDFPage + 1, 0, u), begin_page_read (CurrDFPage + 1) 0 d) else (cursor, d))"

fun flash_to_endpoint :: "nat \<Rightarrow> 'a disk_scheme \<Rightarrow> 'a disk_scheme" where
  "flash_to_endpoint 0 s = s"
| "flash_to_endpoint (Suc n) s =
     (case Dataflash_ReceiveByte (Flash s) of (b, d) \<Rightarrow> flash_to_endpoint n (Endpoint_Write_Byte b (s\<lparr>Flash := d\<rparr>)))"

definition read_chunk :: "u16 \<Rightarrow> cursor \<Rightarrow> 'a disk_scheme world \<Rightarrow> 'a disk_scheme \<Rightarrow> ('a disk_scheme, cursor option) run" where
  "read_chunk TotalBlocks cursor w s =
     bind_run (next_bank Endpoint_ClearIN w s) (\<lambda>ErrorCode s w.
       if ErrorCode \<noteq> 0 then Inr (None, s, w)
       else
         case next_page_read cursor (Flash s) of ((p, q, u), d) \<Rightarrow>
           let s = flash_to_endpoint 16 (s\<lparr>Flash := d\<rparr>)
           in Inr (if IsMassStoreReset s then None else Some (p, q + 1, u), s, w))"

definition DataflashManager_ReadBlocks :: "u32 \<Rightarrow> u16 \<Rightarrow> 'a disk_scheme world \<Rightarrow> 'a disk_scheme \<Rightarrow> ('a disk_scheme, unit) run" where
  "DataflashManager_ReadBlocks BlockAddress TotalBlocks w s =
     (let s = with_Flash (begin_page_read (first_page BlockAddress) (first_page_byte BlockAddress)) s
      in bind_run (Endpoint_WaitUntilReady w s) (\<lambda>ErrorCode s w.
           if ErrorCode \<noteq> 0 then Inr ((), s, w)
           else bind_run (transfer_blocks read_chunk (unat TotalBlocks) (start_cursor BlockAddress) w s) (\<lambda>r s w.
             case r of
               None \<Rightarrow> Inr ((), s, w)
             | Some cursor \<Rightarrow> Inr ((), with_Flash Dataflash_DeselectChip (if \<not> Endpoint_IsReadWriteAllowed s then Endpoint_ClearIN s else s), w))))"

section \<open>Blocks in memory\<close>

text \<open>
  The functions for a buffer in RAM. Their state is the flash with the bytes still to be written, or with those read so
  far; they wait for nothing but the memories. Reading past the buffer is a fault.
\<close>

definition ram_write_chunk :: "u16 \<Rightarrow> cursor \<Rightarrow> (dataflash \<times> u8 list) world \<Rightarrow> dataflash \<times> u8 list \<Rightarrow> (dataflash \<times> u8 list, cursor option) run" where
  "ram_write_chunk TotalBlocks cursor w s =
     (case s of (d, Buffer) \<Rightarrow>
       case next_page fill_first_buffer TotalBlocks cursor d of
         Inl e \<Rightarrow> Inl e
       | Inr ((p, q, u), d) \<Rightarrow>
           if length Buffer < 16 then Inl Fault
           else Inr (Some (p, q + 1, u), (fold Dataflash_SendByte (take 16 Buffer) d, drop 16 Buffer), w))"

definition DataflashManager_WriteBlocks_RAM :: "u32 \<Rightarrow> u16 \<Rightarrow> u8 list \<Rightarrow> dataflash \<Rightarrow> stop + dataflash" where
  "DataflashManager_WriteBlocks_RAM BlockAddress TotalBlocks Buffer d =
     (case begin_write BlockAddress d of
        Inl e \<Rightarrow> Inl e
      | Inr (_, d) \<Rightarrow>
          case transfer_blocks ram_write_chunk (unat TotalBlocks) (start_cursor BlockAddress) [] (d, Buffer) of
            Inl e \<Rightarrow> Inl e
          | Inr (None, (d, _), _) \<Rightarrow> Inr d
          | Inr (Some cursor, (d, _), _) \<Rightarrow>
              case end_write cursor d of Inl e \<Rightarrow> Inl e | Inr (_, d) \<Rightarrow> Inr (Dataflash_DeselectChip d))"

definition ram_read_chunk :: "u16 \<Rightarrow> cursor \<Rightarrow> (dataflash \<times> u8 list) world \<Rightarrow> dataflash \<times> u8 list \<Rightarrow> (dataflash \<times> u8 list, cursor option) run" where
  "ram_read_chunk TotalBlocks cursor w s =
     (case s of (d, read) \<Rightarrow>
       case next_page_read cursor d of ((p, q, u), d) \<Rightarrow>
         case df_receive_bytes 16 d of (bs, d) \<Rightarrow> Inr (Some (p, q + 1, u), (d, read @ bs), w))"

definition DataflashManager_ReadBlocks_RAM :: "u32 \<Rightarrow> u16 \<Rightarrow> dataflash \<Rightarrow> stop + u8 list \<times> dataflash" where
  "DataflashManager_ReadBlocks_RAM BlockAddress TotalBlocks d =
     (let d = begin_page_read (first_page BlockAddress) (first_page_byte BlockAddress) d
      in case transfer_blocks ram_read_chunk (unat TotalBlocks) (start_cursor BlockAddress) [] (d, []) of
           Inl e \<Rightarrow> Inl e
         | Inr (_, (d, read), _) \<Rightarrow> Inr (read, Dataflash_DeselectChip d))"

section \<open>Protection and test\<close>

definition reset_protection :: "u8 \<Rightarrow> dataflash \<Rightarrow> dataflash" where
  "reset_protection Chip d =
     (let d = Dataflash_SendByte DF_CMD_GETSTATUS (Dataflash_SelectChip Chip d)
      in case Dataflash_ReceiveByte d of (b, d) \<Rightarrow>
           if b AND DF_STATUS_SECTORPROTECTION_ON \<noteq> 0 then
             fold Dataflash_SendByte DF_CMD_SECTORPROTECTIONOFF (Dataflash_ToggleSelectedChipCS d)
           else d)"

definition DataflashManager_ResetDataflashProtections :: "dataflash \<Rightarrow> dataflash" where
  "DataflashManager_ResetDataflashProtections d = Dataflash_DeselectChip (reset_protection DATAFLASH_CHIP2 (reset_protection DATAFLASH_CHIP1 d))"

definition test_chip :: "u8 \<Rightarrow> dataflash \<Rightarrow> bool \<times> dataflash" where
  "test_chip Chip d =
     (case Dataflash_ReceiveByte (Dataflash_SendByte DF_CMD_READMANUFACTURERDEVICEINFO (Dataflash_SelectChip Chip d)) of
        (ReturnByte, d) \<Rightarrow> (ReturnByte = DF_MANUFACTURER_ATMEL, Dataflash_DeselectChip d))"

definition DataflashManager_CheckDataflashOperation :: "dataflash \<Rightarrow> bool \<times> dataflash" where
  "DataflashManager_CheckDataflashOperation d =
     (case test_chip DATAFLASH_CHIP1 d of (ok, d) \<Rightarrow> if \<not> ok then (False, d) else test_chip DATAFLASH_CHIP2 d)"

end
