(* ===== verification/Scsi.thy ===== *)
theory Scsi
  imports DataflashManager
begin

text \<open>
  The commands of the mass storage demonstration: \<open>Demos/Device/ClassDriver/MassStorage/Lib/SCSI.c\<close> and the structures and
  macros of \<open>Lib/SCSI.h\<close>, for the one logical unit of \<open>MassStorage.h\<close>. The driver calls
  \<open>SCSI_DecodeSCSICommand\<close> for every command block, with the endpoint of its data selected. The streams get no callback,
  so the library's stream functions are those of \<open>UsbDevice\<close>.
\<close>

section \<open>Commands and sense data\<close>

definition SCSI_CMD_INQUIRY :: u8 where "SCSI_CMD_INQUIRY = 0x12"
definition SCSI_CMD_REQUEST_SENSE :: u8 where "SCSI_CMD_REQUEST_SENSE = 0x03"
definition SCSI_CMD_TEST_UNIT_READY :: u8 where "SCSI_CMD_TEST_UNIT_READY = 0x00"
definition SCSI_CMD_READ_CAPACITY_10 :: u8 where "SCSI_CMD_READ_CAPACITY_10 = 0x25"
definition SCSI_CMD_SEND_DIAGNOSTIC :: u8 where "SCSI_CMD_SEND_DIAGNOSTIC = 0x1D"
definition SCSI_CMD_PREVENT_ALLOW_MEDIUM_REMOVAL :: u8 where "SCSI_CMD_PREVENT_ALLOW_MEDIUM_REMOVAL = 0x1E"
definition SCSI_CMD_WRITE_10 :: u8 where "SCSI_CMD_WRITE_10 = 0x2A"
definition SCSI_CMD_READ_10 :: u8 where "SCSI_CMD_READ_10 = 0x28"
definition SCSI_CMD_VERIFY_10 :: u8 where "SCSI_CMD_VERIFY_10 = 0x2F"

lemmas scsi_command_defs = SCSI_CMD_INQUIRY_def SCSI_CMD_REQUEST_SENSE_def SCSI_CMD_TEST_UNIT_READY_def SCSI_CMD_READ_CAPACITY_10_def
  SCSI_CMD_SEND_DIAGNOSTIC_def SCSI_CMD_PREVENT_ALLOW_MEDIUM_REMOVAL_def SCSI_CMD_WRITE_10_def SCSI_CMD_READ_10_def SCSI_CMD_VERIFY_10_def

definition SCSI_SENSE_KEY_GOOD :: u8 where "SCSI_SENSE_KEY_GOOD = 0x00"
definition SCSI_SENSE_KEY_HARDWARE_ERROR :: u8 where "SCSI_SENSE_KEY_HARDWARE_ERROR = 0x04"
definition SCSI_SENSE_KEY_ILLEGAL_REQUEST :: u8 where "SCSI_SENSE_KEY_ILLEGAL_REQUEST = 0x05"
definition SCSI_ASENSE_NO_ADDITIONAL_INFORMATION :: u8 where "SCSI_ASENSE_NO_ADDITIONAL_INFORMATION = 0x00"
definition SCSI_ASENSE_INVALID_COMMAND :: u8 where "SCSI_ASENSE_INVALID_COMMAND = 0x20"
definition SCSI_ASENSE_LOGICAL_BLOCK_ADDRESS_OUT_OF_RANGE :: u8 where "SCSI_ASENSE_LOGICAL_BLOCK_ADDRESS_OUT_OF_RANGE = 0x21"
definition SCSI_ASENSE_INVALID_FIELD_IN_CDB :: u8 where "SCSI_ASENSE_INVALID_FIELD_IN_CDB = 0x24"
definition SCSI_ASENSEQ_NO_QUALIFIER :: u8 where "SCSI_ASENSEQ_NO_QUALIFIER = 0x00"

lemmas scsi_sense_defs = SCSI_SENSE_KEY_GOOD_def SCSI_SENSE_KEY_HARDWARE_ERROR_def SCSI_SENSE_KEY_ILLEGAL_REQUEST_def
  SCSI_ASENSE_NO_ADDITIONAL_INFORMATION_def SCSI_ASENSE_INVALID_COMMAND_def SCSI_ASENSE_LOGICAL_BLOCK_ADDRESS_OUT_OF_RANGE_def
  SCSI_ASENSE_INVALID_FIELD_IN_CDB_def SCSI_ASENSEQ_NO_QUALIFIER_def

definition LUN_MEDIA_BLOCKS :: u32 where "LUN_MEDIA_BLOCKS = VIRTUAL_MEMORY_BLOCKS div 1"

text \<open>The fields of \<open>SenseData\<close> that change; the key has four bits.\<close>

record scsi = disk +
  SenseKey :: u8
  AdditionalSenseCode :: u8
  AdditionalSenseQualifier :: u8

definition SCSI_SET_SENSE :: "u8 \<Rightarrow> u8 \<Rightarrow> u8 \<Rightarrow> 'a scsi_scheme \<Rightarrow> 'a scsi_scheme" where
  "SCSI_SET_SENSE key acode aqual s = s\<lparr>SenseKey := key AND 0x0F, AdditionalSenseCode := acode, AdditionalSenseQualifier := aqual\<rparr>"

definition SenseData :: "'a scsi_scheme \<Rightarrow> u8 list" where
  "SenseData s = [0x70, 0, SenseKey s, 0, 0, 0, 0, 0x0A, 0, 0, 0, 0, AdditionalSenseCode s, AdditionalSenseQualifier s, 0, 0, 0, 0]"

definition InquiryData :: "u8 list" where
  "InquiryData = [0x00, 0x80, 0, 0x02, 0x1F, 0, 0, 0] @ map of_char ''LUFA'' @ [0, 0, 0, 0] @ map of_char ''Dataflash Disk'' @ [0, 0] @ map of_char ''0.00''"

section \<open>The commands\<close>

definition SCSICommandData :: "'a ms_scheme \<Rightarrow> nat \<Rightarrow> u8" where
  "SCSICommandData s i = cb_SCSICommandData (CommandBlock s) ! i"

text \<open>\<open>DataTransferLength -= n\<close>.\<close>

definition bytes_transferred :: "u32 \<Rightarrow> 'a ms_scheme \<Rightarrow> 'a ms_scheme" where
  "bytes_transferred n s = s\<lparr>CommandBlock := (CommandBlock s)\<lparr>cb_DataTransferLength := cb_DataTransferLength (CommandBlock s) - n\<rparr>\<rparr>"

definition all_transferred :: "'a ms_scheme \<Rightarrow> 'a ms_scheme" where
  "all_transferred s = s\<lparr>CommandBlock := (CommandBlock s)\<lparr>cb_DataTransferLength := 0\<rparr>\<rparr>"

text \<open>\<open>PadBytes\<close> is never set: what is sent is what the \<open>stack\<close> holds.\<close>

definition SCSI_Command_Inquiry :: "(nat \<Rightarrow> u8) \<Rightarrow> 'a scsi_scheme world \<Rightarrow> 'a scsi_scheme \<Rightarrow> ('a scsi_scheme, unit) run" where
  "SCSI_Command_Inquiry stack w s =
     (let AllocationLength = push_bit 8 (ucast (SCSICommandData s 3)) OR ucast (SCSICommandData s 4) :: u16;
          BytesTransferred = (if AllocationLength < 36 then AllocationLength else 36)
      in if SCSICommandData s 1 AND (1 OR push_bit 1 1) \<noteq> 0 \<or> SCSICommandData s 2 \<noteq> 0 then
           Inr ((), SCSI_SET_SENSE SCSI_SENSE_KEY_ILLEGAL_REQUEST SCSI_ASENSE_INVALID_FIELD_IN_CDB SCSI_ASENSEQ_NO_QUALIFIER s, w)
         else
           bind_run (Endpoint_Write_Stream_LE InquiryData BytesTransferred w s) (\<lambda>_ s w.
           bind_run (Endpoint_Write_Stream_LE (map stack [0..<unat (AllocationLength - BytesTransferred)]) (AllocationLength - BytesTransferred) w s)
             (\<lambda>_ s w. Inr ((), bytes_transferred (ucast BytesTransferred) (Endpoint_ClearIN s), w))))"

definition SCSI_Command_Request_Sense :: "(nat \<Rightarrow> u8) \<Rightarrow> 'a scsi_scheme world \<Rightarrow> 'a scsi_scheme \<Rightarrow> ('a scsi_scheme, unit) run" where
  "SCSI_Command_Request_Sense stack w s =
     (let AllocationLength = SCSICommandData s 4;
          BytesTransferred = (if AllocationLength < 18 then AllocationLength else 18)
      in bind_run (Endpoint_Write_Stream_LE (SenseData s) (ucast BytesTransferred) w s) (\<lambda>_ s w.
         bind_run (Endpoint_Write_Stream_LE (map stack [0..<unat (AllocationLength - BytesTransferred)]) (ucast (AllocationLength - BytesTransferred)) w s)
           (\<lambda>_ s w. Inr ((), bytes_transferred (ucast BytesTransferred) (Endpoint_ClearIN s), w))))"

definition SCSI_Command_Read_Capacity_10 :: "'a scsi_scheme world \<Rightarrow> 'a scsi_scheme \<Rightarrow> ('a scsi_scheme, unit) run" where
  "SCSI_Command_Read_Capacity_10 w s =
     bind_run (Endpoint_Write_Stream_BE (le_bytes 4 (LUN_MEDIA_BLOCKS - 1)) 4 w s) (\<lambda>_ s w.
     bind_run (Endpoint_Write_Stream_BE (le_bytes 4 (of_nat VIRTUAL_MEMORY_BLOCK_SIZE :: u32)) 4 w s) (\<lambda>_ s w.
       Inr ((), bytes_transferred 8 (Endpoint_ClearIN s), w)))"

definition SCSI_Command_Send_Diagnostic :: "'a scsi_scheme \<Rightarrow> 'a scsi_scheme" where
  "SCSI_Command_Send_Diagnostic s =
     (if SCSICommandData s 1 AND push_bit 2 1 = 0 then
        SCSI_SET_SENSE SCSI_SENSE_KEY_ILLEGAL_REQUEST SCSI_ASENSE_INVALID_FIELD_IN_CDB SCSI_ASENSEQ_NO_QUALIFIER s
      else
        case DataflashManager_CheckDataflashOperation (Flash s) of (ok, d) \<Rightarrow>
          let s = s\<lparr>Flash := d\<rparr>
          in if \<not> ok then SCSI_SET_SENSE SCSI_SENSE_KEY_HARDWARE_ERROR SCSI_ASENSE_NO_ADDITIONAL_INFORMATION SCSI_ASENSEQ_NO_QUALIFIER s
             else all_transferred s)"

definition SwapEndian_16 :: "u16 \<Rightarrow> u16" where
  "SwapEndian_16 Word = drop_bit 8 Word OR push_bit 8 Word"

definition SwapEndian_32 :: "u32 \<Rightarrow> u32" where
  "SwapEndian_32 DWord = drop_bit 24 (DWord AND 0xFF000000) OR drop_bit 8 (DWord AND 0x00FF0000) OR
     push_bit 8 (DWord AND 0x0000FF00) OR push_bit 24 (DWord AND 0x000000FF)"

definition rw_BlockAddress :: "'a ms_scheme \<Rightarrow> u32" where
  "rw_BlockAddress s = SwapEndian_32 (le_word (map (SCSICommandData s) [2, 3, 4, 5]))"

definition rw_TotalBlocks :: "'a ms_scheme \<Rightarrow> u16" where
  "rw_TotalBlocks s = SwapEndian_16 (ucast (le_word (map (SCSICommandData s) [7, 8, 9, 10]) :: u32))"

definition SCSI_Command_ReadWrite_10 :: "bool \<Rightarrow> 'a scsi_scheme world \<Rightarrow> 'a scsi_scheme \<Rightarrow> ('a scsi_scheme, unit) run" where
  "SCSI_Command_ReadWrite_10 IsDataRead w s =
     (let BlockAddress = rw_BlockAddress s; TotalBlocks = rw_TotalBlocks s
      in if BlockAddress \<ge> LUN_MEDIA_BLOCKS then
           Inr ((), SCSI_SET_SENSE SCSI_SENSE_KEY_ILLEGAL_REQUEST SCSI_ASENSE_LOGICAL_BLOCK_ADDRESS_OUT_OF_RANGE SCSI_ASENSEQ_NO_QUALIFIER s, w)
         else
           bind_run (if IsDataRead then DataflashManager_ReadBlocks BlockAddress TotalBlocks w s
                     else DataflashManager_WriteBlocks BlockAddress TotalBlocks w s) (\<lambda>_ s w.
             Inr ((), bytes_transferred (ucast TotalBlocks * of_nat VIRTUAL_MEMORY_BLOCK_SIZE) s, w)))"

definition SCSI_DecodeSCSICommand :: "(nat \<Rightarrow> u8) \<Rightarrow> 'a scsi_scheme world \<Rightarrow> 'a scsi_scheme \<Rightarrow> ('a scsi_scheme, bool) run" where
  "SCSI_DecodeSCSICommand stack w s =
     (let s = SCSI_SET_SENSE SCSI_SENSE_KEY_GOOD SCSI_ASENSE_NO_ADDITIONAL_INFORMATION SCSI_ASENSEQ_NO_QUALIFIER s;
          cmd = SCSICommandData s 0
      in bind_run
           (if cmd = SCSI_CMD_INQUIRY then SCSI_Command_Inquiry stack w s
            else if cmd = SCSI_CMD_REQUEST_SENSE then SCSI_Command_Request_Sense stack w s
            else if cmd = SCSI_CMD_READ_CAPACITY_10 then SCSI_Command_Read_Capacity_10 w s
            else if cmd = SCSI_CMD_SEND_DIAGNOSTIC then Inr ((), SCSI_Command_Send_Diagnostic s, w)
            else if cmd = SCSI_CMD_WRITE_10 then SCSI_Command_ReadWrite_10 False w s
            else if cmd = SCSI_CMD_READ_10 then SCSI_Command_ReadWrite_10 True w s
            else if cmd = SCSI_CMD_TEST_UNIT_READY \<or> cmd = SCSI_CMD_PREVENT_ALLOW_MEDIUM_REMOVAL \<or> cmd = SCSI_CMD_VERIFY_10 then
              Inr ((), all_transferred s, w)
            else Inr ((), SCSI_SET_SENSE SCSI_SENSE_KEY_ILLEGAL_REQUEST SCSI_ASENSE_INVALID_COMMAND SCSI_ASENSEQ_NO_QUALIFIER s, w))
           (\<lambda>_ s w. Inr (SenseKey s = SCSI_SENSE_KEY_GOOD, s, w)))"

end
