(* ===== verification/DiskBlocks.thy ===== *)
theory DiskBlocks
  imports DataflashManager
begin

text \<open>
  What the block functions of \<open>DataflashManager\<close> do: a transfer of blocks reads, or replaces, that part of one array of
  bytes that both memories make up together, page by page in turns.
\<close>

section \<open>Commands of a memory that is at rest\<close>

lemma write_commands_execute:
  "df_in c = cmd # as \<Longrightarrow> df_write_buffer cmd = Some u \<Longrightarrow> chip_execute c = c"
  "df_in c = DF_CMD_MAINMEMPAGEREAD # as \<Longrightarrow> chip_execute c = c"
  by (auto simp: chip_execute_def Let_def df_load_buffer_def df_program_buffer_def df_write_buffer_def df_command_defs
      DF_CMD_SECTORPROTECTIONOFF_def split: if_splits)

lemma chip_filling_rest: "chip_filling u pos c \<Longrightarrow> chip_rest c = c\<lparr>df_busy := 0, df_in := []\<rparr>"
  by (auto simp: chip_filling_def chip_rest_def chip_deselect_def write_commands_execute(1))

lemma chip_reading_release: "chip_reading page pos c \<Longrightarrow> chip_deselect c = c\<lparr>df_in := []\<rparr>"
  by (auto simp: chip_reading_def chip_deselect_def write_commands_execute(2))

lemma chip_rest_empty: "df_in c = [] \<Longrightarrow> chip_rest c = c\<lparr>df_busy := 0\<rparr>" "df_in c = [] \<Longrightarrow> chip_deselect c = c"
  by (simp_all add: chip_rest_def chip_deselect_def chip_execute_def)

text \<open>The buffers as the code calls them.\<close>

definition buffer_of :: "bool \<Rightarrow> nat" where
  "buffer_of second = (if second then 2 else 1)"

definition program_command :: "bool \<Rightarrow> u8" where
  "program_command second = (if second then DF_CMD_BUFF2TOMAINMEMWITHERASE else DF_CMD_BUFF1TOMAINMEMWITHERASE)"

definition load_command :: "bool \<Rightarrow> u8" where
  "load_command second = (if second then DF_CMD_MAINMEMTOBUFF2 else DF_CMD_MAINMEMTOBUFF1)"

definition write_command :: "bool \<Rightarrow> u8" where
  "write_command second = (if second then DF_CMD_BUFF2WRITE else DF_CMD_BUFF1WRITE)"

lemma buffer_commands:
  "df_program_buffer (program_command u) = Some (buffer_of u)" "df_load_buffer (program_command u) = None"
  "df_load_buffer (load_command u) = Some (buffer_of u)" "df_write_buffer (write_command u) = Some (buffer_of u)"
  "program_command u \<noteq> DF_CMD_GETSTATUS" "load_command u \<noteq> DF_CMD_GETSTATUS" "write_command u \<noteq> DF_CMD_GETSTATUS"
  "program_command u # bs \<noteq> DF_CMD_SECTORPROTECTIONOFF" "load_command u # bs \<noteq> DF_CMD_SECTORPROTECTIONOFF"
  by (simp_all add: program_command_def load_command_def write_command_def buffer_of_def df_program_buffer_def df_load_buffer_def
      df_write_buffer_def df_command_defs DF_CMD_SECTORPROTECTIONOFF_def)

text \<open>A command with an address, as the selected memory gets it.\<close>

definition chip_command :: "u8 \<Rightarrow> u16 \<Rightarrow> u16 \<Rightarrow> df_chip \<Rightarrow> df_chip" where
  "chip_command cmd p o' c = fold chip_take (address_bytes p o') (chip_take cmd c)"

lemma command_selected:
  "df_selected (Some k) d \<Longrightarrow> Dataflash_SendAddressBytes p o' (Dataflash_SendByte cmd d) = df_upd k (chip_command cmd p o') d"
  by (simp add: Dataflash_SendAddressBytes_selected Dataflash_SendByte_selected chip_command_def [abs_def])

lemma chip_command_program:
  assumes "df_in c = []" "df_busy c = 0" "\<not> df_protected c" "unat p < 16384"
  shows "chip_deselect (chip_command (program_command u) p 0 c) =
    c\<lparr>df_mem := (df_mem c)(unat p div 2 := df_buf c (buffer_of u)), df_busy := df_time c, df_owner := buffer_of u\<rparr>"
  using assms
  by (simp add: chip_command_def chip_takes_address buffer_commands chip_deselect_def chip_execute_def Let_def address_bytes_decode)

lemma chip_command_load:
  assumes "df_in c = []" "df_busy c = 0" "unat p < 16384"
  shows "chip_rest (chip_command (load_command u) p 0 c) =
    c\<lparr>df_buf := (df_buf c)(buffer_of u := df_mem c (unat p div 2)), df_busy := 0, df_owner := buffer_of u\<rparr>"
  using assms
  by (simp add: chip_command_def chip_takes_address buffer_commands chip_rest_def chip_deselect_def chip_execute_def Let_def address_bytes_decode)

lemma chip_command_fill:
  assumes "df_in c = []" "df_busy c = 0 \<or> df_owner c \<noteq> buffer_of u" "unat b < 2048"
  shows "chip_command (write_command u) 0 b c = c\<lparr>df_in := write_command u # address_bytes 0 b\<rparr>"
    "chip_filling (buffer_of u) (unat b) (chip_command (write_command u) 0 b c)"
proof -
  show c: "chip_command (write_command u) 0 b c = c\<lparr>df_in := write_command u # address_bytes 0 b\<rparr>"
    using assms(1) by (simp add: chip_command_def chip_takes_address buffer_commands)
  show "chip_filling (buffer_of u) (unat b) (chip_command (write_command u) 0 b c)"
    unfolding chip_filling_def c using assms(2,3) by (auto simp: buffer_commands address_bytes_decode)
qed

lemma chip_command_read:
  assumes "df_in c = []" "df_busy c = 0" "unat p < 16384" "unat b < 2048"
  defines "c' \<equiv> fold chip_take [0, 0, 0, 0] (chip_command DF_CMD_MAINMEMPAGEREAD p b c)"
  shows "c' = c\<lparr>df_in := DF_CMD_MAINMEMPAGEREAD # address_bytes p b @ [0, 0, 0, 0]\<rparr>" "chip_reading (unat p div 2) (unat b) c'"
proof -
  have n: "df_write_buffer DF_CMD_MAINMEMPAGEREAD = None" "DF_CMD_MAINMEMPAGEREAD \<noteq> DF_CMD_GETSTATUS"
    by (simp_all add: df_write_buffer_def df_command_defs)
  show c: "c' = c\<lparr>df_in := DF_CMD_MAINMEMPAGEREAD # address_bytes p b @ [0, 0, 0, 0]\<rparr>"
    using assms(1) n by (simp add: c'_def chip_command_def chip_takes_address) (simp add: chip_take_def Let_def)
  show "chip_reading (unat p div 2) (unat b) c'"
    unfolding c chip_reading_def using assms(2-4) by (simp add: address_append address_bytes_decode)
qed

section \<open>The loops\<close>

lemma transfer_chunks_rule:
  assumes step: "\<And>k cursor w s. k < K \<Longrightarrow> I k cursor w s \<Longrightarrow> \<exists>cursor' w' s'. chunk cursor w s = Inr (Some cursor', s', w') \<and> I (Suc k) cursor' w' s'"
    and "I k cursor w s" "k + n \<le> K"
  shows "\<exists>cursor' w' s'. transfer_chunks chunk n cursor w s = Inr (Some cursor', s', w') \<and> I (k + n) cursor' w' s'"
  using assms(2,3)
proof (induction n arbitrary: k cursor w s)
  case (Suc n)
  have "k < K" using Suc.prems(2) by simp
  from step [OF this Suc.prems(1)] obtain c1 w1 s1 where 1: "chunk cursor w s = Inr (Some c1, s1, w1)" "I (Suc k) c1 w1 s1" by blast
  from Suc.IH [OF 1(2)] Suc.prems(2) show ?case using 1(1) by simp
qed auto

text \<open>A transfer of \<open>N\<close> blocks; \<open>k\<close> counts the chunks.\<close>

lemma transfer_blocks_rule:
  assumes step: "\<And>k cursor w s. k < BLOCK_DIV16 * N \<Longrightarrow> I k cursor w s \<Longrightarrow>
      \<exists>cursor' w' s'. chunk (of_nat (N - k div BLOCK_DIV16)) cursor w s = Inr (Some cursor', s', w') \<and> I (Suc k) cursor' w' s'"
    and "I 0 cursor w s"
  shows "\<exists>cursor' w' s'. transfer_blocks chunk N cursor w s = Inr (Some cursor', s', w') \<and> I (BLOCK_DIV16 * N) cursor' w' s'"
proof -
  have pos: "0 < BLOCK_DIV16" by (simp add: BLOCK_DIV16_def VIRTUAL_MEMORY_BLOCK_SIZE_def)
  have "\<exists>cursor' w' s'. transfer_blocks chunk n cursor w s = Inr (Some cursor', s', w') \<and> I (BLOCK_DIV16 * N) cursor' w' s'"
    if "I (BLOCK_DIV16 * (N - n)) cursor w s" "n \<le> N" for n cursor w s
    using that
  proof (induction n arbitrary: cursor w s)
    case (Suc n)
    let ?k = "BLOCK_DIV16 * (N - Suc n)"
    have e: "?k + BLOCK_DIV16 = BLOCK_DIV16 * (N - n)" using Suc.prems(2) by (metis Suc_diff_Suc Suc_le_lessD mult_Suc_right add.commute)
    have "\<exists>cursor' w' s'. chunk (of_nat (Suc n)) c w s = Inr (Some cursor', s', w') \<and> I (Suc k) cursor' w' s'"
      if "k < BLOCK_DIV16 * (N - n)" "?k \<le> k \<and> I k c w s" for k c w s
    proof -
      have "k div BLOCK_DIV16 = N - Suc n" using that e pos by (intro div_nat_eqI) auto
      moreover have "k < BLOCK_DIV16 * N" using that(1) by (meson diff_le_self less_le_trans mult_le_mono2)
      ultimately show ?thesis using step [of k c w s] that(2) Suc.prems(2) by simp
    qed
    then have "\<exists>cursor' w' s'. transfer_chunks (chunk (of_nat (Suc n))) BLOCK_DIV16 cursor w s = Inr (Some cursor', s', w') \<and>
        (?k \<le> ?k + BLOCK_DIV16 \<and> I (?k + BLOCK_DIV16) cursor' w' s')"
      using Suc.prems(1) e
      by (intro transfer_chunks_rule [where K = "BLOCK_DIV16 * (N - n)" and I = "\<lambda>k c w s. ?k \<le> k \<and> I k c w s"]) fastforce+
    then obtain c1 w1 s1 where 1: "transfer_chunks (chunk (of_nat (Suc n))) BLOCK_DIV16 cursor w s = Inr (Some c1, s1, w1)"
      "I (BLOCK_DIV16 * (N - n)) c1 w1 s1"
      unfolding e by blast
    from Suc.IH [OF 1(2)] Suc.prems(2) show ?case using 1(1) by simp
  qed simp
  from this [of N] assms(2) show ?thesis by simp
qed

end
