(* ===== verification/DiskRead.thy ===== *)
theory DiskRead
  imports DiskBlocks
begin

text \<open>
  Reading blocks: what the two memories hold, seen as one array of bytes, and the state of the selected memory while
  its pages are read. \<open>DataflashManager_ReadBlocks_RAM\<close> returns that part of the array and changes nothing.
\<close>

section \<open>The disk\<close>

definition disk_at :: "dataflash \<Rightarrow> nat \<Rightarrow> u8" where
  "disk_at d a = (if a < 16777216 then df_mem (df_chips d (a div 1024 mod 2)) (a div 2048) (a mod 1024) else 0xFF)"

text \<open>What a transfer leaves alone when it only reads.\<close>

definition same_store :: "dataflash \<Rightarrow> dataflash \<Rightarrow> bool" where
  "same_store d d' \<longleftrightarrow> (\<forall>j. df_mem (df_chips d' j) = df_mem (df_chips d j) \<and> df_busy (df_chips d' j) = df_busy (df_chips d j) \<and>
     df_protected (df_chips d' j) = df_protected (df_chips d j))"

lemma same_store_refl [simp]: "same_store d d"
  by (simp add: same_store_def)

lemma same_store_trans: "same_store d d' \<Longrightarrow> same_store d' d'' \<Longrightarrow> same_store d d''"
  by (simp add: same_store_def)

lemma same_store_disk: "same_store d d' \<Longrightarrow> disk_at d' = disk_at d"
  by (simp add: same_store_def disk_at_def fun_eq_iff)

lemma disk_page:
  assumes "unat p < 16384" "i < 1024"
  shows "disk_at d (1024 * unat p + i) = df_mem (df_chips d (unat p mod 2)) (unat p div 2) i"
proof -
  have "(1024 * unat p + i) div 1024 = unat p" "(1024 * unat p + i) mod 1024 = i" using assms(2) by simp_all
  moreover from this have "(1024 * unat p + i) div 2048 = unat p div 2" using div_mult2_eq [of "1024 * unat p + i" 1024 2] by simp
  ultimately show ?thesis using assms by (simp add: disk_at_def)
qed

section \<open>Reading\<close>

text \<open>No memory carries anything out when it is deselected.\<close>

definition df_quiet :: "dataflash \<Rightarrow> bool" where
  "df_quiet d \<longleftrightarrow> (\<exists>k. df_selected k d \<and> (case k of None \<Rightarrow> True | Some j \<Rightarrow> chip_execute (df_chips d j) = df_chips d j)) \<and>
     (\<forall>j < 2. df_busy (df_chips d j) = 0)"

text \<open>
  The memories after the time that the work they have begun takes them, in which nobody uses them. Only the memory that is
  written last is waited for, so after a transfer of several pages the other one may still be busy.
\<close>

definition df_finish :: "dataflash \<Rightarrow> dataflash" where
  "df_finish d = d\<lparr>df_chips := (\<lambda>j. (df_chips d j)\<lparr>df_busy := 0\<rparr>)\<rparr>"

lemma df_finish_simps [simp]:
  "disk_at (df_finish d) = disk_at d" "df_selected k (df_finish d) = df_selected k d" "df_mem (df_chips (df_finish d) j) = df_mem (df_chips d j)"
  "df_protected (df_chips (df_finish d) j) = df_protected (df_chips d j)"
  by (simp_all add: df_finish_def disk_at_def df_selected_def fun_eq_iff)

lemma deselected_quiet:
  "df_selected None d \<Longrightarrow> df_quiet (df_finish d)" "df_selected None d \<Longrightarrow> same_store c d \<Longrightarrow> df_quiet c \<Longrightarrow> df_quiet d"
  unfolding df_quiet_def same_store_def by (intro conjI exI [of _ None]; simp add: df_finish_def df_selected_def)+

definition reading_at :: "dataflash \<Rightarrow> u16 \<Rightarrow> nat \<Rightarrow> bool" where
  "reading_at d p b \<longleftrightarrow> df_selected (page_chip p) d \<and> (\<forall>j < 2. df_busy (df_chips d j) = 0) \<and>
     (case page_chip p of None \<Rightarrow> True | Some j \<Rightarrow> chip_reading (unat p div 2) b (df_chips d j))"

lemma reading_quiet: "reading_at d p b \<Longrightarrow> df_quiet d"
  unfolding df_quiet_def reading_at_def
  by (intro conjI exI [of _ "page_chip p"]) (auto simp: chip_reading_def write_commands_execute(2) split: option.splits)

lemma quiet_release:
  assumes "df_quiet d" "df_selected k d"
  shows "df_chips (df_release k d) = (case k of None \<Rightarrow> df_chips d | Some j \<Rightarrow> (df_chips d)(j := (df_chips d j)\<lparr>df_in := []\<rparr>))"
proof -
  obtain k' where k': "df_selected k' d" "case k' of None \<Rightarrow> True | Some j \<Rightarrow> chip_execute (df_chips d j) = df_chips d j"
    using assms(1) by (auto simp: df_quiet_def)
  then have "k' = k" using assms(2) by (auto simp: df_selected_def)
  then show ?thesis using k'(2) by (auto simp: df_release_def chip_deselect_def split: option.splits)
qed

lemma quiet_select:
  assumes "df_quiet d"
  shows "df_selected (page_chip p) (Dataflash_SelectChipFromPage p d)" "same_store d (Dataflash_SelectChipFromPage p d)"
    "page_chip p = Some j \<Longrightarrow> df_in (df_chips (Dataflash_SelectChipFromPage p d) j) = []"
proof -
  obtain k where k: "df_selected k d" using assms by (auto simp: df_quiet_def)
  note s = Dataflash_SelectChipFromPage_chips [OF k, of p] quiet_release [OF assms k]
  show "df_selected (page_chip p) (Dataflash_SelectChipFromPage p d)" by (rule s(1))
  show "same_store d (Dataflash_SelectChipFromPage p d)"
    by (auto simp: same_store_def s(2,3) chip_select_def split: option.splits)
  show "page_chip p = Some j \<Longrightarrow> df_in (df_chips (Dataflash_SelectChipFromPage p d) j) = []"
    by (simp add: s(2) chip_select_def)
qed

lemma page_chip_cases: "page_chip p = Some j \<Longrightarrow> unat p < 16384 \<and> j = unat p mod 2 \<and> j < 2" "page_chip p = None \<Longrightarrow> \<not> unat p < 16384"
  by (auto simp: page_chip_def split: if_splits)

text \<open>
  Without that time the code does not wait either: a page read that reaches a busy memory, as it does in the first
  memory after a write that ended in the second, gets \<open>0xFF\<close> for every byte.
\<close>

lemma busy_answers:
  assumes "df_selected (Some j) d" "df_in (df_chips d j) = DF_CMD_MAINMEMPAGEREAD # as" "df_busy (df_chips d j) \<noteq> 0"
  shows "fst (df_receive_bytes n d) = replicate n 0xFF"
  using assms
proof (induction n arbitrary: d as)
  case (Suc n)
  let ?d = "df_upd j (chip_take 0) d"
  have t: "df_in (df_chips ?d j) = DF_CMD_MAINMEMPAGEREAD # (as @ [0])" "df_busy (df_chips ?d j) = df_busy (df_chips d j)"
    using Suc.prems(2) by (simp_all add: chip_take_def df_command_defs df_write_buffer_def)
  have "fst (df_receive_bytes n ?d) = replicate n 0xFF" by (rule Suc.IH [OF _ t(1)]) (use Suc.prems t(2) in simp_all)
  moreover have "chip_answer (df_chips d j) = 0xFF" using Suc.prems(2,3) by (simp add: chip_answer_def df_command_defs)
  ultimately show ?case using Suc.prems(1) by (auto simp: Dataflash_ReceiveByte_selected split: prod.splits)
qed simp

lemma busy_page_reads_FF:
  assumes "df_selected None d" "page_chip p = Some j" "df_busy (df_chips d j) \<noteq> 0"
  shows "fst (df_receive_bytes n (begin_page_read p b d)) = replicate n 0xFF"
proof -
  let ?d = "Dataflash_SelectChipFromPage p d"
  have sel: "df_selected (Some j) ?d" using Dataflash_SelectChipFromPage_chips(1) [OF assms(1), of p] assms(2) by simp
  have c: "df_chips ?d j = (df_chips d j)\<lparr>df_in := []\<rparr>"
    using Dataflash_SelectChipFromPage_chips(2) [OF assms(1), of p] assms(2) by (simp add: df_release_def chip_select_def)
  have take: "fold chip_take bs c = c\<lparr>df_in := df_in c @ bs\<rparr>" if "df_in c = DF_CMD_MAINMEMPAGEREAD # as" for bs c as
    using that by (induction bs arbitrary: c as) (simp_all add: chip_take_def df_command_defs df_write_buffer_def)
  have upd: "fold chip_take bs ((df_chips d j)\<lparr>df_in := DF_CMD_MAINMEMPAGEREAD # as\<rparr>) =
      (df_chips d j)\<lparr>df_in := DF_CMD_MAINMEMPAGEREAD # as @ bs\<rparr>" for as bs by (subst take) simp_all
  have "chip_take DF_CMD_MAINMEMPAGEREAD (df_chips ?d j) = (df_chips d j)\<lparr>df_in := [DF_CMD_MAINMEMPAGEREAD]\<rparr>"
    by (simp add: chip_take_def c)
  then have "\<exists>as. fold chip_take [0, 0, 0, 0] (chip_command DF_CMD_MAINMEMPAGEREAD p b (df_chips ?d j)) = (df_chips d j)\<lparr>df_in := DF_CMD_MAINMEMPAGEREAD # as\<rparr>"
    by (intro exI [of _ "address_bytes p b @ [0, 0, 0, 0]"]) (simp only: chip_command_def upd append_Nil)
  then obtain as where e: "df_chips (begin_page_read p b d) j = (df_chips d j)\<lparr>df_in := DF_CMD_MAINMEMPAGEREAD # as\<rparr>"
    unfolding begin_page_read_def Let_def command_selected [OF sel] using sel by (auto simp: Dataflash_SendByte_selected simp del: fold_simps)
  have "df_selected (Some j) (begin_page_read p b d)"
    unfolding begin_page_read_def Let_def command_selected [OF sel] using sel by (simp add: Dataflash_SendByte_selected)
  then show ?thesis using assms(3) by (intro busy_answers [where as = as]) (assumption, subst e, simp, subst e, simp)
qed

lemma begin_page_read_reading:
  assumes "df_quiet d" "unat b < 1024"
  shows "reading_at (begin_page_read p b d) p (unat b)" "same_store d (begin_page_read p b d)"
proof -
  let ?d = "Dataflash_SelectChipFromPage p d"
  note q = quiet_select [OF assms(1), of p]
  have busy: "\<forall>j < 2. df_busy (df_chips ?d j) = 0" using assms(1) q(2) by (simp add: df_quiet_def same_store_def)
  have "reading_at (begin_page_read p b d) p (unat b) \<and> same_store d (begin_page_read p b d)"
  proof (cases "page_chip p")
    case None
    then have "begin_page_read p b d = ?d"
      using q(1) by (simp add: begin_page_read_def Let_def Dataflash_bytes_none Dataflash_SendAddressBytes_none)
    then show ?thesis using None q(1,2) busy by (simp add: reading_at_def)
  next
    case (Some j)
    note j = page_chip_cases(1) [OF Some]
    have sel: "df_selected (Some j) ?d" using q(1) Some by simp
    let ?c = "df_chips ?d j"
    have "begin_page_read p b d = df_upd j (\<lambda>c. fold chip_take [0, 0, 0, 0] (chip_command DF_CMD_MAINMEMPAGEREAD p b c)) ?d"
      unfolding begin_page_read_def Let_def command_selected [OF sel] using sel by (simp add: Dataflash_SendByte_selected)
    moreover have "unat b < 2048" "df_busy ?c = 0" using assms(2) busy j by simp_all
    note c = chip_command_read [OF q(3) [OF Some] this(2) _ this(1), of p] j
    ultimately show ?thesis
      using sel Some q(2) c busy
      by (simp add: reading_at_def same_store_def del: fold_simps)
  qed
  then show "reading_at (begin_page_read p b d) p (unat b)" "same_store d (begin_page_read p b d)" by simp_all
qed

lemma receive_reading:
  assumes "reading_at d p b" "b + n \<le> 1024"
  shows "\<exists>d'. df_receive_bytes n d = (map (disk_at d) [1024 * unat p + b..<1024 * unat p + b + n], d') \<and> reading_at d' p (b + n) \<and> same_store d d'"
proof (cases "page_chip p")
  case None
  then have "16777216 \<le> 1024 * unat p" using page_chip_cases(2) [OF None] by simp
  then have "map (disk_at d) [1024 * unat p + b..<1024 * unat p + b + n] = replicate n 0xFF"
    by (intro nth_equalityI) (simp_all add: disk_at_def)
  moreover have "df_receive_bytes n d = (replicate n 0xFF, d)"
    using assms(1) None by (intro df_receive_bytes_none) (simp add: reading_at_def)
  moreover have "reading_at d p (b + n)" using assms(1) None by (simp add: reading_at_def)
  ultimately show ?thesis by (intro exI [of _ d]) simp
next
  case (Some j)
  note j = page_chip_cases(1) [OF Some]
  have r: "df_selected (Some j) d" "chip_reading (unat p div 2) b (df_chips d j)" "\<forall>j < 2. df_busy (df_chips d j) = 0"
    using assms(1) Some by (simp_all add: reading_at_def)
  have "b + n \<le> DF_BUFFER_BYTES" using assms(2) by (simp add: DF_BUFFER_BYTES_def)
  from df_receive_bytes_reading [OF r(1,2) this] obtain d' where
    d': "df_receive_bytes n d = (map (df_mem (df_chips d j) (unat p div 2)) [b..<b + n], d')" "df_selected (Some j) d'"
      "chip_reading (unat p div 2) (b + n) (df_chips d' j)" "same_store d d'"
    unfolding same_store_def by blast
  have "map (df_mem (df_chips d j) (unat p div 2)) [b..<b + n] = map (disk_at d) [1024 * unat p + b..<1024 * unat p + b + n]"
  proof (rule nth_equalityI)
    fix i assume "i < length (map (df_mem (df_chips d j) (unat p div 2)) [b..<b + n])"
    then have "i < n" by simp
    then show "map (df_mem (df_chips d j) (unat p div 2)) [b..<b + n] ! i = map (disk_at d) [1024 * unat p + b..<1024 * unat p + b + n] ! i"
      using disk_page [of p "b + i" d] j assms(2) by (simp add: add.assoc)
  qed simp
  moreover have "reading_at d' p (b + n)" using d' r(3) Some by (simp add: reading_at_def same_store_def)
  ultimately show ?thesis using d' by auto
qed

text \<open>Before chunk \<open>k\<close> of a transfer from byte \<open>A\<close> of the disk on.\<close>

definition cursor_at :: "nat \<Rightarrow> nat \<Rightarrow> cursor \<Rightarrow> bool" where
  "cursor_at A k c \<longleftrightarrow> (case c of (p, q, u) \<Rightarrow> unat q \<le> 64 \<and> 1024 * unat p + 16 * unat q = A + 16 * k)"

definition read_inv :: "nat \<Rightarrow> nat \<Rightarrow> cursor \<Rightarrow> dataflash \<Rightarrow> bool" where
  "read_inv A k c d \<longleftrightarrow> cursor_at A k c \<and> (case c of (p, q, u) \<Rightarrow> reading_at d p (16 * unat q))"

lemma PAGE_DIV16_unat: "q = PAGE_DIV16 \<longleftrightarrow> unat q = 64"
  by (simp add: PAGE_DIV16_def DATAFLASH_PAGE_SIZE_def word_unat_eq_iff)

lemma unat_plus_one_u8: "unat q < 64 \<Longrightarrow> unat (q + 1) = unat q + 1" for q :: u8
  by (simp add: unat_word_ariths)

lemma unat_plus_one_u16: "unat p < 65535 \<Longrightarrow> unat (p + 1) = unat p + 1" for p :: u16
  by (simp add: unat_word_ariths)

lemma cursor_turn:
  assumes "cursor_at A k (p, q, u)" "A + 16 * k + 16 \<le> 67108864"
  shows "unat q = 64 \<Longrightarrow> cursor_at A k (p + 1, 0, u') \<and> unat (p + 1) = unat p + 1"
    "unat q \<noteq> 64 \<Longrightarrow> cursor_at A (Suc k) (p, q + 1, u) \<and> unat (q + 1) = unat q + 1"
proof -
  have e: "unat q \<le> 64" "1024 * unat p + 16 * unat q = A + 16 * k" using assms(1) by (simp_all add: cursor_at_def)
  show "cursor_at A k (p + 1, 0, u') \<and> unat (p + 1) = unat p + 1" if "unat q = 64"
  proof -
    have "unat p < 65535" using e assms(2) that by simp
    then show ?thesis using e that unat_plus_one_u16 [of p] by (simp add: cursor_at_def)
  qed
  show "cursor_at A (Suc k) (p, q + 1, u) \<and> unat (q + 1) = unat q + 1" if "unat q \<noteq> 64"
  proof -
    have "unat q < 64" using that e(1) by simp
    then show ?thesis using e unat_plus_one_u8 [of q] by (simp add: cursor_at_def)
  qed
qed

lemma read_step:
  assumes "read_inv A k c d" "A + 16 * k + 16 \<le> 67108864"
  shows "\<exists>p q u d1 d'. next_page_read c d = ((p, q, u), d1) \<and> df_receive_bytes 16 d1 = (map (disk_at d) [A + 16 * k..<A + 16 * k + 16], d') \<and>
    read_inv A (Suc k) (p, q + 1, u) d' \<and> same_store d d'"
proof -
  obtain p q u where c: "c = (p, q, u)" by (cases c)
  have i: "cursor_at A k (p, q, u)" "reading_at d p (16 * unat q)" using assms(1) by (simp_all add: read_inv_def c)
  have chunk: "\<exists>d'. df_receive_bytes 16 d1 = (map (disk_at d) [A + 16 * k..<A + 16 * k + 16], d') \<and>
      read_inv A (Suc k) (p, q + 1, u) d' \<and> same_store d d'"
    if j: "cursor_at A k (p, q, u)" "reading_at d1 p (16 * unat q)" "unat q \<noteq> 64" "same_store d d1" for p q u d1
  proof -
    have le: "16 * unat q + 16 \<le> 1024" "1024 * unat p + 16 * unat q = A + 16 * k" using j(1,3) by (auto simp: cursor_at_def)
    from receive_reading [OF j(2) le(1)] obtain d' where
      d': "df_receive_bytes 16 d1 = (map (disk_at d1) [A + 16 * k..<A + 16 * k + 16], d')" "reading_at d' p (16 * unat q + 16)" "same_store d1 d'"
      unfolding le(2) by blast
    show ?thesis
      using d' cursor_turn(2) [OF j(1) assms(2) j(3)] same_store_disk [OF j(4)] same_store_trans [OF j(4) d'(3)]
      by (intro exI [of _ d']) (simp add: read_inv_def add.commute)
  qed
  show ?thesis
  proof (cases "unat q = 64")
    case False
    then show ?thesis using chunk [OF i False] by (auto simp: c next_page_read_def PAGE_DIV16_unat)
  next
    case True
    let ?d = "begin_page_read (p + 1) 0 d"
    have "reading_at ?d (p + 1) (16 * unat (0 :: u8))" "same_store d ?d"
      using begin_page_read_reading [OF reading_quiet [OF i(2)], of 0 "p + 1"] by simp_all
    from chunk [OF cursor_turn(1) [OF i(1) assms(2) True, THEN conjunct1] this(1) _ this(2), of u] show ?thesis
      using True by (auto simp: c next_page_read_def PAGE_DIV16_unat)
  qed
qed

text \<open>Where a transfer begins.\<close>

lemma first_page_unat:
  assumes "unat B < 32768"
  shows "1024 * unat (first_page B) + unat (first_page_byte B) = 512 * unat B" "unat (first_page_byte B) mod 16 = 0" "unat (first_page_byte B) < 1024"
proof -
  have m: "unat (B * 512) = 512 * unat B" using assms by (simp add: unat_word_ariths)
  have "512 * unat B div 1024 < 65536" "512 * unat B mod 1024 < 1024" using assms by simp_all
  then have e: "unat (first_page B) = 512 * unat B div 1024" "unat (first_page_byte B) = 512 * unat B mod 1024"
    by (simp_all add: first_page_def first_page_byte_def VIRTUAL_MEMORY_BLOCK_SIZE_def DATAFLASH_PAGE_SIZE_def unsigned_ucast_eq
        unat_div unat_mod m take_bit_nat_eq_self)
  show "1024 * unat (first_page B) + unat (first_page_byte B) = 512 * unat B" "unat (first_page_byte B) < 1024"
    using mult_div_mod_eq [of 1024 "512 * unat B"] by (simp_all only: e mod_less_divisor zero_less_numeral)
  have "512 * unat B mod 1024 mod 16 = 512 * unat B mod 16" by (simp add: mod_mod_cancel)
  also have "\<dots> = 0" using mod_mult_self1_is_0 [of 16 "32 * unat B"] by (simp add: mult.commute)
  finally show "unat (first_page_byte B) mod 16 = 0" by (simp add: e)
qed

lemma start_cursor_at:
  assumes "unat B < 32768"
  shows "cursor_at (512 * unat B) 0 (start_cursor B)" "start_cursor B = (first_page B, ucast (drop_bit 4 (first_page_byte B)), False)"
    "16 * unat (ucast (drop_bit 4 (first_page_byte B)) :: u8) = unat (first_page_byte B)"
proof -
  note f = first_page_unat [OF assms]
  have "unat (drop_bit 4 (first_page_byte B)) = unat (first_page_byte B) div 16" by (simp add: drop_bit_eq_div unat_div)
  moreover have "unat (first_page_byte B) div 16 < 64" using f(3) by simp
  ultimately have q: "unat (ucast (drop_bit 4 (first_page_byte B)) :: u8) = unat (first_page_byte B) div 16"
    by (simp add: unsigned_ucast_eq take_bit_nat_eq_self)
  then show e: "16 * unat (ucast (drop_bit 4 (first_page_byte B)) :: u8) = unat (first_page_byte B)" using f(2) by (metis mult_div_mod_eq add.right_neutral)
  show s: "start_cursor B = (first_page B, ucast (drop_bit 4 (first_page_byte B)), False)" by (simp add: start_cursor_def)
  show "cursor_at (512 * unat B) 0 (start_cursor B)" using e f(1) q f(3) by (simp add: s cursor_at_def)
qed

lemma read_inv_start:
  assumes "unat B < 32768" "df_quiet d"
  shows "read_inv (512 * unat B) 0 (start_cursor B) (begin_page_read (first_page B) (first_page_byte B) d)"
    "same_store d (begin_page_read (first_page B) (first_page_byte B) d)"
  using start_cursor_at [OF assms(1)] begin_page_read_reading [OF assms(2) first_page_unat(3) [OF assms(1)], of "first_page B"]
  by (simp_all add: read_inv_def)

lemma read_inv_end:
  assumes "read_inv A k c d"
  shows "df_selected None (Dataflash_DeselectChip d)" "same_store d (Dataflash_DeselectChip d)"
proof -
  obtain p q u where c: "c = (p, q, u)" by (cases c)
  have r: "reading_at d p (16 * unat q)" using assms by (simp add: read_inv_def c)
  then have s: "df_selected (page_chip p) d" by (simp add: reading_at_def)
  show "df_selected None (Dataflash_DeselectChip d)" by (rule Dataflash_DeselectChip_chips(2) [OF s])
  show "same_store d (Dataflash_DeselectChip d)"
    using quiet_release [OF reading_quiet [OF r] s] by (auto simp: same_store_def Dataflash_DeselectChip_chips(1) [OF s] split: option.splits)
qed

lemma BLOCK_DIV16_16: "BLOCK_DIV16 = 32"
  by (simp add: BLOCK_DIV16_def VIRTUAL_MEMORY_BLOCK_SIZE_def)

lemma ReadBlocks_RAM_disk:
  assumes "unat B < 32768" "df_quiet d"
  shows "\<exists>d'. DataflashManager_ReadBlocks_RAM B N d = Inr (map (disk_at d) [512 * unat B..<512 * unat B + 512 * unat N], d') \<and>
    df_selected None d' \<and> same_store d d'"
proof -
  let ?A = "512 * unat B" and ?d = "begin_page_read (first_page B) (first_page_byte B) d"
  let ?I = "\<lambda>k c (w :: (dataflash \<times> u8 list) world) s. case s of (d', bs) \<Rightarrow>
      read_inv ?A k c d' \<and> same_store d d' \<and> bs = map (disk_at d) [?A..<?A + 16 * k]"
  note start = read_inv_start [OF assms]
  have lim: "unat N < 65536" by (rule unat_less_u16)
  have step: "\<exists>c' w' s'. ram_read_chunk T c w s = Inr (Some c', s', w') \<and> ?I (Suc k) c' w' s'"
    if k: "k < BLOCK_DIV16 * unat N" and I: "?I k c w s" for T k c w s
  proof -
    obtain d1 bs where s: "s = (d1, bs)" by (cases s)
    have r: "read_inv ?A k c d1" "same_store d d1" "bs = map (disk_at d) [?A..<?A + 16 * k]" using I by (simp_all add: s)
    have "?A + 16 * k + 16 \<le> 67108864" using k assms(1) lim by (simp add: BLOCK_DIV16_16)
    from read_step [OF r(1) this] obtain p q u d2 d3 where 1: "next_page_read c d1 = ((p, q, u), d2)"
      "df_receive_bytes 16 d2 = (map (disk_at d1) [?A + 16 * k..<?A + 16 * k + 16], d3)" "read_inv ?A (Suc k) (p, q + 1, u) d3" "same_store d1 d3"
      by blast
    have "[?A..<?A + 16 * Suc k] = [?A..<?A + 16 * k] @ [?A + 16 * k..<?A + 16 * k + 16]"
      using upt_add_eq_append [of ?A "?A + 16 * k" 16] by (simp add: ac_simps)
    then show ?thesis
      using 1 r same_store_disk [OF r(2)] same_store_trans [OF r(2) 1(4)]
      by (simp add: ram_read_chunk_def s del: upt_Suc)
  qed
  have "?I 0 (start_cursor B) [] (?d, [])" using start by simp
  from transfer_blocks_rule [where chunk = ram_read_chunk and N = "unat N" and I = ?I and w = "[]", OF step this] obtain c' w' d' where
    t: "transfer_blocks ram_read_chunk (unat N) (start_cursor B) [] (?d, []) = Inr (Some c', (d', map (disk_at d) [?A..<?A + 512 * unat N]), w')"
    "read_inv ?A (BLOCK_DIV16 * unat N) c' d'" "same_store d d'"
    by (auto simp: BLOCK_DIV16_16)
  then show ?thesis
    using read_inv_end [OF t(2)] same_store_trans [OF t(3)] by (simp add: DataflashManager_ReadBlocks_RAM_def Let_def)
qed

end
