(* ===== verification/DiskWrite.thy ===== *)
theory DiskWrite
  imports DiskRead
begin

text \<open>
  Writing blocks: the invariant of the loop over chunks of sixteen bytes (which part of the array is written, what
  the buffer of the current page holds, and that the other memory does not use the buffer that comes next), its
  preservation by one chunk, and what putting a buffer in its page does.
\<close>

section \<open>Writing\<close>

text \<open>The disk \<open>f\<close> with \<open>data\<close> written from \<open>A\<close> on, as far as address \<open>e\<close>.\<close>

definition written_to :: "nat \<Rightarrow> nat \<Rightarrow> u8 list \<Rightarrow> (nat \<Rightarrow> u8) \<Rightarrow> nat \<Rightarrow> u8" where
  "written_to e A data f x = (if A \<le> x \<and> x < e then data ! (x - A) else f x)"

definition buffer_free :: "bool \<Rightarrow> df_chip \<Rightarrow> bool" where
  "buffer_free u c \<longleftrightarrow> df_busy c = 0 \<or> df_owner c \<noteq> buffer_of u"

definition disk_up_to :: "nat \<Rightarrow> nat \<Rightarrow> u8 list \<Rightarrow> (nat \<Rightarrow> u8) \<Rightarrow> dataflash \<Rightarrow> bool" where
  "disk_up_to e A data f d \<longleftrightarrow> (\<forall>x < 16777216. disk_at d x = written_to e A data f x)"

text \<open>The buffer holds its page as far as it has been written, and all of it if the transfer ends in that page.\<close>

definition page_buffer :: "nat \<Rightarrow> u8 list \<Rightarrow> (nat \<Rightarrow> u8) \<Rightarrow> nat \<Rightarrow> u16 \<Rightarrow> nat \<Rightarrow> (nat \<Rightarrow> u8) \<Rightarrow> bool" where
  "page_buffer A data f e p n b \<longleftrightarrow> (\<forall>i < 1024. i < n \<or> A + length data < 1024 * unat p + 1024 \<longrightarrow> b i = written_to e A data f (1024 * unat p + i))"

definition unprotected :: "dataflash \<Rightarrow> bool" where
  "unprotected d \<longleftrightarrow> (\<forall>j < 2. \<not> df_protected (df_chips d j))"

text \<open>The memory of the page takes bytes for its buffer; the other one does not use the buffer that is next.\<close>

definition write_inv :: "nat \<Rightarrow> u8 list \<Rightarrow> (nat \<Rightarrow> u8) \<Rightarrow> nat \<Rightarrow> cursor \<Rightarrow> dataflash \<Rightarrow> bool" where
  "write_inv A data f k c d \<longleftrightarrow> cursor_at A k c \<and> unprotected d \<and>
     (case c of (p, q, u) \<Rightarrow> df_selected (page_chip p) d \<and> disk_up_to (1024 * unat p) A data f d \<and>
       (case page_chip p of
          None \<Rightarrow> True
        | Some j \<Rightarrow> chip_filling (buffer_of u) (16 * unat q) (df_chips d j) \<and>
            page_buffer A data f (A + 16 * k) p (16 * unat q) (df_buf (df_chips d j) (buffer_of u)) \<and>
            buffer_free (if even (unat p) then u else \<not> u) (df_chips d (1 - j))))"

lemma fold_send_selected: "df_selected (Some j) d \<Longrightarrow> fold Dataflash_SendByte bs d = df_upd j (fold chip_take bs) d"
proof (induction bs arbitrary: d)
  case Nil
  then show ?case using df_upd_id [of j d] by (simp add: id_def)
next
  case (Cons b bs)
  then show ?case by (simp add: Dataflash_SendByte_selected comp_def)
qed

lemma fold_send_none: "df_selected None d \<Longrightarrow> fold Dataflash_SendByte bs d = d"
  by (induction bs) (simp_all add: Dataflash_bytes_none)

lemma write_step:
  assumes "write_inv A data f k (p, q, u) d" "unat q \<noteq> 64" "16 * k + 16 \<le> length data" "A + length data \<le> 67108864"
  shows "write_inv A data f (Suc k) (p, q + 1, u) (fold Dataflash_SendByte (take 16 (drop (16 * k) data)) d)"
proof -
  let ?bs = "take 16 (drop (16 * k) data)"
  have i: "cursor_at A k (p, q, u)" "unprotected d" "df_selected (page_chip p) d" "disk_up_to (1024 * unat p) A data f d"
    using assms(1) by (simp_all add: write_inv_def)
  have "A + 16 * k + 16 \<le> 67108864" using assms(3,4) by simp
  note c = cursor_turn(2) [OF i(1) this assms(2)]
  have at: "1024 * unat p + 16 * unat q = A + 16 * k" "16 * unat q + 16 \<le> 1024" using i(1) assms(2) by (auto simp: cursor_at_def)
  have bs: "length ?bs = 16" using assms(3) by simp
  show ?thesis
  proof (cases "page_chip p")
    case None
    then have "fold Dataflash_SendByte ?bs d = d" using i(3) by (simp add: fold_send_none)
    then show ?thesis using i c None by (simp add: write_inv_def)
  next
    case (Some j)
    let ?c = "df_chips d j" and ?d = "df_upd j (fold chip_take ?bs) d"
    have w: "chip_filling (buffer_of u) (16 * unat q) ?c" "page_buffer A data f (A + 16 * k) p (16 * unat q) (df_buf ?c (buffer_of u))"
      "buffer_free (if even (unat p) then u else \<not> u) (df_chips d (1 - j))"
      using assms(1) Some by (simp_all add: write_inv_def)
    have j: "j < 2" using page_chip_cases(1) [OF Some] by simp
    have "16 * unat q + length ?bs \<le> DF_BUFFER_BYTES" unfolding bs using at(2) by (simp add: DF_BUFFER_BYTES_def)
    from chip_filling_takes [OF w(1) this] have t: "fold chip_take ?bs ?c = ?c\<lparr>df_in := df_in ?c @ ?bs,
          df_buf := (df_buf ?c)(buffer_of u := overlay (16 * unat q) ?bs (df_buf ?c (buffer_of u)))\<rparr>"
      "chip_filling (buffer_of u) (16 * unat q + 16) (fold chip_take ?bs ?c)"
      unfolding bs by blast+
    have same: "df_mem (df_chips ?d m) = df_mem (df_chips d m)" "df_protected (df_chips ?d m) = df_protected (df_chips d m)" for m
      by (simp_all add: t(1))
    have disk: "disk_at ?d x = disk_at d x" for x by (simp only: disk_at_def same)
    have buf: "page_buffer A data f (A + 16 * Suc k) p (16 * unat q + 16) (overlay (16 * unat q) ?bs (df_buf ?c (buffer_of u)))"
      unfolding page_buffer_def
    proof (intro allI impI)
      fix n assume n: "n < 1024" "n < 16 * unat q + 16 \<or> A + length data < 1024 * unat p + 1024"
      show "overlay (16 * unat q) ?bs (df_buf ?c (buffer_of u)) n = written_to (A + 16 * Suc k) A data f (1024 * unat p + n)"
      proof (cases "16 * unat q \<le> n \<and> n < 16 * unat q + 16")
        case True
        have "1024 * unat p + n - A = 16 * k + (n - 16 * unat q)" using at(1) True by linarith
        moreover have "A \<le> 1024 * unat p + n" "1024 * unat p + n < A + 16 * Suc k" using at(1) True by simp_all
        moreover have "n - 16 * unat q < 16" using True by linarith
        ultimately show ?thesis using True bs assms(3) by (simp add: overlay_def written_to_def)
      next
        case False
        then have "df_buf ?c (buffer_of u) n = written_to (A + 16 * k) A data f (1024 * unat p + n)"
          using w(2) n by (auto simp: page_buffer_def)
        moreover have "1024 * unat p + n < A + 16 * k \<longleftrightarrow> 1024 * unat p + n < A + 16 * Suc k" using at(1) False by auto
        ultimately show ?thesis using False bs by (auto simp: overlay_def written_to_def)
      qed
    qed
    have "fold Dataflash_SendByte ?bs d = ?d" using i(3) Some by (simp add: fold_send_selected)
    moreover have "unprotected ?d" "disk_up_to (1024 * unat p) A data f ?d"
      using i(2,4) by (simp_all only: unprotected_def disk_up_to_def disk same)
    moreover have "1 - j \<noteq> j" using j by (cases j) auto
    moreover have "df_buf (df_chips ?d j) (buffer_of u) = overlay (16 * unat q) ?bs (df_buf ?c (buffer_of u))" by (simp add: t(1))
    ultimately show ?thesis
      using i(3) c Some t(2) buf w(3) by (simp add: write_inv_def add.commute)
  qed
qed

section \<open>The end of a page\<close>

lemma chip_mask_bit: "bit DATAFLASH_CHIPCS_MASK n \<longleftrightarrow> n = 0 \<or> n = 1"
  by (auto simp only: DATAFLASH_CHIPCS_MASK_def bit_or_iff bit_push_bit_iff bit_1_iff possible_bit_word) auto

lemma GetSelectedChip_second:
  assumes "df_selected k d"
  shows "Dataflash_GetSelectedChip d = DATAFLASH_CHIP2 \<longleftrightarrow> k = Some 1"
proof
  assume "Dataflash_GetSelectedChip d = DATAFLASH_CHIP2"
  then have "bit (Dataflash_GetSelectedChip d) 1 = bit DATAFLASH_CHIP2 1" by simp
  then show "k = Some 1"
    using assms by (auto simp: Dataflash_GetSelectedChip_def bit_and_iff chip_mask_bit DATAFLASH_CHIP2_def df_selected_def)
next
  assume "k = Some 1"
  then show "Dataflash_GetSelectedChip d = DATAFLASH_CHIP2"
    using assms
    by (intro bit_eqI) (auto simp: Dataflash_GetSelectedChip_def bit_and_iff chip_mask_bit DATAFLASH_CHIP2_def bit_1_iff df_selected_def)
qed

lemma disk_page_replaced:
  assumes "unat p < 16384" "\<And>m. df_mem (df_chips d' m) = (if m = unat p mod 2 then (df_mem (df_chips d m))(unat p div 2 := b) else df_mem (df_chips d m))"
    "x < 16777216"
  shows "disk_at d' x = (if 1024 * unat p \<le> x \<and> x < 1024 * unat p + 1024 then b (x - 1024 * unat p) else disk_at d x)"
proof (cases "x div 1024 = unat p")
  case True
  then have x: "x = 1024 * unat p + x mod 1024" using mult_div_mod_eq [of 1024 x] by simp
  then have "disk_at d' x = b (x mod 1024)" using disk_page [of p "x mod 1024" d'] assms(1,2) by simp
  moreover have "1024 * unat p \<le> x \<and> x < 1024 * unat p + 1024 \<and> x - 1024 * unat p = x mod 1024"
    using x mod_less_divisor [of 1024 x] by linarith
  ultimately show ?thesis by simp
next
  case False
  have h: "x div 2048 = x div 1024 div 2" using div_mult2_eq [of x 1024 2] by simp
  have "\<not> (x div 1024 mod 2 = unat p mod 2 \<and> x div 1024 div 2 = unat p div 2)"
    using False mult_div_mod_eq [of 2 "x div 1024"] mult_div_mod_eq [of 2 "unat p"] by metis
  then have "disk_at d' x = disk_at d x" by (auto simp: disk_at_def assms(2,3) h)
  moreover have "\<not> (1024 * unat p \<le> x \<and> x < 1024 * unat p + 1024)"
    using False by (metis add.commute div_nat_eqI mult.commute mult_Suc)
  ultimately show ?thesis by auto
qed

definition programmed :: "u16 \<Rightarrow> bool \<Rightarrow> df_chip \<Rightarrow> df_chip" where
  "programmed p u c = c\<lparr>df_in := [], df_mem := (df_mem c)(unat p div 2 := df_buf c (buffer_of u)), df_busy := df_time c, df_owner := buffer_of u\<rparr>"

lemma send_page_selected:
  assumes "df_selected (Some j) d" "page_chip p = Some j" "chip_filling v n (df_chips d j)" "unprotected d"
  shows "\<exists>d'. send_page p u d = Inr d' \<and> df_selected (Some j) d' \<and> df_chips (df_release (Some j) d') = (df_chips d)(j := programmed p u (df_chips d j)) \<and>
    (\<exists>d''. Dataflash_WaitWhileBusy d' = Inr d'' \<and> df_selected (Some j) d'' \<and> df_chips d'' = (df_chips d)(j := (programmed p u (df_chips d j))\<lparr>df_busy := 0\<rparr>))"
proof -
  let ?c = "df_chips d j"
  let ?d = "df_upd j (\<lambda>c. chip_command (program_command u) p 0 (chip_rest c)) d"
  have j: "unat p < 16384" "j < 2" using page_chip_cases(1) [OF assms(2)] by simp_all
  have "\<not> df_protected ?c" using assms(4) j(2) by (simp add: unprotected_def)
  then have c: "chip_deselect (df_chips ?d j) = programmed p u ?c"
    using j(1) by (simp add: chip_filling_rest [OF assms(3)] chip_command_program programmed_def)
  have w: "Dataflash_WaitWhileBusy d = Inr (df_upd j chip_rest d)" by (rule Dataflash_WaitWhileBusy_selected [OF assms(1)])
  have "df_selected (Some j) (df_upd j chip_rest d)" using assms(1) by simp
  from command_selected [OF this, of p 0 "program_command u"] have "send_page p u d = Inr ?d"
    by (simp add: send_page_def w program_command_def)
  moreover have sel: "df_selected (Some j) ?d" using assms(1) by simp
  moreover have "df_chips (df_release (Some j) ?d) = (df_chips d)(j := programmed p u ?c)"
    using c by (simp add: df_release_def)
  moreover have "Dataflash_WaitWhileBusy ?d = Inr (df_upd j chip_rest ?d)" by (rule Dataflash_WaitWhileBusy_selected [OF sel])
  moreover have "df_chips (df_upd j chip_rest ?d) = (df_chips d)(j := (programmed p u ?c)\<lparr>df_busy := 0\<rparr>)"
    using c by (simp add: chip_rest_def)
  ultimately show ?thesis using sel by (metis df_upd_simps(3))
qed

lemma send_page_none: "df_selected None d \<Longrightarrow> send_page p u d = Inr d"
  by (simp add: send_page_def Dataflash_WaitWhileBusy_none Dataflash_bytes_none Dataflash_SendAddressBytes_none)

text \<open>Putting a finished buffer in its page extends what has been written.\<close>

lemma page_committed:
  assumes "page_chip p = Some j" "disk_up_to (1024 * unat p) A data f d" "page_buffer A data f (A + 16 * k) p (16 * n) b"
    "n = 64 \<or> A + length data < 1024 * unat p + 1024" "1024 * unat p + 16 * n = A + 16 * k" "n \<le> 64"
    "\<And>m. df_mem (df_chips d' m) = (if m = j then (df_mem (df_chips d m))(unat p div 2 := b) else df_mem (df_chips d m))"
  shows "disk_up_to (A + 16 * k) A data f d'"
  unfolding disk_up_to_def
proof (intro allI impI)
  fix x :: nat assume x: "x < 16777216"
  note j = page_chip_cases(1) [OF assms(1)]
  have m: "df_mem (df_chips d' m) = (if m = unat p mod 2 then (df_mem (df_chips d m))(unat p div 2 := b) else df_mem (df_chips d m))" for m
    using assms(7) j by simp
  show "disk_at d' x = written_to (A + 16 * k) A data f x"
  proof (cases "1024 * unat p \<le> x \<and> x < 1024 * unat p + 1024")
    case True
    then have "b (x - 1024 * unat p) = written_to (A + 16 * k) A data f (1024 * unat p + (x - 1024 * unat p))"
      using assms(3,4) by (auto simp: page_buffer_def)
    then show ?thesis using True disk_page_replaced [OF _ m x] j by simp
  next
    case False
    have "disk_at d x = written_to (1024 * unat p) A data f x" using assms(2) x by (simp add: disk_up_to_def)
    moreover have "x < 1024 * unat p \<longleftrightarrow> x < A + 16 * k" using False assms(5,6) by linarith
    ultimately have "disk_at d x = written_to (A + 16 * k) A data f x" by (simp add: written_to_def)
    moreover have "disk_at d' x = disk_at d x" using disk_page_replaced [OF conjunct1 [OF j] m x] False by auto
    ultimately show ?thesis by simp
  qed
qed

section \<open>An instance\<close>

text \<open>Two memories at rest that hold the byte \<open>0xA5\<close> everywhere.\<close>

definition df_demo :: dataflash where
  "df_demo = \<lparr>df_PORTE = 3, df_DDRE = 3, df_chips = (\<lambda>_. \<lparr>df_mem = (\<lambda>_ _. 0xA5), df_buf = (\<lambda>_ _. 0), df_in = [], df_busy = 0, df_owner = 1,
     df_time = 2, df_protected = False\<rparr>)\<rparr>"

lemma df_demo: "df_quiet df_demo" "unprotected df_demo" "a < 16777216 \<Longrightarrow> disk_at df_demo a = 0xA5" "df_buf (df_chips df_demo j) u = (\<lambda>_. 0)"
  by (simp_all add: df_demo_def df_quiet_def unprotected_def disk_at_def df_selected_def) (intro exI [of _ None], simp add: bit_simps reg_bits)

end
