(* ===== verification/DiskTurn.thy ===== *)
theory DiskTurn
  imports DiskWrite
begin

text \<open>
  Writing blocks, from one page to the next: the buffer is put in its page, the next memory is selected and its buffer
  made ready, with the old contents of the page when the transfer ends in it.
\<close>

section \<open>From one page to the next\<close>

lemma written_beyond: "disk_up_to e A data f d \<Longrightarrow> 16777216 \<le> e \<Longrightarrow> e \<le> e' \<Longrightarrow> disk_up_to e' A data f d"
  by (auto simp: disk_up_to_def written_to_def)

text \<open>The buffer is put away and the memory of the next page selected.\<close>

definition at_next_page :: "nat \<Rightarrow> u8 list \<Rightarrow> (nat \<Rightarrow> u8) \<Rightarrow> u16 \<Rightarrow> bool \<Rightarrow> dataflash \<Rightarrow> bool" where
  "at_next_page A data f p u d \<longleftrightarrow> df_selected (page_chip p) d \<and> unprotected d \<and> disk_up_to (1024 * unat p) A data f d \<and>
     (case page_chip p of
        None \<Rightarrow> True
      | Some j \<Rightarrow> df_in (df_chips d j) = [] \<and> buffer_free u (df_chips d j) \<and>
          buffer_free (if even (unat p) then u else \<not> u) (df_chips d (1 - j)))"

lemma write_inv_page_ends:
  assumes "write_inv A data f k (p, q, u) d" "unat q = 64" "unat p < 65535"
  defines "u' \<equiv> if even (unat p) then u else \<not> u"
  shows "\<exists>d'. send_page p u d = Inr d' \<and> (page_chip p \<noteq> None \<longrightarrow> (Dataflash_GetSelectedChip d' = DATAFLASH_CHIP2 \<longleftrightarrow> odd (unat p))) \<and>
    at_next_page A data f (p + 1) u' (Dataflash_SelectChipFromPage (p + 1) d')"
proof -
  have i: "cursor_at A k (p, q, u)" "unprotected d" "df_selected (page_chip p) d" "disk_up_to (1024 * unat p) A data f d"
    using assms(1) by (simp_all add: write_inv_def)
  have at: "1024 * unat p + 16 * 64 = A + 16 * k" using i(1) assms(2) by (simp add: cursor_at_def)
  have p: "unat (p + 1) = unat p + 1" using assms(3) by (rule unat_plus_one_u16)
  show ?thesis
  proof (cases "page_chip p")
    case None
    then have n: "\<not> unat p < 16384" "page_chip (p + 1) = None" using page_chip_cases(2) [OF None] p by (simp_all add: page_chip_def)
    let ?d = "Dataflash_SelectChipFromPage (p + 1) d"
    have "df_chips ?d = df_chips d"
      using i(3) None n(2) by (simp add: Dataflash_SelectChipFromPage_chips(2) [of None] df_release_def)
    then have "disk_up_to (1024 * unat p) A data f ?d" "unprotected ?d" using i(2,4) by (simp_all add: disk_up_to_def disk_at_def unprotected_def)
    moreover from this(1) have "disk_up_to (1024 * unat (p + 1)) A data f ?d" by (rule written_beyond) (use n(1) p in simp_all)
    moreover have "df_selected (page_chip (p + 1)) ?d" by (rule Dataflash_SelectChipFromPage_chips(1) [OF i(3)])
    ultimately show ?thesis using send_page_none [of d p u] i(3) None n(2) by (simp add: at_next_page_def)
  next
    case (Some j)
    let ?c = "programmed p u (df_chips d j)"
    have j: "unat p < 16384" "j = unat p mod 2" "j < 2" using page_chip_cases(1) [OF Some] by simp_all
    have w: "chip_filling (buffer_of u) (16 * unat q) (df_chips d j)" "page_buffer A data f (A + 16 * k) p (16 * 64) (df_buf (df_chips d j) (buffer_of u))"
      "buffer_free u' (df_chips d (1 - j))"
      using assms(1,2) Some by (simp_all add: write_inv_def u'_def)
    obtain d1 where d1: "send_page p u d = Inr d1" "df_selected (Some j) d1" "df_chips (df_release (Some j) d1) = (df_chips d)(j := ?c)"
      using send_page_selected [OF _ Some w(1) i(2)] i(3) Some by auto
    let ?d = "Dataflash_SelectChipFromPage (p + 1) d1"
    note s = Dataflash_SelectChipFromPage_chips [OF d1(2), of "p + 1"]
    have ch: "df_chips ?d = (case page_chip (p + 1) of None \<Rightarrow> (df_chips d)(j := ?c)
        | Some i \<Rightarrow> ((df_chips d)(j := ?c))(i := chip_select (((df_chips d)(j := ?c)) i)))"
      using s(2) by (simp only: d1(3))
    have m: "df_mem (df_chips ?d i) = (if i = j then (df_mem (df_chips d i))(unat p div 2 := df_buf (df_chips d j) (buffer_of u)) else df_mem (df_chips d i))" for i
      by (auto simp: ch chip_select_def programmed_def split: option.splits)
    have "disk_up_to (A + 16 * k) A data f ?d" by (rule page_committed [OF Some i(4) w(2) _ at _ m]) simp_all
    moreover have "1024 * unat (p + 1) = A + 16 * k" using at p by simp
    ultimately have "disk_up_to (1024 * unat (p + 1)) A data f ?d" by (simp only:)
    moreover have "unprotected ?d"
      using i(2) by (auto simp: unprotected_def ch chip_select_def programmed_def split: option.splits)
    moreover have "df_in (df_chips ?d i) = [] \<and> buffer_free u' (df_chips ?d i) \<and> buffer_free (if even (unat (p + 1)) then u' else \<not> u') (df_chips ?d (1 - i))"
      if i: "page_chip (p + 1) = Some i" for i
    proof -
      have "i = (unat p + 1) mod 2" using page_chip_cases(1) [OF i] p by simp
      then have e: "i = 1 - j" "1 - i = j" "i \<noteq> j" using j(2) by (auto simp: mod2_eq_if)
      have "buffer_free (if even (unat (p + 1)) then u' else \<not> u') ?c"
        by (simp add: p u'_def buffer_free_def programmed_def buffer_of_def)
      moreover have "df_chips ?d i = chip_select (df_chips d i)" "df_chips ?d j = ?c" using i e(3) by (simp_all add: ch)
      ultimately show ?thesis
        using w(3) unfolding e(1) [symmetric] e(2) by (simp add: chip_select_def buffer_free_def [of _ "_\<lparr>df_in := _\<rparr>"] buffer_free_def [of _ "df_chips d i"])
    qed
    moreover have "Dataflash_GetSelectedChip d1 = DATAFLASH_CHIP2 \<longleftrightarrow> odd (unat p)"
      using GetSelectedChip_second [OF d1(2)] j(2) by (auto simp: odd_iff_mod_2_eq_one)
    ultimately show ?thesis using d1(1) s(1) by (auto simp: at_next_page_def split: option.splits)
  qed
qed

lemma at_next_page_loads:
  assumes "at_next_page A data f p u d"
  shows "\<exists>d'. keep_trailing T p u d = Inr d' \<and> at_next_page A data f p u d' \<and>
    (T = 1 \<longrightarrow> (case page_chip p of None \<Rightarrow> True | Some j \<Rightarrow> df_buf (df_chips d' j) (buffer_of u) = df_mem (df_chips d' j) (unat p div 2)))"
proof -
  have i: "df_selected (page_chip p) d" using assms by (simp add: at_next_page_def)
  have 1: "T = 1 \<Longrightarrow> T * of_nat (VIRTUAL_MEMORY_BLOCK_SIZE div 16) < of_nat (DATAFLASH_PAGE_SIZE div 16)"
    by (simp add: VIRTUAL_MEMORY_BLOCK_SIZE_def DATAFLASH_PAGE_SIZE_def)
  show ?thesis
  proof (cases "page_chip p")
    case None
    then show ?thesis using assms i
      by (intro exI [of _ d]) (simp add: keep_trailing_def Dataflash_WaitWhileBusy_none Dataflash_bytes_none Dataflash_SendAddressBytes_none)
  next
    case (Some j)
    let ?c = "df_chips d j"
    let ?c' = "?c\<lparr>df_buf := (df_buf ?c)(buffer_of u := df_mem ?c (unat p div 2)), df_busy := 0, df_owner := buffer_of u\<rparr>"
    have j: "unat p < 16384" using page_chip_cases(1) [OF Some] by simp
    have c: "df_in ?c = []" using assms Some by (simp add: at_next_page_def)
    have sel: "df_selected (Some j) d" using i Some by simp
    let ?d1 = "df_upd j chip_rest d"
    let ?d = "df_upd j (\<lambda>c. chip_rest (chip_command (load_command u) p 0 (chip_rest c))) d"
    have "Dataflash_WaitWhileBusy d = Inr ?d1" by (rule Dataflash_WaitWhileBusy_selected [OF sel])
    moreover have "df_selected (Some j) ?d1" using sel by simp
    note command_selected [OF this, of p 0 "load_command u"]
    moreover have "df_selected (Some j) (df_upd j (chip_command (load_command u) p 0) ?d1)" using sel by simp
    note Dataflash_WaitWhileBusy_selected [OF this]
    ultimately have k: "keep_trailing T p u d = Inr (if T * of_nat (VIRTUAL_MEMORY_BLOCK_SIZE div 16) < of_nat (DATAFLASH_PAGE_SIZE div 16) then ?d else d)"
      by (simp add: keep_trailing_def load_command_def)
    have ch: "df_chips ?d = (df_chips d)(j := ?c')"
      using c chip_command_load [of "?c\<lparr>df_busy := 0\<rparr>" p u] j by (simp add: chip_rest_empty)
    have sel': "df_selected (Some j) ?d" using sel by simp
    obtain d2 where d2: "d2 = ?d" by blast
    have "disk_at d2 = disk_at d" unfolding d2 by (simp only: fun_eq_iff disk_at_def ch) auto
    moreover have "1 - j \<noteq> j" by (cases j) auto
    moreover have "unprotected d2" using assms by (auto simp: at_next_page_def unprotected_def d2 ch simp del: df_upd_simps(2))
    ultimately have n: "at_next_page A data f p u d2"
      using assms Some sel' by (auto simp: at_next_page_def disk_up_to_def ch [folded d2] d2 [symmetric] buffer_free_def)
    show ?thesis
    proof (cases "T * of_nat (VIRTUAL_MEMORY_BLOCK_SIZE div 16) < of_nat (DATAFLASH_PAGE_SIZE div 16)")
      case True
      then show ?thesis using k n Some unfolding d2 [symmetric] by (intro exI [of _ d2]) (simp add: ch [folded d2])
    next
      case False
      then have "T \<noteq> 1" using 1 by blast
      then show ?thesis using k False assms by (intro exI [of _ d]) simp
    qed
  qed
qed

lemma at_next_page_fills:
  assumes "at_next_page A data f p u d" "cursor_at A k (p, 0, u)"
    "A + length data < 1024 * unat p + 1024 \<Longrightarrow>
      (case page_chip p of None \<Rightarrow> True | Some j \<Rightarrow> df_buf (df_chips d j) (buffer_of u) = df_mem (df_chips d j) (unat p div 2))"
  shows "write_inv A data f k (p, 0, u) (Dataflash_SendAddressBytes 0 0 (fill_used_buffer u d))"
proof -
  have i: "df_selected (page_chip p) d" "unprotected d" "disk_up_to (1024 * unat p) A data f d" using assms(1) by (simp_all add: at_next_page_def)
  have fill: "fill_used_buffer u d = Dataflash_SendByte (write_command u) d" by (simp add: fill_used_buffer_def write_command_def)
  have at: "A + 16 * k = 1024 * unat p" using assms(2) by (simp add: cursor_at_def)
  show ?thesis
  proof (cases "page_chip p")
    case None
    then show ?thesis
      using i assms(2) by (simp add: fill Dataflash_bytes_none Dataflash_SendAddressBytes_none write_inv_def)
  next
    case (Some j)
    let ?c = "df_chips d j"
    have a: "df_in ?c = []" "df_busy ?c = 0 \<or> df_owner ?c \<noteq> buffer_of u" "buffer_free (if even (unat p) then u else \<not> u) (df_chips d (1 - j))"
      using assms(1) Some by (simp_all add: at_next_page_def buffer_free_def)
    have j: "unat p < 16384" "j = unat p mod 2" using page_chip_cases(1) [OF Some] by simp_all
    have sel: "df_selected (Some j) d" using i(1) Some by simp
    note c = chip_command_fill [OF a(1,2), of 0, simplified]
    let ?d = "df_upd j (chip_command (write_command u) 0 0) d"
    have same: "df_mem (df_chips ?d m) = df_mem (df_chips d m)" "df_protected (df_chips ?d m) = df_protected (df_chips d m)" for m
      by (simp_all add: c(1))
    have "page_buffer A data f (A + 16 * k) p 0 (df_buf ?c (buffer_of u))"
      unfolding page_buffer_def
    proof (intro allI impI)
      fix n :: nat assume n: "n < 1024" "n < 0 \<or> A + length data < 1024 * unat p + 1024"
      then have "df_buf ?c (buffer_of u) n = disk_at d (1024 * unat p + n)" using assms(3) Some disk_page [OF j(1) n(1), of d] j(2) by simp
      moreover have "1024 * unat p + n < 16777216" using j(1) n(1) by linarith
      ultimately show "df_buf ?c (buffer_of u) n = written_to (A + 16 * k) A data f (1024 * unat p + n)"
        using i(3) at by (simp add: disk_up_to_def)
    qed
    moreover have "disk_up_to (1024 * unat p) A data f ?d" "unprotected ?d"
      using i(2,3) by (simp_all only: unprotected_def disk_up_to_def disk_at_def same)
    moreover have "1 - j \<noteq> j" by (cases j) auto
    ultimately show ?thesis
      using c a(3) sel Some assms(2)
      by (simp add: fill command_selected [OF sel] write_inv_def)
  qed
qed

end
