(* ===== verification/DiskStream.thy ===== *)
theory DiskStream
  imports DiskRead
begin

text \<open>
  \<open>DataflashManager_ReadBlocks\<close>: the blocks go through the selected endpoint to the host, in packets of 64 bytes.
\<close>

section \<open>Blocks through an endpoint\<close>

lemma Flash_frame [simp]:
  "Flash (upd_cur f s) = Flash s" "IsMassStoreReset (s\<lparr>Flash := d\<rparr>) = IsMassStoreReset s" "cur (s\<lparr>Flash := d\<rparr>) = cur s"
  "UENUM (s\<lparr>Flash := d\<rparr>) = UENUM s" "(upd_cur f s)\<lparr>Flash := d\<rparr> = upd_cur f (s\<lparr>Flash := d\<rparr>)"
  by (simp_all add: upd_cur_def upd_ep_def cur_def)

lemma flash_to_endpoint_bytes:
  "df_receive_bytes n (Flash s) = (bs, d) \<Longrightarrow> flash_to_endpoint n s = fold Endpoint_Write_Byte bs (s\<lparr>Flash := d\<rparr>)"
proof (induction n arbitrary: s bs d)
  case 0
  then show ?case by simp
next
  case (Suc n)
  obtain b d1 where 1: "Dataflash_ReceiveByte (Flash s) = (b, d1)" by fastforce
  obtain bs' d2 where 2: "df_receive_bytes n d1 = (bs', d2)" by fastforce
  have "flash_to_endpoint n (Endpoint_Write_Byte b (s\<lparr>Flash := d1\<rparr>)) = fold Endpoint_Write_Byte bs' ((Endpoint_Write_Byte b (s\<lparr>Flash := d1\<rparr>))\<lparr>Flash := d2\<rparr>)"
    by (rule Suc.IH) (simp add: Endpoint_ops_cur(4) [of b] 2)
  then show ?case using Suc.prems 1 2 by (auto simp: Endpoint_ops_cur(4) [of b])
qed

lemma push_bytes:
  "length (r_bank (cur s)) + length bs \<le> ep_size (cur s) \<Longrightarrow>
   fold Endpoint_Write_Byte bs s = upd_cur (\<lambda>ep. ep\<lparr>r_bank := r_bank ep @ bs\<rparr>) s"
proof (induction bs arbitrary: s)
  case Nil
  then show ?case by (simp add: upd_cur_def upd_ep_def)
next
  case (Cons b bs)
  let ?s = "upd_cur (ep_push b) s"
  have c: "cur ?s = (cur s)\<lparr>r_bank := r_bank (cur s) @ [b]\<rparr>" using Cons.prems by (simp add: ep_push_def)
  have "length (r_bank (cur ?s)) + length bs \<le> ep_size (cur ?s)" unfolding c using Cons.prems by simp
  from Cons.IH [OF this] have "fold Endpoint_Write_Byte bs ?s = upd_cur (\<lambda>ep. ep\<lparr>r_bank := r_bank ep @ bs\<rparr>) ?s" .
  also have "\<dots> = upd_cur (\<lambda>ep. ep\<lparr>r_bank := r_bank ep @ b # bs\<rparr>) s"
    unfolding upd_cur_upd_cur using Cons.prems by (intro upd_cur_cong) (simp add: ep_push_def)
  finally show ?case by (simp add: Endpoint_ops_cur(4) [of b])
qed

text \<open>The endpoint of the transport while packets of 64 bytes go to the host: \<open>B\<close> in the bank, \<open>S\<close> collected.\<close>

definition sending :: "'a disk_scheme \<Rightarrow> u8 list \<Rightarrow> u8 list list \<Rightarrow> dataflash \<Rightarrow> 'a disk_scheme" where
  "sending s B S d = upd_cur (\<lambda>ep. ep\<lparr>r_bank := B, r_sent := r_sent ep @ S\<rparr>) (s\<lparr>Flash := d\<rparr>)"

definition in_free64 :: "'a disk_scheme \<Rightarrow> bool" where
  "in_free64 s \<longleftrightarrow> in_owned (cur s) \<and> r_bank (cur s) = [] \<and> ep_size (cur s) = 64 \<and> \<not> IsMassStoreReset s"

lemma sending_simps:
  assumes "in_free64 s"
  shows "in_owned (cur (sending s B S d))" "ep_size (cur (sending s B S d)) = 64" "r_bank (cur (sending s B S d)) = B"
    "UENUM (sending s B S d) = UENUM s" "\<not> IsMassStoreReset (sending s B S d)" "Flash (sending s B S d) = d"
    "(sending s B S d)\<lparr>Flash := d'\<rparr> = sending s B S d'" "sending s [] [] d = s\<lparr>Flash := d\<rparr>"
proof -
  show "in_owned (cur (sending s B S d))" "ep_size (cur (sending s B S d)) = 64" "r_bank (cur (sending s B S d)) = B"
    "UENUM (sending s B S d) = UENUM s" "\<not> IsMassStoreReset (sending s B S d)" "Flash (sending s B S d) = d"
    "(sending s B S d)\<lparr>Flash := d'\<rparr> = sending s B S d'"
    using assms by (simp_all add: sending_def in_free64_def in_owned_def ep_is_control_def ep_is_in_def ep_size_def)
  have "upd_cur (\<lambda>ep. ep\<lparr>r_bank := [], r_sent := r_sent ep @ []\<rparr>) (s\<lparr>Flash := d\<rparr>) = upd_cur (\<lambda>ep. ep\<lparr>r_bank := r_bank (cur (s\<lparr>Flash := d\<rparr>))\<rparr>) (s\<lparr>Flash := d\<rparr>)"
    using assms by (intro upd_cur_cong) (simp add: in_free64_def)
  then show "sending s [] [] d = s\<lparr>Flash := d\<rparr>" by (simp add: sending_def upd_cur_bank_same del: Flash_frame(3))
qed

lemma sending_push:
  assumes "in_free64 s" "length B + length bs \<le> 64"
  shows "fold Endpoint_Write_Byte bs (sending s B S d) = sending s (B @ bs) S d"
proof -
  have "fold Endpoint_Write_Byte bs (sending s B S d) = upd_cur (\<lambda>ep. ep\<lparr>r_bank := r_bank ep @ bs\<rparr>) (sending s B S d)"
    using assms by (intro push_bytes) (simp add: sending_simps [OF assms(1)])
  also have "\<dots> = sending s (B @ bs) S d"
    unfolding sending_def upd_cur_upd_cur by (rule upd_cur_cong) simp
  finally show ?thesis .
qed

lemma sending_next_bank:
  assumes "in_free64 s" "length B \<le> 64" "length B = 64 \<Longrightarrow> 0 < j"
  defines "n \<equiv> unat (UENUM s)"
  shows "next_bank Endpoint_ClearIN (replicate j (collect n) @ w) (sending s B S d) =
    (if length B < 64 then Inr (0, sending s B S d, replicate j (collect n) @ w)
     else Inr (0, sending s [] (S @ [B]) d, replicate (j - 1) (collect n) @ w))"
proof (cases "length B < 64")
  case True
  then show ?thesis
    by (simp add: next_bank_def Endpoint_flags ep_rwal_in [OF sending_simps(1) [OF assms(1)]] sending_simps [OF assms(1)] readywait_defs)
next
  case False
  then obtain j' where j: "j = Suc j'" using assms(2,3) by (cases j) auto
  have "collect n (Endpoint_ClearIN (sending s B S d)) = upd_cur (\<lambda>ep. ep\<lparr>r_bank := [], r_sent := r_sent ep @ [r_bank ep]\<rparr>) (sending s B S d)"
    using collect_ClearIN [OF sending_simps(1) [OF assms(1)], of B S d] by (simp add: sending_simps [OF assms(1)] n_def)
  also have "\<dots> = sending s [] (S @ [B]) d"
    unfolding sending_def upd_cur_upd_cur by (rule upd_cur_cong) simp
  finally have "collect n (Endpoint_ClearIN (sending s B S d)) = sending s [] (S @ [B]) d" .
  then show ?thesis
    using False j in_owned_ready [OF sending_simps(1) [OF assms(1)]]
    by (simp add: next_bank_def Endpoint_flags ep_rwal_in [OF sending_simps(1) [OF assms(1)]] sending_simps [OF assms(1)] readywait_defs)
qed

lemma ReadBlocks_sends:
  fixes s :: "'a disk_scheme"
  assumes "unat B < 32768" "df_quiet (Flash s)" "in_free64 s" "0 < unat N"
  defines "n \<equiv> unat (UENUM s)" and "data \<equiv> map (disk_at (Flash s)) [512 * unat B..<512 * unat B + 512 * unat N]"
  shows "\<exists>b S d. DataflashManager_ReadBlocks B N (replicate (8 * unat N - 1) (collect n) @ w) s = Inr ((), Endpoint_ClearIN (sending s b S d), w) \<and>
    concat (S @ [b]) = data \<and> (\<forall>x \<in> set (S @ [b]). length x = 64) \<and> df_selected None d \<and> same_store (Flash s) d"
proof -
  let ?A = "512 * unat B" and ?d = "begin_page_read (first_page B) (first_page_byte B) (Flash s)" and ?J = "8 * unat N - 1"
  let ?I = "\<lambda>k c v t. \<exists>b S d j. t = sending s b S d \<and> v = replicate j (collect n) @ w \<and> concat S @ b = map (disk_at (Flash s)) [?A..<?A + 16 * k] \<and>
      (\<forall>x \<in> set S. length x = 64) \<and> length b \<le> 64 \<and> length b mod 16 = 0 \<and> (0 < k \<longrightarrow> b \<noteq> []) \<and> j + length S = ?J \<and>
      read_inv ?A k c d \<and> same_store (Flash s) d"
  note start = read_inv_start [OF assms(1,2)]
  have lim: "unat N < 65536" by (rule unat_less_u16)
  have len: "64 * length S + length b = 16 * k"
    if "concat S @ b = map (disk_at (Flash s)) [?A..<?A + 16 * k]" "\<forall>x \<in> set S. length x = 64" for S b k
  proof -
    have "length (concat S) = 64 * length S" using that(2) by (induction S) auto
    then show ?thesis using arg_cong [OF that(1), of length] by simp
  qed
  have step: "\<exists>c' v' t'. read_chunk T c v t = Inr (Some c', t', v') \<and> ?I (Suc k) c' v' t'"
    if k: "k < BLOCK_DIV16 * unat N" and I: "?I k c v t" for T k c v t
  proof -
    obtain b S d j where 0: "t = sending s b S d" "v = replicate j (collect n) @ w" "concat S @ b = map (disk_at (Flash s)) [?A..<?A + 16 * k]"
      "\<forall>x \<in> set S. length x = 64" "length b \<le> 64" "length b mod 16 = 0" "j + length S = ?J" "read_inv ?A k c d" "same_store (Flash s) d"
      using I by (elim exE conjE) (rule that; assumption)
    have j: "0 < j" if "length b = 64" using len [OF 0(3,4)] that 0(7) k by (simp add: BLOCK_DIV16_16)
    obtain b1 S1 j1 where 1: "next_bank Endpoint_ClearIN v t = Inr (0, sending s b1 S1 d, replicate j1 (collect n) @ w)"
      "concat S1 @ b1 = concat S @ b" "\<forall>x \<in> set S1. length x = 64" "length b1 + 16 \<le> 64" "length b1 mod 16 = 0" "j1 + length S1 = ?J"
    proof (cases "length b < 64")
      case True
      then have "length b + 16 \<le> 64" using 0(6) by presburger
      then show ?thesis using that [of b S j] sending_next_bank [OF assms(3) 0(5) j, of w S d, folded n_def] True 0 by simp
    next
      case False
      then have "length b = 64" using 0(5) by simp
      then show ?thesis
        using that [of "[]" "S @ [b]" "j - 1"] sending_next_bank [OF assms(3) 0(5) j, of w S d, folded n_def] j 0 by simp
    qed
    have "?A + 16 * k + 16 \<le> 67108864" using k assms(1) lim by (simp add: BLOCK_DIV16_16)
    from read_step [OF 0(8) this] obtain p q u d2 d3 where 2: "next_page_read c d = ((p, q, u), d2)"
      "df_receive_bytes 16 d2 = (map (disk_at d) [?A + 16 * k..<?A + 16 * k + 16], d3)" "read_inv ?A (Suc k) (p, q + 1, u) d3" "same_store d d3"
      by blast
    let ?bs = "map (disk_at d) [?A + 16 * k..<?A + 16 * k + 16]"
    have "df_receive_bytes 16 (Flash (sending s b1 S1 d2)) = (?bs, d3)" by (simp add: sending_simps(6) [OF assms(3)] 2(2))
    from flash_to_endpoint_bytes [OF this] have w16: "flash_to_endpoint 16 (sending s b1 S1 d2) = sending s (b1 @ ?bs) S1 d3"
      using sending_push [OF assms(3), of b1 ?bs S1 d3] 1(4) by (simp add: sending_simps(7) [OF assms(3)])
    have "[?A..<?A + 16 * Suc k] = [?A..<?A + 16 * k] @ [?A + 16 * k..<?A + 16 * k + 16]"
      using upt_add_eq_append [of ?A "?A + 16 * k" 16] by (simp add: ac_simps)
    then have "concat S1 @ (b1 @ ?bs) = map (disk_at (Flash s)) [?A..<?A + 16 * Suc k]"
      using 1(2) 0(3) same_store_disk [OF 0(9)] by (metis append_assoc map_append)
    moreover have "length (b1 @ ?bs) \<le> 64" "length (b1 @ ?bs) mod 16 = 0" "b1 @ ?bs \<noteq> []" using 1(4,5) by simp_all
    moreover have "read_chunk T c v t = Inr (Some (p, q + 1, u), sending s (b1 @ ?bs) S1 d3, replicate j1 (collect n) @ w)"
      using 1(1) 2(1) w16 by (simp add: read_chunk_def Let_def sending_simps [OF assms(3)])
    ultimately show ?thesis
      using 1(3,6) 2(3) same_store_trans [OF 0(9) 2(4)]
      by (intro exI conjI) (assumption | rule refl | simp)+
  qed
  have "?I 0 (start_cursor B) (replicate ?J (collect n) @ w) (s\<lparr>Flash := ?d\<rparr>)"
    using start by (intro exI [of _ "[]"] exI [of _ ?d] exI [of _ ?J]) (simp add: sending_simps(8) [OF assms(3)])
  from transfer_blocks_rule [where chunk = read_chunk and N = "unat N" and I = ?I, OF step this] obtain c' b S d j where
    t: "transfer_blocks read_chunk (unat N) (start_cursor B) (replicate ?J (collect n) @ w) (s\<lparr>Flash := ?d\<rparr>) =
        Inr (Some c', sending s b S d, replicate j (collect n) @ w)"
      "concat S @ b = map (disk_at (Flash s)) [?A..<?A + 16 * (32 * unat N)]" "\<forall>x \<in> set S. length x = 64" "length b \<le> 64" "b \<noteq> []"
      "j + length S = ?J" "read_inv ?A (32 * unat N) c' d" "same_store (Flash s) d"
    using assms(4) unfolding BLOCK_DIV16_16 by auto
  have "64 * length S + length b = 64 * (8 * unat N)" using len [OF t(2,3)] by simp
  moreover have "0 < length b" using t(5) by simp
  ultimately have "length S < 8 * unat N" "8 * unat N \<le> length S + 1" using t(4) by linarith+
  then have S: "8 * unat N = length S + 1" by simp
  with \<open>64 * length S + length b = 64 * (8 * unat N)\<close> t(6) have full: "length b = 64" "length S = ?J" "j = 0" by simp_all
  have "in_owned (cur (s\<lparr>Flash := ?d\<rparr>))" using assms(3) by (simp add: in_free64_def)
  from in_owned_ready [OF this] have "DataflashManager_ReadBlocks B N (replicate ?J (collect n) @ w) s =
      Inr ((), with_Flash Dataflash_DeselectChip (Endpoint_ClearIN (sending s b S d)), w)"
    using t(1) full sending_simps [OF assms(3)]
    by (simp add: DataflashManager_ReadBlocks_def Let_def with_Flash_def [of "begin_page_read _ _"] readywait_defs Endpoint_flags
        ep_rwal_in [OF sending_simps(1) [OF assms(3)]])
  moreover have "with_Flash Dataflash_DeselectChip (Endpoint_ClearIN (sending s b S d)) = Endpoint_ClearIN (sending s b S (Dataflash_DeselectChip d))"
    by (simp add: with_Flash_def Endpoint_ops_cur sending_def)
  ultimately show ?thesis
    using t(2,3) full read_inv_end [OF t(7)] same_store_trans [OF t(8)] by (intro exI [of _ b] exI [of _ S] exI) (auto simp: data_def)
qed

end
