(* ===== verification/DiskSave.thy ===== *)
theory DiskSave
  imports DiskTurn DiskStream
begin

text \<open>
  Writing blocks, from the first command to the last: each of the parts that surround the chunks keeps the invariant.
\<close>

section \<open>The whole transfer\<close>

lemma next_page_write:
  assumes "write_inv A data f k c d" "A + 16 * k + 16 \<le> 67108864"
    "\<And>p u. c = (p, PAGE_DIV16, u) \<Longrightarrow> A + length data < 1024 * unat p + 2048 \<Longrightarrow> T = 1"
  shows "\<exists>p q u d'. next_page fill_used_buffer T c d = Inr ((p, q, u), d') \<and> write_inv A data f k (p, q, u) d' \<and> unat q \<noteq> 64"
proof -
  obtain p q u where c: "c = (p, q, u)" by (cases c)
  have i: "cursor_at A k (p, q, u)" using assms(1) by (simp add: c write_inv_def)
  show ?thesis
  proof (cases "unat q = 64")
    case False
    then show ?thesis using assms(1) by (simp add: c next_page_def PAGE_DIV16_unat)
  next
    case True
    have q: "q = PAGE_DIV16" using True by (simp add: PAGE_DIV16_unat)
    have at: "1024 * unat p + 1024 = A + 16 * k" using i True by (simp add: cursor_at_def)
    have p: "unat p < 65535" "unat (p + 1) = unat p + 1" using cursor_turn(1) [OF i assms(2) True] at assms(2) by simp_all
    have inv: "write_inv A data f k (p, q, u) d" using assms(1) by (simp only: c)
    from write_inv_page_ends [OF inv True p(1)] obtain d1 where
      1: "send_page p u d = Inr d1" "page_chip p \<noteq> None \<longrightarrow> (Dataflash_GetSelectedChip d1 = DATAFLASH_CHIP2 \<longleftrightarrow> odd (unat p))"
        "at_next_page A data f (p + 1) (if even (unat p) then u else \<not> u) (Dataflash_SelectChipFromPage (p + 1) d1)" by blast
    let ?u = "if Dataflash_GetSelectedChip d1 = DATAFLASH_CHIP2 then \<not> u else u"
    have "at_next_page A data f (p + 1) ?u (Dataflash_SelectChipFromPage (p + 1) d1)"
    proof (cases "page_chip p")
      case None
      then have "page_chip (p + 1) = None" using page_chip_cases(2) [OF None] p(2) by (simp add: page_chip_def)
      then show ?thesis using 1(3) by (simp add: at_next_page_def)
    next
      case (Some j)
      then have "?u = (if even (unat p) then u else \<not> u)" using 1(2) by auto
      then show ?thesis using 1(3) by (simp only:)
    qed
    from at_next_page_loads [OF this, of T] obtain d2 where
      2: "keep_trailing T (p + 1) ?u (Dataflash_SelectChipFromPage (p + 1) d1) = Inr d2" "at_next_page A data f (p + 1) ?u d2"
        "T = 1 \<longrightarrow> (case page_chip (p + 1) of None \<Rightarrow> True | Some j \<Rightarrow> df_buf (df_chips d2 j) (buffer_of ?u) = df_mem (df_chips d2 j) (unat (p + 1) div 2))"
      by blast
    have "cursor_at A k (p + 1, 0, ?u)" using cursor_turn(1) [OF i assms(2) True] by blast
    moreover have "T = 1" if "A + length data < 1024 * unat (p + 1) + 1024" using assms(3) [of p u] that p(2) by (simp add: c q)
    ultimately have "write_inv A data f k (p + 1, 0, ?u) (Dataflash_SendAddressBytes 0 0 (fill_used_buffer ?u d2))"
      using at_next_page_fills [OF 2(2)] 2(3) by blast
    moreover have "next_page fill_used_buffer T c d = Inr ((p + 1, 0, ?u), Dataflash_SendAddressBytes 0 0 (fill_used_buffer ?u d2))"
      using 1(1) 2(1) by (simp add: c q next_page_def Let_def)
    ultimately show ?thesis by (intro exI conjI) (assumption | simp)+
  qed
qed

lemma quiet_select_buf: "df_quiet d \<Longrightarrow> df_buf (df_chips (Dataflash_SelectChipFromPage p d) j) = df_buf (df_chips d j)"
proof -
  assume q: "df_quiet d"
  then obtain k where k: "df_selected k d" by (auto simp: df_quiet_def)
  show ?thesis by (auto simp: Dataflash_SelectChipFromPage_chips(2) [OF k] quiet_release [OF q k] chip_select_def split: option.splits)
qed

lemma begin_write_inv:
  assumes "unat B < 32768" "df_quiet d" "unprotected d"
  shows "\<exists>d'. begin_write B d = Inr ((), d') \<and> write_inv (512 * unat B) data (disk_at d) 0 (start_cursor B) d' \<and>
    (\<forall>i < 2. page_chip (first_page B) \<noteq> Some i \<longrightarrow> df_busy (df_chips d' i) = 0 \<and> df_buf (df_chips d' i) = df_buf (df_chips d i))"
proof -
  let ?p = "first_page B" and ?b = "first_page_byte B" and ?A = "512 * unat B"
  let ?d = "Dataflash_SelectChipFromPage ?p d"
  note f = first_page_unat [OF assms(1)]
  note s = start_cursor_at [OF assms(1)]
  note q = quiet_select [OF assms(2), of ?p]
  have busy: "\<forall>j < 2. df_busy (df_chips ?d j) = 0" using assms(2) q(2) by (simp add: df_quiet_def same_store_def)
  have up: "unprotected ?d" using assms(3) q(2) by (simp add: unprotected_def same_store_def)
  have disk: "disk_at ?d = disk_at d" by (rule same_store_disk [OF q(2)])
  show ?thesis
  proof (cases "page_chip ?p")
    case None
    then have "begin_write B d = Inr ((), ?d)"
      using q(1) by (simp add: begin_write_def Let_def Dataflash_bytes_none Dataflash_SendAddressBytes_none Dataflash_WaitWhileBusy_none)
    then show ?thesis
      using s(1) q(1) up disk None busy quiet_select_buf [OF assms(2)] by (simp add: write_inv_def s(2) disk_up_to_def written_to_def) (use f page_chip_cases(2) [OF None] in auto)
  next
    case (Some j)
    have j: "unat ?p < 16384" "j = unat ?p mod 2" "j < 2" using page_chip_cases(1) [OF Some] by simp_all
    have sel: "df_selected (Some j) ?d" using q(1) Some by simp
    let ?c = "df_chips ?d j"
    let ?c' = "?c\<lparr>df_buf := (df_buf ?c)(1 := df_mem ?c (unat ?p div 2)), df_busy := 0, df_owner := 1\<rparr>"
    have c: "df_in ?c = []" "df_busy ?c = 0" using q(3) [OF Some] busy j(3) by simp_all
    have load: "chip_rest (chip_command DF_CMD_MAINMEMTOBUFF1 ?p 0 ?c) = ?c'"
      using chip_command_load [OF c j(1), of False] by (simp add: load_command_def buffer_of_def)
    have w: "Dataflash_WaitWhileBusy (Dataflash_SendAddressBytes ?p 0 (Dataflash_SendByte DF_CMD_MAINMEMTOBUFF1 ?d)) =
        Inr (df_upd j (\<lambda>c. chip_rest (chip_command DF_CMD_MAINMEMTOBUFF1 ?p 0 c)) ?d)"
      using sel by (subst command_selected [OF sel], subst Dataflash_WaitWhileBusy_selected [of j]) simp_all
    have b: "unat ?b < 2048" using f(3) by simp
    have fill: "chip_command DF_CMD_BUFF1WRITE 0 ?b ?c' = ?c'\<lparr>df_in := DF_CMD_BUFF1WRITE # address_bytes 0 ?b\<rparr>"
        "chip_filling 1 (unat ?b) (chip_command DF_CMD_BUFF1WRITE 0 ?b ?c')"
      using chip_command_fill [of ?c' False ?b] c(1) b by (simp_all add: write_command_def buffer_of_def)
    let ?e = "df_upd j (\<lambda>c. chip_command DF_CMD_BUFF1WRITE 0 ?b (chip_rest (chip_command DF_CMD_MAINMEMTOBUFF1 ?p 0 c))) ?d"
    have run: "begin_write B d = Inr ((), ?e)"
      using w sel by (simp add: begin_write_def Let_def command_selected [of j])
    obtain e where e: "e = ?e" by blast
    have ch: "df_chips e = (df_chips ?d)(j := ?c'\<lparr>df_in := DF_CMD_BUFF1WRITE # address_bytes 0 ?b\<rparr>)"
      by (simp only: e df_upd_simps(2) load fill(1))
    have "disk_at e = disk_at ?d" by (simp only: fun_eq_iff disk_at_def ch) auto
    then have de: "disk_at e = disk_at d" using disk by simp
    have "df_selected (page_chip ?p) e" using sel Some by (simp add: e)
    moreover have "unprotected e" using up by (auto simp: unprotected_def ch)
    moreover have "disk_up_to (1024 * unat ?p) ?A data (disk_at d) e" using f by (auto simp: disk_up_to_def written_to_def de)
    moreover have "chip_filling (buffer_of False) (16 * unat (ucast (drop_bit 4 ?b) :: u8)) (df_chips e j)"
      using fill(2) unfolding fill(1) by (simp add: s(3) ch buffer_of_def)
    moreover have "page_buffer ?A data (disk_at d) (?A + 16 * 0) ?p n (df_buf (df_chips e j) (buffer_of False))" for n
      using disk_page [OF j(1), of _ ?d] j(2) disk by (auto simp: page_buffer_def written_to_def ch buffer_of_def)
    moreover have "buffer_free u (df_chips e (1 - j))" for u
    proof -
      have "1 - j \<noteq> j" "1 - j < 2" by (cases j; simp)+
      then show ?thesis using busy by (simp add: ch buffer_free_def)
    qed
    ultimately have "write_inv ?A data (disk_at d) 0 (start_cursor B) e"
      using s(1) Some by (simp only: write_inv_def s(2) prod.case option.case simp_thms)
    moreover have "df_busy (df_chips e i) = 0 \<and> df_buf (df_chips e i) = df_buf (df_chips d i)" if "i < 2" "page_chip ?p \<noteq> Some i" for i
      using that Some busy quiet_select_buf [OF assms(2)] by (auto simp: ch)
    ultimately show ?thesis using run unfolding e by blast
  qed
qed

lemma end_write_disk:
  assumes "write_inv A data f k c d" "length data = 16 * k"
  shows "\<exists>d' j. end_write c d = Inr ((), d') \<and> df_selected j d' \<and>
    disk_up_to (A + length data) A data f (Dataflash_DeselectChip d') \<and> df_selected None (Dataflash_DeselectChip d') \<and>
    unprotected (Dataflash_DeselectChip d')"
proof -
  obtain p q u where c: "c = (p, q, u)" by (cases c)
  have i: "cursor_at A k (p, q, u)" "unprotected d" "df_selected (page_chip p) d" "disk_up_to (1024 * unat p) A data f d"
    using assms(1) by (simp_all add: write_inv_def c)
  have at: "unat q \<le> 64" "1024 * unat p + 16 * unat q = A + 16 * k" using i(1) by (simp_all add: cursor_at_def)
  show ?thesis
  proof (cases "page_chip p")
    case None
    then have sel: "df_selected None d" using i(3) by simp
    note n = Dataflash_DeselectChip_chips [OF sel]
    have "disk_at (Dataflash_DeselectChip d) = disk_at d" by (simp add: fun_eq_iff disk_at_def n(1) df_release_def)
    moreover have "disk_up_to (A + length data) A data f d"
      using at page_chip_cases(2) [OF None] assms(2) by (intro written_beyond [OF i(4)]) simp_all
    ultimately have "disk_up_to (A + length data) A data f (Dataflash_DeselectChip d)" by (simp add: disk_up_to_def)
    moreover have "unprotected (Dataflash_DeselectChip d)" using i(2) by (simp add: unprotected_def n(1) df_release_def)
    ultimately show ?thesis
      using n(2) sel by (intro exI [of _ d] exI [of _ None]) (simp add: c end_write_def send_page_none Dataflash_WaitWhileBusy_none)
  next
    case (Some j)
    let ?c = "df_chips d j"
    have w: "chip_filling (buffer_of u) (16 * unat q) ?c" "page_buffer A data f (A + 16 * k) p (16 * unat q) (df_buf ?c (buffer_of u))"
      using assms(1) Some by (simp_all add: write_inv_def c)
    have sel: "df_selected (Some j) d" using i(3) Some by simp
    from send_page_selected [OF sel Some w(1) i(2)] obtain d1 d2 where
      1: "send_page p u d = Inr d1" "Dataflash_WaitWhileBusy d1 = Inr d2" "df_selected (Some j) d2"
        "df_chips d2 = (df_chips d)(j := (programmed p u ?c)\<lparr>df_busy := 0\<rparr>)" by blast
    note n = Dataflash_DeselectChip_chips [OF 1(3)]
    have m: "df_mem (df_chips (Dataflash_DeselectChip d2) i) =
        (if i = j then (df_mem (df_chips d i))(unat p div 2 := df_buf ?c (buffer_of u)) else df_mem (df_chips d i))" for i
      by (simp add: n(1) df_release_def 1(4) programmed_def chip_rest_empty)
    have "unat q = 64 \<or> A + length data < 1024 * unat p + 1024" using at assms(2) by linarith
    from page_committed [OF Some i(4) w(2) this at(2,1) m] have "disk_up_to (A + length data) A data f (Dataflash_DeselectChip d2)"
      by (simp add: assms(2))
    moreover have "unprotected (Dataflash_DeselectChip d2)"
      using i(2) by (simp add: unprotected_def n(1) df_release_def 1(4) programmed_def chip_rest_empty)
    ultimately show ?thesis using 1 n(2) by (intro exI [of _ d2] exI [of _ "Some j"]) (simp add: c end_write_def)
  qed
qed

end
