(* ===== verification/DiskStore.thy ===== *)
theory DiskStore
  imports DiskSave
begin

text \<open>
  \<open>DataflashManager_WriteBlocks\<close>: the blocks the host sends through the selected endpoint replace that part of the array,
  and no other byte changes.
\<close>

section \<open>Blocks from an endpoint\<close>

text \<open>The endpoint of the transport while packets come from the host: \<open>B\<close> is left in the bank.\<close>

definition receiving :: "'a disk_scheme \<Rightarrow> u8 list \<Rightarrow> dataflash \<Rightarrow> 'a disk_scheme" where
  "receiving s B d = upd_cur (\<lambda>ep. ep\<lparr>r_bank := B\<rparr>) (s\<lparr>Flash := d\<rparr>)"

definition out_arrived :: "'a disk_scheme \<Rightarrow> bool" where
  "out_arrived s \<longleftrightarrow> out_owned (cur s) \<and> \<not> IsMassStoreReset s"

text \<open>A packet of whole chunks, of a size the endpoint can take.\<close>

definition chunked :: "nat \<Rightarrow> u8 list \<Rightarrow> bool" where
  "chunked m q \<longleftrightarrow> q \<noteq> [] \<and> 16 dvd length q \<and> length q \<le> m"

lemma receiving_simps:
  assumes "out_arrived s"
  shows "out_owned (cur (receiving s B d))" "ep_size (cur (receiving s B d)) = ep_size (cur s)" "r_bank (cur (receiving s B d)) = B"
    "UENUM (receiving s B d) = UENUM s" "\<not> IsMassStoreReset (receiving s B d)" "Flash (receiving s B d) = d"
    "(receiving s B d)\<lparr>Flash := d'\<rparr> = receiving s B d'" "upd_cur (\<lambda>ep. ep\<lparr>r_bank := B'\<rparr>) (receiving s B d) = receiving s B' d"
    "with_Flash f (receiving s B d) = receiving s B (f d)"
proof -
  show "out_owned (cur (receiving s B d))" "ep_size (cur (receiving s B d)) = ep_size (cur s)" "r_bank (cur (receiving s B d)) = B"
    "UENUM (receiving s B d) = UENUM s" "\<not> IsMassStoreReset (receiving s B d)" "Flash (receiving s B d) = d"
    "(receiving s B d)\<lparr>Flash := d'\<rparr> = receiving s B d'" "with_Flash f (receiving s B d) = receiving s B (f d)"
    using assms by (simp_all add: receiving_def out_arrived_def with_Flash_def)
  show "upd_cur (\<lambda>ep. ep\<lparr>r_bank := B'\<rparr>) (receiving s B d) = receiving s B' d"
    unfolding receiving_def upd_cur_upd_cur by (rule upd_cur_cong) simp
qed

lemma receiving_id: "(receiving s (r_bank (cur s)) d) = s\<lparr>Flash := d\<rparr>"
  using upd_cur_bank_same [of "s\<lparr>Flash := d\<rparr>"] by (simp add: receiving_def del: Flash_frame(5))

lemma endpoint_to_flash_bytes:
  assumes "out_arrived s"
  shows "length bs = n \<Longrightarrow> endpoint_to_flash n (receiving s (bs @ B) d) = receiving s B (fold Dataflash_SendByte bs d)"
proof (induction n arbitrary: bs d)
  case (Suc n)
  then obtain b bs' where b: "bs = b # bs'" "length bs' = n" by (cases bs) auto
  have "Endpoint_Read_Byte (receiving s (b # bs' @ B) d) = (b, receiving s (bs' @ B) d)"
    using uedatx_read_Cons [of "receiving s (b # bs' @ B) d" b "bs' @ B"] by (simp add: Endpoint_Read_Byte_def receiving_simps [OF assms])
  then show ?case using Suc.IH [OF b(2)] b(1) by (simp add: receiving_simps(9) [OF assms])
qed simp

lemma receiving_next_bank:
  assumes "out_arrived s" "\<forall>q \<in> set qs. chunked (ep_size (cur s)) q" "16 dvd length b" "b @ concat qs \<noteq> []"
  shows "\<exists>b' qs'. next_bank Endpoint_ClearOUT (map (deliver (unat (UENUM s))) qs @ w) (receiving s b d) =
      Inr (0, receiving s b' d, map (deliver (unat (UENUM s))) qs' @ w) \<and> b' @ concat qs' = b @ concat qs \<and> 16 dvd length b' \<and>
      16 \<le> length b' \<and> (\<forall>q \<in> set qs'. chunked (ep_size (cur s)) q)"
proof (cases b)
  case (Cons x xs)
  have "16 \<le> length b" using assms(3) Cons by (intro dvd_imp_le) simp_all
  then show ?thesis
    using assms(2,3) Cons
    by (intro exI [of _ b] exI [of _ qs])
      (simp add: next_bank_def Endpoint_flags ep_rwal_out [OF receiving_simps(1) [OF assms(1)]] receiving_simps [OF assms(1)] readywait_defs)
next
  case Nil
  then obtain q qs' where q: "qs = q # qs'" using assms(4) by (cases qs) auto
  have "chunked (ep_size (cur s)) q" using assms(2) by (simp add: q)
  then have ok: "16 dvd length q" "16 \<le> length q" "length q \<le> ep_size (cur s)"
    by (auto simp: chunked_def intro!: dvd_imp_le)
  have "deliver (unat (UENUM s)) q (Endpoint_ClearOUT (receiving s b d)) = receiving s q d"
    using deliver_ClearOUT [of "receiving s b d" q] ok(3) by (simp add: receiving_simps [OF assms(1)])
  then show ?thesis
    using ok(1,2) assms(2) Nil out_owned_ready [OF receiving_simps(1) [OF assms(1)], of _ q d]
    by (intro exI [of _ q] exI [of _ qs'])
      (simp add: q next_bank_def Endpoint_flags ep_rwal_out [OF receiving_simps(1) [OF assms(1)]] receiving_simps [OF assms(1)] readywait_defs)
qed

text \<open>A page that is not written to its end is the last one, and then its rest is loaded first.\<close>

lemma last_page_kept:
  assumes "write_inv (512 * B) data f k (p, PAGE_DIV16, u) d" "k < 32 * N" "length data = 512 * N"
    "512 * B + length data < 1024 * unat p + 2048"
  shows "(of_nat (N - k div BLOCK_DIV16) :: u16) = 1"
proof -
  have "1024 * unat p + 1024 = 512 * B + 16 * k"
    using assms(1) PAGE_DIV16_unat [of PAGE_DIV16] by (simp add: write_inv_def cursor_at_def)
  then have "k = 32 * (2 * unat p + 2 - B)" by simp
  then obtain m where m: "k = 32 * m" by blast
  with \<open>1024 * unat p + 1024 = 512 * B + 16 * k\<close> assms(2-4) have "N = m + 1" by linarith
  then show ?thesis by (simp add: m BLOCK_DIV16_16)
qed

lemma write_chunk_step:
  assumes s: "out_arrived s" and k: "k < 32 * N" "length data = 512 * N" "512 * B + length data \<le> 67108864"
    and t: "t = receiving s b d" "v = map (deliver (unat (UENUM s))) qs @ w" "b @ concat qs = drop (16 * k) data" "16 dvd length b"
      "\<forall>q \<in> set qs. chunked (ep_size (cur s)) q" "write_inv (512 * B) data f k c d"
  shows "\<exists>c' v' t' b' qs' d'. write_chunk (of_nat (N - k div BLOCK_DIV16)) c v t = Inr (Some c', t', v') \<and>
    t' = receiving s b' d' \<and> v' = map (deliver (unat (UENUM s))) qs' @ w \<and> b' @ concat qs' = drop (16 * Suc k) data \<and> 16 dvd length b' \<and>
    (\<forall>q \<in> set qs'. chunked (ep_size (cur s)) q) \<and> write_inv (512 * B) data f (Suc k) c' d'"
proof -
  let ?T = "of_nat (N - k div BLOCK_DIV16) :: u16"
  have le: "16 * k + 16 \<le> length data" "512 * B + 16 * k + 16 \<le> 67108864" using k by linarith+
  have "b @ concat qs \<noteq> []" using t(3) le(1) by simp
  from receiving_next_bank [OF s t(5,4) this] obtain b1 qs1 where
    1: "next_bank Endpoint_ClearOUT v t = Inr (0, receiving s b1 d, map (deliver (unat (UENUM s))) qs1 @ w)"
      "b1 @ concat qs1 = b @ concat qs" "16 dvd length b1" "16 \<le> length b1" "\<forall>q \<in> set qs1. chunked (ep_size (cur s)) q"
    unfolding t(1,2) by blast
  have T: "?T = 1" if "c = (p, PAGE_DIV16, u)" "512 * B + length data < 1024 * unat p + 2048" for p u
    using t(6) k(1,2) that last_page_kept [of B data f k p u d N] by simp
  from next_page_write [OF t(6) le(2), of ?T] T obtain p q u d1 where
    2: "next_page fill_used_buffer ?T c d = Inr ((p, q, u), d1)" "write_inv (512 * B) data f k (p, q, u) d1" "unat q \<noteq> 64" by blast
  have bs: "take 16 b1 = take 16 (drop (16 * k) data)" "drop 16 b1 @ concat qs1 = drop (16 * Suc k) data"
    using arg_cong [OF trans [OF 1(2) t(3)], of "take 16"] arg_cong [OF trans [OF 1(2) t(3)], of "drop 16"] 1(4) by (simp_all add: add.commute)
  have "endpoint_to_flash 16 (receiving s b1 d1) = receiving s (drop 16 b1) (fold Dataflash_SendByte (take 16 b1) d1)"
    using endpoint_to_flash_bytes [OF s, of "take 16 b1" 16 "drop 16 b1" d1] 1(4) by simp
  then have "write_chunk ?T c v t = Inr (Some (p, q + 1, u), receiving s (drop 16 b1) (fold Dataflash_SendByte (take 16 b1) d1),
      map (deliver (unat (UENUM s))) qs1 @ w)"
    using 1(1) 2(1) by (simp add: write_chunk_def on_Flash_def Let_def receiving_simps [OF s])
  moreover have "16 dvd length (drop 16 b1)" using 1(3,4) by simp
  moreover have "write_inv (512 * B) data f (Suc k) (p, q + 1, u) (fold Dataflash_SendByte (take 16 b1) d1)"
    unfolding bs(1) by (rule write_step [OF 2(2,3) le(1) k(3)])
  ultimately show ?thesis using 1(5) bs(2) by blast
qed

lemma WriteBlocks_stores:
  fixes s :: "'a disk_scheme"
  assumes "unat B < 32768" "df_quiet (Flash s)" "unprotected (Flash s)" "out_arrived s"
    "\<forall>q \<in> set (r_bank (cur s) # ps). chunked (ep_size (cur s)) q" "length (concat (r_bank (cur s) # ps)) = 512 * unat N"
  defines "n \<equiv> unat (UENUM s)" and "A \<equiv> 512 * unat B" and "data \<equiv> concat (r_bank (cur s) # ps)"
  shows "\<exists>d. DataflashManager_WriteBlocks B N (map (deliver n) ps @ w) s = Inr ((), Endpoint_ClearOUT (receiving s [] d), w) \<and>
    df_selected None d \<and> unprotected d \<and> (\<forall>a < 16777216. disk_at d a = (if A \<le> a \<and> a < A + length data then data ! (a - A) else disk_at (Flash s) a))"
proof -
  let ?f = "disk_at (Flash s)"
  let ?I = "\<lambda>k c v t. \<exists>b qs d. t = receiving s b d \<and> v = map (deliver n) qs @ w \<and> b @ concat qs = drop (16 * k) data \<and> 16 dvd length b \<and>
      (\<forall>q \<in> set qs. chunked (ep_size (cur s)) q) \<and> write_inv A data ?f k c d"
  have N: "unat N < 65536" by (rule unat_less_u16)
  have len: "length data = 512 * unat N" using assms(6) by (simp add: data_def)
  have lim: "A + length data \<le> 67108864" using assms(1) N len by (simp add: A_def)
  from begin_write_inv [OF assms(1-3), of data] obtain d0 where
    b: "begin_write B (Flash s) = Inr ((), d0)" "write_inv A data ?f 0 (start_cursor B) d0" unfolding A_def by blast
  have step: "\<exists>c' v' t'. write_chunk (of_nat (unat N - k div BLOCK_DIV16)) c v t = Inr (Some c', t', v') \<and> ?I (Suc k) c' v' t'"
    if k: "k < BLOCK_DIV16 * unat N" and I: "?I k c v t" for k c v t
  proof -
    obtain b qs d where 0: "t = receiving s b d" "v = map (deliver n) qs @ w" "b @ concat qs = drop (16 * k) data" "16 dvd length b"
      "\<forall>q \<in> set qs. chunked (ep_size (cur s)) q" "write_inv A data ?f k c d"
      using I by (elim exE conjE) (rule that; assumption)
    show ?thesis
      using write_chunk_step [OF assms(4) _ len lim [unfolded A_def] 0(1) 0(2) [unfolded n_def] 0(3-5) 0(6) [unfolded A_def]] k
      unfolding BLOCK_DIV16_16 n_def A_def by blast
  qed
  have "?I 0 (start_cursor B) (map (deliver n) ps @ w) (s\<lparr>Flash := d0\<rparr>)"
    using b(2) assms(5) receiving_id [of s d0]
    by (intro exI [of _ "r_bank (cur s)"] exI [of _ ps] exI [of _ d0]) (simp add: data_def chunked_def)
  from transfer_blocks_rule [where chunk = write_chunk and N = "unat N" and I = ?I, OF step this] obtain c' b' qs d where
    t: "transfer_blocks write_chunk (unat N) (start_cursor B) (map (deliver n) ps @ w) (s\<lparr>Flash := d0\<rparr>) =
        Inr (Some c', receiving s b' d, map (deliver n) qs @ w)"
      "b' @ concat qs = drop (16 * (32 * unat N)) data" "\<forall>q \<in> set qs. chunked (ep_size (cur s)) q"
      "write_inv A data ?f (32 * unat N) c' d"
    unfolding BLOCK_DIV16_16 by auto
  have "b' @ concat qs = []" using t(2) len by simp
  then have e: "b' = []" "qs = []" using t(3) by (cases qs; auto simp: chunked_def)+
  have "length data = 16 * (32 * unat N)" using len by simp
  from end_write_disk [OF t(4) this] obtain d1 where
    w: "end_write c' d = Inr ((), d1)" "disk_up_to (A + length data) A data ?f (Dataflash_DeselectChip d1)" "df_selected None (Dataflash_DeselectChip d1)"
      "unprotected (Dataflash_DeselectChip d1)"
    by blast
  have "out_owned (cur (s\<lparr>Flash := d0\<rparr>))" using assms(4) by (simp add: out_arrived_def)
  from out_owned_ready [OF this] have "DataflashManager_WriteBlocks B N (map (deliver n) ps @ w) s =
      Inr ((), with_Flash Dataflash_DeselectChip (Endpoint_ClearOUT (receiving s [] d1)), w)"
    using b(1) t(1) w(1) e
    by (simp add: DataflashManager_WriteBlocks_def on_Flash_def readywait_defs receiving_simps [OF assms(4)] Endpoint_flags
        ep_rwal_out [OF receiving_simps(1) [OF assms(4)]])
  moreover have "with_Flash Dataflash_DeselectChip (Endpoint_ClearOUT (receiving s [] d1)) = Endpoint_ClearOUT (receiving s [] (Dataflash_DeselectChip d1))"
    by (simp add: with_Flash_def Endpoint_ops_cur receiving_def)
  ultimately show ?thesis
    using w(2-4) by (intro exI [of _ "Dataflash_DeselectChip d1"]) (simp add: disk_up_to_def written_to_def)
qed

end
