(* ===== verification/ScsiCommands.thy ===== *)
theory ScsiCommands
  imports Scsi DiskStore
begin

text \<open>
  What the commands of the mass storage demonstration do on the disk of \<open>DiskRead\<close>: what the host gets, what the memories hold
  afterwards, and the sense data.
\<close>

section \<open>The fields of a command\<close>

lemma less_32_cases: "n < 32 \<Longrightarrow> P 0 \<Longrightarrow> P 1 \<Longrightarrow> P 2 \<Longrightarrow> P 3 \<Longrightarrow> P 4 \<Longrightarrow> P 5 \<Longrightarrow> P 6 \<Longrightarrow> P 7 \<Longrightarrow> P 8 \<Longrightarrow> P 9 \<Longrightarrow> P 10 \<Longrightarrow> P 11 \<Longrightarrow>
  P 12 \<Longrightarrow> P 13 \<Longrightarrow> P 14 \<Longrightarrow> P 15 \<Longrightarrow> P 16 \<Longrightarrow> P 17 \<Longrightarrow> P 18 \<Longrightarrow> P 19 \<Longrightarrow> P 20 \<Longrightarrow> P 21 \<Longrightarrow> P 22 \<Longrightarrow> P 23 \<Longrightarrow> P 24 \<Longrightarrow> P 25 \<Longrightarrow> P 26 \<Longrightarrow>
  P 27 \<Longrightarrow> P 28 \<Longrightarrow> P 29 \<Longrightarrow> P 30 \<Longrightarrow> P 31 \<Longrightarrow> P n" for n :: nat
  by (simp add: eval_nat_numeral less_Suc_eq) blast

lemma SwapEndian_16_bytes: "SwapEndian_16 (ucast (le_word [a, b, c, d] :: u32)) = le_word [b, a]"
  by (rule bit_word_eqI) (auto simp: SwapEndian_16_def bit_simps dest: bit_imp_le_length)

lemma SwapEndian_32_bytes: "SwapEndian_32 (le_word [a, b, c, d]) = le_word [d, c, b, a]"
proof (rule bit_word_eqI)
  fix n assume n: "n < LENGTH(32)"
  have g: "\<not> bit x k" if "8 \<le> k" for x :: u8 and k using that bit_imp_le_length [of x k] by auto
  show "bit (SwapEndian_32 (le_word [a, b, c, d])) n \<longleftrightarrow> bit (le_word [d, c, b, a] :: u32) n"
    using n by (intro less_32_cases [of n "\<lambda>n. bit (SwapEndian_32 (le_word [a, b, c, d])) n \<longleftrightarrow> bit (le_word [d, c, b, a] :: u32) n"])
      (simp_all add: SwapEndian_32_def bit_simps g)
qed

text \<open>The first nine bytes of READ (10) and WRITE (10): the block and the number of blocks, the highest byte first.\<close>

definition rw_command :: "u8 \<Rightarrow> u8 \<Rightarrow> u8 \<Rightarrow> u32 \<Rightarrow> u16 \<Rightarrow> u8 list" where
  "rw_command cmd flags group_number B N = [cmd, flags] @ rev (le_bytes 4 B) @ [group_number] @ rev (le_bytes 2 N)"

lemma rw_fields:
  assumes "take 9 (cb_SCSICommandData (CommandBlock s)) = rw_command cmd x y B N"
  shows "SCSICommandData s 0 = cmd" "rw_BlockAddress s = B" "rw_TotalBlocks s = N"
proof -
  obtain b0 b1 b2 b3 where b: "le_bytes 4 B = [b0, b1, b2, b3]" by (rule that) (simp add: numeral_nat)
  obtain n0 n1 where n: "le_bytes 2 N = [n0, n1]" by (rule that) (simp add: numeral_nat)
  have i: "SCSICommandData s i = rw_command cmd x y B N ! i" if "i < 9" for i
    using assms that by (metis SCSICommandData_def nth_take)
  show "SCSICommandData s 0 = cmd" using i [of 0] by (simp add: rw_command_def)
  have m: "map (SCSICommandData s) [2, 3, 4, 5] = [b3, b2, b1, b0]"
      "map (SCSICommandData s) [7, 8, 9, 10] = [n1, n0, SCSICommandData s 9, SCSICommandData s 10]"
    by (simp_all add: i rw_command_def b n)
  show "rw_BlockAddress s = B" "rw_TotalBlocks s = N"
    by (simp_all only: rw_BlockAddress_def rw_TotalBlocks_def m SwapEndian_32_bytes SwapEndian_16_bytes b [symmetric] n [symmetric]
        le_word_le_bytes_u32 le_word_le_bytes_u16)
qed

lemma LUN_MEDIA_BLOCKS_unat: "LUN_MEDIA_BLOCKS = 32768" "B < LUN_MEDIA_BLOCKS \<longleftrightarrow> unat B < 32768"
proof -
  show e: "LUN_MEDIA_BLOCKS = 32768"
    by (simp add: LUN_MEDIA_BLOCKS_def VIRTUAL_MEMORY_BLOCKS_def VIRTUAL_MEMORY_BYTES_def VIRTUAL_MEMORY_BLOCK_SIZE_def DATAFLASH_PAGES_def
        DATAFLASH_PAGE_SIZE_def DATAFLASH_TOTALCHIPS_def)
  show "B < LUN_MEDIA_BLOCKS \<longleftrightarrow> unat B < 32768" by (simp add: e word_less_nat_alt)
qed

abbreviation sense_cleared :: "'a scsi_scheme \<Rightarrow> 'a scsi_scheme" where
  "sense_cleared s \<equiv> SCSI_SET_SENSE SCSI_SENSE_KEY_GOOD SCSI_ASENSE_NO_ADDITIONAL_INFORMATION SCSI_ASENSEQ_NO_QUALIFIER s"

lemma SCSI_SET_SENSE_frame [simp]:
  "Flash (SCSI_SET_SENSE k a q s) = Flash s" "cur (SCSI_SET_SENSE k a q s) = cur s" "UENUM (SCSI_SET_SENSE k a q s) = UENUM s"
  "eps (SCSI_SET_SENSE k a q s) = eps s" "CommandBlock (SCSI_SET_SENSE k a q s) = CommandBlock s"
  "IsMassStoreReset (SCSI_SET_SENSE k a q s) = IsMassStoreReset s" "SenseKey (SCSI_SET_SENSE k a q s) = k AND 0x0F"
  by (simp_all add: SCSI_SET_SENSE_def cur_def)

lemma SCSICommandData_sense [simp]: "SCSICommandData (SCSI_SET_SENSE k a q s) = SCSICommandData s"
  "rw_BlockAddress (SCSI_SET_SENSE k a q s) = rw_BlockAddress s" "rw_TotalBlocks (SCSI_SET_SENSE k a q s) = rw_TotalBlocks s"
  by (simp_all add: SCSICommandData_def [abs_def] rw_BlockAddress_def rw_TotalBlocks_def)

lemma transferred_frame [simp]:
  "Flash (bytes_transferred n s) = Flash s" "cur (bytes_transferred n s) = cur s" "SenseKey (bytes_transferred n t) = SenseKey t"
  "cb_DataTransferLength (CommandBlock (bytes_transferred n s)) = cb_DataTransferLength (CommandBlock s) - n"
  "eps (bytes_transferred n s) = eps s"
  by (simp_all add: bytes_transferred_def cur_def)

lemma SenseKey_frame [simp]:
  "SenseKey (upd_cur f s) = SenseKey s" "SenseKey (s\<lparr>Flash := d\<rparr>) = SenseKey s" "CommandBlock (s\<lparr>Flash := d\<rparr>) = CommandBlock s"
  by (simp_all add: upd_cur_def upd_ep_def)

section \<open>Reading and writing\<close>

text \<open>C36: READ (10) of one or more blocks from a block \<open>B\<close> of the disk on, with both memories at rest (\<open>df_quiet\<close>: no
  command begun and none busy), the endpoint to the host free, and the host collecting its packets: the command succeeds,
  and the host gets exactly the bytes of these blocks as they lie on the two memories, in packets of 64 bytes; for blocks
  beyond the last one, which the code does not refuse, it gets the bytes 0xFF that \<open>disk_at\<close> has there by convention, the
  answer of a bus without a memory. The disk is unchanged, both memories are at rest again and none is selected, and the
  length of the data is taken off what was to be transferred.\<close>

theorem scsi_read_10:
  fixes s :: "'a scsi_scheme"
  assumes "take 9 (cb_SCSICommandData (CommandBlock s)) = rw_command SCSI_CMD_READ_10 x y B N" "B < LUN_MEDIA_BLOCKS" "0 < unat N"
    "df_quiet (Flash s)" "in_free64 s"
  defines "n \<equiv> unat (UENUM s)" and "A \<equiv> 512 * unat B"
  shows "\<exists>b S t. SCSI_DecodeSCSICommand stack (replicate (8 * unat N - 1) (collect n) @ w) s = Inr (True, t, w) \<and>
    r_sent (cur t) = r_sent (cur s) @ S \<and> r_tx (cur t) = Some b \<and> (\<forall>p \<in> set (S @ [b]). length p = 64) \<and>
    concat (S @ [b]) = map (disk_at (Flash s)) [A..<A + 512 * unat N] \<and>
    disk_at (Flash t) = disk_at (Flash s) \<and> same_store (Flash s) (Flash t) \<and> df_selected None (Flash t) \<and> df_quiet (Flash t) \<and>
    cb_DataTransferLength (CommandBlock t) = cb_DataTransferLength (CommandBlock s) - ucast N * 512"
proof -
  let ?s = "sense_cleared s"
  note f = rw_fields [OF assms(1)]
  have "unat B < 32768" using assms(2) by (simp only: LUN_MEDIA_BLOCKS_unat(2))
  moreover have "df_quiet (Flash ?s)" "in_free64 ?s" using assms(4,5) by (simp_all add: in_free64_def)
  ultimately obtain b S d where
    r: "DataflashManager_ReadBlocks B N (replicate (8 * unat N - 1) (collect n) @ w) ?s = Inr ((), Endpoint_ClearIN (sending ?s b S d), w)"
      "concat (S @ [b]) = map (disk_at (Flash s)) [A..<A + 512 * unat N]" "\<forall>p \<in> set (S @ [b]). length p = 64" "df_selected None d"
      "same_store (Flash s) d"
    using ReadBlocks_sends [of B ?s N w] assms(3) unfolding n_def A_def by auto
  let ?t = "bytes_transferred (ucast N * 512) (Endpoint_ClearIN (sending ?s b S d))"
  have "SCSI_DecodeSCSICommand stack (replicate (8 * unat N - 1) (collect n) @ w) s = Inr (True, ?t, w)"
    using f assms(2) r(1)
    by (simp add: SCSI_DecodeSCSICommand_def Let_def SCSI_Command_ReadWrite_10_def scsi_command_defs VIRTUAL_MEMORY_BLOCK_SIZE_def linorder_not_le
        Endpoint_ops_cur sending_def) (simp add: scsi_sense_defs)
  moreover have "cur ?t = ep_clear_in ((cur s)\<lparr>r_bank := b, r_sent := r_sent (cur s) @ S\<rparr>)"
    by (simp add: Endpoint_ops_cur sending_def)
  then have "r_sent (cur ?t) = r_sent (cur s) @ S" "r_tx (cur ?t) = Some b"
    using assms(5) by (simp_all add: in_free64_def in_owned_def ep_clear_in_bulk ep_is_control_def ep_is_in_def)
  moreover have "Flash ?t = d" by (simp add: Endpoint_ops_cur sending_def)
  moreover have "cb_DataTransferLength (CommandBlock ?t) = cb_DataTransferLength (CommandBlock s) - ucast N * 512"
    by (simp add: Endpoint_ops_cur sending_def)
  ultimately show ?thesis
    using r(2-5) same_store_disk [OF r(5)] deselected_quiet(2) [OF r(4,5) assms(4)] by (intro exI [of _ b] exI [of _ S] exI [of _ ?t]) (simp only: simp_thms)
qed

text \<open>C37: WRITE (10) of \<open>N\<close> blocks to any block \<open>B\<close> of the disk on, with both memories at rest and unprotected, whose data
  the host sends in packets of whole chunks of sixteen bytes, the first of which has arrived: the command succeeds, the disk
  holds the data in its place, and every other byte is what it was, also in the pages that are written in part only; data for
  blocks beyond the last one is dropped. This holds for every such block, every number of blocks from one on, and all contents. The memories
  stay unprotected, and they are at rest again once the work begun has had its time (\<open>df_finish\<close>), which the code itself
  waits for in the last memory written only: a command that comes earlier can find the other one busy, and is not covered
  (lemma \<open>busy_page_reads_FF\<close>).\<close>

theorem scsi_write_10:
  fixes s :: "'a scsi_scheme"
  assumes "take 9 (cb_SCSICommandData (CommandBlock s)) = rw_command SCSI_CMD_WRITE_10 x y B N" "B < LUN_MEDIA_BLOCKS"
    "df_quiet (Flash s)" "unprotected (Flash s)" "out_arrived s"
    "\<forall>q \<in> set (r_bank (cur s) # ps). chunked (ep_size (cur s)) q" "length (concat (r_bank (cur s) # ps)) = 512 * unat N"
  defines "n \<equiv> unat (UENUM s)" and "A \<equiv> 512 * unat B" and "data \<equiv> concat (r_bank (cur s) # ps)"
  shows "\<exists>t. SCSI_DecodeSCSICommand stack (map (deliver n) ps @ w) s = Inr (True, t, w) \<and>
    (\<forall>a < 16777216. disk_at (Flash t) a = (if A \<le> a \<and> a < A + length data then data ! (a - A) else disk_at (Flash s) a)) \<and>
    df_selected None (Flash t) \<and> unprotected (Flash t) \<and> df_quiet (df_finish (Flash t)) \<and> r_bank (cur t) = [] \<and>
    cb_DataTransferLength (CommandBlock t) = cb_DataTransferLength (CommandBlock s) - ucast N * 512"
proof -
  let ?s = "sense_cleared s"
  note f = rw_fields [OF assms(1)]
  have "unat B < 32768" using assms(2) by (simp only: LUN_MEDIA_BLOCKS_unat(2))
  moreover have "df_quiet (Flash ?s)" "unprotected (Flash ?s)" "out_arrived ?s" using assms(3-5) by (simp_all add: out_arrived_def)
  ultimately obtain d where
    r: "DataflashManager_WriteBlocks B N (map (deliver n) ps @ w) ?s = Inr ((), Endpoint_ClearOUT (receiving ?s [] d), w)"
      "df_selected None d" "unprotected d" "\<forall>a < 16777216. disk_at d a = (if A \<le> a \<and> a < A + length data then data ! (a - A) else disk_at (Flash s) a)"
    using WriteBlocks_stores [of B ?s ps N w] assms(6,7) unfolding n_def A_def data_def by auto
  let ?t = "bytes_transferred (ucast N * 512) (Endpoint_ClearOUT (receiving ?s [] d))"
  have "SCSI_DecodeSCSICommand stack (map (deliver n) ps @ w) s = Inr (True, ?t, w)"
    using f assms(2) r(1)
    by (simp add: SCSI_DecodeSCSICommand_def Let_def SCSI_Command_ReadWrite_10_def scsi_command_defs VIRTUAL_MEMORY_BLOCK_SIZE_def linorder_not_le
        Endpoint_ops_cur receiving_def) (simp add: scsi_sense_defs)
  moreover have "cur ?t = ep_clear_out ((cur s)\<lparr>r_bank := []\<rparr>)" by (simp add: Endpoint_ops_cur receiving_def)
  then have "r_bank (cur ?t) = []"
    using assms(5) by (simp add: out_arrived_def out_owned_def ep_clear_out_bulk ep_is_control_def ep_is_in_def)
  moreover have "Flash ?t = d" by (simp add: Endpoint_ops_cur receiving_def)
  moreover have "cb_DataTransferLength (CommandBlock ?t) = cb_DataTransferLength (CommandBlock s) - ucast N * 512"
    by (simp add: Endpoint_ops_cur receiving_def)
  ultimately show ?thesis using r(2-4) deselected_quiet(1) [OF r(2)] by (intro exI [of _ ?t]) (simp only: simp_thms)
qed

text \<open>C38: A READ (10) or WRITE (10) whose starting block is beyond the last block fails with the sense data for it; nothing is
  sent or taken, and the memories get no byte. Only the starting block counts: a range that begins on the disk and ends
  beyond it succeeds.\<close>

theorem scsi_out_of_range:
  assumes "take 9 (cb_SCSICommandData (CommandBlock s)) = rw_command cmd x y B N" "cmd \<in> {SCSI_CMD_READ_10, SCSI_CMD_WRITE_10}" "LUN_MEDIA_BLOCKS \<le> B"
  shows "\<exists>t. SCSI_DecodeSCSICommand stack w s = Inr (False, t, w) \<and> eps t = eps s \<and> Flash t = Flash s \<and> CommandBlock t = CommandBlock s \<and>
    SenseKey t = SCSI_SENSE_KEY_ILLEGAL_REQUEST \<and> AdditionalSenseCode t = SCSI_ASENSE_LOGICAL_BLOCK_ADDRESS_OUT_OF_RANGE"
proof -
  note f = rw_fields [OF assms(1)]
  have "SCSI_DecodeSCSICommand stack w s = Inr (False, SCSI_SET_SENSE SCSI_SENSE_KEY_ILLEGAL_REQUEST
      SCSI_ASENSE_LOGICAL_BLOCK_ADDRESS_OUT_OF_RANGE SCSI_ASENSEQ_NO_QUALIFIER (sense_cleared s), w)"
    using f assms(2,3)
    by (auto simp: SCSI_DecodeSCSICommand_def Let_def SCSI_Command_ReadWrite_10_def scsi_command_defs) (simp_all add: scsi_sense_defs)
  then show ?thesis by (simp add: SCSI_SET_SENSE_def) (simp add: scsi_sense_defs)
qed

section \<open>Instances\<close>

text \<open>The transport with its IN (3) or its OUT (4) endpoint selected, after an earlier command has failed.\<close>

definition scsi_demo :: "u8 \<Rightarrow> u8 list \<Rightarrow> u8 list \<Rightarrow> scsi" where
  "scsi_demo n bank cdb = ms.extend ((ms_demo (unit_ready 0))\<lparr>UENUM := n,
     eps := (eps (ms_demo (unit_ready 0)))(4 := (eps (ms_demo (unit_ready 0)) 4)\<lparr>r_bank := bank\<rparr>),
     CommandBlock := (unit_ready 0)\<lparr>cb_DataTransferLength := 512, cb_SCSICommandData := cdb\<rparr>\<rparr>)
     \<lparr>Flash = df_demo, SenseKey = 5, AdditionalSenseCode = 0x21, AdditionalSenseQualifier = 0\<rparr>"

lemma ms_demo_out_size: "ep_size (eps (ms_demo b) 4) = 64"
  by (simp add: ms_demo_def ms_zero_state_def dev_reset_def hw_reset_def usb_hw.defs usb_dev.defs ep_none_def ep_size_def reg_bits drop_bit_eq_div)

lemma scsi_demo:
  "Flash (scsi_demo n bank cdb) = df_demo" "in_free64 (scsi_demo 3 bank cdb)" "UENUM (scsi_demo n bank cdb) = n"
  "out_arrived (scsi_demo 4 bank cdb)" "r_bank (cur (scsi_demo 4 bank cdb)) = bank" "ep_size (cur (scsi_demo 4 bank cdb)) = 64"
  "cb_SCSICommandData (CommandBlock (scsi_demo n bank cdb)) = cdb" "cb_DataTransferLength (CommandBlock (scsi_demo n bank cdb)) = 512"
  "SCSICommandData (scsi_demo n bank cdb) i = cdb ! i"
  using ms_demo_state [of "unit_ready 0"] ms_demo_out_size [of "unit_ready 0"]
  by (simp_all add: scsi_demo_def ms.defs in_free64_def out_arrived_def cur_def SCSICommandData_def)

definition rw_demo :: "u8 \<Rightarrow> u32 \<Rightarrow> u8 list" where
  "rw_demo cmd B = rw_command cmd 0 0 B 1 @ replicate 7 0"

lemma rw_demo_take: "take 9 (rw_demo cmd B) = rw_command cmd 0 0 B 1"
  by (simp add: rw_demo_def rw_command_def)

lemma df_demo_bytes:
  assumes "xs = map (disk_at df_demo) [a..<a + m]" "a + m \<le> 16777216"
  shows "set xs \<subseteq> {0xA5} \<and> length xs = m"
  using assms by (auto simp: df_demo(3))

theorem scsi_read_10_witness:
  "\<exists>b S t. SCSI_DecodeSCSICommand (\<lambda>_. 0) (replicate 7 (collect 3) @ []) (scsi_demo 3 [] (rw_demo SCSI_CMD_READ_10 3)) = Inr (True, t, []) \<and>
    r_tx (cur t) = Some b \<and> set (concat (S @ [b])) \<subseteq> {0xA5} \<and> length (concat (S @ [b])) = 512 \<and>
    cb_DataTransferLength (CommandBlock t) = 0"
proof -
  let ?s = "scsi_demo 3 [] (rw_demo SCSI_CMD_READ_10 3)"
  have p: "take 9 (cb_SCSICommandData (CommandBlock ?s)) = rw_command SCSI_CMD_READ_10 0 0 3 1" "(3 :: u32) < LUN_MEDIA_BLOCKS" "0 < unat (1 :: u16)"
    "df_quiet (Flash ?s)"
    using df_demo(1) by (simp_all add: scsi_demo rw_demo_take LUN_MEDIA_BLOCKS_unat(1))
  from scsi_read_10 [OF p scsi_demo(2), of "\<lambda>_. 0" "[]"] obtain b S t where
    r: "SCSI_DecodeSCSICommand (\<lambda>_. 0) (replicate (8 * unat (1 :: u16) - 1) (collect (unat (UENUM ?s))) @ []) ?s = Inr (True, t, [])"
      "r_tx (cur t) = Some b" "concat (S @ [b]) = map (disk_at df_demo) [512 * unat (3 :: u32)..<512 * unat (3 :: u32) + 512 * unat (1 :: u16)]"
      "cb_DataTransferLength (CommandBlock t) = cb_DataTransferLength (CommandBlock ?s) - ucast (1 :: u16) * 512"
    unfolding scsi_demo(1) by blast
  have "set (concat (S @ [b])) \<subseteq> {0xA5} \<and> length (concat (S @ [b])) = 512" using df_demo_bytes [OF r(3)] by simp
  moreover have "SCSI_DecodeSCSICommand (\<lambda>_. 0) (replicate 7 (collect 3) @ []) ?s = Inr (True, t, [])" using r(1) by (simp add: scsi_demo(3))
  moreover have "cb_DataTransferLength (CommandBlock t) = 0" using r(4) by (simp add: scsi_demo(8))
  ultimately show ?thesis using r(2) by blast
qed

theorem scsi_write_10_witness:
  "\<exists>t. SCSI_DecodeSCSICommand (\<lambda>_. 0) (map (deliver 4) (replicate 7 (replicate 64 7)) @ [])
        (scsi_demo 4 (replicate 64 7) (rw_demo SCSI_CMD_WRITE_10 3)) = Inr (True, t, []) \<and>
    disk_at (Flash t) 1535 = 0xA5 \<and> disk_at (Flash t) 1536 = 7 \<and> disk_at (Flash t) 2047 = 7 \<and> disk_at (Flash t) 2048 = 0xA5"
proof -
  let ?s = "scsi_demo 4 (replicate 64 7) (rw_demo SCSI_CMD_WRITE_10 3)" and ?ps = "replicate 7 (replicate 64 (7 :: u8))"
  have c: "concat (replicate 64 7 # ?ps) = replicate 512 (7 :: u8)" by (simp add: numeral_nat replicate_append_same)
  have p: "take 9 (cb_SCSICommandData (CommandBlock ?s)) = rw_command SCSI_CMD_WRITE_10 0 0 3 1" "(3 :: u32) < LUN_MEDIA_BLOCKS"
    "df_quiet (Flash ?s)" "unprotected (Flash ?s)"
    using df_demo(1,2) by (simp_all add: scsi_demo rw_demo_take LUN_MEDIA_BLOCKS_unat(1))
  have q: "\<forall>q \<in> set (r_bank (cur ?s) # ?ps). chunked (ep_size (cur ?s)) q" "length (concat (r_bank (cur ?s) # ?ps)) = 512 * unat (1 :: u16)"
    using c by (simp_all add: scsi_demo chunked_def)
  from scsi_write_10 [OF p scsi_demo(4) q, of "\<lambda>_. 0" "[]"] show ?thesis
    using df_demo(3) [of 1535] df_demo(3) [of 2048] unfolding scsi_demo(1,3,5) c by auto
qed

theorem scsi_out_of_range_witness:
  "\<exists>t. SCSI_DecodeSCSICommand (\<lambda>_. 0) [] (scsi_demo 3 [] (rw_demo SCSI_CMD_READ_10 32768)) = Inr (False, t, []) \<and>
    Flash t = df_demo \<and> SenseKey t = SCSI_SENSE_KEY_ILLEGAL_REQUEST"
  using scsi_out_of_range [of "scsi_demo 3 [] (rw_demo SCSI_CMD_READ_10 32768)" SCSI_CMD_READ_10 0 0 32768 1 "\<lambda>_. 0" "[]"]
  by (auto simp: scsi_demo rw_demo_take LUN_MEDIA_BLOCKS_unat(1))

end
