(* ===== verification/ScsiAnswers.thy ===== *)
theory ScsiAnswers
  imports ScsiCommands
begin

text \<open>The commands that answer with a structure of the program, or with nothing.\<close>

section \<open>Answers of one packet\<close>

lemma stream_write_fits_down:
  assumes "in_owned (cur s)" "m < 65536" "length (r_bank (cur s)) + m \<le> ep_size (cur s)" "m \<le> length buf"
  shows "stream_loop Endpoint_ClearIN (xfer_write (-1)) (of_nat m) (buf, int m - 1) w s =
    Inr ((0, (buf, -1)), upd_cur (\<lambda>ep. ep\<lparr>r_bank := r_bank ep @ rev (take m buf)\<rparr>) s, w)"
  using assms
proof (induction m arbitrary: s)
  case 0
  have "upd_cur (\<lambda>ep. ep\<lparr>r_bank := r_bank ep\<rparr>) s = s" by (simp add: upd_cur_def upd_ep_def)
  then show ?case by (simp add: stream_loop.simps readywait_defs)
next
  case (Suc m)
  let ?s = "upd_cur (ep_push (buf ! m)) s"
  have nz: "(of_nat (Suc m) :: u16) \<noteq> 0" using Suc.prems of_nat_word_eq_0 [of "Suc m"] by simp
  have "stream_loop Endpoint_ClearIN (xfer_write (-1)) (of_nat (Suc m)) (buf, int (Suc m) - 1) w s =
      stream_loop Endpoint_ClearIN (xfer_write (-1)) (of_nat m) (buf, int m - 1) w ?s"
    using Suc.prems nz
    by (subst stream_loop.simps) (simp add: Endpoint_flags ep_rwal_in xfer_write_def Endpoint_ops_cur)
  also have c: "cur ?s = (cur s)\<lparr>r_bank := r_bank (cur s) @ [buf ! m]\<rparr>"
    using Suc.prems by (simp add: ep_push_def)
  have "stream_loop Endpoint_ClearIN (xfer_write (-1)) (of_nat m) (buf, int m - 1) w ?s =
      Inr ((0, (buf, -1)), upd_cur (\<lambda>ep. ep\<lparr>r_bank := r_bank ep @ rev (take m buf)\<rparr>) ?s, w)"
    using Suc.prems by (intro Suc.IH) (simp_all only: c, simp_all add: in_owned_def ep_is_control_def ep_is_in_def)
  also have "upd_cur (\<lambda>ep. ep\<lparr>r_bank := r_bank ep @ rev (take m buf)\<rparr>) ?s = upd_cur (\<lambda>ep. ep\<lparr>r_bank := r_bank ep @ rev (take (Suc m) buf)\<rparr>) s"
    unfolding upd_cur_upd_cur using Suc.prems
    by (intro upd_cur_cong) (simp add: ep_push_def take_Suc_conv_app_nth)
  finally show ?case .
qed

lemma Write_Stream_BE_fits:
  assumes "in_owned (cur s)" "length (r_bank (cur s)) + unat L \<le> ep_size (cur s)" "unat L \<le> length buf"
  shows "Endpoint_Write_Stream_BE buf L w s =
    Inr (ENDPOINT_READYWAIT_NoError, upd_cur (\<lambda>ep. ep\<lparr>r_bank := r_bank ep @ rev (take (unat L) buf)\<rparr>) s, w)"
  using stream_write_fits_down [OF assms(1) unat_less_u16 assms(2,3), of w] assms
  by (simp add: Endpoint_Write_Stream_BE_def rw_stream_def in_owned_ready readywait_defs)

text \<open>Two streams into an empty bank, and the packet is released.\<close>

lemma two_streams:
  assumes "in_free64 s" "unat L1 \<le> length b1" "unat L2 \<le> length b2" "unat L1 + unat L2 \<le> 64"
  shows "bind_run (Endpoint_Write_Stream_LE b1 L1 w s) (\<lambda>_ s w. bind_run (Endpoint_Write_Stream_LE b2 L2 w s) (\<lambda>_ s w. h s w)) =
      h (sending s (take (unat L1) b1 @ take (unat L2) b2) [] (Flash s)) w"
    "bind_run (Endpoint_Write_Stream_BE b1 L1 w s) (\<lambda>_ s w. bind_run (Endpoint_Write_Stream_BE b2 L2 w s) (\<lambda>_ s w. h s w)) =
      h (sending s (rev (take (unat L1) b1) @ rev (take (unat L2) b2)) [] (Flash s)) w"
proof -
  have f: "in_owned (cur s)" "r_bank (cur s) = []" "ep_size (cur s) = 64" using assms(1) by (simp_all add: in_free64_def)
  have u: "upd_cur (\<lambda>ep. ep\<lparr>r_bank := r_bank ep @ c\<rparr>) (upd_cur (\<lambda>ep. ep\<lparr>r_bank := r_bank ep @ b\<rparr>) s) = sending s (b @ c) [] (Flash s)" for b c
    unfolding upd_cur_upd_cur sending_def using f(2) by (simp del: Flash_frame(5)) (intro upd_cur_cong, simp)
  have own: "in_owned (cur (upd_cur (\<lambda>ep. ep\<lparr>r_bank := r_bank ep @ b\<rparr>) s))" "ep_size (cur (upd_cur (\<lambda>ep. ep\<lparr>r_bank := r_bank ep @ b\<rparr>) s)) = 64"
    "r_bank (cur (upd_cur (\<lambda>ep. ep\<lparr>r_bank := r_bank ep @ b\<rparr>) s)) = b" for b
    using f by (simp_all add: in_owned_def ep_is_control_def ep_is_in_def ep_size_def)
  show "bind_run (Endpoint_Write_Stream_LE b1 L1 w s) (\<lambda>_ s w. bind_run (Endpoint_Write_Stream_LE b2 L2 w s) (\<lambda>_ s w. h s w)) =
      h (sending s (take (unat L1) b1 @ take (unat L2) b2) [] (Flash s)) w"
    using Write_Stream_fits [of s L1 b1 w] Write_Stream_fits [OF own(1), of "take (unat L1) b1" L2 b2 w] assms f own u by simp
  show "bind_run (Endpoint_Write_Stream_BE b1 L1 w s) (\<lambda>_ s w. bind_run (Endpoint_Write_Stream_BE b2 L2 w s) (\<lambda>_ s w. h s w)) =
      h (sending s (rev (take (unat L1) b1) @ rev (take (unat L2) b2)) [] (Flash s)) w"
    using Write_Stream_BE_fits [of s L1 b1 w] Write_Stream_BE_fits [OF own(1), of "rev (take (unat L1) b1)" L2 b2 w] assms f own u by simp
qed

lemma sent_ClearIN:
  assumes "in_free64 s"
  shows "r_tx (cur (Endpoint_ClearIN (sending s b [] d))) = Some b"
  using assms by (simp add: Endpoint_ops_cur sending_def in_free64_def in_owned_def ep_clear_in_bulk ep_is_control_def ep_is_in_def)

lemma answer_frame:
  "cb_DataTransferLength (CommandBlock (Endpoint_ClearIN (sending s b S d))) = cb_DataTransferLength (CommandBlock s)"
  "SenseKey (Endpoint_ClearIN (sending t b S d)) = SenseKey t"
  by (simp_all add: Endpoint_ops_cur sending_def)

section \<open>The commands\<close>

text \<open>C39: REQUEST SENSE, for an allocation length up to the 64 bytes of a packet and with the endpoint to the host free, answers
  that there was no error, whatever sense data the last command left, because the data is cleared before every command,
  this one too; and the bytes the host asks for beyond the structure are what the stack holds.\<close>

theorem scsi_request_sense_forgets:
  fixes s :: "'a scsi_scheme"
  assumes "SCSICommandData s 0 = SCSI_CMD_REQUEST_SENSE" "in_free64 s" "unat (SCSICommandData s 4) \<le> 64"
  defines "L \<equiv> unat (SCSICommandData s 4)"
  shows "\<exists>t. SCSI_DecodeSCSICommand stack w s = Inr (True, t, w) \<and>
    r_tx (cur t) = Some (take L [0x70, 0, 0, 0, 0, 0, 0, 0x0A, 0, 0, 0, 0, 0, 0, 0, 0, 0, 0] @ map stack [0..<L - 18])"
proof -
  let ?s = "sense_cleared s" and ?a = "SCSICommandData s 4"
  let ?n = "if ?a < 18 then ?a else 18"
  have s: "in_free64 ?s" using assms(2) by (simp add: in_free64_def)
  have n: "unat ?n = min L 18" "unat (?a - ?n) = L - 18"
    by (auto simp: L_def word_less_nat_alt unat_sub word_le_nat_alt min_def)
  have u: "unat (ucast x :: u16) = unat x" for x :: u8 by (simp add: unsigned_ucast_eq take_bit_nat_eq_self order_less_trans [OF unat_less_u8])
  have d: "SenseData ?s = [0x70, 0, 0, 0, 0, 0, 0, 0x0A, 0, 0, 0, 0, 0, 0, 0, 0, 0, 0]"
    by (simp add: SenseData_def SCSI_SET_SENSE_def scsi_sense_defs)
  have "L - 18 + min L 18 = L" by simp
  then have p: "unat (ucast ?n :: u16) \<le> length (SenseData ?s)" "unat (ucast (?a - ?n) :: u16) \<le> length (map stack [0..<L - 18])"
    "unat (ucast ?n :: u16) + unat (ucast (?a - ?n) :: u16) \<le> 64"
    using assms(3) by (simp_all only: n u L_def [symmetric] length_map length_upt) (simp_all add: SenseData_def)
  let ?t = "bytes_transferred (ucast ?n) (Endpoint_ClearIN (sending ?s (take (min L 18) (SenseData ?s) @ map stack [0..<L - 18]) [] (Flash ?s)))"
  have "SCSI_Command_Request_Sense stack w ?s = Inr ((), ?t, w)"
    using two_streams(1) [OF s p]
    by (simp only: SCSI_Command_Request_Sense_def Let_def n u SCSICommandData_sense take_all length_map length_upt minus_nat.diff_0 order_refl)
  then have "SCSI_DecodeSCSICommand stack w s = Inr (True, ?t, w)"
    using assms(1) by (simp add: SCSI_DecodeSCSICommand_def Let_def scsi_command_defs answer_frame) (simp add: scsi_sense_defs)
  moreover have "take (min L 18) (SenseData ?s) = take L (SenseData ?s)" by (simp add: d min_def)
  ultimately show ?thesis using sent_ClearIN [OF s] d by (intro exI [of _ ?t]) simp
qed

lemma scsi_inquiry:
  fixes s :: "'a scsi_scheme"
  assumes "SCSICommandData s 0 = SCSI_CMD_INQUIRY" "SCSICommandData s 1 AND 3 = 0" "SCSICommandData s 2 = 0" "in_free64 s"
  defines "L \<equiv> unat (push_bit 8 (ucast (SCSICommandData s 3)) OR ucast (SCSICommandData s 4) :: u16)"
  assumes "L \<le> 64"
  shows "\<exists>t. SCSI_DecodeSCSICommand stack w s = Inr (True, t, w) \<and> r_tx (cur t) = Some (take L InquiryData @ map stack [0..<L - 36])"
proof -
  let ?s = "sense_cleared s" and ?a = "push_bit 8 (ucast (SCSICommandData s 3)) OR ucast (SCSICommandData s 4) :: u16"
  let ?n = "if ?a < 36 then ?a else 36"
  have s: "in_free64 ?s" using assms(4) by (simp add: in_free64_def)
  have n: "unat ?n = min L 36" "unat (?a - ?n) = L - 36"
    by (auto simp: L_def word_less_nat_alt unat_sub word_le_nat_alt min_def)
  have l: "length InquiryData = 36" by (simp add: InquiryData_def)
  have "L - 36 + min L 36 = L" by simp
  then have p: "unat ?n \<le> length InquiryData" "unat (?a - ?n) \<le> length (map stack [0..<L - 36])" "unat ?n + unat (?a - ?n) \<le> 64"
    using assms(6) by (simp_all only: n length_map length_upt l)
  let ?t = "bytes_transferred (ucast ?n) (Endpoint_ClearIN (sending ?s (take (min L 36) InquiryData @ map stack [0..<L - 36]) [] (Flash ?s)))"
  have "(1 OR push_bit 1 1 :: u8) = 3" by simp
  then have "SCSI_Command_Inquiry stack w ?s = Inr ((), ?t, w)"
    using two_streams(1) [OF s p] assms(2,3)
    by (simp only: SCSI_Command_Inquiry_def Let_def n SCSICommandData_sense take_all length_map length_upt minus_nat.diff_0 order_refl
        simp_thms if_False)
  then have "SCSI_DecodeSCSICommand stack w s = Inr (True, ?t, w)"
    using assms(1) by (simp add: SCSI_DecodeSCSICommand_def Let_def scsi_command_defs answer_frame) (simp add: scsi_sense_defs)
  moreover have "take (min L 36) InquiryData = take L InquiryData" by (simp add: l min_def)
  ultimately show ?thesis using sent_ClearIN [OF s] by (intro exI [of _ ?t]) simp
qed

lemma scsi_read_capacity:
  assumes "SCSICommandData s 0 = SCSI_CMD_READ_CAPACITY_10" "in_free64 s"
  shows "\<exists>t. SCSI_DecodeSCSICommand stack w s = Inr (True, t, w) \<and> r_tx (cur t) = Some [0, 0, 0x7F, 0xFF, 0, 0, 2, 0] \<and>
    cb_DataTransferLength (CommandBlock t) = cb_DataTransferLength (CommandBlock s) - 8"
proof -
  let ?s = "sense_cleared s"
  have s: "in_free64 ?s" using assms(2) by (simp add: in_free64_def)
  have b: "rev (take (unat (4 :: u16)) (le_bytes 4 (LUN_MEDIA_BLOCKS - 1))) = [0, 0, 0x7F, 0xFF]"
    "rev (take (unat (4 :: u16)) (le_bytes 4 (of_nat VIRTUAL_MEMORY_BLOCK_SIZE :: u32))) = [0, 0, 2, 0]"
    by (simp_all add: LUN_MEDIA_BLOCKS_unat(1) VIRTUAL_MEMORY_BLOCK_SIZE_def le_bytes_4 drop_bit_eq_div)
  let ?t = "bytes_transferred 8 (Endpoint_ClearIN (sending ?s ([0, 0, 0x7F, 0xFF] @ [0, 0, 2, 0]) [] (Flash ?s)))"
  have "SCSI_Command_Read_Capacity_10 w ?s = Inr ((), ?t, w)"
    using two_streams(2) [OF s, of 4 "le_bytes 4 (LUN_MEDIA_BLOCKS - 1)" 4 "le_bytes 4 (of_nat VIRTUAL_MEMORY_BLOCK_SIZE :: u32)"]
    unfolding b by (simp add: SCSI_Command_Read_Capacity_10_def)
  then have "SCSI_DecodeSCSICommand stack w s = Inr (True, ?t, w)"
    using assms(1) by (simp add: SCSI_DecodeSCSICommand_def Let_def scsi_command_defs answer_frame) (simp add: scsi_sense_defs)
  then show ?thesis using sent_ClearIN [OF s] by (intro exI [of _ ?t]) (simp add: answer_frame)
qed

text \<open>A command the program does not know fails with the data left; the driver then stalls the endpoint.\<close>

lemma scsi_unknown_command:
  assumes "SCSICommandData s 0 \<notin> {SCSI_CMD_INQUIRY, SCSI_CMD_REQUEST_SENSE, SCSI_CMD_READ_CAPACITY_10, SCSI_CMD_SEND_DIAGNOSTIC, SCSI_CMD_WRITE_10,
    SCSI_CMD_READ_10, SCSI_CMD_TEST_UNIT_READY, SCSI_CMD_PREVENT_ALLOW_MEDIUM_REMOVAL, SCSI_CMD_VERIFY_10}"
  shows "\<exists>t. SCSI_DecodeSCSICommand stack w s = Inr (False, t, w) \<and> eps t = eps s \<and> Flash t = Flash s \<and> CommandBlock t = CommandBlock s \<and>
    SenseKey t = SCSI_SENSE_KEY_ILLEGAL_REQUEST \<and> AdditionalSenseCode t = SCSI_ASENSE_INVALID_COMMAND"
proof -
  let ?t = "SCSI_SET_SENSE SCSI_SENSE_KEY_ILLEGAL_REQUEST SCSI_ASENSE_INVALID_COMMAND SCSI_ASENSEQ_NO_QUALIFIER (sense_cleared s)"
  have "SCSI_DecodeSCSICommand stack w s = Inr (False, ?t, w)"
    using assms by (simp add: SCSI_DecodeSCSICommand_def Let_def) (simp add: scsi_sense_defs)
  then show ?thesis by (simp add: SCSI_SET_SENSE_def) (simp add: scsi_sense_defs)
qed

lemma scsi_no_data_command:
  assumes "SCSICommandData s 0 \<in> {SCSI_CMD_TEST_UNIT_READY, SCSI_CMD_PREVENT_ALLOW_MEDIUM_REMOVAL, SCSI_CMD_VERIFY_10}"
  shows "SCSI_DecodeSCSICommand stack w s = Inr (True, all_transferred (sense_cleared s), w)"
  using assms
  by (auto simp: SCSI_DecodeSCSICommand_def Let_def scsi_command_defs all_transferred_def) (simp_all add: scsi_sense_defs)

theorem scsi_request_sense_forgets_witness:
  "SenseKey (scsi_demo 3 [] [3, 0, 0, 0, 4, 0]) = 5 \<and>
   (\<exists>t. SCSI_DecodeSCSICommand (\<lambda>_. 9) [] (scsi_demo 3 [] [3, 0, 0, 0, 4, 0]) = Inr (True, t, []) \<and> r_tx (cur t) = Some [0x70, 0, 0, 0])"
  using scsi_request_sense_forgets [of "scsi_demo 3 [] [3, 0, 0, 0, 4, 0]" "\<lambda>_. 9" "[]"]
  by (simp add: scsi_demo SCSI_CMD_REQUEST_SENSE_def) (simp add: scsi_demo_def ms.defs)

end
