(* ===== verification/DiskRam.thy ===== *)
theory DiskRam
  imports DiskSave
begin

text \<open>
  \<open>DataflashManager_WriteBlocks_RAM\<close>: it alternates between the two buffers of a memory like the function for an endpoint, but
  always fills the first one, so a page can get what the second one held before.
\<close>

section \<open>The second page\<close>

text \<open>The first memory takes bytes for its first buffer while the second one, \<open>X\<close>, is what the page will get.\<close>

definition wrong_buffer :: "nat \<Rightarrow> u8 list \<Rightarrow> (nat \<Rightarrow> u8) \<Rightarrow> u16 \<Rightarrow> (nat \<Rightarrow> u8) \<Rightarrow> nat \<Rightarrow> cursor \<Rightarrow> dataflash \<Rightarrow> bool" where
  "wrong_buffer A data f p X m c d \<longleftrightarrow> c = (p, of_nat m, True) \<and> df_selected (Some 0) d \<and> unprotected d \<and> disk_up_to (1024 * unat p) A data f d \<and>
     chip_filling 1 (16 * m) (df_chips d 0) \<and> df_buf (df_chips d 0) 2 = X"

lemma wrong_buffer_fills:
  assumes "wrong_buffer A data f p X m (p, q, u) d" "m < 64" "length bs = 16"
  shows "wrong_buffer A data f p X (Suc m) (p, q + 1, u) (fold Dataflash_SendByte bs d)"
proof -
  have i: "q = of_nat m" "u" "df_selected (Some 0) d" "unprotected d" "disk_up_to (1024 * unat p) A data f d" "chip_filling 1 (16 * m) (df_chips d 0)"
    "df_buf (df_chips d 0) 2 = X"
    using assms(1) by (simp_all add: wrong_buffer_def)
  have "16 * m + length bs \<le> DF_BUFFER_BYTES" using assms(2,3) by (simp add: DF_BUFFER_BYTES_def)
  from chip_filling_takes [OF i(6) this] have t: "fold chip_take bs (df_chips d 0) = df_chips d 0\<lparr>df_in := df_in (df_chips d 0) @ bs,
      df_buf := (df_buf (df_chips d 0))(1 := overlay (16 * m) bs (df_buf (df_chips d 0) 1))\<rparr>"
    "chip_filling 1 (16 * m + 16) (fold chip_take bs (df_chips d 0))"
    unfolding assms(3) by blast+
  let ?d = "df_upd 0 (fold chip_take bs) d"
  have same: "df_mem (df_chips ?d j) = df_mem (df_chips d j)" "df_protected (df_chips ?d j) = df_protected (df_chips d j)" for j
    by (simp_all add: t(1))
  have "unprotected ?d" "disk_up_to (1024 * unat p) A data f ?d" using i(4,5) by (simp_all only: unprotected_def disk_up_to_def disk_at_def same)
  moreover have "df_buf (df_chips ?d 0) 2 = X" using i(7) by (simp add: t(1))
  moreover have "chip_filling 1 (16 * Suc m) (df_chips ?d 0)" using t(2) by (simp add: add.commute)
  ultimately show ?thesis using i(1-3) by (simp add: wrong_buffer_def fold_send_selected add.commute)
qed

lemma wrong_buffer_begins:
  assumes "write_inv A data f k (p, PAGE_DIV16, False) d" "A + length data = 1024 * unat p + 1024" "odd (unat p)" "unat p < 16383"
    "df_busy (df_chips d 0) = 0"
  shows "\<exists>d'. next_page fill_first_buffer 2 (p, PAGE_DIV16, False) d = Inr ((p + 1, 0, True), d') \<and>
    wrong_buffer A data f (p + 1) (df_buf (df_chips d 0) 2) 0 (p + 1, 0, True) d'"
proof -
  have q: "unat PAGE_DIV16 = 64" using PAGE_DIV16_unat [of PAGE_DIV16] by simp
  have c: "page_chip p = Some 1" "page_chip (p + 1) = Some 0"
    using assms(3,4) unat_plus_one_u16 [of p] by (auto simp: page_chip_def odd_iff_mod_2_eq_one)
  have "unat p < 65535" using assms(4) by simp
  from write_inv_page_ends [OF assms(1) q this] obtain d1 where
    1: "send_page p False d = Inr d1" "Dataflash_GetSelectedChip d1 = DATAFLASH_CHIP2"
      "at_next_page A data f (p + 1) True (Dataflash_SelectChipFromPage (p + 1) d1)" using c(1) assms(3) by auto
  have i: "df_selected (Some 1) d" "chip_filling (buffer_of False) (16 * unat PAGE_DIV16) (df_chips d 1)" "unprotected d"
    using assms(1) by (simp_all add: write_inv_def c(1))
  from send_page_selected [OF i(1) c(1) i(2,3), of False] 1(1) have
    r: "df_selected (Some 1) d1" "df_chips (df_release (Some 1) d1) = (df_chips d)(1 := programmed p False (df_chips d 1))" by auto
  let ?d = "Dataflash_SelectChipFromPage (p + 1) d1"
  have ch: "df_chips ?d 0 = chip_select (df_chips d 0)" using Dataflash_SelectChipFromPage_chips(2) [OF r(1), of "p + 1"] c(2) r(2) by simp
  have sel: "df_selected (Some 0) ?d" using 1(3) c(2) by (simp add: at_next_page_def)
  have keep: "keep_trailing 2 (p + 1) True ?d = Inr ?d"
    by (simp add: keep_trailing_def VIRTUAL_MEMORY_BLOCK_SIZE_def DATAFLASH_PAGE_SIZE_def)
  let ?e = "df_upd 0 (\<lambda>c. chip_command (write_command False) 0 0 (chip_deselect c)) ?d"
  have toggle: "Dataflash_ToggleSelectedChipCS ?d = df_upd 0 chip_deselect ?d"
    by (simp add: Dataflash_ToggleSelectedChipCS_selected [OF sel] df_release_def)
  have sel': "df_selected (Some 0) (df_upd 0 chip_deselect ?d)" using sel by simp
  have fill: "Dataflash_SendAddressBytes 0 0 (fill_first_buffer True ?d) = ?e"
    using command_selected [OF sel', of 0 0 "write_command False"] by (simp add: fill_first_buffer_def toggle write_command_def)
  have empty: "df_in (df_chips ?d 0) = []" "df_busy (df_chips ?d 0) = 0" using assms(5) by (simp_all add: ch chip_select_def)
  then have "df_busy (df_chips ?d 0) = 0 \<or> df_owner (df_chips ?d 0) \<noteq> buffer_of False" by simp
  note cf = chip_command_fill [OF empty(1) this, of 0, simplified]
  have ce: "df_chips ?e 0 = df_chips ?d 0\<lparr>df_in := write_command False # address_bytes 0 0\<rparr>" "j \<noteq> 0 \<Longrightarrow> df_chips ?e j = df_chips ?d j" for j
    using empty(1) cf(1) by (simp_all add: chip_rest_empty(2))
  have same: "df_mem (df_chips ?e j) = df_mem (df_chips ?d j)" "df_protected (df_chips ?e j) = df_protected (df_chips ?d j)" for j
    using ce by (cases "j = 0"; simp)+
  have "unprotected ?d" "disk_up_to (1024 * unat (p + 1)) A data f ?d" using 1(3) by (simp_all add: at_next_page_def)
  then have "unprotected ?e" "disk_up_to (1024 * unat (p + 1)) A data f ?e" by (simp_all only: unprotected_def disk_up_to_def disk_at_def same)
  moreover have "df_buf (df_chips ?e 0) 2 = df_buf (df_chips d 0) 2" by (simp add: ce(1) ch chip_select_def del: df_upd_simps)
  moreover have "chip_filling 1 0 (df_chips ?e 0)" using cf empty(1) by (simp add: chip_rest_empty(2) buffer_of_def)
  ultimately have "wrong_buffer A data f (p + 1) (df_buf (df_chips d 0) 2) 0 (p + 1, 0, True) ?e"
    using sel by (simp add: wrong_buffer_def)
  moreover have "next_page fill_first_buffer 2 (p, PAGE_DIV16, False) d = Inr ((p + 1, 0, True), ?e)"
    using 1(1,2) keep fill by (simp add: next_page_def Let_def)
  ultimately show ?thesis by blast
qed

lemma wrong_buffer_ends:
  assumes "wrong_buffer A data f p X m c d" "page_chip p = Some 0"
  shows "\<exists>d'. end_write c d = Inr ((), d') \<and>
    (\<forall>a < 16777216. disk_at (Dataflash_DeselectChip d') a =
       (if 1024 * unat p \<le> a \<and> a < 1024 * unat p + 1024 then X (a - 1024 * unat p) else written_to (1024 * unat p) A data f a))"
proof -
  let ?c = "df_chips d 0"
  have i: "c = (p, of_nat m, True)" "df_selected (Some 0) d" "unprotected d" "disk_up_to (1024 * unat p) A data f d"
      "chip_filling 1 (16 * m) ?c" "df_buf ?c 2 = X"
    using assms(1) by (simp_all add: wrong_buffer_def)
  from send_page_selected [OF i(2) assms(2) i(5,3), of True] obtain d1 d2 where
    1: "send_page p True d = Inr d1" "Dataflash_WaitWhileBusy d1 = Inr d2" "df_selected (Some 0) d2"
      "df_chips d2 = (df_chips d)(0 := (programmed p True ?c)\<lparr>df_busy := 0\<rparr>)" by blast
  note n = Dataflash_DeselectChip_chips [OF 1(3)]
  have p: "unat p < 16384" "unat p mod 2 = 0" using page_chip_cases(1) [OF assms(2)] by simp_all
  have m: "df_mem (df_chips (Dataflash_DeselectChip d2) j) =
      (if j = unat p mod 2 then (df_mem (df_chips d j))(unat p div 2 := X) else df_mem (df_chips d j))" for j
    by (simp add: n(1) df_release_def 1(4) programmed_def chip_rest_empty p(2) i(6) buffer_of_def)
  have "disk_at (Dataflash_DeselectChip d2) a =
      (if 1024 * unat p \<le> a \<and> a < 1024 * unat p + 1024 then X (a - 1024 * unat p) else written_to (1024 * unat p) A data f a)" if "a < 16777216" for a
    using disk_page_replaced [OF p(1) m that] i(4) that by (simp add: disk_up_to_def)
  then show ?thesis using 1(1,2) by (intro exI [of _ d2]) (simp add: i(1) end_write_def)
qed

section \<open>The transfer\<close>

text \<open>C40: Of four blocks in memory that begin with an odd page, written while both memories are at rest and unprotected, the first two
  are written as they should be; the next page of the other memory gets what the second buffer of that memory held, whatever
  the blocks are.\<close>

theorem WriteBlocks_RAM_stale:
  assumes "unat B = 2 * P" "odd P" "P < 16383" "length Buffer = 2048" "df_quiet d" "unprotected d"
  shows "\<exists>d'. DataflashManager_WriteBlocks_RAM B 4 Buffer d = Inr d' \<and>
    (\<forall>a < 16777216. disk_at d' a =
      (if 1024 * P \<le> a \<and> a < 1024 * P + 1024 then Buffer ! (a - 1024 * P)
       else if 1024 * P + 1024 \<le> a \<and> a < 1024 * P + 2048 then df_buf (df_chips d 0) 2 (a - (1024 * P + 1024))
       else disk_at d a))"
proof -
  let ?A = "512 * unat B" and ?data = "take 1024 Buffer" and ?f = "disk_at d" and ?X = "df_buf (df_chips d 0) 2" and ?p = "first_page B"
  have B: "unat B < 32768" using assms(1,3) by simp
  have fp: "unat ?p = P" "first_page_byte B = 0"
  proof -
    note fu = first_page_unat [OF B]
    have "1024 * unat ?p + unat (first_page_byte B) = 1024 * P" using fu(1) assms(1) by simp
    moreover have "x = z \<and> y = 0" if "1024 * x + y = 1024 * z" "y < 1024" for x y z :: nat
      using arg_cong [OF that(1), of "\<lambda>n. n div 1024"] arg_cong [OF that(1), of "\<lambda>n. n mod 1024"] that(2) by simp
    ultimately have "unat ?p = P \<and> unat (first_page_byte B) = 0" using fu(3) by blast
    then show "unat ?p = P" "first_page_byte B = 0" by (simp_all add: word_unat_eq_iff)
  qed
  have p1: "unat (?p + 1) = P + 1" using unat_plus_one_u16 [of ?p] fp(1) assms(3) by simp
  have chips: "page_chip ?p = Some 1" "page_chip (?p + 1) = Some 0"
    using assms(2,3) fp(1) p1 by (auto simp: page_chip_def odd_iff_mod_2_eq_one)
  have at: "?A + length ?data = 1024 * unat ?p + 1024" using assms(1,4) fp(1) by simp
  obtain d0 where b: "begin_write B d = Inr ((), d0)" "write_inv ?A ?data ?f 0 (start_cursor B) d0" "df_busy (df_chips d0 0) = 0"
    "df_buf (df_chips d0 0) = df_buf (df_chips d 0)"
    using begin_write_inv [OF B assms(5,6), of ?data] unfolding chips(1) by (metis option.inject zero_neq_one zero_less_numeral)
  let ?I = "\<lambda>k c (w :: (dataflash \<times> u8 list) world) s. case s of (d', buf) \<Rightarrow> buf = drop (16 * k) Buffer \<and>
      (if k \<le> 64 then c = (?p, of_nat k, False) \<and> write_inv ?A ?data ?f k c d' \<and> df_busy (df_chips d' 0) = 0 \<and> df_buf (df_chips d' 0) 2 = ?X
       else wrong_buffer ?A ?data ?f (?p + 1) ?X (k - 64) c d')"
  have of8: "of_nat (Suc m) = of_nat m + (1 :: u8)" "unat (of_nat m :: u8) = m" if "m < 256" for m
    using that by (simp_all add: unat_of_nat take_bit_nat_eq_self)
  have step: "\<exists>c' w' s'. ram_write_chunk (of_nat (4 - k div BLOCK_DIV16)) c w s = Inr (Some c', s', w') \<and> ?I (Suc k) c' w' s'"
    if k: "k < BLOCK_DIV16 * 4" and I: "?I k c w s" for k c w s
  proof -
    obtain d1 buf where s: "s = (d1, buf)" by (cases s)
    have k': "k < 128" using k by (simp add: BLOCK_DIV16_16)
    have buf: "buf = drop (16 * k) Buffer" "16 \<le> length buf" using I k' assms(4) by (simp_all add: s)
    have rest: "drop 16 buf = drop (16 * Suc k) Buffer" by (simp add: buf(1) add.commute)
    let ?w = "fold Dataflash_SendByte (take 16 buf)"
    consider "k < 64" | "k = 64" | "64 < k" by linarith
    then show ?thesis
    proof cases
      case 1
      have i: "c = (?p, of_nat k, False)" "write_inv ?A ?data ?f k (?p, of_nat k, False) d1" "df_busy (df_chips d1 0) = 0" "df_buf (df_chips d1 0) 2 = ?X"
        using I 1 by (auto simp: s)
      have q: "unat (of_nat k :: u8) \<noteq> 64" "unat (of_nat k :: u8) = k" using 1 by (simp_all add: of8)
      have sel: "df_selected (Some 1) d1" using i(2) chips(1) by (simp add: write_inv_def)
      have le: "16 * k + 16 \<le> length ?data" "?A + length ?data \<le> 67108864" using 1 assms(3,4) at fp(1) by simp_all
      have bs: "take 16 buf = take 16 (drop (16 * k) ?data)" using 1 assms(4) by (simp add: buf(1) drop_take min_def)
      have "write_inv ?A ?data ?f (Suc k) (?p, of_nat k + 1, False) (?w d1)" unfolding bs by (rule write_step [OF i(2) q(1) le])
      moreover have "df_chips (?w d1) 0 = df_chips d1 0" using sel by (simp add: fold_send_selected)
      moreover have "next_page fill_first_buffer (of_nat (4 - k div BLOCK_DIV16)) c d1 = Inr (c, d1)"
        using q(1) by (simp add: i(1) next_page_def PAGE_DIV16_unat)
      ultimately show ?thesis
        using i buf(2) rest 1 of8(1) [of k] by (simp add: s ram_write_chunk_def add.commute)
    next
      case 2
      have i: "c = (?p, PAGE_DIV16, False)" "write_inv ?A ?data ?f k (?p, PAGE_DIV16, False) d1" "df_busy (df_chips d1 0) = 0" "df_buf (df_chips d1 0) 2 = ?X"
        using I 2 by (auto simp: s PAGE_DIV16_def DATAFLASH_PAGE_SIZE_def)
      have "of_nat (4 - k div BLOCK_DIV16) = (2 :: u16)" by (simp add: 2 BLOCK_DIV16_16)
      moreover obtain d2 where n: "next_page fill_first_buffer 2 (?p, PAGE_DIV16, False) d1 = Inr ((?p + 1, 0, True), d2)"
        "wrong_buffer ?A ?data ?f (?p + 1) ?X 0 (?p + 1, 0, True) d2"
        using wrong_buffer_begins [OF i(2) at _ _ i(3)] assms(2,3) i(4) by (auto simp: fp(1))
      moreover have "wrong_buffer ?A ?data ?f (?p + 1) ?X 1 (?p + 1, 1, True) (?w d2)"
        using wrong_buffer_fills [OF n(2), of "take 16 buf"] buf(2) by simp
      ultimately show ?thesis using i(1) buf(2) rest 2 by (simp add: s ram_write_chunk_def)
    next
      case 3
      then obtain m where m: "k - 64 = m" "Suc k - 64 = Suc m" "m < 64" using k' by (metis Suc_diff_le less_imp_le less_diff_conv2 numeral_Bit0 numeral_plus_numeral)
      have i: "wrong_buffer ?A ?data ?f (?p + 1) ?X m (?p + 1, of_nat m, True) d1" "c = (?p + 1, of_nat m, True)"
        using I 3 by (auto simp: s m wrong_buffer_def)
      have "(of_nat m :: u8) \<noteq> PAGE_DIV16" using m(3) by (simp add: PAGE_DIV16_unat of8)
      then have "next_page fill_first_buffer (of_nat (4 - k div BLOCK_DIV16)) c d1 = Inr (c, d1)" by (simp add: i(2) next_page_def)
      moreover have "wrong_buffer ?A ?data ?f (?p + 1) ?X (Suc m) (?p + 1, of_nat m + 1, True) (?w d1)"
        using wrong_buffer_fills [OF i(1) m(3), of "take 16 buf"] buf(2) by simp
      ultimately show ?thesis using i(2) buf(2) rest 3 m(2) by (simp add: s ram_write_chunk_def)
    qed
  qed
  have "start_cursor B = (?p, 0, False)" by (simp add: start_cursor_def fp(2))
  then have "?I 0 (start_cursor B) [] (d0, Buffer)" using b by simp
  from transfer_blocks_rule [where chunk = ram_write_chunk and N = 4 and I = ?I and w = "[]", OF step this] obtain c' d1 w' s' where
    t: "transfer_blocks ram_write_chunk 4 (start_cursor B) [] (d0, Buffer) = Inr (Some c', (d1, s'), w')"
      "wrong_buffer ?A ?data ?f (?p + 1) ?X 64 c' d1"
    by (auto simp: BLOCK_DIV16_16)
  from wrong_buffer_ends [OF t(2) chips(2)] obtain d2 where
    e: "end_write c' d1 = Inr ((), d2)" "\<forall>a < 16777216. disk_at (Dataflash_DeselectChip d2) a =
       (if 1024 * unat (?p + 1) \<le> a \<and> a < 1024 * unat (?p + 1) + 1024 then ?X (a - 1024 * unat (?p + 1))
        else written_to (1024 * unat (?p + 1)) ?A ?data ?f a)" by blast
  have "DataflashManager_WriteBlocks_RAM B 4 Buffer d = Inr (Dataflash_DeselectChip d2)"
    using b(1) t(1) e(1) by (simp add: DataflashManager_WriteBlocks_RAM_def)
  moreover have "disk_at (Dataflash_DeselectChip d2) a =
      (if 1024 * P \<le> a \<and> a < 1024 * P + 1024 then Buffer ! (a - 1024 * P)
       else if 1024 * P + 1024 \<le> a \<and> a < 1024 * P + 2048 then ?X (a - (1024 * P + 1024)) else disk_at d a)" if "a < 16777216" for a
  proof -
    have x: "1024 * unat (?p + 1) = 1024 * P + 1024" "?A = 1024 * P" using assms(1) by (simp_all only: p1) simp_all
    from e(2) that have "disk_at (Dataflash_DeselectChip d2) a = (if 1024 * P + 1024 \<le> a \<and> a < 1024 * P + 1024 + 1024
        then ?X (a - (1024 * P + 1024)) else written_to (1024 * P + 1024) (1024 * P) ?data ?f a)" unfolding x by blast
    then show ?thesis by (auto simp: written_to_def)
  qed
  ultimately show ?thesis by blast
qed

theorem WriteBlocks_RAM_stale_witness:
  "\<exists>d'. DataflashManager_WriteBlocks_RAM 2 4 (replicate 2048 7) df_demo = Inr d' \<and>
    disk_at d' 1023 = 0xA5 \<and> disk_at d' 1024 = 7 \<and> disk_at d' 2047 = 7 \<and> disk_at d' 2048 = 0 \<and> disk_at d' 3071 = 0 \<and> disk_at d' 3072 = 0xA5"
proof -
  have "unat (2 :: u32) = 2 * 1" "odd (1 :: nat)" "1 < (16383 :: nat)" "length (replicate 2048 (7 :: u8)) = 2048" by simp_all
  from WriteBlocks_RAM_stale [OF this df_demo(1,2)] show ?thesis
    using df_demo(3) [of 1023] df_demo(3) [of 3072] unfolding df_demo(4) by auto
qed

end
