(* ===== verification/Spec2Isabelle.thy ===== *)
theory Spec2Isabelle
  imports Reachable UsbDebugControl TestPrograms DfuProtocol BootDescriptors Scheduler SerialBridge
    HidDevice MidiDevice MassTransport CdcBootSession ScsiAnswers DiskRam
begin

text \<open>
  Verification library of the teensy USB store.

  \<^bold>\<open>The program.\<close> A Teensy board (ATmega32U4) stores 256 data objects of two bytes and shows
  the last ones on a hexadecimal display; a Linux driver makes it a character device. The driver
  (\<open>src/main.c\<close>, \<open>src/file_ops.c\<close>) turns \<open>write\<close>, \<open>read\<close> and \<open>ioctl\<close> into the nine-byte commands of
  \<open>src/commands.h\<close>, sent as bulk transfers to two OUT endpoints, and collects data from one IN
  endpoint. On the board \<open>src/gadget/main.c\<close> polls the endpoints in \<open>StoreTask\<close>, over the USB device
  library LUFA (\<open>src/gadget/LUFA/LUFA/Drivers/USB\<close>), with \<open>teensy_blobs.c\<close> as storage and
  \<open>teensy_display.c\<close> as display; the endpoint and general interrupts of the library answer the host's
  control requests meanwhile. \<open>src/gadget/usb_debug_only.c\<close> is a second, self-contained USB driver, the
  board's debug channel. \<open>src/tests\<close> holds user programs that exercise the driver. The LUFA tree in the
  repository brings further programs on the same endpoint layer; those with logic of their own that are
  modelled are three boot loaders and a USB to serial adapter.

  \<^bold>\<open>Theories and code.\<close> \<open>gadget/\<close> is \<open>src/gadget\<close>, \<open>USB/\<close> is \<open>src/gadget/LUFA/LUFA/Drivers/USB\<close>. A function
  of the code keeps its name; its static and global variables are fields of the state record of its
  theory, and it returns the record updated.

  \<^item> \<open>Prelude\<close>: integer types, bit idioms, little-endian words, \<open>waits\<close> (a polling loop ends or the
    events run out) and \<open>poll_until\<close> with its rules.
  \<^item> \<open>Commands\<close> (\<open>src/commands.h\<close>): codes and packed structures as bytes.
  \<^item> \<open>Blobs\<close> (\<open>gadget/teensy_blobs.c\<close>): \<open>blobs_init\<close>, \<open>teensy_store\<close>, \<open>teensy_read\<close>, \<open>teensy_delete\<close>.
  \<^item> \<open>Display\<close> (\<open>gadget/teensy_display.c\<close>, \<open>gadget/teensy_main.c\<close>): the port registers, \<open>digitalWrite\<close>,
    \<open>out_hex\<close>, \<open>Display_Init\<close>, and the scrolling loop of the stand-alone program.
  \<^item> \<open>AvrUsb\<close> (\<open>USB/LowLevel/Endpoint.h\<close>): the controller's registers, with the reactions of the
    hardware, and the macros and inline functions on them.
  \<^item> \<open>UsbDevice\<close> (\<open>USB/LowLevel/Endpoint.c\<close>, \<open>Template/\<close>, \<open>USB/HighLevel/USBInterrupt.h\<close>): endpoint
    configuration, waiting, the stream and control transfers. \<open>Streams\<close>, \<open>Control\<close>: what these transfers
    do over several packets.
  \<^item> \<open>UsbInterface\<close> (\<open>USB/LowLevel/LowLevel.c\<close>, \<open>USB/HighLevel/USBInterrupt.c\<close>): initialisation, reset,
    shut-down, and the general interrupt with its connection, suspend, wake-up and reset branches.
  \<^item> \<open>Chapter9\<close> (\<open>USB/LowLevel/DevChapter9.c\<close>, \<open>USB/HighLevel/USBTask.c\<close>): every standard request and the
    endpoint interrupt. \<open>Enumeration\<close>: each request from its SETUP packet to its status stage.
  \<^item> \<open>ConfigDescriptor\<close> (\<open>USB/HighLevel/ConfigDescriptor.c\<close>): the searches over a configuration.
    \<open>Descriptors\<close> (\<open>gadget/desc.c\<close>): the gadget's own descriptors, searched with them.
  \<^item> \<open>Gadget\<close> (\<open>gadget/main.c\<close>): \<open>Init\<close>, the events, \<open>StoreTask\<close>, \<open>main\<close>. \<open>StoreSpec\<close>: the abstract machine
    with one slot per endpoint, and the simulation. \<open>GadgetUsb\<close>: configuration, hang and LED.
  \<^item> \<open>HostOps\<close> (\<open>src/file_ops.c\<close>), \<open>HostProbe\<close> (\<open>src/main.c\<close>): the driver's file operations and life
    cycle, over a record of the kernel functions they call and a store of kernel objects.
  \<^item> \<open>SysModel\<close>, \<open>SysTheorems\<close>: the driver's operations against the gadget. \<open>Reachable\<close>: every order of
    the bus's events and the gadget's rounds, as an inductive step relation.
  \<^item> \<open>HidParser\<close>, \<open>HidInvariant\<close>, \<open>HidFields\<close> (\<open>USB/Class/Host/HIDParser.c\<close>): the parser of HID report
    descriptors, its invariant and faults, the accessors of report fields.
  \<^item> \<open>UsbDebug\<close>, \<open>UsbDebugStream\<close>, \<open>UsbDebugControl\<close> (\<open>gadget/usb_debug_only.c\<close>): the debug channel, the
    order of its characters, its control requests.
  \<^item> \<open>ControlOut\<close>: the OUT data stage of a control transfer as a boot loader polls it, with the locale
    \<open>packet_source\<close>, and the macros of \<open>Endpoint.h\<close> in the \<open>CONTROL_ONLY_DEVICE\<close> configuration. \<open>FlashMem\<close>:
    the processor's flash memory, with its page buffer.
  \<^item> \<open>DfuBoot\<close> (\<open>gadget/LUFA/Bootloaders/DFU\<close>): the DFU boot loader; \<open>DfuSecure\<close>: its secure mode, as
    noninterference; \<open>DfuProtocol\<close>: downloads, the start of the application, the read commands. \<open>TeensyBoot\<close>
    (\<open>gadget/LUFA/Bootloaders/TeensyHID\<close>): the HID boot loader.
  \<^item> \<open>CdcBoot\<close> (\<open>gadget/LUFA/Bootloaders/CDC\<close>): the serial boot loader with its AVR910 protocol. \<open>CdcBootLink\<close>:
    the host at the other end of its two data endpoints, and total correctness triples (\<open>gives\<close>: a function
    returns within a number of the host's turns and reaches its postcondition) for the functions that move
    bytes. \<open>CdcBootCommands\<close>: the protocol as an abstract machine on the memories, and the triple of each command.
    \<open>CdcBootSession\<close>: commands one after the other, the address range, the chip erase, programming and
    reading back. \<open>BootDescriptors\<close>: the descriptors of the three boot loaders.
  \<^item> \<open>Scheduler\<close> (\<open>gadget/LUFA/LUFA/Scheduler\<close>): delay counters, the task table, the round robin.
  \<^item> \<open>RingBuffer\<close> (\<open>RingBuff.c\<close> of the serial projects), \<open>CdcDevice\<close> (\<open>USB/Class/Device/CDC.c\<close>), \<open>SerialBridge\<close>
    (\<open>gadget/LUFA/Projects/USBtoSerial\<close>): the serial adapter, its buffers and its class driver.
  \<^item> \<open>HidDevice\<close>, \<open>MidiDevice\<close>, \<open>MassStorage\<close> (\<open>USB/Class/Device\<close>): the device side of three more class drivers;
    \<open>MassTransport\<close>: the bulk-only transport of commands, their data and their status, with the halt of failed ones.
  \<^item> \<open>Dataflash\<close> (\<open>gadget/LUFA/LUFA/Drivers/Board\<close>, the USBKEY board): the driver of two memory chips, with the
    reactions of a chip. \<open>DataflashManager\<close> (\<open>Lib/DataflashManager.c\<close> of the mass storage demonstration): blocks
    of a disk on the two chips, from and to an endpoint or memory. \<open>DiskBlocks\<close>: the rules for their commands
    and loops. \<open>DiskRead\<close>, \<open>DiskStream\<close>, \<open>DiskWrite\<close>, \<open>DiskTurn\<close>, \<open>DiskSave\<close> and \<open>DiskStore\<close>: both chips
    together are one array of bytes, of which blocks are read and written; \<open>DiskRam\<close>: the function for blocks in
    memory mixes up the buffers of a chip. \<open>Scsi\<close> (\<open>Lib/SCSI.c\<close>): the commands of the demonstration;
    \<open>ScsiCommands\<close>, \<open>ScsiAnswers\<close>: what they do on that array and what they answer.
  \<^item> \<open>TestPrograms\<close> (\<open>src/tests\<close>): the helpers of \<open>utils.c\<close> and the eleven tests.

  \<^bold>\<open>How the parts are composed.\<close> \<open>StoreTask\<close> calls the modelled library, storage and display, so a state
  of the gadget is their states together. \<open>StoreTask_refines\<close> shows that a round on a configured gadget
  is a step of the abstract machine; the locale \<open>dev_sim\<close> carries this through every operation of the
  driver (\<open>ops\<close>, a \<open>kapi_sim\<close>), and its interpretation \<open>on_bus\<close> gives \<open>driver_is_an_array\<close>: requests made
  through the driver are answered as an array answers them. \<open>bus_runs_safe\<close> drops the ordering that
  theorem rests on, and \<open>write_race_misdirects\<close> shows what is then lost. The other interfaces are
  \<open>slot_store\<close> (an indexed store: the storage \<open>blobs\<close> and the pins of the port registers \<open>pins\<close>) and
  \<open>kernel\<close> (what the driver relies on of semaphore, transfers and user copies; \<open>sysk\<close> is the kernel
  whose transfers reach the gadget), \<open>packet_source\<close> (words fetched packet by packet: \<open>dfu_out\<close> and \<open>teensy_out\<close> in
  the two boot loaders) and \<open>byte_queue\<close> (a bounded queue: \<open>ringq\<close>, on which the serial adapter's delivery
  \<open>serial_bridge_delivers\<close> rests, with the facts of \<open>CdcDevice\<close> on the endpoints).

  \<^bold>\<open>Errors, bounds and fuel.\<close> An access outside an array, through a null pointer or to a freed object is
  a value of its own (\<open>Fault\<close>), as are the error codes of the code. The world outside (host, bus,
  frame clock) is a finite list of events, one taken each time the code polls a register; a polling
  loop that meets the end of the list has no answer yet (\<open>Waiting\<close>), and liveness theorems say which
  events are enough. The searches over a configuration are \<open>partial_function (option)\<close>, so a loop that
  never ends is \<open>None\<close>. Two loops of the gadget carry fuel, and running out of it is \<open>Hang\<close>, a loop with no end:
  \<open>epsize_fuel\<close> is 17, since the doubled size has become 0 before that and never grows again;
  \<open>pad_fuel\<close> is 1025, since a bank holds at most 1024 bytes and every pass fills one. The theorems that
  use them (\<open>BytesToEPSizeMask_smallest\<close>, \<open>debug_channel_keeps_order\<close>) show a result, so the fuel was
  not used up. The page loop of \<open>TeensyBoot\<close> has 129 rounds: its counter is a byte that grows by 2, so
  after 128 it is back where it began and the test comes out as before. The blocking read of \<open>CdcDevice\<close>
  takes one event of the world in each round. The
  endless loops of \<open>main\<close> are cut after a number of rounds.

  \<^bold>\<open>Assumptions.\<close> The reactions of the USB controller (theory \<open>AvrUsb\<close>, first sections) are those of the
  data sheet with one bank per endpoint. Integers have the widths of avr-gcc on the board and of a
  64-bit Linux on the host; the file sizes and results in \<open>TestPrograms\<close> are unbounded integers, which
  are only compared, combined bit by bit and returned. Events of the world happen
  at the polls of a waiting loop and between the calls the theorems name; an interrupt in the middle of
  straight-line code is not modelled.

  The data register of the USART (\<open>SerialBridge\<close>) is always emptied by the hardware. The DFU boot loader
  is modelled with the library as the gadget builds it; on its control endpoint the macros of
  \<open>CONTROL_ONLY_DEVICE\<close> do the same, which \<open>ControlOut\<close> shows. The serial boot loader is modelled for the
  processor of its makefile, whose \<open>int\<close> has 16 bits; a value shifted out of them wraps, as avr-gcc compiles it.
  \<open>boot_lock_bits_set\<close> and \<open>boot_lock_fuse_bits_get\<close> are macros of the C library and do what its documentation
  says. Its host sends packets that are not empty and fit the bank, and collects each packet at its turn.
  A memory chip of the demonstration follows its data sheet; it is busy until its status has been read a number of
  times, so one that is not waited for stays busy, and the theorems on the disk ask that both are at rest before a command.
  The code waits at the end of a write for the memory of the last page only; \<open>df_finish\<close> is the time the other one needs,
  after which the theorems apply to the next command. Without it a read gets the byte 0xFF for all of a page
  (\<open>busy_page_reads_FF\<close>). The host of the bulk-only transport (\<open>MassTransport\<close>) clears a halt and collects a packet at the
  first poll.

  \<^bold>\<open>Not modelled.\<close> The host mode of LUFA (\<open>Pipe\<close>, \<open>Host\<close>, \<open>HostChapter9\<close>, \<open>OTG\<close>) is not compiled by the
  gadget's makefile, which sets \<open>USB_DEVICE_ONLY\<close>. The other class drivers, board and peripheral drivers,
  demonstrations, projects and boot loaders are the vendor's and are not linked into the gadget; nor are
  those that are modelled, which were taken because they are whole programs or libraries with contracts
  of their own (the HID parser also because it reads descriptors of the kind the debug channel sends).
  Clock, watchdog and interrupt vector registers are left out of the set-up of every program. The
  command-line client (\<open>src/cli\<close>) is Haskell, and the makefiles and scripts
  hold no logic. \<open>printk\<close>, \<open>printf\<close> and the driver's table of function pointers have no effect on the
  state modelled.

  \<^bold>\<open>What could follow.\<close> The components left out above that run on the modelled endpoint layer: the network and
  audio class drivers.
\<close>

end
